(* ===== verification/Prelude.thy ===== *)
theory Prelude
  imports Main "HOL-Library.Word" "HOL-Library.Sublist"
begin

text \<open>
  Shared vocabulary of the development.

  \<^item> Machine types: a byte is an \<open>8 word\<close>, \<open>u32\<close>/\<open>u64\<close>/\<open>i32\<close> are words of that width
    (arithmetic wraps, as in a release build), \<open>usize\<close> is a \<open>nat\<close> below \<open>2 ^ 64\<close> with
    \<open>checked_add\<close> written out.
  \<^item> \<open>Result<T, E>\<close> is \<open>'e + 't\<close>; \<open>and_then\<close> is the \<open>?\<close> operator.
  \<^item> Byte slices \<open>&xs[a..b]\<close> are \<open>slice a b xs\<close>; the callers check the bounds as the code
    does.
  \<^item> \<open>u32::from_le_bytes\<close>, \<open>to_le_bytes\<close>, \<open>from_be_bytes\<close>, \<open>to_be_bytes\<close> and their round
    trips.
\<close>

unbundle bit_operations_syntax

section \<open>Types\<close>

type_synonym byte = "8 word"
type_synonym bytes = "8 word list"
type_synonym u32 = "32 word"
type_synonym u64 = "64 word"
type_synonym i32 = "32 word"

named_theorems wire_simps \<open>evaluation rules of the wire-format readers and writers\<close>
named_theorems state_simps \<open>characteristic equations of the state operations\<close>

section \<open>Results\<close>

definition and_then :: "'e + 'a \<Rightarrow> ('a \<Rightarrow> 'e + 'b) \<Rightarrow> 'e + 'b" where
  "and_then r f = (case r of Inl e \<Rightarrow> Inl e | Inr x \<Rightarrow> f x)"

lemma and_then_simps [simp]:
  "and_then (Inl e) f = Inl e"
  "and_then (Inr x) f = f x"
  by (simp_all add: and_then_def)

lemma and_then_eq_Inr:
  "and_then r f = Inr y \<longleftrightarrow> (\<exists>x. r = Inr x \<and> f x = Inr y)"
  by (cases r) auto

lemma and_then_eq_Inl:
  "and_then r f = Inl e \<longleftrightarrow> r = Inl e \<or> (\<exists>x. r = Inr x \<and> f x = Inl e)"
  by (cases r) auto

definition ok_or :: "'e \<Rightarrow> 'a option \<Rightarrow> 'e + 'a" where
  "ok_or e x = (case x of None \<Rightarrow> Inl e | Some v \<Rightarrow> Inr v)"

lemma ok_or_simps [simp]:
  "ok_or e None = Inl e"
  "ok_or e (Some v) = Inr v"
  by (simp_all add: ok_or_def)

section \<open>Slices and sizes\<close>

definition slice :: "nat \<Rightarrow> nat \<Rightarrow> 'a list \<Rightarrow> 'a list" where
  "slice a b xs = take (b - a) (drop a xs)"

lemma length_slice: "b \<le> length xs \<Longrightarrow> length (slice a b xs) = b - a"
  by (simp add: slice_def)

lemma slice_append_left: "b \<le> length xs \<Longrightarrow> slice a b (xs @ ys) = slice a b xs"
  by (cases "a \<le> length xs") (simp_all add: slice_def)

lemma slice_append_exact:
  "a = length xs \<Longrightarrow> b = length xs + length ys \<Longrightarrow> slice a b (xs @ ys @ zs) = ys"
  by (simp add: slice_def)

lemma slice_take: "b \<le> n \<Longrightarrow> slice a b (take n xs) = slice a b xs"
  by (simp add: slice_def drop_take min_def)

definition usize_limit :: nat where
  "usize_limit = 2 ^ 64"

definition checked_add :: "nat \<Rightarrow> nat \<Rightarrow> nat option" where
  "checked_add a b = (if a + b < usize_limit then Some (a + b) else None)"

lemma checked_add_small: "a + b < 2 ^ 64 \<Longrightarrow> checked_add a b = Some (a + b)"
  by (simp add: checked_add_def usize_limit_def)

section \<open>Byte order\<close>

fun u32_of_le :: "bytes \<Rightarrow> u32" where
  "u32_of_le [a, b, c, d] =
     ucast a OR push_bit 8 (ucast b) OR push_bit 16 (ucast c) OR push_bit 24 (ucast d)"
| "u32_of_le _ = 0"

fun u32_of_be :: "bytes \<Rightarrow> u32" where
  "u32_of_be [a, b, c, d] = u32_of_le [d, c, b, a]"
| "u32_of_be _ = 0"

definition u32_to_le :: "u32 \<Rightarrow> bytes" where
  "u32_to_le n = [ucast n, ucast (drop_bit 8 n), ucast (drop_bit 16 n), ucast (drop_bit 24 n)]"

definition u32_to_be :: "u32 \<Rightarrow> bytes" where
  "u32_to_be n = rev (u32_to_le n)"

definition u64_to_le :: "u64 \<Rightarrow> bytes" where
  "u64_to_le n = map (\<lambda>i. ucast (drop_bit (8 * i) n)) [0 ..< 8]"

lemma length_u32_to_le [simp]: "length (u32_to_le n) = 4"
  by (simp add: u32_to_le_def)

lemma length_u32_to_be [simp]: "length (u32_to_be n) = 4"
  by (simp add: u32_to_be_def)

lemma u32_of_to_le [simp, wire_simps]: "u32_of_le (u32_to_le n) = n"
  unfolding u32_to_le_def
proof (rule bit_word_eqI)
  fix i assume "i < LENGTH(32)"
  moreover have "i - 16 < 8 \<or> 24 + (i - 24) = i" by arith
  ultimately show "bit (u32_of_le [ucast n, ucast (drop_bit 8 n), ucast (drop_bit 16 n),
      ucast (drop_bit 24 n)]) i = bit n i"
    by (auto simp: bit_simps)
qed

lemma u32_of_to_be [simp, wire_simps]: "u32_of_be (u32_to_be n) = n"
  using u32_of_to_le [of n] by (simp add: u32_to_be_def u32_to_le_def)

lemma length_u64_to_le [simp]: "length (u64_to_le n) = 8"
  by (simp add: u64_to_le_def)

lemma u64_to_le_inj: "u64_to_le a = u64_to_le b \<Longrightarrow> a = b"
proof (rule bit_word_eqI)
  fix n assume eq: "u64_to_le a = u64_to_le b" and n: "n < LENGTH(64)"
  let ?i = "n div 8"
  have i: "?i < 8" using n by simp
  have "u64_to_le a ! ?i = u64_to_le b ! ?i" by (simp add: eq)
  then have "(ucast (drop_bit (8 * ?i) a) :: byte) = ucast (drop_bit (8 * ?i) b)"
    using i by (simp add: u64_to_le_def)
  then have "bit (ucast (drop_bit (8 * ?i) a) :: byte) (n mod 8)
           = bit (ucast (drop_bit (8 * ?i) b) :: byte) (n mod 8)" by simp
  then show "bit a n = bit b n"
    by (simp add: bit_simps)
qed

section \<open>Counters\<close>

lemma u64_succ:
  fixes k :: u64
  assumes "unat k + 1 < 2 ^ 64"
  shows "unat (k + 1) = unat k + 1" and "k < k + 1"
proof -
  show s: "unat (k + 1) = unat k + 1"
    using assms by (simp add: unat_word_ariths(1))
  then show "k < k + 1" by (simp add: word_less_nat_alt)
qed

section \<open>Signed numbers\<close>

text \<open>\<open>n as usize\<close> of an \<open>i32\<close> that is not negative.\<close>

lemma unat_sint:
  assumes "0 \<le> sint (n :: i32)"
  shows "unat n = nat (sint n)"
proof -
  have "uint n = take_bit LENGTH(32) (sint n)" by (rule uint_sint)
  also have "\<dots> = sint n"
    using assms sint_lt [of n] by (intro take_bit_int_eq_self) simp_all
  finally show ?thesis by (simp flip: nat_uint_eq)
qed

section \<open>Strings\<close>

text \<open>\<open>str::strip_prefix\<close>, \<open>str::starts_with\<close> and \<open>s.split(c).next()\<close>.\<close>

fun strip_prefix :: "'a list \<Rightarrow> 'a list \<Rightarrow> 'a list option" where
  "strip_prefix [] s = Some s"
| "strip_prefix (p # ps) [] = None"
| "strip_prefix (p # ps) (c # cs) = (if p = c then strip_prefix ps cs else None)"

definition starts_with :: "'a list \<Rightarrow> 'a list \<Rightarrow> bool" where
  "starts_with p s = (strip_prefix p s \<noteq> None)"

definition split_first :: "'a \<Rightarrow> 'a list \<Rightarrow> 'a list" where
  "split_first c s = takeWhile (\<lambda>x. x \<noteq> c) s"

lemma strip_prefix_iff: "strip_prefix p s = Some r \<longleftrightarrow> s = p @ r"
  by (induction p s rule: strip_prefix.induct) auto

end
