(* ===== verification/Keyed_Store.thy ===== *)
theory Keyed_Store
  imports Prelude "HOL-Library.AList" "HOL-Library.Multiset"
begin

text \<open>
  Tables. A Rust \<open>HashMap\<close> is an association list with distinct keys: \<open>insert\<close>, \<open>remove\<close>,
  \<open>get\<close> are \<open>AList.update\<close>, \<open>AList.delete\<close>, \<open>map_of\<close>. Iterating over a \<open>HashMap\<close> visits its
  keys in an unspecified order, so every loop takes the order from the environment, a
  permutation of the keys.

  The locale \<open>keyed_store\<close> is the contract that the program's tables share (the windows of
  \<open>AppManager\<close>, the inactive workspaces, the cursor cache of the IME bridge); its lemmas are
  about removing and inserting many keys in a loop.
\<close>

section \<open>The contract of a table\<close>

locale keyed_store =
  fixes get :: "'s \<Rightarrow> 'k \<Rightarrow> 'v option"
    and put :: "'k \<Rightarrow> 'v \<Rightarrow> 's \<Rightarrow> 's"
    and rem :: "'k \<Rightarrow> 's \<Rightarrow> 's"
  assumes get_put: "get (put k v s) k' = (if k' = k then Some v else get s k')"
    and get_rem: "get (rem k s) k' = (if k' = k then None else get s k')"
begin

lemma get_fold_rem:
  "get (fold rem ks s) k = (if k \<in> set ks then None else get s k)"
  by (induction ks arbitrary: s) (auto simp: get_rem)

lemma get_fold_put:
  assumes "distinct (map fst kvs)"
  shows "get (fold (\<lambda>(k, v). put k v) kvs s) k = (case map_of kvs k of None \<Rightarrow> get s k | Some v \<Rightarrow> Some v)"
  using assms
proof (induction kvs arbitrary: s)
  case (Cons kv kvs)
  obtain k' v where kv: "kv = (k', v)" by force
  have "map_of kvs k' = None" using Cons.prems kv by (simp add: map_of_eq_None_iff)
  then show ?case using Cons.prems kv
    by (auto simp: Cons.IH get_put split: option.splits)
qed simp

lemma dom_rem: "dom (get (rem k s)) = dom (get s) - {k}"
  by (auto simp: dom_def get_rem split: if_splits)

lemma dom_put: "dom (get (put k v s)) = insert k (dom (get s))"
  by (auto simp: dom_def get_put split: if_splits)

lemma dom_fold_rem: "dom (get (fold rem ks s)) = dom (get s) - set ks"
  by (induction ks arbitrary: s) (auto simp: dom_rem)

lemma rem_absent: "get s k = None \<Longrightarrow> get (rem k s) k' = get s k'"
  by (auto simp: get_rem)

end

interpretation alist: keyed_store "map_of :: ('k \<times> 'v) list \<Rightarrow> _" AList.update AList.delete
  by unfold_locales (auto simp: update_conv' delete_conv')

section \<open>Iteration\<close>

text \<open>\<open>order\<close> chooses the order in which a loop visits the keys.\<close>

definition iteration_order :: "('k list \<Rightarrow> 'k list) \<Rightarrow> bool" where
  "iteration_order order = (\<forall>ks. mset (order ks) = mset ks)"

lemma iteration_set: "iteration_order order \<Longrightarrow> set (order ks) = set ks"
  unfolding iteration_order_def by (metis mset_eq_setD)

lemma iteration_distinct: "iteration_order order \<Longrightarrow> distinct (order ks) = distinct ks"
  unfolding iteration_order_def by (metis mset_eq_imp_distinct_iff)

definition entries :: "('k list \<Rightarrow> 'k list) \<Rightarrow> ('k \<times> 'v) list \<Rightarrow> ('k \<times> 'v) list" where
  "entries order m = map (\<lambda>k. (k, the (map_of m k))) (order (map fst m))"

lemma set_entries:
  assumes "iteration_order order" and "distinct (map fst m)"
  shows "set (entries order m) = set m"
proof -
  have "(\<lambda>k. (k, the (map_of m k))) ` fst ` set m = set m"
    using assms(2) by (force simp: image_iff dest: map_of_is_SomeI)
  then show ?thesis by (simp add: entries_def iteration_set [OF assms(1)])
qed

lemma map_fst_entries: "map fst (entries order m) = order (map fst m)"
  by (simp add: entries_def comp_def)

lemma distinct_entries:
  "iteration_order order \<Longrightarrow> distinct (map fst m) \<Longrightarrow> distinct (map fst (entries order m))"
  by (simp add: map_fst_entries iteration_distinct)

lemma map_of_entries:
  assumes "iteration_order order" and "distinct (map fst m)"
  shows "map_of (entries order m) = map_of m"
  using assms by (simp add: map_of_inject_set distinct_entries set_entries)

lemma entries_Nil [simp]: "iteration_order order \<Longrightarrow> entries order [] = []"
  using iteration_set [of order "[]"] by (simp add: entries_def)

end
