(* ===== verification/Framing.thy ===== *)
theory Framing
  imports Prelude
begin

text \<open>
  Length-determined framing of a byte stream: the interface between the readers of the
  program (the D-Bus broker, the Emacs IPC connection) and the header decoder each of them
  calls to learn how many bytes the next message occupies.

  \<open>split_frames need buf\<close> is the abstract specification of a reader: cut complete messages off
  the front of the buffer until the decoder asks for more bytes or fails. The locale
  \<open>length_framing\<close> states what a decoder has to promise, and proves once that a reader does
  not depend on how the stream was cut into chunks.
\<close>

section \<open>The abstract reader\<close>

function split_frames ::
  "('a list \<Rightarrow> 'e + nat option) \<Rightarrow> 'a list \<Rightarrow> 'a list list \<times> 'a list \<times> 'e option" where
  "split_frames need buf =
     (case need buf of
        Inl e \<Rightarrow> ([], buf, Some e)
      | Inr None \<Rightarrow> ([], buf, None)
      | Inr (Some n) \<Rightarrow>
          if n = 0 \<or> length buf < n then ([], buf, None)
          else (case split_frames need (drop n buf) of
                  (fs, r, e) \<Rightarrow> (take n buf # fs, r, e)))"
  by pat_completeness auto
termination
  by (relation "measure (\<lambda>(need, buf). length buf)") auto

declare split_frames.simps [simp del]

lemma split_frames_conserve:
  "split_frames need buf = (fs, r, e) \<Longrightarrow> concat fs @ r = buf"
proof (induction need buf arbitrary: fs r e rule: split_frames.induct)
  case (1 need buf)
  from "1.prems" show ?case
    by (subst (asm) split_frames.simps)
      (auto split: sum.splits option.splits if_splits prod.splits dest!: "1.IH" [rotated 3])
qed

section \<open>The decoder's contract\<close>

locale length_framing =
  fixes need :: "'a list \<Rightarrow> 'e + nat option"
  assumes need_pos: "need xs = Inr (Some n) \<Longrightarrow> 0 < n"
    and need_more: "need xs = Inr (Some n) \<Longrightarrow> need (xs @ ys) = Inr (Some n)"
    and need_fail: "need xs = Inl e \<Longrightarrow> need (xs @ ys) = Inl e"
    and need_local: "need xs = Inr (Some n) \<Longrightarrow> n \<le> length xs \<Longrightarrow> need (take n xs) = Inr (Some n)"
begin

lemmas need_laws = need_pos need_more need_fail need_local

lemma split_step:
  "need buf = Inr (Some n) \<Longrightarrow> n \<le> length buf \<Longrightarrow>
     split_frames need buf =
       (case split_frames need (drop n buf) of (fs, r, e) \<Rightarrow> (take n buf # fs, r, e))"
  by (subst split_frames.simps) (auto dest: need_pos)

lemma split_stop:
  "need buf = Inr None \<Longrightarrow> split_frames need buf = ([], buf, None)"
  "need buf = Inl e \<Longrightarrow> split_frames need buf = ([], buf, Some e)"
  "need buf = Inr (Some n) \<Longrightarrow> length buf < n \<Longrightarrow> split_frames need buf = ([], buf, None)"
  by (subst split_frames.simps, simp)+

text \<open>Reading on after more bytes arrived gives the same messages as reading everything at once.\<close>

lemma split_append:
  "split_frames need xs = (fs, r, None) \<Longrightarrow> split_frames need (r @ ys) = (gs, q, e) \<Longrightarrow>
     split_frames need (xs @ ys) = (fs @ gs, q, e)"
proof (induction "length xs" arbitrary: xs fs rule: less_induct)
  case less
  show ?case
  proof (cases "\<exists>n. need xs = Inr (Some n) \<and> n \<le> length xs")
    case True
    then obtain n where n: "need xs = Inr (Some n)" "n \<le> length xs" by blast
    obtain fs' where tail: "split_frames need (drop n xs) = (fs', r, None)"
      and fs: "fs = take n xs # fs'"
      using less.prems(1) by (auto simp: split_step [OF n] split: prod.splits)
    have "split_frames need (drop n xs @ ys) = (fs' @ gs, q, e)"
      using less.hyps [OF _ tail less.prems(2)] n need_pos [OF n(1)] by simp
    moreover have "need (xs @ ys) = Inr (Some n)" by (rule need_more [OF n(1)])
    ultimately show ?thesis
      using n by (simp add: split_step fs)
  next
    case False
    then have "fs = [] \<and> r = xs"
      using less.prems(1)
      by (subst (asm) split_frames.simps) (auto split: sum.splits option.splits if_splits prod.splits)
    then show ?thesis using less.prems(2) by simp
  qed
qed

text \<open>Every message cut off is exactly as long as its own header says.\<close>

lemma split_exact:
  "split_frames need xs = (fs, r, e) \<Longrightarrow> f \<in> set fs \<Longrightarrow> need f = Inr (Some (length f))"
proof (induction "length xs" arbitrary: xs fs rule: less_induct)
  case less
  show ?case
  proof (cases "\<exists>n. need xs = Inr (Some n) \<and> n \<le> length xs")
    case True
    then obtain n where n: "need xs = Inr (Some n)" "n \<le> length xs" by blast
    obtain fs' where tail: "split_frames need (drop n xs) = (fs', r, e)"
      and fs: "fs = take n xs # fs'"
      using less.prems(1) by (auto simp: split_step [OF n] split: prod.splits)
    show ?thesis
    proof (cases "f = take n xs")
      case True
      then show ?thesis using need_local [OF n] n by simp
    next
      case False
      then show ?thesis
        using less.hyps [OF _ tail] less.prems(2) fs n need_pos [OF n(1)] by auto
    qed
  next
    case False
    then have "fs = []"
      using less.prems(1)
      by (subst (asm) split_frames.simps) (auto split: sum.splits option.splits if_splits prod.splits)
    then show ?thesis using less.prems(2) by simp
  qed
qed

text \<open>What is left over is not a complete message, and reading it again changes nothing.\<close>

lemma split_rest:
  "split_frames need xs = (fs, r, e) \<Longrightarrow> split_frames need r = ([], r, e)"
proof (induction "length xs" arbitrary: xs fs rule: less_induct)
  case less
  show ?case
  proof (cases "\<exists>n. need xs = Inr (Some n) \<and> n \<le> length xs")
    case True
    then obtain n where n: "need xs = Inr (Some n)" "n \<le> length xs" by blast
    obtain fs' where tail: "split_frames need (drop n xs) = (fs', r, e)"
      using less.prems(1) by (auto simp: split_step [OF n] split: prod.splits)
    show ?thesis
      using less.hyps [OF _ tail] n need_pos [OF n(1)] by auto
  next
    case False
    then have "fs = [] \<and> r = xs"
      using less.prems(1)
      by (subst (asm) split_frames.simps) (auto split: sum.splits option.splits if_splits prod.splits)
    then show ?thesis using less.prems by simp
  qed
qed

text \<open>A sequence of complete messages is read back as that sequence.\<close>

lemma split_messages:
  "(\<And>f. f \<in> set fs \<Longrightarrow> need f = Inr (Some (length f))) \<Longrightarrow>
     split_frames need rest = ([], rest, None) \<Longrightarrow>
     split_frames need (concat fs @ rest) = (fs, rest, None)"
proof (induction fs)
  case Nil
  then show ?case by simp
next
  case (Cons f fs)
  have f: "need f = Inr (Some (length f))" using Cons.prems(1) by simp
  have "need (concat (f # fs) @ rest) = Inr (Some (length f))"
    using need_more [OF f] by simp
  then show ?case
    using Cons by (simp add: split_step)
qed

end

end
