(* ===== verification/Ipc.thy ===== *)
theory Ipc
  imports Framing
begin

text \<open>
  The Emacs IPC channel, \<open>crates/emskin/src/ipc\<close>: the messages of \<open>messages.rs\<close>, the framed
  connection of \<open>connection.rs\<close> (4-byte little-endian length and a JSON payload) and the server
  of \<open>mod.rs\<close>, which keeps one connection and the messages waiting for it.

  JSON is \<open>serde_json\<close>'s: \<open>json_codec\<close> holds its two entry points. The kernel's answers to
  \<open>read\<close> and \<open>write\<close> are scripts in \<open>stream\<close>, an empty script means the call would block.
  The lemmas show that what is received depends on the byte stream only, and that the bytes
  written are the framed messages in the order they were sent.
\<close>

section \<open>Messages\<close>

record ipc_rect =
  r_x :: i32
  r_y :: i32
  r_w :: i32
  r_h :: i32

record skeleton_rect =
  sk_kind :: string
  sk_label :: string
  sk_rect :: ipc_rect
  sk_selected :: bool

datatype incoming_message =
    SetGeometry u64 ipc_rect
  | Close u64
  | SetVisibility u64 bool
  | PrefixDone
  | PrefixClear
  | AddMirror u64 u64 ipc_rect
  | UpdateMirrorGeometry u64 u64 ipc_rect
  | RemoveMirror u64 u64
  | PromoteMirror u64 u64
  | SetFocus "u64 option"
  | SetMeasure bool
  | SetCursorTrail bool
  | SetKeyCast bool
  | SetSkeleton bool "skeleton_rect list"
  | SwitchWorkspace u64
  | SetJellyCursor bool
  | SetCursorRectMsg ipc_rect "string option"
  | SetChildFrames "ipc_rect list"
  | TakeScreenshot string
  | SetRecording bool "string option" "u32 option"

datatype outgoing_message =
    Connected string
  | ErrorOut string
  | WindowCreated u64 string
  | WindowDestroyed u64
  | TitleChanged u64 string
  | SurfaceSize i32 i32
  | FocusView u64 u64
  | XWaylandReady u32
  | WorkspaceCreated u64
  | WorkspaceSwitched u64
  | WorkspaceDestroyed u64
  | RecordingStopped string u64 "64 word" string

record json_codec =
  to_json :: "outgoing_message \<Rightarrow> bytes option"
  from_json :: "bytes \<Rightarrow> incoming_message option"

section \<open>Connections\<close>

definition MAX_MSG_SIZE :: nat where
  "MAX_MSG_SIZE = 1024 * 1024"

datatype read_result = ReadEof | ReadData bytes | ReadErr

datatype write_result = Wrote nat | WriteErr

record stream =
  reads :: "read_result option list"
  writes :: "write_result option list"
  written :: bytes

text \<open>\<open>None\<close> in a script is \<open>WouldBlock\<close>.\<close>

record ipc_conn =
  ic_stream :: stream
  read_buf :: bytes
  write_buf :: bytes

definition ipc_conn_new :: "stream \<Rightarrow> ipc_conn" where
  "ipc_conn_new s = \<lparr>ic_stream = s, read_buf = [], write_buf = []\<rparr>"

text \<open>The reading loop: \<open>Inl ()\<close> is an error, \<open>Inr True\<close> that the peer closed.\<close>

fun fill_read_buf_loop :: "read_result option list \<Rightarrow> bytes \<Rightarrow> (unit + bool) \<times> read_result option list \<times> bytes" where
  "fill_read_buf_loop [] buf = (Inr False, [], buf)"
| "fill_read_buf_loop (None # rs) buf = (Inr False, rs, buf)"
| "fill_read_buf_loop (Some ReadEof # rs) buf = (Inr True, rs, buf)"
| "fill_read_buf_loop (Some (ReadData bs) # rs) buf = fill_read_buf_loop rs (buf @ bs)"
| "fill_read_buf_loop (Some ReadErr # rs) buf = (Inl (), rs, buf)"

definition fill_read_buf :: "ipc_conn \<Rightarrow> (unit + bool) \<times> ipc_conn" where
  "fill_read_buf c =
     (case fill_read_buf_loop (reads (ic_stream c)) (read_buf c) of
        (r, rs, buf) \<Rightarrow> (r, c\<lparr>ic_stream := (ic_stream c)\<lparr>reads := rs\<rparr>, read_buf := buf\<rparr>))"

definition try_recv :: "ipc_conn \<Rightarrow> (nat + bytes option) \<times> ipc_conn" where
  "try_recv c =
     (if length (read_buf c) < 4 then (Inr None, c)
      else
        (let len = unat (u32_of_le (slice 0 4 (read_buf c))) in
         if len > MAX_MSG_SIZE then (Inl len, c\<lparr>read_buf := []\<rparr>)
         else if length (read_buf c) < 4 + len then (Inr None, c)
         else (Inr (Some (slice 4 (4 + len) (read_buf c))),
               c\<lparr>read_buf := drop (4 + len) (read_buf c)\<rparr>)))"

text \<open>A serialisation error or a payload that does not fit a \<open>u32\<close> is logged and dropped.\<close>

definition enqueue :: "json_codec \<Rightarrow> outgoing_message \<Rightarrow> ipc_conn \<Rightarrow> ipc_conn" where
  "enqueue js msg c =
     (case to_json js msg of
        None \<Rightarrow> c
      | Some json \<Rightarrow>
          if length json < 2 ^ 32
          then c\<lparr>write_buf := write_buf c @ u32_to_le (word_of_nat (length json)) @ json\<rparr>
          else c)"

text \<open>
  The writing loop. The deque is offered as its first contiguous slice, so \<open>write\<close> takes some
  prefix of the buffer: \<open>Wrote k\<close> takes at most \<open>k\<close> bytes.
\<close>

fun ipc_flush_loop ::
  "write_result option list \<Rightarrow> bytes \<Rightarrow> bytes \<Rightarrow> (unit + bool) \<times> write_result option list \<times> bytes \<times> bytes" where
  "ipc_flush_loop ws sent [] = (Inr False, ws, sent, [])"
| "ipc_flush_loop [] sent buf = (Inr True, [], sent, buf)"
| "ipc_flush_loop (None # ws) sent buf = (Inr True, ws, sent, buf)"
| "ipc_flush_loop (Some WriteErr # ws) sent buf = (Inl (), ws, sent, buf)"
| "ipc_flush_loop (Some (Wrote 0) # ws) sent buf = (Inr True, ws, sent, buf)"
| "ipc_flush_loop (Some (Wrote (Suc k)) # ws) sent buf =
     ipc_flush_loop ws (sent @ take (Suc k) buf) (drop (Suc k) buf)"

definition ipc_try_flush :: "ipc_conn \<Rightarrow> (unit + bool) \<times> ipc_conn" where
  "ipc_try_flush c =
     (case ipc_flush_loop (writes (ic_stream c)) (written (ic_stream c)) (write_buf c) of
        (r, ws, sent, buf) \<Rightarrow>
          (r, c\<lparr>ic_stream := (ic_stream c)\<lparr>writes := ws, written := sent\<rparr>, write_buf := buf\<rparr>))"

definition has_pending_writes :: "ipc_conn \<Rightarrow> bool" where
  "has_pending_writes c = (write_buf c \<noteq> [])"

section \<open>The server\<close>

record ipc_server =
  ipc_connection :: "ipc_conn option"
  ipc_pending :: "outgoing_message list"

definition ipc_bind :: ipc_server where
  "ipc_bind = \<lparr>ipc_connection = None, ipc_pending = []\<rparr>"

text \<open>\<open>accept\<close>: \<open>None\<close> when the listener has nothing or fails, or the stream cannot be set up.\<close>

definition ipc_accept :: "json_codec \<Rightarrow> stream option \<Rightarrow> ipc_server \<Rightarrow> bool \<times> ipc_server" where
  "ipc_accept js accepted s =
     (case accepted of
        None \<Rightarrow> (False, s)
      | Some st \<Rightarrow>
          (let c = enqueue js (Connected ''0.1'') (ipc_conn_new st);
               c = fold (enqueue js) (ipc_pending s) c;
               c = snd (ipc_try_flush c) in
           (True, s\<lparr>ipc_connection := Some c, ipc_pending := []\<rparr>)))"

definition ipc_send :: "json_codec \<Rightarrow> outgoing_message \<Rightarrow> ipc_server \<Rightarrow> ipc_server" where
  "ipc_send js msg s =
     (case ipc_connection s of
        None \<Rightarrow> s\<lparr>ipc_pending := ipc_pending s @ [msg]\<rparr>
      | Some c \<Rightarrow>
          (case ipc_try_flush (enqueue js msg c) of
             (Inl _, c') \<Rightarrow> s\<lparr>ipc_connection := None\<rparr>
           | (Inr _, c') \<Rightarrow> s\<lparr>ipc_connection := Some c'\<rparr>))"

definition ipc_flush :: "ipc_server \<Rightarrow> ipc_server" where
  "ipc_flush s =
     (case ipc_connection s of
        None \<Rightarrow> s
      | Some c \<Rightarrow>
          (case ipc_try_flush c of
             (Inl _, c') \<Rightarrow> s\<lparr>ipc_connection := None\<rparr>
           | (Inr _, c') \<Rightarrow> s\<lparr>ipc_connection := Some c'\<rparr>))"

definition ipc_is_connected :: "ipc_server \<Rightarrow> bool" where
  "ipc_is_connected s = (ipc_connection s \<noteq> None)"

lemma try_recv_shorter:
  "try_recv c = (Inr (Some p), c') \<Longrightarrow> length (read_buf c') < length (read_buf c)"
  by (auto simp: try_recv_def Let_def split: if_splits)

text \<open>The decoding loop of \<open>recv_all\<close>: payloads that do not parse are logged and skipped.\<close>

function recv_loop ::
  "json_codec \<Rightarrow> ipc_conn \<Rightarrow> incoming_message list \<Rightarrow> incoming_message list option \<times> ipc_conn" where
  "recv_loop js c msgs =
     (case try_recv c of
        (Inl e, c') \<Rightarrow> (None, c')
      | (Inr None, c') \<Rightarrow> (Some msgs, c')
      | (Inr (Some payload), c') \<Rightarrow>
          recv_loop js c' (case from_json js payload of None \<Rightarrow> msgs | Some m \<Rightarrow> msgs @ [m]))"
  by pat_completeness auto
termination
  by (relation "measure (\<lambda>(js, c, msgs). length (read_buf c))") (auto dest: try_recv_shorter [OF sym])

declare recv_loop.simps [simp del]

definition recv_all :: "json_codec \<Rightarrow> ipc_server \<Rightarrow> incoming_message list option \<times> ipc_server" where
  "recv_all js s =
     (case ipc_connection s of
        None \<Rightarrow> (None, s)
      | Some c \<Rightarrow>
          (case fill_read_buf c of
             (Inl _, c') \<Rightarrow> (None, s\<lparr>ipc_connection := None\<rparr>)
           | (Inr True, c') \<Rightarrow> (None, s\<lparr>ipc_connection := None\<rparr>)
           | (Inr False, c') \<Rightarrow>
               (case recv_loop js c' [] of
                  (None, c'') \<Rightarrow> (None, s\<lparr>ipc_connection := None\<rparr>)
                | (Some msgs, c'') \<Rightarrow> (Some msgs, s\<lparr>ipc_connection := Some c''\<rparr>))))"

section \<open>Framing\<close>

definition ipc_needed :: "bytes \<Rightarrow> nat + nat option" where
  "ipc_needed buf =
     (if length buf < 4 then Inr None
      else let len = unat (u32_of_le (slice 0 4 buf)) in
        if len > MAX_MSG_SIZE then Inl len else Inr (Some (4 + len)))"

lemma ipc_needed_append: "4 \<le> length xs \<Longrightarrow> ipc_needed (xs @ ys) = ipc_needed xs"
  by (simp add: ipc_needed_def slice_append_left)

interpretation ipc_framing: length_framing ipc_needed
proof unfold_locales
  fix xs ys :: bytes and n e
  show "ipc_needed xs = Inr (Some n) \<Longrightarrow> 0 < n"
    by (auto simp: ipc_needed_def Let_def split: if_splits)
  show "ipc_needed xs = Inr (Some n) \<Longrightarrow> ipc_needed (xs @ ys) = Inr (Some n)"
    by (cases "4 \<le> length xs") (simp_all add: ipc_needed_append, simp add: ipc_needed_def)
  show "ipc_needed xs = Inl e \<Longrightarrow> ipc_needed (xs @ ys) = Inl e"
    by (cases "4 \<le> length xs") (simp_all add: ipc_needed_append, simp add: ipc_needed_def)
  show "ipc_needed xs = Inr (Some n) \<Longrightarrow> n \<le> length xs \<Longrightarrow> ipc_needed (take n xs) = Inr (Some n)"
    by (auto simp: ipc_needed_def Let_def slice_take split: if_splits)
qed

definition payload :: "bytes \<Rightarrow> bytes" where
  "payload frame = drop 4 frame"

definition decoded_messages :: "json_codec \<Rightarrow> bytes list \<Rightarrow> incoming_message list" where
  "decoded_messages js frames = List.map_filter (\<lambda>f. from_json js (payload f)) frames"

lemma try_recv_needed:
  "try_recv c =
     (case ipc_needed (read_buf c) of
        Inl e \<Rightarrow> (Inl e, c\<lparr>read_buf := []\<rparr>)
      | Inr None \<Rightarrow> (Inr None, c)
      | Inr (Some n) \<Rightarrow>
          if length (read_buf c) < n then (Inr None, c)
          else (Inr (Some (payload (take n (read_buf c)))), c\<lparr>read_buf := drop n (read_buf c)\<rparr>))"
  by (simp add: try_recv_def ipc_needed_def Let_def payload_def slice_def drop_take)

lemma recv_loop_spec:
  "split_frames ipc_needed (read_buf c) = (fs, r, e) \<Longrightarrow>
     recv_loop js c msgs =
       (case e of
          None \<Rightarrow> (Some (msgs @ decoded_messages js fs), c\<lparr>read_buf := r\<rparr>)
        | Some _ \<Rightarrow> (None, c\<lparr>read_buf := []\<rparr>))"
proof (induction js c msgs arbitrary: fs rule: recv_loop.induct)
  case (1 js c msgs)
  let ?buf = "read_buf c"
  show ?case
  proof (cases "\<exists>n. ipc_needed ?buf = Inr (Some n) \<and> n \<le> length ?buf")
    case True
    then obtain n where n: "ipc_needed ?buf = Inr (Some n)" "n \<le> length ?buf" by blast
    obtain fs' where tail: "split_frames ipc_needed (drop n ?buf) = (fs', r, e)"
      and fs: "fs = take n ?buf # fs'"
      using "1.prems" by (auto simp: ipc_framing.split_step [OF n] split: prod.splits)
    have rcv: "try_recv c = (Inr (Some (payload (take n ?buf))), c\<lparr>read_buf := drop n ?buf\<rparr>)"
      using n by (simp add: try_recv_needed)
    show ?thesis
      using "1.IH" [OF rcv [symmetric] refl refl] tail
      by (subst recv_loop.simps) (simp add: rcv fs decoded_messages_def map_filter_simps split: option.splits)
  next
    case False
    then have "fs = [] \<and> r = ?buf \<and> (\<forall>x. e = Some x \<longleftrightarrow> ipc_needed ?buf = Inl x)"
      using "1.prems"
      by (subst (asm) split_frames.simps) (auto split: sum.splits option.splits if_splits prod.splits)
    then show ?thesis
      using False
      by (subst recv_loop.simps)
        (auto simp: try_recv_needed decoded_messages_def map_filter_simps split: sum.split option.split)
  qed
qed

section \<open>Runs\<close>

text \<open>The data a script delivers before it blocks, ends or fails.\<close>

fun script_data :: "read_result option list \<Rightarrow> bytes" where
  "script_data (Some (ReadData bs) # rs) = bs @ script_data rs"
| "script_data _ = []"

lemma fill_loop_data:
  "fill_read_buf_loop rs buf = (r, rs', buf') \<Longrightarrow> buf' = buf @ script_data rs"
  by (induction rs buf rule: fill_read_buf_loop.induct) auto

definition with_reads :: "read_result option list \<Rightarrow> ipc_server \<Rightarrow> ipc_server" where
  "with_reads rs s =
     s\<lparr>ipc_connection := map_option (\<lambda>c. c\<lparr>ic_stream := (ic_stream c)\<lparr>reads := rs\<rparr>\<rparr>) (ipc_connection s)\<rparr>"

text \<open>
  \<open>ipc_run js s S ms\<close>: since the client connected it wrote the bytes \<open>S\<close>, and \<open>recv_all\<close>
  returned the messages \<open>ms\<close>; sends and flushes may happen in between.
\<close>

inductive ipc_run :: "json_codec \<Rightarrow> ipc_server \<Rightarrow> bytes \<Rightarrow> incoming_message list \<Rightarrow> bool" for js where
  ipc_run_accept: "ipc_accept js (Some st) s = (True, s') \<Longrightarrow> ipc_run js s' [] []"
| ipc_run_recv: "ipc_run js s S ms \<Longrightarrow> recv_all js (with_reads rs s) = (Some ms', s') \<Longrightarrow>
    ipc_run js s' (S @ script_data rs) (ms @ ms')"
| ipc_run_send: "ipc_run js s S ms \<Longrightarrow> ipc_connection (ipc_send js m s) = Some c \<Longrightarrow>
    ipc_run js (ipc_send js m s) S ms"
| ipc_run_flush: "ipc_run js s S ms \<Longrightarrow> ipc_connection (ipc_flush s) = Some c \<Longrightarrow>
    ipc_run js (ipc_flush s) S ms"

definition ipc_received :: "json_codec \<Rightarrow> ipc_server \<Rightarrow> bytes \<Rightarrow> incoming_message list \<Rightarrow> bool" where
  "ipc_received js s S ms \<longleftrightarrow>
     (\<exists>c fs. ipc_connection s = Some c \<and> split_frames ipc_needed S = (fs, read_buf c, None) \<and>
        ms = decoded_messages js fs)"

lemma enqueue_read_buf [simp]: "read_buf (enqueue js m c) = read_buf c"
  by (simp add: enqueue_def split: option.split)

lemma fold_enqueue_read_buf [simp]: "read_buf (fold (enqueue js) ms c) = read_buf c"
  by (induction ms arbitrary: c) simp_all

lemma ipc_try_flush_read_buf: "ipc_try_flush c = (r, c') \<Longrightarrow> read_buf c' = read_buf c"
  by (auto simp: ipc_try_flush_def split: prod.splits)

lemma decoded_messages_append:
  "decoded_messages js (fs @ gs) = decoded_messages js fs @ decoded_messages js gs"
  by (simp add: decoded_messages_def map_filter_def)

lemma recv_all_received:
  assumes "ipc_received js s S ms" and "recv_all js (with_reads rs s) = (Some ms', s')"
  shows "ipc_received js s' (S @ script_data rs) (ms @ ms')"
proof -
  obtain c fs where c: "ipc_connection s = Some c" "split_frames ipc_needed S = (fs, read_buf c, None)"
      "ms = decoded_messages js fs"
    using assms(1) by (auto simp: ipc_received_def)
  let ?c = "c\<lparr>ic_stream := (ic_stream c)\<lparr>reads := rs\<rparr>\<rparr>"
  obtain r rs' buf where fill: "fill_read_buf_loop rs (read_buf c) = (r, rs', buf)"
    by (cases "fill_read_buf_loop rs (read_buf c)")
  have buf: "buf = read_buf c @ script_data rs" by (rule fill_loop_data [OF fill])
  let ?c1 = "?c\<lparr>ic_stream := (ic_stream ?c)\<lparr>reads := rs'\<rparr>, read_buf := buf\<rparr>"
  obtain c2 where loop: "recv_loop js ?c1 [] = (Some ms', c2)" and s': "ipc_connection s' = Some c2"
    using assms(2) c(1) fill
    by (auto simp: recv_all_def with_reads_def fill_read_buf_def split: prod.splits sum.splits
        bool.splits option.splits)
  obtain gs r e where g: "split_frames ipc_needed buf = (gs, r, e)"
    by (cases "split_frames ipc_needed buf")
  have "e = None" "c2 = ?c1\<lparr>read_buf := r\<rparr>" "ms' = decoded_messages js gs"
    using loop recv_loop_spec [of ?c1 gs r e js "[]"] g by (auto split: option.splits)
  moreover have "split_frames ipc_needed (S @ script_data rs) = (fs @ gs, r, e)"
    using ipc_framing.split_append [OF c(2)] g by (simp add: buf \<open>e = None\<close>)
  ultimately show ?thesis
    using s' c(3) by (simp add: ipc_received_def decoded_messages_append)
qed

lemma ipc_run_received: "ipc_run js s S ms \<Longrightarrow> ipc_received js s S ms"
proof (induction rule: ipc_run.induct)
  case (ipc_run_accept st s s')
  have "split_frames ipc_needed [] = ([], [], None)"
    by (rule ipc_framing.split_stop) (simp add: ipc_needed_def)
  then show ?case
    using ipc_run_accept ipc_try_flush_read_buf
    by (auto simp: ipc_accept_def Let_def ipc_received_def ipc_conn_new_def decoded_messages_def
        map_filter_simps) (metis enqueue_read_buf fold_enqueue_read_buf ipc_conn.select_convs(2) prod.collapse)
next
  case (ipc_run_recv s S ms rs ms' s')
  then show ?case using recv_all_received by blast
next
  case (ipc_run_send s S ms m c)
  then show ?case
    by (auto simp: ipc_send_def ipc_received_def split: option.splits prod.splits sum.splits
        dest!: ipc_try_flush_read_buf)
next
  case (ipc_run_flush s S ms c)
  then show ?case
    by (auto simp: ipc_flush_def ipc_received_def split: option.splits prod.splits sum.splits
        dest!: ipc_try_flush_read_buf)
qed

section \<open>What is written\<close>

definition framed :: "json_codec \<Rightarrow> outgoing_message \<Rightarrow> bytes" where
  "framed js m =
     (case to_json js m of
        None \<Rightarrow> []
      | Some json \<Rightarrow> if length json < 2 ^ 32 then u32_to_le (word_of_nat (length json)) @ json else [])"

definition conn_output :: "ipc_conn \<Rightarrow> bytes" where
  "conn_output c = written (ic_stream c) @ write_buf c"

lemma enqueue_output: "conn_output (enqueue js m c) = conn_output c @ framed js m"
  by (simp add: conn_output_def enqueue_def framed_def split: option.split)

lemma fold_enqueue_output:
  "conn_output (fold (enqueue js) ms c) = conn_output c @ concat (map (framed js) ms)"
  by (induction ms arbitrary: c) (simp_all add: enqueue_output)

lemma ipc_flush_loop_conserves:
  "ipc_flush_loop ws sent buf = (r, ws', sent', buf') \<Longrightarrow> sent' @ buf' = sent @ buf"
  by (induction ws sent buf rule: ipc_flush_loop.induct) auto

lemma ipc_try_flush_output: "ipc_try_flush c = (r, c') \<Longrightarrow> conn_output c' = conn_output c"
  by (auto simp: ipc_try_flush_def conn_output_def split: prod.splits dest!: ipc_flush_loop_conserves)

lemma sends_output:
  "ipc_connection s = Some c \<Longrightarrow> ipc_connection (fold (ipc_send js) ms s) = Some c' \<Longrightarrow>
     conn_output c' = conn_output c @ concat (map (framed js) ms)"
proof (induction ms arbitrary: s c)
  case Nil
  then show ?case by simp
next
  case (Cons m ms)
  have none: "ipc_connection t = None \<Longrightarrow> ipc_connection (fold (ipc_send js) ms t) = None" for t
    by (induction ms arbitrary: t) (simp_all add: ipc_send_def)
  obtain r c1 where f: "ipc_try_flush (enqueue js m c) = (r, c1)"
    by (cases "ipc_try_flush (enqueue js m c)")
  show ?case
  proof (cases r)
    case (Inl x)
    then have "ipc_connection (ipc_send js m s) = None"
      using Cons.prems(1) f by (simp add: ipc_send_def)
    then show ?thesis using Cons.prems(2) none by simp
  next
    case (Inr x)
    then have "ipc_connection (ipc_send js m s) = Some c1"
      using Cons.prems(1) f by (simp add: ipc_send_def)
    from Cons.IH [OF this] show ?thesis
      using Cons.prems(2) ipc_try_flush_output [OF f] by (simp add: enqueue_output)
  qed
qed

lemma sends_pending:
  "ipc_connection s = None \<Longrightarrow>
     fold (ipc_send js) ms s = s\<lparr>ipc_pending := ipc_pending s @ ms\<rparr>"
  by (induction ms arbitrary: s) (simp_all add: ipc_send_def)

lemma framed_needed:
  assumes "to_json js m = Some json" "length json \<le> MAX_MSG_SIZE"
  shows "ipc_needed (framed js m) = Inr (Some (length (framed js m)))" "payload (framed js m) = json"
proof -
  have l: "length json < 2 ^ 32" using assms(2) by (simp add: MAX_MSG_SIZE_def)
  then have f: "framed js m = u32_to_le (word_of_nat (length json)) @ json"
    using assms(1) by (simp add: framed_def)
  have s: "slice 0 4 (u32_to_le (word_of_nat (length json)) @ json) = u32_to_le (word_of_nat (length json))"
    by (simp add: slice_def)
  have "unat (word_of_nat (length json) :: u32) = length json"
    using l by (simp add: unsigned_of_nat take_bit_nat_eq_self)
  then show "ipc_needed (framed js m) = Inr (Some (length (framed js m)))"
    using assms(2) by (simp add: ipc_needed_def f s Let_def)
  show "payload (framed js m) = json" by (simp add: payload_def f)
qed

section \<open>Properties\<close>

text \<open>
  C28. What Emacs's messages become does not depend on how its bytes arrived: after any run the
  messages returned are the decoded payloads of the complete frames of the byte stream, in
  order, and the buffer holds the incomplete rest.
\<close>

theorem ipc_messages_of_stream:
  assumes "ipc_run js s S ms"
  shows "\<exists>c fs. ipc_connection s = Some c \<and> split_frames ipc_needed S = (fs, read_buf c, None) \<and>
    ms = decoded_messages js fs \<and> concat fs @ read_buf c = S"
  using ipc_run_received [OF assms] split_frames_conserve by (fastforce simp: ipc_received_def)

text \<open>
  Nothing sent to Emacs is lost or reordered while the connection lasts: messages sent
  before Emacs connected, the handshake, and messages sent afterwards reach the socket or its
  write buffer as one sequence of frames, the handshake first.
\<close>

theorem ipc_send_order:
  assumes "ipc_connection s = None" and "ipc_accept js (Some st) (fold (ipc_send js) ms s) = (True, s1)"
    and "ipc_connection (fold (ipc_send js) ms' s1) = Some c"
  shows "conn_output c =
    written st @ concat (map (framed js) (Connected ''0.1'' # ipc_pending s @ ms @ ms'))"
proof -
  let ?p = "ipc_pending s @ ms"
  let ?c0 = "fold (enqueue js) ?p (enqueue js (Connected ''0.1'') (ipc_conn_new st))"
  have "s1 = s\<lparr>ipc_connection := Some (snd (ipc_try_flush ?c0)), ipc_pending := []\<rparr>"
    using assms(2) by (auto simp: sends_pending [OF assms(1)] ipc_accept_def Let_def)
  then have c1: "ipc_connection s1 = Some (snd (ipc_try_flush ?c0))" by simp
  have "conn_output (snd (ipc_try_flush ?c0)) = conn_output ?c0"
    using ipc_try_flush_output [of ?c0] by (metis prod.collapse)
  also have "\<dots> = written st @ concat (map (framed js) (Connected ''0.1'' # ?p))"
    by (simp only: fold_enqueue_output enqueue_output) (simp add: conn_output_def ipc_conn_new_def)
  finally show ?thesis using sends_output [OF c1 assms(3)] by simp
qed

text \<open>
  The frames written are the frames the reader's side of the protocol recovers: messages
  whose JSON is within the limit are split back into exactly themselves.
\<close>

theorem ipc_frames_read_back:
  assumes "\<forall>m \<in> set ms. \<exists>json. to_json js m = Some json \<and> length json \<le> MAX_MSG_SIZE"
  shows "split_frames ipc_needed (concat (map (framed js) ms)) = (map (framed js) ms, [], None) \<and>
    map (\<lambda>f. Some (payload f)) (map (framed js) ms) = map (to_json js) ms"
proof -
  have "ipc_needed f = Inr (Some (length f))" if "f \<in> set (map (framed js) ms)" for f
    using that assms framed_needed(1) by fastforce
  moreover have "split_frames ipc_needed [] = ([], [], None)"
    by (rule ipc_framing.split_stop) (simp add: ipc_needed_def)
  ultimately have "split_frames ipc_needed (concat (map (framed js) ms) @ []) = (map (framed js) ms, [], None)"
    by (rule ipc_framing.split_messages)
  moreover have "\<forall>m \<in> set ms. Some (payload (framed js m)) = to_json js m"
    using assms framed_needed(2) by fastforce
  ultimately show ?thesis by simp
qed

section \<open>A concrete exchange\<close>

definition demo_json :: json_codec where
  "demo_json = \<lparr>to_json = (\<lambda>m. case m of Connected v \<Rightarrow> Some [67] | WindowDestroyed i \<Rightarrow> Some [68, ucast i] | _ \<Rightarrow> None),
                from_json = (\<lambda>bs. if bs = [1] then Some PrefixDone else None)\<rparr>"

definition demo_stream :: stream where
  "demo_stream = \<lparr>reads = [], writes = [Some (Wrote 3)], written = []\<rparr>"

definition demo_server :: ipc_server where
  "demo_server = snd (ipc_accept demo_json (Some demo_stream) ipc_bind)"

lemma demo_server_accept: "ipc_accept demo_json (Some demo_stream) ipc_bind = (True, demo_server)"
  by (simp add: demo_server_def ipc_accept_def Let_def)

lemma demo_server_simps:
  "ipc_connection demo_server = Some \<lparr>ic_stream = \<lparr>reads = [], writes = [], written = [1, 0, 0]\<rparr>,
     read_buf = [], write_buf = [0, 67]\<rparr>"
  by (simp add: demo_server_def ipc_accept_def ipc_bind_def enqueue_def demo_json_def ipc_conn_new_def
      demo_stream_def ipc_try_flush_def u32_to_le_def Let_def numeral_3_eq_3)

lemma demo_recv:
  "recv_all demo_json (with_reads [Some (ReadData [1, 0, 0]), Some (ReadData [0, 1, 2, 0])] demo_server) =
     (Some [PrefixDone], demo_server\<lparr>ipc_connection := Some \<lparr>ic_stream =
        \<lparr>reads = [], writes = [], written = [1, 0, 0]\<rparr>, read_buf = [2, 0], write_buf = [0, 67]\<rparr>\<rparr>)"
  by (simp add: recv_all_def with_reads_def demo_server_simps fill_read_buf_def recv_loop.simps
      try_recv_def slice_def MAX_MSG_SIZE_def Let_def) (simp add: demo_json_def)

theorem ipc_messages_of_stream_witness:
  "\<exists>fs. split_frames ipc_needed [1, 0, 0, 0, 1, 2, 0] = (fs, [2, 0], None) \<and>
     decoded_messages demo_json fs = [PrefixDone]"
  using ipc_messages_of_stream
    [OF ipc_run_recv [OF ipc_run_accept [OF demo_server_accept] demo_recv]] by auto

definition demo_server2 :: ipc_conn where
  "demo_server2 = \<lparr>ic_stream = \<lparr>reads = [], writes = [], written = [1, 0, 0]\<rparr>, read_buf = [],
     write_buf = [0, 67, 2, 0, 0, 0, 68, 5]\<rparr>"

lemma demo_send:
  "ipc_connection (fold (ipc_send demo_json) [WindowDestroyed 5] demo_server) = Some demo_server2"
  by (simp add: ipc_send_def demo_server_simps enqueue_def ipc_try_flush_def demo_json_def
      u32_to_le_def demo_server2_def)

theorem ipc_send_order_witness:
  "conn_output demo_server2 =
     concat (map (framed demo_json) [Connected ''0.1'', WindowDestroyed 5])"
proof -
  have none: "ipc_connection ipc_bind = None" and pending: "ipc_pending ipc_bind = []"
    by (simp_all add: ipc_bind_def)
  have "ipc_accept demo_json (Some demo_stream) (fold (ipc_send demo_json) [] ipc_bind) =
      (True, demo_server)" by (simp add: demo_server_accept)
  from ipc_send_order [OF none this demo_send] show ?thesis
    by (simp add: pending demo_stream_def)
qed

theorem ipc_frames_read_back_witness:
  "split_frames ipc_needed [1, 0, 0, 0, 67, 2, 0, 0, 0, 68, 5] =
     ([[1, 0, 0, 0, 67], [2, 0, 0, 0, 68, 5]], [], None)"
  using ipc_frames_read_back [of "[Connected [], WindowDestroyed 5]" demo_json]
  by (simp add: demo_json_def framed_def u32_to_le_def MAX_MSG_SIZE_def)

end
