(* ===== verification/World.thy ===== *)
theory World
  imports Keyed_Store Ipc
begin

text \<open>
  What the compositor is built on and does not define: \<open>smithay\<close>, \<open>winit\<close>, the clock. Windows and
  surfaces are identifiers; \<open>env\<close> holds the operations and answers of these libraries, so that
  every definition of the compositor takes an \<open>env\<close>, and each step of a run may take another
  one. The fields are:

  \<^item> \<open>sp_*\<close>: \<open>smithay::desktop::Space\<close> with its elements from bottom to top (\<open>map_element\<close>,
    \<open>unmap_elem\<close>, \<open>lower_element\<close>, \<open>element_location\<close>, \<open>outputs\<close>, \<open>map_output\<close>);
  \<^item> \<open>win_*\<close>, \<open>srf_*\<close>: queries on \<open>Window\<close> and \<open>WlSurface\<close>;
  \<^item> \<open>zone\<close>: \<open>LayerMap::non_exclusive_zone\<close> of an output;
  \<^item> \<open>kb_set old req\<close>: \<open>KeyboardHandle::set_focus\<close>, the focus that results (an active grab may keep
    the old one) and whether \<open>SeatHandler::focus_changed\<close> is called;
  \<^item> \<open>ti_bound\<close>, \<open>ti_rect\<close>: the \<open>TextInputHandle\<close>;
  \<^item> \<open>clock\<close>: \<open>Instant::now\<close> in nanoseconds;
  \<^item> \<open>visit\<close>: the order in which a \<open>HashMap\<close> is iterated;
  \<^item> \<open>json\<close>: \<open>serde_json\<close>;
  \<^item> \<open>shell\<close>: what the compositor reads of a surface's role: the parent, title, app id, size limits
    and configure state of a toplevel, the parent of a subsurface, layer surfaces and popups, which
    are known by their surface; the logical geometry of an output.
\<close>

type_synonym surface = nat
type_synonym window = nat
type_synonym monitor = nat
type_synonym instant = nat
type_synonym point = "i32 \<times> i32"

record rect =
  loc_x :: i32
  loc_y :: i32
  size_w :: i32
  size_h :: i32

definition rect_new :: "point \<Rightarrow> point \<Rightarrow> rect" where
  "rect_new l s = \<lparr>loc_x = fst l, loc_y = snd l, size_w = fst s, size_h = snd s\<rparr>"

abbreviation rect_loc :: "rect \<Rightarrow> point" where
  "rect_loc r \<equiv> (loc_x r, loc_y r)"

datatype focus_target = FWindow window | FLayer surface | FPopup surface

record 'sp shell =
  tl_parent :: "surface \<Rightarrow> bool"
  tl_title :: "surface \<Rightarrow> string option"
  tl_app_id :: "surface \<Rightarrow> string option"
  tl_min :: "surface \<Rightarrow> point"
  tl_max :: "surface \<Rightarrow> point"
  tl_configured :: "surface \<Rightarrow> bool"
  get_parent :: "surface \<Rightarrow> surface option"
  sync_subsurface :: "surface \<Rightarrow> bool"
  layer_surface :: "monitor \<Rightarrow> surface \<Rightarrow> bool"
  layer_wants_keyboard :: "surface \<Rightarrow> bool"
  layer_maps :: "surface \<Rightarrow> bool"
  mapped_layers :: "monitor \<Rightarrow> surface list"
  zone_before :: "monitor \<Rightarrow> rect"
  tracked_popup :: "surface \<Rightarrow> bool"
  popup_configured :: "surface \<Rightarrow> bool"
  mode_size :: "monitor \<Rightarrow> point option"
  output_geometry :: "'sp \<Rightarrow> monitor \<Rightarrow> rect option"

record 'sp env =
  sp_empty :: 'sp
  sp_elements :: "'sp \<Rightarrow> window list"
  sp_location :: "'sp \<Rightarrow> window \<Rightarrow> point option"
  sp_map :: "window \<Rightarrow> point \<Rightarrow> 'sp \<Rightarrow> 'sp"
  sp_unmap :: "window \<Rightarrow> 'sp \<Rightarrow> 'sp"
  sp_lower :: "window \<Rightarrow> 'sp \<Rightarrow> 'sp"
  sp_outputs :: "'sp \<Rightarrow> monitor list"
  sp_map_output :: "monitor \<Rightarrow> point \<Rightarrow> 'sp \<Rightarrow> 'sp"
  sp_refresh :: "(window \<Rightarrow> bool) \<Rightarrow> 'sp \<Rightarrow> 'sp"
  win_surface :: "window \<Rightarrow> surface option"
  win_alive :: "window \<Rightarrow> bool"
  win_geometry :: "window \<Rightarrow> rect"
  srf_alive :: "surface \<Rightarrow> bool"
  client_of :: "surface \<Rightarrow> nat option"
  same_client :: "surface \<Rightarrow> surface \<Rightarrow> bool"
  zone :: "monitor \<Rightarrow> rect"
  kb_set :: "focus_target option \<Rightarrow> focus_target option \<Rightarrow> focus_target option \<times> bool"
  ti_bound :: "surface option \<Rightarrow> bool"
  ti_rect :: "rect option"
  clock :: instant
  visit :: "u64 list \<Rightarrow> u64 list"
  json :: json_codec
  shell :: "'sp shell"

declare split_paired_All [simp del] split_paired_Ex [simp del]

section \<open>Documented behaviour\<close>

text \<open>\<open>Space\<close>: \<open>map_element\<close> adds a window or moves it, raising it to the top; \<open>unmap_elem\<close> and
  \<open>lower_element\<close> concern one window; outputs are independent of windows;
  \<open>refresh\<close> forgets the windows whose client is gone.\<close>

definition space_laws :: "'sp env \<Rightarrow> bool" where
  "space_laws e \<longleftrightarrow>
     sp_elements e (sp_empty e) = [] \<and> sp_outputs e (sp_empty e) = [] \<and>
     (\<forall>w p s. sp_elements e (sp_map e w p s) = removeAll w (sp_elements e s) @ [w] \<and>
       sp_outputs e (sp_map e w p s) = sp_outputs e s) \<and>
     (\<forall>w s. sp_elements e (sp_unmap e w s) = removeAll w (sp_elements e s) \<and>
       sp_outputs e (sp_unmap e w s) = sp_outputs e s) \<and>
     (\<forall>w s. sp_elements e (sp_lower e w s) =
         (if w \<in> set (sp_elements e s) then w # removeAll w (sp_elements e s) else sp_elements e s) \<and>
       sp_outputs e (sp_lower e w s) = sp_outputs e s) \<and>
     (\<forall>p w w' s. sp_location e (sp_map e w p s) w' = (if w' = w then Some p else sp_location e s w')) \<and>
     (\<forall>o' p s. sp_elements e (sp_map_output e o' p s) = sp_elements e s \<and>
       sp_outputs e (sp_map_output e o' p s) = (if o' \<in> set (sp_outputs e s) then sp_outputs e s
         else sp_outputs e s @ [o'])) \<and>
     (\<forall>a s. sp_elements e (sp_refresh e a s) = filter a (sp_elements e s) \<and>
       sp_outputs e (sp_refresh e a s) = sp_outputs e s)"

text \<open>\<open>set_focus\<close> without a grab: the requested focus is taken, and a change is announced.\<close>

definition focus_laws :: "'sp env \<Rightarrow> bool" where
  "focus_laws e \<longleftrightarrow> (\<forall>old req. fst (kb_set e old req) = req \<and> (old \<noteq> req \<longrightarrow> snd (kb_set e old req)))"

definition order_laws :: "'sp env \<Rightarrow> bool" where
  "order_laws e = iteration_order (visit e)"

lemma space_laws_elements:
  assumes "space_laws e"
  shows "sp_elements e (sp_empty e) = []"
    and "sp_elements e (sp_map e w p s) = removeAll w (sp_elements e s) @ [w]"
    and "sp_elements e (sp_unmap e w s) = removeAll w (sp_elements e s)"
    and "sp_elements e (sp_lower e w s) =
      (if w \<in> set (sp_elements e s) then w # removeAll w (sp_elements e s) else sp_elements e s)"
    and "sp_elements e (sp_map_output e o' p s) = sp_elements e s"
    and "sp_elements e (sp_refresh e a s) = filter a (sp_elements e s)"
  using assms by (simp_all add: space_laws_def)

lemma space_laws_outputs:
  assumes "space_laws e"
  shows "sp_outputs e (sp_map e w p s) = sp_outputs e s"
    and "sp_outputs e (sp_unmap e w s) = sp_outputs e s"
    and "sp_outputs e (sp_lower e w s) = sp_outputs e s"
    and "sp_outputs e (sp_refresh e a s) = sp_outputs e s"
  using assms by (simp_all add: space_laws_def)

section \<open>Focus targets\<close>

text \<open>\<open>impl WaylandFocus\<close> and \<open>impl IsAlive for KeyboardFocusTarget\<close>.\<close>

fun target_surface :: "'sp env \<Rightarrow> focus_target \<Rightarrow> surface option" where
  "target_surface e (FWindow w) = win_surface e w"
| "target_surface e (FLayer s) = Some s"
| "target_surface e (FPopup s) = Some s"

fun target_alive :: "'sp env \<Rightarrow> focus_target \<Rightarrow> bool" where
  "target_alive e (FWindow w) = win_alive e w"
| "target_alive e (FLayer s) = srf_alive e s"
| "target_alive e (FPopup s) = srf_alive e s"

section \<open>Signed maximum\<close>

definition i32_max :: "i32 \<Rightarrow> i32 \<Rightarrow> i32" where
  "i32_max a b = (if sint a \<le> sint b then b else a)"

definition i32_min :: "i32 \<Rightarrow> i32 \<Rightarrow> i32" where
  "i32_min a b = (if sint a \<le> sint b then a else b)"

lemma sint_i32_max: "sint (i32_max a b) = max (sint a) (sint b)"
  by (simp add: i32_max_def max_def)

lemma sint_i32_min: "sint (i32_min a b) = min (sint a) (sint b)"
  by (simp add: i32_min_def min_def)

section \<open>Signed sums\<close>

lemma sint_add_exact:
  fixes a b :: i32
  assumes "- (2 ^ 31) \<le> sint a + sint b" and "sint a + sint b < 2 ^ 31"
  shows "sint (a + b) = sint a + sint b"
  using assms by (simp add: sint_word_ariths(1) signed_take_bit_int_eq_self)

lemma sint_diff_exact:
  fixes a b :: i32
  assumes "- (2 ^ 31) \<le> sint a - sint b" and "sint a - sint b < 2 ^ 31"
  shows "sint (a - b) = sint a - sint b"
  using assms by (simp add: sint_word_ariths(2) signed_take_bit_int_eq_self)

lemma sint_range_i32: "- (2 ^ 31) \<le> sint (a :: i32)" "sint (a :: i32) < 2 ^ 31"
  using sint_ge [of a] sint_lt [of a] by simp_all

end
