(* ===== verification/Counters.thy ===== *)
theory Counters
  imports Prelude
begin

text \<open>
  Identifier allocation: the contract shared by every counter of the program that hands out
  identifiers (D-Bus serials, connection ids, input-context paths, window ids, workspace ids).
  A counter walks through \<open>period\<close> positions and hands out the identifier of the position it
  is at; as long as it does not wrap, no identifier is handed out twice.
\<close>

section \<open>Runs of an allocator\<close>

fun alloc_n :: "('s \<Rightarrow> 'id \<times> 's) \<Rightarrow> nat \<Rightarrow> 's \<Rightarrow> 'id list" where
  "alloc_n alloc 0 s = []"
| "alloc_n alloc (Suc n) s = (case alloc s of (i, s') \<Rightarrow> i # alloc_n alloc n s')"

locale id_counter =
  fixes alloc :: "'s \<Rightarrow> 'id \<times> 's"
    and pos :: "'s \<Rightarrow> nat"
    and id_at :: "nat \<Rightarrow> 'id"
    and period :: nat
  assumes period_pos: "0 < period"
    and alloc_id: "fst (alloc s) = id_at (pos s mod period)"
    and alloc_pos: "pos (snd (alloc s)) mod period = Suc (pos s) mod period"
    and id_at_inj: "inj_on id_at {..<period}"
begin

lemma alloc_n_positions:
  "alloc_n alloc n s = map (\<lambda>k. id_at ((pos s + k) mod period)) [0 ..< n]"
proof (induction n arbitrary: s)
  case 0
  then show ?case by simp
next
  case (Suc n)
  obtain i s' where a: "alloc s = (i, s')" by (cases "alloc s")
  have i: "i = id_at (pos s mod period)" using alloc_id [of s] a by simp
  have step: "(pos s' + k) mod period = (pos s + Suc k) mod period" for k
    using alloc_pos [of s] a by (metis add_Suc_shift mod_add_left_eq snd_conv)
  have "alloc_n alloc (Suc n) s = i # map (\<lambda>k. id_at ((pos s + Suc k) mod period)) [0 ..< n]"
    using a Suc.IH [of s'] step by simp
  also have "\<dots> = map (\<lambda>k. id_at ((pos s + k) mod period)) (0 # map Suc [0 ..< n])"
    using i by (simp add: comp_def)
  also have "0 # map Suc [0 ..< n] = [0 ..< Suc n]"
    by (simp only: map_Suc_upt) (simp add: upt_rec)
  finally show ?case .
qed

lemma positions_distinct:
  assumes "n \<le> period"
  shows "inj_on (\<lambda>k. (p + k) mod period) {..<n}"
proof -
  have "(p + i) mod period \<noteq> (p + j) mod period" if "i < j" "j < n" for i j
  proof
    assume "(p + i) mod period = (p + j) mod period"
    then have "period dvd (p + j) - (p + i)"
      using that mod_eq_dvd_iff_nat [of "p + i" "p + j" period] by simp
    then have "period dvd j - i" by simp
    then show False
      using that assms nat_dvd_not_less [of "j - i" period] by simp
  qed
  then show ?thesis
    by (intro linorder_inj_onI) auto
qed

theorem alloc_n_distinct:
  assumes "n \<le> period"
  shows "distinct (alloc_n alloc n s)"
proof -
  have "inj_on (\<lambda>k. id_at ((pos s + k) mod period)) {..<n}"
    using comp_inj_on [OF positions_distinct [OF assms, of "pos s"] inj_on_subset [OF id_at_inj]]
      period_pos by (simp add: comp_def image_subset_iff)
  then show ?thesis
    by (simp add: alloc_n_positions distinct_map atLeast_upt)
qed

lemma alloc_n_range: "i \<in> set (alloc_n alloc n s) \<Longrightarrow> i \<in> id_at ` {..<period}"
  using period_pos by (auto simp: alloc_n_positions)

end

section \<open>Positions of a \<open>u64\<close> counter\<close>

lemma u64_next_position:
  "unat (n + 1 :: u64) = Suc (unat n) mod 18446744073709551616"
proof -
  have "unat (n + 1) = (unat n + unat (1 :: u64)) mod 2 ^ LENGTH(64)" by (rule unat_word_ariths)
  then show ?thesis by simp
qed

lemma u64_position: "unat (n :: u64) mod 18446744073709551616 = unat n"
proof -
  have "unat n < 2 ^ LENGTH(64)" by (rule unsigned_less)
  then show ?thesis by simp
qed

lemma u64_of_nat_inj: "inj_on (word_of_nat :: nat \<Rightarrow> u64) {..<2 ^ 64}"
proof (rule inj_onI)
  fix x y :: nat
  assume *: "x \<in> {..<2 ^ 64}" "y \<in> {..<2 ^ 64}" "(word_of_nat x :: u64) = word_of_nat y"
  then have "take_bit LENGTH(64) x = take_bit LENGTH(64) y" by (simp only: word_of_nat_eq_iff)
  then show "x = y" using * by (simp add: take_bit_nat_eq_self)
qed

section \<open>Decimal numerals\<close>

text \<open>\<open>format!("{id}")\<close> of an unsigned integer.\<close>

fun decimal :: "nat \<Rightarrow> string" where
  "decimal n = (if n < 10 then [char_of (48 + n)] else decimal (n div 10) @ [char_of (48 + n mod 10)])"

declare decimal.simps [simp del]

definition undecimal :: "string \<Rightarrow> nat" where
  "undecimal s = foldl (\<lambda>acc c. 10 * acc + (of_char c - 48)) 0 s"

lemma undecimal_decimal [simp]: "undecimal (decimal n) = n"
proof (induction n rule: decimal.induct)
  case (1 n)
  show ?case
  proof (cases "n < 10")
    case True
    then show ?thesis by (subst decimal.simps) (simp add: undecimal_def)
  next
    case False
    with "1.IH" have "foldl (\<lambda>acc c. 10 * acc + (of_char c - 48)) 0 (decimal (n div 10)) = n div 10"
      by (simp add: undecimal_def)
    moreover have "48 + n mod 10 < 256" using mod_less_divisor [of 10 n] by linarith
    ultimately show ?thesis
      using False by (subst decimal.simps) (simp add: undecimal_def)
  qed
qed

lemma decimal_inj: "decimal a = decimal b \<Longrightarrow> a = b"
  by (metis undecimal_decimal)

end
