(* ===== verification/Overlays.thy ===== *)
theory Overlays
  imports World Counters "HOL-Library.Signed_Division"
begin

text \<open>
  The overlays of \<open>crates/effect-plugins/src\<close> as the compositor drives them (\<open>skeleton.rs\<close>,
  \<open>key_cast.rs\<close>, \<open>jelly_cursor.rs\<close>, the switches of \<open>cursor_trail.rs\<close>, \<open>measure.rs\<close>, \<open>recorder.rs\<close>,
  \<open>splash.rs\<close>) and \<open>state/effects.rs\<close>, which groups them: the rectangles, labels, texts and animation
  states. What is drawn from them is in \<open>Rulers\<close>, \<open>Blending\<close>, \<open>Key_Cast_Paint\<close>,
  \<open>Skeleton_Paint\<close>, \<open>Jelly_Paint\<close> and \<open>Splash\<close>.

  Text rasterisation and colours are parameters (\<open>label_px\<close>, \<open>label_fg\<close>). The rectangles of the
  jelly cursor are converted from \<open>i32\<close> to \<open>f64\<close>, which is exact, so they are kept as integers;
  its tolerance of half a pixel is equality there.
\<close>

section \<open>Skeleton\<close>

definition INSET_STEP :: i32 where "INSET_STEP = 2"
definition MAX_INSET :: i32 where "MAX_INSET = 8"
definition PANEL_MARGIN :: i32 where "PANEL_MARGIN = 12"
definition PANEL_GAP :: i32 where "PANEL_GAP = 1"

text \<open>1500 ms.\<close>

definition FLASH_DURATION :: nat where "FLASH_DURATION = 1500 * 1000000"

record sk_entry =
  en_rect :: skeleton_rect
  draw_rect :: ipc_rect
  last_text :: string
  last_fg :: bytes
  label_size :: "i32 \<times> i32"
  panel_pos :: "i32 \<times> i32"
  has_label :: bool
  flash_until :: "instant option"
  en_commit :: nat

record skeleton =
  sk_enabled :: bool
  click_absorbed :: bool
  sk_entries :: "sk_entry list"

record text_api =
  label_px :: "string \<Rightarrow> i32 \<times> i32"
  label_fg :: "string \<Rightarrow> bool \<Rightarrow> bytes"

definition skeleton_new :: skeleton where
  "skeleton_new = \<lparr>sk_enabled = False, click_absorbed = False, sk_entries = []\<rparr>"

definition zero_rect :: ipc_rect where
  "zero_rect = \<lparr>r_x = 0, r_y = 0, r_w = 0, r_h = 0\<rparr>"

definition entry_new :: sk_entry where
  "entry_new = \<lparr>en_rect = \<lparr>sk_kind = [], sk_label = [], sk_rect = zero_rect, sk_selected = False\<rparr>,
     draw_rect = zero_rect, last_text = [], last_fg = [0, 0, 0, 0], label_size = (0, 0),
     panel_pos = (0, 0), has_label = False, flash_until = None, en_commit = 0\<rparr>"

definition skeleton_clear :: "skeleton \<Rightarrow> skeleton" where
  "skeleton_clear sk = sk\<lparr>sk_entries := []\<rparr>"

definition skeleton_set_enabled :: "bool \<Rightarrow> skeleton \<Rightarrow> skeleton" where
  "skeleton_set_enabled enabled sk =
     (if enabled then sk\<lparr>sk_enabled := True\<rparr> else sk\<lparr>sk_enabled := False, click_absorbed := False\<rparr>)"

definition in_label :: "i32 \<Rightarrow> i32 \<Rightarrow> sk_entry \<Rightarrow> bool" where
  "in_label px py en \<longleftrightarrow> has_label en \<and>
     sint (fst (panel_pos en)) \<le> sint px \<and> sint px < sint (fst (panel_pos en) + fst (label_size en)) \<and>
     sint (snd (panel_pos en)) \<le> sint py \<and> sint py < sint (snd (panel_pos en) + snd (label_size en))"

fun find_index :: "('a \<Rightarrow> bool) \<Rightarrow> 'a list \<Rightarrow> nat option" where
  "find_index P [] = None"
| "find_index P (x # xs) = (if P x then Some 0 else map_option Suc (find_index P xs))"

text \<open>\<open>click_at\<close>; \<open>px\<close>, \<open>py\<close> are the truncated coordinates.\<close>

definition click_at :: "instant \<Rightarrow> i32 \<Rightarrow> i32 \<Rightarrow> skeleton \<Rightarrow> skeleton_rect option \<times> skeleton" where
  "click_at now px py sk =
     (if \<not> sk_enabled sk then (None, sk)
      else case find_index (in_label px py) (sk_entries sk) of
        None \<Rightarrow> (None, sk)
      | Some k \<Rightarrow>
          (let en = sk_entries sk ! k in
           (Some (en_rect en),
            sk\<lparr>sk_entries := (sk_entries sk)[k := en\<lparr>flash_until := Some (now + FLASH_DURATION),
               en_commit := en_commit en + 1\<rparr>]\<rparr>)))"

text \<open>\<open>format!("{}")\<close> of an \<open>i32\<close>.\<close>

definition i32_string :: "i32 \<Rightarrow> string" where
  "i32_string n = (if sint n < 0 then CHR ''-'' # decimal (nat (- sint n)) else decimal (nat (sint n)))"

definition label_text :: "skeleton_rect \<Rightarrow> string" where
  "label_text r =
     (let q = sk_rect r;
          geo = ''('' @ i32_string (r_x q) @ '','' @ i32_string (r_y q) @ '') '' @
                i32_string (r_w q) @ ''x'' @ i32_string (r_h q) in
      if sk_label r = [] then sk_kind r @ '' '' @ geo
      else sk_kind r @ '' '' @ sk_label r @ '' '' @ geo)"

definition entry_update :: "text_api \<Rightarrow> skeleton_rect \<Rightarrow> sk_entry \<Rightarrow> sk_entry" where
  "entry_update tx r en =
     (let text = label_text r;
          fg = label_fg tx (sk_kind r) (sk_selected r);
          en1 = (if text \<noteq> last_text en \<or> fg \<noteq> last_fg en
                 then en\<lparr>last_text := text, last_fg := fg, label_size := label_px tx text\<rparr> else en) in
      en1\<lparr>en_rect := r, en_commit := en_commit en1 + 1\<rparr>)"

definition encloses :: "ipc_rect \<Rightarrow> ipc_rect \<Rightarrow> bool" where
  "encloses q r \<longleftrightarrow> sint (r_x q) \<le> sint (r_x r) \<and> sint (r_y q) \<le> sint (r_y r) \<and>
     sint (r_x r + r_w r) \<le> sint (r_x q + r_w q) \<and> sint (r_y r + r_h r) \<le> sint (r_y q + r_h q)"

definition depth_of :: "ipc_rect list \<Rightarrow> ipc_rect \<Rightarrow> i32" where
  "depth_of outer r = word_of_nat (length (filter (\<lambda>q. encloses q r) outer))"

definition i32_div3 :: "i32 \<Rightarrow> i32" where
  "i32_div3 n = word_of_int (sint n sdiv 3)"

definition inset_of :: "i32 \<Rightarrow> ipc_rect \<Rightarrow> i32" where
  "inset_of depth r =
     i32_min (i32_min (i32_min (depth * INSET_STEP) MAX_INSET) (i32_max (i32_div3 (r_w r)) 0))
       (i32_max (i32_div3 (r_h r)) 0)"

definition inset_rect :: "i32 \<Rightarrow> ipc_rect \<Rightarrow> ipc_rect" where
  "inset_rect i r = \<lparr>r_x = r_x r + i, r_y = r_y r + i,
     r_w = i32_max (r_w r - i * 2) 1, r_h = i32_max (r_h r - i * 2) 1\<rparr>"

text \<open>The loop over the entries: entry \<open>i\<close> looks at the entries before it.\<close>

fun set_draw_rects :: "ipc_rect list \<Rightarrow> sk_entry list \<Rightarrow> sk_entry list" where
  "set_draw_rects outer [] = []"
| "set_draw_rects outer (en # ens) =
     (let r = sk_rect (en_rect en) in
      en\<lparr>draw_rect := inset_rect (inset_of (depth_of outer r) r) r\<rparr> # set_draw_rects (outer @ [r]) ens)"

definition set_rects :: "text_api \<Rightarrow> skeleton_rect list \<Rightarrow> skeleton \<Rightarrow> skeleton" where
  "set_rects tx rects sk =
     (let sized = take (length rects) (sk_entries sk) @
            replicate (length rects - length (sk_entries sk)) entry_new;
          updated = map2 (entry_update tx) rects sized;
          drawn = set_draw_rects [] updated in
      sk\<lparr>sk_entries := map (\<lambda>en. en\<lparr>has_label := 0 < sint (fst (label_size en)) \<and>
            0 < sint (snd (label_size en))\<rparr>) drawn\<rparr>)"

section \<open>Panel layout\<close>

text \<open>The layout at the head of \<open>build_elements\<close>: expired flashes end, labels are stacked from the
  bottom-right corner of the canvas.\<close>

definition end_flash :: "instant \<Rightarrow> sk_entry \<Rightarrow> sk_entry" where
  "end_flash now en =
     (case flash_until en of
        Some until \<Rightarrow> if until \<le> now then en\<lparr>flash_until := None, en_commit := en_commit en + 1\<rparr> else en
      | None \<Rightarrow> en)"

definition labelled :: "sk_entry list \<Rightarrow> sk_entry list" where
  "labelled ens = filter has_label ens"

definition panel_height :: "sk_entry list \<Rightarrow> i32" where
  "panel_height ens =
     (let total_h = foldl (\<lambda>h en. h + snd (label_size en)) 0 (labelled ens);
          visible = (word_of_nat (length (labelled ens)) :: i32) in
      if 1 < sint visible then total_h + (visible - 1) * PANEL_GAP else total_h)"

fun place_labels :: "i32 \<Rightarrow> i32 \<Rightarrow> i32 \<Rightarrow> sk_entry list \<Rightarrow> sk_entry list" where
  "place_labels right min_x y [] = []"
| "place_labels right min_x y (en # ens) =
     (if has_label en then
        en\<lparr>panel_pos := (i32_max (right - fst (label_size en)) min_x, y)\<rparr> #
          place_labels right min_x (y + (snd (label_size en) + PANEL_GAP)) ens
      else en # place_labels right min_x y ens)"

definition panel_layout :: "instant \<Rightarrow> ipc_rect \<Rightarrow> skeleton \<Rightarrow> skeleton" where
  "panel_layout now canvas sk =
     (if \<not> sk_enabled sk \<or> sk_entries sk = [] then sk
      else
        (let ens = map (end_flash now) (sk_entries sk);
             panel_right = (r_x canvas + r_w canvas) - PANEL_MARGIN;
             panel_bottom = (r_y canvas + r_h canvas) - PANEL_MARGIN;
             panel_min_y = r_y canvas + PANEL_MARGIN;
             panel_min_x = r_x canvas + PANEL_MARGIN;
             panel_y = i32_max (panel_bottom - panel_height ens) panel_min_y in
         sk\<lparr>sk_entries := place_labels panel_right panel_min_x panel_y ens\<rparr>))"

section \<open>Key cast\<close>

definition MAX_AGE :: nat where "MAX_AGE = 2500 * 1000000"
definition REPEAT_WINDOW :: nat where "REPEAT_WINDOW = 800 * 1000000"
definition MAX_ENTRIES :: nat where "MAX_ENTRIES = 12"

record key_entry =
  ke_label :: string
  pressed_at :: instant
  ke_repeat :: u32

record key_cast =
  kc_enabled :: bool
  kc_entries :: "key_entry list"
  kc_dirty :: bool

definition key_cast_new :: key_cast where
  "key_cast_new = \<lparr>kc_enabled = False, kc_entries = [], kc_dirty = False\<rparr>"

definition key_cast_set_enabled :: "bool \<Rightarrow> 'a key_cast_scheme \<Rightarrow> 'a key_cast_scheme" where
  "key_cast_set_enabled enabled k =
     (if kc_enabled k = enabled then k
      else if enabled then k\<lparr>kc_enabled := True, kc_dirty := True\<rparr>
      else k\<lparr>kc_enabled := False, kc_entries := [], kc_dirty := True\<rparr>)"

definition key_cast_push :: "instant \<Rightarrow> string \<Rightarrow> 'a key_cast_scheme \<Rightarrow> 'a key_cast_scheme" where
  "key_cast_push now label k =
     (if \<not> kc_enabled k then k
      else
        (let es = kc_entries k in
         if es \<noteq> [] \<and> ke_label (last es) = label \<and> now - pressed_at (last es) < REPEAT_WINDOW
         then k\<lparr>kc_entries := butlast es @
                  [(last es)\<lparr>pressed_at := now, ke_repeat := ke_repeat (last es) + 1\<rparr>],
                kc_dirty := True\<rparr>
         else
           (let es1 = es @ [\<lparr>ke_label = label, pressed_at = now, ke_repeat = 1\<rparr>] in
            k\<lparr>kc_entries := drop (length es1 - MAX_ENTRIES) es1, kc_dirty := True\<rparr>)))"

text \<open>\<open>while front is expired: pop_front\<close>.\<close>

fun drop_expired_loop :: "instant \<Rightarrow> key_entry list \<Rightarrow> bool \<Rightarrow> key_entry list \<times> bool" where
  "drop_expired_loop now [] dirty = ([], dirty)"
| "drop_expired_loop now (en # es) dirty =
     (if MAX_AGE \<le> now - pressed_at en then drop_expired_loop now es True else (en # es, dirty))"

definition drop_expired :: "instant \<Rightarrow> 'a key_cast_scheme \<Rightarrow> 'a key_cast_scheme" where
  "drop_expired now k =
     (case drop_expired_loop now (kc_entries k) (kc_dirty k) of
        (es, dirty) \<Rightarrow> k\<lparr>kc_entries := es, kc_dirty := dirty\<rparr>)"

definition key_cast_pre_paint :: "instant \<Rightarrow> 'a key_cast_scheme \<Rightarrow> 'a key_cast_scheme" where
  "key_cast_pre_paint now k = (if \<not> kc_enabled k then k else drop_expired now k)"

definition entry_text :: "key_entry \<Rightarrow> string" where
  "entry_text en =
     (if 1 < ke_repeat en
      then ke_label en @ '' '' @ [CHR 0xC3, CHR 0x97] @ decimal (unat (ke_repeat en))
      else ke_label en)"

fun join :: "string \<Rightarrow> string list \<Rightarrow> string" where
  "join sep [] = []"
| "join sep [s] = s"
| "join sep (s # ss) = s @ sep @ join sep ss"

definition current_text :: "'a key_cast_scheme \<Rightarrow> string" where
  "current_text k = join ''  '' (map entry_text (kc_entries k))"

definition key_cast_post_paint :: "'a key_cast_scheme \<Rightarrow> bool" where
  "key_cast_post_paint k \<longleftrightarrow> kc_enabled k \<and> kc_entries k \<noteq> []"

section \<open>Jelly cursor\<close>

text \<open>200 ms.\<close>

definition JELLY_DURATION :: nat where "JELLY_DURATION = 200 * 1000000"

type_synonym irect = "int \<times> int \<times> int \<times> int"

datatype anim_state = AnimIdle | Primed irect | Animating irect irect nat

definition COLOR_ALPHA :: byte where "COLOR_ALPHA = 0xc8"

definition DEFAULT_COLOR_SOLID :: bytes where "DEFAULT_COLOR_SOLID = [0xeb, 0xdc, 0x89, 0xc8]"

record jelly =
  je_enabled :: bool
  je_state :: anim_state
  je_commit :: nat
  color_solid :: bytes
  color_light :: bytes

fun last_rect :: "anim_state \<Rightarrow> irect option" where
  "last_rect AnimIdle = None"
| "last_rect (Primed r) = Some r"
| "last_rect (Animating _ to _) = Some to"

definition lighter_bgra :: "bytes \<Rightarrow> bytes" where
  "lighter_bgra c =
     (case c of [b, g, r, a] \<Rightarrow>
        (let mix_white = (\<lambda>v. word_of_nat ((unat v + 255) div 2)) in [mix_white b, mix_white g, mix_white r, a])
      | _ \<Rightarrow> c)"

definition jelly_new :: jelly where
  "jelly_new = \<lparr>je_enabled = False, je_state = AnimIdle, je_commit = 0, color_solid = DEFAULT_COLOR_SOLID,
     color_light = lighter_bgra DEFAULT_COLOR_SOLID\<rparr>"

definition jelly_set_enabled :: "bool \<Rightarrow> jelly \<Rightarrow> jelly" where
  "jelly_set_enabled enabled j =
     (if enabled then j\<lparr>je_enabled := True\<rparr> else j\<lparr>je_enabled := False, je_state := AnimIdle\<rparr>)"

definition hex_digit :: "char \<Rightarrow> nat option" where
  "hex_digit c =
     (let n = (of_char c :: nat) in
      if 48 \<le> n \<and> n \<le> 57 then Some (n - 48)
      else if 97 \<le> n \<and> n \<le> 102 then Some (n - 87)
      else if 65 \<le> n \<and> n \<le> 70 then Some (n - 55) else None)"

text \<open>\<open>u8::from_str_radix(s, 16)\<close> of two bytes: a leading \<open>+\<close> is accepted before one digit.\<close>

definition hex_byte :: "char \<Rightarrow> char \<Rightarrow> byte option" where
  "hex_byte c d =
     (if c = CHR ''+'' then map_option word_of_nat (hex_digit d)
      else case (hex_digit c, hex_digit d) of
        (Some x, Some y) \<Rightarrow> Some (word_of_nat (16 * x + y))
      | _ \<Rightarrow> None)"

definition ascii_space :: "char \<Rightarrow> bool" where
  "ascii_space c \<longleftrightarrow> (let n = (of_char c :: nat) in n = 32 \<or> (9 \<le> n \<and> n \<le> 13))"

definition trim :: "string \<Rightarrow> string" where
  "trim s = rev (dropWhile ascii_space (rev (dropWhile ascii_space s)))"

text \<open>\<open>parse_hex_color\<close> on ASCII strings.\<close>

definition parse_hex_color :: "string \<Rightarrow> bytes option" where
  "parse_hex_color s0 =
     (let s = dropWhile (\<lambda>c. c = CHR ''#'') (trim s0) in
      case s of
        [r1, r2, g1, g2, b1, b2] \<Rightarrow>
          (case (hex_byte r1 r2, hex_byte g1 g2, hex_byte b1 b2) of
             (Some r, Some g, Some b) \<Rightarrow> Some [b, g, r, COLOR_ALPHA]
           | _ \<Rightarrow> None)
      | [r1, r2, g1, g2, b1, b2, a1, a2] \<Rightarrow>
          (case (hex_byte r1 r2, hex_byte g1 g2, hex_byte b1 b2, hex_byte a1 a2) of
             (Some r, Some g, Some b, Some a) \<Rightarrow> Some [b, g, r, a]
           | _ \<Rightarrow> None)
      | _ \<Rightarrow> None)"

definition set_color_hex :: "string \<Rightarrow> jelly \<Rightarrow> jelly" where
  "set_color_hex hex j =
     (case parse_hex_color hex of
        Some bgra \<Rightarrow> j\<lparr>color_solid := bgra, color_light := lighter_bgra bgra\<rparr>
      | None \<Rightarrow> j)"

definition irect_of :: "rect \<Rightarrow> irect" where
  "irect_of r = (sint (loc_x r), sint (loc_y r), sint (size_w r), sint (size_h r))"

definition jelly_update :: "rect option \<Rightarrow> nat \<Rightarrow> jelly \<Rightarrow> jelly" where
  "jelly_update r now j =
     (if \<not> je_enabled j then j
      else case r of
        None \<Rightarrow> j\<lparr>je_state := AnimIdle\<rparr>
      | Some q \<Rightarrow>
          (let target = irect_of q in
           case last_rect (je_state j) of
             None \<Rightarrow> j\<lparr>je_state := Primed target\<rparr>
           | Some prev \<Rightarrow> if prev = target then j else j\<lparr>je_state := Animating prev target now\<rparr>))"

definition jelly_pre_paint :: "nat \<Rightarrow> jelly \<Rightarrow> jelly" where
  "jelly_pre_paint present j =
     (case je_state j of
        Animating _ to start \<Rightarrow>
          if JELLY_DURATION \<le> present - start then j\<lparr>je_state := Primed to, je_commit := je_commit j + 1\<rparr> else j
      | _ \<Rightarrow> j)"

section \<open>Switches\<close>

record cursor_trail =
  tr_enabled :: bool
  tr_last_time :: "nat option"
  tr_settled :: bool

definition trail_set_enabled :: "bool \<Rightarrow> cursor_trail \<Rightarrow> cursor_trail" where
  "trail_set_enabled enabled t =
     (if enabled then t\<lparr>tr_enabled := True\<rparr>
      else t\<lparr>tr_enabled := False, tr_last_time := None, tr_settled := True\<rparr>)"

record recorder_overlay =
  ro_active :: "nat option"
  ro_last_seconds :: "u64 option"

definition overlay_set_active :: "nat option \<Rightarrow> 'a recorder_overlay_scheme \<Rightarrow> 'a recorder_overlay_scheme" where
  "overlay_set_active started o' =
     (if ro_active o' = started then o'
      else case started of
        Some d \<Rightarrow> o'\<lparr>ro_active := Some d\<rparr>
      | None \<Rightarrow> o'\<lparr>ro_active := None, ro_last_seconds := None\<rparr>)"

section \<open>Effects\<close>

record effects =
  fx_measure :: bool
  fx_skeleton :: skeleton
  fx_splash_dismissed :: "instant option"
  fx_cursor_trail :: cursor_trail
  fx_jelly :: jelly
  fx_recorder :: recorder_overlay
  fx_key_cast :: key_cast
  skeleton_click_absorbed :: bool
  last_emacs_connected :: bool
  last_recording_active :: bool

definition measure_set_enabled :: "bool \<Rightarrow> effects \<Rightarrow> effects" where
  "measure_set_enabled enabled x = x\<lparr>fx_measure := enabled\<rparr>"

definition splash_dismiss :: "instant \<Rightarrow> effects \<Rightarrow> effects" where
  "splash_dismiss now x =
     (if fx_splash_dismissed x = None then x\<lparr>fx_splash_dismissed := Some now\<rparr> else x)"

definition effects_default :: effects where
  "effects_default = \<lparr>fx_measure = False, fx_skeleton = skeleton_new, fx_splash_dismissed = None,
     fx_cursor_trail = \<lparr>tr_enabled = False, tr_last_time = None, tr_settled = True\<rparr>,
     fx_jelly = jelly_new, fx_recorder = \<lparr>ro_active = None, ro_last_seconds = None\<rparr>,
     fx_key_cast = key_cast_new, skeleton_click_absorbed = False, last_emacs_connected = False,
     last_recording_active = False\<rparr>"

definition effects_reset_on_workspace_switch :: "nat \<Rightarrow> effects \<Rightarrow> effects" where
  "effects_reset_on_workspace_switch now x =
     x\<lparr>fx_skeleton := skeleton_clear (skeleton_set_enabled False (fx_skeleton x)),
       skeleton_click_absorbed := False, fx_jelly := jelly_update None now (fx_jelly x)\<rparr>"

end
