(* ===== verification/Pixels.thy ===== *)
theory Pixels
  imports Overlays
begin

text \<open>
  Pixel buffers: BGRA bytes, row after row, written through byte offsets computed in \<open>i32\<close> and cast
  to \<open>usize\<close>; a write outside the slice panics. The bitmap font of
  \<open>crates/effect-plugins/src/bitmap_font.rs\<close> is drawn on them.

  An \<open>i32\<close> is an \<open>int\<close> here, with the wrap-around of a product or sum written out as \<open>wrap\<close>. \<open>None\<close>
  is the panic. The second half is a calculus for such routines: \<open>draws w h f G\<close> says that \<open>f\<close> does
  not panic on any buffer of \<open>w\<close> by \<open>h\<close> pixels and changes the pixel at \<open>p\<close> by \<open>G p\<close>; it is closed
  under sequence and loops, so that a routine is verified along its text.
\<close>

section \<open>Buffers\<close>

type_synonym colour = "byte \<times> byte \<times> byte \<times> byte"
type_synonym f32 = "32 word"

definition wrap :: "int \<Rightarrow> int" where
  "wrap n = (n + 2 ^ 31) mod 2 ^ 32 - 2 ^ 31"

definition as_usize :: "int \<Rightarrow> nat" where
  "as_usize n = nat (n mod 2 ^ 64)"

fun bytes_of :: "colour \<Rightarrow> bytes" where
  "bytes_of (b, g, r, a) = [b, g, r, a]"

text \<open>\<open>data[off..off + 4].copy_from_slice(&color)\<close>.\<close>

definition put4 :: "nat \<Rightarrow> colour \<Rightarrow> bytes \<Rightarrow> bytes option" where
  "put4 off c data =
     (if off + 4 \<le> length data then Some (take off data @ bytes_of c @ drop (off + 4) data) else None)"

text \<open>\<open>data[lo..hi].fill(0)\<close>.\<close>

definition fill_zero :: "nat \<Rightarrow> nat \<Rightarrow> bytes \<Rightarrow> bytes option" where
  "fill_zero lo hi data =
     (if lo \<le> hi \<and> hi \<le> length data then Some (take lo data @ replicate (hi - lo) 0 @ drop hi data) else None)"

text \<open>\<open>chunks_exact_mut(4).for_each(|c| c.copy_from_slice(&color))\<close>.\<close>

fun fill_chunks :: "colour \<Rightarrow> bytes \<Rightarrow> bytes" where
  "fill_chunks c (x1 # x2 # x3 # x4 # xs) = bytes_of c @ fill_chunks c xs"
| "fill_chunks c xs = xs"

text \<open>A loop whose body may panic.\<close>

fun fold_panic :: "('x \<Rightarrow> 'd \<Rightarrow> 'd option) \<Rightarrow> 'x list \<Rightarrow> 'd \<Rightarrow> 'd option" where
  "fold_panic f [] d = Some d"
| "fold_panic f (x # xs) d = Option.bind (f x d) (fold_panic f xs)"

definition irange :: "int \<Rightarrow> int \<Rightarrow> int list" where
  "irange lo hi = [lo..hi - 1]"

section \<open>The bitmap font\<close>

definition GLYPH_W :: int where "GLYPH_W = 5"
definition GLYPH_H :: int where "GLYPH_H = 7"
definition GLYPH_SPACING :: int where "GLYPH_SPACING = 1"

definition glyph_table :: "(char \<times> bytes) list" where
  "glyph_table =
     [(CHR ''0'', [0x3E, 0x51, 0x49, 0x45, 0x3E]), (CHR ''1'', [0x00, 0x42, 0x7F, 0x40, 0x00]),
      (CHR ''2'', [0x42, 0x61, 0x51, 0x49, 0x46]), (CHR ''3'', [0x21, 0x41, 0x45, 0x4B, 0x31]),
      (CHR ''4'', [0x18, 0x14, 0x12, 0x7F, 0x10]), (CHR ''5'', [0x27, 0x45, 0x45, 0x45, 0x39]),
      (CHR ''6'', [0x3C, 0x4A, 0x49, 0x49, 0x30]), (CHR ''7'', [0x01, 0x71, 0x09, 0x05, 0x03]),
      (CHR ''8'', [0x36, 0x49, 0x49, 0x49, 0x36]), (CHR ''9'', [0x06, 0x49, 0x49, 0x29, 0x1E]),
      (CHR '' '', [0x00, 0x00, 0x00, 0x00, 0x00]), (CHR '','', [0x00, 0x50, 0x30, 0x00, 0x00]),
      (CHR '':'', [0x00, 0x00, 0x36, 0x00, 0x00]), (CHR ''('', [0x00, 0x1C, 0x22, 0x41, 0x00]),
      (CHR '')'', [0x00, 0x41, 0x22, 0x1C, 0x00]), (CHR ''-'', [0x08, 0x08, 0x08, 0x08, 0x08])]"

definition glyph :: "char \<Rightarrow> bytes option" where
  "glyph ch = map_of glyph_table ch"

definition label_width :: "string \<Rightarrow> int" where
  "label_width text =
     (let n = wrap (int (length text)) in
      if n = 0 then 0 else wrap (wrap (n * (GLYPH_W + GLYPH_SPACING)) - GLYPH_SPACING))"

text \<open>
  The write at \<open>y * stride + x * 4\<close>; the innermost test and write of a set bit of a glyph.
\<close>

definition put_at :: "int \<Rightarrow> colour \<Rightarrow> int \<Rightarrow> int \<Rightarrow> bytes \<Rightarrow> bytes option" where
  "put_at w c x y data = put4 (as_usize (wrap (wrap (y * wrap (w * 4)) + wrap (x * 4)))) c data"

definition draw_dot :: "int \<Rightarrow> int \<Rightarrow> colour \<Rightarrow> int \<Rightarrow> int \<Rightarrow> bytes \<Rightarrow> bytes option" where
  "draw_dot w h c px py data =
     (if 0 \<le> px \<and> px < w \<and> 0 \<le> py \<and> py < h then put_at w c px py data else Some data)"

definition draw_column :: "int \<Rightarrow> int \<Rightarrow> colour \<Rightarrow> int \<Rightarrow> int \<Rightarrow> byte \<Rightarrow> bytes \<Rightarrow> bytes option" where
  "draw_column w h c px pos_y col_bits =
     fold_panic (\<lambda>gr. if \<not> bit col_bits (nat gr) then Some else draw_dot w h c px (wrap (pos_y + gr)))
       (irange 0 GLYPH_H)"

definition draw_glyph :: "int \<Rightarrow> int \<Rightarrow> colour \<Rightarrow> int \<Rightarrow> int \<Rightarrow> bytes \<Rightarrow> bytes \<Rightarrow> bytes option" where
  "draw_glyph w h c cursor_x pos_y cols =
     fold_panic (\<lambda>(gc, col_bits). draw_column w h c (wrap (cursor_x + int gc)) pos_y col_bits)
       (enumerate 0 cols)"

fun draw_text :: "int \<Rightarrow> int \<Rightarrow> int \<Rightarrow> int \<Rightarrow> string \<Rightarrow> colour \<Rightarrow> bytes \<Rightarrow> bytes option" where
  "draw_text w h cursor_x pos_y [] c data = Some data"
| "draw_text w h cursor_x pos_y (ch # chs) c data =
     Option.bind (case glyph ch of None \<Rightarrow> Some data | Some cols \<Rightarrow> draw_glyph w h c cursor_x pos_y cols data)
       (draw_text w h (wrap (cursor_x + (GLYPH_W + GLYPH_SPACING))) pos_y chs c)"

section \<open>Images\<close>

text \<open>A buffer of \<open>w\<close> by \<open>h\<close> pixels whose offsets fit an \<open>i32\<close>, and its pixels.\<close>

definition canvas_of :: "int \<Rightarrow> int \<Rightarrow> bytes \<Rightarrow> bool" where
  "canvas_of w h data \<longleftrightarrow> 0 \<le> w \<and> 0 \<le> h \<and> 4 * (w * h) < 2 ^ 31 \<and> 4 * w < 2 ^ 31 \<and> int (length data) = 4 * (w * h)"

definition pixel :: "int \<Rightarrow> bytes \<Rightarrow> int \<times> int \<Rightarrow> colour" where
  "pixel w data p =
     (let k = nat (4 * (snd p * w + fst p)) in (data ! k, data ! (k + 1), data ! (k + 2), data ! (k + 3)))"

definition on_canvas :: "int \<Rightarrow> int \<Rightarrow> int \<times> int \<Rightarrow> bool" where
  "on_canvas w h p \<longleftrightarrow> 0 \<le> fst p \<and> fst p < w \<and> 0 \<le> snd p \<and> snd p < h"

definition draws :: "int \<Rightarrow> int \<Rightarrow> (bytes \<Rightarrow> bytes option) \<Rightarrow> (int \<times> int \<Rightarrow> colour \<Rightarrow> colour) \<Rightarrow> bool" where
  "draws w h f G \<longleftrightarrow>
     (\<forall>data. canvas_of w h data \<longrightarrow>
        (\<exists>data'. f data = Some data' \<and> canvas_of w h data' \<and>
           (\<forall>p. on_canvas w h p \<longrightarrow> pixel w data' p = G p (pixel w data p))))"

named_theorems drawing

lemma drawsI:
  assumes "\<And>data. canvas_of w h data \<Longrightarrow> \<exists>data'. f data = Some data' \<and> canvas_of w h data' \<and>
    (\<forall>p. on_canvas w h p \<longrightarrow> pixel w data' p = G p (pixel w data p))"
  shows "draws w h f G"
  using assms by (simp add: draws_def)

lemma drawsD:
  assumes "draws w h f G" and "canvas_of w h data"
  obtains data' where "f data = Some data'" and "canvas_of w h data'"
    and "\<And>p. on_canvas w h p \<Longrightarrow> pixel w data' p = G p (pixel w data p)"
  using assms by (auto simp: draws_def)

lemma draws_cong:
  assumes "draws w h f G" and "\<And>p c. on_canvas w h p \<Longrightarrow> G p c = G' p c"
  shows "draws w h f G'"
  using assms by (auto simp: draws_def)

lemma draws_skip: "draws w h Some (\<lambda>p c. c)"
  by (simp add: draws_def)

lemma draws_seq:
  assumes "draws w h f F" and "draws w h g G"
  shows "draws w h (\<lambda>d. Option.bind (f d) g) (\<lambda>p c. G p (F p c))"
proof (rule drawsI)
  fix data assume "canvas_of w h data"
  with assms(1) obtain d1 where d1: "f data = Some d1" "canvas_of w h d1"
    "\<And>p. on_canvas w h p \<Longrightarrow> pixel w d1 p = F p (pixel w data p)" unfolding draws_def by blast
  from assms(2) d1(2) obtain d2 where "g d1 = Some d2" "canvas_of w h d2"
    "\<And>p. on_canvas w h p \<Longrightarrow> pixel w d2 p = G p (pixel w d1 p)" unfolding draws_def by blast
  with d1 show "\<exists>d'. Option.bind (f data) g = Some d' \<and> canvas_of w h d' \<and>
      (\<forall>p. on_canvas w h p \<longrightarrow> pixel w d' p = G p (F p (pixel w data p)))" by simp
qed

lemma draws_if:
  "(b \<Longrightarrow> draws w h f F) \<Longrightarrow> (\<not> b \<Longrightarrow> draws w h g G) \<Longrightarrow>
     draws w h (if b then f else g) (\<lambda>p c. if b then F p c else G p c)"
  by auto

lemma draws_fold:
  assumes "\<And>x. x \<in> set xs \<Longrightarrow> draws w h (f x) (F x)"
  shows "draws w h (fold_panic f xs) (\<lambda>p c. fold (\<lambda>x. F x p) xs c)"
  using assms
proof (induction xs)
  case (Cons x xs)
  have "fold_panic f (x # xs) = (\<lambda>d. Option.bind (f x d) (fold_panic f xs))" by (rule ext) simp
  then show ?case using draws_seq [OF Cons.prems [of x] Cons.IH] Cons.prems by simp
qed (simp add: draws_skip [unfolded fun_eq_iff] draws_def)

text \<open>Loops that only set pixels to one colour set those that some round sets.\<close>

definition sets :: "colour \<Rightarrow> (int \<times> int \<Rightarrow> bool) \<Rightarrow> int \<times> int \<Rightarrow> colour \<Rightarrow> colour" where
  "sets c P p old = (if P p then c else old)"

lemma fold_sets: "fold (\<lambda>x. sets c (P x) p) xs old = sets c (\<lambda>p. \<exists>x \<in> set xs. P x p) p old"
  by (induction xs arbitrary: old) (auto simp: sets_def)

lemma draws_sets_fold:
  assumes "\<And>x. x \<in> set xs \<Longrightarrow> draws w h (f x) (sets c (P x))"
  shows "draws w h (fold_panic f xs) (sets c (\<lambda>p. \<exists>x \<in> set xs. P x p))"
  using draws_fold [OF assms] by (simp add: fold_sets)

lemma draws_sets_seq:
  assumes "draws w h f (sets c P)" and "draws w h g (sets c Q)"
  shows "draws w h (\<lambda>d. Option.bind (f d) g) (sets c (\<lambda>p. P p \<or> Q p))"
  using draws_seq [OF assms] by (rule draws_cong) (simp add: sets_def)

lemma draws_guard:
  assumes "b \<Longrightarrow> draws w h f (sets c P)"
  shows "draws w h (\<lambda>d. if b then f d else Some d) (sets c (\<lambda>p. b \<and> P p))"
  using assms by (cases b) (simp_all add: draws_def sets_def)

text \<open>A background and then a set of pixels: the image does not depend on the buffer.\<close>

lemma draws_over:
  assumes "draws w h f (\<lambda>p old. bg)" and "draws w h g (sets fg P)"
  shows "draws w h (\<lambda>d. Option.bind (f d) g) (\<lambda>p old. if P p then fg else bg)"
  using draws_seq [OF assms] by (rule draws_cong) (simp add: sets_def)

section \<open>Offsets\<close>

lemma wrap_id [simp]: "- (2 ^ 31) \<le> n \<Longrightarrow> n < 2 ^ 31 \<Longrightarrow> wrap n = n"
  by (simp add: wrap_def)

lemma wrap_bounds: "- (2 ^ 31) \<le> wrap n" "wrap n < 2 ^ 31"
  by (simp_all add: wrap_def)

lemma as_usize_id [simp]: "0 \<le> n \<Longrightarrow> n < 2 ^ 31 \<Longrightarrow> as_usize n = nat n"
  by (simp add: as_usize_def)

definition small :: "int \<Rightarrow> int \<Rightarrow> bool" where
  "small w h \<longleftrightarrow> 0 \<le> w \<and> 0 \<le> h \<and> 4 * (w * h) < 2 ^ 31 \<and> 4 * w < 2 ^ 31"

lemma canvas_small: "canvas_of w h data \<Longrightarrow> small w h"
  by (simp add: canvas_of_def small_def)

lemma draws_small: "(small w h \<Longrightarrow> draws w h f G) \<Longrightarrow> draws w h f G"
  unfolding draws_def by (blast dest: canvas_small)

lemma offset_bounds_small:
  assumes "small w h" and "0 \<le> x" and "x \<le> w" and "0 \<le> y" and "y < h"
  shows "0 \<le> y * w" and "y * w + x \<le> w * h" and "4 * (y * w) < 2 ^ 31" and "4 * x < 2 ^ 31" and "4 * w < 2 ^ 31"
proof -
  have b: "y * w + w \<le> w * h" using assms mult_right_mono [of "y + 1" h w] by (simp add: small_def algebra_simps)
  have lim: "4 * (w * h) < 2 ^ 31" "4 * w < 2 ^ 31" "0 \<le> w" using assms(1) unfolding small_def by blast+
  show "0 \<le> y * w" "y * w + x \<le> w * h" "4 * x < 2 ^ 31" "4 * w < 2 ^ 31" using assms b lim by simp_all
  show "4 * (y * w) < 2 ^ 31" by (rule le_less_trans [OF _ lim(1)]) (use b lim(3) in simp)
qed

lemma offset_bounds:
  assumes "canvas_of w h data" and "0 \<le> x" and "x < w" and "0 \<le> y" and "y < h"
  shows "0 \<le> y * w + x" and "y * w + x < w * h" and "0 \<le> y * w" and "y * w \<le> w * h"
proof -
  have "y * w + w \<le> w * h" using assms mult_right_mono [of "y + 1" h w] by (simp add: algebra_simps)
  then show "y * w + x < w * h" "y * w \<le> w * h" using assms by simp_all
  show "0 \<le> y * w" "0 \<le> y * w + x" using assms by simp_all
qed

lemma offset_eq:
  assumes "canvas_of w h data" and "0 \<le> x" and "x < w" and "0 \<le> y" and "y < h"
  shows "as_usize (wrap (wrap (y * wrap (w * 4)) + wrap (x * 4))) = nat (4 * (y * w + x))"
proof -
  note b = offset_bounds [OF assms]
  have small: "4 * (w * h) < 2 ^ 31" "4 * w < 2 ^ 31" "0 \<le> w" using assms(1) by (simp_all add: canvas_of_def)
  have row: "wrap (w * 4) = w * 4" and col: "wrap (x * 4) = x * 4" and e: "y * (w * 4) = 4 * (y * w)"
    using small assms by simp_all
  have down: "wrap (4 * (y * w)) = 4 * (y * w)" and off: "wrap (4 * (y * w) + x * 4) = 4 * (y * w + x)"
    and cast: "as_usize (4 * (y * w + x)) = nat (4 * (y * w + x))"
    using b small assms(2) wrap_id [of "4 * (y * w)"] wrap_id [of "4 * (y * w + x)"] as_usize_id [of "4 * (y * w + x)"]
    by (simp_all add: algebra_simps)
  show ?thesis unfolding row col e down off cast by (rule refl)
qed

lemma length_bytes_of [simp]: "length (bytes_of c) = 4"
  by (cases c) simp

lemma pixel_patch:
  assumes "k + 4 \<le> length data" and "j + 4 \<le> length data" and "4 dvd k" and "4 dvd j"
  shows "\<And>i. i < 4 \<Longrightarrow> (take k data @ bytes_of c @ drop (k + 4) data) ! (j + i) =
    (if j = k then bytes_of c ! i else data ! (j + i))"
proof -
  fix i :: nat assume i: "i < 4"
  have "j = k \<or> j + 4 \<le> k \<or> k + 4 \<le> j" using assms(3,4) by presburger
  then consider "j = k" | "j + 4 \<le> k" | "k + 4 \<le> j" by blast
  then show "(take k data @ bytes_of c @ drop (k + 4) data) ! (j + i) = (if j = k then bytes_of c ! i else data ! (j + i))"
    using assms(1,2) i by cases (auto simp: nth_append)
qed

lemma offset_inj:
  assumes "0 \<le> (a :: int)" and "a < w" and "0 \<le> x" and "x < w" and "b * w + a = y * w + x"
  shows "a = x \<and> b = y"
proof -
  have "(b * w + a) mod w = a" "(y * w + x) mod w = x" "(b * w + a) div w = b" "(y * w + x) div w = y"
    using assms(1-4) by (simp_all add: ac_simps)
  with assms(5) show ?thesis by metis
qed

lemma put4_pixel:
  assumes "canvas_of w h data" and "on_canvas w h q"
  shows "\<exists>data'. put4 (nat (4 * (snd q * w + fst q))) c data = Some data' \<and> canvas_of w h data' \<and>
    (\<forall>p. on_canvas w h p \<longrightarrow> pixel w data' p = (if p = q then c else pixel w data p))"
proof -
  define pos where "pos p = nat (4 * (snd p * w + fst p))" for p :: "int \<times> int"
  have nonneg: "0 \<le> snd p * w + fst p" and fits: "pos p + 4 \<le> length data" if "on_canvas w h p" for p
  proof -
    have b: "0 \<le> snd p * w + fst p" "snd p * w + fst p < w * h"
      using offset_bounds [OF assms(1), of "fst p" "snd p"] that by (simp_all add: on_canvas_def)
    then have "int (pos p) = 4 * (snd p * w + fst p)" by (simp add: pos_def)
    moreover have "int (length data) = 4 * (w * h)" using assms(1) by (simp add: canvas_of_def)
    ultimately have "int (pos p + 4) \<le> int (length data)" using b by simp
    then show "0 \<le> snd p * w + fst p" "pos p + 4 \<le> length data" using b(1) by (simp_all only: of_nat_le_iff)
  qed
  have dvd: "4 dvd pos p" if "on_canvas w h p" for p
  proof -
    have "int (pos p) = 4 * (snd p * w + fst p)" using nonneg [OF that] by (simp add: pos_def)
    then have "4 dvd int (pos p)" by (simp only: dvd_triv_left)
    then show ?thesis by presburger
  qed
  have inj: "pos p = pos q \<longleftrightarrow> p = q" if "on_canvas w h p" for p
  proof
    assume "pos p = pos q"
    then have "snd p * w + fst p = snd q * w + fst q"
      using nonneg [OF that] nonneg [OF assms(2)] by (simp add: pos_def eq_nat_nat_iff)
    then show "p = q"
      using that assms(2) offset_inj [of "fst p" w "fst q" "snd p" "snd q"] by (simp add: on_canvas_def prod_eq_iff)
  qed simp
  let ?d = "take (pos q) data @ bytes_of c @ drop (pos q + 4) data"
  have "put4 (pos q) c data = Some ?d" using fits [OF assms(2)] by (simp add: put4_def)
  moreover have "canvas_of w h ?d" using assms(1) fits [OF assms(2)] by (simp add: canvas_of_def)
  moreover have "pixel w ?d p = (if p = q then c else pixel w data p)" if "on_canvas w h p" for p
  proof -
    note at = pixel_patch [OF fits [OF assms(2)] fits [OF that] dvd [OF assms(2)] dvd [OF that], of _ c]
    have here: "pixel w d p = (d ! (pos p + 0), d ! (pos p + 1), d ! (pos p + 2), d ! (pos p + 3))" for d
      by (simp add: pixel_def pos_def Let_def)
    have "(if pos p = pos q then bytes_of c ! i else data ! (pos p + i)) =
        (if p = q then bytes_of c ! i else data ! (pos p + i))" for i using inj [OF that] by simp
    note step = at [of 0, unfolded this] at [of 1, unfolded this] at [of 2, unfolded this] at [of 3, unfolded this]
    show ?thesis unfolding here using step by (cases c) (simp del: One_nat_def add: numeral_eq_Suc)
  qed
  ultimately show ?thesis by (auto simp: pos_def)
qed

lemma put_at_pixel:
  assumes "canvas_of w h data" and "on_canvas w h (x, y)"
  shows "\<exists>data'. put_at w c x y data = Some data' \<and> canvas_of w h data' \<and>
    (\<forall>p. on_canvas w h p \<longrightarrow> pixel w data' p = (if p = (x, y) then c else pixel w data p))"
  using put4_pixel [OF assms, of c] offset_eq [OF assms(1), of x y] assms(2) by (simp add: put_at_def on_canvas_def)

lemma draws_put [drawing]:
  assumes "on_canvas w h (x, y)"
  shows "draws w h (put_at w c x y) (sets c (\<lambda>p. p = (x, y)))"
  using put_at_pixel [OF _ assms, of _ c] by (auto simp: draws_def sets_def)

lemma draws_dot [drawing]:
  "draws w h (draw_dot w h c x y) (sets c (\<lambda>p. p = (x, y)))"
proof (rule drawsI)
  fix data assume canvas: "canvas_of w h data"
  show "\<exists>data'. draw_dot w h c x y data = Some data' \<and> canvas_of w h data' \<and>
      (\<forall>p. on_canvas w h p \<longrightarrow> pixel w data' p = sets c (\<lambda>p. p = (x, y)) p (pixel w data p))"
  proof (cases "on_canvas w h (x, y)")
    case True
    then have "draw_dot w h c x y data = put_at w c x y data" by (simp add: draw_dot_def on_canvas_def)
    then show ?thesis using put_at_pixel [OF canvas True, of c] by (simp add: sets_def)
  next
    case False
    then show ?thesis using canvas by (auto simp: draw_dot_def on_canvas_def sets_def)
  qed
qed

section \<open>Text\<close>

text \<open>Which pixels a text sets: the set bits of its glyphs, six columns apart.\<close>

definition glyph_dot :: "bytes \<Rightarrow> int \<Rightarrow> int \<Rightarrow> bool" where
  "glyph_dot cols gx gy \<longleftrightarrow> 0 \<le> gx \<and> gx < int (length cols) \<and> 0 \<le> gy \<and> gy < GLYPH_H \<and> bit (cols ! nat gx) (nat gy)"

definition text_dot :: "string \<Rightarrow> int \<Rightarrow> int \<Rightarrow> int \<times> int \<Rightarrow> bool" where
  "text_dot text x y p \<longleftrightarrow> (\<exists>i < length text. \<exists>cols. glyph (text ! i) = Some cols \<and>
     glyph_dot cols (fst p - (x + 6 * int i)) (snd p - y))"

lemma glyph_length: "glyph ch = Some cols \<Longrightarrow> length cols = 5"
  by (auto simp: glyph_def glyph_table_def split: if_splits)

lemma draws_column:
  assumes "- (2 ^ 31) \<le> y" and "y + 7 < 2 ^ 31"
  shows "draws w h (draw_column w h c x y col_bits)
    (sets c (\<lambda>p. fst p = x \<and> 0 \<le> snd p - y \<and> snd p - y < 7 \<and> bit col_bits (nat (snd p - y))))"
proof -
  have "draws w h (if \<not> bit col_bits (nat gr) then Some else draw_dot w h c x (wrap (y + gr)))
      (sets c (\<lambda>p. bit col_bits (nat gr) \<and> p = (x, y + gr)))" if "gr \<in> set (irange 0 GLYPH_H)" for gr
  proof -
    have "wrap (y + gr) = y + gr" using that assms by (simp add: irange_def GLYPH_H_def)
    then show ?thesis
      by (cases "bit col_bits (nat gr)")
        (simp_all add: draws_dot, rule draws_cong [OF draws_skip], simp add: sets_def)
  qed
  from draws_sets_fold [OF this] show ?thesis unfolding draw_column_def
    by (rule draws_cong) (auto simp: sets_def irange_def GLYPH_H_def intro!: bexI [of _ "snd _ - y"])
qed

lemma draws_glyph:
  assumes "- (2 ^ 31) \<le> y" and "y + 7 < 2 ^ 31" and "- (2 ^ 31) \<le> x" and "x + int (length cols) < 2 ^ 31"
  shows "draws w h (draw_glyph w h c x y cols) (sets c (\<lambda>p. glyph_dot cols (fst p - x) (snd p - y)))"
proof -
  let ?P = "\<lambda>(gc, bits) p. fst p = x + int gc \<and> 0 \<le> snd p - y \<and> snd p - y < 7 \<and> bit bits (nat (snd p - y))"
  have "draws w h ((\<lambda>(gc, bits). draw_column w h c (wrap (x + int gc)) y bits) e) (sets c (?P e))"
    if "e \<in> set (enumerate 0 cols)" for e :: "nat \<times> byte"
  proof (cases e)
    case (Pair gc bits)
    then have "gc < length cols" using that by (auto simp: in_set_enumerate_eq)
    then have "wrap (x + int gc) = x + int gc" using assms by simp
    then show ?thesis using draws_column [OF assms(1,2), of w h c "x + int gc" bits] Pair by simp
  qed
  from draws_sets_fold [OF this] have "draws w h (draw_glyph w h c x y cols)
      (sets c (\<lambda>p. \<exists>e \<in> set (enumerate 0 cols). ?P e p))" by (simp add: draw_glyph_def)
  moreover have "(\<exists>e \<in> set (enumerate 0 cols). ?P e p) \<longleftrightarrow> glyph_dot cols (fst p - x) (snd p - y)" for p
  proof
    assume "glyph_dot cols (fst p - x) (snd p - y)"
    then have "(nat (fst p - x), cols ! nat (fst p - x)) \<in> set (enumerate 0 cols) \<and>
        ?P (nat (fst p - x), cols ! nat (fst p - x)) p"
      by (auto simp: in_set_enumerate_eq glyph_dot_def GLYPH_H_def)
    then show "\<exists>e \<in> set (enumerate 0 cols). ?P e p" by blast
  qed (auto simp: in_set_enumerate_eq glyph_dot_def GLYPH_H_def)
  ultimately show ?thesis by simp
qed

lemma text_dot_Nil [simp]: "text_dot [] x y p \<longleftrightarrow> False"
  by (simp add: text_dot_def)

lemma text_dot_Cons: "text_dot (ch # chs) x y p \<longleftrightarrow>
    (\<exists>cols. glyph ch = Some cols \<and> glyph_dot cols (fst p - x) (snd p - y)) \<or> text_dot chs (x + 6) y p"
  by (auto simp: text_dot_def less_Suc_eq_0_disj algebra_simps)

lemma draws_text [drawing]:
  assumes "- (2 ^ 31) \<le> y" and "y + 7 < 2 ^ 31" and "- (2 ^ 31) \<le> x" and "x + 6 * int (length str) < 2 ^ 31"
  shows "draws w h (draw_text w h x y str c) (sets c (text_dot str x y))"
  using assms(3,4)
proof (induction str arbitrary: x)
  case Nil
  show ?case by (simp add: draws_def sets_def)
next
  case (Cons ch chs)
  let ?first = "\<lambda>d. case glyph ch of None \<Rightarrow> Some d | Some cols \<Rightarrow> draw_glyph w h c x y cols d"
  let ?G = "\<lambda>p. \<exists>cols. glyph ch = Some cols \<and> glyph_dot cols (fst p - x) (snd p - y)"
  have "draws w h ?first (sets c ?G)"
  proof (cases "glyph ch")
    case (Some cols)
    then show ?thesis using draws_glyph [OF assms(1,2) Cons.prems(1), of cols w h c] Cons.prems(2)
      by (simp add: glyph_length)
  qed (simp add: draws_def sets_def)
  moreover have next_x: "wrap (x + (GLYPH_W + GLYPH_SPACING)) = x + 6"
    using Cons.prems by (simp add: GLYPH_W_def GLYPH_SPACING_def)
  have "draws w h (draw_text w h (x + 6) y chs c) (sets c (text_dot chs (x + 6) y))"
    using Cons.prems by (intro Cons.IH) simp_all
  ultimately have "draws w h (\<lambda>d. Option.bind (?first d) (draw_text w h (x + 6) y chs c))
      (sets c (\<lambda>p. ?G p \<or> text_dot chs (x + 6) y p))"
    by (rule draws_sets_seq)
  moreover have "draw_text w h x y (ch # chs) c = (\<lambda>d. Option.bind (?first d) (draw_text w h (x + 6) y chs c))"
    by (rule ext) (simp only: draw_text.simps next_x)
  ultimately show ?case by (simp only: text_dot_Cons)
qed

section \<open>Fills\<close>

lemma fill_chunks_rep: "length data = 4 * n \<Longrightarrow> fill_chunks c data = concat (replicate n (bytes_of c))"
proof (induction n arbitrary: data)
  case (Suc n)
  then obtain x1 x2 x3 x4 xs where "data = x1 # x2 # x3 # x4 # xs" by (auto simp: numeral_eq_Suc length_Suc_conv)
  with Suc show ?case by simp
qed simp

lemma length_chunks [simp]: "length (concat (replicate n (bytes_of c))) = 4 * n"
  by (induction n) simp_all

lemma chunks_nth: "k < n \<Longrightarrow> i < 4 \<Longrightarrow> concat (replicate n (bytes_of c)) ! (4 * k + i) = bytes_of c ! i"
proof (induction n arbitrary: k)
  case (Suc n)
  then show ?case by (cases k) (simp_all add: nth_append)
qed simp

text \<open>\<open>fill_chunks\<close> gives the same bytes for every buffer of the size.\<close>

lemma fill_chunks_same: "length data = length data' \<Longrightarrow> 4 dvd length data \<Longrightarrow> fill_chunks c data = fill_chunks c data'"
  by (auto simp: dvd_def fill_chunks_rep)

lemma canvas_dvd: "canvas_of w h data \<Longrightarrow> 4 dvd length data"
  by (simp add: canvas_of_def) presburger

lemma draws_fill [drawing]: "draws w h (\<lambda>d. Some (fill_chunks c d)) (\<lambda>p old. c)"
proof (rule drawsI)
  fix data assume canvas: "canvas_of w h data"
  obtain n where n: "length data = 4 * n" using canvas_dvd [OF canvas] by (auto simp: dvd_def)
  have "pixel w (fill_chunks c data) p = c" if "on_canvas w h p" for p
  proof -
    let ?k = "nat (snd p * w + fst p)"
    have b: "0 \<le> snd p * w + fst p" "snd p * w + fst p < w * h"
      using offset_bounds [OF canvas, of "fst p" "snd p"] that by (simp_all add: on_canvas_def)
    then have k: "?k < n" and pos: "nat (4 * (snd p * w + fst p)) = 4 * ?k"
      using n canvas by (simp_all add: canvas_of_def) linarith+
    show ?thesis unfolding pixel_def Let_def pos fill_chunks_rep [OF n]
      using chunks_nth [OF k, of 0 c] chunks_nth [OF k, of 1 c] chunks_nth [OF k, of 2 c] chunks_nth [OF k, of 3 c]
      by (cases c) simp
  qed
  then show "\<exists>d. Some (fill_chunks c data) = Some d \<and> canvas_of w h d \<and> (\<forall>p. on_canvas w h p \<longrightarrow> pixel w d p = c)"
    using canvas n by (simp add: canvas_of_def fill_chunks_rep)
qed

end
