(* ===== verification/Ws_Protocol.thy ===== *)
theory Ws_Protocol
  imports Keyed_Store Counters
begin

text \<open>
  The ext-workspace-v1 protocol of \<open>crates/emskin/src/protocols/workspace.rs\<close>: one instance per
  bound manager, a refresh that sends each client the difference between the real workspaces and
  its last snapshot, and the requests of clients, queued as actions.

  A protocol object is the pair of its manager and a number; \<open>ck\<close> tells whether creating it
  succeeds. The events sent to a client are kept in its instance, in order. \<open>alive\<close> and
  \<open>has_client\<close> are the state of the manager's connection, \<open>visit\<close> the iteration order of maps.
\<close>

section \<open>State\<close>

type_synonym obj = "nat \<times> nat"

record ws_info =
  wi_id :: u64
  wi_name :: string
  wi_active :: bool

datatype ws_action = Activate u64 | Deactivate u64 | Remove u64 | CreateWorkspace string

datatype ws_event =
    EvGroup obj
  | EvGroupCapabilities obj
  | EvWorkspace obj
  | EvId obj string
  | EvName obj string
  | EvCoordinates obj bytes
  | EvCapabilities obj
  | EvState obj bool
  | EvEnter obj obj
  | EvLeave obj obj
  | EvRemoved obj
  | EvDone
  | EvFinished

record mgr_instance =
  mi_manager :: nat
  mi_group :: "obj option"
  mi_workspaces :: "(u64 \<times> obj) list"
  last_snapshot :: "ws_info list"
  mi_actions :: "ws_action list"
  mi_stopped :: bool
  mi_next_obj :: nat
  mi_events :: "ws_event list"

type_synonym ws_protocol = "mgr_instance list"

definition ws_protocol_new :: ws_protocol where
  "ws_protocol_new = []"

definition send_events :: "ws_event list \<Rightarrow> mgr_instance \<Rightarrow> mgr_instance" where
  "send_events evs i = i\<lparr>mi_events := mi_events i @ evs\<rparr>"

text \<open>\<open>client.create_resource\<close>: the object, if it could be made.\<close>

definition create_resource :: "(obj \<Rightarrow> bool) \<Rightarrow> mgr_instance \<Rightarrow> obj option \<times> mgr_instance" where
  "create_resource ck i =
     (let ob = (mi_manager i, mi_next_obj i) in
      (if ck ob then Some ob else None, i\<lparr>mi_next_obj := mi_next_obj i + 1\<rparr>))"

section \<open>Refresh\<close>

definition ensure_group :: "(obj \<Rightarrow> bool) \<Rightarrow> mgr_instance \<Rightarrow> (obj option \<times> bool) \<times> mgr_instance" where
  "ensure_group ck i =
     (case mi_group i of
        Some g \<Rightarrow> ((Some g, False), i)
      | None \<Rightarrow>
          (case create_resource ck i of
             (None, i1) \<Rightarrow> ((None, False), i1)
           | (Some g, i1) \<Rightarrow>
               ((Some g, True), (send_events [EvGroup g, EvGroupCapabilities g] i1)\<lparr>mi_group := Some g\<rparr>)))"

definition remove_ws :: "obj \<Rightarrow> u64 \<Rightarrow> mgr_instance \<times> bool \<Rightarrow> mgr_instance \<times> bool" where
  "remove_ws g k = (\<lambda>(i, changed).
     case map_of (mi_workspaces i) k of
       None \<Rightarrow> (i, changed)
     | Some h \<Rightarrow> (send_events [EvLeave g h, EvRemoved h] (i\<lparr>mi_workspaces := AList.delete k (mi_workspaces i)\<rparr>), True))"

definition ws_id_string :: "u64 \<Rightarrow> string" where
  "ws_id_string n = ''emskin-ws-'' @ decimal (unat n)"

definition announce_ws :: "obj \<Rightarrow> obj \<Rightarrow> ws_info \<Rightarrow> ws_event list" where
  "announce_ws g h w =
     [EvWorkspace h, EvId h (ws_id_string (wi_id w)), EvName h (wi_name w),
      EvCoordinates h (u32_to_le (ucast (wi_id w))), EvCapabilities h, EvState h (wi_active w), EvEnter g h]"

definition update_ws :: "(obj \<Rightarrow> bool) \<Rightarrow> obj \<Rightarrow> ws_info \<Rightarrow> mgr_instance \<times> bool \<Rightarrow> mgr_instance \<times> bool" where
  "update_ws ck g w = (\<lambda>(i, changed).
     case map_of (mi_workspaces i) (wi_id w) of
       None \<Rightarrow>
         (case create_resource ck i of
            (None, i1) \<Rightarrow> (i1, changed)
          | (Some h, i1) \<Rightarrow>
              (send_events (announce_ws g h w) (i1\<lparr>mi_workspaces := AList.update (wi_id w) h (mi_workspaces i1)\<rparr>), True))
     | Some h \<Rightarrow>
         (let old = find (\<lambda>s. wi_id s = wi_id w) (last_snapshot i);
              rename = map_option wi_name old \<noteq> Some (wi_name w);
              old_active = (case old of None \<Rightarrow> False | Some s \<Rightarrow> wi_active s);
              restate = old_active \<noteq> wi_active w in
          (send_events ((if rename then [EvName h (wi_name w)] else []) @
                        (if restate then [EvState h (wi_active w)] else [])) i,
           changed \<or> rename \<or> restate)))"

definition refresh_instance ::
  "(u64 list \<Rightarrow> u64 list) \<Rightarrow> (obj \<Rightarrow> bool) \<Rightarrow> (nat \<Rightarrow> bool) \<Rightarrow> ws_info list \<Rightarrow> mgr_instance \<Rightarrow> mgr_instance \<times> bool" where
  "refresh_instance visit ck has_client workspaces i =
     (if \<not> has_client (mi_manager i) then (i, False)
      else case ensure_group ck i of
        ((None, _), i1) \<Rightarrow> (i1, False)
      | ((Some g, changed), i1) \<Rightarrow>
          (let current_ids = map wi_id workspaces;
               dead_ids = filter (\<lambda>k. k \<notin> set current_ids) (visit (map fst (mi_workspaces i1))) in
           fold (update_ws ck g) workspaces (fold (remove_ws g) dead_ids (i1, changed))))"

definition refresh_one ::
  "(u64 list \<Rightarrow> u64 list) \<Rightarrow> (obj \<Rightarrow> bool) \<Rightarrow> (nat \<Rightarrow> bool) \<Rightarrow> (nat \<Rightarrow> bool) \<Rightarrow> ws_info list \<Rightarrow>
     mgr_instance \<Rightarrow> mgr_instance" where
  "refresh_one visit ck alive has_client workspaces i =
     (if mi_stopped i \<or> \<not> alive (mi_manager i) then i
      else case refresh_instance visit ck has_client workspaces i of
        (i1, changed) \<Rightarrow>
          if changed then (send_events [EvDone] i1)\<lparr>last_snapshot := workspaces\<rparr> else i1)"

definition ws_refresh ::
  "(u64 list \<Rightarrow> u64 list) \<Rightarrow> (obj \<Rightarrow> bool) \<Rightarrow> (nat \<Rightarrow> bool) \<Rightarrow> (nat \<Rightarrow> bool) \<Rightarrow> ws_info list \<Rightarrow>
     ws_protocol \<Rightarrow> ws_protocol" where
  "ws_refresh visit ck alive has_client workspaces = map (refresh_one visit ck alive has_client workspaces)"

definition take_pending_actions :: "ws_protocol \<Rightarrow> ws_action list \<times> ws_protocol" where
  "take_pending_actions p = (concat (map mi_actions p), map (\<lambda>i. i\<lparr>mi_actions := []\<rparr>) p)"

definition cleanup_dead :: "(nat \<Rightarrow> bool) \<Rightarrow> ws_protocol \<Rightarrow> ws_protocol" where
  "cleanup_dead alive p = filter (\<lambda>i. alive (mi_manager i)) p"

section \<open>Requests\<close>

definition bind_manager :: "nat \<Rightarrow> ws_protocol \<Rightarrow> ws_protocol" where
  "bind_manager m p =
     p @ [\<lparr>mi_manager = m, mi_group = None, mi_workspaces = [], last_snapshot = [], mi_actions = [],
           mi_stopped = False, mi_next_obj = 0, mi_events = []\<rparr>]"

datatype manager_request = MgrCommit | MgrStop

text \<open>\<open>iter_mut().find\<close>: the first instance that satisfies \<open>P\<close> is changed.\<close>

fun update_first :: "('a \<Rightarrow> bool) \<Rightarrow> ('a \<Rightarrow> 'a) \<Rightarrow> 'a list \<Rightarrow> 'a list" where
  "update_first P f [] = []"
| "update_first P f (x # xs) = (if P x then f x # xs else x # update_first P f xs)"

definition manager_request :: "nat \<Rightarrow> manager_request \<Rightarrow> ws_protocol \<Rightarrow> ws_protocol" where
  "manager_request m rq =
     update_first (\<lambda>i. mi_manager i = m)
       (\<lambda>i. case rq of MgrCommit \<Rightarrow> i | MgrStop \<Rightarrow> send_events [EvFinished] (i\<lparr>mi_stopped := True\<rparr>))"

definition manager_destroyed :: "nat \<Rightarrow> ws_protocol \<Rightarrow> ws_protocol" where
  "manager_destroyed m p = filter (\<lambda>i. mi_manager i \<noteq> m) p"

datatype group_request = GrpCreateWorkspace string | GrpDestroy

definition push_action :: "ws_action \<Rightarrow> mgr_instance \<Rightarrow> mgr_instance" where
  "push_action a i = i\<lparr>mi_actions := mi_actions i @ [a]\<rparr>"

definition group_request :: "group_request \<Rightarrow> ws_protocol \<Rightarrow> ws_protocol" where
  "group_request rq p =
     (case rq of
        GrpCreateWorkspace name \<Rightarrow> update_first (\<lambda>_. True) (push_action (CreateWorkspace name)) p
      | GrpDestroy \<Rightarrow> p)"

datatype handle_request = HdlActivate | HdlDeactivate | HdlRemove | HdlAssign | HdlDestroy

definition owns_handle :: "obj \<Rightarrow> mgr_instance \<Rightarrow> bool" where
  "owns_handle h i \<longleftrightarrow> h \<in> snd ` set (mi_workspaces i)"

text \<open>\<open>find_map\<close> over the instances, each map visited in its order.\<close>

fun ws_of_handle :: "(u64 list \<Rightarrow> u64 list) \<Rightarrow> obj \<Rightarrow> ws_protocol \<Rightarrow> u64 option" where
  "ws_of_handle visit h [] = None"
| "ws_of_handle visit h (i # p) =
     (case find (\<lambda>(k, h'). h' = h) (entries visit (mi_workspaces i)) of
        Some (k, _) \<Rightarrow> Some k
      | None \<Rightarrow> ws_of_handle visit h p)"

definition handle_request :: "(u64 list \<Rightarrow> u64 list) \<Rightarrow> obj \<Rightarrow> handle_request \<Rightarrow> ws_protocol \<Rightarrow> ws_protocol" where
  "handle_request visit h rq p =
     (case ws_of_handle visit h p of
        None \<Rightarrow> p
      | Some k \<Rightarrow>
          (case rq of
             HdlActivate \<Rightarrow> update_first (owns_handle h) (push_action (Activate k)) p
           | HdlDeactivate \<Rightarrow> update_first (owns_handle h) (push_action (Deactivate k)) p
           | HdlRemove \<Rightarrow> update_first (owns_handle h) (push_action (Remove k)) p
           | _ \<Rightarrow> p))"

end
