(* ===== verification/Bar.thy ===== *)
theory Bar
  imports Ws_Protocol World "HOL-Library.Signed_Division"
begin

text \<open>
  The workspace bar, \<open>crates/emskin-bar/src\<close>: a client of ext-workspace-v1 (\<open>workspace.rs\<close>) that shows a
  layer surface while there are at least two workspaces (\<open>state.rs\<close>) and draws one pill per
  workspace (\<open>render.rs\<close>).

  A protocol event is the \<open>ws_event\<close> the compositor sends. Pixels are in \<open>Blending\<close>; the layout that
  clicks are tested against is here. Parameters (\<open>bar_api\<close>): the width of a text, whether a buffer could
  be had and attached, and the surface of a new layer. A pointer position is given by the integer
  parts of its coordinates, which decide the same comparisons with integers.
\<close>

section \<open>State\<close>

record bar_entry =
  be_handle :: obj
  be_id :: u64
  be_name :: string
  be_active :: bool
  hit_rect :: "i32 \<times> i32 \<times> i32 \<times> i32"

datatype bar_call = LayerCommit surface | Attached surface | ActivateHandle obj | CommitManager

record bar =
  pending_workspaces :: "bar_entry list"
  bar_workspaces :: "bar_entry list"
  bar_layer :: "surface option"
  surface_size :: "(u32 \<times> u32) option"
  configured_once :: bool
  bar_exit :: bool
  bar_calls :: "bar_call list"

record bar_api =
  text_px :: "string \<Rightarrow> i32"
  buffer_ok :: bool
  attach_ok :: bool
  new_surface :: surface

definition bar_new :: bar where
  "bar_new = \<lparr>pending_workspaces = [], bar_workspaces = [], bar_layer = None, surface_size = None,
     configured_once = False, bar_exit = False, bar_calls = []\<rparr>"

definition bar_entry_new :: "obj \<Rightarrow> bar_entry" where
  "bar_entry_new h = \<lparr>be_handle = h, be_id = 0, be_name = [], be_active = False, hit_rect = (0, 0, 0, 0)\<rparr>"

section \<open>Workspace ids\<close>

definition is_digit :: "char \<Rightarrow> bool" where
  "is_digit c \<longleftrightarrow> (let n = (of_char c :: nat) in 48 \<le> n \<and> n \<le> 57)"

text \<open>\<open>str::parse::<u64>\<close>: an optional \<open>+\<close>, then digits, without overflow.\<close>

definition parse_u64 :: "string \<Rightarrow> u64 option" where
  "parse_u64 s =
     (let ds = (case s of [] \<Rightarrow> [] | c # cs \<Rightarrow> if c = CHR ''+'' then cs else s) in
      if ds \<noteq> [] \<and> list_all is_digit ds \<and> undecimal ds < 2 ^ 64 then Some (word_of_nat (undecimal ds)) else None)"

text \<open>\<open>rsplit('-').next()\<close>: what follows the last dash.\<close>

definition after_dash :: "string \<Rightarrow> string" where
  "after_dash s = rev (takeWhile (\<lambda>c. c \<noteq> CHR ''-'') (rev s))"

definition parse_id :: "string \<Rightarrow> u64" where
  "parse_id wire = (case parse_u64 (after_dash wire) of Some k \<Rightarrow> k | None \<Rightarrow> 0)"

section \<open>Drawing\<close>

definition BAR_HEIGHT :: u32 where "BAR_HEIGHT = 28"
definition PILL_H_PAD :: i32 where "PILL_H_PAD = 10"
definition PILL_GAP :: i32 where "PILL_GAP = 6"
definition BAR_PAD :: i32 where "BAR_PAD = 8"
definition PILL_TEXT_PAD :: i32 where "PILL_TEXT_PAD = 12"

definition display_name :: "bar_entry \<Rightarrow> string" where
  "display_name en = (if be_name en = [] then ''WS '' @ decimal (unat (be_id en)) else be_name en)"

definition quot :: "i32 \<Rightarrow> int \<Rightarrow> i32" where
  "quot n d = word_of_int (sint n sdiv d)"

fun place_pills :: "bar_api \<Rightarrow> i32 \<Rightarrow> i32 \<Rightarrow> bar_entry list \<Rightarrow> bar_entry list" where
  "place_pills api h x [] = []"
| "place_pills api h x (en # ens) =
     (let pw = text_px api (display_name en) + PILL_TEXT_PAD * 2;
          ph = h - quot (2 * PILL_H_PAD) 3;
          py = quot (h - ph) 2 in
      en\<lparr>hit_rect := (x, py, pw, ph)\<rparr> # place_pills api h (x + (pw + PILL_GAP)) ens)"

definition bar_call :: "bar_call list \<Rightarrow> bar \<Rightarrow> bar" where
  "bar_call cs b = b\<lparr>bar_calls := bar_calls b @ cs\<rparr>"

definition bar_draw :: "bar_api \<Rightarrow> bar \<Rightarrow> bar" where
  "bar_draw api b =
     (case (bar_layer b, surface_size b) of
        (Some sf, Some (w, h)) \<Rightarrow>
          if \<not> buffer_ok api then b
          else
            (let b1 = b\<lparr>bar_workspaces := place_pills api (ucast h) BAR_PAD (bar_workspaces b)\<rparr> in
             if attach_ok api then bar_call [Attached sf, LayerCommit sf] b1 else b1)
      | _ \<Rightarrow> b)"

section \<open>Visibility\<close>

definition create_layer :: "bar_api \<Rightarrow> bar \<Rightarrow> bar" where
  "create_layer api b = bar_call [LayerCommit (new_surface api)]
     (b\<lparr>bar_layer := Some (new_surface api), configured_once := False\<rparr>)"

definition destroy_layer :: "bar \<Rightarrow> bar" where
  "destroy_layer b = b\<lparr>bar_layer := None, surface_size := None, configured_once := False\<rparr>"

definition update_visibility :: "bar_api \<Rightarrow> bar \<Rightarrow> bar" where
  "update_visibility api b =
     (let should_show = 2 \<le> length (bar_workspaces b) in
      case (bar_layer b \<noteq> None, should_show) of
        (False, True) \<Rightarrow> create_layer api b
      | (True, False) \<Rightarrow> destroy_layer b
      | (True, True) \<Rightarrow> if configured_once b then bar_draw api b else b
      | (False, False) \<Rightarrow> b)"

section \<open>Events of the workspace protocol\<close>

text \<open>\<open>find_entry_mut\<close> followed by the change \<open>f\<close>: the pending batch is searched first.\<close>

definition modify_entry :: "obj \<Rightarrow> (bar_entry \<Rightarrow> bar_entry) \<Rightarrow> bar \<Rightarrow> bar" where
  "modify_entry h f b =
     (let here = (\<lambda>en. be_handle en = h) in
      if \<exists>en \<in> set (pending_workspaces b). here en
      then b\<lparr>pending_workspaces := update_first here f (pending_workspaces b)\<rparr>
      else b\<lparr>bar_workspaces := update_first here f (bar_workspaces b)\<rparr>)"

definition forget_entry :: "obj \<Rightarrow> bar \<Rightarrow> bar" where
  "forget_entry h b =
     b\<lparr>pending_workspaces := filter (\<lambda>en. be_handle en \<noteq> h) (pending_workspaces b),
       bar_workspaces := filter (\<lambda>en. be_handle en \<noteq> h) (bar_workspaces b)\<rparr>"

definition knows_entry :: "obj \<Rightarrow> bar \<Rightarrow> bool" where
  "knows_entry h b \<longleftrightarrow> (\<exists>en \<in> set (pending_workspaces b @ bar_workspaces b). be_handle en = h)"

fun bar_event :: "bar_api \<Rightarrow> ws_event \<Rightarrow> bar \<Rightarrow> bar" where
  "bar_event api (EvWorkspace h) b = b\<lparr>pending_workspaces := pending_workspaces b @ [bar_entry_new h]\<rparr>"
| "bar_event api EvDone b =
     update_visibility api (b\<lparr>bar_workspaces := sort_key be_id (bar_workspaces b @ pending_workspaces b),
       pending_workspaces := []\<rparr>)"
| "bar_event api EvFinished b = (update_visibility api (b\<lparr>bar_workspaces := []\<rparr>))\<lparr>bar_exit := True\<rparr>"
| "bar_event api (EvId h i) b = modify_entry h (\<lambda>en. en\<lparr>be_id := parse_id i\<rparr>) b"
| "bar_event api (EvName h n) b = modify_entry h (\<lambda>en. en\<lparr>be_name := n\<rparr>) b"
| "bar_event api (EvState h a) b = modify_entry h (\<lambda>en. en\<lparr>be_active := a\<rparr>) b"
| "bar_event api (EvRemoved h) b = (if knows_entry h b then forget_entry h b else b)"
| "bar_event api (EvGroup g) b = b"
| "bar_event api (EvGroupCapabilities g) b = b"
| "bar_event api (EvCoordinates h c) b = b"
| "bar_event api (EvCapabilities h) b = b"
| "bar_event api (EvEnter g h) b = b"
| "bar_event api (EvLeave g h) b = b"

section \<open>Clicks and the layer surface\<close>

definition hit_test :: "bar_entry list \<Rightarrow> int \<times> int \<Rightarrow> bar_entry option" where
  "hit_test ens = (\<lambda>(px, py). find (\<lambda>en. case hit_rect en of (x, y, w, h) \<Rightarrow>
     sint x \<le> px \<and> px < sint (x + w) \<and> sint (y - PILL_H_PAD) \<le> py \<and> py < sint (y + h + PILL_H_PAD)) ens)"

definition handle_click :: "int \<times> int \<Rightarrow> bar \<Rightarrow> bar" where
  "handle_click pos b =
     (case hit_test (bar_workspaces b) pos of
        None \<Rightarrow> b
      | Some en \<Rightarrow> bar_call [ActivateHandle (be_handle en), CommitManager] b)"

datatype pointer_kind = Press u32 | OtherPointer

definition BTN_LEFT :: u32 where "BTN_LEFT = 0x110"

definition pointer_event :: "surface \<times> pointer_kind \<times> (int \<times> int) \<Rightarrow> bar \<Rightarrow> bar" where
  "pointer_event = (\<lambda>(sf, kind, pos) b.
     if bar_layer b \<noteq> Some sf then b
     else if kind = Press BTN_LEFT then handle_click pos b else b)"

definition layer_closed :: "bar \<Rightarrow> bar" where
  "layer_closed b = b\<lparr>bar_layer := None, surface_size := None, configured_once := False\<rparr>"

definition layer_configure :: "bar_api \<Rightarrow> u32 \<Rightarrow> u32 \<Rightarrow> bar \<Rightarrow> bar" where
  "layer_configure api w h b =
     (let w = (if w = 0 then 1 else w); h = (if h = 0 then BAR_HEIGHT else h) in
      bar_draw api (b\<lparr>surface_size := Some (w, h), configured_once := True\<rparr>))"

datatype bar_input =
    WsEvent ws_event
  | PointerFrame "(surface \<times> pointer_kind \<times> (int \<times> int)) list"
  | LayerClosed
  | LayerConfigured u32 u32

fun bar_step :: "bar_api \<Rightarrow> bar_input \<Rightarrow> bar \<Rightarrow> bar" where
  "bar_step api (WsEvent ev) b = bar_event api ev b"
| "bar_step api (PointerFrame evs) b = fold pointer_event evs b"
| "bar_step api LayerClosed b = layer_closed b"
| "bar_step api (LayerConfigured w h) b = layer_configure api w h b"

end
