(* ===== verification/Blending.thy ===== *)
theory Blending
  imports Pixels Bar
begin

text \<open>
  Text drawn by cosmic-text: the library calls back with rectangles of one colour (\<open>r\<close>, \<open>g\<close>, \<open>b\<close>, \<open>a\<close>),
  and the program blends each of their pixels onto the buffer. The callbacks of \<open>draw_text_onto\<close> in
  \<open>crates/effect-core/src/render.rs\<close>, of \<open>render_label\<close> in \<open>skeleton.rs\<close>, of \<open>render_text_buf\<close> in
  \<open>splash.rs\<close> and of \<open>draw_text\<close> in \<open>crates/emskin-bar/src/render.rs\<close>, whose pills are drawn here too.

  The list of callbacks of a text is an argument (\<open>ink list\<close>), shaping is the library's.
\<close>

section \<open>Blending one pixel\<close>

record ink =
  ink_x :: int
  ink_y :: int
  ink_w :: int
  ink_h :: int
  ink_rgba :: "byte \<times> byte \<times> byte \<times> byte"

text \<open>\<open>((dst as u32 * inv + src * a) / 255) as u8\<close>; the products stay below \<open>2 ^ 17\<close>.\<close>

definition blend8 :: "byte \<Rightarrow> byte \<Rightarrow> byte \<Rightarrow> byte" where
  "blend8 a src dst = word_of_nat ((unat dst * (255 - unat a) + unat src * unat a) div 255)"

definition blend_onto :: "byte \<times> byte \<times> byte \<times> byte \<Rightarrow> colour \<Rightarrow> colour" where
  "blend_onto rgba old =
     (case rgba of (r, g, b, a) \<Rightarrow> case old of (db, dg, dr, da) \<Rightarrow>
        (blend8 a b db, blend8 a g dg, blend8 a r dr,
         word_of_nat (min ((unat da * (255 - unat a) + 255 * unat a) div 255) 255)))"

definition blend_opaque :: "byte \<times> byte \<times> byte \<times> byte \<Rightarrow> colour \<Rightarrow> colour" where
  "blend_opaque rgba old =
     (case rgba of (r, g, b, a) \<Rightarrow> case old of (db, dg, dr, da) \<Rightarrow>
        (blend8 a b db, blend8 a g dg, blend8 a r dr, 255))"

text \<open>Reading and writing the four bytes of a pixel; an index past the end panics.\<close>

definition modify4 :: "nat \<Rightarrow> (colour \<Rightarrow> colour) \<Rightarrow> bytes \<Rightarrow> bytes option" where
  "modify4 off f data =
     (if off + 4 \<le> length data
      then put4 off (f (data ! off, data ! (off + 1), data ! (off + 2), data ! (off + 3))) data else None)"

definition ink_alpha :: "ink \<Rightarrow> byte" where
  "ink_alpha k = (case ink_rgba k of (r, g, b, a) \<Rightarrow> a)"

section \<open>The callbacks\<close>

definition onto_dot :: "int \<Rightarrow> int \<Rightarrow> ink \<Rightarrow> int \<Rightarrow> int \<Rightarrow> bytes \<Rightarrow> bytes option" where
  "onto_dot w h k x y data =
     (if x < 0 \<or> w \<le> x \<or> y < 0 \<or> h \<le> y then Some data
      else
        (let off = as_usize (wrap (wrap (y * wrap (w * 4)) + wrap (x * 4))) in
         if length data \<le> off + 3 then Some data else modify4 off (blend_onto (ink_rgba k)) data))"

definition draw_text_onto :: "int \<Rightarrow> int \<Rightarrow> int \<Rightarrow> int \<Rightarrow> ink list \<Rightarrow> bytes \<Rightarrow> bytes option" where
  "draw_text_onto w h ox oy =
     fold_panic (\<lambda>k. if ink_alpha k = 0 then Some else
       fold_panic (\<lambda>dy. fold_panic (\<lambda>dx.
           onto_dot w h k (wrap (wrap (ink_x k + dx) + ox)) (wrap (wrap (ink_y k + dy) + oy)))
         (irange 0 (ink_w k))) (irange 0 (ink_h k)))"

definition opaque_dot :: "int \<Rightarrow> int \<Rightarrow> ink \<Rightarrow> int \<Rightarrow> int \<Rightarrow> bytes \<Rightarrow> bytes option" where
  "opaque_dot w h k x y data =
     (if x < 0 \<or> w \<le> x \<or> y < 0 \<or> h \<le> y then Some data
      else modify4 (as_usize (wrap (wrap (y * wrap (w * 4)) + wrap (x * 4)))) (blend_opaque (ink_rgba k)) data)"

definition LABEL_BG :: colour where "LABEL_BG = (20, 20, 30, 210)"
definition SK_LABEL_PAD :: int where "SK_LABEL_PAD = 3"

text \<open>\<open>render_label\<close> of the skeleton, from the rounded-up size of the text.\<close>

definition sk_label_extent :: "int \<Rightarrow> int \<Rightarrow> int \<times> int" where
  "sk_label_extent inner_w inner_h =
     (max (wrap (inner_w + wrap (SK_LABEL_PAD * 2))) 1, max (wrap (inner_h + wrap (SK_LABEL_PAD * 2))) 1)"

definition sk_render_label :: "int \<Rightarrow> int \<Rightarrow> ink list \<Rightarrow> bytes \<Rightarrow> bytes option" where
  "sk_render_label inner_w inner_h inks data =
     (let w = fst (sk_label_extent inner_w inner_h); h = snd (sk_label_extent inner_w inner_h) in
      Option.bind (Some (fill_chunks LABEL_BG data))
        (fold_panic (\<lambda>k. if ink_alpha k = 0 then Some else
           fold_panic (\<lambda>dy. fold_panic (\<lambda>dx.
               opaque_dot w h k (wrap (wrap (ink_x k + dx) + SK_LABEL_PAD)) (wrap (wrap (ink_y k + dy) + SK_LABEL_PAD)))
             (irange 0 (ink_w k))) (irange 0 (ink_h k))) inks))"

text \<open>\<open>render_text_buf\<close> of the splash screen: a transparent buffer, the text two pixels inside.\<close>

definition PAD :: int where "PAD = 2"

definition render_text_buf :: "int \<Rightarrow> int \<Rightarrow> ink list \<Rightarrow> bytes \<Rightarrow> bytes option" where
  "render_text_buf tw th inks data =
     draw_text_onto (max (wrap (tw + wrap (PAD * 2))) 1) (max (wrap (th + wrap (PAD * 2))) 1) PAD PAD inks
       (replicate (length data) 0)"

section \<open>The bar\<close>

definition BG :: colour where "BG = (0x2e, 0x1e, 0x1e, 0xff)"
definition PILL_BG :: colour where "PILL_BG = (0x45, 0x34, 0x31, 0xff)"
definition PILL_BG_ACTIVE :: colour where "PILL_BG_ACTIVE = (0xfa, 0xb4, 0x89, 0xff)"
definition BAR_LINE_HEIGHT :: int where "BAR_LINE_HEIGHT = 16"

definition fill_rect :: "int \<Rightarrow> int \<Rightarrow> int \<Rightarrow> int \<Rightarrow> int \<Rightarrow> int \<Rightarrow> colour \<Rightarrow> bytes \<Rightarrow> bytes option" where
  "fill_rect buf_w buf_h x y w h c data =
     (let x0 = max x 0; y0 = max y 0; x1 = min (wrap (x + w)) buf_w; y1 = min (wrap (y + h)) buf_h in
      if x1 \<le> x0 \<or> y1 \<le> y0 then Some data
      else fold_panic (\<lambda>row. fold_panic (\<lambda>col.
          put4 (as_usize (wrap (wrap (row * buf_w) * 4)) + as_usize (wrap (col * 4))) c) (irange x0 x1))
        (irange y0 y1) data)"

definition bar_dot :: "int \<Rightarrow> int \<Rightarrow> int \<Rightarrow> int \<Rightarrow> ink \<Rightarrow> bytes \<Rightarrow> bytes option" where
  "bar_dot buf_w buf_h dst_x baseline k data =
     (let x = wrap (dst_x + ink_x k); y = wrap (wrap (baseline + ink_y k) - BAR_LINE_HEIGHT) in
      if x < 0 \<or> buf_w \<le> x \<or> y < 0 \<or> buf_h \<le> y then Some data
      else if ink_alpha k = 0 then Some data
      else modify4 (as_usize (wrap (wrap (wrap (y * buf_w) + x) * 4))) (blend_opaque (ink_rgba k)) data)"

definition bar_text :: "int \<Rightarrow> int \<Rightarrow> int \<Rightarrow> int \<Rightarrow> int \<Rightarrow> ink list \<Rightarrow> bytes \<Rightarrow> bytes option" where
  "bar_text buf_w buf_h dst_x dst_y dst_h =
     fold_panic (bar_dot buf_w buf_h dst_x (wrap (wrap (dst_y + dst_h sdiv 2) + BAR_LINE_HEIGHT sdiv 3)))"

definition draw_pill :: "(bar_entry \<Rightarrow> ink list) \<Rightarrow> int \<Rightarrow> int \<Rightarrow> bar_entry \<Rightarrow> bytes \<Rightarrow> bytes option" where
  "draw_pill shaped w h en data =
     (case hit_rect en of (x, py, pw, ph) \<Rightarrow>
        Option.bind (fill_rect w h (sint x) (sint py) (sint pw) (sint ph)
            (if be_active en then PILL_BG_ACTIVE else PILL_BG) data)
          (bar_text w h (sint (x + PILL_TEXT_PAD)) (sint py) (sint ph) (shaped en)))"

text \<open>The picture of \<open>draw\<close>, given the entries with the places the layout gave them.\<close>

definition bar_picture :: "(bar_entry \<Rightarrow> ink list) \<Rightarrow> int \<Rightarrow> int \<Rightarrow> bar_entry list \<Rightarrow> bytes \<Rightarrow> bytes option" where
  "bar_picture shaped w h ens data =
     Option.bind (Some (fill_chunks BG data)) (fold_panic (draw_pill shaped w h) ens)"

end
