(* ===== verification/Apps.thy ===== *)
theory Apps
  imports World Counters
begin

text \<open>
  \<open>crates/emskin/src/state/apps.rs\<close>: the embedded application windows and their mirrors.
  The hit test of mirrors is in \<open>Hit_Test\<close>.
\<close>

section \<open>State\<close>

record mirror_view =
  mv_geometry :: rect
  mv_workspace :: u64

record app_window =
  app_id :: u64
  app_win :: window
  app_workspace :: u64
  app_geometry :: "rect option"
  app_pending :: "rect option"
  app_pending_since :: "instant option"
  app_visible :: bool
  app_mirrors :: "(u64 \<times> mirror_view) list"

record app_manager =
  am_windows :: "(u64 \<times> app_window) list"
  am_next_id :: u64

section \<open>Operations\<close>

definition app_manager_default :: app_manager where
  "app_manager_default = \<lparr>am_windows = [], am_next_id = 0\<rparr>"

definition app_alloc_id :: "app_manager \<Rightarrow> u64 \<times> app_manager" where
  "app_alloc_id am = (let i = am_next_id am + 1 in (i, am\<lparr>am_next_id := i\<rparr>))"

definition app_put :: "u64 \<Rightarrow> app_window \<Rightarrow> app_manager \<Rightarrow> app_manager" where
  "app_put i a am = am\<lparr>am_windows := AList.update i a (am_windows am)\<rparr>"

definition app_insert :: "app_window \<Rightarrow> app_manager \<Rightarrow> app_manager" where
  "app_insert a = app_put (app_id a) a"

definition app_remove :: "u64 \<Rightarrow> app_manager \<Rightarrow> app_manager" where
  "app_remove i am = am\<lparr>am_windows := AList.delete i (am_windows am)\<rparr>"

definition app_get :: "app_manager \<Rightarrow> u64 \<Rightarrow> app_window option" where
  "app_get am i = map_of (am_windows am) i"

text \<open>\<open>get_mut\<close> followed by the writes \<open>f\<close>.\<close>

definition app_modify :: "u64 \<Rightarrow> (app_window \<Rightarrow> app_window) \<Rightarrow> app_manager \<Rightarrow> app_manager" where
  "app_modify i f am = (case app_get am i of None \<Rightarrow> am | Some a \<Rightarrow> app_put i (f a) am)"

definition app_values :: "'sp env \<Rightarrow> app_manager \<Rightarrow> app_window list" where
  "app_values e am = map snd (entries (visit e) (am_windows am))"

definition owns_surface :: "'sp env \<Rightarrow> surface \<Rightarrow> app_window \<Rightarrow> bool" where
  "owns_surface e wl a = (win_surface e (app_win a) = Some wl)"

definition id_for_surface :: "'sp env \<Rightarrow> surface \<Rightarrow> app_manager \<Rightarrow> u64 option" where
  "id_for_surface e wl am = map_option app_id (find (owns_surface e wl) (app_values e am))"

definition surface_geometry :: "'sp env \<Rightarrow> surface \<Rightarrow> app_manager \<Rightarrow> rect option" where
  "surface_geometry e wl am =
     Option.bind (find (owns_surface e wl) (app_values e am)) app_geometry"

text \<open>\<open>since.elapsed() > timeout\<close> with a pending geometry.\<close>

definition timed_out :: "'sp env \<Rightarrow> nat \<Rightarrow> app_window \<Rightarrow> bool" where
  "timed_out e timeout a =
     (case (app_pending_since a, app_pending a) of
        (Some since, Some _) \<Rightarrow> clock e - since > timeout
      | _ \<Rightarrow> False)"

definition commit_pending :: "app_window \<Rightarrow> app_window" where
  "commit_pending a = a\<lparr>app_geometry := app_pending a, app_pending := None, app_pending_since := None\<rparr>"

definition collect_timed_out ::
  "'sp env \<Rightarrow> nat \<Rightarrow> app_manager \<Rightarrow> (u64 \<times> window \<times> rect) list \<times> app_manager" where
  "collect_timed_out e timeout am =
     (let hits = filter (timed_out e timeout) (app_values e am) in
      (map (\<lambda>a. (app_id a, app_win a, the (app_pending a))) hits,
       am\<lparr>am_windows := map (\<lambda>(i, a). (i, if timed_out e timeout a then commit_pending a else a))
            (am_windows am)\<rparr>))"

definition drain_dead :: "'sp env \<Rightarrow> app_manager \<Rightarrow> app_window list \<times> app_manager" where
  "drain_dead e am =
     (let dead = filter (\<lambda>(i, a). \<not> win_alive e (app_win a)) (entries (visit e) (am_windows am)) in
      (map snd dead, fold app_remove (map fst dead) am))"

section \<open>Invariant\<close>

text \<open>Keys are distinct and name their window; identifiers below the counter are the only ones.\<close>

definition apps_wf :: "app_manager \<Rightarrow> bool" where
  "apps_wf am \<longleftrightarrow> distinct (map fst (am_windows am)) \<and> (\<forall>(i, a) \<in> set (am_windows am). app_id a = i)"

interpretation app_table: keyed_store app_get app_put app_remove
  by unfold_locales (simp_all add: app_get_def app_put_def app_remove_def update_conv' delete_conv')

lemma app_get_modify:
  "app_get (app_modify i f am) j = (if j = i then map_option f (app_get am i) else app_get am j)"
  by (auto simp: app_modify_def app_table.get_put split: option.splits)

lemma apps_wf_get: "apps_wf am \<Longrightarrow> app_get am i = Some a \<Longrightarrow> app_id a = i"
  by (auto simp: apps_wf_def app_get_def dest: map_of_SomeD)

lemma apps_wf_iff:
  "apps_wf am \<longleftrightarrow> distinct (map fst (am_windows am)) \<and> (\<forall>i a. app_get am i = Some a \<longrightarrow> app_id a = i)"
  by (auto simp: apps_wf_def app_get_def dest: map_of_SomeD map_of_is_SomeI)

lemma am_windows_updates:
  "am_windows (app_put i a am) = AList.update i a (am_windows am)"
  "am_windows (app_remove i am) = AList.delete i (am_windows am)"
  by (simp_all add: app_put_def app_remove_def)

lemma apps_wf_put: "apps_wf am \<Longrightarrow> app_id a = i \<Longrightarrow> apps_wf (app_put i a am)"
  by (auto simp: apps_wf_iff app_table.get_put distinct_update am_windows_updates split: if_splits)

lemma apps_wf_insert: "apps_wf am \<Longrightarrow> apps_wf (app_insert a am)"
  by (simp add: app_insert_def apps_wf_put)

lemma apps_wf_remove: "apps_wf am \<Longrightarrow> apps_wf (app_remove i am)"
  by (auto simp: apps_wf_iff app_table.get_rem distinct_delete am_windows_updates split: if_splits)

lemma apps_wf_modify:
  "apps_wf am \<Longrightarrow> (\<And>a. app_id (f a) = app_id a) \<Longrightarrow> apps_wf (app_modify i f am)"
  by (auto simp: app_modify_def intro!: apps_wf_put dest: apps_wf_get split: option.splits)

lemma apps_wf_default: "apps_wf app_manager_default"
  by (simp add: apps_wf_def app_manager_default_def)

lemma apps_wf_fold_remove: "apps_wf am \<Longrightarrow> apps_wf (fold app_remove is am)"
  by (induction "is" arbitrary: am) (simp_all add: apps_wf_remove)

lemma windows_entries:
  assumes "order_laws e" and "apps_wf am"
  shows "set (entries (visit e) (am_windows am)) = set (am_windows am)"
    and "app_get am i = Some a \<longleftrightarrow> (i, a) \<in> set (am_windows am)"
  using assms by (simp_all add: set_entries order_laws_def apps_wf_def app_get_def)

lemma set_app_values:
  assumes "order_laws e" and "apps_wf am"
  shows "set (app_values e am) = {a. \<exists>i. app_get am i = Some a}"
  by (force simp: app_values_def windows_entries [OF assms] image_iff)

section \<open>Loops over the windows\<close>

lemma app_get_collect:
  "app_get (snd (collect_timed_out e t am)) i =
     map_option (\<lambda>a. if timed_out e t a then commit_pending a else a) (app_get am i)"
  by (simp add: collect_timed_out_def Let_def app_get_def map_of_map)

lemma timed_out_pending: "timed_out e t a \<Longrightarrow> \<exists>g. app_pending a = Some g"
  by (auto simp: timed_out_def split: option.splits)

lemma collect_timed_out_hits:
  assumes "order_laws e" and "apps_wf am"
  shows "(i, w, g) \<in> set (fst (collect_timed_out e t am)) \<longleftrightarrow>
    (\<exists>a. app_get am i = Some a \<and> timed_out e t a \<and> app_win a = w \<and> app_pending a = Some g)"
    (is "?l \<longleftrightarrow> ?r")
proof -
  have "?l \<longleftrightarrow> (\<exists>a. (\<exists>j. app_get am j = Some a) \<and> timed_out e t a \<and> (i, w, g) = (app_id a, app_win a, the (app_pending a)))"
    by (simp add: collect_timed_out_def Let_def set_app_values [OF assms] image_iff)
  also have "\<dots> \<longleftrightarrow> ?r"
  proof
    assume "\<exists>a. (\<exists>j. app_get am j = Some a) \<and> timed_out e t a \<and> (i, w, g) = (app_id a, app_win a, the (app_pending a))"
    then obtain a j where "app_get am j = Some a" "timed_out e t a"
      "i = app_id a" "w = app_win a" "g = the (app_pending a)" by blast
    then show ?r using timed_out_pending [of e t a] apps_wf_get [OF assms(2), of j a] by auto
  next
    assume ?r
    then show "\<exists>a. (\<exists>j. app_get am j = Some a) \<and> timed_out e t a \<and> (i, w, g) = (app_id a, app_win a, the (app_pending a))"
      using apps_wf_get [OF assms(2), of i] by auto
  qed
  finally show ?thesis .
qed

lemma drain_dead_result:
  assumes "order_laws e" and "apps_wf am"
  shows "app_get (snd (drain_dead e am)) i =
      (case app_get am i of None \<Rightarrow> None | Some a \<Rightarrow> if win_alive e (app_win a) then Some a else None)"
    and "set (fst (drain_dead e am)) = {a. \<exists>i. app_get am i = Some a \<and> \<not> win_alive e (app_win a)}"
proof -
  note s = windows_entries(1) [OF assms] and d = windows_entries(2) [OF assms]
  show "set (fst (drain_dead e am)) = {a. \<exists>i. app_get am i = Some a \<and> \<not> win_alive e (app_win a)}"
    by (force simp: drain_dead_def Let_def s d image_iff)
  have "i \<in> set (map fst (filter (\<lambda>(i, a). \<not> win_alive e (app_win a)) (entries (visit e) (am_windows am))))
      \<longleftrightarrow> (\<exists>a. app_get am i = Some a \<and> \<not> win_alive e (app_win a))"
    by (force simp: s d image_iff)
  then show "app_get (snd (drain_dead e am)) i =
      (case app_get am i of None \<Rightarrow> None | Some a \<Rightarrow> if win_alive e (app_win a) then Some a else None)"
    by (auto simp: drain_dead_def Let_def app_table.get_fold_rem split: option.splits)
qed

lemma apps_wf_collect: "apps_wf am \<Longrightarrow> apps_wf (snd (collect_timed_out e t am))"
  by (auto simp: apps_wf_def collect_timed_out_def Let_def comp_def case_prod_beta commit_pending_def)

lemma apps_wf_drain: "apps_wf am \<Longrightarrow> apps_wf (snd (drain_dead e am))"
  by (simp add: drain_dead_def Let_def apps_wf_fold_remove)

section \<open>Window identifiers\<close>

interpretation window_ids: id_counter app_alloc_id "\<lambda>am. unat (am_next_id am)"
    "\<lambda>p. word_of_nat (Suc p)" "2 ^ 64"
proof unfold_locales
  show "inj_on (\<lambda>p. word_of_nat (Suc p) :: u64) {..<2 ^ 64}"
  proof (rule inj_onI)
    fix x y :: nat
    assume *: "x \<in> {..<2 ^ 64}" "y \<in> {..<2 ^ 64}" "(word_of_nat (Suc x) :: u64) = word_of_nat (Suc y)"
    then have "(word_of_nat x :: u64) = word_of_nat y" by simp
    then show "x = y" using u64_of_nat_inj * by (auto dest: inj_onD)
  qed
qed (simp_all add: app_alloc_id_def Let_def u64_next_position u64_position word_of_nat_eq_iff)

end
