(* ===== verification/Sasl.thy ===== *)
theory Sasl
  imports Prelude
begin

text \<open>
  The SASL handshake scanner of \<open>crates/emskin-dbus/src/wire/sasl.rs\<close>: the error enum, the
  line scanner \<open>find_begin_end\<close> with its helpers, and what it accepts. \<open>handshake\<close> is the
  abstract grammar of a complete handshake; the scanner is proved to accept exactly the
  buffers that start with one, and never to change its verdict when more bytes arrive.
\<close>

section \<open>The code\<close>

definition MAX_AUTH_BUFFER :: nat where
  "MAX_AUTH_BUFFER = 16 * 1024"

definition SENTINEL :: bytes where
  "SENTINEL = [13, 10]"

definition BEGIN :: bytes where
  "BEGIN = [66, 69, 71, 73, 78]"

datatype sasl_error = MissingNulPrefix | InvalidAuthLine | AuthLineTooLong

fun find_sentinel :: "bytes \<Rightarrow> nat option" where
  "find_sentinel (a # b # s) =
     (if [a, b] = SENTINEL then Some 0 else map_option Suc (find_sentinel (b # s)))"
| "find_sentinel _ = None"

definition is_ascii_uppercase :: "byte \<Rightarrow> bool" where
  "is_ascii_uppercase b = (65 \<le> b \<and> b \<le> 90)"

fun printable_bytes :: "bytes \<Rightarrow> sasl_error + unit" where
  "printable_bytes [] = Inr ()"
| "printable_bytes (b # bs) =
     (if \<not> (0x20 \<le> b \<and> b \<le> 0x7e) then Inl InvalidAuthLine else printable_bytes bs)"

definition validate_line :: "bytes \<Rightarrow> sasl_error + unit" where
  "validate_line line =
     (case line of
        [] \<Rightarrow> Inl InvalidAuthLine
      | b # _ \<Rightarrow>
          if \<not> is_ascii_uppercase b then Inl InvalidAuthLine else printable_bytes line)"

definition is_begin_line :: "bytes \<Rightarrow> bool" where
  "is_begin_line line =
     (if length line < length BEGIN \<or> take (length BEGIN) line \<noteq> BEGIN then False
      else length line = length BEGIN \<or> line ! length BEGIN \<in> {32, 9})"

lemma find_sentinel_bound: "find_sentinel s = Some r \<Longrightarrow> r + 2 \<le> length s"
  by (induction s arbitrary: r rule: find_sentinel.induct) (auto split: if_splits)

function scan_lines :: "bytes \<Rightarrow> nat \<Rightarrow> sasl_error + nat option" where
  "scan_lines lines offset =
     (case find_sentinel (drop offset lines) of
        None \<Rightarrow> Inr None
      | Some rel \<Rightarrow>
          (let line = slice offset (offset + rel) lines in
           and_then (validate_line line) (\<lambda>_.
             let after_line = offset + rel + length SENTINEL in
             if is_begin_line line then Inr (Some (1 + after_line))
             else scan_lines lines after_line)))"
  by pat_completeness auto
termination
  by (relation "measure (\<lambda>(lines, offset). length lines - offset)")
    (auto simp: SENTINEL_def dest!: find_sentinel_bound)

declare scan_lines.simps [simp del]

definition find_begin_end :: "bytes \<Rightarrow> sasl_error + nat option" where
  "find_begin_end buf =
     (case buf of
        [] \<Rightarrow> Inr None
      | b # lines \<Rightarrow>
          if b \<noteq> 0 then Inl MissingNulPrefix
          else and_then (scan_lines lines 0) (\<lambda>r.
            case r of
              Some e \<Rightarrow> Inr (Some e)
            | None \<Rightarrow>
                if length buf > MAX_AUTH_BUFFER then Inl AuthLineTooLong else Inr None))"

section \<open>Lines\<close>

lemma find_sentinel_split:
  "find_sentinel s = Some r \<Longrightarrow> s = take r s @ SENTINEL @ drop (r + 2) s"
proof (induction s arbitrary: r rule: find_sentinel.induct)
  case (1 a b s)
  then show ?case by (auto simp: SENTINEL_def split: if_splits)
qed auto

lemma find_sentinel_append:
  "find_sentinel s = Some r \<Longrightarrow> find_sentinel (s @ t) = Some r"
proof (induction s arbitrary: r rule: find_sentinel.induct)
  case (1 a b s)
  then show ?case by (auto split: if_splits)
qed auto

lemma printable_bytes_iff:
  "printable_bytes bs = Inr u \<longleftrightarrow> (\<forall>b \<in> set bs. 0x20 \<le> b \<and> b \<le> 0x7e)"
  by (induction bs) auto

lemma printable_bytes_error: "printable_bytes bs = Inl e \<Longrightarrow> e = InvalidAuthLine"
  by (induction bs) (auto split: if_splits)

definition valid_line :: "bytes \<Rightarrow> bool" where
  "valid_line line \<longleftrightarrow>
     line \<noteq> [] \<and> is_ascii_uppercase (hd line) \<and> (\<forall>b \<in> set line. 0x20 \<le> b \<and> b \<le> 0x7e)"

lemma validate_line_iff: "validate_line line = Inr u \<longleftrightarrow> valid_line line"
  by (cases line) (auto simp: validate_line_def valid_line_def printable_bytes_iff)

lemma validate_line_error: "validate_line line = Inl e \<Longrightarrow> e = InvalidAuthLine"
  by (cases line) (auto simp: validate_line_def dest: printable_bytes_error split: if_splits)

lemma find_sentinel_line:
  assumes "13 \<notin> set line"
  shows "find_sentinel (line @ SENTINEL @ rest) = Some (length line)"
  using assms
proof (induction line)
  case Nil
  then show ?case by (simp add: SENTINEL_def)
next
  case (Cons a line)
  then show ?case by (cases line) (auto simp: SENTINEL_def)
qed

lemma valid_line_no_cr: "valid_line line \<Longrightarrow> 13 \<notin> set line"
  by (force simp: valid_line_def)

section \<open>Scanning from an offset is scanning the suffix\<close>

lemma scan_lines_stop:
  "find_sentinel (drop n lines) = None \<Longrightarrow> scan_lines lines n = Inr None"
  by (subst scan_lines.simps) simp

lemma scan_lines_step:
  "find_sentinel (drop n lines) = Some k \<Longrightarrow>
     scan_lines lines n =
       (case validate_line (take k (drop n lines)) of
          Inl e \<Rightarrow> Inl e
        | Inr _ \<Rightarrow>
            if is_begin_line (take k (drop n lines)) then Inr (Some (n + k + 3))
            else scan_lines lines (n + k + 2))"
  by (subst scan_lines.simps) (simp add: Let_def slice_def SENTINEL_def split: sum.split)

lemma scan_lines_induct:
  assumes "\<And>n. (\<And>k. find_sentinel (drop n lines) = Some k \<Longrightarrow> P (n + k + 2)) \<Longrightarrow> P n"
  shows "P n"
proof (induction "length lines - n" arbitrary: n rule: less_induct)
  case less
  show ?case
  proof (rule assms)
    fix k assume "find_sentinel (drop n lines) = Some k"
    from find_sentinel_bound [OF this] show "P (n + k + 2)"
      by (intro less) simp
  qed
qed

lemma scan_lines_suffix:
  "scan_lines (pre @ lines) (length pre + n) =
     map_sum id (map_option ((+) (length pre))) (scan_lines lines n)"
proof (induction n rule: scan_lines_induct [where lines = lines])
  case (1 n)
  show ?case
  proof (cases "find_sentinel (drop n lines)")
    case None
    then show ?thesis by (simp add: scan_lines_stop)
  next
    case (Some k)
    with "1" [OF this] show ?thesis
      by (simp add: scan_lines_step add.assoc split: sum.split)
  qed
qed

lemma scan_lines_shift:
  assumes "n \<le> length lines"
  shows "scan_lines lines n = map_sum id (map_option ((+) n)) (scan_lines (drop n lines) 0)"
  using scan_lines_suffix [of "take n lines" "drop n lines" 0] assms
  by (simp add: min_absorb2)

section \<open>What the scanner accepts\<close>

definition crlf :: "bytes \<Rightarrow> bytes" where
  "crlf line = line @ SENTINEL"

text \<open>
  A complete handshake: the NUL credential byte, any number of valid lines that are not
  \<open>BEGIN\<close>, and a \<open>BEGIN\<close> line, each ended by CR LF.
\<close>

definition handshake :: "bytes list \<Rightarrow> bytes \<Rightarrow> bytes" where
  "handshake ls b = 0 # concat (map crlf ls) @ crlf b"

definition handshake_ok :: "bytes list \<Rightarrow> bytes \<Rightarrow> bool" where
  "handshake_ok ls b \<longleftrightarrow>
     (\<forall>l \<in> set ls. valid_line l \<and> \<not> is_begin_line l) \<and> valid_line b \<and> is_begin_line b"

lemma scan_line_then:
  assumes "valid_line l"
  shows "scan_lines (crlf l @ rest) 0 =
     (if is_begin_line l then Inr (Some (length (crlf l) + 1))
      else map_sum id (map_option ((+) (length (crlf l)))) (scan_lines rest 0))"
proof -
  have s: "find_sentinel (drop 0 (crlf l @ rest)) = Some (length l)"
    using find_sentinel_line [OF valid_line_no_cr [OF assms]] by (simp add: crlf_def)
  have v: "validate_line l = Inr ()" using assms by (simp add: validate_line_iff)
  have len: "length (crlf l) = length l + 2" by (simp add: crlf_def SENTINEL_def)
  have t: "take (length l) (drop 0 (crlf l @ rest)) = l" by (simp add: crlf_def)
  have d: "drop (length l + 2) (crlf l @ rest) = rest" by (simp add: crlf_def SENTINEL_def)
  show ?thesis
    using scan_lines_shift [of "length l + 2" "crlf l @ rest"]
    unfolding scan_lines_step [OF s] t v d len by (simp add: len)
qed

lemma scan_accepts:
  assumes "handshake_ok ls b"
  shows "scan_lines (concat (map crlf ls) @ crlf b @ rest) 0 =
     Inr (Some (length (handshake ls b)))"
  using assms
proof (induction ls)
  case Nil
  then show ?case
    by (simp add: scan_line_then handshake_ok_def handshake_def)
next
  case (Cons l ls)
  then show ?case
    by (simp add: scan_line_then handshake_ok_def handshake_def)
qed

lemma scan_accepted:
  "scan_lines lines 0 = Inr (Some e) \<Longrightarrow>
     \<exists>ls b rest. handshake_ok ls b \<and> lines = concat (map crlf ls) @ crlf b @ rest"
proof (induction "length lines" arbitrary: lines e rule: less_induct)
  case less
  obtain k where k: "find_sentinel lines = Some k"
    using less.prems by (cases "find_sentinel lines") (simp_all add: scan_lines_stop)
  let ?l = "take k lines" and ?rest = "drop (k + 2) lines"
  have split: "lines = crlf ?l @ ?rest"
    using find_sentinel_split [OF k] by (simp add: crlf_def)
  have valid: "valid_line ?l"
    using less.prems k by (auto simp: scan_lines_step validate_line_iff split: sum.splits)
  show ?case
  proof (cases "is_begin_line ?l")
    case True
    then have "handshake_ok [] ?l" using valid by (simp add: handshake_ok_def)
    then show ?thesis using split
      by (intro exI [of _ "[]"] exI [of _ ?l] exI [of _ ?rest]) simp
  next
    case False
    have "scan_lines (crlf ?l @ ?rest) 0 = Inr (Some e)" using less.prems split by simp
    then obtain e' where "scan_lines ?rest 0 = Inr (Some e')"
      unfolding scan_line_then [OF valid]
      using False by (cases "scan_lines ?rest 0") auto
    moreover have "length ?rest < length lines"
      using find_sentinel_bound [OF k] by simp
    ultimately obtain ls b rest where r: "handshake_ok ls b"
        "?rest = concat (map crlf ls) @ crlf b @ rest"
      using less.hyps by meson
    then have "handshake_ok (?l # ls) b" using valid False by (simp add: handshake_ok_def)
    moreover have "lines = concat (map crlf (?l # ls)) @ crlf b @ rest"
      using split r(2) by simp
    ultimately show ?thesis by blast
  qed
qed

lemma find_begin_end_iff:
  "find_begin_end buf = Inr (Some e) \<longleftrightarrow>
     (\<exists>ls b rest. handshake_ok ls b \<and> buf = handshake ls b @ rest \<and> e = length (handshake ls b))"
proof
  assume ok: "find_begin_end buf = Inr (Some e)"
  then obtain lines where buf: "buf = 0 # lines" and s: "scan_lines lines 0 = Inr (Some e)"
    by (auto simp: find_begin_end_def and_then_eq_Inr split: list.splits if_splits option.splits)
  from scan_accepted [OF s] obtain ls b rest where
    "handshake_ok ls b" "lines = concat (map crlf ls) @ crlf b @ rest" by blast
  with buf s scan_accepts show "\<exists>ls b rest. handshake_ok ls b \<and> buf = handshake ls b @ rest
      \<and> e = length (handshake ls b)"
    by (intro exI [of _ ls] exI [of _ b] exI [of _ rest]) (simp add: handshake_def)
next
  assume "\<exists>ls b rest. handshake_ok ls b \<and> buf = handshake ls b @ rest \<and> e = length (handshake ls b)"
  then show "find_begin_end buf = Inr (Some e)"
    by (auto simp: find_begin_end_def scan_accepts handshake_def)
qed

section \<open>Stability under more input\<close>

lemma scan_lines_append:
  "scan_lines lines n = r \<Longrightarrow> r \<noteq> Inr None \<Longrightarrow> scan_lines (lines @ more) n = r"
proof (induction n rule: scan_lines_induct [where lines = lines])
  case (1 n)
  let ?s = "drop n lines"
  obtain k where k: "find_sentinel ?s = Some k"
    using "1.prems" by (cases "find_sentinel ?s") (simp_all add: scan_lines_stop)
  have bnd: "n + k + 2 \<le> length lines" using find_sentinel_bound [OF k] by simp
  have k': "find_sentinel (drop n (lines @ more)) = Some k"
    using find_sentinel_append [OF k] bnd by simp
  have t: "take k (drop n (lines @ more)) = take k ?s" using bnd by simp
  show ?case
    using "1.prems" "1.IH" [OF k]
    unfolding scan_lines_step [OF k] scan_lines_step [OF k'] t
    by (auto split: sum.splits if_splits)
qed

lemma find_begin_end_append:
  "find_begin_end buf = Inr (Some e) \<Longrightarrow> find_begin_end (buf @ more) = Inr (Some e)"
  by (fastforce simp: find_begin_end_iff)

lemma find_begin_end_reject_append:
  "find_begin_end buf = Inl err \<Longrightarrow> err \<noteq> AuthLineTooLong \<Longrightarrow> find_begin_end (buf @ more) = Inl err"
  by (auto simp: find_begin_end_def and_then_eq_Inl scan_lines_append
      split: list.splits if_splits option.splits)

lemma find_begin_end_bound: "find_begin_end buf = Inr (Some e) \<Longrightarrow> e \<le> length buf"
  by (auto simp: find_begin_end_iff)

section \<open>Properties\<close>

text \<open>
  C11. The scanner reports the end of the handshake exactly when the buffer starts with a
  complete handshake: a NUL byte, valid non-\<open>BEGIN\<close> lines and one \<open>BEGIN\<close> line. The offset
  returned is the length of that handshake, whatever follows it.
\<close>

theorem find_begin_end_accepts:
  "find_begin_end buf = Inr (Some e) \<longleftrightarrow>
     (\<exists>ls b rest. handshake_ok ls b \<and> buf = handshake ls b @ rest \<and> e = length (handshake ls b))"
  by (rule find_begin_end_iff)

text \<open>
  The verdict is final: once the scanner has found the end of the handshake, or has rejected
  the input, more bytes never change the answer. Only \<open>AuthLineTooLong\<close>, which is raised when
  no \<open>BEGIN\<close> was found in a long buffer, is a verdict on the bytes received so far.
\<close>

theorem find_begin_end_stable:
  assumes "find_begin_end buf = r" and "r \<noteq> Inr None" and "r \<noteq> Inl AuthLineTooLong"
  shows "find_begin_end (buf @ more) = r"
proof (cases r)
  case (Inl e)
  then show ?thesis using assms find_begin_end_reject_append by auto
next
  case (Inr x)
  then show ?thesis using assms find_begin_end_append by (cases x) auto
qed

theorem find_begin_end_stable_witness:
  "find_begin_end ([0] @ BEGIN @ SENTINEL @ [108]) = Inr (Some 8)"
  using find_begin_end_stable [of "[0] @ BEGIN @ SENTINEL" "Inr (Some 8)" "[108]"]
  by (simp add: find_begin_end_def BEGIN_def SENTINEL_def scan_lines.simps Let_def slice_def
      validate_line_def is_ascii_uppercase_def is_begin_line_def)

end
