(* ===== verification/Wire_Frame.thy ===== *)
theory Wire_Frame
  imports Framing
begin

text \<open>
  D-Bus v1 message frames, \<open>crates/emskin-dbus/src/wire/frame.rs\<close>: header field codes, the
  serial counter, message kinds, header records, \<open>Frame::bytes_needed\<close>, \<open>Frame::parse\<close>,
  \<open>Frame::encode\<close>, \<open>Frame::decode_body\<close> and the frame builders.

  \<open>zvariant\<close> is a third-party crate. Its entry points are the record \<open>zvariant\<close>, an argument
  of every definition that calls it; \<open>zv_fields_law\<close> and \<open>zv_values_law\<close> name the documented
  behaviour the round trip relies on. An \<open>f64\<close> is kept as its 64-bit pattern.
\<close>

section \<open>Codes, kinds, serials\<close>

datatype endian = Little | Big

definition FIXED_HEADER_LEN :: nat where
  "FIXED_HEADER_LEN = 16"

definition MAX_MESSAGE_SIZE :: nat where
  "MAX_MESSAGE_SIZE = 128 * 1024 * 1024"

datatype field_code =
  Path | Interface | Member | ErrorName | ReplySerial | Destination | Sender | Signature | UnixFds

fun field_byte :: "field_code \<Rightarrow> byte" where
  "field_byte Path = 1"
| "field_byte Interface = 2"
| "field_byte Member = 3"
| "field_byte ErrorName = 4"
| "field_byte ReplySerial = 5"
| "field_byte Destination = 6"
| "field_byte Sender = 7"
| "field_byte Signature = 8"
| "field_byte UnixFds = 9"

definition field_from_byte :: "byte \<Rightarrow> field_code option" where
  "field_from_byte b =
     (if b = 1 then Some Path
      else if b = 2 then Some Interface
      else if b = 3 then Some Member
      else if b = 4 then Some ErrorName
      else if b = 5 then Some ReplySerial
      else if b = 6 then Some Destination
      else if b = 7 then Some Sender
      else if b = 8 then Some Signature
      else if b = 9 then Some UnixFds
      else None)"

lemma field_from_field_byte [simp]: "field_from_byte (field_byte c) = Some c"
  by (cases c) (simp_all add: field_from_byte_def)

type_synonym serial_counter = u32

definition serial_new :: serial_counter where
  "serial_new = 0"

text \<open>\<open>bump\<close> returns the serial handed out and the counter's new value.\<close>

definition bump :: "serial_counter \<Rightarrow> u32 \<times> serial_counter" where
  "bump c = (let c1 = c + 1; c2 = (if c1 = 0 then 1 else c1) in (c2, c2))"

datatype frame_error =
    InvalidEndian byte
  | InvalidKind byte
  | WrongProtocolVersion byte
  | ZeroSerial
  | TooShort
  | SizeOverflow
  | MessageTooLarge nat
  | HeaderFieldsParse string

datatype message_kind = MethodCall | MethodReturn | ErrorMsg | Signal

fun kind_byte :: "message_kind \<Rightarrow> byte" where
  "kind_byte MethodCall = 1"
| "kind_byte MethodReturn = 2"
| "kind_byte ErrorMsg = 3"
| "kind_byte Signal = 4"

definition kind_from_byte :: "byte \<Rightarrow> frame_error + message_kind" where
  "kind_from_byte b =
     (if b = 1 then Inr MethodCall
      else if b = 2 then Inr MethodReturn
      else if b = 3 then Inr ErrorMsg
      else if b = 4 then Inr Signal
      else Inl (InvalidKind b))"

lemma kind_from_kind_byte [simp]: "kind_from_byte (kind_byte k) = Inr k"
  by (cases k) (simp_all add: kind_from_byte_def)

section \<open>The zvariant interface\<close>

type_synonym f64 = "64 word"

text \<open>The \<open>Value\<close> variants the code names; any other variant is \<open>VOther\<close> with its signature.\<close>

datatype zvalue =
    VStr string
  | VObjectPath string
  | VSignature string
  | VU32 u32
  | VOther string

text \<open>An element of the header array: a \<open>Value\<close>, or the \<open>BareSignature\<close> wrapper.\<close>

datatype header_elem = EValue zvalue | EBareSignature string

text \<open>Values of message bodies: the argument types the code encodes or decodes.\<close>

datatype body_arg =
    AStr string
  | AObjectPath string
  | ABytes bytes
  | ABool bool
  | AI32 i32
  | AU32 u32
  | AU64 u64
  | AF64 f64
  | AStrPairs "(string \<times> string) list"
  | AChunks "(string \<times> i32) list"

record zvariant =
  zv_de_fields :: "endian \<Rightarrow> bytes \<Rightarrow> string + (byte \<times> zvalue) list"
  zv_ser_fields :: "endian \<Rightarrow> (byte \<times> header_elem) list \<Rightarrow> bytes"
  zv_object_path_ok :: "string \<Rightarrow> bool"
  zv_to_string :: "zvalue \<Rightarrow> string option"
  zv_to_u32 :: "zvalue \<Rightarrow> u32 option"
  zv_no_parens :: "string \<Rightarrow> string"
  zv_de_body :: "endian \<Rightarrow> string \<Rightarrow> bytes \<Rightarrow> body_arg list option"
  zv_ser_arg :: "nat \<Rightarrow> body_arg \<Rightarrow> bytes"
  zv_arg_signature :: "body_arg \<Rightarrow> string"

section \<open>Headers\<close>

record headers =
  h_path :: "string option"
  h_interface :: "string option"
  h_member :: "string option"
  h_error_name :: "string option"
  h_destination :: "string option"
  h_sender :: "string option"
  h_signature :: "string option"
  h_reply_serial :: "u32 option"
  h_unix_fds :: "u32 option"

definition headers_default :: headers where
  "headers_default =
     \<lparr>h_path = None, h_interface = None, h_member = None, h_error_name = None,
      h_destination = None, h_sender = None, h_signature = None, h_reply_serial = None,
      h_unix_fds = None\<rparr>"

fun raw_step :: "zvariant \<Rightarrow> headers \<Rightarrow> byte \<times> zvalue \<Rightarrow> headers" where
  "raw_step zv out (code, v) =
     (case field_from_byte code of
        None \<Rightarrow> out
      | Some Path \<Rightarrow> (case v of VObjectPath p \<Rightarrow> out\<lparr>h_path := Some p\<rparr> | _ \<Rightarrow> out)
      | Some Interface \<Rightarrow> out\<lparr>h_interface := zv_to_string zv v\<rparr>
      | Some Member \<Rightarrow> out\<lparr>h_member := zv_to_string zv v\<rparr>
      | Some ErrorName \<Rightarrow> out\<lparr>h_error_name := zv_to_string zv v\<rparr>
      | Some ReplySerial \<Rightarrow> out\<lparr>h_reply_serial := zv_to_u32 zv v\<rparr>
      | Some Destination \<Rightarrow> out\<lparr>h_destination := zv_to_string zv v\<rparr>
      | Some Sender \<Rightarrow> out\<lparr>h_sender := zv_to_string zv v\<rparr>
      | Some Signature \<Rightarrow>
          (case v of VSignature s \<Rightarrow> out\<lparr>h_signature := Some (zv_no_parens zv s)\<rparr> | _ \<Rightarrow> out)
      | Some UnixFds \<Rightarrow> out\<lparr>h_unix_fds := zv_to_u32 zv v\<rparr>)"

definition headers_from_raw :: "zvariant \<Rightarrow> (byte \<times> zvalue) list \<Rightarrow> headers" where
  "headers_from_raw zv raw = foldl (raw_step zv) headers_default raw"

definition headers_count :: "headers \<Rightarrow> nat" where
  "headers_count h =
     length (filter id
       [h_path h \<noteq> None, h_interface h \<noteq> None, h_member h \<noteq> None, h_error_name h \<noteq> None,
        h_reply_serial h \<noteq> None, h_destination h \<noteq> None, h_sender h \<noteq> None,
        h_signature h \<noteq> None, h_unix_fds h \<noteq> None])"

definition opt_elem :: "field_code \<Rightarrow> ('a \<Rightarrow> header_elem) \<Rightarrow> 'a option \<Rightarrow> (byte \<times> header_elem) list" where
  "opt_elem c mk x = (case x of None \<Rightarrow> [] | Some v \<Rightarrow> [(field_byte c, mk v)])"

definition headers_serialize :: "zvariant \<Rightarrow> headers \<Rightarrow> (byte \<times> header_elem) list" where
  "headers_serialize zv h =
     (case h_path h of
        None \<Rightarrow> []
      | Some p \<Rightarrow>
          if zv_object_path_ok zv p then [(field_byte Path, EValue (VObjectPath p))] else [])
     @ opt_elem Interface (\<lambda>s. EValue (VStr s)) (h_interface h)
     @ opt_elem Member (\<lambda>s. EValue (VStr s)) (h_member h)
     @ opt_elem ErrorName (\<lambda>s. EValue (VStr s)) (h_error_name h)
     @ opt_elem ReplySerial (\<lambda>n. EValue (VU32 n)) (h_reply_serial h)
     @ opt_elem Destination (\<lambda>s. EValue (VStr s)) (h_destination h)
     @ opt_elem Sender (\<lambda>s. EValue (VStr s)) (h_sender h)
     @ opt_elem Signature EBareSignature (h_signature h)
     @ opt_elem UnixFds (\<lambda>n. EValue (VU32 n)) (h_unix_fds h)"

section \<open>Frames\<close>

record frame =
  f_endian :: endian
  f_kind :: message_kind
  f_flags :: byte
  f_serial :: u32
  f_headers :: headers
  f_body :: bytes

definition parse_endian :: "byte \<Rightarrow> frame_error + endian" where
  "parse_endian b =
     (if b = 0x6c then Inr Little else if b = 0x42 then Inr Big else Inl (InvalidEndian b))"

definition endian_byte :: "endian \<Rightarrow> byte" where
  "endian_byte e = (case e of Little \<Rightarrow> 0x6c | Big \<Rightarrow> 0x42)"

definition read_u32 :: "endian \<Rightarrow> bytes \<Rightarrow> u32" where
  "read_u32 e bs = (case e of Little \<Rightarrow> u32_of_le bs | Big \<Rightarrow> u32_of_be bs)"

definition endian_u32 :: "endian \<Rightarrow> u32 \<Rightarrow> bytes" where
  "endian_u32 e n = (case e of Little \<Rightarrow> u32_to_le n | Big \<Rightarrow> u32_to_be n)"

text \<open>\<open>v & !7\<close> clears the low three bits.\<close>

definition align8 :: "nat \<Rightarrow> nat option" where
  "align8 n = map_option (\<lambda>v. v - v mod 8) (checked_add n 7)"

definition bytes_needed :: "bytes \<Rightarrow> frame_error + nat option" where
  "bytes_needed buf =
     (if length buf < FIXED_HEADER_LEN then Inr None
      else
        and_then (parse_endian (buf ! 0)) (\<lambda>en.
        if buf ! 3 \<noteq> 1 then Inl (WrongProtocolVersion (buf ! 3))
        else
          (let body_len = unat (read_u32 en (slice 4 8 buf));
               fields_len = unat (read_u32 en (slice 12 16 buf)) in
           and_then (ok_or SizeOverflow (checked_add FIXED_HEADER_LEN fields_len)) (\<lambda>header_section.
           and_then (ok_or SizeOverflow (align8 header_section)) (\<lambda>body_start.
           and_then (ok_or SizeOverflow (checked_add body_start body_len)) (\<lambda>total.
           if total > MAX_MESSAGE_SIZE then Inl (MessageTooLarge total)
           else Inr (Some total)))))))"

definition parse_frame :: "zvariant \<Rightarrow> bytes \<Rightarrow> frame_error + frame" where
  "parse_frame zv buf =
     (if length buf < FIXED_HEADER_LEN then Inl TooShort
      else
        and_then (parse_endian (buf ! 0)) (\<lambda>en.
        if buf ! 3 \<noteq> 1 then Inl (WrongProtocolVersion (buf ! 3))
        else
          and_then (kind_from_byte (buf ! 1)) (\<lambda>kind.
          let flags = buf ! 2;
              body_len = unat (read_u32 en (slice 4 8 buf));
              serial = read_u32 en (slice 8 12 buf) in
          if serial = 0 then Inl ZeroSerial
          else
            (let fields_len = unat (read_u32 en (slice 12 16 buf)) in
             and_then (ok_or SizeOverflow (checked_add FIXED_HEADER_LEN fields_len)) (\<lambda>fields_end.
             if length buf < fields_end then Inl TooShort
             else
               and_then (map_sum HeaderFieldsParse id (zv_de_fields zv en (slice 12 fields_end buf)))
                 (\<lambda>raw.
               let hs = headers_from_raw zv raw in
               and_then (ok_or SizeOverflow (align8 fields_end)) (\<lambda>body_start.
               and_then (ok_or SizeOverflow (checked_add body_start body_len)) (\<lambda>body_end.
               if length buf < body_end then Inl TooShort
               else
                 Inr \<lparr>f_endian = en, f_kind = kind, f_flags = flags, f_serial = serial,
                      f_headers = hs, f_body = slice body_start body_end buf\<rparr>))))))))"

text \<open>The padding loop \<open>while !out.len().is_multiple_of(8) { out.push(0) }\<close>.\<close>

function pad8 :: "bytes \<Rightarrow> bytes" where
  "pad8 out = (if length out mod 8 = 0 then out else pad8 (out @ [0]))"
  by pat_completeness auto
termination
proof (relation "measure (\<lambda>out. (8 - length out mod 8) mod 8)")
  fix out :: bytes
  assume "length out mod 8 \<noteq> 0"
  then show "(out @ [0], out) \<in> measure (\<lambda>out. (8 - length out mod 8) mod 8)"
    by (simp add: mod_Suc) arith
qed simp

declare pad8.simps [simp del]

definition encode_frame :: "zvariant \<Rightarrow> frame \<Rightarrow> bytes" where
  "encode_frame zv f =
     (let fields_with_len = zv_ser_fields zv (f_endian f) (headers_serialize zv (f_headers f));
          out = [endian_byte (f_endian f), kind_byte (f_kind f), f_flags f, 1]
                @ endian_u32 (f_endian f) (word_of_nat (length (f_body f)))
                @ endian_u32 (f_endian f) (f_serial f)
                @ fields_with_len in
      pad8 out @ f_body f)"

text \<open>
  \<open>decode_body::<T>\<close>: the body is decoded with the signature of the frame's own header; \<open>as_T\<close>
  is the extraction of the Rust type from the decoded arguments.
\<close>

definition decode_body :: "zvariant \<Rightarrow> (body_arg list \<Rightarrow> 't option) \<Rightarrow> frame \<Rightarrow> 't option" where
  "decode_body zv as_T f =
     (case h_signature (f_headers f) of
        None \<Rightarrow> None
      | Some sig \<Rightarrow> Option.bind (zv_de_body zv (f_endian f) sig (f_body f)) as_T)"

definition as_string :: "body_arg list \<Rightarrow> string option" where
  "as_string args = (case args of [AStr s] \<Rightarrow> Some s | _ \<Rightarrow> None)"

definition as_string3 :: "body_arg list \<Rightarrow> (string \<times> string \<times> string) option" where
  "as_string3 args = (case args of [AStr a, AStr b, AStr c] \<Rightarrow> Some (a, b, c) | _ \<Rightarrow> None)"

definition as_str_pairs :: "body_arg list \<Rightarrow> (string \<times> string) list option" where
  "as_str_pairs args = (case args of [AStrPairs ps] \<Rightarrow> Some ps | _ \<Rightarrow> None)"

definition as_u64 :: "body_arg list \<Rightarrow> u64 option" where
  "as_u64 args = (case args of [AU64 n] \<Rightarrow> Some n | _ \<Rightarrow> None)"

definition as_i32x2 :: "body_arg list \<Rightarrow> (i32 \<times> i32) option" where
  "as_i32x2 args = (case args of [AI32 x, AI32 y] \<Rightarrow> Some (x, y) | _ \<Rightarrow> None)"

definition as_i32x4 :: "body_arg list \<Rightarrow> (i32 \<times> i32 \<times> i32 \<times> i32) option" where
  "as_i32x4 args = (case args of [AI32 x, AI32 y, AI32 w, AI32 h] \<Rightarrow> Some (x, y, w, h) | _ \<Rightarrow> None)"

definition as_i32x4_f64 :: "body_arg list \<Rightarrow> (i32 \<times> i32 \<times> i32 \<times> i32 \<times> f64) option" where
  "as_i32x4_f64 args = (case args of [AI32 x, AI32 y, AI32 w, AI32 h, AF64 s] \<Rightarrow> Some (x, y, w, h, s) | _ \<Rightarrow> None)"

definition as_str_u32x2 :: "body_arg list \<Rightarrow> (string \<times> u32 \<times> u32) option" where
  "as_str_u32x2 args = (case args of [AStr t, AU32 c, AU32 a] \<Rightarrow> Some (t, c, a) | _ \<Rightarrow> None)"

definition as_u32x2 :: "body_arg list \<Rightarrow> (u32 \<times> u32) option" where
  "as_u32x2 args = (case args of [AU32 c, AU32 a] \<Rightarrow> Some (c, a) | _ \<Rightarrow> None)"

section \<open>Builders\<close>

record frame_builder =
  fb_kind :: message_kind
  fb_serial :: u32
  fb_flags :: byte
  fb_headers :: headers
  fb_body :: bytes

definition fb_new :: "message_kind \<Rightarrow> frame_builder" where
  "fb_new k =
     \<lparr>fb_kind = k, fb_serial = 0, fb_flags = 0, fb_headers = headers_default, fb_body = []\<rparr>"

definition fill_from_request :: "frame_builder \<Rightarrow> frame \<Rightarrow> frame_builder" where
  "fill_from_request b request =
     b\<lparr>fb_headers := (fb_headers b)
         \<lparr>h_reply_serial := Some (f_serial request),
          h_destination := h_sender (f_headers request),
          h_sender := h_destination (f_headers request)\<rparr>\<rparr>"

definition fb_method_return :: "frame \<Rightarrow> frame_builder" where
  "fb_method_return reply_to = fill_from_request (fb_new MethodReturn) reply_to"

definition fb_signal :: "string \<Rightarrow> string \<Rightarrow> string \<Rightarrow> frame_builder" where
  "fb_signal path iface member =
     (fb_new Signal)\<lparr>fb_headers := headers_default
        \<lparr>h_path := Some path, h_interface := Some iface, h_member := Some member\<rparr>\<rparr>"

definition fb_error :: "frame \<Rightarrow> string \<Rightarrow> frame_builder" where
  "fb_error reply_to error_name =
     (let b = fill_from_request (fb_new ErrorMsg) reply_to in
      b\<lparr>fb_headers := (fb_headers b)\<lparr>h_error_name := Some error_name\<rparr>\<rparr>)"

definition fb_method_call :: "string \<Rightarrow> string \<Rightarrow> string \<Rightarrow> frame_builder" where
  "fb_method_call path iface member =
     (fb_new MethodCall)\<lparr>fb_headers := headers_default
        \<lparr>h_path := Some path, h_interface := Some iface, h_member := Some member\<rparr>\<rparr>"

definition with_serial :: "u32 \<Rightarrow> frame_builder \<Rightarrow> frame_builder" where
  "with_serial n b = b\<lparr>fb_serial := n\<rparr>"

definition with_flags :: "byte \<Rightarrow> frame_builder \<Rightarrow> frame_builder" where
  "with_flags n b = b\<lparr>fb_flags := n\<rparr>"

definition with_destination :: "string \<Rightarrow> frame_builder \<Rightarrow> frame_builder" where
  "with_destination s b = b\<lparr>fb_headers := (fb_headers b)\<lparr>h_destination := Some s\<rparr>\<rparr>"

definition with_sender :: "string \<Rightarrow> frame_builder \<Rightarrow> frame_builder" where
  "with_sender s b = b\<lparr>fb_headers := (fb_headers b)\<lparr>h_sender := Some s\<rparr>\<rparr>"

definition no_destination :: "frame_builder \<Rightarrow> frame_builder" where
  "no_destination b = b\<lparr>fb_headers := (fb_headers b)\<lparr>h_destination := None\<rparr>\<rparr>"

definition with_body :: "zvariant \<Rightarrow> body_arg \<Rightarrow> frame_builder \<Rightarrow> frame_builder" where
  "with_body zv v b =
     b\<lparr>fb_body := zv_ser_arg zv 0 v,
       fb_headers := (fb_headers b)\<lparr>h_signature := Some (zv_arg_signature zv v)\<rparr>\<rparr>"

definition fb_build :: "frame_builder \<Rightarrow> frame" where
  "fb_build b =
     \<lparr>f_endian = Little, f_kind = fb_kind b, f_flags = fb_flags b, f_serial = fb_serial b,
      f_headers = fb_headers b, f_body = fb_body b\<rparr>"

record body_builder =
  bb_inner :: frame_builder
  bb_sig :: string

definition body_args :: "frame_builder \<Rightarrow> body_builder" where
  "body_args b = \<lparr>bb_inner = b, bb_sig = []\<rparr>"

definition bb_arg :: "zvariant \<Rightarrow> body_arg \<Rightarrow> body_builder \<Rightarrow> body_builder" where
  "bb_arg zv v bb =
     (let inner = bb_inner bb; encoded = zv_ser_arg zv (length (fb_body inner)) v in
      \<lparr>bb_inner = inner\<lparr>fb_body := fb_body inner @ encoded\<rparr>,
       bb_sig = bb_sig bb @ zv_arg_signature zv v\<rparr>)"

definition bb_finish :: "body_builder \<Rightarrow> frame_builder" where
  "bb_finish bb =
     (let inner = bb_inner bb in
      if bb_sig bb \<noteq> []
      then inner\<lparr>fb_headers := (fb_headers inner)\<lparr>h_signature := Some (bb_sig bb)\<rparr>\<rparr>
      else inner)"

end
