(* ===== verification/Frame_Facts.thy ===== *)
theory Frame_Facts
  imports Wire_Frame Counters
begin

text \<open>
  Correctness of \<open>Wire_Frame\<close>: the size computation never overflows and looks at the fixed
  header only (so it is a length-determined framing), the parser reads back what the encoder
  writes, and the serial counter never hands out zero.
\<close>

section \<open>Alignment and padding\<close>

definition up8 :: "nat \<Rightarrow> nat" where
  "up8 n = (n + 7) div 8 * 8"

lemma up8_alt: "n + 7 - (n + 7) mod 8 = up8 n"
  by (simp add: up8_def minus_mod_eq_div_mult)

lemma up8_bounds: "n \<le> up8 n" "up8 n \<le> n + 7"
  using div_mult_mod_eq [of "n + 7" 8] mod_less_divisor [of 8 "n + 7"]
  unfolding up8_def by linarith+

lemma up8_aligned: "n mod 8 = 0 \<Longrightarrow> up8 n = n"
  unfolding up8_def by presburger

lemma up8_unaligned:
  assumes "n mod 8 \<noteq> 0"
  shows "up8 (Suc n) = up8 n"
proof -
  have "Suc (n + 7) = n + 8" by simp
  then have "Suc (n + 7) mod 8 = n mod 8" by (metis mod_add_self2)
  then have "Suc (n + 7) div 8 = (n + 7) div 8" using assms by (subst div_Suc) simp
  then show ?thesis by (simp only: up8_def add_Suc)
qed

lemma up8_greater: "n mod 8 \<noteq> 0 \<Longrightarrow> n < up8 n"
  unfolding up8_def by presburger

lemma align8_eq: "n + 7 < 2 ^ 64 \<Longrightarrow> align8 n = Some (up8 n)"
  using up8_alt [of n] by (simp add: align8_def checked_add_def usize_limit_def)

lemma pad8_eq: "pad8 out = out @ replicate (up8 (length out) - length out) 0"
proof (induction out rule: pad8.induct)
  case (1 out)
  show ?case
  proof (cases "length out mod 8 = 0")
    case True
    then show ?thesis by (subst pad8.simps) (simp add: up8_aligned)
  next
    case False
    moreover from up8_greater [OF this] have
      "up8 (length out) - length out = Suc (up8 (length out) - Suc (length out))" by simp
    ultimately show ?thesis
      using "1.IH" [OF False] up8_unaligned [OF False] by (subst pad8.simps) simp
  qed
qed

lemma length_pad8 [simp]: "length (pad8 out) = up8 (length out)"
  using up8_bounds(1) [of "length out"] by (simp add: pad8_eq)

section \<open>The size of a frame\<close>

lemma unat_of_small: "n < 2 ^ 32 \<Longrightarrow> unat (word_of_nat n :: u32) = n"
  by (simp add: unsigned_of_nat take_bit_nat_eq_self)

definition header_end :: "endian \<Rightarrow> bytes \<Rightarrow> nat" where
  "header_end en buf = 16 + unat (read_u32 en (slice 12 16 buf))"

definition body_length :: "endian \<Rightarrow> bytes \<Rightarrow> nat" where
  "body_length en buf = unat (read_u32 en (slice 4 8 buf))"

definition frame_total :: "endian \<Rightarrow> bytes \<Rightarrow> nat" where
  "frame_total en buf = up8 (header_end en buf) + body_length en buf"

lemma unat_u32: "unat (n :: u32) < 4294967296"
proof -
  have "unat n < 2 ^ LENGTH(32)" by (rule unsigned_less)
  then show ?thesis by simp
qed

lemma size_checks:
  "checked_add FIXED_HEADER_LEN (unat (read_u32 en (slice 12 16 buf))) = Some (header_end en buf)"
  "align8 (header_end en buf) = Some (up8 (header_end en buf))"
  "checked_add (up8 (header_end en buf)) (unat (read_u32 en (slice 4 8 buf))) =
     Some (frame_total en buf)"
proof -
  have a: "header_end en buf < 16 + 2 ^ 32" and b: "body_length en buf < 2 ^ 32"
    using unat_u32 by (simp_all add: header_end_def body_length_def)
  then show "align8 (header_end en buf) = Some (up8 (header_end en buf))"
    by (intro align8_eq) simp
  show "checked_add FIXED_HEADER_LEN (unat (read_u32 en (slice 12 16 buf))) = Some (header_end en buf)"
    using a by (simp add: checked_add_small FIXED_HEADER_LEN_def header_end_def)
  have "up8 (header_end en buf) + body_length en buf < 2 ^ 64"
    using a b up8_bounds(2) [of "header_end en buf"] by simp
  then show "checked_add (up8 (header_end en buf)) (unat (read_u32 en (slice 4 8 buf))) =
      Some (frame_total en buf)"
    by (simp add: checked_add_small frame_total_def body_length_def)
qed

lemma bytes_needed_eq [wire_simps]:
  "bytes_needed buf =
     (if length buf < 16 then Inr None
      else and_then (parse_endian (buf ! 0)) (\<lambda>en.
        if buf ! 3 \<noteq> 1 then Inl (WrongProtocolVersion (buf ! 3))
        else if frame_total en buf > MAX_MESSAGE_SIZE
        then Inl (MessageTooLarge (frame_total en buf))
        else Inr (Some (frame_total en buf))))"
proof (cases "length buf < 16 \<or> buf ! 3 \<noteq> 1")
  case True
  then show ?thesis
    by (cases "parse_endian (buf ! 0)") (auto simp: bytes_needed_def FIXED_HEADER_LEN_def)
next
  case False
  then show ?thesis
    using size_checks
    by (cases "parse_endian (buf ! 0)") (simp_all add: bytes_needed_def FIXED_HEADER_LEN_def)
qed

lemma frame_total_ge: "16 \<le> frame_total en buf"
  using up8_bounds(1) [of "header_end en buf"] by (simp add: frame_total_def header_end_def)

lemma bytes_needed_Some:
  "bytes_needed buf = Inr (Some n) \<longleftrightarrow>
     16 \<le> length buf \<and> buf ! 3 = 1 \<and> n \<le> MAX_MESSAGE_SIZE \<and>
     (\<exists>en. parse_endian (buf ! 0) = Inr en \<and> n = frame_total en buf)"
  by (auto simp: bytes_needed_eq and_then_eq_Inr not_less)

lemma bytes_needed_cases:
  "length buf < 16 \<longleftrightarrow> bytes_needed buf = Inr None"
  by (auto simp: bytes_needed_eq and_then_eq_Inr split: if_splits)

lemma frame_total_append:
  "16 \<le> length xs \<Longrightarrow> frame_total en (xs @ ys) = frame_total en xs"
  by (simp add: frame_total_def header_end_def body_length_def slice_append_left)

lemma bytes_needed_append:
  assumes "16 \<le> length xs"
  shows "bytes_needed (xs @ ys) = bytes_needed xs"
proof -
  have "(xs @ ys) ! 0 = xs ! 0" "(xs @ ys) ! 3 = xs ! 3"
    using assms by (auto simp: nth_append)
  then show ?thesis
    using assms by (simp only: bytes_needed_eq frame_total_append length_append) simp
qed

lemma bytes_needed_ge: "bytes_needed buf = Inr (Some n) \<Longrightarrow> 16 \<le> n"
  by (auto simp: bytes_needed_Some frame_total_ge)

lemma bytes_needed_take:
  assumes "bytes_needed xs = Inr (Some n)" "n \<le> length xs"
  shows "bytes_needed (take n xs) = Inr (Some n)"
  using bytes_needed_append [of "take n xs" "drop n xs"] bytes_needed_ge [OF assms(1)] assms
  by simp

text \<open>
  The size of a frame is decided by its 16-byte fixed header. It is never reported before
  that header is complete, the arithmetic on \<open>usize\<close> never overflows, every size reported is
  at least the header and at most \<open>MAX_MESSAGE_SIZE\<close>, and bytes behind the header never
  change the answer.
\<close>

theorem bytes_needed_decided:
  "bytes_needed buf \<noteq> Inl SizeOverflow \<and>
   (bytes_needed buf = Inr None \<longleftrightarrow> length buf < FIXED_HEADER_LEN) \<and>
   (\<forall>n. bytes_needed buf = Inr (Some n) \<longrightarrow> FIXED_HEADER_LEN \<le> n \<and> n \<le> MAX_MESSAGE_SIZE) \<and>
   (FIXED_HEADER_LEN \<le> length buf \<longrightarrow> bytes_needed (buf @ rest) = bytes_needed buf)"
proof (intro conjI)
  show "bytes_needed buf \<noteq> Inl SizeOverflow"
    by (auto simp: bytes_needed_eq and_then_eq_Inl parse_endian_def split: if_splits)
  show "bytes_needed buf = Inr None \<longleftrightarrow> length buf < FIXED_HEADER_LEN"
    using bytes_needed_cases [of buf] by (simp add: FIXED_HEADER_LEN_def)
  show "\<forall>n. bytes_needed buf = Inr (Some n) \<longrightarrow> FIXED_HEADER_LEN \<le> n \<and> n \<le> MAX_MESSAGE_SIZE"
    by (auto simp: bytes_needed_Some FIXED_HEADER_LEN_def frame_total_ge)
  show "FIXED_HEADER_LEN \<le> length buf \<longrightarrow> bytes_needed (buf @ rest) = bytes_needed buf"
    by (simp add: bytes_needed_append FIXED_HEADER_LEN_def)
qed

text \<open>The decoder keeps the reader's contract.\<close>

interpretation dbus_framing: length_framing bytes_needed
proof unfold_locales
  fix xs ys :: bytes and n e
  show "bytes_needed xs = Inr (Some n) \<Longrightarrow> 0 < n"
    by (auto simp: bytes_needed_Some) (metis frame_total_ge le_zero_eq not_gr_zero zero_neq_numeral)
  show more: "bytes_needed xs = Inr (Some n) \<Longrightarrow> bytes_needed (xs @ ys) = Inr (Some n)" for xs ys n
    by (simp add: bytes_needed_append bytes_needed_Some [of xs])
  show "bytes_needed xs = Inl e \<Longrightarrow> bytes_needed (xs @ ys) = Inl e"
    by (metis bytes_needed_append bytes_needed_cases not_less Inl_Inr_False)
  show "bytes_needed xs = Inr (Some n) \<Longrightarrow> n \<le> length xs \<Longrightarrow> bytes_needed (take n xs) = Inr (Some n)"
    by (rule bytes_needed_take)
qed

section \<open>Parsing\<close>

lemma parse_frame_Inr:
  "parse_frame zv buf = Inr f \<longleftrightarrow>
     16 \<le> length buf \<and> buf ! 3 = 1 \<and>
     parse_endian (buf ! 0) = Inr (f_endian f) \<and>
     kind_from_byte (buf ! 1) = Inr (f_kind f) \<and>
     f_flags f = buf ! 2 \<and>
     f_serial f = read_u32 (f_endian f) (slice 8 12 buf) \<and> f_serial f \<noteq> 0 \<and>
     (\<exists>raw. zv_de_fields zv (f_endian f) (slice 12 (header_end (f_endian f) buf) buf) = Inr raw \<and>
        f_headers f = headers_from_raw zv raw) \<and>
     frame_total (f_endian f) buf \<le> length buf \<and>
     f_body f = slice (up8 (header_end (f_endian f) buf)) (frame_total (f_endian f) buf) buf"
  (is "_ \<longleftrightarrow> ?R")
proof (cases "length buf < 16 \<or> buf ! 3 \<noteq> 1")
  case True
  then show ?thesis
    by (cases "parse_endian (buf ! 0)") (auto simp: parse_frame_def FIXED_HEADER_LEN_def)
next
  case False
  show ?thesis
  proof (cases "parse_endian (buf ! 0)")
    case (Inl e)
    then show ?thesis using False by (auto simp: parse_frame_def FIXED_HEADER_LEN_def)
  next
    case (Inr en)
    let ?hs = "zv_de_fields zv en (slice 12 (header_end en buf) buf)"
    have "header_end en buf \<le> frame_total en buf"
      using up8_bounds(1) [of "header_end en buf"] by (simp add: frame_total_def)
    moreover have "parse_frame zv buf = Inr f \<longleftrightarrow>
        (\<exists>kind raw. kind_from_byte (buf ! 1) = Inr kind \<and>
          read_u32 en (slice 8 12 buf) \<noteq> 0 \<and> header_end en buf \<le> length buf \<and>
          zv_de_fields zv en (slice 12 (header_end en buf) buf) = Inr raw \<and>
          frame_total en buf \<le> length buf \<and>
          f = \<lparr>f_endian = en, f_kind = kind, f_flags = buf ! 2,
               f_serial = read_u32 en (slice 8 12 buf), f_headers = headers_from_raw zv raw,
               f_body = slice (up8 (header_end en buf)) (frame_total en buf) buf\<rparr>)"
      using False Inr size_checks [of en buf]
      by (cases "kind_from_byte (buf ! 1)"; cases ?hs)
        (auto simp: parse_frame_def FIXED_HEADER_LEN_def Let_def not_less)
    ultimately show ?thesis
      using False Inr by (cases f) auto
  qed
qed

text \<open>
  A frame that parses is the frame the reader would cut off: when the size is accepted,
  the buffer holds that many bytes, the parse result depends on exactly these bytes, and the
  serial is not zero.
\<close>

theorem parse_frame_consumes:
  assumes "parse_frame zv buf = Inr f" and "bytes_needed buf = Inr (Some n)"
  shows "n \<le> length buf \<and> parse_frame zv (take n buf) = Inr f \<and> f_serial f \<noteq> 0 \<and>
    length (f_body f) + up8 (header_end (f_endian f) buf) = n"
proof -
  let ?en = "f_endian f"
  note p = assms(1) [unfolded parse_frame_Inr]
  have n: "n = frame_total ?en buf" and n16: "16 \<le> n"
    using assms(2) p bytes_needed_ge [OF assms(2)] by (auto simp: bytes_needed_Some)
  have le: "n \<le> length buf" using p n by simp
  have split: "take n buf @ drop n buf = buf" by simp
  have len: "16 \<le> length (take n buf)" using n16 le by simp
  have total: "frame_total ?en (take n buf) = frame_total ?en buf"
    using frame_total_append [OF len, of ?en "drop n buf"] by simp
  have sl: "b \<le> n \<Longrightarrow> slice a b (take n buf) = slice a b buf" for a b
    by (rule slice_take)
  have he: "header_end ?en (take n buf) = header_end ?en buf"
    using n16 by (simp add: header_end_def sl)
  have up: "up8 (header_end ?en buf) \<le> n" "header_end ?en buf \<le> n"
    using up8_bounds(1) [of "header_end ?en buf"] by (simp_all add: n frame_total_def)
  have "parse_frame zv (take n buf) = Inr f"
    unfolding parse_frame_Inr total he n [symmetric]
    using p [folded n] n16 le up by (auto simp: sl)
  moreover have "length (f_body f) + up8 (header_end ?en buf) = n"
    using p n up by (simp add: length_slice)
  moreover have "f_serial f \<noteq> 0" using p by blast
  ultimately show ?thesis using le by blast
qed

section \<open>Round trip\<close>

fun elem_value :: "header_elem \<Rightarrow> zvalue" where
  "elem_value (EValue v) = v"
| "elem_value (EBareSignature s) = VSignature s"

text \<open>
  What the code relies on from zvariant: \<open>to_bytes\<close> of a header array starts with its length
  as a \<open>u32\<close> and is read back as the same elements; \<open>Value::Str\<close> and \<open>Value::U32\<close> convert to
  their contents; the header's own signature has no outer parentheses to strip.
\<close>

definition zv_fields_law :: "zvariant \<Rightarrow> endian \<Rightarrow> (byte \<times> header_elem) list \<Rightarrow> bool" where
  "zv_fields_law zv en els \<longleftrightarrow>
     (let bs = zv_ser_fields zv en els in
      4 \<le> length bs \<and> length bs - 4 < 2 ^ 32 \<and>
      read_u32 en (take 4 bs) = word_of_nat (length bs - 4) \<and>
      zv_de_fields zv en bs = Inr (map (\<lambda>(c, v). (c, elem_value v)) els))"

definition zv_values_law :: "zvariant \<Rightarrow> headers \<Rightarrow> bool" where
  "zv_values_law zv h \<longleftrightarrow>
     (\<forall>s. zv_to_string zv (VStr s) = Some s) \<and>
     (\<forall>n. zv_to_u32 zv (VU32 n) = Some n) \<and>
     (case h_signature h of None \<Rightarrow> True | Some s \<Rightarrow> zv_no_parens zv s = s) \<and>
     (case h_path h of None \<Rightarrow> True | Some p \<Rightarrow> zv_object_path_ok zv p)"

definition read_elems :: "zvariant \<Rightarrow> headers \<Rightarrow> (byte \<times> header_elem) list \<Rightarrow> headers" where
  "read_elems zv out els = foldl (raw_step zv) out (map (\<lambda>(c, v). (c, elem_value v)) els)"

lemma read_elems_append: "read_elems zv out (xs @ ys) = read_elems zv (read_elems zv out xs) ys"
  by (simp add: read_elems_def)

text \<open>Reading the element written for a field sets that field.\<close>

lemma read_opt_string:
  assumes "\<forall>s. zv_to_string zv (VStr s) = Some s"
  shows
  "h_interface out = None \<Longrightarrow> read_elems zv out (opt_elem Interface (\<lambda>s. EValue (VStr s)) x) = out\<lparr>h_interface := x\<rparr>"
  "h_member out = None \<Longrightarrow> read_elems zv out (opt_elem Member (\<lambda>s. EValue (VStr s)) x) = out\<lparr>h_member := x\<rparr>"
  "h_error_name out = None \<Longrightarrow> read_elems zv out (opt_elem ErrorName (\<lambda>s. EValue (VStr s)) x) = out\<lparr>h_error_name := x\<rparr>"
  "h_destination out = None \<Longrightarrow> read_elems zv out (opt_elem Destination (\<lambda>s. EValue (VStr s)) x) = out\<lparr>h_destination := x\<rparr>"
  "h_sender out = None \<Longrightarrow> read_elems zv out (opt_elem Sender (\<lambda>s. EValue (VStr s)) x) = out\<lparr>h_sender := x\<rparr>"
  using assms
  by (cases out; cases x; simp add: read_elems_def opt_elem_def del: field_byte.simps)+

lemma read_opt_u32:
  assumes "\<forall>n. zv_to_u32 zv (VU32 n) = Some n"
  shows
  "h_reply_serial out = None \<Longrightarrow> read_elems zv out (opt_elem ReplySerial (\<lambda>n. EValue (VU32 n)) x) = out\<lparr>h_reply_serial := x\<rparr>"
  "h_unix_fds out = None \<Longrightarrow> read_elems zv out (opt_elem UnixFds (\<lambda>n. EValue (VU32 n)) x) = out\<lparr>h_unix_fds := x\<rparr>"
  using assms
  by (cases out; cases x; simp add: read_elems_def opt_elem_def del: field_byte.simps)+

lemma read_opt_signature:
  "(case x of None \<Rightarrow> True | Some s \<Rightarrow> zv_no_parens zv s = s) \<Longrightarrow> h_signature out = None \<Longrightarrow>
     read_elems zv out (opt_elem Signature EBareSignature x) = out\<lparr>h_signature := x\<rparr>"
  by (cases out; cases x; simp add: read_elems_def opt_elem_def del: field_byte.simps)

lemma read_path:
  "(case x of None \<Rightarrow> True | Some p \<Rightarrow> zv_object_path_ok zv p) \<Longrightarrow> h_path out = None \<Longrightarrow>
     read_elems zv out (case x of None \<Rightarrow> [] | Some p \<Rightarrow>
       if zv_object_path_ok zv p then [(field_byte Path, EValue (VObjectPath p))] else []) =
     out\<lparr>h_path := x\<rparr>"
  by (cases out; cases x; simp add: read_elems_def del: field_byte.simps)

lemma headers_round_trip:
  assumes "zv_values_law zv h"
  shows "headers_from_raw zv (map (\<lambda>(c, v). (c, elem_value v)) (headers_serialize zv h)) = h"
proof -
  have "read_elems zv headers_default (headers_serialize zv h) = h"
    using assms unfolding zv_values_law_def headers_serialize_def
    by (simp add: read_elems_append read_opt_string read_opt_u32 read_opt_signature read_path
        headers_default_def)
  then show ?thesis by (simp add: headers_from_raw_def read_elems_def)
qed

lemma length_encode_head:
  "length (endian_u32 en n) = 4" "read_u32 en (endian_u32 en n) = n"
  by (cases en; simp add: endian_u32_def read_u32_def)+

lemma parse_endian_byte [simp]: "parse_endian (endian_byte en) = Inr en"
  by (cases en) (simp_all add: parse_endian_def endian_byte_def)

text \<open>The encoded buffer, piece by piece.\<close>

lemma encode_layout:
  fixes f zv rest
  defines "en \<equiv> f_endian f"
    and "fs \<equiv> zv_ser_fields zv (f_endian f) (headers_serialize zv (f_headers f))"
    and "buf \<equiv> encode_frame zv f @ rest"
  assumes law: "zv_fields_law zv (f_endian f) (headers_serialize zv (f_headers f))"
    and body: "length (f_body f) < 2 ^ 32"
  shows "16 \<le> length buf" "buf ! 0 = endian_byte en" "buf ! 1 = kind_byte (f_kind f)"
    "buf ! 2 = f_flags f" "buf ! 3 = 1"
    "read_u32 en (slice 8 12 buf) = f_serial f"
    "header_end en buf = 12 + length fs" "slice 12 (12 + length fs) buf = fs"
    "frame_total en buf = length (encode_frame zv f)"
    "slice (up8 (12 + length fs)) (frame_total en buf) buf = f_body f"
proof -
  let ?a = "[endian_byte en, kind_byte (f_kind f), f_flags f, 1]"
  let ?b = "endian_u32 en (word_of_nat (length (f_body f)))"
  let ?c = "endian_u32 en (f_serial f)"
  let ?pad = "replicate (up8 (12 + length fs) - (12 + length fs)) (0 :: byte)"
  have len: "length ?b = 4" "length ?c = 4" by (simp_all add: length_encode_head)
  have enc: "encode_frame zv f = ?a @ ?b @ ?c @ fs @ ?pad @ f_body f"
    by (simp add: encode_frame_def pad8_eq Let_def en_def fs_def length_encode_head)
  have buf: "buf = ?a @ ?b @ ?c @ fs @ ?pad @ f_body f @ rest"
    by (simp add: buf_def enc)
  have fs4: "4 \<le> length fs" "length fs - 4 < 2 ^ 32"
      "read_u32 en (take 4 fs) = word_of_nat (length fs - 4)"
    using law by (simp_all add: zv_fields_law_def Let_def en_def fs_def)
  show "16 \<le> length buf" "buf ! 0 = endian_byte en" "buf ! 1 = kind_byte (f_kind f)"
    "buf ! 2 = f_flags f" "buf ! 3 = 1"
    using fs4(1) len by (simp_all add: buf)
  have s4: "slice 4 8 buf = ?b"
    unfolding buf by (rule slice_append_exact) (simp_all add: len)
  have "slice 8 12 ((?a @ ?b) @ ?c @ (fs @ ?pad @ f_body f @ rest)) = ?c"
    by (rule slice_append_exact) (simp_all add: len)
  then show "read_u32 en (slice 8 12 buf) = f_serial f"
    by (simp add: buf length_encode_head)
  have "slice 12 16 ((?a @ ?b @ ?c) @ take 4 fs @ (drop 4 fs @ ?pad @ f_body f @ rest)) = take 4 fs"
    by (rule slice_append_exact) (use len fs4 in simp_all)
  then have s12: "slice 12 16 buf = take 4 fs"
    by (simp add: buf flip: append_assoc [of "take 4 fs"])
  show he: "header_end en buf = 12 + length fs"
    using fs4 by (simp add: header_end_def s12 unat_of_small del: of_nat_diff)
  have "slice 12 (12 + length fs) ((?a @ ?b @ ?c) @ fs @ (?pad @ f_body f @ rest)) = fs"
    by (rule slice_append_exact) (simp_all add: len)
  then show "slice 12 (12 + length fs) buf = fs" by (simp add: buf)
  have up: "12 + length fs \<le> up8 (12 + length fs)" by (rule up8_bounds)
  have bl: "body_length en buf = length (f_body f)"
    using body by (simp add: body_length_def s4 length_encode_head unat_of_small)
  show tot: "frame_total en buf = length (encode_frame zv f)"
    using up len by (simp add: frame_total_def he bl enc)
  have "slice (up8 (12 + length fs)) (up8 (12 + length fs) + length (f_body f))
      ((?a @ ?b @ ?c @ fs @ ?pad) @ f_body f @ rest) = f_body f"
    by (rule slice_append_exact) (use len up in simp_all)
  moreover have "frame_total en buf = up8 (12 + length fs) + length (f_body f)"
    by (simp add: frame_total_def he bl)
  moreover have "(?a @ ?b @ ?c @ fs @ ?pad) @ f_body f @ rest = buf" by (simp add: buf)
  ultimately show "slice (up8 (12 + length fs)) (frame_total en buf) buf = f_body f" by metis
qed

lemma encode_frame_parsed:
  assumes "zv_fields_law zv (f_endian f) (headers_serialize zv (f_headers f))"
    and "zv_values_law zv (f_headers f)"
    and "f_serial f \<noteq> 0" and "length (f_body f) < 2 ^ 32"
  shows "parse_frame zv (encode_frame zv f @ rest) = Inr f"
proof -
  have "zv_de_fields zv (f_endian f)
      (zv_ser_fields zv (f_endian f) (headers_serialize zv (f_headers f))) =
      Inr (map (\<lambda>(c, v). (c, elem_value v)) (headers_serialize zv (f_headers f)))"
    using assms(1) by (simp add: zv_fields_law_def Let_def)
  then show ?thesis
    unfolding parse_frame_Inr
    using encode_layout [OF assms(1,4), of rest] assms(3) headers_round_trip [OF assms(2)]
    by simp
qed

text \<open>
  C12. Round trip: encoding a frame with a non-zero serial, a valid object path, a signature without
  outer parentheses, and a body and a header array under \<open>2 ^ 32\<close> bytes and parsing the bytes gives the
  frame back, whatever follows it in the buffer; and the reader cuts off exactly the encoded bytes
  when they are within the message limit.
\<close>

theorem parse_encode_frame:
  assumes "zv_fields_law zv (f_endian f) (headers_serialize zv (f_headers f))"
    and "zv_values_law zv (f_headers f)"
    and "f_serial f \<noteq> 0" and "length (f_body f) < 2 ^ 32"
  shows "parse_frame zv (encode_frame zv f @ rest) = Inr f \<and>
    (length (encode_frame zv f) \<le> MAX_MESSAGE_SIZE \<longrightarrow>
       bytes_needed (encode_frame zv f @ rest) = Inr (Some (length (encode_frame zv f))))"
  using encode_frame_parsed [OF assms] encode_layout [OF assms(1,4), of rest]
  by (auto simp: bytes_needed_Some)

section \<open>Serials\<close>

definition serial_period :: nat where
  "serial_period = 2 ^ 32 - 1"

lemma bump_unat:
  "unat (fst (bump c)) = Suc (unat c mod serial_period)" "snd (bump c) = fst (bump c)"
proof -
  have "unat (c + 1) = (if unat c = 2 ^ 32 - 1 then 0 else Suc (unat c))"
    using unat_u32 [of c] by (auto simp: unat_word_ariths)
  moreover have "unat c < 2 ^ 32" using unat_u32 [of c] by simp
  ultimately show "unat (fst (bump c)) = Suc (unat c mod serial_period)"
    by (auto simp: bump_def Let_def serial_period_def unat_eq_0 split: if_splits)
  show "snd (bump c) = fst (bump c)" by (simp add: bump_def Let_def)
qed

interpretation serials: id_counter bump unat "\<lambda>p. word_of_nat (Suc p)" serial_period
proof unfold_locales
  fix c :: serial_counter
  show "0 < serial_period" by (simp add: serial_period_def)
  have lt: "unat c mod serial_period < serial_period"
    by (rule mod_less_divisor) (simp add: serial_period_def)
  have "word_of_nat (unat (fst (bump c))) = fst (bump c)" by simp
  then show "fst (bump c) = word_of_nat (Suc (unat c mod serial_period))"
    by (simp only: bump_unat)
  show "unat (snd (bump c)) mod serial_period = Suc (unat c) mod serial_period"
    by (simp only: bump_unat mod_Suc_eq)
  show "inj_on (\<lambda>p. word_of_nat (Suc p) :: u32) {..<serial_period}"
  proof (rule inj_onI)
    fix x y
    assume "x \<in> {..<serial_period}" "y \<in> {..<serial_period}"
      and eq: "(word_of_nat (Suc x) :: u32) = word_of_nat (Suc y)"
    then have small: "Suc x < 2 ^ 32" "Suc y < 2 ^ 32" by (simp_all add: serial_period_def)
    have "unat (word_of_nat (Suc x) :: u32) = unat (word_of_nat (Suc y) :: u32)"
      by (simp only: eq)
    then have "Suc x = Suc y" by (simp only: unat_of_small [OF small(1)] unat_of_small [OF small(2)])
    then show "x = y" by simp
  qed
qed

section \<open>Serial numbers\<close>

text \<open>
  Serials: whatever the counter's state, \<open>bump\<close> never hands out zero, which D-Bus
  reserves, and the next 2^32 - 1 serials are pairwise distinct, across the wrap-around.
\<close>

theorem serials_distinct:
  "0 \<notin> set (alloc_n bump n c) \<and> distinct (alloc_n bump (2 ^ 32 - 1) c)"
proof
  show "0 \<notin> set (alloc_n bump n c)"
  proof
    assume "0 \<in> set (alloc_n bump n c)"
    then obtain p where p: "p < serial_period" "(0 :: u32) = word_of_nat (Suc p)"
      by (auto dest: serials.alloc_n_range)
    have "Suc p < 2 ^ 32" using p(1) by (simp add: serial_period_def)
    from unat_of_small [OF this] have "unat (0 :: u32) = Suc p" by (simp only: p(2))
    then show False by simp
  qed
  show "distinct (alloc_n bump (2 ^ 32 - 1) c)"
    by (rule serials.alloc_n_distinct) (simp add: serial_period_def)
qed

end
