(* ===== verification/Demo_Codec.thy ===== *)
theory Demo_Codec
  imports Frame_Facts
begin

text \<open>
  The smallest codec the laws describe, for evaluating the model on concrete messages: a string
  is a length byte and its characters, a number four bytes, a header array its length as a
  \<open>u32\<close> and its elements, each with the field code and a type tag.
\<close>

definition demo_str :: "string \<Rightarrow> bytes" where
  "demo_str s = word_of_nat (length s) # map of_char s"

fun demo_take_str :: "bytes \<Rightarrow> (string \<times> bytes) option" where
  "demo_take_str [] = None"
| "demo_take_str (n # r) = Some (map (\<lambda>b. char_of (unat b)) (take (unat n) r), drop (unat n) r)"

fun demo_elem :: "endian \<Rightarrow> byte \<times> header_elem \<Rightarrow> bytes" where
  "demo_elem en (c, EValue (VStr s)) = [c, 115] @ demo_str s"
| "demo_elem en (c, EValue (VObjectPath s)) = [c, 111] @ demo_str s"
| "demo_elem en (c, EValue (VSignature s)) = [c, 103] @ demo_str s"
| "demo_elem en (c, EBareSignature s) = [c, 103] @ demo_str s"
| "demo_elem en (c, EValue (VU32 n)) = [c, 117] @ endian_u32 en n"
| "demo_elem en (c, EValue (VOther s)) = []"

fun demo_elems :: "bytes \<Rightarrow> endian \<Rightarrow> bytes \<Rightarrow> (byte \<times> zvalue) list" where
  "demo_elems [] en bs = []"
| "demo_elems (b # k) en (c # t # r) =
     (if t = 117 then (c, VU32 (read_u32 en (take 4 r))) # demo_elems k en (drop 4 r)
      else case demo_take_str r of
        None \<Rightarrow> []
      | Some (s, r') \<Rightarrow>
          (c, if t = 115 then VStr s else if t = 111 then VObjectPath s else VSignature s)
          # demo_elems k en r')"
| "demo_elems (b # k) en _ = []"

fun demo_arg :: "body_arg \<Rightarrow> bytes" where
  "demo_arg (AStr s) = demo_str s"
| "demo_arg (AI32 n) = u32_to_le n"
| "demo_arg (AU32 n) = u32_to_le n"
| "demo_arg (ABool b) = [if b then 1 else 0]"
| "demo_arg _ = []"

fun demo_arg_sig :: "body_arg \<Rightarrow> string" where
  "demo_arg_sig (AStr s) = ''s''"
| "demo_arg_sig (AObjectPath s) = ''o''"
| "demo_arg_sig (ABytes b) = ''ay''"
| "demo_arg_sig (ABool b) = ''b''"
| "demo_arg_sig (AI32 n) = ''i''"
| "demo_arg_sig (AU32 n) = ''u''"
| "demo_arg_sig (AU64 n) = ''t''"
| "demo_arg_sig (AF64 n) = ''d''"
| "demo_arg_sig (AStrPairs ps) = ''a(ss)''"
| "demo_arg_sig (AChunks cs) = ''a(si)''"

fun demo_args :: "string \<Rightarrow> bytes \<Rightarrow> body_arg list option" where
  "demo_args [] bs = Some []"
| "demo_args (c # sig) bs =
     (if c = CHR ''s''
      then case demo_take_str bs of
             None \<Rightarrow> None
           | Some (s, r) \<Rightarrow> map_option ((#) (AStr s)) (demo_args sig r)
      else if c = CHR ''i'' then map_option ((#) (AI32 (u32_of_le (take 4 bs)))) (demo_args sig (drop 4 bs))
      else if c = CHR ''u'' then map_option ((#) (AU32 (u32_of_le (take 4 bs)))) (demo_args sig (drop 4 bs))
      else None)"

definition demo_zv :: zvariant where
  "demo_zv =
     \<lparr>zv_de_fields = (\<lambda>en bs. if length bs < 4 then Inl ''short''
                              else Inr (demo_elems bs en (drop 4 bs))),
      zv_ser_fields = (\<lambda>en els. let bs = concat (map (demo_elem en) els) in
                              endian_u32 en (word_of_nat (length bs)) @ bs),
      zv_object_path_ok = (\<lambda>p. p \<noteq> [] \<and> hd p = CHR ''/''),
      zv_to_string = (\<lambda>v. case v of VStr s \<Rightarrow> Some s | _ \<Rightarrow> None),
      zv_to_u32 = (\<lambda>v. case v of VU32 n \<Rightarrow> Some n | _ \<Rightarrow> None),
      zv_no_parens = (\<lambda>s. s),
      zv_de_body = (\<lambda>en sig bs. demo_args sig bs),
      zv_ser_arg = (\<lambda>pos v. demo_arg v),
      zv_arg_signature = demo_arg_sig\<rparr>"

definition demo_hello :: frame where
  "demo_hello = fb_build (with_serial 7 (fb_method_call ''/a'' ''b.c'' ''Hello''))"

lemma demo_zv_simps: "zv_de_fields demo_zv = (\<lambda>en bs. if length bs < 4 then Inl ''short''
                              else Inr (demo_elems bs en (drop 4 bs)))"
      "zv_ser_fields demo_zv = (\<lambda>en els. let bs = concat (map (demo_elem en) els) in
                              endian_u32 en (word_of_nat (length bs)) @ bs)"
   "zv_object_path_ok demo_zv = (\<lambda>p. p \<noteq> [] \<and> hd p = CHR ''/'')"
   "zv_to_string demo_zv = (\<lambda>v. case v of VStr s \<Rightarrow> Some s | _ \<Rightarrow> None)"
   "zv_to_u32 demo_zv = (\<lambda>v. case v of VU32 n \<Rightarrow> Some n | _ \<Rightarrow> None)"
   "zv_no_parens demo_zv = (\<lambda>s. s)"
   "zv_de_body demo_zv = (\<lambda>en sig bs. demo_args sig bs)"
   "zv_ser_arg demo_zv = (\<lambda>pos v. demo_arg v)"
   "zv_arg_signature demo_zv = demo_arg_sig"
  by (simp_all add: demo_zv_def)
lemma demo_hello_elems: "headers_serialize demo_zv (f_headers demo_hello) = 
 [(1, EValue (VObjectPath ''/a'')), (2, EValue (VStr ''b.c'')), (3, EValue (VStr ''Hello''))]"
  by (simp add: demo_hello_def fb_method_call_def fb_new_def with_serial_def fb_build_def headers_default_def headers_serialize_def opt_elem_def demo_zv_simps)
lemma demo_hello_fields: "zv_ser_fields demo_zv Little [(1, EValue (VObjectPath ''/a'')), (2, EValue (VStr ''b.c'')), (3, EValue (VStr ''Hello''))] = 
 [19,0,0,0,1,111,2,47,97, 2,115,3,98,46,99, 3,115,5,72,101,108,108,111]"
  by (simp add: demo_zv_simps endian_u32_def demo_str_def u32_to_le_def Let_def)
lemma demo_hello_fields_law: "zv_fields_law demo_zv Little (headers_serialize demo_zv (f_headers demo_hello))"
  unfolding zv_fields_law_def demo_hello_elems demo_hello_fields Let_def
  by (simp add: demo_zv_simps read_u32_def char_of_def bit_0)
lemma demo_hello_values_law: "zv_values_law demo_zv (f_headers demo_hello)"
  by (simp add: zv_values_law_def demo_zv_simps demo_hello_def fb_method_call_def fb_new_def with_serial_def fb_build_def headers_default_def)
lemma demo_hello_simps: "f_endian demo_hello = Little" "f_kind demo_hello = MethodCall" "f_flags demo_hello = 0" "f_serial demo_hello = 7" "f_body demo_hello = []"
  by (simp_all add: demo_hello_def fb_method_call_def fb_new_def with_serial_def fb_build_def headers_default_def)
lemma demo_hello_encoded: "encode_frame demo_zv demo_hello = [0x6c, 1, 0, 1, 0,0,0,0, 7,0,0,0, 19,0,0,0,1,111,2,47,97, 2,115,3,98,46,99, 3,115,5,72,101,108,108,111,0,0,0,0,0]"
  by (simp add: encode_frame_def demo_hello_simps demo_hello_elems demo_hello_fields pad8.simps endian_u32_def u32_to_le_def endian_byte_def)

section \<open>The properties of \<open>Frame_Facts\<close> on a concrete message\<close>

theorem bytes_needed_decided_witness:
  "bytes_needed (encode_frame demo_zv demo_hello @ [1, 2]) =
     bytes_needed (encode_frame demo_zv demo_hello)"
  using bytes_needed_decided [of "encode_frame demo_zv demo_hello" "[1, 2]"]
  by (simp add: demo_hello_encoded FIXED_HEADER_LEN_def)

lemma demo_hello_needed: "bytes_needed (encode_frame demo_zv demo_hello @ rest) = Inr (Some 40)"
  by (simp add: demo_hello_encoded bytes_needed_eq parse_endian_def frame_total_def header_end_def
      body_length_def slice_def read_u32_def up8_def MAX_MESSAGE_SIZE_def)

lemma demo_hello_parsed: "parse_frame demo_zv (encode_frame demo_zv demo_hello @ rest) = Inr demo_hello"
  by (rule encode_frame_parsed)
    (simp_all add: demo_hello_fields_law demo_hello_values_law demo_hello_simps)

theorem parse_frame_consumes_witness:
  "parse_frame demo_zv (take 40 (encode_frame demo_zv demo_hello @ [1, 2])) = Inr demo_hello"
  using parse_frame_consumes [OF demo_hello_parsed demo_hello_needed] by blast

theorem parse_encode_frame_witness:
  "parse_frame demo_zv (encode_frame demo_zv demo_hello @ [1, 2]) = Inr demo_hello \<and>
   bytes_needed (encode_frame demo_zv demo_hello @ [1, 2]) = Inr (Some 40)"
  using parse_encode_frame [of demo_zv demo_hello "[1, 2]"]
    demo_hello_fields_law demo_hello_values_law
  by (simp add: demo_hello_simps)
    (simp add: demo_hello_encoded MAX_MESSAGE_SIZE_def)

end
