(* ===== verification/Broker_State.thy ===== *)
theory Broker_State
  imports Sasl Demo_Codec
begin

text \<open>
  The per-connection byte-stream machine of \<open>crates/emskin-dbus/src/broker/state.rs\<close>:
  \<open>connection_state\<close> with \<open>feed_from_client\<close> and \<open>feed_from_bus\<close>. A step returns the
  \<open>Result\<close> together with the state the call leaves behind, since a failing call has already
  extended its buffers.

  \<open>session st S out frs\<close> holds when a fresh connection was fed chunks that add up to the
  stream \<open>S\<close>, wrote \<open>out\<close> in total and reported the frames \<open>frs\<close>. The lemmas relate it to the
  abstract reader \<open>split_frames\<close>, so that nothing the connection does depends on how the
  stream was cut.
\<close>

section \<open>The code\<close>

datatype phase = Auth | Messages

record feed_outcome =
  outbound :: bytes
  frame_ranges :: "(nat \<times> nat) list"

datatype broker_error = SaslErr sasl_error | FrameErr frame_error

record connection_state =
  client_phase :: phase
  auth_accumulator :: bytes
  msg_buf :: bytes

definition conn_new :: connection_state where
  "conn_new = \<lparr>client_phase = Auth, auth_accumulator = [], msg_buf = []\<rparr>"

text \<open>The \<open>while !self.msg_buf.is_empty()\<close> loop.\<close>

function split_loop :: "feed_outcome \<Rightarrow> bytes \<Rightarrow> (frame_error + feed_outcome) \<times> bytes" where
  "split_loop out buf =
     (if buf = [] then (Inr out, buf)
      else case bytes_needed buf of
        Inl e \<Rightarrow> (Inl e, buf)
      | Inr None \<Rightarrow> (Inr out, buf)
      | Inr (Some needed) \<Rightarrow>
          if length buf < needed then (Inr out, buf)
          else
            (let offset = length (outbound out) in
             split_loop
               (out\<lparr>outbound := outbound out @ take needed buf,
                    frame_ranges := frame_ranges out @ [(offset, offset + needed)]\<rparr>)
               (drop needed buf)))"
  by pat_completeness auto
termination
  by (relation "measure (\<lambda>(out, buf). length buf)") (auto dest: bytes_needed_ge)

declare split_loop.simps [simp del]

text \<open>Appending the rest of the chunk to the message buffer and splitting it.\<close>

definition feed_messages ::
  "connection_state \<Rightarrow> feed_outcome \<Rightarrow> bytes \<Rightarrow> (broker_error + feed_outcome) \<times> connection_state" where
  "feed_messages st out rest =
     (case split_loop out (msg_buf st @ rest) of
        (r, buf) \<Rightarrow> (map_sum FrameErr id r, st\<lparr>msg_buf := buf\<rparr>))"

definition feed_from_client ::
  "connection_state \<Rightarrow> bytes \<Rightarrow> (broker_error + feed_outcome) \<times> connection_state" where
  "feed_from_client st chunk =
     (let out = \<lparr>outbound = [], frame_ranges = []\<rparr> in
      case client_phase st of
        Auth \<Rightarrow>
          (let original_auth_len = length (auth_accumulator st);
               acc = auth_accumulator st @ chunk;
               st1 = st\<lparr>auth_accumulator := acc\<rparr> in
           case find_begin_end acc of
             Inl e \<Rightarrow> (Inl (SaslErr e), st1)
           | Inr None \<Rightarrow> (Inr (out\<lparr>outbound := chunk\<rparr>), st1)
           | Inr (Some e) \<Rightarrow>
               (let auth_bytes_in_chunk = e - original_auth_len in
                feed_messages (st1\<lparr>auth_accumulator := [], client_phase := Messages\<rparr>)
                  (out\<lparr>outbound := take auth_bytes_in_chunk chunk\<rparr>)
                  (drop auth_bytes_in_chunk chunk)))
      | Messages \<Rightarrow> feed_messages st out chunk)"

definition feed_from_bus ::
  "connection_state \<Rightarrow> bytes \<Rightarrow> (broker_error + feed_outcome) \<times> connection_state" where
  "feed_from_bus st chunk = (Inr \<lparr>outbound = chunk, frame_ranges = []\<rparr>, st)"

definition is_authenticated :: "connection_state \<Rightarrow> bool" where
  "is_authenticated st = (client_phase st = Messages)"

section \<open>The splitting loop is the abstract reader\<close>

text \<open>Consecutive ranges of the given lengths, starting at \<open>o\<close>.\<close>

fun ranges_from :: "nat \<Rightarrow> nat list \<Rightarrow> (nat \<times> nat) list" where
  "ranges_from off [] = []"
| "ranges_from off (n # ns) = (off, off + n) # ranges_from (off + n) ns"

lemma split_loop_spec:
  "split_frames bytes_needed buf = (fs, r, e) \<Longrightarrow>
     split_loop out buf =
       ((case e of
           Some err \<Rightarrow> Inl err
         | None \<Rightarrow> Inr (out\<lparr>outbound := outbound out @ concat fs,
                      frame_ranges := frame_ranges out
                        @ ranges_from (length (outbound out)) (map length fs)\<rparr>)), r)"
proof (induction out buf arbitrary: fs rule: split_loop.induct)
  case (1 out buf)
  show ?case
  proof (cases "\<exists>n. bytes_needed buf = Inr (Some n) \<and> n \<le> length buf")
    case True
    then obtain n where n: "bytes_needed buf = Inr (Some n)" "n \<le> length buf" by blast
    have ne: "buf \<noteq> []" using n bytes_needed_ge [OF n(1)] by auto
    obtain fs' where tail: "split_frames bytes_needed (drop n buf) = (fs', r, e)"
      and fs: "fs = take n buf # fs'"
      using "1.prems" by (auto simp: dbus_framing.split_step [OF n] split: prod.splits)
    show ?thesis
      using "1.IH" [OF ne n(1) refl _ refl tail] n ne fs
      by (subst split_loop.simps) (simp add: Let_def min_absorb2 split: option.split)
  next
    case False
    then have stop: "fs = [] \<and> r = buf \<and> (e = None \<longleftrightarrow> \<not> (\<exists>x. bytes_needed buf = Inl x)) \<and>
        (\<forall>x. e = Some x \<longrightarrow> bytes_needed buf = Inl x)"
      using "1.prems"
      by (subst (asm) split_frames.simps) (auto split: sum.splits option.splits if_splits prod.splits)
    show ?thesis
    proof (cases "buf = []")
      case True
      then show ?thesis using stop
        by (subst split_loop.simps) (auto simp: bytes_needed_eq split: option.splits)
    next
      case ne: False
      then show ?thesis using stop False
        by (subst split_loop.simps) (auto split: option.split sum.split)
    qed
  qed
qed

lemma ranges_tile:
  "map (\<lambda>(a, b). slice a b (pre @ concat fs @ post)) (ranges_from (length pre) (map length fs)) = fs"
proof (induction fs arbitrary: pre)
  case Nil
  then show ?case by simp
next
  case (Cons f fs)
  then show ?case
    using Cons.IH [of "pre @ f"] by (simp add: slice_append_exact)
qed

lemma map_length_slice_ranges:
  "b = ranges_from off ns \<Longrightarrow> length b = length ns"
  by (induction ns arbitrary: off b) auto

section \<open>Sessions\<close>

definition frames_of :: "feed_outcome \<Rightarrow> bytes list" where
  "frames_of o1 = map (\<lambda>(a, b). slice a b (outbound o1)) (frame_ranges o1)"

inductive session :: "connection_state \<Rightarrow> bytes \<Rightarrow> bytes \<Rightarrow> bytes list \<Rightarrow> bool" where
  session_new: "session conn_new [] [] []"
| session_feed:
    "session st S out frs \<Longrightarrow> feed_from_client st chunk = (Inr o1, st') \<Longrightarrow>
       session st' (S @ chunk) (out @ outbound o1) (frs @ frames_of o1)"

inductive_cases session_newE: "session st [] out frs"

text \<open>
  What a session is, in terms of the stream only: while the handshake is incomplete everything
  is forwarded and nothing is a frame; afterwards the forwarded bytes are the handshake and the
  complete messages behind it, and the message buffer holds the incomplete rest.
\<close>

definition session_spec :: "connection_state \<Rightarrow> bytes \<Rightarrow> bytes \<Rightarrow> bytes list \<Rightarrow> bool" where
  "session_spec st S out frs \<longleftrightarrow>
     (case client_phase st of
        Auth \<Rightarrow> (S = [] \<or> find_begin_end S = Inr None) \<and> auth_accumulator st = S \<and> msg_buf st = [] \<and>
                out = S \<and> frs = []
      | Messages \<Rightarrow>
          auth_accumulator st = [] \<and>
          (\<exists>e. find_begin_end S = Inr (Some e) \<and>
               split_frames bytes_needed (drop e S) = (frs, msg_buf st, None) \<and>
               out = take e S @ concat frs))"

lemma find_begin_end_Nil [simp]: "find_begin_end [] = Inr None"
  by (simp add: find_begin_end_def)

lemma feed_messages_ok:
  assumes "feed_messages st \<lparr>outbound = pre, frame_ranges = []\<rparr> rest = (Inr o1, st')"
  shows "\<exists>fs r. split_frames bytes_needed (msg_buf st @ rest) = (fs, r, None) \<and>
    outbound o1 = pre @ concat fs \<and> frames_of o1 = fs \<and> st' = st\<lparr>msg_buf := r\<rparr>"
proof -
  obtain fs r e where s: "split_frames bytes_needed (msg_buf st @ rest) = (fs, r, e)"
    by (cases "split_frames bytes_needed (msg_buf st @ rest)")
  have "e = None" and o1: "o1 = \<lparr>outbound = pre @ concat fs,
      frame_ranges = ranges_from (length pre) (map length fs)\<rparr>" and "st' = st\<lparr>msg_buf := r\<rparr>"
    using assms by (auto simp: feed_messages_def split_loop_spec [OF s] split: option.splits)
  then show ?thesis
    using s ranges_tile [of pre fs "[]"] by (simp add: frames_of_def)
qed

lemma begin_end_behind:
  assumes "find_begin_end S = Inr None" and "find_begin_end (S @ chunk) = Inr (Some e)"
  shows "length S \<le> e" and "e \<le> length (S @ chunk)"
proof -
  show "e \<le> length (S @ chunk)" using find_begin_end_bound [OF assms(2)] .
  obtain ls b rest where h: "handshake_ok ls b" "S @ chunk = handshake ls b @ rest"
      "e = length (handshake ls b)"
    using assms(2) by (auto simp: find_begin_end_iff)
  show "length S \<le> e"
  proof (rule ccontr)
    assume "\<not> length S \<le> e"
    then have "S = handshake ls b @ drop e S"
      using h by (metis append_eq_append_conv_if append_take_drop_id nat_le_linear)
    then have "find_begin_end S = Inr (Some e)"
      using h by (auto simp: find_begin_end_iff)
    then show False using assms(1) by simp
  qed
qed

lemma session_feed_spec:
  assumes inv: "session_spec st S out frs" and feed: "feed_from_client st chunk = (Inr o1, st')"
  shows "session_spec st' (S @ chunk) (out @ outbound o1) (frs @ frames_of o1)"
proof (cases "client_phase st")
  case Auth
  then have acc: "find_begin_end S = Inr None" "auth_accumulator st = S" "msg_buf st = []"
    "out = S" "frs = []"
    using inv by (auto simp: session_spec_def)
  show ?thesis
  proof (cases "find_begin_end (S @ chunk)")
    case (Inl x)
    then show ?thesis using feed Auth acc by (simp add: feed_from_client_def)
  next
    case (Inr r)
    show ?thesis
    proof (cases r)
      case None
      then show ?thesis
        using feed Auth acc Inr
        by (auto simp: feed_from_client_def session_spec_def frames_of_def)
    next
      case (Some e)
      note f = Inr [unfolded Some]
      have le: "length S \<le> e" "e \<le> length S + length chunk"
        using begin_end_behind [OF acc(1) f] by simp_all
      let ?st1 = "st\<lparr>auth_accumulator := [], client_phase := Messages\<rparr>"
      have "feed_messages ?st1 \<lparr>outbound = take (e - length S) chunk, frame_ranges = []\<rparr>
          (drop (e - length S) chunk) = (Inr o1, st')"
        using feed Auth acc f by (simp add: feed_from_client_def Let_def)
      from feed_messages_ok [OF this] show ?thesis
        using acc f le by (auto simp: session_spec_def)
    qed
  qed
next
  case Messages
  then obtain e where e: "auth_accumulator st = []" "find_begin_end S = Inr (Some e)"
      "split_frames bytes_needed (drop e S) = (frs, msg_buf st, None)" "out = take e S @ concat frs"
    using inv by (auto simp: session_spec_def)
  have le: "e \<le> length S" using find_begin_end_bound [OF e(2)] .
  have "feed_messages st \<lparr>outbound = [], frame_ranges = []\<rparr> chunk = (Inr o1, st')"
    using feed Messages by (simp add: feed_from_client_def)
  from feed_messages_ok [OF this] obtain fs r where
    s: "split_frames bytes_needed (msg_buf st @ chunk) = (fs, r, None)"
      "outbound o1 = concat fs" "frames_of o1 = fs" "st' = st\<lparr>msg_buf := r\<rparr>" by auto
  have "split_frames bytes_needed (drop e (S @ chunk)) = (frs @ fs, r, None)"
    using dbus_framing.split_append [OF e(3) s(1)] le by simp
  then show ?thesis
    using Messages e s le find_begin_end_append [OF e(2)] by (auto simp: session_spec_def)
qed

lemma session_sound: "session st S out frs \<Longrightarrow> session_spec st S out frs"
proof (induction rule: session.induct)
  case session_new
  then show ?case by (simp add: session_spec_def conn_new_def)
next
  case (session_feed st S out frs chunk o1 st')
  then show ?case by (blast intro: session_feed_spec)
qed

lemma session_conserves: "session st S out frs \<Longrightarrow> out @ msg_buf st = S"
  by (drule session_sound)
    (auto simp: session_spec_def split: phase.splits dest: split_frames_conserve)

section \<open>Properties\<close>

text \<open>
  C7. Chunk invariance: two sessions over the same byte stream, however it was cut into reads,
  wrote the same bytes to the bus, reported the same frames and are in the same state.
\<close>

theorem session_chunk_invariant:
  assumes "session st S out frs" and "session st' S out' frs'"
  shows "out = out' \<and> frs = frs' \<and> st = st'"
  using session_sound [OF assms(1)] session_sound [OF assms(2)]
  by (cases st; cases st') (auto simp: session_spec_def split: phase.splits)

text \<open>
  Transparency: the bytes written to the bus followed by the bytes still buffered are the
  bytes the client sent, in order; before the handshake is complete nothing is held back; and
  every frame reported is as long as its own header says.
\<close>

theorem session_transparent:
  assumes "session st S out frs"
  shows "out @ msg_buf st = S \<and> (\<not> is_authenticated st \<longrightarrow> out = S) \<and>
    (\<forall>f \<in> set frs. bytes_needed f = Inr (Some (length f))) \<and> (\<exists>hs. out = hs @ concat frs)"
  using session_conserves [OF assms] session_sound [OF assms]
  by (cases "client_phase st")
    (auto simp: session_spec_def is_authenticated_def dest: dbus_framing.split_exact)

section \<open>A concrete session\<close>

definition demo_handshake :: bytes where
  "demo_handshake = [0] @ BEGIN @ SENTINEL"

definition demo_message :: bytes where
  "demo_message = encode_frame demo_zv demo_hello"

lemma demo_handshake_end: "find_begin_end (demo_handshake @ rest) = Inr (Some 8)"
  unfolding find_begin_end_iff demo_handshake_def
  by (intro exI [of _ "[]"] exI [of _ BEGIN] exI [of _ rest])
    (simp add: handshake_def handshake_ok_def crlf_def valid_line_def is_begin_line_def
      is_ascii_uppercase_def BEGIN_def SENTINEL_def)

lemma demo_message_split: "split_frames bytes_needed demo_message = ([demo_message], [], None)"
proof -
  have "length demo_message = 40"
    by (simp add: demo_message_def demo_hello_encoded)
  moreover have "bytes_needed demo_message = Inr (Some 40)"
    using demo_hello_needed [of "[]"] by (simp add: demo_message_def)
  moreover have "split_frames bytes_needed [] = ([], [], None)"
    by (rule dbus_framing.split_stop) (simp add: bytes_needed_eq)
  ultimately show ?thesis by (simp add: dbus_framing.split_step)
qed

lemma demo_lengths: "length demo_handshake = 8" "length demo_message = 40"
  by (simp_all add: demo_handshake_def BEGIN_def SENTINEL_def demo_message_def demo_hello_encoded)

definition demo_conn :: connection_state where
  "demo_conn = \<lparr>client_phase = Messages, auth_accumulator = [], msg_buf = []\<rparr>"

lemma demo_feed_all:
  "feed_from_client conn_new (demo_handshake @ demo_message) =
     (Inr \<lparr>outbound = demo_handshake @ demo_message, frame_ranges = [(8, 48)]\<rparr>, demo_conn)"
  using split_loop_spec [OF demo_message_split]
  by (simp add: feed_from_client_def conn_new_def demo_handshake_end feed_messages_def demo_lengths
      demo_conn_def Let_def)

lemma demo_feed_parts:
  "feed_from_client conn_new demo_handshake =
     (Inr \<lparr>outbound = demo_handshake, frame_ranges = []\<rparr>, demo_conn)"
  "feed_from_client demo_conn demo_message =
     (Inr \<lparr>outbound = demo_message, frame_ranges = [(0, 40)]\<rparr>, demo_conn)"
  using split_loop_spec [OF demo_message_split] demo_handshake_end [of "[]"]
  by (simp_all add: feed_from_client_def conn_new_def feed_messages_def demo_lengths
      demo_conn_def Let_def split_loop.simps [of _ "[]"])

lemma demo_session_all:
  "session demo_conn (demo_handshake @ demo_message) (demo_handshake @ demo_message) [demo_message]"
  using session_feed [OF session_new demo_feed_all]
  by (simp add: frames_of_def slice_def demo_lengths)

lemma demo_session_parts:
  "session demo_conn (demo_handshake @ demo_message) (demo_handshake @ demo_message) [demo_message]"
  using session_feed [OF session_feed [OF session_new demo_feed_parts(1)] demo_feed_parts(2)]
  by (simp add: frames_of_def slice_def demo_lengths)

theorem session_chunk_invariant_witness:
  "session demo_conn (demo_handshake @ demo_message) (demo_handshake @ demo_message) [demo_message] \<and>
   demo_conn = demo_conn"
  using session_chunk_invariant [OF demo_session_all demo_session_parts] demo_session_all by simp

theorem session_transparent_witness:
  "bytes_needed demo_message = Inr (Some (length demo_message))"
  using session_transparent [OF demo_session_all] by simp

end
