(* ===== verification/Fcitx.thy ===== *)
theory Fcitx
  imports Demo_Codec
begin

text \<open>
  The fcitx5 frontend of \<open>crates/emskin-dbus/src/fcitx.rs\<close>: which method calls are recognised
  and how their arguments are read (\<open>classify\<close>), the allocator of input-context paths, and the
  synthesised replies (\<open>build_reply\<close>). The lemmas give the exact recognition table, the
  uniqueness of the paths handed out, and that a reply read back by the client answers its
  request.
\<close>

section \<open>Names\<close>

definition INPUT_METHOD_INTERFACE :: string where
  "INPUT_METHOD_INTERFACE = ''org.fcitx.Fcitx.InputMethod1''"

definition INPUT_CONTEXT_INTERFACE :: string where
  "INPUT_CONTEXT_INTERFACE = ''org.fcitx.Fcitx.InputContext1''"

definition INPUT_CONTEXT_INTERFACE_FCITX4 :: string where
  "INPUT_CONTEXT_INTERFACE_FCITX4 = ''org.fcitx.Fcitx.InputContext''"

definition FCITX5_WELL_KNOWN_NAMES :: "string list" where
  "FCITX5_WELL_KNOWN_NAMES =
     [''org.fcitx.Fcitx5'', ''org.freedesktop.portal.Fcitx'', ''org.fcitx.Fcitx'']"

definition INPUT_CONTEXT_PATH_PREFIX :: string where
  "INPUT_CONTEXT_PATH_PREFIX = ''/org/freedesktop/portal/inputcontext/''"

definition is_fcitx_interface :: "string \<Rightarrow> bool" where
  "is_fcitx_interface iface =
     (iface \<in> {INPUT_METHOD_INTERFACE, INPUT_CONTEXT_INTERFACE, INPUT_CONTEXT_INTERFACE_FCITX4})"

definition is_fcitx_well_known :: "string \<Rightarrow> bool" where
  "is_fcitx_well_known n = (n \<in> set FCITX5_WELL_KNOWN_NAMES)"

section \<open>Classification\<close>

datatype fcitx5_method_call =
    CreateInputContext "(string \<times> string) list"
  | FocusIn string
  | FocusOut string
  | ResetIC string
  | DestroyIC string
  | SetCapability string u64
  | SetCursorRect string i32 i32 i32 i32
  | SetCursorRectV2 string i32 i32 i32 i32 f64
  | SetCursorLocation string i32 i32
  | SetSurroundingText string string u32 u32
  | SetSurroundingTextPosition string u32 u32

text \<open>\<open>frame.decode_body()?\<close> and \<open>path?\<close> before the variant is built.\<close>

definition decoded ::
  "'t option \<Rightarrow> string option \<Rightarrow> (string \<Rightarrow> 't \<Rightarrow> fcitx5_method_call) \<Rightarrow> fcitx5_method_call option" where
  "decoded body path mk = Option.bind body (\<lambda>args. Option.bind path (\<lambda>p. Some (mk p args)))"

definition classify :: "zvariant \<Rightarrow> frame \<Rightarrow> fcitx5_method_call option" where
  "classify zv f =
     (let h = f_headers f in
      Option.bind (h_interface h) (\<lambda>iface.
      Option.bind (h_member h) (\<lambda>member.
      let sig = (case h_signature h of None \<Rightarrow> [] | Some s \<Rightarrow> s);
          path = h_path h;
          key = (iface, member, sig) in
      if key = (INPUT_METHOD_INTERFACE, ''CreateInputContext'', ''a(ss)'') then
        Option.bind (decode_body zv as_str_pairs f) (\<lambda>hints. Some (CreateInputContext hints))
      else if key = (INPUT_CONTEXT_INTERFACE, ''FocusIn'', '''') then map_option FocusIn path
      else if key = (INPUT_CONTEXT_INTERFACE, ''FocusOut'', '''') then map_option FocusOut path
      else if key = (INPUT_CONTEXT_INTERFACE, ''Reset'', '''') then map_option ResetIC path
      else if key = (INPUT_CONTEXT_INTERFACE, ''DestroyIC'', '''') then map_option DestroyIC path
      else if key = (INPUT_CONTEXT_INTERFACE, ''SetCapability'', ''t'') then
        decoded (decode_body zv as_u64 f) path SetCapability
      else if key = (INPUT_CONTEXT_INTERFACE, ''SetCursorRect'', ''iiii'') then
        decoded (decode_body zv as_i32x4 f) path (\<lambda>p (x, y, w, h). SetCursorRect p x y w h)
      else if key = (INPUT_CONTEXT_INTERFACE, ''SetCursorRectV2'', ''iiiid'') then
        decoded (decode_body zv as_i32x4_f64 f) path
          (\<lambda>p (x, y, w, h, scale). SetCursorRectV2 p x y w h scale)
      else if key = (INPUT_CONTEXT_INTERFACE_FCITX4, ''SetCursorLocation'', ''ii'') then
        decoded (decode_body zv as_i32x2 f) path (\<lambda>p (x, y). SetCursorLocation p x y)
      else if key = (INPUT_CONTEXT_INTERFACE, ''SetSurroundingText'', ''suu'') then
        decoded (decode_body zv as_str_u32x2 f) path
          (\<lambda>p (t, cursor, anchor). SetSurroundingText p t cursor anchor)
      else if key = (INPUT_CONTEXT_INTERFACE, ''SetSurroundingTextPosition'', ''uu'') then
        decoded (decode_body zv as_u32x2 f) path
          (\<lambda>p (cursor, anchor). SetSurroundingTextPosition p cursor anchor)
      else None)))"

section \<open>Input-context paths\<close>

record ic_allocator =
  next_ic_id :: u64

definition ic_alloc_new :: ic_allocator where
  "ic_alloc_new = \<lparr>next_ic_id = 1\<rparr>"

definition ic_path :: "nat \<Rightarrow> string" where
  "ic_path n = INPUT_CONTEXT_PATH_PREFIX @ decimal n"

definition ic_allocate :: "ic_allocator \<Rightarrow> (string \<times> bytes) \<times> ic_allocator" where
  "ic_allocate a =
     (let i = next_ic_id a;
          path = INPUT_CONTEXT_PATH_PREFIX @ decimal (unat i);
          uuid = u64_to_le i @ replicate 8 0 in
      ((path, uuid), a\<lparr>next_ic_id := i + 1\<rparr>))"

section \<open>Replies\<close>

text \<open>
  \<open>build_reply\<close> returns the bytes, the allocator and the serial counter; \<open>None\<close> is the panic
  of \<open>ObjectPath::try_from(..).expect(..)\<close>.
\<close>

definition build_reply ::
  "zvariant \<Rightarrow> frame \<Rightarrow> fcitx5_method_call \<Rightarrow> ic_allocator \<Rightarrow> serial_counter \<Rightarrow>
     (bytes \<times> ic_allocator \<times> serial_counter) option" where
  "build_reply zv request method alloc ctr =
     (let (serial, ctr') = bump ctr in
      case method of
        CreateInputContext hints \<Rightarrow>
          (let ((path, uuid), alloc') = ic_allocate alloc in
           if \<not> zv_object_path_ok zv path then None
           else
             (let f = fb_build (bb_finish (bb_arg zv (ABytes uuid) (bb_arg zv (AObjectPath path)
                        (body_args (with_serial serial (fb_method_return request)))))) in
              Some (encode_frame zv f, alloc', ctr')))
      | _ \<Rightarrow>
          Some (encode_frame zv (fb_build (with_serial serial (fb_method_return request))),
                alloc, ctr'))"

section \<open>The recognition table\<close>

text \<open>Interface, member and signature of the call a variant stands for, and its object path.\<close>

fun method_key :: "fcitx5_method_call \<Rightarrow> string \<times> string \<times> string" where
  "method_key (CreateInputContext hints) = (INPUT_METHOD_INTERFACE, ''CreateInputContext'', ''a(ss)'')"
| "method_key (FocusIn p) = (INPUT_CONTEXT_INTERFACE, ''FocusIn'', [])"
| "method_key (FocusOut p) = (INPUT_CONTEXT_INTERFACE, ''FocusOut'', [])"
| "method_key (ResetIC p) = (INPUT_CONTEXT_INTERFACE, ''Reset'', [])"
| "method_key (DestroyIC p) = (INPUT_CONTEXT_INTERFACE, ''DestroyIC'', [])"
| "method_key (SetCapability p c) = (INPUT_CONTEXT_INTERFACE, ''SetCapability'', ''t'')"
| "method_key (SetCursorRect p x y w h) = (INPUT_CONTEXT_INTERFACE, ''SetCursorRect'', ''iiii'')"
| "method_key (SetCursorRectV2 p x y w h s) =
     (INPUT_CONTEXT_INTERFACE, ''SetCursorRectV2'', ''iiiid'')"
| "method_key (SetCursorLocation p x y) =
     (INPUT_CONTEXT_INTERFACE_FCITX4, ''SetCursorLocation'', ''ii'')"
| "method_key (SetSurroundingText p t c a) = (INPUT_CONTEXT_INTERFACE, ''SetSurroundingText'', ''suu'')"
| "method_key (SetSurroundingTextPosition p c a) =
     (INPUT_CONTEXT_INTERFACE, ''SetSurroundingTextPosition'', ''uu'')"

fun method_path :: "fcitx5_method_call \<Rightarrow> string option" where
  "method_path (CreateInputContext hints) = None"
| "method_path (FocusIn p) = Some p"
| "method_path (FocusOut p) = Some p"
| "method_path (ResetIC p) = Some p"
| "method_path (DestroyIC p) = Some p"
| "method_path (SetCapability p c) = Some p"
| "method_path (SetCursorRect p x y w h) = Some p"
| "method_path (SetCursorRectV2 p x y w h s) = Some p"
| "method_path (SetCursorLocation p x y) = Some p"
| "method_path (SetSurroundingText p t c a) = Some p"
| "method_path (SetSurroundingTextPosition p c a) = Some p"

fun method_args :: "fcitx5_method_call \<Rightarrow> body_arg list" where
  "method_args (CreateInputContext hints) = [AStrPairs hints]"
| "method_args (SetCapability p c) = [AU64 c]"
| "method_args (SetCursorRect p x y w h) = [AI32 x, AI32 y, AI32 w, AI32 h]"
| "method_args (SetCursorRectV2 p x y w h s) = [AI32 x, AI32 y, AI32 w, AI32 h, AF64 s]"
| "method_args (SetCursorLocation p x y) = [AI32 x, AI32 y]"
| "method_args (SetSurroundingText p t c a) = [AStr t, AU32 c, AU32 a]"
| "method_args (SetSurroundingTextPosition p c a) = [AU32 c, AU32 a]"
| "method_args _ = []"

lemmas fcitx_names =
  INPUT_METHOD_INTERFACE_def INPUT_CONTEXT_INTERFACE_def INPUT_CONTEXT_INTERFACE_FCITX4_def

text \<open>A frame that is the wire form of a call: its headers name it, its body holds its arguments.\<close>

definition frame_calls :: "zvariant \<Rightarrow> frame \<Rightarrow> fcitx5_method_call \<Rightarrow> bool" where
  "frame_calls zv f m \<longleftrightarrow>
     (let h = f_headers f; (iface, member, sig) = method_key m in
      h_interface h = Some iface \<and> h_member h = Some member \<and>
      (if sig = [] then h_signature h = None \<or> h_signature h = Some []
       else h_signature h = Some sig \<and> zv_de_body zv (f_endian f) sig (f_body f) = Some (method_args m)) \<and>
      (method_path m = None \<or> h_path h = method_path m))"

lemmas body_extractors =
  as_string_def as_string3_def as_str_pairs_def as_u64_def as_i32x2_def as_i32x4_def
  as_i32x4_f64_def as_str_u32x2_def as_u32x2_def

lemma classify_calls: "frame_calls zv f m \<Longrightarrow> classify zv f = Some m"
  by (cases m) (auto simp: frame_calls_def classify_def decode_body_def decoded_def body_extractors
      Let_def fcitx_names)

lemma extractor_Some:
  "as_string args = Some s \<longleftrightarrow> args = [AStr s]"
  "as_str_pairs args = Some ps \<longleftrightarrow> args = [AStrPairs ps]"
  "as_u64 args = Some n \<longleftrightarrow> args = [AU64 n]"
  "as_i32x2 args = Some (x, y) \<longleftrightarrow> args = [AI32 x, AI32 y]"
  "as_i32x4 args = Some (x, y, w, h) \<longleftrightarrow> args = [AI32 x, AI32 y, AI32 w, AI32 h]"
  "as_i32x4_f64 args = Some (x, y, w, h, f) \<longleftrightarrow> args = [AI32 x, AI32 y, AI32 w, AI32 h, AF64 f]"
  "as_str_u32x2 args = Some (s, c, a) \<longleftrightarrow> args = [AStr s, AU32 c, AU32 a]"
  "as_u32x2 args = Some (c, a) \<longleftrightarrow> args = [AU32 c, AU32 a]"
  by (auto simp: body_extractors split: list.splits body_arg.splits)

lemma decode_body_Some:
  "h_signature (f_headers f) = Some sig \<Longrightarrow> decode_body zv as_T f = Some v \<longleftrightarrow>
     (\<exists>args. zv_de_body zv (f_endian f) sig (f_body f) = Some args \<and> as_T args = Some v)"
  by (auto simp: decode_body_def bind_eq_Some_conv)

lemma decoded_Some:
  "decoded body path mk = Some m \<longleftrightarrow> (\<exists>args p. body = Some args \<and> path = Some p \<and> m = mk p args)"
  by (auto simp: decoded_def bind_eq_Some_conv)

lemma classify_frame_calls: "classify zv f = Some m \<Longrightarrow> frame_calls zv f m"
  by (auto simp: classify_def Let_def bind_eq_Some_conv decoded_Some decode_body_Some extractor_Some
      frame_calls_def fcitx_names split: if_splits option.splits)

section \<open>Fresh input contexts\<close>

definition ic_allocate_path :: "ic_allocator \<Rightarrow> string \<times> ic_allocator" where
  "ic_allocate_path a = (fst (fst (ic_allocate a)), snd (ic_allocate a))"

definition ic_allocate_uuid :: "ic_allocator \<Rightarrow> bytes \<times> ic_allocator" where
  "ic_allocate_uuid a = (snd (fst (ic_allocate a)), snd (ic_allocate a))"

interpretation ic_paths: id_counter ic_allocate_path "\<lambda>a. unat (next_ic_id a)" ic_path "2 ^ 64"
  by unfold_locales
    (simp_all add: ic_allocate_path_def ic_allocate_def Let_def ic_path_def u64_position
      u64_next_position inj_on_def decimal_inj)

interpretation ic_uuids: id_counter ic_allocate_uuid "\<lambda>a. unat (next_ic_id a)"
  "\<lambda>p. u64_to_le (word_of_nat p) @ replicate 8 0" "2 ^ 64"
proof unfold_locales
  show "inj_on (\<lambda>p. u64_to_le (word_of_nat p) @ replicate 8 0) {..<2 ^ 64}"
    using u64_of_nat_inj by (auto simp: inj_on_def dest!: u64_to_le_inj)
qed (simp_all add: ic_allocate_uuid_def ic_allocate_def Let_def u64_position u64_next_position)

section \<open>Replies read back\<close>

definition reply_headers :: "frame \<Rightarrow> headers" where
  "reply_headers request = headers_default
     \<lparr>h_reply_serial := Some (f_serial request),
      h_destination := h_sender (f_headers request),
      h_sender := h_destination (f_headers request)\<rparr>"

definition reply_frame :: "zvariant \<Rightarrow> frame \<Rightarrow> fcitx5_method_call \<Rightarrow> ic_allocator \<Rightarrow> u32 \<Rightarrow> frame" where
  "reply_frame zv request m alloc serial =
     (case m of
        CreateInputContext hints \<Rightarrow>
          (let path = AObjectPath (fst (fst (ic_allocate alloc)));
               uuid = ABytes (snd (fst (ic_allocate alloc)));
               body1 = zv_ser_arg zv 0 path;
               body = body1 @ zv_ser_arg zv (length body1) uuid;
               sig = zv_arg_signature zv path @ zv_arg_signature zv uuid in
           \<lparr>f_endian = Little, f_kind = MethodReturn, f_flags = 0, f_serial = serial,
            f_headers = (if sig = [] then reply_headers request
                         else (reply_headers request)\<lparr>h_signature := Some sig\<rparr>),
            f_body = body\<rparr>)
      | _ \<Rightarrow>
           \<lparr>f_endian = Little, f_kind = MethodReturn, f_flags = 0, f_serial = serial,
            f_headers = reply_headers request, f_body = []\<rparr>)"

lemma method_return_new:
  "fb_method_return request =
     \<lparr>fb_kind = MethodReturn, fb_serial = 0, fb_flags = 0, fb_headers = reply_headers request,
      fb_body = []\<rparr>"
  by (simp add: fb_method_return_def fill_from_request_def fb_new_def reply_headers_def)

lemma build_reply_eq:
  "build_reply zv request m alloc ctr =
     (case m of
        CreateInputContext hints \<Rightarrow>
          if zv_object_path_ok zv (fst (fst (ic_allocate alloc)))
          then Some (encode_frame zv (reply_frame zv request m alloc (fst (bump ctr))),
                     snd (ic_allocate alloc), snd (bump ctr))
          else None
      | _ \<Rightarrow>
          Some (encode_frame zv (reply_frame zv request m alloc (fst (bump ctr))),
                alloc, snd (bump ctr)))"
  by (cases m)
    (auto simp: build_reply_def reply_frame_def method_return_new with_serial_def body_args_def
      bb_arg_def bb_finish_def fb_build_def Let_def split: prod.split)

lemma bump_nonzero: "fst (bump c) \<noteq> 0"
  by (auto simp: bump_def Let_def)

section \<open>Properties\<close>

text \<open>
  The recognition table is exact: \<open>classify\<close> returns a call precisely for the frames whose
  interface, member and body signature are those of the call, whose body decodes to its
  arguments and which carry an object path where the call needs one.
\<close>

theorem classify_exact: "classify zv f = Some m \<longleftrightarrow> frame_calls zv f m"
  using classify_calls classify_frame_calls by blast

text \<open>
  Input contexts are never confused: the first 2^64 paths handed out by an allocator are
  pairwise distinct, and so are the uuids.
\<close>

theorem ic_allocate_distinct:
  "distinct (alloc_n (\<lambda>a. (fst (fst (ic_allocate a)), snd (ic_allocate a))) (2 ^ 64) a) \<and>
   distinct (alloc_n (\<lambda>a. (snd (fst (ic_allocate a)), snd (ic_allocate a))) (2 ^ 64) a)"
  using ic_paths.alloc_n_distinct [of "2 ^ 64" a] ic_uuids.alloc_n_distinct [of "2 ^ 64" a]
  unfolding ic_allocate_path_def ic_allocate_uuid_def by blast

text \<open>
  A synthesised reply answers its request: read back from the wire it is a method return
  with a non-zero serial, it names the request's serial, it goes to the request's sender, and
  it carries a body only for \<open>CreateInputContext\<close>.
\<close>

theorem build_reply_answers:
  assumes "build_reply zv request m alloc ctr = Some (out, alloc', ctr')"
    and "let r = reply_frame zv request m alloc (fst (bump ctr)) in
      zv_fields_law zv Little (headers_serialize zv (f_headers r)) \<and>
      zv_values_law zv (f_headers r) \<and> length (f_body r) < 2 ^ 32"
  shows "\<exists>r. parse_frame zv out = Inr r \<and> f_kind r = MethodReturn \<and> f_serial r = ctr' \<and> ctr' \<noteq> 0 \<and>
    h_reply_serial (f_headers r) = Some (f_serial request) \<and>
    h_destination (f_headers r) = h_sender (f_headers request) \<and>
    (f_body r \<noteq> [] \<longrightarrow> (\<exists>hints. m = CreateInputContext hints)) \<and>
    (alloc' \<noteq> alloc \<longrightarrow> (\<exists>hints. m = CreateInputContext hints))"
proof -
  let ?r = "reply_frame zv request m alloc (fst (bump ctr))"
  have out: "out = encode_frame zv ?r" and ctr: "ctr' = fst (bump ctr)"
    using assms(1) by (auto simp: build_reply_eq bump_unat(2) split: fcitx5_method_call.splits if_splits)
  have r: "f_endian ?r = Little" "f_serial ?r = fst (bump ctr)" "h_path (f_headers ?r) = None"
    "f_kind ?r = MethodReturn" "h_reply_serial (f_headers ?r) = Some (f_serial request)"
    "h_destination (f_headers ?r) = h_sender (f_headers request)"
    by (cases m; simp add: reply_frame_def reply_headers_def headers_default_def Let_def)+
  have "parse_frame zv (encode_frame zv ?r @ []) = Inr ?r"
    using assms(2) r bump_nonzero [of ctr] by (intro encode_frame_parsed) (simp_all add: Let_def)
  then show ?thesis
    using out ctr r bump_nonzero assms(1)
    by (intro exI [of _ ?r])
      (auto simp: build_reply_eq reply_frame_def split: fcitx5_method_call.splits)
qed

definition demo_request :: frame where
  "demo_request = fb_build (with_serial 9 (with_sender '':1.4''
     (fb_method_call ''/a'' INPUT_CONTEXT_INTERFACE ''FocusIn'')))"

lemma demo_reply:
  "reply_frame demo_zv demo_request (FocusIn ''/a'') ic_alloc_new 1 =
     \<lparr>f_endian = Little, f_kind = MethodReturn, f_flags = 0, f_serial = 1,
      f_headers = headers_default\<lparr>h_reply_serial := Some 9, h_destination := Some '':1.4''\<rparr>,
      f_body = []\<rparr>"
  by (simp add: reply_frame_def reply_headers_def demo_request_def fb_build_def with_serial_def
      with_sender_def fb_method_call_def fb_new_def headers_default_def)

lemma demo_reply_elems:
  "headers_serialize demo_zv
     (headers_default\<lparr>h_reply_serial := Some 9, h_destination := Some '':1.4''\<rparr>) =
   [(5, EValue (VU32 9)), (6, EValue (VStr '':1.4''))]"
  by (simp add: headers_serialize_def headers_default_def opt_elem_def)

lemma demo_reply_fields:
  "zv_ser_fields demo_zv Little [(5, EValue (VU32 9)), (6, EValue (VStr '':1.4''))] =
     [13, 0, 0, 0, 5, 117, 9, 0, 0, 0, 6, 115, 4, 58, 49, 46, 52]"
  by (simp add: demo_zv_simps endian_u32_def demo_str_def u32_to_le_def Let_def)

theorem build_reply_answers_witness:
  "build_reply demo_zv demo_request (FocusIn ''/a'') ic_alloc_new 0 =
     Some (encode_frame demo_zv (reply_frame demo_zv demo_request (FocusIn ''/a'') ic_alloc_new 1),
           ic_alloc_new, 1) \<and>
   (\<exists>r. parse_frame demo_zv (encode_frame demo_zv
           (reply_frame demo_zv demo_request (FocusIn ''/a'') ic_alloc_new 1)) = Inr r \<and>
        h_reply_serial (f_headers r) = Some 9)"
proof -
  have serial: "fst (bump 0) = 1" "snd (bump 0) = 1" by (simp_all add: bump_def)
  have built: "build_reply demo_zv demo_request (FocusIn ''/a'') ic_alloc_new 0 =
     Some (encode_frame demo_zv (reply_frame demo_zv demo_request (FocusIn ''/a'') ic_alloc_new 1),
           ic_alloc_new, 1)"
    by (simp add: build_reply_eq serial)
  moreover have "zv_fields_law demo_zv Little [(5, EValue (VU32 9)), (6, EValue (VStr '':1.4''))]"
    unfolding zv_fields_law_def demo_reply_fields Let_def
    by (simp add: demo_zv_simps read_u32_def char_of_def bit_0)
  moreover have "zv_values_law demo_zv
      (headers_default\<lparr>h_reply_serial := Some 9, h_destination := Some '':1.4''\<rparr>)"
    by (simp add: zv_values_law_def demo_zv_simps headers_default_def)
  moreover have "f_serial demo_request = 9"
    by (simp add: demo_request_def fb_build_def with_serial_def)
  ultimately show ?thesis
    using build_reply_answers [OF built] by (auto simp: serial demo_reply demo_reply_elems)
qed

end
