(* ===== verification/Signals.thy ===== *)
theory Signals
  imports Prelude
begin

text \<open>
  Preedit chunks, \<open>crates/emskin-dbus/src/proxy/signals.rs\<close>: \<open>build_preedit_chunks\<close> cuts the
  preedit text at the byte range winit reports. A Rust \<open>str\<close> is the list of its UTF-8 bytes (as
  characters); \<open>is_char_boundary\<close> is \<open>str::is_char_boundary\<close> and \<open>utf8\<close> is the well-formedness
  every \<open>str\<close> has, so that slicing at a byte offset which is not a boundary is the panic the
  code guards against.
\<close>

section \<open>UTF-8\<close>

definition continuation :: "char \<Rightarrow> bool" where
  "continuation c = (128 \<le> (of_char c :: nat) \<and> (of_char c :: nat) < 192)"

definition is_char_boundary :: "string \<Rightarrow> nat \<Rightarrow> bool" where
  "is_char_boundary s i =
     (i = 0 \<or> i = length s \<or> (i < length s \<and> \<not> continuation (s ! i)))"

definition sequence_tail :: "nat \<Rightarrow> nat option" where
  "sequence_tail b =
     (if b < 128 then Some 0
      else if 194 \<le> b \<and> b \<le> 223 then Some 1
      else if 224 \<le> b \<and> b \<le> 239 then Some 2
      else if 240 \<le> b \<and> b \<le> 244 then Some 3
      else None)"

definition second_byte_ok :: "nat \<Rightarrow> string \<Rightarrow> bool" where
  "second_byte_ok b s =
     (let c = (case s of [] \<Rightarrow> 128 | x # _ \<Rightarrow> (of_char x :: nat)) in
      (b = 224 \<longrightarrow> 160 \<le> c) \<and> (b = 237 \<longrightarrow> c \<le> 159) \<and> (b = 240 \<longrightarrow> 144 \<le> c) \<and> (b = 244 \<longrightarrow> c \<le> 143))"

function utf8 :: "string \<Rightarrow> bool" where
  "utf8 [] = True"
| "utf8 (c # s) =
     (case sequence_tail (of_char c) of
        None \<Rightarrow> False
      | Some k \<Rightarrow>
          k \<le> length s \<and> list_all continuation (take k s) \<and> second_byte_ok (of_char c) s \<and>
          utf8 (drop k s))"
  by pat_completeness auto
termination
  by (relation "measure length") auto

lemma utf8_split:
  "utf8 s \<Longrightarrow> i \<le> length s \<Longrightarrow> is_char_boundary s i \<Longrightarrow> utf8 (take i s) \<and> utf8 (drop i s)"
proof (induction s arbitrary: i rule: utf8.induct)
  case 1
  then show ?case by simp
next
  case (2 c s)
  obtain k where k: "sequence_tail (of_char c) = Some k" "k \<le> length s"
      "list_all continuation (take k s)" "second_byte_ok (of_char c) s" "utf8 (drop k s)"
    using "2.prems"(1) by (auto split: option.splits)
  show ?case
  proof (cases "i = 0 \<or> k < i")
    case True
    then show ?thesis
    proof
      assume "k < i"
      then obtain j where i: "i = Suc (k + j)" by (metis less_iff_Suc_add)
      have j: "j \<le> length (drop k s)" using "2.prems"(2) k(2) i by simp
      have "is_char_boundary (drop k s) j"
        using "2.prems"(3) k(2) by (auto simp: is_char_boundary_def i)
      then have ih: "utf8 (take j (drop k s))" "utf8 (drop j (drop k s))"
        using "2.IH" [OF k(1,5) j] by simp_all
      have "second_byte_ok (of_char c) (take (k + j) s)"
      proof (cases "k + j")
        case 0
        then have "sequence_tail (of_char c) = Some 0" using k(1) by simp
        then have "(of_char c :: nat) < 128" by (auto simp: sequence_tail_def split: if_splits)
        then show ?thesis by (simp add: second_byte_ok_def Let_def)
      next
        case (Suc n)
        then show ?thesis using k(4) by (cases s) (simp_all add: second_byte_ok_def)
      qed
      moreover have "drop k (take (k + j) s) = take j (drop k s)" by (simp add: drop_take)
      ultimately show ?thesis
        using k ih i j by (simp add: min_absorb1 add.commute)
    qed (use "2.prems" in simp)
  next
    case False
    then obtain j where i: "i = Suc j" and j: "j < k" by (cases i) auto
    have "continuation (s ! j)"
      using k(2,3) j by (auto simp: list_all_length)
    then show ?thesis
      using "2.prems"(3) j k(2) by (simp add: is_char_boundary_def i)
  qed
qed

section \<open>The code\<close>

definition UNDERLINE :: i32 where
  "UNDERLINE = push_bit 3 1"

definition HIGHLIGHT :: i32 where
  "HIGHLIGHT = push_bit 4 1"

definition build_preedit_chunks ::
  "string \<Rightarrow> (i32 \<times> i32) option \<Rightarrow> i32 \<Rightarrow> i32 \<Rightarrow> (string \<times> i32) list" where
  "build_preedit_chunks text cursor underline highlight =
     (let plain = [(text, underline)] in
      case cursor of
        None \<Rightarrow> plain
      | Some (begin, end) \<Rightarrow>
          if sint begin < 0 \<or> sint end \<le> sint begin then plain
          else
            (let b = unat begin; e = unat end; len = length text in
             if b > len \<or> e > len \<or> \<not> is_char_boundary text b \<or> \<not> is_char_boundary text e
             then plain
             else
               (if b > 0 then [(take b text, underline)] else [])
               @ [(slice b e text, underline OR highlight)]
               @ (if e < len then [(drop e text, underline)] else [])))"

section \<open>What the chunks are\<close>

text \<open>A range that winit may report for this text, and its bounds as offsets.\<close>

definition preedit_range :: "string \<Rightarrow> (i32 \<times> i32) option \<Rightarrow> (nat \<times> nat) option" where
  "preedit_range text cursor =
     (case cursor of
        None \<Rightarrow> None
      | Some (begin, end) \<Rightarrow>
          if 0 \<le> sint begin \<and> sint begin < sint end \<and> sint end \<le> int (length text)
             \<and> is_char_boundary text (nat (sint begin)) \<and> is_char_boundary text (nat (sint end))
          then Some (nat (sint begin), nat (sint end)) else None)"

lemma build_preedit_chunks_range:
  "build_preedit_chunks text cursor u h =
     (case preedit_range text cursor of
        None \<Rightarrow> [(text, u)]
      | Some (b, e) \<Rightarrow>
          (if b > 0 then [(take b text, u)] else []) @ [(slice b e text, u OR h)]
          @ (if e < length text then [(drop e text, u)] else []))"
  by (auto simp: build_preedit_chunks_def preedit_range_def Let_def unat_sint nat_le_iff
      split: option.split)

lemma utf8_slice:
  assumes "utf8 s" "b \<le> e" "e \<le> length s" "is_char_boundary s b" "is_char_boundary s e"
  shows "utf8 (slice b e s)"
proof -
  have "utf8 (take e s)" using assms utf8_split by blast
  moreover have "is_char_boundary (take e s) b"
    using assms by (auto simp: is_char_boundary_def)
  ultimately have "utf8 (drop b (take e s))" using assms utf8_split [of "take e s" b] by simp
  then show ?thesis by (simp add: slice_def drop_take)
qed

lemma slice_parts:
  assumes "b \<le> e"
  shows "take b s @ slice b e s = take e s" "take b s @ slice b e s @ drop e s = s"
proof -
  show *: "take b s @ slice b e s = take e s"
    using assms by (simp add: slice_def flip: take_add)
  show "take b s @ slice b e s @ drop e s = s"
    by (simp add: * flip: append_assoc)
qed

lemma flags_differ: "UNDERLINE OR HIGHLIGHT \<noteq> UNDERLINE"
  by (simp add: UNDERLINE_def HIGHLIGHT_def)

text \<open>
  The chunks of a preedit spell the preedit text, no chunk is cut inside a UTF-8 sequence,
  and the highlighted chunk is exactly the byte range the input method reported, when it is a
  non-empty range between character boundaries, and is absent otherwise.
\<close>

theorem preedit_chunks:
  "concat (map fst (build_preedit_chunks text cursor UNDERLINE HIGHLIGHT)) = text \<and>
    (utf8 text \<longrightarrow>
       list_all (\<lambda>c. utf8 (fst c)) (build_preedit_chunks text cursor UNDERLINE HIGHLIGHT)) \<and>
    filter (\<lambda>c. snd c \<noteq> UNDERLINE) (build_preedit_chunks text cursor UNDERLINE HIGHLIGHT) =
      (case preedit_range text cursor of
         None \<Rightarrow> []
       | Some (b, e) \<Rightarrow> [(slice b e text, UNDERLINE OR HIGHLIGHT)])"
proof (cases "preedit_range text cursor")
  case None
  then show ?thesis by (simp add: build_preedit_chunks_range)
next
  case (Some r)
  then obtain b e where r: "preedit_range text cursor = Some (b, e)" by (cases r) auto
  then have be: "b < e" "e \<le> length text" "is_char_boundary text b" "is_char_boundary text e"
    by (auto simp: preedit_range_def nat_le_iff nat_less_iff split: option.splits if_splits)
  have "take b text @ slice b e text @ (if e < length text then drop e text else []) = text"
    using slice_parts [of b e "text"] be by (cases "e < length text") auto
  moreover have "utf8 text \<Longrightarrow> utf8 (take b text) \<and> utf8 (slice b e text) \<and> utf8 (drop e text)"
    using be utf8_split utf8_slice by simp
  ultimately show ?thesis
    using flags_differ by (auto simp: build_preedit_chunks_range r)
qed

theorem preedit_chunks_witness:
  "list_all (\<lambda>c. utf8 (fst c))
     (build_preedit_chunks (map char_of [0xe4, 0xbd, 0xa0, 0xe5, 0xa5, 0xbd :: nat])
        (Some (3, 6)) UNDERLINE HIGHLIGHT)"
proof -
  have "utf8 (map char_of [0xe4, 0xbd, 0xa0, 0xe5, 0xa5, 0xbd :: nat])"
    by (simp add: sequence_tail_def continuation_def second_byte_ok_def)
  then show ?thesis using preedit_chunks by blast
qed

end
