(* ===== verification/Proxy_Queue.thy ===== *)
theory Proxy_Queue
  imports Prelude
begin

text \<open>
  The outgoing packet queues of the D-Bus broker: \<open>OutPacket\<close> and \<open>DbusBroker::try_flush\<close> of
  \<open>crates/emskin-dbus/src/proxy/mod.rs\<close>, \<open>sendmsg_with_fds\<close> and \<open>recvmsg_with_fds\<close> of
  \<open>proxy/cmsg.rs\<close>.

  The kernel side of a socket is the record \<open>socket\<close>: the results of the next \<open>recvmsg\<close> and
  \<open>sendmsg\<close> calls (an empty list means the call would block), and what has been sent so far.
  A \<open>Sent n\<close> accepts at most \<open>n\<close> bytes of the buffer offered. File descriptors are numbers.

  \<open>tagged\<close> pairs every byte with the descriptors that ride on it; the lemmas show that
  flushing moves tagged bytes from the queue to the wire without loss, duplication or
  reordering, whatever the kernel answers.
\<close>

section \<open>Sockets\<close>

type_synonym fd = nat

record out_packet =
  p_bytes :: bytes
  p_fds :: "fd list"

datatype io_error = WouldBlock | Interrupted | InvalidData | OtherIo nat

datatype send_result = Sent nat | SendErr io_error

datatype recv_result = Received bytes "fd list" | RecvErr io_error

record socket =
  to_send :: "send_result list"
  to_recv :: "recv_result list"
  wire_out :: "out_packet list"

definition bytes_only :: "bytes \<Rightarrow> out_packet" where
  "bytes_only bs = \<lparr>p_bytes = bs, p_fds = []\<rparr>"

definition pkt_is_empty :: "out_packet \<Rightarrow> bool" where
  "pkt_is_empty p = (p_bytes p = [] \<and> p_fds p = [])"

text \<open>
  \<open>sendmsg_with_fds\<close>: an empty buffer returns \<open>Ok(0)\<close> without asking the kernel; otherwise the
  kernel accepts a prefix of the buffer, and the descriptors with its first byte.
\<close>

definition sendmsg_with_fds :: "socket \<Rightarrow> bytes \<Rightarrow> fd list \<Rightarrow> (io_error + nat) \<times> socket" where
  "sendmsg_with_fds s buf fds =
     (if buf = [] then (Inr 0, s)
      else case to_send s of
        [] \<Rightarrow> (Inl WouldBlock, s)
      | SendErr e # rs \<Rightarrow> (Inl e, s\<lparr>to_send := rs\<rparr>)
      | Sent k # rs \<Rightarrow>
          (let n = min k (length buf) in
           (Inr n,
            s\<lparr>to_send := rs,
              wire_out := wire_out s
                @ (if n = 0 then [] else [\<lparr>p_bytes = take n buf, p_fds = fds\<rparr>])\<rparr>)))"

definition recvmsg_with_fds :: "socket \<Rightarrow> (io_error + bytes \<times> fd list) \<times> socket" where
  "recvmsg_with_fds s =
     (case to_recv s of
        [] \<Rightarrow> (Inl WouldBlock, s)
      | RecvErr e # rs \<Rightarrow> (Inl e, s\<lparr>to_recv := rs\<rparr>)
      | Received bs fds # rs \<Rightarrow> (Inr (bs, fds), s\<lparr>to_recv := rs\<rparr>))"

lemma sendmsg_progress:
  "sendmsg_with_fds s buf fds = (Inr (Suc n), s') \<Longrightarrow> length (to_send s') < length (to_send s)"
  "sendmsg_with_fds s buf fds = (Inl Interrupted, s') \<Longrightarrow> length (to_send s') < length (to_send s)"
  by (auto simp: sendmsg_with_fds_def Let_def split: if_splits list.splits send_result.splits)

section \<open>Flushing\<close>

text \<open>
  The loop of \<open>try_flush\<close>; the queue is a list with its front first. The descriptors of the
  front packet are taken before \<open>sendmsg\<close> and put back when nothing was sent.
\<close>

function try_flush :: "socket \<Rightarrow> out_packet list \<Rightarrow> (io_error + unit) \<times> socket \<times> out_packet list" where
  "try_flush s [] = (Inr (), s, [])"
| "try_flush s (front # queue) =
     (if pkt_is_empty front then try_flush s queue
      else case sendmsg_with_fds s (p_bytes front) (p_fds front) of
        (Inr 0, s') \<Rightarrow> (Inr (), s', front # queue)
      | (Inr (Suc n), s') \<Rightarrow>
          (let rest = drop (Suc n) (p_bytes front) in
           try_flush s' (if rest = [] then queue else \<lparr>p_bytes = rest, p_fds = []\<rparr> # queue))
      | (Inl WouldBlock, s') \<Rightarrow> (Inr (), s', front # queue)
      | (Inl Interrupted, s') \<Rightarrow> try_flush s' (front # queue)
      | (Inl e, s') \<Rightarrow> (Inl e, s', front\<lparr>p_fds := []\<rparr> # queue))"
  by pat_completeness auto
termination
  by (relation "measure (\<lambda>(s, queue). length (to_send s) + length queue)")
    (auto dest: sendmsg_progress[OF sym])

declare try_flush.simps(2) [simp del]

section \<open>Conservation\<close>

definition tagged :: "out_packet \<Rightarrow> (byte \<times> fd list) list" where
  "tagged p = (case p_bytes p of [] \<Rightarrow> [] | b # bs \<Rightarrow> (b, p_fds p) # map (\<lambda>b. (b, [])) bs)"

definition tagged_all :: "out_packet list \<Rightarrow> (byte \<times> fd list) list" where
  "tagged_all ps = concat (map tagged ps)"

lemma tagged_all_simps [simp]:
  "tagged_all [] = []"
  "tagged_all (p # ps) = tagged p @ tagged_all ps"
  "tagged_all (ps @ qs) = tagged_all ps @ tagged_all qs"
  by (simp_all add: tagged_all_def)

lemma tagged_split:
  "tagged \<lparr>p_bytes = take (Suc n) bs, p_fds = fds\<rparr> @ tagged \<lparr>p_bytes = drop (Suc n) bs, p_fds = []\<rparr>
     = tagged \<lparr>p_bytes = bs, p_fds = fds\<rparr>"
proof (cases bs)
  case Nil
  then show ?thesis by (simp add: tagged_def)
next
  case (Cons b xs)
  have "tagged \<lparr>p_bytes = ys, p_fds = []\<rparr> = map (\<lambda>b. (b, [])) ys" for ys
    by (cases ys) (simp_all add: tagged_def)
  then show ?thesis
    by (simp add: Cons) (simp add: tagged_def flip: map_append)
qed

lemma tagged_bytes [simp]: "map fst (tagged p) = p_bytes p"
  by (auto simp: tagged_def comp_def split: list.split)

lemma tagged_all_bytes: "map fst (tagged_all ps) = concat (map p_bytes ps)"
  by (induction ps) simp_all

lemma pkt_cases: "\<lparr>p_bytes = p_bytes p, p_fds = p_fds p\<rparr> = (p :: out_packet)"
  by (cases p) simp

lemma sendmsg_wire:
  "sendmsg_with_fds s buf fds = (Inr (Suc n), s') \<Longrightarrow>
     wire_out s' = wire_out s @ [\<lparr>p_bytes = take (Suc n) buf, p_fds = fds\<rparr>]"
  "sendmsg_with_fds s buf fds = (Inr 0, s') \<Longrightarrow> wire_out s' = wire_out s"
  "sendmsg_with_fds s buf fds = (Inl e, s') \<Longrightarrow> wire_out s' = wire_out s"
  by (auto simp: sendmsg_with_fds_def Let_def split: if_splits list.splits send_result.splits)

lemma sendmsg_recv [simp]:
  "sendmsg_with_fds s buf fds = (x, s') \<Longrightarrow> to_recv s' = to_recv s"
  by (auto simp: sendmsg_with_fds_def Let_def split: if_splits list.splits send_result.splits)

definition remaining :: "nat \<Rightarrow> out_packet \<Rightarrow> out_packet list \<Rightarrow> out_packet list" where
  "remaining n front queue =
     (if drop n (p_bytes front) = [] then queue
      else \<lparr>p_bytes = drop n (p_bytes front), p_fds = []\<rparr> # queue)"

lemma try_flush_skip: "pkt_is_empty front \<Longrightarrow> try_flush s (front # queue) = try_flush s queue"
  by (simp add: try_flush.simps(2))

lemma try_flush_step:
  assumes "\<not> pkt_is_empty front"
  shows
  "sendmsg_with_fds s (p_bytes front) (p_fds front) = (Inr 0, s') \<Longrightarrow>
     try_flush s (front # queue) = (Inr (), s', front # queue)"
  "sendmsg_with_fds s (p_bytes front) (p_fds front) = (Inr (Suc n), s') \<Longrightarrow>
     try_flush s (front # queue) = try_flush s' (remaining (Suc n) front queue)"
  "sendmsg_with_fds s (p_bytes front) (p_fds front) = (Inl WouldBlock, s') \<Longrightarrow>
     try_flush s (front # queue) = (Inr (), s', front # queue)"
  "sendmsg_with_fds s (p_bytes front) (p_fds front) = (Inl Interrupted, s') \<Longrightarrow>
     try_flush s (front # queue) = try_flush s' (front # queue)"
  "sendmsg_with_fds s (p_bytes front) (p_fds front) = (Inl e, s') \<Longrightarrow> e \<noteq> WouldBlock \<Longrightarrow>
     e \<noteq> Interrupted \<Longrightarrow> try_flush s (front # queue) = (Inl e, s', front\<lparr>p_fds := []\<rparr> # queue)"
  using assms by (subst try_flush.simps(2); simp add: remaining_def Let_def split: io_error.split)+

lemma tagged_remaining:
  "tagged \<lparr>p_bytes = take (Suc n) (p_bytes front), p_fds = p_fds front\<rparr>
     @ tagged_all (remaining (Suc n) front queue) = tagged front @ tagged_all queue"
  using tagged_split [of n "p_bytes front" "p_fds front"]
  by (cases front) (auto simp: remaining_def tagged_def)

lemma try_flush_induct [case_names Nil Skip Stop Sent Blocked Again Fail]:
  assumes "\<And>s. P s []"
    and "\<And>s front queue. pkt_is_empty front \<Longrightarrow> P s queue \<Longrightarrow> P s (front # queue)"
    and "\<And>s front queue s'. \<not> pkt_is_empty front \<Longrightarrow>
      sendmsg_with_fds s (p_bytes front) (p_fds front) = (Inr 0, s') \<Longrightarrow> P s (front # queue)"
    and "\<And>s front queue s' n. \<not> pkt_is_empty front \<Longrightarrow>
      sendmsg_with_fds s (p_bytes front) (p_fds front) = (Inr (Suc n), s') \<Longrightarrow>
      P s' (remaining (Suc n) front queue) \<Longrightarrow> P s (front # queue)"
    and "\<And>s front queue s'. \<not> pkt_is_empty front \<Longrightarrow>
      sendmsg_with_fds s (p_bytes front) (p_fds front) = (Inl WouldBlock, s') \<Longrightarrow> P s (front # queue)"
    and "\<And>s front queue s'. \<not> pkt_is_empty front \<Longrightarrow>
      sendmsg_with_fds s (p_bytes front) (p_fds front) = (Inl Interrupted, s') \<Longrightarrow>
      P s' (front # queue) \<Longrightarrow> P s (front # queue)"
    and "\<And>s front queue s' e. \<not> pkt_is_empty front \<Longrightarrow>
      sendmsg_with_fds s (p_bytes front) (p_fds front) = (Inl e, s') \<Longrightarrow> e \<noteq> WouldBlock \<Longrightarrow>
      e \<noteq> Interrupted \<Longrightarrow> P s (front # queue)"
  shows "P s q"
proof (induction "length (to_send s) + length q" arbitrary: s q rule: less_induct)
  case less
  show ?case
  proof (cases q)
    case Nil
    then show ?thesis using assms(1) by simp
  next
    case (Cons front queue)
    obtain res s' where sent: "sendmsg_with_fds s (p_bytes front) (p_fds front) = (res, s')"
      by (cases "sendmsg_with_fds s (p_bytes front) (p_fds front)")
    have "length (remaining n front queue) \<le> length q" for n
      by (simp add: remaining_def Cons)
    then have "P s' (remaining (Suc n) front queue)" if "res = Inr (Suc n)" for n
      using sendmsg_progress(1) sent that by (intro less) (simp add: add_less_le_mono)
    moreover have "P s' (front # queue)" if "res = Inl Interrupted"
      using sendmsg_progress(2) sent that by (intro less) (simp add: Cons)
    moreover have "P s queue" by (intro less) (simp add: Cons)
    ultimately show ?thesis
      using sent assms(2-7) unfolding Cons
      by (cases "pkt_is_empty front"; cases res rule: sum.exhaust) (metis nat.exhaust io_error.exhaust)+
  qed
qed

text \<open>The invariant of the loop: what is on the wire followed by what is queued.\<close>

lemma try_flush_conserves:
  "try_flush s q = (r, s', q') \<Longrightarrow>
     concat (map p_bytes (wire_out s' @ q')) = concat (map p_bytes (wire_out s @ q)) \<and>
     (r = Inr () \<longrightarrow> tagged_all (wire_out s' @ q') = tagged_all (wire_out s @ q))"
proof (induction s q rule: try_flush_induct)
  case (Skip s front queue)
  then have "tagged front = []" "p_bytes front = []"
    by (simp_all add: pkt_is_empty_def tagged_def)
  then show ?case using Skip by (simp add: try_flush_skip)
next
  case (Sent s front queue s1 n)
  have "try_flush s1 (remaining (Suc n) front queue) = (r, s', q')"
    using Sent.prems Sent.hyps by (simp add: try_flush_step)
  note ih = Sent.IH [OF this]
  have w: "tagged_all (wire_out s1 @ remaining (Suc n) front queue) = tagged_all (wire_out s @ front # queue)"
    using tagged_remaining [of n front queue] by (simp add: sendmsg_wire(1) [OF Sent.hyps(2)])
  then have "concat (map p_bytes (wire_out s1 @ remaining (Suc n) front queue)) =
      concat (map p_bytes (wire_out s @ front # queue))"
    by (metis tagged_all_bytes)
  with w ih show ?case by simp
next
  case (Fail s front queue s1 e)
  then show ?case by (auto simp: try_flush_step sendmsg_wire)
qed (auto simp: try_flush_step sendmsg_wire)

section \<open>Progress\<close>

lemma sendmsg_sent:
  assumes "buf \<noteq> []" "to_send s = Sent k # rs" "0 < k"
  shows "\<exists>n s'. sendmsg_with_fds s buf fds = (Inr (Suc n), s') \<and> to_send s' = rs"
proof -
  have "min k (length buf) \<noteq> 0" using assms by auto
  then obtain n where "min k (length buf) = Suc n" by (cases "min k (length buf)") auto
  then show ?thesis using assms by (auto simp: sendmsg_with_fds_def)
qed

lemma remaining_smaller:
  "p_bytes front \<noteq> [] \<Longrightarrow>
     length (concat (map p_bytes (remaining (Suc n) front queue)))
       < length (concat (map p_bytes (front # queue)))"
  by (cases "p_bytes front") (auto simp: remaining_def)

definition flushable :: "out_packet \<Rightarrow> bool" where
  "flushable p \<longleftrightarrow> (p_bytes p = [] \<longrightarrow> p_fds p = [])"

definition accepting :: "send_result \<Rightarrow> bool" where
  "accepting r = (case r of Sent k \<Rightarrow> 0 < k | SendErr e \<Rightarrow> False)"

lemma try_flush_drains_all:
  "list_all accepting (to_send s) \<Longrightarrow> list_all flushable q \<Longrightarrow>
     length (concat (map p_bytes q)) \<le> length (to_send s) \<Longrightarrow>
     \<exists>s'. try_flush s q = (Inr (), s', [])"
proof (induction "length (concat (map p_bytes q)) + length q" arbitrary: s q rule: less_induct)
  case less
  show ?case
  proof (cases q)
    case Nil
    then show ?thesis by simp
  next
    case (Cons front queue)
    show ?thesis
    proof (cases "pkt_is_empty front")
      case True
      then have "\<exists>s'. try_flush s queue = (Inr (), s', [])"
        using less.prems by (intro less.hyps) (simp_all add: Cons)
      then show ?thesis using True by (simp add: Cons try_flush_skip)
    next
      case False
      then have ne: "p_bytes front \<noteq> []"
        using less.prems(2) by (auto simp: Cons flushable_def pkt_is_empty_def)
      then obtain r rs where send: "to_send s = r # rs"
        using less.prems(3) by (cases "to_send s") (auto simp: Cons)
      then obtain k where "r = Sent k" "0 < k"
        using less.prems(1) by (cases r) (auto simp: accepting_def)
      then obtain n s' where s': "sendmsg_with_fds s (p_bytes front) (p_fds front) = (Inr (Suc n), s')"
          "to_send s' = rs"
        using sendmsg_sent [OF ne] send by blast
      have "length (remaining (Suc n) front queue) \<le> length q"
        "list_all flushable (remaining (Suc n) front queue)"
        using less.prems(2) by (auto simp: remaining_def Cons flushable_def)
      moreover note rm = remaining_smaller [OF ne, of n queue]
      ultimately have "\<exists>s''. try_flush s' (remaining (Suc n) front queue) = (Inr (), s'', [])"
        using less.prems s'(2) send
        by (intro less.hyps) (simp_all add: Cons add_less_le_mono)
      then show ?thesis
        using False s'(1) by (simp add: Cons try_flush_step)
    qed
  qed
qed

section \<open>Properties\<close>

text \<open>
  C10. Flushing a queue loses, duplicates and reorders nothing: the bytes on the wire followed
  by the bytes still queued are unchanged whatever the kernel answers, partial writes and
  interruptions included, and unless the socket failed every descriptor still rides on the
  byte it was queued with, exactly once.
\<close>

theorem try_flush_lossless:
  assumes "try_flush s q = (r, s', q')"
  shows "concat (map p_bytes (wire_out s' @ q')) = concat (map p_bytes (wire_out s @ q)) \<and>
    (r = Inr () \<longrightarrow> tagged_all (wire_out s' @ q') = tagged_all (wire_out s @ q))"
  by (rule try_flush_conserves [OF assms])

theorem try_flush_lossless_witness:
  "let s = \<lparr>to_send = [Sent 2, SendErr Interrupted, Sent 9, SendErr WouldBlock], to_recv = [], wire_out = []\<rparr>;
       (r, s', q') = try_flush s [\<lparr>p_bytes = [1, 2, 3], p_fds = [7]\<rparr>, \<lparr>p_bytes = [4], p_fds = []\<rparr>]
   in tagged_all (wire_out s' @ q') = [(1, [7]), (2, []), (3, []), (4, [])]"
  using try_flush_lossless
    [of "\<lparr>to_send = [Sent 2, SendErr Interrupted, Sent 9, SendErr WouldBlock], to_recv = [], wire_out = []\<rparr>"
        "[\<lparr>p_bytes = [1, 2, 3], p_fds = [7]\<rparr>, \<lparr>p_bytes = [4], p_fds = []\<rparr>]"]
  by (simp add: try_flush.simps(2) pkt_is_empty_def sendmsg_with_fds_def Let_def tagged_def
      eval_nat_numeral)

text \<open>
  Progress: when every packet that carries descriptors also carries a byte, a kernel that
  accepts at least one byte per call, as often as there are bytes, empties the queue.
\<close>

theorem try_flush_drains:
  assumes "list_all accepting (to_send s)" and "list_all flushable q"
    and "length (concat (map p_bytes q)) \<le> length (to_send s)"
  shows "\<exists>s'. try_flush s q = (Inr (), s', [])"
  by (rule try_flush_drains_all [OF assms])

theorem try_flush_drains_witness:
  "\<exists>s'. try_flush \<lparr>to_send = [Sent 1, Sent 8], to_recv = [], wire_out = []\<rparr>
      [\<lparr>p_bytes = [1, 2], p_fds = [3]\<rparr>] = (Inr (), s', [])"
  by (rule try_flush_drains) (simp_all add: accepting_def flushable_def)

text \<open>
  A packet with descriptors and no bytes blocks its queue for ever: \<open>sendmsg_with_fds\<close>
  returns \<open>Ok(0)\<close> for an empty buffer, which \<open>try_flush\<close> takes for back-pressure, so nothing
  behind the packet is ever sent, however willing the kernel is.
\<close>

theorem try_flush_wedged:
  "try_flush s (\<lparr>p_bytes = [], p_fds = f # fs\<rparr> # queue) =
     (Inr (), s, \<lparr>p_bytes = [], p_fds = f # fs\<rparr> # queue)"
  by (simp add: try_flush.simps(2) pkt_is_empty_def sendmsg_with_fds_def)

end
