(* ===== verification/Proxy.thy ===== *)
theory Proxy
  imports Broker_State Fcitx Signals Proxy_Queue
begin

text \<open>
  The in-process D-Bus broker of \<open>crates/emskin-dbus/src/proxy/mod.rs\<close>: connections, accepting
  clients, the two pumps, the signals emitted for the input method, flushing and removal.

  A pump works on one connection; the definitions on \<open>connection\<close> are its body and the ones
  on \<open>dbus_broker\<close> look the connection up and store it back. Results are
  \<open>Result<_, io::Error>\<close>; \<open>None\<close> is the panic \<open>build_reply\<close> can raise. Floating-point
  conversion of \<open>SetCursorRectV2\<close> is the parameter \<open>scale_round\<close>.
\<close>

section \<open>State\<close>

type_synonym conn_id = u64

datatype fcitx_event =
    FocusChanged conn_id string bool
  | CursorRect conn_id string i32 i32 i32 i32
  | IcDestroyed conn_id string

datatype pump_outcome = Active | PeerClosed

record connection =
  c_client :: socket
  c_upstream :: socket
  c_state :: connection_state
  client_out :: "out_packet list"
  upstream_out :: "out_packet list"
  client_in_fds :: "fd list"
  upstream_in_fds :: "fd list"
  c_ic_allocator :: ic_allocator
  c_serial_counter :: serial_counter
  fcitx_server_name :: "string option"
  upstream_buf :: bytes
  pending_name_lookups :: "u32 \<rightharpoonup> string"

record dbus_broker =
  connections :: "conn_id \<rightharpoonup> connection"
  next_conn_id :: u64
  b_events :: "fcitx_event list"

text \<open>\<open>to_logical\<close> of \<open>SetCursorRectV2\<close>, with the scale that is not positive replaced by 1.\<close>

record fp_ops =
  fp_positive :: "f64 \<Rightarrow> bool"
  fp_one :: f64
  fp_div_round :: "i32 \<Rightarrow> f64 \<Rightarrow> i32"

definition SIGNAL_SENDER :: string where
  "SIGNAL_SENDER = ''org.fcitx.Fcitx5''"

definition broker_bind :: dbus_broker where
  "broker_bind = \<lparr>connections = Map.empty, next_conn_id = 1, b_events = []\<rparr>"

definition new_connection :: "socket \<Rightarrow> socket \<Rightarrow> connection" where
  "new_connection client upstream =
     \<lparr>c_client = client, c_upstream = upstream, c_state = conn_new,
      client_out = [], upstream_out = [], client_in_fds = [], upstream_in_fds = [],
      c_ic_allocator = ic_alloc_new, c_serial_counter = serial_new,
      fcitx_server_name = None, upstream_buf = [], pending_name_lookups = Map.empty\<rparr>"

text \<open>
  \<open>accept_one\<close>: the listener's answer, the answer of dialling the upstream bus, and the two
  \<open>set_nonblocking\<close> calls are given by the environment.
\<close>

definition accept_one ::
  "(io_error + socket) \<Rightarrow> (io_error + socket) \<Rightarrow> (io_error + unit) \<Rightarrow> dbus_broker \<Rightarrow>
     (io_error + conn_id option) \<times> dbus_broker" where
  "accept_one accepted dialled nonblocking b =
     (case accepted of
        Inl WouldBlock \<Rightarrow> (Inr None, b)
      | Inl e \<Rightarrow> (Inl e, b)
      | Inr client \<Rightarrow>
          (case dialled of
             Inl e \<Rightarrow> (Inr None, b)
           | Inr upstream \<Rightarrow>
               (case nonblocking of
                  Inl e \<Rightarrow> (Inl e, b)
                | Inr _ \<Rightarrow>
                    (let i = next_conn_id b in
                     (Inr (Some i),
                      b\<lparr>next_conn_id := i + 1,
                        connections := (connections b)(i \<mapsto> new_connection client upstream)\<rparr>)))))"

definition drain_events :: "dbus_broker \<Rightarrow> fcitx_event list \<times> dbus_broker" where
  "drain_events b = (b_events b, b\<lparr>b_events := []\<rparr>)"

definition remove_connection :: "conn_id \<Rightarrow> dbus_broker \<Rightarrow> dbus_broker" where
  "remove_connection i b = b\<lparr>connections := (connections b)(i := None)\<rparr>"

section \<open>Recognising bus traffic\<close>

definition is_get_name_owner_method :: "frame \<Rightarrow> bool" where
  "is_get_name_owner_method f =
     (h_interface (f_headers f) = Some ''org.freedesktop.DBus'' \<and>
      h_member (f_headers f) = Some ''GetNameOwner'' \<and>
      h_signature (f_headers f) = Some ''s'')"

definition is_name_owner_changed_signal :: "frame \<Rightarrow> bool" where
  "is_name_owner_changed_signal f =
     (h_interface (f_headers f) = Some ''org.freedesktop.DBus'' \<and>
      h_member (f_headers f) = Some ''NameOwnerChanged'' \<and>
      h_signature (f_headers f) = Some ''sss'')"

definition parse_unix_bus_address :: "string \<Rightarrow> string option" where
  "parse_unix_bus_address addr =
     map_option (split_first (CHR '','')) (strip_prefix ''unix:path='' addr)"

section \<open>Events of intercepted calls\<close>

definition emit_fcitx_event ::
  "fp_ops \<Rightarrow> fcitx_event list \<Rightarrow> conn_id \<Rightarrow> fcitx5_method_call \<Rightarrow> fcitx_event list" where
  "emit_fcitx_event fp events conn method =
     (case method of
        FocusIn p \<Rightarrow> events @ [FocusChanged conn p True]
      | FocusOut p \<Rightarrow> events @ [FocusChanged conn p False]
      | SetCursorRect p x y w h \<Rightarrow> events @ [CursorRect conn p x y w h]
      | SetCursorRectV2 p x y w h scale \<Rightarrow>
          (let s = (if fp_positive fp scale then scale else fp_one fp);
               to_logical = (\<lambda>v. fp_div_round fp v s) in
           events @ [CursorRect conn p (to_logical x) (to_logical y) (to_logical w) (to_logical h)])
      | SetCursorLocation p x y \<Rightarrow> events @ [CursorRect conn p x y 0 0]
      | DestroyIC p \<Rightarrow> events @ [IcDestroyed conn p]
      | _ \<Rightarrow> events)"

section \<open>Client to upstream\<close>

text \<open>The loop \<open>for _ in 0..fd_count\<close> that pops descriptors until the queue is short.\<close>

fun pop_fds :: "nat \<Rightarrow> fd list \<Rightarrow> fd list \<times> fd list" where
  "pop_fds 0 q = ([], q)"
| "pop_fds (Suc n) [] = ([], [])"
| "pop_fds (Suc n) (f # q) = (case pop_fds n q of (fs, r) \<Rightarrow> (f # fs, r))"

definition declared_fds :: "frame \<Rightarrow> nat" where
  "declared_fds f = (case h_unix_fds (f_headers f) of None \<Rightarrow> 0 | Some n \<Rightarrow> unat n)"

definition track_name_lookup :: "zvariant \<Rightarrow> frame \<Rightarrow> connection \<Rightarrow> connection" where
  "track_name_lookup zv f conn =
     (if is_get_name_owner_method f then
        (case decode_body zv as_string f of
           None \<Rightarrow> conn
         | Some n \<Rightarrow>
             if is_fcitx_well_known n
             then conn\<lparr>pending_name_lookups := (pending_name_lookups conn)(f_serial f \<mapsto> n)\<rparr>
             else conn)
      else conn)"

definition capture_destination :: "frame \<Rightarrow> connection \<Rightarrow> connection" where
  "capture_destination f conn =
     (case h_destination (f_headers f) of
        None \<Rightarrow> conn
      | Some dest \<Rightarrow>
          if starts_with '':'' dest \<and> fcitx_server_name conn \<noteq> Some dest
          then conn\<lparr>fcitx_server_name := Some dest\<rparr> else conn)"

text \<open>One iteration of the loop over \<open>out.frame_ranges\<close>.\<close>

definition client_frame ::
  "zvariant \<Rightarrow> fp_ops \<Rightarrow> conn_id \<Rightarrow> bytes \<Rightarrow> connection \<times> fcitx_event list \<Rightarrow>
     (connection \<times> fcitx_event list) option" where
  "client_frame zv fp i msg_bytes st =
     (let (conn, events) = st in
      case parse_frame zv msg_bytes of
        Inl e \<Rightarrow>
          Some (conn\<lparr>upstream_out := upstream_out conn @ [bytes_only msg_bytes],
                     client_in_fds := []\<rparr>, events)
      | Inr f \<Rightarrow>
          (let (msg_fds, rest) = pop_fds (declared_fds f) (client_in_fds conn);
               conn1 = track_name_lookup zv f (conn\<lparr>client_in_fds := rest\<rparr>) in
           case classify zv f of
             Some fm \<Rightarrow>
               (let conn2 = capture_destination f conn1 in
                case build_reply zv f fm (c_ic_allocator conn2) (c_serial_counter conn2) of
                  None \<Rightarrow> None
                | Some (reply, alloc, ctr) \<Rightarrow>
                    Some (conn2\<lparr>c_ic_allocator := alloc, c_serial_counter := ctr,
                                client_out := client_out conn2 @ [bytes_only reply]\<rparr>,
                          emit_fcitx_event fp events i fm))
           | None \<Rightarrow>
               Some (conn1\<lparr>upstream_out := upstream_out conn1
                                   @ [\<lparr>p_bytes = msg_bytes, p_fds = msg_fds\<rparr>]\<rparr>, events)))"

fun client_frames ::
  "zvariant \<Rightarrow> fp_ops \<Rightarrow> conn_id \<Rightarrow> bytes list \<Rightarrow> connection \<times> fcitx_event list \<Rightarrow>
     (connection \<times> fcitx_event list) option" where
  "client_frames zv fp i [] st = Some st"
| "client_frames zv fp i (m # ms) st =
     Option.bind (client_frame zv fp i m st) (client_frames zv fp i ms)"

definition flush_upstream :: "connection \<Rightarrow> (io_error + unit) \<times> connection" where
  "flush_upstream conn =
     (case try_flush (c_upstream conn) (upstream_out conn) of
        (r, s, q) \<Rightarrow> (r, conn\<lparr>c_upstream := s, upstream_out := q\<rparr>))"

definition flush_client :: "connection \<Rightarrow> (io_error + unit) \<times> connection" where
  "flush_client conn =
     (case try_flush (c_client conn) (client_out conn) of
        (r, s, q) \<Rightarrow> (r, conn\<lparr>c_client := s, client_out := q\<rparr>))"

text \<open>No frame in this chunk: forward it with every descriptor received so far.\<close>

definition client_fast_path :: "feed_outcome \<Rightarrow> connection \<Rightarrow> (io_error + pump_outcome) \<times> connection" where
  "client_fast_path out conn =
     (let pkt = \<lparr>p_bytes = outbound out, p_fds = client_in_fds conn\<rparr>;
          conn1 = conn\<lparr>client_in_fds := [], upstream_out := upstream_out conn @ [pkt]\<rparr>;
          (r, conn2) = flush_upstream conn1 in
      (map_sum id (\<lambda>_. Active) r, conn2))"

definition client_slow_path ::
  "zvariant \<Rightarrow> fp_ops \<Rightarrow> conn_id \<Rightarrow> feed_outcome \<Rightarrow> connection \<Rightarrow> fcitx_event list \<Rightarrow>
     ((io_error + pump_outcome) \<times> connection \<times> fcitx_event list) option" where
  "client_slow_path zv fp i out conn events =
     (let start = fst (hd (frame_ranges out));
          conn1 = (if start > 0
                   then conn\<lparr>upstream_out := upstream_out conn @ [bytes_only (take start (outbound out))]\<rparr>
                   else conn) in
      Option.bind (client_frames zv fp i (frames_of out) (conn1, events)) (\<lambda>(conn2, events').
      let (r, conn3) = flush_upstream conn2 in
      case r of
        Inl e \<Rightarrow> Some (Inl e, conn3, events')
      | Inr _ \<Rightarrow>
          (let (r', conn4) = flush_client conn3 in
           Some (map_sum id (\<lambda>_. Active) r', conn4, events'))))"

definition client_received ::
  "zvariant \<Rightarrow> fp_ops \<Rightarrow> conn_id \<Rightarrow> bytes \<Rightarrow> fd list \<Rightarrow> connection \<Rightarrow> fcitx_event list \<Rightarrow>
     ((io_error + pump_outcome) \<times> connection \<times> fcitx_event list) option" where
  "client_received zv fp i buf fds conn events =
     (let conn1 = conn\<lparr>client_in_fds := client_in_fds conn @ fds\<rparr>;
          (fed, st) = feed_from_client (c_state conn1) buf;
          conn2 = conn1\<lparr>c_state := st\<rparr> in
      case fed of
        Inl e \<Rightarrow> Some (Inl InvalidData, conn2, events)
      | Inr out \<Rightarrow>
          if frame_ranges out = []
          then (let (r, conn3) = client_fast_path out conn2 in Some (r, conn3, events))
          else client_slow_path zv fp i out conn2 events)"

definition conn_pump_client ::
  "zvariant \<Rightarrow> fp_ops \<Rightarrow> conn_id \<Rightarrow> connection \<Rightarrow> fcitx_event list \<Rightarrow>
     ((io_error + pump_outcome) \<times> connection \<times> fcitx_event list) option" where
  "conn_pump_client zv fp i conn events =
     (case recvmsg_with_fds (c_client conn) of
        (Inl e, sock) \<Rightarrow>
          Some (if e = WouldBlock \<or> e = Interrupted then Inr Active else Inl e,
                conn\<lparr>c_client := sock\<rparr>, events)
      | (Inr (buf, fds), sock) \<Rightarrow>
          if buf = [] then Some (Inr PeerClosed, conn\<lparr>c_client := sock\<rparr>, events)
          else client_received zv fp i buf fds (conn\<lparr>c_client := sock\<rparr>) events)"

definition pump_client_to_upstream ::
  "zvariant \<Rightarrow> fp_ops \<Rightarrow> conn_id \<Rightarrow> dbus_broker \<Rightarrow> ((io_error + pump_outcome) \<times> dbus_broker) option" where
  "pump_client_to_upstream zv fp i b =
     (case connections b i of
        None \<Rightarrow> Some (Inr PeerClosed, b)
      | Some conn \<Rightarrow>
          map_option (\<lambda>(r, conn', events).
              (r, b\<lparr>connections := (connections b)(i \<mapsto> conn'), b_events := events\<rparr>))
            (conn_pump_client zv fp i conn (b_events b)))"

section \<open>Upstream to client\<close>

text \<open>What the broker learns from an upstream frame about fcitx5's unique name.\<close>

definition observe_frame :: "zvariant \<Rightarrow> frame \<Rightarrow> connection \<Rightarrow> connection" where
  "observe_frame zv f conn =
     (case f_kind f of
        MethodReturn \<Rightarrow>
          (case h_reply_serial (f_headers f) of
             None \<Rightarrow> conn
           | Some n \<Rightarrow>
               (case pending_name_lookups conn n of
                  None \<Rightarrow> conn
                | Some looked_up \<Rightarrow>
                    (let conn1 = conn\<lparr>pending_name_lookups := (pending_name_lookups conn)(n := None)\<rparr> in
                     case decode_body zv as_string f of
                       Some owner \<Rightarrow> conn1\<lparr>fcitx_server_name := Some owner\<rparr>
                     | None \<Rightarrow> conn1)))
      | Signal \<Rightarrow>
          if is_name_owner_changed_signal f then
            (case decode_body zv as_string3 f of
               None \<Rightarrow> conn
             | Some (n, old, new) \<Rightarrow>
                 if is_fcitx_well_known n then
                   (if new = [] then conn\<lparr>fcitx_server_name := None\<rparr>
                    else conn\<lparr>fcitx_server_name := Some new\<rparr>)
                 else conn)
          else conn
      | _ \<Rightarrow> conn)"

text \<open>A complete frame taken from \<open>upstream_buf\<close>.\<close>

definition upstream_frame :: "zvariant \<Rightarrow> bytes \<Rightarrow> connection \<Rightarrow> connection" where
  "upstream_frame zv msg conn =
     (case parse_frame zv msg of
        Inl e \<Rightarrow> conn\<lparr>client_out := client_out conn @ [bytes_only msg], upstream_in_fds := []\<rparr>
      | Inr f \<Rightarrow>
          (let (msg_fds, rest) = pop_fds (declared_fds f) (upstream_in_fds conn);
               conn1 = observe_frame zv f (conn\<lparr>upstream_in_fds := rest\<rparr>) in
           conn1\<lparr>client_out := client_out conn1 @ [\<lparr>p_bytes = msg, p_fds = msg_fds\<rparr>]\<rparr>))"

lemma upstream_frame_buf [simp]: "upstream_buf (upstream_frame zv msg conn) = upstream_buf conn"
  by (auto simp: upstream_frame_def observe_frame_def Let_def
      split: sum.split prod.split message_kind.split option.split)

function upstream_loop :: "zvariant \<Rightarrow> connection \<Rightarrow> connection" where
  "upstream_loop zv conn =
     (case bytes_needed (upstream_buf conn) of
        Inr None \<Rightarrow> conn
      | Inl e \<Rightarrow>
          conn\<lparr>upstream_buf := [],
               client_out := client_out conn
                 @ (if upstream_buf conn = [] then [] else [bytes_only (upstream_buf conn)]),
               upstream_in_fds := []\<rparr>
      | Inr (Some n) \<Rightarrow>
          if length (upstream_buf conn) < n then conn
          else upstream_loop zv
                 (upstream_frame zv (take n (upstream_buf conn))
                    (conn\<lparr>upstream_buf := drop n (upstream_buf conn)\<rparr>)))"
  by pat_completeness auto
termination
  by (relation "measure (\<lambda>(zv, conn). length (upstream_buf conn))") (auto dest: bytes_needed_ge)

declare upstream_loop.simps [simp del]

definition conn_pump_upstream ::
  "zvariant \<Rightarrow> connection \<Rightarrow> (io_error + pump_outcome) \<times> connection" where
  "conn_pump_upstream zv conn =
     (case recvmsg_with_fds (c_upstream conn) of
        (Inl e, sock) \<Rightarrow>
          (if e = WouldBlock \<or> e = Interrupted then Inr Active else Inl e, conn\<lparr>c_upstream := sock\<rparr>)
      | (Inr (buf, fds), sock) \<Rightarrow>
          if buf = [] then (Inr PeerClosed, conn\<lparr>c_upstream := sock\<rparr>)
          else
            (let conn1 = conn\<lparr>c_upstream := sock, upstream_in_fds := upstream_in_fds conn @ fds\<rparr>;
                 conn2 =
                   (if \<not> is_authenticated (c_state conn1)
                    then conn1\<lparr>upstream_in_fds := [],
                               client_out := client_out conn1
                                 @ [\<lparr>p_bytes = buf, p_fds = upstream_in_fds conn1\<rparr>]\<rparr>
                    else upstream_loop zv (conn1\<lparr>upstream_buf := upstream_buf conn1 @ buf\<rparr>));
                 (r, conn3) = flush_client conn2 in
             (map_sum id (\<lambda>_. Active) r, conn3)))"

definition pump_upstream_to_client ::
  "zvariant \<Rightarrow> conn_id \<Rightarrow> dbus_broker \<Rightarrow> (io_error + pump_outcome) \<times> dbus_broker" where
  "pump_upstream_to_client zv i b =
     (case connections b i of
        None \<Rightarrow> (Inr PeerClosed, b)
      | Some conn \<Rightarrow>
          (case conn_pump_upstream zv conn of
             (r, conn') \<Rightarrow> (r, b\<lparr>connections := (connections b)(i \<mapsto> conn')\<rparr>)))"

section \<open>Signals to the client, flushing\<close>

definition conn_emit :: "zvariant \<Rightarrow> frame \<Rightarrow> connection \<Rightarrow> (io_error + unit) \<times> connection" where
  "conn_emit zv f conn =
     flush_client (conn\<lparr>client_out := client_out conn @ [bytes_only (encode_frame zv f)]\<rparr>)"

definition signal_sender :: "connection \<Rightarrow> string" where
  "signal_sender conn = (case fcitx_server_name conn of None \<Rightarrow> SIGNAL_SENDER | Some s \<Rightarrow> s)"

definition commit_string_frame :: "zvariant \<Rightarrow> u32 \<Rightarrow> string \<Rightarrow> string \<Rightarrow> string \<Rightarrow> frame" where
  "commit_string_frame zv serial sender p t =
     fb_build (with_body zv (AStr t) (with_sender sender (with_serial serial
       (fb_signal p INPUT_CONTEXT_INTERFACE ''CommitString''))))"

definition emit_commit_string ::
  "zvariant \<Rightarrow> conn_id \<Rightarrow> string \<Rightarrow> string \<Rightarrow> dbus_broker \<Rightarrow> (io_error + unit) \<times> dbus_broker" where
  "emit_commit_string zv i p t b =
     (case connections b i of
        None \<Rightarrow> (Inr (), b)
      | Some c \<Rightarrow>
          (let (serial, ctr) = bump (c_serial_counter c);
               (r, c') = conn_emit zv (commit_string_frame zv serial (signal_sender c) p t)
                           (c\<lparr>c_serial_counter := ctr\<rparr>) in
           (r, b\<lparr>connections := (connections b)(i \<mapsto> c')\<rparr>)))"

definition preedit_frame ::
  "zvariant \<Rightarrow> u32 \<Rightarrow> string \<Rightarrow> string \<Rightarrow> string \<Rightarrow> (i32 \<times> i32) option \<Rightarrow> frame" where
  "preedit_frame zv serial sender p t cursor =
     (let chunks = build_preedit_chunks t cursor UNDERLINE HIGHLIGHT;
          cursor_offset = (case cursor of None \<Rightarrow> - 1 | Some (_, e) \<Rightarrow> e) in
      fb_build (bb_finish (bb_arg zv (AI32 cursor_offset) (bb_arg zv (AChunks chunks)
        (body_args (with_sender sender (with_serial serial
          (fb_signal p INPUT_CONTEXT_INTERFACE ''UpdateFormattedPreedit''))))))))"

definition emit_preedit ::
  "zvariant \<Rightarrow> conn_id \<Rightarrow> string \<Rightarrow> string \<Rightarrow> (i32 \<times> i32) option \<Rightarrow> dbus_broker \<Rightarrow>
     (io_error + unit) \<times> dbus_broker" where
  "emit_preedit zv i p t cursor b =
     (case connections b i of
        None \<Rightarrow> (Inr (), b)
      | Some c \<Rightarrow>
          (let (serial, ctr) = bump (c_serial_counter c);
               (r, c') = conn_emit zv (preedit_frame zv serial (signal_sender c) p t cursor)
                           (c\<lparr>c_serial_counter := ctr\<rparr>) in
           (r, b\<lparr>connections := (connections b)(i \<mapsto> c')\<rparr>)))"

definition flush_upstream_out :: "conn_id \<Rightarrow> dbus_broker \<Rightarrow> (io_error + bool) \<times> dbus_broker" where
  "flush_upstream_out i b =
     (case connections b i of
        None \<Rightarrow> (Inr False, b)
      | Some c \<Rightarrow>
          (case flush_upstream c of
             (r, c') \<Rightarrow>
               (map_sum id (\<lambda>_. upstream_out c' \<noteq> []) r, b\<lparr>connections := (connections b)(i \<mapsto> c')\<rparr>)))"

definition flush_client_out :: "conn_id \<Rightarrow> dbus_broker \<Rightarrow> (io_error + bool) \<times> dbus_broker" where
  "flush_client_out i b =
     (case connections b i of
        None \<Rightarrow> (Inr False, b)
      | Some c \<Rightarrow>
          (case flush_client c of
             (r, c') \<Rightarrow>
               (map_sum id (\<lambda>_. client_out c' \<noteq> []) r, b\<lparr>connections := (connections b)(i \<mapsto> c')\<rparr>)))"

end
