(* ===== verification/Ime.thy ===== *)
theory Ime
  imports Apps Proxy
begin

text \<open>
  \<open>crates/emskin/src/state/ime.rs\<close>: the bridge between the host input method and the clients,
  with its owner (nobody, a text_input_v3 client, a fcitx5 input context), the caret area it
  reports to the host, the per-owner cache and the debounce of the burst after a FocusIn.

  Calls on smithay's \<open>TextInputHandle\<close> are appended to \<open>ti_calls\<close>; calls on the winit window are
  the result of \<open>sync_to_winit\<close>.
\<close>

section \<open>State\<close>

datatype ime_owner = OwnNone | OwnTip surface | OwnDbus conn_id string point

datatype cache_key = KeyTip surface | KeyDbus conn_id string

datatype ti_call =
    TiSetFocus "surface option"
  | TiEnter
  | TiLeave
  | TiPreedit "string option" i32 i32
  | TiCommit "string option"
  | TiDone bool

datatype winit_call = SetImeAllowed bool | SetImeCursorArea point point

datatype host_ime = ImeEnabled | ImePreedit string "(nat \<times> nat) option" | ImeCommit string | ImeDisabled

type_synonym ime_area = "point \<times> point"

record ime_bridge =
  focused_surface :: "surface option"
  owner :: ime_owner
  cursor :: "ime_area option"
  cursor_is_real :: bool
  cursor_cache :: "(cache_key \<times> rect) list"
  tip_snapshot :: "rect option"
  dbus_focused_at :: "instant option"
  dbus_cursor_received :: bool
  prefix_active :: bool
  last_applied_ime_allowed :: bool
  last_applied_cursor_area :: "ime_area option"
  ti_calls :: "ti_call list"

text \<open>300 ms in nanoseconds.\<close>

definition FOCUS_IN_CURSOR_RECT_SETTLE :: nat where
  "FOCUS_IN_CURSOR_RECT_SETTLE = 300 * 1000000"

definition NO_CURSOR :: "i32 \<times> i32" where
  "NO_CURSOR = (- 1, - 1)"

fun same_identity_as :: "ime_owner \<Rightarrow> ime_owner \<Rightarrow> bool" where
  "same_identity_as OwnNone OwnNone = True"
| "same_identity_as (OwnTip a) (OwnTip b) = (a = b)"
| "same_identity_as (OwnDbus ac ap _) (OwnDbus bc bp _) = (ac = bc \<and> ap = bp)"
| "same_identity_as _ _ = False"

definition ime_new :: ime_bridge where
  "ime_new = \<lparr>focused_surface = None, owner = OwnNone, cursor = None, cursor_is_real = False,
     cursor_cache = [], tip_snapshot = None, dbus_focused_at = None, dbus_cursor_received = False,
     prefix_active = False, last_applied_ime_allowed = False, last_applied_cursor_area = None,
     ti_calls = []\<rparr>"

definition active_dbus_ic :: "ime_bridge \<Rightarrow> (conn_id \<times> string) option" where
  "active_dbus_ic b = (case owner b of OwnDbus c p _ \<Rightarrow> Some (c, p) | _ \<Rightarrow> None)"

section \<open>What the host is told\<close>

definition desired_ime_allowed :: "ime_bridge \<Rightarrow> bool" where
  "desired_ime_allowed b =
     (if prefix_active b then False
      else case owner b of OwnNone \<Rightarrow> False | OwnTip _ \<Rightarrow> True | OwnDbus _ _ _ \<Rightarrow> cursor_is_real b)"

definition desired_cursor_area :: "ime_bridge \<Rightarrow> ime_area option" where
  "desired_cursor_area b = cursor b"

definition sync_to_winit :: "ime_bridge \<Rightarrow> winit_call list \<times> ime_bridge" where
  "sync_to_winit b =
     (let want_allowed = desired_ime_allowed b;
          activating = want_allowed \<and> \<not> last_applied_ime_allowed b;
          (calls1, b1) =
            (if want_allowed \<noteq> last_applied_ime_allowed b
             then ([SetImeAllowed want_allowed], b\<lparr>last_applied_ime_allowed := want_allowed\<rparr>)
             else ([], b))
      in case desired_cursor_area b1 of
           None \<Rightarrow> (calls1, b1)
         | Some (pos, sz) \<Rightarrow>
             (let changed = last_applied_cursor_area b1 \<noteq> Some (pos, sz) in
              if changed \<or> activating
              then (calls1 @ [SetImeCursorArea pos sz], b1\<lparr>last_applied_cursor_area := Some (pos, sz)\<rparr>)
              else (calls1, b1)))"

section \<open>The text-input handle\<close>

text \<open>The surface that the handle's \<open>enter\<close>, \<open>leave\<close> and \<open>with_focused_text_input\<close> reach: the
  last one given to \<open>set_focus\<close>.\<close>

definition ti_focus :: "ti_call list \<Rightarrow> surface option" where
  "ti_focus calls = foldl (\<lambda>f c. case c of TiSetFocus s \<Rightarrow> s | _ \<Rightarrow> f) None calls"

definition ti_push :: "ti_call list \<Rightarrow> ime_bridge \<Rightarrow> ime_bridge" where
  "ti_push cs b = b\<lparr>ti_calls := ti_calls b @ cs\<rparr>"

definition focused_client_has_text_input :: "'sp env \<Rightarrow> ime_bridge \<Rightarrow> bool" where
  "focused_client_has_text_input e b = ti_bound e (ti_focus (ti_calls b))"

definition transition_focus :: "surface option \<Rightarrow> surface option \<Rightarrow> ti_call list" where
  "transition_focus old new =
     (if old = new then []
      else (if old \<noteq> None then [TiSetFocus old, TiLeave] else []) @
           [TiSetFocus new] @ (if new \<noteq> None then [TiEnter] else []))"

section \<open>Owner transitions\<close>

definition app_loc :: "'sp env \<Rightarrow> surface option \<Rightarrow> app_manager \<Rightarrow> point" where
  "app_loc e s am =
     (case Option.bind s (\<lambda>wl. surface_geometry e wl am) of None \<Rightarrow> (0, 0) | Some g \<Rightarrow> rect_loc g)"

definition translate :: "rect \<Rightarrow> point \<Rightarrow> ime_area" where
  "translate r l = ((fst l + loc_x r, snd l + loc_y r), (i32_max (size_w r) 1, i32_max (size_h r) 1))"

definition cleared :: "ime_bridge \<Rightarrow> ime_bridge" where
  "cleared b = b\<lparr>cursor := None, cursor_is_real := False, tip_snapshot := None,
     dbus_focused_at := None, dbus_cursor_received := False\<rparr>"

definition set_owner :: "'sp env \<Rightarrow> ime_owner \<Rightarrow> app_manager \<Rightarrow> ime_bridge \<Rightarrow> ime_bridge" where
  "set_owner e new am b =
     (if same_identity_as (owner b) new then b
      else let b1 = cleared (b\<lparr>owner := new\<rparr>) in
        case new of
          OwnNone \<Rightarrow> b1
        | OwnTip s \<Rightarrow>
            (let b2 = b1\<lparr>tip_snapshot := ti_rect e\<rparr> in
             case map_of (cursor_cache b2) (KeyTip s) of
               Some r \<Rightarrow> b2\<lparr>cursor := Some (translate r (app_loc e (Some s) am)), cursor_is_real := True\<rparr>
             | None \<Rightarrow> b2\<lparr>cursor := Some (app_loc e (Some s) am, (1, 1))\<rparr>)
        | OwnDbus c p origin \<Rightarrow>
            (let b2 = b1\<lparr>dbus_focused_at := Some (clock e)\<rparr> in
             case map_of (cursor_cache b2) (KeyDbus c p) of
               Some r \<Rightarrow> b2\<lparr>cursor := Some (translate r origin), cursor_is_real := True\<rparr>
             | None \<Rightarrow> b2))"

definition clear_owner :: "ime_bridge \<Rightarrow> ime_bridge" where
  "clear_owner b = (if owner b = OwnNone then b else cleared (b\<lparr>owner := OwnNone\<rparr>))"

section \<open>Caret reports\<close>

definition report_dbus_cursor ::
  "'sp env \<Rightarrow> conn_id \<Rightarrow> string \<Rightarrow> rect \<Rightarrow> ime_bridge \<Rightarrow> ime_bridge" where
  "report_dbus_cursor e c p r b =
     (case owner b of
        OwnDbus oc oi origin \<Rightarrow>
          if oc \<noteq> c \<or> oi \<noteq> p then b
          else
            (let in_settle = (case dbus_focused_at b of None \<Rightarrow> False
                              | Some t \<Rightarrow> clock e - t < FOCUS_IN_CURSOR_RECT_SETTLE) in
             if dbus_cursor_received b \<and> in_settle then b
             else b\<lparr>cursor := Some (translate r origin), cursor_is_real := True,
                    dbus_cursor_received := True,
                    cursor_cache := AList.update (KeyDbus c p) r (cursor_cache b)\<rparr>)
      | _ \<Rightarrow> b)"

definition report_tip_cursor_change :: "'sp env \<Rightarrow> app_manager \<Rightarrow> ime_bridge \<Rightarrow> ime_bridge" where
  "report_tip_cursor_change e am b =
     (case owner b of
        OwnTip s \<Rightarrow>
          (case ti_rect e of
             None \<Rightarrow> b
           | Some current \<Rightarrow>
               if Some current = tip_snapshot b then b
               else b\<lparr>tip_snapshot := Some current,
                      cursor := Some (translate current (app_loc e (Some s) am)),
                      cursor_is_real := True,
                      cursor_cache := AList.update (KeyTip s) current (cursor_cache b)\<rparr>)
      | _ \<Rightarrow> b)"

definition poll_tip_freshness :: "'sp env \<Rightarrow> app_manager \<Rightarrow> ime_bridge \<Rightarrow> ime_bridge" where
  "poll_tip_freshness e am b =
     (let b1 = (if owner b = OwnNone
                then case focused_surface b of
                       None \<Rightarrow> b
                     | Some s \<Rightarrow> if focused_client_has_text_input e b then set_owner e (OwnTip s) am b else b
                else b) in
      case owner b1 of OwnTip _ \<Rightarrow> report_tip_cursor_change e am b1 | _ \<Rightarrow> b1)"

section \<open>Override and reset\<close>

definition set_prefix_active :: "bool \<Rightarrow> ime_bridge \<Rightarrow> ime_bridge" where
  "set_prefix_active active b = (if prefix_active b \<noteq> active then b\<lparr>prefix_active := active\<rparr> else b)"

definition ime_reset_on_workspace_switch :: "ime_bridge \<Rightarrow> ime_bridge" where
  "ime_reset_on_workspace_switch b =
     (cleared (b\<lparr>focused_surface := None, owner := OwnNone\<rparr>))\<lparr>cursor_cache := [], prefix_active := False\<rparr>"

section \<open>Events\<close>

definition on_fcitx_event ::
  "'sp env \<Rightarrow> fcitx_event \<Rightarrow> point option \<Rightarrow> app_manager \<Rightarrow> ime_bridge \<Rightarrow> ime_bridge" where
  "on_fcitx_event e ev app_origin am b =
     (case ev of
        FocusChanged c p focused \<Rightarrow>
          if focused
          then set_owner e (OwnDbus c p (case app_origin of None \<Rightarrow> (0, 0) | Some o' \<Rightarrow> o')) am b
          else (if active_dbus_ic b = Some (c, p) then clear_owner b else b)
      | CursorRect c p x y w h \<Rightarrow>
          report_dbus_cursor e c p \<lparr>loc_x = x, loc_y = y, size_w = w, size_h = h\<rparr> b
      | IcDestroyed c p \<Rightarrow>
          (let b1 = (if active_dbus_ic b = Some (c, p) then clear_owner b else b) in
           b1\<lparr>cursor_cache := AList.delete (KeyDbus c p) (cursor_cache b1)\<rparr>))"

definition ime_on_focus_changed ::
  "'sp env \<Rightarrow> surface option \<Rightarrow> app_manager \<Rightarrow> ime_bridge \<Rightarrow> ime_bridge" where
  "ime_on_focus_changed e new_focus am b =
     (let b1 = (ti_push (transition_focus (focused_surface b) new_focus) b)\<lparr>focused_surface := new_focus\<rparr>;
          new_owner = (case new_focus of
              Some s \<Rightarrow> if focused_client_has_text_input e b1 then OwnTip s else OwnNone
            | None \<Rightarrow> OwnNone) in
      set_owner e new_owner am b1)"

text \<open>\<open>b as i32\<close> of a \<open>usize\<close>.\<close>

definition on_host_ime_event ::
  "'sp env \<Rightarrow> host_ime \<Rightarrow> app_manager \<Rightarrow> ime_bridge \<Rightarrow> ime_bridge" where
  "on_host_ime_event e ev am b =
     (let b1 = report_tip_cursor_change e am b;
          with_client = (\<lambda>cs. if focused_client_has_text_input e b1 then cs else []) in
      case ev of
        ImeEnabled \<Rightarrow> ti_push [TiEnter] b1
      | ImePreedit text cur \<Rightarrow>
          (let (pb, pe) = (case cur of None \<Rightarrow> NO_CURSOR | Some (s, t) \<Rightarrow> (word_of_nat s, word_of_nat t)) in
           ti_push (with_client [TiPreedit (Some text) pb pe] @ [TiDone False]) b1)
      | ImeCommit text \<Rightarrow>
          ti_push (with_client [TiPreedit None 0 0, TiCommit (Some text)] @ [TiDone False]) b1
      | ImeDisabled \<Rightarrow> ti_push (with_client [TiPreedit None 0 0] @ [TiDone False, TiLeave]) b1)"

end
