(* ===== verification/Host_State.thy ===== *)
theory Host_State
  imports World
begin

text \<open>
  The small state objects of the compositor: the cursor image and raw pointer tracking
  (\<open>state/cursor.rs\<close>), the Emacs process and its main surface (\<open>state/emacs.rs\<close>), the saved focus
  of the overrides (\<open>FocusState\<close> of \<open>state/mod.rs\<close>).

  A child process is its pid; the pids killed and waited for are kept in \<open>reaped\<close>. The difference
  of two floating-point positions is a parameter.
\<close>

section \<open>Cursor\<close>

datatype cursor_image = Hidden | Named string | SurfaceImage surface

type_synonym fpoint = "64 word \<times> 64 word"

record cursor_state =
  cur_status :: cursor_image
  cur_changed :: bool
  last_raw_loc :: "fpoint option"

definition default_named :: cursor_image where
  "default_named = Named ''default''"

definition cursor_default :: cursor_state where
  "cursor_default = \<lparr>cur_status = default_named, cur_changed = False, last_raw_loc = None\<rparr>"

definition set_image :: "cursor_image \<Rightarrow> cursor_state \<Rightarrow> cursor_state" where
  "set_image i c = c\<lparr>cur_status := i, cur_changed := True\<rparr>"

definition take_changed :: "cursor_state \<Rightarrow> cursor_image option \<times> cursor_state" where
  "take_changed c = (if cur_changed c then (Some (cur_status c), c\<lparr>cur_changed := False\<rparr>) else (None, c))"

definition ensure_alive :: "'sp env \<Rightarrow> cursor_state \<Rightarrow> cursor_state" where
  "ensure_alive e c =
     (case cur_status c of
        SurfaceImage s \<Rightarrow> if srf_alive e s then c else c\<lparr>cur_status := default_named, cur_changed := True\<rparr>
      | _ \<Rightarrow> c)"

definition cursor_reset_on_workspace_switch :: "cursor_state \<Rightarrow> cursor_state" where
  "cursor_reset_on_workspace_switch c =
     (case cur_status c of
        SurfaceImage _ \<Rightarrow> c\<lparr>cur_status := default_named, cur_changed := True\<rparr>
      | _ \<Rightarrow> c)"

definition consume_raw_location ::
  "(fpoint \<Rightarrow> fpoint \<Rightarrow> fpoint) \<Rightarrow> fpoint \<Rightarrow> cursor_state \<Rightarrow> fpoint \<times> cursor_state" where
  "consume_raw_location minus_fp new_abs c =
     ((case last_raw_loc c of Some prev \<Rightarrow> minus_fp new_abs prev | None \<Rightarrow> (0, 0)),
      c\<lparr>last_raw_loc := Some new_abs\<rparr>)"

section \<open>Emacs\<close>

record emacs_state =
  em_surface :: "surface option"
  em_child :: "nat option"
  em_title :: "string option"
  em_app_id :: "string option"
  em_detect :: bool
  initial_size_settled :: bool
  pending_fullscreen :: "bool option"
  pending_maximize :: "bool option"
  child_frame_rects :: "rect list"
  reaped :: "nat list"

definition emacs_new :: "bool \<Rightarrow> emacs_state" where
  "emacs_new detect = \<lparr>em_surface = None, em_child = None, em_title = None, em_app_id = None,
     em_detect = detect, initial_size_settled = False, pending_fullscreen = None,
     pending_maximize = None, child_frame_rects = [], reaped = []\<rparr>"

definition set_child_frame_rects :: "rect list \<Rightarrow> emacs_state \<Rightarrow> emacs_state" where
  "set_child_frame_rects rs m = m\<lparr>child_frame_rects := rs\<rparr>"

definition em_set_surface :: "surface option \<Rightarrow> emacs_state \<Rightarrow> emacs_state" where
  "em_set_surface s m = m\<lparr>em_surface := s\<rparr>"

definition em_take_surface :: "emacs_state \<Rightarrow> surface option \<times> emacs_state" where
  "em_take_surface m = (em_surface m, m\<lparr>em_surface := None\<rparr>)"

definition is_main_surface :: "surface \<Rightarrow> emacs_state \<Rightarrow> bool" where
  "is_main_surface candidate m = (em_surface m = Some candidate)"

definition has_main_surface :: "emacs_state \<Rightarrow> bool" where
  "has_main_surface m = (em_surface m \<noteq> None)"

definition set_child :: "nat \<Rightarrow> emacs_state \<Rightarrow> emacs_state" where
  "set_child pid m =
     (case em_child m of
        Some old \<Rightarrow> m\<lparr>em_child := Some pid, reaped := reaped m @ [old]\<rparr>
      | None \<Rightarrow> m\<lparr>em_child := Some pid\<rparr>)"

definition take_child :: "emacs_state \<Rightarrow> nat option \<times> emacs_state" where
  "take_child m = (em_child m, m\<lparr>em_child := None\<rparr>)"

definition set_title :: "string \<Rightarrow> emacs_state \<Rightarrow> emacs_state" where
  "set_title t m = m\<lparr>em_title := Some t\<rparr>"

definition take_title :: "emacs_state \<Rightarrow> string option \<times> emacs_state" where
  "take_title m = (em_title m, m\<lparr>em_title := None\<rparr>)"

definition set_app_id :: "string \<Rightarrow> emacs_state \<Rightarrow> emacs_state" where
  "set_app_id a m = m\<lparr>em_app_id := Some a\<rparr>"

definition request_fullscreen :: "bool \<Rightarrow> emacs_state \<Rightarrow> emacs_state" where
  "request_fullscreen f m = m\<lparr>pending_fullscreen := Some f\<rparr>"

definition take_pending_fullscreen :: "emacs_state \<Rightarrow> bool option \<times> emacs_state" where
  "take_pending_fullscreen m = (pending_fullscreen m, m\<lparr>pending_fullscreen := None\<rparr>)"

definition request_maximize :: "bool \<Rightarrow> emacs_state \<Rightarrow> emacs_state" where
  "request_maximize f m = m\<lparr>pending_maximize := Some f\<rparr>"

definition take_pending_maximize :: "emacs_state \<Rightarrow> bool option \<times> emacs_state" where
  "take_pending_maximize m = (pending_maximize m, m\<lparr>pending_maximize := None\<rparr>)"

definition mark_size_settled :: "emacs_state \<Rightarrow> emacs_state" where
  "mark_size_settled m = m\<lparr>initial_size_settled := True\<rparr>"

definition should_claim_main :: "emacs_state \<Rightarrow> bool" where
  "should_claim_main m \<longleftrightarrow> em_detect m \<and> em_surface m = None \<and> \<not> initial_size_settled m"

definition main_died :: "'sp env \<Rightarrow> emacs_state \<Rightarrow> bool" where
  "main_died e m \<longleftrightarrow> em_detect m \<and> initial_size_settled m \<and>
     (case em_surface m of None \<Rightarrow> False | Some s \<Rightarrow> \<not> srf_alive e s)"

section \<open>Focus overrides\<close>

datatype focus_override = Prefix | LayerOverride | Host

type_synonym focus_state = "(focus_override \<times> focus_target option) list"

definition focus_enter :: "focus_override \<Rightarrow> focus_target option \<Rightarrow> focus_state \<Rightarrow> focus_state" where
  "focus_enter kind current f = AList.update kind current f"

definition focus_exit :: "focus_override \<Rightarrow> focus_state \<Rightarrow> focus_target option option \<times> focus_state" where
  "focus_exit kind f = (map_of f kind, AList.delete kind f)"

definition is_active :: "focus_override \<Rightarrow> focus_state \<Rightarrow> bool" where
  "is_active kind f = (map_of f kind \<noteq> None)"

definition focus_reset_on_workspace_switch :: "focus_state \<Rightarrow> focus_state" where
  "focus_reset_on_workspace_switch f = []"

lemma focus_exit_enter:
  "fst (focus_exit k (focus_enter k c f)) = Some c"
  "k' \<noteq> k \<Longrightarrow> fst (focus_exit k' (focus_enter k c f)) = fst (focus_exit k' f)"
  "is_active k' (snd (focus_exit k f)) \<longleftrightarrow> k' \<noteq> k \<and> is_active k' f"
  by (simp_all add: focus_exit_def focus_enter_def is_active_def update_conv' delete_conv')

end
