(* ===== verification/Selection.thy ===== *)
theory Selection
  imports World
begin

text \<open>
  Clipboard and primary selection: \<open>handlers/selection.rs\<close>, \<open>clipboard_bridge.rs\<close>, \<open>SelectionState\<close> of
  \<open>state/mod.rs\<close> and the interface \<open>ClipboardBackend\<close> of \<open>crates/emskin-clipboard/src/backend.rs\<close>.

  The backend, smithay's data devices and dropped descriptors are seen through the calls made on
  them, in order, in \<open>sel_calls\<close>; a descriptor is a number. The pipes registered with the event
  loop are \<open>sel_pipes\<close>, with the bytes drained so far.
\<close>

section \<open>State\<close>

datatype selection_kind = KClipboard | KPrimary

datatype selection_target = Clipboard | Primary

datatype selection_origin = OriginWayland | OriginHost

datatype clipboard_event =
    HostSelectionChanged selection_kind "string list"
  | HostSendRequest selection_kind string nat "(u64 \<times> nat) option"
  | SourceCancelled selection_kind

datatype sel_call =
    SetHostSelection selection_kind "string list"
  | ClearHostSelection selection_kind
  | ReceiveFromHost selection_kind string nat
  | CompleteOutgoing u64 bytes
  | SetClientSelection selection_target "string list"
  | ClearClientSelection selection_target
  | RequestClientSelection selection_target string nat
  | DropFd nat
  | FlushClients

record outgoing_pipe =
  pipe_id :: u64
  pipe_fd :: nat
  pipe_buf :: bytes

record selection_state =
  sel_clipboard :: bool
  clipboard_origin :: selection_origin
  primary_origin :: selection_origin
  sel_pipes :: "outgoing_pipe list"
  sel_calls :: "sel_call list"

definition origin_default :: selection_origin where
  "origin_default = OriginWayland"

definition selection_default :: selection_state where
  "selection_default = \<lparr>sel_clipboard = False, clipboard_origin = origin_default,
     primary_origin = origin_default, sel_pipes = [], sel_calls = []\<rparr>"

fun to_kind :: "selection_target \<Rightarrow> selection_kind" where
  "to_kind Clipboard = KClipboard"
| "to_kind Primary = KPrimary"

fun to_target :: "selection_kind \<Rightarrow> selection_target" where
  "to_target KClipboard = Clipboard"
| "to_target KPrimary = Primary"

fun origin_of :: "selection_target \<Rightarrow> selection_state \<Rightarrow> selection_origin" where
  "origin_of Clipboard s = clipboard_origin s"
| "origin_of Primary s = primary_origin s"

fun set_origin :: "selection_target \<Rightarrow> selection_origin \<Rightarrow> selection_state \<Rightarrow> selection_state" where
  "set_origin Clipboard o' s = s\<lparr>clipboard_origin := o'\<rparr>"
| "set_origin Primary o' s = s\<lparr>primary_origin := o'\<rparr>"

definition sel_call :: "sel_call \<Rightarrow> selection_state \<Rightarrow> selection_state" where
  "sel_call c s = s\<lparr>sel_calls := sel_calls s @ [c]\<rparr>"

text \<open>\<open>if let Some(ref mut clipboard) = self.selection.clipboard\<close>.\<close>

definition backend_call :: "sel_call \<Rightarrow> selection_state \<Rightarrow> selection_state" where
  "backend_call c s = (if sel_clipboard s then sel_call c s else s)"

section \<open>Clients' selections\<close>

definition new_selection ::
  "bool \<Rightarrow> selection_target \<Rightarrow> string list option \<Rightarrow> selection_state \<Rightarrow> selection_state" where
  "new_selection ipc_connected ty source s =
     (case source of
        Some mime_types \<Rightarrow>
          (let s1 = set_origin ty OriginWayland s in
           if ipc_connected then backend_call (SetHostSelection (to_kind ty) mime_types) s1 else s1)
      | None \<Rightarrow> backend_call (ClearHostSelection (to_kind ty)) s)"

definition send_selection :: "selection_target \<Rightarrow> string \<Rightarrow> nat \<Rightarrow> selection_state \<Rightarrow> selection_state" where
  "send_selection ty mime_type fd s =
     (case origin_of ty s of
        OriginWayland \<Rightarrow> sel_call (DropFd fd) s
      | OriginHost \<Rightarrow>
          if sel_clipboard s then sel_call (ReceiveFromHost (to_kind ty) mime_type fd) s
          else sel_call (DropFd fd) s)"

section \<open>The host's selections\<close>

definition inject_host_selection :: "selection_target \<Rightarrow> string list \<Rightarrow> selection_state \<Rightarrow> selection_state" where
  "inject_host_selection target mime_types s =
     (if mime_types = [] then set_origin target origin_default (sel_call (ClearClientSelection target) s)
      else set_origin target OriginHost (sel_call (SetClientSelection target mime_types) s))"

definition forward_client_selection ::
  "selection_target \<Rightarrow> string \<Rightarrow> nat \<Rightarrow> selection_state \<Rightarrow> selection_state" where
  "forward_client_selection target mime_type fd s =
     (case origin_of target s of
        OriginWayland \<Rightarrow> sel_call (RequestClientSelection target mime_type fd) s
      | OriginHost \<Rightarrow> sel_call (DropFd fd) s)"

text \<open>\<open>register_outgoing_pipe\<close>; \<open>ok\<close> tells whether calloop accepts the source.\<close>

definition register_outgoing_pipe :: "bool \<Rightarrow> u64 \<Rightarrow> nat \<Rightarrow> selection_state \<Rightarrow> bool \<times> selection_state" where
  "register_outgoing_pipe ok i read_fd s =
     (if ok then (True, s\<lparr>sel_pipes := sel_pipes s @ [\<lparr>pipe_id = i, pipe_fd = read_fd, pipe_buf = []\<rparr>]\<rparr>)
      else (False, sel_call (DropFd read_fd) s))"

definition handle_clipboard_event :: "bool \<Rightarrow> clipboard_event \<Rightarrow> selection_state \<Rightarrow> selection_state" where
  "handle_clipboard_event ok ev s =
     (case ev of
        HostSelectionChanged kind mime_types \<Rightarrow> inject_host_selection (to_target kind) mime_types s
      | HostSendRequest kind mime_type write_fd completion \<Rightarrow>
          (let s1 = sel_call FlushClients (forward_client_selection (to_target kind) mime_type write_fd s) in
           case completion of
             None \<Rightarrow> s1
           | Some (i, read_fd) \<Rightarrow>
               (case register_outgoing_pipe ok i read_fd s1 of
                  (True, s2) \<Rightarrow> s2
                | (False, s2) \<Rightarrow> backend_call (CompleteOutgoing i []) s2))
      | SourceCancelled kind \<Rightarrow> set_origin (to_target kind) origin_default s)"

section \<open>Draining a pipe\<close>

datatype pipe_read = PipeData bytes | PipeEof | PipeError

text \<open>The callback of the pipe source: one run over the answers of \<open>read\<close>, an exhausted script is
  \<open>WouldBlock\<close>. \<open>Inl\<close> keeps the source with its buffer, \<open>Inr\<close> removes it and hands over the data; removing the source closes the pipe.\<close>

fun pipe_loop :: "pipe_read list \<Rightarrow> bytes \<Rightarrow> bytes + bytes" where
  "pipe_loop [] buf = Inl buf"
| "pipe_loop (PipeData bs # rs) buf = (if bs = [] then Inr buf else pipe_loop rs (buf @ bs))"
| "pipe_loop (PipeEof # rs) buf = Inr buf"
| "pipe_loop (PipeError # rs) buf = Inr buf"

definition pipe_ready :: "nat \<Rightarrow> pipe_read list \<Rightarrow> selection_state \<Rightarrow> selection_state" where
  "pipe_ready k rs s =
     (if k < length (sel_pipes s) then
        (let p = sel_pipes s ! k in
         case pipe_loop rs (pipe_buf p) of
           Inl buf \<Rightarrow> s\<lparr>sel_pipes := (sel_pipes s)[k := p\<lparr>pipe_buf := buf\<rparr>]\<rparr>
         | Inr d \<Rightarrow> sel_call (DropFd (pipe_fd p)) (backend_call (CompleteOutgoing (pipe_id p) d)
             (s\<lparr>sel_pipes := take k (sel_pipes s) @ drop (Suc k) (sel_pipes s)\<rparr>)))
      else s)"

section \<open>Runs\<close>

datatype sel_op =
    OpNew bool selection_target "string list option"
  | OpSend selection_target string nat
  | OpHost bool clipboard_event
  | OpPipe nat "pipe_read list"

fun sel_step :: "sel_op \<Rightarrow> selection_state \<Rightarrow> selection_state" where
  "sel_step (OpNew c ty src) = new_selection c ty src"
| "sel_step (OpSend ty m fd) = send_selection ty m fd"
| "sel_step (OpHost ok ev) = handle_clipboard_event ok ev"
| "sel_step (OpPipe k rs) = pipe_ready k rs"

text \<open>Who owns a selection, as the last event that says so.\<close>

fun claims :: "selection_target \<Rightarrow> sel_op \<Rightarrow> selection_origin option" where
  "claims t (OpNew _ ty (Some _)) = (if ty = t then Some OriginWayland else None)"
| "claims t (OpHost _ (HostSelectionChanged k ms)) =
     (if to_target k = t then Some (if ms = [] then OriginWayland else OriginHost) else None)"
| "claims t (OpHost _ (SourceCancelled k)) = (if to_target k = t then Some OriginWayland else None)"
| "claims t _ = None"

definition last_claim :: "selection_target \<Rightarrow> sel_op list \<Rightarrow> selection_origin \<Rightarrow> selection_origin" where
  "last_claim t ops o' = foldl (\<lambda>o' op. case claims t op of None \<Rightarrow> o' | Some c \<Rightarrow> c) o' ops"

lemma origin_simps [simp]:
  "origin_of t (sel_call c s) = origin_of t s"
  "origin_of t (backend_call c s) = origin_of t s"
  "origin_of t (set_origin t' o' s) = (if t = t' then o' else origin_of t s)"
  "origin_of t (s\<lparr>sel_pipes := ps\<rparr>) = origin_of t s"
  by (cases t; cases t'; simp add: sel_call_def backend_call_def)+

lemma origin_step: "origin_of t (sel_step op s) = (case claims t op of None \<Rightarrow> origin_of t s | Some c \<Rightarrow> c)"
proof (cases op)
  case (OpNew c ty src)
  then show ?thesis by (cases src) (auto simp: new_selection_def Let_def)
next
  case (OpSend ty m fd)
  then show ?thesis by (simp add: send_selection_def split: selection_origin.splits)
next
  case (OpHost ok ev)
  then show ?thesis
    by (cases ev) (auto simp: handle_clipboard_event_def Let_def inject_host_selection_def
        forward_client_selection_def register_outgoing_pipe_def origin_default_def
        split: selection_origin.splits option.splits)
next
  case (OpPipe k rs)
  then show ?thesis by (simp add: pipe_ready_def Let_def split: sum.splits)
qed

lemma origin_run: "origin_of t (fold sel_step ops s) = last_claim t ops (origin_of t s)"
  unfolding last_claim_def by (induction ops arbitrary: s) (simp_all add: origin_step)

section \<open>Descriptors\<close>

text \<open>The descriptors an operation brings in, those a call takes over, those of open pipes.\<close>

fun fds_in :: "sel_op \<Rightarrow> nat list" where
  "fds_in (OpSend _ _ fd) = [fd]"
| "fds_in (OpHost _ (HostSendRequest _ _ w None)) = [w]"
| "fds_in (OpHost _ (HostSendRequest _ _ w (Some (_, r)))) = [w, r]"
| "fds_in _ = []"

fun fd_taken :: "sel_call \<Rightarrow> nat list" where
  "fd_taken (ReceiveFromHost _ _ fd) = [fd]"
| "fd_taken (RequestClientSelection _ _ fd) = [fd]"
| "fd_taken (DropFd fd) = [fd]"
| "fd_taken _ = []"

definition fds_held :: "selection_state \<Rightarrow> nat multiset" where
  "fds_held s = mset (concat (map fd_taken (sel_calls s))) + mset (map pipe_fd (sel_pipes s))"

text \<open>The transfers a run requests, completes and still has open.\<close>

fun transfers_in :: "sel_op \<Rightarrow> u64 list" where
  "transfers_in (OpHost _ (HostSendRequest _ _ _ (Some (i, _)))) = [i]"
| "transfers_in _ = []"

fun completed :: "sel_call \<Rightarrow> u64 list" where
  "completed (CompleteOutgoing i _) = [i]"
| "completed _ = []"

definition transfers_held :: "selection_state \<Rightarrow> u64 multiset" where
  "transfers_held s = mset (concat (map completed (sel_calls s))) + mset (map pipe_id (sel_pipes s))"

lemma sel_fields [simp]:
  "sel_calls (sel_call c s) = sel_calls s @ [c]" "sel_pipes (sel_call c s) = sel_pipes s"
  "sel_clipboard (sel_call c s) = sel_clipboard s"
  "sel_calls (set_origin t o' s) = sel_calls s" "sel_pipes (set_origin t o' s) = sel_pipes s"
  "sel_clipboard (set_origin t o' s) = sel_clipboard s"
  "sel_clipboard (backend_call c s) = sel_clipboard s"
  "sel_pipes (backend_call c s) = sel_pipes s"
  "sel_calls (backend_call c s) = sel_calls s @ (if sel_clipboard s then [c] else [])"
  by (cases t; simp add: sel_call_def backend_call_def)+

lemma mset_remove_nth:
  assumes "k < length xs"
  shows "mset (map f (take k xs)) + mset (map f (drop (Suc k) xs)) + {#f (xs ! k)#} = mset (map f xs)"
proof -
  have "mset (map f xs) = mset (map f (take k xs @ xs ! k # drop (Suc k) xs))"
    using assms by (simp only: id_take_nth_drop [symmetric])
  then show ?thesis by simp
qed

lemma pipe_update_map:
  assumes "k < length ps" and "f p' = f (ps ! k)"
  shows "image_mset f (mset (ps[k := p'])) = image_mset f (mset ps)"
  using assms by (metis list_update_id map_update mset_map)

lemma fds_step: "fds_held (sel_step op s) = fds_held s + mset (fds_in op)"
proof (cases op)
  case (OpNew c ty src)
  then show ?thesis by (cases src) (auto simp: new_selection_def Let_def fds_held_def)
next
  case (OpSend ty m fd)
  then show ?thesis by (auto simp: send_selection_def fds_held_def split: selection_origin.splits)
next
  case (OpHost ok ev)
  then show ?thesis
    by (cases ev) (auto simp: handle_clipboard_event_def Let_def inject_host_selection_def fds_held_def
        forward_client_selection_def register_outgoing_pipe_def
        split: selection_origin.splits option.splits)
next
  case (OpPipe k rs)
  then show ?thesis
    using mset_remove_nth [of k "sel_pipes s" pipe_fd] pipe_update_map [of k "sel_pipes s" pipe_fd]
    by (auto simp: pipe_ready_def Let_def fds_held_def split: sum.splits)
qed

lemma transfers_step:
  assumes "sel_clipboard s"
  shows "transfers_held (sel_step op s) = transfers_held s + mset (transfers_in op)"
proof (cases op)
  case (OpNew c ty src)
  then show ?thesis by (cases src) (auto simp: new_selection_def Let_def transfers_held_def)
next
  case (OpSend ty m fd)
  then show ?thesis by (auto simp: send_selection_def transfers_held_def split: selection_origin.splits)
next
  case (OpHost ok ev)
  then show ?thesis using assms
    by (cases ev) (auto simp: handle_clipboard_event_def Let_def inject_host_selection_def transfers_held_def
        forward_client_selection_def register_outgoing_pipe_def
        split: selection_origin.splits option.splits)
next
  case (OpPipe k rs)
  then show ?thesis
    using assms mset_remove_nth [of k "sel_pipes s" pipe_id] pipe_update_map [of k "sel_pipes s" pipe_id]
    by (auto simp: pipe_ready_def Let_def transfers_held_def split: sum.splits)
qed

lemma clipboard_step: "sel_clipboard (sel_step op s) = sel_clipboard s"
  by (cases op; auto simp: new_selection_def send_selection_def handle_clipboard_event_def
      inject_host_selection_def forward_client_selection_def register_outgoing_pipe_def
      pipe_ready_def Let_def split: option.splits selection_origin.splits clipboard_event.splits sum.splits prod.splits bool.splits if_splits)

lemma clipboard_run: "sel_clipboard (fold sel_step ops s) = sel_clipboard s"
  by (induction ops arbitrary: s) (simp_all add: clipboard_step)

lemma fds_run: "fds_held (fold sel_step ops s) = fds_held s + mset (concat (map fds_in ops))"
  by (induction ops arbitrary: s) (simp_all add: fds_step)

lemma transfers_run:
  "sel_clipboard s \<Longrightarrow>
    transfers_held (fold sel_step ops s) = transfers_held s + mset (concat (map transfers_in ops))"
  by (induction ops arbitrary: s) (simp_all add: transfers_step clipboard_step)

lemma pipe_loop_append:
  "pipe_loop (rs @ rs') buf = (case pipe_loop rs buf of Inl b \<Rightarrow> pipe_loop rs' b | Inr d \<Rightarrow> Inr d)"
  by (induction rs buf rule: pipe_loop.induct) simp_all

section \<open>Properties\<close>

definition with_backend :: selection_state where
  "with_backend = selection_default\<lparr>sel_clipboard := True\<rparr>"

text \<open>
  A paste is served by the host exactly when the host made the last claim on that selection;
  otherwise the descriptor is closed, since the clients serve each other. The two selections do
  not influence each other.
\<close>

theorem selection_routing:
  "sel_calls (send_selection t m fd (fold sel_step ops with_backend)) =
    sel_calls (fold sel_step ops with_backend) @
      [if last_claim t ops OriginWayland = OriginHost then ReceiveFromHost (to_kind t) m fd else DropFd fd]"
proof -
  have "origin_of t (fold sel_step ops with_backend) = last_claim t ops OriginWayland"
    by (cases t) (simp_all add: origin_run with_backend_def selection_default_def origin_default_def)
  moreover have "sel_clipboard (fold sel_step ops with_backend)"
    by (simp add: clipboard_run with_backend_def)
  ultimately show ?thesis
    by (auto simp: send_selection_def split: selection_origin.splits)
qed

text \<open>
  C24. No descriptor leaks and none is given away twice: over any run, the descriptors handed to
  the compositor are those passed on, closed, or held by an open pipe. Every transfer that asks
  for a completion is completed exactly once or still open.
\<close>

theorem selection_conservation:
  "fds_held (fold sel_step ops with_backend) = mset (concat (map fds_in ops)) \<and>
    transfers_held (fold sel_step ops with_backend) = mset (concat (map transfers_in ops))"
proof -
  have "fds_held with_backend = {#}" "transfers_held with_backend = {#}" "sel_clipboard with_backend"
    by (simp_all add: with_backend_def selection_default_def fds_held_def transfers_held_def)
  then show ?thesis by (simp add: fds_run transfers_run)
qed

text \<open>
  What a drained pipe delivers does not depend on the wake-ups: reading it in two wake-ups
  is reading the two scripts as one, and the data handed over is what was read before the end.
\<close>

theorem pipe_wakeups:
  assumes "k < length (sel_pipes s)" and "pipe_loop rs (pipe_buf (sel_pipes s ! k)) = Inl b"
  shows "pipe_ready k rs' (pipe_ready k rs s) = pipe_ready k (rs @ rs') s"
  using assms by (auto simp: pipe_ready_def Let_def pipe_loop_append split: sum.splits)

theorem pipe_wakeups_witness:
  "pipe_ready 0 [PipeEof] (pipe_ready 0 [PipeData [1, 2]]
      (with_backend\<lparr>sel_pipes := [\<lparr>pipe_id = 4, pipe_fd = 9, pipe_buf = []\<rparr>]\<rparr>)) =
    pipe_ready 0 [PipeData [1, 2], PipeEof] (with_backend\<lparr>sel_pipes := [\<lparr>pipe_id = 4, pipe_fd = 9, pipe_buf = []\<rparr>]\<rparr>)"
  using pipe_wakeups [of 0 "with_backend\<lparr>sel_pipes := [\<lparr>pipe_id = 4, pipe_fd = 9, pipe_buf = []\<rparr>]\<rparr>"
      "[PipeData [1, 2]]" "[1, 2]" "[PipeEof]"] by simp

end
