(* ===== verification/Recorder.thy ===== *)
theory Recorder
  imports Prelude "HOL-Library.Multiset"
begin

text \<open>
  \<open>crates/emskin/src/recording.rs\<close>: screenshots and screen recording. A captured frame is an
  identifier; \<open>px\<close> gives its bytes once mapped (\<open>None\<close> when mapping fails). Outcomes of the GPU
  capture, of spawning and of writing to ffmpeg and of the PNG writer are arguments. Processes
  started, waited for and killed, and screenshots written, are kept in order in \<open>rec_log\<close>, a finished one with the frames it received.
  Time is in nanoseconds; \<open>interval\<close> is \<open>Duration::from_secs_f64(1.0 / fps)\<close>.
\<close>

section \<open>Encoder\<close>

type_synonym frame = nat
type_synonym path = string
type_synonym pixel_size = "i32 \<times> i32"

record video_encoder =
  enc_child :: bool
  enc_sender :: bool
  enc_writer :: bool
  enc_size :: pixel_size
  enc_fps :: u32
  enc_bytes_per_frame :: nat
  enc_dropped :: u64
  enc_queue :: "bytes list"
  enc_failed :: bool
  enc_stdin :: "bytes list"
  enc_lost :: nat

definition WRITER_QUEUE_DEPTH :: nat where
  "WRITER_QUEUE_DEPTH = 3"

text \<open>\<open>started\<close>: the directory exists or was made and ffmpeg and the writer thread were started.\<close>

definition encoder_spawn :: "bool \<Rightarrow> pixel_size \<Rightarrow> u32 \<Rightarrow> video_encoder option" where
  "encoder_spawn started sz fps =
     (if sint (fst sz) \<le> 0 \<or> sint (snd sz) \<le> 0 then None
      else if fps = 0 then None
      else if \<not> started then None
      else Some \<lparr>enc_child = True, enc_sender = True, enc_writer = True, enc_size = sz, enc_fps = fps,
        enc_bytes_per_frame = nat (sint (fst sz)) * nat (sint (snd sz)) * 4,
        enc_dropped = 0, enc_queue = [], enc_failed = False, enc_stdin = [], enc_lost = 0\<rparr>)"

text \<open>\<open>VideoEncoder::push_frame\<close>; the result tells success.\<close>

definition encoder_push :: "bytes \<Rightarrow> video_encoder \<Rightarrow> bool \<times> video_encoder" where
  "encoder_push bs en =
     (if length bs \<noteq> enc_bytes_per_frame en then (False, en)
      else if \<not> enc_sender en then (False, en)
      else if \<not> enc_writer en then (False, en)
      else if length (enc_queue en) < WRITER_QUEUE_DEPTH
           then (True, en\<lparr>enc_queue := enc_queue en @ [bs]\<rparr>)
           else (True, en\<lparr>enc_dropped := enc_dropped en + 1\<rparr>))"

text \<open>One turn of the writer thread: \<open>ok\<close> is the outcome of \<open>write_all\<close>; \<open>enc_lost\<close> counts the
  frames it read and could not write.\<close>

definition writer_step :: "bool \<Rightarrow> video_encoder \<Rightarrow> video_encoder" where
  "writer_step ok en =
     (case enc_queue en of
        [] \<Rightarrow> en
      | bs # q \<Rightarrow>
          if enc_failed en then en\<lparr>enc_queue := q, enc_lost := enc_lost en + 1\<rparr>
          else if ok then en\<lparr>enc_queue := q, enc_stdin := enc_stdin en @ [bs]\<rparr>
          else en\<lparr>enc_queue := q, enc_failed := True, enc_lost := enc_lost en + 1\<rparr>)"

text \<open>\<open>drop(self.sender.take())\<close> and joining the writer thread, which first empties the channel;
  \<open>oks\<close> are the outcomes of the remaining writes.\<close>

definition encoder_close :: "bool list \<Rightarrow> video_encoder \<Rightarrow> video_encoder" where
  "encoder_close oks en =
     (fold writer_step (take (length (enc_queue en)) (oks @ replicate (length (enc_queue en)) True)) en)
       \<lparr>enc_sender := False, enc_writer := False\<rparr>"

definition encoder_finish :: "bool list \<Rightarrow> video_encoder \<Rightarrow> video_encoder" where
  "encoder_finish oks en = (encoder_close oks en)\<lparr>enc_child := False\<rparr>"

section \<open>State machine\<close>

datatype finish_reason = User | Resize | EncoderError | Replaced

definition reason_str :: "finish_reason \<Rightarrow> string" where
  "reason_str r = (case r of User \<Rightarrow> ''user'' | Resize \<Rightarrow> ''resize''
     | EncoderError \<Rightarrow> ''encoder_error'' | Replaced \<Rightarrow> ''replaced'')"

record finish_event =
  fin_path :: path
  fin_frames_written :: u64
  fin_duration :: nat
  fin_reason :: finish_reason

record recording_meta =
  meta_path :: path
  started_at :: nat
  started_at_present :: nat
  frame_interval :: nat
  last_frame_at :: "nat option"
  frames_written :: u64
  meta_size :: pixel_size

datatype recorder_state =
    Idle
  | ScreenshotRequested path
  | ScreenshotPending frame path
  | RecordingRequested path u32
  | Recording video_encoder recording_meta "frame option" "frame option"
  | Stopping video_encoder recording_meta "frame option" finish_reason

datatype rec_event =
    Spawned path
  | Finished path "bytes list"
  | Killed path
  | ShotWritten path

record recorder =
  rec_state :: recorder_state
  rec_log :: "rec_event list"

definition recorder_new :: recorder where
  "recorder_new = \<lparr>rec_state = Idle, rec_log = []\<rparr>"

text \<open>\<open>impl Drop for VideoEncoder\<close>: overwriting a state that owns an encoder kills its ffmpeg.\<close>

definition drop_state :: "recorder_state \<Rightarrow> rec_event list" where
  "drop_state st =
     (case st of
        Recording en meta _ _ \<Rightarrow> if enc_child en then [Killed (meta_path meta)] else []
      | Stopping en meta _ _ \<Rightarrow> if enc_child en then [Killed (meta_path meta)] else []
      | _ \<Rightarrow> [])"

definition request_screenshot :: "path \<Rightarrow> recorder \<Rightarrow> recorder" where
  "request_screenshot p r =
     r\<lparr>rec_state := ScreenshotRequested p, rec_log := rec_log r @ drop_state (rec_state r)\<rparr>"

definition request_recording :: "path \<Rightarrow> u32 \<Rightarrow> recorder \<Rightarrow> recorder" where
  "request_recording p fps r =
     r\<lparr>rec_state :=
        (case rec_state r of
           Recording en meta _ _ \<Rightarrow> Stopping en meta None Replaced
         | Stopping en meta tp why \<Rightarrow> Stopping en meta tp why
         | ScreenshotRequested _ \<Rightarrow> RecordingRequested p fps
         | ScreenshotPending _ _ \<Rightarrow> RecordingRequested p fps
         | RecordingRequested _ _ \<Rightarrow> RecordingRequested p fps
         | Idle \<Rightarrow> RecordingRequested p fps)\<rparr>"

definition stop_recording :: "recorder \<Rightarrow> recorder" where
  "stop_recording r =
     r\<lparr>rec_state :=
        (case rec_state r of
           Recording en meta to_push _ \<Rightarrow> Stopping en meta to_push User
         | RecordingRequested _ _ \<Rightarrow> Idle
         | other \<Rightarrow> other)\<rparr>"

text \<open>\<open>captured\<close> is the result of \<open>try_capture\<close>, made only where the code makes it.\<close>

definition capture_frame ::
  "(u32 \<Rightarrow> nat) \<Rightarrow> nat \<Rightarrow> nat \<Rightarrow> pixel_size \<Rightarrow> bool \<Rightarrow> frame option \<Rightarrow> recorder \<Rightarrow> recorder" where
  "capture_frame interval now present sz started captured r =
     (case rec_state r of
        ScreenshotRequested p \<Rightarrow>
          r\<lparr>rec_state := (case captured of Some f \<Rightarrow> ScreenshotPending f p | None \<Rightarrow> Idle)\<rparr>
      | RecordingRequested p fps \<Rightarrow>
          (case encoder_spawn started sz fps of
             None \<Rightarrow> r\<lparr>rec_state := Idle\<rparr>
           | Some en \<Rightarrow>
               r\<lparr>rec_state := Recording en
                   \<lparr>meta_path = p, started_at = now, started_at_present = present,
                    frame_interval = interval fps, last_frame_at = None, frames_written = 0,
                    meta_size = sz\<rparr> None captured,
                 rec_log := rec_log r @ [Spawned p]\<rparr>)
      | Recording en meta to_push _ \<Rightarrow>
          if sz \<noteq> meta_size meta then r\<lparr>rec_state := Stopping en meta to_push Resize\<rparr>
          else
            (let due = (case last_frame_at meta of None \<Rightarrow> True
                        | Some prev \<Rightarrow> frame_interval meta \<le> now - prev) in
             r\<lparr>rec_state := Recording en meta to_push (if due then captured else None)\<rparr>)
      | _ \<Rightarrow> r)"

text \<open>\<open>push_frame\<close> maps the buffer and hands it to the encoder.\<close>

definition push_frame :: "(frame \<Rightarrow> bytes option) \<Rightarrow> frame \<Rightarrow> video_encoder \<Rightarrow> bool \<times> video_encoder" where
  "push_frame px f en = (case px f of None \<Rightarrow> (False, en) | Some bs \<Rightarrow> encoder_push bs en)"

definition finalize ::
  "(frame \<Rightarrow> bytes option) \<Rightarrow> nat \<Rightarrow> bool \<Rightarrow> bool list \<Rightarrow> recorder \<Rightarrow> finish_event option \<times> recorder" where
  "finalize px now shot_ok oks r =
     (case rec_state r of
        ScreenshotPending f p \<Rightarrow>
          (None, r\<lparr>rec_state := Idle, rec_log := rec_log r @ (if shot_ok then [ShotWritten p] else [])\<rparr>)
      | Recording en meta to_push just_captured \<Rightarrow>
          (case to_push of
             None \<Rightarrow> (None, r\<lparr>rec_state := Recording en meta just_captured None\<rparr>)
           | Some f \<Rightarrow>
               (case push_frame px f en of
                  (True, en') \<Rightarrow>
                    (None, r\<lparr>rec_state := Recording en'
                       (meta\<lparr>last_frame_at := Some now, frames_written := frames_written meta + 1\<rparr>)
                       just_captured None\<rparr>)
                | (False, en') \<Rightarrow> (None, r\<lparr>rec_state := Stopping en' meta None EncoderError\<rparr>)))
      | Stopping en meta to_push why \<Rightarrow>
          (let (en1, n) =
             (case to_push of
                None \<Rightarrow> (en, frames_written meta)
              | Some f \<Rightarrow>
                  (case push_frame px f en of
                     (True, en') \<Rightarrow> (en', frames_written meta + 1)
                   | (False, en') \<Rightarrow> (en', frames_written meta))) in
           (Some \<lparr>fin_path = meta_path meta, fin_frames_written = n,
                  fin_duration = now - started_at meta, fin_reason = why\<rparr>,
            r\<lparr>rec_state := Idle, rec_log := rec_log r @ [Finished (meta_path meta) (enc_stdin (encoder_finish oks en1))]\<rparr>))
      | _ \<Rightarrow> (None, r))"

definition wants_continuous_frames :: "recorder \<Rightarrow> bool" where
  "wants_continuous_frames r \<longleftrightarrow> rec_state r \<noteq> Idle"

definition overlay_started_at :: "nat \<Rightarrow> recorder \<Rightarrow> nat option" where
  "overlay_started_at now r =
     (case rec_state r of
        RecordingRequested _ _ \<Rightarrow> Some now
      | Recording _ meta _ _ \<Rightarrow> Some (started_at_present meta)
      | _ \<Rightarrow> None)"

section \<open>Runs\<close>

datatype rec_op =
    OpShot path
  | OpRecord path u32
  | OpStop
  | OpCapture nat nat pixel_size bool "frame option"
  | OpFinalize nat bool "bool list"
  | OpWriter bool

text \<open>The writer thread runs at any time while a recording is open.\<close>

definition writer_turn :: "bool \<Rightarrow> recorder \<Rightarrow> recorder" where
  "writer_turn ok r =
     r\<lparr>rec_state := (case rec_state r of
        Recording en meta tp jc \<Rightarrow> Recording (writer_step ok en) meta tp jc
      | Stopping en meta tp why \<Rightarrow> Stopping (writer_step ok en) meta tp why
      | st \<Rightarrow> st)\<rparr>"

fun rec_step :: "(frame \<Rightarrow> bytes option) \<Rightarrow> (u32 \<Rightarrow> nat) \<Rightarrow> rec_op \<Rightarrow> recorder \<Rightarrow> recorder" where
  "rec_step px iv (OpShot p) r = request_screenshot p r"
| "rec_step px iv (OpRecord p fps) r = request_recording p fps r"
| "rec_step px iv OpStop r = stop_recording r"
| "rec_step px iv (OpCapture now present sz ok c) r = capture_frame iv now present sz ok c r"
| "rec_step px iv (OpFinalize now ok oks) r = snd (finalize px now ok oks r)"
| "rec_step px iv (OpWriter ok) r = writer_turn ok r"

definition rec_run :: "(frame \<Rightarrow> bytes option) \<Rightarrow> (u32 \<Rightarrow> nat) \<Rightarrow> rec_op list \<Rightarrow> recorder \<Rightarrow> recorder" where
  "rec_run px iv ops r = fold (rec_step px iv) ops r"

section \<open>Encoders\<close>

lemma writer_step_fields [simp]:
  "enc_child (writer_step ok en) = enc_child en" "enc_sender (writer_step ok en) = enc_sender en"
  "enc_writer (writer_step ok en) = enc_writer en" "enc_dropped (writer_step ok en) = enc_dropped en"
  "enc_bytes_per_frame (writer_step ok en) = enc_bytes_per_frame en"
  by (simp_all add: writer_step_def split: list.splits)

lemma encoder_push_fields [simp]:
  "enc_child (snd (encoder_push bs en)) = enc_child en" "enc_sender (snd (encoder_push bs en)) = enc_sender en"
  "enc_writer (snd (encoder_push bs en)) = enc_writer en"
  by (simp_all add: encoder_push_def)

lemma push_frame_child [simp]: "enc_child (snd (push_frame px f en)) = enc_child en"
  by (simp add: push_frame_def split: option.splits)

text \<open>Frames accepted by an encoder: written, queued, dropped for back-pressure, or lost.\<close>

definition enc_frames :: "video_encoder \<Rightarrow> nat" where
  "enc_frames en = length (enc_stdin en) + length (enc_queue en) + enc_lost en"

lemma writer_step_frames [simp]: "enc_frames (writer_step ok en) = enc_frames en"
  by (simp add: enc_frames_def writer_step_def split: list.splits)

definition enc_count :: "video_encoder \<Rightarrow> u64" where
  "enc_count en = word_of_nat (enc_frames en) + enc_dropped en"

lemma writer_step_count [simp]: "enc_count (writer_step ok en) = enc_count en"
  by (simp add: enc_count_def)

lemma push_count: "encoder_push bs en = (True, en') \<Longrightarrow> enc_count en' = enc_count en + 1"
  by (auto simp: encoder_push_def enc_count_def enc_frames_def split: if_splits)

lemma push_fails: "encoder_push bs en = (False, en') \<Longrightarrow> en' = en"
  by (auto simp: encoder_push_def split: if_splits)

definition enc_ok :: "video_encoder \<Rightarrow> bool" where
  "enc_ok en \<longleftrightarrow> enc_child en \<and> enc_sender en \<and> enc_writer en \<and>
     length (enc_queue en) \<le> WRITER_QUEUE_DEPTH \<and>
     (\<forall>bs \<in> set (enc_stdin en @ enc_queue en). length bs = enc_bytes_per_frame en)"

lemma enc_ok_writer: "enc_ok en \<Longrightarrow> enc_ok (writer_step ok en)"
  by (auto simp: enc_ok_def writer_step_def split: list.splits)

lemma enc_ok_push: "enc_ok en \<Longrightarrow> enc_ok (snd (encoder_push bs en))"
  by (auto simp: enc_ok_def encoder_push_def)

lemma enc_ok_push_frame: "enc_ok en \<Longrightarrow> enc_ok (snd (push_frame px f en))"
  by (simp add: push_frame_def enc_ok_push split: option.splits)

lemma enc_ok_spawn: "encoder_spawn ok sz fps = Some en \<Longrightarrow> enc_ok en \<and> enc_count en = 0 \<and> enc_stdin en @ enc_queue en = []"
  by (auto simp: encoder_spawn_def enc_ok_def enc_count_def enc_frames_def split: if_splits)

section \<open>Every encoder ends once\<close>

definition open_encoder :: "recorder_state \<Rightarrow> path list" where
  "open_encoder st = (case st of Recording _ meta _ _ \<Rightarrow> [meta_path meta]
     | Stopping _ meta _ _ \<Rightarrow> [meta_path meta] | _ \<Rightarrow> [])"

fun spawned_of :: "rec_event \<Rightarrow> path list" where
  "spawned_of (Spawned p) = [p]" | "spawned_of _ = []"

fun ended_of :: "rec_event \<Rightarrow> path list" where
  "ended_of (Finished p _) = [p]" | "ended_of (Killed p) = [p]" | "ended_of _ = []"

definition spawned :: "recorder \<Rightarrow> path multiset" where
  "spawned r = mset (concat (map spawned_of (rec_log r)))"

definition ended :: "recorder \<Rightarrow> path multiset" where
  "ended r = mset (concat (map ended_of (rec_log r)))"

definition state_ok :: "recorder_state \<Rightarrow> bool" where
  "state_ok st = (case st of Recording en meta _ _ \<Rightarrow> enc_ok en \<and> enc_count en = frames_written meta
     | Stopping en meta _ _ \<Rightarrow> enc_ok en \<and> enc_count en = frames_written meta | _ \<Rightarrow> True)"

definition rec_inv :: "recorder \<Rightarrow> bool" where
  "rec_inv r \<longleftrightarrow> state_ok (rec_state r) \<and> spawned r = ended r + mset (open_encoder (rec_state r))"

lemmas rec_inv_defs = rec_inv_def state_ok_def spawned_def ended_def open_encoder_def

lemma enc_ok_child: "enc_ok en \<Longrightarrow> enc_child en"
  by (simp add: enc_ok_def)

lemma inv_requests:
  assumes "rec_inv r"
  shows "rec_inv (request_screenshot p r)" "rec_inv (request_recording p fps r)"
    "rec_inv (stop_recording r)" "rec_inv (writer_turn ok r)"
  using assms
  by (auto simp: rec_inv_defs request_screenshot_def request_recording_def stop_recording_def
      writer_turn_def drop_state_def enc_ok_writer enc_ok_child
      split: recorder_state.splits)

lemma inv_capture: "rec_inv r \<Longrightarrow> rec_inv (capture_frame iv now present sz ok c r)"
  by (auto simp: rec_inv_defs capture_frame_def Let_def dest: enc_ok_spawn
      split: recorder_state.splits option.splits)

lemma push_frame_result:
  "push_frame px f en = (True, en') \<Longrightarrow> enc_count en' = enc_count en + 1"
  "push_frame px f en = (False, en') \<Longrightarrow> en' = en"
  by (auto simp: push_frame_def push_count push_fails split: option.splits)

lemma push_frame_ok: "push_frame px f en = (b, en') \<Longrightarrow> enc_ok en \<Longrightarrow> enc_ok en'"
  using enc_ok_push_frame [of en px f] by simp

lemma inv_finalize: "rec_inv r \<Longrightarrow> rec_inv (snd (finalize px now ok oks r))"
  by (auto simp: rec_inv_defs finalize_def Let_def push_frame_result
      dest: push_frame_ok push_frame_result
      split: recorder_state.splits option.splits prod.splits bool.splits)

lemma inv_step: "rec_inv r \<Longrightarrow> rec_inv (rec_step px iv op r)"
  by (cases op) (simp_all add: inv_requests inv_capture inv_finalize)

lemma inv_run: "rec_inv r \<Longrightarrow> rec_inv (rec_run px iv ops r)"
  unfolding rec_run_def by (induction ops arbitrary: r) (simp_all add: inv_step)

lemma inv_new: "rec_inv recorder_new"
  by (simp add: rec_inv_defs recorder_new_def)

section \<open>Frames of a video\<close>

definition pxs :: "(frame \<Rightarrow> bytes option) \<Rightarrow> frame list \<Rightarrow> bytes list" where
  "pxs px fs = concat (map (\<lambda>f. case px f of None \<Rightarrow> [] | Some bs \<Rightarrow> [bs]) fs)"

definition opt :: "'a option \<Rightarrow> 'a list" where
  "opt x = (case x of None \<Rightarrow> [] | Some y \<Rightarrow> [y])"

text \<open>The frames captured since the current recording was spawned.\<close>

definition caps_step ::
  "(frame \<Rightarrow> bytes option) \<Rightarrow> (u32 \<Rightarrow> nat) \<Rightarrow> rec_op \<Rightarrow> recorder \<times> frame list \<Rightarrow> recorder \<times> frame list" where
  "caps_step px iv op = (\<lambda>(r, acc).
     let r' = rec_step px iv op r in
     (r', case op of
        OpCapture _ _ _ _ _ \<Rightarrow>
          (case (rec_state r, rec_state r') of
             (RecordingRequested _ _, Recording _ _ _ jc) \<Rightarrow> opt jc
           | (Recording _ _ _ _, Recording _ _ _ jc) \<Rightarrow> acc @ opt jc
           | _ \<Rightarrow> acc)
      | _ \<Rightarrow> acc))"

definition video_inv :: "(frame \<Rightarrow> bytes option) \<Rightarrow> recorder_state \<Rightarrow> frame list \<Rightarrow> bool" where
  "video_inv px st acc =
     (case st of
        Recording en _ tp jc \<Rightarrow>
          subseq (enc_stdin en @ enc_queue en @ pxs px (opt tp) @ pxs px (opt jc)) (pxs px acc)
      | Stopping en _ tp _ \<Rightarrow> subseq (enc_stdin en @ enc_queue en @ pxs px (opt tp)) (pxs px acc)
      | _ \<Rightarrow> True)"

lemma pxs_append [simp]: "pxs px (a @ b) = pxs px a @ pxs px b"
  by (simp add: pxs_def)

lemma pxs_Nil [simp]: "pxs px [] = []" "opt None = []" "opt (Some x) = [x]"
  by (simp_all add: pxs_def opt_def)

lemma subseq_tail: "subseq a b \<Longrightarrow> subseq (b @ c) d \<Longrightarrow> subseq (a @ c) d"
  by (meson list_emb_append_mono subseq_order.refl subseq_order.trans)

lemma subseq_skip: "subseq (a @ c) (a @ b @ c)"
  by (simp add: subseq_append' subseq_drop_many del: subseq_append)

lemma subseq_drop_mid: "subseq (a @ b @ c) d \<Longrightarrow> subseq (a @ c) d"
  using subseq_skip subseq_order.trans by blast

lemma subseq_drop_end: "subseq (a @ b) d \<Longrightarrow> subseq a d"
  using subseq_drop_mid [of a b "[]" d] by simp

lemma writer_step_subseq:
  "subseq (enc_stdin (writer_step ok en) @ enc_queue (writer_step ok en)) (enc_stdin en @ enc_queue en)"
  using subseq_skip [of "enc_stdin en" "tl (enc_queue en)" "[hd (enc_queue en)]"]
  by (auto simp: writer_step_def split: list.splits)

lemma push_frame_subseq:
  assumes "push_frame px f en = (b, en')"
  shows "subseq (enc_stdin en' @ enc_queue en') ((enc_stdin en @ enc_queue en) @ pxs px [f])"
  using assms subseq_rev_drop_many [of "enc_stdin en @ enc_queue en" "enc_stdin en @ enc_queue en"]
  by (auto simp: push_frame_def pxs_def encoder_push_def split: option.splits if_splits)

lemma video_writer: "video_inv px (rec_state r) acc \<Longrightarrow> video_inv px (rec_state (writer_turn ok r)) acc"
  using subseq_tail [OF writer_step_subseq]
  by (simp add: video_inv_def writer_turn_def split: recorder_state.splits)

lemma video_requests:
  assumes "video_inv px (rec_state r) acc"
  shows "video_inv px (rec_state (request_screenshot p r)) acc"
    "video_inv px (rec_state (request_recording p fps r)) acc"
    "video_inv px (rec_state (stop_recording r)) acc"
  using assms subseq_drop_end [of "_ @ _ @ _"] subseq_drop_end [of "_ @ _"]
  by (auto simp: video_inv_def request_screenshot_def request_recording_def stop_recording_def
      split: recorder_state.splits)

lemma video_finalize:
  assumes "video_inv px (rec_state r) acc"
  shows "video_inv px (rec_state (snd (finalize px now ok oks r))) acc"
proof (cases "rec_state r")
  case (Recording en meta tp jc)
  show ?thesis
  proof (cases tp)
    case None
    then show ?thesis using assms Recording by (simp add: finalize_def video_inv_def)
  next
    case (Some f)
    obtain b en' where p: "push_frame px f en = (b, en')" by force
    have "subseq ((enc_stdin en' @ enc_queue en') @ pxs px (opt jc)) (pxs px acc)"
      using subseq_tail [OF push_frame_subseq [OF p]] assms Recording Some by (simp add: video_inv_def)
    then show ?thesis using Recording Some p subseq_drop_end [of "enc_stdin en' @ enc_queue en'"]
      by (cases b) (simp_all add: finalize_def video_inv_def)
  qed
next
  case (Stopping en meta tp why)
  then show ?thesis by (simp add: finalize_def video_inv_def Let_def split: prod.splits)
qed (use assms in \<open>simp_all add: finalize_def video_inv_def\<close>)

lemma video_capture:
  assumes "video_inv px (rec_state r) acc"
    and "caps_step px iv (OpCapture now present sz ok c) (r, acc) = (r', acc')"
  shows "video_inv px (rec_state r') acc'"
proof (cases "rec_state r")
  case (RecordingRequested p fps)
  then show ?thesis using assms(2)
    by (auto simp: caps_step_def Let_def capture_frame_def video_inv_def dest: enc_ok_spawn
        split: option.splits)
next
  case (Recording en meta tp jc)
  have *: "subseq (enc_stdin en @ enc_queue en @ pxs px (opt tp)) (pxs px acc)"
    using assms(1) Recording subseq_drop_end [of "enc_stdin en @ enc_queue en @ pxs px (opt tp)"]
    by (simp add: video_inv_def)
  have "subseq ((enc_stdin en @ enc_queue en @ pxs px (opt tp)) @ z) (pxs px acc @ z)" for z
    using list_emb_append_mono [OF * subseq_order.refl] by simp
  then show ?thesis using assms(2) Recording *
    by (auto simp: caps_step_def Let_def capture_frame_def video_inv_def split: if_splits option.splits)
next
  case (ScreenshotRequested p)
  then show ?thesis using assms(2)
    by (auto simp: caps_step_def Let_def capture_frame_def video_inv_def split: option.splits)
qed (use assms in \<open>auto simp: caps_step_def Let_def capture_frame_def video_inv_def\<close>)

lemma video_step:
  assumes "video_inv px (rec_state r) acc" and "caps_step px iv op (r, acc) = (r', acc')"
  shows "video_inv px (rec_state r') acc'"
  using assms video_capture
  by (cases op) (auto simp: caps_step_def Let_def video_requests video_writer video_finalize)

lemma caps_step_fst: "fst (caps_step px iv op (r, acc)) = rec_step px iv op r"
  by (simp add: caps_step_def Let_def)

lemma caps_run:
  assumes "video_inv px (rec_state r) acc"
  shows "fst (fold (caps_step px iv) ops (r, acc)) = rec_run px iv ops r \<and>
    video_inv px (rec_state (rec_run px iv ops r)) (snd (fold (caps_step px iv) ops (r, acc)))"
  using assms
proof (induction ops arbitrary: r acc)
  case (Cons op ops)
  obtain r' acc' where c: "caps_step px iv op (r, acc) = (r', acc')" by force
  have "r' = rec_step px iv op r" using caps_step_fst [of px iv op r acc] c by simp
  then show ?case using Cons.IH [OF video_step [OF Cons.prems c]] c by (simp add: rec_run_def)
qed (simp add: rec_run_def)

section \<open>Closing an encoder\<close>

lemma fold_writer:
  "subseq (enc_stdin (fold writer_step oks en)) (enc_stdin en @ enc_queue en)"
  "enc_count (fold writer_step oks en) = enc_count en"
  "length (enc_queue (fold writer_step oks en)) = length (enc_queue en) - length oks"
proof (induction oks arbitrary: en)
  case (Cons ok oks)
  { case 1
    have "subseq (enc_stdin (fold writer_step oks (writer_step ok en)))
        (enc_stdin (writer_step ok en) @ enc_queue (writer_step ok en))" by (rule Cons.IH)
    then show ?case using writer_step_subseq [of ok en] subseq_order.trans by fastforce }
  { case 2 show ?case by (simp add: Cons.IH) }
  { case 3 show ?case by (simp add: Cons.IH) (auto simp: writer_step_def split: list.splits) }
qed (simp_all add: subseq_rev_drop_many)

lemma finish_encoder:
  "subseq (enc_stdin (encoder_finish oks en)) (enc_stdin en @ enc_queue en)"
  "enc_count (encoder_finish oks en) = enc_count en"
  "enc_queue (encoder_finish oks en) = []"
proof -
  obtain oks' where o': "oks' = take (length (enc_queue en)) (oks @ replicate (length (enc_queue en)) True)"
    by blast
  have n: "length oks' = length (enc_queue en)" by (simp add: o')
  have e: "encoder_finish oks en =
      (fold writer_step oks' en)\<lparr>enc_sender := False, enc_writer := False, enc_child := False\<rparr>"
    unfolding o' by (simp only: encoder_finish_def encoder_close_def)
  show "subseq (enc_stdin (encoder_finish oks en)) (enc_stdin en @ enc_queue en)"
    by (simp add: e fold_writer(1))
  show "enc_count (encoder_finish oks en) = enc_count en"
    using fold_writer(2) [of oks' en] by (simp add: e enc_count_def enc_frames_def)
  show "enc_queue (encoder_finish oks en) = []"
    using fold_writer(3) [of oks' en] by (simp add: e n)
qed

lemma subseq_set_mono: "subseq xs ys \<Longrightarrow> set xs \<subseteq> set ys"
  by (auto elim: list_emb_set)

lemma finish_lengths:
  assumes "enc_ok en"
  shows "\<forall>bs \<in> set (enc_stdin (encoder_finish oks en)). length bs = enc_bytes_per_frame en"
  using assms subseq_set_mono [OF finish_encoder(1) [of oks en]] unfolding enc_ok_def by blast

lemma finalize_stopping:
  assumes "rec_state r = Stopping en meta tp why" and "enc_count en = frames_written meta"
    and "finalize px now ok oks r = (Some ev, r')"
    and "en1 = (case tp of None \<Rightarrow> en | Some f \<Rightarrow> snd (push_frame px f en))"
  shows "rec_log r' = rec_log r @ [Finished (fin_path ev) (enc_stdin (encoder_finish oks en1))]"
    and "fin_frames_written ev = enc_count en1"
proof (atomize (full), cases tp)
  case None
  then show "rec_log r' = rec_log r @ [Finished (fin_path ev) (enc_stdin (encoder_finish oks en1))] \<and>
      fin_frames_written ev = enc_count en1"
    using assms by (auto simp: finalize_def)
next
  case (Some f)
  obtain b en2 where p: "push_frame px f en = (b, en2)" by force
  show "rec_log r' = rec_log r @ [Finished (fin_path ev) (enc_stdin (encoder_finish oks en1))] \<and>
      fin_frames_written ev = enc_count en1"
    using assms Some p push_frame_result [of px f en en2] by (cases b) (auto simp: finalize_def)
qed

section \<open>Runs without a recording request\<close>

fun asks_recording :: "rec_op \<Rightarrow> bool" where
  "asks_recording (OpRecord _ _) = True" | "asks_recording _ = False"

definition no_request :: "recorder_state \<Rightarrow> bool" where
  "no_request st = (case st of RecordingRequested _ _ \<Rightarrow> False | _ \<Rightarrow> True)"

definition no_encoder :: "recorder_state \<Rightarrow> bool" where
  "no_encoder st = (open_encoder st = [])"

fun finished_of :: "rec_event \<Rightarrow> path list" where
  "finished_of (Finished p _) = [p]" | "finished_of _ = []"

definition reported :: "recorder \<Rightarrow> path list" where
  "reported r = concat (map finished_of (rec_log r))"

lemma quiet_step:
  assumes "\<not> asks_recording op" and "no_request (rec_state r)"
  shows "no_request (rec_state (rec_step px iv op r))" and "spawned (rec_step px iv op r) = spawned r"
  using assms
  by (cases op; auto simp: no_request_def spawned_def request_screenshot_def stop_recording_def
      writer_turn_def capture_frame_def finalize_def drop_state_def Let_def
      split: recorder_state.splits option.splits prod.splits bool.splits)+

lemma silent_step:
  assumes "\<not> asks_recording op" and "no_request (rec_state r)" and "no_encoder (rec_state r)"
  shows "no_encoder (rec_state (rec_step px iv op r))" and "reported (rec_step px iv op r) = reported r"
  using assms
  by (cases op; auto simp: no_request_def no_encoder_def open_encoder_def reported_def
      request_screenshot_def stop_recording_def
      writer_turn_def capture_frame_def finalize_def drop_state_def Let_def
      split: recorder_state.splits option.splits prod.splits bool.splits)+

lemma quiet_run:
  assumes "\<forall>op \<in> set ops. \<not> asks_recording op" and "no_request (rec_state r)"
  shows "spawned (rec_run px iv ops r) = spawned r"
  using assms unfolding rec_run_def by (induction ops arbitrary: r) (simp_all add: quiet_step)

lemma silent_run:
  assumes "\<forall>op \<in> set ops. \<not> asks_recording op" and "no_request (rec_state r)" and "no_encoder (rec_state r)"
  shows "reported (rec_run px iv ops r) = reported r"
  using assms unfolding rec_run_def by (induction ops arbitrary: r) (simp_all add: quiet_step silent_step)

section \<open>Properties\<close>

text \<open>
  No ffmpeg process is leaked: over any run the processes started are those that were closed
  with a report, killed, or the one of the recording that is still open.
\<close>

theorem recorder_accounting:
  "spawned (rec_run px iv ops recorder_new) =
    ended (rec_run px iv ops recorder_new) + mset (open_encoder (rec_state (rec_run px iv ops recorder_new)))"
  using inv_run [OF inv_new] by (simp add: rec_inv_def)

text \<open>
  The video of a finished recording: ffmpeg received whole frames of the recording's size, a
  subsequence of the frames captured for it in capture order, and the count reported to Emacs is
  the number of frames written plus those dropped for back-pressure or lost to a write error.
\<close>

theorem recorder_video:
  assumes "fold (caps_step px iv) ops (recorder_new, []) = (r, acc)"
    and "finalize px now ok oks r = (Some ev, r')"
  shows "\<exists>en meta tp why en'. rec_state r = Stopping en meta tp why \<and>
    en' = encoder_finish oks (case tp of None \<Rightarrow> en | Some f \<Rightarrow> snd (push_frame px f en)) \<and>
    rec_log r' = rec_log r @ [Finished (fin_path ev) (enc_stdin en')] \<and>
    subseq (enc_stdin en') (pxs px acc) \<and> (\<forall>bs \<in> set (enc_stdin en'). length bs = enc_bytes_per_frame en) \<and>
    enc_queue en' = [] \<and>
    fin_frames_written ev = word_of_nat (length (enc_stdin en') + enc_lost en') + enc_dropped en'"
proof -
  have "video_inv px (rec_state recorder_new) []" by (simp add: video_inv_def recorder_new_def)
  from caps_run [OF this, of iv ops] have r: "r = rec_run px iv ops recorder_new" and v: "video_inv px (rec_state r) acc"
    by (simp_all add: assms(1))
  have i: "rec_inv r" unfolding r by (rule inv_run [OF inv_new])
  obtain en meta tp why where st: "rec_state r = Stopping en meta tp why"
    using assms(2) by (auto simp: finalize_def Let_def split: recorder_state.splits option.splits prod.splits bool.splits)
  obtain en1 where en1: "en1 = (case tp of None \<Rightarrow> en | Some f \<Rightarrow> snd (push_frame px f en))" by blast
  obtain en' where en': "en' = encoder_finish oks en1" by blast
  have ok: "enc_ok en" "enc_count en = frames_written meta" using i st by (simp_all add: rec_inv_defs)
  have q: "subseq (enc_stdin en1 @ enc_queue en1) (enc_stdin en @ enc_queue en @ pxs px (opt tp))"
    by (cases tp) (use push_frame_subseq [OF prod.collapse [symmetric]] in \<open>simp_all add: en1\<close>)
  have s: "subseq (enc_stdin en' @ enc_queue en') (pxs px acc)" "subseq (enc_stdin en') (enc_stdin en1 @ enc_queue en1)"
    using finish_encoder [of oks en1] q v st subseq_order.trans
    by (auto simp: en' video_inv_def intro: subseq_order.trans)
  have b: "enc_bytes_per_frame en1 = enc_bytes_per_frame en"
    by (auto simp: en1 push_frame_def encoder_push_def split: option.splits)
  have l: "\<forall>bs \<in> set (enc_stdin en'). length bs = enc_bytes_per_frame en"
  proof -
    have "enc_ok en1" using enc_ok_push_frame [OF ok(1)] ok(1) by (cases tp) (simp_all add: en1)
    from finish_lengths [OF this] show ?thesis by (simp add: en' b)
  qed
  note ev = finalize_stopping [OF st ok(2) assms(2) en1]
  have "fin_frames_written ev = enc_count en'" "enc_queue en' = []"
    using ev(2) finish_encoder [of oks en1] by (simp_all add: en')
  then show ?thesis
    using st en' en1 ev(1) subseq_drop_end [OF s(1)] l by (simp add: enc_count_def enc_frames_def)
qed

text \<open>
  A screenshot requested while recording kills ffmpeg, and no report of the recording ever
  follows: as long as Emacs does not ask for a new recording, nothing more is reported.
\<close>

theorem screenshot_kills_recording:
  assumes "rec_state (rec_run px iv ops recorder_new) = Recording en meta tp jc"
    and "r = request_screenshot p (rec_run px iv ops recorder_new)"
    and "\<forall>op \<in> set ops'. \<not> asks_recording op"
  shows "rec_log r = rec_log (rec_run px iv ops recorder_new) @ [Killed (meta_path meta)] \<and>
    reported (rec_run px iv ops' r) = reported (rec_run px iv ops recorder_new)"
proof -
  have "enc_child en" using inv_run [OF inv_new, of px iv ops] assms(1)
    by (simp add: rec_inv_defs enc_ok_child)
  then have r: "rec_log r = rec_log (rec_run px iv ops recorder_new) @ [Killed (meta_path meta)]"
    using assms(1) by (simp add: assms(2) request_screenshot_def drop_state_def)
  moreover have "reported (rec_run px iv ops' r) = reported r"
    using assms(3) by (rule silent_run) (simp_all add: assms(2) request_screenshot_def no_request_def
        no_encoder_def open_encoder_def)
  ultimately show ?thesis by (simp add: reported_def)
qed

text \<open>
  A recording request that arrives during a recording ends the old recording, but the new one
  is never started: until another request no ffmpeg is spawned.
\<close>

theorem replacement_never_starts:
  assumes "rec_state r = Recording en meta tp jc"
    and "\<forall>op \<in> set ops. \<not> asks_recording op"
  shows "rec_state (request_recording p fps r) = Stopping en meta None Replaced \<and>
    spawned (rec_run px iv ops (request_recording p fps r)) = spawned r"
proof -
  have "spawned (rec_run px iv ops (request_recording p fps r)) = spawned (request_recording p fps r)"
    using assms by (intro quiet_run) (simp_all add: request_recording_def no_request_def)
  then show ?thesis using assms(1) by (simp add: request_recording_def spawned_def)
qed

section \<open>Witnesses\<close>

definition demo_px :: "frame \<Rightarrow> bytes option" where
  "demo_px f = Some [word_of_nat f, 0, 0, 0]"

definition demo_ops :: "rec_op list" where
  "demo_ops = [OpRecord ''v.mp4'' 30, OpCapture 0 0 (1, 1) True (Some 7), OpFinalize 1 True [],
     OpCapture 100 100 (1, 1) True (Some 8), OpFinalize 101 True []]"

lemma demo_recording:
  "rec_state (rec_run demo_px (\<lambda>_. 33) demo_ops recorder_new) =
     Recording \<lparr>enc_child = True, enc_sender = True, enc_writer = True, enc_size = (1, 1), enc_fps = 30,
        enc_bytes_per_frame = 4, enc_dropped = 0, enc_queue = [[7, 0, 0, 0]], enc_failed = False,
        enc_stdin = [], enc_lost = 0\<rparr>
      \<lparr>meta_path = ''v.mp4'', started_at = 0, started_at_present = 0, frame_interval = 33,
        last_frame_at = Some 101, frames_written = 1, meta_size = (1, 1)\<rparr> (Some 8) None"
  by (simp add: rec_run_def demo_ops_def recorder_new_def request_recording_def capture_frame_def
      encoder_spawn_def finalize_def push_frame_def demo_px_def encoder_push_def WRITER_QUEUE_DEPTH_def)

lemma demo_stopped:
  "fold (caps_step demo_px (\<lambda>_. 33)) (demo_ops @ [OpStop]) (recorder_new, []) =
     (rec_run demo_px (\<lambda>_. 33) (demo_ops @ [OpStop]) recorder_new, [7, 8])"
  by (simp add: caps_step_def Let_def rec_run_def demo_ops_def recorder_new_def request_recording_def
      capture_frame_def stop_recording_def encoder_spawn_def finalize_def push_frame_def demo_px_def
      encoder_push_def WRITER_QUEUE_DEPTH_def)

lemma demo_finish:
  "\<exists>r'. finalize demo_px 300 True [] (rec_run demo_px (\<lambda>_. 33) (demo_ops @ [OpStop]) recorder_new) =
     (Some \<lparr>fin_path = ''v.mp4'', fin_frames_written = 2, fin_duration = 300, fin_reason = User\<rparr>, r')"
  by (simp add: rec_run_def demo_ops_def recorder_new_def request_recording_def
      capture_frame_def stop_recording_def encoder_spawn_def finalize_def push_frame_def demo_px_def
      encoder_push_def WRITER_QUEUE_DEPTH_def)

theorem recorder_video_witness:
  "\<exists>r' frames. finalize demo_px 300 True [] (rec_run demo_px (\<lambda>_. 33) (demo_ops @ [OpStop]) recorder_new) =
     (Some \<lparr>fin_path = ''v.mp4'', fin_frames_written = 2, fin_duration = 300, fin_reason = User\<rparr>, r') \<and>
     rec_log r' = rec_log (rec_run demo_px (\<lambda>_. 33) (demo_ops @ [OpStop]) recorder_new) @ [Finished ''v.mp4'' frames] \<and>
     subseq frames [[7, 0, 0, 0], [8, 0, 0, 0]]"
proof -
  obtain r' where f: "finalize demo_px 300 True [] (rec_run demo_px (\<lambda>_. 33) (demo_ops @ [OpStop]) recorder_new) =
     (Some \<lparr>fin_path = ''v.mp4'', fin_frames_written = 2, fin_duration = 300, fin_reason = User\<rparr>, r')"
    using demo_finish by blast
  have "pxs demo_px [7, 8] = [[7, 0, 0, 0], [8, 0, 0, 0]]" by (simp add: pxs_def demo_px_def)
  then show ?thesis using recorder_video [OF demo_stopped f] f by auto
qed

theorem screenshot_kills_recording_witness:
  "reported (rec_run demo_px (\<lambda>_. 33) [OpCapture 200 200 (1, 1) True None, OpFinalize 201 True []]
     (request_screenshot ''s.png'' (rec_run demo_px (\<lambda>_. 33) demo_ops recorder_new))) = []"
  using screenshot_kills_recording [OF demo_recording refl,
      of "[OpCapture 200 200 (1, 1) True None, OpFinalize 201 True []]" "''s.png''"]
  by (simp add: reported_def rec_run_def demo_ops_def recorder_new_def request_recording_def capture_frame_def
      encoder_spawn_def finalize_def push_frame_def demo_px_def encoder_push_def WRITER_QUEUE_DEPTH_def)

theorem replacement_never_starts_witness:
  "spawned (rec_run demo_px (\<lambda>_. 33) [OpFinalize 201 True [], OpCapture 300 300 (1, 1) True (Some 9)]
     (request_recording ''w.mp4'' 30 (rec_run demo_px (\<lambda>_. 33) demo_ops recorder_new))) =
   spawned (rec_run demo_px (\<lambda>_. 33) demo_ops recorder_new)"
  using replacement_never_starts [OF demo_recording, of "[OpFinalize 201 True [], OpCapture 300 300 (1, 1) True (Some 9)]"
      "''w.mp4''" 30 demo_px "\<lambda>_. 33"] by simp

end
