(* ===== verification/Compositor.thy ===== *)
theory Compositor
  imports Apps Ime Host_State Selection Recorder Overlays Ws_Protocol
begin

text \<open>
  \<open>EmskinState\<close> of \<open>crates/emskin/src/state/mod.rs\<close> and the workspace model of
  \<open>state/workspace.rs\<close>: each Emacs frame is a workspace, the active one lives inline and the
  inactive ones in a table. Windows are created by \<open>Window::new_wayland_window\<close>, so the surface
  of \<open>win_surface\<close> is the one of their toplevel; a toplevel is named by its surface.

  The parts of the state are the records of the component theories. The markers kept in
  \<open>Window::user_data\<close> are the lists \<open>c_dialogs\<close> and \<open>c_unclassified\<close>. Requests sent to clients
  are kept in \<open>c_calls\<close>, in order. The keyboard and the pointer exist from \<open>EmskinState::new\<close> on.
\<close>

section \<open>State\<close>

datatype toplevel_state = Fullscreen | Maximized | Activated | TiledLeft | TiledRight | TiledTop | TiledBottom

datatype client_call =
    PendingSize surface point
  | PendingState surface toplevel_state bool
  | PendingDecoration surface
  | SendPending surface
  | SendConfigure surface
  | SendClose surface
  | PopupConfigure surface
  | LayerConfigure surface
  | LayerClose surface
  | OnCommit window
  | FrameCallback surface
  | DataDeviceFocus "nat option"
  | PointerClear
  | KeyForward
  | KeyRelease nat
  | FlushDisplay
  | FrameDone window
  | RequestRedraw
  | HostTitle string
  | HostFullscreen bool
  | HostMaximized bool
  | HostIme winit_call
  | HostCursor cursor_image
  | EmitCommit conn_id string string
  | EmitPreedit conn_id string string "(i32 \<times> i32) option"

record 'sp workspace =
  ws_space :: 'sp
  ws_emacs :: "surface option"
  ws_name :: string

record 'sp workspace_state =
  active_space :: 'sp
  inactive :: "(u64 \<times> 'sp workspace) list"
  active_id :: u64
  active_name :: string
  next_id :: u64
  pending_emacs_toplevels :: "(surface \<times> window) list"
  pending_app_toplevels :: "(surface \<times> window) list"
  protocol :: ws_protocol

record 'sp emskin =
  c_start :: instant
  c_ipc :: ipc_server
  c_apps :: app_manager
  c_ws :: "'sp workspace_state"
  c_emacs :: emacs_state
  c_bar :: "nat option"
  c_selection :: selection_state
  c_focus :: focus_state
  c_ime :: ime_bridge
  c_effects :: effects
  c_cursor :: cursor_state
  c_redraw :: bool
  c_recorder :: recorder
  c_keyboard :: "focus_target option"
  c_dialogs :: "window list"
  c_unclassified :: "window list"
  c_stopped :: bool
  c_calls :: "client_call list"

definition emskin_new :: "'sp env \<Rightarrow> bool \<Rightarrow> ipc_server \<Rightarrow> 'sp emskin" where
  "emskin_new e detect server = \<lparr>
     c_start = clock e, c_ipc = server, c_apps = app_manager_default,
     c_ws = \<lparr>active_space = sp_empty e, inactive = [], active_id = 1, active_name = [], next_id = 2,
       pending_emacs_toplevels = [], pending_app_toplevels = [], protocol = ws_protocol_new\<rparr>,
     c_emacs = emacs_new detect, c_bar = None, c_selection = selection_default, c_focus = [],
     c_ime = ime_new, c_effects = effects_default, c_cursor = cursor_default, c_redraw = True,
     c_recorder = recorder_new, c_keyboard = None, c_dialogs = [], c_unclassified = [],
     c_stopped = False, c_calls = []\<rparr>"

section \<open>Updates of one part\<close>

definition on_ws :: "('sp workspace_state \<Rightarrow> 'sp workspace_state) \<Rightarrow> 'sp emskin \<Rightarrow> 'sp emskin" where
  "on_ws f s = s\<lparr>c_ws := f (c_ws s)\<rparr>"

definition on_space :: "('sp \<Rightarrow> 'sp) \<Rightarrow> 'sp emskin \<Rightarrow> 'sp emskin" where
  "on_space f = on_ws (\<lambda>w. w\<lparr>active_space := f (active_space w)\<rparr>)"

definition on_apps :: "(app_manager \<Rightarrow> app_manager) \<Rightarrow> 'sp emskin \<Rightarrow> 'sp emskin" where
  "on_apps f s = s\<lparr>c_apps := f (c_apps s)\<rparr>"

definition on_emacs :: "(emacs_state \<Rightarrow> emacs_state) \<Rightarrow> 'sp emskin \<Rightarrow> 'sp emskin" where
  "on_emacs f s = s\<lparr>c_emacs := f (c_emacs s)\<rparr>"

definition on_effects :: "(effects \<Rightarrow> effects) \<Rightarrow> 'sp emskin \<Rightarrow> 'sp emskin" where
  "on_effects f s = s\<lparr>c_effects := f (c_effects s)\<rparr>"

definition on_ime :: "(ime_bridge \<Rightarrow> ime_bridge) \<Rightarrow> 'sp emskin \<Rightarrow> 'sp emskin" where
  "on_ime f s = s\<lparr>c_ime := f (c_ime s)\<rparr>"

definition call :: "client_call list \<Rightarrow> 'sp emskin \<Rightarrow> 'sp emskin" where
  "call cs s = s\<lparr>c_calls := c_calls s @ cs\<rparr>"

definition send :: "'sp env \<Rightarrow> outgoing_message \<Rightarrow> 'sp emskin \<Rightarrow> 'sp emskin" where
  "send e m s = s\<lparr>c_ipc := ipc_send (json e) m (c_ipc s)\<rparr>"

definition redraw :: "'sp emskin \<Rightarrow> 'sp emskin" where
  "redraw s = s\<lparr>c_redraw := True\<rparr>"

section \<open>Workspaces\<close>

definition alloc_id :: "'sp workspace_state \<Rightarrow> u64 \<times> 'sp workspace_state" where
  "alloc_id w = (next_id w, w\<lparr>next_id := next_id w + 1\<rparr>)"

definition ws_count :: "'sp workspace_state \<Rightarrow> nat" where
  "ws_count w = 1 + length (inactive w)"

text \<open>\<open>space_for_mut\<close> followed by the change \<open>f\<close> of the space.\<close>

definition space_for_mut :: "u64 \<Rightarrow> ('sp \<Rightarrow> 'sp) \<Rightarrow> 'sp workspace_state \<Rightarrow> 'sp workspace_state" where
  "space_for_mut k f w =
     (if k = active_id w then w\<lparr>active_space := f (active_space w)\<rparr>
      else case map_of (inactive w) k of
        None \<Rightarrow> w
      | Some x \<Rightarrow> w\<lparr>inactive := AList.update k (x\<lparr>ws_space := f (ws_space x)\<rparr>) (inactive w)\<rparr>)"

definition all_ids :: "'sp workspace_state \<Rightarrow> u64 list" where
  "all_ids w = sort (active_id w # map fst (inactive w))"

section \<open>Geometry\<close>

definition first_output :: "'sp env \<Rightarrow> 'sp emskin \<Rightarrow> monitor option" where
  "first_output e s = (case sp_outputs e (active_space (c_ws s)) of [] \<Rightarrow> None | o' # _ \<Rightarrow> Some o')"

definition output_fullscreen_geo :: "'sp env \<Rightarrow> 'sp emskin \<Rightarrow> rect option" where
  "output_fullscreen_geo e s =
     Option.bind (first_output e s) (\<lambda>o'. map_option (rect_new (0, 0)) (mode_size (shell e) o'))"

definition usable_area :: "'sp env \<Rightarrow> 'sp emskin \<Rightarrow> rect" where
  "usable_area e s =
     (case first_output e s of
        None \<Rightarrow> \<lparr>loc_x = 0, loc_y = 0, size_w = 0, size_h = 0\<rparr>
      | Some o' \<Rightarrow> zone e o')"

definition emacs_geometry :: "'sp env \<Rightarrow> 'sp emskin \<Rightarrow> rect option" where
  "emacs_geometry e s = (case first_output e s of None \<Rightarrow> None | Some _ \<Rightarrow> Some (usable_area e s))"

definition emacs_rect_to_canvas :: "'sp env \<Rightarrow> ipc_rect \<Rightarrow> 'sp emskin \<Rightarrow> rect" where
  "emacs_rect_to_canvas e r s =
     (let origin = (case emacs_geometry e s of None \<Rightarrow> (0, 0) | Some g \<Rightarrow> rect_loc g) in
      rect_new (r_x r + fst origin, r_y r + snd origin) (r_w r, r_h r))"

section \<open>The Emacs window\<close>

definition emacs_window :: "'sp env \<Rightarrow> 'sp emskin \<Rightarrow> window option" where
  "emacs_window e s =
     (case em_surface (c_emacs s) of
        None \<Rightarrow> None
      | Some wl \<Rightarrow> find (\<lambda>w. win_surface e w = Some wl) (sp_elements e (active_space (c_ws s))))"

definition emacs_render_origin :: "'sp env \<Rightarrow> 'sp emskin \<Rightarrow> (window \<times> point) option" where
  "emacs_render_origin e s =
     (case emacs_window e s of
        None \<Rightarrow> None
      | Some w \<Rightarrow>
          (case sp_location e (active_space (c_ws s)) w of
             None \<Rightarrow> None
           | Some l \<Rightarrow> Some (w, (fst l - loc_x (win_geometry e w), snd l - loc_y (win_geometry e w)))))"

definition emacs_focus_target :: "'sp env \<Rightarrow> 'sp emskin \<Rightarrow> focus_target option" where
  "emacs_focus_target e s = map_option FWindow (emacs_window e s)"

definition is_emacs_client :: "'sp env \<Rightarrow> surface \<Rightarrow> 'sp emskin \<Rightarrow> bool" where
  "is_emacs_client e wl s =
     (case em_surface (c_emacs s) of None \<Rightarrow> False | Some m \<Rightarrow> same_client e m wl)"

definition is_any_emacs_surface :: "surface \<Rightarrow> 'sp emskin \<Rightarrow> bool" where
  "is_any_emacs_surface wl s \<longleftrightarrow>
     is_main_surface wl (c_emacs s) \<or> (\<exists>(k, x) \<in> set (inactive (c_ws s)). ws_emacs x = Some wl)"

section \<open>Keyboard focus\<close>

text \<open>\<open>SeatHandler::focus_changed\<close>.\<close>

definition focus_changed :: "'sp env \<Rightarrow> focus_target option \<Rightarrow> 'sp emskin \<Rightarrow> 'sp emskin" where
  "focus_changed e focused s =
     (let focused_wl = Option.bind focused (target_surface e);
          client = Option.bind focused_wl (client_of e) in
      on_ime (ime_on_focus_changed e focused_wl (c_apps s)) (call [DataDeviceFocus client] s))"

text \<open>\<open>KeyboardHandle::set_focus\<close>, which calls \<open>focus_changed\<close> back.\<close>

definition set_focus :: "'sp env \<Rightarrow> focus_target option \<Rightarrow> 'sp emskin \<Rightarrow> 'sp emskin" where
  "set_focus e target s =
     (case kb_set e (c_keyboard s) target of
        (new, changed) \<Rightarrow>
          (let s1 = s\<lparr>c_keyboard := new\<rparr> in if changed then focus_changed e new s1 else s1))"

definition auto_focus_new_window :: "'sp env \<Rightarrow> window \<Rightarrow> u64 \<Rightarrow> 'sp emskin \<Rightarrow> 'sp emskin" where
  "auto_focus_new_window e w i s =
     (if is_active Prefix (c_focus s) then send e (FocusView i 0) s
      else send e (FocusView i 0) (set_focus e (Some (FWindow w)) s))"

definition focus_target_for_surface :: "'sp env \<Rightarrow> surface \<Rightarrow> 'sp emskin \<Rightarrow> focus_target option" where
  "focus_target_for_surface e wl s =
     (if (case first_output e s of None \<Rightarrow> False | Some o' \<Rightarrow> layer_surface (shell e) o' wl)
      then Some (FLayer wl)
      else case find (\<lambda>w. win_surface e w = Some wl) (sp_elements e (active_space (c_ws s))) of
        Some w \<Rightarrow> Some (FWindow w)
      | None \<Rightarrow> if tracked_popup (shell e) wl then Some (FPopup wl) else None)"

section \<open>Moving an application to the active workspace\<close>

definition migrated :: "u64 \<Rightarrow> app_window \<Rightarrow> app_window" where
  "migrated k a = a\<lparr>app_workspace := k, app_geometry := None, app_pending := None, app_pending_since := None\<rparr>"

definition migrate_app_to_active :: "'sp env \<Rightarrow> u64 \<Rightarrow> 'sp emskin \<Rightarrow> bool \<times> 'sp emskin" where
  "migrate_app_to_active e i s =
     (case app_get (c_apps s) i of
        None \<Rightarrow> (False, s)
      | Some a \<Rightarrow>
          if app_workspace a = active_id (c_ws s) then (False, s)
          else
            (True, on_apps (app_modify i (migrated (active_id (c_ws s))))
               (on_ws (space_for_mut (app_workspace a) (sp_unmap e (app_win a))) s)))"

section \<open>Switching and destroying workspaces\<close>

definition elapsed :: "'sp env \<Rightarrow> 'sp emskin \<Rightarrow> nat" where
  "elapsed e s = clock e - c_start s"

text \<open>The swap of the active and the target workspace.\<close>

definition swap_workspace :: "u64 \<Rightarrow> 'sp workspace \<Rightarrow> 'sp emskin \<Rightarrow> 'sp emskin" where
  "swap_workspace k target s =
     (let w = c_ws s;
          old = \<lparr>ws_space = active_space w, ws_emacs = em_surface (c_emacs s), ws_name = active_name w\<rparr>;
          w1 = w\<lparr>inactive := AList.update (active_id w) old (AList.delete k (inactive w)),
                 active_space := ws_space target, active_name := ws_name target, active_id := k\<rparr> in
      on_emacs (em_set_surface (ws_emacs target)) (s\<lparr>c_ws := w1\<rparr>))"

definition reset_on_switch :: "'sp env \<Rightarrow> 'sp emskin \<Rightarrow> 'sp emskin" where
  "reset_on_switch e s =
     s\<lparr>c_focus := focus_reset_on_workspace_switch (c_focus s),
       c_ime := ime_reset_on_workspace_switch (c_ime s),
       c_effects := effects_reset_on_workspace_switch (elapsed e s) (c_effects s),
       c_cursor := cursor_reset_on_workspace_switch (c_cursor s)\<rparr>"

definition switch_workspace :: "'sp env \<Rightarrow> u64 \<Rightarrow> 'sp emskin \<Rightarrow> bool \<times> 'sp emskin" where
  "switch_workspace e k s =
     (if k = active_id (c_ws s) then (False, s)
      else case map_of (inactive (c_ws s)) k of
        None \<Rightarrow> (False, s)
      | Some target \<Rightarrow>
          (let s1 = reset_on_switch e (swap_workspace k target s);
               s2 = send e (WorkspaceSwitched k) s1;
               s3 = set_focus e (emacs_focus_target e s2) s2 in
           (True, call [PointerClear] s3)))"

text \<open>The loop over the windows of a destroyed workspace.\<close>

definition remove_app :: "'sp env \<Rightarrow> u64 \<Rightarrow> 'sp emskin \<Rightarrow> 'sp emskin" where
  "remove_app e i s =
     (case app_get (c_apps s) i of
        None \<Rightarrow> s
      | Some a \<Rightarrow> send e (WindowDestroyed (app_id a)) (on_apps (app_remove i) s))"

definition apps_of :: "'sp env \<Rightarrow> u64 \<Rightarrow> 'sp emskin \<Rightarrow> u64 list" where
  "apps_of e k s = map app_id (filter (\<lambda>a. app_workspace a = k) (app_values e (c_apps s)))"

definition destroy_workspace :: "'sp env \<Rightarrow> u64 \<Rightarrow> 'sp emskin \<Rightarrow> 'sp workspace option \<times> 'sp emskin" where
  "destroy_workspace e k s =
     (case map_of (inactive (c_ws s)) k of
        None \<Rightarrow> (None, s)
      | Some x \<Rightarrow>
          (let s1 = on_ws (\<lambda>w. w\<lparr>inactive := AList.delete k (inactive w)\<rparr>) s in
           (Some x, fold (remove_app e) (apps_of e k s1) s1)))"

section \<open>Layout\<close>

definition resize_emacs_in_space ::
  "'sp env \<Rightarrow> surface option \<Rightarrow> rect \<Rightarrow> 'sp \<Rightarrow> client_call list \<times> 'sp" where
  "resize_emacs_in_space e emacs geo sp =
     (case emacs of
        None \<Rightarrow> ([], sp)
      | Some wl \<Rightarrow>
          (case find (\<lambda>w. win_surface e w = Some wl) (sp_elements e sp) of
             None \<Rightarrow> ([], sp)
           | Some w \<Rightarrow> ([PendingSize wl (size_w geo, size_h geo), SendPending wl],
                        sp_lower e w (sp_map e w (rect_loc geo) sp))))"

text \<open>One inactive workspace of the loop in \<open>relayout_emacs\<close>.\<close>

definition relayout_inactive :: "'sp env \<Rightarrow> rect \<Rightarrow> u64 \<Rightarrow> 'sp emskin \<Rightarrow> 'sp emskin" where
  "relayout_inactive e geo k s =
     (case map_of (inactive (c_ws s)) k of
        None \<Rightarrow> s
      | Some x \<Rightarrow>
          (case resize_emacs_in_space e (ws_emacs x) geo (ws_space x) of
             (cs, sp) \<Rightarrow>
               call cs (on_ws (\<lambda>w. w\<lparr>inactive := AList.update k (x\<lparr>ws_space := sp\<rparr>) (inactive w)\<rparr>) s)))"

definition relayout_emacs :: "'sp env \<Rightarrow> 'sp emskin \<Rightarrow> 'sp emskin" where
  "relayout_emacs e s =
     (case emacs_geometry e s of
        None \<Rightarrow> s
      | Some geo \<Rightarrow>
          (case resize_emacs_in_space e (em_surface (c_emacs s)) geo (active_space (c_ws s)) of
             (cs, sp) \<Rightarrow>
               (let s1 = call cs (on_space (\<lambda>_. sp) s);
                    s2 = fold (relayout_inactive e geo) (visit e (map fst (inactive (c_ws s1)))) s1 in
                redraw (send e (SurfaceSize (size_w geo) (size_h geo)) s2))))"

end
