(* ===== verification/Dispatch.thy ===== *)
theory Dispatch
  imports Compositor
begin

text \<open>
  \<open>crates/emskin/src/ipc/dispatch.rs\<close>: what each message of Emacs does to the compositor.
  \<open>tx\<close> is the text rasteriser of the overlays.
\<close>

section \<open>Geometry and visibility\<close>

definition tiled_states :: "surface \<Rightarrow> client_call list" where
  "tiled_states wl = map (\<lambda>t. PendingState wl t True) [TiledLeft, TiledRight, TiledTop, TiledBottom]"

definition invalid_size :: "ipc_rect \<Rightarrow> bool" where
  "invalid_size r \<longleftrightarrow> sint (r_w r) \<le> 0 \<or> sint (r_h r) \<le> 0"

definition ipc_set_geometry :: "'sp env \<Rightarrow> u64 \<Rightarrow> ipc_rect \<Rightarrow> 'sp emskin \<Rightarrow> 'sp emskin" where
  "ipc_set_geometry e i r s =
     (if invalid_size r then s
      else
        (let new_geo = emacs_rect_to_canvas e r s in
         if app_get (c_apps s) i = None then s
         else
           (let s1 = on_apps (app_modify i (\<lambda>a. a\<lparr>app_visible := True\<rparr>)) s;
                s2 = snd (migrate_app_to_active e i s1) in
            case app_get (c_apps s2) i of
              None \<Rightarrow> s2
            | Some a \<Rightarrow>
                (case win_surface e (app_win a) of
                   None \<Rightarrow> s2
                 | Some wl \<Rightarrow>
                     (let s3 = call ([PendingSize wl (r_w r, r_h r)] @ tiled_states wl @ [SendPending wl]) s2 in
                      if app_geometry a = None
                      then on_space (sp_map e (app_win a) (rect_loc new_geo))
                             (on_apps (app_modify i (\<lambda>a. a\<lparr>app_geometry := Some new_geo\<rparr>)) s3)
                      else on_apps (app_modify i (\<lambda>a. a\<lparr>app_pending := Some new_geo,
                             app_pending_since := Some (clock e)\<rparr>)) s3)))))"

definition ipc_close :: "'sp env \<Rightarrow> u64 \<Rightarrow> 'sp emskin \<Rightarrow> 'sp emskin" where
  "ipc_close e i s =
     (case Option.bind (app_get (c_apps s) i) (\<lambda>a. win_surface e (app_win a)) of
        None \<Rightarrow> s
      | Some wl \<Rightarrow> call [SendClose wl] s)"

definition ipc_set_visibility :: "'sp env \<Rightarrow> u64 \<Rightarrow> bool \<Rightarrow> 'sp emskin \<Rightarrow> 'sp emskin" where
  "ipc_set_visibility e i visible s =
     (case app_get (c_apps s) i of
        None \<Rightarrow> s
      | Some a \<Rightarrow>
          (let s1 = on_apps (app_modify i (\<lambda>a. a\<lparr>app_visible := visible\<rparr>)) s in
           if \<not> visible then on_ws (space_for_mut (app_workspace a) (sp_unmap e (app_win a))) s1
           else case app_geometry a of
             None \<Rightarrow> s1
           | Some geo \<Rightarrow>
               on_space (sp_map e (app_win a) (rect_loc geo))
                 (on_apps (app_modify i (\<lambda>a. a\<lparr>app_geometry := Some geo\<rparr>))
                    (snd (migrate_app_to_active e i s1)))))"

section \<open>Focus\<close>

definition ipc_prefix_done :: "'sp env \<Rightarrow> 'sp emskin \<Rightarrow> 'sp emskin" where
  "ipc_prefix_done e s =
     (let s1 = on_ime (set_prefix_active False) s in
      case focus_exit Prefix (c_focus s1) of
        (saved, f) \<Rightarrow>
          (let s2 = s1\<lparr>c_focus := f\<rparr> in
           case saved of None \<Rightarrow> s2 | Some target \<Rightarrow> set_focus e target s2))"

definition ipc_set_focus :: "'sp env \<Rightarrow> u64 option \<Rightarrow> 'sp emskin \<Rightarrow> 'sp emskin" where
  "ipc_set_focus e window_id s =
     (let target = (case window_id of
            Some i \<Rightarrow>
              (case app_get (c_apps s) i of
                 Some a \<Rightarrow> Some (FWindow (app_win a))
               | None \<Rightarrow> emacs_focus_target e s)
          | None \<Rightarrow> emacs_focus_target e s) in
      set_focus e target
        (on_ime (set_prefix_active False) (s\<lparr>c_focus := snd (focus_exit Prefix (c_focus s))\<rparr>)))"

section \<open>Mirrors\<close>

definition ipc_add_mirror :: "'sp env \<Rightarrow> u64 \<Rightarrow> u64 \<Rightarrow> ipc_rect \<Rightarrow> 'sp emskin \<Rightarrow> 'sp emskin" where
  "ipc_add_mirror e i v r s =
     (if invalid_size r then s
      else
        (let mv = \<lparr>mv_geometry = emacs_rect_to_canvas e r s, mv_workspace = active_id (c_ws s)\<rparr> in
         on_apps (app_modify i (\<lambda>a. a\<lparr>app_mirrors := AList.update v mv (app_mirrors a)\<rparr>)) s))"

definition update_mirror :: "u64 \<Rightarrow> rect \<Rightarrow> app_window \<Rightarrow> app_window" where
  "update_mirror v geo a =
     (case map_of (app_mirrors a) v of
        None \<Rightarrow> a
      | Some mv \<Rightarrow> a\<lparr>app_mirrors := AList.update v (mv\<lparr>mv_geometry := geo\<rparr>) (app_mirrors a)\<rparr>)"

definition ipc_update_mirror_geometry :: "'sp env \<Rightarrow> u64 \<Rightarrow> u64 \<Rightarrow> ipc_rect \<Rightarrow> 'sp emskin \<Rightarrow> 'sp emskin" where
  "ipc_update_mirror_geometry e i v r s =
     (if invalid_size r then s
      else on_apps (app_modify i (update_mirror v (emacs_rect_to_canvas e r s))) s)"

definition ipc_remove_mirror :: "u64 \<Rightarrow> u64 \<Rightarrow> 'sp emskin \<Rightarrow> 'sp emskin" where
  "ipc_remove_mirror i v = on_apps (app_modify i (\<lambda>a. a\<lparr>app_mirrors := AList.delete v (app_mirrors a)\<rparr>))"

definition ipc_promote_mirror :: "'sp env \<Rightarrow> u64 \<Rightarrow> u64 \<Rightarrow> 'sp emskin \<Rightarrow> 'sp emskin" where
  "ipc_promote_mirror e i v s =
     (case app_get (c_apps s) i of
        None \<Rightarrow> s
      | Some a \<Rightarrow>
          (case map_of (app_mirrors a) v of
             None \<Rightarrow> s
           | Some mv \<Rightarrow>
               (let old_ws = app_workspace a;
                    new_ws = mv_workspace mv;
                    p = rect_loc (mv_geometry mv);
                    s1 = on_apps (app_modify i (\<lambda>a. a\<lparr>app_mirrors := AList.delete v (app_mirrors a),
                           app_geometry := Some (mv_geometry mv)\<rparr>)) s in
                if old_ws \<noteq> new_ws
                then on_ws (\<lambda>w. space_for_mut new_ws (sp_map e (app_win a) p)
                         (space_for_mut old_ws (sp_unmap e (app_win a)) w))
                       (on_apps (app_modify i (\<lambda>a. a\<lparr>app_workspace := new_ws\<rparr>)) s1)
                else on_space (sp_map e (app_win a) p) s1)))"

section \<open>Overlays and recording\<close>

definition ipc_set_cursor_rect :: "'sp env \<Rightarrow> ipc_rect \<Rightarrow> string option \<Rightarrow> 'sp emskin \<Rightarrow> 'sp emskin" where
  "ipc_set_cursor_rect e r color s =
     (let canvas_rect = emacs_rect_to_canvas e r s;
          target = (if invalid_size r then None else Some canvas_rect) in
      on_effects (\<lambda>x. x\<lparr>fx_jelly := jelly_update target (elapsed e s)
        (case color of None \<Rightarrow> fx_jelly x | Some hex \<Rightarrow> set_color_hex hex (fx_jelly x))\<rparr>) s)"

definition ipc_set_child_frames :: "'sp env \<Rightarrow> ipc_rect list \<Rightarrow> 'sp emskin \<Rightarrow> 'sp emskin" where
  "ipc_set_child_frames e rs s =
     redraw (on_emacs (set_child_frame_rects
       (map (\<lambda>r. emacs_rect_to_canvas e r s) (filter (\<lambda>r. \<not> invalid_size r) rs))) s)"

definition set_skeleton :: "text_api \<Rightarrow> bool \<Rightarrow> skeleton_rect list \<Rightarrow> skeleton \<Rightarrow> skeleton" where
  "set_skeleton tx enabled rects sk =
     (let sk1 = skeleton_set_enabled enabled sk in
      if enabled then set_rects tx rects sk1 else skeleton_clear sk1)"

definition set_recording :: "bool \<Rightarrow> string option \<Rightarrow> u32 option \<Rightarrow> 'sp emskin \<Rightarrow> 'sp emskin" where
  "set_recording enabled p fps s =
     (if enabled
      then (case (p, fps) of
              (Some f, Some n) \<Rightarrow>
                if 0 < n then redraw (s\<lparr>c_recorder := request_recording f n (c_recorder s)\<rparr>) else s
            | _ \<Rightarrow> s)
      else redraw (s\<lparr>c_recorder := stop_recording (c_recorder s)\<rparr>))"

section \<open>The dispatcher\<close>

fun handle_ipc_message :: "'sp env \<Rightarrow> text_api \<Rightarrow> incoming_message \<Rightarrow> 'sp emskin \<Rightarrow> 'sp emskin" where
  "handle_ipc_message e tx (SetGeometry i r) s = ipc_set_geometry e i r s"
| "handle_ipc_message e tx (Close i) s = ipc_close e i s"
| "handle_ipc_message e tx (SetVisibility i v) s = ipc_set_visibility e i v s"
| "handle_ipc_message e tx PrefixDone s = ipc_prefix_done e s"
| "handle_ipc_message e tx PrefixClear s = on_ime (set_prefix_active False) s"
| "handle_ipc_message e tx (AddMirror i v r) s = ipc_add_mirror e i v r s"
| "handle_ipc_message e tx (UpdateMirrorGeometry i v r) s = ipc_update_mirror_geometry e i v r s"
| "handle_ipc_message e tx (RemoveMirror i v) s = ipc_remove_mirror i v s"
| "handle_ipc_message e tx (PromoteMirror i v) s = ipc_promote_mirror e i v s"
| "handle_ipc_message e tx (SetFocus i) s = ipc_set_focus e i s"
| "handle_ipc_message e tx (SetMeasure b) s = on_effects (measure_set_enabled b) s"
| "handle_ipc_message e tx (SetCursorTrail b) s =
     on_effects (\<lambda>x. x\<lparr>fx_cursor_trail := trail_set_enabled b (fx_cursor_trail x)\<rparr>) s"
| "handle_ipc_message e tx (SetKeyCast b) s =
     on_effects (\<lambda>x. x\<lparr>fx_key_cast := key_cast_set_enabled b (fx_key_cast x)\<rparr>) s"
| "handle_ipc_message e tx (SetSkeleton b rs) s =
     on_effects (\<lambda>x. x\<lparr>fx_skeleton := set_skeleton tx b rs (fx_skeleton x)\<rparr>) s"
| "handle_ipc_message e tx (SwitchWorkspace k) s = snd (switch_workspace e k s)"
| "handle_ipc_message e tx (SetJellyCursor b) s =
     on_effects (\<lambda>x. x\<lparr>fx_jelly := jelly_set_enabled b (fx_jelly x)\<rparr>) s"
| "handle_ipc_message e tx (SetCursorRectMsg r color) s = ipc_set_cursor_rect e r color s"
| "handle_ipc_message e tx (SetChildFrames rs) s = ipc_set_child_frames e rs s"
| "handle_ipc_message e tx (TakeScreenshot p) s =
     redraw (s\<lparr>c_recorder := request_screenshot p (c_recorder s)\<rparr>)"
| "handle_ipc_message e tx (SetRecording b p fps) s = set_recording b p fps s"

end
