(* ===== verification/Shell.thy ===== *)
theory Shell
  imports Dispatch
begin

text \<open>
  The handlers of clients' requests that change the compositor's state: \<open>handlers/xdg_shell.rs\<close>
  (toplevels, decorations, commits), \<open>handlers/compositor.rs\<close> (\<open>commit\<close>),
  \<open>handlers/layer_shell.rs\<close>, and the keyboard and focus part of \<open>input.rs\<close>.

  Popup grabs, popup placement and the interactive move of dialogs are in \<open>Pointer\<close>.
\<close>

section \<open>New toplevels\<close>

text \<open>\<open>w\<close> is the window that \<open>Window::new_wayland_window\<close> returns.\<close>

definition claim_emacs :: "'sp env \<Rightarrow> surface \<Rightarrow> window \<Rightarrow> 'sp emskin \<Rightarrow> 'sp emskin" where
  "claim_emacs e wl w s =
     (let s1 = on_emacs (em_set_surface (Some wl)) s;
          s2 = (case Option.bind (first_output e s1) (mode_size (shell e)) of
                  None \<Rightarrow> s1
                | Some logical \<Rightarrow>
                    send e (SurfaceSize (fst logical) (snd logical))
                      (call [PendingSize wl logical, PendingState wl Fullscreen True] s1));
          s3 = on_emacs mark_size_settled s2;
          s4 = on_space (\<lambda>sp. sp_lower e w (sp_map e w (0, 0) sp)) s3 in
      set_focus e (Some (FWindow w)) s4)"

definition defer_emacs_toplevel :: "'sp env \<Rightarrow> surface \<Rightarrow> window \<Rightarrow> 'sp emskin \<Rightarrow> 'sp emskin" where
  "defer_emacs_toplevel e wl w s =
     (let s1 = (case output_fullscreen_geo e s of
                  None \<Rightarrow> s
                | Some geo \<Rightarrow> call [PendingSize wl (size_w geo, size_h geo), PendingState wl Fullscreen True,
                    SendConfigure wl] s);
          s2 = on_space (\<lambda>sp. sp_lower e w (sp_map e w (0, 0) sp)) s1 in
      on_ws (\<lambda>x. x\<lparr>pending_emacs_toplevels := pending_emacs_toplevels x @ [(wl, w)]\<rparr>) s2)"

definition defer_app_toplevel :: "'sp env \<Rightarrow> surface \<Rightarrow> window \<Rightarrow> 'sp emskin \<Rightarrow> 'sp emskin" where
  "defer_app_toplevel e wl w s =
     (let s1 = s\<lparr>c_unclassified := c_unclassified s @ [w]\<rparr>;
          s2 = on_space (sp_map e w (0, 0)) s1 in
      on_ws (\<lambda>x. x\<lparr>pending_app_toplevels := pending_app_toplevels x @ [(wl, w)]\<rparr>) s2)"

definition new_toplevel :: "'sp env \<Rightarrow> surface \<Rightarrow> window \<Rightarrow> 'sp emskin \<Rightarrow> 'sp emskin" where
  "new_toplevel e wl w s =
     (if should_claim_main (c_emacs s) then claim_emacs e wl w s
      else if is_emacs_client e wl s then defer_emacs_toplevel e wl w s
      else defer_app_toplevel e wl w s)"

section \<open>Requests of toplevels\<close>

definition set_toplevel_state :: "surface \<Rightarrow> toplevel_state \<Rightarrow> bool \<Rightarrow> 'sp emskin \<Rightarrow> 'sp emskin" where
  "set_toplevel_state wl t enabled = call [PendingState wl t enabled, SendPending wl]"

definition fullscreen_request :: "'sp env \<Rightarrow> surface \<Rightarrow> 'sp emskin \<Rightarrow> 'sp emskin" where
  "fullscreen_request e wl s =
     (if is_main_surface wl (c_emacs s)
      then set_toplevel_state wl Fullscreen True (on_emacs (request_fullscreen True) s)
      else if id_for_surface e wl (c_apps s) \<noteq> None then set_toplevel_state wl Fullscreen True s
      else s)"

definition unfullscreen_request :: "'sp env \<Rightarrow> surface \<Rightarrow> 'sp emskin \<Rightarrow> 'sp emskin" where
  "unfullscreen_request e wl s =
     (if is_any_emacs_surface wl s then s
      else if id_for_surface e wl (c_apps s) \<noteq> None then set_toplevel_state wl Fullscreen False s
      else s)"

definition maximize_request :: "surface \<Rightarrow> 'sp emskin \<Rightarrow> 'sp emskin" where
  "maximize_request wl s =
     (if is_main_surface wl (c_emacs s)
      then set_toplevel_state wl Maximized True (on_emacs (request_maximize True) s)
      else s)"

text \<open>\<open>split(" - GNU Emacs").next()\<close>, \<open>trim\<close>, \<open>strip_prefix("*eaf: ")\<close>.\<close>

fun before :: "string \<Rightarrow> string \<Rightarrow> string" where
  "before pat [] = []"
| "before pat (c # cs) = (if prefix pat (c # cs) then [] else c # before pat cs)"

definition extract_bar_name :: "string \<Rightarrow> string" where
  "extract_bar_name title =
     (let base = trim (before '' - GNU Emacs'' title) in
      if prefix ''*eaf: '' base then drop 6 base else base)"

text \<open>The loop over the inactive workspaces, which stops at the first match.\<close>

definition rename_inactive :: "'sp env \<Rightarrow> surface \<Rightarrow> string \<Rightarrow> 'sp workspace_state \<Rightarrow> 'sp workspace_state" where
  "rename_inactive e wl short w =
     (case find (\<lambda>(k, x). ws_emacs x = Some wl) (entries (visit e) (inactive w)) of
        None \<Rightarrow> w
      | Some (k, x) \<Rightarrow> w\<lparr>inactive := AList.update k (x\<lparr>ws_name := short\<rparr>) (inactive w)\<rparr>)"

definition title_changed :: "'sp env \<Rightarrow> surface \<Rightarrow> 'sp emskin \<Rightarrow> 'sp emskin" where
  "title_changed e wl s =
     (case tl_title (shell e) wl of
        None \<Rightarrow> s
      | Some title \<Rightarrow>
          if is_main_surface wl (c_emacs s)
          then on_emacs (set_title title) (on_ws (\<lambda>w. w\<lparr>active_name := extract_bar_name title\<rparr>) s)
          else if is_any_emacs_surface wl s then on_ws (rename_inactive e wl (extract_bar_name title)) s
          else case id_for_surface e wl (c_apps s) of
            None \<Rightarrow> s
          | Some i \<Rightarrow> send e (TitleChanged i title) s)"

definition app_id_changed :: "'sp env \<Rightarrow> surface \<Rightarrow> 'sp emskin \<Rightarrow> 'sp emskin" where
  "app_id_changed e wl s =
     (if is_main_surface wl (c_emacs s)
      then (case tl_app_id (shell e) wl of None \<Rightarrow> s | Some a \<Rightarrow> on_emacs (set_app_id a) s)
      else s)"

definition wants_floating :: "'sp env \<Rightarrow> surface \<Rightarrow> bool" where
  "wants_floating e wl \<longleftrightarrow>
     (if tl_parent (shell e) wl then True
      else (let mn = tl_min (shell e) wl; mx = tl_max (shell e) wl in
        0 < sint (fst mn) \<and> 0 < sint (snd mn) \<and> (fst mn = fst mx \<or> snd mn = snd mx)))"

definition new_decoration :: "surface \<Rightarrow> 'sp emskin \<Rightarrow> 'sp emskin" where
  "new_decoration wl = call [PendingDecoration wl, SendConfigure wl]"

definition request_mode :: "surface \<Rightarrow> 'sp emskin \<Rightarrow> 'sp emskin" where
  "request_mode wl = call [PendingDecoration wl, SendPending wl]"

definition unset_mode :: "surface \<Rightarrow> 'sp emskin \<Rightarrow> 'sp emskin" where
  "unset_mode wl = call [PendingDecoration wl, SendPending wl]"

section \<open>Commits\<close>

definition i32_div2 :: "i32 \<Rightarrow> i32" where
  "i32_div2 n = word_of_int (sint n sdiv 2)"

definition re_center_dialog :: "'sp env \<Rightarrow> window \<Rightarrow> 'sp emskin \<Rightarrow> 'sp emskin" where
  "re_center_dialog e w s =
     (case Option.bind (first_output e s) (output_geometry (shell e) (active_space (c_ws s))) of
        None \<Rightarrow> s
      | Some og \<Rightarrow>
          (let g = win_geometry e w;
               x = loc_x og + i32_div2 (size_w og - size_w g);
               y = loc_y og + i32_div2 (size_h og - size_h g) in
           on_space (sp_map e w (x, y)) s))"

text \<open>\<open>while let Some(parent) = get_parent(&root)\<close>; a cycle of parents would not end.\<close>

partial_function (option) root_of :: "(surface \<Rightarrow> surface option) \<Rightarrow> surface \<Rightarrow> surface option" where
  "root_of parent wl = (case parent wl of None \<Rightarrow> Some wl | Some p \<Rightarrow> root_of parent p)"

definition commit_pending_app :: "'sp env \<Rightarrow> surface \<Rightarrow> 'sp emskin \<Rightarrow> 'sp emskin" where
  "commit_pending_app e root s =
     (case find (owns_surface e root) (app_values e (c_apps s)) of
        None \<Rightarrow> s
      | Some a \<Rightarrow>
          (case app_pending a of
             None \<Rightarrow> s
           | Some geo \<Rightarrow>
               on_space (sp_map e (app_win a) (rect_loc geo)) (on_apps (app_modify (app_id a) commit_pending) s)))"

definition commit_root :: "'sp env \<Rightarrow> surface \<Rightarrow> 'sp emskin \<Rightarrow> 'sp emskin" where
  "commit_root e root s =
     (let w' = find (\<lambda>w. win_surface e w = Some root) (sp_elements e (active_space (c_ws s)));
          s1 = (case w' of None \<Rightarrow> s | Some w \<Rightarrow> call [OnCommit w] s);
          s2 = (case w' of
                  None \<Rightarrow> s1
                | Some w \<Rightarrow>
                    if w \<in> set (c_dialogs s1) \<and> 0 < sint (size_w (win_geometry e w)) \<and>
                       0 < sint (size_h (win_geometry e w))
                    then re_center_dialog e w s1 else s1) in
      commit_pending_app e root s2)"

definition layer_commit :: "'sp env \<Rightarrow> monitor \<Rightarrow> surface \<Rightarrow> 'sp emskin \<Rightarrow> 'sp emskin" where
  "layer_commit e o' wl s =
     (let s1 = call [LayerConfigure wl] s;
          target = Some (FLayer wl);
          s2 = (if layer_wants_keyboard (shell e) wl \<and> c_keyboard s1 \<noteq> target
                then set_focus e target (s1\<lparr>c_focus := focus_enter LayerOverride (c_keyboard s1) (c_focus s1)\<rparr>)
                else s1) in
      if zone_before (shell e) o' \<noteq> zone e o' then relayout_emacs e s2 else s2)"

definition handle_surface_commit :: "'sp env \<Rightarrow> surface \<Rightarrow> 'sp emskin \<Rightarrow> 'sp emskin" where
  "handle_surface_commit e wl s =
     (let s1 = (case find (\<lambda>w. win_surface e w = Some wl) (sp_elements e (active_space (c_ws s))) of
                  None \<Rightarrow> s
                | Some w \<Rightarrow>
                    if \<not> tl_configured (shell e) wl \<and> w \<notin> set (c_unclassified s)
                    then call [SendConfigure wl] s else s) in
      if tracked_popup (shell e) wl \<and> \<not> popup_configured (shell e) wl then call [PopupConfigure wl] s1 else s1)"

text \<open>\<open>CompositorHandler::commit\<close>: \<open>None\<close> when the walk to the root does not end.\<close>

definition commit :: "'sp env \<Rightarrow> surface \<Rightarrow> 'sp emskin \<Rightarrow> 'sp emskin option" where
  "commit e wl s =
     map_option (\<lambda>s1.
       case first_output e s1 of
         Some o' \<Rightarrow>
           if layer_surface (shell e) o' wl then layer_commit e o' wl s1
           else
             (let s2 = handle_surface_commit e wl s1 in
              if \<exists>w \<in> set (sp_elements e (active_space (c_ws s2))). win_surface e w = Some wl then s2
              else call [FrameCallback wl] s2)
       | None \<Rightarrow> handle_surface_commit e wl s1)
     (if sync_subsurface (shell e) wl then Some s
      else map_option (\<lambda>root. commit_root e root s) (root_of (get_parent (shell e)) wl))"

section \<open>Layer surfaces\<close>

definition relayout_or_redraw :: "bool \<Rightarrow> 'sp env \<Rightarrow> 'sp emskin \<Rightarrow> 'sp emskin" where
  "relayout_or_redraw changed e s = (if changed then relayout_emacs e s else redraw s)"

definition new_layer_surface :: "'sp env \<Rightarrow> surface \<Rightarrow> 'sp emskin \<Rightarrow> 'sp emskin" where
  "new_layer_surface e wl s =
     (case first_output e s of
        None \<Rightarrow> call [LayerClose wl] s
      | Some o' \<Rightarrow>
          if \<not> layer_maps (shell e) wl then call [LayerClose wl] s
          else
            (let sz = (case mode_size (shell e) o' of None \<Rightarrow> (0, 0) | Some p \<Rightarrow> p) in
             relayout_or_redraw (zone_before (shell e) o' \<noteq> zone e o') e
               (call [PendingSize wl sz, LayerConfigure wl] s)))"

definition layer_destroyed :: "'sp env \<Rightarrow> surface \<Rightarrow> 'sp emskin \<Rightarrow> 'sp emskin" where
  "layer_destroyed e wl s =
     (let changed = (case first_output e s of None \<Rightarrow> False
                     | Some o' \<Rightarrow> zone_before (shell e) o' \<noteq> zone e o');
          s1 = relayout_or_redraw changed e s in
      if Option.bind (c_keyboard s1) (target_surface e) \<noteq> Some wl then s1
      else
        (case focus_exit LayerOverride (c_focus s1) of
           (saved, f) \<Rightarrow>
             (let s2 = s1\<lparr>c_focus := f\<rparr>;
                  restore = (case saved of
                      Some (Some t) \<Rightarrow> if target_alive e t then Some t else emacs_focus_target e s2
                    | _ \<Rightarrow> emacs_focus_target e s2) in
              set_focus e restore s2)))"

section \<open>Keyboard input and host focus\<close>

record modifiers =
  m_ctrl :: bool
  m_alt :: bool
  m_logo :: bool
  m_shift :: bool

definition KEY_x :: u32 where "KEY_x = 0x78"
definition KEY_c :: u32 where "KEY_c = 0x63"
definition KEY_F1 :: u32 where "KEY_F1 = 0xffbe"
definition KEY_F35 :: u32 where "KEY_F35 = 0xffe0"

text \<open>The X11 keysym values of the modifiers in \<open>is_modifier_keysym\<close>.\<close>

definition is_modifier_keysym :: "u32 \<Rightarrow> bool" where
  "is_modifier_keysym key \<longleftrightarrow>
     key \<in> {0xffe1, 0xffe2, 0xffe3, 0xffe4, 0xffe9, 0xffea, 0xffe7, 0xffe8, 0xffeb, 0xffec, 0xffed, 0xffee,
            0xfe03, 0xffe5, 0xff7f}"

text \<open>\<open>name\<close> is xkbcommon's \<open>keysym_get_name\<close>.\<close>

definition keysym_label :: "(u32 \<Rightarrow> string) \<Rightarrow> u32 \<Rightarrow> string option" where
  "keysym_label name key =
     (if key \<in> {0xff0d, 0xff8d} then Some ''RET''
      else if key \<in> {0xff09, 0xfe20} then Some ''TAB''
      else if key = 0xff08 then Some ''DEL''
      else if key \<in> {0xffff, 0xff9f} then Some ''<deletechar>''
      else if key = 0xff1b then Some ''ESC''
      else if key \<in> {0x20, 0xff80} then Some ''SPC''
      else if key \<in> {0xff52, 0xff97} then Some ''<up>''
      else if key \<in> {0xff54, 0xff99} then Some ''<down>''
      else if key \<in> {0xff51, 0xff96} then Some ''<left>''
      else if key \<in> {0xff53, 0xff98} then Some ''<right>''
      else if key \<in> {0xff55, 0xff9a} then Some ''<prior>''
      else if key \<in> {0xff56, 0xff9b} then Some ''<next>''
      else if key \<in> {0xff50, 0xff95} then Some ''<home>''
      else if key \<in> {0xff57, 0xff9c} then Some ''<end>''
      else if KEY_F1 \<le> key \<and> key \<le> KEY_F35
      then Some (''<f'' @ decimal (unat (key - KEY_F1 + 1)) @ ''>'')
      else if 0x20 \<le> key \<and> key \<le> 0x7e then Some [char_of (unat key)]
      else if name key = ''NoSymbol'' \<or> name key = [] then None
      else Some (''<'' @ name key @ ''>''))"

definition format_chord :: "(u32 \<Rightarrow> string) \<Rightarrow> modifiers \<Rightarrow> u32 \<Rightarrow> string option" where
  "format_chord name m key =
     (case keysym_label name key of
        None \<Rightarrow> None
      | Some key_name \<Rightarrow>
          Some ((if m_ctrl m then ''C-'' else []) @ (if m_alt m then ''M-'' else []) @
                (if m_logo m then ''s-'' else []) @
                (if m_shift m \<and> 1 < length key_name then ''S-'' else []) @ key_name))"

definition is_prefix_key :: "modifiers \<Rightarrow> u32 \<Rightarrow> bool" where
  "is_prefix_key m key \<longleftrightarrow> m_ctrl m \<and> (key = KEY_x \<or> key = KEY_c) \<or> m_alt m \<and> key = KEY_x"

text \<open>The closure of \<open>input_intercept\<close>; \<open>keysym\<close> is the key's symbol, if it has one.\<close>

definition intercept_key ::
  "'sp env \<Rightarrow> (u32 \<Rightarrow> string) \<Rightarrow> bool \<Rightarrow> modifiers \<Rightarrow> u32 option \<Rightarrow> 'sp emskin \<Rightarrow> bool \<times> 'sp emskin" where
  "intercept_key e name pressed m keysym s =
     (case keysym of
        None \<Rightarrow> (False, s)
      | Some key \<Rightarrow>
          (is_prefix_key m key,
           if pressed \<and> \<not> is_modifier_keysym key
           then (case format_chord name m key of
                   None \<Rightarrow> s
                 | Some l \<Rightarrow> on_effects (\<lambda>x. x\<lparr>fx_key_cast := key_cast_push (clock e) l (fx_key_cast x)\<rparr>) s)
           else s))"

definition enter_prefix :: "'sp env \<Rightarrow> 'sp emskin \<Rightarrow> 'sp emskin" where
  "enter_prefix e s =
     (let s1 = (if is_active Prefix (c_focus s) then s
                else s\<lparr>c_focus := focus_enter Prefix (c_keyboard s) (c_focus s)\<rparr>);
          s2 = on_ime (set_prefix_active True) s1 in
      case emacs_focus_target e s2 of
        None \<Rightarrow> s2
      | Some t \<Rightarrow> if c_keyboard s2 \<noteq> Some t then set_focus e (Some t) s2 else s2)"

definition keyboard_key ::
  "'sp env \<Rightarrow> (u32 \<Rightarrow> string) \<Rightarrow> bool \<Rightarrow> modifiers \<Rightarrow> u32 option \<Rightarrow> 'sp emskin \<Rightarrow> 'sp emskin" where
  "keyboard_key e name pressed m keysym s =
     (case intercept_key e name pressed m keysym s of
        (prefix_key, s1) \<Rightarrow> call [KeyForward] (if prefix_key then enter_prefix e s1 else s1))"

definition on_focus_leave :: "'sp env \<Rightarrow> 'sp emskin \<Rightarrow> 'sp emskin" where
  "on_focus_leave e s =
     call [PointerClear]
       (set_focus e None (s\<lparr>c_focus := focus_enter Host (c_keyboard s) (c_focus s)\<rparr>))"

definition on_focus_enter :: "'sp env \<Rightarrow> 'sp emskin \<Rightarrow> 'sp emskin" where
  "on_focus_enter e s =
     (case focus_exit Host (c_focus s) of
        (saved, f) \<Rightarrow>
          (let s1 = s\<lparr>c_focus := f\<rparr> in
           case saved of Some (Some t) \<Rightarrow> set_focus e (Some t) s1 | _ \<Rightarrow> s1))"

end
