(* ===== verification/Hit_Test.thy ===== *)
theory Hit_Test
  imports Shell
begin

text \<open>
  What lies under a position of the canvas: the hit tests of \<open>state/apps.rs\<close> (mirrors),
  \<open>state/emacs.rs\<close> (child frames) and \<open>surface_under\<close> of \<open>state/mod.rs\<close>.

  The record \<open>floats\<close> is the arithmetic of \<open>f64\<close>, whose values are their bit patterns (so \<open>0\<close> is
  positive zero): \<open>f_of\<close> converts an \<open>i32\<close>, \<open>f_round\<close> is \<open>to_i32_round\<close> and \<open>f_trunc\<close> is
  \<open>as i32\<close>. The record \<open>hits\<close> is smithay: what is under a position in the tree of surfaces of one
  window or layer surface (the surface and its offset), the top window of a space there, the layer
  map of an output.
\<close>

section \<open>Floating point\<close>

type_synonym f64 = "64 word"

record floats =
  f_add :: "f64 \<Rightarrow> f64 \<Rightarrow> f64"
  f_sub :: "f64 \<Rightarrow> f64 \<Rightarrow> f64"
  f_mul :: "f64 \<Rightarrow> f64 \<Rightarrow> f64"
  f_div :: "f64 \<Rightarrow> f64 \<Rightarrow> f64"
  f_min :: "f64 \<Rightarrow> f64 \<Rightarrow> f64"
  f_lt :: "f64 \<Rightarrow> f64 \<Rightarrow> bool"
  f_le :: "f64 \<Rightarrow> f64 \<Rightarrow> bool"
  f_of :: "i32 \<Rightarrow> f64"
  f_round :: "f64 \<Rightarrow> i32"
  f_trunc :: "f64 \<Rightarrow> i32"

definition p_add :: "floats \<Rightarrow> fpoint \<Rightarrow> fpoint \<Rightarrow> fpoint" where
  "p_add fl a b = (f_add fl (fst a) (fst b), f_add fl (snd a) (snd b))"

definition p_sub :: "floats \<Rightarrow> fpoint \<Rightarrow> fpoint \<Rightarrow> fpoint" where
  "p_sub fl a b = (f_sub fl (fst a) (fst b), f_sub fl (snd a) (snd b))"

definition p_of :: "floats \<Rightarrow> point \<Rightarrow> fpoint" where
  "p_of fl p = (f_of fl (fst p), f_of fl (snd p))"

definition p_round :: "floats \<Rightarrow> fpoint \<Rightarrow> point" where
  "p_round fl p = (f_round fl (fst p), f_round fl (snd p))"

definition downscale :: "floats \<Rightarrow> fpoint \<Rightarrow> f64 \<Rightarrow> fpoint" where
  "downscale fl p r = (f_div fl (fst p) r, f_div fl (snd p) r)"

text \<open>\<open>Rectangle::to_f64().contains\<close>: the right and bottom edges are outside.\<close>

definition f_contains :: "floats \<Rightarrow> rect \<Rightarrow> fpoint \<Rightarrow> bool" where
  "f_contains fl r p \<longleftrightarrow>
     f_le fl (f_of fl (loc_x r)) (fst p) \<and>
     f_lt fl (fst p) (f_add fl (f_of fl (loc_x r)) (f_of fl (size_w r))) \<and>
     f_le fl (f_of fl (loc_y r)) (snd p) \<and>
     f_lt fl (snd p) (f_add fl (f_of fl (loc_y r)) (f_of fl (size_h r)))"

section \<open>Mirrors\<close>

definition aspect_fit_ratio :: "floats \<Rightarrow> fpoint \<Rightarrow> fpoint \<Rightarrow> f64 option" where
  "aspect_fit_ratio fl src dst =
     (if f_le fl (fst src) 0 \<or> f_le fl (snd src) 0 \<or> f_le fl (fst dst) 0 \<or> f_le fl (snd dst) 0
      then None
      else Some (f_min fl (f_div fl (fst dst) (fst src)) (f_div fl (snd dst) (snd src))))"

definition mirror_hit_test :: "floats \<Rightarrow> fpoint \<Rightarrow> rect \<Rightarrow> rect \<Rightarrow> fpoint option" where
  "mirror_hit_test fl pos source_geo mirror_geo =
     (let src_size = p_of fl (size_w source_geo, size_h source_geo) in
      case aspect_fit_ratio fl src_size (p_of fl (size_w mirror_geo, size_h mirror_geo)) of
        None \<Rightarrow> None
      | Some ratio \<Rightarrow>
          (let fit = (f_mul fl (fst src_size) ratio, f_mul fl (snd src_size) ratio);
               rel = p_sub fl pos (p_of fl (rect_loc mirror_geo)) in
           if f_lt fl (fst rel) 0 \<or> f_lt fl (snd rel) 0 \<or> f_le fl (fst fit) (fst rel) \<or> f_le fl (snd fit) (snd rel)
           then None
           else Some (p_add fl (p_of fl (rect_loc source_geo)) (downscale fl rel ratio))))"

text \<open>The loop over an application's mirrors, then the loop over the applications.\<close>

fun mirror_hit :: "floats \<Rightarrow> fpoint \<Rightarrow> u64 \<Rightarrow> rect \<Rightarrow> (u64 \<times> mirror_view) list \<Rightarrow> (u64 \<times> fpoint) option" where
  "mirror_hit fl pos active source_geo [] = None"
| "mirror_hit fl pos active source_geo ((view, m) # ms) =
     (if mv_workspace m \<noteq> active then mirror_hit fl pos active source_geo ms
      else case mirror_hit_test fl pos source_geo (mv_geometry m) of
        Some mapped \<Rightarrow> Some (view, mapped)
      | None \<Rightarrow> mirror_hit fl pos active source_geo ms)"

fun mirror_scan ::
  "'sp env \<Rightarrow> floats \<Rightarrow> fpoint \<Rightarrow> u64 \<Rightarrow> app_window list \<Rightarrow> (u64 \<times> u64 \<times> fpoint) option" where
  "mirror_scan e fl pos active [] = None"
| "mirror_scan e fl pos active (a # as) =
     (case app_geometry a of
        None \<Rightarrow> mirror_scan e fl pos active as
      | Some source_geo \<Rightarrow>
          (case mirror_hit fl pos active source_geo (entries (visit e) (app_mirrors a)) of
             Some (view, mapped) \<Rightarrow> Some (app_id a, view, mapped)
           | None \<Rightarrow> mirror_scan e fl pos active as))"

definition mirror_under ::
  "'sp env \<Rightarrow> floats \<Rightarrow> fpoint \<Rightarrow> u64 \<Rightarrow> app_manager \<Rightarrow> (u64 \<times> u64 \<times> fpoint) option" where
  "mirror_under e fl pos active am = mirror_scan e fl pos active (app_values e am)"

section \<open>Surfaces\<close>

type_synonym hit = "surface \<times> fpoint"

datatype layer = Overlay | Top | Bottom | Background

record 'sp hits =
  under_window :: "window \<Rightarrow> fpoint \<Rightarrow> (surface \<times> point) option"
  element_under :: "'sp \<Rightarrow> fpoint \<Rightarrow> (window \<times> point) option"
  layer_under :: "monitor \<Rightarrow> layer \<Rightarrow> fpoint \<Rightarrow> surface option"
  layer_geometry :: "monitor \<Rightarrow> surface \<Rightarrow> rect option"
  under_layer :: "surface \<Rightarrow> fpoint \<Rightarrow> (surface \<times> point) option"

definition plus_point :: "point \<Rightarrow> point \<Rightarrow> point" where
  "plus_point p q = (fst p + fst q, snd p + snd q)"

definition minus_point :: "point \<Rightarrow> point \<Rightarrow> point" where
  "minus_point p q = (fst p - fst q, snd p - snd q)"

definition is_in_child_frame :: "floats \<Rightarrow> fpoint \<Rightarrow> emacs_state \<Rightarrow> bool" where
  "is_in_child_frame fl pos m \<longleftrightarrow> (\<exists>r \<in> set (child_frame_rects m). f_contains fl r pos)"

text \<open>The surface of \<open>w\<close>, drawn at \<open>l\<close>, under a position.\<close>

definition window_hit :: "floats \<Rightarrow> 'sp hits \<Rightarrow> window \<Rightarrow> point \<Rightarrow> fpoint \<Rightarrow> hit option" where
  "window_hit fl h w l pos =
     map_option (\<lambda>(wl, p). (wl, p_of fl (plus_point p l))) (under_window h w (p_sub fl pos (p_of fl l)))"

definition emacs_surface_under :: "'sp env \<Rightarrow> floats \<Rightarrow> 'sp hits \<Rightarrow> fpoint \<Rightarrow> 'sp emskin \<Rightarrow> hit option" where
  "emacs_surface_under e fl h pos s =
     (case emacs_render_origin e s of None \<Rightarrow> None | Some (w, l) \<Rightarrow> window_hit fl h w l pos)"

fun layer_scan :: "floats \<Rightarrow> 'sp hits \<Rightarrow> monitor \<Rightarrow> fpoint \<Rightarrow> layer list \<Rightarrow> hit option" where
  "layer_scan fl h o' pos [] = None"
| "layer_scan fl h o' pos (l # ls) =
     (case layer_under h o' l pos of
        None \<Rightarrow> layer_scan fl h o' pos ls
      | Some sf \<Rightarrow>
          (case layer_geometry h o' sf of
             None \<Rightarrow> layer_scan fl h o' pos ls
           | Some g \<Rightarrow>
               (case under_layer h sf (p_sub fl pos (p_of fl (rect_loc g))) of
                  Some (wl, off) \<Rightarrow> Some (wl, p_of fl (plus_point off (rect_loc g)))
                | None \<Rightarrow> layer_scan fl h o' pos ls)))"

definition layer_surface_under :: "'sp env \<Rightarrow> floats \<Rightarrow> 'sp hits \<Rightarrow> fpoint \<Rightarrow> 'sp emskin \<Rightarrow> hit option" where
  "layer_surface_under e fl h pos s =
     (case first_output e s of
        None \<Rightarrow> None
      | Some o' \<Rightarrow> layer_scan fl h o' pos [Overlay, Top, Bottom, Background])"

text \<open>A mirror of \<open>a\<close> was hit at \<open>pos\<close>, which is \<open>mapped\<close> in the source window.\<close>

definition mirror_surface ::
  "'sp env \<Rightarrow> floats \<Rightarrow> 'sp hits \<Rightarrow> fpoint \<Rightarrow> app_window \<Rightarrow> rect \<Rightarrow> fpoint \<Rightarrow> hit option" where
  "mirror_surface e fl h pos a geo mapped =
     (let wg = rect_loc (win_geometry e (app_win a));
          local = p_add fl (p_sub fl mapped (p_of fl (rect_loc geo))) (p_of fl wg) in
      map_option (\<lambda>(wl, p). (wl, p_add fl (p_of fl (minus_point (plus_point p (rect_loc geo)) wg)) (p_sub fl pos mapped)))
        (under_window h (app_win a) local))"

definition mirror_source ::
  "'sp env \<Rightarrow> floats \<Rightarrow> fpoint \<Rightarrow> 'sp emskin \<Rightarrow> (app_window \<times> rect \<times> fpoint) option" where
  "mirror_source e fl pos s =
     (case mirror_under e fl pos (active_id (c_ws s)) (c_apps s) of
        None \<Rightarrow> None
      | Some (i, view, mapped) \<Rightarrow>
          (case app_get (c_apps s) i of
             None \<Rightarrow> None
           | Some a \<Rightarrow> map_option (\<lambda>geo. (a, geo, mapped)) (app_geometry a)))"

definition surface_under :: "'sp env \<Rightarrow> floats \<Rightarrow> 'sp hits \<Rightarrow> fpoint \<Rightarrow> 'sp emskin \<Rightarrow> hit option" where
  "surface_under e fl h pos s =
     (case (if is_in_child_frame fl pos (c_emacs s) then emacs_surface_under e fl h pos s else None) of
        Some hit \<Rightarrow> Some hit
      | None \<Rightarrow>
          (case mirror_source e fl pos s of
             Some (a, geo, mapped) \<Rightarrow> mirror_surface e fl h pos a geo mapped
           | None \<Rightarrow>
               (case layer_surface_under e fl h pos s of
                  Some hit \<Rightarrow> Some hit
                | None \<Rightarrow>
                    (case element_under h (active_space (c_ws s)) pos of
                       None \<Rightarrow> None
                     | Some (w, l) \<Rightarrow> window_hit fl h w l pos))))"

section \<open>Facts\<close>

text \<open>A hit names a mirror of a visible application of the active workspace, and its source is found
  again in the table.\<close>

lemma mirror_hit_Some:
  "mirror_hit fl pos k geo ms = Some (v, p) \<Longrightarrow>
     \<exists>m. (v, m) \<in> set ms \<and> mv_workspace m = k \<and> mirror_hit_test fl pos geo (mv_geometry m) = Some p"
  by (induction fl pos k geo ms rule: mirror_hit.induct) (auto split: if_splits option.splits)

lemma mirror_scan_Some:
  "mirror_scan e fl pos k as = Some (i, v, p) \<Longrightarrow>
     \<exists>a geo. a \<in> set as \<and> app_id a = i \<and> app_geometry a = Some geo \<and>
       mirror_hit fl pos k geo (entries (visit e) (app_mirrors a)) = Some (v, p)"
  by (induction e fl pos k as rule: mirror_scan.induct) (auto split: option.splits)

lemma mirror_scan_None:
  "mirror_scan e fl pos k as = None \<Longrightarrow> a \<in> set as \<Longrightarrow> app_geometry a = Some geo \<Longrightarrow>
     mirror_hit fl pos k geo (entries (visit e) (app_mirrors a)) = None"
  by (induction e fl pos k as rule: mirror_scan.induct) (auto split: option.splits)

lemma mirror_hit_None:
  "mirror_hit fl pos k geo ms = None \<Longrightarrow> (v, m) \<in> set ms \<Longrightarrow> mv_workspace m = k \<Longrightarrow>
     mirror_hit_test fl pos geo (mv_geometry m) = None"
  by (induction fl pos k geo ms rule: mirror_hit.induct) (auto split: if_splits option.splits)

section \<open>Concrete floating point\<close>

text \<open>Whole numbers, for the witnesses of the pointer and of the frame.\<close>

definition demo_floats :: floats where
  "demo_floats = \<lparr>f_add = (+), f_sub = (-), f_mul = (*), f_div = (div),
     f_min = (\<lambda>a b. if sint a \<le> sint b then a else b),
     f_lt = (\<lambda>a b. sint a < sint b), f_le = (\<lambda>a b. sint a \<le> sint b),
     f_of = (\<lambda>n. word_of_int (sint n)), f_round = (\<lambda>a. word_of_int (sint a)), f_trunc = (\<lambda>a. word_of_int (sint a))\<rparr>"

end
