(* ===== verification/Rulers.thy ===== *)
theory Rulers
  imports Pixels Hit_Test
begin

text \<open>
  The overlays drawn with the bitmap font: the pixel inspector of
  \<open>crates/effect-plugins/src/measure.rs\<close> (crosshair, coordinate label, rulers) and the recording
  indicator of \<open>crates/effect-plugins/src/recorder.rs\<close> (dot and timer).

  The state is the part of \<open>MeasureOverlay\<close> and \<open>RecorderOverlay\<close> that decides what is drawn: the
  buffers, the sizes and positions they were drawn for, the commit counters. \<open>resize\<close> is what
  \<open>MemoryRenderBuffer::resize\<close> of smithay makes of a buffer.
\<close>

section \<open>Painting\<close>

type_synonym resizer = "int \<times> int \<Rightarrow> bytes \<Rightarrow> bytes"

text \<open>\<open>paint_buffer\<close>: the closure sees the buffer after the resize.\<close>

definition paint_buffer :: "resizer \<Rightarrow> int \<times> int \<Rightarrow> (bytes \<Rightarrow> bytes option) \<Rightarrow> bytes \<Rightarrow> bytes option" where
  "paint_buffer resize size' paint buf = paint (resize size' buf)"

definition int_string :: "int \<Rightarrow> string" where
  "int_string n = (if n < 0 then CHR ''-'' # decimal (nat (- n)) else decimal (nat n))"

definition step_by :: "int \<Rightarrow> int \<Rightarrow> int \<Rightarrow> int list" where
  "step_by lo hi n = filter (\<lambda>x. (x - lo) mod n = 0) (irange lo hi)"

text \<open>A label: the background, then the text on_canvas its padding.\<close>

definition label_extent :: "int \<Rightarrow> string \<Rightarrow> int \<times> int" where
  "label_extent pad str = (wrap (wrap (pad * 2) + label_width str), wrap (wrap (pad * 2) + GLYPH_H))"

definition paint_label :: "int \<Rightarrow> colour \<Rightarrow> colour \<Rightarrow> string \<Rightarrow> bytes \<Rightarrow> bytes option" where
  "paint_label pad bg fg str data =
     Option.bind (Some (fill_chunks bg data))
       (draw_text (fst (label_extent pad str)) (snd (label_extent pad str)) pad pad str fg)"

section \<open>The rulers\<close>

definition BG_COLOR :: colour where "BG_COLOR = (35, 25, 25, 220)"
definition FG_COLOR :: colour where "FG_COLOR = (180, 100, 255, 255)"
definition RULER_SIZE :: int where "RULER_SIZE = 22"
definition MAJOR_TICK :: int where "MAJOR_TICK = 100"
definition MID_TICK :: int where "MID_TICK = 50"
definition MINOR_TICK :: int where "MINOR_TICK = 10"
definition MAJOR_TICK_LEN :: int where "MAJOR_TICK_LEN = 10"
definition MID_TICK_LEN :: int where "MID_TICK_LEN = 6"
definition MINOR_TICK_LEN :: int where "MINOR_TICK_LEN = 3"
definition LABEL_GAP :: int where "LABEL_GAP = 2"
definition CURSOR_LABEL_OFFSET :: int where "CURSOR_LABEL_OFFSET = 8"
definition LABEL_PAD :: int where "LABEL_PAD = 3"

definition tick_length :: "int \<Rightarrow> int" where
  "tick_length pos =
     (if pos smod MAJOR_TICK = 0 then MAJOR_TICK_LEN
      else if pos smod MID_TICK = 0 then MID_TICK_LEN else MINOR_TICK_LEN)"

definition top_tick :: "int \<Rightarrow> int \<Rightarrow> int \<Rightarrow> bytes \<Rightarrow> bytes option" where
  "top_tick w h x data =
     Option.bind
       (fold_panic (put_at w FG_COLOR x)
          (irange (max (wrap (wrap (h - 1) - tick_length x)) 0) (wrap (h - 1))) data)
       (\<lambda>d. if x smod MAJOR_TICK = 0 \<and> 0 < x then
          (let str = int_string x; pos_x = wrap (x + LABEL_GAP) in
           if wrap (pos_x + label_width str) < w then draw_text w h pos_x LABEL_GAP str FG_COLOR d else Some d)
        else Some d)"

definition render_top_ruler :: "int \<Rightarrow> bytes \<Rightarrow> bytes option" where
  "render_top_ruler width data =
     (let w = max width 1; h = RULER_SIZE in
      Option.bind (Some (fill_chunks BG_COLOR data)) (\<lambda>d.
      Option.bind (fold_panic (\<lambda>xi. put_at w FG_COLOR xi (wrap (h - 1))) (irange 0 w) d)
        (fold_panic (top_tick w h) (step_by 0 w MINOR_TICK))))"

definition left_tick :: "int \<Rightarrow> int \<Rightarrow> int \<Rightarrow> bytes \<Rightarrow> bytes option" where
  "left_tick w h y data =
     Option.bind
       (fold_panic (\<lambda>tx. put_at w FG_COLOR tx y)
          (irange (max (wrap (wrap (w - 1) - tick_length y)) 0) (wrap (w - 1))) data)
       (\<lambda>d. if y smod MAJOR_TICK = 0 \<and> 0 < y then
          (let str = int_string y; pos_y = wrap (y + LABEL_GAP) in
           if wrap (LABEL_GAP + label_width str) < w \<and> wrap (pos_y + GLYPH_H) < h
           then draw_text w h LABEL_GAP pos_y str FG_COLOR d else Some d)
        else Some d)"

definition render_left_ruler :: "int \<Rightarrow> bytes \<Rightarrow> bytes option" where
  "render_left_ruler height data =
     (let w = RULER_SIZE; h = max height 1 in
      Option.bind (Some (fill_chunks BG_COLOR data)) (\<lambda>d.
      Option.bind (fold_panic (\<lambda>yi. put_at w FG_COLOR (wrap (w - 1)) yi) (irange 0 h) d)
        (fold_panic (left_tick w h) (step_by 0 h MINOR_TICK))))"

section \<open>The pixel inspector\<close>

record measure =
  me_enabled :: bool
  me_lines_commit :: nat
  me_label :: bytes
  me_label_size :: "int \<times> int"
  me_last_pos :: "(int \<times> int) option"
  me_top :: bytes
  me_left :: bytes
  me_last_output :: "(int \<times> int) option"

definition measure_new :: measure where
  "measure_new = \<lparr>me_enabled = False, me_lines_commit = 0, me_label = replicate 4 0, me_label_size = (0, 0),
     me_last_pos = None, me_top = replicate 4 0, me_left = replicate 4 0, me_last_output = None\<rparr>"

definition label_text_at :: "int \<times> int \<Rightarrow> string" where
  "label_text_at p = int_string (fst p) @ '', '' @ int_string (snd p)"

definition render_label :: "resizer \<Rightarrow> int \<times> int \<Rightarrow> measure \<Rightarrow> measure option" where
  "render_label resize p m =
     (let str = label_text_at p; buf_size = label_extent LABEL_PAD str in
      map_option (\<lambda>buf. m\<lparr>me_label_size := buf_size, me_label := buf\<rparr>)
        (paint_buffer resize buf_size (paint_label LABEL_PAD BG_COLOR FG_COLOR str) (me_label m)))"

definition refresh_rulers :: "resizer \<Rightarrow> int \<times> int \<Rightarrow> measure \<Rightarrow> measure option" where
  "refresh_rulers resize size_key m =
     (if me_last_output m \<noteq> Some size_key then
        Option.bind (paint_buffer resize (max (fst size_key) 1, RULER_SIZE) (render_top_ruler (fst size_key)) (me_top m))
          (\<lambda>top. map_option
             (\<lambda>left. m\<lparr>me_last_output := Some size_key, me_top := top, me_left := left\<rparr>)
             (paint_buffer resize (RULER_SIZE, max (snd size_key) 1) (render_left_ruler (snd size_key)) (me_left m)))
      else Some m)"

definition refresh_label :: "resizer \<Rightarrow> int \<times> int \<Rightarrow> measure \<Rightarrow> measure option" where
  "refresh_label resize pos m =
     (if me_last_pos m \<noteq> Some pos
      then render_label resize pos (m\<lparr>me_last_pos := Some pos, me_lines_commit := me_lines_commit m + 1\<rparr>)
      else Some m)"

text \<open>
  Which way the label is flipped near the right and bottom edges; a canvas is its position and size.
\<close>

definition label_along :: "int \<Rightarrow> int \<Rightarrow> int \<Rightarrow> int" where
  "label_along at len edge =
     (if wrap (wrap (at + CURSOR_LABEL_OFFSET) + len) \<le> edge then wrap (at + CURSOR_LABEL_OFFSET)
      else wrap (wrap (at - CURSOR_LABEL_OFFSET) - len))"

definition label_loc :: "int \<times> int \<Rightarrow> int \<times> int \<Rightarrow> irect \<Rightarrow> int \<times> int" where
  "label_loc at sz canvas =
     (case canvas of (cx, cy, cw, ch) \<Rightarrow>
        (label_along (fst at) (fst sz) (wrap (cx + cw)), label_along (snd at) (snd sz) (wrap (cy + ch))))"

text \<open>
  What is drawn, topmost first, in logical pixels (scaling to the physical ones is smithay's, and the
  renderer is taken to accept the buffers): the label (position, pixels), the horizontal and vertical
  line of the crosshair, the rulers at the origin of the canvas. The cursor is the rounded one.
\<close>

datatype measure_element =
    CursorLabel "int \<times> int" bytes
  | HLine int | VLine int
  | RulerAt "int \<times> int" bytes

definition measure_paint ::
  "resizer \<Rightarrow> (int \<times> int) option \<Rightarrow> irect \<Rightarrow> measure \<Rightarrow> (measure_element list \<times> measure) option" where
  "measure_paint resize at canvas m =
     (case at of None \<Rightarrow> Some ([], m)
      | Some cursor_log \<Rightarrow>
          if \<not> me_enabled m then Some ([], m)
          else case canvas of (cx, cy, cw, ch) \<Rightarrow>
            let pos = (wrap (fst cursor_log - cx), wrap (snd cursor_log - cy)) in
            Option.bind (refresh_rulers resize (cw, ch) m) (\<lambda>m1.
            map_option (\<lambda>m2.
              ([CursorLabel (label_loc cursor_log (me_label_size m2) canvas) (me_label m2),
                HLine (snd cursor_log), VLine (fst cursor_log),
                RulerAt (cx, cy) (me_top m2), RulerAt (cx, cy) (me_left m2)], m2))
              (refresh_label resize pos m1)))"

section \<open>The recording indicator\<close>

definition TIMER_BG :: colour where "TIMER_BG = (30, 25, 25, 200)"
definition TIMER_FG :: colour where "TIMER_FG = (240, 240, 240, 255)"
definition TIMER_PAD :: int where "TIMER_PAD = 4"
definition DOT_DIAMETER :: int where "DOT_DIAMETER = 12"
definition DOT_TEXT_GAP :: int where "DOT_TEXT_GAP = 8"
definition MARGIN :: int where "MARGIN = 16"

record timer = recorder_overlay +
  ti_commit :: nat
  ti_label :: bytes
  ti_size :: "int \<times> int"

definition two_digits :: "nat \<Rightarrow> string" where
  "two_digits n = (if n < 10 then CHR ''0'' # decimal n else decimal n)"

definition timer_text :: "nat \<Rightarrow> string" where
  "timer_text seconds = two_digits (seconds div 60) @ '':'' @ two_digits (seconds mod 60)"

definition render_timer_label :: "resizer \<Rightarrow> nat \<Rightarrow> timer \<Rightarrow> timer option" where
  "render_timer_label resize seconds t =
     (let str = timer_text seconds; buf_size = label_extent TIMER_PAD str in
      map_option (\<lambda>buf. t\<lparr>ti_size := buf_size, ti_label := buf\<rparr>)
        (paint_buffer resize buf_size (paint_label TIMER_PAD TIMER_BG TIMER_FG str) (ti_label t)))"

text \<open>Where the dot and the label go, right-aligned in the canvas.\<close>

definition timer_layout :: "int \<times> int \<Rightarrow> irect \<Rightarrow> (int \<times> int) \<times> (int \<times> int)" where
  "timer_layout sz canvas =
     (case canvas of (cx, cy, cw, ch) \<Rightarrow>
      (let total_w = wrap (wrap (DOT_DIAMETER + DOT_TEXT_GAP) + fst sz);
           right_x = wrap (wrap (cx + cw) - MARGIN);
           top_y = wrap (cy + MARGIN);
           dot_x = wrap (right_x - total_w);
           label_x = wrap (wrap (dot_x + DOT_DIAMETER) + DOT_TEXT_GAP);
           row_h = max DOT_DIAMETER (snd sz);
           dot_y = wrap (top_y + wrap (row_h - DOT_DIAMETER) sdiv 2);
           label_y = wrap (top_y + wrap (row_h - snd sz) sdiv 2) in
       ((dot_x, dot_y), (label_x, label_y))))"

datatype timer_element = Dot "int \<times> int" | TimerLabel "int \<times> int" bytes

text \<open>Times are in nanoseconds; \<open>as_secs\<close> rounds down.\<close>

definition timer_paint :: "resizer \<Rightarrow> nat \<Rightarrow> irect \<Rightarrow> timer \<Rightarrow> (timer_element list \<times> timer) option" where
  "timer_paint resize present canvas t =
     (case ro_active t of None \<Rightarrow> Some ([], t)
      | Some began \<Rightarrow>
          (let seconds = (present - began) div 1000000000 in
           map_option (\<lambda>t1. case timer_layout (ti_size t1) canvas of (dot, lab) \<Rightarrow>
               ([Dot dot, TimerLabel lab (ti_label t1)], t1))
             (if ro_last_seconds t \<noteq> Some (word_of_nat seconds)
              then map_option (\<lambda>t1. t1\<lparr>ti_commit := ti_commit t1 + 1\<rparr>)
                (render_timer_label resize seconds (t\<lparr>ro_last_seconds := Some (word_of_nat seconds)\<rparr>))
              else Some t)))"

definition timer_post_paint :: "timer \<Rightarrow> bool" where
  "timer_post_paint t \<longleftrightarrow> ro_active t \<noteq> None"

end
