(* ===== verification/Key_Cast_Paint.thy ===== *)
theory Key_Cast_Paint
  imports Blending Rulers
begin

text \<open>
  The pill of the key cast, \<open>render_pill\<close>, \<open>fill_rounded_rect\<close> and \<open>paint\<close> of
  \<open>crates/effect-plugins/src/key_cast.rs\<close>; its queue is in \<open>Overlays\<close>.

  Shaping is an argument: for a text its size, rounded up, and the callbacks that draw it in
  \<open>PILL_FG\<close>. \<open>None\<close> is a panic.
\<close>

section \<open>Rounded rectangle\<close>

definition snap :: "int \<Rightarrow> int \<Rightarrow> int \<Rightarrow> int" where
  "snap x len r =
     (let lo = r; hi = wrap (wrap (len - r) - 1) in if x < lo then lo else if hi < x then hi else x)"

definition corner_center :: "int \<Rightarrow> int \<Rightarrow> int \<Rightarrow> int \<Rightarrow> int \<Rightarrow> int \<times> int" where
  "corner_center x y w h r = (snap x w r, snap y h r)"

text \<open>The squares are computed in \<open>i64\<close>, where they fit.\<close>

definition rounded_dot :: "int \<Rightarrow> int \<Rightarrow> int \<Rightarrow> colour \<Rightarrow> int \<Rightarrow> int \<Rightarrow> bytes \<Rightarrow> bytes option" where
  "rounded_dot w h r c y x =
     (case corner_center x y w h r of (cx, cy) \<Rightarrow>
        if cx = x \<and> cy = y then put_at w c x y
        else
          (let dx = wrap (x - cx); dy = wrap (y - cy) in
           if dx * dx + dy * dy \<le> r * r then put_at w c x y else Some))"

definition fill_rounded_rect :: "int \<Rightarrow> int \<Rightarrow> int \<Rightarrow> colour \<Rightarrow> bytes \<Rightarrow> bytes option" where
  "fill_rounded_rect w h radius c =
     fold_panic (\<lambda>y. fold_panic (rounded_dot w h (max radius 0) c y) (irange 0 w)) (irange 0 h)"

section \<open>The pill\<close>

definition PAD_X :: int where "PAD_X = 14"
definition PAD_Y :: int where "PAD_Y = 8"
definition CORNER_RADIUS :: int where "CORNER_RADIUS = 12"
definition MARGIN_BOTTOM :: int where "MARGIN_BOTTOM = 36"
definition CAST_BG :: colour where "CAST_BG = (25, 25, 25, 220)"

record cast_view = key_cast +
  kc_label :: bytes
  kc_size :: "int \<times> int"

definition cast_view_new :: cast_view where
  "cast_view_new = \<lparr>kc_enabled = False, kc_entries = [], kc_dirty = False, kc_label = replicate 4 0, kc_size = (0, 0)\<rparr>"

type_synonym cast_shaper = "string \<Rightarrow> (int \<times> int) \<times> ink list"

definition pill_extent :: "int \<times> int \<Rightarrow> int \<times> int" where
  "pill_extent inner =
     (max (wrap (fst inner + wrap (PAD_X * 2))) 1, max (wrap (snd inner + wrap (PAD_Y * 2))) 1)"

definition pill_radius :: "int \<times> int \<Rightarrow> int" where
  "pill_radius buf = min (min CORNER_RADIUS (fst buf sdiv 2)) (snd buf sdiv 2)"

definition paint_pill :: "int \<times> int \<Rightarrow> ink list \<Rightarrow> bytes \<Rightarrow> bytes option" where
  "paint_pill buf inks data =
     Option.bind (Some (fill_chunks (0, 0, 0, 0) data)) (\<lambda>d.
     Option.bind (fill_rounded_rect (fst buf) (snd buf) (pill_radius buf) CAST_BG d)
       (draw_text_onto (fst buf) (snd buf) PAD_X PAD_Y inks))"

definition render_pill :: "cast_shaper \<Rightarrow> resizer \<Rightarrow> string \<Rightarrow> cast_view \<Rightarrow> cast_view option" where
  "render_pill shaped resize str v =
     (let buf_size = pill_extent (fst (shaped str)) in
      map_option (\<lambda>buf. v\<lparr>kc_size := buf_size, kc_label := buf\<rparr>)
        (paint_buffer resize buf_size (paint_pill buf_size (snd (shaped str))) (kc_label v)))"

definition pill_loc :: "int \<times> int \<Rightarrow> irect \<Rightarrow> int \<times> int" where
  "pill_loc sz canvas =
     (case canvas of (cx, cy, cw, ch) \<Rightarrow>
        (wrap (wrap (cx + cw sdiv 2) - fst sz sdiv 2),
         wrap (wrap (wrap (cy + ch) - MARGIN_BOTTOM) - snd sz)))"

text \<open>
  \<open>paint\<close>: at most one element, the pill at its logical position (scaling is smithay's, and the
  renderer is taken to accept the buffer).
\<close>

definition cast_paint ::
  "cast_shaper \<Rightarrow> resizer \<Rightarrow> irect \<Rightarrow> cast_view \<Rightarrow> (((int \<times> int) \<times> bytes) list \<times> cast_view) option" where
  "cast_paint shaped resize canvas v =
     (if \<not> kc_enabled v \<or> kc_entries v = [] then Some ([], v)
      else
        Option.bind
          (if kc_dirty v
           then map_option (\<lambda>v1. v1\<lparr>kc_dirty := False\<rparr>) (render_pill shaped resize (current_text v) v)
           else Some v)
          (\<lambda>v1. if fst (kc_size v1) = 0 \<or> snd (kc_size v1) = 0 then Some ([], v1)
             else Some ([(pill_loc (kc_size v1) canvas, kc_label v1)], v1)))"

end
