(* ===== verification/Blending_Props.thy ===== *)
theory Blending_Props
  imports Blending
begin

text \<open>
  The pictures of text: each callback blends the pixels it covers once, nothing is written outside
  the buffer, the channels stay between background and ink.
\<close>

declare split_paired_All [simp del] split_paired_Ex [simp del]

section \<open>Arithmetic of a blend\<close>

lemma mix_bounds:
  fixes a d s :: nat
  assumes "a \<le> 255"
  shows "min d s \<le> (d * (255 - a) + s * a) div 255" and "(d * (255 - a) + s * a) div 255 \<le> max d s"
proof -
  have sum': "m * (255 - a) + m * a = m * 255" for m :: nat
    using assms by (simp flip: add_mult_distrib2)
  have "min d s * 255 \<le> d * (255 - a) + s * a"
    using add_mono [OF mult_right_mono [of "min d s" d "255 - a"] mult_right_mono [of "min d s" s a]]
    by (simp add: sum')
  then show "min d s \<le> (d * (255 - a) + s * a) div 255" by (simp add: less_eq_div_iff_mult_less_eq)
  have "d * (255 - a) + s * a \<le> max d s * 255"
    using add_mono [OF mult_right_mono [of d "max d s" "255 - a"] mult_right_mono [of s "max d s" a]]
    by (simp add: sum')
  then show "(d * (255 - a) + s * a) div 255 \<le> max d s" by (simp add: div_le_mono [THEN order_trans])
qed

lemma byte_le [simp]: "unat (x :: byte) \<le> 255"
proof -
  have "unat x < 2 ^ LENGTH(8)" by (rule unsigned_less)
  then show ?thesis by simp
qed

lemma unat_byte: "n \<le> 255 \<Longrightarrow> unat (word_of_nat n :: byte) = n"
  by (simp add: unat_of_nat take_bit_eq_mod)

lemma unat_blend8: "unat (blend8 a s d) = (unat d * (255 - unat a) + unat s * unat a) div 255"
proof -
  have "(unat d * (255 - unat a) + unat s * unat a) div 255 \<le> 255"
    using mix_bounds(2) [of "unat a" "unat d" "unat s"] by (auto simp: max_def intro: order_trans [OF _ byte_le] split: if_splits)
  then show ?thesis by (simp add: blend8_def unat_byte)
qed

lemma blend8_between: "min d s \<le> blend8 a s d" "blend8 a s d \<le> max d s"
  using mix_bounds [of "unat a" "unat d" "unat s"]
  by (simp_all add: word_le_nat_alt unat_blend8 min_def max_def split: if_splits)

lemma blend8_clear: "blend8 0 s d = d"
  by (rule word_unat_eq_iff [THEN iffD2]) (simp add: unat_blend8)

lemma blend8_full: "blend8 255 s d = s"
  by (rule word_unat_eq_iff [THEN iffD2]) (simp add: unat_blend8)

definition alpha_of :: "colour \<Rightarrow> byte" where
  "alpha_of c = (case c of (b, g, r, a) \<Rightarrow> a)"

lemma blend_onto_alpha: "alpha_of old \<le> alpha_of (blend_onto rgba old)"
proof -
  obtain r g b a where rgba: "rgba = (r, g, b, a)" by (cases rgba)
  obtain db dg dr da where old: "old = (db, dg, dr, da)" by (cases old)
  have "alpha_of (blend_onto rgba old) = blend8 a 255 da"
    using mix_bounds(2) [of "unat a" "unat da" 255] byte_le [of da]
    by (simp add: rgba old alpha_of_def blend_onto_def blend8_def)
  moreover have "da \<le> blend8 a 255 da" using blend8_between(1) [of da 255 a] by (simp add: min_def word_le_nat_alt split: if_splits)
  ultimately show ?thesis by (simp add: old alpha_of_def)
qed

section \<open>Pixels that a routine changes\<close>

definition changes :: "(colour \<Rightarrow> colour) \<Rightarrow> (int \<times> int \<Rightarrow> bool) \<Rightarrow> int \<times> int \<Rightarrow> colour \<Rightarrow> colour" where
  "changes f P p old = (if P p then f old else old)"

lemma draws_modify:
  assumes "on_canvas w h (x, y)" and "off = nat (4 * (y * w + x))"
  shows "draws w h (modify4 off f) (changes f (\<lambda>p. p = (x, y)))"
proof (rule drawsI)
  fix data assume canvas: "canvas_of w h data"
  have "modify4 off f data = put4 off (f (pixel w data (x, y))) data"
  proof (cases "off + 4 \<le> length data")
    case True
    then show ?thesis by (simp add: modify4_def pixel_def Let_def assms(2))
  qed (simp add: modify4_def put4_def)
  then show "\<exists>data'. modify4 off f data = Some data' \<and> canvas_of w h data' \<and>
      (\<forall>p. on_canvas w h p \<longrightarrow> pixel w data' p = changes f (\<lambda>p. p = (x, y)) p (pixel w data p))"
    using put4_pixel [OF canvas assms(1), of "f (pixel w data (x, y))"] assms(2) by (auto simp: changes_def)
qed

lemma draws_nothing: "(\<And>p. on_canvas w h p \<Longrightarrow> \<not> P p) \<Longrightarrow> draws w h Some (changes f P)"
  by (auto simp: draws_def changes_def)

lemma fold_once:
  assumes "distinct xs" and "\<And>x y. x \<in> set xs \<Longrightarrow> y \<in> set xs \<Longrightarrow> Q x \<Longrightarrow> Q y \<Longrightarrow> x = y"
  shows "fold (\<lambda>x c. if Q x then f c else c) xs c = (if \<exists>x \<in> set xs. Q x then f c else c)"
  using assms
proof (induction xs arbitrary: c)
  case (Cons x xs)
  have "fold (\<lambda>x c. if Q x then f c else c) xs c' = (if \<exists>x \<in> set xs. Q x then f c' else c')" for c'
    using Cons.prems by (intro Cons.IH) auto
  moreover have "Q x \<Longrightarrow> \<not> (\<exists>y \<in> set xs. Q y)" using Cons.prems by auto
  ultimately show ?case by auto
qed simp

lemma distinct_irange [simp]: "distinct (irange lo hi)"
  by (simp add: irange_def)

lemma set_irange [simp]: "x \<in> set (irange lo hi) \<longleftrightarrow> lo \<le> x \<and> x < hi"
  by (auto simp: irange_def)

text \<open>A loop whose rounds change disjoint sets of pixels.\<close>

lemma draws_changes_fold:
  assumes "\<And>i. lo \<le> i \<Longrightarrow> i < hi \<Longrightarrow> draws w h (g i) (changes f (P i))"
    and "\<And>i j p. P i p \<Longrightarrow> P j p \<Longrightarrow> i = j"
  shows "draws w h (fold_panic g (irange lo hi)) (changes f (\<lambda>p. \<exists>i. lo \<le> i \<and> i < hi \<and> P i p))"
proof -
  have "draws w h (fold_panic g (irange lo hi)) (\<lambda>p c. fold (\<lambda>i. changes f (P i) p) (irange lo hi) c)"
    using assms(1) by (intro draws_fold) simp
  moreover have "fold (\<lambda>i. changes f (P i) p) (irange lo hi) c = changes f (\<lambda>p. \<exists>i. lo \<le> i \<and> i < hi \<and> P i p) p c" for p c
    using fold_once [of "irange lo hi" "\<lambda>i. P i p" f c] assms(2) by (auto simp: changes_def [abs_def])
  ultimately show ?thesis by simp
qed

section \<open>One callback\<close>

definition covers :: "int \<Rightarrow> int \<Rightarrow> ink \<Rightarrow> int \<times> int \<Rightarrow> bool" where
  "covers ox oy k p \<longleftrightarrow>
     ox + ink_x k \<le> fst p \<and> fst p < ox + ink_x k + ink_w k \<and> oy + ink_y k \<le> snd p \<and> snd p < oy + ink_y k + ink_h k"

definition ink_small :: "ink \<Rightarrow> bool" where
  "ink_small k \<longleftrightarrow> \<bar>ink_x k\<bar> \<le> 2 ^ 28 \<and> \<bar>ink_y k\<bar> \<le> 2 ^ 28 \<and> ink_w k \<le> 2 ^ 28 \<and> ink_h k \<le> 2 ^ 28"

lemma draws_onto_dot: "draws w h (onto_dot w h k x y) (changes (blend_onto (ink_rgba k)) (\<lambda>p. p = (x, y)))"
proof (cases "on_canvas w h (x, y)")
  case True
  let ?off = "nat (4 * (y * w + x))" and ?f = "blend_onto (ink_rgba k)"
  have "onto_dot w h k x y data = modify4 ?off ?f data" if canvas: "canvas_of w h data" for data
  proof -
    have "\<not> length data \<le> ?off + 3"
      using put4_pixel [OF canvas True, of "(0, 0, 0, 0)"] by (auto simp: put4_def split: if_splits)
    then show ?thesis using True offset_eq [OF canvas, of x y] by (simp add: onto_dot_def on_canvas_def Let_def)
  qed
  then show ?thesis using draws_modify [OF True, of ?off ?f] by (simp add: draws_def)
next
  case False
  then have "onto_dot w h k x y = Some" by (auto simp: onto_dot_def on_canvas_def)
  moreover have "draws w h Some (changes (blend_onto (ink_rgba k)) (\<lambda>p. p = (x, y)))"
    using False by (intro draws_nothing) auto
  ultimately show ?thesis by simp
qed

lemma draws_opaque_dot: "draws w h (opaque_dot w h k x y) (changes (blend_opaque (ink_rgba k)) (\<lambda>p. p = (x, y)))"
proof (cases "on_canvas w h (x, y)")
  case True
  then have "opaque_dot w h k x y data = modify4 (nat (4 * (y * w + x))) (blend_opaque (ink_rgba k)) data"
    if "canvas_of w h data" for data
    using that offset_eq [of w h data x y] by (simp add: opaque_dot_def on_canvas_def)
  then show ?thesis using draws_modify [OF True refl, of "blend_opaque (ink_rgba k)"] by (simp add: draws_def)
next
  case False
  then have "opaque_dot w h k x y = Some" by (auto simp: opaque_dot_def on_canvas_def)
  moreover have "draws w h Some (changes (blend_opaque (ink_rgba k)) (\<lambda>p. p = (x, y)))"
    using False by (intro draws_nothing) auto
  ultimately show ?thesis by simp
qed

text \<open>The two loops over a rectangle, whichever way its dots are drawn.\<close>

lemma draws_rectangle:
  assumes dot: "\<And>x y. draws w h (dot x y) (changes f (\<lambda>p. p = (x, y)))"
    and "ink_small k" and "\<bar>ox\<bar> \<le> 2 ^ 28" and "\<bar>oy\<bar> \<le> 2 ^ 28"
  shows "draws w h (fold_panic (\<lambda>dy. fold_panic (\<lambda>dx.
      dot (wrap (wrap (ink_x k + dx) + ox)) (wrap (wrap (ink_y k + dy) + oy)))
    (irange 0 (ink_w k))) (irange 0 (ink_h k))) (changes f (covers ox oy k))"
proof -
  have wraps: "wrap (wrap (ink_x k + i) + ox) = ink_x k + i + ox" if "0 \<le> i" "i < ink_w k" for i
    using that assms(2,3) by (auto simp: ink_small_def)
  have wraps': "wrap (wrap (ink_y k + i) + oy) = ink_y k + i + oy" if "0 \<le> i" "i < ink_h k" for i
    using that assms(2,4) by (auto simp: ink_small_def)
  have row: "draws w h (fold_panic (\<lambda>dx. dot (wrap (wrap (ink_x k + dx) + ox)) (wrap (wrap (ink_y k + dy) + oy)))
        (irange 0 (ink_w k)))
      (changes f (\<lambda>p. \<exists>dx. 0 \<le> dx \<and> dx < ink_w k \<and> p = (ink_x k + dx + ox, ink_y k + dy + oy)))"
    if "0 \<le> dy" "dy < ink_h k" for dy
    using dot wraps wraps' [OF that] by (intro draws_changes_fold) auto
  have "draws w h (fold_panic (\<lambda>dy. fold_panic (\<lambda>dx.
      dot (wrap (wrap (ink_x k + dx) + ox)) (wrap (wrap (ink_y k + dy) + oy)))
    (irange 0 (ink_w k))) (irange 0 (ink_h k)))
    (changes f (\<lambda>p. \<exists>dy. 0 \<le> dy \<and> dy < ink_h k \<and>
       (\<exists>dx. 0 \<le> dx \<and> dx < ink_w k \<and> p = (ink_x k + dx + ox, ink_y k + dy + oy))))"
    by (rule draws_changes_fold) (use row in auto)
  moreover have "(\<exists>dy. 0 \<le> dy \<and> dy < ink_h k \<and>
       (\<exists>dx. 0 \<le> dx \<and> dx < ink_w k \<and> p = (ink_x k + dx + ox, ink_y k + dy + oy))) \<longleftrightarrow> covers ox oy k p" for p
  proof
    assume "covers ox oy k p"
    then show "\<exists>dy. 0 \<le> dy \<and> dy < ink_h k \<and>
       (\<exists>dx. 0 \<le> dx \<and> dx < ink_w k \<and> p = (ink_x k + dx + ox, ink_y k + dy + oy))"
      by (intro exI [of _ "snd p - oy - ink_y k"] conjI exI [of _ "fst p - ox - ink_x k"])
        (auto simp: covers_def prod_eq_iff)
  qed (auto simp: covers_def)
  ultimately show ?thesis by simp
qed

section \<open>The pictures\<close>

text \<open>What the callbacks make of a pixel, in their order.\<close>

definition inked :: "(byte \<times> byte \<times> byte \<times> byte \<Rightarrow> colour \<Rightarrow> colour) \<Rightarrow> int \<Rightarrow> int \<Rightarrow> ink list \<Rightarrow> int \<times> int \<Rightarrow> colour \<Rightarrow> colour" where
  "inked blend ox oy inks p =
     fold (\<lambda>k c. if ink_alpha k \<noteq> 0 \<and> covers ox oy k p then blend (ink_rgba k) c else c) inks"

lemma draws_inks:
  assumes dot: "\<And>k x y. draws w h (dot k x y) (changes (blend (ink_rgba k)) (\<lambda>p. p = (x, y)))"
    and "\<forall>k \<in> set inks. ink_small k" and "\<bar>ox\<bar> \<le> 2 ^ 28" and "\<bar>oy\<bar> \<le> 2 ^ 28"
  shows "draws w h (fold_panic (\<lambda>k. if ink_alpha k = 0 then Some else
      fold_panic (\<lambda>dy. fold_panic (\<lambda>dx.
          dot k (wrap (wrap (ink_x k + dx) + ox)) (wrap (wrap (ink_y k + dy) + oy)))
        (irange 0 (ink_w k))) (irange 0 (ink_h k))) inks) (inked blend ox oy inks)"
proof -
  have "draws w h (if ink_alpha k = 0 then Some else
      fold_panic (\<lambda>dy. fold_panic (\<lambda>dx.
          dot k (wrap (wrap (ink_x k + dx) + ox)) (wrap (wrap (ink_y k + dy) + oy)))
        (irange 0 (ink_w k))) (irange 0 (ink_h k)))
      (changes (blend (ink_rgba k)) (\<lambda>p. ink_alpha k \<noteq> 0 \<and> covers ox oy k p))" if "k \<in> set inks" for k
  proof (cases "ink_alpha k = 0")
    case True
    then show ?thesis by (simp add: draws_nothing)
  next
    case False
    then show ?thesis using draws_rectangle [of w h "dot k", OF dot _ assms(3,4)] that assms(2) by simp
  qed
  from draws_fold [OF this] show ?thesis
    by (rule draws_cong) (simp_all add: inked_def changes_def [abs_def])
qed

lemma draws_text_onto:
  assumes "\<forall>k \<in> set inks. ink_small k" and "\<bar>ox\<bar> \<le> 2 ^ 28" and "\<bar>oy\<bar> \<le> 2 ^ 28"
  shows "draws w h (draw_text_onto w h ox oy inks) (inked blend_onto ox oy inks)"
  unfolding draw_text_onto_def 
  by (rule draws_inks [where dot = "onto_dot w h", OF draws_onto_dot assms])

text \<open>Text drawn onto a buffer never makes a pixel more transparent.\<close>

lemma inked_onto_alpha: "alpha_of old \<le> alpha_of (inked blend_onto ox oy inks p old)"
  unfolding inked_def
proof (induction inks arbitrary: old)
  case (Cons k inks)
  then show ?case using order_trans [OF blend_onto_alpha Cons.IH] by simp
qed simp

lemma inked_opaque_alpha:
  "alpha_of (inked blend_opaque ox oy inks p old) =
     (if \<exists>k \<in> set inks. ink_alpha k \<noteq> 0 \<and> covers ox oy k p then 255 else alpha_of old)"
  unfolding inked_def
  by (induction inks arbitrary: old) (auto simp: blend_opaque_def alpha_of_def split: prod.splits)

lemma inked_away: "\<forall>k \<in> set inks. \<not> covers ox oy k p \<Longrightarrow> inked blend ox oy inks p old = old"
  unfolding inked_def by (induction inks) auto

section \<open>The label of the skeleton overlay\<close>

lemma draws_sk_label:
  assumes "\<forall>k \<in> set inks. ink_small k"
  shows "draws (fst (sk_label_extent iw ih)) (snd (sk_label_extent iw ih)) (sk_render_label iw ih inks)
    (\<lambda>p old. inked blend_opaque 3 3 inks p LABEL_BG)"
proof -
  let ?w = "fst (sk_label_extent iw ih)" and ?h = "snd (sk_label_extent iw ih)"
  have "draws ?w ?h (fold_panic (\<lambda>k. if ink_alpha k = 0 then Some else
           fold_panic (\<lambda>dy. fold_panic (\<lambda>dx.
               opaque_dot ?w ?h k (wrap (wrap (ink_x k + dx) + 3)) (wrap (wrap (ink_y k + dy) + 3)))
             (irange 0 (ink_w k))) (irange 0 (ink_h k))) inks) (inked blend_opaque 3 3 inks)"
    by (rule draws_inks [where dot = "opaque_dot ?w ?h", OF draws_opaque_dot assms]) simp_all
  from draws_seq [OF draws_fill this] show ?thesis
    unfolding sk_render_label_def [abs_def] Let_def SK_LABEL_PAD_def .
qed

section \<open>The bar\<close>

lemma draws_fill_rect:
  assumes "\<bar>x\<bar> \<le> 2 ^ 28" and "\<bar>y\<bar> \<le> 2 ^ 28" and "\<bar>pw\<bar> \<le> 2 ^ 28" and "\<bar>ph\<bar> \<le> 2 ^ 28"
  shows "draws w h (fill_rect w h x y pw ph c)
    (sets c (\<lambda>p. x \<le> fst p \<and> fst p < x + pw \<and> y \<le> snd p \<and> snd p < y + ph))"
proof -
  let ?x0 = "max x 0" and ?y0 = "max y 0" and ?x1 = "min (x + pw) w" and ?y1 = "min (y + ph) h"
  let ?dot = "\<lambda>row col. put4 (as_usize (wrap (wrap (row * w) * 4)) + as_usize (wrap (col * 4))) c"
  have dot: "draws w h (?dot row col) (sets c (\<lambda>p. p = (col, row)))" if on: "on_canvas w h (col, row)" for row col
  proof (rule drawsI)
    fix data assume canvas: "canvas_of w h data"
    have lt: "row * w + col < w * h" "0 \<le> row * w" "0 \<le> col" "col < w"
      using offset_bounds [OF canvas, of col row] on by (simp_all add: on_canvas_def)
    have lim: "4 * (w * h) < 2 ^ 31" "4 * w < 2 ^ 31" using canvas unfolding canvas_of_def by blast+
    have "4 * (row * w + col) < 2 ^ 31" by (rule less_trans [OF _ lim(1)]) (use lt in simp)
    then have b: "0 \<le> row * w" "0 \<le> col" "4 * col < 2 ^ 31" "4 * (row * w) < 2 ^ 31" using lt lim by simp_all
    then have "as_usize (wrap (wrap (row * w) * 4)) = nat (4 * (row * w))" "as_usize (wrap (col * 4)) = nat (4 * col)"
      by (simp_all add: ac_simps)
    moreover have "nat (4 * (row * w)) + nat (4 * col) = nat (4 * (row * w + col))"
      using b by (simp add: nat_add_distrib)
    ultimately show "\<exists>d. ?dot row col data = Some d \<and> canvas_of w h d \<and>
        (\<forall>p. on_canvas w h p \<longrightarrow> pixel w d p = sets c (\<lambda>p. p = (col, row)) p (pixel w data p))"
      using put4_pixel [OF canvas on, of c] by (simp add: sets_def)
  qed
  have "draws w h (fold_panic (\<lambda>row. fold_panic (?dot row) (irange ?x0 ?x1)) (irange ?y0 ?y1))
      (sets c (\<lambda>p. \<exists>row \<in> set (irange ?y0 ?y1). \<exists>col \<in> set (irange ?x0 ?x1). p = (col, row)))"
    by (intro draws_sets_fold dot) (auto simp: on_canvas_def)
  then have "draws w h (fold_panic (\<lambda>row. fold_panic (?dot row) (irange ?x0 ?x1)) (irange ?y0 ?y1))
      (sets c (\<lambda>p. x \<le> fst p \<and> fst p < x + pw \<and> y \<le> snd p \<and> snd p < y + ph))"
    by (rule draws_cong) (auto simp: sets_def on_canvas_def)
  moreover have "draws w h Some (sets c (\<lambda>p. x \<le> fst p \<and> fst p < x + pw \<and> y \<le> snd p \<and> snd p < y + ph))"
    if "?x1 \<le> ?x0 \<or> ?y1 \<le> ?y0" using that by (intro draws_cong [OF draws_skip]) (auto simp: sets_def on_canvas_def)
  moreover have "fill_rect w h x y pw ph c = (if ?x1 \<le> ?x0 \<or> ?y1 \<le> ?y0 then Some
      else fold_panic (\<lambda>row. fold_panic (?dot row) (irange ?x0 ?x1)) (irange ?y0 ?y1))"
    using assms by (intro ext) (simp add: fill_rect_def Let_def)
  ultimately show ?thesis by (simp split: if_splits)
qed

text \<open>The bar draws one pixel per callback, whatever the size of the rectangle.\<close>

definition one_dot :: "ink \<Rightarrow> ink" where
  "one_dot k = k\<lparr>ink_w := 1, ink_h := 1\<rparr>"

lemma one_dot_simps [simp]: "ink_alpha (one_dot k) = ink_alpha k" "ink_rgba (one_dot k) = ink_rgba k"
  by (simp_all add: one_dot_def ink_alpha_def)

lemma inked_dots:
  "inked blend ox oy (map one_dot inks) p = fold (\<lambda>k. changes (blend (ink_rgba k))
     (\<lambda>p. ink_alpha k \<noteq> 0 \<and> covers ox oy (one_dot k) p) p) inks"
  by (simp add: inked_def fold_map comp_def changes_def [abs_def] cong: if_cong)

lemma draws_bar_dot:
  assumes "ink_small k" and "\<bar>dst_x\<bar> \<le> 2 ^ 29" and "\<bar>base\<bar> \<le> 2 ^ 29"
  shows "draws w h (bar_dot w h dst_x base k)
    (changes (blend_opaque (ink_rgba k)) (\<lambda>p. ink_alpha k \<noteq> 0 \<and> covers dst_x (base - 16) (one_dot k) p))"
proof -
  let ?x = "dst_x + ink_x k" and ?y = "base + ink_y k - 16" and ?f = "blend_opaque (ink_rgba k)"
  have wraps: "wrap (dst_x + ink_x k) = ?x" "wrap (wrap (base + ink_y k) - BAR_LINE_HEIGHT) = ?y"
    using assms by (auto simp: ink_small_def BAR_LINE_HEIGHT_def)
  have at: "covers dst_x (base - 16) (one_dot k) p \<longleftrightarrow> p = (?x, ?y)" for p
    by (auto simp: covers_def one_dot_def prod_eq_iff)
  show ?thesis
  proof (cases "on_canvas w h (?x, ?y) \<and> ink_alpha k \<noteq> 0")
    case True
    let ?off = "nat (4 * (?y * w + ?x))"
    have "bar_dot w h dst_x base k data = modify4 ?off ?f data" if canvas: "canvas_of w h data" for data
    proof -
      have lt: "?y * w + ?x < w * h" "0 \<le> ?y * w" "0 \<le> ?x" "?y * w \<le> w * h"
        using offset_bounds [OF canvas, of ?x ?y] True by (simp_all add: on_canvas_def)
      have lim: "4 * (w * h) < 2 ^ 31" using canvas unfolding canvas_of_def by blast
      have "4 * (?y * w + ?x) < 2 ^ 31" by (rule less_trans [OF _ lim]) (use lt in simp)
      then have "wrap (?y * w) = ?y * w" "wrap (?y * w + ?x) = ?y * w + ?x"
          "as_usize (wrap ((?y * w + ?x) * 4)) = ?off" using lt by (simp_all add: mult.commute [of _ 4])
      then show ?thesis using True wraps by (simp add: bar_dot_def on_canvas_def Let_def)
    qed
    then show ?thesis using draws_modify [of w h ?x ?y ?off ?f] True at by (simp add: draws_def)
  next
    case False
    then have "bar_dot w h dst_x base k = Some" using wraps by (auto simp: bar_dot_def on_canvas_def Let_def)
    moreover have "draws w h Some (changes ?f (\<lambda>p. ink_alpha k \<noteq> 0 \<and> covers dst_x (base - 16) (one_dot k) p))"
      using False at by (intro draws_nothing) auto
    ultimately show ?thesis by simp
  qed
qed

lemma draws_bar_text:
  assumes "\<forall>k \<in> set inks. ink_small k" and "\<bar>dst_x\<bar> \<le> 2 ^ 29" and "\<bar>dst_y\<bar> \<le> 2 ^ 28" and "0 \<le> dst_h" and "dst_h \<le> 2 ^ 28"
  shows "draws w h (bar_text w h dst_x dst_y dst_h inks)
    (inked blend_opaque dst_x (dst_y + dst_h div 2 - 11) (map one_dot inks))"
proof -
  have base: "wrap (wrap (dst_y + dst_h sdiv 2) + BAR_LINE_HEIGHT sdiv 3) = dst_y + dst_h div 2 + 5"
    using assms(3-5) by (simp add: signed_divide_int_def BAR_LINE_HEIGHT_def sgn_if)
  have "draws w h (bar_dot w h dst_x (dst_y + dst_h div 2 + 5) k) (changes (blend_opaque (ink_rgba k))
      (\<lambda>p. ink_alpha k \<noteq> 0 \<and> covers dst_x (dst_y + dst_h div 2 - 11) (one_dot k) p))" if "k \<in> set inks" for k
    using draws_bar_dot [of k dst_x "dst_y + dst_h div 2 + 5" w h] that assms by (simp add: add.assoc)
  then show ?thesis unfolding bar_text_def base
    by (intro draws_cong [OF draws_fold]) (simp_all add: inked_dots)
qed

text \<open>What one pill makes of a pixel.\<close>

definition in_pill :: "bar_entry \<Rightarrow> int \<times> int \<Rightarrow> bool" where
  "in_pill en p \<longleftrightarrow> (case hit_rect en of (x, y, w, h) \<Rightarrow>
     sint x \<le> fst p \<and> fst p < sint x + sint w \<and> sint y \<le> snd p \<and> snd p < sint y + sint h)"

definition pill_pixel :: "(bar_entry \<Rightarrow> ink list) \<Rightarrow> bar_entry \<Rightarrow> int \<times> int \<Rightarrow> colour \<Rightarrow> colour" where
  "pill_pixel shaped en p old =
     (case hit_rect en of (x, y, w, h) \<Rightarrow>
        inked blend_opaque (sint x + 12) (sint y + sint h div 2 - 11) (map one_dot (shaped en)) p
          (if in_pill en p then if be_active en then PILL_BG_ACTIVE else PILL_BG else old))"

definition pill_ink :: "(bar_entry \<Rightarrow> ink list) \<Rightarrow> bar_entry \<Rightarrow> int \<times> int \<Rightarrow> bool" where
  "pill_ink shaped en p \<longleftrightarrow> (case hit_rect en of (x, y, w, h) \<Rightarrow>
     \<exists>k \<in> set (map one_dot (shaped en)). covers (sint x + 12) (sint y + sint h div 2 - 11) k p)"

lemma pill_pixel_bare:
  "\<not> pill_ink shaped en p \<Longrightarrow>
     pill_pixel shaped en p old = (if in_pill en p then if be_active en then PILL_BG_ACTIVE else PILL_BG else old)"
  by (cases "hit_rect en") (simp add: pill_pixel_def pill_ink_def inked_away)

lemma pills_away:
  "\<forall>e \<in> set ens. \<not> pill_ink shaped e p \<Longrightarrow> \<forall>e \<in> set ens. \<not> in_pill e p \<Longrightarrow>
     fold (\<lambda>en. pill_pixel shaped en p) ens c = c"
  by (induction ens arbitrary: c) (simp_all add: pill_pixel_bare)

definition pill_small :: "bar_entry \<Rightarrow> bool" where
  "pill_small en \<longleftrightarrow> (case hit_rect en of (x, y, w, h) \<Rightarrow>
     \<bar>sint x\<bar> \<le> 2 ^ 28 \<and> \<bar>sint y\<bar> \<le> 2 ^ 28 \<and> \<bar>sint w\<bar> \<le> 2 ^ 28 \<and> 0 \<le> sint h \<and> sint h \<le> 2 ^ 28)"

lemma draws_pill:
  assumes "pill_small en" and "\<forall>k \<in> set (shaped en). ink_small k"
  shows "draws w h (draw_pill shaped w h en) (pill_pixel shaped en)"
proof -
  obtain x y pw ph where at: "hit_rect en = (x, y, pw, ph)" by (cases "hit_rect en")
  let ?c = "if be_active en then PILL_BG_ACTIVE else PILL_BG"
  have lim: "\<bar>sint x\<bar> \<le> 2 ^ 28" "\<bar>sint y\<bar> \<le> 2 ^ 28" "\<bar>sint pw\<bar> \<le> 2 ^ 28" "0 \<le> sint ph" "sint ph \<le> 2 ^ 28"
    using assms(1) by (simp_all add: pill_small_def at)
  have pad: "sint PILL_TEXT_PAD = 12" by (simp add: PILL_TEXT_PAD_def)
  then have inner: "sint (x + PILL_TEXT_PAD) = sint x + 12" using lim by (subst sint_add_exact) simp_all
  have "draws w h (fill_rect w h (sint x) (sint y) (sint pw) (sint ph) ?c) (sets ?c (in_pill en))"
    using draws_fill_rect [of "sint x" "sint y" "sint pw" "sint ph" w h ?c] lim by (simp add: in_pill_def [abs_def] at)
  moreover have "draws w h (bar_text w h (sint (x + PILL_TEXT_PAD)) (sint y) (sint ph) (shaped en))
      (inked blend_opaque (sint x + 12) (sint y + sint ph div 2 - 11) (map one_dot (shaped en)))"
    using draws_bar_text [OF assms(2), of "sint x + 12" "sint y" "sint ph" w h] lim by (simp add: inner)
  ultimately have "draws w h (\<lambda>d. Option.bind (fill_rect w h (sint x) (sint y) (sint pw) (sint ph) ?c d)
      (bar_text w h (sint (x + PILL_TEXT_PAD)) (sint y) (sint ph) (shaped en)))
    (\<lambda>p old. inked blend_opaque (sint x + 12) (sint y + sint ph div 2 - 11) (map one_dot (shaped en)) p (sets ?c (in_pill en) p old))"
    by (rule draws_seq)
  then show ?thesis by (simp add: draw_pill_def [abs_def] pill_pixel_def [abs_def] at sets_def)
qed

lemma draws_bar:
  assumes "\<forall>en \<in> set ens. pill_small en \<and> (\<forall>k \<in> set (shaped en). ink_small k)"
  shows "draws w h (bar_picture shaped w h ens) (\<lambda>p old. fold (\<lambda>en. pill_pixel shaped en p) ens BG)"
proof -
  have "draws w h (fold_panic (draw_pill shaped w h) ens) (\<lambda>p. fold (\<lambda>en. pill_pixel shaped en p) ens)"
    using assms by (intro draws_fold draws_pill) simp_all
  from draws_seq [OF draws_fill this] show ?thesis unfolding bar_picture_def [abs_def] .
qed

section \<open>Claims\<close>

text \<open>
  Text of any shape is blended onto a buffer without a write outside it, whatever part of it falls
  beyond the edges: a pixel becomes the blend of the visible rectangles over it, in their order, one
  that none covers keeps its bytes, and none becomes more transparent. A label of the skeleton
  overlay depends on nothing but its text: background where no ink is, opaque where some is.
\<close>

theorem text_blended:
  assumes "canvas_of w h data" and "\<forall>k \<in> set inks. ink_small k" and "\<bar>ox\<bar> \<le> 2 ^ 28" and "\<bar>oy\<bar> \<le> 2 ^ 28"
    and "canvas_of (fst (sk_label_extent iw ih)) (snd (sk_label_extent iw ih)) buf"
  shows "(\<exists>data'. draw_text_onto w h ox oy inks data = Some data' \<and> length data' = length data \<and>
      (\<forall>p. on_canvas w h p \<longrightarrow> pixel w data' p = inked blend_onto ox oy inks p (pixel w data p) \<and>
         alpha_of (pixel w data p) \<le> alpha_of (pixel w data' p) \<and>
         ((\<forall>k \<in> set inks. \<not> covers ox oy k p) \<longrightarrow> pixel w data' p = pixel w data p))) \<and>
    (\<exists>buf'. sk_render_label iw ih inks buf = Some buf' \<and> length buf' = length buf \<and>
      (\<forall>p. on_canvas (fst (sk_label_extent iw ih)) (snd (sk_label_extent iw ih)) p \<longrightarrow>
         pixel (fst (sk_label_extent iw ih)) buf' p = inked blend_opaque 3 3 inks p LABEL_BG \<and>
         alpha_of (pixel (fst (sk_label_extent iw ih)) buf' p) =
           (if \<exists>k \<in> set inks. ink_alpha k \<noteq> 0 \<and> covers 3 3 k p then 255 else 210)))"
proof -
  obtain data' where data': "draw_text_onto w h ox oy inks data = Some data'" "canvas_of w h data'"
      "\<forall>p. on_canvas w h p \<longrightarrow> pixel w data' p = inked blend_onto ox oy inks p (pixel w data p)"
    using draws_text_onto [OF assms(2-4), of w h] assms(1) unfolding draws_def by blast
  obtain buf' where buf': "sk_render_label iw ih inks buf = Some buf'"
      "canvas_of (fst (sk_label_extent iw ih)) (snd (sk_label_extent iw ih)) buf'"
      "\<forall>p. on_canvas (fst (sk_label_extent iw ih)) (snd (sk_label_extent iw ih)) p \<longrightarrow>
         pixel (fst (sk_label_extent iw ih)) buf' p = inked blend_opaque 3 3 inks p LABEL_BG"
    using draws_sk_label [OF assms(2), of iw ih] assms(5) unfolding draws_def by blast
  have lengths: "length data' = length data" "length buf' = length buf"
    using data'(2) buf'(2) assms(1,5) by (simp_all add: canvas_of_def)
  have bg: "alpha_of LABEL_BG = 210" by (simp add: alpha_of_def LABEL_BG_def)
  show ?thesis
    using data'(1,3) buf'(1,3) lengths by (simp add: inked_onto_alpha inked_opaque_alpha inked_away bg) blast
qed

theorem text_blended_witness:
  "\<exists>data'. draw_text_onto 2 1 0 0 [\<lparr>ink_x = 1, ink_y = 0, ink_w = 5, ink_h = 1, ink_rgba = (30, 20, 10, 255)\<rparr>]
      (replicate 8 7) = Some data' \<and> pixel 2 data' (1, 0) = (10, 20, 30, 255) \<and> pixel 2 data' (0, 0) = (7, 7, 7, 7)"
proof -
  let ?k = "\<lparr>ink_x = 1, ink_y = 0, ink_w = 5, ink_h = 1, ink_rgba = (30, 20, 10, 255)\<rparr>"
  have blend: "inked blend_onto 0 0 [?k] (1, 0) (7, 7, 7, 7) = (10, 20, 30, 255)"
      "inked blend_onto 0 0 [?k] (0, 0) (7, 7, 7, 7) = (7, 7, 7, 7)"
    by (simp_all add: inked_def ink_alpha_def covers_def blend_onto_def blend8_full)
  have "pixel 2 (replicate 8 7) (1, 0) = (7, 7, 7, 7)" "pixel 2 (replicate 8 7) (0, 0) = (7, 7, 7, 7)"
    by (simp_all add: pixel_def numeral_eq_Suc)
  then show ?thesis
    using text_blended [of 2 1 "replicate 8 7" "[?k]" 0 0 0 0 "replicate 144 0"] blend
    by (simp add: canvas_of_def ink_small_def on_canvas_def covers_def sk_label_extent_def SK_LABEL_PAD_def) auto
qed

text \<open>
  C35. Drawing the bar never writes outside its buffer, whatever the widths of its pills and texts: each
  pixel is the background, painted over by the pills it lies in, each in the colour of its state with
  its text blended over it, in the order of the workspaces; nothing remains of the old buffer.
\<close>

theorem bar_drawn:
  assumes "canvas_of w h data" and "\<forall>en \<in> set ens. pill_small en \<and> (\<forall>k \<in> set (shaped en). ink_small k)"
  shows "\<exists>data'. bar_picture shaped w h ens data = Some data' \<and> length data' = length data \<and>
    (\<forall>p. on_canvas w h p \<longrightarrow> pixel w data' p = fold (\<lambda>en. pill_pixel shaped en p) ens BG) \<and>
    (\<forall>p en pre post. on_canvas w h p \<and> ens = pre @ en # post \<and> in_pill en p \<and>
       (\<forall>e \<in> set (en # post). \<not> pill_ink shaped e p) \<and> (\<forall>e \<in> set post. \<not> in_pill e p) \<longrightarrow>
       pixel w data' p = (if be_active en then PILL_BG_ACTIVE else PILL_BG))"
proof -
  obtain data' where data': "bar_picture shaped w h ens data = Some data'" "canvas_of w h data'"
      "\<forall>p. on_canvas w h p \<longrightarrow> pixel w data' p = fold (\<lambda>en. pill_pixel shaped en p) ens BG"
    using draws_bar [OF assms(2), of w h] assms(1) unfolding draws_def by blast
  moreover have "length data' = length data" using data'(2) assms(1) by (simp add: canvas_of_def)
  moreover have "fold (\<lambda>en. pill_pixel shaped en p) (pre @ en # post) BG = (if be_active en then PILL_BG_ACTIVE else PILL_BG)"
    if "in_pill en p" "\<forall>e \<in> set (en # post). \<not> pill_ink shaped e p" "\<forall>e \<in> set post. \<not> in_pill e p" for p en pre post
    using that by (simp add: pills_away pill_pixel_bare)
  ultimately show ?thesis by auto
qed

theorem bar_drawn_witness:
  "\<exists>data'. bar_picture (\<lambda>en. []) 40 28 [\<lparr>be_handle = (1, 1), be_id = 1, be_name = [], be_active = True, hit_rect = (8, 3, 24, 22)\<rparr>]
      (replicate 4480 0) = Some data' \<and> pixel 40 data' (10, 5) = PILL_BG_ACTIVE \<and> pixel 40 data' (5, 5) = BG"
proof -
  let ?en = "\<lparr>be_handle = (1, 1), be_id = 1, be_name = [], be_active = True, hit_rect = (8, 3, 24, 22)\<rparr>"
  have "in_pill ?en (10, 5)" "\<not> in_pill ?en (5, 5)" "pill_small ?en" "\<And>p. \<not> pill_ink (\<lambda>en. []) ?en p"
    by (simp_all add: in_pill_def pill_small_def pill_ink_def)
  then show ?thesis
    using bar_drawn [of 40 28 "replicate 4480 0" "[?en]" "\<lambda>en. []"]
    by (auto simp: canvas_of_def on_canvas_def pill_pixel_bare)
qed

end
