(* ===== verification/Rulers_Props.thy ===== *)
theory Rulers_Props
  imports Rulers
begin

text \<open>
  The pictures of the pixel inspector and of the recording indicator: every pixel of the rulers and
  labels, that cached pictures are the current ones, and where they are placed.
\<close>

declare split_paired_All [simp del] split_paired_Ex [simp del]

section \<open>Lengths of labels\<close>

lemma decimal_digits_le: "n < 10 ^ k \<Longrightarrow> 0 < k \<Longrightarrow> length (decimal n) \<le> k"
proof (induction k arbitrary: n)
  case (Suc k)
  then show ?case
  proof (cases "n < 10")
    case False
    then have "0 < k" using Suc.prems by (cases k) auto
    moreover have "n div 10 < 10 ^ k" using Suc.prems by (simp add: less_mult_imp_div_less ac_simps)
    ultimately show ?thesis using Suc.IH [of "n div 10"] False by (subst decimal.simps) simp
  qed (subst decimal.simps, simp)
qed simp

lemma decimal_not_Nil [simp]: "decimal n \<noteq> []"
  by (subst decimal.simps) simp

lemma int_string_length:
  assumes "- (2 ^ 31) \<le> n" and "n < 2 ^ 31"
  shows "length (int_string n) \<le> 11" and "int_string n \<noteq> []"
proof -
  have "nat n < 10 ^ 10" "nat (- n) < 10 ^ 10" using assms by simp_all
  then show "length (int_string n) \<le> 11"
    using decimal_digits_le [of "nat n" 10] decimal_digits_le [of "nat (- n)" 10] by (simp add: int_string_def)
  show "int_string n \<noteq> []" by (simp add: int_string_def)
qed

lemma label_width_eq: "length str \<le> 1000 \<Longrightarrow> str \<noteq> [] \<Longrightarrow> label_width str = 6 * int (length str) - 1"
  by (simp add: label_width_def GLYPH_W_def GLYPH_SPACING_def)

lemma label_extent_eq:
  assumes "length str \<le> 1000" and "str \<noteq> []" and "0 \<le> pad" and "pad \<le> 100"
  shows "label_extent pad str = (2 * pad + (6 * int (length str) - 1), 2 * pad + 7)"
  using assms by (simp add: label_extent_def label_width_eq GLYPH_H_def)

lemma draws_label:
  assumes "length str \<le> 1000" and "str \<noteq> []" and "0 \<le> pad" and "pad \<le> 100"
  shows "draws (fst (label_extent pad str)) (snd (label_extent pad str)) (paint_label pad bg fg str)
    (\<lambda>p old. if text_dot str pad pad p then fg else bg)"
proof -
  have "draws w h (draw_text w h pad pad str fg) (sets fg (text_dot str pad pad))" for w h
    using assms by (intro draws_text) simp_all
  from draws_over [OF draws_fill this] show ?thesis unfolding paint_label_def [abs_def] .
qed

section \<open>Ticks\<close>

lemma tick_length_cases: "tick_length x \<in> {3, 6, 10}"
  by (simp add: tick_length_def MAJOR_TICK_LEN_def MID_TICK_LEN_def MINOR_TICK_LEN_def)

lemma tick_length_bounds: "0 < tick_length x" "tick_length x \<le> 10"
  using tick_length_cases [of x] by auto

lemma tick_start: "max (wrap (21 - tick_length x)) 0 = 21 - tick_length x" "wrap (22 - 1) = 21"
  using tick_length_cases [of x] by auto

lemma set_step_by: "x \<in> set (step_by 0 w n) \<longleftrightarrow> 0 \<le> x \<and> x < w \<and> x mod n = 0"
  by (auto simp: step_by_def irange_def)

lemma smod_zero: "0 \<le> x \<Longrightarrow> 0 < n \<Longrightarrow> x smod n = 0 \<longleftrightarrow> x mod n = (0 :: int)"
  by (cases "x = 0") (simp_all add: signed_modulo_int_def)

text \<open>What the ticks at \<open>x\<close> of the top ruler and at \<open>y\<close> of the left ruler set.\<close>

definition top_tick_dot :: "int \<Rightarrow> int \<Rightarrow> int \<times> int \<Rightarrow> bool" where
  "top_tick_dot w x p \<longleftrightarrow>
     fst p = x \<and> 21 - tick_length x \<le> snd p \<and> snd p < 21 \<or>
     x mod 100 = 0 \<and> 0 < x \<and> x + 2 + label_width (int_string x) < w \<and> text_dot (int_string x) (x + 2) 2 p"

definition left_tick_dot :: "int \<Rightarrow> int \<Rightarrow> int \<times> int \<Rightarrow> bool" where
  "left_tick_dot h y p \<longleftrightarrow>
     snd p = y \<and> 21 - tick_length y \<le> fst p \<and> fst p < 21 \<or>
     y mod 100 = 0 \<and> 0 < y \<and> 2 + label_width (int_string y) < 22 \<and> y + 9 < h \<and>
       text_dot (int_string y) 2 (y + 2) p"

lemma draws_top_tick:
  assumes "0 \<le> x" and "x < w" and "w \<le> 2 ^ 24"
  shows "draws w 22 (top_tick w 22 x) (sets FG_COLOR (top_tick_dot w x))"
proof -
  let ?s = "int_string x" and ?ys = "irange (21 - tick_length x) 21"
  have small: "length ?s \<le> 11" "?s \<noteq> []" using int_string_length [of x] assms by simp_all
  then have width: "label_width ?s = 6 * int (length ?s) - 1" by (simp add: label_width_eq)
  have wraps: "wrap (x + LABEL_GAP) = x + 2" "wrap (x + 2 + label_width ?s) = x + 2 + label_width ?s"
    using assms small width by (simp_all add: LABEL_GAP_def)
  have "draws w 22 (fold_panic (put_at w FG_COLOR x) ?ys) (sets FG_COLOR (\<lambda>p. \<exists>y \<in> set ?ys. p = (x, y)))"
    using assms tick_length_bounds [of x]
    by (intro draws_sets_fold draws_put) (auto simp: on_canvas_def irange_def)
  moreover have "draws w 22 (\<lambda>d. if x mod 100 = 0 \<and> 0 < x then
      (if x + 2 + label_width ?s < w then draw_text w 22 (x + 2) 2 ?s FG_COLOR d else Some d) else Some d)
      (sets FG_COLOR (\<lambda>p. (x mod 100 = 0 \<and> 0 < x) \<and> x + 2 + label_width ?s < w \<and> text_dot ?s (x + 2) 2 p))"
    using assms small by (intro draws_guard draws_text) simp_all
  ultimately have "draws w 22 (\<lambda>d. Option.bind (fold_panic (put_at w FG_COLOR x) ?ys d)
      (\<lambda>d. if x mod 100 = 0 \<and> 0 < x then
        (if x + 2 + label_width ?s < w then draw_text w 22 (x + 2) 2 ?s FG_COLOR d else Some d) else Some d))
      (sets FG_COLOR (\<lambda>p. (\<exists>y \<in> set ?ys. p = (x, y)) \<or>
        (x mod 100 = 0 \<and> 0 < x) \<and> x + 2 + label_width ?s < w \<and> text_dot ?s (x + 2) 2 p))"
    by (rule draws_sets_seq)
  moreover have "(\<exists>y \<in> set ?ys. p = (x, y)) \<longleftrightarrow> fst p = x \<and> 21 - tick_length x \<le> snd p \<and> snd p < 21" for p
    by (cases p) (auto simp: irange_def)
  ultimately show ?thesis
    unfolding top_tick_def [abs_def] top_tick_dot_def [abs_def] Let_def tick_start wraps MAJOR_TICK_def
      smod_zero [OF assms(1), of 100, simplified]
    unfolding LABEL_GAP_def by (simp add: conj_assoc)
qed

lemma draws_left_tick:
  assumes "0 \<le> y" and "y < h" and "h \<le> 2 ^ 24"
  shows "draws 22 h (left_tick 22 h y) (sets FG_COLOR (left_tick_dot h y))"
proof -
  let ?s = "int_string y" and ?xs = "irange (21 - tick_length y) 21"
  have small: "length ?s \<le> 11" "?s \<noteq> []" using int_string_length [of y] assms by simp_all
  then have width: "label_width ?s = 6 * int (length ?s) - 1" by (simp add: label_width_eq)
  have wraps: "wrap (y + LABEL_GAP) = y + 2" "wrap (LABEL_GAP + label_width ?s) = 2 + label_width ?s"
      "wrap (y + 2 + GLYPH_H) = y + 9"
    using assms small width by (simp_all add: LABEL_GAP_def GLYPH_H_def)
  have "draws 22 h (fold_panic (\<lambda>tx. put_at 22 FG_COLOR tx y) ?xs) (sets FG_COLOR (\<lambda>p. \<exists>x \<in> set ?xs. p = (x, y)))"
    using assms tick_length_bounds [of y]
    by (intro draws_sets_fold draws_put) (auto simp: on_canvas_def irange_def)
  moreover have "draws 22 h (\<lambda>d. if y mod 100 = 0 \<and> 0 < y then
      (if 2 + label_width ?s < 22 \<and> y + 9 < h then draw_text 22 h 2 (y + 2) ?s FG_COLOR d else Some d) else Some d)
      (sets FG_COLOR (\<lambda>p. (y mod 100 = 0 \<and> 0 < y) \<and> (2 + label_width ?s < 22 \<and> y + 9 < h) \<and> text_dot ?s 2 (y + 2) p))"
    using assms small by (intro draws_guard draws_text) simp_all
  ultimately have "draws 22 h (\<lambda>d. Option.bind (fold_panic (\<lambda>tx. put_at 22 FG_COLOR tx y) ?xs d)
      (\<lambda>d. if y mod 100 = 0 \<and> 0 < y then
        (if 2 + label_width ?s < 22 \<and> y + 9 < h then draw_text 22 h 2 (y + 2) ?s FG_COLOR d else Some d) else Some d))
      (sets FG_COLOR (\<lambda>p. (\<exists>x \<in> set ?xs. p = (x, y)) \<or>
        (y mod 100 = 0 \<and> 0 < y) \<and> (2 + label_width ?s < 22 \<and> y + 9 < h) \<and> text_dot ?s 2 (y + 2) p))"
    by (rule draws_sets_seq)
  moreover have "(\<exists>x \<in> set ?xs. p = (x, y)) \<longleftrightarrow> snd p = y \<and> 21 - tick_length y \<le> fst p \<and> fst p < 21" for p
    by (cases p) (auto simp: irange_def)
  ultimately show ?thesis
    unfolding left_tick_def [abs_def] left_tick_dot_def [abs_def] Let_def tick_start wraps MAJOR_TICK_def
      smod_zero [OF assms(1), of 100, simplified]
    unfolding LABEL_GAP_def by (simp add: conj_assoc)
qed

section \<open>The rulers\<close>

definition top_ruler_dot :: "int \<Rightarrow> int \<times> int \<Rightarrow> bool" where
  "top_ruler_dot w p \<longleftrightarrow> snd p = 21 \<or> (\<exists>x \<in> set (step_by 0 w 10). top_tick_dot w x p)"

definition left_ruler_dot :: "int \<Rightarrow> int \<times> int \<Rightarrow> bool" where
  "left_ruler_dot h p \<longleftrightarrow> fst p = 21 \<or> (\<exists>y \<in> set (step_by 0 h 10). left_tick_dot h y p)"

lemma draws_top_ruler:
  assumes "width \<le> 2 ^ 24"
  shows "draws (max width 1) 22 (render_top_ruler width)
    (\<lambda>p old. if top_ruler_dot (max width 1) p then FG_COLOR else BG_COLOR)"
proof -
  let ?w = "max width 1"
  have "draws ?w 22 (fold_panic (\<lambda>x. put_at ?w FG_COLOR x 21) (irange 0 ?w))
      (sets FG_COLOR (\<lambda>p. \<exists>x \<in> set (irange 0 ?w). p = (x, 21)))"
    by (intro draws_sets_fold draws_put) (auto simp: on_canvas_def irange_def)
  moreover have "draws ?w 22 (fold_panic (top_tick ?w 22) (step_by 0 ?w 10))
      (sets FG_COLOR (\<lambda>p. \<exists>x \<in> set (step_by 0 ?w 10). top_tick_dot ?w x p))"
    using assms by (intro draws_sets_fold draws_top_tick) (auto simp: set_step_by)
  ultimately have "draws ?w 22 (\<lambda>d. Option.bind (fold_panic (\<lambda>x. put_at ?w FG_COLOR x 21) (irange 0 ?w) d)
        (fold_panic (top_tick ?w 22) (step_by 0 ?w 10)))
      (sets FG_COLOR (\<lambda>p. (\<exists>x \<in> set (irange 0 ?w). p = (x, 21)) \<or> (\<exists>x \<in> set (step_by 0 ?w 10). top_tick_dot ?w x p)))"
    by (rule draws_sets_seq)
  from draws_over [OF draws_fill this] show ?thesis
    unfolding render_top_ruler_def [abs_def] Let_def RULER_SIZE_def MINOR_TICK_def tick_start
    by (rule draws_cong) (auto simp: top_ruler_dot_def on_canvas_def irange_def prod_eq_iff)
qed

lemma draws_left_ruler:
  assumes "height \<le> 2 ^ 24"
  shows "draws 22 (max height 1) (render_left_ruler height)
    (\<lambda>p old. if left_ruler_dot (max height 1) p then FG_COLOR else BG_COLOR)"
proof -
  let ?h = "max height 1"
  have "draws 22 ?h (fold_panic (\<lambda>y. put_at 22 FG_COLOR 21 y) (irange 0 ?h))
      (sets FG_COLOR (\<lambda>p. \<exists>y \<in> set (irange 0 ?h). p = (21, y)))"
    by (intro draws_sets_fold draws_put) (auto simp: on_canvas_def irange_def)
  moreover have "draws 22 ?h (fold_panic (left_tick 22 ?h) (step_by 0 ?h 10))
      (sets FG_COLOR (\<lambda>p. \<exists>y \<in> set (step_by 0 ?h 10). left_tick_dot ?h y p))"
    using assms by (intro draws_sets_fold draws_left_tick) (auto simp: set_step_by)
  ultimately have "draws 22 ?h (\<lambda>d. Option.bind (fold_panic (\<lambda>y. put_at 22 FG_COLOR 21 y) (irange 0 ?h) d)
        (fold_panic (left_tick 22 ?h) (step_by 0 ?h 10)))
      (sets FG_COLOR (\<lambda>p. (\<exists>y \<in> set (irange 0 ?h). p = (21, y)) \<or> (\<exists>y \<in> set (step_by 0 ?h 10). left_tick_dot ?h y p)))"
    by (rule draws_sets_seq)
  from draws_over [OF draws_fill this] show ?thesis
    unfolding render_left_ruler_def [abs_def] Let_def RULER_SIZE_def MINOR_TICK_def tick_start
    by (rule draws_cong) (auto simp: left_ruler_dot_def on_canvas_def irange_def prod_eq_iff)
qed

section \<open>Cached pictures\<close>

text \<open>What is drawn does not depend on the old bytes of the buffer.\<close>

lemma paint_label_same:
  "length d = length d' \<Longrightarrow> 4 dvd length d \<Longrightarrow> paint_label pad bg fg str d = paint_label pad bg fg str d'"
  by (simp add: paint_label_def fill_chunks_same [of d d'])

lemma render_ruler_same:
  "length d = length d' \<Longrightarrow> 4 dvd length d \<Longrightarrow> render_top_ruler n d = render_top_ruler n d'"
  "length d = length d' \<Longrightarrow> 4 dvd length d \<Longrightarrow> render_left_ruler n d = render_left_ruler n d'"
  by (simp_all add: render_top_ruler_def render_left_ruler_def fill_chunks_same [of d d'])

definition blank :: "int \<times> int \<Rightarrow> bytes" where
  "blank sz = replicate (nat (4 * (fst sz * snd sz))) 0"

text \<open>smithay's resize: a buffer of four bytes a pixel.\<close>

definition resizes :: "resizer \<Rightarrow> bool" where
  "resizes resize \<longleftrightarrow> (\<forall>sz d. length (resize sz d) = nat (4 * (fst sz * snd sz)))"

lemma canvas_blank: "small w h \<Longrightarrow> canvas_of w h (blank (w, h))"
  by (simp add: small_def canvas_of_def blank_def)

lemma dvd_blank: "4 dvd length (blank sz)"
proof (cases "0 \<le> fst sz * snd sz")
  case True
  then have "int (length (blank sz)) = 4 * (fst sz * snd sz)" by (simp add: blank_def)
  then have "4 dvd int (length (blank sz))" by (simp only: dvd_triv_left)
  then show ?thesis by presburger
qed (simp add: blank_def)

lemma resize_length: "resizes resize \<Longrightarrow> length (resize sz d) = length (blank sz)"
  by (simp add: resizes_def blank_def)

lemma paint_buffer_label:
  "resizes resize \<Longrightarrow> paint_buffer resize sz (paint_label pad bg fg str) d = paint_label pad bg fg str (blank sz)"
  using paint_label_same [of "resize sz d" "blank sz"] resize_length [of resize sz d] dvd_blank [of sz]
  by (simp add: paint_buffer_def)

lemma paint_buffer_rulers:
  assumes "resizes resize"
  shows "paint_buffer resize sz (render_top_ruler n) d = render_top_ruler n (blank sz)"
    and "paint_buffer resize sz (render_left_ruler n) d = render_left_ruler n (blank sz)"
  using render_ruler_same [of "resize sz d" "blank sz"] resize_length [OF assms, of sz d] dvd_blank [of sz]
  by (simp_all add: paint_buffer_def)

lemma draws_some: "draws w h f G \<Longrightarrow> canvas_of w h d \<Longrightarrow> \<exists>d'. f d = Some d'"
  by (auto simp: draws_def)

text \<open>A label of at most a hundred characters is drawn without a panic.\<close>

lemma label_drawn:
  assumes "length str \<le> 100" and "str \<noteq> []" and "0 \<le> pad" and "pad \<le> 100"
  shows "\<exists>buf. paint_label pad bg fg str (blank (label_extent pad str)) = Some buf"
proof -
  have "1 \<le> length str" using assms(2) by (cases str) auto
  then obtain w h where size': "label_extent pad str = (w, h)" and "1 \<le> w" "w \<le> 799" "1 \<le> h" "h \<le> 207"
    using assms label_extent_eq [of str pad] by simp
  then have "small w h" using mult_mono [of w 799 h 207] mult_mono [of h 207 w 799] by (simp add: small_def)
  then show ?thesis using draws_some [OF draws_label [of str pad bg fg]] assms size' canvas_blank by simp
qed

section \<open>The pixel inspector\<close>

definition label_shows :: "int \<times> int \<Rightarrow> 'a measure_scheme \<Rightarrow> bool" where
  "label_shows p m \<longleftrightarrow>
     me_label_size m = label_extent LABEL_PAD (label_text_at p) \<and>
     paint_label LABEL_PAD BG_COLOR FG_COLOR (label_text_at p) (blank (me_label_size m)) = Some (me_label m)"

definition rulers_show :: "int \<times> int \<Rightarrow> 'a measure_scheme \<Rightarrow> bool" where
  "rulers_show sz m \<longleftrightarrow>
     render_top_ruler (fst sz) (blank (max (fst sz) 1, RULER_SIZE)) = Some (me_top m) \<and>
     render_left_ruler (snd sz) (blank (RULER_SIZE, max (snd sz) 1)) = Some (me_left m)"

lemma shows_update [simp]:
  "label_shows p (m\<lparr>me_last_output := a, me_top := b, me_left := c\<rparr>) = label_shows p m"
  "rulers_show sz (m\<lparr>me_last_pos := x, me_lines_commit := n, me_label_size := e, me_label := f\<rparr>) = rulers_show sz m"
  by (simp_all add: label_shows_def rulers_show_def)

text \<open>The pictures are those of the position and size they are recorded for.\<close>

definition measure_fresh :: "'a measure_scheme \<Rightarrow> bool" where
  "measure_fresh m \<longleftrightarrow>
     (\<forall>p. me_last_pos m = Some p \<longrightarrow> label_shows p m) \<and> (\<forall>sz. me_last_output m = Some sz \<longrightarrow> rulers_show sz m)"

lemma rulers_drawn_some:
  assumes "cw \<le> 2 ^ 24" and "ch \<le> 2 ^ 24"
  shows "\<exists>t. render_top_ruler cw (blank (max cw 1, 22)) = Some t"
    and "\<exists>l. render_left_ruler ch (blank (22, max ch 1)) = Some l"
proof -
  have "small (max cw 1) 22" "small 22 (max ch 1)" using assms by (simp_all add: small_def max_def)
  then show "\<exists>t. render_top_ruler cw (blank (max cw 1, 22)) = Some t"
    "\<exists>l. render_left_ruler ch (blank (22, max ch 1)) = Some l"
    using draws_some [OF draws_top_ruler [OF assms(1)]] draws_some [OF draws_left_ruler [OF assms(2)]] canvas_blank
    by blast+
qed

lemma refresh_rulers_current:
  assumes "resizes resize" and "measure_fresh m" and "cw \<le> 2 ^ 24" and "ch \<le> 2 ^ 24"
  shows "\<exists>m'. refresh_rulers resize (cw, ch) m = Some m' \<and> measure_fresh m' \<and> rulers_show (cw, ch) m' \<and>
    me_last_pos m' = me_last_pos m \<and> me_enabled m' = me_enabled m"
proof (cases "me_last_output m = Some (cw, ch)")
  case True
  then show ?thesis using assms(2) by (simp add: refresh_rulers_def measure_fresh_def)
next
  case False
  obtain t l where "render_top_ruler cw (blank (max cw 1, 22)) = Some t"
      "render_left_ruler ch (blank (22, max ch 1)) = Some l"
    using rulers_drawn_some [OF assms(3,4)] by blast
  then show ?thesis using assms(2) False
    by (simp add: refresh_rulers_def paint_buffer_rulers [OF assms(1)] measure_fresh_def)
      (simp add: rulers_show_def RULER_SIZE_def)
qed

lemma label_text_length:
  assumes "- (2 ^ 31) \<le> fst p" "fst p < 2 ^ 31" "- (2 ^ 31) \<le> snd p" "snd p < 2 ^ 31"
  shows "length (label_text_at p) \<le> 24"
  using int_string_length(1) [of "fst p"] int_string_length(1) [of "snd p"] assms by (simp add: label_text_at_def)

lemma refresh_label_current:
  assumes "resizes resize" and "measure_fresh m" and "p = (wrap x, wrap y)"
  shows "\<exists>m'. refresh_label resize p m = Some m' \<and> measure_fresh m' \<and> label_shows p m' \<and>
    me_last_output m' = me_last_output m \<and> me_top m' = me_top m \<and> me_left m' = me_left m \<and>
    me_enabled m' = me_enabled m"
proof (cases "me_last_pos m = Some p")
  case True
  then show ?thesis using assms(2) by (simp add: refresh_label_def measure_fresh_def)
next
  case False
  have "length (label_text_at p) \<le> 100"
    using label_text_length [of p] assms(3) wrap_bounds [of x] wrap_bounds [of y] by simp
  moreover have "label_text_at p \<noteq> []" by (simp add: label_text_at_def)
  ultimately obtain buf where
      "paint_label LABEL_PAD BG_COLOR FG_COLOR (label_text_at p) (blank (label_extent LABEL_PAD (label_text_at p))) = Some buf"
    using label_drawn [of "label_text_at p" LABEL_PAD BG_COLOR FG_COLOR] by (auto simp: LABEL_PAD_def)
  then show ?thesis using assms(2) False
    by (simp add: refresh_label_def render_label_def Let_def paint_buffer_label [OF assms(1)] measure_fresh_def)
      (simp add: label_shows_def)
qed

text \<open>Where the label goes along one axis: eight pixels after the position, or before it when it does not fit.\<close>

lemma label_along_fits:
  assumes "\<bar>lo\<bar> \<le> 2 ^ 28" and "lo \<le> at" and "at < lo + extent" and "extent \<le> 2 ^ 28" and "0 \<le> len"
    and "2 * (len + 8) \<le> extent"
  shows "lo \<le> label_along at len (wrap (lo + extent)) \<and> label_along at len (wrap (lo + extent)) + len \<le> lo + extent \<and>
    (at + 8 = label_along at len (wrap (lo + extent)) \<or> label_along at len (wrap (lo + extent)) + len + 8 = at)"
proof -
  have "wrap (lo + extent) = lo + extent" "wrap (at + CURSOR_LABEL_OFFSET) = at + 8"
      "wrap (at + 8 + len) = at + 8 + len" "wrap (at - CURSOR_LABEL_OFFSET) = at - 8"
      "wrap (at - 8 - len) = at - 8 - len"
    using assms by (simp_all add: CURSOR_LABEL_OFFSET_def)
  then show ?thesis using assms by (simp add: label_along_def)
qed

section \<open>The recording indicator\<close>

definition timer_shows :: "nat \<Rightarrow> timer \<Rightarrow> bool" where
  "timer_shows seconds t \<longleftrightarrow>
     ti_size t = label_extent TIMER_PAD (timer_text seconds) \<and>
     paint_label TIMER_PAD TIMER_BG TIMER_FG (timer_text seconds) (blank (ti_size t)) = Some (ti_label t)"

definition timer_fresh :: "timer \<Rightarrow> bool" where
  "timer_fresh t \<longleftrightarrow> (\<forall>s. ro_last_seconds t = Some s \<longrightarrow> timer_shows (unat s) t)"

lemma timer_shows_update [simp]:
  "timer_shows n (t\<lparr>ro_active := a\<rparr>) = timer_shows n t"
  "timer_shows n (t\<lparr>ro_last_seconds := b\<rparr>) = timer_shows n t"
  "timer_shows n (t\<lparr>ti_commit := k\<rparr>) = timer_shows n t"
  by (simp_all add: timer_shows_def)

lemma timer_fresh_set_active [simp]: "timer_fresh t \<Longrightarrow> timer_fresh (overlay_set_active a t)"
  by (auto simp: overlay_set_active_def timer_fresh_def split: option.splits)

lemma active_set_active [simp]: "ro_active (overlay_set_active a t) = a"
  by (auto simp: overlay_set_active_def split: option.splits)

lemma two_digits_length: "n < 2 ^ 64 \<Longrightarrow> length (two_digits n) \<le> 20" "two_digits n \<noteq> []"
  using decimal_digits_le [of n 20] decimal_digits_le [of n 1] by (auto simp: two_digits_def)

lemma timer_text_length: "n < 2 ^ 64 \<Longrightarrow> length (timer_text n) \<le> 41" "timer_text n \<noteq> []"
proof -
  assume n: "n < 2 ^ 64"
  have "n div 60 < 2 ^ 64" "n mod 60 < 2 ^ 64"
    using le_less_trans [OF div_le_dividend n] le_less_trans [OF mod_less_eq_dividend n] by blast+
  then show "length (timer_text n) \<le> 41"
    using two_digits_length(1) [of "n div 60"] two_digits_length(1) [of "n mod 60"] by (simp add: timer_text_def)
qed (simp add: timer_text_def)

lemma timer_drawn:
  assumes "n < 2 ^ 64"
  shows "\<exists>buf. paint_label TIMER_PAD TIMER_BG TIMER_FG (timer_text n) (blank (label_extent TIMER_PAD (timer_text n))) = Some buf"
  using label_drawn [of "timer_text n" TIMER_PAD] timer_text_length(1) [OF assms] timer_text_length(2) [of n]
  by (simp add: TIMER_PAD_def)

text \<open>Up to 99 minutes and 59 seconds the label has five characters.\<close>

lemma timer_size: "n < 6000 \<Longrightarrow> label_extent TIMER_PAD (timer_text n) = (37, 15)"
proof -
  assume "n < 6000"
  then have "n div 60 < 100" "n mod 60 < 100" by (simp_all add: less_mult_imp_div_less)
  moreover have "length (two_digits k) = 2" if "k < 100" for k
  proof (cases "k < 10")
    case True
    then show ?thesis by (simp add: two_digits_def decimal.simps [of k])
  next
    case False
    then show ?thesis using that by (simp add: two_digits_def decimal.simps [of k] decimal.simps [of "k div 10"])
  qed
  ultimately have "length (timer_text n) = 5" by (simp add: timer_text_def)
  moreover from this have "timer_text n \<noteq> []" by (cases "timer_text n") simp_all
  ultimately show ?thesis using label_extent_eq [of "timer_text n" TIMER_PAD] by (simp add: TIMER_PAD_def)
qed

lemma timer_layout_eq:
  assumes "\<bar>cx\<bar> \<le> 2 ^ 28" and "\<bar>cy\<bar> \<le> 2 ^ 28" and "0 \<le> cw" and "cw \<le> 2 ^ 28"
  shows "timer_layout (37, 15) (cx, cy, cw, ch) = ((cx + cw - 73, cy + 17), (cx + cw - 53, cy + 16))"
  using assms by (simp add: timer_layout_def Let_def DOT_DIAMETER_def DOT_TEXT_GAP_def MARGIN_def)

section \<open>Claims\<close>

text \<open>
  C34. Drawing the rulers of a canvas of up to \<open>2 ^ 24\<close> pixels a side never writes outside the buffer, and
  gives exactly the border, the ticks (10, 6 or 3 pixels every ten pixels) and the numbers every
  hundred that fit, over the background; the old contents of the buffer leave no trace. On the left
  ruler no number from 1000 on fits.
\<close>

theorem rulers_drawn:
  assumes "width \<le> 2 ^ 24" and "canvas_of (max width 1) 22 buf"
    and "height \<le> 2 ^ 24" and "canvas_of 22 (max height 1) buf'"
  shows "(\<exists>t. render_top_ruler width buf = Some t \<and> length t = length buf \<and>
      (\<forall>p. on_canvas (max width 1) 22 p \<longrightarrow>
         pixel (max width 1) t p = (if top_ruler_dot (max width 1) p then FG_COLOR else BG_COLOR))) \<and>
    (\<exists>l. render_left_ruler height buf' = Some l \<and> length l = length buf' \<and>
      (\<forall>p. on_canvas 22 (max height 1) p \<longrightarrow>
         pixel 22 l p = (if left_ruler_dot (max height 1) p then FG_COLOR else BG_COLOR)))"
proof -
  obtain t where t: "render_top_ruler width buf = Some t" "canvas_of (max width 1) 22 t"
      "\<forall>p. on_canvas (max width 1) 22 p \<longrightarrow>
         pixel (max width 1) t p = (if top_ruler_dot (max width 1) p then FG_COLOR else BG_COLOR)"
    using draws_top_ruler [OF assms(1)] assms(2) unfolding draws_def by blast
  obtain l where l: "render_left_ruler height buf' = Some l" "canvas_of 22 (max height 1) l"
      "\<forall>p. on_canvas 22 (max height 1) p \<longrightarrow>
         pixel 22 l p = (if left_ruler_dot (max height 1) p then FG_COLOR else BG_COLOR)"
    using draws_left_ruler [OF assms(3)] assms(4) unfolding draws_def by blast
  show ?thesis using t l assms(2,4) by (auto simp: canvas_of_def)
qed

theorem rulers_drawn_witness:
  "\<exists>t. render_top_ruler 20 (replicate 1760 7) = Some t \<and> pixel 20 t (10, 18) = FG_COLOR \<and>
     pixel 20 t (10, 17) = BG_COLOR \<and> pixel 20 t (5, 21) = FG_COLOR"
proof -
  have ticks: "tick_length 10 = 3" "tick_length 0 = 10"
    by (simp_all add: tick_length_def MAJOR_TICK_def MID_TICK_def MINOR_TICK_LEN_def MAJOR_TICK_LEN_def)
  have steps: "step_by 0 20 10 = [0, 10]" by (simp add: step_by_def irange_def upto.simps)
  have "top_ruler_dot 20 (10, 18)" "\<not> top_ruler_dot 20 (10, 17)" "top_ruler_dot 20 (5, 21)"
    by (simp_all add: top_ruler_dot_def top_tick_dot_def steps ticks)
  then show ?thesis
    using rulers_drawn [of 20 "replicate 1760 7" 0 "replicate 88 0"] by (auto simp: canvas_of_def on_canvas_def)
qed

text \<open>
  The pixel inspector redraws its label and rulers only when the position or the canvas changes, and
  still always shows the current ones: a frame never panics, its label is the rendering of the
  cursor's position relative to the canvas, its rulers those of the canvas, in the order label,
  crosshair, rulers. The label stays on a canvas of twice its size, and clear of the cursor.
\<close>

theorem measure_current:
  assumes "resizes resize" and "measure_fresh m" and "me_enabled m" and "cw \<le> 2 ^ 24" and "ch \<le> 2 ^ 24"
  shows "\<exists>m'. measure_paint resize (Some q) (cx, cy, cw, ch) m =
      Some ([CursorLabel (label_loc q (me_label_size m') (cx, cy, cw, ch)) (me_label m'), HLine (snd q), VLine (fst q),
             RulerAt (cx, cy) (me_top m'), RulerAt (cx, cy) (me_left m')], m') \<and>
    label_shows (wrap (fst q - cx), wrap (snd q - cy)) m' \<and> rulers_show (cw, ch) m' \<and>
    measure_fresh m' \<and> me_enabled m' \<and>
    (\<bar>cx\<bar> \<le> 2 ^ 28 \<and> cx \<le> fst q \<and> fst q < cx + cw \<and> 0 \<le> fst (me_label_size m') \<and>
       2 * (fst (me_label_size m') + 8) \<le> cw \<longrightarrow>
     (let x = fst (label_loc q (me_label_size m') (cx, cy, cw, ch)) in
        cx \<le> x \<and> x + fst (me_label_size m') \<le> cx + cw \<and> (x = fst q + 8 \<or> x + fst (me_label_size m') + 8 = fst q)))"
proof -
  obtain m1 where m1: "refresh_rulers resize (cw, ch) m = Some m1" "measure_fresh m1" "rulers_show (cw, ch) m1"
      "me_enabled m1 = me_enabled m"
    using refresh_rulers_current [OF assms(1,2,4,5)] by blast
  obtain m2 where m2: "refresh_label resize (wrap (fst q - cx), wrap (snd q - cy)) m1 = Some m2" "measure_fresh m2"
      "label_shows (wrap (fst q - cx), wrap (snd q - cy)) m2" "me_top m2 = me_top m1" "me_left m2 = me_left m1"
      "me_enabled m2 = me_enabled m1"
    using refresh_label_current [OF assms(1) m1(2) refl] by blast
  have "rulers_show (cw, ch) m2" using m1(3) m2(4,5) by (simp add: rulers_show_def)
  moreover have "\<bar>cx\<bar> \<le> 2 ^ 28 \<and> cx \<le> fst q \<and> fst q < cx + cw \<and> 0 \<le> fst (me_label_size m2) \<and>
       2 * (fst (me_label_size m2) + 8) \<le> cw \<longrightarrow>
     (let x = fst (label_loc q (me_label_size m2) (cx, cy, cw, ch)) in
        cx \<le> x \<and> x + fst (me_label_size m2) \<le> cx + cw \<and> (x = fst q + 8 \<or> x + fst (me_label_size m2) + 8 = fst q))"
    using label_along_fits [of cx "fst q" cw "fst (me_label_size m2)"] assms(4)
    by (auto simp: label_loc_def Let_def simp del: wrap_id)
  ultimately show ?thesis
    using m1(1,4) m2 assms(3) by (intro exI [of _ m2] conjI) (simp_all add: measure_paint_def Let_def)
qed

theorem measure_current_witness:
  "\<exists>m'. measure_paint (\<lambda>sz d. blank sz) (Some (30, 40)) (0, 5, 400, 300) (measure_new\<lparr>me_enabled := True\<rparr>) =
      Some ([CursorLabel (label_loc (30, 40) (me_label_size m') (0, 5, 400, 300)) (me_label m'), HLine 40, VLine 30,
             RulerAt (0, 5) (me_top m'), RulerAt (0, 5) (me_left m')], m') \<and> label_shows (30, 35) m'"
proof -
  have "resizes (\<lambda>sz d. blank sz)" by (simp add: resizes_def blank_def)
  moreover have "measure_fresh (measure_new\<lparr>me_enabled := True\<rparr>)" by (simp add: measure_fresh_def measure_new_def)
  ultimately show ?thesis
    using measure_current [of "\<lambda>sz d. blank sz" "measure_new\<lparr>me_enabled := True\<rparr>" 400 300 "(30, 40)" 0 5]
    by (auto simp: Let_def)
qed

text \<open>
  While a recording runs, every frame shows the dot and a timer label that reads the elapsed
  minutes and seconds, however the indicator was switched on, off and on again before, and for the
  first hundred minutes both lie in the upper right corner of the canvas, 16 pixels from its edges
  and eight apart, centred on one another; it asks for the next frame exactly while it runs.
\<close>

theorem timer_current:
  assumes "resizes resize" and "timer_fresh t" and "present < 2 ^ 64 * 1000000000"
    and "\<bar>cx\<bar> \<le> 2 ^ 28" and "\<bar>cy\<bar> \<le> 2 ^ 28" and "0 \<le> cw" and "cw \<le> 2 ^ 28"
    and "seconds = (present - began) div 1000000000"
  shows "\<exists>t' dot lab. timer_paint resize present (cx, cy, cw, ch) (overlay_set_active (Some began) t) =
      Some ([Dot dot, TimerLabel lab (ti_label t')], t') \<and> timer_shows seconds t' \<and> timer_post_paint t' \<and>
    timer_fresh t' \<and> timer_fresh (overlay_set_active None t') \<and>
    timer_paint resize present (cx, cy, cw, ch) (overlay_set_active None t') = Some ([], overlay_set_active None t') \<and>
    \<not> timer_post_paint (overlay_set_active None t') \<and>
    (seconds < 6000 \<longrightarrow> dot = (cx + cw - 73, cy + 17) \<and> lab = (cx + cw - 53, cy + 16) \<and> ti_size t' = (37, 15))"
proof -
  let ?t = "overlay_set_active (Some began) t"
  have fresh: "timer_fresh ?t" and active: "ro_active ?t = Some began"
    using assms(2) by simp_all
  have secs: "seconds < 2 ^ 64" using assms(3,8) by (simp add: less_mult_imp_div_less)
  then have unat_secs: "unat (word_of_nat seconds :: u64) = seconds" by (simp add: unat_of_nat take_bit_eq_mod)
  obtain t' where t': "(if ro_last_seconds ?t \<noteq> Some (word_of_nat seconds)
              then map_option (\<lambda>t1. t1\<lparr>ti_commit := ti_commit t1 + 1\<rparr>)
                (render_timer_label resize seconds (?t\<lparr>ro_last_seconds := Some (word_of_nat seconds)\<rparr>))
              else Some ?t) = Some t'" and shows': "timer_shows seconds t'" and fresh': "timer_fresh t'"
      and active': "ro_active t' = Some began"
  proof (cases "ro_last_seconds ?t = Some (word_of_nat seconds)")
    case True
    then show ?thesis using that [of ?t] fresh active unat_secs by (simp add: timer_fresh_def)
  next
    case False
    obtain buf where "paint_label TIMER_PAD TIMER_BG TIMER_FG (timer_text seconds)
        (blank (label_extent TIMER_PAD (timer_text seconds))) = Some buf" using timer_drawn [OF secs] by blast
    then show ?thesis
      using that False active
      by (simp add: render_timer_label_def Let_def paint_buffer_label [OF assms(1)] timer_fresh_def unat_secs)
        (simp add: timer_shows_def)
  qed
  obtain dot lab where at: "timer_layout (ti_size t') (cx, cy, cw, ch) = (dot, lab)" by (cases "timer_layout (ti_size t') (cx, cy, cw, ch)")
  have "timer_paint resize present (cx, cy, cw, ch) ?t = Some ([Dot dot, TimerLabel lab (ti_label t')], t')"
    using t' at by (simp add: timer_paint_def active Let_def flip: assms(8))
  moreover have "seconds < 6000 \<longrightarrow> dot = (cx + cw - 73, cy + 17) \<and> lab = (cx + cw - 53, cy + 16) \<and> ti_size t' = (37, 15)"
    using at shows' timer_size [of seconds] timer_layout_eq [OF assms(4-7), of ch] by (auto simp: timer_shows_def)
  moreover have "timer_fresh (overlay_set_active None t')" "ro_active (overlay_set_active None t') = None"
    using fresh' by simp_all
  ultimately show ?thesis using shows' fresh' active' by (simp add: timer_post_paint_def timer_paint_def)
qed

theorem timer_current_witness:
  "\<exists>t'. timer_paint (\<lambda>sz d. blank sz) (65 * 1000000000) (0, 0, 800, 600)
      (overlay_set_active (Some (2 * 1000000000))
         \<lparr>ro_active = None, ro_last_seconds = None, ti_commit = 0, ti_label = [], ti_size = (0, 0)\<rparr>) =
      Some ([Dot (727, 17), TimerLabel (747, 16) (ti_label t')], t') \<and> timer_shows 63 t'"
proof -
  let ?t = "\<lparr>ro_active = None, ro_last_seconds = None, ti_commit = 0, ti_label = [], ti_size = (0, 0)\<rparr>"
  have "resizes (\<lambda>sz d. blank sz)" by (simp add: resizes_def blank_def)
  moreover have "timer_fresh ?t" by (simp add: timer_fresh_def)
  ultimately show ?thesis
    using timer_current [of "\<lambda>sz d. blank sz" ?t "65 * 1000000000" 0 0 800 63 "2 * 1000000000" 600] by auto
qed

end
