(* ===== verification/Overlay_Props.thy ===== *)
theory Overlay_Props
  imports Overlays
begin

text \<open>
  Properties of the overlays: the queue of the key cast over its runs, the rectangles the skeleton
  draws, and the label panel that clicks are tested against.
\<close>

section \<open>Key cast\<close>

definition spaced :: "key_entry \<Rightarrow> key_entry \<Rightarrow> bool" where
  "spaced a b \<longleftrightarrow> pressed_at a \<le> pressed_at b \<and>
     (ke_label a = ke_label b \<longrightarrow> pressed_at a + REPEAT_WINDOW \<le> pressed_at b)"

text \<open>Runs of the overlay; \<open>t\<close> is the time of the last step, which a monotonic clock does not turn back.\<close>

inductive cast_run :: "instant \<Rightarrow> key_cast \<Rightarrow> bool" where
  cast_start: "cast_run t key_cast_new"
| cast_enable: "cast_run t k \<Longrightarrow> cast_run t (key_cast_set_enabled b k)"
| cast_push: "cast_run t k \<Longrightarrow> t \<le> now \<Longrightarrow> cast_run now (key_cast_push now label k)"
| cast_pre_paint: "cast_run t k \<Longrightarrow> t \<le> now \<Longrightarrow> cast_run now (key_cast_pre_paint now k)"
| cast_painted: "cast_run t k \<Longrightarrow> cast_run t (k\<lparr>kc_dirty := False\<rparr>)"

definition cast_ok :: "instant \<Rightarrow> key_cast \<Rightarrow> bool" where
  "cast_ok t k \<longleftrightarrow> successively spaced (kc_entries k) \<and> (\<forall>en \<in> set (kc_entries k). pressed_at en \<le> t) \<and>
     length (kc_entries k) \<le> MAX_ENTRIES \<and> (\<not> kc_enabled k \<longrightarrow> kc_entries k = [])"

lemma successively_drop: "successively P xs \<Longrightarrow> successively P (drop n xs)"
  by (metis append_take_drop_id successively_append_iff)

lemma drop_expired_loop_drop: "\<exists>n. fst (drop_expired_loop now es dirty) = drop n es"
proof (induction now es dirty rule: drop_expired_loop.induct)
  case (2 now en es dirty)
  show ?case
  proof (cases "MAX_AGE \<le> now - pressed_at en")
    case True
    then obtain n where "fst (drop_expired_loop now es True) = drop n es" using "2.IH" by blast
    with True show ?thesis by (intro exI [of _ "Suc n"]) simp
  next
    case False
    then show ?thesis by (intro exI [of _ 0]) simp
  qed
qed simp

lemma drop_expired_loop_filter:
  "sorted (map pressed_at es) \<Longrightarrow>
     fst (drop_expired_loop now es dirty) = filter (\<lambda>en. now - pressed_at en < MAX_AGE) es"
proof (induction now es dirty rule: drop_expired_loop.induct)
  case (2 now en es dirty)
  show ?case
  proof (cases "MAX_AGE \<le> now - pressed_at en")
    case False
    then have "\<forall>x \<in> set es. now - pressed_at x < MAX_AGE" using "2.prems" by fastforce
    with False show ?thesis by (simp add: filter_id_conv)
  qed (use 2 in simp)
qed simp

lemma cast_ok_drop:
  "cast_ok t k \<Longrightarrow> t \<le> now \<Longrightarrow> cast_ok now (k\<lparr>kc_entries := drop n (kc_entries k), kc_dirty := d\<rparr>)"
  by (auto simp: cast_ok_def successively_drop) (meson in_set_dropD le_trans)

lemma cast_ok_pre_paint:
  assumes "cast_ok t k" and "t \<le> now"
  shows "cast_ok now (key_cast_pre_paint now k)"
proof -
  obtain n where "fst (drop_expired_loop now (kc_entries k) (kc_dirty k)) = drop n (kc_entries k)"
    using drop_expired_loop_drop by blast
  then obtain d where "drop_expired_loop now (kc_entries k) (kc_dirty k) = (drop n (kc_entries k), d)"
    by (cases "drop_expired_loop now (kc_entries k) (kc_dirty k)") simp
  then show ?thesis
    using cast_ok_drop [OF assms] cast_ok_drop [OF assms, where n = 0 and d = "kc_dirty k"]
    by (simp add: key_cast_pre_paint_def drop_expired_def)
qed

lemma cast_ok_push:
  assumes ok: "cast_ok t k" and now: "t \<le> now"
  shows "cast_ok now (key_cast_push now label k)"
proof (cases "kc_enabled k")
  case False
  then show ?thesis using assms by (auto simp: key_cast_push_def Let_def cast_ok_def)
next
  case True
  let ?es = "kc_entries k" and ?new = "\<lparr>ke_label = label, pressed_at = now, ke_repeat = 1\<rparr>"
  have es: "successively spaced ?es" "\<forall>en \<in> set ?es. pressed_at en \<le> now" "length ?es \<le> MAX_ENTRIES"
    using ok now by (auto simp: cast_ok_def)
  show ?thesis
  proof (cases "?es \<noteq> [] \<and> ke_label (last ?es) = label \<and> now - pressed_at (last ?es) < REPEAT_WINDOW")
    case rep: True
    let ?upd = "(last ?es)\<lparr>pressed_at := now, ke_repeat := ke_repeat (last ?es) + 1\<rparr>"
    have split: "successively spaced (butlast ?es @ [last ?es])" using es(1) rep by simp
    have "pressed_at (last ?es) \<le> now" using es(2) rep by simp
    then have "spaced a ?upd" if "spaced a (last ?es)" for a
      using that by (auto simp: spaced_def)
    then have "successively spaced (butlast ?es @ [?upd])"
      using split by (auto simp: successively_append_iff)
    then show ?thesis
      using rep True es by (auto simp: key_cast_push_def Let_def cast_ok_def dest: in_set_butlastD)
  next
    case new: False
    have "pressed_at (last ?es) \<le> now" if "?es \<noteq> []" using es(2) that by simp
    then have "spaced (last ?es) ?new" if "?es \<noteq> []"
      using new that by (auto simp: spaced_def)
    then have "successively spaced (?es @ [?new])"
      using es(1) by (auto simp: successively_append_iff)
    from successively_drop [OF this, of "Suc (length ?es) - MAX_ENTRIES"] show ?thesis
      using new True es
      by (auto simp: key_cast_push_def Let_def cast_ok_def MAX_ENTRIES_def dest!: in_set_dropD)
  qed
qed

lemma cast_run_ok: "cast_run t k \<Longrightarrow> cast_ok t k"
proof (induction rule: cast_run.induct)
  case (cast_enable t k b)
  then show ?case by (auto simp: cast_ok_def key_cast_set_enabled_def)
next
  case (cast_painted t k)
  then show ?case by (simp add: cast_ok_def)
qed (simp_all add: cast_ok_push cast_ok_pre_paint, simp add: cast_ok_def key_cast_new_def)

lemma spaced_sorted: "successively spaced es \<Longrightarrow> sorted (map pressed_at es)"
proof -
  assume "successively spaced es"
  then have "successively (\<lambda>a b. pressed_at a \<le> pressed_at b) es"
    by (rule successively_mono) (simp add: spaced_def)
  then show "sorted (map pressed_at es)"
    by (simp add: successively_map [symmetric] successively_conv_sorted_wrt [symmetric])
qed

lemma successively_nth: "successively P xs \<Longrightarrow> Suc i < length xs \<Longrightarrow> P (xs ! i) (xs ! Suc i)"
proof (induction P xs arbitrary: i rule: successively.induct)
  case (3 P x y xs)
  then show ?case by (cases i) auto
qed simp_all

text \<open>In every run the key cast shows at most twelve chords, none when it is off, in the order they
  were pressed; equal neighbours are at least the repeat window apart; and the frame drawn at a time
  shows exactly the chords pressed less than the maximal age before, although only the front of the
  queue is examined.\<close>

theorem key_cast_queue:
  assumes "cast_run t k" and "t \<le> now"
  shows "length (kc_entries k) \<le> MAX_ENTRIES \<and> (\<not> kc_enabled k \<longrightarrow> kc_entries k = []) \<and>
    sorted (map pressed_at (kc_entries k)) \<and>
    (\<forall>i. Suc i < length (kc_entries k) \<and> ke_label (kc_entries k ! i) = ke_label (kc_entries k ! Suc i) \<longrightarrow>
       pressed_at (kc_entries k ! i) + REPEAT_WINDOW \<le> pressed_at (kc_entries k ! Suc i)) \<and>
    kc_entries (key_cast_pre_paint now k) =
      filter (\<lambda>en. now - pressed_at en < MAX_AGE) (kc_entries k)"
proof -
  note ok = cast_run_ok [OF assms(1)]
  have sorted: "sorted (map pressed_at (kc_entries k))" using ok by (simp add: cast_ok_def spaced_sorted)
  have "kc_entries (key_cast_pre_paint now k) = filter (\<lambda>en. now - pressed_at en < MAX_AGE) (kc_entries k)"
  proof (cases "kc_enabled k")
    case True
    then show ?thesis
      using drop_expired_loop_filter [OF sorted, of now "kc_dirty k"]
      by (cases "drop_expired_loop now (kc_entries k) (kc_dirty k)")
        (simp add: key_cast_pre_paint_def drop_expired_def)
  qed (use ok in \<open>simp add: key_cast_pre_paint_def cast_ok_def\<close>)
  moreover have "pressed_at (kc_entries k ! i) + REPEAT_WINDOW \<le> pressed_at (kc_entries k ! Suc i)"
    if "Suc i < length (kc_entries k)" "ke_label (kc_entries k ! i) = ke_label (kc_entries k ! Suc i)" for i
    using ok that successively_nth [of spaced "kc_entries k" i] by (simp add: cast_ok_def spaced_def)
  ultimately show ?thesis using ok sorted by (simp add: cast_ok_def)
qed

theorem key_cast_queue_witness:
  "kc_entries (key_cast_pre_paint 3000000000 (key_cast_push 1000000000 ''C-x''
     (key_cast_push 0 ''a'' (key_cast_set_enabled True key_cast_new)))) =
   [\<lparr>ke_label = ''C-x'', pressed_at = 1000000000, ke_repeat = 1\<rparr>]"
proof -
  have run: "cast_run 1000000000 (key_cast_push 1000000000 ''C-x''
      (key_cast_push 0 ''a'' (key_cast_set_enabled True key_cast_new)))"
    by (rule cast_push [OF cast_push [OF cast_enable [OF cast_start]]]) simp_all
  show ?thesis
    using key_cast_queue [OF run, of 3000000000]
    by (simp add: key_cast_push_def key_cast_set_enabled_def key_cast_new_def MAX_ENTRIES_def MAX_AGE_def)
qed

section \<open>Skeleton: drawn rectangles\<close>

definition draws_inside :: "ipc_rect \<Rightarrow> int \<Rightarrow> ipc_rect \<Rightarrow> bool" where
  "draws_inside r n q \<longleftrightarrow>
     sint (r_x q) = sint (r_x r) + n \<and> sint (r_y q) = sint (r_y r) + n \<and>
     sint (r_w q) = sint (r_w r) - 2 * n \<and> sint (r_h q) = sint (r_h r) - 2 * n \<and> 0 < sint (r_w q) \<and> 0 < sint (r_h q)"

definition on_screen :: "ipc_rect \<Rightarrow> bool" where
  "on_screen r \<longleftrightarrow> 0 < sint (r_w r) \<and> 0 < sint (r_h r) \<and>
     sint (r_x r) + sint (r_w r) < 2 ^ 31 \<and> sint (r_y r) + sint (r_h r) < 2 ^ 31"

definition inset_int :: "nat \<Rightarrow> ipc_rect \<Rightarrow> int" where
  "inset_int depth r = min (min (min (2 * int depth) 8) (sint (r_w r) div 3)) (sint (r_h r) div 3)"

lemma sint_small: "0 \<le> n \<Longrightarrow> n < 2 ^ 31 \<Longrightarrow> sint (word_of_int n :: i32) = n"
  by (simp add: sint_sbintrunc' signed_take_bit_int_eq_self)

lemma sint_div3: "0 < sint n \<Longrightarrow> sint (i32_div3 n) = sint n div 3"
  using sint_range_i32 [of n] sint_small [of "sint n div 3"]
  by (simp add: i32_div3_def signed_divide_int_def)

lemma sint_depth:
  assumes "depth < 2 ^ 29"
  shows "sint (word_of_nat depth * INSET_STEP :: i32) = 2 * int depth"
proof -
  have "(word_of_nat depth * INSET_STEP :: i32) = word_of_int (2 * int depth)"
    by (simp add: INSET_STEP_def)
  then show ?thesis using assms sint_small [of "2 * int depth"] by simp
qed

lemma sint_inset:
  assumes "depth < 2 ^ 29" and "on_screen r"
  shows "sint (inset_of (word_of_nat depth) r) = inset_int depth r"
  using assms sint_div3 [of "r_w r"] sint_div3 [of "r_h r"]
  by (simp add: inset_of_def inset_int_def sint_i32_min sint_i32_max sint_depth on_screen_def MAX_INSET_def)
    (simp add: max_def)

lemma inset_inside:
  assumes "depth < 2 ^ 29" and r: "on_screen r"
  shows "draws_inside r (inset_int depth r) (inset_rect (inset_of (word_of_nat depth) r) r)"
proof -
  obtain i where i: "i = inset_of (word_of_nat depth) r" by blast
  have n: "sint i = inset_int depth r" unfolding i by (rule sint_inset [OF assms])
  have "0 \<le> inset_int depth r" "inset_int depth r \<le> 8" "3 * inset_int depth r \<le> sint (r_w r)"
    "3 * inset_int depth r \<le> sint (r_h r)"
    using r by (auto simp: inset_int_def on_screen_def min_def)
  note b = this [folded n]
  have two: "sint (i * 2) = 2 * sint i"
    using b sint_add_exact [of i i] by (simp add: mult_2_right)
  have "sint (r_x r + i) = sint (r_x r) + sint i" "sint (r_y r + i) = sint (r_y r) + sint i"
    using b r sint_range_i32 [of "r_x r"] sint_range_i32 [of "r_y r"]
    by (intro sint_add_exact; simp add: on_screen_def)+
  moreover have "sint (r_w r - i * 2) = sint (r_w r) - 2 * sint i" "sint (r_h r - i * 2) = sint (r_h r) - 2 * sint i"
    using b r sint_range_i32 [of "r_w r"] sint_range_i32 [of "r_h r"] two
    by (subst sint_diff_exact; simp add: on_screen_def)+
  ultimately show ?thesis
    using b r unfolding draws_inside_def i [symmetric] n [symmetric]
    by (simp add: inset_rect_def sint_i32_max on_screen_def)
qed

text \<open>The depth of an entry is the number of earlier rectangles that enclose it.\<close>

definition nesting :: "ipc_rect list \<Rightarrow> nat \<Rightarrow> nat" where
  "nesting rs i = length (filter (\<lambda>q. encloses q (rs ! i)) (take i rs))"

lemma set_draw_rects_length [simp]: "length (set_draw_rects outer ens) = length ens"
  by (induction outer ens rule: set_draw_rects.induct) (simp_all add: Let_def)

lemma set_draw_rects_nth:
  assumes "i < length ens"
  defines "rs \<equiv> map (\<lambda>en. sk_rect (en_rect en)) ens"
  shows "draw_rect (set_draw_rects outer ens ! i) =
    inset_rect (inset_of (word_of_nat (length (filter (\<lambda>q. encloses q (rs ! i)) (outer @ take i rs)))) (rs ! i)) (rs ! i)"
  using assms(1) unfolding rs_def
proof (induction outer ens arbitrary: i rule: set_draw_rects.induct)
  case (2 outer en ens)
  show ?case
  proof (cases i)
    case 0
    then show ?thesis by (simp add: Let_def depth_of_def)
  next
    case (Suc j)
    then show ?thesis using "2.IH" [OF refl, of j] "2.prems" by (simp add: Let_def)
  qed
qed simp

text \<open>After an update the skeleton has one entry per rectangle, and each rectangle that is on the
  screen is drawn inside itself, not collapsed, moved inwards by two pixels for every earlier
  rectangle around it, but by at most eight and at most a third of its sides.\<close>

theorem skeleton_insets:
  assumes "length rects < 2 ^ 29" and "i < length rects" and "on_screen (sk_rect (rects ! i))"
  shows "length (sk_entries (set_rects tx rects sk)) = length rects \<and>
    en_rect (sk_entries (set_rects tx rects sk) ! i) = rects ! i \<and>
    draws_inside (sk_rect (rects ! i)) (inset_int (nesting (map sk_rect rects) i) (sk_rect (rects ! i)))
      (draw_rect (sk_entries (set_rects tx rects sk) ! i))"
proof -
  let ?sized = "take (length rects) (sk_entries sk) @ replicate (length rects - length (sk_entries sk)) entry_new"
  let ?ens = "map2 (entry_update tx) rects ?sized"
  have len: "length ?ens = length rects" by simp
  have rects: "map (\<lambda>en. sk_rect (en_rect en)) ?ens = map sk_rect rects"
    using len by (intro nth_equalityI) (simp_all add: entry_update_def Let_def)
  have depth: "nesting (map sk_rect rects) i < 2 ^ 29"
    using assms(1,2) by (auto simp: nesting_def intro: le_less_trans [OF length_filter_le])
  have "draw_rect (set_draw_rects [] ?ens ! i) =
      inset_rect (inset_of (word_of_nat (nesting (map sk_rect rects) i)) (sk_rect (rects ! i))) (sk_rect (rects ! i))"
    using set_draw_rects_nth [of i ?ens "[]"] assms(2) len unfolding rects
    by (simp add: nesting_def)
  moreover have "en_rect (set_draw_rects outer ens ! j) = en_rect (ens ! j)" if "j < length ens" for outer ens j
    using that
  proof (induction outer ens arbitrary: j rule: set_draw_rects.induct)
    case (2 outer en ens)
    then show ?case by (cases j) (simp_all add: Let_def)
  qed simp
  ultimately show ?thesis
    using assms(2) inset_inside [OF depth assms(3)]
    by (simp add: set_rects_def Let_def entry_update_def)
qed

definition nested_pair :: "skeleton_rect list" where
  "nested_pair = [\<lparr>sk_kind = ''frame'', sk_label = [], sk_rect = \<lparr>r_x = 0, r_y = 0, r_w = 800, r_h = 600\<rparr>, sk_selected = False\<rparr>,
     \<lparr>sk_kind = ''window'', sk_label = [], sk_rect = \<lparr>r_x = 0, r_y = 0, r_w = 400, r_h = 600\<rparr>, sk_selected = True\<rparr>]"

definition plain_text :: text_api where
  "plain_text = \<lparr>label_px = (\<lambda>t. (8 * word_of_nat (length t), 16)), label_fg = (\<lambda>k b. [0, 0, 0, 255])\<rparr>"

theorem skeleton_insets_witness:
  "draws_inside (sk_rect (nested_pair ! 1)) 2 (draw_rect (sk_entries (set_rects plain_text nested_pair skeleton_new) ! 1))"
proof -
  have "nesting (map sk_rect nested_pair) 1 = 1"
    by (simp add: nesting_def nested_pair_def encloses_def)
  moreover have "inset_int 1 (sk_rect (nested_pair ! 1)) = 2"
    by (simp add: inset_int_def nested_pair_def)
  ultimately show ?thesis
    using skeleton_insets [of nested_pair 1 plain_text skeleton_new]
    by (simp add: on_screen_def) (simp add: nested_pair_def)
qed

section \<open>Skeleton: the label panel\<close>

definition stack :: "sk_entry list \<Rightarrow> int" where
  "stack ens = sum_list (map (\<lambda>en. if has_label en then sint (snd (label_size en)) + 1 else 0) ens)"

definition sizes_ok :: "sk_entry list \<Rightarrow> bool" where
  "sizes_ok ens \<longleftrightarrow> (\<forall>en \<in> set ens. has_label en \<longrightarrow> 0 < sint (fst (label_size en)) \<and> 0 < sint (snd (label_size en)))"

definition panel_fits :: "ipc_rect \<Rightarrow> sk_entry list \<Rightarrow> bool" where
  "panel_fits canvas ens \<longleftrightarrow> sizes_ok ens \<and> 0 \<le> sint (r_y canvas) \<and> 0 \<le> sint (r_h canvas) \<and>
     sint (r_y canvas) + sint (r_h canvas) < 2 ^ 30 \<and> stack ens < 2 ^ 29"

lemma stack_simps [simp]: "stack [] = 0" "stack (en # ens) = (if has_label en then sint (snd (label_size en)) + 1 else 0) + stack ens"
  "stack (xs @ ys) = stack xs + stack ys"
  by (simp_all add: stack_def)

lemma stack_nonneg: "sizes_ok ens \<Longrightarrow> 0 \<le> stack ens"
  by (induction ens) (auto simp: sizes_ok_def)

lemma sizes_ok_take: "sizes_ok ens \<Longrightarrow> sizes_ok (take i ens)"
  by (auto simp: sizes_ok_def dest: in_set_takeD)

lemma stack_mono:
  assumes "sizes_ok ens" and "i < j" and "j \<le> length ens" and "has_label (ens ! i)"
  shows "stack (take i ens) + sint (snd (label_size (ens ! i))) < stack (take j ens)"
proof -
  obtain rest where rest: "rest = drop (Suc i) (take j ens)" by blast
  then have "take j ens = take i ens @ ens ! i # rest"
    using id_take_nth_drop [of i "take j ens"] assms(2,3) by (simp add: min_def)
  moreover have "0 \<le> stack rest"
    using assms(1) unfolding rest by (intro stack_nonneg) (auto simp: sizes_ok_def dest!: in_set_takeD in_set_dropD)
  ultimately show ?thesis using assms(4) by simp
qed

lemma place_labels_same:
  "i < length ens \<Longrightarrow>
     has_label (place_labels right mx y ens ! i) = has_label (ens ! i) \<and>
     label_size (place_labels right mx y ens ! i) = label_size (ens ! i) \<and>
     en_rect (place_labels right mx y ens ! i) = en_rect (ens ! i)"
proof (induction right mx y ens arbitrary: i rule: place_labels.induct)
  case (2 right mx y en ens)
  then show ?case by (cases i) auto
qed simp

lemma place_labels_length [simp]: "length (place_labels right mx y ens) = length ens"
  by (induction right mx y ens rule: place_labels.induct) simp_all

lemma place_labels_top:
  "i < length ens \<Longrightarrow> has_label (ens ! i) \<Longrightarrow> sizes_ok ens \<Longrightarrow> 0 \<le> sint y \<Longrightarrow> sint y + stack ens < 2 ^ 31 \<Longrightarrow>
     sint (snd (panel_pos (place_labels right mx y ens ! i))) = sint y + stack (take i ens)"
proof (induction right mx y ens arbitrary: i rule: place_labels.induct)
  case (2 right mx y en ens)
  have ok: "sizes_ok ens" using "2.prems"(3) by (simp add: sizes_ok_def)
  note nonneg = stack_nonneg [OF ok]
  show ?case
  proof (cases "has_label en")
    case True
    then have h: "0 < sint (snd (label_size en))" using "2.prems"(3) by (simp add: sizes_ok_def)
    have gap: "sint (snd (label_size en) + PANEL_GAP) = sint (snd (label_size en)) + 1"
      using h True "2.prems"(4,5) nonneg by (simp add: PANEL_GAP_def sint_add_exact)
    have next_y: "sint (y + (snd (label_size en) + PANEL_GAP)) = sint y + (sint (snd (label_size en)) + 1)"
      using h True "2.prems"(4,5) nonneg gap by (simp add: sint_add_exact)
    show ?thesis
    proof (cases i)
      case (Suc j)
      then show ?thesis
        using "2.IH"(1) [OF True, of j] "2.prems" ok h True next_y by (simp add: algebra_simps)
    qed (simp add: True)
  next
    case False
    then obtain j where "i = Suc j" using "2.prems"(2) by (cases i) auto
    then show ?thesis using "2.IH"(2) [OF False, of j] "2.prems" ok False by simp
  qed
qed simp

definition disjoint_labels :: "i32 \<Rightarrow> i32 \<Rightarrow> sk_entry list \<Rightarrow> bool" where
  "disjoint_labels px py ens \<longleftrightarrow>
     (\<forall>i j. i < j \<and> j < length ens \<longrightarrow> \<not> (in_label px py (ens ! i) \<and> in_label px py (ens ! j)))"

lemma placed_disjoint:
  assumes "sizes_ok ens" and "0 \<le> sint y" and "sint y + stack ens < 2 ^ 31"
  shows "disjoint_labels px py (place_labels right mx y ens)"
proof -
  have False if ij: "i < j" "j < length ens"
    "in_label px py (place_labels right mx y ens ! i)" "in_label px py (place_labels right mx y ens ! j)" for i j
  proof -
    let ?e = "\<lambda>k. place_labels right mx y ens ! k"
    have same: "has_label (?e k) = has_label (ens ! k)" "label_size (?e k) = label_size (ens ! k)" if "k < length ens" for k
      using place_labels_same [OF that] by auto
    have lab: "has_label (ens ! i)" "has_label (ens ! j)"
      using ij same by (simp_all add: in_label_def)
    have top: "sint (snd (panel_pos (?e k))) = sint y + stack (take k ens)" if "k < length ens" "has_label (ens ! k)" for k
      using place_labels_top [OF that assms] .
    have below: "stack (take i ens) + sint (snd (label_size (ens ! i))) < stack (take j ens)"
      using stack_mono [OF assms(1) ij(1) _ lab(1)] ij(2) by simp
    have "stack (take j ens) < stack (take (length ens) ens)"
      using stack_mono [OF assms(1) ij(2) le_refl lab(2)] assms(1) ij(2) lab(2) by (force simp: sizes_ok_def)
    moreover have "0 < sint (snd (label_size (ens ! i)))" "0 \<le> stack (take i ens)"
      using assms(1) lab(1) ij(1,2) sizes_ok_take [OF assms(1)] stack_nonneg by (auto simp: sizes_ok_def)
    ultimately have "sint (snd (panel_pos (?e i)) + snd (label_size (?e i))) =
        sint y + stack (take i ens) + sint (snd (label_size (ens ! i)))"
      using top [of i] same [of i] lab(1) ij(1,2) assms(2,3) below by (simp add: sint_add_exact)
    moreover have "sint py < sint (snd (panel_pos (?e i)) + snd (label_size (?e i)))" "sint (snd (panel_pos (?e j))) \<le> sint py"
      using ij(3,4) by (simp_all add: in_label_def)
    ultimately show False using top [OF ij(2) lab(2)] below by simp
  qed
  then show ?thesis by (auto simp: disjoint_labels_def)
qed

lemma find_index_None: "find_index P xs = None \<longleftrightarrow> (\<forall>x \<in> set xs. \<not> P x)"
  by (induction xs) auto

lemma find_index_Some: "find_index P xs = Some k \<Longrightarrow> k < length xs \<and> P (xs ! k)"
  by (induction xs arbitrary: k) (auto split: if_splits)

lemma foldl_heights:
  "\<forall>en \<in> set ens. 0 < sint (snd (label_size en)) \<Longrightarrow> 0 \<le> sint a \<Longrightarrow>
     sint a + sum_list (map (\<lambda>en. sint (snd (label_size en))) ens) < 2 ^ 31 \<Longrightarrow>
     sint (foldl (\<lambda>h en. h + snd (label_size en)) a ens) =
       sint a + sum_list (map (\<lambda>en. sint (snd (label_size en))) ens)"
proof (induction ens arbitrary: a)
  case (Cons en ens)
  have "0 \<le> sum_list (map (\<lambda>en. sint (snd (label_size en))) ens)"
    using Cons.prems(1) by (intro sum_list_nonneg) auto
  then have "sint (a + snd (label_size en)) = sint a + sint (snd (label_size en))"
    using Cons.prems by (intro sint_add_exact) auto
  then show ?case using Cons.IH [of "a + snd (label_size en)"] Cons.prems by simp
qed simp

lemma stack_labelled:
  "stack ens = sum_list (map (\<lambda>en. sint (snd (label_size en))) (labelled ens)) + int (length (labelled ens))"
  by (induction ens) (simp_all add: labelled_def)

lemma panel_height_bounds:
  assumes "sizes_ok ens" and "stack ens < 2 ^ 29"
  shows "0 \<le> sint (panel_height ens) \<and> sint (panel_height ens) \<le> stack ens"
proof -
  let ?h = "sum_list (map (\<lambda>en. sint (snd (label_size en))) (labelled ens))" and ?n = "length (labelled ens)"
  have pos: "\<forall>en \<in> set (labelled ens). 0 < sint (snd (label_size en))"
    using assms(1) by (simp add: sizes_ok_def labelled_def)
  then have h: "0 \<le> ?h" by (intro sum_list_nonneg) auto
  have bound: "?h + int ?n < 2 ^ 30" using assms(2) by (simp add: stack_labelled)
  have total_h: "sint (foldl (\<lambda>h en. h + snd (label_size en)) 0 (labelled ens)) = ?h"
    using foldl_heights [OF pos, of 0] bound by simp
  have n: "sint (word_of_nat ?n :: i32) = int ?n"
    using bound h sint_small [of "int ?n"] by simp
  have more: "sint ((word_of_nat ?n :: i32) - 1) = int ?n - 1" if "1 < int ?n"
    using n bound h that by (simp add: sint_diff_exact)
  show ?thesis
    using total_h n more h bound sint_add_exact [of "foldl (\<lambda>h en. h + snd (label_size en)) 0 (labelled ens)"
        "(word_of_nat ?n :: i32) - 1"]
    by (simp add: panel_height_def Let_def stack_labelled PANEL_GAP_def)
qed

lemma panel_layout_entries:
  assumes "sk_enabled sk" and "panel_fits canvas (sk_entries sk)"
  shows "\<exists>right mx y. sk_entries (panel_layout now canvas sk) =
      place_labels right mx y (map (end_flash now) (sk_entries sk)) \<and>
    0 \<le> sint y \<and> sint y + stack (map (end_flash now) (sk_entries sk)) < 2 ^ 31"
proof -
  let ?ens = "map (end_flash now) (sk_entries sk)"
  have flash: "has_label (end_flash now en) = has_label en" "label_size (end_flash now en) = label_size en" for en
    by (simp_all add: end_flash_def split: option.split)
  have stack: "stack ?ens = stack (sk_entries sk)"
    by (simp add: stack_def flash comp_def cong: if_cong)
  have ok: "sizes_ok ?ens" using assms(2) by (simp add: panel_fits_def sizes_ok_def flash)
  have fits: "0 \<le> sint (r_y canvas)" "0 \<le> sint (r_h canvas)" "sint (r_y canvas) + sint (r_h canvas) < 2 ^ 30"
    "stack ?ens < 2 ^ 29"
    using assms(2) by (simp_all add: panel_fits_def stack)
  have h: "0 \<le> sint (panel_height ?ens)" "sint (panel_height ?ens) \<le> stack ?ens"
    using panel_height_bounds [OF ok fits(4)] by auto
  obtain bottom where bottom: "bottom = r_y canvas + r_h canvas - PANEL_MARGIN" by blast
  have b: "sint bottom = sint (r_y canvas) + sint (r_h canvas) - 12"
    unfolding bottom using fits by (subst sint_diff_exact; simp add: sint_add_exact PANEL_MARGIN_def)
  have "sint (bottom - panel_height ?ens) = sint bottom - sint (panel_height ?ens)"
    using b h fits by (intro sint_diff_exact) simp_all
  moreover have "sint (r_y canvas + PANEL_MARGIN) = sint (r_y canvas) + 12"
    using fits by (simp add: sint_add_exact PANEL_MARGIN_def)
  ultimately have y: "0 \<le> sint (i32_max (bottom - panel_height ?ens) (r_y canvas + PANEL_MARGIN))"
    "sint (i32_max (bottom - panel_height ?ens) (r_y canvas + PANEL_MARGIN)) + stack ?ens < 2 ^ 31"
    using b h fits by (simp_all add: sint_i32_max)
  show ?thesis
  proof (cases "sk_entries sk = []")
    case True
    then show ?thesis by (intro exI [of _ 0]) (simp add: panel_layout_def)
  next
    case False
    then show ?thesis
      using assms(1) y unfolding bottom by (simp add: panel_layout_def Let_def) blast
  qed
qed

text \<open>Once the label panel is laid out on a canvas with room for it, the label boxes are disjoint: a
  point is in at most one of them, and a click answers with the rectangle of that one, and with
  nothing outside the labels.\<close>

theorem panel_click:
  fixes now :: instant
  assumes "sk_enabled sk" and "panel_fits canvas (sk_entries sk)"
  defines "ens \<equiv> sk_entries (panel_layout now canvas sk)"
  shows "disjoint_labels px py ens \<and>
    fst (click_at later px py (panel_layout now canvas sk)) =
      map_option en_rect (find (in_label px py) ens) \<and>
    (fst (click_at later px py (panel_layout now canvas sk)) = None \<longleftrightarrow> (\<forall>en \<in> set ens. \<not> in_label px py en))"
proof -
  let ?sk = "panel_layout now canvas sk"
  obtain right mx y where ens: "ens = place_labels right mx y (map (end_flash now) (sk_entries sk))"
    "0 \<le> sint y" "sint y + stack (map (end_flash now) (sk_entries sk)) < 2 ^ 31"
    using panel_layout_entries [OF assms(1,2), of now] unfolding ens_def by blast
  have ok: "sizes_ok (map (end_flash now) (sk_entries sk))"
    using assms(2) by (auto simp: panel_fits_def sizes_ok_def end_flash_def split: option.splits if_splits)
  have "disjoint_labels px py ens"
    unfolding ens(1) by (rule placed_disjoint [OF ok ens(2,3)])
  moreover have enabled: "sk_enabled ?sk" using assms(1) by (simp add: panel_layout_def Let_def)
  moreover have "map_option ((!) xs) (find_index P xs) = find P xs" for P and xs :: "sk_entry list"
    by (induction xs) (auto simp: option.map_comp comp_def)
  then have "fst (click_at later px py ?sk) = map_option en_rect (find (in_label px py) ens)"
    using enabled unfolding ens_def
    by (simp add: click_at_def Let_def split: option.split)
       (metis option.simps(8) option.simps(9))
  ultimately show ?thesis by (simp add: find_None_iff Ball_def)
qed

definition small_panel :: skeleton where
  "small_panel = \<lparr>sk_enabled = True, click_absorbed = False,
     sk_entries = [entry_new\<lparr>has_label := True, label_size := (40, 16)\<rparr>]\<rparr>"

theorem panel_click_witness:
  "fst (click_at 0 770 580 (panel_layout 0 \<lparr>r_x = 0, r_y = 0, r_w = 800, r_h = 600\<rparr> small_panel)) =
     Some (en_rect entry_new)"
proof -
  have "panel_fits \<lparr>r_x = 0, r_y = 0, r_w = 800, r_h = 600\<rparr> (sk_entries small_panel)"
    by (simp add: panel_fits_def sizes_ok_def small_panel_def)
  moreover have "sk_entries (panel_layout 0 \<lparr>r_x = 0, r_y = 0, r_w = 800, r_h = 600\<rparr> small_panel) =
      [entry_new\<lparr>has_label := True, label_size := (40, 16), panel_pos := (748, 572)\<rparr>]"
    by (simp add: panel_layout_def small_panel_def end_flash_def entry_new_def panel_height_def labelled_def
        PANEL_MARGIN_def i32_max_def)
  ultimately show ?thesis
    using panel_click [of small_panel "\<lparr>r_x = 0, r_y = 0, r_w = 800, r_h = 600\<rparr>" 770 580 0 0]
    by (simp add: in_label_def) (simp add: small_panel_def entry_new_def)
qed

end
