(* ===== verification/Key_Cast_Props.thy ===== *)
theory Key_Cast_Props
  imports Key_Cast_Paint Blending_Props Rulers_Props Overlay_Props
begin

text \<open>
  The pill of the key cast: which pixels it has, and that the one on screen is always that of the
  chords in the queue.
\<close>

declare split_paired_All [simp del] split_paired_Ex [simp del]

section \<open>Rounded rectangle\<close>

text \<open>How far \<open>x\<close> lies outside the band from \<open>r\<close> to \<open>len - 1 - r\<close>; corners are cut off by a disc.\<close>

definition beyond :: "int \<Rightarrow> int \<Rightarrow> int \<Rightarrow> int" where
  "beyond len r x = max 0 (max (r - x) (x - (len - 1 - r)))"

definition rounded :: "int \<Rightarrow> int \<Rightarrow> int \<Rightarrow> int \<times> int \<Rightarrow> bool" where
  "rounded w h r p \<longleftrightarrow> (beyond w r (fst p))\<^sup>2 + (beyond h r (snd p))\<^sup>2 \<le> r\<^sup>2"

lemma snap_beyond:
  assumes "0 \<le> x" and "x < len" and "0 \<le> r" and "2 * r \<le> len" and "len < 2 ^ 31"
  shows "\<bar>x - snap x len r\<bar> = beyond len r x" and "\<bar>x - snap x len r\<bar> < 2 ^ 31"
proof -
  have "wrap (len - r) = len - r" "wrap (len - r - 1) = len - r - 1" using assms by simp_all
  then show "\<bar>x - snap x len r\<bar> = beyond len r x" "\<bar>x - snap x len r\<bar> < 2 ^ 31"
    using assms by (auto simp: snap_def beyond_def Let_def)
qed

lemma sum_squares_zero: "\<bar>a\<bar> = (c :: int) \<Longrightarrow> a * a = c\<^sup>2"
  by (metis power2_abs power2_eq_square)

lemma rounded_dot_eq:
  assumes "0 \<le> x" and "x < w" and "0 \<le> y" and "y < h" and "0 \<le> r" and "2 * r \<le> w" and "2 * r \<le> h"
    and "w < 2 ^ 31" and "h < 2 ^ 31"
  shows "rounded_dot w h r c y x = (if rounded w h r (x, y) then put_at w c x y else Some)"
proof -
  note sx = snap_beyond [OF assms(1,2,5,6,8)] and sy = snap_beyond [OF assms(3,4,5,7,9)]
  have wraps: "wrap (x - snap x w r) = x - snap x w r" "wrap (y - snap y h r) = y - snap y h r"
    using sx(2) sy(2) by simp_all
  have sq: "(x - snap x w r) * (x - snap x w r) + (y - snap y h r) * (y - snap y h r) \<le> r * r \<longleftrightarrow> rounded w h r (x, y)"
    using sum_squares_zero [OF sx(1)] sum_squares_zero [OF sy(1)] by (simp add: rounded_def power2_eq_square)
  show ?thesis
  proof (cases "snap x w r = x \<and> snap y h r = y")
    case True
    then have "rounded w h r (x, y)" using sq by simp
    then show ?thesis using True by (simp add: rounded_dot_def corner_center_def)
  next
    case False
    then show ?thesis using sq by (auto simp: rounded_dot_def corner_center_def wraps Let_def)
  qed
qed

lemma draws_rounded:
  assumes "0 \<le> r" and "2 * r \<le> w" and "2 * r \<le> h" and "w < 2 ^ 31" and "h < 2 ^ 31"
  shows "draws w h (fill_rounded_rect w h r c) (sets c (rounded w h r))"
proof -
  have dot: "draws w h (rounded_dot w h r c y x) (sets c (\<lambda>p. rounded w h r (x, y) \<and> p = (x, y)))"
    if "x \<in> set (irange 0 w)" "y \<in> set (irange 0 h)" for x y
  proof -
    have on: "on_canvas w h (x, y)" using that by (simp add: on_canvas_def)
    have "rounded_dot w h r c y x = (if rounded w h r (x, y) then put_at w c x y else Some)"
      using that assms by (intro rounded_dot_eq) simp_all
    then show ?thesis using draws_put [OF on, of c]
      by (cases "rounded w h r (x, y)") (simp_all add: draws_def sets_def)
  qed
  have "draws w h (fold_panic (\<lambda>y. fold_panic (rounded_dot w h r c y) (irange 0 w)) (irange 0 h))
      (sets c (\<lambda>p. \<exists>y \<in> set (irange 0 h). \<exists>x \<in> set (irange 0 w). rounded w h r (x, y) \<and> p = (x, y)))"
    by (intro draws_sets_fold dot)
  then have "draws w h (fold_panic (\<lambda>y. fold_panic (rounded_dot w h r c y) (irange 0 w)) (irange 0 h))
      (sets c (rounded w h r))"
    by (rule draws_cong) (auto simp: sets_def on_canvas_def prod_eq_iff)
  then show ?thesis using assms(1) by (simp add: fill_rounded_rect_def)
qed

text \<open>The shape is symmetric, holds the middle, and loses its corners once there is a radius.\<close>

lemma beyond_mirror: "beyond len r (len - 1 - x) = beyond len r x"
  by (simp add: beyond_def max_def)

lemma rounded_mirror:
  "rounded w h r (w - 1 - x, y) = rounded w h r (x, y)" "rounded w h r (x, h - 1 - y) = rounded w h r (x, y)"
  by (simp_all add: rounded_def beyond_mirror)

lemma rounded_corner:
  assumes "0 < r"
  shows "\<not> rounded w h r (0, 0)"
proof -
  have "r\<^sup>2 \<le> (beyond w r 0)\<^sup>2" "r\<^sup>2 \<le> (beyond h r 0)\<^sup>2" "0 < r\<^sup>2"
    using assms by (auto simp: beyond_def intro!: power_mono)
  then have "r\<^sup>2 < (beyond w r 0)\<^sup>2 + (beyond h r 0)\<^sup>2" by linarith
  then show ?thesis by (simp add: rounded_def)
qed

lemma rounded_band:
  assumes "0 \<le> r" and "0 \<le> x" and "x < w" and "r \<le> y" and "y < h - r"
  shows "rounded w h r (x, y)"
proof -
  have "beyond h r y = 0" "0 \<le> beyond w r x" "beyond w r x \<le> r" using assms by (auto simp: beyond_def)
  then show ?thesis by (simp add: rounded_def)
qed

section \<open>The pill\<close>

definition shapes :: "cast_shaper \<Rightarrow> bool" where
  "shapes shaped \<longleftrightarrow> (\<forall>str. (case fst (shaped str) of (iw, ih) \<Rightarrow> 0 \<le> iw \<and> iw \<le> 16000 \<and> 0 \<le> ih \<and> ih \<le> 16000) \<and>
     (\<forall>k \<in> set (snd (shaped str)). ink_small k))"

text \<open>The pixels of the pill of a text.\<close>

definition pill_dot :: "cast_shaper \<Rightarrow> string \<Rightarrow> int \<times> int \<Rightarrow> colour" where
  "pill_dot shaped str p =
     (case fst (shaped str) of (iw, ih) \<Rightarrow>
        inked blend_onto 14 8 (snd (shaped str)) p
          (if rounded (iw + 28) (ih + 16) (min 12 ((ih + 16) div 2)) p then CAST_BG else (0, 0, 0, 0)))"

definition pill_picture :: "cast_shaper \<Rightarrow> string \<Rightarrow> int \<times> int \<Rightarrow> bytes \<Rightarrow> bool" where
  "pill_picture shaped str sz buf \<longleftrightarrow>
     sz = (fst (fst (shaped str)) + 28, snd (fst (shaped str)) + 16) \<and> canvas_of (fst sz) (snd sz) buf \<and>
     (\<forall>p. on_canvas (fst sz) (snd sz) p \<longrightarrow> pixel (fst sz) buf p = pill_dot shaped str p)"

lemma pill_sizes:
  assumes "shapes shaped" and "fst (shaped str) = (iw, ih)"
  shows "0 \<le> iw" "iw \<le> 16000" "0 \<le> ih" "ih \<le> 16000" "pill_extent (iw, ih) = (iw + 28, ih + 16)"
    "pill_radius (iw + 28, ih + 16) = min 12 ((ih + 16) div 2)" "small (iw + 28) (ih + 16)"
proof -
  have "case fst (shaped str) of (iw, ih) \<Rightarrow> 0 \<le> iw \<and> iw \<le> 16000 \<and> 0 \<le> ih \<and> ih \<le> 16000"
    using assms(1) by (simp add: shapes_def)
  then show b: "0 \<le> iw" "iw \<le> 16000" "0 \<le> ih" "ih \<le> 16000" by (simp_all add: assms(2))
  show "pill_extent (iw, ih) = (iw + 28, ih + 16)" using b by (simp add: pill_extent_def PAD_X_def PAD_Y_def)
  show "pill_radius (iw + 28, ih + 16) = min 12 ((ih + 16) div 2)"
    using b by (simp add: pill_radius_def CORNER_RADIUS_def signed_divide_int_def sgn_if)
  have few: "4 * n < 2 ^ 31" if "n \<le> 16028 * 16016" for n :: int using that by simp
  have "(iw + 28) * (ih + 16) \<le> 16028 * 16016" using b by (intro mult_mono) simp_all
  then have "4 * ((iw + 28) * (ih + 16)) < 2 ^ 31" by (rule few)
  then show "small (iw + 28) (ih + 16)" using b unfolding small_def by simp
qed

lemma draws_pill_dot:
  assumes "shapes shaped" and "fst (shaped str) = (iw, ih)"
  shows "draws (iw + 28) (ih + 16) (paint_pill (iw + 28, ih + 16) (snd (shaped str))) (\<lambda>p old. pill_dot shaped str p)"
proof -
  note b = pill_sizes [OF assms]
  let ?w = "iw + 28" and ?h = "ih + 16" and ?r = "min 12 ((ih + 16) div 2)"
  have "draws ?w ?h (fill_rounded_rect ?w ?h ?r CAST_BG) (sets CAST_BG (rounded ?w ?h ?r))"
    using b by (intro draws_rounded) auto
  moreover have "draws ?w ?h (draw_text_onto ?w ?h 14 8 (snd (shaped str))) (inked blend_onto 14 8 (snd (shaped str)))"
    using assms(1) by (intro draws_text_onto) (simp_all add: shapes_def)
  ultimately have "draws ?w ?h (\<lambda>d. Option.bind (Some (fill_chunks (0, 0, 0, 0) d)) (\<lambda>d.
      Option.bind (fill_rounded_rect ?w ?h ?r CAST_BG d) (draw_text_onto ?w ?h 14 8 (snd (shaped str)))))
      (\<lambda>p old. pill_dot shaped str p)"
    by (intro draws_cong [OF draws_seq [OF draws_fill draws_seq]]) (assumption | simp add: pill_dot_def assms(2) sets_def)+
  then show ?thesis by (simp add: paint_pill_def [abs_def] b(6) PAD_X_def PAD_Y_def)
qed

lemma pill_rendered:
  assumes "shapes shaped" and "resizes resize"
  shows "\<exists>buf sz. render_pill shaped resize str v = Some (v\<lparr>kc_size := sz, kc_label := buf\<rparr>) \<and>
    pill_picture shaped str sz buf"
proof -
  obtain iw ih where inner: "fst (shaped str) = (iw, ih)" by (cases "fst (shaped str)")
  note b = pill_sizes [OF assms(1) inner]
  have "length (resize (iw + 28, ih + 16) (kc_label v)) = length (blank (iw + 28, ih + 16))"
    using resize_length [OF assms(2)] .
  then have "canvas_of (iw + 28) (ih + 16) (resize (iw + 28, ih + 16) (kc_label v))"
    using canvas_blank [OF b(7)] by (simp add: canvas_of_def)
  from drawsD [OF draws_pill_dot [OF assms(1) inner] this]
  obtain buf where "paint_pill (iw + 28, ih + 16) (snd (shaped str)) (resize (iw + 28, ih + 16) (kc_label v)) = Some buf"
    and "canvas_of (iw + 28) (ih + 16) buf"
    and "\<And>p. on_canvas (iw + 28) (ih + 16) p \<Longrightarrow> pixel (iw + 28) buf p = pill_dot shaped str p" by blast
  then show ?thesis
    by (auto simp: render_pill_def Let_def inner b(5) paint_buffer_def pill_picture_def)
qed

section \<open>Runs\<close>

text \<open>A run records whether the switch is on and the chords pressed since it was last put on.\<close>

type_synonym presses = "(instant \<times> string) list"

inductive cast_view_run :: "cast_shaper \<Rightarrow> resizer \<Rightarrow> instant \<Rightarrow> bool \<Rightarrow> presses \<Rightarrow> cast_view \<Rightarrow> bool" for shaped resize where
  view_start: "cast_view_run shaped resize t False [] cast_view_new"
| view_enable: "cast_view_run shaped resize t on ps v \<Longrightarrow>
    cast_view_run shaped resize t b (if b then ps else []) (key_cast_set_enabled b v)"
| view_push: "cast_view_run shaped resize t on ps v \<Longrightarrow> t \<le> now \<Longrightarrow>
    cast_view_run shaped resize now on (if on then ps @ [(now, label)] else ps) (key_cast_push now label v)"
| view_pre_paint: "cast_view_run shaped resize t on ps v \<Longrightarrow> t \<le> now \<Longrightarrow>
    cast_view_run shaped resize now on ps (key_cast_pre_paint now v)"
| view_paint: "cast_view_run shaped resize t on ps v \<Longrightarrow> cast_paint shaped resize canvas v = Some (els, v') \<Longrightarrow>
    cast_view_run shaped resize t on ps v'"

text \<open>The presses in groups: the same chord, each pressed less than 800 ms after the one before.\<close>

definition repeats :: "instant \<times> string \<Rightarrow> instant \<times> string \<Rightarrow> bool" where
  "repeats p q \<longleftrightarrow> snd p = snd q \<and> fst q - fst p < 800 * 1000000"

fun groups :: "presses \<Rightarrow> presses list" where
  "groups [] = []"
| "groups [p] = [[p]]"
| "groups (p # q # ps) =
     (if repeats p q then (p # hd (groups (q # ps))) # List.tl (groups (q # ps)) else [p] # groups (q # ps))"

definition group_entry :: "presses \<Rightarrow> key_entry" where
  "group_entry g = \<lparr>ke_label = snd (last g), pressed_at = fst (last g), ke_repeat = word_of_nat (length g)\<rparr>"

definition group_text :: "presses \<Rightarrow> string" where
  "group_text g = (if 1 < length g then snd (last g) @ '' '' @ [CHR 0xC3, CHR 0x97] @ decimal (length g) else snd (last g))"

lemma groups_Cons: "\<exists>g gs. groups (p # ps) = (p # g) # gs"
  by (cases ps) auto

lemma groups_empty [simp]: "groups ps = [] \<longleftrightarrow> ps = []"
  by (cases ps rule: groups.cases) auto

lemma groups_last: "ps \<noteq> [] \<Longrightarrow> last (groups ps) \<noteq> [] \<and> last (last (groups ps)) = last ps"
proof (induction ps rule: groups.induct)
  case (3 p q ps)
  obtain g gs where g: "groups (q # ps) = (q # g) # gs" using groups_Cons by blast
  then show ?case using 3 by (cases gs) (auto split: if_splits)
qed simp_all

lemma groups_concat: "concat (groups ps) = ps"
proof (induction ps rule: groups.induct)
  case (3 p q ps)
  obtain g gs where g: "groups (q # ps) = (q # g) # gs" using groups_Cons by blast
  then show ?case using 3 by (auto split: if_splits)
qed simp_all

lemma groups_snoc:
  "groups (ps @ [x]) = (if ps \<noteq> [] \<and> repeats (last ps) x
     then butlast (groups ps) @ [last (groups ps) @ [x]] else groups ps @ [[x]])"
proof (induction ps rule: groups.induct)
  case (3 p q ps)
  obtain g gs where g: "groups (q # ps) = (q # g) # gs" using groups_Cons by blast
  have step: "groups ((p # q # ps) @ [x]) = (if repeats p q
      then (p # hd (groups ((q # ps) @ [x]))) # List.tl (groups ((q # ps) @ [x])) else [p] # groups ((q # ps) @ [x]))" by simp
  have rest: "groups ((q # ps) @ [x]) = (if repeats (last (q # ps)) x
      then butlast (groups (q # ps)) @ [last (groups (q # ps)) @ [x]] else groups (q # ps) @ [[x]])"
    by (cases "repeats p q") (use 3 in simp_all)
  have all: "groups (p # q # ps) = (if repeats p q then (p # q # g) # gs else [p] # (q # g) # gs)" by (simp add: g)
  show ?case unfolding step rest all g by (cases gs) auto
qed simp_all

text \<open>The queue is the end of the list of groups: what is missing is expired or not among the last twelve.\<close>

definition tracked :: "instant \<Rightarrow> key_entry list \<Rightarrow> key_entry list \<Rightarrow> bool" where
  "tracked t ens es \<longleftrightarrow> (\<exists>n \<le> length ens. es = drop n ens \<and> length ens - 12 \<le> n \<and>
     (\<forall>i < n. i < length ens - 12 \<or> MAX_AGE \<le> t - pressed_at (ens ! i)))"

lemma tracked_later: "tracked t ens es \<Longrightarrow> t \<le> now \<Longrightarrow> tracked now ens es"
  unfolding tracked_def by (elim exE conjE, rule exI, intro conjI) (assumption, auto intro: order_trans [OF _ diff_le_mono])

lemma tracked_new:
  assumes "tracked t ens es"
  shows "tracked t (ens @ [x]) (drop (length (es @ [x]) - MAX_ENTRIES) (es @ [x]))"
proof -
  obtain n where n: "n \<le> length ens" "es = drop n ens" "length ens - 12 \<le> n"
      "\<forall>i < n. i < length ens - 12 \<or> MAX_AGE \<le> t - pressed_at (ens ! i)"
    using assms by (auto simp: tracked_def)
  define m where "m = n + (length (es @ [x]) - 12)"
  have len: "length (es @ [x]) = length ens + 1 - n" using n(1,2) by simp
  have m: "n \<le> m" "m \<le> length (ens @ [x])" "length (ens @ [x]) - 12 \<le> m" "m = n \<or> m = length (ens @ [x]) - 12"
    using n(1,3) len by (auto simp: m_def)
  have "drop (length (es @ [x]) - MAX_ENTRIES) (es @ [x]) = drop m (ens @ [x])"
    using n(1) by (simp add: m_def n(2) MAX_ENTRIES_def add.commute)
  moreover have "i < length (ens @ [x]) - 12 \<or> MAX_AGE \<le> t - pressed_at ((ens @ [x]) ! i)" if "i < m" for i
    using m(4) n(1,4) that by (auto simp: nth_append)
  ultimately show ?thesis using m(2,3) unfolding tracked_def by blast
qed

lemma tracked_merge:
  assumes "tracked t ens es" and "es \<noteq> []"
  shows "last es = last ens" and "tracked t (butlast ens @ [x]) (butlast es @ [x])"
proof -
  obtain n where n: "n \<le> length ens" "es = drop n ens" "length ens - 12 \<le> n"
      "\<forall>i < n. i < length ens - 12 \<or> MAX_AGE \<le> t - pressed_at (ens ! i)"
    using assms by (auto simp: tracked_def)
  have lt: "n < length ens" using assms(2) n(1,2) by simp
  then show "last es = last ens" using n(2) by simp
  have "butlast es @ [x] = drop n (butlast ens @ [x])" using lt by (simp add: n(2) butlast_drop)
  moreover have "(butlast ens @ [x]) ! i = ens ! i" if "i < n" for i
    using lt that by (simp add: nth_append nth_butlast)
  ultimately show "tracked t (butlast ens @ [x]) (butlast es @ [x])"
    using n(3,4) lt unfolding tracked_def by (intro exI [of _ n]) auto
qed

lemma tracked_gone:
  assumes "tracked t ens []" and "ens \<noteq> []"
  shows "MAX_AGE \<le> t - pressed_at (last ens)"
proof -
  obtain n where n: "n \<le> length ens" "drop n ens = []"
      "\<forall>i < n. i < length ens - 12 \<or> MAX_AGE \<le> t - pressed_at (ens ! i)"
    using assms(1) unfolding tracked_def by metis
  then have "length ens - 1 < n" using assms(2) by (cases ens) simp_all
  moreover have "\<not> length ens - 1 < length ens - 12" by simp
  ultimately show ?thesis using n(3) assms(2) last_conv_nth by metis
qed

lemma tracked_push:
  assumes "tracked t (map group_entry (groups ps)) es" and "t \<le> now"
  shows "tracked now (map group_entry (groups (ps @ [(now, label)])))
    (if es \<noteq> [] \<and> ke_label (last es) = label \<and> now - pressed_at (last es) < REPEAT_WINDOW
     then butlast es @ [(last es)\<lparr>pressed_at := now, ke_repeat := ke_repeat (last es) + 1\<rparr>]
     else let es1 = es @ [\<lparr>ke_label = label, pressed_at = now, ke_repeat = 1\<rparr>] in drop (length es1 - MAX_ENTRIES) es1)"
proof -
  let ?L = "map group_entry (groups ps)" and ?new = "\<lparr>ke_label = label, pressed_at = now, ke_repeat = 1\<rparr>"
  note tr = tracked_later [OF assms]
  have last: "last ?L = group_entry (last (groups ps))" "last (groups ps) \<noteq> []" "last (last (groups ps)) = last ps"
    if "ps \<noteq> []" using groups_last [OF that] that by (simp_all add: last_map)
  show ?thesis
  proof (cases "es \<noteq> [] \<and> ke_label (last es) = label \<and> now - pressed_at (last es) < REPEAT_WINDOW")
    case True
    then have es: "es \<noteq> []" by simp
    then have ps: "ps \<noteq> []" using assms(1) by (auto simp: tracked_def)
    note at = tracked_merge(1) [OF tr es] last [OF ps]
    have "repeats (last ps) (now, label)"
      using True at by (simp add: repeats_def group_entry_def REPEAT_WINDOW_def)
    moreover have "group_entry (last (groups ps) @ [(now, label)]) = (last es)\<lparr>pressed_at := now, ke_repeat := ke_repeat (last es) + 1\<rparr>"
      using True at by (simp add: group_entry_def)
    ultimately show ?thesis using tracked_merge(2) [OF tr es] True ps by (simp add: groups_snoc map_butlast)
  next
    case False
    have no: "\<not> (ps \<noteq> [] \<and> repeats (last ps) (now, label))"
    proof
      assume r: "ps \<noteq> [] \<and> repeats (last ps) (now, label)"
      note at = last [OF conjunct1 [OF r]]
      show False
      proof (cases "es = []")
        case True
        have "MAX_AGE \<le> now - pressed_at (last ?L)" using tracked_gone [OF tr [unfolded True]] r by simp
        then show False using r at by (simp add: repeats_def group_entry_def MAX_AGE_def)
      next
        case some: False
        then show False using tracked_merge(1) [OF tr some] r at False
          by (simp add: repeats_def group_entry_def REPEAT_WINDOW_def)
      qed
    qed
    have "group_entry [(now, label)] = ?new" by (simp add: group_entry_def)
    then show ?thesis
      using tracked_new [OF tr, of ?new] unfolding if_not_P [OF False] groups_snoc last_ConsL if_not_P [OF no] Let_def by simp
  qed
qed

lemma expired_loop_drops:
  "\<exists>m. fst (drop_expired_loop now es dirty) = drop m es \<and> m \<le> length es \<and>
     (\<forall>i < m. MAX_AGE \<le> now - pressed_at (es ! i))"
proof (induction now es dirty rule: drop_expired_loop.induct)
  case (2 now en es dirty)
  show ?case
  proof (cases "MAX_AGE \<le> now - pressed_at en")
    case True
    then obtain m where "fst (drop_expired_loop now es True) = drop m es" "m \<le> length es"
        "\<forall>i < m. MAX_AGE \<le> now - pressed_at (es ! i)" using 2 by blast
    with True show ?thesis by (intro exI [of _ "Suc m"]) (auto simp: less_Suc_eq_0_disj)
  qed (intro exI [of _ 0], simp)
qed simp

lemma tracked_expire:
  assumes "tracked now ens es"
  shows "tracked now ens (fst (drop_expired_loop now es dirty))"
proof -
  obtain n where n: "n \<le> length ens" "es = drop n ens" "length ens - 12 \<le> n"
      "\<forall>i < n. i < length ens - 12 \<or> MAX_AGE \<le> now - pressed_at (ens ! i)"
    using assms by (auto simp: tracked_def)
  obtain m where m: "fst (drop_expired_loop now es dirty) = drop m es" "m \<le> length es"
      "\<forall>i < m. MAX_AGE \<le> now - pressed_at (es ! i)"
    using expired_loop_drops by blast
  have old: "MAX_AGE \<le> now - pressed_at (ens ! i)" if "n \<le> i" "i < n + m" for i
    using m(3) [rule_format, of "i - n"] that n(1) m(2) by (simp add: n(2))
  have "i < length ens - 12 \<or> MAX_AGE \<le> now - pressed_at (ens ! i)" if "i < n + m" for i
    using n(4) old [of i] that by (cases "i < n") auto
  then show ?thesis
    using n(1-3) m(1,2) unfolding tracked_def by (intro exI [of _ "n + m"]) (auto simp: add.commute)
qed

lemma tracked_shown:
  assumes "tracked now ens es"
  shows "filter (\<lambda>en. now - pressed_at en < MAX_AGE) es =
    filter (\<lambda>en. now - pressed_at en < MAX_AGE) (drop (length ens - 12) ens)"
proof -
  let ?k = "length ens - 12"
  obtain n where n: "n \<le> length ens" "es = drop n ens" "?k \<le> n"
      "\<forall>i < n. i < ?k \<or> MAX_AGE \<le> now - pressed_at (ens ! i)"
    using assms by (auto simp: tracked_def)
  have "drop ?k ens = take (n - ?k) (drop ?k ens) @ es"
    using n(2,3) by (metis append_take_drop_id drop_drop le_add_diff_inverse2)
  moreover have "MAX_AGE \<le> now - pressed_at en" if at: "en \<in> set (take (n - ?k) (drop ?k ens))" for en
  proof -
    obtain j where "j < length (take (n - ?k) (drop ?k ens))" "take (n - ?k) (drop ?k ens) ! j = en"
      using at unfolding in_set_conv_nth by blast
    then have "j < n - ?k" "en = ens ! (?k + j)" by simp_all
    then show ?thesis using n(4) [rule_format, of "?k + j"] by simp
  qed
  then have "filter (\<lambda>en. now - pressed_at en < MAX_AGE) (take (n - ?k) (drop ?k ens)) = []"
    by (simp add: filter_empty_conv not_less)
  ultimately show ?thesis by (metis append_Nil filter_append)
qed

definition history_ok :: "instant \<Rightarrow> bool \<Rightarrow> presses \<Rightarrow> cast_view \<Rightarrow> bool" where
  "history_ok t on ps v \<longleftrightarrow> kc_enabled v = on \<and> (\<not> on \<longrightarrow> ps = []) \<and>
     tracked t (map group_entry (groups ps)) (kc_entries v)"

definition view_fresh :: "cast_shaper \<Rightarrow> cast_view \<Rightarrow> bool" where
  "view_fresh shaped v \<longleftrightarrow>
     (\<not> kc_dirty v \<and> kc_entries v \<noteq> [] \<longrightarrow> pill_picture shaped (current_text v) (kc_size v) (kc_label v))"

lemma drop_expired_dirty:
  "drop_expired_loop now es d = (es', d') \<Longrightarrow> \<not> d' \<Longrightarrow> es' = es \<and> \<not> d"
proof (induction es)
  case (Cons en es)
  have "snd (drop_expired_loop now es True)" for es by (induction es) simp_all
  then show ?case using Cons.prems by (auto split: if_splits) (metis snd_conv)+
qed simp

lemma current_text_cong: "kc_entries v = kc_entries v' \<Longrightarrow> current_text v = current_text v'"
  by (simp add: current_text_def)

lemma view_fresh_keep:
  assumes "view_fresh shaped v" and "kc_size v' = kc_size v" and "kc_label v' = kc_label v"
    and "kc_dirty v' \<or> (kc_entries v' = kc_entries v \<and> (kc_dirty v \<longrightarrow> kc_dirty v'))"
  shows "view_fresh shaped v'"
  using assms current_text_cong [of v' v] by (auto simp: view_fresh_def)

lemma view_fresh_enable: "view_fresh shaped v \<Longrightarrow> view_fresh shaped (key_cast_set_enabled b v)"
  by (rule view_fresh_keep, assumption) (auto simp: key_cast_set_enabled_def)

lemma view_fresh_push: "view_fresh shaped v \<Longrightarrow> view_fresh shaped (key_cast_push now label v)"
  by (rule view_fresh_keep, assumption) (auto simp: key_cast_push_def Let_def)

lemma view_fresh_pre_paint: "view_fresh shaped v \<Longrightarrow> view_fresh shaped (key_cast_pre_paint now v)"
  by (rule view_fresh_keep, assumption)
    (auto simp: key_cast_pre_paint_def drop_expired_def split: prod.splits dest: drop_expired_dirty)

text \<open>One call of \<open>paint\<close>.\<close>

lemma cast_paint_ok:
  assumes "shapes shaped" and "resizes resize" and "view_fresh shaped v"
  shows "\<exists>els v'. cast_paint shaped resize canvas v = Some (els, v') \<and> view_fresh shaped v' \<and>
    key_cast.truncate v' = (key_cast.truncate v)\<lparr>kc_dirty := kc_dirty v'\<rparr> \<and> (kc_dirty v' \<longrightarrow> kc_dirty v) \<and>
    (if kc_enabled v \<and> kc_entries v \<noteq> []
     then \<exists>sz buf. els = [(pill_loc sz canvas, buf)] \<and> pill_picture shaped (current_text v) sz buf else els = [])"
proof (cases "kc_enabled v \<and> kc_entries v \<noteq> []")
  case False
  then show ?thesis using assms(3) by (auto simp: cast_paint_def key_cast.defs)
next
  case True
  let ?again = "if kc_dirty v
    then map_option (\<lambda>v1. v1\<lparr>kc_dirty := False\<rparr>) (render_pill shaped resize (current_text v) v) else Some v"
  obtain v' where v': "?again = Some v'" "key_cast.truncate v' = (key_cast.truncate v)\<lparr>kc_dirty := False\<rparr>"
      "kc_dirty v' = False" and pic: "pill_picture shaped (current_text v) (kc_size v') (kc_label v')"
  proof (cases "kc_dirty v")
    case dirty: True
    obtain buf sz where "render_pill shaped resize (current_text v) v = Some (v\<lparr>kc_size := sz, kc_label := buf\<rparr>)"
        "pill_picture shaped (current_text v) sz buf"
      using pill_rendered [OF assms(1,2)] by blast
    then show ?thesis using that [of "v\<lparr>kc_size := sz, kc_label := buf, kc_dirty := False\<rparr>"] dirty
      by (simp add: key_cast.defs)
  next
    case False
    then show ?thesis using that [of v] True assms(3) by (simp add: view_fresh_def key_cast.defs)
  qed
  obtain iw ih where inner: "fst (shaped (current_text v)) = (iw, ih)" by (cases "fst (shaped (current_text v))")
  have visible: "\<not> (fst (kc_size v') = 0 \<or> snd (kc_size v') = 0)"
    using pic pill_sizes [OF assms(1) inner] by (simp add: pill_picture_def inner)
  have same: "kc_entries v' = kc_entries v" using v'(2) by (simp add: key_cast.defs)
  have "view_fresh shaped v'" using pic current_text_cong [OF same] by (simp add: view_fresh_def)
  moreover have "cast_paint shaped resize canvas v = Some ([(pill_loc (kc_size v') canvas, kc_label v')], v')"
    using True v'(1) visible by (simp add: cast_paint_def)
  ultimately show ?thesis using v' pic True by auto
qed

lemma truncate_steps:
  "key_cast.truncate (key_cast_set_enabled b v) = key_cast_set_enabled b (key_cast.truncate v)"
  "key_cast.truncate (key_cast_push now label v) = key_cast_push now label (key_cast.truncate v)"
  "key_cast.truncate (key_cast_pre_paint now v) = key_cast_pre_paint now (key_cast.truncate v)"
  by (simp_all add: key_cast.defs key_cast_set_enabled_def key_cast_push_def key_cast_pre_paint_def drop_expired_def
      Let_def split: prod.splits)

lemma cast_view_run_ok:
  assumes "shapes shaped" and "resizes resize" and "cast_view_run shaped resize t on ps v"
  shows "view_fresh shaped v \<and> cast_run t (key_cast.truncate v)"
  using assms(3)
proof (induction rule: cast_view_run.induct)
  case (view_start t)
  have "key_cast.truncate cast_view_new = key_cast_new" by (simp add: cast_view_new_def key_cast_new_def key_cast.defs)
  then show ?case by (simp add: view_fresh_def cast_view_new_def cast_start)
next
  case (view_paint t on ps v canvas els v')
  then have fresh: "view_fresh shaped v" by simp
  from cast_paint_ok [OF assms(1,2) this, of canvas] view_paint.hyps
  have "view_fresh shaped v'" "key_cast.truncate v' = (key_cast.truncate v)\<lparr>kc_dirty := kc_dirty v'\<rparr>"
      "kc_dirty v' \<longrightarrow> kc_dirty v" by auto
  moreover have "cast_run t ((key_cast.truncate v)\<lparr>kc_dirty := kc_dirty v'\<rparr>)"
  proof (cases "kc_dirty v'")
    case True
    then have "(key_cast.truncate v)\<lparr>kc_dirty := kc_dirty v'\<rparr> = key_cast.truncate v"
      using calculation(3) by (simp add: key_cast.defs)
    then show ?thesis using view_paint.IH by simp
  next
    case False
    then show ?thesis using view_paint.IH by (simp add: cast_painted)
  qed
  ultimately show ?case by simp
next
  case (view_push t on ps v now label)
  then show ?case by (simp add: truncate_steps view_fresh_push cast_push [of t])
next
  case (view_pre_paint t on ps v now)
  then show ?case by (simp add: truncate_steps view_fresh_pre_paint cast_pre_paint [of t])
qed (simp add: truncate_steps view_fresh_enable cast_enable)

lemma push_entries:
  "kc_enabled k \<Longrightarrow> kc_enabled (key_cast_push now label k) \<and> kc_entries (key_cast_push now label k) =
     (let es = kc_entries k in
      if es \<noteq> [] \<and> ke_label (last es) = label \<and> now - pressed_at (last es) < REPEAT_WINDOW
      then butlast es @ [(last es)\<lparr>pressed_at := now, ke_repeat := ke_repeat (last es) + 1\<rparr>]
      else let es1 = es @ [\<lparr>ke_label = label, pressed_at = now, ke_repeat = 1\<rparr>] in drop (length es1 - MAX_ENTRIES) es1)"
  by (simp add: key_cast_push_def Let_def)

lemma history_run:
  assumes "shapes shaped" and "resizes resize" and "cast_view_run shaped resize t on ps v"
  shows "history_ok t on ps v"
  using assms(3)
proof (induction rule: cast_view_run.induct)
  case (view_start t)
  show ?case by (simp add: history_ok_def cast_view_new_def tracked_def)
next
  case (view_enable t on ps v b)
  then show ?case by (auto simp: history_ok_def key_cast_set_enabled_def tracked_def)
next
  case (view_push t on ps v now label)
  show ?case
  proof (cases on)
    case True
    have tr: "tracked t (map group_entry (groups ps)) (kc_entries v)" "kc_enabled v"
      using view_push.IH True by (simp_all add: history_ok_def)
    show ?thesis
      using tracked_push [OF tr(1) view_push.hyps(2), of label] push_entries [OF tr(2), of now label] True
      unfolding history_ok_def Let_def by simp
  next
    case False
    then show ?thesis using view_push tracked_later by (auto simp: history_ok_def key_cast_push_def)
  qed
next
  case (view_pre_paint t on ps v now)
  have tr: "tracked now (map group_entry (groups ps)) (kc_entries v)"
    using view_pre_paint tracked_later by (auto simp: history_ok_def)
  then show ?case
    using view_pre_paint.IH tracked_expire [OF tr, of "kc_dirty v"]
    by (auto simp: history_ok_def key_cast_pre_paint_def drop_expired_def split: prod.split)
next
  case (view_paint t on ps v canvas els v')
  have "key_cast.truncate v' = (key_cast.truncate v)\<lparr>kc_dirty := kc_dirty v'\<rparr>"
    using cast_paint_ok [OF assms(1,2) conjunct1 [OF cast_view_run_ok [OF assms(1,2) view_paint.hyps(1)]], of canvas]
      view_paint.hyps(2) by auto
  then have "kc_enabled v' = kc_enabled v" "kc_entries v' = kc_entries v" by (simp_all add: key_cast.defs)
  then show ?case using view_paint.IH by (simp add: history_ok_def)
qed

text \<open>What is left of the presses at a time: of the last twelve groups those pressed again, or at all,
  in the last two and a half seconds.\<close>

definition groups_left :: "instant \<Rightarrow> presses \<Rightarrow> presses list" where
  "groups_left now ps = filter (\<lambda>g. now - fst (last g) < 2500 * 1000000) (drop (length (groups ps) - 12) (groups ps))"

lemma history_left:
  assumes "history_ok t on ps v" and "t \<le> now" and "length ps < 2 ^ 32"
  shows "filter (\<lambda>en. now - pressed_at en < MAX_AGE) (kc_entries v) = map group_entry (groups_left now ps)"
    and "map (entry_text \<circ> group_entry) (groups_left now ps) = map group_text (groups_left now ps)"
proof -
  have "tracked now (map group_entry (groups ps)) (kc_entries v)"
    using assms(1,2) tracked_later by (auto simp: history_ok_def)
  from tracked_shown [OF this] show "filter (\<lambda>en. now - pressed_at en < MAX_AGE) (kc_entries v) = map group_entry (groups_left now ps)"
    by (simp add: groups_left_def drop_map filter_map comp_def group_entry_def MAX_AGE_def)
  have "entry_text (group_entry g) = group_text g" if "g \<in> set (groups_left now ps)" for g
  proof -
    have g: "g \<in> set (groups ps)" using that by (auto simp: groups_left_def dest: in_set_dropD)
    have "length g \<le> length (concat (groups ps))" unfolding length_concat by (rule member_le_sum_list) (use g in simp_all)
    then have len: "length g < 2 ^ 32" using assms(3) by (simp add: groups_concat)
    then have "unat (word_of_nat (length g) :: u32) = length g" by (simp add: unsigned_of_nat take_bit_nat_eq_self)
    then show ?thesis by (simp add: entry_text_def group_entry_def group_text_def word_less_nat_alt)
  qed
  then show "map (entry_text \<circ> group_entry) (groups_left now ps) = map group_text (groups_left now ps)" by simp
qed

text \<open>C37. However the chords, the switch and the frames before came in time order, the frame of a time
  shows the chords pressed since the switch was put on, a chord pressed again within 800 ms counting as one with its
  number: of the last twelve of these those whose last press is less than two and a half seconds ago.
  If there is none, nothing is drawn; otherwise exactly one pill with their text, each repeated
  chord followed by how often it was pressed, older presses of the same row included: a
  rectangle 28 pixels wider and 16 higher than the text, its corners cut off by quarter discs of at
  most twelve pixels, the text blended on it at its padding, everything else transparent; it stands in
  the middle of the canvas, its lower edge 36 pixels above the lower edge of the canvas. Drawing it
  never writes outside its buffer.\<close>

theorem pill_current:
  assumes "shapes shaped" and "resizes resize" and "cast_view_run shaped resize t on ps v" and "t \<le> now"
    and "length ps < 2 ^ 32"
    and "\<bar>cx\<bar> \<le> 2 ^ 28" and "\<bar>cy\<bar> \<le> 2 ^ 28" and "0 \<le> cw" and "cw \<le> 2 ^ 28" and "0 \<le> ch" and "ch \<le> 2 ^ 28"
  shows "\<exists>els v'. cast_paint shaped resize (cx, cy, cw, ch) (key_cast_pre_paint now v) = Some (els, v') \<and>
    cast_view_run shaped resize now on ps v' \<and>
    (if groups_left now ps = [] then els = []
     else let str = join ''  '' (map group_text (groups_left now ps));
              w = fst (fst (shaped str)) + 28; h = snd (fst (shaped str)) + 16 in
       \<exists>buf. els = [((cx + cw div 2 - w div 2, cy + ch - 36 - h), buf)] \<and> int (length buf) = 4 * (w * h) \<and>
         (\<forall>p. on_canvas w h p \<longrightarrow> pixel w buf p = inked blend_onto 14 8 (snd (shaped str)) p
            (if rounded w h (min 12 (h div 2)) p then CAST_BG else (0, 0, 0, 0))))"
proof -
  let ?v = "key_cast_pre_paint now v" and ?canvas = "(cx, cy, cw, ch)" and ?left = "groups_left now ps"
  have run: "cast_view_run shaped resize now on ps ?v" using assms(3,4) by (rule view_pre_paint)
  note left = history_left [OF history_run [OF assms(1-3)] assms(4,5)]
  have "kc_entries (key_cast_pre_paint now (key_cast.truncate v)) = map group_entry ?left"
    using key_cast_queue [OF conjunct2 [OF cast_view_run_ok [OF assms(1-3)]] assms(4)] left(1)
    by (simp add: key_cast.defs)
  then have entries: "kc_entries ?v = map group_entry ?left"
    by (simp add: truncate_steps(3) [symmetric]) (simp add: key_cast.defs)
  have on: "kc_enabled ?v" if "?left \<noteq> []"
    using cast_run_ok [OF conjunct2 [OF cast_view_run_ok [OF assms(1,2) run]]] that entries
    by (auto simp: cast_ok_def key_cast.defs)
  obtain els v' where painted: "cast_paint shaped resize ?canvas ?v = Some (els, v')"
    and shown: "if kc_enabled ?v \<and> kc_entries ?v \<noteq> []
      then \<exists>sz buf. els = [(pill_loc sz ?canvas, buf)] \<and> pill_picture shaped (current_text ?v) sz buf else els = []"
    using cast_paint_ok [OF assms(1,2) conjunct1 [OF cast_view_run_ok [OF assms(1,2) run]]] by blast
  have "cast_view_run shaped resize now on ps v'" using run painted by (rule view_paint)
  moreover have "\<exists>buf. els = [((cx + cw div 2 - w div 2, cy + ch - 36 - h), buf)] \<and> int (length buf) = 4 * (w * h) \<and>
      (\<forall>p. on_canvas w h p \<longrightarrow> pixel w buf p = inked blend_onto 14 8 (snd (shaped str)) p
         (if rounded w h (min 12 (h div 2)) p then CAST_BG else (0, 0, 0, 0)))"
    if some: "?left \<noteq> []" and str: "str = join ''  '' (map group_text ?left)"
      and w: "w = fst (fst (shaped str)) + 28" and h: "h = snd (fst (shaped str)) + 16" for str w h
  proof -
    obtain iw ih where inner: "fst (shaped str) = (iw, ih)" by (cases "fst (shaped str)")
    have lim: "28 \<le> w" "w \<le> 16028" "16 \<le> h" "h \<le> 16016" using pill_sizes [OF assms(1) inner] w h inner by simp_all
    have "current_text ?v = str" by (simp only: current_text_def entries map_map left(2) str)
    then obtain sz buf where buf: "els = [(pill_loc sz ?canvas, buf)]" "pill_picture shaped str sz buf"
      using shown some on entries by auto
    have sz: "sz = (w, h)" using buf(2) by (simp add: pill_picture_def w h inner)
    have "pill_loc (w, h) ?canvas = (cx + cw div 2 - w div 2, cy + ch - 36 - h)"
      using lim assms(6-11) by (simp add: pill_loc_def MARGIN_BOTTOM_def signed_divide_int_def sgn_if)
    then show ?thesis using buf sz
      by (auto simp: pill_picture_def canvas_of_def pill_dot_def inner w h)
  qed
  ultimately show ?thesis using painted shown entries by (auto simp: Let_def)
qed

definition demo_pressed :: cast_view where
  "demo_pressed = key_cast_push 500000005 ''C-x'' (key_cast_push 7 ''C-x'' (key_cast_push 5 ''a''
     (key_cast_set_enabled True cast_view_new)))"

theorem pill_current_witness:
  "\<exists>els v'. cast_paint (\<lambda>str. ((min 16000 (10 * int (length str)), 26), [])) (\<lambda>sz d. blank sz) (0, 20, 800, 600)
      (key_cast_pre_paint 600000000 demo_pressed) = Some (els, v') \<and>
    (\<exists>buf. els = [((336, 542), buf)] \<and> pixel 128 buf (0, 0) = (0, 0, 0, 0) \<and> pixel 128 buf (64, 21) = CAST_BG)"
proof -
  let ?sh = "\<lambda>str :: string. ((min 16000 (10 * int (length str)), 26 :: int), [] :: ink list)" and ?re = "\<lambda>sz d. blank sz"
  let ?ps = "[(5, ''a''), (7, ''C-x''), (500000005, ''C-x'')]"
  have laws: "shapes ?sh" "resizes ?re" by (simp_all add: shapes_def resizes_def blank_def)
  have "cast_view_run ?sh ?re 0 True [] (key_cast_set_enabled True cast_view_new)"
    using view_enable [OF view_start [of ?sh ?re 0], of True] by simp
  from view_push [OF view_push [OF view_push [OF this, of 5 "''a''"], of 7 "''C-x''"], of 500000005 "''C-x''"]
  have run: "cast_view_run ?sh ?re 500000005 True ?ps demo_pressed" by (simp add: demo_pressed_def)
  have "groups ?ps = [[(5, ''a'')], [(7, ''C-x''), (500000005, ''C-x'')]]" by (simp add: repeats_def)
  then have left: "groups_left 600000000 ?ps = [[(5, ''a'')], [(7, ''C-x''), (500000005, ''C-x'')]]"
    by (simp add: groups_left_def)
  have ten: "length (join ''  '' (map group_text [[(5, ''a'')], [(7, ''C-x''), (500000005, ''C-x'')]])) = 10"
    by (simp add: group_text_def decimal.simps)
  have dots: "\<not> rounded 128 42 12 (0, 0)" "rounded 128 42 12 (64, 21)" by (simp_all add: rounded_def beyond_def)
  show ?thesis
    using pill_current [OF laws run, of 600000000 0 20 800 600, unfolded left Let_def ten] dots
    by (auto simp: on_canvas_def inked_def)
qed

end
