(* ===== verification/Skeleton_Paint.thy ===== *)
theory Skeleton_Paint
  imports Overlays Hit_Test
begin

text \<open>
  What the skeleton overlay draws: the colours and \<open>build_elements\<close> of
  \<open>crates/effect-plugins/src/skeleton.rs\<close>, after the layout of the label panel in \<open>Overlays\<close>, and the
  order in which \<open>paint\<close> hands the elements on. Coordinates are physical pixels, kept as \<open>i32\<close>.

  Floating point is \<open>floats\<close>; colours are the bit patterns of their \<open>f32\<close> components. The renderer is
  taken to accept the labels.
\<close>

section \<open>Colours\<close>

type_synonym rgba = "32 word \<times> 32 word \<times> 32 word \<times> 32 word"

definition COLOR_FRAME :: rgba where "COLOR_FRAME = (0x3F800000, 0x3E19999A, 0x3E19999A, 0x3F800000)"
definition COLOR_CHROME :: rgba where "COLOR_CHROME = (0x3F266666, 0x3E800000, 0x3F800000, 0x3F800000)"
definition COLOR_MENU_BAR :: rgba where "COLOR_MENU_BAR = (0x3F800000, 0x3F266666, 0x3E4CCCCD, 0x3F59999A)"
definition COLOR_TOOL_BAR :: rgba where "COLOR_TOOL_BAR = (0x3F733333, 0x3EE66666, 0x3E19999A, 0x3F59999A)"
definition COLOR_TAB_BAR :: rgba where "COLOR_TAB_BAR = (0x3E4CCCCD, 0x3F59999A, 0x3F59999A, 0x3F59999A)"
definition COLOR_WINDOW :: rgba where "COLOR_WINDOW = (0x3F800000, 0x3ECCCCCD, 0x3F4CCCCD, 0x3F400000)"
definition COLOR_SELECTED :: rgba where "COLOR_SELECTED = (0x3F800000, 0x3F59999A, 0x3E4CCCCD, 0x3F733333)"
definition COLOR_HEADER :: rgba where "COLOR_HEADER = (0x3ECCCCCD, 0x3F666666, 0x3ECCCCCD, 0x3F400000)"
definition COLOR_MODELINE :: rgba where "COLOR_MODELINE = (0x3E99999A, 0x3F4CCCCD, 0x3F800000, 0x3F400000)"
definition COLOR_ECHO :: rgba where "COLOR_ECHO = (0x3F800000, 0x3ECCCCCD, 0x3F800000, 0x3F400000)"
definition COLOR_DEFAULT :: rgba where "COLOR_DEFAULT = (0x3F4CCCCD, 0x3F4CCCCD, 0x3F4CCCCD, 0x3F333333)"
definition FLASH_FILL_ALPHA :: "32 word" where "FLASH_FILL_ALPHA = 0x3F333333"

definition color_for :: "string \<Rightarrow> bool \<Rightarrow> rgba" where
  "color_for kind selected =
     (if selected then COLOR_SELECTED
      else if kind = ''frame'' then COLOR_FRAME
      else if kind = ''chrome'' then COLOR_CHROME
      else if kind = ''menu-bar'' then COLOR_MENU_BAR
      else if kind = ''tool-bar'' then COLOR_TOOL_BAR
      else if kind = ''tab-bar'' then COLOR_TAB_BAR
      else if kind = ''window'' then COLOR_WINDOW
      else if kind = ''header-line'' \<or> kind = ''tab-line'' then COLOR_HEADER
      else if kind = ''mode-line'' then COLOR_MODELINE
      else if kind = ''echo-area'' \<or> kind = ''mini-buffer'' then COLOR_ECHO
      else COLOR_DEFAULT)"

text \<open>\<open>channel\<close> is \<open>(x.clamp(0.0, 1.0) * 255.0) as u8\<close>.\<close>

definition color_fg_bgra :: "(32 word \<Rightarrow> byte) \<Rightarrow> rgba \<Rightarrow> bytes" where
  "color_fg_bgra channel c = (case c of (r, g, b, a) \<Rightarrow> [channel b, channel g, channel r, 255])"

section \<open>Elements\<close>

datatype edge = TopEdge | BottomEdge | LeftEdge | RightEdge | FillArea

text \<open>The identities belong to the entry, which keeps its index.\<close>

record solid =
  so_id :: "nat \<times> edge"
  so_x :: i32
  so_y :: i32
  so_w :: i32
  so_h :: i32
  so_commit :: nat
  so_color :: rgba

definition corner_at :: "floats \<Rightarrow> f64 \<Rightarrow> i32 \<Rightarrow> i32 \<Rightarrow> point" where
  "corner_at fl scale x y = (f_round fl (f_mul fl (f_of fl x) scale), f_round fl (f_mul fl (f_of fl y) scale))"

definition thickness :: "sk_entry \<Rightarrow> i32" where
  "thickness en = (if sk_selected (en_rect en) then 2 else 1)"

definition entry_color :: "sk_entry \<Rightarrow> rgba" where
  "entry_color en = color_for (sk_kind (en_rect en)) (sk_selected (en_rect en))"

definition top_left :: "floats \<Rightarrow> f64 \<Rightarrow> sk_entry \<Rightarrow> point" where
  "top_left fl scale en = corner_at fl scale (r_x (draw_rect en)) (r_y (draw_rect en))"

definition bottom_right :: "floats \<Rightarrow> f64 \<Rightarrow> sk_entry \<Rightarrow> point" where
  "bottom_right fl scale en =
     corner_at fl scale (r_x (draw_rect en) + r_w (draw_rect en)) (r_y (draw_rect en) + r_h (draw_rect en))"

definition push_edge :: "sk_entry \<Rightarrow> nat \<Rightarrow> edge \<Rightarrow> rgba \<Rightarrow> i32 \<Rightarrow> i32 \<Rightarrow> i32 \<Rightarrow> i32 \<Rightarrow> solid" where
  "push_edge en idx ed c x y w h =
     \<lparr>so_id = (idx, ed), so_x = x, so_y = y, so_w = w, so_h = h, so_commit = en_commit en, so_color = c\<rparr>"

definition entry_borders :: "floats \<Rightarrow> f64 \<Rightarrow> nat \<times> sk_entry \<Rightarrow> solid list" where
  "entry_borders fl scale ie =
     (case ie of (idx, en) \<Rightarrow>
        let c = entry_color en; t = thickness en;
            c0 = top_left fl scale en; c1 = bottom_right fl scale en;
            w_phys = i32_max (fst c1 - fst c0) 1; h_phys = i32_max (snd c1 - snd c0) 1 in
        [push_edge en idx TopEdge c (fst c0) (snd c0) w_phys t,
         push_edge en idx BottomEdge c (fst c0) (snd c1 - t) w_phys t,
         push_edge en idx LeftEdge c (fst c0) (snd c0) t h_phys,
         push_edge en idx RightEdge c (fst c1 - t) (snd c0) t h_phys])"

definition entry_fills :: "floats \<Rightarrow> f64 \<Rightarrow> nat \<times> sk_entry \<Rightarrow> solid list" where
  "entry_fills fl scale ie =
     (case ie of (idx, en) \<Rightarrow>
        if flash_until en = None then []
        else
          let c0 = top_left fl scale en; c1 = bottom_right fl scale en in
          [push_edge en idx FillArea (case entry_color en of (r, g, b, a) \<Rightarrow> (r, g, b, FLASH_FILL_ALPHA))
             (fst c0) (snd c0) (i32_max (fst c1 - fst c0) 1) (i32_max (snd c1 - snd c0) 1)])"

text \<open>A label: its place in physical pixels and the entry whose buffer it shows.\<close>

definition entry_labels :: "floats \<Rightarrow> f64 \<Rightarrow> nat \<times> sk_entry \<Rightarrow> (fpoint \<times> nat) list" where
  "entry_labels fl scale ie =
     (case ie of (idx, en) \<Rightarrow>
        if has_label en
        then [((f_mul fl (f_of fl (fst (panel_pos en))) scale, f_mul fl (f_of fl (snd (panel_pos en))) scale), idx)]
        else [])"

definition build_elements ::
  "floats \<Rightarrow> instant \<Rightarrow> ipc_rect \<Rightarrow> f64 \<Rightarrow> skeleton \<Rightarrow> (solid list \<times> (fpoint \<times> nat) list) \<times> skeleton" where
  "build_elements fl now canvas scale sk =
     (if \<not> sk_enabled sk \<or> sk_entries sk = [] then (([], []), sk)
      else
        (let sk1 = panel_layout now canvas sk; ens = enumerate 0 (sk_entries sk1) in
         ((concat (map (entry_borders fl scale) ens) @ concat (map (entry_fills fl scale) ens),
           concat (map (entry_labels fl scale) ens)), sk1)))"

datatype sk_element = SkLabel fpoint nat | SkSolid solid

definition skeleton_paint :: "floats \<Rightarrow> instant \<Rightarrow> ipc_rect \<Rightarrow> f64 \<Rightarrow> skeleton \<Rightarrow> sk_element list \<times> skeleton" where
  "skeleton_paint fl now canvas scale sk =
     (case build_elements fl now canvas scale sk of ((solids, labels), sk1) \<Rightarrow>
        (map (\<lambda>(p, i). SkLabel p i) labels @ map SkSolid solids, sk1))"

end
