(* ===== verification/Skeleton_Props.thy ===== *)
theory Skeleton_Props
  imports Skeleton_Paint Overlay_Props
begin

text \<open>
  What the skeleton overlay draws: frames that are exactly the outline of their rectangles, and the
  flash of a clicked label.
\<close>

declare split_paired_All [simp del] split_paired_Ex [simp del]

section \<open>Outlines\<close>

definition solid_covers :: "solid \<Rightarrow> int \<times> int \<Rightarrow> bool" where
  "solid_covers so p \<longleftrightarrow> sint (so_x so) \<le> fst p \<and> fst p < sint (so_x so) + sint (so_w so) \<and>
     sint (so_y so) \<le> snd p \<and> snd p < sint (so_y so) + sint (so_h so)"

text \<open>The ring of a rectangle from \<open>(x0, y0)\<close> to \<open>(x1, y1)\<close>, \<open>t\<close> pixels thick.\<close>

definition on_ring :: "int \<Rightarrow> int \<times> int \<Rightarrow> int \<times> int \<Rightarrow> int \<times> int \<Rightarrow> bool" where
  "on_ring t c0 c1 p \<longleftrightarrow>
     fst c0 \<le> fst p \<and> fst p < fst c1 \<and> snd c0 \<le> snd p \<and> snd p < snd c1 \<and>
     (fst p < fst c0 + t \<or> fst c1 - t \<le> fst p \<or> snd p < snd c0 + t \<or> snd c1 - t \<le> snd p)"

definition in_rect :: "int \<times> int \<Rightarrow> int \<times> int \<Rightarrow> int \<times> int \<Rightarrow> bool" where
  "in_rect c0 c1 p \<longleftrightarrow> fst c0 \<le> fst p \<and> fst p < fst c1 \<and> snd c0 \<le> snd p \<and> snd p < snd c1"

definition ints :: "point \<Rightarrow> int \<times> int" where
  "ints p = (sint (fst p), sint (snd p))"

text \<open>The corners of the rectangle on the screen are apart by at least the thickness, and not far out.\<close>

definition well_apart :: "floats \<Rightarrow> f64 \<Rightarrow> sk_entry \<Rightarrow> bool" where
  "well_apart fl scale en \<longleftrightarrow>
     (let c0 = ints (top_left fl scale en); c1 = ints (bottom_right fl scale en); t = sint (thickness en) in
      fst c0 + t \<le> fst c1 \<and> snd c0 + t \<le> snd c1 \<and>
      \<bar>fst c0\<bar> \<le> 2 ^ 28 \<and> \<bar>snd c0\<bar> \<le> 2 ^ 28 \<and> \<bar>fst c1\<bar> \<le> 2 ^ 28 \<and> \<bar>snd c1\<bar> \<le> 2 ^ 28)"

lemma thickness_sint: "sint (thickness en) = 1 \<or> sint (thickness en) = 2"
  by (simp add: thickness_def)

lemma extent_sint:
  assumes "sint a < sint b" and "\<bar>sint a\<bar> \<le> 2 ^ 28" and "\<bar>sint b\<bar> \<le> (2 :: int) ^ 28"
  shows "sint (i32_max (b - a) 1 :: i32) = sint b - sint a"
proof -
  have "sint (b - a) = sint b - sint a" using assms by (intro sint_diff_exact) simp_all
  then show ?thesis using assms(1) by (simp add: i32_max_def)
qed

lemma back_sint:
  assumes "\<bar>sint b\<bar> \<le> (2 :: int) ^ 28"
  shows "sint (b - thickness en) = sint b - sint (thickness en)"
  using assms thickness_sint [of en] by (intro sint_diff_exact) auto

lemma borders_ring:
  assumes "well_apart fl scale en"
  shows "(\<exists>so \<in> set (entry_borders fl scale (i, en)). solid_covers so p) \<longleftrightarrow>
    on_ring (sint (thickness en)) (ints (top_left fl scale en)) (ints (bottom_right fl scale en)) p"
proof -
  obtain x0 y0 where tl: "top_left fl scale en = (x0, y0)" by (cases "top_left fl scale en")
  obtain x1 y1 where br: "bottom_right fl scale en = (x1, y1)" by (cases "bottom_right fl scale en")
  let ?t = "sint (thickness en)"
  have t: "1 \<le> ?t" using thickness_sint [of en] by auto
  have lim: "sint x0 + ?t \<le> sint x1" "sint y0 + ?t \<le> sint y1" "\<bar>sint x0\<bar> \<le> 2 ^ 28" "\<bar>sint y0\<bar> \<le> 2 ^ 28"
      "\<bar>sint x1\<bar> \<le> 2 ^ 28" "\<bar>sint y1\<bar> \<le> 2 ^ 28"
    using assms by (simp_all add: well_apart_def tl br ints_def Let_def)
  have ext: "sint (i32_max (x1 - x0) 1) = sint x1 - sint x0" "sint (i32_max (y1 - y0) 1) = sint y1 - sint y0"
    using lim t by (simp_all add: extent_sint)
  note backs = back_sint [OF lim(5), of en] back_sint [OF lim(6), of en]
  show ?thesis using lim(1,2) t
    by (simp add: entry_borders_def push_edge_def tl br solid_covers_def ext backs on_ring_def ints_def Let_def) auto
qed

lemma fills_rect:
  assumes "well_apart fl scale en" and "so \<in> set (entry_fills fl scale (i, en))"
  shows "solid_covers so p \<longleftrightarrow> in_rect (ints (top_left fl scale en)) (ints (bottom_right fl scale en)) p"
proof -
  obtain x0 y0 where tl: "top_left fl scale en = (x0, y0)" by (cases "top_left fl scale en")
  obtain x1 y1 where br: "bottom_right fl scale en = (x1, y1)" by (cases "bottom_right fl scale en")
  let ?t = "sint (thickness en)"
  have lim: "sint x0 < sint x1" "sint y0 < sint y1" "\<bar>sint x0\<bar> \<le> 2 ^ 28" "\<bar>sint y0\<bar> \<le> 2 ^ 28"
      "\<bar>sint x1\<bar> \<le> 2 ^ 28" "\<bar>sint y1\<bar> \<le> 2 ^ 28"
    using assms(1) thickness_sint [of en] by (auto simp: well_apart_def tl br ints_def Let_def)
  have ext: "sint (i32_max (x1 - x0) 1) = sint x1 - sint x0" "sint (i32_max (y1 - y0) 1) = sint y1 - sint y0"
    using lim by (simp_all add: extent_sint)
  show ?thesis using assms(2)
    by (auto simp: entry_fills_def push_edge_def tl br solid_covers_def ext in_rect_def ints_def Let_def split: if_splits)
qed

section \<open>Frames\<close>

definition drawn_solids :: "floats \<Rightarrow> instant \<Rightarrow> ipc_rect \<Rightarrow> f64 \<Rightarrow> skeleton \<Rightarrow> solid list" where
  "drawn_solids fl now canvas scale sk = fst (fst (build_elements fl now canvas scale sk))"

lemma place_labels_kept:
  "length (place_labels right mx y ens) = length ens"
  "i < length ens \<Longrightarrow> en_rect (place_labels right mx y ens ! i) = en_rect (ens ! i) \<and>
     draw_rect (place_labels right mx y ens ! i) = draw_rect (ens ! i) \<and>
     flash_until (place_labels right mx y ens ! i) = flash_until (ens ! i)"
proof -
  show "length (place_labels right mx y ens) = length ens"
    by (induction right mx y ens rule: place_labels.induct) simp_all
  show "i < length ens \<Longrightarrow> en_rect (place_labels right mx y ens ! i) = en_rect (ens ! i) \<and>
     draw_rect (place_labels right mx y ens ! i) = draw_rect (ens ! i) \<and>
     flash_until (place_labels right mx y ens ! i) = flash_until (ens ! i)"
    by (induction right mx y ens arbitrary: i rule: place_labels.induct) (auto simp: nth_Cons split: nat.split)
qed

lemma layout_same:
  fixes now canvas
  assumes "sk_enabled sk" and "i < length (sk_entries sk)"
  defines "en \<equiv> sk_entries (panel_layout now canvas sk) ! i"
  shows "length (sk_entries (panel_layout now canvas sk)) = length (sk_entries sk)"
    and "en_rect en = en_rect (sk_entries sk ! i)" and "draw_rect en = draw_rect (sk_entries sk ! i)"
    and "flash_until en = (case flash_until (sk_entries sk ! i) of
      Some until \<Rightarrow> if until \<le> now then None else Some until | None \<Rightarrow> None)"
proof -
  have some: "sk_entries sk \<noteq> []" using assms(2) by auto
  obtain right mx y where ens: "sk_entries (panel_layout now canvas sk) = place_labels right mx y (map (end_flash now) (sk_entries sk))"
    using assms(1) some by (simp add: panel_layout_def Let_def)
  show "length (sk_entries (panel_layout now canvas sk)) = length (sk_entries sk)"
    by (simp add: ens place_labels_kept)
  have "i < length (map (end_flash now) (sk_entries sk))" using assms(2) by simp
  from place_labels_kept(2) [OF this, of right mx y] assms(2)
  show "en_rect en = en_rect (sk_entries sk ! i)" "draw_rect en = draw_rect (sk_entries sk ! i)"
    "flash_until en = (case flash_until (sk_entries sk ! i) of
      Some until \<Rightarrow> if until \<le> now then None else Some until | None \<Rightarrow> None)"
    by (simp_all add: en_def ens end_flash_def split: option.split)
qed

lemma entry_ids:
  "map so_id (entry_borders fl scale (i, en)) = [(i, TopEdge), (i, BottomEdge), (i, LeftEdge), (i, RightEdge)]"
  "map so_id (entry_fills fl scale (i, en)) = (if flash_until en = None then [] else [(i, FillArea)])"
  by (simp_all add: entry_borders_def entry_fills_def push_edge_def Let_def)

text \<open>The corners, colour and thickness of an entry depend on the rectangle it was given alone.\<close>

lemma entry_geometry:
  assumes "en_rect en = en_rect en'" and "draw_rect en = draw_rect en'"
  shows "top_left fl scale en = top_left fl scale en'" and "bottom_right fl scale en = bottom_right fl scale en'"
    and "thickness en = thickness en'" and "entry_color en = entry_color en'" and "well_apart fl scale en = well_apart fl scale en'"
  using assms by (simp_all add: top_left_def bottom_right_def thickness_def entry_color_def well_apart_def)

lemma drawn_by:
  fixes now canvas
  assumes "sk_enabled sk" and "i < length (sk_entries sk)"
  defines "en \<equiv> sk_entries (panel_layout now canvas sk) ! i"
  shows "so \<in> set (drawn_solids fl now canvas scale sk) \<and> fst (so_id so) = i \<longleftrightarrow>
    so \<in> set (entry_borders fl scale (i, en)) \<or> so \<in> set (entry_fills fl scale (i, en))"
proof -
  let ?ens = "enumerate 0 (sk_entries (panel_layout now canvas sk))"
  have "sk_entries sk \<noteq> []" using assms(2) by auto
  then have all: "drawn_solids fl now canvas scale sk =
      concat (map (entry_borders fl scale) ?ens) @ concat (map (entry_fills fl scale) ?ens)"
    using assms(1) by (simp add: drawn_solids_def build_elements_def Let_def)
  have mine: "fst (so_id so) = j" if "so \<in> set (entry_borders fl scale (j, e)) \<or> so \<in> set (entry_fills fl scale (j, e))" for j e
  proof -
    have "so_id so \<in> set (map so_id (entry_borders fl scale (j, e))) \<or> so_id so \<in> set (map so_id (entry_fills fl scale (j, e)))"
      using that by auto
    then show ?thesis by (auto simp: entry_ids split: if_splits)
  qed
  have at: "(j, e) \<in> set ?ens \<longleftrightarrow> j < length (sk_entries sk) \<and> e = sk_entries (panel_layout now canvas sk) ! j" for j e
    using layout_same(1) [OF assms(1,2)] by (auto simp: in_set_enumerate_eq)
  show ?thesis
  proof
    assume "so \<in> set (drawn_solids fl now canvas scale sk) \<and> fst (so_id so) = i"
    then obtain j e where "(j, e) \<in> set ?ens" "fst (so_id so) = i"
        "so \<in> set (entry_borders fl scale (j, e)) \<or> so \<in> set (entry_fills fl scale (j, e))"
      by (auto simp: all)
    then show "so \<in> set (entry_borders fl scale (i, en)) \<or> so \<in> set (entry_fills fl scale (i, en))"
      using mine [of j e] by (auto simp: at en_def)
  next
    assume it: "so \<in> set (entry_borders fl scale (i, en)) \<or> so \<in> set (entry_fills fl scale (i, en))"
    have "(i, en) \<in> set ?ens" using assms(2) by (simp add: at en_def)
    then show "so \<in> set (drawn_solids fl now canvas scale sk) \<and> fst (so_id so) = i"
      using it mine [OF it] by (auto simp: all)
  qed
qed

lemma border_edges: "so \<in> set (entry_borders fl scale (i, en)) \<Longrightarrow> fst (so_id so) = i \<and> snd (so_id so) \<noteq> FillArea"
  by (auto simp: entry_borders_def push_edge_def Let_def)

lemma fill_edges: "so \<in> set (entry_fills fl scale (i, en)) \<Longrightarrow> fst (so_id so) = i \<and> snd (so_id so) = FillArea"
  by (auto simp: entry_fills_def push_edge_def Let_def split: if_splits)

lemma entry_drawn:
  assumes "sk_enabled sk" and "i < length (sk_entries sk)" and "well_apart fl scale (sk_entries sk ! i)"
  shows "(\<exists>so \<in> set (drawn_solids fl now canvas scale sk). fst (so_id so) = i \<and> snd (so_id so) \<noteq> FillArea \<and> solid_covers so p) \<longleftrightarrow>
      on_ring (sint (thickness (sk_entries sk ! i))) (ints (top_left fl scale (sk_entries sk ! i)))
        (ints (bottom_right fl scale (sk_entries sk ! i))) p"
    and "(\<exists>so \<in> set (drawn_solids fl now canvas scale sk). so_id so = (i, FillArea) \<and> solid_covers so p) \<longleftrightarrow>
      in_rect (ints (top_left fl scale (sk_entries sk ! i))) (ints (bottom_right fl scale (sk_entries sk ! i))) p \<and>
      (\<exists>until. flash_until (sk_entries sk ! i) = Some until \<and> now < until)"
proof -
  let ?en = "sk_entries (panel_layout now canvas sk) ! i"
  note same = layout_same [where now = now and canvas = canvas, OF assms(1,2)]
  note geo = entry_geometry [OF same(2,3)]
  have apart: "well_apart fl scale ?en" using assms(3) geo(5) by simp
  note mine = drawn_by [where fl = fl and now = now and canvas = canvas and scale = scale, OF assms(1,2)]
  have "(\<exists>so \<in> set (drawn_solids fl now canvas scale sk). fst (so_id so) = i \<and> snd (so_id so) \<noteq> FillArea \<and> solid_covers so p) \<longleftrightarrow>
      (\<exists>so \<in> set (entry_borders fl scale (i, ?en)). solid_covers so p)"
    using mine border_edges [of _ fl scale i ?en] fill_edges [of _ fl scale i ?en] unfolding prod_eq_iff fst_conv snd_conv by blast
  then show "(\<exists>so \<in> set (drawn_solids fl now canvas scale sk). fst (so_id so) = i \<and> snd (so_id so) \<noteq> FillArea \<and> solid_covers so p) \<longleftrightarrow>
      on_ring (sint (thickness (sk_entries sk ! i))) (ints (top_left fl scale (sk_entries sk ! i)))
        (ints (bottom_right fl scale (sk_entries sk ! i))) p"
    using borders_ring [OF apart, of i p] geo by simp
  have "(\<exists>so \<in> set (drawn_solids fl now canvas scale sk). so_id so = (i, FillArea) \<and> solid_covers so p) \<longleftrightarrow>
      (\<exists>so \<in> set (entry_fills fl scale (i, ?en)). solid_covers so p)"
    using mine border_edges [of _ fl scale i ?en] fill_edges [of _ fl scale i ?en] unfolding prod_eq_iff fst_conv snd_conv by blast
  also have "\<dots> \<longleftrightarrow> entry_fills fl scale (i, ?en) \<noteq> [] \<and>
      in_rect (ints (top_left fl scale ?en)) (ints (bottom_right fl scale ?en)) p"
    using fills_rect [OF apart, of _ i p] by (cases "entry_fills fl scale (i, ?en)") auto
  also have "entry_fills fl scale (i, ?en) \<noteq> [] \<longleftrightarrow> (\<exists>until. flash_until (sk_entries sk ! i) = Some until \<and> now < until)"
    using same(4) by (auto simp: entry_fills_def Let_def not_le split: option.splits if_splits)
  finally show "(\<exists>so \<in> set (drawn_solids fl now canvas scale sk). so_id so = (i, FillArea) \<and> solid_covers so p) \<longleftrightarrow>
      in_rect (ints (top_left fl scale (sk_entries sk ! i))) (ints (bottom_right fl scale (sk_entries sk ! i))) p \<and>
      (\<exists>until. flash_until (sk_entries sk ! i) = Some until \<and> now < until)"
    using geo by auto
qed

lemma click_hit:
  assumes "click_at t0 px py sk = (Some r, sk')"
  obtains k where "sk_enabled sk'" and "k < length (sk_entries sk')" and "length (sk_entries sk') = length (sk_entries sk)"
    and "en_rect (sk_entries sk' ! k) = r" and "in_label px py (sk_entries sk ! k)"
    and "flash_until (sk_entries sk' ! k) = Some (t0 + FLASH_DURATION)"
    and "\<And>i. i \<noteq> k \<Longrightarrow> sk_entries sk' ! i = sk_entries sk ! i"
proof -
  have on: "sk_enabled sk" using assms by (auto simp: click_at_def split: if_splits)
  then obtain k where k: "find_index (in_label px py) (sk_entries sk) = Some k"
    using assms by (auto simp: click_at_def split: option.splits)
  from find_index_Some [OF this] show ?thesis
    using that [of k] assms on k by (auto simp: click_at_def Let_def)
qed

text \<open>The frames drawn since: each goes on with the state the one before returned.\<close>

definition frames_run :: "floats \<Rightarrow> (instant \<times> ipc_rect \<times> f64) list \<Rightarrow> skeleton \<Rightarrow> skeleton" where
  "frames_run fl frames = fold (\<lambda>(now, canvas, scale) sk. snd (build_elements fl now canvas scale sk)) frames"

lemma build_state: "snd (build_elements fl now canvas scale sk) = panel_layout now canvas sk"
  by (simp add: build_elements_def panel_layout_def Let_def)

definition glows :: "instant \<Rightarrow> sk_entry \<Rightarrow> bool" where
  "glows now en \<longleftrightarrow> (\<exists>until. flash_until en = Some until \<and> now < until)"

lemma frames_kept:
  fixes fl :: floats
  assumes "sk_enabled sk" and "i < length (sk_entries sk)" and "\<forall>(t, c, sc) \<in> set frames. t \<le> now"
  defines "sk' \<equiv> frames_run fl frames sk"
  shows "sk_enabled sk' \<and> length (sk_entries sk') = length (sk_entries sk) \<and>
    en_rect (sk_entries sk' ! i) = en_rect (sk_entries sk ! i) \<and> draw_rect (sk_entries sk' ! i) = draw_rect (sk_entries sk ! i) \<and>
    glows now (sk_entries sk' ! i) = glows now (sk_entries sk ! i)"
  using assms(1-3) unfolding sk'_def
proof (induction frames arbitrary: sk)
  case (Cons f frames)
  obtain t c sc where f: "f = (t, c, sc)" by (cases f)
  note same = layout_same [where now = t and canvas = c, OF Cons.prems(1,2)]
  have "t \<le> now" using Cons.prems(3) by (simp add: f)
  then have glow: "glows now (sk_entries (panel_layout t c sk) ! i) = glows now (sk_entries sk ! i)"
    using same(4) by (auto simp: glows_def split: option.splits if_splits)
  have "sk_enabled (panel_layout t c sk)" using Cons.prems(1) by (simp add: panel_layout_def Let_def)
  then show ?case
    using Cons.IH [of "panel_layout t c sk"] Cons.prems(2,3) same(1-3) glow by (simp add: frames_run_def f build_state)
qed (simp add: frames_run_def)


definition demo_shown :: skeleton where
  "demo_shown = \<lparr>sk_enabled = True, click_absorbed = False,
     sk_entries = [entry_new\<lparr>has_label := True, panel_pos := (300, 300), label_size := (20, 10),
       en_rect := \<lparr>sk_kind = ''window'', sk_label = [], sk_rect = \<lparr>r_x = 10, r_y = 20, r_w = 30, r_h = 40\<rparr>, sk_selected = False\<rparr>,
       draw_rect := \<lparr>r_x = 10, r_y = 20, r_w = 30, r_h = 40\<rparr>\<rparr>]\<rparr>"


end
