(* ===== verification/Frame_Views.thy ===== *)
theory Frame_Views
  imports Hit_Test
begin

text \<open>
  The elements of a frame that emskin assembles itself: copies of client surfaces for mirrors
  (\<open>mirror_render.rs\<close>) and for the child frames of Emacs (\<open>child_frame_render.rs\<close>), both from the
  snapshot of a tree of surfaces (\<open>surface_snapshot.rs\<close>), the software cursor and the layer surfaces
  (\<open>render_frame\<close> and \<open>build_layer_surface_elements\<close> of \<open>winit.rs\<close>), in the order of \<open>render_frame\<close>;
  the read-back of the finished frame (\<open>capture.rs\<close>).

  The record \<open>views\<close> is smithay and the renderer: the popups of a surface, its render state (view,
  texture), whether its tree can be imported, the walk over a tree of surfaces from top to bottom with
  the two closures of \<open>collect_surface_tree\<close>, the intersection of rectangles, the layer map. A texture is
  a number. Floating point is \<open>floats\<close>.
\<close>

section \<open>Snapshots of a tree of surfaces\<close>

type_synonym frect = "fpoint \<times> fpoint"

record surface_view =
  view_offset :: point
  view_src :: frect
  view_dst :: point

record render_state =
  rs_view :: "surface_view option"
  rs_texture :: "nat option"
  rs_scale :: i32
  rs_transform :: nat

record snapshot =
  sn_surface :: surface
  sn_offset :: fpoint
  sn_src :: frect
  sn_dst :: point
  sn_texture :: nat
  sn_scale :: i32
  sn_transform :: nat

datatype traversal = DoChildren fpoint | SkipChildren

record 'el views =
  popups_of :: "surface \<Rightarrow> (surface \<times> point \<times> point) list"
  surface_state :: "surface \<Rightarrow> render_state option"
  import_ok :: "surface \<Rightarrow> bool"
  walk_down ::
    "(surface \<Rightarrow> fpoint \<Rightarrow> traversal) \<Rightarrow> (surface \<Rightarrow> fpoint \<Rightarrow> snapshot option) \<Rightarrow> surface \<Rightarrow> fpoint \<Rightarrow> snapshot list"
  intersection :: "frect \<Rightarrow> frect \<Rightarrow> frect option"
  hotspot :: "surface \<Rightarrow> point"
  on_layer :: "monitor \<Rightarrow> layer \<Rightarrow> surface list"
  layer_at :: "monitor \<Rightarrow> surface \<Rightarrow> point option"
  tree_elements :: "surface \<Rightarrow> point \<Rightarrow> f64 \<Rightarrow> 'el list"

definition visit_children :: "floats \<Rightarrow> 'el views \<Rightarrow> surface \<Rightarrow> fpoint \<Rightarrow> traversal" where
  "visit_children fl v s loc =
     (case surface_state v s of None \<Rightarrow> SkipChildren
      | Some d \<Rightarrow>
          (case rs_view d of None \<Rightarrow> SkipChildren
           | Some view \<Rightarrow> DoChildren (p_add fl loc (p_of fl (view_offset view)))))"

definition take_snapshot :: "floats \<Rightarrow> 'el views \<Rightarrow> surface \<Rightarrow> fpoint \<Rightarrow> snapshot option" where
  "take_snapshot fl v s loc =
     (case surface_state v s of None \<Rightarrow> None
      | Some d \<Rightarrow>
          (case rs_view d of None \<Rightarrow> None
           | Some view \<Rightarrow>
               map_option (\<lambda>tex. \<lparr>sn_surface = s, sn_offset = p_add fl loc (p_of fl (view_offset view)),
                   sn_src = view_src view, sn_dst = view_dst view, sn_texture = tex,
                   sn_scale = rs_scale d, sn_transform = rs_transform d\<rparr>)
                 (rs_texture d)))"

definition collect_surface_tree :: "floats \<Rightarrow> 'el views \<Rightarrow> surface \<Rightarrow> point \<Rightarrow> snapshot list" where
  "collect_surface_tree fl v root origin =
     walk_down v (visit_children fl v) (take_snapshot fl v) root (p_of fl origin)"

section \<open>Elements\<close>

text \<open>A texture at a place of the frame, in physical pixels; an identity is a surface and a namespace.\<close>

record element =
  el_id :: "surface \<times> nat option"
  el_loc :: fpoint
  el_texture :: nat
  el_scale :: i32
  el_transform :: nat
  el_src :: "frect option"
  el_dst :: "point option"

definition to_physical :: "floats \<Rightarrow> f64 \<Rightarrow> fpoint \<Rightarrow> fpoint" where
  "to_physical fl scale p = (f_mul fl (fst p) scale, f_mul fl (snd p) scale)"

definition snapshot_element :: "snapshot \<Rightarrow> nat \<Rightarrow> fpoint \<Rightarrow> frect \<Rightarrow> point \<Rightarrow> element" where
  "snapshot_element sn ns loc src dst =
     \<lparr>el_id = (sn_surface sn, Some ns), el_loc = loc, el_texture = sn_texture sn, el_scale = sn_scale sn,
      el_transform = sn_transform sn, el_src = Some src, el_dst = Some dst\<rparr>"

section \<open>Mirrors\<close>

text \<open>\<open>AppWindow::surface_layers\<close>: the toplevel, then its popups.\<close>

definition surface_layers :: "'sp env \<Rightarrow> 'el views \<Rightarrow> app_window \<Rightarrow> (surface \<times> point) list" where
  "surface_layers e v a =
     (case win_surface e (app_win a) of None \<Rightarrow> []
      | Some wl \<Rightarrow>
          (let wg = win_geometry e (app_win a) in
           (wl, (- loc_x wg, - loc_y wg)) #
             map (\<lambda>(popup, offset, pg). (popup, (fst offset - fst pg, snd offset - snd pg))) (popups_of v wl)))"

definition mirror_element :: "floats \<Rightarrow> f64 \<Rightarrow> u64 \<Rightarrow> rect \<Rightarrow> f64 \<Rightarrow> snapshot \<Rightarrow> element" where
  "mirror_element fl scale view geo ratio sn =
     (let loc = (f_add fl (f_of fl (loc_x geo)) (f_mul fl (fst (sn_offset sn)) ratio),
                 f_add fl (f_of fl (loc_y geo)) (f_mul fl (snd (sn_offset sn)) ratio));
          fit_w = f_round fl (f_mul fl (f_of fl (fst (sn_dst sn))) ratio);
          fit_h = f_round fl (f_mul fl (f_of fl (snd (sn_dst sn))) ratio) in
      snapshot_element sn (unat view) (to_physical fl scale loc) (sn_src sn) (i32_max fit_w 1, i32_max fit_h 1))"

text \<open>The elements of one mirror of one layer, of one layer, of one application.\<close>

definition mirror_copies :: "floats \<Rightarrow> f64 \<Rightarrow> u64 \<Rightarrow> fpoint \<Rightarrow> snapshot list \<Rightarrow> u64 \<times> mirror_view \<Rightarrow> element list" where
  "mirror_copies fl scale active src_size sns vm =
     (if mv_workspace (snd vm) \<noteq> active then []
      else case aspect_fit_ratio fl src_size
             (p_of fl (size_w (mv_geometry (snd vm)), size_h (mv_geometry (snd vm)))) of
        None \<Rightarrow> []
      | Some ratio \<Rightarrow> map (mirror_element fl scale (fst vm) (mv_geometry (snd vm)) ratio) sns)"

definition layer_mirrors ::
  "floats \<Rightarrow> 'el views \<Rightarrow> f64 \<Rightarrow> u64 \<Rightarrow> fpoint \<Rightarrow> (u64 \<times> mirror_view) list \<Rightarrow> surface \<times> point \<Rightarrow> element list" where
  "layer_mirrors fl v scale active src_size ms l =
     (if \<not> import_ok v (fst l) then []
      else
        (let sns = collect_surface_tree fl v (fst l) (snd l) in
         if sns = [] then [] else concat (map (mirror_copies fl scale active src_size sns) ms)))"

definition app_mirror_elements ::
  "'sp env \<Rightarrow> floats \<Rightarrow> 'el views \<Rightarrow> f64 \<Rightarrow> u64 \<Rightarrow> app_window \<Rightarrow> element list" where
  "app_mirror_elements e fl v scale active a =
     (if app_mirrors a = [] then []
      else case app_geometry a of None \<Rightarrow> []
      | Some geo \<Rightarrow>
          concat (map (layer_mirrors fl v scale active (p_of fl (size_w geo, size_h geo))
              (entries (visit e) (app_mirrors a))) (rev (surface_layers e v a))))"

definition build_mirror_elements :: "'sp env \<Rightarrow> floats \<Rightarrow> 'el views \<Rightarrow> f64 \<Rightarrow> u64 \<Rightarrow> app_manager \<Rightarrow> element list" where
  "build_mirror_elements e fl v scale active am =
     concat (map (app_mirror_elements e fl v scale active) (app_values e am))"

section \<open>Child frames of Emacs\<close>

definition CHILD_FRAME_ID_NAMESPACE :: nat where "CHILD_FRAME_ID_NAMESPACE = (2 ^ 64 - 1) div 2"

definition crop_view :: "floats \<Rightarrow> 'el views \<Rightarrow> frect \<Rightarrow> frect \<Rightarrow> frect \<Rightarrow> (frect \<times> frect) option" where
  "crop_view fl v dst src clip_to =
     (case intersection v dst clip_to of None \<Rightarrow> None
      | Some clip \<Rightarrow>
          (let sz = p_round fl (snd clip) in
           if sint (fst sz) \<le> 0 \<or> sint (snd sz) \<le> 0 then None
           else
             (let sx = f_div fl (fst (snd src)) (fst (snd dst));
                  sy = f_div fl (snd (snd src)) (snd (snd dst)) in
              Some (clip,
                ((f_add fl (fst (fst src)) (f_mul fl (f_sub fl (fst (fst clip)) (fst (fst dst))) sx),
                  f_add fl (snd (fst src)) (f_mul fl (f_sub fl (snd (fst clip)) (snd (fst dst))) sy)),
                 (f_mul fl (fst (snd clip)) sx, f_mul fl (snd (snd clip)) sy))))))"

definition child_copy :: "floats \<Rightarrow> 'el views \<Rightarrow> f64 \<Rightarrow> nat \<Rightarrow> rect \<Rightarrow> snapshot \<Rightarrow> element option" where
  "child_copy fl v scale idx r sn =
     map_option (\<lambda>(clip, src). snapshot_element sn (CHILD_FRAME_ID_NAMESPACE + idx) (to_physical fl scale (fst clip))
         src (p_round fl (snd clip)))
       (crop_view fl v (sn_offset sn, p_of fl (sn_dst sn)) (sn_src sn)
         (p_of fl (rect_loc r), p_of fl (size_w r, size_h r)))"

definition build_child_frame_elements :: "'sp env \<Rightarrow> floats \<Rightarrow> 'el views \<Rightarrow> f64 \<Rightarrow> 'sp emskin \<Rightarrow> element list" where
  "build_child_frame_elements e fl v scale s =
     (let rects = child_frame_rects (c_emacs s) in
      if rects = [] then []
      else case (em_surface (c_emacs s), emacs_render_origin e s) of
        (Some wl, Some (_, origin)) \<Rightarrow>
          if \<not> import_ok v wl then []
          else
            (let sns = collect_surface_tree fl v wl origin in
             concat (map (\<lambda>(idx, r). List.map_filter (child_copy fl v scale idx r) (rev sns)) (enumerate 0 rects)))
      | _ \<Rightarrow> [])"

section \<open>Cursor and layer surfaces\<close>

text \<open>\<open>at\<close> is the position of the pointer, when the seat has one.\<close>

definition cursor_elements :: "floats \<Rightarrow> 'el views \<Rightarrow> f64 \<Rightarrow> fpoint option \<Rightarrow> cursor_state \<Rightarrow> element list" where
  "cursor_elements fl v scale at c =
     (case (cur_status c, at) of
        (SurfaceImage wl, Some pos) \<Rightarrow>
          if \<not> import_ok v wl then []
          else (case surface_state v wl of None \<Rightarrow> []
           | Some d \<Rightarrow>
               (case rs_texture d of None \<Rightarrow> []
                | Some tex \<Rightarrow>
                    [\<lparr>el_id = (wl, None), el_loc = to_physical fl scale (p_sub fl pos (p_of fl (hotspot v wl))),
                      el_texture = tex, el_scale = rs_scale d, el_transform = rs_transform d,
                      el_src = map_option view_src (rs_view d), el_dst = map_option view_dst (rs_view d)\<rparr>]))
      | _ \<Rightarrow> [])"

definition layer_surface_elements :: "floats \<Rightarrow> 'el views \<Rightarrow> f64 \<Rightarrow> monitor \<Rightarrow> 'el list" where
  "layer_surface_elements fl v scale o' =
     concat (map (\<lambda>(wl, loc). tree_elements v wl (p_round fl (to_physical fl scale (p_of fl loc))) scale)
       (concat (map (\<lambda>l. map (\<lambda>wl. (wl, case layer_at v o' wl of None \<Rightarrow> (0, 0) | Some p \<Rightarrow> p)) (rev (on_layer v o' l)))
          [Overlay, Top, Bottom, Background])))"

text \<open>The elements handed to \<open>render_workspace\<close>, topmost first.\<close>

datatype 'el extra = Copy element | Drawn 'el

definition frame_extras ::
  "'sp env \<Rightarrow> floats \<Rightarrow> 'el views \<Rightarrow> f64 \<Rightarrow> fpoint option \<Rightarrow> monitor \<Rightarrow> 'sp emskin \<Rightarrow> 'el extra list" where
  "frame_extras e fl v scale at o' s =
     map Copy (cursor_elements fl v scale at (ensure_alive e (c_cursor s))) @
     map Copy (build_child_frame_elements e fl v scale s) @
     map Drawn (layer_surface_elements fl v scale o') @
     map Copy (build_mirror_elements e fl v scale (active_id (c_ws s)) (c_apps s))"

section \<open>Reading a frame back\<close>

datatype capture_error = NonPositiveSize "int \<times> int" | Gles

record output_capture =
  oc_region :: "(int \<times> int) \<times> (int \<times> int)"
  oc_time :: nat

text \<open>\<open>OutputCapture::new\<close>; at scale 1 and without a transform the conversions keep the size.\<close>

definition output_capture_new :: "int \<times> int \<Rightarrow> nat \<Rightarrow> capture_error + output_capture" where
  "output_capture_new physical_size present =
     (if fst physical_size \<le> 0 \<or> snd physical_size \<le> 0 then Inl (NonPositiveSize physical_size)
      else Inr \<lparr>oc_region = ((0, 0), physical_size), oc_time = present\<rparr>)"

datatype fourcc = Abgr8888 | Argb8888
datatype orientation = TopDown | BottomUp

record capturer =
  cp_format :: fourcc
  cp_orientation :: orientation

definition capturer_new :: capturer where
  "capturer_new = \<lparr>cp_format = Abgr8888, cp_orientation = BottomUp\<rparr>"

definition with_format :: "fourcc \<Rightarrow> capturer \<Rightarrow> capturer" where
  "with_format f c = c\<lparr>cp_format := f\<rparr>"

record captured_frame =
  cf_mapping :: nat
  cf_size :: "int \<times> int"
  cf_format :: fourcc
  cf_orientation :: orientation
  cf_time :: nat

text \<open>\<open>copy\<close> is \<open>copy_framebuffer\<close> of the renderer: a mapping, or its error.\<close>

definition capture ::
  "((int \<times> int) \<times> (int \<times> int) \<Rightarrow> fourcc \<Rightarrow> nat option) \<Rightarrow> capturer \<Rightarrow> output_capture \<Rightarrow> capture_error + captured_frame" where
  "capture copy c src =
     (case copy (oc_region src) (cp_format c) of None \<Rightarrow> Inl Gles
      | Some mapping \<Rightarrow> Inr \<lparr>cf_mapping = mapping, cf_size = snd (oc_region src), cf_format = cp_format c,
          cf_orientation = cp_orientation c, cf_time = oc_time src\<rparr>)"

definition cf_width :: "captured_frame \<Rightarrow> u32" where "cf_width f = word_of_int (fst (cf_size f))"
definition cf_height :: "captured_frame \<Rightarrow> u32" where "cf_height f = word_of_int (snd (cf_size f))"
definition cf_stride :: "captured_frame \<Rightarrow> u32" where "cf_stride f = word_of_int (fst (cf_size f)) * 4"

end
