(* ===== verification/Demo_World.thy ===== *)
theory Demo_World
  imports World
begin

text \<open>
  A concrete environment for the witnesses: a \<open>Space\<close> is the list of its windows with their
  locations from bottom to top and the list of its outputs; window \<open>w\<close> shows surface \<open>w\<close>,
  everything is alive, surfaces above 100 have no text input, no keyboard grab is active.
\<close>

type_synonym demo_space = "(window \<times> point) list \<times> monitor list"

definition demo_json_codec :: json_codec where
  "demo_json_codec = \<lparr>to_json = (\<lambda>_. Some []), from_json = (\<lambda>_. None)\<rparr>"

definition demo_zone :: rect where
  "demo_zone = \<lparr>loc_x = 0, loc_y = 24, size_w = 800, size_h = 576\<rparr>"

definition demo_shell :: "demo_space shell" where
  "demo_shell = \<lparr>
     tl_parent = (\<lambda>s. s mod 10 = 9),
     tl_title = (\<lambda>s. Some ''title''),
     tl_app_id = (\<lambda>s. None),
     tl_min = (\<lambda>s. (0, 0)),
     tl_max = (\<lambda>s. (0, 0)),
     tl_configured = (\<lambda>s. False),
     get_parent = (\<lambda>s. if 1000 \<le> s then Some (s - 1000) else None),
     sync_subsurface = (\<lambda>s. False),
     layer_surface = (\<lambda>o' s. 500 \<le> s \<and> s < 600),
     layer_wants_keyboard = (\<lambda>s. True),
     layer_maps = (\<lambda>s. True),
     mapped_layers = (\<lambda>o'. []),
     zone_before = (\<lambda>o'. demo_zone),
     tracked_popup = (\<lambda>s. False),
     popup_configured = (\<lambda>s. False),
     mode_size = (\<lambda>o'. Some (800, 600)),
     output_geometry = (\<lambda>sp o'. Some \<lparr>loc_x = 0, loc_y = 0, size_w = 800, size_h = 600\<rparr>)\<rparr>"

definition demo_env :: "demo_space env" where
  "demo_env = \<lparr>
     sp_empty = ([], []),
     sp_elements = (\<lambda>(es, os). map fst es),
     sp_location = (\<lambda>(es, os). map_of es),
     sp_map = (\<lambda>w p (es, os). (filter (\<lambda>(v, q). v \<noteq> w) es @ [(w, p)], os)),
     sp_unmap = (\<lambda>w (es, os). (filter (\<lambda>(v, q). v \<noteq> w) es, os)),
     sp_lower = (\<lambda>w (es, os). (case map_of es w of None \<Rightarrow> es
        | Some p \<Rightarrow> (w, p) # filter (\<lambda>(v, q). v \<noteq> w) es, os)),
     sp_outputs = snd,
     sp_map_output = (\<lambda>o' p (es, os). (es, if o' \<in> set os then os else os @ [o'])),
     sp_refresh = (\<lambda>a (es, os). (filter (\<lambda>(v, q). a v) es, os)),
     win_surface = Some,
     win_alive = (\<lambda>w. True),
     win_geometry = (\<lambda>w. \<lparr>loc_x = 0, loc_y = 0, size_w = 640, size_h = 480\<rparr>),
     srf_alive = (\<lambda>s. True),
     client_of = (\<lambda>s. Some (s div 10)),
     same_client = (\<lambda>s t. s div 10 = t div 10),
     zone = (\<lambda>o'. demo_zone),
     kb_set = (\<lambda>old req. (req, old \<noteq> req)),
     ti_bound = (\<lambda>s. case s of None \<Rightarrow> False | Some t \<Rightarrow> t \<le> 100),
     ti_rect = None,
     clock = 0,
     visit = (\<lambda>ks. ks),
     json = demo_json_codec,
     shell = demo_shell\<rparr>"

lemma map_of_filter_other:
  "map_of (filter (\<lambda>(v, q). v \<noteq> w) es) w' = (if w' = w then None else map_of es w')"
  by (induction es) auto

lemma map_fst_filter: "map fst (filter (\<lambda>(v, q). v \<noteq> w) es) = removeAll w (map fst es)"
  by (induction es) auto

lemma map_fst_filter_by: "map fst (filter (\<lambda>(v, q). a v) es) = filter a (map fst es)"
  by (induction es) auto

lemma demo_lower:
  "map fst (case map_of es w of None \<Rightarrow> es | Some p \<Rightarrow> (w, p) # filter (\<lambda>(v, q). v \<noteq> w) es) =
     (if w \<in> fst ` set es then w # removeAll w (map fst es) else map fst es)"
proof (cases "map_of es w")
  case None
  then have "w \<notin> fst ` set es" by (simp add: map_of_eq_None_iff)
  with None show ?thesis by simp
next
  case (Some p)
  then have "w \<in> fst ` set es" by (metis map_of_eq_None_iff option.distinct(1))
  with Some show ?thesis by (simp add: map_fst_filter)
qed

lemma demo_space_laws: "space_laws demo_env"
  unfolding space_laws_def demo_env_def
  by (simp add: case_prod_beta)
    (simp add: demo_lower map_fst_filter map_fst_filter_by map_add_def map_of_filter_other, auto split: option.splits)

lemma demo_focus_laws: "focus_laws demo_env"
  by (simp add: focus_laws_def demo_env_def)

lemma demo_order_laws: "order_laws demo_env"
  by (simp add: order_laws_def iteration_order_def demo_env_def)

lemmas demo_laws = demo_space_laws demo_focus_laws demo_order_laws

end
