(* ===== verification/Frame_Views_Props.thy ===== *)
theory Frame_Views_Props
  imports Frame_Views Demo_World
begin

text \<open>
  The copies of client surfaces in a frame: every copy has an identity of its own, mirrors show what
  their hit test maps to, child frames are cropped one to one; and the order in which the surfaces of
  one tree are copied.
\<close>

declare split_paired_All [simp del] split_paired_Ex [simp del]

section \<open>Identities\<close>

lemma distinct_concat_map:
  assumes "distinct xs" and "\<And>x. x \<in> set xs \<Longrightarrow> distinct (f x)"
    and "\<And>x y. x \<in> set xs \<Longrightarrow> y \<in> set xs \<Longrightarrow> x \<noteq> y \<Longrightarrow> set (f x) \<inter> set (f y) = {}"
  shows "distinct (concat (map f xs))"
  using assms
proof (induction xs)
  case (Cons x xs)
  have "distinct (concat (map f xs))" using Cons.prems by (intro Cons.IH) auto
  moreover have "set (f x) \<inter> set (f y) = {}" if "y \<in> set xs" for y
    using that Cons.prems(1) by (intro Cons.prems(3)) auto
  ultimately show ?case using Cons.prems(2) [of x] by auto
qed simp

lemma distinct_concat_part: "distinct (concat (map f xs)) \<Longrightarrow> x \<in> set xs \<Longrightarrow> distinct (f x)"
  by (induction xs) auto

lemma distinct_concat_apart:
  "distinct (concat (map f xs)) \<Longrightarrow> x \<in> set xs \<Longrightarrow> y \<in> set xs \<Longrightarrow> x \<noteq> y \<Longrightarrow> set (f x) \<inter> set (f y) = {}"
  by (induction xs) auto

text \<open>
  What the compositor is: a surface is in at most one tree, once. \<open>tree r\<close> are the surfaces under \<open>r\<close>.
\<close>

definition forest :: "floats \<Rightarrow> 'el views \<Rightarrow> (surface \<Rightarrow> surface set) \<Rightarrow> surface list \<Rightarrow> bool" where
  "forest fl v tree roots \<longleftrightarrow> distinct roots \<and>
     (\<forall>r \<in> set roots. \<forall>p. distinct (map sn_surface (collect_surface_tree fl v r p)) \<and>
        sn_surface ` set (collect_surface_tree fl v r p) \<subseteq> tree r) \<and>
     (\<forall>r \<in> set roots. \<forall>q \<in> set roots. r \<noteq> q \<longrightarrow> tree r \<inter> tree q = {})"

definition ids :: "element list \<Rightarrow> (surface \<times> nat option) list" where
  "ids els = map el_id els"

lemma ids_simps [simp]:
  "ids [] = []" "ids (xs @ ys) = ids xs @ ids ys" "ids (concat xss) = concat (map ids xss)"
  by (simp_all add: ids_def [abs_def] map_concat)

lemma mirror_element_id [simp]: "el_id (mirror_element fl scale view geo ratio sn) = (sn_surface sn, Some (unat view))"
  by (simp add: mirror_element_def snapshot_element_def Let_def)

lemma ids_mirror:
  "ids (map (mirror_element fl scale view geo ratio) sns) = map (\<lambda>s. (s, Some (unat view))) (map sn_surface sns)"
  by (simp add: ids_def)

lemma mirror_copies_ids:
  "set (ids (mirror_copies fl scale active sz sns vm)) \<subseteq> sn_surface ` set sns \<times> {Some (unat (fst vm))}"
  "distinct (map sn_surface sns) \<Longrightarrow> distinct (ids (mirror_copies fl scale active sz sns vm))"
proof -
  show "set (ids (mirror_copies fl scale active sz sns vm)) \<subseteq> sn_surface ` set sns \<times> {Some (unat (fst vm))}"
    by (auto simp: mirror_copies_def ids_def split: option.splits if_splits)
  assume "distinct (map sn_surface sns)"
  then show "distinct (ids (mirror_copies fl scale active sz sns vm))"
    by (auto simp: mirror_copies_def ids_mirror distinct_map inj_on_def simp del: map_map split: option.splits)
qed

lemma layer_mirrors_ids:
  assumes "distinct (map sn_surface (collect_surface_tree fl v (fst l) (snd l)))"
    and "sn_surface ` set (collect_surface_tree fl v (fst l) (snd l)) \<subseteq> tree (fst l)" and "distinct (map fst ms)"
  shows "distinct (ids (layer_mirrors fl v scale active sz ms l))"
    and "set (ids (layer_mirrors fl v scale active sz ms l)) \<subseteq> tree (fst l) \<times> (\<lambda>vm. Some (unat (fst vm))) ` set ms"
proof -
  let ?sns = "collect_surface_tree fl v (fst l) (snd l)"
  have diff: "fst a \<noteq> fst b" if "a \<in> set ms" "b \<in> set ms" "a \<noteq> b" for a b
    using assms(3) that by (auto simp: distinct_map inj_on_def)
  have "distinct (concat (map (\<lambda>vm. ids (mirror_copies fl scale active sz ?sns vm)) ms))"
  proof (rule distinct_concat_map)
    show "distinct ms" using assms(3) by (simp add: distinct_map)
    fix a b assume "a \<in> set ms" "b \<in> set ms" "a \<noteq> b"
    then have "unat (fst a) \<noteq> unat (fst b)" using diff by (simp add: word_unat_eq_iff)
    then show "set (ids (mirror_copies fl scale active sz ?sns a)) \<inter> set (ids (mirror_copies fl scale active sz ?sns b)) = {}"
      using mirror_copies_ids(1) [of fl scale active sz ?sns a] mirror_copies_ids(1) [of fl scale active sz ?sns b] by blast
  qed (rule mirror_copies_ids(2) [OF assms(1)])
  then show "distinct (ids (layer_mirrors fl v scale active sz ms l))"
    by (simp add: layer_mirrors_def Let_def comp_def)
  have "set (ids (mirror_copies fl scale active sz ?sns vm)) \<subseteq> tree (fst l) \<times> (\<lambda>vm. Some (unat (fst vm))) ` set ms"
    if "vm \<in> set ms" for vm
    using mirror_copies_ids(1) [of fl scale active sz ?sns vm] assms(2) that by blast
  then show "set (ids (layer_mirrors fl v scale active sz ms l)) \<subseteq> tree (fst l) \<times> (\<lambda>vm. Some (unat (fst vm))) ` set ms"
    by (auto simp: layer_mirrors_def Let_def)
qed

definition app_roots :: "'sp env \<Rightarrow> 'el views \<Rightarrow> app_window \<Rightarrow> surface list" where
  "app_roots e v a = map fst (surface_layers e v a)"

lemma forest_part: "forest fl v tree roots \<Longrightarrow> set part \<subseteq> set roots \<Longrightarrow> distinct part \<Longrightarrow> forest fl v tree part"
  unfolding forest_def by blast

lemma app_mirror_ids:
  assumes "forest fl v tree (app_roots e v a)" and "iteration_order (visit e)" and "distinct (map fst (app_mirrors a))"
  shows "distinct (ids (app_mirror_elements e fl v scale active a))"
    and "set (ids (app_mirror_elements e fl v scale active a)) \<subseteq>
      (\<Union>r \<in> set (app_roots e v a). tree r) \<times> (\<lambda>vm. Some (unat (fst vm))) ` set (app_mirrors a)"
proof -
  let ?ms = "entries (visit e) (app_mirrors a)" and ?ls = "rev (surface_layers e v a)"
  have ms: "distinct (map fst ?ms)" "set ?ms = set (app_mirrors a)"
    using assms(2,3) by (simp_all add: distinct_entries set_entries)
  have trees: "distinct (map sn_surface (collect_surface_tree fl v (fst l) (snd l)))"
      "sn_surface ` set (collect_surface_tree fl v (fst l) (snd l)) \<subseteq> tree (fst l)" if "l \<in> set ?ls" for l
    using assms(1) that by (auto simp: forest_def app_roots_def)
  note layer = layer_mirrors_ids [where tree = tree, OF trees ms(1)]
  have roots: "distinct (map fst (surface_layers e v a))" using assms(1) by (simp add: forest_def app_roots_def)
  then have ls: "distinct ?ls" by (simp add: distinct_map)
  have apart: "tree (fst l) \<inter> tree (fst k) = {}" if "l \<in> set ?ls" "k \<in> set ?ls" "l \<noteq> k" for l k
  proof -
    have "fst l \<noteq> fst k" using roots that by (auto simp: distinct_map inj_on_def)
    then show ?thesis using assms(1) that unfolding forest_def app_roots_def by simp
  qed
  have "distinct (concat (map (\<lambda>l. ids (layer_mirrors fl v scale active sz ?ms l)) ?ls))" for sz
  proof (rule distinct_concat_map [OF ls])
    fix l k assume lk: "l \<in> set ?ls" "k \<in> set ?ls" "l \<noteq> k"
    show "set (ids (layer_mirrors fl v scale active sz ?ms l)) \<inter> set (ids (layer_mirrors fl v scale active sz ?ms k)) = {}"
      using layer(2) [OF lk(1) lk(1), of scale active sz] layer(2) [OF lk(2) lk(2), of scale active sz] apart [OF lk] by blast
  qed (rule layer(1))
  then show "distinct (ids (app_mirror_elements e fl v scale active a))"
    by (simp add: app_mirror_elements_def comp_def split: option.split)
  have "set (ids (layer_mirrors fl v scale active sz ?ms l)) \<subseteq>
      (\<Union>r \<in> set (app_roots e v a). tree r) \<times> (\<lambda>vm. Some (unat (fst vm))) ` set (app_mirrors a)"
    if "l \<in> set ?ls" for l sz
    using layer(2) [OF that that, of scale active sz] that ms(2) by (auto simp: app_roots_def)
  then show "set (ids (app_mirror_elements e fl v scale active a)) \<subseteq>
      (\<Union>r \<in> set (app_roots e v a). tree r) \<times> (\<lambda>vm. Some (unat (fst vm))) ` set (app_mirrors a)"
    unfolding app_mirror_elements_def by (simp split: option.split) blast
qed

lemma mirror_ids:
  assumes "iteration_order (visit e)" and "apps_wf am"
    and "\<forall>a \<in> set (app_values e am). distinct (map fst (app_mirrors a))"
    and "forest fl v tree (concat (map (app_roots e v) (app_values e am)))"
  shows "distinct (ids (build_mirror_elements e fl v scale active am))"
    and "x \<in> set (ids (build_mirror_elements e fl v scale active am)) \<Longrightarrow>
      \<exists>a \<in> set (app_values e am). \<exists>vm \<in> set (app_mirrors a). snd x = Some (unat (fst vm))"
proof -
  let ?as = "app_values e am"
  have wf: "distinct (map fst (am_windows am))" "\<forall>(i, a) \<in> set (am_windows am). app_id a = i"
    using assms(2) unfolding apps_wf_def by blast+
  have "map app_id ?as = map fst (entries (visit e) (am_windows am))"
    using wf set_entries [OF assms(1) wf(1)] by (auto simp: app_values_def)
  then have as: "distinct ?as" using distinct_entries [OF assms(1) wf(1)] by (metis distinct_map)
  have part: "set (app_roots e v a) \<subseteq> set (concat (map (app_roots e v) ?as))" "distinct (app_roots e v a)"
    if "a \<in> set ?as" for a
  proof -
    show "set (app_roots e v a) \<subseteq> set (concat (map (app_roots e v) ?as))" using that by auto
    show "distinct (app_roots e v a)"
      using assms(4) that unfolding forest_def by (blast intro: distinct_concat_part)
  qed
  have sub: "forest fl v tree (app_roots e v a)" if "a \<in> set ?as" for a
    using forest_part [OF assms(4) part [OF that]] .
  note app = app_mirror_ids [OF sub assms(1)]
  have apart: "r \<noteq> q" if "a \<in> set ?as" "b \<in> set ?as" "a \<noteq> b" "r \<in> set (app_roots e v a)" "q \<in> set (app_roots e v b)"
    for a b r q
    using assms(4) that distinct_concat_apart [of "app_roots e v" ?as a b] unfolding forest_def by blast
  show "distinct (ids (build_mirror_elements e fl v scale active am))"
  proof -
    have "distinct (concat (map (\<lambda>a. ids (app_mirror_elements e fl v scale active a)) ?as))"
    proof (rule distinct_concat_map [OF as])
      fix a assume "a \<in> set ?as"
      then show "distinct (ids (app_mirror_elements e fl v scale active a))" using app(1) assms(3) by blast
    next
      fix a b assume ab: "a \<in> set ?as" "b \<in> set ?as" "a \<noteq> b"
      have "tree r \<inter> tree q = {}" if "r \<in> set (app_roots e v a)" "q \<in> set (app_roots e v b)" for r q
        using assms(4) part(1) [OF ab(1)] part(1) [OF ab(2)] that apart [OF ab that] unfolding forest_def by blast
      then show "set (ids (app_mirror_elements e fl v scale active a)) \<inter>
          set (ids (app_mirror_elements e fl v scale active b)) = {}"
        using app(2) [OF ab(1), of scale active] app(2) [OF ab(2), of scale active] assms(3) ab by blast
    qed
    then show ?thesis by (simp add: build_mirror_elements_def comp_def)
  qed
  assume "x \<in> set (ids (build_mirror_elements e fl v scale active am))"
  then obtain a where a: "a \<in> set ?as" "x \<in> set (ids (app_mirror_elements e fl v scale active a))"
    by (auto simp: build_mirror_elements_def)
  then have "snd x \<in> (\<lambda>vm. Some (unat (fst vm))) ` set (app_mirrors a)"
    using subsetD [OF app(2) [OF a(1)] a(2)] assms(3) a(1) by (simp add: mem_Times_iff)
  then show "\<exists>a \<in> set ?as. \<exists>vm \<in> set (app_mirrors a). snd x = Some (unat (fst vm))" using a(1) by blast
qed

section \<open>Child frames\<close>

lemma child_copy_id:
  "child_copy fl v scale idx r sn = Some el \<Longrightarrow> el_id el = (sn_surface sn, Some (CHILD_FRAME_ID_NAMESPACE + idx))"
  by (auto simp: child_copy_def snapshot_element_def)

lemma map_filter_ids:
  assumes "\<And>sn el. f sn = Some el \<Longrightarrow> el_id el = (sn_surface sn, Some ns)" and "distinct (map sn_surface sns)"
  shows "distinct (ids (List.map_filter f sns))"
    and "set (ids (List.map_filter f sns)) \<subseteq> sn_surface ` set sns \<times> {Some ns}"
proof -
  show part: "set (ids (List.map_filter f sns)) \<subseteq> sn_surface ` set sns \<times> {Some ns}" for sns
    using assms(1) by (auto simp: ids_def List.map_filter_def)
  show "distinct (ids (List.map_filter f sns))"
    using assms(2)
  proof (induction sns)
    case (Cons sn sns)
    then have "distinct (ids (List.map_filter f sns))" "sn_surface sn \<notin> sn_surface ` set sns" by auto
    then show ?case using part [of sns] assms(1) [of sn]
      by (auto simp: List.map_filter_simps ids_def split: option.split)
  qed (simp add: List.map_filter_simps)
qed

lemma child_ids:
  assumes "\<forall>wl p. em_surface (c_emacs s) = Some wl \<longrightarrow> distinct (map sn_surface (collect_surface_tree fl v wl p))"
  shows "distinct (ids (build_child_frame_elements e fl v scale s))"
    and "x \<in> set (ids (build_child_frame_elements e fl v scale s)) \<Longrightarrow>
      \<exists>idx. snd x = Some (CHILD_FRAME_ID_NAMESPACE + idx)"
proof -
  let ?rects = "child_frame_rects (c_emacs s)"
  let ?copy = "\<lambda>sns ir. case ir of (idx, r) \<Rightarrow> List.map_filter (child_copy fl v scale idx r) (rev sns)"
  have one: "distinct (ids (?copy sns ir))"
      "set (ids (?copy sns ir)) \<subseteq> sn_surface ` set (rev sns) \<times> {Some (CHILD_FRAME_ID_NAMESPACE + fst ir)}"
    if "distinct (map sn_surface sns)" for sns ir
  proof -
    have "distinct (map sn_surface (rev sns))" using that by (simp add: rev_map [symmetric])
    from map_filter_ids [of "child_copy fl v scale (fst ir) (snd ir)", OF child_copy_id this]
    show "distinct (ids (?copy sns ir))"
      "set (ids (?copy sns ir)) \<subseteq> sn_surface ` set (rev sns) \<times> {Some (CHILD_FRAME_ID_NAMESPACE + fst ir)}"
      by (simp_all add: case_prod_unfold)
  qed
  have all: "distinct (concat (map (\<lambda>ir. ids (?copy sns ir)) (enumerate 0 ?rects)))"
    if d: "distinct (map sn_surface sns)" for sns
  proof (rule distinct_concat_map)
    fix a b assume "a \<in> set (enumerate 0 ?rects)" "b \<in> set (enumerate 0 ?rects)" "a \<noteq> b"
    then have "fst a \<noteq> fst b" by (auto simp: in_set_enumerate_eq prod_eq_iff)
    then show "set (ids (?copy sns a)) \<inter> set (ids (?copy sns b)) = {}"
      using one(2) [OF d, of a] one(2) [OF d, of b] by auto
  qed (simp_all only: distinct_enumerate one(1) [OF d])
  show "distinct (ids (build_child_frame_elements e fl v scale s))"
    using assms all by (auto simp: build_child_frame_elements_def Let_def comp_def split: option.split)
  assume "x \<in> set (ids (build_child_frame_elements e fl v scale s))"
  then obtain wl p ir where "em_surface (c_emacs s) = Some wl"
      "x \<in> set (ids (?copy (collect_surface_tree fl v wl p) ir))"
    by (auto simp: build_child_frame_elements_def Let_def split: option.splits if_splits)
  then have "x \<in> sn_surface ` set (rev (collect_surface_tree fl v wl p)) \<times> {Some (CHILD_FRAME_ID_NAMESPACE + fst ir)}"
    using one(2) assms by blast
  then show "\<exists>idx. snd x = Some (CHILD_FRAME_ID_NAMESPACE + idx)" by auto
qed

text \<open>The copies of a frame, without the elements smithay makes of layer surfaces.\<close>

definition copies :: "'el extra list \<Rightarrow> element list" where
  "copies xs = List.map_filter (\<lambda>x. case x of Copy el \<Rightarrow> Some el | Drawn _ \<Rightarrow> None) xs"

lemma copies_simps [simp]:
  "copies (map Copy els) = els" "copies (map Drawn ds) = []" "copies (xs @ ys) = copies xs @ copies ys"
proof -
  show "copies (map Copy els) = els" by (induction els) (simp_all add: copies_def List.map_filter_simps)
  show "copies (map Drawn ds) = []" by (induction ds) (simp_all add: copies_def List.map_filter_simps)
  show "copies (xs @ ys) = copies xs @ copies ys" by (simp add: copies_def List.map_filter_def)
qed

lemma cursor_ids:
  "distinct (ids (cursor_elements fl v scale at c))" "x \<in> set (ids (cursor_elements fl v scale at c)) \<Longrightarrow> snd x = None"
proof -
  have "cursor_elements fl v scale at c = [] \<or> (\<exists>el. cursor_elements fl v scale at c = [el] \<and> snd (el_id el) = None)"
    by (cases "cur_status c"; cases at) (simp_all add: cursor_elements_def split: option.split)
  then show "distinct (ids (cursor_elements fl v scale at c))"
    "x \<in> set (ids (cursor_elements fl v scale at c)) \<Longrightarrow> snd x = None" by (auto simp: ids_def)
qed

text \<open>C39. 
  No two copies of client surfaces in a frame have the same identity for the damage tracker: not the
  software cursor, not the copies for two child frames or two mirrors, of two surfaces, of two popups
  or applications. It rests on each surface having one place in one tree and on Emacs numbering its
  views below the number the child frames start from.
\<close>

theorem render_ids_distinct:
  assumes "iteration_order (visit e)" and "apps_wf (c_apps s)"
    and "\<forall>a \<in> set (app_values e (c_apps s)). distinct (map fst (app_mirrors a)) \<and>
      (\<forall>vm \<in> set (app_mirrors a). unat (fst vm) < CHILD_FRAME_ID_NAMESPACE)"
    and "forest fl v tree (concat (map (app_roots e v) (app_values e (c_apps s))))"
    and "\<forall>wl p. em_surface (c_emacs s) = Some wl \<longrightarrow> distinct (map sn_surface (collect_surface_tree fl v wl p))"
  shows "distinct (map el_id (copies (frame_extras e fl v scale at o' s)))"
proof -
  let ?cursor = "cursor_elements fl v scale at (ensure_alive e (c_cursor s))"
  let ?child = "build_child_frame_elements e fl v scale s"
  let ?mirror = "build_mirror_elements e fl v scale (active_id (c_ws s)) (c_apps s)"
  have mirrors: "distinct (ids ?mirror)" "\<forall>x \<in> set (ids ?mirror). \<exists>n < CHILD_FRAME_ID_NAMESPACE. snd x = Some n"
    using mirror_ids(1) [OF assms(1,2) _ assms(4), of scale "active_id (c_ws s)"]
      mirror_ids(2) [OF assms(1,2) _ assms(4), of _ scale "active_id (c_ws s)"] assms(3) by blast+
  have child: "distinct (ids ?child)" "\<forall>x \<in> set (ids ?child). \<exists>n. snd x = Some (CHILD_FRAME_ID_NAMESPACE + n)"
    using child_ids [OF assms(5)] by blast+
  have "set (ids ?cursor) \<inter> (set (ids ?child) \<union> set (ids ?mirror)) = {}"
    using cursor_ids(2) mirrors(2) child(2) by fastforce
  moreover have "set (ids ?child) \<inter> set (ids ?mirror) = {}" using mirrors(2) child(2) by fastforce
  moreover have "map el_id (copies (frame_extras e fl v scale at o' s)) = ids ?cursor @ ids ?child @ ids ?mirror"
    by (simp add: frame_extras_def ids_def)
  ultimately show ?thesis using cursor_ids(1) mirrors(1) child(1) by auto
qed

section \<open>Mirrors\<close>

text \<open>The ratio at which an application is shown in a mirror.\<close>

definition shown_ratio :: "floats \<Rightarrow> rect \<Rightarrow> mirror_view \<Rightarrow> f64 option" where
  "shown_ratio fl geo m = aspect_fit_ratio fl (p_of fl (size_w geo, size_h geo))
     (p_of fl (size_w (mv_geometry m), size_h (mv_geometry m)))"

lemma mirror_drawnI:
  assumes "a \<in> set (app_values e am)" and "app_geometry a = Some geo"
    and "(view, m) \<in> set (entries (visit e) (app_mirrors a))" and "app_mirrors a \<noteq> []" and "mv_workspace m = active"
    and "shown_ratio fl geo m = Some ratio" and "l \<in> set (surface_layers e v a)" and "import_ok v (fst l)"
    and "sn \<in> set (collect_surface_tree fl v (fst l) (snd l))"
  shows "mirror_element fl scale view (mv_geometry m) ratio sn \<in> set (build_mirror_elements e fl v scale active am)"
proof -
  let ?sns = "collect_surface_tree fl v (fst l) (snd l)" and ?sz = "p_of fl (size_w geo, size_h geo)"
  let ?el = "mirror_element fl scale view (mv_geometry m) ratio sn"
  have "?el \<in> set (mirror_copies fl scale active ?sz ?sns (view, m))"
    using assms by (simp add: mirror_copies_def shown_ratio_def)
  then have "?el \<in> set (layer_mirrors fl v scale active ?sz (entries (visit e) (app_mirrors a)) l)"
    using assms(3,8,9) by (auto simp: layer_mirrors_def Let_def intro!: bexI [of _ "(view, m)"])
  then have "?el \<in> set (app_mirror_elements e fl v scale active a)"
    using assms(2,4,7) by (auto simp: app_mirror_elements_def)
  then show ?thesis using assms(1) by (auto simp: build_mirror_elements_def)
qed

lemma mirror_drawnE:
  assumes "el \<in> set (build_mirror_elements e fl v scale active am)"
  obtains a geo view m ratio l sn where "a \<in> set (app_values e am)" "app_geometry a = Some geo"
    "(view, m) \<in> set (entries (visit e) (app_mirrors a))" "app_mirrors a \<noteq> []" "mv_workspace m = active"
    "shown_ratio fl geo m = Some ratio" "l \<in> set (surface_layers e v a)" "import_ok v (fst l)"
    "sn \<in> set (collect_surface_tree fl v (fst l) (snd l))" "el = mirror_element fl scale view (mv_geometry m) ratio sn"
proof -
  obtain a where a: "a \<in> set (app_values e am)" "el \<in> set (app_mirror_elements e fl v scale active a)"
    using assms by (auto simp: build_mirror_elements_def)
  then obtain geo l where l: "app_mirrors a \<noteq> []" "app_geometry a = Some geo" "l \<in> set (surface_layers e v a)"
      "el \<in> set (layer_mirrors fl v scale active (p_of fl (size_w geo, size_h geo)) (entries (visit e) (app_mirrors a)) l)"
    by (auto simp: app_mirror_elements_def split: option.splits if_splits)
  then obtain vm where vm: "import_ok v (fst l)" "vm \<in> set (entries (visit e) (app_mirrors a))"
      "el \<in> set (mirror_copies fl scale active (p_of fl (size_w geo, size_h geo))
         (collect_surface_tree fl v (fst l) (snd l)) vm)"
    by (auto simp: layer_mirrors_def Let_def split: if_splits)
  obtain view m where "vm = (view, m)" by (cases vm)
  with vm(3) obtain ratio sn where "mv_workspace m = active" "shown_ratio fl geo m = Some ratio"
      "sn \<in> set (collect_surface_tree fl v (fst l) (snd l))" "el = mirror_element fl scale view (mv_geometry m) ratio sn"
    by (auto simp: mirror_copies_def shown_ratio_def split: option.splits if_splits)
  with vm a l \<open>vm = (view, m)\<close> show ?thesis by (intro that) auto
qed

text \<open>A mirror \<open>m\<close>, numbered \<open>view\<close>, of the application \<open>a\<close>, shown in the active workspace at \<open>ratio\<close>.\<close>

definition mirrored ::
  "'sp env \<Rightarrow> floats \<Rightarrow> u64 \<Rightarrow> app_manager \<Rightarrow> app_window \<Rightarrow> rect \<Rightarrow> u64 \<Rightarrow> mirror_view \<Rightarrow> f64 \<Rightarrow> bool" where
  "mirrored e fl active am a geo view m ratio \<longleftrightarrow>
     a \<in> set (app_values e am) \<and> app_geometry a = Some geo \<and> (view, m) \<in> set (app_mirrors a) \<and>
     mv_workspace m = active \<and> shown_ratio fl geo m = Some ratio"

lemma mirrored_copies:
  assumes "iteration_order (visit e)" and "distinct (map fst (app_mirrors a))"
    and "mirrored e fl active am a geo view m ratio"
    and "l \<in> set (surface_layers e v a)" and "import_ok v (fst l)" and "sn \<in> set (collect_surface_tree fl v (fst l) (snd l))"
  shows "mirror_element fl scale view (mv_geometry m) ratio sn \<in> set (build_mirror_elements e fl v scale active am)"
  using assms(3-6) set_entries [OF assms(1,2)] by (intro mirror_drawnI [of a]) (auto simp: mirrored_def)

text \<open>The picture of an application of the size of \<open>geo\<close>: that size scaled by the ratio, from the mirror's corner.\<close>

definition in_picture :: "floats \<Rightarrow> rect \<Rightarrow> mirror_view \<Rightarrow> f64 \<Rightarrow> fpoint \<Rightarrow> bool" where
  "in_picture fl geo m ratio pos \<longleftrightarrow>
     (let x = f_sub fl (fst pos) (f_of fl (loc_x (mv_geometry m)));
          y = f_sub fl (snd pos) (f_of fl (loc_y (mv_geometry m))) in
      \<not> f_lt fl x 0 \<and> \<not> f_le fl (f_mul fl (f_of fl (size_w geo)) ratio) x \<and>
      \<not> f_lt fl y 0 \<and> \<not> f_le fl (f_mul fl (f_of fl (size_h geo)) ratio) y)"

lemma hit_in_picture:
  "mirror_hit_test fl pos geo (mv_geometry m) = Some mapped \<longleftrightarrow>
     (\<exists>ratio. shown_ratio fl geo m = Some ratio \<and> in_picture fl geo m ratio pos \<and>
       mapped = p_add fl (p_of fl (rect_loc geo)) (downscale fl (p_sub fl pos (p_of fl (rect_loc (mv_geometry m)))) ratio))"
  by (cases "shown_ratio fl geo m")
    (auto simp: mirror_hit_test_def shown_ratio_def in_picture_def p_sub_def p_of_def Let_def)


section \<open>Child frames\<close>

text \<open>
  The copies for one child frame lie within it, each shows the part of its surface that is there, one to
  one when the surface is drawn at its own size, whatever the sum of sizes is in floating point: with
  \<open>x / x = 1\<close> and \<open>x * 1 = x\<close> there, the source has the size of the copy.
\<close>

definition one_to_one :: "floats \<Rightarrow> frect \<Rightarrow> frect \<Rightarrow> bool" where
  "one_to_one fl dst src \<longleftrightarrow> snd src = snd dst \<and>
     (\<exists>one. f_div fl (fst (snd dst)) (fst (snd dst)) = one \<and> f_div fl (snd (snd dst)) (snd (snd dst)) = one \<and>
        (\<forall>x. f_mul fl x one = x))"

lemma crop_one_to_one:
  assumes "crop_view fl v dst src r = Some (clip, part)" and "one_to_one fl dst src"
  shows "intersection v dst r = Some clip" and "snd part = snd clip"
    and "fst part = p_add fl (fst src) (p_sub fl (fst clip) (fst dst))"
    and "0 < sint (fst (p_round fl (snd clip)))" and "0 < sint (snd (p_round fl (snd clip)))"
  using assms by (auto simp: crop_view_def one_to_one_def Let_def p_add_def p_sub_def split: option.splits if_splits)

text \<open>
  The order of the copies. A child frame takes the snapshots of the tree of Emacs in reverse, a mirror
  takes those of a layer as they are; smithay's walk is from top to bottom and the first element of a
  frame is the topmost. So a mirror keeps the stacking of its surfaces, and the copies for a child frame
  turn it round: a subsurface of Emacs is covered by the copy of its parent wherever both reach.
\<close>

theorem stacking_of_copies:
  assumes "mv_workspace m = active" and "aspect_fit_ratio fl sz
      (p_of fl (size_w (mv_geometry m), size_h (mv_geometry m))) = Some ratio"
    and "em_surface (c_emacs s) = Some wl" and "emacs_render_origin e s = Some (w, origin)"
    and "child_frame_rects (c_emacs s) = [r]" and "import_ok v wl"
    and "\<forall>sn \<in> set (collect_surface_tree fl v wl origin). child_copy fl v scale 0 r sn \<noteq> None"
  shows "map (fst \<circ> el_id) (mirror_copies fl scale active sz (collect_surface_tree fl v root p) (view, m)) =
      map sn_surface (collect_surface_tree fl v root p) \<and>
    map (fst \<circ> el_id) (build_child_frame_elements e fl v scale s) =
      rev (map sn_surface (collect_surface_tree fl v wl origin))"
proof -
  have "map (fst \<circ> el_id) (List.map_filter (child_copy fl v scale 0 r) sns) = map sn_surface sns"
    if "\<forall>sn \<in> set sns. child_copy fl v scale 0 r sn \<noteq> None" for sns
    using that by (induction sns) (auto simp: List.map_filter_simps child_copy_id)
  from this [of "rev (collect_surface_tree fl v wl origin)"]
  have "map (fst \<circ> el_id) (build_child_frame_elements e fl v scale s) =
      rev (map sn_surface (collect_surface_tree fl v wl origin))"
    using assms(3-7) by (simp add: build_child_frame_elements_def Let_def rev_map)
  then show ?thesis using assms(1,2) by (simp add: mirror_copies_def comp_def)
qed

section \<open>A concrete frame\<close>

text \<open>
  Every toplevel has one subsurface, numbered 2000 above it and drawn over it; Emacs shows surface 3 at
  the origin, with one child frame; the application of surface 1 is mirrored as view 5.
\<close>

definition demo_views :: "unit views" where
  "demo_views = \<lparr>popups_of = (\<lambda>s. []),
     surface_state = (\<lambda>s. Some \<lparr>rs_view = Some \<lparr>view_offset = (0, 0), view_src = ((0, 0), (640, 480)), view_dst = (640, 480)\<rparr>,
        rs_texture = Some s, rs_scale = 1, rs_transform = 0\<rparr>),
     import_ok = (\<lambda>s. True),
     walk_down = (\<lambda>f g r p. List.map_filter (\<lambda>s. g s p) [r + 2000, r]),
     intersection = (\<lambda>a b. Some b), hotspot = (\<lambda>s. (0, 0)), on_layer = (\<lambda>o' l. []), layer_at = (\<lambda>o' s. None),
     tree_elements = (\<lambda>s p scale. [])\<rparr>"

definition demo_mirror :: mirror_view where
  "demo_mirror = \<lparr>mv_geometry = \<lparr>loc_x = 100, loc_y = 50, size_w = 640, size_h = 480\<rparr>, mv_workspace = 1\<rparr>"

definition demo_mirrored :: app_manager where
  "demo_mirrored = \<lparr>am_windows = [(7, \<lparr>app_id = 7, app_win = 1, app_workspace = 1,
     app_geometry = Some \<lparr>loc_x = 0, loc_y = 24, size_w = 640, size_h = 480\<rparr>, app_pending = None,
     app_pending_since = None, app_visible = True, app_mirrors = [(5, demo_mirror)]\<rparr>)], am_next_id = 8\<rparr>"

definition demo_child :: rect where
  "demo_child = \<lparr>loc_x = 10, loc_y = 20, size_w = 30, size_h = 40\<rparr>"

definition demo_frame :: "demo_space emskin" where
  "demo_frame = (emskin_new demo_env True ipc_bind)\<lparr>c_apps := demo_mirrored,
     c_emacs := (emacs_new True)\<lparr>em_surface := Some 3, child_frame_rects := [demo_child]\<rparr>,
     c_ws := (c_ws (emskin_new demo_env True ipc_bind))\<lparr>active_space := ([(3, (0, 0))], [7])\<rparr>\<rparr>"

lemma demo_tree:
  "map sn_surface (collect_surface_tree demo_floats demo_views r p) = [r + 2000, r]"
  "sn \<in> set (collect_surface_tree demo_floats demo_views r p) \<Longrightarrow> sn_dst sn = (640, 480)"
  by (auto simp: collect_surface_tree_def demo_views_def take_snapshot_def List.map_filter_simps)

lemma demo_frame_parts:
  "c_apps demo_frame = demo_mirrored" "em_surface (c_emacs demo_frame) = Some 3"
  "child_frame_rects (c_emacs demo_frame) = [demo_child]" "emacs_render_origin demo_env demo_frame = Some (3, (0, 0))"
  by (simp_all add: demo_frame_def emacs_render_origin_def emacs_window_def demo_env_def)

lemma demo_values: "app_values demo_env demo_mirrored = [snd (hd (am_windows demo_mirrored))]"
  by (simp add: app_values_def demo_mirrored_def entries_def demo_env_def)

lemma demo_roots: "app_roots demo_env demo_views (snd (hd (am_windows demo_mirrored))) = [1]"
  by (simp add: app_roots_def surface_layers_def demo_mirrored_def demo_env_def demo_views_def)

lemma demo_forest: "forest demo_floats demo_views (\<lambda>r. {r + 2000, r}) [1]"
proof -
  have "sn_surface ` set (collect_surface_tree demo_floats demo_views 1 p) = {2001, 1}" for p
    using arg_cong [OF demo_tree(1) [of 1 p], of set] by simp
  then show ?thesis by (simp add: forest_def demo_tree(1))
qed

lemma demo_keys:
  "apps_wf demo_mirrored" "app_mirrors (snd (hd (am_windows demo_mirrored))) = [(5, demo_mirror)]"
  by (simp_all add: apps_wf_def demo_mirrored_def)

theorem render_ids_distinct_witness:
  "distinct (map el_id (copies (frame_extras demo_env demo_floats demo_views 1 None 7 demo_frame)))"
proof (rule render_ids_distinct [where tree = "\<lambda>r. {r + 2000, r}"])
  show "iteration_order (visit demo_env)" using demo_order_laws by (simp add: order_laws_def)
qed (simp_all add: demo_frame_parts demo_values demo_roots demo_tree demo_keys demo_forest CHILD_FRAME_ID_NAMESPACE_def
    del: One_nat_def)


theorem stacking_of_copies_witness:
  "map (fst \<circ> el_id) (build_child_frame_elements demo_env demo_floats demo_views 1 demo_frame) = [3, 2003] \<and>
   map (fst \<circ> el_id) (mirror_copies demo_floats 1 1 (640, 480) (collect_surface_tree demo_floats demo_views 3 (0, 0))
     (5, demo_mirror)) = [2003, 3]"
proof -
  have ratio: "aspect_fit_ratio demo_floats (640, 480)
      (p_of demo_floats (size_w (mv_geometry demo_mirror), size_h (mv_geometry demo_mirror))) = Some 1"
    by (simp add: aspect_fit_ratio_def demo_floats_def demo_mirror_def p_of_def)
  have flags: "mv_workspace demo_mirror = 1" "import_ok demo_views 3" by (simp_all add: demo_mirror_def demo_views_def)
  have "child_copy demo_floats demo_views 1 0 demo_child sn \<noteq> None" for sn
    by (simp add: child_copy_def crop_view_def demo_views_def demo_child_def p_round_def p_of_def demo_floats_def Let_def)
  then show ?thesis
    using stacking_of_copies [OF _ ratio demo_frame_parts(2,4,3), of 1 demo_views 1 3 "(0, 0)" 5] flags
    by (simp add: demo_tree)
qed

end
