(* ===== verification/Splash.thy ===== *)
theory Splash
  imports Blending Rulers
begin

text \<open>
  The splash screen, \<open>crates/effect-plugins/src/splash.rs\<close>: shaping of the letters when the font size
  changes, the animation of one frame (\<open>build_elements\<close>) and its end.

  The arithmetic of \<open>f32\<close> is a parameter (\<open>splash_floats\<close>; a value is its bit pattern), as are shaping
  (\<open>shape\<close>: the size of a text rounded up, and the callbacks that draw it) and \<open>resize\<close>. \<open>None\<close> is a
  panic. The clock is read once per frame here.
\<close>

section \<open>Parameters and constants\<close>


record splash_floats =
  q_add :: "f32 \<Rightarrow> f32 \<Rightarrow> f32"
  q_sub :: "f32 \<Rightarrow> f32 \<Rightarrow> f32"
  q_mul :: "f32 \<Rightarrow> f32 \<Rightarrow> f32"
  q_div :: "f32 \<Rightarrow> f32 \<Rightarrow> f32"
  q_rem :: "f32 \<Rightarrow> f32 \<Rightarrow> f32"
  q_lt :: "f32 \<Rightarrow> f32 \<Rightarrow> bool"
  q_le :: "f32 \<Rightarrow> f32 \<Rightarrow> bool"
  q_min :: "f32 \<Rightarrow> f32 \<Rightarrow> f32"
  q_powi :: "f32 \<Rightarrow> nat \<Rightarrow> f32"
  q_sin :: "f32 \<Rightarrow> f32"
  q_int :: "int \<Rightarrow> f32"
  q_round :: "f32 \<Rightarrow> int"
  q_trunc :: "f32 \<Rightarrow> int"
  q_secs :: "nat \<Rightarrow> f32"

definition Q1 :: f32 where "Q1 = 0x3F800000"
definition Q2 :: f32 where "Q2 = 0x40000000"
definition STAGGER :: f32 where "STAGGER = 0x3DF5C28F"
definition LETTER_DUR :: f32 where "LETTER_DUR = 0x3EB33333"
definition SLIDE_PX :: f32 where "SLIDE_PX = 0x42480000"
definition LINE_DELAY :: f32 where "LINE_DELAY = 0x3F333333"
definition LINE_DUR :: f32 where "LINE_DUR = 0x3ECCCCCD"
definition SUB_DELAY :: f32 where "SUB_DELAY = 0x3F59999A"
definition SUB_DUR :: f32 where "SUB_DUR = 0x3E99999A"
definition BREATHE_PERIOD :: f32 where "BREATHE_PERIOD = 0x40200000"
definition BREATHE_MIN :: f32 where "BREATHE_MIN = 0x3F6147AE"
definition FADE_OUT :: f32 where "FADE_OUT = 0x3ECCCCCD"
definition BAR_H :: int where "BAR_H = 3"
definition BAR_RATIO :: f32 where "BAR_RATIO = 0x3E99999A"
definition BAR_CYCLE :: f32 where "BAR_CYCLE = 0x3FE66666"
definition FONT_RATIO :: f32 where "FONT_RATIO = 0x3D8F5C29"
definition FONT_MIN :: f32 where "FONT_MIN = 0x42400000"
definition FONT_MAX :: f32 where "FONT_MAX = 0x43000000"
definition SUB_SCALE :: f32 where "SUB_SCALE = 0x3E6147AE"
definition LINE_H :: int where "LINE_H = 2"
definition GAP_WORD_LINE :: int where "GAP_WORD_LINE = 8"
definition GAP_LINE_SUB :: int where "GAP_LINE_SUB = 6"
definition GAP_SUB_BAR :: int where "GAP_SUB_BAR = 12"
definition WORD :: string where "WORD = ''emskin''"
definition SUBTITLE :: string where "SUBTITLE = ''EMACS+SKIN''"

definition ALL_LANDED :: "splash_floats \<Rightarrow> f32" where
  "ALL_LANDED fl = q_add fl (q_mul fl (q_int fl (int (length WORD))) STAGGER) LETTER_DUR"

definition letter_colors :: "colour list" where
  "letter_colors = [(0xdc, 0xe0, 0xf5, 0xff), (0xcd, 0xcd, 0xf2, 0xff), (0xf7, 0xa6, 0xcb, 0xff),
     (0xfa, 0xb4, 0x89, 0xff), (0xd5, 0xe2, 0x94, 0xff), (0xa1, 0xe3, 0xa6, 0xff)]"

definition SUBTITLE_FG :: colour where "SUBTITLE_FG = (0xc8, 0xad, 0xa6, 0xff)"

section \<open>State\<close>

record letter_slot =
  sl_buf :: bytes
  sl_commit :: nat
  sl_w :: int
  sl_h :: int
  sl_color :: colour
  sl_delay :: f32

record splash =
  sp_start :: "instant option"
  sp_dismiss :: "instant option"
  sp_done :: bool
  text_disabled :: bool
  sp_letters :: "letter_slot list"
  sp_subtitle :: letter_slot
  cached_font_size :: int
  total_word_w :: int
  letter_h :: int
  bg_commit :: nat
  line_commit :: nat
  pbar_commit :: nat

definition slot_new :: "colour \<Rightarrow> f32 \<Rightarrow> letter_slot" where
  "slot_new c delay = \<lparr>sl_buf = replicate 4 0, sl_commit = 0, sl_w = 0, sl_h = 0, sl_color = c, sl_delay = delay\<rparr>"

definition splash_new :: "splash_floats \<Rightarrow> bool \<Rightarrow> splash" where
  "splash_new fl no_fonts =
     \<lparr>sp_start = None, sp_dismiss = None, sp_done = False, text_disabled = no_fonts,
      sp_letters = map (\<lambda>(i, c). slot_new c (q_mul fl (q_int fl (int i)) STAGGER)) (enumerate 0 letter_colors),
      sp_subtitle = slot_new SUBTITLE_FG 0, cached_font_size = 0, total_word_w = 0, letter_h = 0,
      bg_commit = 0, line_commit = 0, pbar_commit = 0\<rparr>"

definition dismiss :: "instant \<Rightarrow> splash \<Rightarrow> splash" where
  "dismiss now sp = (if sp_dismiss sp = None then sp\<lparr>sp_dismiss := Some now\<rparr> else sp)"

section \<open>Letters\<close>

record shaper =
  shape :: "colour \<Rightarrow> string \<Rightarrow> f32 \<Rightarrow> f32 \<Rightarrow> bool \<Rightarrow> (int \<times> int) \<times> ink list"
  sh_resize :: resizer

definition render_slot :: "shaper \<Rightarrow> string \<Rightarrow> f32 \<Rightarrow> f32 \<Rightarrow> bool \<Rightarrow> letter_slot \<Rightarrow> letter_slot option" where
  "render_slot sh str font_size line_height bold sl =
     (case shape sh (sl_color sl) str font_size line_height bold of ((tw, th), inks) \<Rightarrow>
        let bw = max (wrap (tw + wrap (PAD * 2))) 1; bh = max (wrap (th + wrap (PAD * 2))) 1 in
        map_option (\<lambda>buf. sl\<lparr>sl_buf := buf, sl_commit := sl_commit sl + 1, sl_w := bw, sl_h := bh\<rparr>)
          (paint_buffer (sh_resize sh) (bw, bh) (render_text_buf tw th inks) (sl_buf sl)))"

text \<open>The loop over the letters: the new slots, the total width and the greatest height.\<close>

fun render_letters ::
  "shaper \<Rightarrow> f32 \<Rightarrow> f32 \<Rightarrow> (char \<times> letter_slot) list \<Rightarrow> int \<Rightarrow> int \<Rightarrow> (letter_slot list \<times> int \<times> int) option" where
  "render_letters sh size' lh [] tw mh = Some ([], tw, mh)"
| "render_letters sh size' lh ((ch, sl) # rest) tw mh =
     Option.bind (render_slot sh [ch] size' lh True sl) (\<lambda>sl'.
       map_option (\<lambda>(sls, w, h). (sl' # sls, w, h))
         (render_letters sh size' lh rest (wrap (tw + sl_w sl')) (max mh (sl_h sl'))))"

text \<open>\<open>rebuild(font_size)\<close>; the factors are 1.1 and 1.2.\<close>

definition rebuild :: "splash_floats \<Rightarrow> shaper \<Rightarrow> int \<Rightarrow> splash \<Rightarrow> splash option" where
  "rebuild fl sh font_size sp =
     (let size' = q_int fl font_size; cached = q_round fl size' in
      if text_disabled sp then Some (sp\<lparr>cached_font_size := cached\<rparr>)
      else
        Option.bind (render_letters sh size' (q_mul fl size' 0x3F8CCCCD) (zip WORD (sp_letters sp)) 0 0) (\<lambda>(sls, tw, mh).
          let sub_fs = q_mul fl size' SUB_SCALE in
          map_option (\<lambda>sub. sp\<lparr>sp_letters := sls, total_word_w := tw, letter_h := mh, sp_subtitle := sub,
              cached_font_size := cached\<rparr>)
            (render_slot sh SUBTITLE sub_fs (q_mul fl sub_fs 0x3F99999A) False (sp_subtitle sp))))"

section \<open>Easing\<close>

definition ease_out_cubic :: "splash_floats \<Rightarrow> f32 \<Rightarrow> f32" where
  "ease_out_cubic fl t = q_sub fl Q1 (q_powi fl (q_sub fl Q1 t) 3)"

definition ease_in_cubic :: "splash_floats \<Rightarrow> f32 \<Rightarrow> f32" where
  "ease_in_cubic fl t = q_powi fl t 3"

definition ease_out_back :: "splash_floats \<Rightarrow> f32 \<Rightarrow> f32" where
  "ease_out_back fl t =
     (let c1 = 0x3FD9CD60; c3 = q_add fl c1 Q1 in
      q_add fl (q_add fl Q1 (q_mul fl c3 (q_powi fl (q_sub fl t Q1) 3))) (q_mul fl c1 (q_powi fl (q_sub fl t Q1) 2)))"

definition q_clamp :: "splash_floats \<Rightarrow> f32 \<Rightarrow> f32 \<Rightarrow> f32 \<Rightarrow> f32" where
  "q_clamp fl lo hi x = (if q_lt fl x lo then lo else if q_lt fl hi x then hi else x)"

section \<open>A frame\<close>

datatype splash_solid =
    Backdrop irect f32
  | SweepLine "int \<times> int" "int \<times> int" f32
  | ProgressBar "int \<times> int" "int \<times> int" f32

datatype splash_label = Letter nat f32 "int \<times> int" | Subtitle f32 "int \<times> int"

definition half :: "int \<Rightarrow> int" where
  "half n = n sdiv 2"

definition font_size_of :: "splash_floats \<Rightarrow> int \<Rightarrow> int" where
  "font_size_of fl ch = q_round fl (q_clamp fl FONT_MIN FONT_MAX (q_mul fl (q_int fl ch) FONT_RATIO))"

text \<open>The fade-out: \<open>None\<close> once it is over.\<close>

definition global_alpha :: "splash_floats \<Rightarrow> instant \<Rightarrow> splash \<Rightarrow> f32 option" where
  "global_alpha fl now sp =
     (case sp_dismiss sp of
        None \<Rightarrow> Some Q1
      | Some d \<Rightarrow>
          (let t = q_div fl (q_secs fl (now - d)) FADE_OUT in
           if q_le fl Q1 t then None else Some (q_sub fl Q1 (ease_in_cubic fl t))))"

definition breathe :: "splash_floats \<Rightarrow> f32 \<Rightarrow> splash \<Rightarrow> f32" where
  "breathe fl since sp =
     (if sp_dismiss sp = None \<and> q_lt fl (ALL_LANDED fl) since
      then
        (let t = q_div fl (q_sub fl since (ALL_LANDED fl)) BREATHE_PERIOD;
             w = q_div fl (q_add fl (q_sin fl (q_mul fl t 0x40C90FDB)) Q1) Q2 in
         q_add fl BREATHE_MIN (q_mul fl w (q_sub fl Q1 BREATHE_MIN)))
      else Q1)"

fun place_letters :: "splash_floats \<Rightarrow> f32 \<Rightarrow> f32 \<Rightarrow> f32 \<Rightarrow> int \<Rightarrow> int \<Rightarrow> int \<Rightarrow> nat \<Rightarrow> letter_slot list \<Rightarrow> splash_label list" where
  "place_letters fl since g_alpha br letter_h' word_y cx i [] = []"
| "place_letters fl since g_alpha br letter_h' word_y cx i (sl # sls) =
     (let rt = q_div fl (q_sub fl since (sl_delay sl)) LETTER_DUR;
          t = q_clamp fl 0 Q1 rt;
          alpha = (if q_lt fl rt 0 then 0 else q_mul fl (q_mul fl (ease_out_cubic fl t) g_alpha) br);
          y_off = (if q_lt fl rt 0 then q_trunc fl SLIDE_PX
                   else q_round fl (q_mul fl SLIDE_PX (q_sub fl Q1 (ease_out_back fl t))));
          vy = half (wrap (letter_h' - sl_h sl)) in
      (if q_lt fl 0x3A83126F alpha then [Letter i alpha (cx, wrap (wrap (word_y + vy) + y_off))] else []) @
      place_letters fl since g_alpha br letter_h' word_y (wrap (cx + sl_w sl)) (i + 1) sls)"

definition line_progress :: "splash_floats \<Rightarrow> f32 \<Rightarrow> f32" where
  "line_progress fl since = q_clamp fl 0 Q1 (q_div fl (q_sub fl since LINE_DELAY) LINE_DUR)"

definition line_shown :: "splash_floats \<Rightarrow> f32 \<Rightarrow> splash \<Rightarrow> bool" where
  "line_shown fl since sp \<longleftrightarrow> sp_dismiss sp = None \<and> q_lt fl 0 (line_progress fl since)"

definition sweep_line :: "splash_floats \<Rightarrow> f32 \<Rightarrow> f32 \<Rightarrow> int \<times> int \<Rightarrow> splash \<Rightarrow> splash_solid list" where
  "sweep_line fl since alpha at sp =
     (if line_shown fl since sp
      then [SweepLine at (max (q_round fl (q_mul fl (q_int fl (total_word_w sp))
          (ease_out_cubic fl (line_progress fl since)))) 1, LINE_H) alpha]
      else [])"

definition subtitle_alpha :: "splash_floats \<Rightarrow> f32 \<Rightarrow> f32 \<Rightarrow> f32 \<Rightarrow> splash \<Rightarrow> f32" where
  "subtitle_alpha fl since g_alpha br sp =
     (let st = q_div fl (q_sub fl since SUB_DELAY) SUB_DUR in
      if sp_dismiss sp \<noteq> None then q_mul fl g_alpha br
      else if q_lt fl st 0 then 0 else q_mul fl (q_mul fl (ease_out_cubic fl (q_min fl st Q1)) g_alpha) br)"

definition bar_shown :: "splash_floats \<Rightarrow> f32 \<Rightarrow> splash \<Rightarrow> bool" where
  "bar_shown fl since sp \<longleftrightarrow> sp_dismiss sp = None \<and> q_lt fl (ALL_LANDED fl) since"

definition progress_bar :: "splash_floats \<Rightarrow> f32 \<Rightarrow> f32 \<Rightarrow> int \<times> int \<Rightarrow> splash \<Rightarrow> splash_solid list" where
  "progress_bar fl since alpha at sp =
     (if bar_shown fl since sp
      then
        (let bw = q_round fl (q_mul fl (q_int fl (total_word_w sp)) BAR_RATIO);
             travel = max (wrap (total_word_w sp - bw)) 0;
             p = q_powi fl (q_sin fl (q_mul fl (q_div fl (q_rem fl since BAR_CYCLE) BAR_CYCLE) 0x40490FDB)) 2 in
         [ProgressBar (wrap (fst at + q_trunc fl (q_mul fl (q_int fl travel) p)), snd at) (max bw 1, BAR_H) alpha])
      else [])"

text \<open>The vertical layout, centred: the tops of word, line, subtitle and bar; the left edge of the word.\<close>

definition word_y :: "irect \<Rightarrow> splash \<Rightarrow> int" where
  "word_y canvas sp =
     (let total_h = wrap (wrap (wrap (wrap (wrap (wrap (letter_h sp + GAP_WORD_LINE) + LINE_H) + GAP_LINE_SUB) +
          sl_h (sp_subtitle sp)) + GAP_SUB_BAR) + BAR_H) in
      case canvas of (cx, cy, cw, ch) \<Rightarrow> wrap (cy + half (wrap (ch - total_h))))"

definition line_y :: "irect \<Rightarrow> splash \<Rightarrow> int" where
  "line_y canvas sp = wrap (wrap (word_y canvas sp + letter_h sp) + GAP_WORD_LINE)"

definition sub_y :: "irect \<Rightarrow> splash \<Rightarrow> int" where
  "sub_y canvas sp = wrap (wrap (line_y canvas sp + LINE_H) + GAP_LINE_SUB)"

definition bar_y :: "irect \<Rightarrow> splash \<Rightarrow> int" where
  "bar_y canvas sp = wrap (wrap (sub_y canvas sp + sl_h (sp_subtitle sp)) + GAP_SUB_BAR)"

definition centred_x :: "irect \<Rightarrow> int \<Rightarrow> int" where
  "centred_x canvas w = (case canvas of (cx, cy, cw, ch) \<Rightarrow> wrap (cx + half (wrap (cw - w))))"

definition frame_solids :: "splash_floats \<Rightarrow> f32 \<Rightarrow> f32 \<Rightarrow> f32 \<Rightarrow> irect \<Rightarrow> splash \<Rightarrow> splash_solid list" where
  "frame_solids fl since g_alpha br canvas sp =
     [Backdrop canvas (q_mul fl Q1 g_alpha)] @
     sweep_line fl since (q_mul fl (q_mul fl 0x3F4CCCCD g_alpha) br) (centred_x canvas (total_word_w sp), line_y canvas sp) sp @
     progress_bar fl since (q_mul fl (q_mul fl 0x3F19999A g_alpha) br) (centred_x canvas (total_word_w sp), bar_y canvas sp) sp"

definition frame_labels :: "splash_floats \<Rightarrow> f32 \<Rightarrow> f32 \<Rightarrow> f32 \<Rightarrow> irect \<Rightarrow> splash \<Rightarrow> splash_label list" where
  "frame_labels fl since g_alpha br canvas sp =
     (let sa = subtitle_alpha fl since g_alpha br sp in
      place_letters fl since g_alpha br (letter_h sp) (word_y canvas sp) (centred_x canvas (total_word_w sp)) 0 (sp_letters sp) @
      (if q_lt fl 0x3A83126F sa then [Subtitle sa (centred_x canvas (sl_w (sp_subtitle sp)), sub_y canvas sp)] else []))"

text \<open>\<open>build_elements\<close> once the letters are up to date.\<close>

definition splash_frame :: "splash_floats \<Rightarrow> instant \<Rightarrow> irect \<Rightarrow> splash \<Rightarrow> (splash_solid list \<times> splash_label list) \<times> splash" where
  "splash_frame fl now canvas sp0 =
     (let start = (case sp_start sp0 of Some s \<Rightarrow> s | None \<Rightarrow> now); since = q_secs fl (now - start);
          sp = sp0\<lparr>sp_start := Some start\<rparr> in
      case global_alpha fl now sp of
        None \<Rightarrow> (([], []), sp\<lparr>sp_done := True\<rparr>)
      | Some g_alpha \<Rightarrow>
          (let br = breathe fl since sp in
           ((frame_solids fl since g_alpha br canvas sp, frame_labels fl since g_alpha br canvas sp),
            sp\<lparr>bg_commit := bg_commit sp + (if q_lt fl g_alpha Q1 then 1 else 0),
               line_commit := line_commit sp + (if line_shown fl since sp then 1 else 0),
               pbar_commit := pbar_commit sp + (if bar_shown fl since sp then 1 else 0)\<rparr>)))"

definition splash_paint ::
  "splash_floats \<Rightarrow> shaper \<Rightarrow> instant \<Rightarrow> irect \<Rightarrow> splash \<Rightarrow> ((splash_solid list \<times> splash_label list) \<times> splash) option" where
  "splash_paint fl sh now canvas sp =
     (if sp_done sp then Some (([], []), sp)
      else
        (let size' = font_size_of fl (snd (snd (snd canvas))) in
         map_option (splash_frame fl now canvas)
           (if size' \<noteq> cached_font_size sp then rebuild fl sh size' sp else Some sp)))"

definition splash_active :: "splash \<Rightarrow> bool" where "splash_active sp \<longleftrightarrow> \<not> sp_done sp"
definition splash_post_paint :: "splash \<Rightarrow> bool" where "splash_post_paint sp \<longleftrightarrow> \<not> sp_done sp"
definition splash_should_remove :: "splash \<Rightarrow> bool" where "splash_should_remove sp \<longleftrightarrow> sp_done sp"

end
