(* ===== verification/Splash_Props.thy ===== *)
theory Splash_Props
  imports Splash Blending_Props Rulers_Props
begin

text \<open>
  The splash screen is drawn without a panic until its fade-out is over, and is gone from then on.
\<close>

declare split_paired_All [simp del] split_paired_Ex [simp del]

section \<open>Shaping\<close>

text \<open>What the library gives: texts of up to 4096 pixels a side, and buffers of the size asked for.\<close>

definition shaper_ok :: "shaper \<Rightarrow> bool" where
  "shaper_ok sh \<longleftrightarrow> resizes (sh_resize sh) \<and>
     (\<forall>c str size' lh bold tw th inks. shape sh c str size' lh bold = ((tw, th), inks) \<longrightarrow>
        0 \<le> tw \<and> tw \<le> 2 ^ 12 \<and> 0 \<le> th \<and> th \<le> 2 ^ 12 \<and> (\<forall>k \<in> set inks. ink_small k))"

lemma render_slot_some:
  assumes "shaper_ok sh"
  shows "\<exists>sl'. render_slot sh str size' lh bold sl = Some sl'"
proof -
  obtain tw th inks where shape: "shape sh (sl_color sl) str size' lh bold = ((tw, th), inks)" by (metis prod.exhaust)
  have ok: "resizes (sh_resize sh)" and lim: "0 \<le> tw" "tw \<le> 2 ^ 12" "0 \<le> th" "th \<le> 2 ^ 12" "\<forall>k \<in> set inks. ink_small k"
    using assms shape unfolding shaper_ok_def by blast+
  have ext: "max (wrap (tw + wrap (PAD * 2))) 1 = tw + 4" "max (wrap (th + wrap (PAD * 2))) 1 = th + 4"
    using lim by (simp_all add: PAD_def)
  have "small (tw + 4) (th + 4)"
    using lim mult_mono [of "tw + 4" 4100 "th + 4" 4100] mult_mono [of "th + 4" 4100 "tw + 4" 4100]
    by (simp add: small_def)
  then have "canvas_of (tw + 4) (th + 4) (blank (tw + 4, th + 4))" by (rule canvas_blank)
  moreover have "replicate (length (sh_resize sh (tw + 4, th + 4) d)) 0 = blank (tw + 4, th + 4)" for d
    by (simp add: resize_length [OF ok]) (simp add: blank_def)
  moreover have "draws (tw + 4) (th + 4) (draw_text_onto (tw + 4) (th + 4) PAD PAD inks) (inked blend_onto PAD PAD inks)"
    using lim by (intro draws_text_onto) (simp_all add: PAD_def)
  ultimately show ?thesis
    by (auto simp: render_slot_def shape ext paint_buffer_def render_text_buf_def Let_def draws_def)
qed

lemma render_letters_some:
  assumes "shaper_ok sh"
  shows "\<exists>sls w h. render_letters sh size' lh ps tw mh = Some (sls, w, h) \<and> length sls = length ps"
proof (induction ps arbitrary: tw mh)
  case (Cons p ps)
  obtain ch sl where p: "p = (ch, sl)" by (cases p)
  obtain sl' where "render_slot sh [ch] size' lh True sl = Some sl'" using render_slot_some [OF assms] by blast
  moreover obtain sls w h where "render_letters sh size' lh ps (wrap (tw + sl_w sl')) (max mh (sl_h sl')) = Some (sls, w, h)"
      "length sls = length ps"
    using Cons.IH by blast
  ultimately show ?case by (simp add: p)
qed simp

lemma rebuild_some:
  assumes "shaper_ok sh" and "length (sp_letters sp) = 6"
  shows "\<exists>sp'. rebuild fl sh size' sp = Some sp' \<and> length (sp_letters sp') = 6 \<and> sp_done sp' = sp_done sp \<and>
    sp_dismiss sp' = sp_dismiss sp \<and> sp_start sp' = sp_start sp \<and> text_disabled sp' = text_disabled sp \<and>
    cached_font_size sp' = q_round fl (q_int fl size') \<and>
    (text_disabled sp \<longrightarrow> sp_letters sp' = sp_letters sp \<and> sp_subtitle sp' = sp_subtitle sp)"
proof (cases "text_disabled sp")
  case False
  obtain sls w h where "render_letters sh (q_int fl size') (q_mul fl (q_int fl size') 0x3F8CCCCD) (zip WORD (sp_letters sp)) 0 0
      = Some (sls, w, h)" "length sls = 6"
    using render_letters_some [OF assms(1), of "q_int fl size'" "q_mul fl (q_int fl size') 0x3F8CCCCD" "zip WORD (sp_letters sp)" 0 0]
      assms(2) by (auto simp: WORD_def)
  moreover obtain sub where "render_slot sh SUBTITLE (q_mul fl (q_int fl size') SUB_SCALE)
      (q_mul fl (q_mul fl (q_int fl size') SUB_SCALE) 0x3F99999A) False (sp_subtitle sp) = Some sub"
    using render_slot_some [OF assms(1)] by blast
  ultimately show ?thesis using False by (simp add: rebuild_def Let_def)
qed (simp add: rebuild_def Let_def assms(2))

section \<open>Frames\<close>

lemma place_letters_length: "length (place_letters fl since g br lh y x i sls) \<le> length sls"
proof (induction sls arbitrary: x i)
  case (Cons sl sls)
  show ?case using Cons.IH [of "wrap (x + sl_w sl)" "i + 1"] by (simp add: Let_def)
qed simp

definition faded :: "splash_floats \<Rightarrow> instant \<Rightarrow> splash \<Rightarrow> bool" where
  "faded fl now sp \<longleftrightarrow> (\<exists>d. sp_dismiss sp = Some d \<and> q_le fl Q1 (q_div fl (q_secs fl (now - d)) FADE_OUT))"

lemma global_alpha_None: "global_alpha fl now sp = None \<longleftrightarrow> faded fl now sp"
  by (auto simp: global_alpha_def faded_def Let_def split: option.splits)

lemma splash_frame_over:
  "faded fl now sp \<Longrightarrow> splash_frame fl now canvas sp =
     (([], []), sp\<lparr>sp_start := Some (case sp_start sp of Some s \<Rightarrow> s | None \<Rightarrow> now), sp_done := True\<rparr>)"
proof -
  assume "faded fl now sp"
  then have "global_alpha fl now (sp\<lparr>sp_start := x\<rparr>) = None" for x by (simp add: global_alpha_None faded_def)
  then show ?thesis by (simp add: splash_frame_def Let_def)
qed

lemma frame_solids_few:
  "length (frame_solids fl since g br canvas sp) \<le> 3 \<and>
   (\<exists>a rest. frame_solids fl since g br canvas sp = Backdrop canvas a # rest \<and> (sp_dismiss sp \<noteq> None \<longrightarrow> rest = []))"
  by (simp add: frame_solids_def sweep_line_def progress_bar_def line_shown_def bar_shown_def Let_def)

lemma frame_labels_few: "length (frame_labels fl since g br canvas sp) \<le> length (sp_letters sp) + 1"
  using place_letters_length [of fl since g br "letter_h sp" "word_y canvas sp" "centred_x canvas (total_word_w sp)" 0 "sp_letters sp"]
  by (simp add: frame_labels_def Let_def)

lemma splash_frame_shown:
  assumes "\<not> faded fl now sp" and "length (sp_letters sp) = 6" and "splash_frame fl now canvas sp = ((solids, labels), sp')"
  shows "sp_done sp' = sp_done sp \<and> sp_dismiss sp' = sp_dismiss sp \<and> sp_letters sp' = sp_letters sp \<and>
    length solids \<le> 3 \<and> length labels \<le> 7 \<and> (\<exists>a rest. solids = Backdrop canvas a # rest \<and> (sp_dismiss sp \<noteq> None \<longrightarrow> rest = []))"
proof -
  let ?sp = "sp\<lparr>sp_start := Some (case sp_start sp of Some s \<Rightarrow> s | None \<Rightarrow> now)\<rparr>"
  let ?since = "q_secs fl (now - (case sp_start sp of Some s \<Rightarrow> s | None \<Rightarrow> now))"
  have "global_alpha fl now ?sp \<noteq> None" using assms(1) by (simp add: global_alpha_None faded_def)
  then obtain g where g: "global_alpha fl now ?sp = Some g" by blast
  let ?br = "breathe fl ?since ?sp"
  have "solids = frame_solids fl ?since g ?br canvas ?sp" "labels = frame_labels fl ?since g ?br canvas ?sp"
      "sp_done sp' = sp_done sp" "sp_dismiss sp' = sp_dismiss sp" "sp_letters sp' = sp_letters sp"
    using assms(3) g by (auto simp: splash_frame_def Let_def)
  then show ?thesis using frame_solids_few [of fl ?since g ?br canvas ?sp] frame_labels_few [of fl ?since g ?br canvas ?sp] assms(2)
    by simp
qed

section \<open>Claims\<close>

text \<open>
  C36. Every frame of the splash screen is drawn without a panic, fonts or not: the backdrop over the
  whole canvas, at most the line and bar, the six letters and the subtitle, with line and bar gone as
  soon as it is dismissed. It is over exactly at the first frame at least the fade-out time after the
  dismissal; from then on it draws nothing, asks for no frame, and its effect is to be removed.
\<close>

theorem splash_leaves:
  assumes "shaper_ok sh" and "length (sp_letters sp) = 6"
  shows "\<exists>solids labels sp'. splash_paint fl sh now canvas sp = Some ((solids, labels), sp') \<and>
    length (sp_letters sp') = 6 \<and> sp_dismiss sp' = sp_dismiss sp \<and>
    (sp_done sp' \<longleftrightarrow> sp_done sp \<or> faded fl now sp) \<and>
    splash_active sp' = (\<not> sp_done sp') \<and> splash_post_paint sp' = (\<not> sp_done sp') \<and> splash_should_remove sp' = sp_done sp' \<and>
    (sp_done sp' \<longrightarrow> solids = [] \<and> labels = [] \<and>
       (\<forall>later c. splash_paint fl sh later c (dismiss later sp') = Some (([], []), dismiss later sp'))) \<and>
    (\<not> sp_done sp' \<longrightarrow> length solids \<le> 3 \<and> length labels \<le> 7 \<and>
       (\<exists>a rest. solids = Backdrop canvas a # rest \<and> (sp_dismiss sp \<noteq> None \<longrightarrow> rest = [])))"
proof (cases "sp_done sp")
  case True
  then show ?thesis using assms(2)
    by (simp add: splash_paint_def splash_active_def splash_post_paint_def splash_should_remove_def dismiss_def)
next
  case False
  let ?size = "font_size_of fl (snd (snd (snd canvas)))"
  obtain sp1 where sp1: "(if ?size \<noteq> cached_font_size sp then rebuild fl sh ?size sp else Some sp) = Some sp1"
      "length (sp_letters sp1) = 6" "sp_done sp1 = sp_done sp" "sp_dismiss sp1 = sp_dismiss sp"
    using rebuild_some [OF assms, of fl ?size] assms(2) by (cases "?size = cached_font_size sp") auto
  obtain solids labels sp' where frame: "splash_frame fl now canvas sp1 = ((solids, labels), sp')" by (metis prod.exhaust)
  have paint: "splash_paint fl sh now canvas sp = Some ((solids, labels), sp')"
    using False sp1(1) frame by (simp add: splash_paint_def Let_def)
  have same: "faded fl now sp1 = faded fl now sp" using sp1(4) by (simp add: faded_def)
  show ?thesis
  proof (cases "faded fl now sp")
    case True
    then show ?thesis using paint frame sp1 same splash_frame_over [of fl now sp1 canvas]
      by (auto simp: splash_active_def splash_post_paint_def splash_should_remove_def splash_paint_def dismiss_def)
  next
    case not_over: False
    then show ?thesis using paint splash_frame_shown [OF _ sp1(2) frame] False sp1 same
      by (auto simp: splash_active_def splash_post_paint_def splash_should_remove_def)
  qed
qed

text \<open>Floats that only tell whether the numbers are equal, and a library without glyphs.\<close>

definition flat_floats :: splash_floats where
  "flat_floats = \<lparr>q_add = \<lambda>a b. 0, q_sub = \<lambda>a b. 0, q_mul = \<lambda>a b. 0, q_div = \<lambda>a b. 0, q_rem = \<lambda>a b. 0,
     q_lt = \<lambda>a b. False, q_le = \<lambda>a b. a = b, q_min = \<lambda>a b. a, q_powi = \<lambda>a n. 0, q_sin = \<lambda>a. 0, q_int = \<lambda>n. 0,
     q_round = \<lambda>a. 48, q_trunc = \<lambda>a. 0, q_secs = \<lambda>n. 0\<rparr>"

definition no_glyphs :: shaper where
  "no_glyphs = \<lparr>shape = \<lambda>c str size' lh bold. ((0, 0), []), sh_resize = \<lambda>sz d. blank sz\<rparr>"

theorem splash_leaves_witness:
  "\<exists>solids labels sp'. splash_paint flat_floats no_glyphs 9 (0, 0, 800, 600) (splash_new flat_floats False) =
      Some ((solids, labels), sp') \<and> \<not> sp_done sp' \<and> (\<exists>a rest. solids = Backdrop (0, 0, 800, 600) a # rest)"
proof -
  have "shaper_ok no_glyphs" by (simp add: shaper_ok_def no_glyphs_def resizes_def blank_def)
  moreover have "length (sp_letters (splash_new flat_floats False)) = 6" by (simp add: splash_new_def letter_colors_def)
  moreover have "\<not> sp_done (splash_new flat_floats False)" "\<not> faded flat_floats 9 (splash_new flat_floats False)"
    by (simp_all add: splash_new_def faded_def)
  ultimately show ?thesis
    using splash_leaves [of no_glyphs "splash_new flat_floats False" flat_floats 9 "(0, 0, 800, 600)"] by blast
qed

end
