(* ===== verification/Jelly_Paint.thy ===== *)
theory Jelly_Paint
  imports Pixels Hit_Test
begin

text \<open>
  The animated cursors: the polygon of \<open>crates/effect-plugins/src/jelly_cursor.rs\<close> and its scanline fill,
  and the elastic trail of \<open>cursor_trail.rs\<close>.

  Floating point is a parameter: a value is its bit pattern, the literals of the source are written
  as theirs, and \<open>paint_floats\<close> extends \<open>floats\<close> with the further operations of \<open>f64\<close> and \<open>f32\<close> that
  are used here. Nothing is assumed of them, so what is proved holds for infinities and NaNs too.
\<close>

section \<open>Floating point\<close>


record paint_floats = floats +
  f_floor :: "f64 \<Rightarrow> f64"
  f_ceil :: "f64 \<Rightarrow> f64"
  f_abs :: "f64 \<Rightarrow> f64"
  f_neg :: "f64 \<Rightarrow> f64"
  f_sqrt :: "f64 \<Rightarrow> f64"
  f_nan :: "f64 \<Rightarrow> bool"
  f_secs :: "nat \<Rightarrow> f64"
  f_byte :: "f64 \<Rightarrow> byte"
  f_single :: "f64 \<Rightarrow> f32"
  s_add :: "f32 \<Rightarrow> f32 \<Rightarrow> f32"
  s_sub :: "f32 \<Rightarrow> f32 \<Rightarrow> f32"
  s_mul :: "f32 \<Rightarrow> f32 \<Rightarrow> f32"
  s_of_byte :: "byte \<Rightarrow> f32"
  s_round_byte :: "f32 \<Rightarrow> byte"

definition HALF :: f64 where "HALF = 0x3FE0000000000000"
definition ONE :: f64 where "ONE = 0x3FF0000000000000"
definition TWO :: f64 where "TWO = 0x4000000000000000"
definition EPS :: f64 where "EPS = 0x3E112E0BE826D695"
definition NAN :: f64 where "NAN = 0x7FF8000000000000"
definition POS_INF :: f64 where "POS_INF = 0x7FF0000000000000"
definition NEG_INF :: f64 where "NEG_INF = 0xFFF0000000000000"
definition ONE32 :: f32 where "ONE32 = 0x3F800000"

definition f_of_int :: "'a paint_floats_scheme \<Rightarrow> int \<Rightarrow> f64" where
  "f_of_int fl n = f_of fl (word_of_int n)"

section \<open>The polygon\<close>

text \<open>A rectangle of \<open>f64\<close>: position and size.\<close>

type_synonym rectf = "fpoint \<times> fpoint"

definition rect_i32_to_f64 :: "'a paint_floats_scheme \<Rightarrow> irect \<Rightarrow> rectf" where
  "rect_i32_to_f64 fl r = (case r of (x, y, w, h) \<Rightarrow> ((f_of_int fl x, f_of_int fl y), (f_of_int fl w, f_of_int fl h)))"

definition lerp :: "'a paint_floats_scheme \<Rightarrow> fpoint \<Rightarrow> fpoint \<Rightarrow> f64 \<Rightarrow> fpoint" where
  "lerp fl a b t = (f_add fl (fst a) (f_mul fl (f_sub fl (fst b) (fst a)) t),
     f_add fl (snd a) (f_mul fl (f_sub fl (snd b) (snd a)) t))"

definition rect_center :: "'a paint_floats_scheme \<Rightarrow> rectf \<Rightarrow> fpoint" where
  "rect_center fl r = (f_add fl (fst (fst r)) (f_mul fl (fst (snd r)) HALF),
     f_add fl (snd (fst r)) (f_mul fl (snd (snd r)) HALF))"

definition base_corners :: "'a paint_floats_scheme \<Rightarrow> rectf \<Rightarrow> rectf \<Rightarrow> fpoint list" where
  "base_corners fl start stop =
     (let cs = fst start; ce = fst stop; ws = fst (snd start); hs = snd (snd start); we = fst (snd stop); he = snd (snd stop);
          dx = f_sub fl (fst cs) (fst ce); dy = f_sub fl (snd cs) (snd ce);
          plus = (\<lambda>c x y. (f_add fl (fst c) x, f_add fl (snd c) y)) in
      if f_lt fl 0 (f_mul fl dx dy) then [cs, plus cs ws hs, plus ce we he, ce]
      else if f_lt fl (f_mul fl dx dy) 0 then [plus cs 0 hs, plus cs ws 0, plus ce we 0, plus ce 0 he]
      else if f_lt fl (f_abs fl dx) EPS then
        (if f_le fl 0 dy then [plus cs 0 hs, plus cs ws hs, plus ce we 0, ce]
         else [cs, plus cs ws 0, plus ce we he, plus ce 0 he])
      else if f_le fl 0 dx then [plus cs ws 0, plus cs ws hs, plus ce 0 he, ce]
      else [cs, plus cs 0 hs, plus ce we he, plus ce we 0])"

definition jelly_polygon :: "'a paint_floats_scheme \<Rightarrow> rectf \<Rightarrow> rectf \<Rightarrow> f64 \<Rightarrow> fpoint list" where
  "jelly_polygon fl start stop p =
     (case base_corners fl start stop of
        [p0, p1, p2, p3] \<Rightarrow>
          if f_lt fl p HALF
          then (let k = f_mul fl p TWO in [p0, p1, lerp fl p1 p2 k, lerp fl p0 p3 k])
          else (let k = f_mul fl (f_sub fl p HALF) TWO in [lerp fl p0 p3 k, lerp fl p1 p2 k, p2, p3])
      | pts \<Rightarrow> pts)"

text \<open>\<open>bounds\<close>: minimum and maximum of the coordinates in one pass.\<close>

definition bounds :: "'a paint_floats_scheme \<Rightarrow> fpoint list \<Rightarrow> f64 \<times> f64 \<times> f64 \<times> f64" where
  "bounds fl pts = fold (\<lambda>p (min_x, min_y, max_x, max_y).
      (if f_lt fl (fst p) min_x then fst p else min_x, if f_lt fl (snd p) min_y then snd p else min_y,
       if f_lt fl max_x (fst p) then fst p else max_x, if f_lt fl max_y (snd p) then snd p else max_y))
     pts (POS_INF, POS_INF, NEG_INF, NEG_INF)"

section \<open>The scanline fill\<close>

record gradient =
  gr_from :: fpoint
  gr_to :: fpoint
  c_start :: colour
  c_end :: colour

definition clear :: colour where "clear = (0, 0, 0, 0)"

definition mix8 :: "'a paint_floats_scheme \<Rightarrow> byte \<Rightarrow> byte \<Rightarrow> f32 \<Rightarrow> byte" where
  "mix8 fl a b t =
     s_round_byte fl (s_add fl (s_mul fl (s_of_byte fl a) (s_sub fl ONE32 t)) (s_mul fl (s_of_byte fl b) t))"

definition clamp01 :: "'a paint_floats_scheme \<Rightarrow> f64 \<Rightarrow> f64" where
  "clamp01 fl t = (if f_lt fl t 0 then 0 else if f_lt fl ONE t then ONE else t)"

definition mix_colour :: "'a paint_floats_scheme \<Rightarrow> gradient \<Rightarrow> f64 \<Rightarrow> colour" where
  "mix_colour fl g t =
     (let tc = f_single fl (clamp01 fl t) in
      case c_start g of (b0, g0, r0, a0) \<Rightarrow> case c_end g of (b1, g1, r1, a1) \<Rightarrow>
        (mix8 fl b0 b1 tc, mix8 fl g0 g1 tc, mix8 fl r0 r1 tc, mix8 fl a0 a1 tc))"

definition as_i32 :: "'a paint_floats_scheme \<Rightarrow> f64 \<Rightarrow> int" where
  "as_i32 fl x = sint (f_trunc fl x)"

definition clamp_i :: "int \<Rightarrow> int \<Rightarrow> int \<Rightarrow> int" where
  "clamp_i lo hi n = (if n < lo then lo else if hi < n then hi else n)"

text \<open>One edge of the polygon against the scanline; the first crossing goes to \<open>x_lo\<close>, later ones to \<open>x_hi\<close>.\<close>

definition cross_edge ::
  "'a paint_floats_scheme \<Rightarrow> f64 \<Rightarrow> fpoint \<times> fpoint \<Rightarrow> f64 \<times> f64 \<Rightarrow> f64 \<times> f64" where
  "cross_edge fl y ab acc =
     (let (lo, hi) = (if f_le fl (snd (fst ab)) (snd (snd ab)) then ab else (snd ab, fst ab)) in
      if f_lt fl y (snd lo) \<or> f_le fl (snd hi) y then acc
      else
        (let dy = f_sub fl (snd hi) (snd lo) in
         if f_lt fl (f_abs fl dy) EPS then acc
         else
           (let x = f_add fl (fst lo) (f_mul fl (f_div fl (f_sub fl y (snd lo)) dy) (f_sub fl (fst hi) (fst lo))) in
            if f_nan fl (fst acc) then (x, snd acc) else (fst acc, x))))"

definition row_crossings :: "'a paint_floats_scheme \<Rightarrow> fpoint list \<Rightarrow> f64 \<Rightarrow> f64 \<times> f64" where
  "row_crossings fl pts y = fold (cross_edge fl y) (zip pts (tl pts @ [hd pts])) (NAN, NAN)"

text \<open>The columns of a row to paint, or none.\<close>

definition row_span :: "'a paint_floats_scheme \<Rightarrow> fpoint list \<Rightarrow> int \<Rightarrow> int \<Rightarrow> int \<Rightarrow> (int \<times> int) option" where
  "row_span fl pts w h py =
     (let (min_x, min_y, max_x, max_y) = bounds fl pts in
      if py < max (as_i32 fl (f_floor fl min_y)) 0 \<or> min (as_i32 fl (f_ceil fl max_y)) (wrap (h - 1)) < py then None
      else
        (let (a, b) = row_crossings fl pts (f_add fl (f_of_int fl py) HALF) in
         if f_nan fl a \<or> f_nan fl b then None
         else
           (let (x_lo, x_hi) = (if f_lt fl b a then (b, a) else (a, b));
                x0 = clamp_i 0 w (as_i32 fl (f_ceil fl x_lo));
                x1 = clamp_i 0 w (wrap (as_i32 fl (f_floor fl (f_sub fl x_hi EPS)) + 1)) in
            if x1 \<le> x0 then None else Some (x0, x1))))"

text \<open>The gradient: the parameter at the first column, and its step.\<close>

definition grad_inv_len2 :: "'a paint_floats_scheme \<Rightarrow> gradient \<Rightarrow> bool \<times> f64 \<times> f64 \<times> f64" where
  "grad_inv_len2 fl g =
     (let gx = f_sub fl (fst (gr_to g)) (fst (gr_from g)); gy = f_sub fl (snd (gr_to g)) (snd (gr_from g));
          g_len2 = f_add fl (f_mul fl gx gx) (f_mul fl gy gy) in
      (f_lt fl EPS g_len2, gx, gy, if f_lt fl EPS g_len2 then f_div fl ONE g_len2 else 0))"

definition grad_step :: "'a paint_floats_scheme \<Rightarrow> gradient \<Rightarrow> f64" where
  "grad_step fl g = (case grad_inv_len2 fl g of (has_grad, gx, gy, inv_len2) \<Rightarrow> f_mul fl gx inv_len2)"

definition grad_at :: "'a paint_floats_scheme \<Rightarrow> gradient \<Rightarrow> int \<Rightarrow> f64 \<Rightarrow> f64" where
  "grad_at fl g x0 y =
     (case grad_inv_len2 fl g of (has_grad, gx, gy, inv_len2) \<Rightarrow>
        if has_grad
        then f_mul fl (f_add fl (f_mul fl (f_sub fl (f_add fl (f_of_int fl x0) HALF) (fst (gr_from g))) gx)
                      (f_mul fl (f_sub fl y (snd (gr_from g))) gy)) inv_len2
        else ONE)"

fun paint_span :: "'a paint_floats_scheme \<Rightarrow> gradient \<Rightarrow> f64 \<Rightarrow> nat \<Rightarrow> nat \<Rightarrow> f64 \<Rightarrow> bytes \<Rightarrow> bytes option" where
  "paint_span fl g dt 0 off t data = Some data"
| "paint_span fl g dt (Suc n) off t data =
     Option.bind (put4 off (mix_colour fl g t) data) (paint_span fl g dt n (off + 4) (f_add fl t dt))"

definition paint_row ::
  "'a paint_floats_scheme \<Rightarrow> fpoint list \<Rightarrow> gradient \<Rightarrow> int \<Rightarrow> int \<Rightarrow> int \<Rightarrow> bytes \<Rightarrow> bytes option" where
  "paint_row fl pts g w h py data =
     (let stride = wrap (w * 4); row_off = as_usize (wrap (py * stride)) in
      case row_span fl pts w h py of
        None \<Rightarrow> fill_zero row_off (row_off + as_usize stride) data
      | Some (x0, x1) \<Rightarrow>
          Option.bind (if 0 < x0 then fill_zero row_off (row_off + as_usize (wrap (x0 * 4))) data else Some data) (\<lambda>d1.
          Option.bind (paint_span fl g (grad_step fl g) (nat (x1 - x0)) (row_off + as_usize (wrap (x0 * 4)))
              (grad_at fl g x0 (f_add fl (f_of_int fl py) HALF)) d1) (\<lambda>d2.
          if x1 < w then fill_zero (row_off + as_usize (wrap (x1 * 4))) (row_off + as_usize stride) d2 else Some d2)))"

definition fill_polygon_bgra ::
  "'a paint_floats_scheme \<Rightarrow> int \<Rightarrow> int \<Rightarrow> fpoint list \<Rightarrow> gradient \<Rightarrow> bytes \<Rightarrow> bytes option" where
  "fill_polygon_bgra fl w h pts g = fold_panic (paint_row fl pts g w h) (irange 0 h)"

section \<open>A frame of the jelly cursor\<close>

definition BBOX_PAD :: int where "BBOX_PAD = 2"

definition jelly_progress :: "'a paint_floats_scheme \<Rightarrow> nat \<Rightarrow> jelly \<Rightarrow> (f64 \<times> rectf \<times> rectf) option" where
  "jelly_progress fl now j =
     (case je_state j of
        Animating from to start \<Rightarrow>
          if JELLY_DURATION \<le> now - start then None
          else Some (f_div fl (f_secs fl (now - start)) (f_secs fl JELLY_DURATION),
            rect_i32_to_f64 fl from, rect_i32_to_f64 fl to)
      | _ \<Rightarrow> None)"

definition colour_of :: "bytes \<Rightarrow> colour" where
  "colour_of c = (case c of [b, g, r, a] \<Rightarrow> (b, g, r, a) | _ \<Rightarrow> clear)"

text \<open>What is to be drawn: the corner and size of the box, the polygon and gradient in it.\<close>

definition jelly_picture ::
  "'a paint_floats_scheme \<Rightarrow> nat \<Rightarrow> jelly \<Rightarrow> ((int \<times> int) \<times> (int \<times> int) \<times> fpoint list \<times> gradient) option" where
  "jelly_picture fl now j =
     (case jelly_progress fl now j of
        None \<Rightarrow> None
      | Some (p, from, to) \<Rightarrow>
          (let pts = jelly_polygon fl from to p; (min_x, min_y, max_x, max_y) = bounds fl pts;
               bbox_x = wrap (as_i32 fl (f_floor fl min_x) - BBOX_PAD);
               bbox_y = wrap (as_i32 fl (f_floor fl min_y) - BBOX_PAD);
               bbox_w = max (wrap (wrap (as_i32 fl (f_ceil fl max_x) - bbox_x) + BBOX_PAD)) 1;
               bbox_h = max (wrap (wrap (as_i32 fl (f_ceil fl max_y) - bbox_y) + BBOX_PAD)) 1;
               minus = (\<lambda>q. (f_sub fl (fst q) (f_of_int fl bbox_x), f_sub fl (snd q) (f_of_int fl bbox_y))) in
           Some ((bbox_x, bbox_y), (bbox_w, bbox_h), map minus pts,
             \<lparr>gr_from = minus (rect_center fl from), gr_to = minus (rect_center fl to),
              c_start = colour_of (color_light j), c_end = colour_of (color_solid j)\<rparr>)))"

text \<open>\<open>paint\<close>, from what the resized buffer holds: where the element goes, and its pixels.\<close>

definition jelly_paint ::
  "'a paint_floats_scheme \<Rightarrow> (int \<times> int \<Rightarrow> bytes) \<Rightarrow> nat \<Rightarrow> jelly \<Rightarrow> (((int \<times> int) \<times> bytes) option \<times> jelly) option" where
  "jelly_paint fl resized now j =
     (case jelly_picture fl now j of
        None \<Rightarrow> Some (None, j)
      | Some (loc, (w, h), pts, g) \<Rightarrow>
          map_option (\<lambda>data. (Some (loc, data), j\<lparr>je_commit := je_commit j + 1\<rparr>))
            (fill_polygon_bgra fl w h pts g (resized (w, h))))"

definition jelly_post_paint :: "jelly \<Rightarrow> bool" where
  "jelly_post_paint j \<longleftrightarrow> (case je_state j of Animating _ _ _ \<Rightarrow> True | _ \<Rightarrow> False)"

section \<open>The cursor trail\<close>

type_synonym bead = "fpoint \<times> fpoint"

definition NODE_COUNT :: nat where "NODE_COUNT = 10"
definition STIFFNESS :: f64 where "STIFFNESS = 0x405E000000000000"
definition DAMPING :: f64 where "DAMPING = 0x4028000000000000"
definition MAX_DT :: f64 where "MAX_DT = 0x3FA1111111111111"
definition SPEED_LIMIT :: f64 where "SPEED_LIMIT = 0x3FB999999999999A"

record trail_view = cursor_trail +
  tr_nodes :: "bead list"

text \<open>One bead: the spring and damper towards the bead in front, and whether it still moves.\<close>

definition step_node :: "'a paint_floats_scheme \<Rightarrow> f64 \<Rightarrow> fpoint \<Rightarrow> bead \<Rightarrow> bead \<times> bool" where
  "step_node fl dt target n =
     (let (pos, vel) = n;
          dx = f_sub fl (fst pos) (fst target); dy = f_sub fl (snd pos) (snd target);
          ax = f_sub fl (f_mul fl (f_neg fl STIFFNESS) dx) (f_mul fl DAMPING (fst vel));
          ay = f_sub fl (f_mul fl (f_neg fl STIFFNESS) dy) (f_mul fl DAMPING (snd vel));
          vx = f_add fl (fst vel) (f_mul fl ax dt); vy = f_add fl (snd vel) (f_mul fl ay dt);
          px = f_add fl (fst pos) (f_mul fl vx dt); py = f_add fl (snd pos) (f_mul fl vy dt);
          speed = f_add fl (f_abs fl vx) (f_abs fl vy); dist = f_add fl (f_abs fl dx) (f_abs fl dy) in
      (((px, py), (vx, vy)), f_lt fl SPEED_LIMIT speed \<or> f_lt fl HALF dist))"

fun step_nodes :: "'a paint_floats_scheme \<Rightarrow> f64 \<Rightarrow> fpoint \<Rightarrow> bead list \<Rightarrow> bead list \<times> bool" where
  "step_nodes fl dt target [] = ([], False)"
| "step_nodes fl dt target (n # ns) =
     (let (n', moves) = step_node fl dt target n; (ns', rest) = step_nodes fl dt (fst n') ns in
      (n' # ns', moves \<or> rest))"

definition step_physics :: "'a paint_floats_scheme \<Rightarrow> fpoint \<Rightarrow> f64 \<Rightarrow> trail_view \<Rightarrow> trail_view" where
  "step_physics fl pos dt0 t =
     (let dt = f_min fl dt0 MAX_DT; (ns, any_moving) = step_nodes fl dt pos (tl (tr_nodes t)) in
      t\<lparr>tr_nodes := (pos, (0, 0)) # ns, tr_settled := \<not> any_moving\<rparr>)"

definition trail_pre_paint :: "'a paint_floats_scheme \<Rightarrow> fpoint option \<Rightarrow> nat \<Rightarrow> trail_view \<Rightarrow> trail_view" where
  "trail_pre_paint fl at now t =
     (case at of
        None \<Rightarrow> t\<lparr>tr_last_time := None\<rparr>
      | Some pos \<Rightarrow>
          (let dt = (case tr_last_time t of Some prev \<Rightarrow> if prev \<le> now then f_secs fl (now - prev) else 0 | None \<Rightarrow> 0);
               t1 = t\<lparr>tr_last_time := Some now\<rparr> in
           if f_le fl dt 0 then t1\<lparr>tr_nodes := map (\<lambda>n. (pos, (0, 0))) (tr_nodes t), tr_settled := False\<rparr>
           else step_physics fl pos dt t1))"

definition trail_post_paint :: "trail_view \<Rightarrow> bool" where
  "trail_post_paint t \<longleftrightarrow> \<not> tr_settled t"

text \<open>The soft circle of radius \<open>r\<close>.\<close>

definition CIRCLE_COLOR :: colour where "CIRCLE_COLOR = (0xa6, 0x4d, 0xff, 0xff)"
definition MAX_ALPHA :: f64 where "MAX_ALPHA = 0x406FE00000000000"

definition circle_alpha :: "'a paint_floats_scheme \<Rightarrow> int \<Rightarrow> int \<Rightarrow> int \<Rightarrow> byte" where
  "circle_alpha fl radius px py =
     (let c = f_of_int fl radius; dx = f_sub fl (f_of_int fl px) c; dy = f_sub fl (f_of_int fl py) c;
          dist = f_sqrt fl (f_add fl (f_mul fl dx dx) (f_mul fl dy dy));
          a = (if f_le fl dist (f_sub fl c ONE) then ONE else if f_le fl dist c then f_sub fl c dist else 0) in
      f_byte fl (f_mul fl a MAX_ALPHA))"

definition circle_colour :: "'a paint_floats_scheme \<Rightarrow> int \<Rightarrow> int \<Rightarrow> int \<Rightarrow> colour" where
  "circle_colour fl radius px py = (case CIRCLE_COLOR of (b, g, r, a) \<Rightarrow> (b, g, r, circle_alpha fl radius px py))"

definition render_circle :: "'a paint_floats_scheme \<Rightarrow> int \<Rightarrow> bytes \<Rightarrow> bytes option" where
  "render_circle fl radius =
     (let d = wrap (wrap (radius * 2) + 1) in
      fold_panic (\<lambda>py. fold_panic (\<lambda>px.
          put4 (as_usize (wrap (wrap (wrap (py * d) + px) * 4))) (circle_colour fl radius px py)) (irange 0 d)) (irange 0 d))"

text \<open>
  \<open>paint\<close> of the trail: for a bead its circle, opacity and position, in the order pushed, which starts
  with the last bead. A bead's radius and opacity fall linearly along the trail; the head itself,
  bead 0, is not drawn.
\<close>

definition HEAD_RADIUS :: int where "HEAD_RADIUS = 7"
definition TAIL_RADIUS :: int where "TAIL_RADIUS = 2"
definition HEAD_ALPHA :: f32 where "HEAD_ALPHA = 0x3F400000"
definition TAIL_ALPHA :: f32 where "TAIL_ALPHA = 0x3DF5C28F"

definition bead_t :: "'a paint_floats_scheme \<Rightarrow> nat \<Rightarrow> f64" where
  "bead_t fl i = f_div fl (f_of_int fl (int i)) (f_of_int fl (int (max (NODE_COUNT - 1) 1)))"

definition bead_radius :: "'a paint_floats_scheme \<Rightarrow> nat \<Rightarrow> f64" where
  "bead_radius fl i = f_add fl (f_mul fl (f_of_int fl HEAD_RADIUS) (f_sub fl ONE (bead_t fl i)))
     (f_mul fl (f_of_int fl TAIL_RADIUS) (bead_t fl i))"

definition bead_alpha :: "'a paint_floats_scheme \<Rightarrow> nat \<Rightarrow> f32" where
  "bead_alpha fl i = s_add fl (s_mul fl HEAD_ALPHA (s_sub fl ONE32 (f_single fl (bead_t fl i))))
     (s_mul fl TAIL_ALPHA (f_single fl (bead_t fl i)))"

definition trail_paint :: "'a paint_floats_scheme \<Rightarrow> fpoint option \<Rightarrow> trail_view \<Rightarrow> (nat \<times> f32 \<times> fpoint) list" where
  "trail_paint fl at t =
     (if at = None \<or> tr_settled t then []
      else map (\<lambda>i. let n = tr_nodes t ! i; r = bead_radius fl i in
          (i, bead_alpha fl i, (f_sub fl (fst (fst n)) r, f_sub fl (snd (fst n)) r)))
        (rev [1..<NODE_COUNT]))"

end
