(* ===== verification/Jelly_Props.thy ===== *)
theory Jelly_Props
  imports Jelly_Paint
begin

text \<open>
  The fill of the jelly cursor writes every pixel of its buffer once and nothing else, for every
  behaviour of floating point; its animation ends; the trail's head stays at the cursor.
\<close>

declare split_paired_All [simp del] split_paired_Ex [simp del]

section \<open>Runs of pixels in a row\<close>

lemma row_between:
  assumes "0 \<le> (a :: int)" and "b \<le> w" and "0 \<le> x" and "x < w"
  shows "row * w + a \<le> y * w + x \<and> y * w + x < row * w + b \<longleftrightarrow> y = row \<and> a \<le> x \<and> x < b"
proof -
  consider "y < row" | "y = row" | "row < y" by linarith
  then show ?thesis
  proof cases
    case 1
    then have "(y + 1) * w \<le> row * w" using assms by (intro mult_right_mono) simp_all
    then show ?thesis using 1 assms by (simp add: algebra_simps)
  next
    case 3
    then have "(row + 1) * w \<le> y * w" using assms by (intro mult_right_mono) simp_all
    then show ?thesis using 3 assms by (simp add: algebra_simps)
  qed simp
qed

lemma fill_zero_nth:
  "lo \<le> hi \<Longrightarrow> hi \<le> length data \<Longrightarrow> k < length data \<Longrightarrow>
     (take lo data @ replicate (hi - lo) 0 @ drop hi data) ! k = (if lo \<le> k \<and> k < hi then 0 else data ! k)"
  by (auto simp: nth_append)

lemma draws_fill_zero:
  assumes "0 \<le> row" and "row < h" and "0 \<le> a" and "a \<le> b" and "b \<le> w"
  shows "draws w h (fill_zero (nat (4 * (row * w + a))) (nat (4 * (row * w + b))))
    (sets clear (\<lambda>p. snd p = row \<and> a \<le> fst p \<and> fst p < b))"
proof (rule drawsI)
  fix data assume canvas: "canvas_of w h data"
  define lo hi where "lo = nat (4 * (row * w + a))" and "hi = nat (4 * (row * w + b))"
  let ?d = "take lo data @ replicate (hi - lo) 0 @ drop hi data"
  have len: "int (length data) = 4 * (w * h)" using canvas unfolding canvas_of_def by blast
  have b: "0 \<le> row * w" "row * w + b \<le> w * h"
    using offset_bounds_small [OF canvas_small [OF canvas], of b row] assms by simp_all
  then have le: "lo \<le> hi" "hi \<le> length data" and lo_pos: "int lo = 4 * (row * w + a)" and hi_pos: "int hi = 4 * (row * w + b)"
    using assms len by (simp_all add: lo_def hi_def)
  then have "fill_zero lo hi data = Some ?d" "canvas_of w h ?d"
    using canvas by (simp_all add: fill_zero_def canvas_of_def)
  moreover have "pixel w ?d p = sets clear (\<lambda>p. snd p = row \<and> a \<le> fst p \<and> fst p < b) p (pixel w data p)"
    if on: "on_canvas w h p" for p
  proof -
    define k where "k = nat (4 * (snd p * w + fst p))"
    have lt: "0 \<le> snd p * w + fst p" "snd p * w + fst p < w * h" "0 \<le> fst p" "fst p < w"
      using offset_bounds [OF canvas, of "fst p" "snd p"] on by (simp_all add: on_canvas_def)
    then have k_pos: "int k = 4 * (snd p * w + fst p)" by (simp add: k_def)
    have at: "?d ! (k + i) = (if snd p = row \<and> a \<le> fst p \<and> fst p < b then 0 else data ! (k + i))" if "i < 4" for i
    proof -
      have "k + i < length data" if "int k = 4 * q" "int (length data) = 4 * m" "q < m" for q m :: int
        using that \<open>i < 4\<close> by linarith
      from this [OF k_pos len lt(2)] have "k + i < length data" .
      moreover have "lo \<le> k + i \<and> k + i < hi \<longleftrightarrow> row * w + a \<le> snd p * w + fst p \<and> snd p * w + fst p < row * w + b"
      proof -
        have "(lo \<le> k + i \<and> k + i < hi) = (l \<le> q \<and> q < u)"
          if "int k = 4 * q" "int lo = 4 * l" "int hi = 4 * u" for q l u :: int using that \<open>i < 4\<close> by presburger
        from this [OF k_pos lo_pos hi_pos] show ?thesis .
      qed
      ultimately show ?thesis
        using fill_zero_nth [OF le, of "k + i"] row_between [OF assms(3,5) lt(3,4), of row "snd p"] by simp
    qed
    show ?thesis unfolding pixel_def Let_def k_def [symmetric] using at [of 0] at [of 1] at [of 2] at [of 3]
      by (simp add: sets_def clear_def del: One_nat_def)
  qed
  ultimately show "\<exists>d. fill_zero (nat (4 * (row * w + a))) (nat (4 * (row * w + b))) data = Some d \<and> canvas_of w h d \<and> (\<forall>p. on_canvas w h p \<longrightarrow>
      pixel w d p = sets clear (\<lambda>p. snd p = row \<and> a \<le> fst p \<and> fst p < b) p (pixel w data p))"
    unfolding lo_def hi_def by blast
qed

text \<open>The gradient parameter after \<open>n\<close> steps.\<close>

fun steps :: "'a paint_floats_scheme \<Rightarrow> f64 \<Rightarrow> nat \<Rightarrow> f64 \<Rightarrow> f64" where
  "steps fl dt 0 t = t"
| "steps fl dt (Suc n) t = steps fl dt n (f_add fl t dt)"

definition span_pixel :: "'a paint_floats_scheme \<Rightarrow> gradient \<Rightarrow> f64 \<Rightarrow> f64 \<Rightarrow> int \<Rightarrow> int \<Rightarrow> int \<Rightarrow> int \<times> int \<Rightarrow> colour \<Rightarrow> colour" where
  "span_pixel fl g dt t row a b p old =
     (if snd p = row \<and> a \<le> fst p \<and> fst p < b then mix_colour fl g (steps fl dt (nat (fst p - a)) t) else old)"

lemma draws_put4:
  assumes "on_canvas w h (x, y)"
  shows "draws w h (put4 (nat (4 * (y * w + x))) c) (sets c (\<lambda>p. p = (x, y)))"
proof (rule drawsI)
  fix data assume "canvas_of w h data"
  then show "\<exists>d. put4 (nat (4 * (y * w + x))) c data = Some d \<and> canvas_of w h d \<and>
      (\<forall>p. on_canvas w h p \<longrightarrow> pixel w d p = sets c (\<lambda>p. p = (x, y)) p (pixel w data p))"
    using put4_pixel [OF _ assms, of data c] by (simp add: sets_def)
qed

lemma draws_span:
  assumes "0 \<le> row" and "row < h" and "0 \<le> a" and "a + int n \<le> w" and "small w h"
  shows "draws w h (paint_span fl g dt n (nat (4 * (row * w + a))) t) (span_pixel fl g dt t row a (a + int n))"
  using assms(3,4)
proof (induction n arbitrary: a t)
  case 0
  show ?case by (auto simp: draws_def span_pixel_def)
next
  case (Suc n)
  have "0 \<le> row * w" using offset_bounds_small [OF assms(5), of 0 row] assms Suc.prems by simp
  then have next_off: "nat (4 * (row * w + a)) + 4 = nat (4 * (row * w + (a + 1)))" using Suc.prems by simp
  have "draws w h (put4 (nat (4 * (row * w + a))) (mix_colour fl g t)) (sets (mix_colour fl g t) (\<lambda>p. p = (a, row)))"
    using assms Suc.prems by (intro draws_put4) (simp add: on_canvas_def)
  moreover have "draws w h (paint_span fl g dt n (nat (4 * (row * w + a)) + 4) (f_add fl t dt))
      (span_pixel fl g dt (f_add fl t dt) row (a + 1) (a + 1 + int n))"
    unfolding next_off using Suc.prems by (intro Suc.IH) simp_all
  ultimately have "draws w h (paint_span fl g dt (Suc n) (nat (4 * (row * w + a))) t)
      (\<lambda>p old. span_pixel fl g dt (f_add fl t dt) row (a + 1) (a + 1 + int n) p
         (sets (mix_colour fl g t) (\<lambda>p. p = (a, row)) p old))"
    unfolding paint_span.simps(2) [abs_def] by (rule draws_seq)
  moreover have "nat (x - a) = Suc (nat (x - (a + 1)))" if "a + 1 \<le> x" for x using that by simp
  ultimately show ?case
    by (elim draws_cong) (auto simp: span_pixel_def sets_def prod_eq_iff)
qed

section \<open>The fill\<close>

lemma row_span_bounds:
  assumes "row_span fl pts w h py = Some (x0, x1)" and "0 \<le> w"
  shows "0 \<le> x0 \<and> x0 < x1 \<and> x1 \<le> w"
proof -
  have "x0 < x1 \<and> (\<exists>n. x0 = clamp_i 0 w n) \<and> (\<exists>n. x1 = clamp_i 0 w n)"
    using assms(1) by (auto simp: row_span_def Let_def not_le split: prod.splits if_splits)
  then obtain m n where "x0 < x1" "x0 = clamp_i 0 w m" "x1 = clamp_i 0 w n" by blast
  then show ?thesis using assms(2) by (auto simp: clamp_i_def split: if_splits)
qed

text \<open>What the fill makes of a pixel.\<close>

definition polygon_pixel :: "'a paint_floats_scheme \<Rightarrow> fpoint list \<Rightarrow> gradient \<Rightarrow> int \<Rightarrow> int \<Rightarrow> int \<times> int \<Rightarrow> colour" where
  "polygon_pixel fl pts g w h p =
     (case row_span fl pts w h (snd p) of
        None \<Rightarrow> clear
      | Some (x0, x1) \<Rightarrow>
          if x0 \<le> fst p \<and> fst p < x1
          then mix_colour fl g (steps fl (grad_step fl g) (nat (fst p - x0))
                 (grad_at fl g x0 (f_add fl (f_of_int fl (snd p)) HALF)))
          else clear)"

lemma draws_cond: "(b \<Longrightarrow> draws w h f F) \<Longrightarrow>
    draws w h (\<lambda>d. if b then f d else Some d) (\<lambda>p old. if b then F p old else old)"
  by (cases b) (simp_all add: draws_def)

lemma draws_row:
  assumes row: "0 \<le> py" "py < h"
  shows "draws w h (paint_row fl pts g w h py) (\<lambda>p old. if snd p = py then polygon_pixel fl pts g w h p else old)"
proof (rule draws_small)
  assume small: "small w h"
  note b = offset_bounds_small [OF small _ _ row]
  have w: "0 \<le> w" using small by (simp add: small_def)
  have stride: "wrap (w * 4) = 4 * w" "as_usize (4 * w) = nat (4 * w)" using b [of 0] w by (simp_all add: mult.commute)
  have row_off: "as_usize (wrap (py * (4 * w))) = nat (4 * (py * w + 0))"
    using b [of 0] w by (simp add: mult.left_commute [of py 4])
  have col: "nat (4 * (py * w + 0)) + as_usize (wrap (x * 4)) = nat (4 * (py * w + x))" if "0 \<le> x" "x \<le> w" for x
    using b [OF that] that by (simp add: mult.commute [of x] nat_add_distrib)
  have right: "nat (4 * (py * w + 0)) + as_usize (4 * w) = nat (4 * (py * w + w))"
    using col [OF w order_refl] unfolding stride(1) .
  show ?thesis
  proof (cases "row_span fl pts w h py")
    case None
    have "draws w h (fill_zero (nat (4 * (py * w + 0))) (nat (4 * (py * w + w))))
        (sets clear (\<lambda>p. snd p = py \<and> 0 \<le> fst p \<and> fst p < w))" using row w by (intro draws_fill_zero) simp_all
    then have "draws w h (paint_row fl pts g w h py) (sets clear (\<lambda>p. snd p = py \<and> 0 \<le> fst p \<and> fst p < w))"
      unfolding paint_row_def [abs_def] Let_def None stride row_off right [unfolded stride] by simp
    then show ?thesis by (rule draws_cong) (auto simp: sets_def polygon_pixel_def None on_canvas_def)
  next
    case (Some span)
    obtain x0 x1 where span: "row_span fl pts w h py = Some (x0, x1)" using Some by (cases span) simp
    have x: "0 \<le> x0" "x0 < x1" "x1 \<le> w" using row_span_bounds [OF span w] by simp_all
    let ?t = "grad_at fl g x0 (f_add fl (f_of_int fl py) HALF)" and ?dt = "grad_step fl g"
    let ?left = "\<lambda>d. if 0 < x0 then fill_zero (nat (4 * (py * w + 0))) (nat (4 * (py * w + x0))) d else Some d"
    let ?mid = "paint_span fl g ?dt (nat (x1 - x0)) (nat (4 * (py * w + x0))) ?t"
    let ?right = "\<lambda>d. if x1 < w then fill_zero (nat (4 * (py * w + x1))) (nat (4 * (py * w + w))) d else Some d"
    have left: "draws w h ?left (\<lambda>p old. if 0 < x0 then sets clear (\<lambda>p. snd p = py \<and> 0 \<le> fst p \<and> fst p < x0) p old else old)"
      using row x by (intro draws_cond draws_fill_zero) simp_all
    have mid: "draws w h ?mid (span_pixel fl g ?dt ?t py x0 (x0 + int (nat (x1 - x0))))"
      using row x small by (intro draws_span) simp_all
    have right': "draws w h ?right (\<lambda>p old. if x1 < w then sets clear (\<lambda>p. snd p = py \<and> x1 \<le> fst p \<and> fst p < w) p old else old)"
      using row x by (intro draws_cond draws_fill_zero) simp_all
    have row_eq: "paint_row fl pts g w h py = (\<lambda>d. Option.bind (?left d) (\<lambda>d1. Option.bind (?mid d1) ?right))"
      using x col [of x0] col [of x1] unfolding paint_row_def [abs_def] Let_def span stride row_off
      by (simp add: right [unfolded stride, simplified] cong: if_cong)
    show ?thesis unfolding row_eq
      by (rule draws_cong [OF draws_seq [OF left draws_seq [OF mid right']]])
        (use x in \<open>auto simp: sets_def span_pixel_def polygon_pixel_def span on_canvas_def\<close>)
  qed
qed

lemma fold_row:
  "distinct ys \<Longrightarrow> fold (\<lambda>y old. if r = y then v y else old) ys c = (if r \<in> set ys then v r else c)"
  by (induction ys arbitrary: c) auto

lemma draws_polygon:
  "draws w h (fill_polygon_bgra fl w h pts g) (\<lambda>p old. polygon_pixel fl pts g w h p)"
proof -
  have "draws w h (fill_polygon_bgra fl w h pts g)
      (\<lambda>p old. fold (\<lambda>py old. if snd p = py then polygon_pixel fl pts g w h p else old) (irange 0 h) old)"
    unfolding fill_polygon_bgra_def by (intro draws_fold draws_row) (simp_all add: irange_def)
  then show ?thesis
    by (rule draws_cong) (simp add: fold_row on_canvas_def irange_def)
qed

section \<open>The trail\<close>

lemma step_nodes_length: "length (fst (step_nodes fl dt target ns)) = length ns"
  by (induction ns arbitrary: target) (simp_all add: Let_def split: prod.splits, metis fst_conv)

section \<open>The circles\<close>

lemma draws_circle:
  assumes "0 \<le> radius" and "radius \<le> 2 ^ 16"
  shows "draws (2 * radius + 1) (2 * radius + 1) (render_circle fl radius)
    (\<lambda>p old. circle_colour fl radius (fst p) (snd p))"
proof -
  let ?d = "2 * radius + 1"
  have d: "wrap (wrap (radius * 2) + 1) = ?d" using assms by simp
  have put: "draws ?d ?d (put4 (as_usize (wrap (wrap (wrap (py * ?d) + px) * 4))) (circle_colour fl radius px py))
      (sets (circle_colour fl radius px py) (\<lambda>p. p = (px, py)))" if on: "on_canvas ?d ?d (px, py)" for px py
  proof (rule draws_small)
    assume small: "small ?d ?d"
    have x: "0 \<le> px" "px < ?d" and y: "0 \<le> py" "py < ?d" using on by (simp_all add: on_canvas_def)
    note b = offset_bounds_small [OF small x(1) less_imp_le [OF x(2)] y]
    have lim: "4 * (?d * ?d) < 2 ^ 31" using small unfolding small_def by blast
    define m where "m = py * ?d"
    have m: "0 \<le> m" "4 * (m + px) < 2 ^ 31"
      using b(1,2) x lim by (simp_all add: m_def le_less_trans [OF mult_left_mono [OF b(2), of 4]])
    then have "as_usize (wrap (wrap (wrap m + px) * 4)) = nat (4 * (m + px))" using x by (simp add: mult.commute)
    then show ?thesis using draws_put4 [OF on] unfolding m_def by simp
  qed
  have "draws ?d ?d (fold_panic (\<lambda>py. fold_panic (\<lambda>px.
        put4 (as_usize (wrap (wrap (wrap (py * ?d) + px) * 4))) (circle_colour fl radius px py)) (irange 0 ?d)) (irange 0 ?d))
      (\<lambda>p old. fold (\<lambda>py old. fold (\<lambda>px. sets (circle_colour fl radius px py) (\<lambda>p. p = (px, py)) p) (irange 0 ?d) old) (irange 0 ?d) old)"
    by (intro draws_fold put) (auto simp: irange_def on_canvas_def)
  moreover have inner: "fold (\<lambda>px. sets (circle_colour fl radius px py) (\<lambda>p. p = (px, py)) p) xs old =
      (if snd p = py \<and> fst p \<in> set xs then circle_colour fl radius (fst p) py else old)"
    if "distinct xs" for xs py p old
    using that by (induction xs arbitrary: old) (auto simp: sets_def prod_eq_iff)
  ultimately have "draws ?d ?d (render_circle fl radius) (\<lambda>p old. fold (\<lambda>py old.
      if snd p = py \<and> fst p \<in> set (irange 0 ?d) then circle_colour fl radius (fst p) py else old) (irange 0 ?d) old)"
    unfolding render_circle_def Let_def d by (simp add: irange_def)
  then show ?thesis by (elim draws_cong) (simp add: fold_row irange_def on_canvas_def)
qed

section \<open>Claims\<close>

text \<open>
  Whatever floating point does (infinities, NaNs, saturating casts), filling the jelly polygon
  writes every pixel of the buffer and nothing outside it: in each row one run of columns carries the
  gradient, the rest is transparent, and nothing of the old buffer remains. So a frame of the
  animation never panics while its box fits a buffer, asks for the next frame while it runs, and the
  first frame 200 ms after its start ends it: nothing is drawn and no frame asked for any more.
\<close>

theorem jelly_animates:
  assumes "je_state j = Animating from to start"
    and "\<forall>loc w h pts g. jelly_picture fl now j = Some (loc, (w, h), pts, g) \<longrightarrow> canvas_of w h (resized (w, h))"
  shows "(now - start < JELLY_DURATION \<longrightarrow>
      jelly_pre_paint now j = j \<and> jelly_post_paint j \<and>
      (\<exists>loc w h pts g data. jelly_picture fl now j = Some (loc, (w, h), pts, g) \<and>
         jelly_paint fl resized now j = Some (Some (loc, data), j\<lparr>je_commit := je_commit j + 1\<rparr>) \<and>
         int (length data) = 4 * (w * h) \<and>
         (\<forall>p. on_canvas w h p \<longrightarrow> pixel w data p = polygon_pixel fl pts g w h p))) \<and>
    (JELLY_DURATION \<le> now - start \<longrightarrow>
      je_state (jelly_pre_paint now j) = Primed to \<and> \<not> jelly_post_paint (jelly_pre_paint now j) \<and>
      (\<forall>later. jelly_paint fl resized later (jelly_pre_paint now j) = Some (None, jelly_pre_paint now j)))"
proof (cases "JELLY_DURATION \<le> now - start")
  case True
  then show ?thesis using assms(1)
    by (simp add: jelly_pre_paint_def jelly_post_paint_def jelly_paint_def jelly_picture_def jelly_progress_def)
next
  case False
  then have "jelly_picture fl now j \<noteq> None"
    using assms(1) by (simp add: jelly_picture_def jelly_progress_def Let_def split: prod.splits)
  then obtain loc w h pts g where pic: "jelly_picture fl now j = Some (loc, (w, h), pts, g)" by (metis option.exhaust prod.exhaust)
  obtain data where data: "fill_polygon_bgra fl w h pts g (resized (w, h)) = Some data" "canvas_of w h data"
      "\<forall>p. on_canvas w h p \<longrightarrow> pixel w data p = polygon_pixel fl pts g w h p"
    using draws_polygon [of w h fl pts g] assms(2) pic unfolding draws_def by blast
  then have "jelly_paint fl resized now j = Some (Some (loc, data), j\<lparr>je_commit := je_commit j + 1\<rparr>)"
      "int (length data) = 4 * (w * h)"
    by (simp_all add: jelly_paint_def pic canvas_of_def)
  moreover have "jelly_pre_paint now j = j" "jelly_post_paint j"
    using False assms(1) by (simp_all add: jelly_pre_paint_def jelly_post_paint_def)
  ultimately show ?thesis using pic data(3) False by (auto intro!: exI [of _ loc] exI [of _ w] exI [of _ h] exI [of _ data])
qed

text \<open>
  The trail has its ten beads at all times; after a frame with the pointer at a position, the head
  is there; the first frame after a pause gathers all beads at the pointer; and another frame is
  asked for exactly while a bead behind the head moves.
\<close>

theorem trail_follows:
  assumes "length (tr_nodes t) = NODE_COUNT"
  shows "length (tr_nodes (trail_pre_paint fl at now t)) = NODE_COUNT \<and>
    (\<forall>pos. at = Some pos \<longrightarrow> hd (tr_nodes (trail_pre_paint fl at now t)) = (pos, (0, 0)) \<and>
       tr_last_time (trail_pre_paint fl at now t) = Some now) \<and>
    (\<forall>pos. at = Some pos \<and> tr_last_time t = None \<and> f_le fl 0 0 \<longrightarrow>
       tr_nodes (trail_pre_paint fl at now t) = replicate NODE_COUNT (pos, (0, 0)) \<and>
       trail_post_paint (trail_pre_paint fl at now t)) \<and>
    (\<forall>pos prev. at = Some pos \<and> tr_last_time t = Some prev \<and> prev \<le> now \<and> \<not> f_le fl (f_secs fl (now - prev)) 0 \<longrightarrow>
       trail_post_paint (trail_pre_paint fl at now t) =
         snd (step_nodes fl (f_min fl (f_secs fl (now - prev)) MAX_DT) pos (tl (tr_nodes t))))"
proof -
  obtain n ns where nodes: "tr_nodes t = n # ns" "length ns = 9"
    using assms by (cases "tr_nodes t") (simp_all add: NODE_COUNT_def)
  have len: "length ms = 9" if "step_nodes fl dt pos ns = (ms, m)" for dt pos ms m
    using step_nodes_length [of fl dt pos ns] that nodes(2) by simp
  show ?thesis using assms
    by (auto simp: trail_pre_paint_def trail_post_paint_def step_physics_def Let_def nodes NODE_COUNT_def
        map_replicate_const dest: len split: option.splits prod.splits)
qed

text \<open>A floating point in which everything is zero and no comparison holds.\<close>

definition zero_floats :: paint_floats where
  "zero_floats = \<lparr>f_add = \<lambda>a b. 0, f_sub = \<lambda>a b. 0, f_mul = \<lambda>a b. 0, f_div = \<lambda>a b. 0, f_min = \<lambda>a b. 0,
     f_lt = \<lambda>a b. False, f_le = \<lambda>a b. True, f_of = \<lambda>n. 0, f_round = \<lambda>x. 0, f_trunc = \<lambda>x. 0,
     f_floor = \<lambda>x. 0, f_ceil = \<lambda>x. 0, f_abs = \<lambda>x. 0, f_neg = \<lambda>x. 0, f_sqrt = \<lambda>x. 0, f_nan = \<lambda>x. False,
     f_secs = \<lambda>n. 0, f_byte = \<lambda>x. 0, f_single = \<lambda>x. 0, s_add = \<lambda>a b. 0, s_sub = \<lambda>a b. 0, s_mul = \<lambda>a b. 0,
     s_of_byte = \<lambda>b. 0, s_round_byte = \<lambda>x. 0\<rparr>"

theorem jelly_animates_witness:
  "\<exists>loc data. jelly_paint zero_floats (\<lambda>(w, h). replicate 64 0) 50 (jelly_new\<lparr>je_state := Animating (0, 0, 8, 16) (20, 0, 8, 16) 0\<rparr>) =
      Some (Some (loc, data), jelly_new\<lparr>je_state := Animating (0, 0, 8, 16) (20, 0, 8, 16) 0, je_commit := 1\<rparr>) \<and>
     length data = 64"
proof -
  let ?j = "jelly_new\<lparr>je_state := Animating (0, 0, 8, 16) (20, 0, 8, 16) 0\<rparr>"
  have box: "w = 4 \<and> h = 4" if "jelly_picture zero_floats 50 ?j = Some (loc, (w, h), pts, g)" for loc w h pts g
    using that
    by (auto simp: jelly_picture_def jelly_progress_def as_i32_def zero_floats_def BBOX_PAD_def Let_def split: prod.splits if_splits)
  have canvas: "\<forall>loc w h pts g. jelly_picture zero_floats 50 ?j = Some (loc, (w, h), pts, g) \<longrightarrow>
      canvas_of w h (case (w, h) of (w, h) \<Rightarrow> replicate 64 0)"
  proof (intro allI impI)
    fix loc w h pts g assume "jelly_picture zero_floats 50 ?j = Some (loc, (w, h), pts, g)"
    from box [OF this] show "canvas_of w h (case (w, h) of (w, h) \<Rightarrow> replicate 64 0)" by (simp add: canvas_of_def)
  qed
  have "50 - 0 < JELLY_DURATION" by (simp add: JELLY_DURATION_def)
  then obtain loc w h pts g data where "jelly_picture zero_floats 50 ?j = Some (loc, (w, h), pts, g)"
      "jelly_paint zero_floats (\<lambda>(w, h). replicate 64 0) 50 ?j = Some (Some (loc, data), ?j\<lparr>je_commit := je_commit ?j + 1\<rparr>)"
      "int (length data) = 4 * (w * h)"
    using jelly_animates [of ?j "(0, 0, 8, 16)" "(20, 0, 8, 16)" 0 zero_floats 50 "\<lambda>(w, h). replicate 64 0"] canvas by auto
  then show ?thesis using box by (auto simp: jelly_new_def)
qed

theorem trail_follows_witness:
  "hd (tr_nodes (trail_pre_paint zero_floats (Some (3, 4)) 7
      \<lparr>tr_enabled = True, tr_last_time = None, tr_settled = True, tr_nodes = replicate 10 ((0, 0), (0, 0))\<rparr>)) = ((3, 4), (0, 0))"
  using trail_follows [of "\<lparr>tr_enabled = True, tr_last_time = None, tr_settled = True,
      tr_nodes = replicate 10 ((0, 0), (0, 0))\<rparr>" zero_floats "Some (3, 4)" 7] by (simp add: NODE_COUNT_def)

end
