(* ===== verification/Emez.thy ===== *)
theory Emez
  imports World Keyed_Store
begin

text \<open>
  \<open>crates/emez\<close>, the host compositor of the end-to-end tests: keyboard focus by activation with a
  fallback surface, a clipboard manager that keeps the contents of short-lived clients, the link
  to the X side of the clipboard (\<open>handlers.rs\<close>, \<open>xwayland.rs\<close>), start and end (\<open>state.rs\<close>, \<open>main.rs\<close>).

  smithay is a parameter: whether a surface is alive, what \<open>set_focus\<close> does to the focus. Calls made
  on it are kept in \<open>ez_calls\<close>, in order. The window manager of the X side is there or not; the
  pipes of the clipboard manager are event sources with a number; what a \<open>read\<close> returns is given.
  A callback inserted with \<open>insert_idle\<close> waits in \<open>ez_idle\<close>.
\<close>

section \<open>State\<close>

datatype target = Clip | Primary

datatype ez_call =
    SetDataDeviceFocus "surface option"
  | SetPrimaryFocus "surface option"
  | ToplevelConfigure surface
  | CallbacksDone surface
  | XNewSelection target "string list option"
  | XSendSelection target string nat
  | SetSelection target "string list"
  | ClearSelection target
  | RequestSelection target string nat
  | ServeBuffer nat bytes
  | ClosePipe nat
  | XSetMapped nat bool
  | XConfigure nat "i32 \<times> i32"
  | WriteReady string
  | RemoveFile string

record emez =
  ez_manager :: bool
  ez_buffer :: "(string \<times> bytes) list"
  ez_mimes :: "string list"
  ez_fallback :: "surface option"
  ez_focus :: "surface option"
  ez_xwm :: bool
  ez_xdisplay :: "u32 option"
  ez_ready_file :: "string option"
  ez_idle :: "string list list"
  ez_readers :: "(nat \<times> string) list"
  ez_next :: nat
  ez_calls :: "ez_call list"

record ez_lib =
  zl_alive :: "surface \<Rightarrow> bool"
  zl_set :: "surface option \<Rightarrow> surface option \<Rightarrow> surface option \<times> bool"

definition emez_new :: "bool \<Rightarrow> emez" where
  "emez_new hide_data_control = \<lparr>ez_manager = hide_data_control, ez_buffer = [], ez_mimes = [], ez_fallback = None,
     ez_focus = None, ez_xwm = False, ez_xdisplay = None, ez_ready_file = None, ez_idle = [], ez_readers = [],
     ez_next = 0, ez_calls = []\<rparr>"

definition ez_call :: "ez_call list \<Rightarrow> emez \<Rightarrow> emez" where
  "ez_call cs s = s\<lparr>ez_calls := ez_calls s @ cs\<rparr>"

section \<open>Focus\<close>

text \<open>\<open>KeyboardHandle::set_focus\<close> on a surface, and \<open>focus_changed\<close> as it calls it back: with a
  surface there is nothing to fall back from.\<close>

definition announce_focus :: "surface option \<Rightarrow> emez \<Rightarrow> emez" where
  "announce_focus focused = ez_call [SetDataDeviceFocus focused, SetPrimaryFocus focused]"

definition focus_on :: "ez_lib \<Rightarrow> surface \<Rightarrow> emez \<Rightarrow> emez" where
  "focus_on zl t s =
     (case zl_set zl (ez_focus s) (Some t) of
        (new, changed) \<Rightarrow>
          (let s1 = s\<lparr>ez_focus := new\<rparr> in if changed then announce_focus new s1 else s1))"

definition ez_focus_changed :: "ez_lib \<Rightarrow> surface option \<Rightarrow> emez \<Rightarrow> emez" where
  "ez_focus_changed zl focused s =
     (let s1 = announce_focus focused s in
      if focused \<noteq> None then s1
      else case ez_fallback s1 of
        None \<Rightarrow> s1
      | Some primary \<Rightarrow> if zl_alive zl primary then focus_on zl primary s1 else s1\<lparr>ez_fallback := None\<rparr>)"

text \<open>The focus is taken away: smithay clears it and calls back.\<close>

definition unfocus :: "ez_lib \<Rightarrow> emez \<Rightarrow> emez" where
  "unfocus zl s =
     (case zl_set zl (ez_focus s) None of
        (new, changed) \<Rightarrow>
          (let s1 = s\<lparr>ez_focus := new\<rparr> in if changed then ez_focus_changed zl new s1 else s1))"

definition request_activation :: "ez_lib \<Rightarrow> surface \<Rightarrow> emez \<Rightarrow> emez" where
  "request_activation zl wl s =
     (let gone = (case ez_fallback s of None \<Rightarrow> True | Some p \<Rightarrow> \<not> zl_alive zl p);
          s1 = (if gone then s\<lparr>ez_fallback := Some wl\<rparr> else s) in
      focus_on zl wl s1)"

section \<open>Windows\<close>

definition ez_new_toplevel :: "surface \<Rightarrow> emez \<Rightarrow> emez" where
  "ez_new_toplevel wl = ez_call [ToplevelConfigure wl]"

text \<open>\<open>tree\<close> are the surfaces below and including the one committed.\<close>

definition ez_commit :: "surface list \<Rightarrow> emez \<Rightarrow> emez" where
  "ez_commit tree = ez_call (map CallbacksDone tree)"

definition map_window_request :: "nat \<Rightarrow> emez \<Rightarrow> emez" where
  "map_window_request w = ez_call [XSetMapped w True]"

definition unmapped_window :: "bool \<Rightarrow> nat \<Rightarrow> emez \<Rightarrow> emez" where
  "unmapped_window override_redirect w s = (if \<not> override_redirect then ez_call [XSetMapped w False] s else s)"

definition configure_request :: "i32 \<times> i32 \<Rightarrow> nat \<Rightarrow> u32 option \<Rightarrow> u32 option \<Rightarrow> emez \<Rightarrow> emez" where
  "configure_request geo win w h =
     ez_call [XConfigure win (case w of None \<Rightarrow> fst geo | Some x \<Rightarrow> ucast x, case h of None \<Rightarrow> snd geo | Some x \<Rightarrow> ucast x)]"

section \<open>The clipboard manager\<close>

definition clear_clipboard :: "emez \<Rightarrow> emez" where
  "clear_clipboard s = s\<lparr>ez_buffer := [], ez_mimes := []\<rparr>"

text \<open>\<open>SelectionHandler::new_selection\<close>: \<open>source\<close> is the list of types offered.\<close>

definition ez_new_selection :: "target \<Rightarrow> string list option \<Rightarrow> emez \<Rightarrow> emez" where
  "ez_new_selection ty source s =
     (let s1 = (if ez_xwm s then ez_call [XNewSelection ty source] s else s) in
      if ty = Clip \<and> ez_manager s1
      then (case source of
              Some mimes \<Rightarrow> if mimes = [] then clear_clipboard s1 else s1\<lparr>ez_idle := ez_idle s1 @ [mimes]\<rparr>
            | None \<Rightarrow> clear_clipboard s1)
      else s1)"

text \<open>One round of the loop over the types. The answers: whether the pipe was made, the client could
  be asked, the source was inserted. The write end goes to the client or is closed by the failed
  request; a reader that is not inserted is closed.\<close>

record drain_answer =
  da_pipe :: bool
  da_request :: bool
  da_insert :: bool

definition drain_mime :: "string \<times> drain_answer \<Rightarrow> emez \<Rightarrow> emez" where
  "drain_mime x s =
     (case x of (mime, a) \<Rightarrow>
        if \<not> da_pipe a then s
        else
          (let k = ez_next s;
               s1 = ez_call [RequestSelection Clip mime k] (s\<lparr>ez_next := k + 1\<rparr>) in
           if \<not> da_request a then ez_call [ClosePipe k] s1
           else
             (let s2 = s1\<lparr>ez_buffer := AList.update mime [] (ez_buffer s1)\<rparr> in
              if da_insert a then s2\<lparr>ez_readers := ez_readers s2 @ [(k, mime)]\<rparr> else ez_call [ClosePipe k] s2)))"

definition drain_and_take_over :: "ez_lib \<Rightarrow> (string \<times> drain_answer) list \<Rightarrow> emez \<Rightarrow> emez" where
  "drain_and_take_over zl answers s =
     (let mimes = map fst answers;
          s1 = fold drain_mime answers (s\<lparr>ez_buffer := [], ez_mimes := mimes\<rparr>);
          s2 = ez_call [SetSelection Clip (ez_mimes s1)] s1 in
      case ez_fallback s2 of
        None \<Rightarrow> s2
      | Some primary \<Rightarrow> if zl_alive zl primary then focus_on zl primary s2 else s2)"

text \<open>The idle callbacks run in the order of their insertion; \<open>answer\<close> gives the answers of each type.\<close>

definition run_idle :: "ez_lib \<Rightarrow> (string \<Rightarrow> drain_answer) \<Rightarrow> emez \<Rightarrow> emez" where
  "run_idle zl answer s =
     (case ez_idle s of
        [] \<Rightarrow> s
      | mimes # rest \<Rightarrow> drain_and_take_over zl (map (\<lambda>m. (m, answer m)) mimes) (s\<lparr>ez_idle := rest\<rparr>))"

text \<open>What a \<open>read\<close> returns; the loop of the callback ends at the end of file, an error or
  \<open>WouldBlock\<close>. The result tells whether the source stays.\<close>

datatype pipe_read = Chunk bytes | Eof | WouldBlock | ReadError

definition append_buffer :: "string \<Rightarrow> bytes \<Rightarrow> emez \<Rightarrow> emez" where
  "append_buffer mime data s =
     (case map_of (ez_buffer s) mime of
        None \<Rightarrow> s
      | Some buf \<Rightarrow> s\<lparr>ez_buffer := AList.update mime (buf @ data) (ez_buffer s)\<rparr>)"

fun read_pipe :: "string \<Rightarrow> pipe_read list \<Rightarrow> emez \<Rightarrow> bool \<times> emez" where
  "read_pipe mime [] s = (True, s)"
| "read_pipe mime (Chunk data # rs) s = read_pipe mime rs (append_buffer mime data s)"
| "read_pipe mime (Eof # rs) s = (False, s)"
| "read_pipe mime (WouldBlock # rs) s = (True, s)"
| "read_pipe mime (ReadError # rs) s = (False, s)"

definition reader_ready :: "nat \<Rightarrow> pipe_read list \<Rightarrow> emez \<Rightarrow> emez" where
  "reader_ready k rs s =
     (case map_of (ez_readers s) k of
        None \<Rightarrow> s
      | Some mime \<Rightarrow>
          (case read_pipe mime rs s of
             (keep, s1) \<Rightarrow>
               if keep then s1
               else ez_call [ClosePipe k] (s1\<lparr>ez_readers := filter (\<lambda>(k', m). k' \<noteq> k) (ez_readers s1)\<rparr>)))"

text \<open>\<open>SelectionHandler::send_selection\<close>; a thread writes the buffer and closes the pipe.\<close>

definition ez_send_selection :: "target \<Rightarrow> string \<Rightarrow> nat \<Rightarrow> emez \<Rightarrow> emez" where
  "ez_send_selection ty mime fd s =
     (case (if ty = Clip then map_of (ez_buffer s) mime else None) of
        Some data \<Rightarrow> ez_call [ServeBuffer fd data] s
      | None \<Rightarrow> if ez_xwm s then ez_call [XSendSelection ty mime fd] s else ez_call [ClosePipe fd] s)"

section \<open>The X side\<close>

definition xwayland_ready :: "bool \<Rightarrow> u32 \<Rightarrow> string \<Rightarrow> emez \<Rightarrow> emez" where
  "xwayland_ready wm_started n text s =
     (if wm_started
      then (let s1 = s\<lparr>ez_xwm := True, ez_xdisplay := Some n\<rparr> in
            case ez_ready_file s1 of None \<Rightarrow> s1 | Some path \<Rightarrow> ez_call [WriteReady text] s1)
      else s)"

text \<open>\<open>XwmHandler\<close>: \<open>send_selection\<close>, \<open>new_selection\<close>, \<open>cleared_selection\<close>, \<open>disconnected\<close>. A selection set
  by the compositor is not reported to \<open>SelectionHandler\<close>; \<open>owned\<close> is whether the compositor has one.\<close>

definition x_send_selection :: "target \<Rightarrow> string \<Rightarrow> nat \<Rightarrow> emez \<Rightarrow> emez" where
  "x_send_selection ty mime fd = ez_call [RequestSelection ty mime fd]"

definition x_new_selection :: "target \<Rightarrow> string list \<Rightarrow> emez \<Rightarrow> emez" where
  "x_new_selection ty mimes = ez_call [SetSelection ty mimes]"

definition x_cleared_selection :: "bool \<Rightarrow> target \<Rightarrow> emez \<Rightarrow> emez" where
  "x_cleared_selection owned ty s = (if owned then ez_call [ClearSelection ty] s else s)"

definition x_disconnected :: "emez \<Rightarrow> emez" where
  "x_disconnected s = s\<lparr>ez_xwm := False\<rparr>"

section \<open>Exit\<close>

definition ez_exit :: "(u32 \<Rightarrow> string) \<Rightarrow> emez \<Rightarrow> emez" where
  "ez_exit show_n s =
     (case ez_xdisplay s of
        None \<Rightarrow> s
      | Some n \<Rightarrow> ez_call [RemoveFile (''/tmp/.X11-unix/X'' @ show_n n), RemoveFile (''/tmp/.X'' @ show_n n @ ''-lock'')] s)"

end
