(* ===== verification/Emez_Props.thy ===== *)
theory Emez_Props
  imports Emez
begin

text \<open>
  The test host keeps what a client copied after the client is gone, and gives the keyboard back to
  the surface that had it first; and two ways in which the clipboard manager mixes up contents.
\<close>

section \<open>Events\<close>

datatype ez_event =
    Activated surface
  | Unfocused
  | Selected target "string list option"
  | Idle "string \<Rightarrow> drain_answer"
  | Readable nat "pipe_read list"
  | Pasted target string nat
  | XSelected target "string list"
  | XGone

definition ez_step :: "ez_lib \<Rightarrow> ez_event \<Rightarrow> emez \<Rightarrow> emez" where
  "ez_step zl ev s =
     (case ev of
        Activated wl \<Rightarrow> request_activation zl wl s
      | Unfocused \<Rightarrow> unfocus zl s
      | Selected ty src \<Rightarrow> ez_new_selection ty src s
      | Idle answer \<Rightarrow> run_idle zl answer s
      | Readable k rs \<Rightarrow> reader_ready k rs s
      | Pasted ty mime fd \<Rightarrow> ez_send_selection ty mime fd s
      | XSelected ty mimes \<Rightarrow> x_new_selection ty mimes s
      | XGone \<Rightarrow> x_disconnected s)"

definition ez_run :: "ez_lib \<Rightarrow> ez_event list \<Rightarrow> emez \<Rightarrow> emez" where
  "ez_run zl = fold (ez_step zl)"

text \<open>\<open>set_focus\<close> without a grab.\<close>

definition ez_focus_law :: "ez_lib \<Rightarrow> bool" where
  "ez_focus_law zl \<longleftrightarrow> (\<forall>old req. zl_set zl old req = (req, old \<noteq> req))"

section \<open>The fallback surface\<close>

lemma ez_call_frame [simp]:
  "ez_focus (ez_call cs s) = ez_focus s" "ez_fallback (ez_call cs s) = ez_fallback s"
  "ez_buffer (ez_call cs s) = ez_buffer s" "ez_readers (ez_call cs s) = ez_readers s"
  "ez_mimes (ez_call cs s) = ez_mimes s" "ez_idle (ez_call cs s) = ez_idle s" "ez_next (ez_call cs s) = ez_next s"
  "ez_xwm (ez_call cs s) = ez_xwm s" "ez_manager (ez_call cs s) = ez_manager s"
  "ez_calls (ez_call cs s) = ez_calls s @ cs"
  by (simp_all add: ez_call_def)

lemma focus_on_frame [simp]:
  "ez_fallback (focus_on zl t s) = ez_fallback s" "ez_buffer (focus_on zl t s) = ez_buffer s"
  "ez_readers (focus_on zl t s) = ez_readers s" "ez_idle (focus_on zl t s) = ez_idle s"
  "ez_next (focus_on zl t s) = ez_next s" "ez_mimes (focus_on zl t s) = ez_mimes s"
  by (simp_all add: focus_on_def announce_focus_def Let_def split: prod.split)

lemma focus_on_focus: "ez_focus_law zl \<Longrightarrow> ez_focus (focus_on zl t s) = Some t"
  by (simp add: focus_on_def ez_focus_law_def announce_focus_def Let_def)

lemma drain_mime_frame [simp]:
  "ez_focus (drain_mime x s) = ez_focus s" "ez_fallback (drain_mime x s) = ez_fallback s"
  "ez_mimes (drain_mime x s) = ez_mimes s" "ez_idle (drain_mime x s) = ez_idle s"
  by (simp_all add: drain_mime_def Let_def split: prod.split)

lemma fold_drain_frame [simp]:
  "ez_focus (fold drain_mime xs s) = ez_focus s" "ez_fallback (fold drain_mime xs s) = ez_fallback s"
  "ez_mimes (fold drain_mime xs s) = ez_mimes s" "ez_idle (fold drain_mime xs s) = ez_idle s"
  by (induction xs arbitrary: s) simp_all

lemma read_pipe_frame [simp]:
  "ez_focus (snd (read_pipe m rs s)) = ez_focus s" "ez_fallback (snd (read_pipe m rs s)) = ez_fallback s"
  "ez_readers (snd (read_pipe m rs s)) = ez_readers s" "ez_next (snd (read_pipe m rs s)) = ez_next s"
  by (induction m rs s rule: read_pipe.induct) (simp_all add: append_buffer_def split: option.split)

lemma ez_new_selection_frame [simp]:
  "ez_focus (ez_new_selection ty src s) = ez_focus s" "ez_fallback (ez_new_selection ty src s) = ez_fallback s"
  by (simp_all add: ez_new_selection_def clear_clipboard_def Let_def split: option.split)

text \<open>With a living fallback the keyboard is somewhere, and the fallback stays what it is.\<close>

definition rooted :: "ez_lib \<Rightarrow> surface \<Rightarrow> emez \<Rightarrow> bool" where
  "rooted zl p s \<longleftrightarrow> ez_fallback s = Some p \<and> ez_focus s \<noteq> None"

lemma rooted_step:
  assumes "ez_focus_law zl" and "zl_alive zl p" and "rooted zl p s"
  shows "rooted zl p (ez_step zl ev s)"
proof (cases ev)
  case (Activated wl)
  then show ?thesis using assms by (simp add: rooted_def ez_step_def request_activation_def focus_on_focus Let_def)
next
  case Unfocused
  have "ez_focus (unfocus zl s) = Some p \<and> ez_fallback (unfocus zl s) = Some p"
    using assms focus_on_focus [OF assms(1)]
    by (simp add: rooted_def unfocus_def ez_focus_law_def ez_focus_changed_def announce_focus_def Let_def)
  then show ?thesis using Unfocused by (simp add: rooted_def ez_step_def)
next
  case (Selected ty src)
  then show ?thesis using assms(3) by (simp add: rooted_def ez_step_def)
next
  case (Idle answer)
  then show ?thesis
    using assms focus_on_focus [OF assms(1)]
    by (auto simp: rooted_def ez_step_def run_idle_def drain_and_take_over_def Let_def split: list.split option.split)
next
  case (Readable k rs)
  then show ?thesis
    using assms(3) by (simp add: rooted_def ez_step_def reader_ready_def case_prod_beta split: option.split)
qed (use assms(3) in \<open>auto simp: rooted_def ez_step_def ez_send_selection_def x_new_selection_def x_disconnected_def
      split: option.split\<close>)

lemma rooted_run:
  "ez_focus_law zl \<Longrightarrow> zl_alive zl p \<Longrightarrow> rooted zl p s \<Longrightarrow> rooted zl p (ez_run zl evs s)"
  by (induction evs arbitrary: s) (simp_all add: ez_run_def rooted_step)

section \<open>Contents\<close>

text \<open>What reader \<open>k\<close> delivers up to its end, over the events that concern it.\<close>

fun pipe_data :: "pipe_read list \<Rightarrow> bytes" where
  "pipe_data (Chunk d # rs) = d @ pipe_data rs"
| "pipe_data _ = []"

fun pipe_ends :: "pipe_read list \<Rightarrow> bool" where
  "pipe_ends (Chunk d # rs) = pipe_ends rs"
| "pipe_ends (Eof # rs) = True"
| "pipe_ends (ReadError # rs) = True"
| "pipe_ends _ = False"

fun delivered :: "nat \<Rightarrow> (nat \<times> pipe_read list) list \<Rightarrow> bytes" where
  "delivered k [] = []"
| "delivered k ((k', rs) # evs) =
     (if k' \<noteq> k then delivered k evs
      else pipe_data rs @ (if pipe_ends rs then [] else delivered k evs))"

lemma read_pipe_eq:
  "read_pipe m rs s = (\<not> pipe_ends rs, append_buffer m (pipe_data rs) s)"
proof (induction m rs s rule: read_pipe.induct)
  case (2 m d rs s)
  show ?case
    using 2 by (simp add: append_buffer_def update_conv' split: option.split)
qed (simp_all add: append_buffer_def update_triv map_of_SomeD split: option.split)

text \<open>Events that start no new transfer, and the pipe_reads among them.\<close>

fun calm :: "ez_event \<Rightarrow> bool" where
  "calm (Selected ty src) = (ty \<noteq> Clip)"
| "calm (Idle answer) = False"
| "calm _ = True"

fun pipe_reads :: "ez_event list \<Rightarrow> (nat \<times> pipe_read list) list" where
  "pipe_reads [] = []"
| "pipe_reads (Readable k rs # evs) = (k, rs) # pipe_reads evs"
| "pipe_reads (_ # evs) = pipe_reads evs"

lemma calm_frame:
  assumes "calm ev" and "\<And>k rs. ev \<noteq> Readable k rs"
  shows "ez_buffer (ez_step zl ev s) = ez_buffer s" and "ez_readers (ez_step zl ev s) = ez_readers s"
  using assms
  by (cases ev; simp add: ez_step_def request_activation_def unfocus_def ez_focus_changed_def announce_focus_def
      ez_new_selection_def ez_send_selection_def x_new_selection_def x_disconnected_def Let_def case_prod_beta
      split: option.split)+

text \<open>Every reader has its own type, whose buffer is there.\<close>

definition readers_ok :: "emez \<Rightarrow> bool" where
  "readers_ok s \<longleftrightarrow> distinct (map fst (ez_readers s)) \<and> distinct (map snd (ez_readers s)) \<and>
     (\<forall>(k, m) \<in> set (ez_readers s). map_of (ez_buffer s) m \<noteq> None)"

definition buffer_of :: "string \<Rightarrow> emez \<Rightarrow> bytes" where
  "buffer_of m s = (case map_of (ez_buffer s) m of None \<Rightarrow> [] | Some b \<Rightarrow> b)"

lemma reader_ready_known:
  assumes "readers_ok s" and "(k, m) \<in> set (ez_readers s)"
  shows "map_of (ez_buffer (reader_ready k rs s)) = (map_of (ez_buffer s))(m \<mapsto> buffer_of m s @ pipe_data rs)"
    and "ez_readers (reader_ready k rs s) =
      (if pipe_ends rs then filter (\<lambda>(k', m). k' \<noteq> k) (ez_readers s) else ez_readers s)"
proof -
  have "map_of (ez_readers s) k = Some m" using assms by (simp add: readers_ok_def)
  moreover obtain b where "map_of (ez_buffer s) m = Some b" using assms by (auto simp: readers_ok_def)
  ultimately show "map_of (ez_buffer (reader_ready k rs s)) = (map_of (ez_buffer s))(m \<mapsto> buffer_of m s @ pipe_data rs)"
    "ez_readers (reader_ready k rs s) =
      (if pipe_ends rs then filter (\<lambda>(k', m). k' \<noteq> k) (ez_readers s) else ez_readers s)"
    by (simp_all add: reader_ready_def read_pipe_eq append_buffer_def update_conv' buffer_of_def)
qed

lemma reader_ready_unknown: "k \<notin> fst ` set (ez_readers s) \<Longrightarrow> reader_ready k rs s = s"
  by (simp add: reader_ready_def map_of_eq_None_iff [symmetric])

lemma distinct_filter_fst: "distinct (map f xs) \<Longrightarrow> distinct (map f (filter P xs))"
  by (simp add: distinct_map inj_on_def)

lemma readers_ok_ready: "readers_ok s \<Longrightarrow> readers_ok (reader_ready k rs s)"
proof (cases "k \<in> fst ` set (ez_readers s)")
  case True
  assume ok: "readers_ok s"
  from True obtain m where m: "(k, m) \<in> set (ez_readers s)" by auto
  show ?thesis
    using ok by (auto simp: readers_ok_def reader_ready_known [OF ok m] distinct_filter_fst)
qed (simp add: reader_ready_unknown)

text \<open>One event, seen by reader \<open>k\<close> of type \<open>m\<close> and by a type without a reader.\<close>

fun ends :: "nat \<Rightarrow> ez_event \<Rightarrow> bool" where
  "ends k (Readable k' rs) = (k' = k \<and> pipe_ends rs)"
| "ends k _ = False"

lemma delivered_Cons:
  "delivered k (pipe_reads (ev # evs)) = delivered k (pipe_reads [ev]) @ (if ends k ev then [] else delivered k (pipe_reads evs))"
  by (cases ev) auto

lemma other_reader:
  assumes "readers_ok s" and "(k, m) \<in> set (ez_readers s)" and "(k', m') \<in> set (ez_readers s)"
  shows "k = k' \<longleftrightarrow> m = m'"
proof -
  have "inj_on fst (set (ez_readers s))" "inj_on snd (set (ez_readers s))"
    using assms(1) by (simp_all add: readers_ok_def distinct_map)
  from inj_onD [OF this(1) _ assms(2,3)] inj_onD [OF this(2) _ assms(2,3)] show ?thesis by auto
qed

lemma read_mine:
  assumes "readers_ok s" and "(k, m) \<in> set (ez_readers s)"
  shows "map_of (ez_buffer (reader_ready k rs s)) m = Some (buffer_of m s @ pipe_data rs)"
    and "pipe_ends rs \<Longrightarrow> m \<notin> snd ` set (ez_readers (reader_ready k rs s))"
    and "\<not> pipe_ends rs \<Longrightarrow> (k, m) \<in> set (ez_readers (reader_ready k rs s))"
proof -
  show "map_of (ez_buffer (reader_ready k rs s)) m = Some (buffer_of m s @ pipe_data rs)"
    "\<not> pipe_ends rs \<Longrightarrow> (k, m) \<in> set (ez_readers (reader_ready k rs s))"
    using assms by (simp_all add: reader_ready_known [OF assms])
  assume "pipe_ends rs"
  moreover have "k' = k" if "(k', m) \<in> set (ez_readers s)" for k'
    using other_reader [OF assms that] by simp
  ultimately show "m \<notin> snd ` set (ez_readers (reader_ready k rs s))"
    by (auto simp: reader_ready_known [OF assms])
qed

lemma read_other:
  assumes "readers_ok s" and "(k', m) \<notin> set (ez_readers s)"
  shows "map_of (ez_buffer (reader_ready k' rs s)) m = map_of (ez_buffer s) m"
    and "(k, m) \<in> set (ez_readers (reader_ready k' rs s)) \<longleftrightarrow> (k, m) \<in> set (ez_readers s)"
proof -
  have "map_of (ez_buffer (reader_ready k' rs s)) m = map_of (ez_buffer s) m \<and>
      ((k, m) \<in> set (ez_readers (reader_ready k' rs s)) \<longleftrightarrow> (k, m) \<in> set (ez_readers s))"
  proof (cases "k' \<in> fst ` set (ez_readers s)")
    case True
    then obtain m' where m': "(k', m') \<in> set (ez_readers s)" by auto
    then have "m' \<noteq> m" using assms(2) by auto
    then show ?thesis using assms(2) by (auto simp: reader_ready_known [OF assms(1) m'])
  qed (simp add: reader_ready_unknown)
  then show "map_of (ez_buffer (reader_ready k' rs s)) m = map_of (ez_buffer s) m"
    "(k, m) \<in> set (ez_readers (reader_ready k' rs s)) \<longleftrightarrow> (k, m) \<in> set (ez_readers s)" by simp_all
qed

lemma calm_step:
  assumes "readers_ok s" and "calm ev"
  shows "readers_ok (ez_step zl ev s)"
    and "m \<notin> snd ` set (ez_readers s) \<Longrightarrow> m \<notin> snd ` set (ez_readers (ez_step zl ev s)) \<and>
      map_of (ez_buffer (ez_step zl ev s)) m = map_of (ez_buffer s) m"
    and "(k, m) \<in> set (ez_readers s) \<Longrightarrow>
      map_of (ez_buffer (ez_step zl ev s)) m = Some (buffer_of m s @ delivered k (pipe_reads [ev])) \<and>
      (if ends k ev then m \<notin> snd ` set (ez_readers (ez_step zl ev s)) else (k, m) \<in> set (ez_readers (ez_step zl ev s)))"
proof -
  have "readers_ok (ez_step zl ev s) \<and>
    (m \<notin> snd ` set (ez_readers s) \<longrightarrow> m \<notin> snd ` set (ez_readers (ez_step zl ev s)) \<and>
      map_of (ez_buffer (ez_step zl ev s)) m = map_of (ez_buffer s) m) \<and>
    ((k, m) \<in> set (ez_readers s) \<longrightarrow>
      map_of (ez_buffer (ez_step zl ev s)) m = Some (buffer_of m s @ delivered k (pipe_reads [ev])) \<and>
      (if ends k ev then m \<notin> snd ` set (ez_readers (ez_step zl ev s)) else (k, m) \<in> set (ez_readers (ez_step zl ev s))))"
  proof (cases "\<exists>k' rs. ev = Readable k' rs")
    case True
    then obtain k' rs where ev: "ev = Readable k' rs" by blast
    have step: "ez_step zl (Readable k' rs) s = reader_ready k' rs s" by (simp add: ez_step_def)
    show ?thesis
    proof (cases "(k', m) \<in> set (ez_readers s)")
      case True
      then have has: "m \<in> snd ` set (ez_readers s)" by force
      show ?thesis
      proof (cases "k = k'")
        case True
        with has \<open>(k', m) \<in> set (ez_readers s)\<close> show ?thesis
          using read_mine [OF assms(1), of k' m rs] readers_ok_ready [OF assms(1), of k' rs] by (simp add: step ev)
      next
        case False
        then have "(k, m) \<notin> set (ez_readers s)" using other_reader [OF assms(1) True, of k m] by auto
        with has show ?thesis using readers_ok_ready [OF assms(1), of k' rs] by (simp add: step ev)
      qed
    next
      case False
      have "(k, m) \<in> set (ez_readers s) \<longrightarrow> buffer_of m s = the (map_of (ez_buffer s) m) \<and> map_of (ez_buffer s) m \<noteq> None"
        using assms(1) by (auto simp: readers_ok_def buffer_of_def)
      moreover have "\<And>k. (k, m) \<in> set (ez_readers (reader_ready k' rs s)) \<longleftrightarrow> (k, m) \<in> set (ez_readers s)"
        by (rule read_other(2) [OF assms(1) False])
      ultimately show ?thesis
        using read_other(1) [OF assms(1) False, of rs] readers_ok_ready [OF assms(1), of k' rs] False
        by (auto simp: step ev image_iff)
    qed
  next
    case False
    then have frame: "ez_buffer (ez_step zl ev s) = ez_buffer s" "ez_readers (ez_step zl ev s) = ez_readers s"
      "pipe_reads [ev] = []" "ends k ev = False"
      using calm_frame [OF assms(2), of zl s] by auto (cases ev; auto)+
    show ?thesis using assms(1) by (auto simp: frame readers_ok_def buffer_of_def)
  qed
  then show "readers_ok (ez_step zl ev s)"
    "m \<notin> snd ` set (ez_readers s) \<Longrightarrow> m \<notin> snd ` set (ez_readers (ez_step zl ev s)) \<and>
      map_of (ez_buffer (ez_step zl ev s)) m = map_of (ez_buffer s) m"
    "(k, m) \<in> set (ez_readers s) \<Longrightarrow>
      map_of (ez_buffer (ez_step zl ev s)) m = Some (buffer_of m s @ delivered k (pipe_reads [ev])) \<and>
      (if ends k ev then m \<notin> snd ` set (ez_readers (ez_step zl ev s)) else (k, m) \<in> set (ez_readers (ez_step zl ev s)))"
    by blast+
qed

text \<open>Whatever happens in between, a buffer is what its reader delivered, appended to what it held.\<close>

lemma buffer_without_reader:
  "readers_ok s \<Longrightarrow> list_all calm evs \<Longrightarrow> m \<notin> snd ` set (ez_readers s) \<Longrightarrow>
     map_of (ez_buffer (ez_run zl evs s)) m = map_of (ez_buffer s) m"
proof (induction evs arbitrary: s)
  case (Cons ev evs)
  have "calm ev" "list_all calm evs" using Cons.prems(2) by simp_all
  with calm_step(1,2) [OF Cons.prems(1), where ev = ev and zl = zl] Cons.prems(3) Cons.IH [of "ez_step zl ev s"]
  show ?case by (simp add: ez_run_def)
qed (simp add: ez_run_def)

lemma buffer_follows_reader:
  "readers_ok s \<Longrightarrow> list_all calm evs \<Longrightarrow> (k, m) \<in> set (ez_readers s) \<Longrightarrow>
     map_of (ez_buffer (ez_run zl evs s)) m = Some (buffer_of m s @ delivered k (pipe_reads evs))"
proof (induction evs arbitrary: s)
  case Nil
  then show ?case by (auto simp: ez_run_def readers_ok_def buffer_of_def)
next
  case (Cons ev evs)
  have calm: "calm ev" "list_all calm evs" using Cons.prems(2) by simp_all
  note step = calm_step [OF Cons.prems(1) calm(1), where zl = zl]
  have run: "ez_run zl (ev # evs) s = ez_run zl evs (ez_step zl ev s)" by (simp add: ez_run_def)
  have buf: "buffer_of m (ez_step zl ev s) = buffer_of m s @ delivered k (pipe_reads [ev])"
    using step(3) [OF Cons.prems(3)] by (simp add: buffer_of_def [of m "ez_step zl ev s"])
  show ?case
  proof (cases "ends k ev")
    case True
    then have "m \<notin> snd ` set (ez_readers (ez_step zl ev s))" using step(3) [OF Cons.prems(3)] by simp
    from buffer_without_reader [OF step(1) calm(2) this]
    show ?thesis unfolding run delivered_Cons [of k ev evs] using True step(3) [OF Cons.prems(3)] by simp
  next
    case False
    then have "(k, m) \<in> set (ez_readers (ez_step zl ev s))" using step(3) [OF Cons.prems(3)] by simp
    from Cons.IH [OF step(1) calm(2) this]
    show ?thesis unfolding run delivered_Cons [of k ev evs] using False buf by simp
  qed
qed

section \<open>Taking over a selection\<close>

definition granted :: drain_answer where
  "granted = \<lparr>da_pipe = True, da_request = True, da_insert = True\<rparr>"

lemma drain_granted:
  "ez_readers (fold drain_mime (map (\<lambda>m. (m, granted)) ms) s) = ez_readers s @ zip [ez_next s..<ez_next s + length ms] ms \<and>
   map_of (ez_buffer (fold drain_mime (map (\<lambda>m. (m, granted)) ms) s)) =
     (\<lambda>m. if m \<in> set ms then Some [] else map_of (ez_buffer s) m)"
proof (induction ms arbitrary: s)
  case (Cons m ms)
  let ?s = "drain_mime (m, granted) s"
  have "ez_readers ?s = ez_readers s @ [(ez_next s, m)]" "ez_next ?s = Suc (ez_next s)"
    "map_of (ez_buffer ?s) = (map_of (ez_buffer s))(m \<mapsto> [])"
    by (simp_all add: drain_mime_def granted_def Let_def update_conv')
  moreover have "[ez_next s..<ez_next s + length (m # ms)] = ez_next s # [Suc (ez_next s)..<Suc (ez_next s) + length ms]"
    by (simp add: upt_conv_Cons del: upt_Suc)
  ultimately show ?case using Cons.IH [of ?s] by (auto simp: fun_eq_iff)
qed simp

lemma take_over_frame [simp]:
  "ez_buffer (drain_and_take_over zl as s) = ez_buffer (fold drain_mime as (s\<lparr>ez_buffer := [], ez_mimes := map fst as\<rparr>))"
  "ez_readers (drain_and_take_over zl as s) = ez_readers (fold drain_mime as (s\<lparr>ez_buffer := [], ez_mimes := map fst as\<rparr>))"
  by (simp_all add: drain_and_take_over_def Let_def split: option.split)

text \<open>
  C33. With the clipboard manager a selection survives its client. Suppose no earlier drain is open and
  no earlier take-over is waiting, and the selection's types are distinct and every pipe of the
  take-over is made, requested and watched. Then, until there is a further selection by a Wayland client
  or another take-over, a paste of each type offered is served exactly the bytes the client has
  written to the pipe of that type up to its end, whatever pastes, focus changes, transfers and
  selections by X clients happen in between. After a selection by an X client these bytes are stale:
  that it does not clear the buffers is a defect of the program.
\<close>

theorem clipboard_survives:
  assumes "ez_manager s" and "ez_idle s = []" and "ez_readers s = []"
    and "distinct mimes" and "i < length mimes" and "\<And>m. m \<in> set mimes \<Longrightarrow> answer m = granted"
    and "list_all calm evs"
  shows "let s' = ez_run zl evs (run_idle zl answer (ez_new_selection Clip (Some mimes) s)) in
    ez_calls (ez_send_selection Clip (mimes ! i) fd s') =
      ez_calls s' @ [ServeBuffer fd (delivered (ez_next s + i) (pipe_reads evs))]"
proof -
  have ne: "mimes \<noteq> []" using assms(5) by auto
  define t where "t = run_idle zl answer (ez_new_selection Clip (Some mimes) s)"
  define s1 where "s1 = (ez_new_selection Clip (Some mimes) s)\<lparr>ez_idle := []\<rparr>"
  have t: "t = drain_and_take_over zl (map (\<lambda>m. (m, granted)) mimes) s1"
    using assms(1,2,6) ne by (simp add: t_def s1_def run_idle_def ez_new_selection_def Let_def cong: map_cong)
  have s1: "ez_readers s1 = []" "ez_next s1 = ez_next s"
    using assms(1,3) ne by (simp_all add: s1_def ez_new_selection_def Let_def)
  have readers: "ez_readers t = zip [ez_next s..<ez_next s + length mimes] mimes"
    and buffer: "\<And>m. m \<in> set mimes \<Longrightarrow> map_of (ez_buffer t) m = Some []"
    using drain_granted [of mimes "s1\<lparr>ez_buffer := [], ez_mimes := mimes\<rparr>"] by (simp_all add: t s1 comp_def)
  have "readers_ok t"
    using assms(4) buffer by (auto simp: readers_ok_def readers dest: set_zip_rightD)
  moreover have "(ez_next s + i, mimes ! i) \<in> set (ez_readers t)"
    using assms(5) by (auto simp: readers set_zip intro: exI [of _ i])
  moreover have "buffer_of (mimes ! i) t = []" using assms(5) by (simp add: buffer_of_def buffer)
  ultimately have "map_of (ez_buffer (ez_run zl evs t)) (mimes ! i) = Some (delivered (ez_next s + i) (pipe_reads evs))"
    using buffer_follows_reader [of t evs] assms(7) by simp
  then show ?thesis by (simp add: ez_send_selection_def t_def [symmetric] Let_def)
qed

definition demo_host :: ez_lib where
  "demo_host = \<lparr>zl_alive = (\<lambda>s. s < 100), zl_set = (\<lambda>old req. (req, old \<noteq> req))\<rparr>"

theorem clipboard_survives_witness:
  "let s' = ez_run demo_host [Readable 1 [Chunk [0x68], WouldBlock], Unfocused, Readable 0 [Eof], Readable 1 [Chunk [0x69], Eof]]
      (run_idle demo_host (\<lambda>_. granted) (ez_new_selection Clip (Some [''a'', ''b'']) (emez_new True))) in
    ez_calls (ez_send_selection Clip ''b'' 9 s') = ez_calls s' @ [ServeBuffer 9 [0x68, 0x69]]"
  using clipboard_survives [of "emez_new True" "[''a'', ''b'']" 1 "\<lambda>_. granted"
      "[Readable 1 [Chunk [0x68], WouldBlock], Unfocused, Readable 0 [Eof], Readable 1 [Chunk [0x69], Eof]]" demo_host 9]
  by (simp add: emez_new_def)

text \<open>
  The buffers are found by type only. When a second selection is taken over while a pipe of the
  first is still open, what that pipe delivers goes into the buffer of the second selection.
\<close>

theorem selections_mix:
  assumes "map_of (ez_readers s) k = Some m" and "m \<in> set mimes"
  shows "map_of (ez_buffer (reader_ready k [Chunk d, WouldBlock]
      (drain_and_take_over zl (map (\<lambda>m. (m, granted)) mimes) s))) m = Some d"
proof -
  let ?t = "drain_and_take_over zl (map (\<lambda>m. (m, granted)) mimes) s"
  note drained = drain_granted [of mimes "s\<lparr>ez_buffer := [], ez_mimes := mimes\<rparr>"]
  have "map_of (ez_readers ?t) k = Some m"
    using drained assms(1) by (simp add: comp_def map_add_Some_iff)
  moreover have "map_of (ez_buffer ?t) m = Some []" using drained assms(2) by (simp add: comp_def)
  ultimately show ?thesis by (simp add: reader_ready_def append_buffer_def update_conv')
qed

definition demo_open :: emez where
  "demo_open = run_idle demo_host (\<lambda>_. granted) (ez_new_selection Clip (Some [''a'']) (emez_new True))"

theorem selections_mix_witness:
  "map_of (ez_buffer (reader_ready 0 [Chunk [1], WouldBlock]
      (drain_and_take_over demo_host (map (\<lambda>m. (m, granted)) [''a'']) demo_open))) ''a'' = Some [1]"
proof (rule selections_mix)
  show "map_of (ez_readers demo_open) 0 = Some ''a''"
    by (simp add: demo_open_def run_idle_def ez_new_selection_def emez_new_def drain_mime_def granted_def)
qed simp

text \<open>
  Once a surface was activated and as long as it lives, the keyboard is never without a surface,
  whatever is activated, unfocused, copied or pasted afterwards, and the fallback stays the surface
  activated first.
\<close>

theorem focus_never_lost:
  assumes "ez_focus_law zl" and "zl_alive zl p"
    and "ez_fallback s = None \<or> (\<exists>q. ez_fallback s = Some q \<and> \<not> zl_alive zl q)"
  shows "ez_fallback (ez_run zl evs (request_activation zl p s)) = Some p \<and>
    ez_focus (ez_run zl evs (request_activation zl p s)) \<noteq> None"
proof -
  have "rooted zl p (request_activation zl p s)"
    using assms(3) focus_on_focus [OF assms(1)] by (auto simp: rooted_def request_activation_def Let_def)
  from rooted_run [OF assms(1,2) this] show ?thesis by (simp add: rooted_def)
qed

theorem focus_never_lost_witness:
  "ez_focus (ez_run demo_host [Activated 7, Unfocused] (request_activation demo_host 3 (emez_new False))) \<noteq> None"
  using focus_never_lost [of demo_host 3 "emez_new False" "[Activated 7, Unfocused]"]
  by (simp add: ez_focus_law_def demo_host_def emez_new_def)

end
