(* ===== verification/Pointer.thy ===== *)
theory Pointer
  imports Hit_Test
begin

text \<open>
  The pointer: the pointer arms of \<open>process_input_event\<close> (\<open>crates/emskin/src/input.rs\<close>), the drag of
  a floating dialog (\<open>grabs.rs\<close>, \<open>move_request\<close> of \<open>handlers/xdg_shell.rs\<close>), pointer constraints
  (\<open>handlers/pointer_constraints.rs\<close>) and the placement and grab of popups.

  The seat is smithay's: its state has the type \<open>'p\<close> and its operations are the record \<open>seat\<close>. The
  active grab is observed as \<open>own_grab\<close> when it is a \<open>MoveDialogGrab\<close>, whose methods are then what
  the pointer's methods do; otherwise \<open>seat_motion\<close> and \<open>seat_button\<close> are the pointer's methods,
  with smithay's own grabs. \<open>inner_motion\<close>, \<open>inner_button\<close> and \<open>unset_grab\<close> are the methods of
  \<open>PointerInnerHandle\<close>. Serials drawn from \<open>SERIAL_COUNTER\<close> are left out. What is asked of the
  pointer and of popups is kept in \<open>d_events\<close>, in order.
\<close>

section \<open>The seat\<close>

datatype constraint_kind = Locked | Confined

record constraint =
  cn_kind :: constraint_kind
  cn_active :: bool
  cn_region :: "(point \<Rightarrow> bool) option"

record move_grab =
  mg_start :: fpoint
  mg_window :: window
  mg_initial :: point

record popup_grab =
  pg_id :: nat
  pg_previous :: "nat option"
  pg_current :: "focus_target option"

record 'p seat =
  ptr_location :: "'p \<Rightarrow> fpoint"
  ptr_focus :: "'p \<Rightarrow> surface option"
  ptr_grabbed :: "'p \<Rightarrow> bool"
  ptr_has_grab :: "nat \<Rightarrow> 'p \<Rightarrow> bool"
  grab_start :: "'p \<Rightarrow> (fpoint \<times> surface option) option"
  own_grab :: "'p \<Rightarrow> move_grab option"
  pressed_buttons :: "'p \<Rightarrow> u32 list"
  seat_motion :: "hit option \<Rightarrow> fpoint \<Rightarrow> 'p \<Rightarrow> 'p"
  seat_button :: "u32 \<Rightarrow> bool \<Rightarrow> 'p \<Rightarrow> 'p"
  inner_motion :: "hit option \<Rightarrow> fpoint \<Rightarrow> 'p \<Rightarrow> 'p"
  inner_button :: "u32 \<Rightarrow> bool \<Rightarrow> 'p \<Rightarrow> 'p"
  unset_grab :: "'p \<Rightarrow> 'p"
  set_move_grab :: "nat \<Rightarrow> move_grab \<Rightarrow> 'p \<Rightarrow> 'p"
  set_location :: "fpoint \<Rightarrow> 'p \<Rightarrow> 'p"
  constraint_of :: "surface \<Rightarrow> 'p \<Rightarrow> constraint option"
  activate :: "surface \<Rightarrow> 'p \<Rightarrow> 'p"
  kb_grabbed :: "'p \<Rightarrow> bool"
  kb_has_grab :: "nat \<Rightarrow> 'p \<Rightarrow> bool"
  grab_popup :: "focus_target \<Rightarrow> surface \<Rightarrow> nat \<Rightarrow> 'p \<Rightarrow> popup_grab option \<times> 'p"
  ungrab_popup :: "popup_grab \<Rightarrow> 'p \<Rightarrow> 'p"
  kb_popup_grab :: "popup_grab \<Rightarrow> nat \<Rightarrow> 'p \<Rightarrow> 'p"
  ptr_popup_grab :: "popup_grab \<Rightarrow> nat \<Rightarrow> 'p \<Rightarrow> 'p"

datatype axis = Horizontal | Vertical

datatype axis_source = Wheel | Finger | Continuous | WheelTilt

datatype axis_part = AxisValue axis f64 | AxisV120 axis i32 | AxisStop axis

datatype pointer_event =
    RelativeMotion "hit option" fpoint u64
  | Motion "hit option" fpoint
  | Button u32 bool
  | Axis axis_source "axis_part list"
  | Frame
  | PopupGeometry surface rect
  | Repositioned surface u32
  | TrackPopup surface

text \<open>The libraries: the compositor's environment, floating point, hit tests, the seat.\<close>

record ('sp, 'p) rig =
  g_env :: "'sp env"
  g_fl :: floats
  g_hits :: "'sp hits"
  g_seat :: "'p seat"

record ('sp, 'p) desktop =
  d_em :: "'sp emskin"
  d_seat :: 'p
  d_events :: "pointer_event list"

definition emit :: "pointer_event list \<Rightarrow> ('sp, 'p) desktop \<Rightarrow> ('sp, 'p) desktop" where
  "emit es d = d\<lparr>d_events := d_events d @ es\<rparr>"

definition on_em :: "('sp emskin \<Rightarrow> 'sp emskin) \<Rightarrow> ('sp, 'p) desktop \<Rightarrow> ('sp, 'p) desktop" where
  "on_em f d = d\<lparr>d_em := f (d_em d)\<rparr>"

definition on_seat :: "('p \<Rightarrow> 'p) \<Rightarrow> ('sp, 'p) desktop \<Rightarrow> ('sp, 'p) desktop" where
  "on_seat f d = d\<lparr>d_seat := f (d_seat d)\<rparr>"

definition under :: "('sp, 'p) rig \<Rightarrow> fpoint \<Rightarrow> ('sp, 'p) desktop \<Rightarrow> hit option" where
  "under g pos d = surface_under (g_env g) (g_fl g) (g_hits g) pos (d_em d)"

section \<open>Dragging a dialog\<close>

definition grab_motion :: "('sp, 'p) rig \<Rightarrow> move_grab \<Rightarrow> fpoint \<Rightarrow> ('sp, 'p) desktop \<Rightarrow> ('sp, 'p) desktop" where
  "grab_motion g m location d =
     (let d1 = emit [Motion None location] (on_seat (inner_motion (g_seat g) None location) d);
          delta = p_sub (g_fl g) location (mg_start m);
          new_location = p_add (g_fl g) (p_of (g_fl g) (mg_initial m)) delta in
      on_em (on_space (sp_map (g_env g) (mg_window m) (p_round (g_fl g) new_location))) d1)"

definition grab_button :: "('sp, 'p) rig \<Rightarrow> u32 \<Rightarrow> bool \<Rightarrow> ('sp, 'p) desktop \<Rightarrow> ('sp, 'p) desktop" where
  "grab_button g code pressed d =
     (let d1 = emit [Button code pressed] (on_seat (inner_button (g_seat g) code pressed) d) in
      if pressed_buttons (g_seat g) (d_seat d1) = [] then on_seat (unset_grab (g_seat g)) d1 else d1)"

text \<open>\<open>PointerHandle::motion\<close> and \<open>button\<close>, which go through the active grab.\<close>

definition ptr_motion :: "('sp, 'p) rig \<Rightarrow> hit option \<Rightarrow> fpoint \<Rightarrow> ('sp, 'p) desktop \<Rightarrow> ('sp, 'p) desktop" where
  "ptr_motion g focus location d =
     (case own_grab (g_seat g) (d_seat d) of
        Some m \<Rightarrow> grab_motion g m location d
      | None \<Rightarrow> emit [Motion focus location] (on_seat (seat_motion (g_seat g) focus location) d))"

definition ptr_button :: "('sp, 'p) rig \<Rightarrow> u32 \<Rightarrow> bool \<Rightarrow> ('sp, 'p) desktop \<Rightarrow> ('sp, 'p) desktop" where
  "ptr_button g code pressed d =
     (case own_grab (g_seat g) (d_seat d) of
        Some m \<Rightarrow> grab_button g code pressed d
      | None \<Rightarrow> emit [Button code pressed] (on_seat (seat_button (g_seat g) code pressed) d))"

text \<open>\<open>XdgShellHandler::move_request\<close>: the window's own toplevel is the one of the request.\<close>

definition move_request :: "('sp, 'p) rig \<Rightarrow> surface \<Rightarrow> nat \<Rightarrow> ('sp, 'p) desktop \<Rightarrow> ('sp, 'p) desktop" where
  "move_request g wl serial d =
     (let e = g_env g; sp = active_space (c_ws (d_em d)) in
      case find (\<lambda>w. win_surface e w = Some wl) (sp_elements e sp) of
        None \<Rightarrow> d
      | Some w \<Rightarrow>
          if w \<notin> set (c_dialogs (d_em d)) then d
          else if \<not> ptr_has_grab (g_seat g) serial (d_seat d) then d
          else
            (case grab_start (g_seat g) (d_seat d) of
               None \<Rightarrow> d
             | Some (start, focus) \<Rightarrow>
                 if \<not> (case focus of None \<Rightarrow> False | Some s \<Rightarrow> same_client e s wl) then d
                 else
                   (case sp_location e sp w of
                      None \<Rightarrow> d
                    | Some l \<Rightarrow>
                        on_seat (set_move_grab (g_seat g) serial
                          \<lparr>mg_start = start, mg_window = w, mg_initial = l\<rparr>) d)))"

section \<open>Constraints\<close>

definition new_constraint :: "('sp, 'p) rig \<Rightarrow> surface \<Rightarrow> ('sp, 'p) desktop \<Rightarrow> ('sp, 'p) desktop" where
  "new_constraint g wl d =
     (if ptr_focus (g_seat g) (d_seat d) = Some wl \<and> constraint_of (g_seat g) wl (d_seat d) \<noteq> None
      then on_seat (activate (g_seat g) wl) d else d)"

definition constraint_active :: "('sp, 'p) rig \<Rightarrow> surface \<Rightarrow> ('sp, 'p) desktop \<Rightarrow> bool" where
  "constraint_active g wl d =
     (case constraint_of (g_seat g) wl (d_seat d) of None \<Rightarrow> False | Some c \<Rightarrow> cn_active c)"

definition cursor_position_hint ::
  "('sp, 'p) rig \<Rightarrow> surface \<Rightarrow> fpoint \<Rightarrow> ('sp, 'p) desktop \<Rightarrow> ('sp, 'p) desktop" where
  "cursor_position_hint g wl location d =
     (if \<not> constraint_active g wl d then d
      else
        (let e = g_env g; sp = active_space (c_ws (d_em d));
             origin = (case find (\<lambda>w. win_surface e w = Some wl \<and> sp_location e sp w \<noteq> None) (sp_elements e sp) of
                 None \<Rightarrow> (0, 0)
               | Some w \<Rightarrow> (case sp_location e sp w of None \<Rightarrow> (0, 0) | Some l \<Rightarrow> p_of (g_fl g) l)) in
         on_seat (set_location (g_seat g) (p_add (g_fl g) origin location)) d))"

section \<open>Motion\<close>

text \<open>The active constraint of the surface under the pointer: its kind and region.\<close>

definition active_constraint ::
  "('sp, 'p) rig \<Rightarrow> surface option \<Rightarrow> ('sp, 'p) desktop \<Rightarrow> (constraint_kind \<times> (point \<Rightarrow> bool) option) option" where
  "active_constraint g focus d =
     (case focus of
        None \<Rightarrow> None
      | Some wl \<Rightarrow>
          (case constraint_of (g_seat g) wl (d_seat d) of
             None \<Rightarrow> None
           | Some c \<Rightarrow> if cn_active c then Some (cn_kind c, cn_region c) else None))"

text \<open>Where \<open>wl\<close> lies, when it is the surface hit.\<close>

definition hit_of :: "surface \<Rightarrow> hit option \<Rightarrow> fpoint option" where
  "hit_of wl hit = (case hit of None \<Rightarrow> None | Some (s, l) \<Rightarrow> if s = wl then Some l else None)"

text \<open>A region is given up when the pointer is not inside it.\<close>

definition in_region ::
  "('sp, 'p) rig \<Rightarrow> surface \<Rightarrow> (point \<Rightarrow> bool) \<Rightarrow> hit option \<Rightarrow> ('sp, 'p) desktop \<Rightarrow> bool" where
  "in_region g wl r new_under d =
     (let tracked = ptr_location (g_seat g) (d_seat d);
          loc = (case hit_of wl new_under of
              Some l \<Rightarrow> Some l
            | None \<Rightarrow> hit_of wl (under g tracked d)) in
      case loc of None \<Rightarrow> False | Some l \<Rightarrow> r (p_round (g_fl g) (p_sub (g_fl g) tracked l)))"

definition enforced ::
  "('sp, 'p) rig \<Rightarrow> surface option \<Rightarrow> hit option \<Rightarrow> ('sp, 'p) desktop \<Rightarrow> (constraint_kind \<times> (point \<Rightarrow> bool) option) option" where
  "enforced g focus new_under d =
     (case active_constraint g focus d of
        None \<Rightarrow> None
      | Some (k, None) \<Rightarrow> Some (k, None)
      | Some (k, Some r) \<Rightarrow>
          (case focus of
             None \<Rightarrow> None
           | Some wl \<Rightarrow> if in_region g wl r new_under d then Some (k, Some r) else None))"

definition leaves ::
  "('sp, 'p) rig \<Rightarrow> surface \<Rightarrow> (point \<Rightarrow> bool) option \<Rightarrow> fpoint \<Rightarrow> hit option \<Rightarrow> bool" where
  "leaves g wl region new_abs new_under =
     (case hit_of wl new_under of
        None \<Rightarrow> True
      | Some l \<Rightarrow>
          (case region of None \<Rightarrow> False
           | Some r \<Rightarrow> \<not> r (p_round (g_fl g) (p_sub (g_fl g) new_abs l))))"

definition auto_activate ::
  "('sp, 'p) rig \<Rightarrow> fpoint \<Rightarrow> hit option \<Rightarrow> ('sp, 'p) desktop \<Rightarrow> ('sp, 'p) desktop" where
  "auto_activate g new_abs new_under d =
     (case new_under of
        None \<Rightarrow> d
      | Some (wl, l) \<Rightarrow>
          (case constraint_of (g_seat g) wl (d_seat d) of
             None \<Rightarrow> d
           | Some c \<Rightarrow>
               if cn_active c then d
               else (case cn_region c of
                   None \<Rightarrow> on_seat (activate (g_seat g) wl) d
                 | Some r \<Rightarrow>
                     if r (p_round (g_fl g) (p_sub (g_fl g) new_abs l))
                     then on_seat (activate (g_seat g) wl) d else d)))"

text \<open>The arm after the output and the position are known.\<close>

definition blocked :: "('sp, 'p) rig \<Rightarrow> fpoint \<Rightarrow> hit option \<Rightarrow> ('sp, 'p) desktop \<Rightarrow> bool" where
  "blocked g new_abs new_under d =
     (let focus = ptr_focus (g_seat g) (d_seat d) in
      case enforced g focus new_under d of
        None \<Rightarrow> False
      | Some (Locked, _) \<Rightarrow> True
      | Some (Confined, region) \<Rightarrow>
          (case focus of None \<Rightarrow> False | Some wl \<Rightarrow> leaves g wl region new_abs new_under))"

definition motion_to :: "('sp, 'p) rig \<Rightarrow> fpoint \<Rightarrow> u32 \<Rightarrow> ('sp, 'p) desktop \<Rightarrow> ('sp, 'p) desktop" where
  "motion_to g new_abs time d =
     (case consume_raw_location (p_sub (g_fl g)) new_abs (c_cursor (d_em d)) of
        (delta, cur) \<Rightarrow>
          (let d1 = on_em (\<lambda>s. s\<lparr>c_cursor := cur\<rparr>) d;
               new_under = under g new_abs d1;
               stop = blocked g new_abs new_under d1;
               d2 = emit [RelativeMotion new_under delta (ucast time * 1000)] d1 in
           if stop then emit [Frame] d2
           else auto_activate g new_abs new_under (emit [Frame] (ptr_motion g new_under new_abs d2))))"

text \<open>\<open>position_transformed\<close> scales the event's position to the size of the output.\<close>

definition motion_absolute ::
  "('sp, 'p) rig \<Rightarrow> (point \<Rightarrow> fpoint) \<Rightarrow> u32 \<Rightarrow> ('sp, 'p) desktop \<Rightarrow> ('sp, 'p) desktop" where
  "motion_absolute g transformed time d =
     (let e = g_env g in
      case Option.bind (first_output e (d_em d)) (output_geometry (shell e) (active_space (c_ws (d_em d)))) of
        None \<Rightarrow> d
      | Some geo \<Rightarrow>
          motion_to g (p_add (g_fl g) (transformed (size_w geo, size_h geo)) (p_of (g_fl g) (rect_loc geo))) time d)"

section \<open>Buttons\<close>

definition BTN_LEFT :: u32 where "BTN_LEFT = 0x110"

text \<open>Left click on a label of the skeleton.\<close>

definition skeleton_press :: "('sp, 'p) rig \<Rightarrow> ('sp, 'p) desktop \<Rightarrow> bool \<times> ('sp, 'p) desktop" where
  "skeleton_press g d =
     (let pos = ptr_location (g_seat g) (d_seat d); x = c_effects (d_em d) in
      if \<not> sk_enabled (fx_skeleton x) then (False, d)
      else case click_at (clock (g_env g)) (f_trunc (g_fl g) (fst pos)) (f_trunc (g_fl g) (snd pos)) (fx_skeleton x) of
        (r, sk) \<Rightarrow>
          (r \<noteq> None,
           on_em (on_effects (\<lambda>x. x\<lparr>fx_skeleton := sk,
             skeleton_click_absorbed := (r \<noteq> None \<or> skeleton_click_absorbed x)\<rparr>)) d))"

text \<open>\<open>FocusView\<close> for the mirror or the application clicked.\<close>

definition click_view :: "('sp, 'p) rig \<Rightarrow> fpoint \<Rightarrow> surface option \<Rightarrow> 'sp emskin \<Rightarrow> 'sp emskin" where
  "click_view g pos under_surface s =
     (case mirror_under (g_env g) (g_fl g) pos (active_id (c_ws s)) (c_apps s) of
        Some (i, view, mapped) \<Rightarrow> send (g_env g) (FocusView i view) s
      | None \<Rightarrow>
          (case Option.bind under_surface (\<lambda>wl. id_for_surface (g_env g) wl (c_apps s)) of
             Some i \<Rightarrow> send (g_env g) (FocusView i 0) s
           | None \<Rightarrow> s))"

definition click_target :: "'sp env \<Rightarrow> surface option \<Rightarrow> 'sp emskin \<Rightarrow> focus_target option" where
  "click_target e under_surface s =
     (case Option.bind under_surface (\<lambda>wl. focus_target_for_surface e wl s) of
        Some t \<Rightarrow> Some t
      | None \<Rightarrow> emacs_focus_target e s)"

fun target_same_client :: "'sp env \<Rightarrow> focus_target option \<Rightarrow> focus_target option \<Rightarrow> bool" where
  "target_same_client e (Some old) (Some new) =
     (case (target_surface e old, target_surface e new) of
        (Some o', Some n) \<Rightarrow> same_client e o' n
      | _ \<Rightarrow> False)"
| "target_same_client e _ _ = False"

definition click_focus :: "'sp env \<Rightarrow> focus_target option \<Rightarrow> 'sp emskin \<Rightarrow> 'sp emskin" where
  "click_focus e focus s =
     (if target_same_client e (c_keyboard s) focus then s
      else
        (let s1 = set_focus e focus s in
         on_ime (set_prefix_active False) (s1\<lparr>c_focus := snd (focus_exit Prefix (c_focus s1))\<rparr>)))"

definition press_ungrabbed :: "('sp, 'p) rig \<Rightarrow> u32 \<Rightarrow> ('sp, 'p) desktop \<Rightarrow> ('sp, 'p) desktop" where
  "press_ungrabbed g code d =
     (let pos = ptr_location (g_seat g) (d_seat d);
          under_surface = map_option fst (under g pos d) in
      on_em (\<lambda>s.
        (let s1 = (if code = BTN_LEFT then click_view g pos under_surface s else s) in
         click_focus (g_env g) (click_target (g_env g) under_surface s1) s1)) d)"

definition forward_button :: "('sp, 'p) rig \<Rightarrow> u32 \<Rightarrow> bool \<Rightarrow> ('sp, 'p) desktop \<Rightarrow> ('sp, 'p) desktop" where
  "forward_button g code pressed d =
     (let d1 = (if pressed \<and> \<not> ptr_grabbed (g_seat g) (d_seat d) then press_ungrabbed g code d else d) in
      emit [Frame] (ptr_button g code pressed d1))"

definition button_event :: "('sp, 'p) rig \<Rightarrow> u32 \<Rightarrow> bool \<Rightarrow> ('sp, 'p) desktop \<Rightarrow> ('sp, 'p) desktop" where
  "button_event g code pressed d =
     (case (if pressed \<and> code = BTN_LEFT then skeleton_press g d else (False, d)) of
        (hit, d1) \<Rightarrow>
          if hit then d1
          else if \<not> pressed \<and> skeleton_click_absorbed (c_effects (d_em d1))
          then on_em (on_effects (\<lambda>x. x\<lparr>skeleton_click_absorbed := False\<rparr>)) d1
          else forward_button g code pressed d1)"

section \<open>Scrolling\<close>

text \<open>The amounts of an axis event; \<open>f_eq\<close> is equality of \<open>f64\<close>, \<open>v120_step\<close> is
  \<open>v * 15.0 / 120.\<close>.\<close>

record axis_event =
  ax_source :: axis_source
  ax_amount :: "axis \<Rightarrow> f64 option"
  ax_v120 :: "axis \<Rightarrow> f64 option"

definition f_eq :: "floats \<Rightarrow> f64 \<Rightarrow> f64 \<Rightarrow> bool" where
  "f_eq fl a b \<longleftrightarrow> f_le fl a b \<and> f_le fl b a"

definition axis_amount :: "floats \<Rightarrow> axis_event \<Rightarrow> axis \<Rightarrow> f64" where
  "axis_amount fl ev a =
     (case ax_amount ev a of
        Some v \<Rightarrow> v
      | None \<Rightarrow> f_div fl (f_mul fl (case ax_v120 ev a of Some v \<Rightarrow> v | None \<Rightarrow> 0) (f_of fl 15)) (f_of fl 120))"

definition axis_values :: "floats \<Rightarrow> axis_event \<Rightarrow> axis \<Rightarrow> axis_part list" where
  "axis_values fl ev a =
     (if f_eq fl (axis_amount fl ev a) 0 then []
      else AxisValue a (axis_amount fl ev a) #
        (case ax_v120 ev a of None \<Rightarrow> [] | Some v \<Rightarrow> [AxisV120 a (f_trunc fl v)]))"

definition axis_stops :: "floats \<Rightarrow> axis_event \<Rightarrow> axis \<Rightarrow> axis_part list" where
  "axis_stops fl ev a =
     (case ax_amount ev a of Some v \<Rightarrow> if f_eq fl v 0 then [AxisStop a] else [] | None \<Rightarrow> [])"

definition axis_parts :: "floats \<Rightarrow> axis_event \<Rightarrow> axis_part list" where
  "axis_parts fl ev =
     axis_values fl ev Horizontal @ axis_values fl ev Vertical @
     (if ax_source ev = Finger then axis_stops fl ev Horizontal @ axis_stops fl ev Vertical else [])"

definition pointer_axis :: "('sp, 'p) rig \<Rightarrow> axis_event \<Rightarrow> ('sp, 'p) desktop \<Rightarrow> ('sp, 'p) desktop" where
  "pointer_axis g ev = emit [Axis (ax_source ev) (axis_parts (g_fl g) ev), Frame]"

section \<open>Input events\<close>

datatype input_event =
    KeyboardInput bool modifiers "u32 option"
  | PointerRelative
  | PointerAbsolute "point \<Rightarrow> fpoint" u32
  | PointerButton u32 bool
  | PointerAxis axis_event
  | OtherInput

definition process_input_event ::
  "('sp, 'p) rig \<Rightarrow> (u32 \<Rightarrow> string) \<Rightarrow> input_event \<Rightarrow> ('sp, 'p) desktop \<Rightarrow> ('sp, 'p) desktop" where
  "process_input_event g name ev d =
     (case ev of
        KeyboardInput pressed m key \<Rightarrow> on_em (keyboard_key (g_env g) name pressed m key) d
      | PointerRelative \<Rightarrow> d
      | PointerAbsolute transformed time \<Rightarrow> motion_absolute g transformed time d
      | PointerButton code pressed \<Rightarrow> button_event g code pressed d
      | PointerAxis ax \<Rightarrow> pointer_axis g ax d
      | OtherInput \<Rightarrow> d)"

section \<open>Popups\<close>

text \<open>The record \<open>popups\<close> is smithay's popup manager and positioner: the root surface of a popup,
  its offset in the toplevel, the geometry a positioner yields, with and without a target.\<close>

record popups =
  popup_root :: "surface \<Rightarrow> surface option"
  popup_coords :: "surface \<Rightarrow> point"
  positioner_geometry :: "nat \<Rightarrow> rect"
  unconstrained :: "nat \<Rightarrow> rect \<Rightarrow> rect"

text \<open>\<open>element_geometry\<close> has the location of the window in the space.\<close>

definition unconstrain_popup ::
  "('sp, 'p) rig \<Rightarrow> popups \<Rightarrow> surface \<Rightarrow> nat \<Rightarrow> ('sp, 'p) desktop \<Rightarrow> ('sp, 'p) desktop" where
  "unconstrain_popup g pp wl positioner d =
     (let e = g_env g; s = d_em d; sp = active_space (c_ws s) in
      case popup_root pp wl of
        None \<Rightarrow> d
      | Some root \<Rightarrow>
          (case find (\<lambda>w. win_surface e w = Some root) (sp_elements e sp) of
             None \<Rightarrow> d
           | Some w \<Rightarrow>
               (case Option.bind (first_output e s) (output_geometry (shell e) sp) of
                  None \<Rightarrow> d
                | Some og \<Rightarrow>
                    (case sp_location e sp w of
                       None \<Rightarrow> d
                     | Some l \<Rightarrow>
                         (let loc = minus_point (minus_point (rect_loc og) (popup_coords pp wl)) l in
                          emit [PopupGeometry wl (unconstrained pp positioner (rect_new loc (size_w og, size_h og)))] d)))))"

definition new_popup ::
  "('sp, 'p) rig \<Rightarrow> popups \<Rightarrow> surface \<Rightarrow> nat \<Rightarrow> ('sp, 'p) desktop \<Rightarrow> ('sp, 'p) desktop" where
  "new_popup g pp wl positioner d = emit [TrackPopup wl] (unconstrain_popup g pp wl positioner d)"

definition reposition_request ::
  "('sp, 'p) rig \<Rightarrow> popups \<Rightarrow> surface \<Rightarrow> nat \<Rightarrow> u32 \<Rightarrow> ('sp, 'p) desktop \<Rightarrow> ('sp, 'p) desktop" where
  "reposition_request g pp wl positioner token d =
     emit [Repositioned wl token]
       (unconstrain_popup g pp wl positioner (emit [PopupGeometry wl (positioner_geometry pp positioner)] d))"

definition foreign_grab :: "bool \<Rightarrow> (nat \<Rightarrow> bool) \<Rightarrow> nat \<Rightarrow> popup_grab \<Rightarrow> bool" where
  "foreign_grab grabbed has serial pg \<longleftrightarrow>
     grabbed \<and> \<not> (has serial \<or> has (case pg_previous pg of Some p \<Rightarrow> p | None \<Rightarrow> serial))"

definition popup_grab_request ::
  "('sp, 'p) rig \<Rightarrow> popups \<Rightarrow> surface \<Rightarrow> nat \<Rightarrow> ('sp, 'p) desktop \<Rightarrow> ('sp, 'p) desktop" where
  "popup_grab_request g pp wl serial d =
     (let st = g_seat g in
      case Option.bind (popup_root pp wl) (\<lambda>root. focus_target_for_surface (g_env g) root (d_em d)) of
        None \<Rightarrow> d
      | Some t \<Rightarrow>
          (case grab_popup st t wl serial (d_seat d) of
             (None, p) \<Rightarrow> d\<lparr>d_seat := p\<rparr>
           | (Some pg, p) \<Rightarrow>
               if foreign_grab (kb_grabbed st p) (\<lambda>n. kb_has_grab st n p) serial pg
               then d\<lparr>d_seat := ungrab_popup st pg p\<rparr>
               else
                 (let d1 = on_seat (kb_popup_grab st pg serial)
                        (on_em (set_focus (g_env g) (pg_current pg)) (d\<lparr>d_seat := p\<rparr>));
                      q = d_seat d1 in
                  if foreign_grab (ptr_grabbed st q) (\<lambda>n. ptr_has_grab st n q) serial pg
                  then on_seat (ungrab_popup st pg) d1
                  else on_seat (ptr_popup_grab st pg serial) d1)))"

end
