(* ===== verification/Tick.thy ===== *)
theory Tick
  imports Shell
begin

text \<open>
  \<open>crates/emskin/src/tick.rs\<close>: the steps of \<open>event_loop_tick\<close>, run once per iteration of the event
  loop, and their composition. What the tick reads from outside (child processes, the clipboard
  backend, the D-Bus broker) is its record \<open>tick_input\<close>.
\<close>

section \<open>Deferred toplevels\<close>

definition create_workspace :: "'sp env \<Rightarrow> surface \<Rightarrow> window \<Rightarrow> 'sp emskin \<Rightarrow> u64 \<times> 'sp emskin" where
  "create_workspace e wl w s =
     (let s1 = on_space (sp_unmap e w) s in
      case alloc_id (c_ws s1) of
        (k, ws1) \<Rightarrow>
          (let s2 = s1\<lparr>c_ws := ws1\<rparr>;
               sp0 = (case first_output e s2 of None \<Rightarrow> sp_empty e
                      | Some o' \<Rightarrow> sp_map_output e o' (0, 0) (sp_empty e));
               x = \<lparr>ws_space = sp0, ws_emacs = Some wl, ws_name = []\<rparr>;
               s3 = on_ws (\<lambda>v. v\<lparr>inactive := AList.update k x (inactive v)\<rparr>) s2;
               s4 = (case emacs_geometry e s3 of
                       None \<Rightarrow> s3
                     | Some geo \<Rightarrow>
                         (let s4a = call [PendingSize wl (size_w geo, size_h geo),
                                PendingState wl Fullscreen True, SendPending wl] s3 in
                          case map_of (inactive (c_ws s4a)) k of
                            None \<Rightarrow> s4a
                          | Some y \<Rightarrow> on_ws (\<lambda>v. v\<lparr>inactive := AList.update k
                              (y\<lparr>ws_space := sp_lower e w (sp_map e w (rect_loc geo) (ws_space y))\<rparr>)
                              (inactive v)\<rparr>) s4a)) in
           (k, send e (WorkspaceCreated k) s4)))"

definition process_toplevel :: "'sp env \<Rightarrow> surface \<times> window \<Rightarrow> 'sp emskin \<Rightarrow> 'sp emskin" where
  "process_toplevel e = (\<lambda>(wl, w) s.
     if tl_parent (shell e) wl then s
     else case create_workspace e wl w s of (k, s1) \<Rightarrow> snd (switch_workspace e k s1))"

definition process_pending_toplevels :: "'sp env \<Rightarrow> 'sp emskin \<Rightarrow> 'sp emskin" where
  "process_pending_toplevels e s =
     (let pending = pending_emacs_toplevels (c_ws s);
          s1 = on_ws (\<lambda>w. w\<lparr>pending_emacs_toplevels := []\<rparr>) s in
      if pending = [] then s1 else fold (process_toplevel e) pending (redraw s1))"

definition promote_floating_dialog :: "'sp env \<Rightarrow> surface \<Rightarrow> window \<Rightarrow> 'sp emskin \<Rightarrow> 'sp emskin" where
  "promote_floating_dialog e wl w s =
     (let s1 = s\<lparr>c_dialogs := List.insert w (c_dialogs s)\<rparr>;
          s2 = call [PendingSize wl (0, 0), PendingState wl Activated True, SendPending wl] s1 in
      if \<not> is_active Prefix (c_focus s2) then set_focus e (Some (FWindow w)) s2 else s2)"

definition register_embedded_app :: "'sp env \<Rightarrow> surface \<Rightarrow> window \<Rightarrow> 'sp emskin \<Rightarrow> 'sp emskin" where
  "register_embedded_app e wl w s =
     (case app_alloc_id (c_apps s) of
        (i, am) \<Rightarrow>
          (let title = (case tl_title (shell e) wl of None \<Rightarrow> [] | Some t \<Rightarrow> t);
               s1 = call [PendingSize wl (1, 1), SendPending wl] (s\<lparr>c_apps := am\<rparr>);
               a = \<lparr>app_id = i, app_win = w, app_workspace = active_id (c_ws s1), app_geometry = None,
                    app_pending = None, app_pending_since = None, app_visible = False, app_mirrors = []\<rparr>;
               s2 = on_apps (app_insert a) s1 in
           auto_focus_new_window e w i (send e (WindowCreated i title) s2)))"

definition classify_toplevel :: "'sp env \<Rightarrow> surface \<times> window \<Rightarrow> 'sp emskin \<Rightarrow> 'sp emskin" where
  "classify_toplevel e = (\<lambda>(wl, w) s.
     if \<not> win_alive e w then s
     else if wants_floating e wl then promote_floating_dialog e wl w s
     else register_embedded_app e wl w s)"

definition process_pending_app_toplevels :: "'sp env \<Rightarrow> 'sp emskin \<Rightarrow> 'sp emskin" where
  "process_pending_app_toplevels e s =
     (let pending = pending_app_toplevels (c_ws s);
          s1 = on_ws (\<lambda>w. w\<lparr>pending_app_toplevels := []\<rparr>) s in
      if pending = [] then s1 else fold (classify_toplevel e) pending (redraw s1))"

section \<open>Workspaces\<close>

definition workspace_action :: "'sp env \<Rightarrow> ws_action \<Rightarrow> 'sp emskin \<Rightarrow> 'sp emskin" where
  "workspace_action e a s =
     (case a of
        Activate k \<Rightarrow> snd (switch_workspace e k s)
      | Remove k \<Rightarrow>
          if k \<noteq> active_id (c_ws s) then send e (WorkspaceDestroyed k) (snd (destroy_workspace e k s)) else s
      | _ \<Rightarrow> s)"

definition process_workspace_actions :: "'sp env \<Rightarrow> 'sp emskin \<Rightarrow> 'sp emskin" where
  "process_workspace_actions e s =
     (case take_pending_actions (protocol (c_ws s)) of
        (actions, p) \<Rightarrow>
          (let s1 = on_ws (\<lambda>w. w\<lparr>protocol := p\<rparr>) s in
           if actions = [] then s1 else fold (workspace_action e) actions (redraw s1)))"

definition frame_dead :: "'sp env \<Rightarrow> 'sp workspace \<Rightarrow> bool" where
  "frame_dead e x \<longleftrightarrow> (case ws_emacs x of None \<Rightarrow> True | Some wl \<Rightarrow> \<not> srf_alive e wl)"

definition destroy_dead :: "'sp env \<Rightarrow> u64 \<Rightarrow> 'sp emskin \<Rightarrow> 'sp emskin" where
  "destroy_dead e k s = send e (WorkspaceDestroyed k) (snd (destroy_workspace e k s))"

definition detect_dead_workspaces :: "'sp env \<Rightarrow> 'sp emskin \<Rightarrow> 'sp emskin" where
  "detect_dead_workspaces e s =
     (let dead = map fst (filter (\<lambda>(k, x). frame_dead e x) (entries (visit e) (inactive (c_ws s))));
          s1 = fold (destroy_dead e) dead s;
          s2 = (if dead \<noteq> [] then redraw s1 else s1) in
      if main_died e (c_emacs s2)
      then (case visit e (map fst (inactive (c_ws s2))) of
              k # _ \<Rightarrow> redraw (snd (switch_workspace e k s2))
            | [] \<Rightarrow> s2\<lparr>c_stopped := True\<rparr>)
      else s2)"

definition ws_info_of :: "'sp workspace_state \<Rightarrow> u64 \<Rightarrow> ws_info" where
  "ws_info_of w k =
     (let name = (if k = active_id w then active_name w
                  else case map_of (inactive w) k of Some x \<Rightarrow> ws_name x | None \<Rightarrow> []) in
      \<lparr>wi_id = k, wi_name = (if name = [] then ''Workspace '' @ decimal (unat k) else name),
       wi_active = (k = active_id w)\<rparr>)"

definition refresh_workspace_state ::
  "'sp env \<Rightarrow> (obj \<Rightarrow> bool) \<Rightarrow> (nat \<Rightarrow> bool) \<Rightarrow> (nat \<Rightarrow> bool) \<Rightarrow> 'sp emskin \<Rightarrow> 'sp emskin" where
  "refresh_workspace_state e ck alive has_client s =
     (let infos = map (ws_info_of (c_ws s)) (all_ids (c_ws s));
          s1 = (case first_output e s of
                  None \<Rightarrow> s
                | Some _ \<Rightarrow> on_ws (\<lambda>w. w\<lparr>protocol := ws_refresh (visit e) ck alive has_client infos (protocol w)\<rparr>) s) in
      on_ws (\<lambda>w. w\<lparr>protocol := cleanup_dead alive (protocol w)\<rparr>) s1)"

section \<open>Dead windows\<close>

definition unmap_dead_app :: "'sp env \<Rightarrow> app_window \<Rightarrow> 'sp emskin \<Rightarrow> 'sp emskin" where
  "unmap_dead_app e a s =
     send e (WindowDestroyed (app_id a)) (on_ws (space_for_mut (app_workspace a) (sp_unmap e (app_win a))) s)"

definition cleanup_dead_apps :: "'sp env \<Rightarrow> 'sp emskin \<Rightarrow> 'sp emskin" where
  "cleanup_dead_apps e s =
     (case drain_dead e (c_apps s) of
        (dead, am) \<Rightarrow>
          (let s1 = s\<lparr>c_apps := am\<rparr> in
           if dead = [] then s1
           else
             (let s2 = fold (unmap_dead_app e) dead (redraw s1) in
              if c_keyboard s2 = None then set_focus e (emacs_focus_target e s2) s2 else s2)))"

definition dead_windows :: "'sp env \<Rightarrow> 'sp \<Rightarrow> window list" where
  "dead_windows e sp = filter (\<lambda>w. \<not> win_alive e w) (sp_elements e sp)"

definition sweep :: "'sp env \<Rightarrow> 'sp \<Rightarrow> 'sp" where
  "sweep e sp = fold (sp_unmap e) (dead_windows e sp) sp"

definition focus_lost :: "'sp env \<Rightarrow> focus_target option \<Rightarrow> bool" where
  "focus_lost e f \<longleftrightarrow>
     (case f of None \<Rightarrow> True | Some (FWindow w) \<Rightarrow> \<not> win_alive e w | _ \<Rightarrow> False)"

definition cleanup_dead_dialogs :: "'sp env \<Rightarrow> 'sp emskin \<Rightarrow> 'sp emskin" where
  "cleanup_dead_dialogs e s =
     (let had_dead = (dead_windows e (active_space (c_ws s)) \<noteq> [] \<or>
            (\<exists>(k, x) \<in> set (inactive (c_ws s)). dead_windows e (ws_space x) \<noteq> []));
          s1 = on_ws (\<lambda>w. w\<lparr>active_space := sweep e (active_space w),
                 inactive := map (\<lambda>(k, x). (k, x\<lparr>ws_space := sweep e (ws_space x)\<rparr>)) (inactive w)\<rparr>) s in
      if \<not> had_dead then s1
      else
        (let s2 = redraw s1 in
         if focus_lost e (c_keyboard s2) then set_focus e (emacs_focus_target e s2) s2 else s2))"

section \<open>Timeouts and input-method events\<close>

definition focused_app_origin :: "'sp env \<Rightarrow> 'sp emskin \<Rightarrow> point option" where
  "focused_app_origin e s =
     (case c_keyboard s of
        Some (FWindow w) \<Rightarrow>
          (case win_surface e w of
             None \<Rightarrow> None
           | Some wl \<Rightarrow>
               if is_main_surface wl (c_emacs s) then Some (0, 0)
               else map_option (\<lambda>l. (fst l - loc_x (win_geometry e w), snd l - loc_y (win_geometry e w)))
                 (sp_location e (active_space (c_ws s)) w))
      | _ \<Rightarrow> None)"

text \<open>\<open>events\<close> is \<open>None\<close> without a broker.\<close>

definition drain_fcitx_events :: "'sp env \<Rightarrow> fcitx_event list option \<Rightarrow> 'sp emskin \<Rightarrow> 'sp emskin" where
  "drain_fcitx_events e events s =
     (case events of
        None \<Rightarrow> s
      | Some evs \<Rightarrow>
          if evs = [] then s
          else
            (let s1 = redraw s; origin = focused_app_origin e s1 in
             on_ime (fold (\<lambda>ev. on_fcitx_event e ev origin (c_apps s1)) evs) s1))"

text \<open>100 ms.\<close>

definition GEOMETRY_TIMEOUT :: nat where "GEOMETRY_TIMEOUT = 100 * 1000000"

definition force_commit :: "'sp env \<Rightarrow> u64 \<times> window \<times> rect \<Rightarrow> 'sp emskin \<Rightarrow> 'sp emskin" where
  "force_commit e = (\<lambda>(i, w, geo) s.
     let k = (case app_get (c_apps s) i of None \<Rightarrow> active_id (c_ws s) | Some a \<Rightarrow> app_workspace a) in
     on_ws (space_for_mut k (sp_map e w (rect_loc geo))) s)"

definition commit_timed_out :: "'sp env \<Rightarrow> 'sp emskin \<Rightarrow> 'sp emskin" where
  "commit_timed_out e s =
     (case collect_timed_out e GEOMETRY_TIMEOUT (c_apps s) of
        (hits, am) \<Rightarrow>
          (let s1 = s\<lparr>c_apps := am\<rparr> in
           fold (force_commit e) hits (if hits = [] then s1 else redraw s1)))"

section \<open>The tick\<close>

record tick_input =
  emacs_exited :: bool
  bar_exited :: bool
  ck_object :: "obj \<Rightarrow> bool"
  mgr_alive :: "nat \<Rightarrow> bool"
  mgr_client :: "nat \<Rightarrow> bool"
  host_selection_events :: "(bool \<times> clipboard_event) list"
  fcitx_events :: "fcitx_event list option"

definition dispatch_ipc :: "'sp env \<Rightarrow> text_api \<Rightarrow> 'sp emskin \<Rightarrow> 'sp emskin" where
  "dispatch_ipc e tx s =
     (case recv_all (json e) (c_ipc s) of
        (None, ipc) \<Rightarrow> s\<lparr>c_ipc := ipc\<rparr>
      | (Some msgs, ipc) \<Rightarrow> redraw (fold (handle_ipc_message e tx) msgs (s\<lparr>c_ipc := ipc\<rparr>)))"

definition clipboard_events :: "(bool \<times> clipboard_event) list \<Rightarrow> 'sp emskin \<Rightarrow> 'sp emskin" where
  "clipboard_events evs s =
     (if \<not> sel_clipboard (c_selection s) \<or> evs = [] then s
      else redraw (call [FlushDisplay]
        (s\<lparr>c_selection := fold (\<lambda>(ok, ev). handle_clipboard_event ok ev) evs (c_selection s)\<rparr>)))"

definition event_loop_tick :: "'sp env \<Rightarrow> text_api \<Rightarrow> tick_input \<Rightarrow> 'sp emskin \<Rightarrow> 'sp emskin" where
  "event_loop_tick e tx ti s0 =
     (let s = (if em_child (c_emacs s0) \<noteq> None \<and> emacs_exited ti then s0\<lparr>c_stopped := True\<rparr> else s0);
          s = (if c_bar s \<noteq> None \<and> bar_exited ti then s\<lparr>c_bar := None\<rparr> else s);
          s = process_pending_toplevels e s;
          s = process_pending_app_toplevels e s;
          s = process_workspace_actions e s;
          s = detect_dead_workspaces e s;
          s = refresh_workspace_state e (ck_object ti) (mgr_alive ti) (mgr_client ti) s;
          s = cleanup_dead_apps e s;
          s = cleanup_dead_dialogs e s;
          s = dispatch_ipc e tx s;
          s = s\<lparr>c_ipc := ipc_flush (c_ipc s)\<rparr>;
          s = clipboard_events (host_selection_events ti) s;
          s = commit_timed_out e s;
          s = drain_fcitx_events e (fcitx_events ti) s in
      on_ime (poll_tip_freshness e (c_apps s)) s)"

end
