(* ===== verification/Frames.thy ===== *)
theory Frames
  imports Tick
begin

text \<open>
  What each operation of the compositor leaves alone: the workspaces and the window table are
  changed by a few operations only. The rules are simplification rules, so that a proof about
  workspaces or windows sees through focus changes, messages and requests.
\<close>

section \<open>Elementary updates\<close>

lemma call_fields [simp]:
  "c_ws (call cs s) = c_ws s" "c_apps (call cs s) = c_apps s" "c_emacs (call cs s) = c_emacs s"
  "c_focus (call cs s) = c_focus s" "c_keyboard (call cs s) = c_keyboard s" "c_ime (call cs s) = c_ime s"
  "c_ipc (call cs s) = c_ipc s" "c_stopped (call cs s) = c_stopped s"
  "c_calls (call cs s) = c_calls s @ cs"
  by (simp_all add: call_def)

lemma send_fields [simp]:
  "c_ws (send e m s) = c_ws s" "c_apps (send e m s) = c_apps s" "c_emacs (send e m s) = c_emacs s"
  "c_focus (send e m s) = c_focus s" "c_keyboard (send e m s) = c_keyboard s" "c_ime (send e m s) = c_ime s"
  "c_ipc (send e m s) = ipc_send (json e) m (c_ipc s)" "c_stopped (send e m s) = c_stopped s"
  "c_calls (send e m s) = c_calls s"
  by (simp_all add: send_def)

lemma redraw_fields [simp]:
  "c_ws (redraw s) = c_ws s" "c_apps (redraw s) = c_apps s" "c_emacs (redraw s) = c_emacs s"
  "c_focus (redraw s) = c_focus s" "c_keyboard (redraw s) = c_keyboard s" "c_ime (redraw s) = c_ime s"
  "c_ipc (redraw s) = c_ipc s" "c_stopped (redraw s) = c_stopped s" "c_calls (redraw s) = c_calls s"
  by (simp_all add: redraw_def)

lemma on_ws_fields [simp]:
  "c_ws (on_ws f s) = f (c_ws s)" "c_apps (on_ws f s) = c_apps s" "c_emacs (on_ws f s) = c_emacs s"
  "c_focus (on_ws f s) = c_focus s" "c_keyboard (on_ws f s) = c_keyboard s" "c_ime (on_ws f s) = c_ime s"
  "c_ipc (on_ws f s) = c_ipc s" "c_stopped (on_ws f s) = c_stopped s" "c_calls (on_ws f s) = c_calls s"
  by (simp_all add: on_ws_def)

lemma on_space_fields [simp]:
  "c_ws (on_space g s) = (c_ws s)\<lparr>active_space := g (active_space (c_ws s))\<rparr>"
  "c_apps (on_space g s) = c_apps s" "c_emacs (on_space g s) = c_emacs s"
  "c_focus (on_space g s) = c_focus s" "c_keyboard (on_space g s) = c_keyboard s"
  "c_ime (on_space g s) = c_ime s" "c_ipc (on_space g s) = c_ipc s" "c_stopped (on_space g s) = c_stopped s"
  "c_calls (on_space g s) = c_calls s"
  by (simp_all add: on_space_def)

lemma on_apps_fields [simp]:
  "c_ws (on_apps f s) = c_ws s" "c_apps (on_apps f s) = f (c_apps s)" "c_emacs (on_apps f s) = c_emacs s"
  "c_focus (on_apps f s) = c_focus s" "c_keyboard (on_apps f s) = c_keyboard s" "c_ime (on_apps f s) = c_ime s"
  "c_ipc (on_apps f s) = c_ipc s" "c_stopped (on_apps f s) = c_stopped s" "c_calls (on_apps f s) = c_calls s"
  by (simp_all add: on_apps_def)

lemma on_emacs_fields [simp]:
  "c_ws (on_emacs f s) = c_ws s" "c_apps (on_emacs f s) = c_apps s" "c_emacs (on_emacs f s) = f (c_emacs s)"
  "c_focus (on_emacs f s) = c_focus s" "c_keyboard (on_emacs f s) = c_keyboard s"
  "c_ime (on_emacs f s) = c_ime s" "c_ipc (on_emacs f s) = c_ipc s" "c_stopped (on_emacs f s) = c_stopped s"
  "c_calls (on_emacs f s) = c_calls s"
  by (simp_all add: on_emacs_def)

lemma on_effects_fields [simp]:
  "c_ws (on_effects f s) = c_ws s" "c_apps (on_effects f s) = c_apps s" "c_emacs (on_effects f s) = c_emacs s"
  "c_focus (on_effects f s) = c_focus s" "c_keyboard (on_effects f s) = c_keyboard s"
  "c_ime (on_effects f s) = c_ime s" "c_ipc (on_effects f s) = c_ipc s" "c_stopped (on_effects f s) = c_stopped s"
  "c_calls (on_effects f s) = c_calls s"
  by (simp_all add: on_effects_def)

lemma on_ime_fields [simp]:
  "c_ws (on_ime f s) = c_ws s" "c_apps (on_ime f s) = c_apps s" "c_emacs (on_ime f s) = c_emacs s"
  "c_focus (on_ime f s) = c_focus s" "c_keyboard (on_ime f s) = c_keyboard s"
  "c_ime (on_ime f s) = f (c_ime s)" "c_ipc (on_ime f s) = c_ipc s" "c_stopped (on_ime f s) = c_stopped s"
  "c_calls (on_ime f s) = c_calls s"
  by (simp_all add: on_ime_def)

section \<open>Focus\<close>

lemma focus_changed_fields [simp]:
  "c_ws (focus_changed e t s) = c_ws s" "c_apps (focus_changed e t s) = c_apps s"
  "c_emacs (focus_changed e t s) = c_emacs s" "c_focus (focus_changed e t s) = c_focus s"
  "c_keyboard (focus_changed e t s) = c_keyboard s" "c_ipc (focus_changed e t s) = c_ipc s"
  "c_stopped (focus_changed e t s) = c_stopped s"
  by (simp_all add: focus_changed_def Let_def)

lemma set_focus_fields [simp]:
  "c_ws (set_focus e t s) = c_ws s" "c_apps (set_focus e t s) = c_apps s"
  "c_emacs (set_focus e t s) = c_emacs s" "c_focus (set_focus e t s) = c_focus s"
  "c_ipc (set_focus e t s) = c_ipc s" "c_stopped (set_focus e t s) = c_stopped s"
  "c_keyboard (set_focus e t s) = fst (kb_set e (c_keyboard s) t)"
  by (simp_all add: set_focus_def Let_def split: prod.split)

lemma auto_focus_fields [simp]:
  "c_ws (auto_focus_new_window e w i s) = c_ws s" "c_apps (auto_focus_new_window e w i s) = c_apps s"
  by (simp_all add: auto_focus_new_window_def)

lemma reset_on_switch_fields [simp]:
  "c_ws (reset_on_switch e s) = c_ws s" "c_apps (reset_on_switch e s) = c_apps s"
  "c_emacs (reset_on_switch e s) = c_emacs s" "c_keyboard (reset_on_switch e s) = c_keyboard s"
  "c_ipc (reset_on_switch e s) = c_ipc s" "c_focus (reset_on_switch e s) = []"
  "c_ime (reset_on_switch e s) = ime_reset_on_workspace_switch (c_ime s)"
  "c_calls (reset_on_switch e s) = c_calls s" "c_stopped (reset_on_switch e s) = c_stopped s"
  by (simp_all add: reset_on_switch_def focus_reset_on_workspace_switch_def)

lemma swap_workspace_fields [simp]:
  "c_apps (swap_workspace k x s) = c_apps s" "c_keyboard (swap_workspace k x s) = c_keyboard s"
  "c_ipc (swap_workspace k x s) = c_ipc s" "c_ime (swap_workspace k x s) = c_ime s"
  "c_calls (swap_workspace k x s) = c_calls s" "c_stopped (swap_workspace k x s) = c_stopped s"
  by (simp_all add: swap_workspace_def Let_def)

lemma swap_workspace_ws:
  "c_ws (swap_workspace k x s) = (c_ws s)\<lparr>
     inactive := AList.update (active_id (c_ws s)) \<lparr>ws_space = active_space (c_ws s),
       ws_emacs = em_surface (c_emacs s), ws_name = active_name (c_ws s)\<rparr>
       (AList.delete k (inactive (c_ws s))),
     active_space := ws_space x, active_name := ws_name x, active_id := k\<rparr>"
  "em_surface (c_emacs (swap_workspace k x s)) = ws_emacs x"
  by (simp_all add: swap_workspace_def Let_def em_set_surface_def)

section \<open>Tables of workspaces\<close>

lemma space_for_mut_fields [simp]:
  "active_id (space_for_mut k f w) = active_id w" "active_name (space_for_mut k f w) = active_name w"
  "next_id (space_for_mut k f w) = next_id w"
  "pending_emacs_toplevels (space_for_mut k f w) = pending_emacs_toplevels w"
  "pending_app_toplevels (space_for_mut k f w) = pending_app_toplevels w"
  "protocol (space_for_mut k f w) = protocol w"
  by (simp_all add: space_for_mut_def split: option.split)

lemma keys_update_present: "map_of m k = Some x \<Longrightarrow> map fst (AList.update k y m) = map fst m"
  by (force simp: update_keys dest: map_of_SomeD)

lemma space_for_mut_keys [simp]: "map fst (inactive (space_for_mut k f w)) = map fst (inactive w)"
  by (auto simp: space_for_mut_def keys_update_present split: option.split)

lemma keys_delete: "fst ` set (AList.delete k m) = fst ` set m - {k}"
  by (simp add: delete_keys flip: set_map)

section \<open>Switching and destroying\<close>

lemma remove_app_fields [simp]:
  "c_ws (remove_app e i s) = c_ws s" "c_emacs (remove_app e i s) = c_emacs s"
  "c_keyboard (remove_app e i s) = c_keyboard s" "c_focus (remove_app e i s) = c_focus s"
  "c_apps (remove_app e i s) = (if app_get (c_apps s) i = None then c_apps s else app_remove i (c_apps s))"
  by (auto simp: remove_app_def split: option.split)

lemma fold_remove_app_fields [simp]:
  "c_ws (fold (remove_app e) ids s) = c_ws s" "c_emacs (fold (remove_app e) ids s) = c_emacs s"
  "c_keyboard (fold (remove_app e) ids s) = c_keyboard s" "c_focus (fold (remove_app e) ids s) = c_focus s"
  by (induction ids arbitrary: s) simp_all

lemma app_get_remove_app:
  "app_get (c_apps (remove_app e i s)) j = (if j = i then None else app_get (c_apps s) j)"
  by (auto simp: app_table.get_rem)

lemma app_get_fold_remove_app:
  "app_get (c_apps (fold (remove_app e) ids s)) j = (if j \<in> set ids then None else app_get (c_apps s) j)"
  by (induction ids arbitrary: s) (auto simp: app_get_remove_app simp del: remove_app_fields)

lemma switch_workspace_cases:
  "switch_workspace e k s =
     (case (if k = active_id (c_ws s) then None else map_of (inactive (c_ws s)) k) of
        None \<Rightarrow> (False, s)
      | Some x \<Rightarrow> (True, call [PointerClear]
          (let s2 = send e (WorkspaceSwitched k) (reset_on_switch e (swap_workspace k x s)) in
           set_focus e (emacs_focus_target e s2) s2)))"
  by (simp add: switch_workspace_def Let_def split: option.split)

lemma switch_ws:
  "c_ws (snd (switch_workspace e k s)) =
     (case (if k = active_id (c_ws s) then None else map_of (inactive (c_ws s)) k) of
        None \<Rightarrow> c_ws s | Some x \<Rightarrow> c_ws (swap_workspace k x s))"
  "c_apps (snd (switch_workspace e k s)) = c_apps s"
  "em_surface (c_emacs (snd (switch_workspace e k s))) =
     (case (if k = active_id (c_ws s) then None else map_of (inactive (c_ws s)) k) of
        None \<Rightarrow> em_surface (c_emacs s) | Some x \<Rightarrow> ws_emacs x)"
  by (simp_all add: switch_workspace_cases Let_def swap_workspace_ws(2) split: option.split)

lemma destroy_ws:
  "c_ws (snd (destroy_workspace e k s)) =
     (c_ws s)\<lparr>inactive := AList.delete k (inactive (c_ws s))\<rparr>"
  "c_emacs (snd (destroy_workspace e k s)) = c_emacs s"
  "c_keyboard (snd (destroy_workspace e k s)) = c_keyboard s"
proof -
  have "map_of (inactive (c_ws s)) k = None \<Longrightarrow> AList.delete k (inactive (c_ws s)) = inactive (c_ws s)"
    by (simp add: map_of_eq_None_iff)
  then show "c_ws (snd (destroy_workspace e k s)) =
     (c_ws s)\<lparr>inactive := AList.delete k (inactive (c_ws s))\<rparr>"
    "c_emacs (snd (destroy_workspace e k s)) = c_emacs s"
    "c_keyboard (snd (destroy_workspace e k s)) = c_keyboard s"
    by (simp_all add: destroy_workspace_def Let_def split: option.split)
qed

lemma migrate_fields:
  "c_emacs (snd (migrate_app_to_active e i s)) = c_emacs s"
  "c_keyboard (snd (migrate_app_to_active e i s)) = c_keyboard s"
  "active_id (c_ws (snd (migrate_app_to_active e i s))) = active_id (c_ws s)"
  "next_id (c_ws (snd (migrate_app_to_active e i s))) = next_id (c_ws s)"
  by (simp_all add: migrate_app_to_active_def split: option.split)

end
