(* ===== verification/Ws_Facts.thy ===== *)
theory Ws_Facts
  imports Ws_Protocol
begin

text \<open>
  What a client of ext-workspace-v1 knows: the events it was sent, replayed, give for each live
  handle the id, the name and the state it shows. The invariant \<open>inst_ok\<close> of an instance says that
  this view agrees with the instance's table and last snapshot; a refresh brings it up to date.
\<close>

declare split_paired_All [simp del] split_paired_Ex [simp del]

section \<open>The client's view\<close>

type_synonym ws_view = "string \<times> string \<times> bool"

fun view_step :: "ws_event \<Rightarrow> (obj \<Rightarrow> ws_view option) \<Rightarrow> obj \<Rightarrow> ws_view option" where
  "view_step (EvWorkspace h) v = v(h \<mapsto> ([], [], False))"
| "view_step (EvId h i) v = v(h := map_option (\<lambda>(_, n, a). (i, n, a)) (v h))"
| "view_step (EvName h n) v = v(h := map_option (\<lambda>(i, _, a). (i, n, a)) (v h))"
| "view_step (EvState h a) v = v(h := map_option (\<lambda>(i, n, _). (i, n, a)) (v h))"
| "view_step (EvRemoved h) v = v(h := None)"
| "view_step _ v = v"

definition client_view :: "ws_event list \<Rightarrow> obj \<Rightarrow> ws_view option" where
  "client_view evs = fold view_step evs Map.empty"

definition shown :: "ws_info \<Rightarrow> ws_view" where
  "shown w = (ws_id_string (wi_id w), wi_name w, wi_active w)"

lemma client_view_append: "client_view (xs @ ys) = fold view_step ys (client_view xs)"
  by (simp add: client_view_def)

section \<open>Invariant\<close>

text \<open>\<open>cur\<close> gives the information last sent about each workspace.\<close>

definition view_rel ::
  "(u64 \<Rightarrow> ws_info option) \<Rightarrow> (u64 \<Rightarrow> obj option) \<Rightarrow> (obj \<Rightarrow> ws_view option) \<Rightarrow> nat \<Rightarrow> nat \<Rightarrow> bool" where
  "view_rel cur m v g n \<longleftrightarrow>
     (\<forall>k h. m k = Some h \<longrightarrow> (\<exists>w. cur k = Some w \<and> wi_id w = k \<and> v h = Some (shown w)) \<and> fst h = g \<and> snd h < n) \<and>
     (\<forall>k k' h. m k = Some h \<longrightarrow> m k' = Some h \<longrightarrow> k = k') \<and>
     (\<forall>h. v h \<noteq> None \<longrightarrow> (\<exists>k. m k = Some h))"

definition view_ok :: "(u64 \<Rightarrow> ws_info option) \<Rightarrow> mgr_instance \<Rightarrow> bool" where
  "view_ok cur i =
     view_rel cur (map_of (mi_workspaces i)) (client_view (mi_events i)) (mi_manager i) (mi_next_obj i)"

lemma view_relD:
  "view_rel cur m v g n \<Longrightarrow> m k = Some h \<Longrightarrow> \<exists>w. cur k = Some w \<and> wi_id w = k \<and> v h = Some (shown w)"
  "view_rel cur m v g n \<Longrightarrow> v h = Some x \<Longrightarrow> \<exists>k. m k = Some h"
  by (simp_all add: view_rel_def)

lemma view_rel_mono: "view_rel cur m v g n \<Longrightarrow> n \<le> n' \<Longrightarrow> view_rel cur m v g n'"
  by (simp add: view_rel_def) (meson less_le_trans)

lemma view_rel_remove: "view_rel cur m v g n \<Longrightarrow> m k = Some h \<Longrightarrow> view_rel cur (m(k := None)) (v(h := None)) g n"
  by (simp add: view_rel_def) (metis option.inject)

lemma view_rel_update:
  assumes "view_rel cur m v g n" and "m (wi_id w) = Some h"
  shows "view_rel (cur(wi_id w \<mapsto> w)) m (v(h \<mapsto> shown w)) g n"
proof -
  have other: "h' \<noteq> h" if "m k = Some h'" "k \<noteq> wi_id w" for k h'
    using assms that by (auto simp: view_rel_def)
  show ?thesis
    using assms other by (auto simp: view_rel_def)
qed

lemma view_rel_new:
  assumes "view_rel cur m v g n" and "m (wi_id w) = None"
  shows "view_rel (cur(wi_id w \<mapsto> w)) (m(wi_id w \<mapsto> (g, n))) (v((g, n) \<mapsto> shown w)) g (n + 1)"
proof -
  have fresh: "h \<noteq> (g, n)" if "m k = Some h" for k h
    using assms(1) that unfolding view_rel_def by (metis less_irrefl snd_conv)
  show ?thesis
    unfolding view_rel_def
  proof (intro conjI allI impI)
    fix k h assume "(m(wi_id w \<mapsto> (g, n))) k = Some h"
    then have "k = wi_id w \<and> h = (g, n) \<or> k \<noteq> wi_id w \<and> m k = Some h \<and> h \<noteq> (g, n)"
      using fresh by (auto split: if_splits)
    then show "\<exists>w'. (cur(wi_id w \<mapsto> w)) k = Some w' \<and> wi_id w' = k \<and> (v((g, n) \<mapsto> shown w)) h = Some (shown w')"
      "fst h = g" "snd h < n + 1"
      using assms(1) by (auto simp: view_rel_def less_Suc_eq)
  next
    fix k k' h assume "(m(wi_id w \<mapsto> (g, n))) k = Some h" "(m(wi_id w \<mapsto> (g, n))) k' = Some h"
    then show "k = k'" using assms(1) fresh by (auto simp: view_rel_def split: if_splits)
  next
    fix h assume "(v((g, n) \<mapsto> shown w)) h \<noteq> None"
    then show "\<exists>k. (m(wi_id w \<mapsto> (g, n))) k = Some h"
      using assms unfolding view_rel_def fun_upd_apply by (metis option.distinct(1))
  qed
qed

definition snapshot :: "mgr_instance \<Rightarrow> u64 \<Rightarrow> ws_info option" where
  "snapshot i k = find (\<lambda>s. wi_id s = k) (last_snapshot i)"

definition inst_ok :: "mgr_instance \<Rightarrow> bool" where
  "inst_ok i = view_ok (snapshot i) i"

definition silent :: "ws_event \<Rightarrow> bool" where
  "silent ev \<longleftrightarrow> (\<forall>v. view_step ev v = v)"

lemma view_silent: "list_all silent evs \<Longrightarrow> client_view (xs @ evs) = client_view xs"
  unfolding client_view_append by (induction evs) (simp_all add: silent_def)

lemma silent_events:
  "silent (EvGroup g)" "silent (EvGroupCapabilities g)" "silent EvDone" "silent EvFinished"
  by (simp_all add: silent_def)

lemma view_ok_cong:
  "mi_workspaces i' = mi_workspaces i \<Longrightarrow> client_view (mi_events i') = client_view (mi_events i) \<Longrightarrow>
     mi_manager i' = mi_manager i \<Longrightarrow> mi_next_obj i \<le> mi_next_obj i' \<Longrightarrow> view_ok cur i \<Longrightarrow> view_ok cur i'"
  by (simp add: view_ok_def view_rel_mono)

section \<open>One step of a refresh\<close>

lemma view_remove:
  assumes "view_ok cur i"
  shows "view_ok cur (fst (remove_ws g k (i, c)))"
proof (cases "map_of (mi_workspaces i) k")
  case (Some h)
  let ?i = "fst (remove_ws g k (i, c))"
  have v: "client_view (mi_events ?i) = (client_view (mi_events i))(h := None)"
    using Some by (simp add: remove_ws_def send_events_def client_view_append)
  have m: "map_of (mi_workspaces ?i) = (map_of (mi_workspaces i))(k := None)"
    and n: "mi_manager ?i = mi_manager i" "mi_next_obj ?i = mi_next_obj i"
    using Some by (simp_all add: remove_ws_def send_events_def delete_conv')
  show ?thesis
    using assms Some unfolding view_ok_def v m n by (intro view_rel_remove)
qed (simp add: remove_ws_def assms)

lemma snapshot_id: "snapshot i k = Some s \<Longrightarrow> wi_id s = k"
  by (auto simp: snapshot_def find_Some_iff)

text \<open>After \<open>update_ws\<close> for \<open>w\<close> the information sent about its id is \<open>w\<close>.\<close>

lemma view_update_known:
  assumes "view_ok cur i" and "map_of (mi_workspaces i) (wi_id w) = Some h" and "cur (wi_id w) = snapshot i (wi_id w)"
  shows "view_ok (cur(wi_id w \<mapsto> w)) (fst (update_ws ck g w (i, c)))"
proof -
  let ?i = "fst (update_ws ck g w (i, c))"
  obtain s where s: "snapshot i (wi_id w) = Some s" "client_view (mi_events i) h = Some (shown s)"
    using assms unfolding view_ok_def view_rel_def by metis
  have id_s: "wi_id s = wi_id w" by (rule snapshot_id [OF s(1)])
  have v: "client_view (mi_events ?i) = (client_view (mi_events i))(h \<mapsto> shown w)"
    using assms(2) s id_s
    by (auto simp: update_ws_def send_events_def client_view_append Let_def snapshot_def shown_def fun_eq_iff)
  have n: "mi_workspaces ?i = mi_workspaces i" "mi_manager ?i = mi_manager i" "mi_next_obj ?i = mi_next_obj i"
    using assms(2) by (simp_all add: update_ws_def send_events_def Let_def)
  show ?thesis
    using assms(1,2) unfolding view_ok_def v n by (intro view_rel_update)
qed

lemma view_update_new:
  assumes "view_ok cur i" and "map_of (mi_workspaces i) (wi_id w) = None" and "ck (mi_manager i, mi_next_obj i)"
  shows "view_ok (cur(wi_id w \<mapsto> w)) (fst (update_ws ck g w (i, c)))"
    and "map_of (mi_workspaces (fst (update_ws ck g w (i, c)))) =
      (map_of (mi_workspaces i))(wi_id w \<mapsto> (mi_manager i, mi_next_obj i))"
proof -
  let ?i = "fst (update_ws ck g w (i, c))" and ?h = "(mi_manager i, mi_next_obj i)"
  have v: "client_view (mi_events ?i) = (client_view (mi_events i))(?h \<mapsto> shown w)"
    using assms(2,3)
    by (simp add: update_ws_def send_events_def client_view_append announce_ws_def create_resource_def Let_def
        shown_def)
  show m: "map_of (mi_workspaces ?i) = (map_of (mi_workspaces i))(wi_id w \<mapsto> ?h)"
    using assms(2,3) by (simp add: update_ws_def send_events_def create_resource_def Let_def update_conv')
  have n: "mi_manager ?i = mi_manager i" "mi_next_obj ?i = mi_next_obj i + 1"
    using assms(2,3) by (simp_all add: update_ws_def send_events_def create_resource_def Let_def)
  show "view_ok (cur(wi_id w \<mapsto> w)) ?i"
    using assms(1,2) unfolding view_ok_def v m n by (intro view_rel_new)
qed

lemma update_fails:
  assumes "map_of (mi_workspaces i) (wi_id w) = None" and "\<not> ck (mi_manager i, mi_next_obj i)"
  shows "update_ws ck g w (i, c) = (i\<lparr>mi_next_obj := mi_next_obj i + 1\<rparr>, c)"
  using assms by (simp add: update_ws_def create_resource_def Let_def)

lemma view_update:
  assumes "view_ok cur i" and "cur (wi_id w) = snapshot i (wi_id w)"
  shows "\<exists>cur'. view_ok cur' (fst (update_ws ck g w (i, c))) \<and> (\<forall>k. k \<noteq> wi_id w \<longrightarrow> cur' k = cur k) \<and>
    (map_of (mi_workspaces (fst (update_ws ck g w (i, c)))) (wi_id w) \<noteq> None \<longrightarrow> cur' (wi_id w) = Some w)"
proof (cases "map_of (mi_workspaces i) (wi_id w)")
  case (Some h)
  show ?thesis
    by (rule exI [of _ "cur(wi_id w \<mapsto> w)"]) (simp add: view_update_known [OF assms(1) Some assms(2)])
next
  case None
  show ?thesis
  proof (cases "ck (mi_manager i, mi_next_obj i)")
    case True
    show ?thesis
      by (rule exI [of _ "cur(wi_id w \<mapsto> w)"]) (simp add: view_update_new [OF assms(1) None, of ck, OF True])
  next
    case False
    have "view_ok cur (i\<lparr>mi_next_obj := mi_next_obj i + 1\<rparr>)"
      by (rule view_ok_cong [OF _ _ _ _ assms(1)]) simp_all
    then show ?thesis
      using None by (intro exI [of _ cur]) (simp add: update_fails [of i w ck, OF None False])
  qed
qed


section \<open>The whole refresh\<close>

lemma inst_frames:
  "last_snapshot (fst (remove_ws g k (i, c))) = last_snapshot i"
  "mi_manager (fst (remove_ws g k (i, c))) = mi_manager i"
  "mi_group (fst (remove_ws g k (i, c))) = mi_group i"
  "last_snapshot (fst (update_ws ck g w (i, c))) = last_snapshot i"
  "mi_manager (fst (update_ws ck g w (i, c))) = mi_manager i"
  "mi_group (fst (update_ws ck g w (i, c))) = mi_group i"
  by (simp_all add: remove_ws_def update_ws_def send_events_def create_resource_def Let_def split: option.split)

lemma remove_keys:
  "map_of (mi_workspaces (fst (remove_ws g k (i, c)))) = (map_of (mi_workspaces i))(k := None)"
  by (auto simp: remove_ws_def send_events_def delete_conv' split: option.split)

lemma fold_remove:
  assumes "view_ok cur i"
  shows "let r = fold (remove_ws g) ks (i, c) in view_ok cur (fst r) \<and> last_snapshot (fst r) = last_snapshot i \<and>
    mi_manager (fst r) = mi_manager i \<and> mi_group (fst r) = mi_group i \<and>
    map_of (mi_workspaces (fst r)) = (\<lambda>k. if k \<in> set ks then None else map_of (mi_workspaces i) k)"
  using assms
proof (induction ks arbitrary: i c)
  case (Cons k ks)
  obtain i' c' where r: "remove_ws g k (i, c) = (i', c')" by force
  then have i': "fst (remove_ws g k (i, c)) = i'" by simp
  show ?case
    using Cons.IH [of i' c'] view_remove [OF Cons.prems, of g k c] inst_frames(1-3) [of g k i c] remove_keys [of g k i c]
    by (auto simp: r i' Let_def fun_eq_iff)
qed (simp add: Let_def)

lemma update_other_key:
  "k \<noteq> wi_id w \<Longrightarrow> map_of (mi_workspaces (fst (update_ws ck g w (i, c)))) k = map_of (mi_workspaces i) k"
  by (simp add: update_ws_def send_events_def create_resource_def Let_def update_conv' split: option.split)

lemma fold_update_other:
  "k \<notin> wi_id ` set ws \<Longrightarrow>
     map_of (mi_workspaces (fst (fold (update_ws ck g) ws r))) k = map_of (mi_workspaces (fst r)) k"
proof (induction ws arbitrary: r)
  case (Cons w ws)
  then show ?case using update_other_key [of k w ck g "fst r" "snd r"] by simp
qed simp

text \<open>What is known after updating the workspaces \<open>ws\<close>: \<open>ws\<close> where a handle exists, the old
  information elsewhere.\<close>

lemma fold_update:
  assumes "view_ok cur i" and "\<forall>w \<in> set ws. cur (wi_id w) = snapshot i (wi_id w)" and "distinct (map wi_id ws)"
  shows "\<exists>cur'. (let r = fold (update_ws ck g) ws (i, c) in view_ok cur' (fst r) \<and>
    (\<forall>k. k \<notin> wi_id ` set ws \<longrightarrow> cur' k = cur k) \<and> last_snapshot (fst r) = last_snapshot i \<and>
    mi_manager (fst r) = mi_manager i \<and> mi_group (fst r) = mi_group i \<and>
    (\<forall>w \<in> set ws. map_of (mi_workspaces (fst r)) (wi_id w) \<noteq> None \<longrightarrow> cur' (wi_id w) = Some w))"
  using assms
proof (induction ws arbitrary: i c cur)
  case Nil
  show ?case by (rule exI [of _ cur]) (simp add: Nil(1) Let_def)
next
  case (Cons w ws)
  obtain i' c' where r: "update_ws ck g w (i, c) = (i', c')" by force
  then have i': "fst (update_ws ck g w (i, c)) = i'" by simp
  note fr = inst_frames(4-6) [of ck g w i c, unfolded i']
  obtain cur1 where c1: "view_ok cur1 i'" "\<forall>k. k \<noteq> wi_id w \<longrightarrow> cur1 k = cur k"
    "map_of (mi_workspaces i') (wi_id w) \<noteq> None \<longrightarrow> cur1 (wi_id w) = Some w"
    using view_update [OF Cons.prems(1), of w ck g c] Cons.prems(2) unfolding i' by auto
  have "\<forall>x \<in> set ws. cur1 (wi_id x) = snapshot i' (wi_id x)"
  proof
    fix x assume x: "x \<in> set ws"
    then have "wi_id x \<noteq> wi_id w" using Cons.prems(3) by (auto simp: image_iff)
    then show "cur1 (wi_id x) = snapshot i' (wi_id x)"
      using x Cons.prems(2) c1(2) by (simp add: snapshot_def fr)
  qed
  then obtain cur2 where c2: "let r = fold (update_ws ck g) ws (i', c') in view_ok cur2 (fst r) \<and>
    (\<forall>k. k \<notin> wi_id ` set ws \<longrightarrow> cur2 k = cur1 k) \<and> last_snapshot (fst r) = last_snapshot i' \<and>
    mi_manager (fst r) = mi_manager i' \<and> mi_group (fst r) = mi_group i' \<and>
    (\<forall>w \<in> set ws. map_of (mi_workspaces (fst r)) (wi_id w) \<noteq> None \<longrightarrow> cur2 (wi_id w) = Some w)"
    using Cons.IH [OF c1(1), of c'] Cons.prems(3) by auto
  show ?case
  proof (rule exI [of _ cur2], unfold Let_def, intro conjI)
    have w: "wi_id w \<notin> wi_id ` set ws" using Cons.prems(3) by simp
    have keep: "map_of (mi_workspaces (fst (fold (update_ws ck g) ws (i', c')))) (wi_id w) \<noteq> None \<longrightarrow>
      map_of (mi_workspaces i') (wi_id w) \<noteq> None"
      using fold_update_other [OF w] by simp
    show "\<forall>x \<in> set (w # ws). map_of (mi_workspaces (fst (fold (update_ws ck g) (w # ws) (i, c)))) (wi_id x) \<noteq> None \<longrightarrow>
      cur2 (wi_id x) = Some x"
      using c2 c1(3) w keep by (auto simp: r Let_def)
  qed (use c2 c1(2) in \<open>simp_all add: r Let_def fr\<close>)
qed


lemma view_ok_agree:
  "(\<And>k h. map_of (mi_workspaces i) k = Some h \<Longrightarrow> cur' k = cur k) \<Longrightarrow> view_ok cur i \<Longrightarrow> view_ok cur' i"
  by (simp add: view_ok_def view_rel_def)

lemma unchanged_update:
  "\<not> snd (fold (update_ws ck g) ws r) \<Longrightarrow>
     \<not> snd r \<and> mi_events (fst (fold (update_ws ck g) ws r)) = mi_events (fst r) \<and>
     mi_workspaces (fst (fold (update_ws ck g) ws r)) = mi_workspaces (fst r) \<and>
     mi_next_obj (fst r) \<le> mi_next_obj (fst (fold (update_ws ck g) ws r))"
proof (induction ws arbitrary: r)
  case (Cons w ws)
  obtain i c where r: "r = (i, c)" by force
  have "\<not> snd (update_ws ck g w r) \<longrightarrow> \<not> c \<and> mi_events (fst (update_ws ck g w r)) = mi_events i \<and>
     mi_workspaces (fst (update_ws ck g w r)) = mi_workspaces i \<and> mi_next_obj i \<le> mi_next_obj (fst (update_ws ck g w r))"
    by (auto simp: r update_ws_def send_events_def create_resource_def Let_def split: option.split)
  then show ?case using Cons.IH [of "update_ws ck g w r"] Cons.prems r by auto
qed simp

lemma unchanged_remove:
  "\<not> snd (fold (remove_ws g) ks r) \<Longrightarrow> \<not> snd r \<and> fst (fold (remove_ws g) ks r) = fst r"
proof (induction ks arbitrary: r)
  case (Cons k ks)
  obtain i c where r: "r = (i, c)" by force
  have "\<not> snd (remove_ws g k r) \<longrightarrow> \<not> c \<and> fst (remove_ws g k r) = i"
    by (simp add: r remove_ws_def split: option.split)
  then show ?case using Cons.IH [of "remove_ws g k r"] Cons.prems r by auto
qed simp

lemma update_keeps_key:
  "map_of (mi_workspaces (fst r)) k \<noteq> None \<Longrightarrow> map_of (mi_workspaces (fst (update_ws ck g w r))) k \<noteq> None"
  by (cases r) (auto simp: update_ws_def send_events_def create_resource_def Let_def update_conv' split: option.split)

lemma fold_update_keeps_key:
  "map_of (mi_workspaces (fst r)) k \<noteq> None \<Longrightarrow> map_of (mi_workspaces (fst (fold (update_ws ck g) ws r))) k \<noteq> None"
proof (induction ws arbitrary: r)
  case (Cons w ws)
  then show ?case using update_keeps_key [of r k ck g w] by simp
qed simp

lemma update_present:
  assumes "\<forall>ob. ck ob"
  shows "w \<in> set ws \<Longrightarrow> map_of (mi_workspaces (fst (fold (update_ws ck g) ws r))) (wi_id w) \<noteq> None"
proof (induction ws arbitrary: r)
  case (Cons x ws)
  have "map_of (mi_workspaces (fst (update_ws ck g x r))) (wi_id x) \<noteq> None"
    using assms
    by (cases r) (simp add: update_ws_def send_events_def create_resource_def Let_def update_conv' split: option.split)
  then show ?case
    using Cons.prems Cons.IH [of "update_ws ck g x r"]
      fold_update_keeps_key [of "update_ws ck g x r" "wi_id x" ck g ws] by auto
qed simp

section \<open>Refreshing one instance\<close>

lemma ensure_group_cases:
  assumes "ensure_group ck i = ((og, c), i1)"
  shows "(og = None \<longrightarrow> \<not> c) \<and> mi_workspaces i1 = mi_workspaces i \<and> client_view (mi_events i1) = client_view (mi_events i) \<and>
    mi_manager i1 = mi_manager i \<and> mi_next_obj i \<le> mi_next_obj i1 \<and> last_snapshot i1 = last_snapshot i \<and>
    (og \<noteq> None \<longrightarrow> mi_group i1 = og) \<and> (\<not> c \<longrightarrow> og \<noteq> None \<longrightarrow> i1 = i)"
  using assms view_silent [of "[EvGroup g, EvGroupCapabilities g]" "mi_events i" for g]
  by (auto simp: ensure_group_def create_resource_def send_events_def Let_def silent_events split: option.splits if_splits)

definition up_to_date :: "ws_info list \<Rightarrow> mgr_instance \<Rightarrow> bool" where
  "up_to_date ws i \<longleftrightarrow> (\<exists>cur. view_ok cur i \<and>
     (\<forall>k h. map_of (mi_workspaces i) k = Some h \<longrightarrow> (\<exists>w \<in> set ws. wi_id w = k \<and> cur k = Some w)))"

lemma refresh_instance_result:
  assumes "inst_ok i" and "iteration_order visit" and "distinct (map wi_id ws)"
    and "ensure_group ck i = ((Some g, c), i1)"
  defines "r \<equiv> fold (update_ws ck g) ws (fold (remove_ws g)
      (filter (\<lambda>k. k \<notin> set (map wi_id ws)) (visit (map fst (mi_workspaces i1)))) (i1, c))"
  shows "up_to_date ws (fst r)" and "last_snapshot (fst r) = last_snapshot i" and "mi_manager (fst r) = mi_manager i"
    and "mi_group (fst r) = Some g"
    and "\<not> snd r \<Longrightarrow> mi_workspaces (fst r) = mi_workspaces i \<and> mi_events (fst r) = mi_events i \<and>
      mi_next_obj i \<le> mi_next_obj (fst r)"
    and "\<forall>ob. ck ob \<Longrightarrow> \<forall>w \<in> set ws. map_of (mi_workspaces (fst r)) (wi_id w) \<noteq> None"
proof -
  obtain dead where dead: "filter (\<lambda>k. k \<notin> set (map wi_id ws)) (visit (map fst (mi_workspaces i1))) = dead"
    by blast
  have in_dead: "k \<in> set dead \<longleftrightarrow> k \<notin> wi_id ` set ws \<and> k \<in> fst ` set (mi_workspaces i1)" for k
    using iteration_set [OF assms(2)] by (auto simp flip: dead)
  let ?r1 = "fold (remove_ws g) dead (i1, c)"
  have r: "r = fold (update_ws ck g) ws ?r1" by (simp only: r_def dead)
  note eg = ensure_group_cases [OF assms(4)]
  have v1: "view_ok (snapshot i) i1"
    using view_ok_cong [of i1 i "snapshot i"] eg assms(1) by (simp add: inst_ok_def)
  note rem = fold_remove [OF v1, of g dead c, unfolded Let_def]
  have snap: "snapshot (fst ?r1) = snapshot i" using rem eg by (simp add: snapshot_def fun_eq_iff)
  obtain i2 c2 where r1: "?r1 = (i2, c2)" by force
  have "view_ok (snapshot i2) i2" using rem snap by (simp add: r1)
  then obtain cur' where cur': "view_ok cur' (fst r)" "\<forall>k. k \<notin> wi_id ` set ws \<longrightarrow> cur' k = snapshot i2 k"
    "last_snapshot (fst r) = last_snapshot i2" "mi_manager (fst r) = mi_manager i2" "mi_group (fst r) = mi_group i2"
    "\<forall>w \<in> set ws. map_of (mi_workspaces (fst r)) (wi_id w) \<noteq> None \<longrightarrow> cur' (wi_id w) = Some w"
    using fold_update [of "snapshot i2" i2 ws ck g c2] assms(3) by (auto simp: Let_def r r1)
  have keys: "k \<in> wi_id ` set ws" if "map_of (mi_workspaces (fst r)) k = Some h" for k h
  proof (rule ccontr)
    assume k: "k \<notin> wi_id ` set ws"
    then have "map_of (mi_workspaces i2) k = Some h"
      using that fold_update_other [OF k, of ck g ?r1] by (simp add: r r1)
    then have "k \<notin> set dead" "map_of (mi_workspaces i1) k = Some h"
      using rem r1 by (auto split: if_splits)
    then show False
      using k in_dead [of k] by (force dest: map_of_SomeD)
  qed
  show "up_to_date ws (fst r)"
    unfolding up_to_date_def using cur'(1,6) keys by (intro exI [of _ cur']) force
  show "last_snapshot (fst r) = last_snapshot i" "mi_manager (fst r) = mi_manager i" "mi_group (fst r) = Some g"
    using cur' rem eg r1 by simp_all
  show "\<not> snd r \<Longrightarrow> mi_workspaces (fst r) = mi_workspaces i \<and> mi_events (fst r) = mi_events i \<and>
      mi_next_obj i \<le> mi_next_obj (fst r)"
    using unchanged_update [of ck g ws ?r1] unchanged_remove [of g dead "(i1, c)"] eg by (auto simp: r)
  show "\<forall>ob. ck ob \<Longrightarrow> \<forall>w \<in> set ws. map_of (mi_workspaces (fst r)) (wi_id w) \<noteq> None"
    using update_present by (simp add: r)
qed


lemma find_unique:
  "distinct (map wi_id ws) \<Longrightarrow> w \<in> set ws \<Longrightarrow> find (\<lambda>s. wi_id s = wi_id w) ws = Some w"
proof (induction ws)
  case (Cons x ws)
  then show ?case by (cases "w = x") (auto simp: image_iff)
qed simp

text \<open>The result of a refresh that reaches the client: with a change the instance of
  \<open>refresh_instance\<close> with \<open>done\<close> sent and a new snapshot, without one the same events as before.\<close>

lemma refresh_one_cases:
  assumes "\<not> mi_stopped i" and "alive (mi_manager i)" and "has_client (mi_manager i)"
    and "ensure_group ck i = ((Some g, c), i1)"
    and "fold (update_ws ck g) ws (fold (remove_ws g)
      (filter (\<lambda>k. k \<notin> set (map wi_id ws)) (visit (map fst (mi_workspaces i1)))) (i1, c)) = r"
  shows "refresh_one visit ck alive has_client ws i =
    (if snd r then (send_events [EvDone] (fst r))\<lparr>last_snapshot := ws\<rparr> else fst r)"
  using assms by (simp add: refresh_one_def refresh_instance_def Let_def case_prod_beta)

lemma inst_ok_after:
  assumes "inst_ok i" and "iteration_order visit" and "distinct (map wi_id ws)"
    and "ensure_group ck i = ((Some g, c), i1)" and "\<not> mi_stopped i" and "alive (mi_manager i)"
    and "has_client (mi_manager i)"
  defines "i' \<equiv> refresh_one visit ck alive has_client ws i"
  shows "inst_ok i'" and "up_to_date ws i'" and "mi_manager i' = mi_manager i" and "mi_group i' = Some g"
    and "\<forall>ob. ck ob \<Longrightarrow> \<forall>w \<in> set ws. map_of (mi_workspaces i') (wi_id w) \<noteq> None"
proof -
  obtain r where r: "fold (update_ws ck g) ws (fold (remove_ws g)
      (filter (\<lambda>k. k \<notin> set (map wi_id ws)) (visit (map fst (mi_workspaces i1)))) (i1, c)) = r" by blast
  note res = refresh_instance_result [OF assms(1-4), unfolded r]
  have i': "i' = (if snd r then (send_events [EvDone] (fst r))\<lparr>last_snapshot := ws\<rparr> else fst r)"
    unfolding i'_def 
    by (rule refresh_one_cases [where alive = alive and has_client = has_client and visit = visit and ck = ck,
      OF assms(5-7,4) r])
  have done_ok: "view_ok cur i'" if "view_ok cur (fst r)" for cur
    using that view_silent [of "[EvDone]" "mi_events (fst r)"]
    by (cases "snd r") (auto simp: i' send_events_def silent_events elim!: view_ok_cong [rotated -1])
  have same: "mi_workspaces i' = mi_workspaces (fst r)" "mi_manager i' = mi_manager (fst r)" "mi_group i' = mi_group (fst r)"
    by (simp_all add: i' send_events_def)
  show "up_to_date ws i'"
    using res(1) done_ok unfolding up_to_date_def same by blast
  show "mi_manager i' = mi_manager i" "mi_group i' = Some g"
    "\<forall>ob. ck ob \<Longrightarrow> \<forall>w \<in> set ws. map_of (mi_workspaces i') (wi_id w) \<noteq> None"
    using res by (simp_all add: same)
  show "inst_ok i'"
  proof (cases "snd r")
    case True
    obtain cur where cur: "view_ok cur (fst r)"
      "\<forall>k h. map_of (mi_workspaces (fst r)) k = Some h \<longrightarrow> (\<exists>w \<in> set ws. wi_id w = k \<and> cur k = Some w)"
      using res(1) unfolding up_to_date_def by blast
    have "snapshot i' k = cur k" if "map_of (mi_workspaces i') k = Some h" for k h
      using that cur(2) find_unique [OF assms(3)] True by (auto simp: same snapshot_def i' send_events_def)
    then show ?thesis
      unfolding inst_ok_def by (rule view_ok_agree [OF _ done_ok [OF cur(1)]])
  next
    case False
    have "snapshot (fst r) = snapshot i" using res(2) by (simp add: snapshot_def fun_eq_iff)
    with False show ?thesis
      using view_ok_cong [of "fst r" i "snapshot i"] res assms(1) by (simp add: i' inst_ok_def)
  qed
qed

lemma inst_ok_refresh:
  assumes "inst_ok i" and "iteration_order visit" and "distinct (map wi_id ws)"
  shows "inst_ok (refresh_one visit ck alive has_client ws i)"
proof (cases "mi_stopped i \<or> \<not> alive (mi_manager i) \<or> \<not> has_client (mi_manager i)")
  case True
  then show ?thesis using assms(1) by (auto simp: refresh_one_def refresh_instance_def)
next
  case False
  obtain og c i1 where eg: "ensure_group ck i = ((og, c), i1)" by (metis prod.exhaust)
  show ?thesis
  proof (cases og)
    case None
    then have "refresh_one visit ck alive has_client ws i = i1"
      using False eg by (simp add: refresh_one_def refresh_instance_def)
    moreover have "snapshot i1 = snapshot i"
      using ensure_group_cases [OF eg] by (simp add: snapshot_def fun_eq_iff)
    ultimately show ?thesis
      using ensure_group_cases [OF eg] assms(1) view_ok_cong [of i1 i "snapshot i"] by (simp add: inst_ok_def)
  next
    case (Some g)
    then show ?thesis
      using inst_ok_after(1) [OF assms, of ck g c i1 alive has_client] eg False by simp
  qed
qed

section \<open>Requests\<close>

lemma inst_ok_silent:
  "inst_ok i \<Longrightarrow> list_all silent evs \<Longrightarrow> inst_ok (send_events evs i)"
  "inst_ok (i\<lparr>mi_actions := acts\<rparr>) = inst_ok i" "inst_ok (i\<lparr>mi_stopped := b\<rparr>) = inst_ok i"
  by (simp_all add: inst_ok_def view_ok_def send_events_def view_silent snapshot_def [abs_def])

lemma inst_ok_bind: "inst_ok \<lparr>mi_manager = m, mi_group = None, mi_workspaces = [], last_snapshot = [],
    mi_actions = [], mi_stopped = False, mi_next_obj = 0, mi_events = []\<rparr>"
  by (simp add: inst_ok_def view_ok_def view_rel_def client_view_def)

lemma list_all_update_first: "list_all P xs \<Longrightarrow> (\<And>x. P x \<Longrightarrow> P (f x)) \<Longrightarrow> list_all P (update_first Q f xs)"
  by (induction xs) auto

lemma inst_ok_requests:
  assumes "list_all inst_ok p"
  shows "list_all inst_ok (bind_manager m p)" "list_all inst_ok (manager_request m rq p)"
    "list_all inst_ok (manager_destroyed m p)" "list_all inst_ok (group_request grq p)"
    "list_all inst_ok (handle_request visit h hrq p)" "list_all inst_ok (cleanup_dead alive p)"
    "list_all inst_ok (snd (take_pending_actions p))"
proof -
  show "list_all inst_ok (manager_request m rq p)"
    using assms unfolding manager_request_def
    by (rule list_all_update_first) (auto simp: inst_ok_silent silent_events split: manager_request.split)
  show "list_all inst_ok (group_request grq p)" "list_all inst_ok (handle_request visit h hrq p)"
    using assms
    by (auto simp: group_request_def handle_request_def push_action_def inst_ok_silent
        intro!: list_all_update_first split: group_request.split handle_request.split option.split)
qed (use assms in \<open>auto simp: bind_manager_def inst_ok_bind manager_destroyed_def cleanup_dead_def
    take_pending_actions_def list_all_iff inst_ok_silent\<close>)

lemma inst_ok_ws_refresh:
  "list_all inst_ok p \<Longrightarrow> iteration_order visit \<Longrightarrow> distinct (map wi_id ws) \<Longrightarrow>
     list_all inst_ok (ws_refresh visit ck alive has_client ws p)"
  by (simp add: ws_refresh_def list_all_iff inst_ok_refresh)

section \<open>A refresh shows the truth, once\<close>

lemma up_to_date_view:
  assumes "up_to_date ws i" and "\<forall>w \<in> set ws. map_of (mi_workspaces i) (wi_id w) \<noteq> None" and "distinct (map wi_id ws)"
  shows "ran (client_view (mi_events i)) = shown ` set ws"
proof -
  obtain cur where cur: "view_rel cur (map_of (mi_workspaces i)) (client_view (mi_events i)) (mi_manager i) (mi_next_obj i)"
    "\<forall>k h. map_of (mi_workspaces i) k = Some h \<longrightarrow> (\<exists>w \<in> set ws. wi_id w = k \<and> cur k = Some w)"
    using assms(1) unfolding up_to_date_def view_ok_def by blast
  have one: "x \<in> shown ` set ws" if v: "client_view (mi_events i) h = Some x" for h x
  proof -
    obtain k where k: "map_of (mi_workspaces i) k = Some h" using view_relD(2) [OF cur(1) v] by blast
    then obtain w where w: "w \<in> set ws" "wi_id w = k" "cur k = Some w" using cur(2) by blast
    then have "x = shown w" using view_relD(1) [OF cur(1) k] v w(3) by auto
    then show ?thesis using w(1) by blast
  qed
  have two: "shown w \<in> ran (client_view (mi_events i))" if w: "w \<in> set ws" for w
  proof -
    obtain h where h: "map_of (mi_workspaces i) (wi_id w) = Some h" using assms(2) w by auto
    then obtain w' where w': "w' \<in> set ws" "wi_id w' = wi_id w" "cur (wi_id w) = Some w'" using cur(2) by blast
    then have "w' = w" using assms(3) w by (meson distinct_map inj_on_eq_iff)
    then have "client_view (mi_events i) h = Some (shown w)" using view_relD(1) [OF cur(1) h] w'(3) by auto
    then show ?thesis by (rule ranI)
  qed
  show ?thesis using one two by (auto simp: ran_def)
qed

lemma update_nothing:
  "map_of (mi_workspaces i) (wi_id w) = Some h \<Longrightarrow> snapshot i (wi_id w) = Some s \<Longrightarrow> shown s = shown w \<Longrightarrow>
     update_ws ck g w (i, c) = (i, c)"
  by (simp add: update_ws_def snapshot_def send_events_def shown_def)

lemma refresh_again:
  assumes "inst_ok i" and "up_to_date ws i" and "mi_group i = Some g" and "iteration_order visit"
    and "\<forall>w \<in> set ws. map_of (mi_workspaces i) (wi_id w) \<noteq> None" and "distinct (map wi_id ws)"
  shows "refresh_one visit ck alive has_client ws i = i"
proof -
  obtain cur where cur: "view_rel cur (map_of (mi_workspaces i)) (client_view (mi_events i)) (mi_manager i) (mi_next_obj i)"
    "\<forall>k h. map_of (mi_workspaces i) k = Some h \<longrightarrow> (\<exists>w \<in> set ws. wi_id w = k \<and> cur k = Some w)"
    using assms(2) unfolding up_to_date_def view_ok_def by blast
  have ok: "view_rel (snapshot i) (map_of (mi_workspaces i)) (client_view (mi_events i)) (mi_manager i) (mi_next_obj i)"
    using assms(1) by (simp add: inst_ok_def view_ok_def)
  have one: "update_ws ck g w (i, c) = (i, c)" if w: "w \<in> set ws" for w c
  proof -
    obtain h where h: "map_of (mi_workspaces i) (wi_id w) = Some h" using assms(5) w by auto
    then obtain w' where w': "w' \<in> set ws" "wi_id w' = wi_id w" "cur (wi_id w) = Some w'" using cur(2) by blast
    have "w' = w" using assms(6) w w' by (meson distinct_map inj_on_eq_iff)
    then have "client_view (mi_events i) h = Some (shown w)"
      using view_relD(1) [OF cur(1) h] w'(3) by auto
    moreover obtain s where "snapshot i (wi_id w) = Some s" "client_view (mi_events i) h = Some (shown s)"
      using view_relD(1) [OF ok h] by blast
    ultimately show ?thesis using update_nothing [OF h, of s] by simp
  qed
  have fold: "fold (update_ws ck g) xs (i, c) = (i, c)" if "set xs \<subseteq> set ws" for xs c
    using that by (induction xs) (auto simp: one)
  have "filter (\<lambda>k. k \<notin> set (map wi_id ws)) (visit (map fst (mi_workspaces i))) = []"
    using cur(2) iteration_set [OF assms(4)] by (force simp: filter_empty_conv dest: weak_map_of_SomeI)
  then show ?thesis
    using assms(3) fold [of ws]
    by (simp add: refresh_one_def refresh_instance_def ensure_group_def)
qed

end
