(* ===== verification/Ws_Batch.thy ===== *)
theory Ws_Batch
  imports Ws_Facts
begin

text \<open>
  The order of the events a client of ext-workspace-v1 is sent: every handle is announced once, and
  whatever is sent is followed by \<open>done\<close> before the compositor goes on. \<open>inst_sound\<close> adds this to
  \<open>inst_ok\<close>.
\<close>

fun announced :: "ws_event list \<Rightarrow> obj list" where
  "announced [] = []"
| "announced (EvWorkspace h # evs) = h # announced evs"
| "announced (ev # evs) = announced evs"

definition settled :: "ws_event list \<Rightarrow> bool" where
  "settled evs \<longleftrightarrow> evs = [] \<or> last evs = EvDone"

lemma announced_append [simp]: "announced (xs @ ys) = announced xs @ announced ys"
  by (induction xs rule: announced.induct) simp_all

lemma set_announced: "set (announced evs) = {h. EvWorkspace h \<in> set evs}"
  by (induction evs rule: announced.induct) auto

definition inst_sound :: "mgr_instance \<Rightarrow> bool" where
  "inst_sound i \<longleftrightarrow> inst_ok i \<and> distinct (announced (mi_events i)) \<and>
     (\<forall>h \<in> set (announced (mi_events i)). snd h < mi_next_obj i) \<and>
     (\<not> mi_stopped i \<longrightarrow> settled (mi_events i) \<and> EvFinished \<notin> set (mi_events i))"

section \<open>What a refresh appends\<close>

definition grows_by :: "ws_event list \<Rightarrow> mgr_instance \<times> bool \<Rightarrow> mgr_instance \<times> bool \<Rightarrow> bool" where
  "grows_by evs p q \<longleftrightarrow> mi_next_obj (fst p) \<le> mi_next_obj (fst q) \<and> mi_stopped (fst q) = mi_stopped (fst p) \<and>
     mi_events (fst q) = mi_events (fst p) @ evs \<and> (evs \<noteq> [] \<or> snd p \<longrightarrow> snd q) \<and>
     EvFinished \<notin> set evs \<and> distinct (announced evs) \<and>
     (\<forall>h \<in> set (announced evs). mi_next_obj (fst p) \<le> snd h \<and> snd h < mi_next_obj (fst q))"

definition grows :: "mgr_instance \<times> bool \<Rightarrow> mgr_instance \<times> bool \<Rightarrow> bool" where
  "grows p q \<longleftrightarrow> (\<exists>evs. grows_by evs p q)"

lemma growsI:
  assumes "mi_next_obj i \<le> mi_next_obj j" and "mi_stopped j = mi_stopped i" and "mi_events j = mi_events i @ evs"
    and "evs \<noteq> [] \<or> c \<longrightarrow> d" and "EvFinished \<notin> set evs" and "distinct (announced evs)"
    and "\<forall>h \<in> set (announced evs). mi_next_obj i \<le> snd h \<and> snd h < mi_next_obj j"
  shows "grows (i, c) (j, d)"
  unfolding grows_def grows_by_def fst_conv snd_conv using assms by blast

lemma grows_refl [simp]: "grows p p"
  by (cases p) (auto intro: growsI [of _ _ "[]"])

lemma grows_by_trans: "grows_by xs p q \<Longrightarrow> grows_by ys q r \<Longrightarrow> grows_by (xs @ ys) p r"
  unfolding grows_by_def by fastforce

lemma grows_trans: "grows p q \<Longrightarrow> grows q r \<Longrightarrow> grows p r"
  unfolding grows_def using grows_by_trans by blast

lemma grows_fold:
  assumes "\<And>x p. grows p (f x p)"
  shows "grows p (fold f xs p)"
proof (induction xs arbitrary: p)
  case (Cons x xs)
  show ?case using grows_trans [OF assms [of p x] Cons [of "f x p"]] by simp
qed simp

lemma grows_remove: "grows p (remove_ws g k p)"
  by (cases p) (auto simp: remove_ws_def send_events_def split: option.split
      intro!: growsI [where evs = "[EvLeave g h, EvRemoved h]" for h])

lemma grows_update: "grows p (update_ws ck g w p)"
proof (cases p)
  case (Pair i c)
  let ?h = "(mi_manager i, mi_next_obj i)"
  show ?thesis
  proof (cases "map_of (mi_workspaces i) (wi_id w)")
    case None
    have "grows (i, c) (i\<lparr>mi_next_obj := mi_next_obj i + 1\<rparr>, c)"
      by (rule growsI [of _ _ "[]"]) simp_all
    moreover have "grows (i, c) (send_events (announce_ws g ?h w)
        (i\<lparr>mi_next_obj := mi_next_obj i + 1, mi_workspaces := AList.update (wi_id w) ?h (mi_workspaces i)\<rparr>), True)"
      by (rule growsI [of _ _ "announce_ws g ?h w"]) (simp_all add: send_events_def announce_ws_def)
    ultimately show ?thesis
      using None Pair by (simp add: update_ws_def create_resource_def Let_def)
  next
    case (Some h)
    obtain evs d where step: "update_ws ck g w (i, c) = (send_events evs i, d)" "evs \<noteq> [] \<longrightarrow> d" "c \<longrightarrow> d"
        "set evs \<subseteq> {EvName h (wi_name w), EvState h (wi_active w)}" "announced evs = []"
      using Some by (fastforce simp: update_ws_def Let_def split: if_splits)
    have "grows (i, c) (send_events evs i, d)"
      by (rule growsI [of _ _ evs]) (use step in \<open>auto simp: send_events_def\<close>)
    then show ?thesis by (simp add: Pair step(1))
  qed
qed

lemma grows_group:
  assumes "ensure_group ck i = ((og, c), i1)"
  shows "grows (i, False) (i1, c)"
proof -
  have "grows (i, False) (i\<lparr>mi_next_obj := mi_next_obj i + 1\<rparr>, False)"
    by (rule growsI [of _ _ "[]"]) simp_all
  moreover have "grows (i, False)
      ((send_events [EvGroup g, EvGroupCapabilities g] (i\<lparr>mi_next_obj := mi_next_obj i + 1\<rparr>))\<lparr>mi_group := Some g\<rparr>, True)" for g
    by (rule growsI [of _ _ "[EvGroup g, EvGroupCapabilities g]"]) (simp_all add: send_events_def)
  ultimately show ?thesis
    using assms by (auto simp: ensure_group_def create_resource_def Let_def split: option.splits if_splits)
qed

lemma grows_refresh: "grows (i, False) (refresh_instance visit ck has_client ws i)"
proof -
  obtain og c i1 where eg: "ensure_group ck i = ((og, c), i1)" by (metis prod.exhaust)
  note group = grows_group [OF eg]
  have "grows (i1, c) (fold (update_ws ck g) ws (fold (remove_ws g) ks (i1, c)))" for g ks
    by (rule grows_trans [OF grows_fold grows_fold]) (rule grows_remove grows_update)+
  from grows_trans [OF group this] show ?thesis
  proof (cases og)
    case None
    then have "\<not> c" using ensure_group_cases [OF eg] by simp
    then show ?thesis using None eg group by (simp add: refresh_instance_def)
  next
    case (Some g)
    then show ?thesis
      using eg \<open>\<And>ks g. grows (i, False) (fold (update_ws ck g) ws (fold (remove_ws g) ks (i1, c)))\<close>
      by (simp add: refresh_instance_def Let_def)
  qed
qed

section \<open>Preservation\<close>

lemma refresh_one_stopped [simp]: "mi_stopped (refresh_one visit ck alive has_client ws i) = mi_stopped i"
  using grows_refresh [of i visit ck has_client ws]
  by (auto simp: refresh_one_def send_events_def grows_def grows_by_def split: prod.split)

lemma sound_refresh:
  assumes "inst_sound i" and "iteration_order visit" and "distinct (map wi_id ws)"
  shows "inst_sound (refresh_one visit ck alive has_client ws i)"
proof -
  obtain j d where j: "refresh_instance visit ck has_client ws i = (j, d)" by (metis prod.exhaust)
  obtain evs where evs: "mi_events j = mi_events i @ evs" "evs \<noteq> [] \<longrightarrow> d" "EvFinished \<notin> set evs"
      "distinct (announced evs)" "\<forall>h \<in> set (announced evs). mi_next_obj i \<le> snd h \<and> snd h < mi_next_obj j"
      "mi_next_obj i \<le> mi_next_obj j" "mi_stopped j = mi_stopped i"
    using grows_refresh [of i visit ck has_client ws] by (auto simp: grows_def grows_by_def j)
  have ok: "inst_ok (refresh_one visit ck alive has_client ws i)"
    using assms by (intro inst_ok_refresh) (simp_all add: inst_sound_def)
  have "distinct (announced (mi_events j))" "\<forall>h \<in> set (announced (mi_events j)). snd h < mi_next_obj j"
    using assms(1) evs by (fastforce simp: inst_sound_def)+
  moreover have "settled (mi_events j)" if "\<not> d" "\<not> mi_stopped i"
    using that evs assms(1) by (auto simp: inst_sound_def)
  ultimately show ?thesis
    using ok assms(1) evs unfolding inst_sound_def
    by (auto simp: refresh_one_def j send_events_def settled_def split: if_splits)
qed

lemma sound_requests:
  assumes "list_all inst_sound p"
  shows "list_all inst_sound (bind_manager m p)" "list_all inst_sound (manager_request m rq p)"
    "list_all inst_sound (manager_destroyed m p)" "list_all inst_sound (group_request grq p)"
    "list_all inst_sound (handle_request visit h hrq p)" "list_all inst_sound (cleanup_dead alive p)"
    "list_all inst_sound (snd (take_pending_actions p))"
proof -
  have push: "inst_sound (push_action a i)" if "inst_sound i" for a i
    using that by (simp add: inst_sound_def push_action_def inst_ok_silent)
  have stop: "inst_sound (send_events [EvFinished] (i\<lparr>mi_stopped := True\<rparr>))" if "inst_sound i" for i
    using that by (simp add: inst_sound_def inst_ok_silent silent_events) (simp add: send_events_def)
  show "list_all inst_sound (manager_request m rq p)"
    using assms unfolding manager_request_def
    by (rule list_all_update_first) (auto simp: stop split: manager_request.split)
  show "list_all inst_sound (group_request grq p)" "list_all inst_sound (handle_request visit h hrq p)"
    using assms
    by (auto simp: group_request_def handle_request_def push
        intro!: list_all_update_first split: group_request.split handle_request.split option.split)
qed (use assms in \<open>auto simp: bind_manager_def inst_ok_bind manager_destroyed_def cleanup_dead_def
    take_pending_actions_def list_all_iff inst_sound_def settled_def inst_ok_silent\<close>)

lemma sound_ws_refresh:
  "list_all inst_sound p \<Longrightarrow> iteration_order visit \<Longrightarrow> distinct (map wi_id ws) \<Longrightarrow>
     list_all inst_sound (ws_refresh visit ck alive has_client ws p)"
  by (simp add: ws_refresh_def list_all_iff sound_refresh)

end
