(* ===== verification/Desk.thy ===== *)
theory Desk
  imports Frames Ws_Batch
begin

text \<open>
  The workspaces as the rest of the program thinks of them: a table from workspace ids to
  workspaces in which the active one is not special, and the applications by window id. The
  concrete state keeps the active workspace inline and swaps it with an entry of the table of
  inactive ones; the lemmas show that this implements the abstract operations.
\<close>

section \<open>Abstract state\<close>

record 'sp desk =
  d_active :: u64
  d_table :: "u64 \<Rightarrow> 'sp workspace option"
  d_apps :: "u64 \<Rightarrow> app_window option"

definition current_workspace :: "'sp emskin \<Rightarrow> 'sp workspace" where
  "current_workspace s = \<lparr>ws_space = active_space (c_ws s), ws_emacs = em_surface (c_emacs s),
     ws_name = active_name (c_ws s)\<rparr>"

definition desk_of :: "'sp emskin \<Rightarrow> 'sp desk" where
  "desk_of s = \<lparr>d_active = active_id (c_ws s),
     d_table = (map_of (inactive (c_ws s)))(active_id (c_ws s) \<mapsto> current_workspace s),
     d_apps = app_get (c_apps s)\<rparr>"

definition desk_switch :: "u64 \<Rightarrow> 'sp desk \<Rightarrow> 'sp desk" where
  "desk_switch k d = (if d_table d k = None then d else d\<lparr>d_active := k\<rparr>)"

definition desk_destroy :: "u64 \<Rightarrow> 'sp desk \<Rightarrow> 'sp desk" where
  "desk_destroy k d =
     (if k = d_active d \<or> d_table d k = None then d
      else d\<lparr>d_table := (d_table d)(k := None),
             d_apps := (\<lambda>i. case d_apps d i of None \<Rightarrow> None
               | Some a \<Rightarrow> if app_workspace a = k then None else Some a)\<rparr>)"

definition desk_space :: "u64 \<Rightarrow> ('sp \<Rightarrow> 'sp) \<Rightarrow> 'sp desk \<Rightarrow> 'sp desk" where
  "desk_space k f d =
     d\<lparr>d_table := (d_table d)(k := map_option (\<lambda>x. x\<lparr>ws_space := f (ws_space x)\<rparr>) (d_table d k))\<rparr>"

definition desk_migrate :: "'sp env \<Rightarrow> u64 \<Rightarrow> 'sp desk \<Rightarrow> 'sp desk" where
  "desk_migrate e i d =
     (case d_apps d i of
        None \<Rightarrow> d
      | Some a \<Rightarrow>
          if app_workspace a = d_active d then d
          else (desk_space (app_workspace a) (sp_unmap e (app_win a)) d)
                 \<lparr>d_apps := (d_apps d)(i \<mapsto> migrated (d_active d) a)\<rparr>)"

section \<open>Well-formedness\<close>

definition ws_ids :: "'sp workspace_state \<Rightarrow> bool" where
  "ws_ids w \<longleftrightarrow> distinct (active_id w # map fst (inactive w)) \<and>
     (\<forall>k \<in> set (active_id w # map fst (inactive w)). 0 < k \<and> k < next_id w)"

definition allocated :: "u64 \<Rightarrow> app_window \<Rightarrow> bool" where
  "allocated n a \<longleftrightarrow> (\<forall>k \<in> insert (app_workspace a) (mv_workspace ` snd ` set (app_mirrors a)). 0 < k \<and> k < n)"

definition app_ids :: "u64 \<Rightarrow> app_manager \<Rightarrow> bool" where
  "app_ids n am \<longleftrightarrow> apps_wf am \<and>
     (\<forall>i a. app_get am i = Some a \<longrightarrow> 0 < i \<and> i \<le> am_next_id am \<and> allocated n a)"

text \<open>\<open>n\<close> bounds the number of toplevels created so far, so that no counter has wrapped.\<close>

definition emskin_wf :: "nat \<Rightarrow> 'sp emskin \<Rightarrow> bool" where
  "emskin_wf n s \<longleftrightarrow> n + 2 < 2 ^ 64 \<and> ws_ids (c_ws s) \<and> app_ids (next_id (c_ws s)) (c_apps s) \<and>
     unat (next_id (c_ws s)) + length (pending_emacs_toplevels (c_ws s)) \<le> n + 2 \<and>
     unat (am_next_id (c_apps s)) + length (pending_app_toplevels (c_ws s)) \<le> n \<and>
     list_all inst_sound (protocol (c_ws s))"

lemma wf_cong: "c_ws s' = c_ws s \<Longrightarrow> c_apps s' = c_apps s \<Longrightarrow> emskin_wf n s' \<longleftrightarrow> emskin_wf n s"
  by (simp add: emskin_wf_def)

lemma wf_ids: "emskin_wf n s \<Longrightarrow> ws_ids (c_ws s)"
  by (simp add: emskin_wf_def)

lemma wf_apps: "emskin_wf n s \<Longrightarrow> apps_wf (c_apps s)"
  by (simp add: emskin_wf_def app_ids_def)

section \<open>Refinement\<close>

lemma ws_ids_keys:
  assumes "ws_ids w"
  shows "distinct (map fst (inactive w))" and "active_id w \<notin> fst ` set (inactive w)"
    and "map_of (inactive w) (active_id w) = None"
  using assms by (simp_all add: ws_ids_def map_of_eq_None_iff)

lemma desk_cong:
  "c_ws s' = c_ws s \<Longrightarrow> c_apps s' = c_apps s \<Longrightarrow> em_surface (c_emacs s') = em_surface (c_emacs s) \<Longrightarrow>
     desk_of s' = desk_of s"
  by (simp add: desk_of_def current_workspace_def)

lemma desk_fields:
  "d_active (desk_of s) = active_id (c_ws s)"
  "d_apps (desk_of s) = app_get (c_apps s)"
  "d_table (desk_of s) = (map_of (inactive (c_ws s)))(active_id (c_ws s) \<mapsto> current_workspace s)"
  by (simp_all add: desk_of_def)

lemma desk_on_space:
  assumes "ws_ids (c_ws s)"
  shows "desk_of (on_ws (space_for_mut k f) s) = desk_space k f (desk_of s)"
proof (cases "k = active_id (c_ws s)")
  case True
  then show ?thesis
    by (simp add: desk_of_def desk_space_def space_for_mut_def current_workspace_def)
next
  case False
  note none = ws_ids_keys(3) [OF assms]
  show ?thesis
    using False none
    by (cases "map_of (inactive (c_ws s)) k")
      (simp_all add: desk_of_def desk_space_def space_for_mut_def current_workspace_def update_conv'
        fun_upd_twist fun_upd_idem)
qed

lemma desk_on_active:
  "desk_of (on_space f s) = desk_space (active_id (c_ws s)) f (desk_of s)"
  by (simp add: desk_of_def desk_space_def current_workspace_def fun_eq_iff)

lemma desk_switch_swap:
  assumes "ws_ids (c_ws s)" and "k \<noteq> active_id (c_ws s)" and "map_of (inactive (c_ws s)) k = Some x"
  shows "desk_of (swap_workspace k x s) = (desk_of s)\<lparr>d_active := k\<rparr>"
proof -
  have "(map_of (inactive (c_ws s)))(k := None, active_id (c_ws s) \<mapsto> current_workspace s, k \<mapsto> x) =
      (map_of (inactive (c_ws s)))(active_id (c_ws s) \<mapsto> current_workspace s)"
    using assms(2,3) by (simp add: fun_eq_iff)
  then show ?thesis
    by (cases x) (simp add: desk_of_def swap_workspace_ws update_conv' delete_conv' current_workspace_def)
qed

lemma desk_switch_workspace:
  assumes "ws_ids (c_ws s)"
  shows "desk_of (snd (switch_workspace e k s)) = desk_switch k (desk_of s)"
proof (cases "k = active_id (c_ws s) \<or> map_of (inactive (c_ws s)) k = None")
  case True
  then show ?thesis
    by (auto simp: switch_workspace_def desk_switch_def desk_fields desk_of_def)
next
  case False
  then obtain x where x: "k \<noteq> active_id (c_ws s)" "map_of (inactive (c_ws s)) k = Some x" by auto
  have "desk_of (snd (switch_workspace e k s)) = desk_of (swap_workspace k x s)"
    using x by (intro desk_cong) (simp_all add: switch_ws swap_workspace_ws(2))
  then show ?thesis
    using desk_switch_swap [OF assms x] x by (simp add: desk_switch_def desk_fields)
qed

lemma apps_of_set:
  assumes "order_laws e" and "apps_wf (c_apps s)"
  shows "set (apps_of e k s) = {i. \<exists>a. app_get (c_apps s) i = Some a \<and> app_workspace a = k}"
  using set_app_values [OF assms] apps_wf_get [OF assms(2)] by (force simp: apps_of_def)

lemma desk_destroy_workspace:
  assumes "order_laws e" and "ws_ids (c_ws s)" and "apps_wf (c_apps s)"
  shows "desk_of (snd (destroy_workspace e k s)) = desk_destroy k (desk_of s)"
proof (cases "map_of (inactive (c_ws s)) k")
  case None
  then show ?thesis
    by (auto simp: destroy_workspace_def desk_destroy_def desk_fields)
next
  case (Some x)
  then have k: "k \<noteq> active_id (c_ws s)" using ws_ids_keys(3) [OF assms(2)] by auto
  let ?s1 = "on_ws (\<lambda>w. w\<lparr>inactive := AList.delete k (inactive w)\<rparr>) s"
  have apps: "set (apps_of e k ?s1) = {i. \<exists>a. app_get (c_apps s) i = Some a \<and> app_workspace a = k}"
    using apps_of_set [OF assms(1), of ?s1] assms(3) by simp
  have "app_get (c_apps (fold (remove_app e) (apps_of e k ?s1) ?s1)) =
      (\<lambda>i. case app_get (c_apps s) i of None \<Rightarrow> None | Some a \<Rightarrow> if app_workspace a = k then None else Some a)"
    by (rule ext) (auto simp: app_get_fold_remove_app apps split: option.split)
  then show ?thesis
    using Some k
    by (auto simp: destroy_workspace_def Let_def desk_destroy_def desk_of_def delete_conv' current_workspace_def
        fun_eq_iff)
qed

lemma desk_migrate_app:
  assumes "ws_ids (c_ws s)"
  shows "desk_of (snd (migrate_app_to_active e i s)) = desk_migrate e i (desk_of s)"
proof -
  have *: "desk_of (on_apps (app_modify i f) s') = (desk_of s')\<lparr>d_apps := (d_apps (desk_of s'))(i := map_option f (d_apps (desk_of s') i))\<rparr>"
    for f and s' :: "'a emskin"
    by (auto simp: desk_of_def current_workspace_def app_get_modify fun_eq_iff)
  show ?thesis
    by (auto simp: migrate_app_to_active_def desk_migrate_def desk_fields * desk_on_space [OF assms]
        desk_space_def split: option.splits)
qed

end
