(* ===== verification/Runs.thy ===== *)
theory Runs
  imports Desk Demo_World
begin

text \<open>
  Runs of the compositor: every handler of the event loop is a step, and each step keeps the
  workspaces and the window table well-formed. \<open>keeps\<close> is closed under composition, so that a
  handler is treated by the operations it is made of.
\<close>

section \<open>Operations that keep the state well-formed\<close>

definition keeps :: "('sp emskin \<Rightarrow> 'sp emskin) \<Rightarrow> bool" where
  "keeps f \<longleftrightarrow> (\<forall>n s. emskin_wf n s \<longrightarrow> emskin_wf n (f s))"

named_theorems keeps_intros \<open>operations that keep the compositor well-formed\<close>

lemma keepsD: "keeps f \<Longrightarrow> emskin_wf n s \<Longrightarrow> emskin_wf n (f s)"
  by (simp add: keeps_def)

lemma keeps_same:
  "(\<And>s. c_ws (f s) = c_ws s) \<Longrightarrow> (\<And>s. c_apps (f s) = c_apps s) \<Longrightarrow> keeps f"
  by (simp add: keeps_def emskin_wf_def)

lemma keeps_comp: "keeps f \<Longrightarrow> keeps g \<Longrightarrow> keeps (\<lambda>s. f (g s))"
  by (simp add: keeps_def)

lemma keeps_if: "keeps f \<Longrightarrow> keeps g \<Longrightarrow> keeps (\<lambda>s. if P s then f s else g s)"
  by (simp add: keeps_def)

lemma keeps_fold: "(\<And>x. keeps (f x)) \<Longrightarrow> keeps (fold f xs)"
  unfolding keeps_def
proof (induction xs)
  case (Cons x xs)
  then show ?case by simp
qed simp

lemma keeps_elementary [keeps_intros]:
  "keeps (\<lambda>s. s)" "keeps (call cs)" "keeps (send e m)" "keeps redraw" "keeps (on_emacs g)" "keeps (on_effects x)"
  "keeps (on_ime i)" "keeps (set_focus e t)" "keeps (focus_changed e t)" "keeps (reset_on_switch e)"
  by (simp_all add: keeps_same)

lemma wf_elementary [simp]:
  "emskin_wf n (call cs s) = emskin_wf n s" "emskin_wf n (send e m s) = emskin_wf n s" "emskin_wf n (redraw s) = emskin_wf n s"
  "emskin_wf n (on_emacs g s) = emskin_wf n s" "emskin_wf n (on_effects x s) = emskin_wf n s" "emskin_wf n (on_ime i s) = emskin_wf n s"
  "emskin_wf n (set_focus e t s) = emskin_wf n s" "emskin_wf n (focus_changed e t s) = emskin_wf n s"
  "emskin_wf n (auto_focus_new_window e w j s) = emskin_wf n s"
  by (simp_all add: emskin_wf_def)

lemma wf_updates [simp]:
  "emskin_wf n (s\<lparr>c_focus := f\<rparr>) = emskin_wf n s" "emskin_wf n (s\<lparr>c_recorder := r\<rparr>) = emskin_wf n s" "emskin_wf n (s\<lparr>c_ipc := p\<rparr>) = emskin_wf n s"
  "emskin_wf n (s\<lparr>c_dialogs := d\<rparr>) = emskin_wf n s" "emskin_wf n (s\<lparr>c_unclassified := d\<rparr>) = emskin_wf n s"
  "emskin_wf n (s\<lparr>c_selection := x\<rparr>) = emskin_wf n s" "emskin_wf n (s\<lparr>c_stopped := b\<rparr>) = emskin_wf n s" "emskin_wf n (s\<lparr>c_bar := c\<rparr>) = emskin_wf n s"
  by (simp_all add: emskin_wf_def)

section \<open>Workspace tables\<close>

lemma ws_ids_cong:
  "active_id w' = active_id w \<Longrightarrow> map fst (inactive w') = map fst (inactive w) \<Longrightarrow> next_id w' = next_id w \<Longrightarrow>
     ws_ids w' = ws_ids w"
  by (simp only: ws_ids_def)

lemma wf_ws_cong:
  assumes "active_id (g (c_ws s)) = active_id (c_ws s)"
    and "map fst (inactive (g (c_ws s))) = map fst (inactive (c_ws s))"
    and "next_id (g (c_ws s)) = next_id (c_ws s)"
    and "pending_emacs_toplevels (g (c_ws s)) = pending_emacs_toplevels (c_ws s)"
    and "pending_app_toplevels (g (c_ws s)) = pending_app_toplevels (c_ws s)"
    and "list_all inst_sound (protocol (g (c_ws s))) = list_all inst_sound (protocol (c_ws s))"
  shows "emskin_wf n (on_ws g s) = emskin_wf n s"
  using assms by (simp add: emskin_wf_def ws_ids_cong [of "g (c_ws s)" "c_ws s"])

lemma wf_space [simp]:
  "emskin_wf n (on_space f s) = emskin_wf n s" "emskin_wf n (on_ws (space_for_mut k f) s) = emskin_wf n s"
  by (simp_all add: on_space_def wf_ws_cong)

lemma ws_ids_delete:
  "ws_ids w \<Longrightarrow> ws_ids (w\<lparr>inactive := AList.delete k (inactive w)\<rparr>)"
  by (auto simp: ws_ids_def delete_keys distinct_removeAll keys_delete)

lemma ws_ids_swap:
  assumes "ws_ids w" and "map_of (inactive w) k = Some x"
  shows "ws_ids (w\<lparr>inactive := AList.update (active_id w) y (AList.delete k (inactive w)),
    active_space := sp, active_name := nm, active_id := k\<rparr>)"
proof -
  let ?m = "AList.delete k (inactive w)"
  have keys: "map fst (AList.update (active_id w) y ?m) = removeAll k (map fst (inactive w)) @ [active_id w]"
    using ws_ids_keys(2) [OF assms(1)] by (simp add: update_keys delete_keys keys_delete)
  have "k \<in> fst ` set (inactive w)" using assms(2) by (force dest: map_of_SomeD)
  moreover have "k \<noteq> active_id w" using assms(2) ws_ids_keys(3) [OF assms(1)] by auto
  ultimately show ?thesis
    using assms(1) by (simp add: ws_ids_def keys distinct_removeAll) auto
qed

lemma wf_swap:
  assumes "emskin_wf n s" and "map_of (inactive (c_ws s)) k = Some x"
  shows "emskin_wf n (swap_workspace k x s)"
  using assms ws_ids_swap [OF wf_ids [OF assms(1)] assms(2)]
  by (simp add: emskin_wf_def swap_workspace_ws)

lemma wf_switch [keeps_intros]: "keeps (\<lambda>s. snd (switch_workspace e k s))"
proof (unfold keeps_def, intro allI impI)
  fix n s assume wf: "emskin_wf n (s :: 'a emskin)"
  have "emskin_wf n (snd (switch_workspace e k s)) = emskin_wf n (swap_workspace k x s)"
    if "k \<noteq> active_id (c_ws s)" "map_of (inactive (c_ws s)) k = Some x" for x
    using that by (intro wf_cong) (simp_all add: switch_ws)
  then show "emskin_wf n (snd (switch_workspace e k s))"
    using wf wf_swap [OF wf] by (simp add: switch_workspace_def split: option.split)
qed

lemma wf_inst: "emskin_wf n s \<Longrightarrow> list_all inst_sound (protocol (c_ws s))"
  by (simp add: emskin_wf_def)

lemma wf_protocol:
  "emskin_wf n s \<Longrightarrow>
     emskin_wf n (on_ws (\<lambda>w. w\<lparr>protocol := f w\<rparr>) s) = list_all inst_sound (f (c_ws s))"
  by (simp add: emskin_wf_def ws_ids_def)

lemma all_ids_facts:
  "distinct (all_ids w) = distinct (active_id w # map fst (inactive w))"
  "set (all_ids w) = set (active_id w # map fst (inactive w))"
  "length (all_ids w) = length (active_id w # map fst (inactive w))"
  by (simp_all only: all_ids_def distinct_sort set_sort length_sort)

section \<open>The window table\<close>

lemma app_ids_modify:
  assumes "app_ids n am" and "\<And>a. app_id (f a) = app_id a" and "\<And>a. app_get am i = Some a \<Longrightarrow> allocated n a \<Longrightarrow> allocated n (f a)"
  shows "app_ids n (app_modify i f am)"
proof -
  have "am_next_id (app_modify i f am) = am_next_id am"
    by (simp add: app_modify_def app_put_def split: option.split)
  then show ?thesis
    using assms by (auto simp: app_ids_def apps_wf_modify app_get_modify split: if_splits)
qed

lemma app_ids_sub:
  assumes "app_ids n am" and "apps_wf am'" and "am_next_id am' = am_next_id am"
    and "\<And>i a'. app_get am' i = Some a' \<Longrightarrow>
      \<exists>a. app_get am i = Some a \<and> app_workspace a' = app_workspace a \<and> app_mirrors a' = app_mirrors a"
  shows "app_ids n am'"
proof -
  have "0 < i \<and> i \<le> am_next_id am' \<and> allocated n a'" if a': "app_get am' i = Some a'" for i a'
  proof -
    obtain a where "app_get am i = Some a" "app_workspace a' = app_workspace a" "app_mirrors a' = app_mirrors a"
      using assms(4) [OF a'] by blast
    then show ?thesis using assms(1,3) by (simp add: app_ids_def allocated_def)
  qed
  then show ?thesis using assms(2) by (simp add: app_ids_def)
qed

lemma am_next_app_modify [simp]: "am_next_id (app_modify i f am) = am_next_id am"
  by (simp add: app_modify_def app_put_def split: option.split)

lemma am_next_app_remove [simp]: "am_next_id (app_remove i am) = am_next_id am"
  by (simp add: app_remove_def)

lemma wf_modify:
  assumes "emskin_wf n s" and "\<And>a. app_id (f a) = app_id a"
    and "\<And>a. app_get (c_apps s) i = Some a \<Longrightarrow> allocated (next_id (c_ws s)) a \<Longrightarrow> allocated (next_id (c_ws s)) (f a)"
  shows "emskin_wf n (on_apps (app_modify i f) s)"
  using assms by (simp add: emskin_wf_def app_ids_modify)

lemma wf_modify_same:
  assumes "\<And>a. app_id (f a) = app_id a" "\<And>a. app_workspace (f a) = app_workspace a"
    "\<And>a. app_mirrors (f a) = app_mirrors a"
  shows "keeps (on_apps (app_modify i f))"
  unfolding keeps_def using assms by (auto intro!: wf_modify simp: allocated_def)

lemma app_ids_remove: "app_ids n am \<Longrightarrow> app_ids n (app_remove i am)"
  by (auto simp: app_ids_def apps_wf_remove app_table.get_rem split: if_splits)

lemma keeps_remove_app: "keeps (remove_app e i)"
  by (auto simp: keeps_def emskin_wf_def app_ids_remove)

lemma keeps_destroy [keeps_intros]: "keeps (\<lambda>s. snd (destroy_workspace e k s))"
proof -
  have del: "keeps (on_ws (\<lambda>w. w\<lparr>inactive := AList.delete k (inactive w)\<rparr>))"
    by (simp add: keeps_def emskin_wf_def ws_ids_delete)
  show ?thesis
    proof (unfold keeps_def, intro allI impI)
    fix n s assume "emskin_wf n (s :: 'a emskin)"
    then have "emskin_wf n (fold (remove_app e) is (on_ws (\<lambda>w. w\<lparr>inactive := AList.delete k (inactive w)\<rparr>) s))" for "is"
      by (intro keepsD [OF keeps_fold [OF keeps_remove_app]] keepsD [OF del])
    then show "emskin_wf n (snd (destroy_workspace e k s))"
      using \<open>emskin_wf n s\<close> by (simp add: destroy_workspace_def Let_def split: option.split)
  qed
qed

lemma allocated_active: "emskin_wf n s \<Longrightarrow> 0 < active_id (c_ws s) \<and> active_id (c_ws s) < next_id (c_ws s)"
  by (simp add: emskin_wf_def ws_ids_def)

lemma keeps_migrate [keeps_intros]: "keeps (\<lambda>s. snd (migrate_app_to_active e i s))"
proof (unfold keeps_def, intro allI impI)
  fix n s assume wf: "emskin_wf n (s :: 'a emskin)"
  let ?k = "active_id (c_ws s)"
  have "emskin_wf n (on_apps (app_modify i (migrated ?k)) (on_ws (space_for_mut j f) s))" for j f
    using wf allocated_active [OF wf] by (intro wf_modify) (simp_all add: migrated_def allocated_def)
  then show "emskin_wf n (snd (migrate_app_to_active e i s))"
    using wf by (simp add: migrate_app_to_active_def split: option.split)
qed


section \<open>Messages of Emacs\<close>

lemma wf_modify_sameI:
  "emskin_wf n s \<Longrightarrow> (\<And>a. app_id (f a) = app_id a) \<Longrightarrow> (\<And>a. app_workspace (f a) = app_workspace a) \<Longrightarrow>
     (\<And>a. app_mirrors (f a) = app_mirrors a) \<Longrightarrow> emskin_wf n (on_apps (app_modify i f) s)"
  by (rule keepsD [OF wf_modify_same])

lemma wf_migrate: "emskin_wf n s \<Longrightarrow> emskin_wf n (snd (migrate_app_to_active e i s))"
  by (rule keepsD [OF keeps_migrate])

lemma wf_set_geometry: "emskin_wf n s \<Longrightarrow> emskin_wf n (ipc_set_geometry e i r s)"
proof -
  assume wf: "emskin_wf n s"
  then have "emskin_wf n (snd (migrate_app_to_active e i (on_apps (app_modify i (\<lambda>a. a\<lparr>app_visible := True\<rparr>)) s)))"
    by (intro wf_migrate wf_modify_sameI) simp_all
  then show ?thesis
    using wf by (simp add: ipc_set_geometry_def Let_def wf_modify_sameI split: option.split)
qed

lemma wf_set_visibility: "emskin_wf n s \<Longrightarrow> emskin_wf n (ipc_set_visibility e i v s)"
proof -
  assume wf: "emskin_wf n s"
  then have "emskin_wf n (on_apps (app_modify i (\<lambda>a. a\<lparr>app_visible := v\<rparr>)) s)"
    by (intro wf_modify_sameI) simp_all
  then show ?thesis
    using wf by (simp add: ipc_set_visibility_def Let_def wf_modify_sameI wf_migrate split: option.split)
qed

lemma allocated_mirrors:
  "set ms \<subseteq> set (app_mirrors a) \<Longrightarrow> allocated n a \<Longrightarrow> allocated n (a\<lparr>app_mirrors := ms\<rparr>)"
  by (force simp: allocated_def)

lemma set_update_subset: "snd ` set (AList.update k v m) \<subseteq> insert v (snd ` set m)"
  by (induction m) auto

lemma set_delete_subset: "set (AList.delete k m) \<subseteq> set m"
  by (induction m) auto

lemma set_deleteD: "x \<in> set (AList.delete k m) \<Longrightarrow> x \<in> set m"
  by (rule subsetD [OF set_delete_subset])

lemma allocated_add_mirror:
  assumes "allocated n a" and "0 < mv_workspace mv" and "mv_workspace mv < n"
  shows "allocated n (a\<lparr>app_mirrors := AList.update v mv (app_mirrors a)\<rparr>)"
  using assms set_update_subset [of v mv "app_mirrors a"] by (force simp: allocated_def)

lemma wf_add_mirror: "emskin_wf n s \<Longrightarrow> emskin_wf n (ipc_add_mirror e i v r s)"
  using allocated_active [of n s]
  by (simp add: ipc_add_mirror_def Let_def wf_modify allocated_add_mirror)

lemma allocated_update_mirror: "allocated n a \<Longrightarrow> allocated n (update_mirror v geo a)"
proof (cases "map_of (app_mirrors a) v")
  case (Some mv)
  then have "mv \<in> snd ` set (app_mirrors a)" by (force dest: map_of_SomeD)
  then show "allocated n a \<Longrightarrow> ?thesis"
    using Some allocated_add_mirror [of n a "mv\<lparr>mv_geometry := geo\<rparr>" v]
    by (force simp: update_mirror_def allocated_def)
qed (simp add: update_mirror_def)

lemma update_mirror_id [simp]: "app_id (update_mirror v geo a) = app_id a"
  by (simp add: update_mirror_def split: option.split)

lemma wf_update_mirror: "emskin_wf n s \<Longrightarrow> emskin_wf n (ipc_update_mirror_geometry e i v r s)"
  by (simp add: ipc_update_mirror_geometry_def wf_modify allocated_update_mirror)

lemma wf_remove_mirror: "emskin_wf n s \<Longrightarrow> emskin_wf n (ipc_remove_mirror i v s)"
  unfolding ipc_remove_mirror_def by (rule wf_modify) (simp_all add: allocated_mirrors set_delete_subset)

lemma wf_space_twice:
  "emskin_wf n (on_ws (\<lambda>w. space_for_mut k f (space_for_mut j g w)) s) = emskin_wf n s"
  by (rule wf_ws_cong) simp_all

lemma wf_promote_mirror: "emskin_wf n s \<Longrightarrow> emskin_wf n (ipc_promote_mirror e i v s)"
proof -
  assume wf: "emskin_wf n s"
  show ?thesis
  proof (cases "\<exists>a mv. app_get (c_apps s) i = Some a \<and> map_of (app_mirrors a) v = Some mv")
    case False
    then show ?thesis using wf by (auto simp: ipc_promote_mirror_def split: option.split)
  next
    case True
    then obtain a mv where a: "app_get (c_apps s) i = Some a" "map_of (app_mirrors a) v = Some mv" by blast
    let ?f = "\<lambda>b. b\<lparr>app_mirrors := AList.delete v (app_mirrors b), app_geometry := Some (mv_geometry mv)\<rparr>"
    have ok: "allocated (next_id (c_ws s)) a" using wf a(1) by (simp add: emskin_wf_def app_ids_def)
    have mv: "mv \<in> snd ` set (app_mirrors a)" using a(2) by (force dest: map_of_SomeD)
    have "emskin_wf n (on_apps (app_modify i ?f) s)"
      using wf by (intro wf_modify) (auto simp: allocated_def dest: set_deleteD)
    moreover have "emskin_wf n (on_apps (app_modify i (\<lambda>a. a\<lparr>app_workspace := mv_workspace mv\<rparr>)) s')"
      if "emskin_wf n s'" "next_id (c_ws s') = next_id (c_ws s)" for s' :: "'a emskin"
      using that ok mv by (intro wf_modify) (auto simp: allocated_def)
    ultimately show ?thesis
      using a by (simp add: ipc_promote_mirror_def Let_def wf_space_twice)
  qed
qed

lemma wf_handle_ipc_message: "emskin_wf n s \<Longrightarrow> emskin_wf n (handle_ipc_message e tx m s)"
  by (cases m)
    (simp_all add: wf_set_geometry wf_set_visibility wf_add_mirror wf_update_mirror wf_remove_mirror
      wf_promote_mirror ipc_close_def ipc_prefix_done_def ipc_set_focus_def ipc_set_cursor_rect_def
      ipc_set_child_frames_def set_recording_def Let_def keepsD [OF wf_switch] split: option.split prod.split)


section \<open>Requests of clients\<close>

lemma wf_mono: "emskin_wf n s \<Longrightarrow> n \<le> m \<Longrightarrow> m + 2 < 2 ^ 64 \<Longrightarrow> emskin_wf m s"
  by (simp add: emskin_wf_def)

lemma emacs_set_focus_wf [simp]: "emskin_wf n (s\<lparr>c_keyboard := t\<rparr>) = emskin_wf n s"
  by (simp add: emskin_wf_def)

lemma wf_push_emacs:
  "emskin_wf n s \<Longrightarrow> Suc n + 2 < 2 ^ 64 \<Longrightarrow>
     emskin_wf (Suc n) (on_ws (\<lambda>x. x\<lparr>pending_emacs_toplevels := pending_emacs_toplevels x @ [t]\<rparr>) s)"
  by (simp add: emskin_wf_def ws_ids_def)

lemma wf_push_app:
  "emskin_wf n s \<Longrightarrow> Suc n + 2 < 2 ^ 64 \<Longrightarrow>
     emskin_wf (Suc n) (on_ws (\<lambda>x. x\<lparr>pending_app_toplevels := pending_app_toplevels x @ [t]\<rparr>) s)"
  by (simp add: emskin_wf_def ws_ids_def)

lemma wf_new_toplevel:
  assumes "emskin_wf n s" and "Suc n + 2 < 2 ^ 64"
  shows "emskin_wf (Suc n) (new_toplevel e wl w s)"
proof -
  have suc: "emskin_wf (Suc n) s" using wf_mono [OF assms(1), of "Suc n"] assms(2) by simp
  have "emskin_wf (Suc n) (claim_emacs e wl w s)"
    using suc by (simp add: claim_emacs_def Let_def split: option.split)
  moreover have "emskin_wf (Suc n) (defer_emacs_toplevel e wl w s)"
    unfolding defer_emacs_toplevel_def Let_def
    by (rule wf_push_emacs [OF _ assms(2)]) (simp add: assms(1) split: option.split)
  moreover have "emskin_wf (Suc n) (defer_app_toplevel e wl w s)"
    unfolding defer_app_toplevel_def Let_def
    by (rule wf_push_app [OF _ assms(2)]) (simp add: assms(1))
  ultimately show ?thesis by (simp add: new_toplevel_def)
qed

lemma wf_set_name:
  "map_of (inactive (c_ws s)) k = Some x \<Longrightarrow>
     emskin_wf n (on_ws (\<lambda>w. w\<lparr>inactive := AList.update k y (inactive w)\<rparr>) s) = emskin_wf n s"
  by (rule wf_ws_cong) (simp_all add: keys_update_present)

lemma wf_rename_inactive:
  "emskin_wf n s \<Longrightarrow> order_laws e \<Longrightarrow> emskin_wf n (on_ws (rename_inactive e wl short) s)"
proof -
  assume wf: "emskin_wf n s" and e: "order_laws e"
  have "k \<in> fst ` set (inactive (c_ws s))"
    if "find (\<lambda>(k, x). ws_emacs x = Some wl) (entries (visit e) (inactive (c_ws s))) = Some (k, x)" for k x
    using that e ws_ids_keys(1) [OF wf_ids [OF wf]]
    by (force simp: find_Some_iff order_laws_def dest!: nth_mem simp flip: set_entries [of "visit e"])
  then have "map fst (inactive (rename_inactive e wl short (c_ws s))) = map fst (inactive (c_ws s))"
    by (auto simp: rename_inactive_def update_keys split: option.split prod.split)
  then have "emskin_wf n (on_ws (rename_inactive e wl short) s) = emskin_wf n s"
    by (intro wf_ws_cong) (simp_all add: rename_inactive_def split: option.split prod.split)
  then show ?thesis using wf by simp
qed

lemma wf_title_changed: "emskin_wf n s \<Longrightarrow> order_laws e \<Longrightarrow> emskin_wf n (title_changed e wl s)"
proof -
  assume "emskin_wf n s" "order_laws e"
  moreover have "emskin_wf n (on_ws (\<lambda>w. w\<lparr>active_name := t\<rparr>) s) = emskin_wf n s" for t
    by (rule wf_ws_cong) simp_all
  ultimately show ?thesis
    by (simp add: title_changed_def wf_rename_inactive split: option.split)
qed

lemma wf_relayout_inactive: "keeps (relayout_inactive e geo k)"
proof -
  have "emskin_wf n (on_ws (\<lambda>w. w\<lparr>inactive := AList.update k y (inactive w)\<rparr>) s)"
    if "map_of (inactive (c_ws s)) k = Some x" "emskin_wf n s" for n y x and s :: "'a emskin"
    using wf_set_name [OF that(1)] that(2) by simp
  then show ?thesis
    by (simp add: keeps_def relayout_inactive_def split: option.split prod.split)
qed

lemma wf_relayout: "emskin_wf n s \<Longrightarrow> emskin_wf n (relayout_emacs e s)"
  by (simp add: relayout_emacs_def Let_def keepsD [OF keeps_fold [OF wf_relayout_inactive]]
      split: option.split prod.split)

lemma wf_commit_root: "emskin_wf n s \<Longrightarrow> emskin_wf n (commit_root e root s)"
  by (simp add: commit_root_def commit_pending_app_def re_center_dialog_def commit_pending_def Let_def
      wf_modify_sameI split: option.split)

lemma wf_layer_commit: "emskin_wf n s \<Longrightarrow> emskin_wf n (layer_commit e o' wl s)"
  by (simp add: layer_commit_def Let_def wf_relayout)

lemma wf_handle_surface_commit [simp]: "emskin_wf n (handle_surface_commit e wl s) = emskin_wf n s"
  by (simp add: handle_surface_commit_def Let_def split: option.split)

lemma wf_commit:
  assumes "emskin_wf n s" and "commit e wl s = Some s'"
  shows "emskin_wf n s'"
proof -
  obtain s1 where s1: "s1 = s \<or> (\<exists>root. s1 = commit_root e root s)"
    and s': "s' = (case first_output e s1 of
      Some o' \<Rightarrow> if layer_surface (shell e) o' wl then layer_commit e o' wl s1
        else let s2 = handle_surface_commit e wl s1 in
          if \<exists>w \<in> set (sp_elements e (active_space (c_ws s2))). win_surface e w = Some wl then s2
          else call [FrameCallback wl] s2
    | None \<Rightarrow> handle_surface_commit e wl s1)"
    using assms(2) unfolding commit_def by (auto split: if_splits)
  have "emskin_wf n s1" using s1 assms(1) wf_commit_root by blast
  then show ?thesis
    unfolding s' by (simp add: wf_layer_commit Let_def split: option.split)
qed

lemma wf_layers:
  "emskin_wf n s \<Longrightarrow> emskin_wf n (new_layer_surface e wl s)"
  "emskin_wf n s \<Longrightarrow> emskin_wf n (layer_destroyed e wl s)"
  by (simp_all add: new_layer_surface_def layer_destroyed_def relayout_or_redraw_def Let_def wf_relayout
      split: option.split prod.split)

lemma wf_input:
  "emskin_wf n s \<Longrightarrow> emskin_wf n (keyboard_key e name pressed m keysym s)"
  "emskin_wf n s \<Longrightarrow> emskin_wf n (on_focus_leave e s)"
  "emskin_wf n s \<Longrightarrow> emskin_wf n (on_focus_enter e s)"
  by (auto simp: keyboard_key_def intercept_key_def enter_prefix_def on_focus_leave_def on_focus_enter_def Let_def
      split: option.split prod.split)

lemma wf_toplevel_requests:
  "emskin_wf n s \<Longrightarrow> emskin_wf n (fullscreen_request e wl s)"
  "emskin_wf n s \<Longrightarrow> emskin_wf n (unfullscreen_request e wl s)"
  "emskin_wf n s \<Longrightarrow> emskin_wf n (maximize_request wl s)"
  "emskin_wf n s \<Longrightarrow> emskin_wf n (app_id_changed e wl s)"
  by (simp_all add: fullscreen_request_def unfullscreen_request_def maximize_request_def app_id_changed_def
      set_toplevel_state_def split: option.split)

section \<open>The tick\<close>

lemma create_workspace_result:
  "fst (create_workspace e wl w s) = next_id (c_ws s)"
  "\<exists>sp. c_ws (snd (create_workspace e wl w s)) = (c_ws s)\<lparr>
     active_space := sp_unmap e w (active_space (c_ws s)), next_id := next_id (c_ws s) + 1,
     inactive := AList.update (next_id (c_ws s)) \<lparr>ws_space = sp, ws_emacs = Some wl, ws_name = []\<rparr>
       (inactive (c_ws s))\<rparr>"
  "c_apps (snd (create_workspace e wl w s)) = c_apps s"
  "c_emacs (snd (create_workspace e wl w s)) = c_emacs s"
  by (auto simp: create_workspace_def alloc_id_def Let_def update_conv' split: option.split)


text \<open>Ids still to be handed out: a step that allocates one needs room for it.\<close>

definition ws_room :: "nat \<Rightarrow> nat \<Rightarrow> 'sp emskin \<Rightarrow> bool" where
  "ws_room n m s \<longleftrightarrow> emskin_wf n s \<and>
     unat (next_id (c_ws s)) + length (pending_emacs_toplevels (c_ws s)) + m \<le> n + 2"

lemma allocated_le: "allocated m a \<Longrightarrow> m \<le> n \<Longrightarrow> allocated n a"
  by (auto simp: allocated_def)

lemma ws_ids_create:
  assumes "ws_ids w" and "next_id w < next_id w + 1"
  shows "ws_ids (w\<lparr>active_space := sp, next_id := next_id w + 1,
    inactive := AList.update (next_id w) x (inactive w)\<rparr>)"
proof -
  have "next_id w \<notin> fst ` set (inactive w)" and "next_id w \<noteq> active_id w" and "0 < next_id w"
    using assms(1) by (auto simp: ws_ids_def)
  then show ?thesis
    using assms by (auto simp: ws_ids_def update_keys intro: less_trans)
qed

lemma create_workspace_room:
  assumes "ws_room n (Suc m) s"
  shows "ws_room n m (snd (create_workspace e wl w s))"
proof -
  obtain sp where c: "c_ws (snd (create_workspace e wl w s)) = (c_ws s)\<lparr>
     active_space := sp_unmap e w (active_space (c_ws s)), next_id := next_id (c_ws s) + 1,
     inactive := AList.update (next_id (c_ws s)) \<lparr>ws_space = sp, ws_emacs = Some wl, ws_name = []\<rparr>
       (inactive (c_ws s))\<rparr>"
    using create_workspace_result(2) [of e wl w s] by (elim exE)
  have wf: "emskin_wf n s" and room: "unat (next_id (c_ws s)) + 1 < 2 ^ 64"
    using assms by (auto simp: ws_room_def emskin_wf_def)
  note succ = u64_succ [OF room]
  have "app_ids (next_id (c_ws s) + 1) (c_apps s)"
    using wf allocated_le [OF _ less_imp_le [OF succ(2)]] by (auto simp: emskin_wf_def app_ids_def)
  then show ?thesis
    using assms wf ws_ids_create [OF wf_ids [OF wf] succ(2)] succ(1)
    by (simp add: ws_room_def emskin_wf_def c create_workspace_result(3))
qed

lemma switch_pending:
  "pending_emacs_toplevels (c_ws (snd (switch_workspace e k s))) = pending_emacs_toplevels (c_ws s)"
  "pending_app_toplevels (c_ws (snd (switch_workspace e k s))) = pending_app_toplevels (c_ws s)"
  "next_id (c_ws (snd (switch_workspace e k s))) = next_id (c_ws s)"
  by (simp_all add: switch_ws swap_workspace_ws(1) split: option.split)

lemma process_toplevel_room:
  assumes "ws_room n (Suc m) s"
  shows "ws_room n m (process_toplevel e t s)"
proof (cases "tl_parent (shell e) (fst t)")
  case True
  then show ?thesis using assms by (simp add: process_toplevel_def ws_room_def case_prod_beta)
next
  case False
  obtain wl w where t: "t = (wl, w)" by force
  have "ws_room n m (snd (create_workspace e wl w s))" by (rule create_workspace_room [OF assms])
  then show ?thesis
    using False t
    by (simp add: process_toplevel_def ws_room_def switch_pending case_prod_beta keepsD [OF wf_switch])
qed

lemma process_toplevels_room:
  "ws_room n (length ts + m) s \<Longrightarrow> ws_room n m (fold (process_toplevel e) ts s)"
proof (induction ts arbitrary: s)
  case (Cons t ts)
  have "ws_room n (length ts + m) (process_toplevel e t s)"
    using Cons.prems by (intro process_toplevel_room) simp
  then show ?case using Cons.IH by simp
qed simp

lemma wf_process_pending_toplevels:
  assumes "emskin_wf n s"
  shows "emskin_wf n (process_pending_toplevels e s)"
proof -
  let ?s1 = "on_ws (\<lambda>w. w\<lparr>pending_emacs_toplevels := []\<rparr>) s"
  have "ws_room n (length (pending_emacs_toplevels (c_ws s)) + 0) (redraw ?s1)"
    using assms by (simp add: ws_room_def emskin_wf_def ws_ids_def)
  then have "emskin_wf n (fold (process_toplevel e) (pending_emacs_toplevels (c_ws s)) (redraw ?s1))"
    using process_toplevels_room by (fastforce simp: ws_room_def)
  then show ?thesis
    by (auto simp: process_pending_toplevels_def Let_def)
qed

definition app_room :: "nat \<Rightarrow> nat \<Rightarrow> 'sp emskin \<Rightarrow> bool" where
  "app_room n m s \<longleftrightarrow> emskin_wf n s \<and>
     unat (am_next_id (c_apps s)) + length (pending_app_toplevels (c_ws s)) + m \<le> n"

lemma app_ids_insert:
  assumes "app_ids n am" and "am_next_id am < am_next_id am + 1" and "app_id a = am_next_id am + 1" and "allocated n a"
  shows "app_ids n (app_insert a (am\<lparr>am_next_id := am_next_id am + 1\<rparr>))"
proof -
  let ?am = "am\<lparr>am_next_id := am_next_id am + 1\<rparr>"
  have get: "app_get ?am = app_get am" by (simp add: app_get_def fun_eq_iff)
  have wf: "apps_wf ?am" using assms(1) by (simp add: app_ids_def apps_wf_def)
  have nz: "0 < am_next_id am + 1" using assms(2) by (metis word_not_simps(1) word_neq_0_conv)
  have le: "i \<le> am_next_id am + 1" if "i \<le> am_next_id am" for i
    using that assms(2) by (meson le_less_trans less_imp_le)
  have next_id: "am_next_id (app_insert a ?am) = am_next_id am + 1"
    by (simp add: app_insert_def app_put_def)
  show ?thesis
    unfolding app_ids_def next_id
    using apps_wf_insert [OF wf, of a] assms(1,3,4) nz le
    by (auto simp: app_insert_def app_table.get_put get app_ids_def split: if_splits)
qed

lemma register_room:
  assumes "app_room n (Suc m) s"
  shows "app_room n m (register_embedded_app e wl w s)"
proof -
  have wf: "emskin_wf n s" and room: "unat (am_next_id (c_apps s)) + 1 < 2 ^ 64"
    using assms by (auto simp: app_room_def emskin_wf_def)
  let ?i = "am_next_id (c_apps s) + 1"
  let ?a = "\<lparr>app_id = ?i, app_win = w, app_workspace = active_id (c_ws s), app_geometry = None,
     app_pending = None, app_pending_since = None, app_visible = False, app_mirrors = []\<rparr>"
  have "app_ids (next_id (c_ws s)) (app_insert ?a ((c_apps s)\<lparr>am_next_id := ?i\<rparr>))"
    using wf u64_succ(2) [OF room] allocated_active [OF wf]
    by (intro app_ids_insert) (simp_all add: emskin_wf_def allocated_def)
  moreover have "am_next_id (app_insert ?a ((c_apps s)\<lparr>am_next_id := ?i\<rparr>)) = ?i"
    by (simp add: app_insert_def app_put_def)
  ultimately have "app_room n m (s\<lparr>c_apps := app_insert ?a ((c_apps s)\<lparr>am_next_id := ?i\<rparr>)\<rparr>)"
    using assms wf u64_succ(1) [OF room] by (simp add: app_room_def emskin_wf_def)
  then show ?thesis
    by (simp add: register_embedded_app_def app_alloc_id_def Let_def app_room_def emskin_wf_def)
qed

lemma classify_room:
  assumes "app_room n (Suc m) s"
  shows "app_room n m (classify_toplevel e t s)"
proof -
  obtain wl w where t: "t = (wl, w)" by force
  have "app_room n m s" using assms by (simp add: app_room_def)
  then show ?thesis
    using t register_room [OF assms]
    by (simp add: classify_toplevel_def promote_floating_dialog_def Let_def app_room_def)
qed

lemma classify_toplevels_room:
  "app_room n (length ts + m) s \<Longrightarrow> app_room n m (fold (classify_toplevel e) ts s)"
proof (induction ts arbitrary: s)
  case (Cons t ts)
  have "app_room n (length ts + m) (classify_toplevel e t s)"
    using Cons.prems by (intro classify_room) simp
  then show ?case using Cons.IH by simp
qed simp

lemma wf_process_pending_app_toplevels:
  assumes "emskin_wf n s"
  shows "emskin_wf n (process_pending_app_toplevels e s)"
proof -
  let ?s1 = "on_ws (\<lambda>w. w\<lparr>pending_app_toplevels := []\<rparr>) s"
  have "app_room n (length (pending_app_toplevels (c_ws s)) + 0) (redraw ?s1)"
    using assms by (simp add: app_room_def emskin_wf_def ws_ids_def)
  then have "emskin_wf n (fold (classify_toplevel e) (pending_app_toplevels (c_ws s)) (redraw ?s1))"
    using classify_toplevels_room by (fastforce simp: app_room_def)
  then show ?thesis
    by (auto simp: process_pending_app_toplevels_def Let_def)
qed


lemma keeps_workspace_action: "keeps (workspace_action e a)"
  by (cases a) (simp_all add: keeps_def workspace_action_def keepsD [OF wf_switch] keepsD [OF keeps_destroy])

lemma wf_process_workspace_actions: "emskin_wf n s \<Longrightarrow> emskin_wf n (process_workspace_actions e s)"
proof -
  assume wf: "emskin_wf n s"
  then have "emskin_wf n (on_ws (\<lambda>w. w\<lparr>protocol := snd (take_pending_actions (protocol (c_ws s)))\<rparr>) s)"
    by (simp add: wf_protocol sound_requests wf_inst)
  then show ?thesis
    by (simp add: process_workspace_actions_def Let_def keepsD [OF keeps_fold [OF keeps_workspace_action]]
        case_prod_beta)
qed

lemma keeps_destroy_dead: "keeps (destroy_dead e k)"
  by (simp add: keeps_def destroy_dead_def keepsD [OF keeps_destroy])

lemma wf_detect_dead_workspaces: "emskin_wf n s \<Longrightarrow> emskin_wf n (detect_dead_workspaces e s)"
  by (simp add: detect_dead_workspaces_def Let_def keepsD [OF keeps_fold [OF keeps_destroy_dead]] keepsD [OF wf_switch]
      split: list.split)

lemma infos_distinct:
  assumes "ws_ids w"
  shows "distinct (map wi_id (map (ws_info_of w) (all_ids w)))"
  using assms by (simp add: ws_info_of_def Let_def comp_def ws_ids_def all_ids_facts)

lemma wf_refresh_workspace_state:
  assumes "emskin_wf n s" and "order_laws e"
  shows "emskin_wf n (refresh_workspace_state e ck al cl s)"
proof -
  let ?infos = "map (ws_info_of (c_ws s)) (all_ids (c_ws s))"
  let ?s1 = "on_ws (\<lambda>w. w\<lparr>protocol := ws_refresh (visit e) ck al cl ?infos (protocol w)\<rparr>) s"
  have "emskin_wf n ?s1"
    using assms infos_distinct [OF wf_ids [OF assms(1)]]
    by (intro wf_protocol [THEN iffD2]) (simp_all add: sound_ws_refresh wf_inst order_laws_def)
  moreover have "emskin_wf n (on_ws (\<lambda>w. w\<lparr>protocol := cleanup_dead al (protocol w)\<rparr>) s')"
    if "emskin_wf n s'" for s' :: "'a emskin"
    using that by (simp add: wf_protocol sound_requests wf_inst)
  ultimately show ?thesis
    using assms(1) by (simp add: refresh_workspace_state_def Let_def split: option.split)
qed

lemma wf_cleanup_dead_apps:
  assumes "emskin_wf n s" and "order_laws e"
  shows "emskin_wf n (cleanup_dead_apps e s)"
proof -
  let ?am = "snd (drain_dead e (c_apps s))"
  have next_id: "am_next_id (fold app_remove is am) = am_next_id am" for "is" am
    by (induction "is" arbitrary: am) simp_all
  have "am_next_id ?am = am_next_id (c_apps s)"
    by (simp add: drain_dead_def Let_def next_id)
  moreover have "app_ids (next_id (c_ws s)) ?am"
    by (rule app_ids_sub [of _ "c_apps s"])
      (use assms(1) wf_apps [OF assms(1)] calculation in \<open>auto simp: emskin_wf_def apps_wf_drain
        drain_dead_result(1) [OF assms(2) wf_apps [OF assms(1)]] split: option.splits if_splits\<close>)
  ultimately have "emskin_wf n (s\<lparr>c_apps := ?am\<rparr>)"
    using assms(1) by (simp add: emskin_wf_def)
  moreover have "keeps (unmap_dead_app e a)" for a :: app_window
    by (simp add: keeps_def unmap_dead_app_def)
  ultimately show ?thesis
    by (simp add: cleanup_dead_apps_def Let_def case_prod_beta keepsD [OF keeps_fold])
qed

lemma wf_cleanup_dead_dialogs: "emskin_wf n s \<Longrightarrow> emskin_wf n (cleanup_dead_dialogs e s)"
proof -
  assume wf: "emskin_wf n s"
  have "emskin_wf n (on_ws (\<lambda>w. w\<lparr>active_space := sweep e (active_space w),
      inactive := map (\<lambda>(k, x). (k, x\<lparr>ws_space := sweep e (ws_space x)\<rparr>)) (inactive w)\<rparr>) s) = emskin_wf n s"
    by (rule wf_ws_cong) (simp_all add: comp_def case_prod_beta)
  then show ?thesis using wf by (simp add: cleanup_dead_dialogs_def Let_def)
qed

lemma wf_commit_timed_out: "emskin_wf n s \<Longrightarrow> emskin_wf n (commit_timed_out e s)"
proof -
  assume wf: "emskin_wf n s"
  let ?am = "snd (collect_timed_out e GEOMETRY_TIMEOUT (c_apps s))"
  have next_id: "am_next_id ?am = am_next_id (c_apps s)" by (simp add: collect_timed_out_def Let_def)
  moreover have "app_ids (next_id (c_ws s)) ?am"
    by (rule app_ids_sub [of _ "c_apps s"])
      (use wf next_id in \<open>auto simp: emskin_wf_def app_ids_def apps_wf_collect app_get_collect commit_pending_def\<close>)
  ultimately have "emskin_wf n (s\<lparr>c_apps := ?am\<rparr>)"
    using wf by (simp add: emskin_wf_def)
  moreover have "keeps (force_commit e h)" for h
    by (simp add: keeps_def force_commit_def case_prod_beta)
  ultimately show ?thesis
    by (simp add: commit_timed_out_def Let_def case_prod_beta keepsD [OF keeps_fold])
qed

lemma wf_dispatch_ipc: "emskin_wf n s \<Longrightarrow> emskin_wf n (dispatch_ipc e tx s)"
proof -
  assume "emskin_wf n s"
  moreover have "keeps (handle_ipc_message e tx m)" for m
    by (simp add: keeps_def wf_handle_ipc_message)
  ultimately show ?thesis
    by (simp add: dispatch_ipc_def keepsD [OF keeps_fold] split: prod.split option.split)
qed

lemma wf_tick:
  assumes "emskin_wf n s" and "order_laws e"
  shows "emskin_wf n (event_loop_tick e tx ti s)"
  using assms unfolding event_loop_tick_def Let_def
  by (simp add: wf_process_pending_toplevels wf_process_pending_app_toplevels wf_process_workspace_actions
      wf_detect_dead_workspaces wf_refresh_workspace_state wf_cleanup_dead_apps wf_cleanup_dead_dialogs
      wf_dispatch_ipc wf_commit_timed_out clipboard_events_def drain_fcitx_events_def Let_def split: option.split)

end
