(* ===== verification/Host_Loop.thy ===== *)
theory Host_Loop
  imports Tick
begin

text \<open>
  \<open>crates/emskin/src/winit.rs\<close>: what the events of the host window do to the compositor. Drawing
  is not modelled; a frame's outcome (whether the back end could be bound, what the effect chain
  asked for, whether the frame was submitted, what the recorder captured) is the record
  \<open>render_outcome\<close>. The updates that drawing makes to the overlays are those of \<open>Overlays\<close>.
\<close>

section \<open>Start\<close>

definition init_winit :: "'sp env \<Rightarrow> monitor \<Rightarrow> bool \<Rightarrow> 'sp emskin \<Rightarrow> 'sp emskin" where
  "init_winit e o' fullscreen s =
     (let s1 = (if fullscreen
                then on_emacs (request_fullscreen True) (call [HostFullscreen True] s)
                else call [HostMaximized True] s) in
      on_space (sp_map_output e o' (0, 0)) s1)"

section \<open>Pending requests for the host window\<close>

definition opt_call :: "('a \<Rightarrow> client_call) \<Rightarrow> 'a option \<Rightarrow> client_call list" where
  "opt_call f x = (case x of None \<Rightarrow> [] | Some a \<Rightarrow> [f a])"

definition apply_pending_state :: "'sp emskin \<Rightarrow> 'sp emskin" where
  "apply_pending_state s =
     (case take_title (c_emacs s) of
        (title, m1) \<Rightarrow>
      (case take_pending_fullscreen m1 of
        (fullscreen, m2) \<Rightarrow>
      (case take_pending_maximize m2 of
        (maximize, m3) \<Rightarrow>
      (case sync_to_winit (c_ime s) of
        (ime_calls, b) \<Rightarrow>
      (case take_changed (c_cursor s) of
        (cursor_img, cur) \<Rightarrow>
          call (opt_call HostTitle title @ opt_call HostFullscreen fullscreen @ opt_call HostMaximized maximize @
                map HostIme ime_calls @ opt_call HostCursor cursor_img)
            (s\<lparr>c_emacs := m3, c_ime := b, c_cursor := cur\<rparr>))))))"

section \<open>Frames\<close>

record render_outcome =
  bind_ok :: bool
  frame_size :: pixel_size
  want_redraw :: "bool option"
  encoder_starts :: bool
  captured :: "frame option"
  submit_ok :: bool
  pixels :: "frame \<Rightarrow> bytes option"
  fps_interval :: "u32 \<Rightarrow> nat"
  shot_written :: bool
  writer_oks :: "bool list"
  seconds :: "nat \<Rightarrow> 64 word"

definition splash_edge :: "'sp env \<Rightarrow> bool \<Rightarrow> effects \<Rightarrow> effects" where
  "splash_edge e emacs_now x =
     (let x1 = (if emacs_now \<and> \<not> last_emacs_connected x then splash_dismiss (clock e) x else x) in
      x1\<lparr>last_emacs_connected := emacs_now\<rparr>)"

text \<open>\<open>EffectChain::pre_paint\<close> and \<open>paint\<close>, for the active overlays whose state they change.\<close>

definition canvas_rect :: "rect \<Rightarrow> ipc_rect" where
  "canvas_rect r = \<lparr>r_x = loc_x r, r_y = loc_y r, r_w = size_w r, r_h = size_h r\<rparr>"

definition run_chain :: "'sp env \<Rightarrow> nat \<Rightarrow> rect \<Rightarrow> effects \<Rightarrow> effects" where
  "run_chain e present canvas x =
     x\<lparr>fx_key_cast := key_cast_pre_paint (clock e) (fx_key_cast x),
       fx_jelly := (if je_enabled (fx_jelly x) then jelly_pre_paint present (fx_jelly x) else fx_jelly x),
       fx_skeleton := panel_layout (clock e) (canvas_rect canvas) (fx_skeleton x)\<rparr>"

text \<open>After \<open>backend.submit\<close>: the recorder's report, the overlay, the key-cast link.\<close>

definition recording_edge :: "bool \<Rightarrow> effects \<Rightarrow> effects" where
  "recording_edge active x =
     (if active \<noteq> last_recording_active x
      then x\<lparr>last_recording_active := active, fx_key_cast := key_cast_set_enabled active (fx_key_cast x)\<rparr>
      else x)"

definition after_submit :: "'sp env \<Rightarrow> render_outcome \<Rightarrow> 'sp emskin \<Rightarrow> 'sp emskin" where
  "after_submit e ro s =
     (case finalize (pixels ro) (clock e) (shot_written ro) (writer_oks ro) (c_recorder s) of
        (ev, rec) \<Rightarrow>
          (let s1 = s\<lparr>c_recorder := rec\<rparr>;
               s2 = (case ev of None \<Rightarrow> s1
                     | Some f \<Rightarrow> send e (RecordingStopped (fin_path f) (fin_frames_written f)
                         (seconds ro (fin_duration f)) (reason_str (fin_reason f))) s1);
               at = overlay_started_at (elapsed e s2) rec;
               s3 = on_effects (\<lambda>x. recording_edge (at \<noteq> None)
                      (x\<lparr>fx_recorder := overlay_set_active at (fx_recorder x)\<rparr>)) s2 in
           if wants_continuous_frames rec then redraw s3 else s3))"

definition render_frame :: "'sp env \<Rightarrow> render_outcome \<Rightarrow> 'sp emskin \<Rightarrow> 'sp emskin" where
  "render_frame e ro s =
     (if \<not> bind_ok ro then s
      else
        (let canvas = (case emacs_geometry e s of Some g \<Rightarrow> g
               | None \<Rightarrow> rect_new (0, 0) (case Option.bind (first_output e s) (mode_size (shell e)) of
                   Some p \<Rightarrow> p | None \<Rightarrow> (0, 0)));
             s1 = on_effects (splash_edge e (has_main_surface (c_emacs s))) s;
             s2 = s1\<lparr>c_cursor := ensure_alive e (c_cursor s1)\<rparr>;
             s3 = on_effects (run_chain e (elapsed e s2) canvas) s2 in
         case want_redraw ro of
           None \<Rightarrow> s3
         | Some want \<Rightarrow>
             (let s4 = (if want then redraw s3 else s3);
                  s5 = s4\<lparr>c_recorder := capture_frame (fps_interval ro) (clock e) (elapsed e s4) (frame_size ro)
                         (encoder_starts ro) (captured ro) (c_recorder s4)\<rparr> in
              if submit_ok ro then after_submit e ro s5 else s5)))"

text \<open>Frame callbacks for the windows and the layer surfaces of the output, then clean-up.\<close>

definition post_render :: "'sp env \<Rightarrow> monitor \<Rightarrow> 'sp emskin \<Rightarrow> 'sp emskin" where
  "post_render e o' s =
     (let s1 = call (map FrameDone (sp_elements e (active_space (c_ws s))) @
            map FrameCallback (mapped_layers (shell e) o')) s in
      call [FlushDisplay] (on_space (sp_refresh e (win_alive e)) s1))"

section \<open>Events of the host window\<close>

datatype host_event =
    HostResized
  | HostKey bool modifiers "u32 option"
  | HostRedraw render_outcome
  | HostCloseRequested
  | HostImeEvent host_ime
  | HostFocus bool "nat list"

text \<open>The relay to the D-Bus broker; \<open>b as i32\<close> keeps the low 32 bits.\<close>

definition relay_ime :: "bool \<Rightarrow> host_ime \<Rightarrow> 'sp emskin \<Rightarrow> 'sp emskin" where
  "relay_ime broker ev s =
     (case active_dbus_ic (c_ime s) of
        None \<Rightarrow> s
      | Some (c, p) \<Rightarrow>
          if \<not> broker then s
          else (case ev of
                  ImeCommit t \<Rightarrow> call [EmitCommit c p t] s
                | ImePreedit t cur \<Rightarrow>
                    call [EmitPreedit c p t (map_option (\<lambda>(b, n). (word_of_nat b, word_of_nat n)) cur)] s
                | _ \<Rightarrow> s))"

text \<open>\<open>o'\<close> is the output of the host window.\<close>

definition host_step ::
  "'sp env \<Rightarrow> monitor \<Rightarrow> (u32 \<Rightarrow> string) \<Rightarrow> bool \<Rightarrow> host_event \<Rightarrow> 'sp emskin \<Rightarrow> 'sp emskin" where
  "host_step e o' name broker ev s =
     (case ev of
        HostResized \<Rightarrow> if initial_size_settled (c_emacs s) then relayout_emacs e s else redraw s
      | HostKey pressed m key \<Rightarrow> redraw (keyboard_key e name pressed m key s)
      | HostRedraw ro \<Rightarrow>
          (let s1 = apply_pending_state s;
               s2 = (if c_redraw s1 then render_frame e ro (s1\<lparr>c_redraw := False\<rparr>) else s1) in
           call [RequestRedraw] (post_render e o' s2))
      | HostCloseRequested \<Rightarrow> s\<lparr>c_stopped := True\<rparr>
      | HostImeEvent i \<Rightarrow> redraw (on_ime (on_host_ime_event e i (c_apps s)) (relay_ime broker i s))
      | HostFocus focused pressed \<Rightarrow>
          redraw (if focused then call (map KeyRelease pressed) (on_focus_enter e s) else on_focus_leave e s))"

end
