(* ===== verification/Host_Facts.thy ===== *)
theory Host_Facts
  imports Runs Host_Loop
begin

text \<open>
  The events of the host window keep the workspaces and the window table well-formed: drawing and
  the relays touch neither, a resize goes through \<open>relayout_emacs\<close>, a frame ends with the
  clean-up of the active space.
\<close>

lemma apply_pending_fields [simp]:
  "c_ws (apply_pending_state s) = c_ws s" "c_apps (apply_pending_state s) = c_apps s"
  "c_effects (apply_pending_state s) = c_effects s" "c_recorder (apply_pending_state s) = c_recorder s"
  "c_ipc (apply_pending_state s) = c_ipc s" "c_keyboard (apply_pending_state s) = c_keyboard s"
  "c_redraw (apply_pending_state s) = c_redraw s" "c_focus (apply_pending_state s) = c_focus s"
  by (simp_all add: apply_pending_state_def call_def split: prod.split)

lemma after_submit_fields [simp]:
  "c_ws (after_submit e ro s) = c_ws s" "c_apps (after_submit e ro s) = c_apps s"
  "c_focus (after_submit e ro s) = c_focus s"
  by (simp_all add: after_submit_def Let_def split: prod.split option.split)

lemma render_frame_fields [simp]:
  "c_ws (render_frame e ro s) = c_ws s" "c_apps (render_frame e ro s) = c_apps s"
  "c_focus (render_frame e ro s) = c_focus s"
  by (simp_all add: render_frame_def Let_def split: option.split)

lemma relay_ime_fields [simp]:
  "c_ws (relay_ime b ev s) = c_ws s" "c_apps (relay_ime b ev s) = c_apps s" "c_ime (relay_ime b ev s) = c_ime s"
  by (simp_all add: relay_ime_def split: option.split host_ime.split)

lemma keeps_post_render: "keeps (post_render e o')"
  by (simp add: keeps_def post_render_def Let_def)

lemma keeps_frame: "keeps apply_pending_state" "keeps (render_frame e ro)" "keeps (relay_ime b ev)"
  "keeps (\<lambda>s. s\<lparr>c_redraw := r\<rparr>)"
  by (simp_all add: keeps_same)

lemma wf_init_winit: "emskin_wf n s \<Longrightarrow> emskin_wf n (init_winit e o' fullscreen s)"
  by (simp add: init_winit_def)

lemma wf_host_step:
  assumes "emskin_wf n s"
  shows "emskin_wf n (host_step e o' name broker ev s)"
proof (cases ev)
  case (HostRedraw ro)
  let ?s1 = "apply_pending_state s"
  have "emskin_wf n (if c_redraw ?s1 then render_frame e ro (?s1\<lparr>c_redraw := False\<rparr>) else ?s1)"
    by (simp add: keepsD [OF keeps_frame(2)] keepsD [OF keeps_frame(4)] keepsD [OF keeps_frame(1)] assms)
  then show ?thesis using HostRedraw by (simp add: host_step_def Let_def keepsD [OF keeps_post_render])
qed (use assms in \<open>simp_all add: host_step_def wf_relayout wf_input keepsD [OF keeps_frame(3)]\<close>)

end
