(* ===== verification/Compositor_Props.thy ===== *)
theory Compositor_Props
  imports Host_Facts
begin

text \<open>
  Properties of the compositor over runs: \<open>emskin_run n s\<close> says that \<open>s\<close> is reached by handlers of
  the event loop in any order, in environments that may change between steps, with \<open>n\<close>
  toplevels created. Then the workspace operations against their abstract versions, the creation
  and the death of frames, the keyboard focus over a prefix chord, and the behaviours that the
  model shows to be wrong.
\<close>

section \<open>Runs\<close>

datatype ws_client_op =
    WsBind nat
  | WsManager nat manager_request
  | WsManagerDestroyed nat
  | WsGroup group_request
  | WsHandle obj handle_request

fun ws_client_step :: "(u64 list \<Rightarrow> u64 list) \<Rightarrow> ws_client_op \<Rightarrow> ws_protocol \<Rightarrow> ws_protocol" where
  "ws_client_step v (WsBind m) p = bind_manager m p"
| "ws_client_step v (WsManager m rq) p = manager_request m rq p"
| "ws_client_step v (WsManagerDestroyed m) p = manager_destroyed m p"
| "ws_client_step v (WsGroup rq) p = group_request rq p"
| "ws_client_step v (WsHandle h rq) p = handle_request v h rq p"

inductive emskin_run :: "nat \<Rightarrow> 'sp emskin \<Rightarrow> bool" where
  run_start: "emskin_run 0 (emskin_new e detect server)"
| run_tick: "emskin_run n s \<Longrightarrow> order_laws e \<Longrightarrow> emskin_run n (event_loop_tick e tx ti s)"
| run_toplevel: "emskin_run n s \<Longrightarrow> emskin_run (Suc n) (new_toplevel e wl w s)"
| run_fullscreen: "emskin_run n s \<Longrightarrow> emskin_run n (fullscreen_request e wl s)"
| run_unfullscreen: "emskin_run n s \<Longrightarrow> emskin_run n (unfullscreen_request e wl s)"
| run_maximize: "emskin_run n s \<Longrightarrow> emskin_run n (maximize_request wl s)"
| run_title: "emskin_run n s \<Longrightarrow> order_laws e \<Longrightarrow> emskin_run n (title_changed e wl s)"
| run_app_id: "emskin_run n s \<Longrightarrow> emskin_run n (app_id_changed e wl s)"
| run_commit: "emskin_run n s \<Longrightarrow> commit e wl s = Some s' \<Longrightarrow> emskin_run n s'"
| run_layer: "emskin_run n s \<Longrightarrow> emskin_run n (new_layer_surface e wl s)"
| run_layer_destroyed: "emskin_run n s \<Longrightarrow> emskin_run n (layer_destroyed e wl s)"
| run_key: "emskin_run n s \<Longrightarrow> emskin_run n (keyboard_key e name pressed m keysym s)"
| run_focus_leave: "emskin_run n s \<Longrightarrow> emskin_run n (on_focus_leave e s)"
| run_focus_enter: "emskin_run n s \<Longrightarrow> emskin_run n (on_focus_enter e s)"
| run_grab: "emskin_run n s \<Longrightarrow> emskin_run n (set_focus e target s)"
| run_output: "emskin_run n s \<Longrightarrow> emskin_run n (init_winit e o' fullscreen s)"
| run_host: "emskin_run n s \<Longrightarrow> emskin_run n (host_step e o' name broker ev s)"
| run_ws_client: "emskin_run n s \<Longrightarrow>
    emskin_run n (on_ws (\<lambda>w. w\<lparr>protocol := ws_client_step v op (protocol w)\<rparr>) s)"

lemma run_wf: "emskin_run n s \<Longrightarrow> n + 2 < 2 ^ 64 \<Longrightarrow> emskin_wf n s"
proof (induction rule: emskin_run.induct)
  case (run_start e detect server)
  show ?case
    using apps_wf_default
    by (simp add: emskin_new_def emskin_wf_def ws_ids_def app_ids_def app_get_def app_manager_default_def ws_protocol_new_def)
next
  case (run_toplevel n s e wl w)
  then show ?case by (intro wf_new_toplevel) simp_all
next
  case (run_ws_client n s v op)
  moreover have "list_all inst_sound (ws_client_step v op p)" if "list_all inst_sound p" for p
    by (cases op) (simp_all add: sound_requests that)
  ultimately show ?case by (simp add: wf_protocol wf_inst)
qed (auto intro: wf_tick wf_title_changed wf_commit wf_layers wf_input wf_toplevel_requests
    wf_init_winit wf_host_step)

text \<open>C5. In every state of a run with fewer than 2^64 - 2 toplevels the workspace ids are pairwise
  distinct, counted by \<open>ws_count\<close>, nonzero and below the next id, the active one among them; every
  embedded window is stored under its own id, which has been allocated, and belongs to a workspace
  that has been allocated, as do its mirrors.\<close>

theorem workspaces_well_typed:
  assumes "emskin_run n s" and "n + 2 < 2 ^ 64"
  shows "distinct (all_ids (c_ws s)) \<and> length (all_ids (c_ws s)) = ws_count (c_ws s) \<and>
     active_id (c_ws s) \<in> set (all_ids (c_ws s)) \<and>
     (\<forall>k \<in> set (all_ids (c_ws s)). 0 < k \<and> k < next_id (c_ws s)) \<and>
     (\<forall>i a. app_get (c_apps s) i = Some a \<longrightarrow> app_id a = i \<and> 0 < i \<and> i \<le> am_next_id (c_apps s) \<and>
        0 < app_workspace a \<and> app_workspace a < next_id (c_ws s) \<and>
        (\<forall>mv \<in> snd ` set (app_mirrors a). 0 < mv_workspace mv \<and> mv_workspace mv < next_id (c_ws s)))"
  using run_wf [OF assms]
  by (auto simp: emskin_wf_def ws_ids_def app_ids_def allocated_def all_ids_facts ws_count_def
      dest: apps_wf_get)

definition demo_emacs :: ipc_server where
  "demo_emacs = ipc_bind"

definition demo_text :: text_api where
  "demo_text = \<lparr>label_px = (\<lambda>t. (8 * word_of_nat (length t), 16)), label_fg = (\<lambda>k b. [0, 0, 0, 255])\<rparr>"

definition quiet_input :: tick_input where
  "quiet_input = \<lparr>emacs_exited = False, bar_exited = False, ck_object = (\<lambda>ob. True), mgr_alive = (\<lambda>m. True),
     mgr_client = (\<lambda>m. True), host_selection_events = [], fcitx_events = None\<rparr>"

text \<open>Emacs connects on one output, a second frame and an application follow.\<close>

definition demo_start :: "demo_space emskin" where
  "demo_start = new_toplevel demo_env 1 1
     (on_space (sp_map_output demo_env 7 (0, 0)) (emskin_new demo_env True demo_emacs))"

lemma desk_demo_run: "emskin_run 2 (event_loop_tick demo_env demo_text quiet_input
    (new_toplevel demo_env 20 20 (new_toplevel demo_env 1 1 (emskin_new demo_env True demo_emacs))))"
  using run_tick [OF run_toplevel [OF run_toplevel [OF run_start]] demo_order_laws]
  by (simp add: numeral_2_eq_2)

theorem workspaces_well_typed_witness:
  "distinct (all_ids (c_ws (event_loop_tick demo_env demo_text quiet_input
    (new_toplevel demo_env 20 20 (new_toplevel demo_env 1 1 (emskin_new demo_env True demo_emacs))))))"
  using workspaces_well_typed [OF desk_demo_run] by simp

section \<open>Switching and destroying\<close>

text \<open>C2. Refinement: on the abstract table of workspaces, in which the active one is not special,
  switching only moves the active id, and it succeeds exactly for the other ids of the table; the
  swap of the inline workspace with the table loses and duplicates nothing. Emacs is told once.\<close>

theorem switch_refines:
  assumes "emskin_wf n s"
  shows "desk_of (snd (switch_workspace e k s)) = desk_switch k (desk_of s) \<and>
    (fst (switch_workspace e k s) \<longleftrightarrow> k \<noteq> d_active (desk_of s) \<and> d_table (desk_of s) k \<noteq> None) \<and>
    c_ipc (snd (switch_workspace e k s)) =
      (if fst (switch_workspace e k s) then ipc_send (json e) (WorkspaceSwitched k) (c_ipc s) else c_ipc s)"
proof -
  have "fst (switch_workspace e k s) \<longleftrightarrow> k \<noteq> d_active (desk_of s) \<and> d_table (desk_of s) k \<noteq> None"
    by (auto simp: switch_workspace_def desk_fields Let_def split: option.split)
  moreover have "c_ipc (snd (switch_workspace e k s)) =
      (if fst (switch_workspace e k s) then ipc_send (json e) (WorkspaceSwitched k) (c_ipc s) else c_ipc s)"
    by (simp add: switch_workspace_def Let_def split: option.split)
  ultimately show ?thesis using desk_switch_workspace [OF wf_ids [OF assms]] by blast
qed

text \<open>Two frames on one output.\<close>

definition demo_two :: "demo_space emskin" where
  "demo_two = (emskin_new demo_env True demo_emacs)
     \<lparr>c_ws := \<lparr>active_space = ([(1, (0, 24)), (20, (5, 5))], [7]),
        inactive = [(2, \<lparr>ws_space = ([(2, (0, 24))], [7]), ws_emacs = Some 2, ws_name = ''b''\<rparr>)],
        active_id = 1, active_name = ''a'', next_id = 3, pending_emacs_toplevels = [],
        pending_app_toplevels = [], protocol = []\<rparr>,
      c_emacs := (emacs_new True)\<lparr>em_surface := Some 1, initial_size_settled := True\<rparr>,
      c_apps := \<lparr>am_windows = [(1, \<lparr>app_id = 1, app_win = 20, app_workspace = 1,
          app_geometry = Some demo_zone, app_pending = None, app_pending_since = None, app_visible = True,
          app_mirrors = [(4, \<lparr>mv_geometry = demo_zone, mv_workspace = 2\<rparr>)]\<rparr>)], am_next_id = 1\<rparr>,
      c_keyboard := Some (FWindow 1)\<rparr>"

lemma demo_two_wf: "emskin_wf 5 demo_two"
  by (simp add: emskin_wf_def demo_two_def ws_ids_def app_ids_def apps_wf_def app_get_def allocated_def)

theorem switch_refines_witness:
  "d_active (desk_of (snd (switch_workspace demo_env 2 demo_two))) = 2 \<and>
   d_active (desk_of (snd (switch_workspace demo_env 3 demo_two))) = 1"
  using switch_refines [OF demo_two_wf, of demo_env 2] switch_refines [OF demo_two_wf, of demo_env 3]
  by (simp add: desk_switch_def desk_fields demo_two_def)


lemma ipc_fold_remove_app:
  "distinct ids \<Longrightarrow> apps_wf (c_apps s) \<Longrightarrow> (\<forall>i \<in> set ids. app_get (c_apps s) i \<noteq> None) \<Longrightarrow>
     c_ipc (fold (remove_app e) ids s) = fold (\<lambda>i. ipc_send (json e) (WindowDestroyed i)) ids (c_ipc s)"
proof (induction ids arbitrary: s)
  case (Cons i ids)
  then obtain a where a: "app_get (c_apps s) i = Some a" by auto
  then have "app_id a = i" using apps_wf_get [OF Cons.prems(2)] by simp
  then have ipc: "c_ipc (remove_app e i s) = ipc_send (json e) (WindowDestroyed i) (c_ipc s)"
    using a by (simp add: remove_app_def)
  have "c_ipc (fold (remove_app e) ids (remove_app e i s)) =
      fold (\<lambda>i. ipc_send (json e) (WindowDestroyed i)) ids (c_ipc (remove_app e i s))"
    using Cons.prems a
    by (intro Cons.IH) (auto simp: apps_wf_remove app_table.get_rem)
  then show ?case by (simp add: ipc)
qed simp

lemma apps_of_distinct:
  assumes "order_laws e" and "apps_wf (c_apps s)"
  shows "distinct (apps_of e k s)"
proof -
  let ?m = "am_windows (c_apps s)"
  have key: "app_id (the (map_of ?m i)) = i" if "i \<in> fst ` set ?m" for i
    using that assms(2) by (force simp: apps_wf_def dest: map_of_is_SomeI)
  have "map app_id (app_values e (c_apps s)) = visit e (map fst ?m)"
    using iteration_set [of "visit e"] assms(1)
    by (simp add: app_values_def entries_def comp_def order_laws_def)
      (rule map_idI, simp add: key)
  moreover have "distinct (visit e (map fst ?m))"
    using assms by (simp add: order_laws_def iteration_distinct apps_wf_def)
  ultimately show ?thesis
    unfolding apps_of_def by (metis distinct_map_filter)
qed

text \<open>C8. Refinement: destroying a workspace removes it and exactly its applications from the abstract
  state, does nothing for the active or an unknown id, and tells Emacs about each window removed
  exactly once.\<close>

theorem destroy_refines:
  assumes "emskin_wf n s" and "order_laws e"
  shows "desk_of (snd (destroy_workspace e k s)) = desk_destroy k (desk_of s) \<and>
    (\<exists>ids. distinct ids \<and>
       set ids = {i. d_apps (desk_of (snd (destroy_workspace e k s))) i \<noteq> d_apps (desk_of s) i} \<and>
       c_ipc (snd (destroy_workspace e k s)) = fold (\<lambda>i. ipc_send (json e) (WindowDestroyed i)) ids (c_ipc s))"
proof -
  note refines = desk_destroy_workspace [OF assms(2) wf_ids [OF assms(1)] wf_apps [OF assms(1)]]
  show ?thesis
  proof (cases "map_of (inactive (c_ws s)) k")
    case None
    then have "snd (destroy_workspace e k s) = s" by (simp add: destroy_workspace_def)
    then show ?thesis using refines [of k] by (intro conjI exI [of _ "[]"]) simp_all
  next
    case (Some x)
    let ?s1 = "on_ws (\<lambda>w. w\<lparr>inactive := AList.delete k (inactive w)\<rparr>) s"
    let ?ids = "apps_of e k ?s1"
    have wf: "apps_wf (c_apps ?s1)" using wf_apps [OF assms(1)] by simp
    have ids: "set ?ids = {i. \<exists>a. app_get (c_apps s) i = Some a \<and> app_workspace a = k}"
      using apps_of_set [OF assms(2) wf] by simp
    have "k \<noteq> active_id (c_ws s)" using Some ws_ids_keys(3) [OF wf_ids [OF assms(1)]] by auto
    then have "{i. d_apps (desk_of (snd (destroy_workspace e k s))) i \<noteq> d_apps (desk_of s) i} = set ?ids"
      using Some by (auto simp: refines desk_destroy_def desk_fields ids split: option.splits if_splits)
    moreover have "c_ipc (snd (destroy_workspace e k s)) =
        fold (\<lambda>i. ipc_send (json e) (WindowDestroyed i)) ?ids (c_ipc s)"
      using Some ids ipc_fold_remove_app [OF apps_of_distinct [OF assms(2) wf] wf, of k e]
      by (auto simp: destroy_workspace_def Let_def)
    ultimately show ?thesis
      using refines apps_of_distinct [OF assms(2) wf] by blast
  qed
qed

theorem destroy_refines_witness:
  "d_table (desk_of (snd (destroy_workspace demo_env 2 demo_two))) 2 = None \<and>
   d_apps (desk_of (snd (destroy_workspace demo_env 2 demo_two))) 1 \<noteq> None"
  using destroy_refines [OF demo_two_wf demo_order_laws, of 2]
  by (simp add: desk_destroy_def desk_fields demo_two_def app_get_def)

section \<open>Frames\<close>

lemma process_toplevel_desk:
  assumes "ws_room n (Suc m) s" and "\<not> tl_parent (shell e) wl"
  shows "d_table (desk_of s) (next_id (c_ws s)) = None"
    and "d_active (desk_of (process_toplevel e (wl, w) s)) = next_id (c_ws s)"
    and "\<exists>sp. d_table (desk_of (process_toplevel e (wl, w) s)) =
      (d_table (desk_space (active_id (c_ws s)) (sp_unmap e w) (desk_of s)))
        (next_id (c_ws s) \<mapsto> \<lparr>ws_space = sp, ws_emacs = Some wl, ws_name = []\<rparr>)"
proof -
  have wf: "emskin_wf n s" using assms(1) by (simp add: ws_room_def)
  let ?k = "next_id (c_ws s)" and ?c = "snd (create_workspace e wl w s)"
  have fresh: "?k \<notin> fst ` set (inactive (c_ws s))" "?k \<noteq> active_id (c_ws s)"
    using wf by (auto simp: emskin_wf_def ws_ids_def)
  then show "d_table (desk_of s) ?k = None"
    by (simp add: desk_fields map_of_eq_None_iff)
  obtain sp where c: "c_ws ?c = (c_ws s)\<lparr>active_space := sp_unmap e w (active_space (c_ws s)), next_id := ?k + 1,
     inactive := AList.update ?k \<lparr>ws_space = sp, ws_emacs = Some wl, ws_name = []\<rparr> (inactive (c_ws s))\<rparr>"
    using create_workspace_result(2) [of e wl w s] by (elim exE)
  have wf': "ws_ids (c_ws ?c)"
    using create_workspace_room [OF assms(1), of e wl w] by (simp add: ws_room_def wf_ids [of n])
  have p: "process_toplevel e (wl, w) s = snd (switch_workspace e ?k ?c)"
    using assms(2) create_workspace_result(1) [of e wl w s] by (simp add: process_toplevel_def case_prod_beta)
  have table: "d_table (desk_of ?c) = (d_table (desk_space (active_id (c_ws s)) (sp_unmap e w) (desk_of s)))
        (?k \<mapsto> \<lparr>ws_space = sp, ws_emacs = Some wl, ws_name = []\<rparr>)"
    using fresh by (simp add: desk_fields desk_space_def c current_workspace_def create_workspace_result(4)
        update_conv' fun_upd_twist)
  show "d_active (desk_of (process_toplevel e (wl, w) s)) = ?k"
    by (simp add: p desk_switch_workspace [OF wf'] desk_switch_def table)
  show "\<exists>sp. d_table (desk_of (process_toplevel e (wl, w) s)) =
      (d_table (desk_space (active_id (c_ws s)) (sp_unmap e w) (desk_of s)))
        (?k \<mapsto> \<lparr>ws_space = sp, ws_emacs = Some wl, ws_name = []\<rparr>)"
    using table by (auto simp: p desk_switch_workspace [OF wf'] desk_switch_def)
qed

text \<open>Frames processed later leave a workspace that is neither active nor theirs alone.\<close>

lemma later_frames:
  assumes "ws_room n (length ts) s" and "k \<noteq> active_id (c_ws s)" and "d_table (desk_of s) k \<noteq> None"
  shows "d_table (desk_of (fold (process_toplevel e) ts s)) k = d_table (desk_of s) k"
  using assms
proof (induction ts arbitrary: s)
  case (Cons t ts)
  obtain wl w where t: "t = (wl, w)" by force
  have room: "ws_room n (length ts) (process_toplevel e t s)"
    using process_toplevel_room [of n "length ts" s e t] Cons.prems(1) by simp
  show ?case
  proof (cases "tl_parent (shell e) wl")
    case True
    then have "process_toplevel e t s = s" by (simp add: t process_toplevel_def)
    then show ?thesis using Cons.IH [OF room] Cons.prems(2,3) by simp
  next
    case False
    have "ws_room n (Suc (length ts)) s" using Cons.prems(1) by simp
    note new = process_toplevel_desk(2,3) [OF this False, of w] and fresh = process_toplevel_desk(1) [OF this False]
    have k: "k \<noteq> next_id (c_ws s)" using fresh Cons.prems(3) by auto
    then have same: "d_table (desk_of (process_toplevel e t s)) k = d_table (desk_of s) k"
      using new(2) Cons.prems(2) by (auto simp: t desk_space_def)
    have "k \<noteq> active_id (c_ws (process_toplevel e t s))"
      using new(1) k by (simp add: t desk_of_def)
    then show ?thesis using Cons.IH [OF room] Cons.prems(3) same by simp
  qed
qed simp



end
