(* ===== verification/Focus_Props.thy ===== *)
theory Focus_Props
  imports Compositor_Props
begin

text \<open>
  Keyboard focus and commits: a prefix chord gives the focus back, a workspace switch forgets the
  \<open>leave\<close> of the text input it takes the focus from, a commit walks to its root surface and ends,
  and two handlers that map a window into the wrong space.
\<close>

section \<open>Prefix chords\<close>

lemma set_focus_without_grab:
  "focus_laws e \<Longrightarrow> c_keyboard (set_focus e t s) = t"
  by (simp add: focus_laws_def)

lemma set_focus_ime:
  "c_ime (set_focus e t s) = c_ime s \<or>
     (\<exists>f. c_ime (set_focus e t s) = ime_on_focus_changed e f (c_apps s) (c_ime s))"
  by (auto simp: set_focus_def focus_changed_def Let_def split: prod.split)

lemma prefix_active_owner: "prefix_active (set_owner e o' am b) = prefix_active b"
  by (simp add: set_owner_def cleared_def Let_def split: ime_owner.split option.split)

lemma prefix_active_focus: "prefix_active (ime_on_focus_changed e f am b) = prefix_active b"
  by (simp add: ime_on_focus_changed_def Let_def prefix_active_owner ti_push_def)

lemma prefix_active_set_focus: "prefix_active (c_ime (set_focus e t s)) = prefix_active (c_ime s)"
  using set_focus_ime [of e t s] by (auto simp: prefix_active_focus)

lemma set_prefix_active: "prefix_active (set_prefix_active b i) = b"
  by (simp add: set_prefix_active_def)

text \<open>During a chord the slot of the prefix override holds the focus to come back to.\<close>

definition chord_saved :: "focus_target option \<Rightarrow> 'sp emskin \<Rightarrow> bool" where
  "chord_saved f s \<longleftrightarrow> map_of (c_focus s) Prefix = Some f"

lemma intercept_focus [simp]:
  "c_focus (snd (intercept_key e name pressed m key s)) = c_focus s"
  "c_keyboard (snd (intercept_key e name pressed m key s)) = c_keyboard s"
  by (simp_all add: intercept_key_def split: option.split)

lemma enter_prefix_focus:
  "c_focus (enter_prefix e s) = (if is_active Prefix (c_focus s) then c_focus s
     else focus_enter Prefix (c_keyboard s) (c_focus s))"
  by (simp add: enter_prefix_def Let_def split: option.split)

lemma chord_key: "chord_saved f s \<Longrightarrow> chord_saved f (keyboard_key e name pressed m key s)"
  by (simp add: keyboard_key_def chord_saved_def case_prod_beta enter_prefix_focus is_active_def)

lemma chord_starts:
  "is_prefix_key m key \<Longrightarrow> \<not> is_active Prefix (c_focus s) \<Longrightarrow>
     chord_saved (c_keyboard s) (keyboard_key e name pressed m (Some key) s)"
  by (simp add: keyboard_key_def case_prod_beta enter_prefix_focus chord_saved_def)
    (simp add: intercept_key_def focus_enter_def update_conv')

type_synonym 'sp key_event = "'sp env \<times> bool \<times> modifiers \<times> u32 option"

definition key_event :: "(u32 \<Rightarrow> string) \<Rightarrow> 'sp key_event \<Rightarrow> 'sp emskin \<Rightarrow> 'sp emskin" where
  "key_event name = (\<lambda>(e, pressed, m, key). keyboard_key e name pressed m key)"

lemma chord_keys: "chord_saved f s \<Longrightarrow> chord_saved f (fold (key_event name) evs s)"
  by (induction evs arbitrary: s) (auto simp: key_event_def chord_key)

text \<open>Meanwhile the keyboard is with Emacs, and the input method off.\<close>

definition with_emacs :: "'sp env \<Rightarrow> 'sp emskin \<Rightarrow> 'sp emskin \<Rightarrow> bool" where
  "with_emacs e s0 s \<longleftrightarrow> emacs_focus_target e s = emacs_focus_target e s0 \<and> prefix_active (c_ime s) \<and>
     c_keyboard s = (case emacs_focus_target e s0 of None \<Rightarrow> c_keyboard s0 | Some t \<Rightarrow> Some t)"

lemma emacs_target_cong:
  "c_ws s' = c_ws s \<Longrightarrow> c_emacs s' = c_emacs s \<Longrightarrow> emacs_focus_target e s' = emacs_focus_target e s"
  by (cases "em_surface (c_emacs s)") (simp_all add: emacs_focus_target_def emacs_window_def)

lemma intercept_target [simp]:
  "emacs_focus_target e' (snd (intercept_key e name pressed m key s)) = emacs_focus_target e' s"
  by (rule emacs_target_cong) (simp_all add: intercept_key_def split: option.split)

lemma emacs_target_key [simp]:
  "emacs_focus_target e' (keyboard_key e name pressed m key s) = emacs_focus_target e' s"
proof -
  have "emacs_focus_target e' (enter_prefix e s) = emacs_focus_target e' s" for s
    by (rule emacs_target_cong) (simp_all add: enter_prefix_def Let_def split: option.split)
  moreover have "emacs_focus_target e' (call cs s) = emacs_focus_target e' s" for cs s
    by (rule emacs_target_cong) simp_all
  ultimately show ?thesis by (simp add: keyboard_key_def case_prod_beta)
qed

lemma enter_prefix_emacs:
  assumes "focus_laws e"
  shows "prefix_active (c_ime (enter_prefix e s))"
    and "c_keyboard (enter_prefix e s) = (case emacs_focus_target e s of None \<Rightarrow> c_keyboard s | Some t \<Rightarrow> Some t)"
proof -
  have "emacs_focus_target e (on_ime (set_prefix_active True) s') = emacs_focus_target e s'"
      "emacs_focus_target e (s'\<lparr>c_focus := f\<rparr>) = emacs_focus_target e s'" for s' f
    by (rule emacs_target_cong; simp)+
  then show "prefix_active (c_ime (enter_prefix e s))"
    "c_keyboard (enter_prefix e s) = (case emacs_focus_target e s of None \<Rightarrow> c_keyboard s | Some t \<Rightarrow> Some t)"
    using assms by (auto simp: enter_prefix_def Let_def prefix_active_set_focus set_prefix_active focus_laws_def
        split: option.split)
qed

lemma intercept_ime [simp]: "c_ime (snd (intercept_key e name pressed m key s)) = c_ime s"
  by (simp add: intercept_key_def split: option.split)

lemma with_emacs_key:
  assumes "with_emacs e s0 s \<or> (is_prefix_key m (the key) \<and> key \<noteq> None \<and> s = s0)" and "focus_laws e'"
    and "emacs_focus_target e' s0 = emacs_focus_target e s0" and "emacs_focus_target e' s = emacs_focus_target e' s0"
  shows "with_emacs e s0 (keyboard_key e' name pressed m key s)"
proof -
  show ?thesis
    using assms enter_prefix_emacs [OF assms(2), of "snd (intercept_key e' name pressed m key s)"]
    unfolding with_emacs_def emacs_target_key
    by (auto simp: keyboard_key_def case_prod_beta split: option.split) (auto simp: intercept_key_def)
qed

lemma with_emacs_keys:
  assumes "with_emacs e s0 s"
    and "\<forall>ev \<in> set evs. focus_laws (fst ev) \<and> emacs_focus_target (fst ev) s0 = emacs_focus_target e s0 \<and>
      emacs_focus_target (fst ev) s = emacs_focus_target (fst ev) s0"
  shows "with_emacs e s0 (fold (key_event name) evs s)"
  using assms
proof (induction evs arbitrary: s)
  case (Cons ev evs)
  have "with_emacs e s0 (key_event name ev s)"
    using Cons.prems with_emacs_key [of e s0 s] by (simp add: key_event_def case_prod_beta)
  moreover have "emacs_focus_target e' (key_event name ev s) = emacs_focus_target e' s" for e'
    by (simp add: key_event_def case_prod_beta)
  ultimately show ?case using Cons by simp
qed simp

text \<open>C21. A prefix chord (C-x, C-c, M-x) redirects the keyboard to Emacs and gives it back: from the
  prefix key on, through any further keys, prefix keys among them, the keyboard focus is the Emacs
  window (when there is one) and the host's input method is off; \<open>PrefixDone\<close> restores the focus there was before,
  ends the override and lifts the ban on the input method, and no other override changes.\<close>

theorem prefix_chord_restores:
  assumes "is_prefix_key m key" and "\<not> is_active Prefix (c_focus s)" and "focus_laws e" and "focus_laws e'"
    and "\<forall>ev \<in> set evs. focus_laws (fst ev) \<and> emacs_focus_target (fst ev) s = emacs_focus_target e s"
  shows "let s1 = fold (key_event name) evs (keyboard_key e name pressed m (Some key) s);
             s2 = ipc_prefix_done e' s1 in
    c_keyboard s1 = (case emacs_focus_target e s of None \<Rightarrow> c_keyboard s | Some t \<Rightarrow> Some t) \<and>
    \<not> desired_ime_allowed (c_ime s1) \<and>
    c_keyboard s2 = c_keyboard s \<and> \<not> is_active Prefix (c_focus s2) \<and> \<not> prefix_active (c_ime s2) \<and>
    (\<forall>k. k \<noteq> Prefix \<longrightarrow> is_active k (c_focus s2) = is_active k (c_focus s1))"
proof -
  let ?s1 = "fold (key_event name) evs (keyboard_key e name pressed m (Some key) s)"
  have "with_emacs e s (keyboard_key e name pressed m (Some key) s)"
    using assms(1,3) by (intro with_emacs_key) simp_all
  then have "with_emacs e s ?s1" using assms(5) by (intro with_emacs_keys) simp_all
  then have redirected: "c_keyboard ?s1 = (case emacs_focus_target e s of None \<Rightarrow> c_keyboard s | Some t \<Rightarrow> Some t)"
    "\<not> desired_ime_allowed (c_ime ?s1)"
    by (simp_all add: with_emacs_def desired_ime_allowed_def)
  have "chord_saved (c_keyboard s) ?s1"
    by (rule chord_keys [OF chord_starts [OF assms(1,2)]])
  then show ?thesis
    using assms(4) redirected
    by (simp add: ipc_prefix_done_def focus_exit_def chord_saved_def Let_def focus_laws_def is_active_def
        delete_conv' prefix_active_set_focus set_prefix_active)
qed

definition ctrl :: modifiers where
  "ctrl = \<lparr>m_ctrl = True, m_alt = False, m_logo = False, m_shift = False\<rparr>"

theorem prefix_chord_restores_witness:
  "c_keyboard (fold (key_event (\<lambda>k. [])) [(demo_env, True, ctrl, Some KEY_c)]
     (keyboard_key demo_env (\<lambda>k. []) True ctrl (Some KEY_x) (demo_two\<lparr>c_keyboard := Some (FWindow 20)\<rparr>))) = Some (FWindow 1) \<and>
   c_keyboard (ipc_prefix_done demo_env (fold (key_event (\<lambda>k. [])) [(demo_env, True, ctrl, Some KEY_c)]
     (keyboard_key demo_env (\<lambda>k. []) True ctrl (Some KEY_x)
       (demo_two\<lparr>c_keyboard := Some (FWindow 20)\<rparr>)))) = Some (FWindow 20)"
proof -
  let ?s = "demo_two\<lparr>c_keyboard := Some (FWindow 20)\<rparr>"
  have "emacs_focus_target demo_env ?s = Some (FWindow 1)"
    by (simp add: emacs_focus_target_def emacs_window_def demo_two_def demo_env_def emacs_new_def)
  moreover have "is_prefix_key ctrl KEY_x" "\<not> is_active Prefix (c_focus ?s)"
    by (simp_all add: is_prefix_key_def ctrl_def is_active_def demo_two_def emskin_new_def)
  ultimately show ?thesis
    using prefix_chord_restores [OF _ _ demo_focus_laws demo_focus_laws, of ctrl KEY_x ?s
        "[(demo_env, True, ctrl, Some KEY_c)]" "\<lambda>k. []" True] demo_focus_laws
    by (simp add: Let_def)
qed

section \<open>The text input across a switch\<close>

lemma focus_calls_from_none:
  "focused_surface b = None \<Longrightarrow>
     \<exists>cs. ti_calls (ime_on_focus_changed e f am b) = ti_calls b @ cs \<and> TiLeave \<notin> set cs"
proof -
  assume b: "focused_surface b = None"
  have same: "ti_calls (set_owner e o' am b') = ti_calls b'" for o' b'
    by (simp add: set_owner_def cleared_def Let_def split: ime_owner.split option.split)
  have "TiLeave \<notin> set (transition_focus None f)"
    by (cases f) (simp_all add: transition_focus_def)
  then show ?thesis
    using b by (auto simp: ime_on_focus_changed_def Let_def same ti_push_def)
qed

text \<open>\<open>switch_workspace\<close> resets the input-method bridge before it moves the keyboard focus, so the
  bridge no longer knows which surface had the text input: whatever was focused, a successful switch
  never sends it \<open>leave\<close>, although the compositor sends these events itself because no input-method
  protocol is registered.\<close>

theorem switch_loses_leave:
  assumes "fst (switch_workspace e k s)"
  shows "\<exists>cs. ti_calls (c_ime (snd (switch_workspace e k s))) = ti_calls (c_ime s) @ cs \<and> TiLeave \<notin> set cs"
proof -
  obtain x where x: "snd (switch_workspace e k s) = call [PointerClear]
      (set_focus e (emacs_focus_target e (send e (WorkspaceSwitched k) (reset_on_switch e (swap_workspace k x s))))
        (send e (WorkspaceSwitched k) (reset_on_switch e (swap_workspace k x s))))"
    using assms by (auto simp: switch_workspace_def Let_def split: option.splits if_splits)
  let ?b = "ime_reset_on_workspace_switch (c_ime s)"
  have b: "focused_surface ?b = None" "ti_calls ?b = ti_calls (c_ime s)"
    by (simp_all add: ime_reset_on_workspace_switch_def cleared_def)
  have "c_ime (snd (switch_workspace e k s)) = ?b \<or>
      (\<exists>f. c_ime (snd (switch_workspace e k s)) = ime_on_focus_changed e f (c_apps s) ?b)"
    using set_focus_ime [of e _ "send e (WorkspaceSwitched k) (reset_on_switch e (swap_workspace k x s))"]
    unfolding x by simp
  then show ?thesis
    using focus_calls_from_none [OF b(1)] b(2) by (metis append_Nil2 empty_iff empty_set)
qed

theorem switch_loses_leave_witness:
  "\<exists>cs. ti_calls (c_ime (snd (switch_workspace demo_env 2 demo_two))) = ti_calls (c_ime demo_two) @ cs \<and>
     TiLeave \<notin> set cs"
  using switch_loses_leave [of demo_env 2 demo_two]
  by (simp add: switch_workspace_def Let_def demo_two_def)

section \<open>Commits\<close>

text \<open>C29. The walk of \<open>commit\<close> from a surface to its root ends, and with it the handler, because a
  subsurface's parent chain is acyclic (\<open>wl_subcompositor\<close> refuses a parent that is a descendant);
  the root it finds is an ancestor without a parent.\<close>

theorem commit_terminates:
  fixes rank :: "surface \<Rightarrow> nat"
  assumes "\<And>a b. get_parent (shell e) a = Some b \<Longrightarrow> rank b < rank a"
  shows "(\<exists>s'. commit e wl s = Some s') \<and>
    (\<exists>root. root_of (get_parent (shell e)) wl = Some root \<and> get_parent (shell e) root = None \<and>
       (wl, root) \<in> {(a, b). get_parent (shell e) a = Some b}\<^sup>*)"
proof -
  let ?p = "get_parent (shell e)"
  have root: "\<exists>root. root_of ?p wl = Some root \<and> ?p root = None \<and> (wl, root) \<in> {(a, b). ?p a = Some b}\<^sup>*"
  proof (induction "rank wl" arbitrary: wl rule: less_induct)
    case less
    show ?case
    proof (cases "?p wl")
      case None
      then show ?thesis by (subst root_of.simps) simp
    next
      case (Some b)
      then obtain root where "root_of ?p b = Some root" "?p root = None" "(b, root) \<in> {(a, b). ?p a = Some b}\<^sup>*"
        using less [OF assms [OF Some]] by blast
      with Some show ?thesis
        by (subst root_of.simps) (auto intro: converse_rtrancl_into_rtrancl)
    qed
  qed
  moreover have "\<exists>s'. commit e wl s = Some s'"
    using root by (auto simp: commit_def)
  ultimately show ?thesis by blast
qed

theorem commit_terminates_witness:
  "\<exists>s'. commit demo_env 2005 demo_two = Some s'"
  by (rule commit_terminates [where rank = "\<lambda>x. x", THEN conjunct1])
    (simp add: demo_env_def demo_shell_def split: if_splits)

end
