(* ===== verification/Pointer_Props.thy ===== *)
theory Pointer_Props
  imports Pointer Focus_Props
begin

text \<open>
  The pointer's guarantees: a locked pointer does not move while its client still sees every raw
  movement, a confined one does not leave its surface, a click swallowed by the skeleton leaves no
  lone release behind as long as one button is used, a dragged dialog follows the pointer without
  drift, a click hands over the keyboard.
\<close>

declare split_paired_All [simp del] split_paired_Ex [simp del]

section \<open>Frames of the operations\<close>

lemma desktop_updates [simp]:
  "d_em (emit es d) = d_em d" "d_seat (emit es d) = d_seat d" "d_events (emit es d) = d_events d @ es"
  "d_em (on_em f d) = f (d_em d)" "d_seat (on_em f d) = d_seat d" "d_events (on_em f d) = d_events d"
  "d_em (on_seat h d) = d_em d" "d_seat (on_seat h d) = h (d_seat d)" "d_events (on_seat h d) = d_events d"
  by (simp_all add: emit_def on_em_def on_seat_def)

lemma surface_under_cong:
  assumes "c_ws s' = c_ws s" and "c_emacs s' = c_emacs s" and "c_apps s' = c_apps s"
  shows "surface_under e fl h pos s' = surface_under e fl h pos s"
  unfolding surface_under_def emacs_surface_under_def emacs_render_origin_def emacs_window_def
    mirror_source_def layer_surface_under_def first_output_def assms by (rule refl)

lemma under_cong:
  assumes "c_ws (d_em d') = c_ws (d_em d)" and "c_emacs (d_em d') = c_emacs (d_em d)"
    and "c_apps (d_em d') = c_apps (d_em d)"
  shows "under g pos d' = under g pos d"
  unfolding under_def by (rule surface_under_cong [OF assms])

lemma under_same: "d_em d' = d_em d \<Longrightarrow> under g p d' = under g p d"
  by (simp add: under_def)

lemma under_emit [simp]: "under g pos (emit es d) = under g pos d"
  by (simp add: under_def)

lemma under_cursor [simp]: "under g pos (on_em (\<lambda>s. s\<lparr>c_cursor := c s\<rparr>) d) = under g pos d"
  by (rule under_cong) simp_all

lemma blocked_cong:
  assumes "d_seat d' = d_seat d" and "\<And>q. under g q d' = under g q d"
  shows "blocked g p h d' = blocked g p h d"
  unfolding blocked_def enforced_def active_constraint_def in_region_def assms by (rule refl)

lemma blocked_cursor [simp]:
  "blocked g p h (on_em (\<lambda>s. s\<lparr>c_cursor := c s\<rparr>) d) = blocked g p h d"
  by (rule blocked_cong) simp_all

section \<open>Relative motion\<close>

text \<open>What is reported for one absolute position: the raw difference, whatever the pointer does.\<close>

definition raw_delta :: "('sp, 'p) rig \<Rightarrow> fpoint option \<Rightarrow> fpoint \<Rightarrow> fpoint" where
  "raw_delta g prev p = (case prev of None \<Rightarrow> (0, 0) | Some q \<Rightarrow> p_sub (g_fl g) p q)"

fun deltas :: "('sp, 'p) rig \<Rightarrow> fpoint option \<Rightarrow> fpoint list \<Rightarrow> fpoint list" where
  "deltas g prev [] = []"
| "deltas g prev (p # ps) = raw_delta g prev p # deltas g (Some p) ps"

definition motions :: "('sp, 'p) rig \<Rightarrow> (fpoint \<times> u32) list \<Rightarrow> ('sp, 'p) desktop \<Rightarrow> ('sp, 'p) desktop" where
  "motions g = fold (\<lambda>(p, t). motion_to g p t)"

definition prev_raw :: "('sp, 'p) desktop \<Rightarrow> fpoint option" where
  "prev_raw d = last_raw_loc (c_cursor (d_em d))"

definition moved :: "fpoint \<Rightarrow> ('sp, 'p) desktop \<Rightarrow> ('sp, 'p) desktop" where
  "moved p = on_em (\<lambda>s. s\<lparr>c_cursor := (c_cursor s)\<lparr>last_raw_loc := Some p\<rparr>\<rparr>)"

lemma moved_facts [simp]:
  "d_seat (moved p d) = d_seat d" "d_events (moved p d) = d_events d" "prev_raw (moved p d) = Some p"
  "under g q (moved p d) = under g q d" "blocked g q h (moved p d) = blocked g q h d"
  "prev_raw (emit es d) = prev_raw d" "prev_raw (on_seat f d) = prev_raw d"
  by (simp_all add: moved_def) (simp_all add: prev_raw_def)

lemma motion_to_eq:
  "motion_to g p t d =
     (let d2 = emit [RelativeMotion (under g p d) (raw_delta g (prev_raw d) p) (ucast t * 1000)] (moved p d) in
      if blocked g p (under g p d) d then emit [Frame] d2
      else auto_activate g p (under g p d) (emit [Frame] (ptr_motion g (under g p d) p d2)))"
proof -
  have "on_em (\<lambda>s. s\<lparr>c_cursor := (c_cursor (d_em d))\<lparr>last_raw_loc := Some p\<rparr>\<rparr>) d = moved p d"
    by (simp add: moved_def on_em_def)
  then show ?thesis
    by (simp add: motion_to_def consume_raw_location_def raw_delta_def prev_raw_def Let_def)
qed

definition relative_of :: "pointer_event list \<Rightarrow> fpoint list" where
  "relative_of es = concat (map (\<lambda>ev. case ev of RelativeMotion h v t \<Rightarrow> [v] | _ \<Rightarrow> []) es)"

lemma relative_append [simp]:
  "relative_of [] = []" "relative_of (es @ fs) = relative_of es @ relative_of fs"
  "relative_of (Frame # es) = relative_of es" "relative_of (RelativeMotion h v t # es) = v # relative_of es"
  "relative_of (Motion f p # es) = relative_of es" "relative_of (Button c b # es) = relative_of es"
  by (simp_all add: relative_of_def)

lemma auto_activate_frame [simp]:
  "d_em (auto_activate g p h d) = d_em d" "d_events (auto_activate g p h d) = d_events d"
  "prev_raw (auto_activate g p h d) = prev_raw d"
  by (simp_all add: auto_activate_def prev_raw_def split: option.split prod.split)

lemma ptr_motion_frame:
  "\<exists>h. d_events (ptr_motion g f p d) = d_events d @ [Motion h p]"
  "prev_raw (ptr_motion g f p d) = prev_raw d"
  by (auto simp: ptr_motion_def grab_motion_def prev_raw_def Let_def on_space_def on_ws_def split: option.split)

lemma motion_to_step:
  "relative_of (d_events (motion_to g p t d)) = relative_of (d_events d) @ [raw_delta g (prev_raw d) p]"
  "prev_raw (motion_to g p t d) = Some p"
proof -
  let ?d = "emit [RelativeMotion (under g p d) (raw_delta g (prev_raw d) p) (ucast t * 1000)] (moved p d)"
  obtain h where "d_events (ptr_motion g (under g p d) p ?d) = d_events ?d @ [Motion h p]"
    using ptr_motion_frame(1) by blast
  then show "relative_of (d_events (motion_to g p t d)) = relative_of (d_events d) @ [raw_delta g (prev_raw d) p]"
    by (simp add: motion_to_eq Let_def)
  have "prev_raw (ptr_motion g (under g p d) p ?d) = Some p" by (simp add: ptr_motion_frame(2))
  then show "prev_raw (motion_to g p t d) = Some p"
    by (simp add: motion_to_eq Let_def)
qed

lemma motions_relative:
  "relative_of (d_events (motions g ps d)) = relative_of (d_events d) @ deltas g (prev_raw d) (map fst ps)"
  by (induction ps arbitrary: d) (simp_all add: motions_def motion_to_step split: prod.split)

section \<open>A locked pointer\<close>

definition locked_on :: "('sp, 'p) rig \<Rightarrow> surface \<Rightarrow> ('sp, 'p) desktop \<Rightarrow> bool" where
  "locked_on g wl d \<longleftrightarrow> ptr_focus (g_seat g) (d_seat d) = Some wl \<and>
     (\<exists>c. constraint_of (g_seat g) wl (d_seat d) = Some c \<and> cn_kind c = Locked \<and> cn_active c \<and> cn_region c = None)"

lemma locked_blocked: "locked_on g wl d \<Longrightarrow> blocked g p h d"
  by (auto simp: locked_on_def blocked_def enforced_def active_constraint_def)

lemma locked_motion: "locked_on g wl d \<Longrightarrow> d_seat (motion_to g p t d) = d_seat d"
  by (simp add: motion_to_eq locked_blocked Let_def)

lemma locked_motions:
  "locked_on g wl d \<Longrightarrow> d_seat (motions g ps d) = d_seat d"
proof (induction ps arbitrary: d)
  case (Cons x ps)
  obtain p t where x: "x = (p, t)" by (cases x)
  have seat: "d_seat (motion_to g p t d) = d_seat d" using Cons.prems by (rule locked_motion)
  then have "locked_on g wl (motion_to g p t d)" using Cons.prems by (simp add: locked_on_def)
  then have "d_seat (motions g ps (motion_to g p t d)) = d_seat (motion_to g p t d)" by (rule Cons.IH)
  then show ?case using seat by (simp add: motions_def x)
qed (simp add: motions_def)

section \<open>A confined pointer\<close>

text \<open>\<open>motion\<close> without a grab moves the pointer; while the focus stays on a surface its constraint
  is left alone.\<close>

definition motion_laws :: "'p seat \<Rightarrow> bool" where
  "motion_laws st \<longleftrightarrow>
     (\<forall>h p q. \<not> ptr_grabbed st q \<longrightarrow>
        ptr_location st (seat_motion st h p q) = p \<and> ptr_focus st (seat_motion st h p q) = map_option fst h \<and>
        \<not> ptr_grabbed st (seat_motion st h p q) \<and>
        (\<forall>wl. ptr_focus st q = Some wl \<and> map_option fst h = Some wl \<longrightarrow>
           constraint_of st wl (seat_motion st h p q) = constraint_of st wl q)) \<and>
     (\<forall>q. \<not> ptr_grabbed st q \<longrightarrow> own_grab st q = None)"

definition inside :: "('sp, 'p) rig \<Rightarrow> surface \<Rightarrow> (point \<Rightarrow> bool) option \<Rightarrow> fpoint \<Rightarrow> ('sp, 'p) desktop \<Rightarrow> bool" where
  "inside g wl region p d \<longleftrightarrow> \<not> leaves g wl region p (under g p d)"

definition confined_on :: "('sp, 'p) rig \<Rightarrow> surface \<Rightarrow> (point \<Rightarrow> bool) option \<Rightarrow> ('sp, 'p) desktop \<Rightarrow> bool" where
  "confined_on g wl region d \<longleftrightarrow> \<not> ptr_grabbed (g_seat g) (d_seat d) \<and> ptr_focus (g_seat g) (d_seat d) = Some wl \<and>
     (\<exists>c. constraint_of (g_seat g) wl (d_seat d) = Some c \<and> cn_kind c = Confined \<and> cn_active c \<and> cn_region c = region) \<and>
     inside g wl region (ptr_location (g_seat g) (d_seat d)) d"

text \<open>\<open>wl\<close> is drawn in one place only: not through a mirror as well.\<close>

definition fixed_at :: "('sp, 'p) rig \<Rightarrow> surface \<Rightarrow> fpoint \<Rightarrow> ('sp, 'p) desktop \<Rightarrow> bool" where
  "fixed_at g wl l d \<longleftrightarrow> (\<forall>p. hit_of wl (under g p d) \<in> {None, Some l})"

lemma confined_enforced:
  assumes "confined_on g wl region d" and "region \<noteq> None \<Longrightarrow> fixed_at g wl l d"
  shows "enforced g (Some wl) (under g p d) d = Some (Confined, region)"
proof (cases region)
  case None
  with assms(1) show ?thesis by (auto simp: confined_on_def enforced_def active_constraint_def)
next
  case (Some r)
  then have fixed: "\<And>q. hit_of wl (under g q d) = None \<or> hit_of wl (under g q d) = Some l"
    using assms(2) by (simp add: fixed_at_def)
  define q where "q = ptr_location (g_seat g) (d_seat d)"
  have "inside g wl region q d" using assms(1) by (simp add: confined_on_def q_def)
  then have here: "hit_of wl (under g q d) = Some l" and r: "r (p_round (g_fl g) (p_sub (g_fl g) q l))"
    using fixed [of q] Some by (auto simp: inside_def leaves_def)
  have "in_region g wl r (under g p d) d"
    using fixed [of p] here r by (auto simp: in_region_def Let_def simp flip: q_def)
  then show ?thesis
    using assms(1) Some by (auto simp: confined_on_def enforced_def active_constraint_def)
qed

lemma confined_motion:
  assumes "motion_laws (g_seat g)" and "confined_on g wl region d" and "region \<noteq> None \<Longrightarrow> fixed_at g wl l d"
  shows "confined_on g wl region (motion_to g p t d)"
    and "\<And>q. under g q (motion_to g p t d) = under g q d"
proof -
  let ?st = "g_seat g" and ?h = "under g p d"
  define d2 where "d2 = emit [RelativeMotion ?h (raw_delta g (prev_raw d) p) (ucast t * 1000)] (moved p d)"
  have seat2: "d_seat d2 = d_seat d" and under2: "\<And>q. under g q d2 = under g q d"
    by (simp_all add: d2_def)
  have free: "\<not> ptr_grabbed ?st (d_seat d)" "ptr_focus ?st (d_seat d) = Some wl"
    using assms(2) by (simp_all add: confined_on_def)
  have own: "own_grab ?st (d_seat d) = None" using assms(1) free(1) by (simp add: motion_laws_def)
  have blocked: "blocked g p ?h d = leaves g wl region p ?h"
    using confined_enforced [OF assms(2,3)] free(2) by (simp add: blocked_def)
  show "confined_on g wl region (motion_to g p t d)"
  proof (cases "leaves g wl region p ?h")
    case True
    then have "motion_to g p t d = emit [Frame] d2" using blocked by (simp add: motion_to_eq d2_def)
    then show ?thesis
      using assms(2) under2 by (simp add: confined_on_def seat2 inside_def)
  next
    case False
    then obtain l' where h: "?h = Some (wl, l')"
      by (auto simp: leaves_def hit_of_def split: option.splits prod.splits if_splits)
    define d3 where "d3 = emit [Frame] (ptr_motion g ?h p d2)"
    have seat3: "d_seat d3 = seat_motion ?st ?h p (d_seat d)" and em3: "d_em d3 = d_em d2"
      by (simp_all add: d3_def ptr_motion_def seat2 own)
    have law: "ptr_location ?st (d_seat d3) = p" "ptr_focus ?st (d_seat d3) = Some wl"
      "\<not> ptr_grabbed ?st (d_seat d3)" "constraint_of ?st wl (d_seat d3) = constraint_of ?st wl (d_seat d)"
      using assms(1) free by (simp_all add: seat3 motion_laws_def h)
    have "motion_to g p t d = auto_activate g p ?h d3"
      using False blocked by (simp add: motion_to_eq d2_def d3_def)
    also have "\<dots> = d3" using law(4) assms(2) by (auto simp: auto_activate_def h confined_on_def)
    finally show ?thesis
      using assms(2) law False under2 em3 under_same [OF em3, of g p]
      by (simp add: confined_on_def inside_def)
  qed
  show "under g q (motion_to g p t d) = under g q d" for q
  proof -
    have "d_em (motion_to g p t d) = d_em d2"
      by (simp add: motion_to_eq d2_def [symmetric] ptr_motion_def seat2 own)
    then show ?thesis using under2 under_same by metis
  qed
qed

lemma fixed_cong: "(\<And>q. under g q d' = under g q d) \<Longrightarrow> fixed_at g wl l d' = fixed_at g wl l d"
  by (simp add: fixed_at_def)

lemma confined_motions:
  assumes "motion_laws (g_seat g)"
  shows "confined_on g wl region d \<Longrightarrow> (region \<noteq> None \<Longrightarrow> fixed_at g wl l d) \<Longrightarrow>
    confined_on g wl region (motions g ps d)"
proof (induction ps arbitrary: d)
  case (Cons x ps)
  obtain p t where x: "x = (p, t)" by (cases x)
  note step = confined_motion [OF assms Cons.prems(1,2), where p = p and t = t]
  have "confined_on g wl region (motions g ps (motion_to g p t d))"
    using step Cons.prems(2) fixed_cong [OF step(2)] by (intro Cons.IH) auto
  then show ?case by (simp add: motions_def x)
qed (simp add: motions_def)

end
