(* ===== verification/Pointer_Clicks.thy ===== *)
theory Pointer_Clicks
  imports Pointer_Props
begin

text \<open>
  Clicks and drags: which presses and releases reach a client, where a click puts the keyboard
  focus, and the path of a dragged dialog.
\<close>

declare split_paired_All [simp del] split_paired_Ex [simp del]

section \<open>What a click leaves alone\<close>

lemma effects_same [simp]:
  "c_effects (send e m s) = c_effects s" "c_effects (call cs s) = c_effects s"
  "c_effects (on_ime f s) = c_effects s" "c_effects (set_focus e t s) = c_effects s"
  "c_effects (on_space h s) = c_effects s"
  by (simp_all add: send_def call_def on_ime_def on_space_def on_ws_def set_focus_def focus_changed_def Let_def
      split: prod.split)

lemma effects_click [simp]:
  "c_effects (click_view g pos u s) = c_effects s" "c_effects (click_focus e t s) = c_effects s"
  by (simp_all add: click_view_def click_focus_def Let_def split: option.split prod.split)

lemma effects_press [simp]: "c_effects (d_em (press_ungrabbed g code d)) = c_effects (d_em d)"
  by (simp add: press_ungrabbed_def Let_def)

lemma press_frame [simp]:
  "d_events (press_ungrabbed g code d) = d_events d" "d_seat (press_ungrabbed g code d) = d_seat d"
  by (simp_all add: press_ungrabbed_def Let_def)

text \<open>The presses and releases that reached the pointer's clients.\<close>

definition buttons_of :: "pointer_event list \<Rightarrow> (u32 \<times> bool) list" where
  "buttons_of es = concat (map (\<lambda>ev. case ev of Button c b \<Rightarrow> [(c, b)] | _ \<Rightarrow> []) es)"

lemma buttons_append [simp]:
  "buttons_of [] = []" "buttons_of (es @ fs) = buttons_of es @ buttons_of fs"
  "buttons_of (Frame # es) = buttons_of es" "buttons_of (RelativeMotion h v t # es) = buttons_of es"
  "buttons_of (Motion f p # es) = buttons_of es" "buttons_of (Button c b # es) = (c, b) # buttons_of es"
  "buttons_of (Axis s a # es) = buttons_of es"
  by (simp_all add: buttons_of_def)

definition absorbed :: "('sp, 'p) desktop \<Rightarrow> bool" where
  "absorbed d = skeleton_click_absorbed (c_effects (d_em d))"

lemma ptr_button_frame:
  "d_events (ptr_button g c b d) = d_events d @ [Button c b]" "d_em (ptr_button g c b d) = d_em d"
  by (simp_all add: ptr_button_def grab_button_def Let_def split: option.split)

lemma forward_button_frame:
  "buttons_of (d_events (forward_button g c b d)) = buttons_of (d_events d) @ [(c, b)]"
  "absorbed (forward_button g c b d) = absorbed d"
  by (simp_all add: forward_button_def absorbed_def ptr_button_frame)

lemma skeleton_press_frame:
  "d_events (snd (skeleton_press g d)) = d_events d"
  "absorbed (snd (skeleton_press g d)) \<longleftrightarrow> fst (skeleton_press g d) \<or> absorbed d"
  by (auto simp: skeleton_press_def absorbed_def on_effects_def Let_def split: prod.split)

lemma button_event_press:
  "absorbed (button_event g c True d) \<longleftrightarrow> c = BTN_LEFT \<and> fst (skeleton_press g d) \<or> absorbed d"
  "buttons_of (d_events (button_event g c True d)) = buttons_of (d_events d) @
     (if c = BTN_LEFT \<and> fst (skeleton_press g d) then [] else [(c, True)])"
  using skeleton_press_frame [of g d]
  by (auto simp: button_event_def forward_button_frame split: prod.split)

lemma button_event_release:
  "absorbed (button_event g c False d) = False"
  "buttons_of (d_events (button_event g c False d)) = buttons_of (d_events d) @
     (if absorbed d then [] else [(c, False)])"
  by (auto simp: button_event_def forward_button_frame) (simp_all add: absorbed_def on_effects_def)

section \<open>Other events in between\<close>

lemma motion_absolute_buttons:
  "buttons_of (d_events (motion_absolute g tr t d)) = buttons_of (d_events d)"
  "absorbed (motion_absolute g tr t d) = absorbed d"
proof -
  have *: "buttons_of (d_events (motion_to g p t d)) = buttons_of (d_events d) \<and>
      absorbed (motion_to g p t d) = absorbed d" for p
  proof -
    let ?d = "emit [RelativeMotion (under g p d) (raw_delta g (prev_raw d) p) (ucast t * 1000)] (moved p d)"
    obtain h where "d_events (ptr_motion g (under g p d) p ?d) = d_events ?d @ [Motion h p]"
      using ptr_motion_frame(1) by blast
    moreover have "c_effects (d_em (ptr_motion g (under g p d) p ?d)) = c_effects (d_em d)"
      by (simp add: ptr_motion_def grab_motion_def Let_def moved_def split: option.split)
    ultimately show ?thesis by (simp add: motion_to_eq Let_def absorbed_def) (simp add: moved_def)
  qed
  show "buttons_of (d_events (motion_absolute g tr t d)) = buttons_of (d_events d)"
    "absorbed (motion_absolute g tr t d) = absorbed d"
    using * by (simp_all add: motion_absolute_def Let_def split: option.split)
qed

lemma key_absorbed:
  "skeleton_click_absorbed (c_effects (keyboard_key e name pressed m key s)) = skeleton_click_absorbed (c_effects s)"
proof -
  have "c_effects (enter_prefix e s1) = c_effects s1" for s1 :: "'a emskin"
    by (simp add: enter_prefix_def Let_def split: option.split)
  moreover have "skeleton_click_absorbed (c_effects (snd (intercept_key e name pressed m key s))) =
      skeleton_click_absorbed (c_effects s)"
    by (simp add: intercept_key_def on_effects_def split: option.split)
  ultimately show ?thesis by (simp add: keyboard_key_def case_prod_beta)
qed

lemma input_other:
  assumes "\<And>c b. ev \<noteq> PointerButton c b"
  shows "buttons_of (d_events (process_input_event g name ev d)) = buttons_of (d_events d)"
    and "absorbed (process_input_event g name ev d) = absorbed d"
  using assms
  by (cases ev; simp add: process_input_event_def motion_absolute_buttons pointer_axis_def absorbed_def key_absorbed;
      simp add: motion_absolute_buttons flip: absorbed_def)+

section \<open>One button at a time\<close>

text \<open>A history in which only one button is used: presses and releases alternate.\<close>

fun alternating :: "u32 \<Rightarrow> bool \<Rightarrow> (u32 \<times> bool) list \<Rightarrow> bool" where
  "alternating c held [] = True"
| "alternating c held ((c', b) # bs) = (c' = c \<and> b = (\<not> held) \<and> alternating c b bs)"

fun held_after :: "bool \<Rightarrow> (u32 \<times> bool) list \<Rightarrow> bool" where
  "held_after held [] = held"
| "held_after held ((c, b) # bs) = held_after b bs"

lemma alternating_append [simp]:
  "alternating c held (xs @ ys) \<longleftrightarrow> alternating c held xs \<and> alternating c (held_after held xs) ys"
  by (induction c held xs rule: alternating.induct) auto

lemma held_after_append [simp]: "held_after h (xs @ ys) = held_after (held_after h xs) ys"
  by (induction h xs rule: held_after.induct) auto

fun input_buttons :: "input_event list \<Rightarrow> (u32 \<times> bool) list" where
  "input_buttons [] = []"
| "input_buttons (PointerButton c b # evs) = (c, b) # input_buttons evs"
| "input_buttons (_ # evs) = input_buttons evs"

definition inputs ::
  "('sp, 'p) rig \<Rightarrow> (u32 \<Rightarrow> string) \<Rightarrow> input_event list \<Rightarrow> ('sp, 'p) desktop \<Rightarrow> ('sp, 'p) desktop" where
  "inputs g name = fold (process_input_event g name)"

text \<open>The user holds the button exactly if its press was swallowed or a client saw it.\<close>

definition paired :: "u32 \<Rightarrow> bool \<Rightarrow> ('sp, 'p) desktop \<Rightarrow> bool" where
  "paired c held d \<longleftrightarrow> alternating c False (buttons_of (d_events d)) \<and>
     held = (absorbed d \<or> held_after False (buttons_of (d_events d))) \<and>
     \<not> (absorbed d \<and> held_after False (buttons_of (d_events d)))"

lemma paired_button:
  assumes "paired c held d" and "b = (\<not> held)"
  shows "paired c b (button_event g c b d)"
  using assms by (cases b) (auto simp: paired_def button_event_press button_event_release)

lemma paired_inputs:
  "paired c held d \<Longrightarrow> alternating c held (input_buttons evs) \<Longrightarrow>
     paired c (held_after held (input_buttons evs)) (inputs g name evs d)"
proof (induction evs arbitrary: d held)
  case (Cons ev evs)
  have run: "inputs g name (ev # evs) d = inputs g name evs (process_input_event g name ev d)"
    by (simp add: inputs_def)
  show ?case
  proof (cases "\<exists>c' b. ev = PointerButton c' b")
    case True
    then obtain b where ev: "ev = PointerButton c b" and b: "b = (\<not> held)"
      using Cons.prems(2) by auto
    have "paired c b (process_input_event g name ev d)"
      using paired_button [OF Cons.prems(1) b] by (simp add: ev process_input_event_def)
    moreover have "alternating c b (input_buttons evs)" using Cons.prems(2) by (auto simp: ev)
    ultimately have "paired c (held_after b (input_buttons evs)) (inputs g name evs (process_input_event g name ev d))"
      by (rule Cons.IH)
    then show ?thesis unfolding run by (simp add: ev)
  next
    case False
    then have same: "input_buttons (ev # evs) = input_buttons evs" by (cases ev) auto
    have "paired c held (process_input_event g name ev d)"
      using Cons.prems(1) False by (simp add: paired_def input_other)
    then show ?thesis using Cons.IH Cons.prems(2) same by (simp add: run)
  qed
qed (simp add: inputs_def)

section \<open>Focus\<close>

lemma focus_keyboard [simp]:
  "c_keyboard (send e m s) = c_keyboard s" "c_keyboard (on_ime f s) = c_keyboard s"
  "c_focus (send e m s) = c_focus s" "c_focus (on_ime f s) = c_focus s" "c_focus (set_focus e t s) = c_focus s"
  by (simp_all add: send_def on_ime_def set_focus_def focus_changed_def call_def Let_def split: prod.split)

lemma click_view_frame [simp]:
  "c_keyboard (click_view g pos u s) = c_keyboard s" "c_focus (click_view g pos u s) = c_focus s"
  by (simp_all add: click_view_def split: option.split prod.split)

lemma click_view_ws: "c_ws (click_view g pos v s) = c_ws s" "c_emacs (click_view g pos v s) = c_emacs s"
  by (simp_all add: click_view_def send_def split: option.split prod.split)

lemma click_target_view [simp]: "click_target e u (click_view g pos v s) = click_target e u s"
  unfolding click_target_def focus_target_for_surface_def emacs_focus_target_def emacs_window_def
    first_output_def click_view_ws by (rule refl)

section \<open>Dragging\<close>

definition drag_laws :: "'p seat \<Rightarrow> bool" where
  "drag_laws st \<longleftrightarrow>
     (\<forall>h p q. own_grab st (inner_motion st h p q) = own_grab st q \<and>
        ptr_focus st (inner_motion st h p q) = map_option fst h) \<and>
     (\<forall>c b q. own_grab st (inner_button st c b q) = own_grab st q) \<and>
     (\<forall>q. own_grab st (unset_grab st q) = None) \<and>
     (\<forall>n m q. own_grab st (set_move_grab st n m q) = Some m)"

definition drag :: "('sp, 'p) rig \<Rightarrow> (hit option \<times> fpoint) list \<Rightarrow> ('sp, 'p) desktop \<Rightarrow> ('sp, 'p) desktop" where
  "drag g = fold (\<lambda>(h, p). ptr_motion g h p)"

definition drag_target :: "('sp, 'p) rig \<Rightarrow> move_grab \<Rightarrow> fpoint \<Rightarrow> point" where
  "drag_target g m p = p_round (g_fl g) (p_add (g_fl g) (p_of (g_fl g) (mg_initial m)) (p_sub (g_fl g) p (mg_start m)))"

text \<open>The windows of the active space with their places, and everything a drag leaves alone.\<close>

definition at_place :: "'sp env \<Rightarrow> 'sp emskin \<Rightarrow> window \<Rightarrow> point option" where
  "at_place e s = sp_location e (active_space (c_ws s))"

definition drag_same :: "'sp emskin \<Rightarrow> 'sp emskin \<Rightarrow> bool" where
  "drag_same s s' \<longleftrightarrow> c_keyboard s' = c_keyboard s \<and> c_focus s' = c_focus s \<and> c_apps s' = c_apps s \<and>
     c_calls s' = c_calls s \<and> c_ipc s' = c_ipc s \<and> inactive (c_ws s') = inactive (c_ws s) \<and>
     active_id (c_ws s') = active_id (c_ws s)"

lemma drag_same_trans: "drag_same s s' \<Longrightarrow> drag_same s' s'' \<Longrightarrow> drag_same s s''"
  by (simp add: drag_same_def)

lemma drag_step:
  assumes "drag_laws (g_seat g)" and "space_laws (g_env g)" and "own_grab (g_seat g) (d_seat d) = Some m"
  shows "own_grab (g_seat g) (d_seat (ptr_motion g h p d)) = Some m"
    and "at_place (g_env g) (d_em (ptr_motion g h p d)) = (at_place (g_env g) (d_em d))(mg_window m \<mapsto> drag_target g m p)"
    and "ptr_focus (g_seat g) (d_seat (ptr_motion g h p d)) = None"
    and "drag_same (d_em d) (d_em (ptr_motion g h p d))"
  using assms
  by (simp_all add: ptr_motion_def grab_motion_def drag_laws_def space_laws_def at_place_def Let_def drag_target_def
      drag_same_def on_space_def on_ws_def fun_eq_iff)

lemma drag_runs:
  assumes "drag_laws (g_seat g)" and "space_laws (g_env g)"
  shows "own_grab (g_seat g) (d_seat d) = Some m \<Longrightarrow>
    own_grab (g_seat g) (d_seat (drag g ps d)) = Some m \<and> drag_same (d_em d) (d_em (drag g ps d)) \<and>
    at_place (g_env g) (d_em (drag g ps d)) =
      (if ps = [] then at_place (g_env g) (d_em d)
       else (at_place (g_env g) (d_em d))(mg_window m \<mapsto> drag_target g m (snd (last ps))))"
proof (induction ps arbitrary: d)
  case (Cons x ps)
  obtain h p where x: "x = (h, p)" by (cases x)
  note step = drag_step [OF assms Cons.prems, of h p]
  have "drag g (x # ps) d = drag g ps (ptr_motion g h p d)" by (simp add: drag_def x)
  then show ?case using Cons.IH [OF step(1)] step drag_same_trans [OF step(4)] by (auto simp: x fun_eq_iff)
qed (simp add: drag_def drag_same_def)

section \<open>A concrete seat\<close>

text \<open>A window is a square of side 100 at its place; smithay's own
  grab lasts while a button is pressed; a constraint is forgotten when the focus changes.\<close>

definition in_square :: "fpoint \<Rightarrow> bool" where
  "in_square p \<longleftrightarrow> 0 \<le> sint (fst p) \<and> sint (fst p) < 100 \<and> 0 \<le> sint (snd p) \<and> sint (snd p) < 100"

definition demo_hits :: "demo_space hits" where
  "demo_hits = \<lparr>under_window = (\<lambda>w p. if in_square p then Some (w, (0, 0)) else None),
     element_under = (\<lambda>(es, os) p. find (\<lambda>(w, l). in_square (p_sub demo_floats p (p_of demo_floats l))) (rev es)),
     layer_under = (\<lambda>o' l p. None), layer_geometry = (\<lambda>o' s. None), under_layer = (\<lambda>s p. None)\<rparr>"

record demo_ptr =
  dp_location :: fpoint
  dp_focus :: "surface option"
  dp_start :: fpoint
  dp_pressed :: "u32 list"
  dp_own :: "move_grab option"
  dp_constraint :: "(surface \<times> constraint) list"

definition demo_move :: "hit option \<Rightarrow> fpoint \<Rightarrow> demo_ptr \<Rightarrow> demo_ptr" where
  "demo_move h p q = q\<lparr>dp_location := p, dp_focus := map_option fst h,
     dp_constraint := (if dp_focus q = map_option fst h then dp_constraint q else [])\<rparr>"

definition demo_click :: "u32 \<Rightarrow> bool \<Rightarrow> demo_ptr \<Rightarrow> demo_ptr" where
  "demo_click c b q =
     (if b then q\<lparr>dp_start := (if dp_pressed q = [] then dp_location q else dp_start q), dp_pressed := c # dp_pressed q\<rparr>
      else q\<lparr>dp_pressed := removeAll c (dp_pressed q)\<rparr>)"

definition demo_seat :: "demo_ptr seat" where
  "demo_seat = \<lparr>ptr_location = dp_location, ptr_focus = dp_focus,
     ptr_grabbed = (\<lambda>q. dp_pressed q \<noteq> [] \<or> dp_own q \<noteq> None),
     ptr_has_grab = (\<lambda>n q. dp_pressed q \<noteq> []),
     grab_start = (\<lambda>q. if dp_pressed q = [] then None else Some (dp_start q, dp_focus q)),
     own_grab = dp_own, pressed_buttons = dp_pressed,
     seat_motion = demo_move, seat_button = demo_click, inner_motion = demo_move, inner_button = demo_click,
     unset_grab = (\<lambda>q. q\<lparr>dp_own := None\<rparr>), set_move_grab = (\<lambda>n m q. q\<lparr>dp_own := Some m\<rparr>),
     set_location = (\<lambda>p q. q\<lparr>dp_location := p\<rparr>),
     constraint_of = (\<lambda>s q. map_of (dp_constraint q) s),
     activate = (\<lambda>s q. q\<lparr>dp_constraint := map (\<lambda>(s', c). (s', if s' = s then c\<lparr>cn_active := True\<rparr> else c)) (dp_constraint q)\<rparr>),
     kb_grabbed = (\<lambda>q. False), kb_has_grab = (\<lambda>n q. False), grab_popup = (\<lambda>t s n q. (None, q)),
     ungrab_popup = (\<lambda>pg q. q), kb_popup_grab = (\<lambda>pg n q. q), ptr_popup_grab = (\<lambda>pg n q. q)\<rparr>"

definition demo_rig :: "(demo_space, demo_ptr) rig" where
  "demo_rig = \<lparr>g_env = demo_env, g_fl = demo_floats, g_hits = demo_hits, g_seat = demo_seat\<rparr>"

lemma demo_rig_parts [simp]:
  "g_env demo_rig = demo_env" "g_fl demo_rig = demo_floats" "g_hits demo_rig = demo_hits" "g_seat demo_rig = demo_seat"
  by (simp_all add: demo_rig_def)

lemma demo_motion_laws: "motion_laws demo_seat"
  by (auto simp: motion_laws_def demo_seat_def demo_move_def)

lemma demo_drag_laws: "drag_laws demo_seat"
  by (simp add: drag_laws_def demo_seat_def demo_move_def demo_click_def)

text \<open>Emacs shows surface 1 at the origin, above it the dialog 20 of another client at (200, 100);
  the skeleton has a label at (300, 300).\<close>

definition demo_label :: sk_entry where
  "demo_label = entry_new\<lparr>has_label := True, panel_pos := (300, 300), label_size := (20, 10)\<rparr>"

definition demo_desktop :: "demo_ptr \<Rightarrow> (demo_space, demo_ptr) desktop" where
  "demo_desktop q = \<lparr>d_em = (emskin_new demo_env True demo_emacs)
     \<lparr>c_ws := (c_ws (emskin_new demo_env True demo_emacs))\<lparr>active_space := ([(1, (0, 0)), (20, (200, 100))], [7])\<rparr>,
       c_emacs := (emacs_new True)\<lparr>em_surface := Some 1\<rparr>, c_dialogs := [20], c_keyboard := Some (FWindow 1),
       c_effects := effects_default\<lparr>fx_skeleton := skeleton_new\<lparr>sk_enabled := True, sk_entries := [demo_label]\<rparr>\<rparr>\<rparr>,
     d_seat = q, d_events = []\<rparr>"

definition demo_pointer :: "fpoint \<Rightarrow> surface option \<Rightarrow> demo_ptr" where
  "demo_pointer p f = \<lparr>dp_location = p, dp_focus = f, dp_start = (0, 0), dp_pressed = [], dp_own = None, dp_constraint = []\<rparr>"

lemma demo_desktop_parts:
  "active_space (c_ws (d_em (demo_desktop q))) = ([(1, (0, 0)), (20, (200, 100))], [7])"
  "am_windows (c_apps (d_em (demo_desktop q))) = []" "child_frame_rects (c_emacs (d_em (demo_desktop q))) = []"
  "em_surface (c_emacs (d_em (demo_desktop q))) = Some 1" "c_dialogs (d_em (demo_desktop q)) = [20]"
  "d_seat (demo_desktop q) = q" "d_events (demo_desktop q) = []" "prev_raw (demo_desktop q) = None"
  "fx_skeleton (c_effects (d_em (demo_desktop q))) = skeleton_new\<lparr>sk_enabled := True, sk_entries := [demo_label]\<rparr>"
  "absorbed (demo_desktop q) = False" "c_keyboard (d_em (demo_desktop q)) = Some (FWindow 1)"
  by (simp_all add: demo_desktop_def emskin_new_def app_manager_default_def emacs_new_def prev_raw_def cursor_default_def
      absorbed_def effects_default_def)

lemma demo_no_apps: "app_values demo_env (c_apps (d_em (demo_desktop q))) = []"
  using demo_order_laws by (simp add: app_values_def demo_desktop_parts order_laws_def)

lemma demo_under:
  "under demo_rig p (demo_desktop q) =
     (if in_square (p_sub demo_floats p (p_of demo_floats (200, 100))) then Some (20, p_of demo_floats (200, 100))
      else if in_square (p_sub demo_floats p (p_of demo_floats (0, 0))) then Some (1, p_of demo_floats (0, 0)) else None)"
proof -
  let ?s = "d_em (demo_desktop q)"
  have "\<not> is_in_child_frame demo_floats p (c_emacs ?s)"
    by (simp add: is_in_child_frame_def demo_desktop_parts)
  moreover have "mirror_source demo_env demo_floats p ?s = None"
    by (simp add: mirror_source_def mirror_under_def demo_no_apps)
  moreover have "layer_surface_under demo_env demo_floats demo_hits p ?s = None"
    by (simp add: layer_surface_under_def demo_hits_def split: option.split)
  moreover have "element_under demo_hits (active_space (c_ws ?s)) p =
      (if in_square (p_sub demo_floats p (p_of demo_floats (200, 100))) then Some (20, (200, 100))
       else if in_square (p_sub demo_floats p (p_of demo_floats (0, 0))) then Some (1, (0, 0)) else None)"
    by (simp add: demo_hits_def demo_desktop_parts)
  ultimately show ?thesis
    by (simp add: under_def surface_under_def window_hit_def)
      (simp add: demo_hits_def plus_point_def)
qed

lemmas demo_parts = demo_desktop_parts demo_under

section \<open>Properties\<close>

text \<open>C30. 
  While the surface under the pointer holds an active lock without a region, no sequence of
  host positions moves the pointer or changes its focus, grab or constraints; the client is still
  told every raw movement, the differences of the host's successive positions.
\<close>

theorem locked_pointer:
  assumes "locked_on g wl d" and "d_events d = []"
  shows "d_seat (motions g ps d) = d_seat d \<and>
     relative_of (d_events (motions g ps d)) = deltas g (prev_raw d) (map fst ps)"
  using locked_motions [OF assms(1)] motions_relative [of g ps d] by (simp add: assms(2))

definition demo_lock :: "(demo_space, demo_ptr) desktop" where
  "demo_lock = demo_desktop ((demo_pointer (5, 5) (Some 1))
     \<lparr>dp_constraint := [(1, \<lparr>cn_kind = Locked, cn_active = True, cn_region = None\<rparr>)]\<rparr>)"

theorem locked_pointer_witness:
  "dp_location (d_seat (motions demo_rig [((7, 5), 1), ((400, 5), 2), ((401, 9), 3)] demo_lock)) = (5, 5) \<and>
   relative_of (d_events (motions demo_rig [((7, 5), 1), ((400, 5), 2), ((401, 9), 3)] demo_lock)) =
     [(0, 0), (393, 0), (1, 4)]"
proof -
  have l: "locked_on demo_rig 1 demo_lock" "d_events demo_lock = []" "prev_raw demo_lock = None"
    by (simp_all add: locked_on_def demo_lock_def demo_parts demo_pointer_def demo_seat_def)
  show ?thesis
    using locked_pointer [OF l(1,2), where ps = "[((7, 5), 1), ((400, 5), 2), ((401, 9), 3)]"] l(3)
    by (simp add: raw_delta_def p_sub_def demo_floats_def) (simp add: demo_lock_def demo_parts demo_pointer_def)
qed

text \<open>
  C22. A confined pointer stays on its surface, and inside the constraint's region if it has one,
  over any sequence of host positions: the constraint stays active and the last position the
  pointer took is over the surface. With a region the surface must be drawn in one place only: a
  mirror of it shows it at another place, and the test of the region uses that place.
\<close>

theorem confined_pointer:
  assumes "motion_laws (g_seat g)" and "confined_on g wl region d"
    and "region = None \<or> fixed_at g wl l d"
  shows "confined_on g wl region (motions g ps d)"
  using confined_motions [OF assms(1,2)] assms(3) by blast

definition demo_confined :: "(demo_space, demo_ptr) desktop" where
  "demo_confined = demo_desktop ((demo_pointer (205, 105) (Some 20))
     \<lparr>dp_constraint := [(20, \<lparr>cn_kind = Confined, cn_active = True, cn_region = None\<rparr>)]\<rparr>)"

theorem confined_pointer_witness:
  "confined_on demo_rig 20 None (motions demo_rig [((210, 190), 1), ((400, 5), 2)] demo_confined)"
proof -
  have "confined_on demo_rig 20 None demo_confined"
    by (simp add: confined_on_def inside_def leaves_def demo_confined_def demo_parts hit_of_def)
      (simp add: demo_pointer_def demo_seat_def in_square_def p_sub_def p_of_def demo_floats_def)
  then show ?thesis
    using confined_pointer [of demo_rig 20 None demo_confined, where ps = "[((210, 190), 1), ((400, 5), 2)]"] demo_motion_laws
    by simp
qed

text \<open>
  C23. As long as one button is used, whatever keys, motion and scrolling come in between, the
  clients see alternating presses and releases, starting with a press: no release reaches them
  without its press, and a press is swallowed by the skeleton together with its release.
\<close>

theorem clicks_paired:
  assumes "alternating c False (input_buttons evs)" and "\<not> absorbed d" and "d_events d = []"
  shows "alternating c False (buttons_of (d_events (inputs g name evs d))) \<and>
    (\<not> held_after False (input_buttons evs) \<longrightarrow>
       \<not> absorbed (inputs g name evs d) \<and> \<not> held_after False (buttons_of (d_events (inputs g name evs d))))"
  using paired_inputs [of c False d evs g name] assms by (auto simp: paired_def)

lemma demo_label_hit:
  "fst (skeleton_press demo_rig (demo_desktop (demo_pointer (305, 305) None)))"
  by (simp add: skeleton_press_def demo_parts demo_seat_def)
    (simp add: demo_pointer_def demo_floats_def click_at_def in_label_def demo_label_def split: prod.split)

theorem clicks_paired_witness:
  "alternating BTN_LEFT False (buttons_of (d_events (inputs demo_rig (\<lambda>_. [])
     [PointerButton BTN_LEFT True, PointerAbsolute (\<lambda>_. (50, 50)) 1, PointerButton BTN_LEFT False,
      PointerButton BTN_LEFT True] (demo_desktop (demo_pointer (305, 305) None)))))"
  using clicks_paired [of BTN_LEFT "[PointerButton BTN_LEFT True, PointerAbsolute (\<lambda>_. (50, 50)) 1,
      PointerButton BTN_LEFT False, PointerButton BTN_LEFT True]" "demo_desktop (demo_pointer (305, 305) None)" demo_rig "\<lambda>_. []"]
  by (simp add: demo_parts)

text \<open>
  C31. The flag of a swallowed press does not say which button it was: with a left press on a
  label, a press and release of another button before the left release, the client sees the other
  button pressed and never released, then a left release without its press.
\<close>

theorem mixed_buttons:
  assumes "fst (skeleton_press g d)" and "c \<noteq> BTN_LEFT" and "d_events d = []"
  shows "buttons_of (d_events (inputs g name [PointerButton BTN_LEFT True, PointerButton c True,
      PointerButton c False, PointerButton BTN_LEFT False] d)) = [(c, True), (BTN_LEFT, False)]"
  using assms by (simp add: inputs_def process_input_event_def button_event_press button_event_release)

theorem mixed_buttons_witness:
  "buttons_of (d_events (inputs demo_rig (\<lambda>_. []) [PointerButton BTN_LEFT True, PointerButton 0x111 True,
      PointerButton 0x111 False, PointerButton BTN_LEFT False] (demo_desktop (demo_pointer (305, 305) None)))) =
    [(0x111, True), (BTN_LEFT, False)]"
  using mixed_buttons [OF demo_label_hit, of "0x111" "\<lambda>_. []"] by (simp add: demo_parts BTN_LEFT_def)

text \<open>
  A drag starts only for a floating dialog, asked for by the client that owns the click in
  progress. From then on the dialog is where the last pointer position put it, at its first place
  plus the way of the pointer, without drift however the motion was cut into events; nothing is
  hovered, and nothing else of the compositor changes. The drag ends with the last button released.
\<close>

lemma move_request_grab:
  assumes "drag_laws (g_seat g)" and "own_grab (g_seat g) (d_seat d) = None"
    and "own_grab (g_seat g) (d_seat (move_request g wl serial d)) = Some m"
  shows "mg_window m \<in> set (c_dialogs (d_em d)) \<and> win_surface (g_env g) (mg_window m) = Some wl \<and>
    ptr_has_grab (g_seat g) serial (d_seat d) \<and> at_place (g_env g) (d_em d) (mg_window m) = Some (mg_initial m) \<and>
    d_em (move_request g wl serial d) = d_em d \<and>
    (\<exists>s. grab_start (g_seat g) (d_seat d) = Some (mg_start m, Some s) \<and> same_client (g_env g) s wl)"
  using assms
  by (auto simp: move_request_def Let_def at_place_def drag_laws_def find_Some_iff split: option.splits if_splits prod.splits)

theorem dialog_drag:
  assumes "drag_laws (g_seat g)" and "space_laws (g_env g)" and "own_grab (g_seat g) (d_seat d) = None"
    and "own_grab (g_seat g) (d_seat (move_request g wl serial d)) = Some m"
  shows "mg_window m \<in> set (c_dialogs (d_em d)) \<and> ptr_has_grab (g_seat g) serial (d_seat d) \<and>
    at_place (g_env g) (d_em (drag g (ps @ [(h, p)]) (move_request g wl serial d))) =
      (at_place (g_env g) (d_em d))(mg_window m \<mapsto> drag_target g m p) \<and>
    drag_same (d_em d) (d_em (drag g (ps @ [(h, p)]) (move_request g wl serial d))) \<and>
    (let d' = ptr_button g c b (drag g (ps @ [(h, p)]) (move_request g wl serial d)) in
      own_grab (g_seat g) (d_seat d') =
        (if pressed_buttons (g_seat g) (inner_button (g_seat g) c b
              (d_seat (drag g (ps @ [(h, p)]) (move_request g wl serial d)))) = [] then None else Some m))"
proof -
  note start = move_request_grab [OF assms(1,3,4)]
  note run = drag_runs [OF assms(1,2,4), of "ps @ [(h, p)]"]
  show ?thesis
    using start run assms(1) by (simp add: ptr_button_def grab_button_def drag_laws_def Let_def)
qed

definition demo_held :: demo_ptr where
  "demo_held = (demo_pointer (210, 110) (Some 20))\<lparr>dp_start := (210, 110), dp_pressed := [BTN_LEFT]\<rparr>"

theorem dialog_drag_witness:
  "at_place demo_env (d_em (drag demo_rig ([(None, (0, 0))] @ [(None, (250, 90))]) (move_request demo_rig 20 1 (demo_desktop demo_held)))) 20 =
     Some (240, 80)"
proof -
  let ?m = "\<lparr>mg_start = (210, 110), mg_window = 20, mg_initial = (200, 100)\<rparr>"
  have "own_grab demo_seat (d_seat (move_request demo_rig 20 1 (demo_desktop demo_held))) = Some ?m"
    by (simp add: move_request_def demo_parts demo_env_def)
      (simp add: demo_held_def demo_pointer_def demo_seat_def demo_parts)
  moreover have "own_grab demo_seat (d_seat (demo_desktop demo_held)) = None"
    by (simp add: demo_parts demo_held_def demo_pointer_def demo_seat_def)
  ultimately show ?thesis
    using dialog_drag [of demo_rig "demo_desktop demo_held" 20 1 ?m "[(None, (0, 0))]" None "(250, 90)"]
      demo_drag_laws demo_space_laws
    by (simp add: drag_target_def demo_floats_def p_round_def p_add_def p_sub_def p_of_def)
qed

lemma click_view_ime: "c_ime (click_view g pos u s) = c_ime s"
  by (simp add: click_view_def send_def split: option.split prod.split)

lemma click_focus_spec:
  assumes "focus_laws e"
  shows "if target_same_client e (c_keyboard s) t then click_focus e t s = s
    else c_keyboard (click_focus e t s) = t \<and> \<not> is_active Prefix (c_focus (click_focus e t s)) \<and>
      \<not> prefix_active (c_ime (click_focus e t s)) \<and>
      (\<forall>k. k \<noteq> Prefix \<longrightarrow> map_of (c_focus (click_focus e t s)) k = map_of (c_focus s) k)"
  using set_focus_without_grab [OF assms, of t s]
  by (simp add: click_focus_def Let_def focus_exit_def is_active_def delete_conv')
    (simp add: on_ime_def set_prefix_active)

text \<open>
  C32. A press outside any grab gives the keyboard to the target under the pointer, or to Emacs when
  there is none, ends a prefix chord and lets the host's input method on again. A press on
  another surface of the client that has the keyboard changes nothing of this, so that a menu is
  not dismissed by the click on it.
\<close>

theorem click_moves_keyboard:
  assumes "focus_laws (g_env g)"
  shows "let s = d_em d; s' = d_em (press_ungrabbed g code d);
      t = click_target (g_env g) (map_option fst (under g (ptr_location (g_seat g) (d_seat d)) d)) s in
    if target_same_client (g_env g) (c_keyboard s) t
    then c_keyboard s' = c_keyboard s \<and> c_focus s' = c_focus s \<and> c_ime s' = c_ime s
    else c_keyboard s' = t \<and> \<not> is_active Prefix (c_focus s') \<and> \<not> prefix_active (c_ime s') \<and>
      (\<forall>k. k \<noteq> Prefix \<longrightarrow> map_of (c_focus s') k = map_of (c_focus s) k)"
proof -
  let ?s = "d_em d" and ?u = "map_option fst (under g (ptr_location (g_seat g) (d_seat d)) d)"
  obtain s1 where s1: "d_em (press_ungrabbed g code d) = click_focus (g_env g) (click_target (g_env g) ?u ?s) s1"
    "c_keyboard s1 = c_keyboard ?s" "c_focus s1 = c_focus ?s" "c_ime s1 = c_ime ?s"
  proof
    let ?v = "if code = BTN_LEFT then click_view g (ptr_location (g_seat g) (d_seat d)) ?u ?s else ?s"
    show "d_em (press_ungrabbed g code d) = click_focus (g_env g) (click_target (g_env g) ?u ?s) ?v"
      by (simp add: press_ungrabbed_def Let_def)
  qed (simp_all add: click_view_ime)
  show ?thesis using click_focus_spec [OF assms, of s1] by (simp add: s1 Let_def)
qed

lemma demo_other_client: "\<not> target_same_client demo_env (Some (FWindow 1)) (Some (FWindow 20))"
  by (simp add: demo_env_def)

theorem click_moves_keyboard_witness:
  "c_keyboard (d_em (press_ungrabbed demo_rig BTN_LEFT (demo_desktop (demo_pointer (210, 110) (Some 20))))) = Some (FWindow 20)"
proof -
  let ?d = "demo_desktop (demo_pointer (210, 110) (Some 20))"
  have "under demo_rig (210, 110) ?d = Some (20, p_of demo_floats (200, 100))"
    by (simp add: demo_under) (simp add: in_square_def p_sub_def p_of_def demo_floats_def)
  then have "click_target demo_env (map_option fst (under demo_rig (ptr_location demo_seat (d_seat ?d)) ?d)) (d_em ?d) = Some (FWindow 20)"
    by (simp add: demo_desktop_parts demo_seat_def demo_pointer_def click_target_def focus_target_for_surface_def first_output_def demo_env_def demo_shell_def)
  then show ?thesis
    using click_moves_keyboard [of demo_rig ?d BTN_LEFT] demo_focus_laws
      demo_other_client by (simp add: demo_desktop_parts Let_def)
qed

text \<open>
  A constraint created while its surface has the pointer is activated wherever the pointer is, also
  outside the constraint's region, while on entry the position is tested first. The client is
  told that the lock holds, and the next motion moves the pointer all the same.
\<close>

theorem lock_outside_region:
  assumes "ptr_focus (g_seat g) (d_seat d) = Some wl" and "constraint_of (g_seat g) wl (d_seat d) = Some c"
    and "cn_region c = Some r" and "\<not> cn_active c"
    and "\<And>h. \<not> in_region g wl r h (new_constraint g wl d)"
    and "\<And>p. p \<in> {activate (g_seat g) wl (d_seat d)} \<Longrightarrow>
      ptr_focus (g_seat g) p = Some wl \<and> constraint_of (g_seat g) wl p = Some (c\<lparr>cn_active := True\<rparr>)"
  shows "constraint_active g wl (new_constraint g wl d) \<and> \<not> blocked g p h (new_constraint g wl d)"
proof -
  have n: "new_constraint g wl d = on_seat (activate (g_seat g) wl) d"
    using assms(1,2) by (simp add: new_constraint_def)
  show ?thesis
    using assms(3,5,6) by (simp add: n constraint_active_def blocked_def enforced_def active_constraint_def)
qed

end
