(* ===== verification/Dbus_Bridge.thy ===== *)
theory Dbus_Bridge
  imports Proxy Counters
begin

text \<open>
  The D-Bus side of the compositor: \<open>state/dbus.rs\<close>, and the event sources that \<open>main.rs\<close> registers around
  the broker (\<open>handle_dbus_accept\<close>, \<open>register_dbus_connection\<close>, \<open>drop_dbus_connection\<close>).

  The event loop is the list of its sources by token, each with the duplicated descriptor it owns;
  \<open>bl_closed\<close> are the duplicated descriptors that were closed. What the kernel answers is given with the
  operation that asks. Only READ sources exist, as in the program. Logging is left out.
\<close>

section \<open>State\<close>

datatype drop_side = ClientSide | UpstreamSide

datatype bus_source = BusListener | BusConn conn_id drop_side

record dbus_bridge =
  br_broker :: "dbus_broker option"
  br_listen_path :: "string option"
  br_session_dir :: "string option"
  connection_tokens :: "conn_id \<rightharpoonup> nat \<times> nat"
  isolated_daemon :: "nat option"

record bus_loop =
  bl_sources :: "(nat \<times> bus_source \<times> fd) list"
  bl_next :: nat
  bl_closed :: "fd list"

definition bridge_default :: dbus_bridge where
  "bridge_default = \<lparr>br_broker = None, br_listen_path = None, br_session_dir = None, connection_tokens = Map.empty,
     isolated_daemon = None\<rparr>"

definition bus_insert :: "bus_source \<Rightarrow> fd \<Rightarrow> bus_loop \<Rightarrow> nat \<times> bus_loop" where
  "bus_insert src f l = (bl_next l, l\<lparr>bl_sources := bl_sources l @ [(bl_next l, src, f)], bl_next := bl_next l + 1\<rparr>)"

definition bus_close :: "fd list \<Rightarrow> bus_loop \<Rightarrow> bus_loop" where
  "bus_close fs l = l\<lparr>bl_closed := bl_closed l @ fs\<rparr>"

text \<open>Removing a source closes its descriptor.\<close>

definition bus_remove :: "nat \<Rightarrow> bus_loop \<Rightarrow> bus_loop" where
  "bus_remove t l = bus_close (map (\<lambda>(_, _, f). f) (filter (\<lambda>(t', _). t' = t) (bl_sources l)))
     (l\<lparr>bl_sources := filter (\<lambda>(t', _). t' \<noteq> t) (bl_sources l)\<rparr>)"

text \<open>The values that are there.\<close>

fun somes :: "'a option list \<Rightarrow> 'a list" where
  "somes [] = []"
| "somes (None # xs) = somes xs"
| "somes (Some x # xs) = x # somes xs"

section \<open>Connections\<close>

definition on_broker :: "(dbus_broker \<Rightarrow> dbus_broker) \<Rightarrow> dbus_bridge \<Rightarrow> dbus_bridge" where
  "on_broker f br = br\<lparr>br_broker := map_option f (br_broker br)\<rparr>"

text \<open>\<open>None\<close> is a failed \<open>dup\<close>; the two flags say whether the loop takes the source.\<close>

record register_answers =
  ra_dup_client :: "fd option"
  ra_dup_upstream :: "fd option"
  ra_insert_client :: bool
  ra_insert_upstream :: bool

definition register_dbus_connection ::
  "register_answers \<Rightarrow> conn_id \<Rightarrow> dbus_bridge \<Rightarrow> bus_loop \<Rightarrow> dbus_bridge \<times> bus_loop" where
  "register_dbus_connection ra i br l =
     (case (ra_dup_client ra, ra_dup_upstream ra) of
        (Some cf, Some uf) \<Rightarrow>
          if \<not> ra_insert_client ra then (on_broker (remove_connection i) br, bus_close [cf, uf] l)
          else
            (let (c, l1) = bus_insert (BusConn i ClientSide) cf l in
             if \<not> ra_insert_upstream ra then (on_broker (remove_connection i) br, bus_remove c (bus_close [uf] l1))
             else
               (let (u, l2) = bus_insert (BusConn i UpstreamSide) uf l1 in
                (br\<lparr>connection_tokens := (connection_tokens br)(i \<mapsto> (c, u))\<rparr>, l2)))
      | (c, u) \<Rightarrow> (on_broker (remove_connection i) br, bus_close (somes [c, u]) l))"

record accept_answers =
  an_accept :: "io_error + socket"
  an_dial :: "io_error + socket"
  an_nonblocking :: "io_error + unit"
  an_register :: register_answers

text \<open>The accept loop, given the answers in turn; when they are used up the listener would block.\<close>

fun handle_dbus_accept :: "accept_answers list \<Rightarrow> dbus_bridge \<Rightarrow> bus_loop \<Rightarrow> dbus_bridge \<times> bus_loop" where
  "handle_dbus_accept [] br l = (br, l)"
| "handle_dbus_accept (an # ans) br l =
     (case br_broker br of
        None \<Rightarrow> (br, l)
      | Some b \<Rightarrow>
          (case accept_one (an_accept an) (an_dial an) (an_nonblocking an) b of
             (Inr (Some i), b1) \<Rightarrow>
               (case register_dbus_connection (an_register an) i (br\<lparr>br_broker := Some b1\<rparr>) l of
                  (br2, l2) \<Rightarrow> handle_dbus_accept ans br2 l2)
           | (_, b1) \<Rightarrow> (br\<lparr>br_broker := Some b1\<rparr>, l)))"

definition drop_dbus_connection :: "conn_id \<Rightarrow> drop_side \<Rightarrow> dbus_bridge \<Rightarrow> bus_loop \<Rightarrow> dbus_bridge \<times> bus_loop" where
  "drop_dbus_connection i side br l =
     (let l1 = (case connection_tokens br i of
            None \<Rightarrow> l
          | Some (c, u) \<Rightarrow> bus_remove (case side of ClientSide \<Rightarrow> u | UpstreamSide \<Rightarrow> c) l) in
      (on_broker (remove_connection i) (br\<lparr>connection_tokens := (connection_tokens br)(i := None)\<rparr>), l1))"

text \<open>
  The callbacks of the sources, with the removal a \<open>PostAction\<close> asks for; the outer \<open>None\<close> is the panic that
  building a reply can raise.
\<close>

definition pump :: "zvariant \<Rightarrow> fp_ops \<Rightarrow> conn_id \<Rightarrow> drop_side \<Rightarrow> dbus_broker \<Rightarrow>
    ((io_error + pump_outcome) \<times> dbus_broker) option" where
  "pump zv fp i side b =
     (case side of ClientSide \<Rightarrow> pump_client_to_upstream zv fp i b | UpstreamSide \<Rightarrow> Some (pump_upstream_to_client zv i b))"

definition bus_conn_ready ::
  "zvariant \<Rightarrow> fp_ops \<Rightarrow> nat \<Rightarrow> conn_id \<Rightarrow> drop_side \<Rightarrow> dbus_bridge \<Rightarrow> bus_loop \<Rightarrow> (dbus_bridge \<times> bus_loop) option" where
  "bus_conn_ready zv fp t i side br l =
     (case br_broker br of
        None \<Rightarrow> Some (br, bus_remove t l)
      | Some b \<Rightarrow>
          map_option (\<lambda>(r, b1).
            let br1 = br\<lparr>br_broker := Some b1\<rparr> in
            if r = Inr Active then (br1, l)
            else case drop_dbus_connection i side br1 l of (br2, l2) \<Rightarrow> (br2, bus_remove t l2))
          (pump zv fp i side b))"

definition bus_ready ::
  "zvariant \<Rightarrow> fp_ops \<Rightarrow> nat \<Rightarrow> accept_answers list \<Rightarrow> dbus_bridge \<Rightarrow> bus_loop \<Rightarrow> (dbus_bridge \<times> bus_loop) option" where
  "bus_ready zv fp t ans br l =
     (case map_of (bl_sources l) t of
        None \<Rightarrow> Some (br, l)
      | Some (BusListener, _) \<Rightarrow> Some (handle_dbus_accept ans br l)
      | Some (BusConn i side, _) \<Rightarrow> bus_conn_ready zv fp t i side br l)"

text \<open>\<open>register_dbus_listen_source\<close>: \<open>None\<close> is its error.\<close>

definition register_dbus_listen_source :: "fd option \<Rightarrow> bool \<Rightarrow> dbus_bridge \<Rightarrow> bus_loop \<Rightarrow> bus_loop option" where
  "register_dbus_listen_source dup inserted br l =
     (case br_broker br of
        None \<Rightarrow> Some l
      | Some _ \<Rightarrow>
          (case dup of
             None \<Rightarrow> None
           | Some f \<Rightarrow> if inserted then Some (snd (bus_insert BusListener f l)) else None))"

section \<open>Addresses and environments\<close>

definition format_bus_address :: "string \<Rightarrow> string" where
  "format_bus_address p = ''unix:path='' @ p"

definition inject_env :: "dbus_bridge \<Rightarrow> (string \<times> string) list \<Rightarrow> (string \<times> string) list" where
  "inject_env br env =
     (case br_listen_path br of None \<Rightarrow> env | Some p \<Rightarrow> env @ [(''DBUS_SESSION_BUS_ADDRESS'', ''unix:path='' @ p)])"

section \<open>Start-up and shutdown\<close>

text \<open>The directories made and the daemons running, as far as the bridge makes them.\<close>

record bus_host =
  bh_dirs :: "string list"
  bh_daemons :: "nat list"

definition join :: "string \<Rightarrow> string \<Rightarrow> string" where
  "join d f = d @ CHR ''/'' # f"

definition create_session_dir :: "string option \<Rightarrow> nat \<Rightarrow> bool \<Rightarrow> bus_host \<Rightarrow> string option \<times> bus_host" where
  "create_session_dir xdg_runtime_dir pid ok h =
     (let d = join (case xdg_runtime_dir of None \<Rightarrow> ''/tmp'' | Some r \<Rightarrow> r) (''emskin-dbus-'' @ decimal pid) in
      if ok then (Some d, h\<lparr>bh_dirs := d # bh_dirs h\<rparr>) else (None, h))"

definition remove_dir_all :: "string \<Rightarrow> bus_host \<Rightarrow> bus_host" where
  "remove_dir_all d h = h\<lparr>bh_dirs := removeAll d (bh_dirs h)\<rparr>"

definition kill_daemon :: "nat \<Rightarrow> bus_host \<Rightarrow> bus_host" where
  "kill_daemon p h = h\<lparr>bh_daemons := removeAll p (bh_daemons h)\<rparr>"

definition live_bridge :: "string \<Rightarrow> nat option \<Rightarrow> dbus_bridge" where
  "live_bridge d daemon = \<lparr>br_broker = Some broker_bind, br_listen_path = Some (join d ''bus.sock''), br_session_dir = Some d,
     connection_tokens = Map.empty, isolated_daemon = daemon\<rparr>"

text \<open>\<open>DbusBridge::init\<close>: the address in the environment, and whether the directory and the socket can be made.\<close>

definition bridge_init ::
  "string option \<Rightarrow> string option \<Rightarrow> nat \<Rightarrow> bool \<Rightarrow> bool \<Rightarrow> bus_host \<Rightarrow> dbus_bridge \<times> bus_host" where
  "bridge_init address xdg pid dir_ok bind_ok h =
     (case Option.bind address parse_unix_bus_address of
        None \<Rightarrow> (bridge_default, h)
      | Some upstream \<Rightarrow>
          (case create_session_dir xdg pid dir_ok h of
             (None, h1) \<Rightarrow> (bridge_default, h1)
           | (Some d, h1) \<Rightarrow>
               if bind_ok then (live_bridge d None, h1) else (bridge_default, remove_dir_all d h1)))"

definition TIMEOUT :: nat where "TIMEOUT = 3000"
definition POLL_INTERVAL :: nat where "POLL_INTERVAL = 25"

datatype daemon_error = TryWaitFailed | ExitedEarly i32 | SocketTimedOut

text \<open>
  One turn of \<open>wait_for_daemon_socket\<close>: whether the socket exists, the answer of \<open>try_wait\<close>, and the time since
  the start in milliseconds. \<open>None\<close> is a loop that has not ended with these turns.
\<close>

record daemon_poll =
  dp_exists :: bool
  dp_wait :: "unit + i32 option"
  dp_elapsed :: nat

fun wait_for_daemon_socket :: "daemon_poll list \<Rightarrow> (daemon_error + unit) option" where
  "wait_for_daemon_socket [] = None"
| "wait_for_daemon_socket (p # ps) =
     (if dp_exists p then Some (Inr ())
      else case dp_wait p of
        Inl _ \<Rightarrow> Some (Inl TryWaitFailed)
      | Inr (Some status) \<Rightarrow> Some (Inl (ExitedEarly status))
      | Inr None \<Rightarrow> if TIMEOUT < dp_elapsed p then Some (Inl SocketTimedOut) else wait_for_daemon_socket ps)"

definition text_lines :: "string list \<Rightarrow> string" where
  "text_lines ls = concat (map (\<lambda>l. l @ [CHR 0x0A]) ls)"

definition session_config :: "string \<Rightarrow> string \<Rightarrow> string" where
  \<open>session_config services_dir sock = text_lines
     [''<!DOCTYPE busconfig PUBLIC "-//freedesktop//DTD D-Bus Bus Configuration 1.0//EN"'',
      '' "http://www.freedesktop.org/standards/dbus/1.0/busconfig.dtd">'',
      ''<busconfig>'',
      ''  <type>session</type>'',
      ''  <listen>unix:path='' @ sock @ ''</listen>'',
      ''  <auth>EXTERNAL</auth>'',
      ''  <servicedir>'' @ services_dir @ ''</servicedir>'',
      ''  <policy context="default">'',
      ''    <allow send_destination="*" eavesdrop="true"/>'',
      ''    <allow eavesdrop="true"/>'',
      ''    <allow own="*"/>'',
      ''  </policy>'',
      ''  <limit name="reply_timeout">300000</limit>'',
      ''</busconfig>'']\<close>

definition daemon_args :: "string \<Rightarrow> string list" where
  "daemon_args config_path = [''--nofork'', ''--config-file='' @ config_path]"

text \<open>
  \<open>DbusBridge::init_isolated\<close>, given how the directory, the configuration, the daemon (its pid), the wait for its
  socket and the bind turn out.
\<close>

record isolated_answers =
  ia_dir :: bool
  ia_config :: bool
  ia_daemon :: "nat option"
  ia_wait :: "daemon_error + unit"
  ia_bind :: bool

definition bridge_init_isolated ::
  "string option \<Rightarrow> nat \<Rightarrow> isolated_answers \<Rightarrow> bus_host \<Rightarrow> dbus_bridge \<times> bus_host" where
  "bridge_init_isolated xdg pid ia h =
     (case create_session_dir xdg pid (ia_dir ia) h of
        (None, h1) \<Rightarrow> (bridge_default, h1)
      | (Some d, h1) \<Rightarrow>
          if \<not> ia_config ia then (bridge_default, remove_dir_all d h1)
          else case ia_daemon ia of
            None \<Rightarrow> (bridge_default, remove_dir_all d h1)
          | Some p \<Rightarrow>
              (let h2 = h1\<lparr>bh_daemons := p # bh_daemons h1\<rparr> in
               case ia_wait ia of
                 Inl _ \<Rightarrow> (bridge_default, remove_dir_all d (kill_daemon p h2))
               | Inr _ \<Rightarrow>
                   if ia_bind ia then (live_bridge d (Some p), h2)
                   else (bridge_default, remove_dir_all d (kill_daemon p h2))))"

definition bridge_shutdown :: "dbus_bridge \<Rightarrow> bus_host \<Rightarrow> dbus_bridge \<times> bus_host" where
  "bridge_shutdown br h =
     (let h1 = (case isolated_daemon br of None \<Rightarrow> h | Some p \<Rightarrow> kill_daemon p h);
          h2 = (case br_session_dir br of None \<Rightarrow> h1 | Some d \<Rightarrow> remove_dir_all d h1) in
      (br\<lparr>br_broker := None, br_listen_path := None, isolated_daemon := None, br_session_dir := None\<rparr>, h2))"

end
