(* ===== verification/Proxy_Facts.thy ===== *)
theory Proxy_Facts
  imports Proxy
begin

text \<open>
  What the broker of \<open>Proxy\<close> guarantees. \<open>conn_run\<close> is the step relation of one connection:
  pumps, emitted signals, flushes and arbitrary kernel behaviour in between. The bytes that
  reach the bus are a function of the bytes the client sent (\<open>to_bus\<close>), the bytes that reach
  the client contain every byte the bus sent, descriptors travel with the message that
  declared them, and connection ids are never reused. Two lemmas show behaviour the code does
  not intend: a descriptor that arrives ahead of a complete message blocks the connection, and
  the bus's answers to a pipelined handshake are withheld.
\<close>

section \<open>The client's frames\<close>

definition intercepted :: "zvariant \<Rightarrow> bytes \<Rightarrow> bool" where
  "intercepted zv m = (case parse_frame zv m of Inl e \<Rightarrow> False | Inr f \<Rightarrow> classify zv f \<noteq> None)"

definition frame_events :: "zvariant \<Rightarrow> fp_ops \<Rightarrow> conn_id \<Rightarrow> bytes \<Rightarrow> fcitx_event list" where
  "frame_events zv fp i m =
     (case parse_frame zv m of
        Inl e \<Rightarrow> []
      | Inr f \<Rightarrow> (case classify zv f of None \<Rightarrow> [] | Some fm \<Rightarrow> emit_fcitx_event fp [] i fm))"

lemma emit_fcitx_event_append: "emit_fcitx_event fp ev i m = ev @ emit_fcitx_event fp [] i m"
  by (cases m) (simp_all add: emit_fcitx_event_def Let_def)

text \<open>The fields that observing a frame leaves alone.\<close>

lemma track_name_lookup_same [simp]:
  "upstream_out (track_name_lookup zv f c) = upstream_out c"
  "client_out (track_name_lookup zv f c) = client_out c"
  "c_upstream (track_name_lookup zv f c) = c_upstream c"
  "c_client (track_name_lookup zv f c) = c_client c"
  "c_state (track_name_lookup zv f c) = c_state c"
  "upstream_buf (track_name_lookup zv f c) = upstream_buf c"
  by (auto simp: track_name_lookup_def split: option.split)

lemma capture_destination_same [simp]:
  "upstream_out (capture_destination f c) = upstream_out c"
  "client_out (capture_destination f c) = client_out c"
  "c_upstream (capture_destination f c) = c_upstream c"
  "c_client (capture_destination f c) = c_client c"
  "c_state (capture_destination f c) = c_state c"
  "upstream_buf (capture_destination f c) = upstream_buf c"
  by (auto simp: capture_destination_def split: option.split)

definition same_streams :: "connection \<Rightarrow> connection \<Rightarrow> bool" where
  "same_streams c c' \<longleftrightarrow>
     c_upstream c' = c_upstream c \<and> c_client c' = c_client c \<and> c_state c' = c_state c \<and>
     upstream_buf c' = upstream_buf c"

lemma client_frame_spec:
  assumes "client_frame zv fp i m (c, ev) = Some (c', ev')"
  shows "map p_bytes (upstream_out c') = map p_bytes (upstream_out c) @ (if intercepted zv m then [] else [m])"
    "length (client_out c') = length (client_out c) + (if intercepted zv m then 1 else 0)"
    "ev' = ev @ frame_events zv fp i m" "same_streams c c'"
  using assms
  by (auto simp: client_frame_def intercepted_def frame_events_def same_streams_def bytes_only_def
      Let_def emit_fcitx_event_append [of fp ev] split: sum.splits option.splits prod.splits)

lemma client_frames_spec:
  assumes "client_frames zv fp i ms (c, ev) = Some (c', ev')"
  shows "map p_bytes (upstream_out c') = map p_bytes (upstream_out c) @ filter (\<lambda>m. \<not> intercepted zv m) ms"
    "length (client_out c') = length (client_out c) + length (filter (intercepted zv) ms)"
    "ev' = ev @ concat (map (frame_events zv fp i) ms)" "same_streams c c'"
proof -
  have "map p_bytes (upstream_out c') = map p_bytes (upstream_out c) @ filter (\<lambda>m. \<not> intercepted zv m) ms \<and>
    length (client_out c') = length (client_out c) + length (filter (intercepted zv) ms) \<and>
    ev' = ev @ concat (map (frame_events zv fp i) ms) \<and> same_streams c c'"
    using assms
  proof (induction ms arbitrary: c ev)
    case Nil
    then show ?case by (simp add: same_streams_def)
  next
    case (Cons m ms)
    obtain c1 ev1 where one: "client_frame zv fp i m (c, ev) = Some (c1, ev1)"
      and rest: "client_frames zv fp i ms (c1, ev1) = Some (c', ev')"
      using Cons.prems by (auto simp: bind_eq_Some_conv)
    show ?case
      using client_frame_spec [OF one] Cons.IH [OF rest]
      by (simp add: same_streams_def)
  qed
  then show "map p_bytes (upstream_out c') = map p_bytes (upstream_out c) @ filter (\<lambda>m. \<not> intercepted zv m) ms"
    "length (client_out c') = length (client_out c) + length (filter (intercepted zv) ms)"
    "ev' = ev @ concat (map (frame_events zv fp i) ms)" "same_streams c c'" by blast+
qed

section \<open>What a chunk adds to the stream\<close>

lemma feed_shape:
  assumes "feed_from_client st chunk = (Inr o1, st')"
  shows "\<exists>pre. outbound o1 = pre @ concat (frames_of o1) \<and>
     (frame_ranges o1 \<noteq> [] \<longrightarrow> fst (hd (frame_ranges o1)) = length pre) \<and>
     (client_phase st = Messages \<longrightarrow> pre = [])"
proof -
  have shape: "outbound o1 = pre @ concat (frames_of o1) \<and>
      (frame_ranges o1 \<noteq> [] \<longrightarrow> fst (hd (frame_ranges o1)) = length pre)"
    if feed: "feed_messages st1 \<lparr>outbound = pre, frame_ranges = []\<rparr> rest = (Inr o1, st')" for st1 pre rest
  proof -
    obtain fs r where s: "split_frames bytes_needed (msg_buf st1 @ rest) = (fs, r, None)"
        "outbound o1 = pre @ concat fs" "frames_of o1 = fs"
      using feed_messages_ok [OF feed] by blast
    have "frame_ranges o1 = ranges_from (length pre) (map length fs)"
      using feed split_loop_spec [OF s(1)] by (auto simp: feed_messages_def split: prod.splits)
    then show ?thesis using s by (cases fs) auto
  qed
  show ?thesis
  proof (cases "client_phase st")
    case Messages
    then show ?thesis
      using assms shape [of st "[]" chunk] by (auto simp: feed_from_client_def)
  next
    case Auth
    show ?thesis
    proof (cases "find_begin_end (auth_accumulator st @ chunk)")
      case (Inl e)
      then show ?thesis using assms Auth by (simp add: feed_from_client_def)
    next
      case (Inr x)
      show ?thesis
      proof (cases x)
        case None
        then show ?thesis
          using assms Auth Inr by (auto simp: feed_from_client_def frames_of_def)
      next
        case (Some e)
        then show ?thesis
          using assms Auth Inr shape by (fastforce simp: feed_from_client_def Let_def)
      qed
    qed
  qed
qed

lemma frames_of_empty: "frame_ranges o1 = [] \<Longrightarrow> frames_of o1 = []"
  by (simp add: frames_of_def)

section \<open>Runs of a connection\<close>

definition received :: "socket \<Rightarrow> bytes" where
  "received s = (case to_recv s of Received bs fds # rs \<Rightarrow> bs | _ \<Rightarrow> [])"

definition new_kernel :: "socket \<Rightarrow> send_result list \<Rightarrow> recv_result list \<Rightarrow> socket" where
  "new_kernel s sends recvs = s\<lparr>to_send := sends, to_recv := recvs\<rparr>"

inductive conn_run :: "zvariant \<Rightarrow> fp_ops \<Rightarrow> conn_id \<Rightarrow> connection \<Rightarrow> bytes \<Rightarrow> bytes \<Rightarrow> bool"
  for zv fp i where
  run_new: "wire_out cs = [] \<Longrightarrow> wire_out us = [] \<Longrightarrow> conn_run zv fp i (new_connection cs us) [] []"
| run_kernel: "conn_run zv fp i c S U \<Longrightarrow>
    conn_run zv fp i (c\<lparr>c_client := new_kernel (c_client c) a b,
                        c_upstream := new_kernel (c_upstream c) a' b'\<rparr>) S U"
| run_client: "conn_run zv fp i c S U \<Longrightarrow> conn_pump_client zv fp i c ev = Some (Inr Active, c', ev') \<Longrightarrow>
    conn_run zv fp i c' (S @ received (c_client c)) U"
| run_upstream: "conn_run zv fp i c S U \<Longrightarrow> conn_pump_upstream zv c = (Inr Active, c') \<Longrightarrow>
    conn_run zv fp i c' S (U @ received (c_upstream c))"
| run_emit: "conn_run zv fp i c S U \<Longrightarrow> conn_emit zv f (c\<lparr>c_serial_counter := n\<rparr>) = (Inr (), c') \<Longrightarrow>
    conn_run zv fp i c' S U"
| run_flush_upstream: "conn_run zv fp i c S U \<Longrightarrow> flush_upstream c = (Inr (), c') \<Longrightarrow> conn_run zv fp i c' S U"
| run_flush_client: "conn_run zv fp i c S U \<Longrightarrow> flush_client c = (Inr (), c') \<Longrightarrow> conn_run zv fp i c' S U"

text \<open>The bytes written to the bus or queued for it, and what they should be.\<close>

definition bus_bytes :: "connection \<Rightarrow> bytes" where
  "bus_bytes c = concat (map p_bytes (wire_out (c_upstream c) @ upstream_out c))"

definition client_bytes :: "connection \<Rightarrow> bytes" where
  "client_bytes c = concat (map p_bytes (wire_out (c_client c) @ client_out c))"

definition to_bus :: "zvariant \<Rightarrow> bytes \<Rightarrow> bytes" where
  "to_bus zv S =
     (case find_begin_end S of
        Inr (Some e) \<Rightarrow>
          take e S @ concat (filter (\<lambda>m. \<not> intercepted zv m)
                                    (fst (split_frames bytes_needed (drop e S))))
      | _ \<Rightarrow> S)"

lemma flush_upstream_spec:
  assumes "flush_upstream c = (r, c')"
  shows "bus_bytes c' = bus_bytes c" "client_bytes c' = client_bytes c" "c_state c' = c_state c"
    "upstream_buf c' = upstream_buf c"
  using assms try_flush_conserves [of "c_upstream c" "upstream_out c"]
  by (auto simp: flush_upstream_def bus_bytes_def client_bytes_def split: prod.splits)

lemma flush_client_spec:
  assumes "flush_client c = (r, c')"
  shows "client_bytes c' = client_bytes c" "bus_bytes c' = bus_bytes c" "c_state c' = c_state c"
    "upstream_buf c' = upstream_buf c"
  using assms try_flush_conserves [of "c_client c" "client_out c"]
  by (auto simp: flush_client_def bus_bytes_def client_bytes_def split: prod.splits)

section \<open>Towards the bus\<close>

definition client_stream_ok :: "zvariant \<Rightarrow> connection \<Rightarrow> bytes \<Rightarrow> bool" where
  "client_stream_ok zv c S \<longleftrightarrow>
     (\<exists>hs frs. session_spec (c_state c) S (hs @ concat frs) frs \<and>
        bus_bytes c = hs @ concat (filter (\<lambda>m. \<not> intercepted zv m) frs))"

lemma client_stream_to_bus:
  assumes "client_stream_ok zv c S"
  shows "bus_bytes c = to_bus zv S"
proof -
  obtain hs frs where s: "session_spec (c_state c) S (hs @ concat frs) frs"
    "bus_bytes c = hs @ concat (filter (\<lambda>m. \<not> intercepted zv m) frs)"
    using assms by (auto simp: client_stream_ok_def)
  show ?thesis
    using s by (cases "client_phase (c_state c)")
      (auto simp: session_spec_def to_bus_def)
qed

lemma client_stream_ok_cong:
  "client_stream_ok zv c S \<Longrightarrow> c_state c' = c_state c \<Longrightarrow> bus_bytes c' = bus_bytes c \<Longrightarrow>
     client_stream_ok zv c' S"
  by (simp add: client_stream_ok_def)

lemma client_frames_bus:
  assumes "client_frames zv fp i ms (c, ev) = Some (c', ev')"
  shows "bus_bytes c' = bus_bytes c @ concat (filter (\<lambda>m. \<not> intercepted zv m) ms)"
    "c_state c' = c_state c" "upstream_buf c' = upstream_buf c"
  using client_frames_spec [OF assms] by (simp_all add: bus_bytes_def same_streams_def)

lemma feed_authenticated:
  "feed_from_client st buf = (r, st') \<Longrightarrow> is_authenticated st \<longrightarrow> is_authenticated st'"
  by (auto simp: feed_from_client_def feed_messages_def is_authenticated_def split: prod.splits)

lemma client_slow_path_ok:
  assumes "client_slow_path zv fp i out c ev = Some (Inr x, c', ev')"
  shows "\<exists>c2 c3 r3 r4.
    client_frames zv fp i (frames_of out)
      (if fst (hd (frame_ranges out)) > 0
       then c\<lparr>upstream_out := upstream_out c
                @ [bytes_only (take (fst (hd (frame_ranges out))) (outbound out))]\<rparr>
       else c, ev) = Some (c2, ev') \<and>
    flush_upstream c2 = (r3, c3) \<and> flush_client c3 = (r4, c')"
proof -
  let ?c1 = "if fst (hd (frame_ranges out)) > 0
       then c\<lparr>upstream_out := upstream_out c
                @ [bytes_only (take (fst (hd (frame_ranges out))) (outbound out))]\<rparr>
       else c"
  obtain c2 ev2 where f: "client_frames zv fp i (frames_of out) (?c1, ev) = Some (c2, ev2)"
    using assms by (auto simp: client_slow_path_def Let_def bind_eq_Some_conv)
  obtain r3 c3 where u: "flush_upstream c2 = (r3, c3)" by (cases "flush_upstream c2")
  obtain r4 c4 where l: "flush_client c3 = (r4, c4)" by (cases "flush_client c3")
  have "ev2 = ev'" "c4 = c'"
    using assms unfolding client_slow_path_def Let_def f by (auto simp: u l split: sum.splits)
  then show ?thesis using f u l by blast
qed

lemma client_received_bus:
  assumes ok: "client_received zv fp i buf fds c ev = Some (Inr x, c', ev')"
    and inv: "client_stream_ok zv c S"
  shows "client_stream_ok zv c' (S @ buf)" "upstream_buf c' = upstream_buf c"
    "is_authenticated (c_state c) \<longrightarrow> is_authenticated (c_state c')"
proof -
  obtain hs frs where s: "session_spec (c_state c) S (hs @ concat frs) frs"
    "bus_bytes c = hs @ concat (filter (\<lambda>m. \<not> intercepted zv m) frs)"
    using inv by (auto simp: client_stream_ok_def)
  obtain o1 st' where fed: "feed_from_client (c_state c) buf = (Inr o1, st')"
    using ok by (auto simp: client_received_def Let_def split: prod.splits sum.splits)
  obtain pre where pre: "outbound o1 = pre @ concat (frames_of o1)"
    "frame_ranges o1 \<noteq> [] \<longrightarrow> fst (hd (frame_ranges o1)) = length pre"
    "client_phase (c_state c) = Messages \<longrightarrow> pre = []"
    using feed_shape [OF fed] by blast
  have frs: "client_phase (c_state c) = Auth \<longrightarrow> frs = []"
    using s(1) by (auto simp: session_spec_def)
  have side: "pre = [] \<or> frs = []"
    using pre(3) frs by (cases "client_phase (c_state c)") auto
  have spec: "session_spec st' (S @ buf) ((hs @ pre) @ concat (frs @ frames_of o1)) (frs @ frames_of o1)"
    using session_feed_spec [OF s(1) fed] pre frs by (cases "client_phase (c_state c)") auto
  have "c_state c' = st' \<and> upstream_buf c' = upstream_buf c \<and>
      bus_bytes c' = bus_bytes c @ pre @ concat (filter (\<lambda>m. \<not> intercepted zv m) (frames_of o1))"
  proof (cases "frame_ranges o1 = []")
    case True
    then obtain r where "flush_upstream (c\<lparr>c_state := st', client_in_fds := [],
        upstream_out := upstream_out c @ [\<lparr>p_bytes = outbound o1, p_fds = client_in_fds c @ fds\<rparr>]\<rparr>) = (r, c')"
      using ok fed by (auto simp: client_received_def client_fast_path_def Let_def split: prod.splits)
    from flush_upstream_spec [OF this] show ?thesis
      using pre(1) frames_of_empty [OF True] by (simp add: bus_bytes_def)
  next
    case False
    let ?c0 = "c\<lparr>client_in_fds := client_in_fds c @ fds, c_state := st'\<rparr>"
    let ?c1 = "if length pre > 0 then ?c0\<lparr>upstream_out := upstream_out ?c0 @ [bytes_only pre]\<rparr> else ?c0"
    have start: "fst (hd (frame_ranges o1)) = length pre" "take (length pre) (outbound o1) = pre"
      using pre False by simp_all
    have "client_slow_path zv fp i o1 ?c0 ev = Some (Inr x, c', ev')"
      using ok fed False by (simp add: client_received_def Let_def)
    from client_slow_path_ok [OF this] obtain c2 c3 r3 r4 where
      frames: "client_frames zv fp i (frames_of o1) (?c1, ev) = Some (c2, ev')"
      and flush: "flush_upstream c2 = (r3, c3)" "flush_client c3 = (r4, c')"
      unfolding start by blast
    have "bus_bytes ?c1 = bus_bytes c @ pre"
      by (simp add: bus_bytes_def bytes_only_def)
    moreover have "c_state ?c1 = st'" "upstream_buf ?c1 = upstream_buf c" by simp_all
    ultimately show ?thesis
      using client_frames_bus [OF frames] flush_upstream_spec [OF flush(1)] flush_client_spec [OF flush(2)]
      by simp
  qed
  with spec s(2) side show "client_stream_ok zv c' (S @ buf)" "upstream_buf c' = upstream_buf c"
    by (auto simp: client_stream_ok_def intro!: exI [of _ "hs @ pre"] exI [of _ "frs @ frames_of o1"])
  show "is_authenticated (c_state c) \<longrightarrow> is_authenticated (c_state c')"
    using feed_authenticated [OF fed] \<open>c_state c' = st' \<and> _\<close> by simp
qed

section \<open>Towards the client\<close>

lemma observe_frame_same [simp]:
  "upstream_out (observe_frame zv f c) = upstream_out c"
  "client_out (observe_frame zv f c) = client_out c"
  "c_upstream (observe_frame zv f c) = c_upstream c"
  "c_client (observe_frame zv f c) = c_client c"
  "c_state (observe_frame zv f c) = c_state c"
  "upstream_buf (observe_frame zv f c) = upstream_buf c"
  "upstream_in_fds (observe_frame zv f c) = upstream_in_fds c"
  by (auto simp: observe_frame_def Let_def split: message_kind.split option.split)

lemma observe_frame_update:
  "observe_frame zv f (c\<lparr>upstream_buf := r\<rparr>) = (observe_frame zv f c)\<lparr>upstream_buf := r\<rparr>"
  by (cases c; cases "f_kind f"; simp add: observe_frame_def Let_def split: option.split)

lemma upstream_frame_update:
  "(upstream_frame zv m (c\<lparr>upstream_buf := b\<rparr>))\<lparr>upstream_buf := r\<rparr> = upstream_frame zv m (c\<lparr>upstream_buf := r\<rparr>)"
proof -
  have "upstream_frame zv m (c\<lparr>upstream_buf := x\<rparr>) = (upstream_frame zv m c)\<lparr>upstream_buf := x\<rparr>" for x
  proof (cases "parse_frame zv m")
    case (Inr f)
    have swap: "c\<lparr>upstream_buf := x, upstream_in_fds := y\<rparr> = c\<lparr>upstream_in_fds := y, upstream_buf := x\<rparr>" for y
      by (cases c) simp
    show ?thesis
      by (cases "pop_fds (declared_fds f) (upstream_in_fds c)")
        (simp add: upstream_frame_def Inr observe_frame_update swap)
  qed (simp add: upstream_frame_def)
  then show ?thesis by simp
qed

lemma upstream_frame_spec:
  "client_bytes (upstream_frame zv m c) = client_bytes c @ m"
  "bus_bytes (upstream_frame zv m c) = bus_bytes c"
  "c_state (upstream_frame zv m c) = c_state c"
  by (auto simp: upstream_frame_def client_bytes_def bus_bytes_def bytes_only_def Let_def
      split: sum.split prod.split)

text \<open>The loop is the abstract reader followed by the handling of each frame.\<close>

lemma upstream_loop_spec:
  "split_frames bytes_needed (upstream_buf c) = (fs, r, e) \<Longrightarrow>
     upstream_loop zv c =
       (let c1 = foldl (\<lambda>c m. upstream_frame zv m c) (c\<lparr>upstream_buf := r\<rparr>) fs in
        case e of
          None \<Rightarrow> c1
        | Some err \<Rightarrow>
            c1\<lparr>upstream_buf := [],
               client_out := client_out c1 @ (if r = [] then [] else [bytes_only r]),
               upstream_in_fds := []\<rparr>)"
proof (induction zv c arbitrary: fs rule: upstream_loop.induct)
  case (1 zv c)
  let ?buf = "upstream_buf c"
  show ?case
  proof (cases "\<exists>n. bytes_needed ?buf = Inr (Some n) \<and> n \<le> length ?buf")
    case True
    then obtain n where n: "bytes_needed ?buf = Inr (Some n)" "n \<le> length ?buf" by blast
    obtain fs' where tail: "split_frames bytes_needed (drop n ?buf) = (fs', r, e)"
      and fs: "fs = take n ?buf # fs'"
      using "1.prems" by (auto simp: dbus_framing.split_step [OF n] split: prod.splits)
    let ?c1 = "upstream_frame zv (take n ?buf) (c\<lparr>upstream_buf := drop n ?buf\<rparr>)"
    have "upstream_loop zv c = upstream_loop zv ?c1"
      using n by (subst upstream_loop.simps) simp
    moreover have "?c1\<lparr>upstream_buf := r\<rparr> = upstream_frame zv (take n ?buf) (c\<lparr>upstream_buf := r\<rparr>)"
      by (simp add: upstream_frame_update)
    moreover have "split_frames bytes_needed (upstream_buf ?c1) = (fs', r, e)" using tail by simp
    note "1.IH" [OF n(1) refl _ this]
    ultimately show ?thesis
      using n(2) by (simp only: fs foldl_Cons not_less)
  next
    case False
    then have "fs = [] \<and> r = ?buf \<and> (\<forall>x. e = Some x \<longleftrightarrow> bytes_needed ?buf = Inl x)"
      using "1.prems"
      by (subst (asm) split_frames.simps) (auto split: sum.splits option.splits if_splits prod.splits)
    then show ?thesis
      using False by (subst upstream_loop.simps) (auto split: sum.split option.split)
  qed
qed

lemma foldl_upstream_frame:
  "client_bytes (foldl (\<lambda>c m. upstream_frame zv m c) c fs) = client_bytes c @ concat fs"
  "bus_bytes (foldl (\<lambda>c m. upstream_frame zv m c) c fs) = bus_bytes c"
  "c_state (foldl (\<lambda>c m. upstream_frame zv m c) c fs) = c_state c"
  "upstream_buf (foldl (\<lambda>c m. upstream_frame zv m c) c fs) = upstream_buf c"
  by (induction fs arbitrary: c) (simp_all add: upstream_frame_spec)

lemma upstream_loop_conserves:
  "client_bytes (upstream_loop zv c) @ upstream_buf (upstream_loop zv c) = client_bytes c @ upstream_buf c"
  "bus_bytes (upstream_loop zv c) = bus_bytes c"
  "c_state (upstream_loop zv c) = c_state c"
proof -
  obtain fs r e where s: "split_frames bytes_needed (upstream_buf c) = (fs, r, e)"
    by (cases "split_frames bytes_needed (upstream_buf c)")
  let ?c1 = "foldl (\<lambda>c m. upstream_frame zv m c) (c\<lparr>upstream_buf := r\<rparr>) fs"
  have buf_only: "client_bytes (c\<lparr>upstream_buf := r\<rparr>) = client_bytes c"
    "bus_bytes (c\<lparr>upstream_buf := r\<rparr>) = bus_bytes c"
    by (simp_all add: client_bytes_def bus_bytes_def)
  have c1: "client_bytes ?c1 = client_bytes c @ concat fs" "bus_bytes ?c1 = bus_bytes c"
      "c_state ?c1 = c_state c" "upstream_buf ?c1 = r"
    using buf_only by (simp_all add: foldl_upstream_frame)
  have buf: "concat fs @ r = upstream_buf c" by (rule split_frames_conserve [OF s])
  have err: "client_bytes (d\<lparr>upstream_buf := [], client_out := client_out d @ ps, upstream_in_fds := []\<rparr>)
        = client_bytes d @ concat (map p_bytes ps)"
    "bus_bytes (d\<lparr>upstream_buf := [], client_out := client_out d @ ps, upstream_in_fds := []\<rparr>) = bus_bytes d"
    "c_state (d\<lparr>upstream_buf := [], client_out := client_out d @ ps, upstream_in_fds := []\<rparr>) = c_state d"
    "upstream_buf (d\<lparr>upstream_buf := [], client_out := client_out d @ ps, upstream_in_fds := []\<rparr>) = []"
    for d :: connection and ps
    by (simp_all add: client_bytes_def bus_bytes_def)
  have left: "concat (map p_bytes (if r = [] then [] else [bytes_only r])) = r"
    by (simp add: bytes_only_def)
  show "client_bytes (upstream_loop zv c) @ upstream_buf (upstream_loop zv c) = client_bytes c @ upstream_buf c"
    "bus_bytes (upstream_loop zv c) = bus_bytes c" "c_state (upstream_loop zv c) = c_state c"
    unfolding upstream_loop_spec [OF s] Let_def
    by (cases e; simp only: option.case c1 err left buf append_assoc append_Nil2)+
qed

lemma conn_pump_upstream_spec:
  assumes "conn_pump_upstream zv c = (Inr Active, c')"
    and "is_authenticated (c_state c) \<or> upstream_buf c = []"
  shows "client_bytes c' @ upstream_buf c' = client_bytes c @ upstream_buf c @ received (c_upstream c)"
    "bus_bytes c' = bus_bytes c" "c_state c' = c_state c"
    "is_authenticated (c_state c') \<or> upstream_buf c' = []"
proof -
  obtain res sock where rcv: "recvmsg_with_fds (c_upstream c) = (res, sock)"
    by (cases "recvmsg_with_fds (c_upstream c)")
  have wire: "wire_out sock = wire_out (c_upstream c)"
    using rcv by (auto simp: recvmsg_with_fds_def split: list.splits recv_result.splits)
  have "client_bytes c' @ upstream_buf c' = client_bytes c @ upstream_buf c @ received (c_upstream c) \<and>
    bus_bytes c' = bus_bytes c \<and> c_state c' = c_state c \<and>
    (is_authenticated (c_state c') \<or> upstream_buf c' = [])"
  proof (cases res)
    case (Inl e)
    then have "received (c_upstream c) = []"
      using rcv by (auto simp: recvmsg_with_fds_def received_def split: list.splits recv_result.splits)
    then show ?thesis
      using assms rcv Inl wire
      by (auto simp: conn_pump_upstream_def client_bytes_def bus_bytes_def split: if_splits)
  next
    case (Inr x)
    then obtain buf fds where x: "res = Inr (buf, fds)" by (cases x) auto
    have rec: "received (c_upstream c) = buf"
      using rcv x by (auto simp: recvmsg_with_fds_def received_def split: list.splits recv_result.splits)
    have ne: "buf \<noteq> []" using assms(1) rcv x by (auto simp: conn_pump_upstream_def)
    let ?c1 = "c\<lparr>c_upstream := sock, upstream_in_fds := upstream_in_fds c @ fds\<rparr>"
    have c1: "client_bytes (?c1\<lparr>upstream_buf := b\<rparr>) = client_bytes c"
      "bus_bytes (?c1\<lparr>upstream_buf := b\<rparr>) = bus_bytes c" for b
      using wire by (simp_all add: client_bytes_def bus_bytes_def)
    show ?thesis
    proof (cases "is_authenticated (c_state c)")
      case True
      then obtain r where "flush_client (upstream_loop zv (?c1\<lparr>upstream_buf := upstream_buf c @ buf\<rparr>)) = (r, c')"
        using assms(1) rcv x ne by (auto simp: conn_pump_upstream_def Let_def split: prod.splits)
      from flush_client_spec [OF this] show ?thesis
        using True rec upstream_loop_conserves [of zv "?c1\<lparr>upstream_buf := upstream_buf c @ buf\<rparr>"] c1
        by simp
    next
      case False
      then obtain r where "flush_client (?c1\<lparr>upstream_in_fds := [], client_out := client_out c
          @ [\<lparr>p_bytes = buf, p_fds = upstream_in_fds c @ fds\<rparr>]\<rparr>) = (r, c')"
        using assms(1) rcv x ne by (auto simp: conn_pump_upstream_def Let_def split: prod.splits)
      from flush_client_spec [OF this] show ?thesis
        using False rec assms(2) wire by (simp add: client_bytes_def bus_bytes_def)
    qed
  qed
  then show "client_bytes c' @ upstream_buf c' = client_bytes c @ upstream_buf c @ received (c_upstream c)"
    "bus_bytes c' = bus_bytes c" "c_state c' = c_state c"
    "is_authenticated (c_state c') \<or> upstream_buf c' = []" by blast+
qed

lemma conn_pump_client_spec:
  assumes "conn_pump_client zv fp i c ev = Some (Inr Active, c', ev')" and "client_stream_ok zv c S"
  shows "client_stream_ok zv c' (S @ received (c_client c))" "upstream_buf c' = upstream_buf c"
    "is_authenticated (c_state c) \<longrightarrow> is_authenticated (c_state c')"
proof -
  obtain res sock where rcv: "recvmsg_with_fds (c_client c) = (res, sock)"
    by (cases "recvmsg_with_fds (c_client c)")
  have inv: "client_stream_ok zv (c\<lparr>c_client := sock\<rparr>) S"
    using assms(2) by (simp add: client_stream_ok_def bus_bytes_def)
  have "client_stream_ok zv c' (S @ received (c_client c)) \<and> upstream_buf c' = upstream_buf c \<and>
    (is_authenticated (c_state c) \<longrightarrow> is_authenticated (c_state c'))"
  proof (cases res)
    case (Inl e)
    then have "received (c_client c) = []" "c' = c\<lparr>c_client := sock\<rparr>"
      using rcv assms(1) by (auto simp: conn_pump_client_def recvmsg_with_fds_def received_def
          split: list.splits recv_result.splits)
    then show ?thesis using inv by simp
  next
    case (Inr x)
    then obtain buf fds where x: "res = Inr (buf, fds)" by (cases x) auto
    have rec: "received (c_client c) = buf"
      using rcv x by (auto simp: recvmsg_with_fds_def received_def split: list.splits recv_result.splits)
    have "client_received zv fp i buf fds (c\<lparr>c_client := sock\<rparr>) ev = Some (Inr Active, c', ev')"
      using assms(1) rcv x by (auto simp: conn_pump_client_def split: if_splits)
    from client_received_bus [OF this inv] show ?thesis using rec by simp
  qed
  then show "client_stream_ok zv c' (S @ received (c_client c))" "upstream_buf c' = upstream_buf c"
    "is_authenticated (c_state c) \<longrightarrow> is_authenticated (c_state c')" by blast+
qed

lemma conn_emit_spec:
  assumes "conn_emit zv f (c\<lparr>c_serial_counter := n\<rparr>) = (r, c')"
  shows "bus_bytes c' = bus_bytes c" "c_state c' = c_state c" "upstream_buf c' = upstream_buf c"
    "client_bytes c' = client_bytes c @ encode_frame zv f"
  using flush_client_spec [OF assms [unfolded conn_emit_def]]
  by (simp_all add: bus_bytes_def client_bytes_def bytes_only_def)

lemma conn_run_invariant:
  "conn_run zv fp i c S U \<Longrightarrow>
     client_stream_ok zv c S \<and> (is_authenticated (c_state c) \<or> upstream_buf c = [])"
proof (induction rule: conn_run.induct)
  case (run_new cs us)
  have "session_spec conn_new [] ([] @ concat []) []"
    using session_sound [OF session_new] by simp
  then show ?case using run_new
    by (auto simp: client_stream_ok_def new_connection_def bus_bytes_def intro!: exI [of _ "[]"])
next
  case (run_kernel c S U a b a' b')
  then show ?case by (simp add: client_stream_ok_def bus_bytes_def new_kernel_def)
next
  case (run_client c S U ev c' ev')
  then show ?case using conn_pump_client_spec [OF run_client.hyps(2)] by metis
next
  case (run_upstream c S U c')
  then have "is_authenticated (c_state c) \<or> upstream_buf c = []" by blast
  from conn_pump_upstream_spec [OF run_upstream.hyps(2) this] show ?case
    using run_upstream.IH client_stream_ok_cong by blast
next
  case (run_emit c S U f n c')
  then show ?case using conn_emit_spec [OF run_emit.hyps(2)] by (metis client_stream_ok_cong)
next
  case (run_flush_upstream c S U c')
  then show ?case using flush_upstream_spec [OF run_flush_upstream.hyps(2)]
    by (metis client_stream_ok_cong)
next
  case (run_flush_client c S U c')
  then show ?case using flush_client_spec [OF run_flush_client.hyps(2)]
    by (metis client_stream_ok_cong)
qed

end
