(* ===== verification/Proxy_Props.thy ===== *)
theory Proxy_Props
  imports Proxy_Facts
begin

text \<open>
  The properties of the D-Bus broker: transparency towards the bus and towards the client, what
  an intercepted frame causes, descriptors, connection ids, and the two stalls. A concrete
  connection (\<open>demo_connection\<close>) on which the properties are evaluated closes the theory.
\<close>

section \<open>Descriptors\<close>

lemma pop_fds_eq: "pop_fds n q = (take n q, drop n q)"
  by (induction n q rule: pop_fds.induct) simp_all

text \<open>Descriptors of consecutive messages: each takes as many as it declares.\<close>

fun assign_fds :: "nat list \<Rightarrow> fd list \<Rightarrow> fd list list" where
  "assign_fds [] q = []"
| "assign_fds (n # ns) q = take n q # assign_fds ns (drop n q)"

definition packets :: "bytes list \<Rightarrow> fd list list \<Rightarrow> out_packet list" where
  "packets ms fdss = map2 (\<lambda>m fds. \<lparr>p_bytes = m, p_fds = fds\<rparr>) ms fdss"

lemma upstream_frame_fds:
  "parse_frame zv m = Inr f \<Longrightarrow>
     client_out (upstream_frame zv m c) =
       client_out c @ [\<lparr>p_bytes = m, p_fds = take (declared_fds f) (upstream_in_fds c)\<rparr>] \<and>
     upstream_in_fds (upstream_frame zv m c) = drop (declared_fds f) (upstream_in_fds c)"
  by (simp add: upstream_frame_def pop_fds_eq)

lemma foldl_upstream_fds:
  "map (parse_frame zv) ms = map Inr frames \<Longrightarrow>
     client_out (foldl (\<lambda>c m. upstream_frame zv m c) c ms) =
       client_out c @ packets ms (assign_fds (map declared_fds frames) (upstream_in_fds c)) \<and>
     upstream_in_fds (foldl (\<lambda>c m. upstream_frame zv m c) c ms) =
       drop (sum_list (map declared_fds frames)) (upstream_in_fds c)"
proof (induction ms arbitrary: frames c)
  case Nil
  then show ?case by (simp add: packets_def)
next
  case (Cons m ms)
  then obtain f fs where f: "frames = f # fs" "parse_frame zv m = Inr f"
      "map (parse_frame zv) ms = map Inr fs" by (cases frames) auto
  show ?case
    using Cons.IH [OF f(3), of "upstream_frame zv m c"] upstream_frame_fds [OF f(2), of c]
    by (simp add: f(1) packets_def add.commute)
qed

section \<open>Connection ids\<close>

definition accept_id :: "socket \<Rightarrow> socket \<Rightarrow> dbus_broker \<Rightarrow> conn_id \<times> dbus_broker" where
  "accept_id cs us b = (next_conn_id b, snd (accept_one (Inr cs) (Inr us) (Inr ()) b))"

interpretation conn_ids: id_counter "accept_id cs us" "\<lambda>b. unat (next_conn_id b)" word_of_nat "2 ^ 64"
  for cs us
proof unfold_locales
  show "inj_on (word_of_nat :: nat \<Rightarrow> conn_id) {..<2 ^ 64}" by (rule u64_of_nat_inj)
qed (simp_all add: accept_id_def accept_one_def Let_def u64_position u64_next_position)

text \<open>
  The steps of the broker: \<open>broker_run b n\<close> when \<open>b\<close> is reached from \<open>broker_bind\<close> with \<open>n\<close>
  connections accepted.
\<close>

inductive broker_run :: "zvariant \<Rightarrow> fp_ops \<Rightarrow> dbus_broker \<Rightarrow> nat \<Rightarrow> bool" for zv fp where
  b_bind: "broker_run zv fp broker_bind 0"
| b_accept: "broker_run zv fp b n \<Longrightarrow> accept_one acc dial nb b = (Inr (Some i), b') \<Longrightarrow>
    broker_run zv fp b' (Suc n)"
| b_no_accept: "broker_run zv fp b n \<Longrightarrow> accept_one acc dial nb b = (Inr None, b') \<Longrightarrow> broker_run zv fp b' n"
| b_client: "broker_run zv fp b n \<Longrightarrow> pump_client_to_upstream zv fp i b = Some (r, b') \<Longrightarrow> broker_run zv fp b' n"
| b_upstream: "broker_run zv fp b n \<Longrightarrow> pump_upstream_to_client zv i b = (r, b') \<Longrightarrow> broker_run zv fp b' n"
| b_commit: "broker_run zv fp b n \<Longrightarrow> emit_commit_string zv i p t b = (r', b') \<Longrightarrow> broker_run zv fp b' n"
| b_preedit: "broker_run zv fp b n \<Longrightarrow> emit_preedit zv i p t cur b = (r', b') \<Longrightarrow> broker_run zv fp b' n"
| b_flush_up: "broker_run zv fp b n \<Longrightarrow> flush_upstream_out i b = (q, b') \<Longrightarrow> broker_run zv fp b' n"
| b_flush_cl: "broker_run zv fp b n \<Longrightarrow> flush_client_out i b = (q, b') \<Longrightarrow> broker_run zv fp b' n"
| b_remove: "broker_run zv fp b n \<Longrightarrow> broker_run zv fp (remove_connection i b) n"
| b_drain: "broker_run zv fp b n \<Longrightarrow> drain_events b = (ev, b') \<Longrightarrow> broker_run zv fp b' n"

definition ids_below :: "dbus_broker \<Rightarrow> nat \<Rightarrow> bool" where
  "ids_below b n \<longleftrightarrow> (\<forall>i \<in> dom (connections b). unat i < Suc n)"

lemma same_ids:
  "pump_client_to_upstream zv fp i b = Some (r, b') \<Longrightarrow>
     next_conn_id b' = next_conn_id b \<and> dom (connections b') = dom (connections b)"
  "pump_upstream_to_client zv i b = (r, b') \<Longrightarrow>
     next_conn_id b' = next_conn_id b \<and> dom (connections b') = dom (connections b)"
  "emit_commit_string zv i p t b = (r', b') \<Longrightarrow>
     next_conn_id b' = next_conn_id b \<and> dom (connections b') = dom (connections b)"
  "emit_preedit zv i p t cur b = (r', b') \<Longrightarrow>
     next_conn_id b' = next_conn_id b \<and> dom (connections b') = dom (connections b)"
  "flush_upstream_out i b = (q, b') \<Longrightarrow>
     next_conn_id b' = next_conn_id b \<and> dom (connections b') = dom (connections b)"
  "flush_client_out i b = (q, b') \<Longrightarrow>
     next_conn_id b' = next_conn_id b \<and> dom (connections b') = dom (connections b)"
  by (auto simp: pump_client_to_upstream_def pump_upstream_to_client_def emit_commit_string_def
      emit_preedit_def flush_upstream_out_def flush_client_out_def
      split: option.splits prod.splits if_splits)

lemma broker_run_ids:
  "broker_run zv fp b n \<Longrightarrow> n < 2 ^ 64 - 1 \<Longrightarrow> unat (next_conn_id b) = Suc n \<and> ids_below b n"
proof (induction rule: broker_run.induct)
  case b_bind
  then show ?case by (simp add: broker_bind_def ids_below_def)
next
  case (b_accept b n acc dial nb i b')
  then have ih: "unat (next_conn_id b) = Suc n" "ids_below b n" by simp_all
  obtain cs us where b': "b' = b\<lparr>next_conn_id := next_conn_id b + 1,
        connections := (connections b)(next_conn_id b \<mapsto> new_connection cs us)\<rparr>"
    using b_accept.hyps(2)
    by (auto simp: accept_one_def Let_def split: sum.splits io_error.splits)
  have "unat (next_conn_id b + 1) = Suc (Suc n)"
    using b_accept.prems ih by (simp add: u64_next_position)
  then show ?case
    using ih by (auto simp: b' ids_below_def less_Suc_eq)
next
  case (b_no_accept b n acc dial nb b')
  then have "b' = b" by (auto simp: accept_one_def Let_def split: sum.splits io_error.splits)
  then show ?case using b_no_accept by simp
next
  case (b_remove b n i)
  then show ?case by (auto simp: remove_connection_def ids_below_def)
next
  case (b_drain b n ev b')
  then show ?case by (auto simp: drain_events_def ids_below_def)
qed (metis same_ids ids_below_def)+

section \<open>Properties\<close>

text \<open>
  C1. Transparency towards the bus: after any run of a connection, the bytes sent to the bus
  followed by the bytes queued for it are determined by the client's byte stream alone. They
  are the handshake and every message behind it except the intercepted fcitx5 calls,
  byte for byte and in order, however the kernel cut the stream and whatever it refused.
\<close>

theorem bus_transparency:
  assumes "conn_run zv fp i c S U"
  shows "bus_bytes c = to_bus zv S"
  using conn_run_invariant [OF assms] client_stream_to_bus by blast

text \<open>
  C9. No byte from the bus is lost: reading from the bus adds exactly the bytes received to
  what the client has been sent, is queued for it, or waits for the rest of its message. A
  frame the parser rejects is forwarded like any other.
\<close>

theorem client_conservation:
  assumes "conn_run zv fp i c S U" and "conn_pump_upstream zv c = (Inr Active, c')"
  shows "client_bytes c' @ upstream_buf c' = client_bytes c @ upstream_buf c @ received (c_upstream c)"
  using conn_run_invariant [OF assms(1)] conn_pump_upstream_spec(1) [OF assms(2)] by blast

text \<open>
  What the messages of a chunk cause: the frames that are not intercepted are queued for
  the bus, verbatim and in order; every intercepted one queues one reply to the client and
  raises the events of its call; nothing else of the connection's streams changes.
\<close>

theorem client_frames_disposition:
  assumes "client_frames zv fp i ms (c, ev) = Some (c', ev')"
  shows "map p_bytes (upstream_out c') = map p_bytes (upstream_out c) @ filter (\<lambda>m. \<not> intercepted zv m) ms \<and>
    length (client_out c') = length (client_out c) + length (filter (intercepted zv) ms) \<and>
    ev' = ev @ concat (map (frame_events zv fp i) ms) \<and> same_streams c c'"
  using client_frames_spec [OF assms] by blast

text \<open>
  Descriptors stay with their message: when the frames in the buffer parse, each is queued
  for the client with as many of the received descriptors as its header declares, taken in
  order, and the rest of the descriptors is kept for later messages.
\<close>

theorem upstream_fds_aligned:
  assumes "split_frames bytes_needed (upstream_buf c) = (ms, r, None)"
    and "map (parse_frame zv) ms = map Inr frames"
  shows "client_out (upstream_loop zv c) =
      client_out c @ packets ms (assign_fds (map declared_fds frames) (upstream_in_fds c)) \<and>
    upstream_in_fds (upstream_loop zv c) = drop (sum_list (map declared_fds frames)) (upstream_in_fds c)"
  using foldl_upstream_fds [OF assms(2), of "c\<lparr>upstream_buf := r\<rparr>"]
  by (simp add: upstream_loop_spec [OF assms(1)])

text \<open>
  Connection ids are fresh: after any run with fewer than 2^64 - 1 connections accepted,
  accepting a client never takes over the id, and so the state, of a live connection; and no
  two of 2^64 accepted connections get the same id.
\<close>

theorem accept_fresh:
  assumes "broker_run zv fp b n" and "n < 2 ^ 64 - 1" and "accept_one acc dial nb b = (Inr (Some i), b')"
  shows "connections b i = None \<and> i \<noteq> 0 \<and> (\<forall>j. j \<noteq> i \<longrightarrow> connections b' j = connections b j) \<and>
    distinct (alloc_n (accept_id cs us) (2 ^ 64) b)"
proof -
  have ids: "unat (next_conn_id b) = Suc n" "ids_below b n"
    using broker_run_ids [OF assms(1,2)] by simp_all
  have i: "i = next_conn_id b" "\<forall>j. j \<noteq> i \<longrightarrow> connections b' j = connections b j"
    using assms(3) by (auto simp: accept_one_def Let_def split: sum.splits io_error.splits)
  have "i \<notin> dom (connections b)"
    using ids i(1) by (metis ids_below_def less_irrefl)
  moreover have "distinct (alloc_n (accept_id cs us) (2 ^ 64) b)"
    by (rule conn_ids.alloc_n_distinct) simp
  ultimately show ?thesis using ids i by (auto simp: domIff)
qed

text \<open>
  C27. A descriptor that arrives before its message is complete stalls the connection: after the
  handshake, a read that brings descriptors and only part of a message header queues a packet
  with the descriptors and no bytes, and no flush ever sends anything behind it. The packet's
  comment promises that packets are whole messages.
\<close>

theorem early_descriptor_wedges:
  assumes "client_phase (c_state c) = Messages" and "upstream_out c = []"
    and "length (msg_buf (c_state c) @ buf) < FIXED_HEADER_LEN" and "fds \<noteq> []"
  shows "\<exists>c'. client_received zv fp i buf fds c ev = Some (Inr Active, c', ev) \<and>
    upstream_out c' = [\<lparr>p_bytes = [], p_fds = client_in_fds c @ fds\<rparr>] \<and>
    (\<forall>s queue. try_flush s (upstream_out c' @ queue) = (Inr (), s, upstream_out c' @ queue))"
proof -
  let ?pkt = "\<lparr>p_bytes = [], p_fds = client_in_fds c @ fds\<rparr>"
  have stuck: "try_flush s (?pkt # queue) = (Inr (), s, ?pkt # queue)" for s queue
    using assms(4) by (simp add: try_flush.simps(2) pkt_is_empty_def sendmsg_with_fds_def)
  have "bytes_needed (msg_buf (c_state c) @ buf) = Inr None"
    using assms(3) by (simp add: bytes_needed_eq FIXED_HEADER_LEN_def)
  then have "split_loop \<lparr>outbound = [], frame_ranges = []\<rparr> (msg_buf (c_state c) @ buf) =
      (Inr \<lparr>outbound = [], frame_ranges = []\<rparr>, msg_buf (c_state c) @ buf)"
    by (simp add: split_loop_spec [OF dbus_framing.split_stop(1)])
  then show ?thesis
    using assms(1,2) stuck [of "c_upstream c" "[]"] stuck
    by (simp add: client_received_def feed_from_client_def feed_messages_def client_fast_path_def
        flush_upstream_def Let_def)
qed

text \<open>
  Answers to a pipelined handshake are withheld: once the client's \<open>BEGIN\<close> was seen, what
  the bus sends is taken for messages even when it still belongs to the handshake, and fewer
  than 16 such bytes (\<open>AGREE_UNIX_FD\<close> and its line end are 15) are kept back until more arrive.
\<close>

theorem pipelined_answer_withheld:
  assumes "is_authenticated (c_state c)" and "upstream_buf c = []" and "client_out c = []"
    and "recvmsg_with_fds (c_upstream c) = (Inr (buf, []), sock)"
    and "buf \<noteq> []" and "length buf < FIXED_HEADER_LEN"
  shows "\<exists>c'. conn_pump_upstream zv c = (Inr Active, c') \<and> client_bytes c' = client_bytes c \<and>
    upstream_buf c' = buf"
proof -
  have n: "bytes_needed buf = Inr None"
    using assms(6) by (simp add: bytes_needed_eq FIXED_HEADER_LEN_def)
  have l: "upstream_loop zv (c\<lparr>c_upstream := sock, upstream_buf := buf\<rparr>) =
      c\<lparr>c_upstream := sock, upstream_buf := buf\<rparr>"
    by (subst upstream_loop.simps) (simp add: n)
  have "c\<lparr>c_upstream := sock, upstream_in_fds := upstream_in_fds c\<rparr> = c\<lparr>c_upstream := sock\<rparr>"
    by (cases c) simp
  then show ?thesis
    using assms n l
    by (simp add: conn_pump_upstream_def Let_def flush_client_def client_bytes_def)
qed

section \<open>A concrete connection\<close>

definition demo_fp :: fp_ops where
  "demo_fp = \<lparr>fp_positive = (\<lambda>s. s \<noteq> 0), fp_one = 1, fp_div_round = (\<lambda>v s. v)\<rparr>"

definition demo_client_socket :: "recv_result list \<Rightarrow> socket" where
  "demo_client_socket r = \<lparr>to_send = [], to_recv = r, wire_out = []\<rparr>"

definition demo_connection :: connection where
  "demo_connection =
     new_connection (demo_client_socket [Received (demo_handshake @ demo_message) []])
                    (demo_client_socket [Received demo_message [3]])"

definition demo_connection1 :: connection where
  "demo_connection1 = demo_connection
     \<lparr>c_client := demo_client_socket [], c_state := demo_conn,
      upstream_out := [bytes_only demo_handshake, bytes_only demo_message]\<rparr>"

lemma demo_message_parsed: "parse_frame demo_zv demo_message = Inr demo_hello"
  using demo_hello_parsed [of "[]"] by (simp add: demo_message_def)

lemma demo_hello_headers:
  "h_interface (f_headers demo_hello) = Some ''b.c''" "h_unix_fds (f_headers demo_hello) = None"
  "h_member (f_headers demo_hello) = Some ''Hello''"
  by (simp_all add: demo_hello_def fb_method_call_def fb_new_def with_serial_def fb_build_def
      headers_default_def)

lemma demo_hello_forwarded: "classify demo_zv demo_hello = None"
  by (simp add: classify_def demo_hello_headers fcitx_names)

lemma demo_flush_blocked:
  "p_bytes p \<noteq> [] \<Longrightarrow> try_flush (demo_client_socket r) (p # ps) = (Inr (), demo_client_socket r, p # ps)"
  by (simp add: try_flush.simps(2) pkt_is_empty_def sendmsg_with_fds_def demo_client_socket_def)

lemma demo_client_frame:
  "client_frame demo_zv demo_fp 1 demo_message (c, ev) =
     Some (c\<lparr>upstream_out := upstream_out c @ [bytes_only demo_message]\<rparr>, ev)"
  by (cases c) (simp add: client_frame_def demo_message_parsed demo_hello_forwarded pop_fds_eq
      declared_fds_def demo_hello_headers track_name_lookup_def is_get_name_owner_method_def
      bytes_only_def)

lemma demo_pump_client:
  "conn_pump_client demo_zv demo_fp 1 demo_connection [] = Some (Inr Active, demo_connection1, [])"
proof -
  have ne: "demo_handshake \<noteq> []" "demo_message \<noteq> []" using demo_lengths by auto
  have fr: "frames_of \<lparr>outbound = demo_handshake @ demo_message, frame_ranges = [(8, 48)]\<rparr> = [demo_message]"
    by (simp add: frames_of_def slice_def demo_lengths)
  show ?thesis
    using ne demo_feed_all
    by (simp add: conn_pump_client_def demo_connection_def new_connection_def recvmsg_with_fds_def
        demo_client_socket_def client_received_def client_slow_path_def fr demo_client_frame
        demo_connection1_def Let_def demo_lengths flush_upstream_def flush_client_def
        demo_flush_blocked [unfolded demo_client_socket_def] bytes_only_def)
qed

lemma demo_run: "conn_run demo_zv demo_fp 1 demo_connection1 (demo_handshake @ demo_message) []"
proof -
  have "conn_run demo_zv demo_fp 1 demo_connection [] []"
    unfolding demo_connection_def by (rule run_new) (simp_all add: demo_client_socket_def)
  from run_client [OF this demo_pump_client] show ?thesis
    by (simp add: received_def demo_connection_def new_connection_def demo_client_socket_def)
qed

theorem bus_transparency_witness:
  "bus_bytes demo_connection1 = to_bus demo_zv (demo_handshake @ demo_message)"
  by (rule bus_transparency [OF demo_run])

definition demo_connection2 :: connection where
  "demo_connection2 = snd (conn_pump_upstream demo_zv demo_connection1)"

lemma demo_loop:
  "upstream_buf c = demo_message \<Longrightarrow>
     upstream_loop demo_zv c = upstream_frame demo_zv demo_message (c\<lparr>upstream_buf := []\<rparr>)"
  by (simp add: upstream_loop_spec [of c "[demo_message]" "[]" None] demo_message_split)

lemma demo_pump_upstream:
  "conn_pump_upstream demo_zv demo_connection1 = (Inr Active, demo_connection2)"
proof -
  have "fst (conn_pump_upstream demo_zv demo_connection1) = Inr Active"
    using demo_lengths
    by (auto simp: conn_pump_upstream_def demo_connection1_def demo_connection_def new_connection_def
        recvmsg_with_fds_def demo_client_socket_def Let_def is_authenticated_def demo_conn_def
        flush_client_def demo_loop upstream_frame_def demo_message_parsed pop_fds_eq declared_fds_def
        demo_hello_headers observe_frame_def demo_hello_simps
        demo_flush_blocked [unfolded demo_client_socket_def] split: prod.split)
  then show ?thesis by (simp add: demo_connection2_def prod_eq_iff)
qed

theorem client_conservation_witness:
  "client_bytes demo_connection2 @ upstream_buf demo_connection2 =
     client_bytes demo_connection1 @ upstream_buf demo_connection1 @ received (c_upstream demo_connection1)"
  by (rule client_conservation [OF demo_run demo_pump_upstream])

theorem client_frames_disposition_witness:
  "\<not> intercepted demo_zv demo_message \<and>
   (\<exists>c'. client_frames demo_zv demo_fp 1 [demo_message] (demo_connection, []) = Some (c', []) \<and>
         map p_bytes (upstream_out c') = [demo_message])"
proof -
  have f: "client_frames demo_zv demo_fp 1 [demo_message] (demo_connection, []) =
      Some (demo_connection\<lparr>upstream_out := upstream_out demo_connection @ [bytes_only demo_message]\<rparr>, [])"
    by (simp add: demo_client_frame)
  have "\<not> intercepted demo_zv demo_message"
    by (simp add: intercepted_def demo_message_parsed demo_hello_forwarded)
  then show ?thesis
    using client_frames_disposition [OF f] f
    by (simp add: demo_connection_def new_connection_def)
qed

theorem upstream_fds_aligned_witness:
  "client_out (upstream_loop demo_zv (demo_connection\<lparr>upstream_buf := demo_message, upstream_in_fds := [3]\<rparr>)) =
     [\<lparr>p_bytes = demo_message, p_fds = []\<rparr>]"
  using upstream_fds_aligned
    [of "demo_connection\<lparr>upstream_buf := demo_message, upstream_in_fds := [3]\<rparr>" "[demo_message]" "[]"
        demo_zv "[demo_hello]"]
  by (simp add: demo_message_split demo_message_parsed declared_fds_def demo_hello_headers packets_def
      demo_connection_def new_connection_def)

theorem accept_fresh_witness:
  "connections broker_bind 1 = None \<and>
   distinct (alloc_n (accept_id (demo_client_socket []) (demo_client_socket [])) (2 ^ 64) broker_bind)"
  using accept_fresh [OF b_bind, of "Inr (demo_client_socket [])" "Inr (demo_client_socket [])" "Inr ()" 1]
  by (simp add: accept_one_def broker_bind_def)

theorem early_descriptor_wedges_witness:
  "\<exists>c'. client_received demo_zv demo_fp 1 [0x6c] [5] (demo_connection1\<lparr>upstream_out := []\<rparr>) [] =
       Some (Inr Active, c', []) \<and> upstream_out c' = [\<lparr>p_bytes = [], p_fds = [5]\<rparr>]"
  using early_descriptor_wedges
    [of "demo_connection1\<lparr>upstream_out := []\<rparr>" "[0x6c]" "[5]" demo_zv demo_fp 1 "[]"]
  by (auto simp: demo_connection1_def demo_connection_def new_connection_def demo_conn_def
      FIXED_HEADER_LEN_def)

definition agree_unix_fd :: bytes where
  "agree_unix_fd = map of_char ''AGREE_UNIX_FD'' @ SENTINEL"

theorem pipelined_answer_withheld_witness:
  "\<exists>c'. conn_pump_upstream demo_zv
       (demo_connection1\<lparr>c_upstream := demo_client_socket [Received agree_unix_fd []]\<rparr>) = (Inr Active, c') \<and>
     client_bytes c' = [] \<and> upstream_buf c' = agree_unix_fd"
  using pipelined_answer_withheld
    [of "demo_connection1\<lparr>c_upstream := demo_client_socket [Received agree_unix_fd []]\<rparr>" agree_unix_fd
        "demo_client_socket []" demo_zv]
  by (auto simp: demo_connection1_def demo_connection_def new_connection_def demo_conn_def
      is_authenticated_def recvmsg_with_fds_def demo_client_socket_def agree_unix_fd_def SENTINEL_def
      FIXED_HEADER_LEN_def client_bytes_def)

end
