(* ===== verification/Dbus_Bridge_Props.thy ===== *)
theory Dbus_Bridge_Props
  imports Dbus_Bridge Proxy_Props
begin

text \<open>
  The event sources around the broker: live connections and registered sources belong together, over every
  run. Then what it means that only READ sources exist, and that start-up and shutdown leave nothing behind.
\<close>

section \<open>Runs\<close>

type_synonym bus_state = "dbus_bridge \<times> bus_loop"

text \<open>
  A source that is ready, and what the rest of the compositor does with the broker: the relay of the host input
  method and the draining of its events. \<open>quiet i\<close> runs leave out what concerns connection \<open>i\<close>.
\<close>

inductive bridge_step :: "zvariant \<Rightarrow> fp_ops \<Rightarrow> conn_id option \<Rightarrow> bus_state \<Rightarrow> nat \<Rightarrow> bus_state \<Rightarrow> bool"
  for zv fp quiet where
  bs_accept: "map_of (bl_sources l) t = Some (BusListener, f) \<Longrightarrow> bus_ready zv fp t ans br l = Some s' \<Longrightarrow>
    bridge_step zv fp quiet (br, l) (length ans) s'"
| bs_conn: "map_of (bl_sources l) t = Some (BusConn i side, f) \<Longrightarrow> quiet \<noteq> Some i \<Longrightarrow>
    bus_ready zv fp t ans br l = Some s' \<Longrightarrow> bridge_step zv fp quiet (br, l) 0 s'"
| bs_commit: "quiet \<noteq> Some i \<Longrightarrow> bridge_step zv fp quiet (br, l) 0 (on_broker (\<lambda>b. snd (emit_commit_string zv i p t b)) br, l)"
| bs_preedit: "quiet \<noteq> Some i \<Longrightarrow> bridge_step zv fp quiet (br, l) 0 (on_broker (\<lambda>b. snd (emit_preedit zv i p t cur b)) br, l)"
| bs_drain: "bridge_step zv fp quiet (br, l) 0 (on_broker (\<lambda>b. snd (drain_events b)) br, l)"

inductive bridge_run :: "zvariant \<Rightarrow> fp_ops \<Rightarrow> conn_id option \<Rightarrow> bus_state \<Rightarrow> nat \<Rightarrow> bus_state \<Rightarrow> bool"
  for zv fp quiet where
  br_start: "bridge_run zv fp quiet s 0 s"
| br_more: "bridge_run zv fp quiet s n s1 \<Longrightarrow> bridge_step zv fp quiet s1 m s2 \<Longrightarrow> bridge_run zv fp quiet s (n + m) s2"

definition bridge_start :: "string \<Rightarrow> nat option \<Rightarrow> fd \<Rightarrow> bus_state" where
  "bridge_start d daemon f = (live_bridge d daemon, snd (bus_insert BusListener f \<lparr>bl_sources = [], bl_next = 0, bl_closed = []\<rparr>))"

section \<open>Sources and connections\<close>

definition tokens_ok :: "(conn_id \<rightharpoonup> connection) \<Rightarrow> (conn_id \<rightharpoonup> nat \<times> nat) \<Rightarrow> bus_loop \<Rightarrow> bool" where
  "tokens_ok conns toks l \<longleftrightarrow>
     dom toks = dom conns \<and> distinct (map fst (bl_sources l)) \<and> (\<forall>t \<in> set (map fst (bl_sources l)). t < bl_next l) \<and>
     (\<forall>i c u. toks i = Some (c, u) \<longrightarrow>
        (\<exists>f. (c, BusConn i ClientSide, f) \<in> set (bl_sources l)) \<and> (\<exists>f. (u, BusConn i UpstreamSide, f) \<in> set (bl_sources l))) \<and>
     (\<forall>t i side f. (t, BusConn i side, f) \<in> set (bl_sources l) \<longrightarrow>
        (\<exists>c u. toks i = Some (c, u) \<and> t = (case side of ClientSide \<Rightarrow> c | UpstreamSide \<Rightarrow> u)))"

definition bridge_inv :: "zvariant \<Rightarrow> fp_ops \<Rightarrow> nat \<Rightarrow> bus_state \<Rightarrow> bool" where
  "bridge_inv zv fp N = (\<lambda>(br, l). \<exists>b n. br_broker br = Some b \<and> broker_run zv fp b n \<and> n \<le> N \<and>
     tokens_ok (connections b) (connection_tokens br) l)"

lemma bus_insert_fields [simp]:
  "fst (bus_insert x f l) = bl_next l" "bl_next (snd (bus_insert x f l)) = bl_next l + 1"
  "bl_sources (snd (bus_insert x f l)) = bl_sources l @ [(bl_next l, x, f)]"
  by (simp_all add: bus_insert_def)

lemma bus_close_fields [simp]: "bl_sources (bus_close fs l) = bl_sources l" "bl_next (bus_close fs l) = bl_next l"
  by (simp_all add: bus_close_def)

lemma bus_remove_fields [simp]:
  "bl_sources (bus_remove t l) = filter (\<lambda>(t', _). t' \<noteq> t) (bl_sources l)" "bl_next (bus_remove t l) = bl_next l"
  by (simp_all add: bus_remove_def)

lemma tokens_cong:
  "tokens_ok conns toks l \<Longrightarrow> dom conns' = dom conns \<Longrightarrow> bl_sources l' = bl_sources l \<Longrightarrow> bl_next l' = bl_next l \<Longrightarrow>
     tokens_ok conns' toks l'"
  by (simp add: tokens_ok_def)

text \<open>Registering the two sources of a new connection, and removing those of an old one.\<close>

lemma tokens_register:
  assumes "tokens_ok conns toks l" "i \<notin> dom conns"
  shows "tokens_ok (conns(i \<mapsto> x)) (toks(i \<mapsto> (bl_next l, bl_next l + 1)))
    (snd (bus_insert (BusConn i UpstreamSide) uf (snd (bus_insert (BusConn i ClientSide) cf l))))"
proof -
  have fresh: "(t, y) \<in> set (bl_sources l) \<Longrightarrow> t < bl_next l" for t y
    using assms(1) by (force simp: tokens_ok_def)
  have none: "toks i = None" using assms by (auto simp: tokens_ok_def)
  have nosrc: "(t, BusConn i side, f) \<notin> set (bl_sources l)" for t side f
    using assms(1) none unfolding tokens_ok_def by fastforce
  show ?thesis
    using assms none unfolding tokens_ok_def
    by (intro conjI) (auto simp: less_Suc_eq nosrc dest: fresh split: drop_side.splits)
qed

lemma source_unique:
  "tokens_ok conns toks l \<Longrightarrow> (t, x, f) \<in> set (bl_sources l) \<Longrightarrow> (t, y, g) \<in> set (bl_sources l) \<Longrightarrow> x = y \<and> f = g"
  by (auto simp: tokens_ok_def dest: eq_key_imp_eq_value)

lemma tokens_drop:
  assumes "tokens_ok conns toks l"
  shows "tokens_ok (conns(i := None)) (toks(i := None))
    (case toks i of None \<Rightarrow> l | Some (c, u) \<Rightarrow> bus_remove c (bus_remove u l))"
proof (cases "toks i")
  case None
  then have "i \<notin> dom conns" using assms by (auto simp: tokens_ok_def)
  then have "conns(i := None) = conns" "toks(i := None) = toks" using None by auto
  then show ?thesis using assms None by simp
next
  case (Some cu)
  obtain c u where cu: "toks i = Some (c, u)" using Some by (cases cu) auto
  let ?l = "bus_remove c (bus_remove u l)"
  have src: "\<exists>f. (c, BusConn i ClientSide, f) \<in> set (bl_sources l)" "\<exists>f. (u, BusConn i UpstreamSide, f) \<in> set (bl_sources l)"
    using assms cu by (auto simp: tokens_ok_def)
  have kept: "(t, BusConn j side, f) \<in> set (bl_sources ?l) \<longleftrightarrow> (t, BusConn j side, f) \<in> set (bl_sources l) \<and> j \<noteq> i" for t j side f
  proof
    assume "(t, BusConn j side, f) \<in> set (bl_sources ?l)"
    then have *: "(t, BusConn j side, f) \<in> set (bl_sources l)" "t \<noteq> c" "t \<noteq> u" by auto
    have "j \<noteq> i"
    proof
      assume "j = i"
      then have "t = (case side of ClientSide \<Rightarrow> c | UpstreamSide \<Rightarrow> u)" using assms *(1) cu by (fastforce simp: tokens_ok_def)
      then show False using * by (cases side) auto
    qed
    then show "(t, BusConn j side, f) \<in> set (bl_sources l) \<and> j \<noteq> i" using * by simp
  next
    assume *: "(t, BusConn j side, f) \<in> set (bl_sources l) \<and> j \<noteq> i"
    then have "t \<noteq> c \<and> t \<noteq> u" using src source_unique [OF assms] by blast
    then show "(t, BusConn j side, f) \<in> set (bl_sources ?l)" using * by auto
  qed
  have "distinct (map fst (bl_sources ?l))" "\<forall>t \<in> set (map fst (bl_sources ?l)). t < bl_next ?l"
    using assms by (auto simp: tokens_ok_def distinct_map_filter)
  moreover have "dom (toks(i := None)) = dom (conns(i := None))" using assms by (auto simp: tokens_ok_def)
  ultimately show ?thesis
    using assms unfolding cu option.case prod.case tokens_ok_def kept by (auto simp del: bus_remove_fields split: if_splits)
qed

lemma tokens_later: "tokens_ok conns toks l \<Longrightarrow> bl_sources l' = bl_sources l \<Longrightarrow> bl_next l \<le> bl_next l' \<Longrightarrow> tokens_ok conns toks l'"
  by (fastforce simp: tokens_ok_def)

lemma register_effect:
  assumes "register_dbus_connection ra i br l = (br', l')" "br_broker br = Some b" "connections b i \<noteq> None"
    and "tokens_ok ((connections b)(i := None)) (connection_tokens br) l"
  shows "\<exists>b'. br_broker br' = Some b' \<and> (b' = b \<or> b' = remove_connection i b) \<and>
    tokens_ok (connections b') (connection_tokens br') l'"
proof -
  let ?conns = "(connections b)(i := None)"
  have old: "\<forall>t \<in> set (map fst (bl_sources l)). t < bl_next l" using assms(4) by (simp add: tokens_ok_def)
  then have filt: "filter (\<lambda>(t', _). t' \<noteq> bl_next l) (bl_sources l) = bl_sources l" by (auto simp: filter_id_conv)
  have refused: ?thesis if "br' = on_broker (remove_connection i) br" "bl_sources l' = bl_sources l" "bl_next l \<le> bl_next l'"
    using that tokens_later [OF assms(4)] assms(2) by (auto simp: on_broker_def remove_connection_def)
  show ?thesis
  proof (cases "\<exists>cf uf. ra_dup_client ra = Some cf \<and> ra_dup_upstream ra = Some uf \<and> ra_insert_client ra \<and> ra_insert_upstream ra")
    case True
    then obtain cf uf where a: "ra_dup_client ra = Some cf" "ra_dup_upstream ra = Some uf" "ra_insert_client ra" "ra_insert_upstream ra"
      by blast
    obtain x where x: "connections b i = Some x" using assms(3) by auto
    have "?conns(i \<mapsto> x) = connections b" using x by auto
    moreover have "br' = br\<lparr>connection_tokens := (connection_tokens br)(i \<mapsto> (bl_next l, bl_next l + 1))\<rparr>"
      "l' = snd (bus_insert (BusConn i UpstreamSide) uf (snd (bus_insert (BusConn i ClientSide) cf l)))"
      using assms(1) a by (simp_all add: register_dbus_connection_def Let_def split_beta)
    ultimately show ?thesis
      using tokens_register [OF assms(4), of i x uf cf] assms(2) by simp
  next
    case False
    then show ?thesis
      using assms(1) filt
      by (intro refused) (auto simp: register_dbus_connection_def Let_def split_beta split: option.splits if_splits)
  qed
qed

lemma accepted_connection:
  assumes "accept_one acc dial nb b = (Inr (Some i), b')"
  shows "i = next_conn_id b \<and> (\<exists>x. connections b' = (connections b)(i \<mapsto> x))"
  using assms by (auto simp: accept_one_def Let_def split: sum.splits io_error.splits)

lemma accept_inv:
  "bridge_inv zv fp N (br, l) \<Longrightarrow> N + length ans < 2 ^ 64 - 1 \<Longrightarrow> bridge_inv zv fp (N + length ans) (handle_dbus_accept ans br l)"
proof (induction ans arbitrary: br l N)
  case Nil
  then show ?case by (auto simp: bridge_inv_def)
next
  case (Cons an ans)
  obtain b n where b: "br_broker br = Some b" "broker_run zv fp b n" "n \<le> N" "tokens_ok (connections b) (connection_tokens br) l"
    using Cons.prems(1) by (auto simp: bridge_inv_def)
  obtain r b1 where a: "accept_one (an_accept an) (an_dial an) (an_nonblocking an) b = (r, b1)" by fastforce
  show ?case
  proof (cases "\<exists>i. r = Inr (Some i)")
    case True
    then obtain i where r: "r = Inr (Some i)" by blast
    obtain br2 l2 where g: "register_dbus_connection (an_register an) i (br\<lparr>br_broker := Some b1\<rparr>) l = (br2, l2)" by fastforce
    note acc = accepted_connection [OF a [unfolded r]]
    have "n < 2 ^ 64 - 1" using b(3) Cons.prems(2) by simp
    then have fresh: "connections b i = None"
      using broker_run_ids [OF b(2)] acc by (force simp: ids_below_def)
    then have "(connections b1)(i := None) = connections b" using acc by auto
    then obtain b2 where b2: "br_broker br2 = Some b2" "b2 = b1 \<or> b2 = remove_connection i b1"
        "tokens_ok (connections b2) (connection_tokens br2) l2"
      using register_effect [OF g, of b1] acc b(4) by auto
    have "broker_run zv fp b1 (Suc n)" using b(2) a [unfolded r] by (rule b_accept)
    then have "broker_run zv fp b2 (Suc n)" using b2(2) b_remove by blast
    then have "bridge_inv zv fp (Suc N) (br2, l2)" using b2 b(3) by (auto simp: bridge_inv_def)
    then show ?thesis
      using Cons.IH [of "Suc N" br2 l2] Cons.prems(2) by (simp add: b(1) a r g)
  next
    case False
    have "b1 = b" using a False by (auto simp: accept_one_def Let_def split: sum.splits io_error.splits)
    then show ?thesis using b False by (auto simp: a bridge_inv_def split: sum.splits option.splits)
  qed
qed

lemma pump_run:
  assumes "pump zv fp i side b = Some (r, b')" "broker_run zv fp b n"
  shows "broker_run zv fp b' n \<and> dom (connections b') = dom (connections b)"
proof (cases side)
  case ClientSide
  then have "pump_client_to_upstream zv fp i b = Some (r, b')" using assms(1) by (simp add: pump_def)
  then show ?thesis using b_client [OF assms(2)] same_ids(1) by blast
next
  case UpstreamSide
  then have "pump_upstream_to_client zv i b = (r, b')" using assms(1) by (simp add: pump_def)
  then show ?thesis using b_upstream [OF assms(2)] same_ids(2) by blast
qed

lemma conn_inv:
  assumes "bridge_inv zv fp N (br, l)" "map_of (bl_sources l) t = Some (BusConn i side, f)"
    and "bus_conn_ready zv fp t i side br l = Some s'"
  shows "bridge_inv zv fp N s'"
proof -
  obtain b n where b: "br_broker br = Some b" "broker_run zv fp b n" "n \<le> N" "tokens_ok (connections b) (connection_tokens br) l"
    using assms(1) by (auto simp: bridge_inv_def)
  obtain r b1 where p: "pump zv fp i side b = Some (r, b1)" using assms(3) by (auto simp: bus_conn_ready_def b(1))
  have b1: "broker_run zv fp b1 n" "dom (connections b1) = dom (connections b)" using pump_run [OF p b(2)] by auto
  then have ok: "tokens_ok (connections b1) (connection_tokens br) l" using b(4) by (auto intro: tokens_cong)
  show ?thesis
  proof (cases "r = Inr Active")
    case True
    then show ?thesis using assms(3) b(1,3) b1 ok p by (auto simp: bus_conn_ready_def bridge_inv_def Let_def)
  next
    case False
    obtain c u where cu: "connection_tokens br i = Some (c, u)" "t = (case side of ClientSide \<Rightarrow> c | UpstreamSide \<Rightarrow> u)"
      using b(4) map_of_SomeD [OF assms(2)] unfolding tokens_ok_def by blast
    let ?l = "bus_remove t (bus_remove (case side of ClientSide \<Rightarrow> u | UpstreamSide \<Rightarrow> c) l)"
    have s': "s' = (on_broker (remove_connection i) (br\<lparr>br_broker := Some b1, connection_tokens := (connection_tokens br)(i := None)\<rparr>), ?l)"
      using assms(3) False cu(1) p b(1) by (auto simp: bus_conn_ready_def drop_dbus_connection_def Let_def)
    have "bl_sources ?l = bl_sources (bus_remove c (bus_remove u l))"
      using cu(2) by (cases side) (auto intro!: filter_cong)
    then have "tokens_ok ((connections b1)(i := None)) ((connection_tokens br)(i := None)) ?l"
      using tokens_drop [OF ok, of i] cu(1) by (auto intro: tokens_later)
    then show ?thesis
      using b(3) b1(1) b_remove [OF b1(1), of i] unfolding s'
      by (auto simp: bridge_inv_def on_broker_def remove_connection_def)
  qed
qed

lemma broker_only_inv:
  assumes "bridge_inv zv fp N (br, l)" "\<And>b n. broker_run zv fp b n \<Longrightarrow> broker_run zv fp (g b) n"
    "\<And>b. dom (connections (g b)) = dom (connections b)"
  shows "bridge_inv zv fp N (on_broker g br, l)"
proof -
  obtain b n where b: "br_broker br = Some b" "broker_run zv fp b n" "n \<le> N" "tokens_ok (connections b) (connection_tokens br) l"
    using assms(1) by (auto simp: bridge_inv_def)
  moreover have "tokens_ok (connections (g b)) (connection_tokens br) l"
    by (rule tokens_cong [OF b(4) assms(3) refl refl])
  ultimately show ?thesis using assms(2) [OF b(2)] by (auto simp: bridge_inv_def on_broker_def)
qed

text \<open>What the rest of the compositor does with the broker keeps its connections.\<close>

lemma commit_keeps:
  "broker_run zv fp b n \<Longrightarrow> broker_run zv fp (snd (emit_commit_string zv i p t b)) n"
  "dom (connections (snd (emit_commit_string zv i p t b))) = dom (connections b)"
  by (metis b_commit prod.collapse, metis same_ids(3) prod.collapse)

lemma preedit_keeps:
  "broker_run zv fp b n \<Longrightarrow> broker_run zv fp (snd (emit_preedit zv i p t cur b)) n"
  "dom (connections (snd (emit_preedit zv i p t cur b))) = dom (connections b)"
  by (metis b_preedit prod.collapse, metis same_ids(4) prod.collapse)

lemma drain_keeps:
  "broker_run zv fp b n \<Longrightarrow> broker_run zv fp (snd (drain_events b)) n"
  "dom (connections (snd (drain_events b))) = dom (connections b)"
  by (metis b_drain prod.collapse) (simp add: drain_events_def)

lemma bridge_step_inv:
  "bridge_step zv fp quiet s m s' \<Longrightarrow> bridge_inv zv fp N s \<Longrightarrow> N + m < 2 ^ 64 - 1 \<Longrightarrow> bridge_inv zv fp (N + m) s'"
proof (induction rule: bridge_step.induct)
  case (bs_accept l t f ans br s')
  then show ?case using accept_inv by (auto simp: bus_ready_def)
next
  case (bs_conn l t i side f ans br s')
  then show ?case using conn_inv [of zv fp N br l t i side f s'] by (auto simp: bus_ready_def)
next
  case bs_commit
  then show ?case by (simp add: broker_only_inv commit_keeps)
next
  case bs_preedit
  then show ?case by (simp add: broker_only_inv preedit_keeps)
next
  case bs_drain
  then show ?case by (simp add: broker_only_inv drain_keeps)
qed

lemma bridge_run_inv:
  "bridge_run zv fp quiet s n s' \<Longrightarrow> bridge_inv zv fp 0 s \<Longrightarrow> n < 2 ^ 64 - 1 \<Longrightarrow> bridge_inv zv fp n s'"
  by (induction rule: bridge_run.induct) (auto intro: bridge_step_inv)

lemma bridge_start_inv: "bridge_inv zv fp 0 (bridge_start d daemon f)"
  using b_bind [of zv fp]
  by (auto simp: bridge_inv_def bridge_start_def live_bridge_def tokens_ok_def bus_insert_def broker_bind_def)

text \<open>
  C19. Over every run of the bridge with fewer than 2^64 - 1 accepts: a live connection has exactly its two event sources,
  one per side, and no other connection source is registered.
\<close>
theorem bridge_sources:
  assumes "bridge_run zv fp None (bridge_start d daemon f) N (br, l)" "N < 2 ^ 64 - 1"
  shows "\<exists>b. br_broker br = Some b \<and> dom (connection_tokens br) = dom (connections b) \<and>
    (\<forall>i side. if i \<in> dom (connections b)
       then (\<exists>!t. \<exists>f. (t, BusConn i side, f) \<in> set (bl_sources l))
       else (\<forall>t f. (t, BusConn i side, f) \<notin> set (bl_sources l)))"
proof -
  obtain b where b: "br_broker br = Some b" "tokens_ok (connections b) (connection_tokens br) l"
    using bridge_run_inv [OF assms(1) bridge_start_inv assms(2)] by (auto simp: bridge_inv_def)
  have doms: "dom (connection_tokens br) = dom (connections b)" using b(2) by (simp add: tokens_ok_def)
  have "if i \<in> dom (connections b)
       then (\<exists>!t. \<exists>f. (t, BusConn i side, f) \<in> set (bl_sources l))
       else (\<forall>t f. (t, BusConn i side, f) \<notin> set (bl_sources l))" for i side
  proof (cases "connection_tokens br i")
    case None
    then show ?thesis using b(2) doms unfolding tokens_ok_def by (metis domIff option.distinct(1))
  next
    case (Some cu)
    obtain c u where cu: "connection_tokens br i = Some (c, u)" using Some by (cases cu) auto
    have own: "t = (case side of ClientSide \<Rightarrow> c | UpstreamSide \<Rightarrow> u)" if "(t, BusConn i side, f) \<in> set (bl_sources l)" for t f
      using b(2) that cu unfolding tokens_ok_def by fastforce
    have "\<exists>t f. (t, BusConn i side, f) \<in> set (bl_sources l)"
      using b(2) cu unfolding tokens_ok_def by (cases side) blast+
    then have "\<exists>!t. \<exists>f. (t, BusConn i side, f) \<in> set (bl_sources l)" using own by blast
    moreover have "i \<in> dom (connections b)" using cu doms by blast
    ultimately show ?thesis by simp
  qed
  then show ?thesis using b(1) doms by blast
qed

section \<open>Back-pressure\<close>

text \<open>A run that is quiet for connection \<open>i\<close> does not touch it.\<close>

lemma emit_other:
  "j \<noteq> i \<Longrightarrow> connections (snd (emit_commit_string zv j p t b)) i = connections b i"
  "j \<noteq> i \<Longrightarrow> connections (snd (emit_preedit zv j p t cur b)) i = connections b i"
  by (auto simp: emit_commit_string_def emit_preedit_def split: option.splits prod.splits)

lemma pump_other: "pump zv fp j side b = Some (r, b') \<Longrightarrow> j \<noteq> i \<Longrightarrow> connections b' i = connections b i"
  by (auto simp: pump_def pump_client_to_upstream_def pump_upstream_to_client_def
      split: drop_side.splits option.splits prod.splits)

definition conn_of :: "bus_state \<Rightarrow> conn_id \<Rightarrow> connection option" where
  "conn_of s i = Option.bind (br_broker (fst s)) (\<lambda>b. connections b i)"

lemma remove_other [simp]:
  "j \<noteq> i \<Longrightarrow> Option.bind (map_option (remove_connection j) x) (\<lambda>b. connections b i) = Option.bind x (\<lambda>b. connections b i)"
  by (cases x) (simp_all add: remove_connection_def)

lemma register_other:
  "j \<noteq> i \<Longrightarrow> conn_of (register_dbus_connection ra j br l) i = conn_of (br, l) i"
  by (auto simp: register_dbus_connection_def conn_of_def on_broker_def Let_def split_beta split: option.splits)

lemma quiet_conn:
  assumes "j \<noteq> i" "bus_conn_ready zv fp t j side br l = Some s'"
  shows "conn_of s' i = conn_of (br, l) i"
proof (cases "br_broker br")
  case None
  then show ?thesis using assms(2) by (auto simp: bus_conn_ready_def conn_of_def)
next
  case (Some b)
  obtain r b1 where p: "pump zv fp j side b = Some (r, b1)" using assms(2) by (auto simp: bus_conn_ready_def Some)
  show ?thesis
    using assms pump_other [OF p assms(1)]
    by (auto simp: bus_conn_ready_def Some p drop_dbus_connection_def conn_of_def on_broker_def remove_connection_def
        Let_def split: if_splits)
qed

lemma quiet_accept:
  "bridge_inv zv fp N (br, l) \<Longrightarrow> N + length ans < 2 ^ 64 - 1 \<Longrightarrow> conn_of (br, l) i = Some c \<Longrightarrow>
     conn_of (handle_dbus_accept ans br l) i = Some c"
proof (induction ans arbitrary: br l N)
  case (Cons an ans)
  obtain b n where b: "br_broker br = Some b" "broker_run zv fp b n" "n \<le> N"
    using Cons.prems(1) by (auto simp: bridge_inv_def)
  obtain r b1 where a: "accept_one (an_accept an) (an_dial an) (an_nonblocking an) b = (r, b1)" by fastforce
  show ?case
  proof (cases "\<exists>j. r = Inr (Some j)")
    case True
    then obtain j where r: "r = Inr (Some j)" by blast
    obtain br2 l2 where g: "register_dbus_connection (an_register an) j (br\<lparr>br_broker := Some b1\<rparr>) l = (br2, l2)" by fastforce
    note acc = accepted_connection [OF a [unfolded r]]
    have "n < 2 ^ 64 - 1" using b(3) Cons.prems(2) by simp
    then have "connections b j = None" using broker_run_ids [OF b(2)] acc by (force simp: ids_below_def)
    then have "j \<noteq> i" using Cons.prems(3) b(1) by (auto simp: conn_of_def)
    then have "conn_of (br2, l2) i = Some c"
      using register_other [of j i "an_register an" "br\<lparr>br_broker := Some b1\<rparr>" l] g acc Cons.prems(3) b(1)
      by (auto simp: conn_of_def)
    moreover have "bridge_inv zv fp (N + 1) (handle_dbus_accept [an] br l)"
      using accept_inv [of zv fp N br l "[an]"] Cons.prems by simp
    then have "bridge_inv zv fp (Suc N) (br2, l2)" by (simp add: b(1) a r g)
    ultimately show ?thesis
      using Cons.IH [of "Suc N" br2 l2] Cons.prems(2) by (simp add: b(1) a r g)
  next
    case False
    have "b1 = b" using a False by (auto simp: accept_one_def Let_def split: sum.splits io_error.splits)
    then show ?thesis using b(1) False Cons.prems(3) by (auto simp: a conn_of_def split: sum.splits option.splits)
  qed
qed simp

lemma quiet_bridge_step:
  "bridge_step zv fp (Some i) s m s' \<Longrightarrow> bridge_inv zv fp N s \<Longrightarrow> N + m < 2 ^ 64 - 1 \<Longrightarrow> conn_of s i = Some c \<Longrightarrow>
     conn_of s' i = Some c"
proof (induction rule: bridge_step.induct)
  case (bs_accept l t f ans br s')
  then show ?case using quiet_accept by (auto simp: bus_ready_def)
next
  case (bs_conn l t j side f ans br s')
  then show ?case using quiet_conn [of j i zv fp t side br l s'] by (auto simp: bus_ready_def)
next
  case (bs_drain br l)
  then show ?case by (cases "br_broker br") (auto simp: conn_of_def on_broker_def drain_events_def)
qed (auto simp: conn_of_def on_broker_def emit_other bind_eq_Some_conv)

text \<open>
  Nothing in the compositor retries a send that the kernel did not take. When the socket of a peer was full,
  what is queued for it stays queued, whatever the other connections do and however much room the socket has
  again, until one of the two peers of this very connection sends something or the input method does: no run without
  such an event changes the connection, although flushing its queue would send it.
\<close>
theorem back_pressure_stalls:
  assumes "bridge_run zv fp None (bridge_start d daemon f) N s" "conn_of s i = Some c"
    and "bridge_run zv fp (Some i) s M (br, l)" "N + M < 2 ^ 64 - 1"
    and "upstream_out c \<noteq> []" "try_flush (c_upstream c) (upstream_out c) = (Inr (), sock, [])"
  shows "\<exists>b. br_broker br = Some b \<and> connections b i = Some c \<and>
    (\<exists>b'. flush_upstream_out i b = (Inr False, b') \<and> connections b' i = Some (c\<lparr>c_upstream := sock, upstream_out := []\<rparr>))"
proof -
  have start: "bridge_inv zv fp N s" using bridge_run_inv [OF assms(1) bridge_start_inv] assms(4) by simp
  have "bridge_inv zv fp (N + M) s' \<and> conn_of s' i = Some c"
    if "bridge_run zv fp (Some i) s M s'" "bridge_inv zv fp N s" "conn_of s i = Some c" "N + M < 2 ^ 64 - 1" for s s' M
    using that
  proof (induction rule: bridge_run.induct)
    case (br_more s n s1 m s2)
    then show ?case using bridge_step_inv [OF br_more(2), of "N + n"] quiet_bridge_step [OF br_more(2), of "N + n"] by (simp add: add.assoc)
  qed simp
  then have "conn_of (br, l) i = Some c" using assms start by blast
  then show ?thesis
    using assms(6) by (auto simp: conn_of_def bind_eq_Some_conv flush_upstream_out_def flush_upstream_def)
qed

section \<open>Start-up and shutdown\<close>

text \<open>An address made for a path is read back as this path, unless a comma ends it early.\<close>

lemma bus_address_roundtrip:
  "CHR '','' \<notin> set p \<Longrightarrow> parse_unix_bus_address (format_bus_address p) = Some p"
  by (auto simp: parse_unix_bus_address_def format_bus_address_def split_first_def takeWhile_eq_all_conv)

text \<open>The wait for the private bus ends within 122 turns, because a turn takes at least the poll interval.\<close>

lemma wait_ends:
  assumes "\<forall>j < length ps. POLL_INTERVAL * (i + j) \<le> dp_elapsed (ps ! j)" "122 \<le> i + length ps" "ps \<noteq> []"
  shows "wait_for_daemon_socket ps \<noteq> None"
  using assms
proof (induction ps arbitrary: i)
  case (Cons p ps)
  show ?case
  proof (cases "ps = []")
    case True
    then show ?thesis using Cons.prems by (auto simp: TIMEOUT_def POLL_INTERVAL_def split: sum.splits option.splits)
  next
    case False
    have "\<forall>j < length ps. POLL_INTERVAL * (Suc i + j) \<le> dp_elapsed (ps ! j)"
      using Cons.prems(1) by fastforce
    then show ?thesis using Cons.IH [of "Suc i"] Cons.prems False by (auto split: sum.splits option.splits)
  qed
qed simp

text \<open>
  However start-up of the private bus ends, a daemon and a directory are left only with a live bridge; and shutting
  a bridge down, after any run of it, kills its daemon and removes its directory, and nothing else.
\<close>

definition session_dir_of :: "string option \<Rightarrow> nat \<Rightarrow> string" where
  "session_dir_of xdg pid = join (case xdg of None \<Rightarrow> ''/tmp'' | Some r \<Rightarrow> r) (''emskin-dbus-'' @ decimal pid)"

lemma create_dir_cases:
  "create_session_dir xdg pid ok h =
     (if ok then (Some (session_dir_of xdg pid), h\<lparr>bh_dirs := session_dir_of xdg pid # bh_dirs h\<rparr>) else (None, h))"
  by (simp add: create_session_dir_def session_dir_of_def Let_def)

lemma register_keeps_host:
  "register_dbus_connection ra i br l = (br', l') \<Longrightarrow>
     br_session_dir br' = br_session_dir br \<and> isolated_daemon br' = isolated_daemon br"
  by (auto simp: register_dbus_connection_def on_broker_def Let_def split_beta split: option.splits if_splits)

lemma accept_keeps_host:
  "handle_dbus_accept ans br l = (br', l') \<Longrightarrow>
     br_session_dir br' = br_session_dir br \<and> isolated_daemon br' = isolated_daemon br"
proof (induction ans arbitrary: br l)
  case (Cons an ans)
  show ?case
  proof (cases "br_broker br")
    case (Some b)
    obtain r b1 where a: "accept_one (an_accept an) (an_dial an) (an_nonblocking an) b = (r, b1)" by fastforce
    show ?thesis
    proof (cases "\<exists>i. r = Inr (Some i)")
      case True
      then obtain i where r: "r = Inr (Some i)" by blast
      obtain br2 l2 where g: "register_dbus_connection (an_register an) i (br\<lparr>br_broker := Some b1\<rparr>) l = (br2, l2)" by fastforce
      then show ?thesis using Cons register_keeps_host [OF g] by (simp add: Some a r)
    qed (use Cons.prems in \<open>auto simp: Some a split: sum.splits option.splits\<close>)
  qed (use Cons.prems in simp)
qed simp

lemma step_keeps_host:
  "bridge_step zv fp quiet s m s' \<Longrightarrow>
     br_session_dir (fst s') = br_session_dir (fst s) \<and> isolated_daemon (fst s') = isolated_daemon (fst s)"
proof (induction rule: bridge_step.induct)
  case (bs_accept l t f ans br s')
  then show ?case using accept_keeps_host [of ans br l] by (cases s') (simp add: bus_ready_def)
next
  case (bs_conn l t i side f ans br s')
  then show ?case
    by (auto simp: bus_ready_def bus_conn_ready_def drop_dbus_connection_def on_broker_def Let_def
        split: option.splits if_splits)
qed (simp_all add: on_broker_def)

lemma run_keeps_host:
  "bridge_run zv fp quiet s n s' \<Longrightarrow>
     br_session_dir (fst s') = br_session_dir (fst s) \<and> isolated_daemon (fst s') = isolated_daemon (fst s)"
  by (induction rule: bridge_run.induct) (use step_keeps_host in fastforce)+

theorem isolated_bus_lifecycle:
  assumes "bridge_init_isolated xdg pid ia h = (br, h1)"
    and "session_dir_of xdg pid \<notin> set (bh_dirs h)" "\<forall>p. ia_daemon ia = Some p \<longrightarrow> p \<notin> set (bh_daemons h)"
  shows "(br_broker br = None \<longrightarrow> br = bridge_default \<and> h1 = h) \<and>
    (\<forall>l n s. bridge_run zv fp None (br, l) n s \<longrightarrow> snd (bridge_shutdown (fst s) h1) = h)"
proof -
  have "br_broker br = None \<longrightarrow> br = bridge_default \<and> h1 = h"
    using assms
    by (auto simp: bridge_init_isolated_def create_dir_cases remove_dir_all_def kill_daemon_def live_bridge_def Let_def
        split: if_splits option.splits sum.splits)
  moreover have "snd (bridge_shutdown br' h1) = h"
    if "br_session_dir br' = br_session_dir br" "isolated_daemon br' = isolated_daemon br" for br'
    using assms that
    by (auto simp: bridge_init_isolated_def create_dir_cases remove_dir_all_def kill_daemon_def live_bridge_def
        bridge_default_def bridge_shutdown_def Let_def split: if_splits option.splits sum.splits)
  ultimately show ?thesis using run_keeps_host by fastforce
qed

section \<open>Witnesses\<close>

definition demo_accept :: accept_answers where
  "demo_accept = \<lparr>an_accept = Inr (demo_client_socket [Received [0] []]),
     an_dial = Inr \<lparr>to_send = [SendErr WouldBlock, Sent 1], to_recv = [], wire_out = []\<rparr>, an_nonblocking = Inr (),
     an_register = \<lparr>ra_dup_client = Some 21, ra_dup_upstream = Some 22, ra_insert_client = True, ra_insert_upstream = True\<rparr>\<rparr>"

lemma demo_feed: "feed_from_client conn_new [0] =
    (Inr \<lparr>outbound = [0], frame_ranges = []\<rparr>, \<lparr>client_phase = Auth, auth_accumulator = [0], msg_buf = []\<rparr>)"
proof -
  have "find_begin_end [0] = Inr None"
    by (simp add: find_begin_end_def scan_lines.simps find_sentinel.simps SENTINEL_def MAX_AUTH_BUFFER_def)
  then show ?thesis by (simp add: feed_from_client_def conn_new_def Let_def)
qed

text \<open>The bridge after one accept, and after the first byte of the client, which the bus did not take.\<close>

definition demo_bridge1 :: bus_state where
  "demo_bridge1 = (case bridge_start ''/run/emskin-dbus-1'' None 20 of (br, l) \<Rightarrow> handle_dbus_accept [demo_accept] br l)"

definition demo_stuck :: connection where
  "demo_stuck = (new_connection (demo_client_socket []) \<lparr>to_send = [Sent 1], to_recv = [], wire_out = []\<rparr>)
     \<lparr>c_state := \<lparr>client_phase = Auth, auth_accumulator = [0], msg_buf = []\<rparr>, upstream_out := [bytes_only [0]]\<rparr>"

lemma demo_bridge1_run: "bridge_run demo_zv demo_fp None (bridge_start ''/run/emskin-dbus-1'' None 20) 1 demo_bridge1"
proof -
  obtain br l where s: "bridge_start ''/run/emskin-dbus-1'' None 20 = (br, l)" by fastforce
  have "bridge_step demo_zv demo_fp None (br, l) (length [demo_accept]) demo_bridge1"
    by (rule bs_accept [where t = 0 and f = 20])
      (use s in \<open>auto simp: bridge_start_def bus_insert_def bus_ready_def demo_bridge1_def\<close>)
  then show ?thesis using br_more [OF br_start] s by fastforce
qed

theorem bridge_sources_witness:
  "dom (connection_tokens (fst demo_bridge1)) = {1} \<and>
   (\<exists>!t. \<exists>f. (t, BusConn 1 ClientSide, f) \<in> set (bl_sources (snd demo_bridge1)))"
proof -
  obtain br l where s: "demo_bridge1 = (br, l)" by fastforce
  have toks: "dom (connection_tokens br) = {1}"
    using s by (auto simp: demo_bridge1_def bridge_start_def live_bridge_def demo_accept_def accept_one_def broker_bind_def
        register_dbus_connection_def bus_insert_def Let_def split: if_splits)
  have "1 < (2 :: nat) ^ 64 - 1" by simp
  from bridge_sources [OF demo_bridge1_run [unfolded s] this]
  obtain b :: dbus_broker where "dom (connection_tokens br) = dom (connections b)"
    "\<forall>i side. if i \<in> dom (connections b) then (\<exists>!t. \<exists>f. (t, BusConn i side, f) \<in> set (bl_sources l))
       else (\<forall>t f. (t, BusConn i side, f) \<notin> set (bl_sources l))"
    by blast
  then show ?thesis using toks unfolding s by (metis fst_conv snd_conv singletonI)
qed

definition demo_bridge2 :: bus_state where
  "demo_bridge2 = (case demo_bridge1 of (br, l) \<Rightarrow> the (bus_ready demo_zv demo_fp 1 [] br l))"

lemma demo_bridge2:
  "bus_ready demo_zv demo_fp 1 [] (fst demo_bridge1) (snd demo_bridge1) = Some demo_bridge2"
  "conn_of demo_bridge2 1 = Some demo_stuck" "map_of (bl_sources (snd demo_bridge1)) 1 = Some (BusConn 1 ClientSide, 21)"
proof -
  let ?up = "\<lparr>to_send = [SendErr WouldBlock, Sent 1], to_recv = [], wire_out = []\<rparr>"
  let ?conn = "new_connection (demo_client_socket [Received [0] []]) ?up"
  obtain br l where s: "demo_bridge1 = (br, l)" by fastforce
  have b: "br_broker br = Some \<lparr>connections = [1 \<mapsto> ?conn], next_conn_id = 2, b_events = []\<rparr>"
    and src: "map_of (bl_sources l) 1 = Some (BusConn 1 ClientSide, 21)"
    using s by (auto simp: demo_bridge1_def bridge_start_def live_bridge_def demo_accept_def accept_one_def broker_bind_def
        register_dbus_connection_def bus_insert_def Let_def)
  have flush: "try_flush ?up [bytes_only [0]] = (Inr (), ?up\<lparr>to_send := [Sent 1]\<rparr>, [bytes_only [0]])"
    by (simp add: try_flush.simps pkt_is_empty_def bytes_only_def sendmsg_with_fds_def)
  have "conn_pump_client demo_zv demo_fp 1 ?conn [] = Some (Inr Active, demo_stuck, [])"
    using flush
    by (simp add: conn_pump_client_def new_connection_def recvmsg_with_fds_def demo_client_socket_def client_received_def
        demo_feed [unfolded conn_new_def] conn_new_def client_fast_path_def flush_upstream_def demo_stuck_def bytes_only_def Let_def)
  then have r: "bus_ready demo_zv demo_fp 1 [] br l =
      Some (br\<lparr>br_broker := Some \<lparr>connections = [1 \<mapsto> demo_stuck], next_conn_id = 2, b_events = []\<rparr>\<rparr>, l)"
    by (simp add: bus_ready_def src [simplified] bus_conn_ready_def b pump_def pump_client_to_upstream_def)
  then show "bus_ready demo_zv demo_fp 1 [] (fst demo_bridge1) (snd demo_bridge1) = Some demo_bridge2"
    "conn_of demo_bridge2 1 = Some demo_stuck" "map_of (bl_sources (snd demo_bridge1)) 1 = Some (BusConn 1 ClientSide, 21)"
    using src by (simp_all add: s demo_bridge2_def conn_of_def)
qed

theorem back_pressure_stalls_witness:
  "\<exists>b b' c'. br_broker (fst demo_bridge2) = Some b \<and> upstream_out (the (connections b 1)) \<noteq> [] \<and>
     flush_upstream_out 1 b = (Inr False, b') \<and> connections b' 1 = Some c' \<and> upstream_out c' = []"
proof -
  have "bridge_step demo_zv demo_fp None demo_bridge1 0 demo_bridge2"
    using bs_conn [OF demo_bridge2(3) _ demo_bridge2(1), of None] by simp
  then have run: "bridge_run demo_zv demo_fp None (bridge_start ''/run/emskin-dbus-1'' None 20) 1 demo_bridge2"
    using br_more [OF demo_bridge1_run] by fastforce
  have quiet: "bridge_run demo_zv demo_fp (Some 1) demo_bridge2 0 (fst demo_bridge2, snd demo_bridge2)"
    using br_start [of demo_zv demo_fp "Some 1" demo_bridge2] by simp
  have "try_flush (c_upstream demo_stuck) (upstream_out demo_stuck) =
      (Inr (), \<lparr>to_send = [], to_recv = [], wire_out = [bytes_only [0]]\<rparr>, [])"
    by (simp add: demo_stuck_def new_connection_def try_flush.simps pkt_is_empty_def bytes_only_def sendmsg_with_fds_def)
  moreover have "upstream_out demo_stuck \<noteq> []" by (simp add: demo_stuck_def)
  ultimately show ?thesis
    using back_pressure_stalls [OF run demo_bridge2(2) quiet] by fastforce
qed

theorem isolated_bus_lifecycle_witness:
  "snd (bridge_shutdown (fst (bridge_init_isolated None 7
      \<lparr>ia_dir = True, ia_config = True, ia_daemon = Some 9, ia_wait = Inr (), ia_bind = True\<rparr> \<lparr>bh_dirs = [], bh_daemons = []\<rparr>))
     (snd (bridge_init_isolated None 7
      \<lparr>ia_dir = True, ia_config = True, ia_daemon = Some 9, ia_wait = Inr (), ia_bind = True\<rparr> \<lparr>bh_dirs = [], bh_daemons = []\<rparr>))) =
   \<lparr>bh_dirs = [], bh_daemons = []\<rparr>"
proof -
  let ?ia = "\<lparr>ia_dir = True, ia_config = True, ia_daemon = Some 9, ia_wait = Inr (), ia_bind = True\<rparr>"
  let ?h = "\<lparr>bh_dirs = [], bh_daemons = []\<rparr>"
  obtain br h1 where i: "bridge_init_isolated None 7 ?ia ?h = (br, h1)" by fastforce
  from isolated_bus_lifecycle [OF i, where zv = demo_zv and fp = demo_fp] show ?thesis
    using br_start [of demo_zv demo_fp None "(br, l)" for l] by (fastforce simp: i)
qed

end
