(* ===== verification/X11_Display.thy ===== *)
theory X11_Display
  imports Counters
begin

text \<open>
  The allocation of an X11 display in \<open>crates/emskin/src/xwayland_satellite/sockets.rs\<close>: lock files,
  stale locks, the two listening sockets, and the loop that tries displays in turn.

  The machine is the part of the file system these functions look at (a path to an inode and its
  node) and the abstract socket names that are bound. A path is a byte string. What the
  kernel refuses for other reasons (permissions, limits) is the function \<open>denies\<close> of \<open>kernel\<close>; \<open>kill0\<close> is
  \<open>kill(pid, 0) == 0\<close>. Permission bits of new files and logging are left out; the target is Linux.
\<close>

section \<open>The machine\<close>

datatype node = PlainFile string | SocketFile | DirectoryNode

record machine =
  m_files :: "string \<rightharpoonup> nat \<times> node"
  m_inode :: nat
  m_abstract :: "string list"

datatype fs_op =
    OpCreate string
  | OpRead string
  | OpWrite string
  | OpWriteFd string
  | OpRemove string nat
  | OpBind string
  | OpBindAbstract string

datatype fs_error = AlreadyExists | NotFound | AddrInUse | Refused

record kernel =
  denies :: "fs_op \<Rightarrow> bool"
  kill0 :: "int \<Rightarrow> bool"

type_synonym lock_fd = "string \<times> nat"

definition set_node :: "string \<Rightarrow> nat \<Rightarrow> node \<Rightarrow> machine \<Rightarrow> machine" where
  "set_node p i x m = m\<lparr>m_files := (m_files m)(p \<mapsto> (i, x))\<rparr>"

definition new_node :: "string \<Rightarrow> node \<Rightarrow> machine \<Rightarrow> machine" where
  "new_node p x m = set_node p (m_inode m) x (m\<lparr>m_inode := m_inode m + 1\<rparr>)"

text \<open>\<open>OpenOptions::create_new\<close>, \<open>fs::create_dir\<close>: the path must be free.\<close>

definition fs_create :: "kernel \<Rightarrow> string \<Rightarrow> node \<Rightarrow> machine \<Rightarrow> (fs_error + lock_fd) \<times> machine" where
  "fs_create k p x m =
     (if m_files m p \<noteq> None then (Inl AlreadyExists, m)
      else if denies k (OpCreate p) then (Inl Refused, m)
      else (Inr (p, m_inode m), new_node p x m))"

definition fs_remove :: "kernel \<Rightarrow> string \<Rightarrow> machine \<Rightarrow> (fs_error + unit) \<times> machine" where
  "fs_remove k p m =
     (case m_files m p of
        None \<Rightarrow> (Inl NotFound, m)
      | Some (i, x) \<Rightarrow>
          if x = DirectoryNode \<or> denies k (OpRemove p i) then (Inl Refused, m)
          else (Inr (), m\<lparr>m_files := (m_files m)(p := None)\<rparr>))"

text \<open>\<open>fs::write\<close>: creates the file or truncates it.\<close>

definition fs_write :: "kernel \<Rightarrow> string \<Rightarrow> string \<Rightarrow> machine \<Rightarrow> machine" where
  "fs_write k p d m =
     (if denies k (OpWrite p) then m
      else case m_files m p of
        None \<Rightarrow> new_node p (PlainFile d) m
      | Some (i, PlainFile _) \<Rightarrow> set_node p i (PlainFile d) m
      | Some _ \<Rightarrow> m)"

text \<open>\<open>write_all\<close> on a descriptor at offset 0; an unlinked file is written without a visible effect.\<close>

definition fd_write :: "kernel \<Rightarrow> lock_fd \<Rightarrow> string \<Rightarrow> machine \<Rightarrow> (fs_error + unit) \<times> machine" where
  "fd_write k fd d m =
     (case fd of (p, i) \<Rightarrow>
       if denies k (OpWriteFd p) then (Inl Refused, m)
       else (Inr (),
         case m_files m p of
           Some (j, PlainFile c) \<Rightarrow> if j = i then set_node p i (PlainFile (d @ drop (length d) c)) m else m
         | _ \<Rightarrow> m))"

section \<open>Text\<close>

definition cont_byte :: "nat \<Rightarrow> bool" where
  "cont_byte b \<longleftrightarrow> 0x80 \<le> b \<and> b \<le> 0xBF"

text \<open>Well-formed UTF-8, as \<open>read_to_string\<close> checks it.\<close>

fun utf8_valid :: "nat list \<Rightarrow> bool" where
  "utf8_valid [] = True"
| "utf8_valid (b # bs) =
     (if b < 0x80 then utf8_valid bs
      else case bs of
        [] \<Rightarrow> False
      | c # cs \<Rightarrow>
          if 0xC2 \<le> b \<and> b \<le> 0xDF then cont_byte c \<and> utf8_valid cs
          else case cs of
            [] \<Rightarrow> False
          | d # ds \<Rightarrow>
              if 0xE0 \<le> b \<and> b \<le> 0xEF then
                cont_byte c \<and> (b = 0xE0 \<longrightarrow> 0xA0 \<le> c) \<and> (b = 0xED \<longrightarrow> c \<le> 0x9F) \<and> cont_byte d \<and> utf8_valid ds
              else case ds of
                [] \<Rightarrow> False
              | e # es \<Rightarrow>
                  0xF0 \<le> b \<and> b \<le> 0xF4 \<and> cont_byte c \<and> (b = 0xF0 \<longrightarrow> 0x90 \<le> c) \<and> (b = 0xF4 \<longrightarrow> c \<le> 0x8F) \<and>
                  cont_byte d \<and> cont_byte e \<and> utf8_valid es)"

text \<open>The encodings of the characters that \<open>char::is_whitespace\<close> accepts.\<close>

definition white_space :: "nat list list" where
  "white_space = map (\<lambda>b. [b]) [9, 10, 11, 12, 13, 32] @ [[0xC2, 0x85], [0xC2, 0xA0], [0xE1, 0x9A, 0x80]] @
     map (\<lambda>b. [0xE2, 0x80, b]) ([0x80..<0x8B] @ [0xA8, 0xA9, 0xAF]) @ [[0xE2, 0x81, 0x9F], [0xE3, 0x80, 0x80]]"

fun strip_any :: "nat list list \<Rightarrow> nat list \<Rightarrow> nat list option" where
  "strip_any [] bs = None"
| "strip_any (w # ws) bs = (case strip_prefix w bs of Some r \<Rightarrow> Some r | None \<Rightarrow> strip_any ws bs)"

text \<open>The length bounds the number of characters that can be stripped.\<close>

fun strip_all :: "nat \<Rightarrow> nat list list \<Rightarrow> nat list \<Rightarrow> nat list" where
  "strip_all 0 ws bs = bs"
| "strip_all (Suc f) ws bs = (case strip_any ws bs of None \<Rightarrow> bs | Some r \<Rightarrow> strip_all f ws r)"

text \<open>\<open>str::trim\<close>.\<close>

definition trim :: "nat list \<Rightarrow> nat list" where
  "trim bs =
     (let l = strip_all (length bs) white_space bs in
      rev (strip_all (length l) (map rev white_space) (rev l)))"

text \<open>\<open>str::parse::<u32>\<close>.\<close>

definition parse_u32 :: "nat list \<Rightarrow> u32 option" where
  "parse_u32 bs =
     (let ds = (case bs of [] \<Rightarrow> [] | b # r \<Rightarrow> if b = 43 then r else bs);
          n = foldl (\<lambda>acc b. 10 * acc + (b - 48)) 0 ds in
      if ds \<noteq> [] \<and> list_all (\<lambda>b. 48 \<le> b \<and> b \<le> 57) ds \<and> n < 2 ^ 32 then Some (word_of_nat n) else None)"

section \<open>Lock files\<close>

definition X11_TMP_UNIX_DIR :: string where "X11_TMP_UNIX_DIR = ''/tmp/.X11-unix''"
definition MAX_DISPLAY_ATTEMPTS :: u32 where "MAX_DISPLAY_ATTEMPTS = 256"
definition MAX_SOCKET_BIND_RETRIES :: nat where "MAX_SOCKET_BIND_RETRIES = 50"

definition x11_lock_path :: "u32 \<Rightarrow> string" where
  "x11_lock_path n = ''/tmp/.X'' @ decimal (unat n) @ ''-lock''"

definition x11_socket_path :: "u32 \<Rightarrow> string" where
  "x11_socket_path n = X11_TMP_UNIX_DIR @ ''/X'' @ decimal (unat n)"

definition format_lock_body :: "u32 \<Rightarrow> string" where
  "format_lock_body pid =
     (let d = decimal (unat pid) in replicate (10 - length d) CHR '' '' @ d @ [CHR 0x0A])"

definition pid_alive :: "kernel \<Rightarrow> u32 \<Rightarrow> bool" where
  "pid_alive k pid = kill0 k (sint pid)"

datatype setup_error = SetupIo fs_error | NoFreeDisplay | X11DirPermissions string

definition ensure_x11_unix_dir :: "kernel \<Rightarrow> machine \<Rightarrow> (setup_error + unit) \<times> machine" where
  "ensure_x11_unix_dir k m =
     (case fs_create k X11_TMP_UNIX_DIR DirectoryNode m of
        (Inr _, m1) \<Rightarrow> (Inr (), m1)
      | (Inl AlreadyExists, m1) \<Rightarrow> (Inr (), m1)
      | (Inl e, m1) \<Rightarrow> (Inl (SetupIo e), m1))"

definition read_to_string :: "kernel \<Rightarrow> string \<Rightarrow> machine \<Rightarrow> nat list option" where
  "read_to_string k p m =
     (case m_files m p of
        Some (i, PlainFile c) \<Rightarrow>
          (let bs = map of_char c in if denies k (OpRead p) \<or> \<not> utf8_valid bs then None else Some bs)
      | _ \<Rightarrow> None)"

definition is_stale_lock :: "kernel \<Rightarrow> string \<Rightarrow> machine \<Rightarrow> bool" where
  "is_stale_lock k p m =
     (case read_to_string k p m of
        None \<Rightarrow> False
      | Some contents \<Rightarrow>
          (case parse_u32 (trim contents) of
             None \<Rightarrow> True
           | Some pid \<Rightarrow> if 0 < pid then \<not> pid_alive k pid else True))"

definition reclaim_stale_display :: "kernel \<Rightarrow> u32 \<Rightarrow> machine \<Rightarrow> (fs_error + unit) \<times> machine" where
  "reclaim_stale_display k n m =
     (case fs_remove k (x11_lock_path n) m of
        (Inl e, m1) \<Rightarrow> (Inl e, m1)
      | (Inr _, m1) \<Rightarrow>
          (case fs_remove k (x11_socket_path n) m1 of
             (Inl NotFound, m2) \<Rightarrow> (Inr (), m2)
           | (r, m2) \<Rightarrow> (r, m2)))"

text \<open>The lock file is made first and the pid is written into it by a call of its own.\<close>

definition try_create_lock :: "kernel \<Rightarrow> u32 \<Rightarrow> string \<Rightarrow> machine \<Rightarrow> (fs_error + lock_fd) \<times> machine" where
  "try_create_lock k pid p m =
     (case fs_create k p (PlainFile []) m of
        (Inl e, m1) \<Rightarrow> (Inl e, m1)
      | (Inr fd, m1) \<Rightarrow> (Inr fd, fs_write k p (format_lock_body pid) m1))"

definition try_claim_slot :: "kernel \<Rightarrow> u32 \<Rightarrow> u32 \<Rightarrow> machine \<Rightarrow> (setup_error + lock_fd option) \<times> machine" where
  "try_claim_slot k pid n m =
     (let p = x11_lock_path n in
      case try_create_lock k pid p m of
        (Inr fd, m1) \<Rightarrow> (Inr (Some fd), m1)
      | (Inl e, m1) \<Rightarrow>
          if e \<noteq> AlreadyExists then (Inl (SetupIo e), m1)
          else if \<not> is_stale_lock k p m1 then (Inr None, m1)
          else case reclaim_stale_display k n m1 of
            (Inl _, m2) \<Rightarrow> (Inr None, m2)
          | (Inr _, m2) \<Rightarrow>
              (case try_create_lock k pid p m2 of
                 (Inr fd, m3) \<Rightarrow> (Inr (Some fd), m3)
               | (Inl _, m3) \<Rightarrow> (Inr None, m3)))"

fun pick_from :: "kernel \<Rightarrow> u32 \<Rightarrow> u32 list \<Rightarrow> machine \<Rightarrow> (setup_error + u32 \<times> lock_fd) \<times> machine" where
  "pick_from k pid [] m = (Inl NoFreeDisplay, m)"
| "pick_from k pid (n # ns) m =
     (case try_claim_slot k pid n m of
        (Inl e, m1) \<Rightarrow> (Inl e, m1)
      | (Inr (Some fd), m1) \<Rightarrow> (Inr (n, fd), m1)
      | (Inr None, m1) \<Rightarrow> pick_from k pid ns m1)"

text \<open>The upper end of the range wraps around, as in a release build.\<close>

definition pick_x11_display :: "kernel \<Rightarrow> u32 \<Rightarrow> u32 \<Rightarrow> machine \<Rightarrow> (setup_error + u32 \<times> lock_fd) \<times> machine" where
  "pick_x11_display k pid start m =
     pick_from k pid (map word_of_nat [unat start..<unat (start + MAX_DISPLAY_ATTEMPTS)]) m"

section \<open>Sockets\<close>

definition bind_abstract :: "kernel \<Rightarrow> u32 \<Rightarrow> machine \<Rightarrow> (fs_error + string) \<times> machine" where
  "bind_abstract k n m =
     (let a = x11_socket_path n in
      if a \<in> set (m_abstract m) then (Inl AddrInUse, m)
      else if denies k (OpBindAbstract a) then (Inl Refused, m)
      else (Inr a, m\<lparr>m_abstract := a # m_abstract m\<rparr>))"

definition unbind :: "string \<Rightarrow> machine \<Rightarrow> machine" where
  "unbind a m = m\<lparr>m_abstract := removeAll a (m_abstract m)\<rparr>"

text \<open>Dropping an \<open>Unlink\<close>.\<close>

definition unlink :: "kernel \<Rightarrow> string \<Rightarrow> machine \<Rightarrow> machine" where
  "unlink k p m = snd (fs_remove k p m)"

definition bind_unix :: "kernel \<Rightarrow> u32 \<Rightarrow> machine \<Rightarrow> (fs_error + string) \<times> machine" where
  "bind_unix k n m =
     (let p = x11_socket_path n;
          m1 = unlink k p m in
      if m_files m1 p \<noteq> None then (Inl AddrInUse, unlink k p m1)
      else if denies k (OpBind p) then (Inl Refused, unlink k p m1)
      else (Inr p, new_node p SocketFile m1))"

definition open_display_sockets :: "kernel \<Rightarrow> u32 \<Rightarrow> machine \<Rightarrow> (fs_error + string \<times> string) \<times> machine" where
  "open_display_sockets k n m =
     (case bind_abstract k n m of
        (Inl e, m1) \<Rightarrow> (Inl e, m1)
      | (Inr a, m1) \<Rightarrow>
          (case bind_unix k n m1 of
             (Inl e, m2) \<Rightarrow> (Inl e, unbind a m2)
           | (Inr u, m2) \<Rightarrow> (Inr (a, u), m2)))"

record x11_sockets =
  xs_display :: u32
  xs_display_name :: string
  abstract_fd :: "string option"
  unix_fd :: string
  unix_guard :: string
  lock_guard :: string

function setup_loop ::
  "kernel \<Rightarrow> u32 \<Rightarrow> u32 \<Rightarrow> nat \<Rightarrow> machine \<Rightarrow> (setup_error + x11_sockets) \<times> machine" where
  "setup_loop k pid n attempt m =
     (case pick_x11_display k pid n m of
        (Inl e, m1) \<Rightarrow> (Inl e, m1)
      | (Inr (d, fd), m1) \<Rightarrow>
          (let guard = fst fd in
           case fd_write k fd (format_lock_body pid) m1 of
             (Inl e, m2) \<Rightarrow> (Inl (SetupIo e), unlink k guard m2)
           | (Inr _, m2) \<Rightarrow>
               (case open_display_sockets k d m2 of
                  (Inr (a, u), m3) \<Rightarrow>
                    (Inr \<lparr>xs_display = d, xs_display_name = CHR '':'' # decimal (unat d), abstract_fd = Some a,
                          unix_fd = u, unix_guard = u, lock_guard = guard\<rparr>, m3)
                | (Inl e, m3) \<Rightarrow>
                    if MAX_SOCKET_BIND_RETRIES \<le> attempt then (Inl (SetupIo e), unlink k guard m3)
                    else setup_loop k pid (d + 1) (attempt + 1) (unlink k guard m3))))"
  by pat_completeness auto
termination
  by (relation "measure (\<lambda>(k, pid, n, attempt, m). Suc MAX_SOCKET_BIND_RETRIES - attempt)") auto

declare setup_loop.simps [simp del]

definition setup_connection :: "kernel \<Rightarrow> u32 \<Rightarrow> u32 \<Rightarrow> machine \<Rightarrow> (setup_error + x11_sockets) \<times> machine" where
  "setup_connection k pid start m =
     (case ensure_x11_unix_dir k m of
        (Inl e, m1) \<Rightarrow> (Inl e, m1)
      | (Inr _, m1) \<Rightarrow> setup_loop k pid start 0 m1)"

text \<open>Dropping \<open>X11Sockets\<close>: the fields in the order of their declaration.\<close>

definition sockets_drop :: "kernel \<Rightarrow> x11_sockets \<Rightarrow> machine \<Rightarrow> machine" where
  "sockets_drop k xs m =
     unlink k (lock_guard xs) (unlink k (unix_guard xs)
       (case abstract_fd xs of None \<Rightarrow> m | Some a \<Rightarrow> unbind a m))"

definition unix_socket_path :: "x11_sockets \<Rightarrow> string" where
  "unix_socket_path xs = X11_TMP_UNIX_DIR @ ''/X'' @ decimal (unat (xs_display xs))"

definition lock_path :: "x11_sockets \<Rightarrow> string" where
  "lock_path xs = ''/tmp/.X'' @ decimal (unat (xs_display xs)) @ ''-lock''"

end
