(* ===== verification/Satellite.thy ===== *)
theory Satellite
  imports X11_Display
begin

text \<open>
  The supervision of xwayland-satellite: \<open>spawn.rs\<close> and \<open>watch.rs\<close> of \<open>crates/emskin/src/xwayland_satellite\<close>,
  \<open>state/xwayland.rs\<close>, and \<open>start_xwayland_satellite\<close> of \<open>main.rs\<close>.

  The event loop is the list of sources registered in it, by token; the spawner threads that have not
  ended, the messages in the rearm channel and the clients waiting on the two sockets are kept with it.
  Whether a system call succeeds is given with the operation that makes it. Logging is left out.
\<close>

section \<open>The command\<close>

record spawn_config =
  sc_binary :: string
  sc_wayland_socket :: string
  sc_xdg_runtime_dir :: string

text \<open>
  A \<open>Command\<close>: the environment changes are \<open>Some\<close> value or \<open>None\<close> for a removal, and \<open>keep_fds\<close> are the
  descriptors whose close-on-exec flag the \<open>pre_exec\<close> hook clears, in order.
\<close>

record spawn_command =
  sp_program :: string
  sp_args :: "string list"
  sp_env :: "(string \<times> string option) list"
  sp_null_stdio :: bool
  sp_keep_fds :: "nat list"

definition build_spawn_command_raw :: "spawn_config \<Rightarrow> string \<Rightarrow> nat \<Rightarrow> nat option \<Rightarrow> spawn_command" where
  "build_spawn_command_raw config name unix abst =
     \<lparr>sp_program = sc_binary config,
      sp_args = [name, ''-listenfd'', decimal unix] @ (case abst of None \<Rightarrow> [] | Some r \<Rightarrow> [''-listenfd'', decimal r]),
      sp_env = [(''WAYLAND_DISPLAY'', Some (sc_wayland_socket config)), (''XDG_RUNTIME_DIR'', Some (sc_xdg_runtime_dir config)),
                (''DISPLAY'', None), (''RUST_BACKTRACE'', None), (''RUST_LIB_BACKTRACE'', None)],
      sp_null_stdio = True,
      sp_keep_fds = unix # (case abst of None \<Rightarrow> [] | Some r \<Rightarrow> [r])\<rparr>"

text \<open>The command that \<open>test_ondemand\<close> runs, and its verdict: \<open>None\<close> is a failed spawn or wait.\<close>

definition test_command :: "string \<Rightarrow> spawn_command" where
  "test_command binary =
     \<lparr>sp_program = binary, sp_args = ['':0'', ''--test-listenfd-support''],
      sp_env = [(''DISPLAY'', None), (''RUST_BACKTRACE'', None), (''RUST_LIB_BACKTRACE'', None)],
      sp_null_stdio = True, sp_keep_fds = []\<rparr>"

definition test_ondemand :: "(spawn_command \<Rightarrow> i32 option) \<Rightarrow> string \<Rightarrow> bool" where
  "test_ondemand run binary = (run (test_command binary) = Some 0)"

definition FD_CLOEXEC :: i32 where "FD_CLOEXEC = 1"

text \<open>\<open>clear_cloexec\<close>: the answer of \<open>F_GETFD\<close>, and what \<open>F_SETFD\<close> answers; the new flags when it succeeds.\<close>

definition clear_cloexec :: "i32 \<Rightarrow> (i32 \<Rightarrow> i32) \<Rightarrow> unit + i32" where
  "clear_cloexec cur setfd =
     (if sint cur < 0 then Inl ()
      else let new = and cur (not FD_CLOEXEC) in
        if sint (setfd new) < 0 then Inl () else Inr new)"

section \<open>State\<close>

datatype watch_state = Disarmed | Watching nat "nat option" | Running

record xwls =
  x_sockets :: x11_sockets
  x_spawn_cfg :: spawn_config
  x_state :: watch_state
  spawner_done :: bool

datatype sock_kind = UnixSocket | AbstractSocket

record 'c xloop =
  xl_sources :: "(nat \<times> sock_kind) list"
  xl_next :: nat
  xl_threads :: nat
  xl_rearms :: nat
  xl_dones :: nat
  xl_waiting :: "sock_kind \<Rightarrow> 'c list"
  xl_refused :: "'c list"

datatype sat_error = CloneFailed | InsertFailed | ThreadFailed

record arm_answers =
  aa_clone_unix :: bool
  aa_clone_abstract :: bool
  aa_insert_unix :: bool
  aa_insert_abstract :: bool

record spawn_answers =
  sa_clone_unix :: bool
  sa_clone_abstract :: bool
  sa_thread :: bool

definition xwls_new :: "x11_sockets \<Rightarrow> spawn_config \<Rightarrow> xwls" where
  "xwls_new sockets cfg = \<lparr>x_sockets = sockets, x_spawn_cfg = cfg, x_state = Disarmed, spawner_done = False\<rparr>"

definition set_spawner_done_hook :: "xwls \<Rightarrow> xwls" where
  "set_spawner_done_hook x = x\<lparr>spawner_done := True\<rparr>"

definition is_disarmed :: "xwls \<Rightarrow> bool" where "is_disarmed x \<longleftrightarrow> x_state x = Disarmed"
definition is_watching :: "xwls \<Rightarrow> bool" where "is_watching x \<longleftrightarrow> (\<exists>u a. x_state x = Watching u a)"
definition is_running :: "xwls \<Rightarrow> bool" where "is_running x \<longleftrightarrow> x_state x = Running"

definition insert_source :: "sock_kind \<Rightarrow> 'c xloop \<Rightarrow> nat \<times> 'c xloop" where
  "insert_source k l = (xl_next l, l\<lparr>xl_sources := xl_sources l @ [(xl_next l, k)], xl_next := xl_next l + 1\<rparr>)"

definition remove_source :: "nat \<Rightarrow> 'c xloop \<Rightarrow> 'c xloop" where
  "remove_source t l = l\<lparr>xl_sources := filter (\<lambda>(t', _). t' \<noteq> t) (xl_sources l)\<rparr>"

definition remove_watch :: "nat \<Rightarrow> nat option \<Rightarrow> 'c xloop \<Rightarrow> 'c xloop" where
  "remove_watch u a l = (case a of None \<Rightarrow> remove_source u l | Some t \<Rightarrow> remove_source t (remove_source u l))"

section \<open>Arming, connecting, rearming\<close>

definition has_abstract :: "xwls \<Rightarrow> bool" where
  "has_abstract x \<longleftrightarrow> abstract_fd (x_sockets x) \<noteq> None"

definition arm :: "arm_answers \<Rightarrow> xwls \<Rightarrow> 'c xloop \<Rightarrow> (sat_error + unit) \<times> xwls \<times> 'c xloop" where
  "arm aa x l =
     (if x_state x \<noteq> Disarmed then (Inr (), x, l)
      else if \<not> aa_clone_unix aa \<or> has_abstract x \<and> \<not> aa_clone_abstract aa then (Inl CloneFailed, x, l)
      else if \<not> aa_insert_unix aa then (Inl InsertFailed, x, l)
      else
        (let (u, l1) = insert_source UnixSocket l in
         if \<not> has_abstract x then (Inr (), x\<lparr>x_state := Watching u None\<rparr>, l1)
         else if \<not> aa_insert_abstract aa then (Inl InsertFailed, x, l1)
         else let (a, l2) = insert_source AbstractSocket l1 in (Inr (), x\<lparr>x_state := Watching u (Some a)\<rparr>, l2)))"

definition disarm :: "xwls \<Rightarrow> 'c xloop \<Rightarrow> xwls \<times> 'c xloop" where
  "disarm x l =
     (x\<lparr>x_state := Disarmed\<rparr>, case x_state x of Watching u a \<Rightarrow> remove_watch u a l | _ \<Rightarrow> l)"

definition spawn_satellite_thread ::
  "spawn_answers \<Rightarrow> xwls \<Rightarrow> 'c xloop \<Rightarrow> (sat_error + unit) \<times> xwls \<times> 'c xloop" where
  "spawn_satellite_thread sa x l =
     (if \<not> sa_clone_unix sa \<or> has_abstract x \<and> \<not> sa_clone_abstract sa then (Inl CloneFailed, x, l)
      else if \<not> sa_thread sa then (Inl ThreadFailed, x, l)
      else (Inr (), x\<lparr>x_state := Running\<rparr>, l\<lparr>xl_threads := xl_threads l + 1\<rparr>))"

definition on_socket_connect ::
  "spawn_answers \<Rightarrow> arm_answers \<Rightarrow> xwls \<Rightarrow> 'c xloop \<Rightarrow> (sat_error + unit) \<times> xwls \<times> 'c xloop" where
  "on_socket_connect sa aa x l =
     (case x_state x of
        Watching u a \<Rightarrow>
          (let l1 = remove_watch u a l; x1 = x\<lparr>x_state := Disarmed\<rparr> in
           case spawn_satellite_thread sa x1 l1 of
             (Inr _, x2, l2) \<Rightarrow> (Inr (), x2, l2)
           | (Inl e, x2, l2) \<Rightarrow> (case arm aa x2 l2 of (_, x3, l3) \<Rightarrow> (Inl e, x3, l3)))
      | _ \<Rightarrow> (Inr (), x, l))"

text \<open>\<open>clear_out_pending_connections\<close>: accept until none is left; what is accepted is dropped.\<close>

definition clear_out_pending_connections :: "sock_kind \<Rightarrow> 'c xloop \<Rightarrow> 'c xloop" where
  "clear_out_pending_connections k l =
     l\<lparr>xl_waiting := (xl_waiting l)(k := []), xl_refused := xl_refused l @ xl_waiting l k\<rparr>"

definition drain_pending_in_place :: "bool \<Rightarrow> xwls \<Rightarrow> 'c xloop \<Rightarrow> (sat_error + unit) \<times> 'c xloop" where
  "drain_pending_in_place clone_ok x l =
     (if \<not> clone_ok then (Inl CloneFailed, l)
      else (Inr (), (if has_abstract x then clear_out_pending_connections AbstractSocket else id)
        (clear_out_pending_connections UnixSocket l)))"

definition on_rearm :: "bool \<Rightarrow> arm_answers \<Rightarrow> xwls \<Rightarrow> 'c xloop \<Rightarrow> (sat_error + unit) \<times> xwls \<times> 'c xloop" where
  "on_rearm clone_ok aa x l =
     (case drain_pending_in_place clone_ok x l of
        (Inl e, l1) \<Rightarrow> (Inl e, x, l1)
      | (Inr _, l1) \<Rightarrow> arm aa (x\<lparr>x_state := Disarmed\<rparr>) l1)"

text \<open>
  The end of \<open>spawn_and_wait\<close>, whatever became of the child: the hook is told if there is one, and a
  rearm is requested.
\<close>

definition spawn_and_wait :: "xwls \<Rightarrow> 'c xloop \<Rightarrow> 'c xloop" where
  "spawn_and_wait x l =
     l\<lparr>xl_threads := xl_threads l - 1, xl_dones := xl_dones l + (if spawner_done x then 1 else 0),
       xl_rearms := xl_rearms l + 1\<rparr>"

text \<open>The callback of a source, with the removal that its \<open>PostAction\<close> asks for.\<close>

definition source_ready :: "nat \<Rightarrow> spawn_answers \<Rightarrow> arm_answers \<Rightarrow> xwls \<Rightarrow> 'c xloop \<Rightarrow> xwls \<times> 'c xloop" where
  "source_ready t sa aa x l = (case on_socket_connect sa aa x l of (_, x1, l1) \<Rightarrow> (x1, remove_source t l1))"

section \<open>The state of the compositor\<close>

record pending_command =
  pc_command :: string
  pc_args :: "string list"
  pc_standalone :: bool

record xwayland_state =
  xw_display :: "u32 option"
  xw_integration :: "xwls option"
  xw_pending_command :: "pending_command option"

definition xwayland_default :: xwayland_state where
  "xwayland_default = \<lparr>xw_display = None, xw_integration = None, xw_pending_command = None\<rparr>"

definition set_display :: "u32 \<Rightarrow> xwayland_state \<Rightarrow> xwayland_state" where
  "set_display d w = w\<lparr>xw_display := Some d\<rparr>"

definition set_integration :: "xwls \<Rightarrow> xwayland_state \<Rightarrow> xwayland_state" where
  "set_integration x w = w\<lparr>xw_integration := Some x\<rparr>"

definition clear_integration :: "xwayland_state \<Rightarrow> xwayland_state" where
  "clear_integration w = w\<lparr>xw_integration := None\<rparr>"

definition set_pending_command :: "pending_command \<Rightarrow> xwayland_state \<Rightarrow> xwayland_state" where
  "set_pending_command c w = w\<lparr>xw_pending_command := Some c\<rparr>"

definition take_pending_command :: "xwayland_state \<Rightarrow> pending_command option \<times> xwayland_state" where
  "take_pending_command w = (xw_pending_command w, w\<lparr>xw_pending_command := None\<rparr>)"

text \<open>
  \<open>start_xwayland_satellite\<close>. The answers are those of the probe, of inserting the rearm channel and of arming; the
  socket name is \<open>None\<close> when it is not UTF-8. \<open>announced\<close> is what \<open>XWaylandReady\<close> tells Emacs (and \<open>DISPLAY\<close> is
  set to). Dropping the integration drops its sockets.
\<close>

definition start_xwayland_satellite ::
  "kernel \<Rightarrow> u32 \<Rightarrow> (spawn_command \<Rightarrow> i32 option) \<Rightarrow> bool \<Rightarrow> arm_answers \<Rightarrow> string option \<Rightarrow> string \<Rightarrow>
     u32 \<Rightarrow> string \<Rightarrow> xwayland_state \<Rightarrow> 'c xloop \<Rightarrow> machine \<Rightarrow>
     xwayland_state \<times> 'c xloop \<times> machine \<times> u32 option" where
  "start_xwayland_satellite k pid run channel_ok aa socket_name runtime_dir display_start binary w l m =
     (if \<not> test_ondemand run binary then (w, l, m, None)
      else case setup_connection k pid display_start m of
        (Inl _, m1) \<Rightarrow> (w, l, m1, None)
      | (Inr sockets, m1) \<Rightarrow>
          (case socket_name of
             None \<Rightarrow> (w, l, sockets_drop k sockets m1, None)
           | Some name \<Rightarrow>
               (let x = xwls_new sockets
                      \<lparr>sc_binary = binary, sc_wayland_socket = name, sc_xdg_runtime_dir = runtime_dir\<rparr>;
                    w1 = set_integration x w in
                if \<not> channel_ok then (clear_integration w1, l, sockets_drop k sockets m1, None)
                else case arm aa x l of
                  (Inl _, x1, l1) \<Rightarrow> (clear_integration w1, l1, sockets_drop k sockets m1, None)
                | (Inr _, x1, l1) \<Rightarrow>
                    (set_display (xs_display sockets) (set_integration x1 w), l1, m1, Some (xs_display sockets)))))"

end
