(* ===== verification/X11_Display_Props.thy ===== *)
theory X11_Display_Props
  imports X11_Display
begin

text \<open>
  What claiming a display guarantees: a lock file names its process and is read back as such, a display
  whose lock is held by a living process is never disturbed, and every claimed display is the claimer's
  alone, as long as the processes claim one after the other. The lock is not written in one step, and
  the last section shows what that costs when they do not.
\<close>

section \<open>Paths\<close>

lemma decimal_codes: "c \<in> set (decimal n) \<Longrightarrow> 48 \<le> (of_char c :: nat) \<and> (of_char c :: nat) \<le> 57"
proof (induction n rule: decimal.induct)
  case (1 n)
  have "n mod 10 < 10" by simp
  then have "48 + n mod 10 < 256" "n < 10 \<Longrightarrow> 48 + n < 256" by linarith+
  then show ?case using 1 by (subst (asm) (2) decimal.simps) (auto split: if_splits)
qed

lemma decimal_nonempty [simp]: "decimal n \<noteq> []"
  by (subst decimal.simps) simp

lemma decimal_length: "n < 10 ^ k \<Longrightarrow> 0 < k \<Longrightarrow> length (decimal n) \<le> k"
proof (induction k arbitrary: n)
  case (Suc k)
  show ?case
  proof (cases "n < 10")
    case False
    then have "0 < k" using Suc.prems by (cases k) auto
    then have "length (decimal (n div 10)) \<le> k" using Suc.IH [of "n div 10"] Suc.prems by simp
    then show ?thesis using False by (subst decimal.simps) simp
  qed (subst decimal.simps, simp)
qed simp

lemma unat_u32_less: "unat (n :: u32) < 2 ^ 32"
  using unsigned_less [of n, where ?'a = nat] by simp

lemma decimal_u32 [simp]: "decimal (unat (a :: u32)) = decimal (unat b) \<longleftrightarrow> a = b"
  by (metis decimal_inj word_unat_eq_iff)

lemma lock_path_inj [simp]: "x11_lock_path a = x11_lock_path b \<longleftrightarrow> a = b"
  by (simp add: x11_lock_path_def)

lemma socket_path_inj [simp]: "x11_socket_path a = x11_socket_path b \<longleftrightarrow> a = b"
  by (simp add: x11_socket_path_def)

lemma lock_not_socket [simp]: "x11_lock_path a \<noteq> x11_socket_path b" "x11_socket_path b \<noteq> x11_lock_path a"
proof -
  have "last (x11_socket_path b) \<in> set (decimal (unat b))" by (simp add: x11_socket_path_def)
  then have "last (x11_socket_path b) \<noteq> last (x11_lock_path a)"
    by (auto simp: x11_lock_path_def dest: decimal_codes)
  then show "x11_lock_path a \<noteq> x11_socket_path b" "x11_socket_path b \<noteq> x11_lock_path a" by auto
qed

lemma dir_not_display [simp]:
  "X11_TMP_UNIX_DIR \<noteq> x11_lock_path a" "X11_TMP_UNIX_DIR \<noteq> x11_socket_path a"
proof -
  have "last X11_TMP_UNIX_DIR \<noteq> last (x11_lock_path a)"
    by (simp add: x11_lock_path_def X11_TMP_UNIX_DIR_def)
  then show "X11_TMP_UNIX_DIR \<noteq> x11_lock_path a" by auto
qed (simp add: x11_socket_path_def)

lemmas display_not_dir [simp] = dir_not_display [symmetric]

section \<open>Reading a lock back\<close>

lemma strip_any_None: "\<forall>w \<in> set ws. w \<noteq> [] \<and> hd w \<noteq> b \<Longrightarrow> strip_any ws (b # r) = None"
proof (induction ws)
  case (Cons w ws)
  then show ?case by (cases w) auto
qed simp

lemma strip_space:
  "strip_any white_space (32 # r) = Some r" "strip_any (map rev white_space) (10 # r) = Some r"
  by (simp_all add: white_space_def)

lemma white_heads:
  "\<forall>w \<in> set white_space. w \<noteq> [] \<and> (hd w < 48 \<or> 57 < hd w)"
  "\<forall>w \<in> set (map rev white_space). w \<noteq> [] \<and> (hd w < 48 \<or> 57 < hd w)"
  by (simp_all add: white_space_def upt_rec)

lemma strip_digit:
  assumes "48 \<le> b" "b \<le> 57"
  shows "strip_any white_space (b # r) = None" "strip_any (map rev white_space) (b # r) = None"
  using white_heads assms by (intro strip_any_None ballI; fastforce)+

lemma strip_all_spaces:
  "48 \<le> b \<Longrightarrow> b \<le> 57 \<Longrightarrow> n \<le> f \<Longrightarrow> strip_all f white_space (replicate n 32 @ b # r) = b # r"
proof (induction n arbitrary: f)
  case 0
  then show ?case by (cases f) (simp_all add: strip_digit)
next
  case (Suc n)
  then show ?case by (cases f) (simp_all add: strip_space)
qed

lemma trim_body:
  assumes "ds \<noteq> []" "\<forall>b \<in> set ds. 48 \<le> b \<and> b \<le> 57"
  shows "trim (replicate n 32 @ ds @ [10]) = ds"
proof -
  obtain b r where ds: "ds = b # r" using assms(1) by (cases ds) auto
  obtain r' l where ds': "ds = r' @ [l]" using assms(1) by (cases ds rule: rev_cases) auto
  have "strip_all (length (replicate n 32 @ ds @ [10])) white_space (replicate n 32 @ ds @ [10]) = ds @ [10]"
    using strip_all_spaces [of b n "n + length ds + 1" "r @ [10]"] assms(2) by (simp add: ds del: strip_all.simps)
  moreover have "strip_all (Suc (length ds)) (map rev white_space) (10 # rev ds) = rev ds"
    using strip_digit(2) [of l "rev r'"] assms(2) by (simp add: strip_space ds')
  ultimately show ?thesis by (simp add: trim_def Let_def)
qed

lemma parse_digits:
  assumes "ds = decimal (unat pid)"
  shows "parse_u32 (map of_char ds) = Some pid"
proof -
  have digits: "\<forall>c \<in> set ds. 48 \<le> (of_char c :: nat) \<and> (of_char c :: nat) \<le> 57"
    using decimal_codes assms by blast
  have f: "foldl (\<lambda>acc b. 10 * acc + (b - 48)) 0 (map of_char ds) = undecimal ds"
    by (simp add: undecimal_def foldl_map)
  have "foldl (\<lambda>acc b. 10 * acc + (b - 48)) 0 (map of_char ds) = unat pid"
    using f by (simp only: assms undecimal_decimal)
  moreover have "(case map of_char ds of [] \<Rightarrow> [] | b # r \<Rightarrow> if b = (43 :: nat) then r else map of_char ds) = map of_char ds"
    using digits by (cases ds) auto
  moreover have "list_all (\<lambda>b. 48 \<le> b \<and> b \<le> (57 :: nat)) (map of_char ds)" "map of_char ds \<noteq> ([] :: nat list)"
    using digits assms by (auto simp: list_all_iff)
  ultimately show ?thesis
    using unat_u32_less [of pid] by (simp add: parse_u32_def Let_def)
qed

lemma utf8_ascii: "\<forall>b \<in> set bs. b < 0x80 \<Longrightarrow> utf8_valid bs"
  by (induction bs) simp_all

lemma body_bytes:
  "map of_char (format_lock_body pid) =
     replicate (10 - length (decimal (unat pid))) 32 @ map of_char (decimal (unat pid)) @ [10 :: nat]"
  by (simp add: format_lock_body_def Let_def)

definition names :: "kernel \<Rightarrow> u32 \<Rightarrow> u32 \<Rightarrow> machine \<Rightarrow> bool" where
  "names k n pid m \<longleftrightarrow> (\<exists>i. m_files m (x11_lock_path n) = Some (i, PlainFile (format_lock_body pid)))"

text \<open>The lock of display \<open>n\<close> exists and is not stale.\<close>

definition held :: "kernel \<Rightarrow> u32 \<Rightarrow> machine \<Rightarrow> bool" where
  "held k n m \<longleftrightarrow> m_files m (x11_lock_path n) \<noteq> None \<and> \<not> is_stale_lock k (x11_lock_path n) m"

lemma named_held:
  assumes "names k n pid m" "pid \<noteq> 0" "pid_alive k pid"
  shows "held k n m"
proof -
  let ?d = "decimal (unat pid)"
  have "trim (map of_char (format_lock_body pid)) = map of_char ?d"
    unfolding body_bytes by (rule trim_body) (auto dest: decimal_codes)
  then have "parse_u32 (trim (map of_char (format_lock_body pid))) = Some pid"
    by (simp add: parse_digits)
  moreover have "0 < pid" using assms(2) by (simp add: word_neq_0_conv)
  ultimately show ?thesis
    using assms by (auto simp: names_def held_def is_stale_lock_def read_to_string_def Let_def split: if_splits)
qed

section \<open>What the operations touch\<close>

text \<open>\<open>m'\<close> differs from \<open>m\<close> in the given paths only, and no inode is used again.\<close>

definition touches :: "string set \<Rightarrow> machine \<Rightarrow> machine \<Rightarrow> bool" where
  "touches P m m' \<longleftrightarrow> (\<forall>p. p \<notin> P \<longrightarrow> m_files m' p = m_files m p) \<and> m_inode m \<le> m_inode m'"

abbreviation display_paths :: "u32 \<Rightarrow> string set" where
  "display_paths n \<equiv> {x11_lock_path n, x11_socket_path n}"

lemma touches_refl [simp]: "touches P m m"
  by (simp add: touches_def)

lemma touches_trans [trans]: "touches P m m1 \<Longrightarrow> touches P m1 m2 \<Longrightarrow> touches P m m2"
  by (auto simp: touches_def)

lemma touches_mono: "touches P m m' \<Longrightarrow> P \<subseteq> Q \<Longrightarrow> touches Q m m'"
  by (auto simp: touches_def)

lemma create_cases:
  assumes "fs_create k p x m = (r, m')"
  shows "r = Inl AlreadyExists \<and> m' = m \<and> m_files m p \<noteq> None \<or> r = Inl Refused \<and> m' = m \<and> m_files m p = None \<or>
    r = Inr (p, m_inode m) \<and> m' = new_node p x m \<and> m_files m p = None"
  using assms by (auto simp: fs_create_def split: if_splits)

lemma remove_effect:
  assumes "fs_remove k p m = (r, m')"
  shows "touches {p} m m' \<and> m_abstract m' = m_abstract m \<and> m_inode m' = m_inode m \<and>
    (r = Inr () \<longrightarrow> m_files m' p = None) \<and> (m_files m' p = None \<or> m_files m' p = m_files m p)"
  using assms by (auto simp: fs_remove_def touches_def split: option.splits if_splits)

lemma unlink_effect:
  "touches {p} m (unlink k p m) \<and> m_abstract (unlink k p m) = m_abstract m \<and> m_inode (unlink k p m) = m_inode m"
  using remove_effect [of k p m "fst (fs_remove k p m)" "unlink k p m"] by (simp add: unlink_def)

lemma unlink_simps [simp]:
  "q \<noteq> p \<Longrightarrow> m_files (unlink k p m) q = m_files m q" "m_abstract (unlink k p m) = m_abstract m"
  "m_inode (unlink k p m) = m_inode m"
  using unlink_effect [of p m k] by (auto simp: touches_def)

text \<open>A lock file that was just created, its pid written or not.\<close>

definition fresh_lock :: "u32 \<Rightarrow> string \<Rightarrow> lock_fd \<Rightarrow> machine \<Rightarrow> machine \<Rightarrow> bool" where
  "fresh_lock pid p fd m m' \<longleftrightarrow> (\<exists>i c. fd = (p, i) \<and> m_inode m \<le> i \<and> i < m_inode m' \<and>
     m_files m' p = Some (i, PlainFile c) \<and> (c = [] \<or> c = format_lock_body pid))"

lemma create_lock_effect:
  assumes "try_create_lock k pid p m = (r, m')"
  shows "touches {p} m m' \<and> m_abstract m' = m_abstract m \<and>
    (case r of Inl e \<Rightarrow> m' = m \<and> (e = AlreadyExists \<longleftrightarrow> m_files m p \<noteq> None) | Inr fd \<Rightarrow> m_files m p = None \<and> fresh_lock pid p fd m m')"
proof -
  obtain r1 m1 where c: "fs_create k p (PlainFile []) m = (r1, m1)" by fastforce
  show ?thesis
    using create_cases [OF c] assms
    by (auto simp: try_create_lock_def c fresh_lock_def fs_write_def new_node_def set_node_def touches_def)
qed

lemma reclaim_effect:
  assumes "reclaim_stale_display k n m = (r, m')"
  shows "touches (display_paths n) m m' \<and> m_abstract m' = m_abstract m"
proof -
  obtain r1 m1 where r1: "fs_remove k (x11_lock_path n) m = (r1, m1)" by fastforce
  obtain r2 m2 where r2: "fs_remove k (x11_socket_path n) m1 = (r2, m2)" by fastforce
  have "m' = m1 \<or> m' = m2"
    using assms by (auto simp: reclaim_stale_display_def r1 r2 split: sum.splits fs_error.splits)
  then show ?thesis
    using remove_effect [OF r1] remove_effect [OF r2] by (auto simp: touches_def)
qed

lemma claim_effect:
  assumes "try_claim_slot k pid n m = (r, m')"
  shows "touches (display_paths n) m m' \<and> m_abstract m' = m_abstract m \<and>
    (\<forall>fd. r = Inr (Some fd) \<longrightarrow> fresh_lock pid (x11_lock_path n) fd m m') \<and>
    (held k n m \<longrightarrow> r = Inr None \<and> m' = m)"
proof -
  let ?p = "x11_lock_path n"
  obtain r1 m1 where r1: "try_create_lock k pid ?p m = (r1, m1)" by fastforce
  obtain r2 m2 where r2: "reclaim_stale_display k n m1 = (r2, m2)" by fastforce
  obtain r3 m3 where r3: "try_create_lock k pid ?p m2 = (r3, m3)" by fastforce
  note def = assms [unfolded try_claim_slot_def Let_def, simplified r1 r2 r3 prod.case]
  note eff = create_lock_effect [OF r1] reclaim_effect [OF r2] create_lock_effect [OF r3]
  show ?thesis
  proof (cases r1)
    case (Inr fd)
    then show ?thesis using def eff(1) by (auto simp: held_def touches_def fresh_lock_def try_create_lock_def)
  next
    case (Inl e)
    then have m1: "m1 = m" "e = AlreadyExists \<longleftrightarrow> m_files m ?p \<noteq> None" using eff(1) by simp_all
    show ?thesis
      using def eff(2,3) m1(2)
      by (auto simp: Inl m1(1) touches_def held_def fresh_lock_def split: if_splits sum.splits)
  qed
qed


text \<open>Displays held by a living process are left alone.\<close>

definition spares :: "kernel \<Rightarrow> machine \<Rightarrow> machine \<Rightarrow> bool" where
  "spares k m m' \<longleftrightarrow> m_inode m \<le> m_inode m' \<and>
     (\<forall>n p. held k n m \<longrightarrow> p \<in> display_paths n \<longrightarrow> m_files m' p = m_files m p)"

lemma held_cong: "m_files m' (x11_lock_path n) = m_files m (x11_lock_path n) \<Longrightarrow> held k n m' = held k n m"
  by (simp add: held_def is_stale_lock_def read_to_string_def)

lemma spares_held: "spares k m m' \<Longrightarrow> held k n m \<Longrightarrow> held k n m'"
  by (subst held_cong) (auto simp: spares_def)

lemma spares_refl [simp]: "spares k m m"
  by (simp add: spares_def)

lemma spares_trans [trans]:
  assumes "spares k m m1" "spares k m1 m2"
  shows "spares k m m2"
proof -
  have "m_files m2 p = m_files m p" if "held k n m" "p \<in> display_paths n" for n p
    using assms spares_held [OF assms(1) that(1)] that unfolding spares_def by metis
  moreover have "m_inode m \<le> m_inode m2" using assms by (simp add: spares_def)
  ultimately show ?thesis by (auto simp: spares_def)
qed

lemma display_paths_disjoint: "a \<noteq> b \<Longrightarrow> p \<in> display_paths a \<Longrightarrow> p \<notin> display_paths b"
  by auto

lemma touches_spares: "touches (display_paths n) m m' \<Longrightarrow> \<not> held k n m \<Longrightarrow> spares k m m'"
  by (metis spares_def touches_def display_paths_disjoint)

lemma spares_then:
  "spares k m m1 \<Longrightarrow> \<not> held k d m \<Longrightarrow> touches (display_paths d) m1 m2 \<Longrightarrow> spares k m m2"
  unfolding spares_def touches_def by (metis display_paths_disjoint order_trans)

lemma claim_spares: "try_claim_slot k pid n m = (r, m') \<Longrightarrow> spares k m m'"
  using claim_effect [of k pid n m r m'] touches_spares [of n m m' k] by (cases "held k n m") auto

lemma pick_effect:
  "pick_from k pid ns m = (r, m') \<Longrightarrow>
     spares k m m' \<and> m_abstract m' = m_abstract m \<and>
     (\<forall>d fd. r = Inr (d, fd) \<longrightarrow> \<not> held k d m \<and> fresh_lock pid (x11_lock_path d) fd m m')"
proof (induction ns arbitrary: m)
  case (Cons n ns)
  obtain r1 m1 where c: "try_claim_slot k pid n m = (r1, m1)" by fastforce
  note eff = claim_effect [OF c] claim_spares [OF c]
  show ?case
  proof (cases "r1 = Inr None")
    case True
    then have "pick_from k pid ns m1 = (r, m')" using Cons.prems by (simp add: c)
    note ih = Cons.IH [OF this]
    have "m_inode m \<le> m_inode m1" using eff(2) by (simp add: spares_def)
    then show ?thesis
      using ih eff spares_trans [OF eff(2)] spares_held [OF eff(2)] by (auto simp: fresh_lock_def)
  next
    case False
    then show ?thesis
      using Cons.prems eff by (auto simp: c split: sum.splits option.splits)
  qed
qed auto

lemma open_effect:
  assumes "open_display_sockets k n m = (r, m')"
  shows "touches {x11_socket_path n} m m' \<and>
    (case r of
       Inl _ \<Rightarrow> m_abstract m' = m_abstract m
     | Inr (a, u) \<Rightarrow> a = x11_socket_path n \<and> u = x11_socket_path n \<and> a \<notin> set (m_abstract m) \<and>
         m_abstract m' = a # m_abstract m \<and> (\<exists>i. m_files m' u = Some (i, SocketFile)))"
proof -
  let ?p = "x11_socket_path n"
  obtain r1 m1 where a: "bind_abstract k n m = (r1, m1)" by fastforce
  obtain r2 m2 where u: "bind_unix k n m1 = (r2, m2)" by fastforce
  have m2: "touches {?p} m1 m2 \<and> m_abstract m2 = m_abstract m1 \<and>
      (r2 = Inr x \<longrightarrow> x = ?p \<and> (\<exists>i. m_files m2 ?p = Some (i, SocketFile)))" for x
    using u by (auto simp: bind_unix_def Let_def touches_def new_node_def set_node_def split: if_splits)
  have m1: "case r1 of Inl _ \<Rightarrow> m1 = m | Inr b \<Rightarrow> b = ?p \<and> b \<notin> set (m_abstract m) \<and> m1 = m\<lparr>m_abstract := b # m_abstract m\<rparr>"
    using a by (auto simp: bind_abstract_def Let_def split: if_splits)
  have res: "(r, m') = (case r1 of Inl e \<Rightarrow> (Inl e, m1) | Inr b \<Rightarrow>
      (case r2 of Inl e \<Rightarrow> (Inl e, unbind b m2) | Inr v \<Rightarrow> (Inr (b, v), m2)))"
    using assms by (simp add: open_display_sockets_def a u split: sum.splits)
  show ?thesis
  proof (cases r1)
    case (Inl e)
    then show ?thesis using res m1 by simp
  next
    case (Inr b)
    then show ?thesis using res m1 m2 by (cases r2) (auto simp: touches_def unbind_def)
  qed
qed

text \<open>Display \<open>n\<close> is claimed by process \<open>pid\<close>: what a successful \<open>setup_connection\<close> leaves behind.\<close>

definition claimed :: "u32 \<Rightarrow> x11_sockets \<Rightarrow> machine \<Rightarrow> bool" where
  "claimed pid xs m \<longleftrightarrow>
     (\<exists>i. m_files m (lock_guard xs) = Some (i, PlainFile (format_lock_body pid))) \<and>
     (\<exists>i. m_files m (unix_guard xs) = Some (i, SocketFile)) \<and>
     lock_guard xs = x11_lock_path (xs_display xs) \<and> unix_guard xs = x11_socket_path (xs_display xs) \<and>
     abstract_fd xs = Some (x11_socket_path (xs_display xs))"

definition setup_spec :: "kernel \<Rightarrow> u32 \<Rightarrow> machine \<Rightarrow> (setup_error + x11_sockets) \<times> machine \<Rightarrow> bool" where
  "setup_spec k pid m = (\<lambda>(r, m'). spares k m m' \<and>
     (case r of
        Inl _ \<Rightarrow> m_abstract m' = m_abstract m
      | Inr xs \<Rightarrow> claimed pid xs m' \<and> \<not> held k (xs_display xs) m \<and>
          x11_socket_path (xs_display xs) \<notin> set (m_abstract m) \<and>
          m_abstract m' = x11_socket_path (xs_display xs) # m_abstract m))"

lemma write_lock:
  assumes "fresh_lock pid p fd m m1" "fd_write k fd (format_lock_body pid) m1 = (r, m2)"
  shows "touches {p} m1 m2 \<and> m_abstract m2 = m_abstract m1 \<and> fst fd = p \<and>
    (r = Inr () \<longrightarrow> (\<exists>i. m_files m2 p = Some (i, PlainFile (format_lock_body pid))))"
  using assms by (auto simp: fresh_lock_def fd_write_def touches_def set_node_def split: if_splits)

lemma setup_loop_spec: "setup_spec k pid m (setup_loop k pid n attempt m)"
proof (induction k pid n attempt m rule: setup_loop.induct)
  case (1 k pid n attempt m)
  obtain r1 m1 where p: "pick_x11_display k pid n m = (r1, m1)" by fastforce
  note pick = pick_effect [OF p [unfolded pick_x11_display_def]]
  show ?case
  proof (cases r1)
    case (Inl e)
    then show ?thesis using pick by (subst setup_loop.simps) (simp add: p setup_spec_def)
  next
    case (Inr x)
    obtain d fd where x: "r1 = Inr (d, fd)" using Inr by (cases x) auto
    obtain r2 m2 where w: "fd_write k fd (format_lock_body pid) m1 = (r2, m2)" by fastforce
    obtain r3 m3 where o: "open_display_sockets k d m2 = (r3, m3)" by fastforce
    have free: "\<not> held k d m" and fresh: "fresh_lock pid (x11_lock_path d) fd m m1"
      using pick x by (cases fd; simp)+
    note wr = write_lock [OF fresh w] and op = open_effect [OF o]
    let ?m4 = "unlink k (x11_lock_path d) m3"
    have sp: "spares k m m2" "spares k m m3" "spares k m (unlink k (x11_lock_path d) m2)" "spares k m ?m4"
      using wr op unlink_effect [of "x11_lock_path d"] pick
      by (blast intro: spares_then [OF _ free] touches_mono touches_trans)+
    have abs: "m_abstract m2 = m_abstract m" using pick wr by simp
    show ?thesis
    proof (cases r2)
      case (Inl e)
      then show ?thesis using sp abs wr by (subst setup_loop.simps) (simp add: p x w setup_spec_def Let_def)
    next
      case unit: (Inr u)
      show ?thesis
      proof (cases r3)
        case (Inl e)
        show ?thesis
        proof (cases "MAX_SOCKET_BIND_RETRIES \<le> attempt")
          case True
          then show ?thesis
            using sp abs wr op by (subst setup_loop.simps) (simp add: p x w o unit Inl setup_spec_def Let_def)
        next
          case False
          have "setup_spec k pid ?m4 (setup_loop k pid (d + 1) (attempt + 1) ?m4)"
            using "1.IH" [OF p [symmetric] x _ _ w [symmetric] unit o [symmetric] Inl False] wr by simp
          moreover have "m_abstract ?m4 = m_abstract m" using op abs by (simp add: Inl)
          ultimately show ?thesis
            using sp(4) False spares_trans [OF sp(4)] spares_held [OF sp(4)] wr
            by (subst setup_loop.simps)
              (auto simp: p x w o unit Inl setup_spec_def Let_def split: prod.splits sum.splits)
        qed
      next
        case (Inr y)
        then show ?thesis
          using sp abs wr op free unit
          by (subst setup_loop.simps)
            (auto simp: p x w o setup_spec_def Let_def claimed_def touches_def)
      qed
    qed
  qed
qed

theorem setup_connection_spec: "setup_spec k pid m (setup_connection k pid start m)"
proof -
  obtain r1 m1 where e: "ensure_x11_unix_dir k m = (r1, m1)" by fastforce
  have m1: "touches {X11_TMP_UNIX_DIR} m m1 \<and> m_abstract m1 = m_abstract m"
    using e by (auto simp: ensure_x11_unix_dir_def touches_def new_node_def set_node_def
        dest!: create_cases split: prod.splits sum.splits fs_error.splits)
  then have sp: "spares k m m1" by (auto simp: spares_def touches_def)
  have "held k n m1 = held k n m" for n using m1 by (intro held_cong) (simp add: touches_def)
  then show ?thesis
    using setup_loop_spec [of k pid m1 start 0] m1 sp spares_trans [OF sp]
    by (auto simp: setup_connection_def e setup_spec_def split: sum.splits prod.splits)
qed

section \<open>Nothing is left behind\<close>

text \<open>No file exists in \<open>m'\<close> that did not exist in \<open>m\<close>, but for the given paths.\<close>

definition adds :: "string set \<Rightarrow> machine \<Rightarrow> machine \<Rightarrow> bool" where
  "adds P m m' \<longleftrightarrow> (\<forall>p. p \<notin> P \<longrightarrow> m_files m' p \<noteq> None \<longrightarrow> m_files m p \<noteq> None)"

definition removable :: "kernel \<Rightarrow> bool" where
  "removable k \<longleftrightarrow> (\<forall>p i. \<not> denies k (OpRemove p i))"

lemma adds_refl [simp]: "adds P m m"
  by (simp add: adds_def)

lemma adds_trans [trans]: "adds P m m1 \<Longrightarrow> adds Q m1 m2 \<Longrightarrow> adds (P \<union> Q) m m2"
  by (auto simp: adds_def)

lemma adds_removed: "adds {p} m m' \<Longrightarrow> m_files m' p = None \<Longrightarrow> adds {} m m'"
  by (metis adds_def empty_iff singletonD)

lemma remove_adds: "fs_remove k p m = (r, m') \<Longrightarrow> adds {} m m'"
  by (auto simp: fs_remove_def adds_def split: option.splits if_splits)

lemma unlink_adds [simp]: "adds {} m (unlink k p m)"
  using remove_adds [of k p m "fst (fs_remove k p m)" "unlink k p m"] by (simp add: unlink_def)

lemma unlink_gone:
  "removable k \<Longrightarrow> m_files m p = Some (i, x) \<Longrightarrow> x \<noteq> DirectoryNode \<Longrightarrow> m_files (unlink k p m) p = None"
  by (auto simp: unlink_def fs_remove_def removable_def)

lemma create_lock_adds:
  "try_create_lock k pid p m = (r, m') \<Longrightarrow> adds (case r of Inl _ \<Rightarrow> {} | Inr _ \<Rightarrow> {p}) m m'"
  using create_lock_effect [of k pid p m r m'] by (auto simp: adds_def touches_def split: sum.splits)

lemma claim_adds:
  assumes "try_claim_slot k pid n m = (r, m')"
  shows "adds (case r of Inr (Some _) \<Rightarrow> {x11_lock_path n} | _ \<Rightarrow> {}) m m'"
proof -
  let ?p = "x11_lock_path n"
  obtain r1 m1 where r1: "try_create_lock k pid ?p m = (r1, m1)" by fastforce
  obtain r2 m2 where r2: "reclaim_stale_display k n m1 = (r2, m2)" by fastforce
  obtain r3 m3 where r3: "try_create_lock k pid ?p m2 = (r3, m3)" by fastforce
  obtain r4 m4 where r4: "fs_remove k ?p m1 = (r4, m4)" by fastforce
  obtain r5 m5 where r5: "fs_remove k (x11_socket_path n) m4 = (r5, m5)" by fastforce
  have "m2 = m4 \<or> m2 = m5"
    using r2 by (auto simp: reclaim_stale_display_def r4 r5 split: sum.splits fs_error.splits)
  then have m2: "adds {} m1 m2"
    using remove_adds [OF r4] adds_trans [OF remove_adds [OF r4] remove_adds [OF r5]] by auto
  note def = assms [unfolded try_claim_slot_def Let_def, simplified r1 r2 r3 prod.case]
  show ?thesis
    using def create_lock_adds [OF r1] create_lock_adds [OF r3] m2
    by (auto simp: adds_def split: if_splits sum.splits)
qed

lemma pick_adds:
  "pick_from k pid ns m = (r, m') \<Longrightarrow> adds (case r of Inl _ \<Rightarrow> {} | Inr (d, _) \<Rightarrow> {x11_lock_path d}) m m'"
proof (induction ns arbitrary: m)
  case (Cons n ns)
  obtain r1 m1 where c: "try_claim_slot k pid n m = (r1, m1)" by fastforce
  show ?case
  proof (cases "r1 = Inr None")
    case True
    then have "pick_from k pid ns m1 = (r, m')" using Cons.prems by (simp add: c)
    from Cons.IH [OF this] claim_adds [OF c] show ?thesis by (auto simp: True adds_def)
  next
    case False
    then show ?thesis using Cons.prems claim_adds [OF c] by (auto simp: c split: sum.splits option.splits)
  qed
qed auto

lemma touches_adds: "touches P m m' \<Longrightarrow> adds P m m'"
  by (auto simp: adds_def touches_def)

lemma bind_unix_adds: "bind_unix k n m = (Inl e, m') \<Longrightarrow> adds {} m m'"
  using adds_trans [OF unlink_adds unlink_adds, of m k "x11_socket_path n" k "x11_socket_path n"]
  by (auto simp: bind_unix_def Let_def split: if_splits)

lemma open_adds:
  assumes "open_display_sockets k n m = (r, m')"
  shows "adds (case r of Inl _ \<Rightarrow> {} | Inr _ \<Rightarrow> {x11_socket_path n}) m m'"
proof (cases r)
  case (Inl e)
  obtain r1 m1 where a: "bind_abstract k n m = (r1, m1)" by fastforce
  obtain r2 m2 where u: "bind_unix k n m1 = (r2, m2)" by fastforce
  have m1: "m_files m1 = m_files m" using a by (auto simp: bind_abstract_def Let_def split: if_splits)
  have "m_files m' = m_files m1 \<or> m_files m' = m_files m2 \<and> (\<exists>e. r2 = Inl e)"
    using assms Inl by (auto simp: open_display_sockets_def a u unbind_def split: sum.splits)
  then show ?thesis
    using bind_unix_adds [of k n m1 _ m2] u m1 Inl by (auto simp: adds_def)
next
  case (Inr x)
  then show ?thesis using open_effect [OF assms] touches_adds by auto
qed

lemma fd_write_adds: "fd_write k fd d m = (r, m') \<Longrightarrow> adds {} m m'"
  by (auto simp: fd_write_def set_node_def adds_def split: prod.splits option.splits node.splits if_splits)

lemma adds_then: "adds P m m1 \<Longrightarrow> adds {} m1 m2 \<Longrightarrow> adds P m m2"
  using adds_trans [of P m m1 "{}" m2] by simp

lemma setup_loop_adds:
  assumes "removable k"
  shows "setup_loop k pid n attempt m = (r, m') \<Longrightarrow>
     adds (case r of Inl _ \<Rightarrow> {} | Inr xs \<Rightarrow> display_paths (xs_display xs)) m m'"
  using assms
proof (induction k pid n attempt m rule: setup_loop.induct)
  case (1 k pid n attempt m)
  obtain r1 m1 where p: "pick_x11_display k pid n m = (r1, m1)" by fastforce
  note pick = pick_effect [OF p [unfolded pick_x11_display_def]] and pa = pick_adds [OF p [unfolded pick_x11_display_def]]
  note def = "1.prems"(1) [unfolded setup_loop.simps [of k pid n attempt m]]
  show ?case
  proof (cases r1)
    case (Inl e)
    then show ?thesis using def pa by (auto simp: p)
  next
    case (Inr x)
    obtain d fd where x: "r1 = Inr (d, fd)" using Inr by (cases x) auto
    obtain r2 m2 where w: "fd_write k fd (format_lock_body pid) m1 = (r2, m2)" by fastforce
    obtain r3 m3 where o: "open_display_sockets k d m2 = (r3, m3)" by fastforce
    let ?p = "x11_lock_path d"
    have fresh: "fresh_lock pid ?p fd m m1" using pick x by (cases fd) simp
    note wr = write_lock [OF fresh w] and op = open_effect [OF o]
    have lock: "\<exists>i c. m_files m2 ?p = Some (i, PlainFile c)"
      using fresh w by (auto simp: fresh_lock_def fd_write_def set_node_def split: if_splits)
    then have lock3: "\<exists>i c. m_files m3 ?p = Some (i, PlainFile c)" using op by (auto simp: touches_def)
    have a1: "adds {?p} m m1" using pa by (simp add: x)
    have "adds {} m1 m2" using w by (rule fd_write_adds)
    then have a2: "adds {?p} m m2" by (rule adds_then [OF a1])
    have gone: "adds {} m (unlink k ?p m')" if "adds {?p} m m'" "\<exists>i c. m_files m' ?p = Some (i, PlainFile c)" for m'
    proof -
      have "adds {?p} m (unlink k ?p m')" using that(1) by (rule adds_then) simp
      then show ?thesis
        using unlink_gone [OF "1.prems"(2)] that(2) by (blast intro: adds_removed)
    qed
    show ?thesis
    proof (cases r2)
      case (Inl e)
      then show ?thesis using def gone [OF a2 lock] wr by (auto simp: p x w Let_def)
    next
      case unit: (Inr u)
      show ?thesis
      proof (cases r3)
        case (Inl e)
        then have "adds {} m2 m3" using open_adds [OF o] by simp
        then have a3: "adds {} m (unlink k ?p m3)" using gone [OF adds_then [OF a2] lock3] by simp
        show ?thesis
        proof (cases "MAX_SOCKET_BIND_RETRIES \<le> attempt")
          case True
          then show ?thesis using def a3 wr by (auto simp: p x w o unit Inl Let_def)
        next
          case False
          then have "setup_loop k pid (d + 1) (attempt + 1) (unlink k ?p m3) = (r, m')"
            using def wr by (simp add: p x w o unit Inl Let_def)
          then show ?thesis
            using "1.IH" [OF p [symmetric] x _ _ w [symmetric] unit o [symmetric] Inl False] wr "1.prems"(2)
              adds_trans [OF a3] by simp
        qed
      next
        case (Inr y)
        have "adds {x11_socket_path d} m2 m3" using open_adds [OF o] by (simp add: Inr)
        then have "adds (display_paths d) m m3" using adds_trans [OF a2] by (metis insert_is_Un)
        then show ?thesis using def by (cases y) (auto simp: p x w o unit Inr Let_def)
      qed
    qed
  qed
qed

section \<open>Processes that start one after the other\<close>

text \<open>Several processes (pid, first display to try) set up their display in turn; those that fail go on without.\<close>

fun start_all :: "kernel \<Rightarrow> (u32 \<times> u32) list \<Rightarrow> machine \<Rightarrow> (u32 \<times> x11_sockets) list \<times> machine" where
  "start_all k [] m = ([], m)"
| "start_all k ((pid, start) # ps) m =
     (case setup_connection k pid start m of
        (Inl _, m1) \<Rightarrow> start_all k ps m1
      | (Inr xs, m1) \<Rightarrow> (case start_all k ps m1 of (ys, m2) \<Rightarrow> ((pid, xs) # ys, m2)))"

lemma claimed_spares:
  "claimed pid xs m \<Longrightarrow> held k (xs_display xs) m \<Longrightarrow> spares k m m' \<Longrightarrow> claimed pid xs m'"
  by (auto simp: claimed_def spares_def)

lemma claimed_held: "claimed pid xs m \<Longrightarrow> pid \<noteq> 0 \<Longrightarrow> pid_alive k pid \<Longrightarrow> held k (xs_display xs) m"
  by (rule named_held) (auto simp: claimed_def names_def)

lemma start_all_facts:
  "start_all k ps m = (ys, m') \<Longrightarrow> \<forall>(pid, _) \<in> set ps. pid \<noteq> 0 \<and> pid_alive k pid \<Longrightarrow>
     spares k m m' \<and> distinct (map (xs_display \<circ> snd) ys) \<and>
     (\<forall>(pid, xs) \<in> set ys. claimed pid xs m' \<and> \<not> held k (xs_display xs) m)"
proof (induction ps arbitrary: m ys m')
  case (Cons x ps)
  obtain pid start where x: "x = (pid, start)" by fastforce
  obtain r m1 where s: "setup_connection k pid start m = (r, m1)" by fastforce
  note spec = setup_connection_spec [of k pid m start, unfolded s setup_spec_def prod.case]
  have alive: "pid \<noteq> 0" "pid_alive k pid" using Cons.prems by (auto simp: x)
  show ?case
  proof (cases r)
    case (Inl e)
    then have "start_all k ps m1 = (ys, m')" using Cons.prems by (simp add: x s)
    note ih = Cons.IH [OF this]
    have sp: "spares k m m1" using spec by simp
    show ?thesis
    proof (intro conjI ballI, goal_cases)
      case 1
      show ?case using ih Cons.prems spares_trans [OF sp] by auto
    next
      case 2
      show ?case using ih Cons.prems by auto
    next
      case (3 y)
      then show ?case using ih Cons.prems spares_held [OF sp] by auto
    qed
  next
    case (Inr xs)
    obtain zs m2 where z: "start_all k ps m1 = (zs, m2)" by fastforce
    then have res: "ys = (pid, xs) # zs" "m' = m2" using Cons.prems by (auto simp: x s Inr)
    have ih: "spares k m1 m2" "distinct (map (xs_display \<circ> snd) zs)"
        "\<And>q zx. (q, zx) \<in> set zs \<Longrightarrow> claimed q zx m2 \<and> \<not> held k (xs_display zx) m1"
      using Cons.IH [OF z] Cons.prems by (auto simp: comp_def)
    have sp: "spares k m m1" and new: "claimed pid xs m1" "\<not> held k (xs_display xs) m"
      using spec by (auto simp: Inr)
    have h: "held k (xs_display xs) m1" using new(1) alive by (rule claimed_held)
    have "xs_display xs \<notin> set (map (xs_display \<circ> snd) zs)" using ih(3) h by auto
    moreover have "claimed pid xs m2" using new(1) h ih(1) by (rule claimed_spares)
    moreover have "\<not> held k (xs_display zx) m" if "(q, zx) \<in> set zs" for q zx
      using ih(3) [OF that] spares_held [OF sp] by blast
    ultimately show ?thesis
      using spares_trans [OF sp ih(1)] ih(2,3) new(2) by (auto simp: res comp_def)
  qed
qed simp

text \<open>
  C17. Emskin processes that start one after the other and stay alive get pairwise different displays; at the
  end each display has the lock file of its process, naming its pid, and its socket; and a display
  that a living process held at the beginning is given to none of them and keeps lock and socket.
\<close>
theorem displays_exclusive:
  assumes "start_all k ps m = (ys, m')" "\<forall>(pid, _) \<in> set ps. pid \<noteq> 0 \<and> pid_alive k pid"
  shows "distinct (map (xs_display \<circ> snd) ys) \<and> (\<forall>(pid, xs) \<in> set ys. claimed pid xs m') \<and>
    (\<forall>n. held k n m \<longrightarrow> n \<notin> set (map (xs_display \<circ> snd) ys) \<and>
       m_files m' (x11_lock_path n) = m_files m (x11_lock_path n) \<and>
       m_files m' (x11_socket_path n) = m_files m (x11_socket_path n))"
  using start_all_facts [OF assms] by (auto simp: spares_def)

section \<open>Two processes at once\<close>

text \<open>
  A lock file is created empty and the pid is written by a later call. A process B that looks at the
  slot of A between the two calls finds an empty file, takes it for stale, removes it and claims the
  slot; A goes on with a lock file that is gone, binds both sockets, and B, whose sockets cannot be
  bound any more, removes the lock on its way to the next display. A then runs a display without a lock.
\<close>
theorem lock_race:
  assumes "m_files m (x11_lock_path n) = None" "m_files m (x11_socket_path n) = None"
    "x11_socket_path n \<notin> set (m_abstract m)" "\<forall>x. \<not> denies k x"
    and "fs_create k (x11_lock_path n) (PlainFile []) m = (Inr fdA, m1)"
    and "try_claim_slot k pidB n m1 = (r2, m2)"
    and "fd_write k fdA (format_lock_body pidA) m2 = (r3, m3)"
    and "open_display_sockets k n m3 = (r4, m4)"
    and "open_display_sockets k n m4 = (r5, m5)"
  shows "(\<exists>fdB. r2 = Inr (Some fdB) \<and> fdB \<noteq> fdA) \<and> r3 = Inr () \<and> (\<exists>a u. r4 = Inr (a, u)) \<and> r5 = Inl AddrInUse \<and>
    m_files (unlink k (x11_lock_path n) m5) (x11_lock_path n) = None \<and>
    x11_socket_path n \<in> set (m_abstract (unlink k (x11_lock_path n) m5)) \<and>
    (\<exists>i. m_files (unlink k (x11_lock_path n) m5) (x11_socket_path n) = Some (i, SocketFile))"
proof -
  let ?p = "x11_lock_path n" and ?s = "x11_socket_path n"
  have A: "fdA = (?p, m_inode m)" "m1 = new_node ?p (PlainFile []) m"
    using assms(1,4,5) by (auto simp: fs_create_def)
  have "is_stale_lock k ?p m1"
    using assms(4) by (simp add: A is_stale_lock_def read_to_string_def new_node_def set_node_def trim_def parse_u32_def)
  then have B: "r2 = Inr (Some (?p, m_inode m1))"
    "m2 = m1\<lparr>m_files := (m_files m1)(?p \<mapsto> (m_inode m1, PlainFile (format_lock_body pidB))), m_inode := m_inode m1 + 1\<rparr>"
    using assms(1,2,4,6)
    by (auto simp: A try_claim_slot_def try_create_lock_def fs_create_def reclaim_stale_display_def fs_remove_def
        fs_write_def new_node_def set_node_def Let_def)
  have C: "r3 = Inr ()" "m3 = m2" using assms(4,7) by (simp_all add: A B fd_write_def new_node_def set_node_def)
  have D: "r4 = Inr (?s, ?s)"
    "m4 = m3\<lparr>m_abstract := ?s # m_abstract m3, m_files := (m_files m3)(?s \<mapsto> (m_inode m3, SocketFile)), m_inode := m_inode m3 + 1\<rparr>"
    using assms(2,3,4,8)
    by (auto simp: A B C open_display_sockets_def bind_abstract_def bind_unix_def unlink_def fs_remove_def
        new_node_def set_node_def Let_def)
  have E: "r5 = Inl AddrInUse" "m5 = m4"
    using assms(9) by (simp_all add: D open_display_sockets_def bind_abstract_def Let_def)
  show ?thesis
    using assms(4) by (simp add: A B C D E unlink_def fs_remove_def new_node_def set_node_def)
qed

section \<open>Witnesses\<close>

definition demo_kernel :: kernel where
  "demo_kernel = \<lparr>denies = (\<lambda>_. False), kill0 = (\<lambda>pid. pid = 42 \<or> pid = 43)\<rparr>"

definition demo_machine :: machine where
  "demo_machine = \<lparr>m_files = [x11_lock_path 0 \<mapsto> (0, PlainFile (format_lock_body 7))], m_inode = 1, m_abstract = []\<rparr>"

lemma demo_setup: "\<exists>xs m'. setup_connection demo_kernel 42 1 demo_machine = (Inr xs, m') \<and> xs_display xs = 1"
proof -
  have "[unat (1 :: u32)..<unat (1 + MAX_DISPLAY_ATTEMPTS)] = 1 # [2..<257]"
    by (simp add: MAX_DISPLAY_ATTEMPTS_def upt_rec)
  then show ?thesis
    by (simp add: setup_connection_def ensure_x11_unix_dir_def fs_create_def demo_kernel_def demo_machine_def
        setup_loop.simps pick_x11_display_def try_claim_slot_def try_create_lock_def fs_write_def fd_write_def
        new_node_def set_node_def open_display_sockets_def bind_abstract_def bind_unix_def unlink_def fs_remove_def Let_def)
qed

theorem displays_exclusive_witness:
  "distinct (map (xs_display \<circ> snd) (fst (start_all demo_kernel [(42, 1), (43, 1)] demo_machine))) \<and>
   1 \<in> set (map (xs_display \<circ> snd) (fst (start_all demo_kernel [(42, 1), (43, 1)] demo_machine)))"
proof
  show "distinct (map (xs_display \<circ> snd) (fst (start_all demo_kernel [(42, 1), (43, 1)] demo_machine)))"
    using displays_exclusive [of demo_kernel "[(42, 1), (43, 1)]" demo_machine
        "fst (start_all demo_kernel [(42, 1), (43, 1)] demo_machine)"
        "snd (start_all demo_kernel [(42, 1), (43, 1)] demo_machine)"]
    by (simp add: demo_kernel_def pid_alive_def del: start_all.simps)
  show "1 \<in> set (map (xs_display \<circ> snd) (fst (start_all demo_kernel [(42, 1), (43, 1)] demo_machine)))"
    using demo_setup by (auto split: prod.splits sum.splits)
qed

theorem lock_race_witness:
  "let (r1, m1) = fs_create demo_kernel (x11_lock_path 1) (PlainFile []) demo_machine;
       (r2, m2) = try_claim_slot demo_kernel 43 1 m1;
       (r3, m3) = fd_write demo_kernel (x11_lock_path 1, 1) (format_lock_body 42) m2;
       (r4, m4) = open_display_sockets demo_kernel 1 m3;
       (r5, m5) = open_display_sockets demo_kernel 1 m4
   in r5 = Inl AddrInUse \<and> m_files (unlink demo_kernel (x11_lock_path 1) m5) (x11_lock_path 1) = None"
proof -
  have free: "m_files demo_machine (x11_lock_path 1) = None" "m_files demo_machine (x11_socket_path 1) = None"
    "x11_socket_path 1 \<notin> set (m_abstract demo_machine)" "\<forall>x. \<not> denies demo_kernel x"
    by (simp_all add: demo_machine_def demo_kernel_def)
  have "fs_create demo_kernel (x11_lock_path 1) (PlainFile []) demo_machine =
      (Inr (x11_lock_path 1, 1), new_node (x11_lock_path 1) (PlainFile []) demo_machine)"
    using free by (simp add: fs_create_def) (simp add: demo_machine_def)
  note run = lock_race [OF free this]
  show ?thesis
    unfolding \<open>fs_create _ _ _ _ = _\<close> Let_def by (auto split: prod.splits dest: run)
qed

end
