(* ===== verification/Satellite_Props.thy ===== *)
theory Satellite_Props
  imports Satellite X11_Display_Props "HOL-Library.Sublist"
begin

text \<open>
  The supervision of xwayland-satellite as a step relation: clients that connect, sources that fire, a
  satellite that serves clients or ends, and the rearm that follows. \<open>faulty\<close> says whether system calls
  may fail.
\<close>

section \<open>Steps\<close>

definition arm_ok :: arm_answers where
  "arm_ok = \<lparr>aa_clone_unix = True, aa_clone_abstract = True, aa_insert_unix = True, aa_insert_abstract = True\<rparr>"

definition spawn_ok :: spawn_answers where
  "spawn_ok = \<lparr>sa_clone_unix = True, sa_clone_abstract = True, sa_thread = True\<rparr>"

type_synonym 'c supervised = "xwls \<times> 'c xloop"

inductive sat_step :: "bool \<Rightarrow> 'c supervised \<Rightarrow> 'c supervised \<Rightarrow> bool" for faulty where
  connects: "sat_step faulty (x, l) (x, l\<lparr>xl_waiting := (xl_waiting l)(k := xl_waiting l k @ [c])\<rparr>)"
| ready: "sat_step faulty (x, l) (source_ready t sa aa x l)"
    if "(t, k) \<in> set (xl_sources l)" "xl_waiting l k \<noteq> []" "faulty \<or> sa = spawn_ok \<and> aa = arm_ok"
| serves: "sat_step faulty (x, l) (x, l\<lparr>xl_waiting := (xl_waiting l)(k := cs)\<rparr>)"
    if "0 < xl_threads l" "xl_waiting l k = c # cs"
| ends: "sat_step faulty (x, l) (x, spawn_and_wait x l)" if "0 < xl_threads l"
| rearms: "sat_step faulty (x, l) (x', l')"
    if "0 < xl_rearms l" "on_rearm ok aa x (l\<lparr>xl_rearms := xl_rearms l - 1\<rparr>) = (r, x', l')" "faulty \<or> ok \<and> aa = arm_ok"

inductive sat_run :: "bool \<Rightarrow> 'c supervised \<Rightarrow> 'c supervised \<Rightarrow> bool" for faulty where
  sat_start: "sat_run faulty s s"
| sat_more: "sat_run faulty s s1 \<Longrightarrow> sat_step faulty s1 s2 \<Longrightarrow> sat_run faulty s s2"

inductive_cases sat_stepE: "sat_step faulty (x, l) s'"

definition idle_loop :: "'c xloop" where
  "idle_loop = \<lparr>xl_sources = [], xl_next = 0, xl_threads = 0, xl_rearms = 0, xl_dones = 0, xl_waiting = (\<lambda>_. []), xl_refused = []\<rparr>"

section \<open>Invariants\<close>

text \<open>The sources a state should have.\<close>

fun watch_sources :: "watch_state \<Rightarrow> (nat \<times> sock_kind) set" where
  "watch_sources Disarmed = {}"
| "watch_sources (Watching u a) = {(u, UnixSocket)} \<union> (case a of None \<Rightarrow> {} | Some t \<Rightarrow> {(t, AbstractSocket)})"
| "watch_sources Running = {}"

definition outstanding :: "'c xloop \<Rightarrow> nat" where
  "outstanding l = xl_threads l + xl_rearms l"

text \<open>What holds whatever fails.\<close>

definition sat_inv :: "'c supervised \<Rightarrow> bool" where
  "sat_inv = (\<lambda>(x, l). watch_sources (x_state x) \<subseteq> set (xl_sources l) \<and>
     (\<forall>(t, k) \<in> set (xl_sources l). t < xl_next l) \<and>
     outstanding l \<le> (if x_state x = Running then 1 else 0))"

text \<open>What holds when nothing fails.\<close>

definition sat_exact :: "'c supervised \<Rightarrow> bool" where
  "sat_exact = (\<lambda>(x, l). x_state x \<noteq> Disarmed \<and> set (xl_sources l) = watch_sources (x_state x) \<and>
     outstanding l = (if x_state x = Running then 1 else 0) \<and>
     (\<forall>u a. x_state x = Watching u a \<longrightarrow> (a \<noteq> None) = has_abstract x))"

lemma insert_source_fields [simp]:
  "fst (insert_source k l) = xl_next l"
  "xl_sources (snd (insert_source k l)) = xl_sources l @ [(xl_next l, k)]"
  "xl_next (snd (insert_source k l)) = xl_next l + 1"
  "xl_threads (snd (insert_source k l)) = xl_threads l"
  "xl_rearms (snd (insert_source k l)) = xl_rearms l"
  "xl_waiting (snd (insert_source k l)) = xl_waiting l"
  "xl_refused (snd (insert_source k l)) = xl_refused l"
  by (simp_all add: insert_source_def)

lemma remove_fields [simp]:
  "set (xl_sources (remove_source t l)) = {(t', k). (t', k) \<in> set (xl_sources l) \<and> t' \<noteq> t}"
  "xl_next (remove_source t l) = xl_next l" "xl_threads (remove_source t l) = xl_threads l"
  "xl_rearms (remove_source t l) = xl_rearms l" "outstanding (remove_source t l) = outstanding l"
  "xl_waiting (remove_source t l) = xl_waiting l"
  by (auto simp: remove_source_def outstanding_def)

lemma remove_watch_fields [simp]:
  "set (xl_sources (remove_watch u a l)) =
     {(t, k). (t, k) \<in> set (xl_sources l) \<and> t \<noteq> u \<and> a \<noteq> Some t}"
  "xl_next (remove_watch u a l) = xl_next l" "xl_threads (remove_watch u a l) = xl_threads l"
  "xl_rearms (remove_watch u a l) = xl_rearms l" "xl_waiting (remove_watch u a l) = xl_waiting l"
  by (auto simp: remove_watch_def split: option.splits)

text \<open>Arming from \<open>Disarmed\<close>: new sources only, and the state is \<open>Watching\<close> exactly when it succeeds.\<close>

lemma arm_effect:
  assumes "arm aa x l = (r, x', l')" "x_state x = Disarmed"
  shows "set (xl_sources l) \<subseteq> set (xl_sources l') \<and> watch_sources (x_state x') \<subseteq> set (xl_sources l') \<and>
    (\<forall>(t, k) \<in> set (xl_sources l'). (t, k) \<in> set (xl_sources l) \<or> t < xl_next l') \<and> xl_next l \<le> xl_next l' \<and>
    (\<forall>(t, k) \<in> watch_sources (x_state x'). xl_next l \<le> t) \<and>
    outstanding l' = outstanding l \<and> x_state x' \<noteq> Running \<and> has_abstract x' = has_abstract x \<and>
    x_sockets x' = x_sockets x \<and> (r = Inr () \<longrightarrow> is_watching x') \<and>
    (aa = arm_ok \<longrightarrow> r = Inr () \<and> set (xl_sources l') = set (xl_sources l) \<union> watch_sources (x_state x') \<and>
       (\<exists>u a. x_state x' = Watching u a \<and> (a \<noteq> None) = has_abstract x))"
  using assms
  by (auto simp: arm_def Let_def arm_ok_def outstanding_def insert_source_def has_abstract_def is_watching_def split: if_splits)

lemma spawn_effect:
  assumes "spawn_satellite_thread sa x l = (r, x', l')"
  shows "r = Inr () \<and> x' = x\<lparr>x_state := Running\<rparr> \<and> l' = l\<lparr>xl_threads := xl_threads l + 1\<rparr> \<or>
    (\<exists>e. r = Inl e) \<and> x' = x \<and> l' = l \<and> sa \<noteq> spawn_ok"
  using assms by (auto simp: spawn_satellite_thread_def spawn_ok_def split: if_splits)

lemma ready_effect:
  assumes "source_ready t sa aa x l = (x', l')"
  shows "(\<forall>u a. x_state x \<noteq> Watching u a) \<and> x' = x \<and> l' = remove_source t l \<or>
    (\<exists>u a. x_state x = Watching u a \<and> x' = x\<lparr>x_state := Running\<rparr> \<and>
       l' = remove_source t ((remove_watch u a l)\<lparr>xl_threads := xl_threads l + 1\<rparr>)) \<or>
    (\<exists>u a r l1. x_state x = Watching u a \<and> sa \<noteq> spawn_ok \<and>
       arm aa (x\<lparr>x_state := Disarmed\<rparr>) (remove_watch u a l) = (r, x', l1) \<and> l' = remove_source t l1)"
proof (cases "x_state x")
  case (Watching u a)
  let ?x = "x\<lparr>x_state := Disarmed\<rparr>" and ?l = "remove_watch u a l"
  obtain r x2 l2 where s: "spawn_satellite_thread sa ?x ?l = (r, x2, l2)" by (cases "spawn_satellite_thread sa ?x ?l")
  obtain r3 x3 l3 where a: "arm aa x2 l2 = (r3, x3, l3)" by (cases "arm aa x2 l2")
  note res = assms [unfolded source_ready_def on_socket_connect_def Watching watch_state.case Let_def s prod.case]
  show ?thesis
    using spawn_effect [OF s] res a by (cases r) (simp_all add: Watching)
qed (use assms in \<open>simp_all add: source_ready_def on_socket_connect_def\<close>)

lemma sat_inv_ready:
  assumes inv: "sat_inv (x, l)" and step: "source_ready t sa aa x l = (x', l')" and t: "(t, k) \<in> set (xl_sources l)"
  shows "sat_inv (x', l')"
  using ready_effect [OF step]
proof (elim disjE exE conjE, goal_cases)
  case 1
  then show ?case using inv by (cases "x_state x") (auto simp: sat_inv_def)
next
  case (2 u a)
  have "outstanding l = 0" using inv 2(1) by (simp add: sat_inv_def)
  then show ?case using inv unfolding 2(2,3) by (auto simp: sat_inv_def outstanding_def)
next
  case (3 u a r l1)
  note arm = arm_effect [OF 3(3), simplified]
  have old: "t < xl_next l" "outstanding l1 = 0" using inv t 3(1) arm by (auto simp: sat_inv_def outstanding_def)
  have below: "t' < xl_next l1" if "(t', k') \<in> set (xl_sources l1)" for t' k'
    using arm inv that by (fastforce simp: sat_inv_def)
  have kept: "(t', k') \<in> set (xl_sources l1) \<and> t' \<noteq> t" if "(t', k') \<in> watch_sources (x_state x')" for t' k'
    using arm old(1) that by fastforce
  show ?case unfolding sat_inv_def 3(4) using old(2) below kept by (auto simp: subset_iff)
qed

lemma sat_exact_ready:
  assumes inv: "sat_inv (x, l)" "sat_exact (x, l)" and step: "source_ready t spawn_ok arm_ok x l = (x', l')"
    and t: "(t, k) \<in> set (xl_sources l)"
  shows "sat_exact (x', l') \<and> x_state x' = Running"
  using ready_effect [OF step]
proof (elim disjE exE conjE, goal_cases)
  case 1
  then show ?case using inv t by (cases "x_state x") (auto simp: sat_exact_def)
next
  case (2 u a)
  have "set (xl_sources l) = watch_sources (Watching u a)" "outstanding l = 0"
    using inv(2) 2(1) by (simp_all add: sat_exact_def)
  moreover from this(1) have "set (xl_sources (remove_watch u a l)) = {}"
    by (cases a) auto
  then have "xl_sources (remove_watch u a l) = []" by (simp only: set_empty)
  ultimately show ?case unfolding 2(2,3) by (simp add: sat_exact_def outstanding_def remove_source_def)
qed simp

lemma rearm_effect:
  assumes "on_rearm ok aa x l = (r, x', l')"
  shows "\<not> ok \<and> x' = x \<and> l' = l \<or>
    (\<exists>l1. arm aa (x\<lparr>x_state := Disarmed\<rparr>) l1 = (r, x', l') \<and> xl_sources l1 = xl_sources l \<and> xl_next l1 = xl_next l \<and>
       outstanding l1 = outstanding l)"
  using assms
  by (auto simp: on_rearm_def drain_pending_in_place_def clear_out_pending_connections_def outstanding_def split: if_splits)

lemma sat_inv_rearm:
  assumes inv: "sat_inv (x, l)" and step: "on_rearm ok aa x (l\<lparr>xl_rearms := xl_rearms l - 1\<rparr>) = (r, x', l')"
    and pending: "0 < xl_rearms l"
  shows "sat_inv (x', l')"
  using rearm_effect [OF step]
proof (elim disjE exE conjE, goal_cases)
  case 1
  then show ?case using inv by (auto simp: sat_inv_def outstanding_def split: if_splits)
next
  case (2 l1)
  note arm = arm_effect [OF 2(1), simplified]
  have "outstanding l' = 0"
    using arm 2(4) inv pending by (auto simp: sat_inv_def outstanding_def split: if_splits)
  then show ?case using arm 2(2,3) inv by (fastforce simp: sat_inv_def)
qed

lemma sat_exact_rearm:
  assumes inv: "sat_exact (x, l)" and step: "on_rearm True arm_ok x (l\<lparr>xl_rearms := xl_rearms l - 1\<rparr>) = (r, x', l')"
    and pending: "0 < xl_rearms l"
  shows "sat_exact (x', l') \<and> is_watching x'"
  using rearm_effect [OF step]
proof (elim disjE exE conjE, goal_cases)
  case (2 l1)
  note arm = arm_effect [OF 2(1), simplified]
  have run: "x_state x = Running" "xl_sources l = []"
    using inv pending by (auto simp: sat_exact_def outstanding_def split: if_splits)
  then have "outstanding l' = 0"
    using arm 2(4) inv pending by (auto simp: sat_exact_def outstanding_def)
  moreover have "set (xl_sources l') = watch_sources (x_state x')" using arm 2(2) run(2) by simp
  ultimately show ?case using arm by (auto simp: sat_exact_def is_watching_def)
qed simp

lemma sat_step_inv: "sat_step faulty s s' \<Longrightarrow> sat_inv s \<Longrightarrow> sat_inv s'"
proof (induction rule: sat_step.induct)
  case (ready t k l sa aa x)
  then show ?case by (cases "source_ready t sa aa x l") (simp add: sat_inv_ready)
next
  case (rearms l ok aa x r x' l')
  then show ?case by (simp add: sat_inv_rearm)
qed (auto simp: sat_inv_def outstanding_def spawn_and_wait_def)

lemma sat_step_exact: "sat_step faulty s s' \<Longrightarrow> \<not> faulty \<Longrightarrow> sat_inv s \<Longrightarrow> sat_exact s \<Longrightarrow> sat_exact s'"
proof (induction rule: sat_step.induct)
  case (ready t k l sa aa x)
  then show ?case by (cases "source_ready t sa aa x l") (simp add: sat_exact_ready)
next
  case (rearms l ok aa x r x' l')
  then show ?case by (simp add: sat_exact_rearm)
next
  case (ends l x)
  then show ?case by (cases "x_state x") (auto simp: sat_exact_def outstanding_def spawn_and_wait_def)
qed (auto simp: sat_exact_def outstanding_def)

lemma sat_run_inv: "sat_run faulty s s' \<Longrightarrow> sat_inv s \<Longrightarrow> sat_inv s'"
  by (induction rule: sat_run.induct) (blast intro: sat_step_inv)+

lemma sat_run_exact: "sat_run faulty s s' \<Longrightarrow> \<not> faulty \<Longrightarrow> sat_inv s \<Longrightarrow> sat_exact s \<Longrightarrow> sat_exact s'"
  by (induction rule: sat_run.induct) (blast intro: sat_step_exact sat_run_inv)+

section \<open>Start-up\<close>

text \<open>What \<open>start_xwayland_satellite\<close> leaves when it is called on an idle loop without an integration.\<close>

lemma dropped_sockets:
  assumes "claimed pid xs m" "removable k"
  shows "m_files (sockets_drop k xs m) (lock_guard xs) = None" "m_files (sockets_drop k xs m) (unix_guard xs) = None"
    "m_abstract (sockets_drop k xs m) = removeAll (x11_socket_path (xs_display xs)) (m_abstract m)"
proof -
  have ne: "lock_guard xs \<noteq> unix_guard xs" using assms(1) by (simp add: claimed_def)
  obtain i j where f: "m_files m (unix_guard xs) = Some (i, SocketFile)"
      "m_files m (lock_guard xs) = Some (j, PlainFile (format_lock_body pid))"
    using assms(1) by (auto simp: claimed_def)
  then show "m_files (sockets_drop k xs m) (lock_guard xs) = None" "m_files (sockets_drop k xs m) (unix_guard xs) = None"
    using ne assms(1,2) by (auto simp: sockets_drop_def unbind_def unlink_gone claimed_def)
  show "m_abstract (sockets_drop k xs m) = removeAll (x11_socket_path (xs_display xs)) (m_abstract m)"
    using assms(1) by (simp add: sockets_drop_def unbind_def claimed_def)
qed

lemma setup_adds:
  assumes "removable k" "setup_connection k pid start m = (r, m')"
  shows "adds ({X11_TMP_UNIX_DIR} \<union> (case r of Inl _ \<Rightarrow> {} | Inr xs \<Rightarrow> display_paths (xs_display xs))) m m'"
proof -
  obtain r1 m1 where e: "ensure_x11_unix_dir k m = (r1, m1)" by fastforce
  have "adds {X11_TMP_UNIX_DIR} m m1"
    using e by (auto simp: ensure_x11_unix_dir_def adds_def new_node_def set_node_def
        dest!: create_cases split: prod.splits sum.splits fs_error.splits)
  moreover have "m' = m1 \<and> (\<exists>e. r = Inl e) \<or> setup_loop k pid start 0 m1 = (r, m')"
    using assms(2) by (auto simp: setup_connection_def e split: sum.splits)
  ultimately show ?thesis
    using setup_loop_adds [OF assms(1), of pid start 0 m1 r m'] adds_trans by fastforce
qed

text \<open>
  Start-up of the integration, from a compositor without one: a display is announced exactly when it is recorded in
  the state, and then its integration watches the sockets and the display is claimed by this process. Wherever
  start-up fails there is no integration and nothing is left of it on the machine but the directory of the
  sockets: the lock, the socket and the abstract name of a display that was claimed are gone.
\<close>
theorem satellite_startup:
  fixes l' :: "'c xloop"
  assumes "start_xwayland_satellite k pid run channel_ok aa name dir d bin w idle_loop m = (w', l', m', announced)"
    and "xw_integration w = None" "xw_display w = None" "removable k"
  shows "xw_display w' = announced \<and> spares k m m' \<and>
    (case announced of
       Some n \<Rightarrow> \<exists>x. xw_integration w' = Some x \<and> is_watching x \<and> sat_inv (x, l') \<and>
          xs_display (x_sockets x) = n \<and> claimed pid (x_sockets x) m' \<and> \<not> held k n m
     | None \<Rightarrow> xw_integration w' = None \<and> m_abstract m' = m_abstract m \<and> adds {X11_TMP_UNIX_DIR} m m')"
proof (cases "test_ondemand run bin")
  case False
  then show ?thesis using assms by (simp add: start_xwayland_satellite_def)
next
  case probed: True
  obtain r m1 where s: "setup_connection k pid d m = (r, m1)" by fastforce
  note spec = setup_connection_spec [of k pid m d, unfolded s setup_spec_def prod.case] and new = setup_adds [OF assms(4) s]
  note def = assms(1) [unfolded start_xwayland_satellite_def, simplified probed s prod.case]
  show ?thesis
  proof (cases r)
    case (Inl e)
    then show ?thesis using def spec new assms by simp
  next
    case (Inr xs)
    let ?m = "sockets_drop k xs m1" and ?n = "xs_display xs"
    have c: "claimed pid xs m1" and free: "\<not> held k ?n m" and sp: "spares k m m1"
      and abst: "m_abstract m1 = x11_socket_path ?n # m_abstract m" "x11_socket_path ?n \<notin> set (m_abstract m)"
      using spec by (auto simp: Inr)
    have guards: "lock_guard xs = x11_lock_path ?n" "unix_guard xs = x11_socket_path ?n" using c by (simp_all add: claimed_def)
    note gone = dropped_sockets [OF c assms(4)]
    have others: "m_files ?m p = m_files m1 p" if "p \<notin> display_paths ?n" for p
      using that guards by (auto simp: sockets_drop_def unbind_def split: option.splits)
    have dropped: "m_abstract ?m = m_abstract m" "adds {X11_TMP_UNIX_DIR} m ?m" "spares k m ?m"
    proof -
      show "m_abstract ?m = m_abstract m" using gone(3) abst by simp
      show "adds {X11_TMP_UNIX_DIR} m ?m"
        using new gone(1,2) others guards unfolding adds_def Inr by (metis (no_types, lifting) Un_iff insertE singletonD sum.case(2))
      have "m_inode ?m = m_inode m1" by (simp add: sockets_drop_def unbind_def split: option.splits)
      then show "spares k m ?m" using others by (intro spares_then [OF sp free]) (simp add: touches_def)
    qed
    show ?thesis
    proof (cases name)
      case None
      then show ?thesis using def dropped assms(2,3) by (simp add: Inr)
    next
      case (Some nm)
      let ?x = "xwls_new xs \<lparr>sc_binary = bin, sc_wayland_socket = nm, sc_xdg_runtime_dir = dir\<rparr>"
      obtain r3 x3 and l3 :: "'c xloop" where a: "arm aa ?x idle_loop = (r3, x3, l3)"
        by (cases "arm aa ?x (idle_loop :: 'c xloop)")
      note arm = arm_effect [OF a]
      show ?thesis
      proof (cases "channel_ok \<and> (\<exists>u. r3 = Inr u)")
        case False
        then show ?thesis
          using def dropped assms(3)
          by (auto simp: Inr Some a Let_def clear_integration_def set_integration_def split: if_splits sum.splits)
      next
        case True
        then have "is_watching x3" "x_sockets x3 = xs"
          using arm by (auto simp: xwls_new_def)
        moreover have "sat_inv (x3, l3)"
          using arm by (fastforce simp: sat_inv_def xwls_new_def idle_loop_def outstanding_def)
        ultimately show ?thesis
          using def True c free sp by (auto simp: Inr Some a Let_def set_display_def set_integration_def)
      qed
    qed
  qed
qed

section \<open>Supervision\<close>

text \<open>
  C18. However clients connect and satellites end, and whatever system calls fail, at most one satellite or its rearm is
  outstanding, and none while the sockets are watched; both watched sources are registered. If nothing fails,
  the integration never gets disarmed, it runs a satellite exactly when one is outstanding, and no client is
  forgotten: a client that waits on a socket of the display has a registered source that will fire for it, a
  satellite that can serve it, or a rearm that is on its way.
\<close>
theorem satellite_supervised:
  assumes "sat_run faulty (x, l) (x', l')" "sat_inv (x, l)"
  shows "outstanding l' \<le> 1 \<and> watch_sources (x_state x') \<subseteq> set (xl_sources l') \<and>
    (is_watching x' \<longrightarrow> outstanding l' = 0) \<and>
    (\<not> faulty \<and> sat_exact (x, l) \<longrightarrow>
      \<not> is_disarmed x' \<and> (is_running x' \<longleftrightarrow> outstanding l' = 1) \<and>
      (\<forall>k. xl_waiting l' k \<noteq> [] \<and> (k = AbstractSocket \<longrightarrow> has_abstract x') \<longrightarrow>
         (\<exists>t. (t, k) \<in> set (xl_sources l')) \<or> 0 < xl_threads l' \<or> 0 < xl_rearms l'))"
proof -
  note inv = sat_run_inv [OF assms]
  have "\<not> is_disarmed x' \<and> (is_running x' \<longleftrightarrow> outstanding l' = 1) \<and>
      (\<forall>k. xl_waiting l' k \<noteq> [] \<and> (k = AbstractSocket \<longrightarrow> has_abstract x') \<longrightarrow>
         (\<exists>t. (t, k) \<in> set (xl_sources l')) \<or> 0 < xl_threads l' \<or> 0 < xl_rearms l')"
    if "\<not> faulty" "sat_exact (x, l)"
  proof -
    note ex = sat_run_exact [OF assms(1) that(1) assms(2) that(2)]
    have "(\<exists>t. (t, k) \<in> set (xl_sources l')) \<or> 0 < xl_threads l' \<or> 0 < xl_rearms l'"
      if "k = AbstractSocket \<longrightarrow> has_abstract x'" for k
      using ex that by (cases "x_state x'"; cases k) (auto simp: sat_exact_def outstanding_def)
    then show ?thesis using ex by (auto simp: sat_exact_def is_disarmed_def is_running_def)
  qed
  moreover have "outstanding l' \<le> 1 \<and> watch_sources (x_state x') \<subseteq> set (xl_sources l') \<and>
      (is_watching x' \<longrightarrow> outstanding l' = 0)"
    using inv by (auto simp: sat_inv_def is_watching_def split: if_splits)
  ultimately show ?thesis by (intro conjI impI; elim conjE) simp_all
qed

text \<open>
  When the rearm that follows the end of a satellite cannot duplicate a descriptor, the integration stays in
  \<open>Running\<close> without a satellite, and nothing that happens later changes that: no client of the display is ever
  served or refused again.
\<close>
theorem failed_rearm_wedges:
  assumes "on_rearm False aa x l = (r, x1, l1)" "x_state x = Running" "xl_sources l = []" "outstanding l = 0"
    and "sat_run faulty (x1, l1) (x2, l2)"
  shows "x_state x2 = Running \<and> xl_sources l2 = [] \<and> outstanding l2 = 0 \<and>
    (\<forall>k. prefix (xl_waiting l k) (xl_waiting l2 k)) \<and> xl_refused l2 = xl_refused l"
proof -
  have "(x1, l1) = (x, l)" using assms(1) by (simp add: on_rearm_def drain_pending_in_place_def)
  moreover have "x_state (fst s') = Running \<and> xl_sources (snd s') = [] \<and> outstanding (snd s') = 0 \<and>
      (\<forall>k. prefix (xl_waiting (snd s) k) (xl_waiting (snd s') k)) \<and> xl_refused (snd s') = xl_refused (snd s)"
    if "sat_run faulty s s'" "x_state (fst s) = Running" "xl_sources (snd s) = []" "outstanding (snd s) = 0" for s s'
    using that
  proof (induction rule: sat_run.induct)
    case (sat_more s s1 s2)
    then have "x_state (fst s1) = Running" "xl_sources (snd s1) = []" "outstanding (snd s1) = 0"
      "\<forall>k. prefix (xl_waiting (snd s) k) (xl_waiting (snd s1) k)" "xl_refused (snd s1) = xl_refused (snd s)" by auto
    with sat_more(2) show ?case by cases (auto simp: outstanding_def)
  qed simp
  ultimately show ?thesis using assms(2-5) by fastforce
qed

section \<open>Witnesses\<close>

definition demo_sockets :: x11_sockets where
  "demo_sockets = \<lparr>xs_display = 1, xs_display_name = '':1'', abstract_fd = Some (x11_socket_path 1),
     unix_fd = x11_socket_path 1, unix_guard = x11_socket_path 1, lock_guard = x11_lock_path 1\<rparr>"

definition demo_xwls :: "watch_state \<Rightarrow> xwls" where
  "demo_xwls st = (xwls_new demo_sockets
     \<lparr>sc_binary = ''xwayland-satellite'', sc_wayland_socket = ''wayland-1'', sc_xdg_runtime_dir = ''/run''\<rparr>)\<lparr>x_state := st\<rparr>"

definition demo_watching :: "nat xloop" where
  "demo_watching = idle_loop\<lparr>xl_sources := [(0, UnixSocket), (1, AbstractSocket)], xl_next := 2\<rparr>"

lemma demo_armed: "sat_inv (demo_xwls (Watching 0 (Some 1)), demo_watching)" "sat_exact (demo_xwls (Watching 0 (Some 1)), demo_watching)"
  by (auto simp: sat_inv_def sat_exact_def demo_xwls_def demo_watching_def idle_loop_def outstanding_def xwls_new_def
      has_abstract_def demo_sockets_def)

theorem satellite_startup_witness:
  "case start_xwayland_satellite demo_kernel 42 (\<lambda>_. Some 0) True arm_ok (Some ''wayland-1'') ''/run'' 1 ''xwayland-satellite''
     xwayland_default (idle_loop :: nat xloop) demo_machine of
   (w, l, m, announced) \<Rightarrow> announced = Some 1 \<and> (\<exists>x. xw_integration w = Some x \<and> is_watching x \<and> claimed 42 (x_sockets x) m)"
proof -
  obtain xs m1 where s: "setup_connection demo_kernel 42 1 demo_machine = (Inr xs, m1)" "xs_display xs = 1"
    using demo_setup by blast
  obtain w l m announced where run: "start_xwayland_satellite demo_kernel 42 (\<lambda>_. Some 0) True arm_ok (Some ''wayland-1'')
      ''/run'' 1 ''xwayland-satellite'' xwayland_default (idle_loop :: nat xloop) demo_machine = (w, l, m, announced)"
    by (rule prod_cases4)
  have "announced = Some 1"
    using run s by (auto simp: start_xwayland_satellite_def test_ondemand_def Let_def arm_def arm_ok_def xwls_new_def
        insert_source_def split: if_splits)
  moreover have "removable demo_kernel" by (simp add: removable_def demo_kernel_def)
  ultimately show ?thesis
    unfolding run prod.case using satellite_startup [OF run] by (auto simp: xwayland_default_def)
qed

theorem satellite_supervised_witness:
  "\<exists>x l. sat_run False (demo_xwls (Watching 0 (Some 1)), demo_watching) (x, l) \<and> is_running x \<and> outstanding l = 1"
proof -
  let ?x = "demo_xwls (Watching 0 (Some 1))"
  let ?l = "demo_watching\<lparr>xl_waiting := (xl_waiting demo_watching)(UnixSocket := [7])\<rparr>"
  have 1: "sat_step False (?x, demo_watching) (?x, ?l)"
    using connects [of False ?x demo_watching UnixSocket 7] by (simp add: demo_watching_def idle_loop_def)
  have 2: "sat_step False (?x, ?l) (source_ready 0 spawn_ok arm_ok ?x ?l)"
    by (rule ready [where k = UnixSocket]) (simp_all add: demo_watching_def)
  obtain x l where r: "source_ready 0 spawn_ok arm_ok ?x ?l = (x, l)" by fastforce
  have run: "sat_run False (?x, demo_watching) (x, l)"
    using sat_more [OF sat_more [OF sat_start 1] 2] by (simp only: r)
  have "is_running x"
    using r by (auto simp: source_ready_def on_socket_connect_def demo_xwls_def xwls_new_def spawn_satellite_thread_def
        spawn_ok_def is_running_def Let_def)
  then show ?thesis
    using run satellite_supervised [OF run demo_armed(1)] demo_armed(2) by auto
qed

theorem failed_rearm_wedges_witness:
  "\<exists>l. sat_run True (demo_xwls Running, idle_loop :: nat xloop) (demo_xwls Running, l) \<and> xl_waiting l UnixSocket = [7] \<and>
     xl_sources l = [] \<and> outstanding l = 0"
proof -
  have 0: "on_rearm False arm_ok (demo_xwls Running) (idle_loop :: nat xloop) = (Inl CloneFailed, demo_xwls Running, idle_loop)"
    by (simp add: on_rearm_def drain_pending_in_place_def)
  have run: "sat_run True (demo_xwls Running, idle_loop :: nat xloop)
      (demo_xwls Running, idle_loop\<lparr>xl_waiting := (xl_waiting idle_loop)(UnixSocket := xl_waiting idle_loop UnixSocket @ [7])\<rparr>)"
    by (rule sat_more [OF sat_start connects])
  show ?thesis
    using run failed_rearm_wedges [OF 0 _ _ _ run]
    by (intro exI conjI) (auto simp: demo_xwls_def idle_loop_def outstanding_def)
qed

end
