(* ===== verification/Start_Up.thy ===== *)
theory Start_Up
  imports Satellite Dbus_Bridge Host_State
begin

text \<open>
  Start-up and exit of the compositor process, \<open>crates/emskin/src/main.rs\<close>: the child commands, their
  environment, the workspace bar, the files extracted for a standalone Emacs, and the order of it all.

  Reading the environment and the file system, and spawning, are functions of \<open>process_env\<close>. Left out: logging,
  the registration of the IPC and clipboard sources, and the self-activation of the window.
\<close>

section \<open>Environment\<close>

record child_command =
  cc_program :: string
  cc_args :: "string list"
  cc_env :: "(string \<times> string) list"

record process_env =
  pe_var :: "string \<Rightarrow> string option"
  pe_pid :: nat
  pe_exe_dir :: "string option"
  pe_path_dirs :: "string list option"
  pe_is_file :: "string \<Rightarrow> bool"
  pe_mkdir :: "string \<Rightarrow> bool"
  pe_write :: "string \<Rightarrow> bool"
  pe_spawn :: "child_command \<Rightarrow> nat option"

definition runtime_dir :: "process_env \<Rightarrow> string" where
  "runtime_dir pe = (case pe_var pe ''XDG_RUNTIME_DIR'' of None \<Rightarrow> ''/tmp'' | Some d \<Rightarrow> d)"

definition default_ipc_path :: "process_env \<Rightarrow> string" where
  "default_ipc_path pe = runtime_dir pe @ ''/emskin-'' @ decimal (pe_pid pe) @ ''.ipc''"

text \<open>\<open>extract_embedded\<close>: the names of the embedded files, written in order until one fails.\<close>

definition extract_embedded :: "process_env \<Rightarrow> string list \<Rightarrow> string \<Rightarrow> string option" where
  "extract_embedded pe files subdir =
     (let dest = runtime_dir pe @ ''/emskin-'' @ decimal (pe_pid pe) @ ''/'' @ subdir in
      if \<not> pe_mkdir pe dest then None
      else if list_all (\<lambda>f. pe_write pe (join dest f)) files then Some dest else None)"

section \<open>Command line\<close>

record cli =
  cl_no_spawn :: bool
  cl_command :: string
  cl_command_args :: "string list"
  cl_ipc_path :: "string option"
  cl_wayland_socket :: "string option"
  cl_xkb_layout :: string
  cl_xkb_variant :: string
  cl_standalone :: bool
  cl_bar :: string
  cl_xwayland_display :: "u32 option"
  cl_xwayland_satellite_bin :: string
  cl_dbus_isolated :: bool

definition ipc_path :: "process_env \<Rightarrow> cli \<Rightarrow> string" where
  "ipc_path pe c = (case cl_ipc_path c of Some p \<Rightarrow> p | None \<Rightarrow> default_ipc_path pe)"

text \<open>xkbcommon does not take an empty layout with a variant.\<close>

definition xkb_layout :: "cli \<Rightarrow> string" where
  "xkb_layout c = (if cl_xkb_layout c = [] \<and> cl_xkb_variant c \<noteq> [] then ''us'' else cl_xkb_layout c)"

text \<open>The back ends to try for the host clipboard, in order; \<open>None\<close> when it is disabled.\<close>

datatype backend_hint = HintDataControl | HintWlDataDevice nat | HintX11

definition clipboard_hints :: "process_env \<Rightarrow> nat option \<Rightarrow> backend_hint list option" where
  "clipboard_hints pe wl_display =
     (if pe_var pe ''EMSKIN_DISABLE_HOST_CLIPBOARD'' \<noteq> None then None
      else Some ([HintDataControl] @ (case wl_display of None \<Rightarrow> [] | Some p \<Rightarrow> [HintWlDataDevice p]) @ [HintX11]))"

section \<open>Children\<close>

record started =
  sd_xwayland :: xwayland_state
  sd_dbus :: dbus_bridge
  sd_emacs :: emacs_state
  sd_bar_child :: "nat option"
  sd_elisp_dir :: "string option"
  sd_extracted :: "string list"

text \<open>The command that \<open>spawn_child\<close> builds, given the directory of the extracted Emacs Lisp files.\<close>

definition child_cmd :: "string \<Rightarrow> string option \<Rightarrow> pending_command \<Rightarrow> u32 option \<Rightarrow> dbus_bridge \<Rightarrow> child_command" where
  "child_cmd name elisp pc x_display bridge =
     \<lparr>cc_program = pc_command pc,
      cc_args = (case elisp of None \<Rightarrow> [] | Some d \<Rightarrow> [''--directory'', d, ''-l'', ''emskin'']) @ pc_args pc,
      cc_env = inject_env bridge
        ([(''WAYLAND_DISPLAY'', name), (''XDG_SESSION_TYPE'', ''wayland''), (''XDG_SESSION_DESKTOP'', ''emskin'')] @
         (case x_display of None \<Rightarrow> [] | Some d \<Rightarrow> [(''DISPLAY'', CHR '':'' # decimal (unat d))]))\<rparr>"

text \<open>
  \<open>spawn_child\<close>; the socket name is \<open>None\<close> when it is not UTF-8. \<open>sd_extracted\<close> lists the directories that were
  extracted.
\<close>

definition spawn_child ::
  "process_env \<Rightarrow> string option \<Rightarrow> string list \<Rightarrow> string list \<Rightarrow> pending_command \<Rightarrow> u32 option \<Rightarrow> started \<Rightarrow> started" where
  "spawn_child pe socket_name elisp_files demo_files pc x_display s =
     (case socket_name of
        None \<Rightarrow> s
      | Some name \<Rightarrow>
          (let elisp = (if pc_standalone pc then extract_embedded pe elisp_files ''elisp'' else None);
               demo = (if pc_standalone pc then extract_embedded pe demo_files ''demo'' else None);
               s1 = s\<lparr>sd_elisp_dir := (if elisp = None then sd_elisp_dir s else elisp),
                      sd_extracted := sd_extracted s @ somes [elisp, demo]\<rparr> in
           case pe_spawn pe (child_cmd name elisp pc x_display (sd_dbus s1)) of
             None \<Rightarrow> s1
           | Some pid \<Rightarrow> s1\<lparr>sd_emacs := set_child pid (sd_emacs s1)\<rparr>))"

definition locate_bar_binary :: "process_env \<Rightarrow> string option" where
  "locate_bar_binary pe =
     (case pe_exe_dir pe of
        Some d \<Rightarrow>
          if pe_is_file pe (join d ''emskin-bar'') then Some (join d ''emskin-bar'')
          else Option.bind (pe_path_dirs pe) (\<lambda>ds. find (pe_is_file pe) (map (\<lambda>d. join d ''emskin-bar'') ds))
      | None \<Rightarrow> Option.bind (pe_path_dirs pe) (\<lambda>ds. find (pe_is_file pe) (map (\<lambda>d. join d ''emskin-bar'') ds)))"

definition spawn_bar :: "process_env \<Rightarrow> string option \<Rightarrow> string \<Rightarrow> started \<Rightarrow> started" where
  "spawn_bar pe socket_name mode s =
     (case (if mode = ''none'' then None else if mode = ''auto'' then locate_bar_binary pe else Some mode) of
        None \<Rightarrow> s
      | Some binary \<Rightarrow>
          (case socket_name of
             None \<Rightarrow> s
           | Some name \<Rightarrow>
               (case pe_spawn pe \<lparr>cc_program = binary, cc_args = [],
                       cc_env = inject_env (sd_dbus s) [(''WAYLAND_DISPLAY'', name)]\<rparr> of
                  None \<Rightarrow> s
                | Some pid \<Rightarrow> s\<lparr>sd_bar_child := Some pid\<rparr>)))"

section \<open>\<open>main\<close>\<close>

text \<open>
  From the D-Bus bridge on: the command is parked, the satellite is started, the command is spawned whether or not
  it came up, then the bar. \<open>bridge\<close> is the result of the bridge's own start-up and \<open>satellite\<close> that of
  \<open>start_xwayland_satellite\<close>.
\<close>

definition main_children ::
  "process_env \<Rightarrow> string option \<Rightarrow> string list \<Rightarrow> string list \<Rightarrow> cli \<Rightarrow> dbus_bridge \<Rightarrow> (xwayland_state \<Rightarrow> xwayland_state) \<Rightarrow>
     started \<Rightarrow> started" where
  "main_children pe socket_name elisp_files demo_files c bridge satellite s =
     (let s1 = s\<lparr>sd_dbus := bridge\<rparr>;
          w1 = (if cl_no_spawn c then sd_xwayland s1
                else set_pending_command \<lparr>pc_command = cl_command c, pc_args = cl_command_args c, pc_standalone = cl_standalone c\<rparr>
                  (sd_xwayland s1));
          (pending, w2) = take_pending_command (satellite w1);
          s2 = s1\<lparr>sd_xwayland := w2\<rparr>;
          s3 = (case pending of
              None \<Rightarrow> s2
            | Some pc \<Rightarrow> spawn_child pe socket_name elisp_files demo_files pc (xw_display w2) s2) in
      spawn_bar pe socket_name (cl_bar c) s3)"

text \<open>After the event loop: the processes that are killed and waited for, in order, and the directories removed.\<close>

definition main_exit :: "started \<Rightarrow> bus_host \<Rightarrow> nat list \<times> string list \<times> started \<times> bus_host" where
  "main_exit s h =
     (let (emacs, em) = take_child (sd_emacs s);
          (bridge, h1) = bridge_shutdown (sd_dbus s) h in
      (somes [emacs, sd_bar_child s], somes [sd_elisp_dir s],
       s\<lparr>sd_emacs := em, sd_bar_child := None, sd_dbus := bridge\<rparr>, h1))"

section \<open>Facts\<close>

text \<open>The commands that are given to the kernel when it takes them all, and what becomes of the children.\<close>

lemma take_pending_once: "fst (take_pending_command (snd (take_pending_command w))) = None"
  by (simp add: take_pending_command_def)

lemma spawn_child_bar [simp]: "sd_bar_child (spawn_child pe n es ds pc x s) = sd_bar_child s"
  by (simp add: spawn_child_def Let_def split: option.splits)

lemma spawn_bar_fields [simp]:
  "sd_emacs (spawn_bar pe n m s) = sd_emacs s" "sd_dbus (spawn_bar pe n m s) = sd_dbus s"
  "sd_elisp_dir (spawn_bar pe n m s) = sd_elisp_dir s" "sd_extracted (spawn_bar pe n m s) = sd_extracted s"
  by (simp_all add: spawn_bar_def split: option.splits)

text \<open>
  The command of the command line is spawned whatever became of the satellite, as long as the socket has a name; its
  \<open>DISPLAY\<close> is that of the satellite when there is one and is left alone otherwise.
\<close>

lemma em_child_set [simp]: "em_child (set_child p m) = Some p"
  by (simp add: set_child_def split: option.split)

lemma spawn_child_spawns:
  assumes "\<forall>cmd. pe_spawn pe cmd \<noteq> None"
  shows "\<exists>elisp. em_child (sd_emacs (spawn_child pe (Some n) es ds pc x s)) = pe_spawn pe (child_cmd n elisp pc x (sd_dbus s))"
proof -
  let ?e = "if pc_standalone pc then extract_embedded pe es ''elisp'' else None"
  obtain pid where "pe_spawn pe (child_cmd n ?e pc x (sd_dbus s)) = Some pid" using assms by blast
  then show ?thesis unfolding spawn_child_def option.case Let_def by (intro exI [of _ ?e]) simp
qed

lemma child_spawned:
  assumes "\<not> cl_no_spawn c" "\<forall>w. xw_pending_command (sat w) = xw_pending_command w" "\<forall>cmd. pe_spawn pe cmd \<noteq> None"
  shows "\<exists>elisp w pc. em_child (sd_emacs (main_children pe (Some n) es ds c bridge sat s)) =
      pe_spawn pe (child_cmd n elisp pc (xw_display (sat w)) bridge) \<and> pc_command pc = cl_command c"
proof -
  let ?pc = "\<lparr>pc_command = cl_command c, pc_args = cl_command_args c, pc_standalone = cl_standalone c\<rparr>"
  let ?w = "set_pending_command ?pc (sd_xwayland s)"
  let ?s = "s\<lparr>sd_dbus := bridge, sd_xwayland := (sat ?w)\<lparr>xw_pending_command := None\<rparr>\<rparr>"
  have "main_children pe (Some n) es ds c bridge sat s =
      spawn_bar pe (Some n) (cl_bar c) (spawn_child pe (Some n) es ds ?pc (xw_display (sat ?w)) ?s)"
    using assms(1,2) by (simp add: main_children_def take_pending_command_def set_pending_command_def Let_def)
  moreover obtain elisp where "em_child (sd_emacs (spawn_child pe (Some n) es ds ?pc (xw_display (sat ?w)) ?s)) =
      pe_spawn pe (child_cmd n elisp ?pc (xw_display (sat ?w)) (sd_dbus ?s))"
    using spawn_child_spawns [OF assms(3)] by blast
  ultimately show ?thesis by (intro exI [of _ elisp] exI [of _ ?w] exI [of _ ?pc]) simp
qed

lemma child_display:
  "(''DISPLAY'', v) \<in> set (cc_env (child_cmd name elisp pc x bridge)) \<longleftrightarrow> (\<exists>d. x = Some d \<and> v = CHR '':'' # decimal (unat d))"
  by (auto simp: child_cmd_def inject_env_def split: option.splits)

text \<open>Every child still known at exit is killed, and nothing of the bridge is left.\<close>

lemma exit_kills:
  "main_exit s h = (killed, removed, s', h') \<Longrightarrow>
     set killed = set_option (em_child (sd_emacs s)) \<union> set_option (sd_bar_child s) \<and>
     em_child (sd_emacs s') = None \<and> sd_bar_child s' = None \<and> br_broker (sd_dbus s') = None \<and>
     h' = snd (bridge_shutdown (sd_dbus s) h)"
  by (cases "em_child (sd_emacs s)"; cases "sd_bar_child s")
    (auto simp: main_exit_def take_child_def bridge_shutdown_def Let_def)

text \<open>
  What is extracted for a standalone Emacs is two directories, of which exit removes the first only.
\<close>

lemma demo_left_behind:
  assumes "pc_standalone pc" "\<forall>p. pe_mkdir pe p" "\<forall>p. pe_write pe p" "sd_extracted s = []"
  shows "\<exists>elisp demo. sd_extracted (spawn_child pe (Some n) es ds pc x s) = [elisp, demo] \<and>
    demo \<notin> set (fst (snd (main_exit (spawn_child pe (Some n) es ds pc x s) h)))"
proof -
  let ?d = "\<lambda>sub. runtime_dir pe @ ''/emskin-'' @ decimal (pe_pid pe) @ ''/'' @ sub"
  let ?s = "spawn_child pe (Some n) es ds pc x s"
  have ex: "extract_embedded pe fs sub = Some (?d sub)" for fs sub
    using assms(2,3) by (simp add: extract_embedded_def list_all_iff)
  have "sd_extracted ?s = [?d ''elisp'', ?d ''demo''] \<and> sd_elisp_dir ?s = Some (?d ''elisp'')"
    using assms(1,4) unfolding spawn_child_def ex option.case Let_def by (simp split: option.split)
  then show ?thesis by (simp add: main_exit_def split_beta Let_def)
qed

end
