(* ===== verification/Ime_Facts.thy ===== *)
theory Ime_Facts
  imports Ime Demo_World
begin

text \<open>
  The invariant of the IME bridge over all runs of its entry points, and the properties that
  follow: what winit is told and in which order, the caret restored when an input context
  regains the focus, and the debounce after a FocusIn.
\<close>

section \<open>Runs\<close>

datatype ime_op =
    StFocus "surface option"
  | StFcitx fcitx_event "point option"
  | StPoll
  | StHost host_ime
  | StPrefix bool
  | StReset
  | StSync

fun ime_step :: "'sp env \<times> app_manager \<times> ime_op \<Rightarrow> ime_bridge \<Rightarrow> ime_bridge" where
  "ime_step (e, am, StFocus s) b = ime_on_focus_changed e s am b"
| "ime_step (e, am, StFcitx ev o') b = on_fcitx_event e ev o' am b"
| "ime_step (e, am, StPoll) b = poll_tip_freshness e am b"
| "ime_step (e, am, StHost ev) b = on_host_ime_event e ev am b"
| "ime_step (e, am, StPrefix a) b = set_prefix_active a b"
| "ime_step (e, am, StReset) b = ime_reset_on_workspace_switch b"
| "ime_step (e, am, StSync) b = snd (sync_to_winit b)"

definition ime_run :: "('sp env \<times> app_manager \<times> ime_op) list \<Rightarrow> ime_bridge \<Rightarrow> ime_bridge" where
  "ime_run = fold ime_step"

interpretation cursor_table: keyed_store "\<lambda>b. map_of (cursor_cache b)"
    "\<lambda>k r b. b\<lparr>cursor_cache := AList.update k r (cursor_cache b)\<rparr>"
    "\<lambda>k b. b\<lparr>cursor_cache := AList.delete k (cursor_cache b)\<rparr>"
  by unfold_locales (simp_all add: update_conv' delete_conv')

section \<open>Invariant\<close>

definition ime_inv :: "ime_bridge \<Rightarrow> bool" where
  "ime_inv b =
     (case owner b of
        OwnNone \<Rightarrow> cursor b = None \<and> \<not> cursor_is_real b \<and> \<not> dbus_cursor_received b
      | OwnTip s \<Rightarrow> focused_surface b = Some s \<and> \<not> Option.is_none (cursor b) \<and> \<not> dbus_cursor_received b
      | OwnDbus c p o' \<Rightarrow>
          cursor b = map_option (\<lambda>r. translate r o') (map_of (cursor_cache b) (KeyDbus c p)) \<and>
          (cursor_is_real b \<longleftrightarrow> \<not> Option.is_none (cursor b)) \<and> \<not> Option.is_none (dbus_focused_at b) \<and>
          (dbus_cursor_received b \<longrightarrow> cursor_is_real b))"

lemma cleared_simps [simp]:
  "owner (cleared b) = owner b" "focused_surface (cleared b) = focused_surface b"
  "cursor (cleared b) = None" "cursor_is_real (cleared b) = False"
  "cursor_cache (cleared b) = cursor_cache b" "dbus_cursor_received (cleared b) = False"
  "dbus_focused_at (cleared b) = None" "prefix_active (cleared b) = prefix_active b"
  "ti_calls (cleared b) = ti_calls b" "tip_snapshot (cleared b) = None"
  "last_applied_ime_allowed (cleared b) = last_applied_ime_allowed b"
  by (simp_all add: cleared_def)

lemma ti_push_simps [simp]:
  "owner (ti_push cs b) = owner b" "focused_surface (ti_push cs b) = focused_surface b"
  "cursor (ti_push cs b) = cursor b" "cursor_is_real (ti_push cs b) = cursor_is_real b"
  "cursor_cache (ti_push cs b) = cursor_cache b" "dbus_cursor_received (ti_push cs b) = dbus_cursor_received b"
  "dbus_focused_at (ti_push cs b) = dbus_focused_at b" "prefix_active (ti_push cs b) = prefix_active b"
  "ti_calls (ti_push cs b) = ti_calls b @ cs"
  by (simp_all add: ti_push_def)

lemma ime_inv_push [simp]: "ime_inv (ti_push cs b) = ime_inv b"
  by (simp add: ime_inv_def split: ime_owner.splits)

lemma same_identity_iff:
  "same_identity_as a OwnNone \<longleftrightarrow> a = OwnNone"
  "same_identity_as a (OwnTip s) \<longleftrightarrow> a = OwnTip s"
  "same_identity_as a (OwnDbus c p o') \<longleftrightarrow> (\<exists>o''. a = OwnDbus c p o'')"
  by (cases a; simp; fail)+

lemma same_identity_owner: "same_identity_as a b \<Longrightarrow> (\<exists>c p o1 o2. a = OwnDbus c p o1 \<and> b = OwnDbus c p o2) \<or> a = b"
  by (cases b) (auto simp: same_identity_iff)

lemma set_owner_inv:
  assumes "same_identity_as (owner b) new \<Longrightarrow> ime_inv b"
    and "\<And>s. new = OwnTip s \<Longrightarrow> focused_surface b = Some s"
  shows "ime_inv (set_owner e new am b)"
proof (cases "same_identity_as (owner b) new")
  case True
  then show ?thesis using assms(1) by (simp add: set_owner_def)
next
  case False
  then show ?thesis using assms(2)
    by (cases new) (auto simp: set_owner_def Let_def ime_inv_def split: option.splits)
qed

lemma clear_owner_inv: "ime_inv b \<Longrightarrow> ime_inv (clear_owner b)"
  by (auto simp: clear_owner_def ime_inv_def)

lemma report_dbus_inv: "ime_inv b \<Longrightarrow> ime_inv (report_dbus_cursor e c p r b)"
  by (auto simp: report_dbus_cursor_def Let_def ime_inv_def update_conv'
      split: ime_owner.splits option.splits)

lemma report_tip_inv: "ime_inv b \<Longrightarrow> ime_inv (report_tip_cursor_change e am b)"
  by (auto simp: report_tip_cursor_change_def ime_inv_def split: ime_owner.splits option.splits)

lemma poll_inv:
  assumes "ime_inv b"
  shows "ime_inv (poll_tip_freshness e am b)"
proof -
  have "ime_inv (set_owner e (OwnTip s) am b)" if "focused_surface b = Some s" for s
    using that assms by (intro set_owner_inv) auto
  then show ?thesis using assms report_tip_inv
    by (auto simp: poll_tip_freshness_def Let_def split: option.splits ime_owner.splits)
qed

lemma focus_inv:
  assumes "ime_inv b"
  shows "ime_inv (ime_on_focus_changed e s am b)"
  unfolding ime_on_focus_changed_def Let_def
proof (rule set_owner_inv, goal_cases)
  case 1
  then show ?case using assms
    by (cases s) (auto simp: ime_inv_def same_identity_iff split: if_splits ime_owner.splits)
next
  case (2 s')
  then show ?case by (simp split: option.splits if_splits)
qed

lemma destroyed_inv:
  assumes "ime_inv b"
  shows "ime_inv (on_fcitx_event e (IcDestroyed c p) o' am b)"
proof (cases "active_dbus_ic b = Some (c, p)")
  case True
  then have "owner b \<noteq> OwnNone" by (auto simp: active_dbus_ic_def)
  then show ?thesis using True
    by (simp add: on_fcitx_event_def Let_def clear_owner_def ime_inv_def)
next
  case False
  then show ?thesis using assms
    by (auto simp: on_fcitx_event_def Let_def ime_inv_def delete_conv' active_dbus_ic_def
        split: ime_owner.splits)
qed

lemma fcitx_inv:
  assumes "ime_inv b"
  shows "ime_inv (on_fcitx_event e ev o' am b)"
proof (cases ev)
  case (FocusChanged c p f)
  then show ?thesis using assms set_owner_inv [of b "OwnDbus c p (case o' of None \<Rightarrow> (0, 0) | Some o' \<Rightarrow> o')"]
    by (auto simp: on_fcitx_event_def clear_owner_inv)
next
  case (CursorRect c p x y w h)
  then show ?thesis using assms by (simp add: on_fcitx_event_def report_dbus_inv)
next
  case (IcDestroyed c p)
  then show ?thesis using assms by (simp add: destroyed_inv)
qed

lemma sync_fields:
  "owner (snd (sync_to_winit b)) = owner b" "cursor (snd (sync_to_winit b)) = cursor b"
  "cursor_is_real (snd (sync_to_winit b)) = cursor_is_real b"
  "focused_surface (snd (sync_to_winit b)) = focused_surface b"
  "cursor_cache (snd (sync_to_winit b)) = cursor_cache b"
  "dbus_cursor_received (snd (sync_to_winit b)) = dbus_cursor_received b"
  "dbus_focused_at (snd (sync_to_winit b)) = dbus_focused_at b"
  "prefix_active (snd (sync_to_winit b)) = prefix_active b"
  by (auto simp: sync_to_winit_def Let_def desired_cursor_area_def split: option.splits)

lemma ime_step_inv: "ime_inv b \<Longrightarrow> ime_inv (ime_step st b)"
proof (induction st b rule: ime_step.induct)
  case (4 e am ev b)
  then show ?case
    by (cases ev) (simp_all add: on_host_ime_event_def Let_def report_tip_inv split: prod.splits)
next
  case (7 e am b)
  then show ?case by (auto simp: ime_inv_def sync_fields split: ime_owner.splits)
qed (simp_all add: focus_inv fcitx_inv poll_inv set_prefix_active_def ime_reset_on_workspace_switch_def,
    auto simp: ime_inv_def split: ime_owner.splits)

lemma ime_run_inv: "ime_inv b \<Longrightarrow> ime_inv (ime_run ss b)"
  unfolding ime_run_def by (induction ss arbitrary: b) (simp_all add: ime_step_inv)

lemma ime_new_inv: "ime_inv ime_new"
  by (simp add: ime_inv_def ime_new_def)

lemmas ime_reachable_inv = ime_run_inv [OF ime_new_inv]

section \<open>What the host is told\<close>

lemma allowed_has_area: "ime_inv b \<Longrightarrow> desired_ime_allowed b \<Longrightarrow> \<not> Option.is_none (cursor b)"
  by (auto simp: desired_ime_allowed_def ime_inv_def split: if_splits ime_owner.splits)

lemma desired_sync: "desired_ime_allowed (snd (sync_to_winit b)) = desired_ime_allowed b"
  by (cases "owner b") (simp_all add: desired_ime_allowed_def sync_fields)

lemma sync_last:
  "last_applied_ime_allowed (snd (sync_to_winit b)) = desired_ime_allowed b"
  "\<not> Option.is_none (cursor b) \<Longrightarrow> last_applied_cursor_area (snd (sync_to_winit b)) = cursor b"
  by (auto simp: sync_to_winit_def Let_def desired_cursor_area_def split: option.splits)

lemma sync_again: "fst (sync_to_winit (snd (sync_to_winit b))) = []"
proof -
  let ?b = "snd (sync_to_winit b)"
  have "last_applied_ime_allowed ?b = desired_ime_allowed ?b"
    by (simp add: desired_sync sync_last)
  moreover have "cursor ?b = None \<or> last_applied_cursor_area ?b = cursor ?b"
    using sync_last(2) [of b] by (cases "Option.is_none (cursor b)") (simp_all add: sync_fields Option.is_none_def)
  ultimately show ?thesis
    by (auto simp: sync_to_winit_def [of ?b] Let_def desired_cursor_area_def split: option.splits)
qed

text \<open>
  The input method is switched on before its caret area is sent and never without one: from
  any reachable state, switching on sends exactly the two calls in that order with the current
  area, switching off never sends \<open>SetImeAllowed True\<close>, and a second synchronisation is silent.
\<close>

theorem ime_sync_order:
  assumes "b = ime_run ss ime_new"
  shows "(desired_ime_allowed b \<and> \<not> last_applied_ime_allowed b \<longrightarrow>
      (\<exists>pos sz. cursor b = Some (pos, sz) \<and>
        fst (sync_to_winit b) = [SetImeAllowed True, SetImeCursorArea pos sz])) \<and>
    (SetImeAllowed True \<in> set (fst (sync_to_winit b)) \<longrightarrow> desired_ime_allowed b \<and> \<not> prefix_active b) \<and>
    last_applied_ime_allowed (snd (sync_to_winit b)) = desired_ime_allowed b \<and>
    fst (sync_to_winit (snd (sync_to_winit b))) = []"
proof (intro conjI)
  have "ime_inv b" unfolding assms by (rule ime_reachable_inv)
  then show "desired_ime_allowed b \<and> \<not> last_applied_ime_allowed b \<longrightarrow>
      (\<exists>pos sz. cursor b = Some (pos, sz) \<and>
        fst (sync_to_winit b) = [SetImeAllowed True, SetImeCursorArea pos sz])"
    using allowed_has_area [of b]
    by (auto simp: Option.is_none_def sync_to_winit_def Let_def desired_cursor_area_def split: option.splits)
  have "desired_ime_allowed b \<longrightarrow> \<not> prefix_active b" by (simp add: desired_ime_allowed_def)
  then show "SetImeAllowed True \<in> set (fst (sync_to_winit b)) \<longrightarrow> desired_ime_allowed b \<and> \<not> prefix_active b"
    by (auto simp: sync_to_winit_def Let_def split: option.splits if_splits)
qed (rule sync_last(1), rule sync_again)

section \<open>Caret of an input context\<close>

text \<open>Operations that leave the cached caret of an input context alone.\<close>

fun spares :: "conn_id \<Rightarrow> string \<Rightarrow> ime_op \<Rightarrow> bool" where
  "spares c p (StFcitx (CursorRect c' p' _ _ _ _) _) = ((c', p') \<noteq> (c, p))"
| "spares c p (StFcitx (IcDestroyed c' p') _) = ((c', p') \<noteq> (c, p))"
| "spares c p StReset = False"
| "spares c p _ = True"

lemma set_owner_cache [simp]: "cursor_cache (set_owner e new am b) = cursor_cache b"
  by (simp add: set_owner_def Let_def split: ime_owner.splits option.splits)

lemma clear_owner_cache [simp]: "cursor_cache (clear_owner b) = cursor_cache b"
  by (simp add: clear_owner_def)

lemma report_tip_cache: "map_of (cursor_cache (report_tip_cursor_change e am b)) (KeyDbus c p) =
    map_of (cursor_cache b) (KeyDbus c p)"
  by (simp add: report_tip_cursor_change_def update_conv' split: ime_owner.splits option.splits)

lemma poll_cache: "map_of (cursor_cache (poll_tip_freshness e am b)) (KeyDbus c p) =
    map_of (cursor_cache b) (KeyDbus c p)"
  by (auto simp: poll_tip_freshness_def Let_def report_tip_cache split: ime_owner.splits option.splits)

lemma host_cache: "map_of (cursor_cache (on_host_ime_event e ev am b)) (KeyDbus c p) =
    map_of (cursor_cache b) (KeyDbus c p)"
  by (cases ev) (simp_all add: on_host_ime_event_def Let_def report_tip_cache split: prod.splits)

lemma fcitx_cache:
  assumes "spares c p (StFcitx ev o')"
  shows "map_of (cursor_cache (on_fcitx_event e ev o'' am b)) (KeyDbus c p) = map_of (cursor_cache b) (KeyDbus c p)"
  using assms
  by (cases ev)
    (auto simp: on_fcitx_event_def Let_def report_dbus_cursor_def update_conv' delete_conv' split: ime_owner.splits)

lemma step_cache:
  "spares c p op \<Longrightarrow> map_of (cursor_cache (ime_step (e, am, op) b)) (KeyDbus c p) = map_of (cursor_cache b) (KeyDbus c p)"
  by (cases op)
    (simp_all add: fcitx_cache poll_cache host_cache sync_fields ime_on_focus_changed_def Let_def
      set_prefix_active_def)

lemma run_cache:
  "\<forall>(e, am, op) \<in> set ss. spares c p op \<Longrightarrow>
    map_of (cursor_cache (ime_run ss b)) (KeyDbus c p) = map_of (cursor_cache b) (KeyDbus c p)"
  unfolding ime_run_def by (induction ss arbitrary: b) (auto simp: step_cache)

lemma focus_in_cached:
  assumes "map_of (cursor_cache b) (KeyDbus c p) = Some r" and "active_dbus_ic b \<noteq> Some (c, p)"
  shows "cursor (set_owner e (OwnDbus c p o') am b) = Some (translate r o')"
    and "desired_ime_allowed (set_owner e (OwnDbus c p o') am b) = (\<not> prefix_active b)"
proof -
  have "\<not> same_identity_as (owner b) (OwnDbus c p o')"
    using assms(2) by (auto simp: same_identity_iff active_dbus_ic_def)
  then show "cursor (set_owner e (OwnDbus c p o') am b) = Some (translate r o')"
    "desired_ime_allowed (set_owner e (OwnDbus c p o') am b) = (\<not> prefix_active b)"
    using assms(1) by (simp_all add: set_owner_def Let_def desired_ime_allowed_def)
qed

text \<open>
  An input context that regains the focus shows the caret at once: whatever happens between
  (other owners, focus changes, host events), short of a workspace switch, the context's
  destruction or a new report for it, FocusIn restores the last reported rectangle at the
  application's current origin, and the input method is on unless a prefix chord is active.
\<close>

theorem ime_caret_restored:
  assumes "map_of (cursor_cache b) (KeyDbus c p) = Some r"
    and "\<forall>(e, am, op) \<in> set ss. spares c p op"
    and "active_dbus_ic (ime_run ss b) \<noteq> Some (c, p)"
  shows "desired_cursor_area (ime_step (e, am, StFcitx (FocusChanged c p True) (Some o')) (ime_run ss b)) =
      Some (translate r o') \<and>
    desired_ime_allowed (ime_step (e, am, StFcitx (FocusChanged c p True) (Some o')) (ime_run ss b)) =
      (\<not> prefix_active (ime_run ss b))"
  using focus_in_cached [OF _ assms(3), of r e o' am] assms(1) run_cache [OF assms(2), of b]
  by (simp add: on_fcitx_event_def desired_cursor_area_def)

section \<open>The burst after FocusIn\<close>

lemma settled_report:
  assumes "owner b = OwnDbus c p o'" "dbus_cursor_received b" "dbus_focused_at b = Some t"
    and "clock e - t < FOCUS_IN_CURSOR_RECT_SETTLE"
  shows "report_dbus_cursor e c p r b = b"
  using assms by (simp add: report_dbus_cursor_def)

text \<open>
  Of the burst of caret reports that follows a FocusIn only the first counts: as long as the
  clock is within the settle window, later reports for the context change nothing.
\<close>

theorem ime_debounce:
  assumes "active_dbus_ic b \<noteq> Some (c, p)"
    and "\<forall>(e, r) \<in> set ((e1, r1) # burst). clock e - clock e0 < FOCUS_IN_CURSOR_RECT_SETTLE"
  shows "fold (\<lambda>(e, r). report_dbus_cursor e c p r) ((e1, r1) # burst) (set_owner e0 (OwnDbus c p o') am b) =
      report_dbus_cursor e1 c p r1 (set_owner e0 (OwnDbus c p o') am b) \<and>
    desired_cursor_area (report_dbus_cursor e1 c p r1 (set_owner e0 (OwnDbus c p o') am b)) =
      Some (translate r1 o')"
proof -
  let ?b0 = "set_owner e0 (OwnDbus c p o') am b"
  let ?b1 = "report_dbus_cursor e1 c p r1 ?b0"
  have "\<not> same_identity_as (owner b) (OwnDbus c p o')"
    using assms(1) by (auto simp: same_identity_iff active_dbus_ic_def)
  then have b0: "owner ?b0 = OwnDbus c p o'" "dbus_focused_at ?b0 = Some (clock e0)" "\<not> dbus_cursor_received ?b0"
    by (simp_all add: set_owner_def Let_def split: option.splits)
  then have b1: "owner ?b1 = OwnDbus c p o'" "dbus_focused_at ?b1 = Some (clock e0)" "dbus_cursor_received ?b1"
    and area: "cursor ?b1 = Some (translate r1 o')"
    by (simp_all add: report_dbus_cursor_def)
  have "fold (\<lambda>(e, r). report_dbus_cursor e c p r) burst ?b1 = ?b1"
    using assms(2) by (induction burst) (auto simp: settled_report [OF b1(1,3,2)])
  then show ?thesis using area by (simp add: desired_cursor_area_def)
qed

section \<open>Ownership and keyboard focus\<close>

text \<open>A keyboard focus change ends the ownership of a fcitx5 input context.\<close>

lemma focus_change_drops_dbus_owner:
  "owner b = OwnDbus c p o' \<Longrightarrow> active_dbus_ic (ime_on_focus_changed e s am b) = None"
  by (simp add: ime_on_focus_changed_def Let_def set_owner_def active_dbus_ic_def
      split: option.splits)

section \<open>Witnesses\<close>

definition demo_at :: "nat \<Rightarrow> demo_space env" where
  "demo_at t = demo_env\<lparr>clock := t\<rparr>"

definition demo_rect :: rect where
  "demo_rect = \<lparr>loc_x = 3, loc_y = 4, size_w = 1, size_h = 16\<rparr>"

definition demo_ime :: "(demo_space env \<times> app_manager \<times> ime_op) list" where
  "demo_ime = [(demo_at 0, app_manager_default, StFcitx (FocusChanged 1 ''/ic/1'' True) (Some (10, 20))),
     (demo_at 1, app_manager_default, StFcitx (CursorRect 1 ''/ic/1'' 3 4 1 16) None)]"

lemmas demo_ime_defs = ime_run_def demo_ime_def ime_new_def on_fcitx_event_def set_owner_def Let_def
  cleared_def report_dbus_cursor_def FOCUS_IN_CURSOR_RECT_SETTLE_def demo_at_def demo_env_def
  translate_def i32_max_def desired_ime_allowed_def

theorem ime_sync_order_witness:
  "\<exists>pos sz. cursor (ime_run demo_ime ime_new) = Some (pos, sz) \<and>
     fst (sync_to_winit (ime_run demo_ime ime_new)) = [SetImeAllowed True, SetImeCursorArea pos sz]"
proof -
  have "desired_ime_allowed (ime_run demo_ime ime_new)" "\<not> last_applied_ime_allowed (ime_run demo_ime ime_new)"
    by (simp_all add: demo_ime_defs)
  then show ?thesis using ime_sync_order [OF refl, of demo_ime] by blast
qed

lemma ime_run_single: "ime_run [st] b = ime_step st b"
  by (simp add: ime_run_def)

theorem ime_caret_restored_witness:
  "desired_cursor_area (ime_step (demo_at 9, app_manager_default, StFcitx (FocusChanged 1 ''/ic/1'' True) (Some (50, 60)))
     (ime_run [(demo_at 5, app_manager_default, StFocus (Some 7))] (ime_run demo_ime ime_new))) =
   Some (translate demo_rect (50, 60))"
proof -
  have cache: "map_of (cursor_cache (ime_run demo_ime ime_new)) (KeyDbus 1 ''/ic/1'') = Some demo_rect"
    by (simp add: demo_ime_defs demo_rect_def)
  have own: "owner (ime_run demo_ime ime_new) = OwnDbus 1 ''/ic/1'' (10, 20)"
    by (simp add: demo_ime_defs)
  have act: "active_dbus_ic (ime_run [(demo_at 5, app_manager_default, StFocus (Some 7))] (ime_run demo_ime ime_new))
      \<noteq> Some (1, ''/ic/1'')"
    by (simp add: ime_run_single focus_change_drops_dbus_owner [OF own])
  show ?thesis
    using ime_caret_restored [OF cache _ act, where e = "demo_at 9" and am = app_manager_default and o' = "(50, 60)"]
    by simp
qed

theorem ime_debounce_witness:
  "desired_cursor_area (fold (\<lambda>(e, r). report_dbus_cursor e 1 ''/ic/1'' r)
     [(demo_at 1000, demo_rect), (demo_at 2000, demo_rect\<lparr>loc_x := 99\<rparr>)]
     (set_owner (demo_at 0) (OwnDbus 1 ''/ic/1'' (10, 20)) app_manager_default ime_new)) =
   Some (translate demo_rect (10, 20))"
  using ime_debounce [of ime_new 1 "''/ic/1''" "demo_at 1000" demo_rect "[(demo_at 2000, demo_rect\<lparr>loc_x := 99\<rparr>)]"
      "demo_at 0" "(10, 20)" app_manager_default]
  by (simp add: active_dbus_ic_def ime_new_def demo_at_def demo_env_def FOCUS_IN_CURSOR_RECT_SETTLE_def)

end
