(* ===== verification/Window_Props.thy ===== *)
theory Window_Props
  imports Compositor_Props
begin

text \<open>
  Windows and frames over their life: dead frames and dead windows leave the state, and three
  handlers that lose track of the space a window belongs to.
\<close>

section \<open>Dead frames\<close>

lemma stopped_fields [simp]:
  "c_stopped (remove_app e i s) = c_stopped s" "c_stopped (fold (remove_app e) ids s) = c_stopped s"
proof -
  show one: "c_stopped (remove_app e i s) = c_stopped s" for i and s :: "'a emskin"
    by (simp add: remove_app_def split: option.split)
  show "c_stopped (fold (remove_app e) ids s) = c_stopped s"
    by (induction ids arbitrary: s) (simp_all add: one)
qed

lemma stopped_destroy [simp]: "c_stopped (snd (destroy_workspace e k s)) = c_stopped s"
  by (simp add: destroy_workspace_def Let_def split: option.split)

lemma stopped_switch [simp]: "c_stopped (snd (switch_workspace e k s)) = c_stopped s"
  by (simp add: switch_workspace_def Let_def split: option.split)

lemma destroy_dead_fold:
  "ws_ids (c_ws s) \<Longrightarrow> active_id (c_ws s) \<notin> set ks \<Longrightarrow>
     (let s' = fold (destroy_dead e) ks s in
      c_ws s' = (c_ws s)\<lparr>inactive := fold AList.delete ks (inactive (c_ws s))\<rparr> \<and>
      c_emacs s' = c_emacs s \<and> c_stopped s' = c_stopped s)"
proof (induction ks arbitrary: s)
  case (Cons k ks)
  have "ws_ids (c_ws (destroy_dead e k s))"
    using ws_ids_delete [OF Cons.prems(1), of k] by (simp add: destroy_dead_def destroy_ws)
  moreover have "active_id (c_ws (destroy_dead e k s)) \<notin> set ks"
    using Cons.prems(2) by (simp add: destroy_dead_def destroy_ws)
  ultimately show ?case
    using Cons.IH [of "destroy_dead e k s"] by (simp add: Let_def destroy_dead_def destroy_ws)
qed (simp add: Let_def)

lemma dead_frame_keys:
  assumes "order_laws e" and "distinct (map fst m)"
  shows "set (map fst (filter (\<lambda>(k, x). frame_dead e x) (entries (visit e) m))) =
    {k. \<exists>x. map_of m k = Some x \<and> frame_dead e x}"
proof -
  have "map_of m k = Some x \<longleftrightarrow> (k, x) \<in> set m" for k x
    using assms(2) by simp
  then show ?thesis
    using assms by (force simp: set_entries order_laws_def image_iff)
qed

lemma map_of_fold_delete:
  "map_of (fold AList.delete ks m) k = (if k \<in> set ks then None else map_of m k)"
  by (rule alist.get_fold_rem)

text \<open>The state between the destruction of the dead workspaces and the choice of the next one.\<close>

lemma after_dead:
  assumes "emskin_wf n s" and "order_laws e"
  obtains s2 where
    "detect_dead_workspaces e s = (if main_died e (c_emacs s)
       then (case visit e (map fst (inactive (c_ws s2))) of
               k # _ \<Rightarrow> redraw (snd (switch_workspace e k s2)) | [] \<Rightarrow> s2\<lparr>c_stopped := True\<rparr>)
       else s2)"
    and "ws_ids (c_ws s2)" and "active_id (c_ws s2) = active_id (c_ws s)" and "c_stopped s2 = c_stopped s"
    and "\<forall>k. k \<noteq> active_id (c_ws s) \<longrightarrow> d_table (desk_of s2) k = (case d_table (desk_of s) k of
       None \<Rightarrow> None | Some x \<Rightarrow> if frame_dead e x then None else Some x)"
    and "d_table (desk_of s2) (active_id (c_ws s)) \<noteq> None"
proof -
  let ?m = "inactive (c_ws s)"
  obtain gone where gone: "map fst (filter (\<lambda>(k, x). frame_dead e x) (entries (visit e) ?m)) = gone" by blast
  let ?s1 = "fold (destroy_dead e) gone s"
  note ids = ws_ids_keys [OF wf_ids [OF assms(1)]]
  note dead = dead_frame_keys [OF assms(2) ids(1), unfolded gone]
  have "active_id (c_ws s) \<notin> set gone" using dead ids(3) by auto
  then have ws: "c_ws ?s1 = (c_ws s)\<lparr>inactive := fold AList.delete gone ?m\<rparr>"
    and em: "c_emacs ?s1 = c_emacs s" and st: "c_stopped ?s1 = c_stopped s"
    using destroy_dead_fold [OF wf_ids [OF assms(1)], of gone e] by (simp_all add: Let_def)
  obtain s2 where s2: "(if gone \<noteq> [] then redraw ?s1 else ?s1) = s2" by blast
  have f2: "c_ws s2 = c_ws ?s1" "c_apps s2 = c_apps ?s1" "c_emacs s2 = c_emacs s" "c_stopped s2 = c_stopped s"
    using em st by (simp_all flip: s2)
  have "emskin_wf n ?s1" by (rule keepsD [OF keeps_fold [OF keeps_destroy_dead] assms(1)])
  then have wf2: "ws_ids (c_ws s2)" using wf_cong [OF f2(1,2)] by (simp add: wf_ids [of n])
  have desk2: "desk_of s2 = desk_of ?s1" by (rule desk_cong) (simp_all add: f2 em)
  have "d_table (desk_of s2) k = (case d_table (desk_of s) k of None \<Rightarrow> None
      | Some x \<Rightarrow> if frame_dead e x then None else Some x)" if "k \<noteq> active_id (c_ws s)" for k
    using that unfolding desk2
    by (auto simp: desk_fields ws map_of_fold_delete dead split: option.split)
  moreover have "d_table (desk_of s2) (active_id (c_ws s)) \<noteq> None"
    unfolding desk2 by (simp add: desk_fields ws)
  moreover have "detect_dead_workspaces e s = (if main_died e (c_emacs s2)
       then (case visit e (map fst (inactive (c_ws s2))) of
               k # _ \<Rightarrow> redraw (snd (switch_workspace e k s2)) | [] \<Rightarrow> s2\<lparr>c_stopped := True\<rparr>)
       else s2)"
    by (simp only: detect_dead_workspaces_def Let_def gone s2)
  ultimately show ?thesis
    using wf2 by (intro that [of s2]) (simp_all only: f2 ws, simp_all)
qed

lemma inactive_keys:
  assumes "ws_ids (c_ws s)" and "order_laws e"
  shows "set (visit e (map fst (inactive (c_ws s)))) = {k. k \<noteq> active_id (c_ws s) \<and> d_table (desk_of s) k \<noteq> None}"
proof -
  have "map_of (inactive (c_ws s)) k \<noteq> None \<longleftrightarrow> k \<noteq> active_id (c_ws s) \<and> d_table (desk_of s) k \<noteq> None" for k
    using ws_ids_keys(3) [OF assms(1)] by (auto simp: desk_fields)
  then show ?thesis
    using assms(2) dom_map_of_conv_image_fst [of "inactive (c_ws s)"]
    unfolding dom_def order_laws_def by (simp only: iteration_set set_map)
qed

lemma dead_frames_table:
  assumes "emskin_wf n s" and "order_laws e"
  shows "let s' = detect_dead_workspaces e s; old = d_active (desk_of s) in
    (\<forall>k. k \<noteq> old \<longrightarrow> d_table (desk_of s') k =
       (case d_table (desk_of s) k of None \<Rightarrow> None | Some x \<Rightarrow> if frame_dead e x then None else Some x)) \<and>
    (c_stopped s' \<longleftrightarrow> c_stopped s \<or> main_died e (c_emacs s) \<and> (\<forall>k. k \<noteq> old \<longrightarrow> d_table (desk_of s') k = None)) \<and>
    (d_active (desk_of s') \<noteq> old \<longleftrightarrow> main_died e (c_emacs s) \<and> (\<exists>k. k \<noteq> old \<and> d_table (desk_of s') k \<noteq> None)) \<and>
    d_table (desk_of s') (d_active (desk_of s')) \<noteq> None"
proof -
  obtain s2 where s2: "detect_dead_workspaces e s = (if main_died e (c_emacs s)
       then (case visit e (map fst (inactive (c_ws s2))) of
               k # _ \<Rightarrow> redraw (snd (switch_workspace e k s2)) | [] \<Rightarrow> s2\<lparr>c_stopped := True\<rparr>)
       else s2)"
    and wf2: "ws_ids (c_ws s2)" and f2: "active_id (c_ws s2) = active_id (c_ws s)" "c_stopped s2 = c_stopped s"
    and table: "\<forall>k. k \<noteq> active_id (c_ws s) \<longrightarrow> d_table (desk_of s2) k = (case d_table (desk_of s) k of
       None \<Rightarrow> None | Some x \<Rightarrow> if frame_dead e x then None else Some x)"
      "d_table (desk_of s2) (active_id (c_ws s)) \<noteq> None"
    by (rule after_dead [OF assms])
  note keys = inactive_keys [OF wf2 assms(2)]
  consider "\<not> main_died e (c_emacs s)" | "main_died e (c_emacs s)" "visit e (map fst (inactive (c_ws s2))) = []"
    | k ks where "main_died e (c_emacs s)" "visit e (map fst (inactive (c_ws s2))) = k # ks"
    by (cases "visit e (map fst (inactive (c_ws s2)))") auto
  then show ?thesis
  proof cases
    case 1
    then show ?thesis using table by (simp add: s2 f2 Let_def desk_fields(1))
  next
    case 2
    have desk: "desk_of (s2\<lparr>c_stopped := True\<rparr>) = desk_of s2" by (rule desk_cong) simp_all
    have "\<forall>k. k = active_id (c_ws s) \<or> d_table (desk_of s2) k = None" using keys 2(2) f2 by auto
    then show ?thesis using 2 table by (simp add: s2 Let_def desk desk_fields(1) f2) metis
  next
    case 3
    have k: "k \<noteq> active_id (c_ws s)" "d_table (desk_of s2) k \<noteq> None" using keys 3(2) f2 by auto
    have "desk_of (redraw (snd (switch_workspace e k s2))) = desk_of (snd (switch_workspace e k s2))"
      by (rule desk_cong) simp_all
    then have desk: "desk_of (redraw (snd (switch_workspace e k s2))) = (desk_of s2)\<lparr>d_active := k\<rparr>"
      using k(2) by (auto simp: desk_switch_workspace [OF wf2] desk_switch_def)
    have d: "detect_dead_workspaces e s = redraw (snd (switch_workspace e k s2))" by (simp add: s2 3)
    show ?thesis
      unfolding d Let_def desk using 3(1) table k f2(2) by (auto simp: desk_fields(1))
  qed
qed

text \<open>C14. A workspace other than the active one survives \<open>detect_dead_workspaces\<close>, unchanged, exactly
  if its frame is alive. When the active frame has died the compositor goes on with a surviving
  workspace, and it stops only when there is none.\<close>

theorem dead_frames:
  assumes "emskin_wf n s" and "order_laws e"
  shows "let s' = detect_dead_workspaces e s; old = d_active (desk_of s) in
    (\<forall>k. k \<noteq> old \<longrightarrow> d_table (desk_of s') k =
       (case d_table (desk_of s) k of None \<Rightarrow> None
        | Some x \<Rightarrow> if \<exists>wl. ws_emacs x = Some wl \<and> srf_alive e wl then Some x else None)) \<and>
    (c_stopped s' \<longleftrightarrow> c_stopped s \<or> main_died e (c_emacs s) \<and> (\<forall>k. k \<noteq> old \<longrightarrow> d_table (desk_of s') k = None)) \<and>
    (d_active (desk_of s') \<noteq> old \<longleftrightarrow> main_died e (c_emacs s) \<and> (\<exists>k. k \<noteq> old \<and> d_table (desk_of s') k \<noteq> None)) \<and>
    d_table (desk_of s') (d_active (desk_of s')) \<noteq> None"
proof -
  have "(if frame_dead e x then None else Some x) =
      (if \<exists>wl. ws_emacs x = Some wl \<and> srf_alive e wl then Some x else None)" for x
    by (auto simp: frame_dead_def split: option.splits)
  then show ?thesis using dead_frames_table [OF assms] by (simp only:)
qed

theorem dead_frames_witness:
  "d_table (desk_of (detect_dead_workspaces (demo_env\<lparr>srf_alive := (\<lambda>x. x = 2)\<rparr>) demo_two)) 2 \<noteq> None"
proof -
  have "order_laws (demo_env\<lparr>srf_alive := (\<lambda>x. x = 2)\<rparr>)"
    using demo_order_laws by (simp add: order_laws_def)
  note frames = dead_frames [OF demo_two_wf this, unfolded Let_def, THEN conjunct1, rule_format, of 2]
  have "d_active (desk_of demo_two) = 1" and
    "\<exists>x. d_table (desk_of demo_two) 2 = Some x \<and> ws_emacs x = Some 2"
    by (simp_all add: desk_fields demo_two_def)
  then show ?thesis using frames by auto
qed

section \<open>Dead windows\<close>

lemma sweep_elements:
  assumes "space_laws e"
  shows "sp_elements e (sweep e sp) = filter (win_alive e) (sp_elements e sp)"
proof -
  have unmap: "sp_elements e (fold (sp_unmap e) ws sp) = filter (\<lambda>w. w \<notin> set ws) (sp_elements e sp)" for ws
    by (induction ws arbitrary: sp)
      (auto simp: space_laws_elements [OF assms] removeAll_filter_not_eq intro: filter_cong)
  show ?thesis
    by (auto simp: sweep_def dead_windows_def unmap intro: filter_cong)
qed

lemma cleanup_dialogs_desk:
  "d_table (desk_of (cleanup_dead_dialogs e s)) k =
     map_option (\<lambda>x. x\<lparr>ws_space := sweep e (ws_space x)\<rparr>) (d_table (desk_of s) k)"
  "d_apps (desk_of (cleanup_dead_dialogs e s)) = d_apps (desk_of s)"
proof -
  let ?s1 = "on_ws (\<lambda>w. w\<lparr>active_space := sweep e (active_space w),
      inactive := map (\<lambda>(k, x). (k, x\<lparr>ws_space := sweep e (ws_space x)\<rparr>)) (inactive w)\<rparr>) s"
  have "desk_of (cleanup_dead_dialogs e s) = desk_of ?s1"
    by (rule desk_cong) (simp_all add: cleanup_dead_dialogs_def Let_def)
  then show "d_table (desk_of (cleanup_dead_dialogs e s)) k =
     map_option (\<lambda>x. x\<lparr>ws_space := sweep e (ws_space x)\<rparr>) (d_table (desk_of s) k)"
    "d_apps (desk_of (cleanup_dead_dialogs e s)) = d_apps (desk_of s)"
    by (simp_all add: desk_fields current_workspace_def map_of_map)
qed

lemma cleanup_apps_table:
  assumes "order_laws e" and "apps_wf (c_apps s)"
  shows "app_get (c_apps (cleanup_dead_apps e s)) i =
    (case app_get (c_apps s) i of None \<Rightarrow> None | Some a \<Rightarrow> if win_alive e (app_win a) then Some a else None)"
proof -
  have keep: "c_apps (fold (unmap_dead_app e) as s') = c_apps s'" for as and s' :: "'a emskin"
    by (induction as arbitrary: s') (simp_all add: unmap_dead_app_def)
  have "c_apps (cleanup_dead_apps e s) = snd (drain_dead e (c_apps s))"
    by (simp add: cleanup_dead_apps_def Let_def keep case_prod_beta)
  then show ?thesis by (simp add: drain_dead_result(1) [OF assms])
qed

text \<open>C15. After the two clean-up steps of a tick no space, of the active or of an inactive workspace,
  holds a dead window, and the embedded windows are exactly those that were there and are alive.\<close>

theorem dead_windows_gone:
  assumes "emskin_wf n s" and "order_laws e" and "space_laws e"
  shows "let s' = cleanup_dead_dialogs e (cleanup_dead_apps e s) in
    (\<forall>k x. d_table (desk_of s') k = Some x \<longrightarrow> list_all (win_alive e) (sp_elements e (ws_space x))) \<and>
    (\<forall>i. d_apps (desk_of s') i = (case d_apps (desk_of s) i of None \<Rightarrow> None
       | Some a \<Rightarrow> if win_alive e (app_win a) then Some a else None))"
proof -
  have "d_apps (desk_of (cleanup_dead_dialogs e (cleanup_dead_apps e s))) i = (case d_apps (desk_of s) i of
      None \<Rightarrow> None | Some a \<Rightarrow> if win_alive e (app_win a) then Some a else None)" for i
    by (subst cleanup_dialogs_desk(2))
      (simp add: desk_fields(2) cleanup_apps_table [OF assms(2) wf_apps [OF assms(1)]])
  then show ?thesis
    by (auto simp: Let_def cleanup_dialogs_desk(1) sweep_elements [OF assms(3)] list_all_iff)
qed

theorem dead_windows_gone_witness:
  "d_apps (desk_of (cleanup_dead_dialogs (demo_env\<lparr>win_alive := (\<lambda>w. w < 10)\<rparr>)
     (cleanup_dead_apps (demo_env\<lparr>win_alive := (\<lambda>w. w < 10)\<rparr>) demo_two))) 1 = None"
proof -
  let ?e = "demo_env\<lparr>win_alive := (\<lambda>w. w < 10)\<rparr>"
  have "order_laws ?e" "space_laws ?e"
    using demo_order_laws demo_space_laws by (simp_all add: order_laws_def space_laws_def)
  note gone = dead_windows_gone [OF demo_two_wf this, unfolded Let_def, THEN conjunct2, rule_format, of 1]
  have "\<exists>a. d_apps (desk_of demo_two) 1 = Some a \<and> app_win a = 20"
    by (simp add: desk_fields demo_two_def app_get_def)
  then show ?thesis using gone by auto
qed


section \<open>Windows in the wrong space\<close>

text \<open>When two new Emacs frames arrive in one tick, switching to the workspace of the first changes
  the active space, and the window of the second is then unmapped from that one: it stays in the
  space of the workspace that was active before the tick, which is not its own.\<close>

theorem second_frame_left_behind:
  assumes "emskin_wf n s" and "space_laws e"
    and "pending_emacs_toplevels (c_ws s) = [(wl1, w1), (wl2, w2)]"
    and "\<not> tl_parent (shell e) wl1" and "\<not> tl_parent (shell e) wl2" and "w1 \<noteq> w2"
    and "w2 \<in> set (sp_elements e (active_space (c_ws s)))"
  shows "let s' = process_pending_toplevels e s; old = d_active (desk_of s) in
    (\<exists>x. d_table (desk_of s') old = Some x \<and> w2 \<in> set (sp_elements e (ws_space x))) \<and>
    d_active (desk_of s') \<noteq> old \<and>
    map_option ws_emacs (d_table (desk_of s') (d_active (desk_of s'))) = Some (Some wl2)"
proof -
  let ?s0 = "redraw (on_ws (\<lambda>w. w\<lparr>pending_emacs_toplevels := []\<rparr>) s)"
  let ?s1 = "process_toplevel e (wl1, w1) ?s0" and ?a = "active_id (c_ws s)"
  let ?s2 = "process_toplevel e (wl2, w2) ?s1" and ?k1 = "next_id (c_ws ?s0)"
  have r0: "ws_room n (Suc (Suc 0)) ?s0"
    using assms(1,3) by (simp add: ws_room_def emskin_wf_def ws_ids_def)
  have r1: "ws_room n (Suc 0) ?s1" by (rule process_toplevel_room [OF r0])
  obtain sp1 where t1: "d_table (desk_of ?s1) =
      (d_table (desk_space (active_id (c_ws ?s0)) (sp_unmap e w1) (desk_of ?s0)))
        (?k1 \<mapsto> \<lparr>ws_space = sp1, ws_emacs = Some wl1, ws_name = []\<rparr>)"
    using process_toplevel_desk(3) [OF r0 assms(4), of w1] by (elim exE)
  obtain sp2 where t2: "d_table (desk_of ?s2) =
      (d_table (desk_space (active_id (c_ws ?s1)) (sp_unmap e w2) (desk_of ?s1)))
        (next_id (c_ws ?s1) \<mapsto> \<lparr>ws_space = sp2, ws_emacs = Some wl2, ws_name = []\<rparr>)"
    using process_toplevel_desk(3) [OF r1 assms(5), of w2] by (elim exE)
  have a1: "active_id (c_ws ?s1) = ?k1"
    using process_toplevel_desk(2) [OF r0 assms(4), of w1] by (simp add: desk_fields)
  have old: "d_table (desk_of ?s0) ?a = Some (current_workspace ?s0)" "active_id (c_ws ?s0) = ?a"
    by (simp_all add: desk_fields)
  have new: "?k1 \<noteq> ?a" using process_toplevel_desk(1) [OF r0 assms(4)] old by auto
  have a1s: "d_table (desk_of ?s1) ?a = Some ((current_workspace ?s0)\<lparr>ws_space := sp_unmap e w1 (active_space (c_ws s))\<rparr>)"
    using new by (simp add: t1 desk_space_def old) (simp add: current_workspace_def)
  have k2: "next_id (c_ws ?s1) \<noteq> ?a"
    using process_toplevel_desk(1) [OF r1 assms(5)] a1s by auto
  have p: "process_pending_toplevels e s = ?s2"
    using assms(3) by (simp add: process_pending_toplevels_def)
  have "d_table (desk_of ?s2) ?a = d_table (desk_of ?s1) ?a"
    using k2 k2 [symmetric] new new [symmetric] a1 by (simp add: t2 desk_space_def)
  moreover have "w2 \<in> set (sp_elements e (sp_unmap e w1 (active_space (c_ws s))))"
    using assms(6,7) by (simp add: space_laws_elements [OF assms(2)])
  moreover have "d_active (desk_of ?s2) = next_id (c_ws ?s1)"
    by (rule process_toplevel_desk(2) [OF r1 assms(5)])
  ultimately show ?thesis
    unfolding p Let_def using a1s k2 by (simp add: t2 desk_fields(1))
qed

definition demo_frames :: "demo_space emskin" where
  "demo_frames = demo_two\<lparr>c_ws := (c_ws demo_two)\<lparr>active_space := ([(3, (0, 0)), (4, (0, 0)), (1, (0, 24))], [7]),
     pending_emacs_toplevels := [(3, 3), (4, 4)]\<rparr>\<rparr>"

theorem second_frame_left_behind_witness:
  "d_active (desk_of (process_pending_toplevels demo_env demo_frames)) \<noteq> 1"
proof -
  have "emskin_wf 5 demo_frames"
    using demo_two_wf by (simp add: demo_frames_def emskin_wf_def demo_two_def ws_ids_def)
  moreover have "d_active (desk_of demo_frames) = 1"
    by (simp add: desk_fields demo_frames_def demo_two_def)
  ultimately show ?thesis
    using second_frame_left_behind [OF _ demo_space_laws, of 5 demo_frames 3 3 4 4]
    by (simp add: Let_def demo_frames_def demo_env_def demo_shell_def)
qed

text \<open>Promoting a mirror that was made in a workspace destroyed since then moves its application to
  that workspace: the window leaves the space it was in, enters no other, and the application
  belongs to a workspace that does not exist.\<close>

theorem promote_dangling:
  assumes "emskin_wf n s" and "space_laws e"
    and "app_get (c_apps s) i = Some a" and "map_of (app_mirrors a) v = Some mv"
    and "d_table (desk_of s) (mv_workspace mv) = None" and "d_table (desk_of s) (app_workspace a) \<noteq> None"
    and "\<forall>k x. k \<noteq> app_workspace a \<longrightarrow> d_table (desk_of s) k = Some x \<longrightarrow> app_win a \<notin> set (sp_elements e (ws_space x))"
  shows "let s' = ipc_promote_mirror e i v s in
    map_option app_workspace (d_apps (desk_of s') i) = Some (mv_workspace mv) \<and>
    d_table (desk_of s') (mv_workspace mv) = None \<and>
    (\<forall>k x. d_table (desk_of s') k = Some x \<longrightarrow> app_win a \<notin> set (sp_elements e (ws_space x)))"
proof -
  let ?new = "mv_workspace mv" and ?old = "app_workspace a"
  let ?f = "\<lambda>a. a\<lparr>app_mirrors := AList.delete v (app_mirrors a), app_geometry := Some (mv_geometry mv)\<rparr>"
  let ?sa = "on_apps (app_modify i (\<lambda>a. a\<lparr>app_workspace := ?new\<rparr>)) (on_apps (app_modify i ?f) s)"
  have ne: "?old \<noteq> ?new" using assms(5,6) by auto
  have none: "?new \<noteq> active_id (c_ws s)" "map_of (inactive (c_ws s)) ?new = None"
    using assms(5) by (auto simp: desk_fields split: if_splits)
  have absent: "map_of (inactive (space_for_mut ?old f w)) ?new = None"
    if "map_of (inactive w) ?new = None" for f and w :: "'a workspace_state"
    using that ne by (auto simp: space_for_mut_def update_conv' split: option.split)
  let ?s' = "on_ws (\<lambda>w. space_for_mut ?old (sp_unmap e (app_win a)) w) ?sa"
  have s': "ipc_promote_mirror e i v s = ?s'"
    using assms(3,4) ne none absent [OF none(2)]
    by (simp add: ipc_promote_mirror_def Let_def on_ws_def space_for_mut_def [of ?new])
  have ids: "ws_ids (c_ws ?sa)" using wf_ids [OF assms(1)] by simp
  have "d_table (desk_of ?sa) = d_table (desk_of s)"
    by (simp add: desk_fields current_workspace_def)
  then have table: "d_table (desk_of ?s') = d_table (desk_space ?old (sp_unmap e (app_win a)) (desk_of s))"
    using desk_on_space [OF ids, of ?old "sp_unmap e (app_win a)"] by (simp add: desk_space_def)
  have app: "map_option app_workspace (d_apps (desk_of ?s') i) = Some ?new"
    using assms(3) by (simp add: desk_fields app_get_modify)
  have "app_win a \<notin> set (sp_elements e (ws_space x))" if "d_table (desk_of ?s') k = Some x" for k x
    using that assms(7) unfolding table
    by (auto simp: desk_space_def space_laws_elements [OF assms(2)] split: if_splits)
  then show ?thesis
    unfolding s' Let_def using app ne assms(5) by (simp add: table desk_space_def)
qed

definition demo_mirror :: "demo_space emskin" where
  "demo_mirror = snd (destroy_workspace demo_env 2 demo_two)"

theorem promote_dangling_witness:
  "map_option app_workspace (d_apps (desk_of (ipc_promote_mirror demo_env 1 4 demo_mirror)) 1) = Some 2"
proof -
  have wf: "emskin_wf 5 demo_mirror"
    unfolding demo_mirror_def by (rule keepsD [OF keeps_destroy demo_two_wf])
  have d: "desk_of demo_mirror = desk_destroy 2 (desk_of demo_two)"
    unfolding demo_mirror_def
    by (rule desk_destroy_workspace [OF demo_order_laws wf_ids [OF demo_two_wf] wf_apps [OF demo_two_wf]])
  obtain a where a: "app_get (c_apps demo_two) 1 = Some a" "app_workspace a = 1" "app_win a = 20"
    "map_of (app_mirrors a) 4 = Some \<lparr>mv_geometry = demo_zone, mv_workspace = 2\<rparr>"
    by (simp add: demo_two_def app_get_def)
  have "app_get (c_apps demo_mirror) 1 = Some a"
    using d a(1,2) by (simp add: desk_fields(2) [symmetric]) (simp add: desk_destroy_def desk_fields demo_two_def)
  from promote_dangling [OF wf demo_space_laws this a(4)] show ?thesis
    using a(2,3) by (simp add: Let_def d desk_destroy_def) (simp add: desk_fields demo_two_def)
qed


lemma handle_surface_commit_fields [simp]:
  "c_ws (handle_surface_commit e wl s) = c_ws s" "c_apps (handle_surface_commit e wl s) = c_apps s"
  by (simp_all add: handle_surface_commit_def Let_def split: option.split)

lemma commit_root_fields:
  "active_id (c_ws (commit_root e root s)) = active_id (c_ws s)"
  by (simp add: commit_root_def commit_pending_app_def re_center_dialog_def Let_def split: option.split)

lemma commit_root_pending:
  assumes "find (owns_surface e root) (app_values e (c_apps s)) = Some a" and "app_pending a = Some g"
  shows "\<exists>sp. active_space (c_ws (commit_root e root s)) = sp_map e (app_win a) (rect_loc g) sp"
    and "c_apps (commit_root e root s) = app_modify (app_id a) commit_pending (c_apps s)"
proof -
  have c: "c_apps (re_center_dialog e w t) = c_apps t" for w and t :: "'a emskin"
    by (simp add: re_center_dialog_def Let_def split: option.split)
  obtain s2 where s2: "commit_root e root s = commit_pending_app e root s2" "c_apps s2 = c_apps s"
    by (simp add: commit_root_def Let_def c split: option.split)
  show "\<exists>sp. active_space (c_ws (commit_root e root s)) = sp_map e (app_win a) (rect_loc g) sp"
    using assms by (auto simp: s2 commit_pending_app_def)
  show "c_apps (commit_root e root s) = app_modify (app_id a) commit_pending (c_apps s)"
    using assms by (simp add: s2 commit_pending_app_def)
qed

text \<open>An application that commits a buffer for a pending geometry is mapped into the active space,
  even when it belongs to another workspace: the window then shows up in the wrong workspace.\<close>

theorem commit_crosses_workspaces:
  assumes "emskin_wf n s" and "space_laws e" and "order_laws e"
    and "app_get (c_apps s) i = Some a" and "app_pending a = Some g"
    and "app_workspace a \<noteq> d_active (desk_of s)" and "win_surface e (app_win a) = Some wl"
    and "\<forall>j b. app_get (c_apps s) j = Some b \<longrightarrow> owns_surface e wl b \<longrightarrow> j = i"
    and "get_parent (shell e) wl = None" and "\<not> sync_subsurface (shell e) wl"
    and "\<forall>o'. \<not> layer_surface (shell e) o' wl"
  shows "\<exists>s' x. commit e wl s = Some s' \<and> d_table (desk_of s') (d_active (desk_of s')) = Some x \<and>
    app_win a \<in> set (sp_elements e (ws_space x)) \<and>
    map_option app_workspace (d_apps (desk_of s') i) = Some (app_workspace a) \<and>
    app_workspace a \<noteq> d_active (desk_of s')"
proof -
  let ?s1 = "commit_root e wl s"
  have vals: "set (app_values e (c_apps s)) = {a. \<exists>i. app_get (c_apps s) i = Some a}"
    by (rule set_app_values [OF assms(3) wf_apps [OF assms(1)]])
  have own: "owns_surface e wl a" using assms(7) by (simp add: owns_surface_def)
  have "find (owns_surface e wl) (app_values e (c_apps s)) \<noteq> None"
    using vals assms(4) own by (auto simp: find_None_iff)
  then obtain b where b: "find (owns_surface e wl) (app_values e (c_apps s)) = Some b" by auto
  then have "b \<in> set (app_values e (c_apps s)) \<and> owns_surface e wl b"
    by (auto simp: find_Some_iff)
  then obtain j where "app_get (c_apps s) j = Some b" "owns_surface e wl b" using vals by auto
  then have ba: "b = a" using assms(4,8) by auto
  have ai: "app_id a = i" by (rule apps_wf_get [OF wf_apps [OF assms(1)] assms(4)])
  obtain sp where sp: "active_space (c_ws ?s1) = sp_map e (app_win a) (rect_loc g) sp"
    using commit_root_pending(1) [OF b] assms(5) ba by auto
  have apps: "c_apps ?s1 = app_modify i commit_pending (c_apps s)"
    using commit_root_pending(2) [OF b] assms(5) ba ai by simp
  have "root_of (get_parent (shell e)) wl = Some wl"
    using assms(9) by (subst root_of.simps) simp
  then obtain s' where s': "commit e wl s = Some s'" "c_ws s' = c_ws ?s1" "c_apps s' = c_apps ?s1"
    using assms(10,11) by (auto simp: commit_def Let_def split: option.split)
  have "app_win a \<in> set (sp_elements e (active_space (c_ws s')))"
    by (simp add: s'(2) sp space_laws_elements [OF assms(2)])
  moreover have "map_option app_workspace (app_get (c_apps s') i) = Some (app_workspace a)"
    using assms(4) by (simp add: s'(3) apps app_get_modify commit_pending_def)
  ultimately show ?thesis
    using assms(6) s'(1) by (simp add: desk_fields s'(2) commit_root_fields current_workspace_def)
qed

definition demo_pending :: "demo_space emskin" where
  "demo_pending = on_apps (app_modify 1 (\<lambda>a. a\<lparr>app_pending := Some demo_zone, app_pending_since := Some 0\<rparr>))
     (snd (switch_workspace demo_env 2 demo_two))"

theorem commit_crosses_workspaces_witness:
  "\<exists>s' x. commit demo_env 20 demo_pending = Some s' \<and> d_table (desk_of s') (d_active (desk_of s')) = Some x \<and>
     20 \<in> set (sp_elements demo_env (ws_space x)) \<and> map_option app_workspace (d_apps (desk_of s') 1) = Some 1 \<and>
     1 \<noteq> d_active (desk_of s')"
proof -
  let ?a = "\<lparr>app_id = 1, app_win = 20, app_workspace = 1, app_geometry = Some demo_zone, app_pending = Some demo_zone,
    app_pending_since = Some 0, app_visible = True,
    app_mirrors = [(4, \<lparr>mv_geometry = demo_zone, mv_workspace = 2\<rparr>)]\<rparr>"
  have wf: "emskin_wf 5 demo_pending"
    unfolding demo_pending_def by (intro wf_modify_sameI keepsD [OF wf_switch demo_two_wf]) simp_all
  have apps: "app_get (c_apps demo_pending) j = (if j = 1 then Some ?a else None)" for j
    by (simp add: demo_pending_def app_get_modify switch_ws) (simp add: demo_two_def app_get_def)
  have active: "d_active (desk_of demo_pending) = 2"
    by (simp add: desk_fields demo_pending_def switch_ws) (simp add: demo_two_def swap_workspace_ws)
  have env: "win_surface demo_env 20 = Some 20" "get_parent (shell demo_env) 20 = None"
    "\<not> sync_subsurface (shell demo_env) 20" "\<forall>o'. \<not> layer_surface (shell demo_env) o' 20"
    by (simp_all add: demo_env_def demo_shell_def)
  have "\<exists>s' x. commit demo_env 20 demo_pending = Some s' \<and> d_table (desk_of s') (d_active (desk_of s')) = Some x \<and>
     app_win ?a \<in> set (sp_elements demo_env (ws_space x)) \<and>
     map_option app_workspace (d_apps (desk_of s') 1) = Some (app_workspace ?a) \<and>
     app_workspace ?a \<noteq> d_active (desk_of s')"
    by (rule commit_crosses_workspaces [OF wf demo_space_laws demo_order_laws, where g = demo_zone])
      (simp_all add: apps active env)
  then show ?thesis by (simp only: app_window.select_convs)
qed

end
