(* ===== verification/Ws_Props.thy ===== *)
theory Ws_Props
  imports Compositor_Props Ws_Facts
begin

text \<open>
  The workspace protocol against the workspaces of the compositor: after the refresh of a tick every
  bound client sees the workspaces as they are, and a refresh without a change is silent.
\<close>

abbreviation ws_infos :: "'sp emskin \<Rightarrow> ws_info list" where
  "ws_infos s \<equiv> map (ws_info_of (c_ws s)) (all_ids (c_ws s))"

lemma refresh_protocol:
  assumes "first_output e s = Some o'"
  shows "refresh_workspace_state e ck alive has_client s =
    on_ws (\<lambda>w. w\<lparr>protocol := cleanup_dead alive (ws_refresh (visit e) ck alive has_client (ws_infos s) (protocol w))\<rparr>) s"
  using assms by (simp add: refresh_workspace_state_def on_ws_def)

text \<open>One instance that can be served: it is brought up to date, and then there is nothing to say.\<close>

lemma served:
  assumes "inst_ok i" "iteration_order v" "distinct (map wi_id ws)" "\<forall>ob. ck ob"
    and "\<not> mi_stopped i" "alive (mi_manager i)" "has_client (mi_manager i)"
  defines "i' \<equiv> refresh_one v ck alive has_client ws i"
  shows "ran (client_view (mi_events i')) = shown ` set ws" and "refresh_one v ck alive has_client ws i' = i'"
    and "mi_manager i' = mi_manager i"
proof -
  obtain og c i1 where eg: "ensure_group ck i = ((og, c), i1)" by (metis prod.exhaust)
  with assms(4) obtain g where "og = Some g"
    by (cases og) (auto simp: ensure_group_def create_resource_def split: option.splits)
  note ok = inst_ok_after [where alive = alive and has_client = has_client,
    OF assms(1-3) eg [unfolded this] assms(5-7), folded i'_def]
  show "ran (client_view (mi_events i')) = shown ` set ws"
    by (rule up_to_date_view [OF ok(2) ok(5) [OF assms(4)] assms(3)])
  show "refresh_one v ck alive has_client ws i' = i'"
    by (rule refresh_again [OF ok(1,2,4) assms(2) ok(5) [OF assms(4)] assms(3)])
  show "mi_manager i' = mi_manager i" by (rule ok(3))
qed

lemma refresh_idem:
  assumes "inst_ok i" "iteration_order v" "distinct (map wi_id ws)" "\<forall>ob. ck ob"
  shows "refresh_one v ck alive has_client ws (refresh_one v ck alive has_client ws i) =
    refresh_one v ck alive has_client ws i"
proof (cases "mi_stopped i \<or> \<not> alive (mi_manager i) \<or> \<not> has_client (mi_manager i)")
  case True
  then show ?thesis by (auto simp: refresh_one_def refresh_instance_def)
next
  case False
  then show ?thesis using served(2) [OF assms, of alive has_client] by blast
qed

text \<open>The instance of a living client after the refresh of a tick.\<close>

lemma refreshed:
  assumes "emskin_wf n s" and "order_laws e" and "first_output e s = Some o'" and "\<forall>ob. ck ob"
    and "i \<in> set (protocol (c_ws s))" and "\<not> mi_stopped i" and "alive (mi_manager i)" and "has_client (mi_manager i)"
  defines "i' \<equiv> refresh_one (visit e) ck alive has_client (ws_infos s) i"
  shows "i' \<in> set (protocol (c_ws (refresh_workspace_state e ck alive has_client s)))"
    and "mi_manager i' = mi_manager i" and "inst_sound i'"
    and "ran (client_view (mi_events i')) = (\<lambda>k. shown (ws_info_of (c_ws s) k)) ` set (all_ids (c_ws s))"
proof -
  have sound: "inst_sound i" using wf_inst [OF assms(1)] assms(5) by (simp add: list_all_iff)
  note laws = assms(2) [unfolded order_laws_def] infos_distinct [OF wf_ids [OF assms(1)]]
  show "inst_sound i'" unfolding i'_def by (rule sound_refresh [OF sound laws])
  note serve = served [where alive = alive and has_client = has_client,
    OF _ laws assms(4,6-8), folded i'_def] sound [unfolded inst_sound_def]
  then show m: "mi_manager i' = mi_manager i" by blast
  show "ran (client_view (mi_events i')) = (\<lambda>k. shown (ws_info_of (c_ws s) k)) ` set (all_ids (c_ws s))"
    using serve by (simp add: image_image)
  show "i' \<in> set (protocol (c_ws (refresh_workspace_state e ck alive has_client s)))"
    using assms(5,7) m by (auto simp: refresh_protocol [OF assms(3)] cleanup_dead_def ws_refresh_def i'_def)
qed

text \<open>C6. While there is an output and protocol objects can be created, the refresh of a tick leaves
  every living client that has not stopped with exactly the workspaces of the compositor in its view,
  each with its id, its name or default name and its activity, and with nothing else; refreshing
  again changes nothing and sends nothing.\<close>

theorem ws_refresh_exact:
  assumes "emskin_run n s" and "n + 2 < 2 ^ 64" and "order_laws e" and "first_output e s = Some o'" and "\<forall>ob. ck ob"
    and "i \<in> set (protocol (c_ws s))" and "\<not> mi_stopped i" and "alive (mi_manager i)" and "has_client (mi_manager i)"
  defines "s' \<equiv> refresh_workspace_state e ck alive has_client s"
  shows "(\<exists>i' \<in> set (protocol (c_ws s')). mi_manager i' = mi_manager i \<and>
      ran (client_view (mi_events i')) = (\<lambda>k. shown (ws_info_of (c_ws s) k)) ` set (all_ids (c_ws s))) \<and>
    refresh_workspace_state e ck alive has_client s' = s'"
proof -
  let ?r = "refresh_one (visit e) ck alive has_client (ws_infos s)"
  note wf = run_wf [OF assms(1,2)]
  have ok: "inst_ok j" if "j \<in> set (protocol (c_ws s))" for j
    using wf_inst [OF wf] that by (simp add: list_all_iff inst_sound_def)
  note laws = assms(3) [unfolded order_laws_def] infos_distinct [OF wf_ids [OF wf]] assms(5)
  note s' = refresh_protocol [OF assms(4), of ck alive has_client, folded s'_def]
  have infos: "ws_infos s' = ws_infos s" by (simp add: s' ws_info_of_def all_ids_def)
  have out: "first_output e s' = Some o'" using assms(4) by (simp add: s' first_output_def)
  have idem: "map ?r (filter (\<lambda>j. alive (mi_manager j)) (map ?r (protocol (c_ws s)))) =
      filter (\<lambda>j. alive (mi_manager j)) (map ?r (protocol (c_ws s)))"
    by (rule map_idI) (auto simp: refresh_idem [OF ok laws])
  have "refresh_workspace_state e ck alive has_client s' = s'"
    unfolding refresh_protocol [OF out] infos using idem
    by (simp add: s' on_ws_def cleanup_dead_def ws_refresh_def)
  then show ?thesis
    using refreshed [where alive = alive and has_client = has_client, OF wf assms(3-9), folded s'_def] by blast
qed

text \<open>A client of the workspace protocol on one output, before any Emacs frame.\<close>

definition bar_client :: "demo_space emskin" where
  "bar_client = on_ws (\<lambda>w. w\<lparr>protocol := ws_client_step (visit demo_env) (WsBind 3) (protocol w)\<rparr>)
     (init_winit demo_env 7 False (emskin_new demo_env True demo_emacs))"

lemma bar_client_facts:
  "emskin_run 0 bar_client" "first_output demo_env bar_client = Some 7" "protocol (c_ws bar_client) = bind_manager 3 []"
proof -
  show "emskin_run 0 bar_client"
    unfolding bar_client_def by (rule run_ws_client [OF run_output [OF run_start]])
  show "first_output demo_env bar_client = Some 7"
    by (simp add: bar_client_def first_output_def init_winit_def emskin_new_def demo_env_def on_ws_def on_space_def call_def)
  show "protocol (c_ws bar_client) = bind_manager 3 []"
    by (simp add: bar_client_def init_winit_def emskin_new_def ws_protocol_new_def)
qed

theorem ws_refresh_exact_witness:
  "\<exists>i' \<in> set (protocol (c_ws (refresh_workspace_state demo_env (\<lambda>_. True) (\<lambda>_. True) (\<lambda>_. True) bar_client))).
     ran (client_view (mi_events i')) = {(''emskin-ws-1'', ''Workspace 1'', True)}"
proof -
  have ids: "all_ids (c_ws bar_client) = [1]"
    by (simp add: bar_client_def init_winit_def emskin_new_def all_ids_def)
  have view: "shown (ws_info_of (c_ws bar_client) 1) = (''emskin-ws-1'', ''Workspace 1'', True)"
    by (simp add: bar_client_def init_winit_def emskin_new_def ws_info_of_def shown_def ws_id_string_def decimal.simps char_of_def bit_0)
  show ?thesis
    using ws_refresh_exact [OF bar_client_facts(1) _ demo_order_laws bar_client_facts(2), of "\<lambda>_. True" "hd (bind_manager 3 [])" "\<lambda>_. True" "\<lambda>_. True"]
    by (auto simp: bar_client_facts(3) ids view bind_manager_def)
qed

end
