(* ===== verification/Effect_Chain.thy ===== *)
theory Effect_Chain
  imports Prelude "HOL-Library.Multiset"
begin

text \<open>
  \<open>crates/effect-core/src/effect.rs\<close> and \<open>chain.rs\<close>: the trait \<open>Effect\<close> as a record of its methods
  and its state, and the chain that keeps the effects sorted and drives them every frame.
\<close>

section \<open>Effects\<close>

record ('s, 'c, 'el) effect =
  ef_name :: string
  ef_state :: 's
  ef_is_active :: "'s \<Rightarrow> bool"
  chain_position :: byte
  ef_pre_paint :: "'c \<Rightarrow> 's \<Rightarrow> 's"
  ef_paint :: "'c \<Rightarrow> 's \<Rightarrow> 'el list \<times> 's"
  ef_post_paint :: "'s \<Rightarrow> bool \<times> 's"
  ef_should_remove :: "'s \<Rightarrow> bool"

definition active :: "('s, 'c, 'el) effect \<Rightarrow> bool" where
  "active f \<longleftrightarrow> ef_is_active f (ef_state f)"

type_synonym ('s, 'c, 'el) chain = "('s, 'c, 'el) effect list"

section \<open>The chain\<close>

text \<open>\<open>push\<close> and the stable \<open>sort_by_key\<close> with \<open>Reverse(chain_position)\<close>.\<close>

definition reverse_position :: "('s, 'c, 'el) effect \<Rightarrow> int" where
  "reverse_position f = - uint (chain_position f)"

definition chain_register :: "('s, 'c, 'el) effect \<Rightarrow> ('s, 'c, 'el) chain \<Rightarrow> ('s, 'c, 'el) chain" where
  "chain_register f fs = sort_key reverse_position (fs @ [f])"

definition chain_pre_paint :: "'c \<Rightarrow> ('s, 'c, 'el) chain \<Rightarrow> ('s, 'c, 'el) chain" where
  "chain_pre_paint ctx = map (\<lambda>f. if active f then f\<lparr>ef_state := ef_pre_paint f ctx (ef_state f)\<rparr> else f)"

fun chain_paint :: "'c \<Rightarrow> ('s, 'c, 'el) chain \<Rightarrow> 'el list \<times> ('s, 'c, 'el) chain" where
  "chain_paint ctx [] = ([], [])"
| "chain_paint ctx (f # fs) =
     (let (els, fs') = chain_paint ctx fs in
      if active f then (case ef_paint f ctx (ef_state f) of (xs, st) \<Rightarrow> (xs @ els, f\<lparr>ef_state := st\<rparr> # fs'))
      else (els, f # fs'))"

fun post_paint_all :: "('s, 'c, 'el) chain \<Rightarrow> bool \<times> ('s, 'c, 'el) chain" where
  "post_paint_all [] = (False, [])"
| "post_paint_all (f # fs) =
     (let (want, fs') = post_paint_all fs in
      if active f then (case ef_post_paint f (ef_state f) of (b, st) \<Rightarrow> (b \<or> want, f\<lparr>ef_state := st\<rparr> # fs'))
      else (want, f # fs'))"

definition chain_post_paint :: "('s, 'c, 'el) chain \<Rightarrow> bool \<times> ('s, 'c, 'el) chain" where
  "chain_post_paint fs =
     (case post_paint_all fs of (want, fs') \<Rightarrow> (want, filter (\<lambda>f. \<not> ef_should_remove f (ef_state f)) fs'))"

text \<open>
  \<open>render_workspace\<close> of \<open>render.rs\<close>: one frame. \<open>extras\<close> are the host's elements, \<open>draw\<close> is whether
  smithay's damage-tracked drawing of the elements succeeds; its error leaves at once. The result is
  \<open>want_redraw\<close>, or nothing.
\<close>

definition render_workspace ::
  "'c \<Rightarrow> 'el list \<Rightarrow> ('el list \<Rightarrow> bool) \<Rightarrow> ('s, 'c, 'el) chain \<Rightarrow> bool option \<times> ('s, 'c, 'el) chain" where
  "render_workspace ctx extras draw fs =
     (case chain_paint ctx (chain_pre_paint ctx fs) of (els, fs1) \<Rightarrow>
        if draw (els @ extras) then (case chain_post_paint fs1 of (want, fs2) \<Rightarrow> (Some want, fs2))
        else (None, fs1))"

section \<open>A frame\<close>

text \<open>What one effect contributes to a frame, and what it is afterwards.\<close>

definition effect_pre :: "'c \<Rightarrow> ('s, 'c, 'el) effect \<Rightarrow> ('s, 'c, 'el) effect" where
  "effect_pre ctx f = (if active f then f\<lparr>ef_state := ef_pre_paint f ctx (ef_state f)\<rparr> else f)"

definition effect_painted :: "'c \<Rightarrow> ('s, 'c, 'el) effect \<Rightarrow> 'el list \<times> ('s, 'c, 'el) effect" where
  "effect_painted ctx f =
     (if active f then (case ef_paint f ctx (ef_state f) of (xs, st) \<Rightarrow> (xs, f\<lparr>ef_state := st\<rparr>)) else ([], f))"

definition effect_post :: "('s, 'c, 'el) effect \<Rightarrow> bool \<times> ('s, 'c, 'el) effect" where
  "effect_post f =
     (if active f then (case ef_post_paint f (ef_state f) of (b, st) \<Rightarrow> (b, f\<lparr>ef_state := st\<rparr>)) else (False, f))"

lemma chain_paint_map:
  "chain_paint ctx fs = (concat (map (fst \<circ> effect_painted ctx) fs), map (snd \<circ> effect_painted ctx) fs)"
  by (induction fs) (simp_all add: effect_painted_def split: prod.splits)

lemma post_paint_map:
  "post_paint_all fs = (\<exists>f \<in> set fs. fst (effect_post f), map (snd \<circ> effect_post) fs)"
  by (induction fs) (simp_all add: effect_post_def split: prod.splits)

lemma chain_pre_paint_map: "chain_pre_paint ctx = map (effect_pre ctx)"
  by (simp add: chain_pre_paint_def effect_pre_def [abs_def])

text \<open>
  A frame shows the elements of the active effects, topmost first, above those of the host. When it
  was drawn, another frame is asked for exactly if an active effect wants one, and the chain keeps
  the effects that are not to be removed, in their order; when drawing failed nobody is asked.
\<close>

lemma frame_composed:
  "render_workspace ctx extras draw fs =
    (let painted = map (\<lambda>f. effect_painted ctx (effect_pre ctx f)) fs in
     if draw (concat (map fst painted) @ extras)
     then (Some (\<exists>f \<in> set painted. fst (effect_post (snd f))),
           filter (\<lambda>f. \<not> ef_should_remove f (ef_state f)) (map (\<lambda>f. snd (effect_post (snd f))) painted))
     else (None, map snd painted))"
  by (simp add: render_workspace_def chain_pre_paint_map chain_paint_map chain_post_paint_def post_paint_map comp_def
      Let_def)

section \<open>Order\<close>

lemma sort_key_append_sorted: "sort_key k (sort_key k xs @ ys) = sort_key k (xs @ ys)"
proof (rule properties_for_sort_key [symmetric])
  show "mset (sort_key k (sort_key k xs @ ys)) = mset (xs @ ys)" by simp
  show "filter (\<lambda>y. k x = k y) (sort_key k (sort_key k xs @ ys)) = filter (\<lambda>y. k x = k y) (xs @ ys)" for x
    using sort_key_stable [of k "k x"] by (simp add: eq_commute)
  show "sorted (map k (sort_key k (sort_key k xs @ ys)))" by simp
qed

lemma register_all: "fold chain_register fs (sort_key reverse_position cs) = sort_key reverse_position (cs @ fs)"
proof (induction fs arbitrary: cs)
  case (Cons f fs)
  show ?case
    using Cons.IH [of "cs @ [f]"] by (simp add: chain_register_def sort_key_append_sorted)
qed simp

lemma register_sorted: "fold chain_register fs [] = sort_key reverse_position fs"
  using register_all [of fs "[]"] by simp

text \<open>The order in which effects are registered does not matter when their positions differ: the
  chain is the same and strictly descending by position, the topmost effect first; removing finished
  effects and repainting keeps it so.\<close>

theorem effects_order:
  assumes "distinct (map chain_position fs)" and "mset gs = mset fs"
  shows "fold chain_register gs [] = fold chain_register fs [] \<and>
    sorted_wrt (\<lambda>f g. chain_position g < chain_position f) (fold chain_register fs []) \<and>
    mset (fold chain_register fs []) = mset fs"
proof -
  have inj: "inj_on reverse_position (set fs)"
    using assms(1) by (auto simp: distinct_map reverse_position_def inj_on_def word_uint_eq_iff)
  have keys: "distinct (map reverse_position fs)" using inj assms(1) by (auto simp: distinct_map)
  let ?c = "sort_key reverse_position fs"
  have "distinct (map reverse_position ?c)"
    using keys by (metis distinct_map distinct_sort inj set_sort)
  then have "sorted_wrt (<) (map reverse_position ?c)" by (simp add: strict_sorted_iff)
  then have "sorted_wrt (\<lambda>f g. chain_position g < chain_position f) ?c"
    by (simp add: sorted_wrt_map reverse_position_def word_less_def)
  moreover have "sort_key reverse_position gs = ?c"
    using assms(2) inj mset_eq_setD [OF assms(2)] by (intro sort_key_inj_key_eq) simp_all
  ultimately show ?thesis by (simp add: register_sorted)
qed

text \<open>The effects of \<open>EffectsState::default\<close>, in the order they are registered.\<close>

definition still :: "string \<Rightarrow> byte \<Rightarrow> (unit, unit, unit) effect" where
  "still nm p = \<lparr>ef_name = nm, ef_state = (), ef_is_active = (\<lambda>_. True), chain_position = p,
     ef_pre_paint = (\<lambda>_ _. ()), ef_paint = (\<lambda>_ _. ([], ())), ef_post_paint = (\<lambda>_. (False, ())),
     ef_should_remove = (\<lambda>_. False)\<rparr>"

definition default_effects :: "(unit, unit, unit) effect list" where
  "default_effects = [still ''splash'' 95, still ''skeleton'' 85, still ''measure'' 80,
     still ''cursor_trail'' 75, still ''jelly_cursor'' 77, still ''recorder'' 90, still ''key_cast'' 78]"

lemma default_chain: "map ef_name (fold chain_register default_effects []) =
    [''splash'', ''recorder'', ''skeleton'', ''measure'', ''key_cast'', ''jelly_cursor'', ''cursor_trail'']"
  unfolding register_sorted default_effects_def still_def
  by (simp add: reverse_position_def)

theorem effects_order_witness:
  "fold chain_register (rev default_effects) [] = fold chain_register default_effects []"
  using effects_order [of default_effects "rev default_effects"]
  by (simp add: default_effects_def still_def)

end
