(* ===== verification/Bar_Props.thy ===== *)
theory Bar_Props
  imports Bar Ws_Props
begin

text \<open>
  The bar against the compositor: whatever events the compositor sent, and whatever pointer and
  layer events came between, the bar shows exactly the workspaces of the compositor.
\<close>

section \<open>Ids on the wire\<close>

lemma decimal_digits: "list_all is_digit (decimal n) \<and> decimal n \<noteq> []"
proof (induction n rule: decimal.induct)
  case (1 n)
  have "is_digit (char_of (48 + m))" if "m < 10" for m :: nat
    using that by (simp add: is_digit_def)
  then show ?case using 1 by (subst (1 2) decimal.simps) simp
qed

lemma digits_no_dash: "list_all is_digit ds \<Longrightarrow> CHR ''-'' \<notin> set ds \<and> CHR ''+'' \<notin> set ds"
  by (auto simp: list_all_iff is_digit_def)

lemma parse_id_wire: "parse_id (ws_id_string k) = k"
proof -
  let ?d = "decimal (unat k)"
  note d = decimal_digits [of "unat k"] digits_no_dash [of ?d]
  have "takeWhile (\<lambda>c. c \<noteq> CHR ''-'') (rev ?d @ rev ''emskin-ws-'') = rev ?d"
    using d by (subst takeWhile_append2) auto
  then have "after_dash (ws_id_string k) = ?d"
    by (simp add: after_dash_def ws_id_string_def)
  moreover obtain c cs where ds: "?d = c # cs" using d by (cases ?d) auto
  have "undecimal (c # cs) = unat k" by (simp flip: ds)
  then have "parse_u64 ?d = Some k"
    using d unsigned_less [of k, where ?'a = nat] unfolding ds by (auto simp: parse_u64_def)
  ultimately show ?thesis by (simp add: parse_id_def)
qed

lemma ws_id_string_eq [simp]: "ws_id_string j = ws_id_string k \<longleftrightarrow> j = k"
  by (metis parse_id_wire)

section \<open>The bar follows the client's view\<close>

type_synonym bar_row = "obj \<times> u64 \<times> string \<times> bool"

definition row :: "bar_entry \<Rightarrow> bar_row" where
  "row en = (be_handle en, be_id en, be_name en, be_active en)"

definition rows :: "bar \<Rightarrow> bar_row list" where
  "rows b = map row (pending_workspaces b @ bar_workspaces b)"

definition read_ids :: "ws_view \<Rightarrow> u64 \<times> string \<times> bool" where
  "read_ids = (\<lambda>(i, n, a). (parse_id i, n, a))"

definition follows :: "bar \<Rightarrow> (obj \<Rightarrow> ws_view option) \<Rightarrow> bool" where
  "follows b v \<longleftrightarrow> distinct (map fst (rows b)) \<and> map_of (rows b) = map_option read_ids \<circ> v"

lemma follows_none: "follows b v \<Longrightarrow> v h = None \<longleftrightarrow> h \<notin> fst ` set (rows b)"
  unfolding follows_def by (metis comp_apply map_of_eq_None_iff option.map_disc_iff)

lemma read_upd [simp]: "map_option read_ids \<circ> v(h := x) = (map_option read_ids \<circ> v)(h := map_option read_ids x)"
  by auto

lemma map_of_mset:
  assumes "mset xs = mset ys" and "distinct (map fst ys)"
  shows "distinct (map fst xs) \<and> map_of xs = map_of ys"
proof -
  have "distinct (map fst xs)" using assms by (metis mset_eq_imp_distinct_iff mset_map)
  moreover have "set xs = set ys" by (rule mset_eq_setD [OF assms(1)])
  ultimately show ?thesis using assms(2) map_of_inject_set by blast
qed

lemma row_simps [simp]: "fst (row en) = be_handle en" "row (en\<lparr>hit_rect := r\<rparr>) = row en"
  by (simp_all add: row_def)

lemma place_pills_rows [simp]: "map row (place_pills api h x ens) = map row ens"
  by (induction api h x ens rule: place_pills.induct) (simp_all add: Let_def)

lemma place_pills_parts:
  "map be_id (place_pills api h x ens) = map be_id ens" "length (place_pills api h x ens) = length ens"
  by (induction api h x ens rule: place_pills.induct) (simp_all add: Let_def)

text \<open>What does not concern the list of workspaces.\<close>

definition same_list :: "bar \<Rightarrow> bar \<Rightarrow> bool" where
  "same_list b b' \<longleftrightarrow> pending_workspaces b' = pending_workspaces b \<and>
     map row (bar_workspaces b') = map row (bar_workspaces b) \<and> map be_id (bar_workspaces b') = map be_id (bar_workspaces b)"

lemma same_refl [simp]: "same_list b b"
  by (simp add: same_list_def)

lemma same_trans: "same_list a b \<Longrightarrow> same_list b c \<Longrightarrow> same_list a c"
  by (simp add: same_list_def)

lemma same_draw: "same_list b (bar_draw api b) \<and> bar_layer (bar_draw api b) = bar_layer b"
  by (simp add: bar_draw_def same_list_def bar_call_def Let_def place_pills_parts split: option.split)

lemma same_visibility:
  "same_list b (update_visibility api b) \<and>
     (bar_layer (update_visibility api b) \<noteq> None \<longleftrightarrow> 2 \<le> length (bar_workspaces b))"
proof -
  have "same_list b (create_layer api b)" "same_list b (destroy_layer b)"
    by (simp_all add: same_list_def create_layer_def destroy_layer_def bar_call_def)
  then show ?thesis
    using same_draw [of b api]
    by (cases "bar_layer b"; cases "2 \<le> length (bar_workspaces b)"; cases "configured_once b")
      (auto simp: update_visibility_def create_layer_def destroy_layer_def bar_call_def)
qed

lemma same_pointer: "same_list b (fold pointer_event evs b) \<and> bar_layer (fold pointer_event evs b) = bar_layer b"
proof (induction evs arbitrary: b)
  case (Cons ev evs)
  have "same_list b (pointer_event ev b) \<and> bar_layer (pointer_event ev b) = bar_layer b"
    by (auto simp: pointer_event_def handle_click_def bar_call_def same_list_def split: prod.split option.split)
  then show ?case using Cons [of "pointer_event ev b"] same_trans by auto
qed simp

fun ws_events :: "(bar_api \<times> bar_input) list \<Rightarrow> ws_event list" where
  "ws_events [] = []"
| "ws_events ((api, WsEvent ev) # ins) = ev # ws_events ins"
| "ws_events (x # ins) = ws_events ins"

definition bar_run :: "(bar_api \<times> bar_input) list \<Rightarrow> bar \<Rightarrow> bar" where
  "bar_run ins = fold (\<lambda>(api, x). bar_step api x) ins"

lemma ws_events_append [simp]: "ws_events (xs @ ys) = ws_events xs @ ws_events ys"
  by (induction xs rule: ws_events.induct) simp_all

lemma same_other:
  assumes "\<And>ev. x \<noteq> WsEvent ev"
  shows "same_list b (bar_step api x b)" and "x \<noteq> LayerClosed \<Longrightarrow> bar_layer (bar_step api x b) = bar_layer b"
proof -
  have "same_list b (layer_configure api w h b)" "bar_layer (layer_configure api w h b) = bar_layer b" for w h
    using same_draw by (auto simp: layer_configure_def Let_def same_list_def)
  moreover have "same_list b (layer_closed b)" by (simp add: layer_closed_def same_list_def)
  ultimately show "same_list b (bar_step api x b)" "x \<noteq> LayerClosed \<Longrightarrow> bar_layer (bar_step api x b) = bar_layer b"
    using assms same_pointer by (cases x; simp)+
qed

lemma follows_same: "same_list b b' \<Longrightarrow> follows b v \<Longrightarrow> follows b' v"
  by (simp add: same_list_def follows_def rows_def)

section \<open>One event\<close>

abbreviation change_at :: "obj \<Rightarrow> (u64 \<times> string \<times> bool \<Rightarrow> u64 \<times> string \<times> bool) \<Rightarrow> bar_row list \<Rightarrow> bar_row list" where
  "change_at h g \<equiv> map (\<lambda>(k, x). (k, if k = h then g x else x))"

lemma change_at_none: "h \<notin> be_handle ` set ens \<Longrightarrow> change_at h g (map row ens) = map row ens"
  by (rule map_idI) (auto simp: row_def)

lemma update_first_rows:
  assumes "distinct (map be_handle ens)" and "\<And>en. be_handle (f en) = be_handle en"
    and "\<And>en. row (f en) = (be_handle en, g (be_id en, be_name en, be_active en))"
  shows "map row (update_first (\<lambda>en. be_handle en = h) f ens) =
    change_at h g (map row ens)"
  using assms(1)
proof (induction ens)
  case (Cons en ens)
  then show ?case
    using assms(2) assms(3) [of en] change_at_none [of h ens g]
    by (cases "be_handle en = h") (simp_all add: row_def)
qed simp

lemma map_of_map_at:
  "map_of (change_at h g xs) = (map_of xs)(h := map_option g (map_of xs h))"
  by (induction xs) (auto simp: fun_eq_iff)

lemma follows_modify:
  assumes "follows b v" and "\<And>en. be_handle (f en) = be_handle en"
    and "\<And>en. row (f en) = (be_handle en, g (be_id en, be_name en, be_active en))"
    and "\<And>x. read_ids (u x) = g (read_ids x)"
  shows "follows (modify_entry h f b) (v(h := map_option u (v h)))"
proof -
  have d: "distinct (map be_handle (pending_workspaces b @ bar_workspaces b))"
    using assms(1) by (simp add: follows_def rows_def comp_def)
  have "rows (modify_entry h f b) = change_at h g (rows b)"
  proof (cases "\<exists>en \<in> set (pending_workspaces b). be_handle en = h")
    case True
    then have "h \<notin> be_handle ` set (bar_workspaces b)" using d by auto
    then show ?thesis
      using True d update_first_rows [OF _ assms(2,3), of "pending_workspaces b" h] change_at_none [of h "bar_workspaces b" g]
      by (simp add: modify_entry_def rows_def)
  next
    case False
    then have "h \<notin> be_handle ` set (pending_workspaces b)" by auto
    then show ?thesis
      using False d update_first_rows [OF _ assms(2,3), of "bar_workspaces b" h] change_at_none [of h "pending_workspaces b" g]
      by (simp add: modify_entry_def rows_def)
  qed
  moreover have "map fst (change_at h g (rows b)) = map fst (rows b)"
    by (simp add: case_prod_beta comp_def)
  moreover have "map_option g (map_option read_ids (v h)) = map_option read_ids (map_option u (v h))"
    using assms(4) by (cases "v h") simp_all
  ultimately show ?thesis
    using assms(1) by (simp add: follows_def map_of_map_at del: option.map_comp fun_upd_apply map_map)
qed

lemma follows_announce:
  assumes "follows b v" and "v h = None"
  shows "follows (b\<lparr>pending_workspaces := pending_workspaces b @ [bar_entry_new h]\<rparr>) (v(h \<mapsto> ([], [], False)))"
proof -
  let ?r = "(h, 0, [], False)" and ?b = "b\<lparr>pending_workspaces := pending_workspaces b @ [bar_entry_new h]\<rparr>"
  have "mset (rows ?b) = mset (?r # rows b)" by (simp add: rows_def bar_entry_new_def row_def)
  moreover have "distinct (map fst (?r # rows b))"
    using assms follows_none [of b v h] by (simp add: follows_def)
  moreover have "read_ids ([], [], False) = (0, [], False)"
    by (simp add: read_ids_def parse_id_def after_dash_def parse_u64_def)
  ultimately show ?thesis
    using assms(1) map_of_mset by (fastforce simp: follows_def)
qed

lemma follows_forget:
  assumes "follows b v"
  shows "follows (if knows_entry h b then forget_entry h b else b) (v(h := None))"
proof -
  have "map row (filter (\<lambda>en. be_handle en \<noteq> h) ens) = filter (\<lambda>(k, x). k \<noteq> h) (map row ens)" for ens
    by (induction ens) (simp_all add: row_def)
  then have "rows (forget_entry h b) = filter (\<lambda>(k, x). k \<noteq> h) (rows b)"
    by (simp add: forget_entry_def rows_def)
  moreover have "map_of (filter (\<lambda>(k, x). k \<noteq> h) xs) = (map_of xs)(h := None)" for xs :: "bar_row list"
    by (induction xs) auto
  moreover have "distinct (map fst (filter P xs))" if "distinct (map fst xs)" for P and xs :: "bar_row list"
    using that by (rule distinct_map_filter)
  moreover have "v h = None" if "\<not> knows_entry h b"
    using follows_none [OF assms, of h] that by (auto simp: knows_entry_def rows_def)
  ultimately show ?thesis using assms by (auto simp: follows_def fun_upd_idem simp del: fun_upd_apply)
qed

lemma follows_done:
  assumes "follows b v"
  shows "follows (b\<lparr>bar_workspaces := sort_key be_id (bar_workspaces b @ pending_workspaces b), pending_workspaces := []\<rparr>) v"
proof -
  let ?b = "b\<lparr>bar_workspaces := sort_key be_id (bar_workspaces b @ pending_workspaces b), pending_workspaces := []\<rparr>"
  have "mset (rows ?b) = mset (rows b)" by (simp add: rows_def mset_map)
  then show ?thesis using assms map_of_mset [of "rows ?b" "rows b"] by (simp add: follows_def)
qed

lemma follows_event:
  assumes "follows b v" and "ev \<noteq> EvFinished" and "\<And>h. ev = EvWorkspace h \<Longrightarrow> v h = None"
  shows "follows (bar_event api ev b) (view_step ev v)"
proof (cases ev)
  case (EvWorkspace h)
  then show ?thesis using assms by (simp add: follows_announce)
next
  case (EvId h i)
  then show ?thesis
    using follows_modify [OF assms(1), of "\<lambda>en. en\<lparr>be_id := parse_id i\<rparr>" "\<lambda>(k, n, a). (parse_id i, n, a)"
        "\<lambda>(_, n, a). (i, n, a)" h] by (simp add: row_def read_ids_def case_prod_beta)
next
  case (EvName h m)
  then show ?thesis
    using follows_modify [OF assms(1), of "\<lambda>en. en\<lparr>be_name := m\<rparr>" "\<lambda>(k, n, a). (k, m, a)"
        "\<lambda>(i, _, a). (i, m, a)" h] by (simp add: row_def read_ids_def case_prod_beta)
next
  case (EvState h c)
  then show ?thesis
    using follows_modify [OF assms(1), of "\<lambda>en. en\<lparr>be_active := c\<rparr>" "\<lambda>(k, n, a). (k, n, c)"
        "\<lambda>(i, n, _). (i, n, c)" h] by (simp add: row_def read_ids_def case_prod_beta)
next
  case (EvRemoved h)
  then show ?thesis using follows_forget [OF assms(1)] by simp
next
  case EvDone
  then show ?thesis using follows_same [OF conjunct1 [OF same_visibility] follows_done [OF assms(1)]] by simp
qed (use assms in simp_all)

section \<open>A whole run of the bar\<close>

lemma bar_run_snoc [simp]: "bar_run (ins @ [(api, x)]) b = bar_step api x (bar_run ins b)"
  by (simp add: bar_run_def)

lemma ws_events_other [simp]: "(\<And>ev. x \<noteq> WsEvent ev) \<Longrightarrow> ws_events [(api, x)] = []"
  by (cases x) auto

lemma view_announced: "h \<notin> set (announced evs) \<Longrightarrow> client_view evs h = None"
proof (induction evs rule: rev_induct)
  case (snoc ev evs)
  then show ?case
    by (cases ev) (auto simp: client_view_append split: if_splits)
qed (simp add: client_view_def)

lemma follows_run:
  assumes "distinct (announced (ws_events ins))" and "EvFinished \<notin> set (ws_events ins)"
  shows "follows (bar_run ins bar_new) (client_view (ws_events ins))"
  using assms
proof (induction ins rule: rev_induct)
  case (snoc i ins)
  obtain api x where i: "i = (api, x)" by force
  have IH: "follows (bar_run ins bar_new) (client_view (ws_events ins))" using snoc by simp
  show ?case
  proof (cases "\<exists>ev. x = WsEvent ev")
    case True
    then obtain ev where x: "x = WsEvent ev" by blast
    have "client_view (ws_events ins) h = None" if "ev = EvWorkspace h" for h
      using snoc.prems that by (intro view_announced) (simp add: i x)
    then show ?thesis
      using follows_event [OF IH, of ev api] snoc.prems(2) by (auto simp: i x client_view_append)
  next
    case False
    then show ?thesis using follows_same [OF same_other(1) IH] by (simp add: i)
  qed
qed (simp add: follows_def bar_run_def rows_def bar_new_def client_view_def comp_def)

text \<open>Between two batches of events nothing is pending, and the list is in the order of the ids; the
  layer surface is there if it is wanted and was not closed since the last batch.\<close>

definition closed_since :: "(bar_api \<times> bar_input) list \<Rightarrow> bool" where
  "closed_since ins \<longleftrightarrow> LayerClosed \<in> snd ` set (takeWhile (\<lambda>i. snd i \<noteq> WsEvent EvDone) (rev ins))"

lemma closed_since_snoc [simp]:
  "closed_since (ins @ [(api, x)]) \<longleftrightarrow> x \<noteq> WsEvent EvDone \<and> (x = LayerClosed \<or> closed_since ins)"
  by (auto simp: closed_since_def image_iff) force

definition tidy :: "bar \<Rightarrow> bool" where
  "tidy b \<longleftrightarrow> pending_workspaces b = [] \<and> sorted (map be_id (bar_workspaces b))"

lemma tidy_same: "same_list b b' \<Longrightarrow> tidy b' = tidy b"
  by (simp add: same_list_def tidy_def)

lemma same_length: "same_list b b' \<Longrightarrow> length (bar_workspaces b') = length (bar_workspaces b)"
  unfolding same_list_def by (metis length_map)

lemma tidy_run:
  assumes "settled (ws_events ins)"
  shows "tidy (bar_run ins bar_new) \<and>
    (bar_layer (bar_run ins bar_new) \<noteq> None \<longleftrightarrow>
       2 \<le> length (bar_workspaces (bar_run ins bar_new)) \<and> \<not> closed_since ins)"
  using assms
proof (induction ins rule: rev_induct)
  case (snoc i ins)
  obtain api x where i: "i = (api, x)" by force
  show ?case
  proof (cases "\<exists>ev. x = WsEvent ev")
    case True
    then have x: "x = WsEvent EvDone" using snoc.prems by (auto simp: i settled_def)
    let ?b = "(bar_run ins bar_new)\<lparr>bar_workspaces := sort_key be_id (bar_workspaces (bar_run ins bar_new) @
      pending_workspaces (bar_run ins bar_new)), pending_workspaces := []\<rparr>"
    note vis = same_visibility [of ?b api]
    have "tidy ?b" by (simp add: tidy_def)
    then show ?thesis
      using vis tidy_same [OF conjunct1 [OF vis]] same_length [OF conjunct1 [OF vis]] by (simp add: i x)
  next
    case False
    then have "settled (ws_events ins)" using snoc.prems by (cases x) (auto simp: i)
    note IH = snoc.IH [OF this]
    note other = same_other [of x, where api = api and b = "bar_run ins bar_new"]
    have "bar_layer (bar_step api LayerClosed b) = None" for b by (simp add: layer_closed_def)
    then show ?thesis
      using False IH other tidy_same same_length by (cases "x = LayerClosed") (auto simp: i)
  qed
qed (simp add: tidy_def bar_run_def bar_new_def)

section \<open>End to end\<close>

lemma one_handle:
  assumes "view_ok cur i" and "client_view (mi_events i) h = Some (ws, x)" and "client_view (mi_events i) h' = Some (ws, y)"
  shows "h = h'"
proof -
  have k: "\<exists>k. map_of (mi_workspaces i) k = Some h \<and> ws = ws_id_string k"
    if v: "client_view (mi_events i) h = Some (ws, x)" for h x
  proof -
    obtain k where k: "map_of (mi_workspaces i) k = Some h"
      using view_relD(2) [OF assms(1) [unfolded view_ok_def] v] by blast
    then show ?thesis using view_relD(1) [OF assms(1) [unfolded view_ok_def] k] v by (auto simp: shown_def)
  qed
  show ?thesis using k [OF assms(2)] k [OF assms(3)] by (metis option.inject parse_id_wire)
qed

text \<open>What the bar lists, in order, and what it should list.\<close>

definition bar_list :: "bar \<Rightarrow> (u64 \<times> string \<times> bool) list" where
  "bar_list b = map (\<lambda>en. (be_id en, be_name en, be_active en)) (bar_workspaces b)"

definition desk_list :: "'sp workspace_state \<Rightarrow> (u64 \<times> string \<times> bool) list" where
  "desk_list w = map (\<lambda>k. let i = ws_info_of w k in (wi_id i, wi_name i, wi_active i)) (all_ids w)"

lemma read_shown: "read_ids (shown w) = (wi_id w, wi_name w, wi_active w)"
  by (simp add: read_ids_def shown_def parse_id_wire)

lemma entry_view:
  assumes "follows b (client_view evs)" and "tidy b" and "ran (client_view evs) \<subseteq> range shown"
    and "en \<in> set (bar_workspaces b)"
  shows "client_view evs (be_handle en) = Some (ws_id_string (be_id en), be_name en, be_active en)"
proof -
  have "(be_handle en, be_id en, be_name en, be_active en) \<in> set (rows b)"
    using assms(4) by (force simp: rows_def row_def)
  then have "map_of (rows b) (be_handle en) = Some (be_id en, be_name en, be_active en)"
    using assms(1) unfolding follows_def by (blast intro: map_of_is_SomeI)
  then obtain x where x: "client_view evs (be_handle en) = Some x" "read_ids x = (be_id en, be_name en, be_active en)"
    using assms(1) by (cases "client_view evs (be_handle en)") (simp_all add: follows_def)
  moreover have "x \<in> range shown" using ranI [of "client_view evs", OF x(1)] assms(3) by blast
  ultimately show ?thesis by (auto simp: read_shown) (simp_all add: shown_def)
qed

lemma view_entry:
  assumes "follows b (client_view evs)" and "tidy b" and "client_view evs h = Some x"
  shows "read_ids x \<in> set (bar_list b)"
proof -
  have "map_of (rows b) h = Some (read_ids x)" using assms(1,3) by (simp add: follows_def)
  then have "(h, read_ids x) \<in> set (rows b)" by (rule map_of_SomeD)
  then show ?thesis using assms(2) by (auto simp: rows_def row_def tidy_def bar_list_def)
qed

lemma bar_list_exact:
  assumes "follows b (client_view (mi_events i))" and "tidy b" and "inst_sound i" and "ws_ids w"
    and "ran (client_view (mi_events i)) = (\<lambda>k. shown (ws_info_of w k)) ` set (all_ids w)"
  shows "bar_list b = desk_list w"
proof -
  let ?v = "client_view (mi_events i)"
  note entry = entry_view [OF assms(1,2)] and listed = view_entry [OF assms(1,2)]
  have shown: "ran ?v \<subseteq> range shown" unfolding assms(5) by blast
  have ids: "map fst (bar_list b) = map be_id (bar_workspaces b)" "map fst (desk_list w) = all_ids w"
    by (simp_all add: bar_list_def desk_list_def comp_def Let_def ws_info_of_def)
  have desk: "set (desk_list w) = read_ids ` ran ?v"
    by (auto simp: desk_list_def assms(5) image_image read_shown Let_def)
  have "t \<in> read_ids ` ran ?v" if t: "t \<in> set (bar_list b)" for t
  proof -
    obtain en where en: "en \<in> set (bar_workspaces b)" "t = (be_id en, be_name en, be_active en)"
      using t unfolding bar_list_def set_map by blast
    then show ?thesis
      using ranI [of ?v, OF entry [OF shown en(1)]] by (force simp: read_ids_def parse_id_wire)
  qed
  moreover have "read_ids x \<in> set (bar_list b)" if "x \<in> ran ?v" for x
    using that listed unfolding ran_def by blast
  ultimately have same: "set (bar_list b) = set (desk_list w)" unfolding desk by blast
  have "distinct (map be_handle (bar_workspaces b))"
    using assms(1,2) by (simp add: follows_def tidy_def rows_def comp_def)
  then have "inj_on be_id (set (bar_workspaces b))" "distinct (bar_workspaces b)"
    using assms(3) entry [OF shown] one_handle unfolding inj_on_def distinct_map inst_sound_def inst_ok_def by metis+
  then have d: "distinct (map fst (bar_list b))" unfolding ids distinct_map by simp
  have e: "distinct (map fst (desk_list w))" unfolding ids using assms(4) by (simp add: ws_ids_def all_ids_facts)
  have "inj_on fst (set (bar_list b) \<union> set (desk_list w))"
    using d unfolding same distinct_map by (simp add: same)
  moreover have "sorted (map fst (bar_list b))" "sorted (map fst (desk_list w))"
    using assms(2) by (simp add: ids tidy_def, simp only: ids all_ids_def sorted_sort)
  ultimately show ?thesis using d e same by (intro map_sorted_distinct_set_unique [of fst])
qed

text \<open>C3. The bar and the compositor together: after the refresh of a tick, a bar that has handled the
  events it was sent, whatever pointer and layer events came in between, lists exactly the
  compositor's workspaces, in the order of their ids, each with its name or default name and its
  activity; and its layer surface exists exactly when there are at least two workspaces and the
  compositor has not closed it since the last batch of events the bar handled.\<close>

theorem bar_shows_workspaces:
  assumes "emskin_run n s" and "n + 2 < 2 ^ 64" and "order_laws e" and "first_output e s = Some o'" and "\<forall>ob. ck ob"
    and "i \<in> set (protocol (c_ws s))" and "\<not> mi_stopped i" and "alive (mi_manager i)" and "has_client (mi_manager i)"
  shows "\<exists>i' \<in> set (protocol (c_ws (refresh_workspace_state e ck alive has_client s))). mi_manager i' = mi_manager i \<and>
    (\<forall>ins. ws_events ins = mi_events i' \<longrightarrow>
       bar_list (bar_run ins bar_new) = desk_list (c_ws s) \<and>
       (bar_layer (bar_run ins bar_new) \<noteq> None \<longleftrightarrow>
          2 \<le> length (all_ids (c_ws s)) \<and>
          LayerClosed \<notin> snd ` set (takeWhile (\<lambda>i. snd i \<noteq> WsEvent EvDone) (rev ins))))"
proof -
  note wf = run_wf [OF assms(1,2)]
  let ?i = "refresh_one (visit e) ck alive has_client (ws_infos s) i"
  note i' = refreshed [where alive = alive and has_client = has_client, OF wf assms(3-9)]
  have alive: "\<not> mi_stopped ?i" using assms(7) by simp
  have "bar_list (bar_run ins bar_new) = desk_list (c_ws s) \<and>
      (bar_layer (bar_run ins bar_new) \<noteq> None \<longleftrightarrow> 2 \<le> length (all_ids (c_ws s)) \<and>
         LayerClosed \<notin> snd ` set (takeWhile (\<lambda>i. snd i \<noteq> WsEvent EvDone) (rev ins)))"
    if evs: "ws_events ins = mi_events ?i" for ins
  proof -
    have s: "distinct (announced (ws_events ins))" "EvFinished \<notin> set (ws_events ins)" "settled (ws_events ins)"
      using i'(3) alive by (simp_all add: evs inst_sound_def)
    note t = tidy_run [OF s(3)]
    have same: "bar_list (bar_run ins bar_new) = desk_list (c_ws s)"
      using bar_list_exact [OF follows_run [OF s(1,2), unfolded evs] conjunct1 [OF t] i'(3) wf_ids [OF wf] i'(4)] .
    have "length (bar_workspaces (bar_run ins bar_new)) = length (all_ids (c_ws s))"
      using arg_cong [OF same, of length] by (simp add: bar_list_def desk_list_def)
    then show ?thesis using same t by (simp add: closed_since_def)
  qed
  then show ?thesis using i'(1,2) by blast
qed

section \<open>A click\<close>

text \<open>What a call of the bar \<open>m\<close> is for the compositor.\<close>

fun bar_request :: "(u64 list \<Rightarrow> u64 list) \<Rightarrow> nat \<Rightarrow> bar_call \<Rightarrow> ws_protocol \<Rightarrow> ws_protocol" where
  "bar_request v m (ActivateHandle h) p = ws_client_step v (WsHandle h HdlActivate) p"
| "bar_request v m CommitManager p = ws_client_step v (WsManager m MgrCommit) p"
| "bar_request v m (LayerCommit sf) p = p"
| "bar_request v m (Attached sf) p = p"

lemma commit_silent: "manager_request m MgrCommit p = p"
proof -
  have "update_first P (\<lambda>i. i) p = p" for P by (induction p) simp_all
  then show ?thesis by (simp add: manager_request_def)
qed

lemma ws_of_handle_unique:
  assumes "iteration_order v" and "i \<in> set p" and "map_of (mi_workspaces i) k = Some h"
    and "\<And>j k'. j \<in> set p \<Longrightarrow> map_of (mi_workspaces j) k' = Some h \<Longrightarrow> k' = k"
  shows "ws_of_handle v h p = Some k"
  using assms(2,4)
proof (induction p)
  case (Cons j p)
  have mem: "(k', h') \<in> set (entries v (mi_workspaces j)) \<Longrightarrow> map_of (mi_workspaces j) k' = Some h'" for k' h'
    using assms(1) by (auto simp: entries_def iteration_set dest!: weak_map_of_SomeI)
  show ?case
  proof (cases "find (\<lambda>(k, h'). h' = h) (entries v (mi_workspaces j))")
    case None
    have "map_of (mi_workspaces j) k \<noteq> Some h"
    proof
      assume at: "map_of (mi_workspaces j) k = Some h"
      then have "k \<in> fst ` set (mi_workspaces j)" by (force dest: map_of_SomeD)
      then have "(k, h) \<in> set (entries v (mi_workspaces j))"
        using assms(1) at by (force simp: entries_def iteration_set)
      then show False using None unfolding find_None_iff by (metis (mono_tags, lifting) case_prod_conv)
    qed
    then have "i \<noteq> j" using assms(3) by blast
    have "ws_of_handle v h p = Some k"
      by (rule Cons.IH) (use Cons.prems \<open>i \<noteq> j\<close> in auto)
    then show ?thesis using None by simp
  next
    case (Some kh)
    then have "map_of (mi_workspaces j) (fst kh) = Some h"
      using mem [of "fst kh" "snd kh"] by (auto simp: find_Some_iff case_prod_beta)
    then have "fst kh = k" using Cons.prems(2) [of j "fst kh"] by simp
    then show ?thesis using Some by (simp add: case_prod_beta)
  qed
qed simp

lemma pushed_action:
  assumes "\<exists>i \<in> set p. P i" and "\<forall>i \<in> set p. mi_actions i = []"
  shows "fst (take_pending_actions (update_first P (push_action a) p)) = [a]"
proof -
  have "concat (map mi_actions (update_first P (push_action a) p)) = [a]"
    using assms
  proof (induction p)
    case (Cons i p)
    then show ?case by (cases "P i") (auto simp: push_action_def)
  qed simp
  then show ?thesis by (simp add: take_pending_actions_def)
qed

lemma activated:
  assumes "iteration_order (visit e)" and "i \<in> set (protocol (c_ws s))" and "map_of (mi_workspaces i) k = Some h"
    and "\<And>j k'. j \<in> set (protocol (c_ws s)) \<Longrightarrow> map_of (mi_workspaces j) k' = Some h \<Longrightarrow> k' = k"
    and "\<forall>j \<in> set (protocol (c_ws s)). mi_actions j = []" and "k \<in> set (all_ids (c_ws s))"
  shows "active_id (c_ws (process_workspace_actions e
    (on_ws (\<lambda>w. w\<lparr>protocol := handle_request (visit e) h HdlActivate (protocol w)\<rparr>) s))) = k"
proof -
  let ?p = "update_first (owns_handle h) (push_action (Activate k)) (protocol (c_ws s))"
  have "ws_of_handle (visit e) h (protocol (c_ws s)) = Some k"
    by (rule ws_of_handle_unique [OF assms(1-3)]) (rule assms(4))
  then have p: "handle_request (visit e) h HdlActivate (protocol (c_ws s)) = ?p" by (simp add: handle_request_def)
  have "owns_handle h i" using map_of_SomeD [OF assms(3)] by (force simp: owns_handle_def)
  then have take: "fst (take_pending_actions ?p) = [Activate k]"
    using assms(2,5) by (intro pushed_action) auto
  obtain p' where take_p: "take_pending_actions ?p = ([Activate k], p')" using take by (metis prod.collapse)
  have "k = active_id (c_ws s) \<or> map_of (inactive (c_ws s)) k \<noteq> None"
    using assms(6) by (auto simp: all_ids_facts map_of_eq_None_iff)
  then show ?thesis
    by (auto simp: process_workspace_actions_def p take_p workspace_action_def switch_ws Let_def swap_workspace_ws
        split: option.split)
qed

text \<open>A bar on the Emacs of \<open>bar_client\<close>: it handles all it was sent, then its layer is configured.\<close>

definition demo_bar_api :: bar_api where
  "demo_bar_api = \<lparr>text_px = (\<lambda>t. 50), buffer_ok = True, attach_ok = True, new_surface = 9\<rparr>"

definition demo_inputs :: "ws_event list \<Rightarrow> (bar_api \<times> bar_input) list" where
  "demo_inputs evs = map (\<lambda>ev. (demo_bar_api, WsEvent ev)) evs @ [(demo_bar_api, LayerConfigured 800 28)]"

lemma ws_events_demo [simp]: "ws_events (demo_inputs evs) = evs"
proof -
  have "ws_events (map (\<lambda>ev. (demo_bar_api, WsEvent ev)) evs) = evs" by (induction evs) simp_all
  then show ?thesis by (simp add: demo_inputs_def)
qed

theorem bar_shows_workspaces_witness:
  "\<exists>i' \<in> set (protocol (c_ws (refresh_workspace_state demo_env (\<lambda>_. True) (\<lambda>_. True) (\<lambda>_. True) bar_client))).
     bar_list (bar_run (demo_inputs (mi_events i')) bar_new) = [(1, ''Workspace 1'', True)] \<and>
     bar_layer (bar_run (demo_inputs (mi_events i')) bar_new) = None"
proof -
  have ids: "all_ids (c_ws bar_client) = [1]"
    by (simp add: bar_client_def init_winit_def emskin_new_def all_ids_def)
  have desk: "desk_list (c_ws bar_client) = [(1, ''Workspace 1'', True)]"
    unfolding desk_list_def ids
    by (simp add: bar_client_def init_winit_def emskin_new_def ws_info_of_def decimal.simps char_of_def bit_0)
  obtain i' where i': "i' \<in> set (protocol (c_ws (refresh_workspace_state demo_env (\<lambda>_. True) (\<lambda>_. True) (\<lambda>_. True) bar_client)))"
      "\<forall>ins. ws_events ins = mi_events i' \<longrightarrow> bar_list (bar_run ins bar_new) = desk_list (c_ws bar_client) \<and>
        (bar_layer (bar_run ins bar_new) \<noteq> None \<longleftrightarrow> 2 \<le> length (all_ids (c_ws bar_client)) \<and>
           LayerClosed \<notin> snd ` set (takeWhile (\<lambda>i. snd i \<noteq> WsEvent EvDone) (rev ins)))"
    using bar_shows_workspaces [OF bar_client_facts(1) _ demo_order_laws bar_client_facts(2), of "\<lambda>_. True"
        "hd (bind_manager 3 [])" "\<lambda>_. True" "\<lambda>_. True"]
    by (auto simp: bar_client_facts(3) bind_manager_def)
  then show ?thesis by (intro bexI [OF _ i'(1)]) (simp add: desk ids)
qed

text \<open>C4. A click on a pill switches to the workspace it shows: the bar asks for the activation of a
  handle that stands, for the compositor, for exactly the workspace whose id the pill has, and once
  the compositor has handled what the bar sent, that workspace is the active one.\<close>

theorem bar_click_switches:
  assumes "emskin_wf n s" and "order_laws e" and "first_output e s = Some o'" and "\<forall>ob. ck ob"
    and "i \<in> set (protocol (c_ws s))" and "\<not> mi_stopped i" and "alive (mi_manager i)" and "has_client (mi_manager i)"
  defines "s' \<equiv> refresh_workspace_state e ck alive has_client s"
  assumes "distinct (map mi_manager (protocol (c_ws s')))" and "\<forall>j \<in> set (protocol (c_ws s')). mi_actions j = []"
  shows "\<exists>i' \<in> set (protocol (c_ws s')). mi_manager i' = mi_manager i \<and>
    (\<forall>ins pos en. ws_events ins = mi_events i' \<longrightarrow> hit_test (bar_workspaces (bar_run ins bar_new)) pos = Some en \<longrightarrow>
       be_id en \<in> set (all_ids (c_ws s)) \<and>
       (\<exists>cs. bar_calls (handle_click pos (bar_run ins bar_new)) = bar_calls (bar_run ins bar_new) @ cs \<and>
          active_id (c_ws (process_workspace_actions e
            (on_ws (\<lambda>w. w\<lparr>protocol := fold (bar_request (visit e) (mi_manager i)) cs (protocol w)\<rparr>) s'))) = be_id en))"
proof -
  note wf = assms(1)
  let ?i = "refresh_one (visit e) ck alive has_client (ws_infos s) i"
  note i' = refreshed [where alive = alive and has_client = has_client, OF wf assms(2-8), folded s'_def]
  have all_sound: "inst_sound j" if "j \<in> set (protocol (c_ws s'))" for j
    using wf_inst [OF wf_refresh_workspace_state [OF wf assms(2)]] that by (simp add: s'_def list_all_iff)
  have ids: "all_ids (c_ws s') = all_ids (c_ws s)"
    by (simp add: s'_def refresh_protocol [OF assms(3)] all_ids_def)
  show ?thesis
  proof (intro bexI [of _ ?i] conjI allI impI i'(1,2))
    fix ins pos en
    assume evs: "ws_events ins = mi_events ?i" and hit: "hit_test (bar_workspaces (bar_run ins bar_new)) pos = Some en"
    let ?b = "bar_run ins bar_new"
    have s: "distinct (announced (ws_events ins))" "EvFinished \<notin> set (ws_events ins)" "settled (ws_events ins)"
      using i'(3) assms(6) by (simp_all add: evs inst_sound_def)
    have en: "en \<in> set (bar_workspaces ?b)"
      using hit by (cases pos) (auto simp: hit_test_def find_Some_iff)
    have "ran (client_view (mi_events ?i)) \<subseteq> range shown" unfolding i'(4) by blast
    note v = entry_view [OF follows_run [OF s(1,2), unfolded evs] conjunct1 [OF tidy_run [OF s(3)]] this en]
    have ok: "view_ok (snapshot ?i) ?i" using i'(3) by (simp add: inst_sound_def inst_ok_def)
    obtain k where k: "map_of (mi_workspaces ?i) k = Some (be_handle en)"
      using view_relD(2) [OF ok [unfolded view_ok_def] v] by blast
    then have "k = be_id en"
      using view_relD(1) [OF ok [unfolded view_ok_def] k] v by (auto simp: shown_def)
    note k = k [unfolded this]
    have one: "k' = be_id en" if j: "j \<in> set (protocol (c_ws s'))" and k': "map_of (mi_workspaces j) k' = Some (be_handle en)" for j k'
    proof -
      have "view_ok (snapshot j) j" using all_sound [OF j] by (simp add: inst_sound_def inst_ok_def)
      then have "mi_manager j = mi_manager ?i"
        using k k' ok unfolding view_ok_def view_rel_def by metis
      then have "j = ?i" using assms(10) i'(1) j by (auto simp: distinct_map inj_on_def)
      then show ?thesis using k k' ok unfolding view_ok_def view_rel_def by metis
    qed
    have "(ws_id_string (be_id en), be_name en, be_active en) \<in> (\<lambda>k. shown (ws_info_of (c_ws s) k)) ` set (all_ids (c_ws s))"
      using ranI [of "client_view (mi_events ?i)", OF v] unfolding i'(4) .
    then show "be_id en \<in> set (all_ids (c_ws s))"
      by (auto simp: shown_def ws_info_of_def Let_def)
    then have "active_id (c_ws (process_workspace_actions e
        (on_ws (\<lambda>w. w\<lparr>protocol := handle_request (visit e) (be_handle en) HdlActivate (protocol w)\<rparr>) s'))) = be_id en"
      using assms(2,11) by (intro activated [OF _ i'(1) k one]) (simp_all add: order_laws_def ids)
    then show "\<exists>cs. bar_calls (handle_click pos ?b) = bar_calls ?b @ cs \<and>
        active_id (c_ws (process_workspace_actions e
          (on_ws (\<lambda>w. w\<lparr>protocol := fold (bar_request (visit e) (mi_manager i)) cs (protocol w)\<rparr>) s'))) = be_id en"
      by (intro exI [of _ "[ActivateHandle (be_handle en), CommitManager]"])
        (simp add: handle_click_def hit bar_call_def commit_silent)
  qed
qed

text \<open>Two workspaces and a bar.\<close>

definition demo_bar :: "demo_space emskin" where
  "demo_bar = on_ws (\<lambda>w. w\<lparr>protocol := bind_manager 3 []\<rparr>) demo_two"

definition demo_events :: "ws_event list" where
  "demo_events = [EvGroup (3, 0), EvGroupCapabilities (3, 0)] @
     announce_ws (3, 0) (3, 1) \<lparr>wi_id = 1, wi_name = ''a'', wi_active = True\<rparr> @
     announce_ws (3, 0) (3, 2) \<lparr>wi_id = 2, wi_name = ''b'', wi_active = False\<rparr> @ [EvDone]"

lemma demo_bar_facts:
  "emskin_wf 5 demo_bar" "first_output demo_env demo_bar = Some 7"
  "protocol (c_ws demo_bar) = bind_manager 3 []" "all_ids (c_ws demo_bar) = [1, 2]"
  "map mi_events (protocol (c_ws (refresh_workspace_state demo_env (\<lambda>_. True) (\<lambda>_. True) (\<lambda>_. True) demo_bar))) =
     [demo_events]"
  "map mi_actions (protocol (c_ws (refresh_workspace_state demo_env (\<lambda>_. True) (\<lambda>_. True) (\<lambda>_. True) demo_bar))) = [[]]"
proof -
  have "inst_sound (hd (bind_manager 3 []))"
    by (simp add: bind_manager_def inst_sound_def inst_ok_bind settled_def)
  then have "list_all inst_sound (bind_manager 3 [])" by (simp add: bind_manager_def)
  then show "emskin_wf 5 demo_bar"
    using demo_two_wf by (simp add: demo_bar_def wf_protocol)
  show out: "first_output demo_env demo_bar = Some 7"
    by (simp add: demo_bar_def demo_two_def on_ws_def first_output_def demo_env_def)
  have v: "visit demo_env = (\<lambda>ks. ks)" by (simp add: demo_env_def)
  show "map mi_events (protocol (c_ws (refresh_workspace_state demo_env (\<lambda>_. True) (\<lambda>_. True) (\<lambda>_. True) demo_bar))) =
     [demo_events]"
    "map mi_actions (protocol (c_ws (refresh_workspace_state demo_env (\<lambda>_. True) (\<lambda>_. True) (\<lambda>_. True) demo_bar))) = [[]]"
    unfolding refresh_protocol [OF out]
    by (simp_all add: v cleanup_dead_def ws_refresh_def bind_manager_def refresh_one_def
        refresh_instance_def ensure_group_def create_resource_def send_events_def update_ws_def demo_bar_def demo_two_def
        ws_info_of_def demo_events_def all_ids_def Let_def numeral_2_eq_2)
qed (simp_all add: demo_bar_def demo_two_def all_ids_def)

lemma demo_hit:
  "\<exists>en. hit_test (bar_workspaces (bar_run (demo_inputs demo_events) bar_new)) (90, 10) = Some en \<and> be_id en = 2"
  by (simp add: demo_inputs_def demo_events_def bar_run_def bar_new_def announce_ws_def bar_entry_new_def modify_entry_def
      parse_id_wire update_visibility_def create_layer_def layer_configure_def bar_draw_def bar_call_def hit_test_def
      demo_bar_api_def display_name_def quot_def PILL_H_PAD_def PILL_TEXT_PAD_def PILL_GAP_def BAR_PAD_def Let_def)

theorem bar_click_switches_witness:
  "\<exists>cs. bar_calls (handle_click (90, 10) (bar_run (demo_inputs demo_events) bar_new)) =
       bar_calls (bar_run (demo_inputs demo_events) bar_new) @ cs \<and>
     active_id (c_ws (process_workspace_actions demo_env
       (on_ws (\<lambda>w. w\<lparr>protocol := fold (bar_request (visit demo_env) 3) cs (protocol w)\<rparr>)
         (refresh_workspace_state demo_env (\<lambda>_. True) (\<lambda>_. True) (\<lambda>_. True) demo_bar)))) = 2"
proof -
  let ?s = "refresh_workspace_state demo_env (\<lambda>_. True) (\<lambda>_. True) (\<lambda>_. True) demo_bar"
  obtain j where j: "protocol (c_ws ?s) = [j]" "mi_events j = demo_events" "mi_actions j = []"
    using demo_bar_facts(5,6) by (auto simp: map_eq_Cons_conv)
  obtain en where en: "hit_test (bar_workspaces (bar_run (demo_inputs demo_events) bar_new)) (90, 10) = Some en" "be_id en = 2"
    using demo_hit by blast
  let ?on = "\<lambda>cs. on_ws (\<lambda>w. w\<lparr>protocol := fold (bar_request (visit demo_env) 3) cs (protocol w)\<rparr>) ?s"
  have "\<forall>ins pos en. ws_events ins = demo_events \<longrightarrow> hit_test (bar_workspaces (bar_run ins bar_new)) pos = Some en \<longrightarrow>
      be_id en \<in> set (all_ids (c_ws demo_bar)) \<and>
      (\<exists>cs. bar_calls (handle_click pos (bar_run ins bar_new)) = bar_calls (bar_run ins bar_new) @ cs \<and>
        active_id (c_ws (process_workspace_actions demo_env (?on cs))) = be_id en)"
    using bar_click_switches [OF demo_bar_facts(1) demo_order_laws demo_bar_facts(2), of "\<lambda>_. True"
        "hd (bind_manager 3 [])" "\<lambda>_. True" "\<lambda>_. True"]
    by (simp add: j demo_bar_facts(3) bind_manager_def)
  from this [rule_format, OF ws_events_demo en(1)] show ?thesis by (simp add: en(2))
qed

end
