(* ===== verification/Clip_X11.thy ===== *)
theory Clip_X11
  imports Selection
begin

text \<open>
  The X11 clipboard back end, \<open>crates/emskin-clipboard/src/x11.rs\<close>: conversions asked from the
  host's selection owner, requests of host applications for our data, and incremental (INCR)
  transfers in both directions.

  Requests sent to the X server, and descriptors written or closed, are the calls \<open>x_calls\<close> in
  their order; flushing the connection and logging are left out. What the server and the kernel
  answer during one handler is the record \<open>x_server\<close>.
\<close>

section \<open>Atoms\<close>

type_synonym atom = u32

record x_atoms =
  A_CLIPBOARD :: atom
  A_PRIMARY :: atom
  A_TARGETS :: atom
  A_TIMESTAMP :: atom
  A_INCR :: atom
  A_UTF8_STRING :: atom
  A_TEXT :: atom
  A_CLIP_SEL :: atom
  A_PRIM_SEL :: atom
  A_CLIP_INIT :: atom
  A_PRIM_INIT :: atom

text \<open>Predefined atoms of the core protocol.\<close>

definition NO_ATOM :: atom where "NO_ATOM = 0"
definition ATOM_TYPE :: atom where "ATOM_TYPE = 4"
definition INTEGER_TYPE :: atom where "INTEGER_TYPE = 19"

text \<open>A property as \<open>get_property\<close> returns it; \<open>xp_value32\<close> is \<open>value32()\<close>.\<close>

record x_property =
  xp_type :: atom
  xp_value :: bytes
  xp_value32 :: "atom list option"

text \<open>Answers: \<open>xs_sent\<close> is whether a request could be sent, \<open>xs_property\<close> the property read,
  \<open>xs_pipe\<close> the new pipe, \<open>xs_writes\<close> the results of successive \<open>write\<close> calls, \<open>xs_visit\<close> the
  iteration order of the table of conversions.\<close>

record x_server =
  xs_name :: "atom \<Rightarrow> string option"
  xs_intern :: "string \<Rightarrow> atom option"
  xs_sent :: bool
  xs_property :: "x_property option"
  xs_pipe :: "(nat \<times> nat) option"
  xs_writes :: "int list"
  xs_visit :: "(atom \<times> atom) list \<Rightarrow> (atom \<times> atom) list"

definition mime_from_atom :: "x_server \<Rightarrow> x_atoms \<Rightarrow> atom \<Rightarrow> string option" where
  "mime_from_atom srv at a =
     (if a = A_TEXT at then Some ''text/plain''
      else if a = A_UTF8_STRING at then Some ''text/plain;charset=utf-8''
      else xs_name srv a)"

definition atom_from_mime :: "x_server \<Rightarrow> x_atoms \<Rightarrow> string \<Rightarrow> atom option" where
  "atom_from_mime srv at mime =
     (if mime = ''text/plain'' then Some (A_TEXT at)
      else if mime = ''text/plain;charset=utf-8'' then Some (A_UTF8_STRING at)
      else xs_intern srv mime)"

fun selection_atom :: "selection_kind \<Rightarrow> x_atoms \<Rightarrow> atom" where
  "selection_atom KClipboard at = A_CLIPBOARD at"
| "selection_atom KPrimary at = A_PRIMARY at"

fun property_atom :: "selection_kind \<Rightarrow> x_atoms \<Rightarrow> atom" where
  "property_atom KClipboard at = A_CLIP_SEL at"
| "property_atom KPrimary at = A_PRIM_SEL at"

definition selection_kind_from_atom :: "atom \<Rightarrow> x_atoms \<Rightarrow> selection_kind option" where
  "selection_kind_from_atom a at =
     (if a = A_CLIPBOARD at then Some KClipboard else if a = A_PRIMARY at then Some KPrimary else None)"

section \<open>State\<close>

datatype pending_convert = PTargets selection_kind | PData nat bool bytes

record x_request =
  rq_time :: u32
  rq_requestor :: u32
  rq_selection :: atom
  rq_target :: atom
  rq_property :: atom

record incr_outgoing =
  io_request :: x_request
  io_data :: bytes
  flush_on_delete :: bool

datatype x_call =
    ConvertSelection atom atom atom u32
  | ChangeProperty32 u32 atom atom "u32 list"
  | ChangeProperty8 u32 atom atom bytes
  | SendNotify x_request bool
  | SetSelectionOwner u32 atom
  | WriteFd nat bytes
  | CloseFd nat

record x11 =
  x_atom :: x_atoms
  x_window :: u32
  our_clipboard_mimes :: "string list"
  our_primary_mimes :: "string list"
  our_clipboard_ts :: u32
  our_primary_ts :: u32
  pending_converts :: "((atom \<times> atom) \<times> pending_convert) list"
  next_outgoing_id :: u64
  outgoing_requests :: "(u64 \<times> x_request) list"
  incr_transfers :: "incr_outgoing list"
  x_events :: "clipboard_event list"
  suppress_clipboard :: u32
  suppress_primary :: u32
  x_calls :: "x_call list"

definition INCR_CHUNK_SIZE :: nat where "INCR_CHUNK_SIZE = 64 * 1024"

definition x_call :: "x_call list \<Rightarrow> x11 \<Rightarrow> x11" where
  "x_call cs s = s\<lparr>x_calls := x_calls s @ cs\<rparr>"

definition x_event :: "clipboard_event \<Rightarrow> x11 \<Rightarrow> x11" where
  "x_event ev s = s\<lparr>x_events := x_events s @ [ev]\<rparr>"

fun our_mimes :: "selection_kind \<Rightarrow> x11 \<Rightarrow> string list" where
  "our_mimes KClipboard s = our_clipboard_mimes s"
| "our_mimes KPrimary s = our_primary_mimes s"

fun our_ts :: "selection_kind \<Rightarrow> x11 \<Rightarrow> u32" where
  "our_ts KClipboard s = our_clipboard_ts s"
| "our_ts KPrimary s = our_primary_ts s"

fun set_our_ts :: "selection_kind \<Rightarrow> u32 \<Rightarrow> x11 \<Rightarrow> x11" where
  "set_our_ts KClipboard t s = s\<lparr>our_clipboard_ts := t\<rparr>"
| "set_our_ts KPrimary t s = s\<lparr>our_primary_ts := t\<rparr>"

fun suppressed :: "selection_kind \<Rightarrow> x11 \<Rightarrow> u32" where
  "suppressed KClipboard s = suppress_clipboard s"
| "suppressed KPrimary s = suppress_primary s"

fun set_suppressed :: "selection_kind \<Rightarrow> u32 \<Rightarrow> x11 \<Rightarrow> x11" where
  "set_suppressed KClipboard n s = s\<lparr>suppress_clipboard := n\<rparr>"
| "set_suppressed KPrimary n s = s\<lparr>suppress_primary := n\<rparr>"

text \<open>An entry that is dropped closes the descriptor it owns.\<close>

fun drop_convert :: "pending_convert option \<Rightarrow> x_call list" where
  "drop_convert (Some (PData fd incr d)) = [CloseFd fd]"
| "drop_convert _ = []"

definition insert_convert :: "atom \<times> atom \<Rightarrow> pending_convert \<Rightarrow> x11 \<Rightarrow> x11" where
  "insert_convert key v s =
     x_call (drop_convert (map_of (pending_converts s) key))
       (s\<lparr>pending_converts := AList.update key v (pending_converts s)\<rparr>)"

definition forget_convert :: "atom \<times> atom \<Rightarrow> x11 \<Rightarrow> x11" where
  "forget_convert key s = s\<lparr>pending_converts := AList.delete key (pending_converts s)\<rparr>"

section \<open>Writing to a client\<close>

text \<open>The bytes that reach the descriptor; \<open>ns\<close> are the results of \<open>write\<close>.\<close>

fun write_all_to_fd :: "int list \<Rightarrow> bytes \<Rightarrow> bytes" where
  "write_all_to_fd ns [] = []"
| "write_all_to_fd [] (b # bs) = []"
| "write_all_to_fd (n # ns) (b # bs) =
     (if n \<le> 0 then [] else take (nat n) (b # bs) @ write_all_to_fd ns (drop (nat n) (b # bs)))"

definition finish_fd :: "x_server \<Rightarrow> nat \<Rightarrow> bytes \<Rightarrow> x11 \<Rightarrow> x11" where
  "finish_fd srv fd d = x_call [WriteFd fd (write_all_to_fd (xs_writes srv) d), CloseFd fd]"

section \<open>Events of the X server\<close>

record x_fixes_notify =
  xf_owner :: u32
  xf_selection :: atom
  xf_timestamp :: u32

definition on_xfixes_notify :: "x_server \<Rightarrow> x_fixes_notify \<Rightarrow> x11 \<Rightarrow> x11" where
  "on_xfixes_notify srv n s =
     (case selection_kind_from_atom (xf_selection n) (x_atom s) of
        None \<Rightarrow> s
      | Some kind \<Rightarrow>
          if xf_owner n = x_window s then set_our_ts kind (xf_timestamp n) s
          else if 0 < suppressed kind s then set_suppressed kind (suppressed kind s - 1) s
          else if xf_owner n = 0 then x_event (HostSelectionChanged kind []) s
          else
            (let sel = xf_selection n; prop = property_atom kind (x_atom s) in
             if \<not> xs_sent srv then s
             else insert_convert (sel, prop) (PTargets kind)
               (x_call [ConvertSelection sel (A_TARGETS (x_atom s)) prop (xf_timestamp n)] s)))"

definition handle_targets_reply :: "x_server \<Rightarrow> selection_kind \<Rightarrow> atom \<Rightarrow> x11 \<Rightarrow> x11" where
  "handle_targets_reply srv kind prop s =
     (case xs_property srv of
        None \<Rightarrow> s
      | Some p \<Rightarrow>
          (let mime_types = (case xp_value32 p of
               None \<Rightarrow> [] | Some as \<Rightarrow> List.map_filter (mime_from_atom srv (x_atom s)) as) in
           x_event (HostSelectionChanged kind mime_types) s))"

definition handle_data_reply :: "x_server \<Rightarrow> atom \<Rightarrow> atom \<Rightarrow> nat \<Rightarrow> bytes \<Rightarrow> x11 \<Rightarrow> x11" where
  "handle_data_reply srv sel prop fd d s =
     (case xs_property srv of
        None \<Rightarrow> x_call [CloseFd fd] s
      | Some p \<Rightarrow>
          if xp_type p = A_INCR (x_atom s) then insert_convert (sel, prop) (PData fd True []) s
          else finish_fd srv fd (d @ xp_value p) s)"

definition on_selection_notify :: "x_server \<Rightarrow> atom \<Rightarrow> atom \<Rightarrow> x11 \<Rightarrow> x11" where
  "on_selection_notify srv sel prop s =
     (let key = (sel, prop) in
      if prop = NO_ATOM then
        (case map_of (pending_converts s) key of
           None \<Rightarrow> s
         | Some (PTargets kind) \<Rightarrow> x_event (HostSelectionChanged kind []) (forget_convert key s)
         | Some (PData fd incr d) \<Rightarrow> x_call [CloseFd fd] (forget_convert key s))
      else
        (case map_of (pending_converts s) key of
           None \<Rightarrow> s
         | Some (PTargets kind) \<Rightarrow> handle_targets_reply srv kind prop (forget_convert key s)
         | Some (PData fd incr d) \<Rightarrow> handle_data_reply srv sel prop fd d (forget_convert key s)))"

definition find_incr :: "x_server \<Rightarrow> atom \<Rightarrow> x11 \<Rightarrow> (atom \<times> atom) option" where
  "find_incr srv prop s =
     map_option fst (find (\<lambda>(key, v). snd key = prop \<and> (case v of PData fd incr d \<Rightarrow> incr | _ \<Rightarrow> False))
       (entries (xs_visit srv) (pending_converts s)))"

definition handle_incr_chunk :: "x_server \<Rightarrow> atom \<Rightarrow> x11 \<Rightarrow> x11" where
  "handle_incr_chunk srv prop s =
     (case find_incr srv prop s of
        None \<Rightarrow> s
      | Some key \<Rightarrow>
          (case (xs_property srv, map_of (pending_converts s) key) of
             (None, v) \<Rightarrow> x_call (drop_convert v) (forget_convert key s)
           | (Some p, Some (PData fd incr d)) \<Rightarrow>
               if xp_value p = [] then finish_fd srv fd d (forget_convert key s)
               else s\<lparr>pending_converts := AList.update key (PData fd incr (d @ xp_value p)) (pending_converts s)\<rparr>
           | (Some p, _) \<Rightarrow> s))"

definition on_selection_request :: "x_server \<Rightarrow> x_request \<Rightarrow> x11 \<Rightarrow> x11" where
  "on_selection_request srv req s =
     (case selection_kind_from_atom (rq_selection req) (x_atom s) of
        None \<Rightarrow> x_call [SendNotify req False] s
      | Some kind \<Rightarrow>
          if our_mimes kind s = [] then x_call [SendNotify req False] s
          else if rq_target req = A_TARGETS (x_atom s) then
            x_call [ChangeProperty32 (rq_requestor req) (rq_property req) ATOM_TYPE
                ([A_TARGETS (x_atom s), A_TIMESTAMP (x_atom s)] @
                 List.map_filter (atom_from_mime srv (x_atom s)) (our_mimes kind s)), SendNotify req True] s
          else if rq_target req = A_TIMESTAMP (x_atom s) then
            x_call [ChangeProperty32 (rq_requestor req) (rq_property req) INTEGER_TYPE [our_ts kind s],
                SendNotify req True] s
          else
            (case mime_from_atom srv (x_atom s) (rq_target req) of
               None \<Rightarrow> x_call [SendNotify req False] s
             | Some mime_type \<Rightarrow>
                 (case xs_pipe srv of
                    None \<Rightarrow> x_call [SendNotify req False] s
                  | Some (read_fd, write_fd) \<Rightarrow>
                      (let i = next_outgoing_id s in
                       x_event (HostSendRequest kind mime_type write_fd (Some (i, read_fd)))
                         (s\<lparr>next_outgoing_id := i + 1,
                            outgoing_requests := AList.update i req (outgoing_requests s)\<rparr>)))))"

text \<open>\<open>Vec::swap_remove\<close>.\<close>

definition swap_remove :: "nat \<Rightarrow> 'a list \<Rightarrow> 'a list" where
  "swap_remove i xs = (if Suc i = length xs then butlast xs else (butlast xs)[i := last xs])"

fun position :: "('a \<Rightarrow> bool) \<Rightarrow> 'a list \<Rightarrow> nat option" where
  "position P [] = None"
| "position P (x # xs) = (if P x then Some 0 else map_option Suc (position P xs))"

definition handle_outgoing_property_delete :: "u32 \<Rightarrow> atom \<Rightarrow> x11 \<Rightarrow> x11" where
  "handle_outgoing_property_delete window prop s =
     (case position (\<lambda>t. rq_requestor (io_request t) = window \<and> rq_property (io_request t) = prop) (incr_transfers s) of
        None \<Rightarrow> s
      | Some idx \<Rightarrow>
          (let t = incr_transfers s ! idx; target = rq_target (io_request t) in
           if flush_on_delete t then s\<lparr>incr_transfers := swap_remove idx (incr_transfers s)\<rparr>
           else if io_data t = [] then
             x_call [ChangeProperty8 window prop target []]
               (s\<lparr>incr_transfers := (incr_transfers s)[idx := t\<lparr>flush_on_delete := True\<rparr>]\<rparr>)
           else
             (let chunk_end = min (length (io_data t)) INCR_CHUNK_SIZE in
              x_call [ChangeProperty8 window prop target (take chunk_end (io_data t))]
                (s\<lparr>incr_transfers := (incr_transfers s)[idx := t\<lparr>io_data := drop chunk_end (io_data t)\<rparr>]\<rparr>))))"

definition on_property_notify :: "x_server \<Rightarrow> u32 \<Rightarrow> atom \<Rightarrow> bool \<Rightarrow> x11 \<Rightarrow> x11" where
  "on_property_notify srv window prop deleted s =
     (let s1 = (if window = x_window s \<and> \<not> deleted then handle_incr_chunk srv prop s else s) in
      if deleted then handle_outgoing_property_delete window prop s1 else s1)"

datatype x_input =
    XFixesNotify x_fixes_notify
  | XSelectionNotify atom atom
  | XSelectionRequest x_request
  | XPropertyNotify u32 atom bool
  | XOther

fun handle_event :: "x_server \<Rightarrow> x_input \<Rightarrow> x11 \<Rightarrow> x11" where
  "handle_event srv (XFixesNotify n) s = on_xfixes_notify srv n s"
| "handle_event srv (XSelectionNotify sel prop) s = on_selection_notify srv sel prop s"
| "handle_event srv (XSelectionRequest req) s = on_selection_request srv req s"
| "handle_event srv (XPropertyNotify w prop deleted) s = on_property_notify srv w prop deleted s"
| "handle_event srv XOther s = s"

section \<open>The back-end interface\<close>

text \<open>\<open>dispatch\<close> handles the events read until there is none or an error.\<close>

definition x11_dispatch :: "(x_server \<times> x_input) list \<Rightarrow> x11 \<Rightarrow> x11" where
  "x11_dispatch evs = fold (\<lambda>(srv, ev). handle_event srv ev) evs"

definition x11_take_events :: "x11 \<Rightarrow> clipboard_event list \<times> x11" where
  "x11_take_events s = (x_events s, s\<lparr>x_events := []\<rparr>)"

definition x11_receive_from_host :: "x_server \<Rightarrow> selection_kind \<Rightarrow> string \<Rightarrow> nat \<Rightarrow> x11 \<Rightarrow> x11" where
  "x11_receive_from_host srv kind mime_type fd s =
     (let sel = selection_atom kind (x_atom s); prop = property_atom kind (x_atom s) in
      case atom_from_mime srv (x_atom s) mime_type of
        None \<Rightarrow> x_call [CloseFd fd] s
      | Some target \<Rightarrow>
          if \<not> xs_sent srv then x_call [CloseFd fd] s
          else insert_convert (sel, prop) (PData fd False []) (x_call [ConvertSelection sel target prop 0] s))"

fun set_our_mimes :: "selection_kind \<Rightarrow> string list \<Rightarrow> x11 \<Rightarrow> x11" where
  "set_our_mimes KClipboard ms s = s\<lparr>our_clipboard_mimes := ms\<rparr>"
| "set_our_mimes KPrimary ms s = s\<lparr>our_primary_mimes := ms\<rparr>"

definition x11_set_host_selection :: "x_server \<Rightarrow> selection_kind \<Rightarrow> string list \<Rightarrow> x11 \<Rightarrow> x11" where
  "x11_set_host_selection srv kind mime_types s =
     (if \<not> xs_sent srv then s
      else set_suppressed kind (suppressed kind s + 1) (set_our_mimes kind mime_types
        (x_call [SetSelectionOwner (x_window s) (selection_atom kind (x_atom s))] s)))"

definition x11_clear_host_selection :: "x_server \<Rightarrow> selection_kind \<Rightarrow> x11 \<Rightarrow> x11" where
  "x11_clear_host_selection srv kind s =
     (if \<not> xs_sent srv then s
      else set_suppressed kind (suppressed kind s + 1) (set_our_mimes kind []
        (x_call [SetSelectionOwner 0 (selection_atom kind (x_atom s))] s)))"

definition x11_complete_outgoing :: "u64 \<Rightarrow> bytes \<Rightarrow> x11 \<Rightarrow> x11" where
  "x11_complete_outgoing i d s =
     (case map_of (outgoing_requests s) i of
        None \<Rightarrow> s
      | Some req \<Rightarrow>
          (let s1 = s\<lparr>outgoing_requests := AList.delete i (outgoing_requests s)\<rparr> in
           if INCR_CHUNK_SIZE < length d then
             (x_call [ChangeProperty32 (rq_requestor req) (rq_property req) (A_INCR (x_atom s)) [word_of_nat (length d)],
                 SendNotify req True] s1)
               \<lparr>incr_transfers := incr_transfers s1 @ [\<lparr>io_request = req, io_data = d, flush_on_delete = False\<rparr>]\<rparr>
           else x_call [ChangeProperty8 (rq_requestor req) (rq_property req) (rq_target req) d, SendNotify req True] s1))"

text \<open>\<open>new\<close>, once the connection is set up: \<open>owner\<close> is the answer of \<open>get_selection_owner\<close>, 0 when
  there is none, \<open>sent\<close> whether the request could be sent.\<close>

definition ask_owner ::
  "x_atoms \<Rightarrow> u32 \<Rightarrow> (atom \<Rightarrow> u32) \<Rightarrow> (atom \<Rightarrow> bool) \<Rightarrow> atom \<times> selection_kind \<times> atom \<Rightarrow> x11 \<Rightarrow> x11" where
  "ask_owner at window owner sent = (\<lambda>(sel, kind, init_prop) s.
     if owner sel \<noteq> 0 \<and> owner sel \<noteq> window then
       (if sent sel then insert_convert (sel, init_prop) (PTargets kind)
          (x_call [ConvertSelection sel (A_TARGETS at) init_prop 0] s)
        else s)
     else s)"

definition x11_new :: "x_atoms \<Rightarrow> u32 \<Rightarrow> (atom \<Rightarrow> u32) \<Rightarrow> (atom \<Rightarrow> bool) \<Rightarrow> x11" where
  "x11_new at window owner sent =
     fold (ask_owner at window owner sent)
       [(A_CLIPBOARD at, KClipboard, A_CLIP_INIT at), (A_PRIMARY at, KPrimary, A_PRIM_INIT at)]
       \<lparr>x_atom = at, x_window = window, our_clipboard_mimes = [], our_primary_mimes = [], our_clipboard_ts = 0,
         our_primary_ts = 0, pending_converts = [], next_outgoing_id = 0, outgoing_requests = [],
         incr_transfers = [], x_events = [], suppress_clipboard = 0, suppress_primary = 0, x_calls = []\<rparr>"

end
