(* ===== verification/Clip_Backend.thy ===== *)
theory Clip_Backend
  imports Selection
begin

text \<open>
  The interface \<open>ClipboardBackend\<close> as a contract, and what a compositor gets from any back end that
  keeps it: descriptors handed over are kept or closed exactly once, and the events taken are the
  events raised, in order.
\<close>

text \<open>A use of a back end: \<open>receive_from_host\<close>, \<open>take_events\<close>, or anything else (\<open>'e\<close>).\<close>

datatype ('a, 'e) backend_op = BReceive 'a selection_kind string nat | BTake | BOther 'e

fun backend_step ::
  "('a \<Rightarrow> selection_kind \<Rightarrow> string \<Rightarrow> nat \<Rightarrow> 's \<Rightarrow> 's) \<Rightarrow> ('s \<Rightarrow> clipboard_event list \<times> 's) \<Rightarrow> ('e \<Rightarrow> 's \<Rightarrow> 's) \<Rightarrow>
     ('a, 'e) backend_op \<Rightarrow> 's \<times> clipboard_event list \<Rightarrow> 's \<times> clipboard_event list" where
  "backend_step rc tk ot (BReceive a k m fd) (s, out) = (rc a k m fd s, out)"
| "backend_step rc tk ot BTake (s, out) = (snd (tk s), out @ fst (tk s))"
| "backend_step rc tk ot (BOther e) (s, out) = (ot e s, out)"

definition backend_run ::
  "('a \<Rightarrow> selection_kind \<Rightarrow> string \<Rightarrow> nat \<Rightarrow> 's \<Rightarrow> 's) \<Rightarrow> ('s \<Rightarrow> clipboard_event list \<times> 's) \<Rightarrow> ('e \<Rightarrow> 's \<Rightarrow> 's) \<Rightarrow>
     ('a, 'e) backend_op list \<Rightarrow> 's \<times> clipboard_event list \<Rightarrow> 's \<times> clipboard_event list" where
  "backend_run rc tk ot ops = fold (backend_step rc tk ot) ops"

lemma backend_run_simps [simp]:
  "backend_run rc tk ot [] p = p" "backend_run rc tk ot (op # ops) p = backend_run rc tk ot ops (backend_step rc tk ot op p)"
  by (simp_all add: backend_run_def)

fun handed_over :: "('a, 'e) backend_op list \<Rightarrow> nat list" where
  "handed_over [] = []"
| "handed_over (BReceive a k m fd # ops) = fd # handed_over ops"
| "handed_over (op # ops) = handed_over ops"

locale clipboard_backend =
  fixes receive :: "'a \<Rightarrow> selection_kind \<Rightarrow> string \<Rightarrow> nat \<Rightarrow> 's \<Rightarrow> 's"
    and take_events :: "'s \<Rightarrow> clipboard_event list \<times> 's"
    and other :: "'e \<Rightarrow> 's \<Rightarrow> 's"
    and held :: "'s \<Rightarrow> nat multiset"
    and queue :: "'s \<Rightarrow> clipboard_event list"
    and good :: "'s \<Rightarrow> bool"
  assumes receive_law: "good s \<Longrightarrow> good (receive a k m fd s) \<and>
      held (receive a k m fd s) = add_mset fd (held s) \<and> queue (receive a k m fd s) = queue s"
    and take_law: "good s \<Longrightarrow> fst (take_events s) = queue s \<and> good (snd (take_events s)) \<and>
      held (snd (take_events s)) = held s \<and> queue (snd (take_events s)) = []"
    and other_law: "good s \<Longrightarrow> good (other e s) \<and> held (other e s) = held s \<and>
      (\<exists>evs. queue (other e s) = queue s @ evs)"
begin

abbreviation "run \<equiv> backend_run receive take_events other"

lemma step_laws:
  assumes "good s"
  shows "good (fst (backend_step receive take_events other op (s, out)))"
    and "held (fst (backend_step receive take_events other op (s, out))) = held s + mset (handed_over [op])"
    and "\<exists>evs. snd (backend_step receive take_events other op (s, out)) @
      queue (fst (backend_step receive take_events other op (s, out))) = (out @ queue s) @ evs"
  by (cases op; simp add: receive_law [OF assms] take_law [OF assms] other_law [OF assms])+

lemma handed_over_Cons: "mset (handed_over (op # ops)) = mset (handed_over [op]) + mset (handed_over ops)"
  by (cases op) simp_all

lemma conservation:
  "good s \<Longrightarrow> good (fst (run ops (s, out))) \<and> held (fst (run ops (s, out))) = held s + mset (handed_over ops)"
proof (induction ops arbitrary: s out)
  case (Cons op ops)
  let ?r = "backend_step receive take_events other op (s, out)"
  show ?case
    using Cons.IH [of "fst ?r" "snd ?r"] step_laws [OF Cons.prems, of op out] handed_over_Cons [of op ops] by simp
qed simp

lemma no_event_lost:
  "good s \<Longrightarrow> \<exists>evs. snd (run ops (s, out)) @ queue (fst (run ops (s, out))) = (out @ queue s) @ evs"
proof (induction ops arbitrary: s out)
  case (Cons op ops)
  let ?r = "backend_step receive take_events other op (s, out)"
  obtain xs where xs: "snd ?r @ queue (fst ?r) = (out @ queue s) @ xs"
    using step_laws(3) [OF Cons.prems, of op out] by blast
  obtain ys where "snd (run ops ?r) @ queue (fst (run ops ?r)) = (snd ?r @ queue (fst ?r)) @ ys"
    using Cons.IH [of "fst ?r" "snd ?r"] step_laws(1) [OF Cons.prems, of op out] by auto
  then show ?case unfolding xs by simp
qed simp

end

end
