(* ===== verification/Clip_X11_Props.thy ===== *)
theory Clip_X11_Props
  imports Clip_X11 Clip_Backend
begin

text \<open>
  What the X11 back end guarantees: descriptors, answers to requests, incremental transfers in both
  directions; and where it fails.
\<close>

section \<open>Invariant\<close>

text \<open>The keys under which conversions wait: the queries after a change, those of the start.\<close>

definition conv_keys :: "x_atoms \<Rightarrow> (atom \<times> atom) set" where
  "conv_keys at = {(A_CLIPBOARD at, A_CLIP_SEL at), (A_PRIMARY at, A_PRIM_SEL at),
     (A_CLIPBOARD at, A_CLIP_INIT at), (A_PRIMARY at, A_PRIM_INIT at)}"

definition x11_wf :: "x_atoms \<Rightarrow> x11 \<Rightarrow> bool" where
  "x11_wf at s \<longleftrightarrow> x_atom s = at \<and> distinct (map fst (pending_converts s)) \<and>
     (\<forall>key \<in> set (map fst (pending_converts s)). key \<in> conv_keys at)"

named_theorems x11_simps \<open>fields the operations of the X11 back end leave alone\<close>

lemma x_call_fields [simp]:
  "x_atom (x_call cs s) = x_atom s" "x_window (x_call cs s) = x_window s"
  "pending_converts (x_call cs s) = pending_converts s" "x_events (x_call cs s) = x_events s"
  "outgoing_requests (x_call cs s) = outgoing_requests s" "incr_transfers (x_call cs s) = incr_transfers s"
  "next_outgoing_id (x_call cs s) = next_outgoing_id s" "x_calls (x_call cs s) = x_calls s @ cs"
  "our_mimes k (x_call cs s) = our_mimes k s" "suppressed k (x_call cs s) = suppressed k s"
  by (cases k; simp add: x_call_def)+

lemma x_event_fields [simp]:
  "x_atom (x_event ev s) = x_atom s" "x_window (x_event ev s) = x_window s"
  "pending_converts (x_event ev s) = pending_converts s" "x_events (x_event ev s) = x_events s @ [ev]"
  "outgoing_requests (x_event ev s) = outgoing_requests s" "incr_transfers (x_event ev s) = incr_transfers s"
  "next_outgoing_id (x_event ev s) = next_outgoing_id s" "x_calls (x_event ev s) = x_calls s"
  by (simp_all add: x_event_def)

lemma per_kind_fields [simp]:
  "x_atom (set_our_ts k t s) = x_atom s" "x_atom (set_suppressed k n s) = x_atom s" "x_atom (set_our_mimes k ms s) = x_atom s"
  "x_window (set_our_ts k t s) = x_window s" "x_window (set_suppressed k n s) = x_window s" "x_window (set_our_mimes k ms s) = x_window s"
  "pending_converts (set_our_ts k t s) = pending_converts s" "pending_converts (set_suppressed k n s) = pending_converts s"
  "pending_converts (set_our_mimes k ms s) = pending_converts s"
  "x_events (set_our_ts k t s) = x_events s" "x_events (set_suppressed k n s) = x_events s" "x_events (set_our_mimes k ms s) = x_events s"
  "x_calls (set_our_ts k t s) = x_calls s" "x_calls (set_suppressed k n s) = x_calls s" "x_calls (set_our_mimes k ms s) = x_calls s"
  "outgoing_requests (set_our_ts k t s) = outgoing_requests s" "outgoing_requests (set_suppressed k n s) = outgoing_requests s"
  "outgoing_requests (set_our_mimes k ms s) = outgoing_requests s"
  "next_outgoing_id (set_our_ts k t s) = next_outgoing_id s" "next_outgoing_id (set_suppressed k n s) = next_outgoing_id s"
  "next_outgoing_id (set_our_mimes k ms s) = next_outgoing_id s"
  "incr_transfers (set_our_ts k t s) = incr_transfers s" "incr_transfers (set_suppressed k n s) = incr_transfers s"
  "incr_transfers (set_our_mimes k ms s) = incr_transfers s"
  "suppressed k (set_suppressed k n s) = n" "suppressed k (set_our_mimes k' ms s) = suppressed k s"
  "suppressed k (set_our_ts k' t s) = suppressed k s"
  by (cases k; cases k'; simp)+

lemma selection_kind_atom:
  "selection_kind_from_atom a at = Some k \<Longrightarrow> a = selection_atom k at"
  by (auto simp: selection_kind_from_atom_def split: if_splits)

lemma conv_key: "(selection_atom k at, property_atom k at) \<in> conv_keys at"
  by (cases k) (simp_all add: conv_keys_def)

lemma x11_wf_cong: "x_atom s' = x_atom s \<Longrightarrow> pending_converts s' = pending_converts s \<Longrightarrow> x11_wf at s' = x11_wf at s"
  by (simp add: x11_wf_def)

lemma wf_insert:
  "x11_wf at s \<Longrightarrow> key \<in> conv_keys at \<Longrightarrow> x11_wf at (insert_convert key v s)"
  by (auto simp: x11_wf_def insert_convert_def distinct_update dom_update)

lemma wf_forget: "x11_wf at s \<Longrightarrow> x11_wf at (forget_convert key s)"
  by (auto simp: x11_wf_def forget_convert_def delete_keys distinct_removeAll)

lemma wf_insert_prop:
  assumes "x11_wf at s"
  shows "x11_wf at (insert_convert (selection_atom k (x_atom s), property_atom k (x_atom s)) v (x_call cs s))"
proof -
  have "x_atom s = at" "x11_wf at (x_call cs s)" using assms by (simp_all add: x11_wf_def)
  then show ?thesis by (intro wf_insert) (simp_all add: conv_key)
qed

lemma wf_calls [simp]:
  "x11_wf at (x_call cs s) = x11_wf at s" "x11_wf at (x_event ev s) = x11_wf at s"
  "x11_wf at (set_our_ts k t s) = x11_wf at s" "x11_wf at (set_suppressed k n s) = x11_wf at s"
  "x11_wf at (set_our_mimes k ms s) = x11_wf at s" "x11_wf at (finish_fd srv fd d s) = x11_wf at s"
  by (rule x11_wf_cong; simp add: finish_fd_def)+

text \<open>What may be sent to a back end besides \<open>receive_from_host\<close> and \<open>take_events\<close>.\<close>

datatype x_other =
    OEvent x_server x_input
  | OSet x_server selection_kind "string list"
  | OClear x_server selection_kind
  | OComplete u64 bytes

fun x11_other :: "x_other \<Rightarrow> x11 \<Rightarrow> x11" where
  "x11_other (OEvent srv ev) = handle_event srv ev"
| "x11_other (OSet srv k ms) = x11_set_host_selection srv k ms"
| "x11_other (OClear srv k) = x11_clear_host_selection srv k"
| "x11_other (OComplete i d) = x11_complete_outgoing i d"

lemma wf_known:
  "x11_wf at s \<Longrightarrow> map_of (pending_converts s) key = Some v \<Longrightarrow> key \<in> conv_keys at"
  by (force simp: x11_wf_def dest: map_of_SomeD)

lemma wf_data_reply: "x11_wf at s \<Longrightarrow> (sel, prop) \<in> conv_keys at \<Longrightarrow> x11_wf at (handle_data_reply srv sel prop fd d s)"
  by (simp add: handle_data_reply_def wf_insert split: option.split)

lemma wf_targets_reply: "x11_wf at s \<Longrightarrow> x11_wf at (handle_targets_reply srv k prop s)"
  by (simp add: handle_targets_reply_def Let_def split: option.split)

lemma wf_selection_notify: "x11_wf at s \<Longrightarrow> x11_wf at (on_selection_notify srv sel prop s)"
  using wf_known [of at s "(sel, prop)"]
  by (auto simp: on_selection_notify_def Let_def wf_forget wf_data_reply wf_targets_reply
      split: option.split pending_convert.split)

lemma wf_update:
  "x11_wf at s \<Longrightarrow> map_of (pending_converts s) key = Some v0 \<Longrightarrow>
     x11_wf at (s\<lparr>pending_converts := AList.update key v (pending_converts s)\<rparr>)"
  by (force simp: x11_wf_def distinct_update dom_update dest: map_of_SomeD)

lemma wf_incr_chunk: "x11_wf at s \<Longrightarrow> x11_wf at (handle_incr_chunk srv prop s)"
  using wf_update by (simp add: handle_incr_chunk_def wf_forget split: option.split pending_convert.split)

lemma wf_request: "x11_wf at s \<Longrightarrow> x11_wf at (on_selection_request srv req s)"
  by (auto simp: on_selection_request_def Let_def x11_wf_def split: option.split)

lemma wf_delete: "x11_wf at s \<Longrightarrow> x11_wf at (handle_outgoing_property_delete w prop s)"
  by (auto simp: handle_outgoing_property_delete_def Let_def x11_wf_def split: option.split)

lemma wf_xfixes: "x11_wf at s \<Longrightarrow> x11_wf at (on_xfixes_notify srv n s)"
  by (auto simp: on_xfixes_notify_def Let_def wf_insert_prop dest!: selection_kind_atom split: option.split)

lemma wf_event: "x11_wf at s \<Longrightarrow> x11_wf at (handle_event srv ev s)"
  by (cases ev) (simp_all add: wf_xfixes wf_selection_notify wf_request on_property_notify_def Let_def wf_incr_chunk wf_delete)

lemma wf_other: "x11_wf at s \<Longrightarrow> x11_wf at (x11_other e s)"
proof (cases e)
  case (OComplete i d)
  then show "x11_wf at s \<Longrightarrow> ?thesis"
    by (auto simp: x11_complete_outgoing_def x11_wf_def Let_def split: option.split)
qed (simp_all add: wf_event x11_set_host_selection_def x11_clear_host_selection_def)

lemma wf_receive: "x11_wf at s \<Longrightarrow> x11_wf at (x11_receive_from_host srv k m fd s)"
  by (simp add: x11_receive_from_host_def Let_def wf_insert_prop split: option.split)

section \<open>Descriptors\<close>

text \<open>The descriptors of the pending conversions, and those closed.\<close>

fun convert_fds :: "pending_convert \<Rightarrow> nat list" where
  "convert_fds (PData fd incr d) = [fd]"
| "convert_fds (PTargets k) = []"

fun closed_fds :: "x_call \<Rightarrow> nat list" where
  "closed_fds (CloseFd fd) = [fd]"
| "closed_fds _ = []"

definition pending_fds :: "x11 \<Rightarrow> nat multiset" where
  "pending_fds s = mset (concat (map (convert_fds \<circ> snd) (pending_converts s)))"

definition x11_held :: "x11 \<Rightarrow> nat multiset" where
  "x11_held s = pending_fds s + mset (concat (map closed_fds (x_calls s)))"

lemma alist_mset_update:
  fixes f :: "'v \<Rightarrow> 'b list"
  shows "mset (concat (map (f \<circ> snd) (AList.update k v al))) + mset (case map_of al k of None \<Rightarrow> [] | Some v0 \<Rightarrow> f v0) =
    mset (concat (map (f \<circ> snd) al)) + mset (f v)"
  by (induction al) auto

lemma alist_mset_delete:
  fixes f :: "'v \<Rightarrow> 'b list"
  assumes "distinct (map fst al)"
  shows "mset (concat (map (f \<circ> snd) (AList.delete k al))) + mset (case map_of al k of None \<Rightarrow> [] | Some v0 \<Rightarrow> f v0) =
    mset (concat (map (f \<circ> snd) al))"
  using assms
proof (induction al)
  case (Cons kv al)
  have "AList.delete k al = al" if "k \<notin> fst ` set al"
    using that by (auto simp: AList.delete_eq filter_id_conv) force
  moreover have "map_of al k = None" if "k \<notin> fst ` set al" using that by (simp add: map_of_eq_None_iff)
  ultimately show ?case using Cons by (cases "fst kv = k") auto
qed simp

lemma drop_convert_fds: "concat (map closed_fds (drop_convert v)) = (case v of None \<Rightarrow> [] | Some x \<Rightarrow> convert_fds x)"
  by (cases v rule: drop_convert.cases) simp_all

lemma held_simps [simp]:
  "x11_held (x_call cs s) = x11_held s + mset (concat (map closed_fds cs))"
  "x11_held (x_event ev s) = x11_held s"
  "x11_held (set_our_ts k t s) = x11_held s" "x11_held (set_suppressed k n s) = x11_held s"
  "x11_held (set_our_mimes k ms s) = x11_held s"
  by (simp_all add: x11_held_def pending_fds_def)

lemma held_finish [simp]: "x11_held (finish_fd srv fd d s) = add_mset fd (x11_held s)"
  by (simp add: finish_fd_def)

lemma held_insert: "x11_held (insert_convert key v s) = x11_held s + mset (convert_fds v)"
  using alist_mset_update [of convert_fds key v "pending_converts s"]
  by (simp add: insert_convert_def drop_convert_fds) (simp add: x11_held_def pending_fds_def ac_simps)

lemma held_forget:
  "x11_wf at s \<Longrightarrow> x11_held (forget_convert key s) +
     mset (case map_of (pending_converts s) key of None \<Rightarrow> [] | Some v \<Rightarrow> convert_fds v) = x11_held s"
  using alist_mset_delete [of "pending_converts s" convert_fds key]
  by (simp add: forget_convert_def x11_held_def pending_fds_def x11_wf_def ac_simps)

lemma held_selection_notify: "x11_wf at s \<Longrightarrow> x11_held (on_selection_notify srv sel prop s) = x11_held s"
  using held_forget [of at s "(sel, prop)"]
  by (auto simp: on_selection_notify_def Let_def handle_targets_reply_def handle_data_reply_def held_insert
      split: option.split pending_convert.split)

lemma held_incr_chunk: "x11_wf at s \<Longrightarrow> x11_held (handle_incr_chunk srv prop s) = x11_held s"
proof -
  assume wf: "x11_wf at s"
  have upd: "x11_held (s\<lparr>pending_converts := AList.update key (PData fd i d) (pending_converts s)\<rparr>) = x11_held s"
    if "map_of (pending_converts s) key = Some (PData fd j e)" for key fd i j d e
    using alist_mset_update [of convert_fds key "PData fd i d" "pending_converts s"] that
    by (simp add: x11_held_def pending_fds_def)
  show ?thesis
  proof (cases "find_incr srv prop s")
    case (Some key)
    show ?thesis
      using held_forget [OF wf, of key] upd [of key]
      by (auto simp: handle_incr_chunk_def Some drop_convert_fds split: option.split pending_convert.split)
  qed (simp add: handle_incr_chunk_def)
qed

lemma held_event:
  assumes "x11_wf at s"
  shows "x11_held (handle_event srv ev s) = x11_held s"
proof (cases ev)
  case (XFixesNotify n)
  then show ?thesis by (auto simp: on_xfixes_notify_def Let_def held_insert split: option.split)
next
  case (XSelectionNotify sel p)
  then show ?thesis by (simp add: held_selection_notify [OF assms])
next
  case (XSelectionRequest req)
  then show ?thesis
    by (auto simp: on_selection_request_def Let_def x11_held_def pending_fds_def split: option.split)
next
  case (XPropertyNotify w p deleted)
  have "x11_held (handle_outgoing_property_delete w p s') = x11_held s'" for s'
    by (auto simp: handle_outgoing_property_delete_def Let_def x11_held_def pending_fds_def split: option.split)
  then show ?thesis using XPropertyNotify by (simp add: on_property_notify_def Let_def held_incr_chunk [OF assms])
qed simp

lemma held_other:
  assumes "x11_wf at s"
  shows "x11_held (x11_other e s) = x11_held s"
proof (cases e)
  case (OComplete i d)
  then show ?thesis
    by (auto simp: x11_complete_outgoing_def Let_def x11_held_def pending_fds_def split: option.split)
qed (simp_all add: held_event [OF assms] x11_set_host_selection_def x11_clear_host_selection_def)

lemma held_receive: "x11_held (x11_receive_from_host srv k m fd s) = add_mset fd (x11_held s)"
  by (auto simp: x11_receive_from_host_def Let_def held_insert split: option.split)

section \<open>The contract of a back end\<close>

lemma queue_pure [simp]:
  "x_events (insert_convert key v s) = x_events s" "x_events (forget_convert key s) = x_events s"
  "x_events (finish_fd srv fd d s) = x_events s"
  by (simp_all add: insert_convert_def forget_convert_def finish_fd_def)

lemma queue_event: "\<exists>evs. x_events (handle_event srv ev s) = x_events s @ evs"
proof (cases ev)
  case (XPropertyNotify w p deleted)
  have "x_events (handle_outgoing_property_delete w p s') = x_events s'" for s'
    by (simp add: handle_outgoing_property_delete_def Let_def split: option.split)
  moreover have "x_events (handle_incr_chunk srv p s) = x_events s"
    by (simp add: handle_incr_chunk_def split: option.split pending_convert.split)
  ultimately show ?thesis by (simp add: XPropertyNotify on_property_notify_def Let_def)
qed (auto simp: on_xfixes_notify_def on_selection_notify_def on_selection_request_def handle_targets_reply_def
    handle_data_reply_def Let_def split: option.split pending_convert.split)

lemma queue_other: "\<exists>evs. x_events (x11_other e s) = x_events s @ evs"
proof (cases e)
  case (OEvent srv ev)
  then show ?thesis using queue_event by simp
qed (auto simp: x11_set_host_selection_def x11_clear_host_selection_def x11_complete_outgoing_def Let_def
    split: option.split)

lemma queue_receive: "x_events (x11_receive_from_host srv k m fd s) = x_events s"
  by (simp add: x11_receive_from_host_def Let_def split: option.split)

interpretation x11b: clipboard_backend x11_receive_from_host x11_take_events x11_other x11_held x_events "x11_wf at" for at
proof
  show "x11_wf at s \<Longrightarrow> fst (x11_take_events s) = x_events s \<and> x11_wf at (snd (x11_take_events s)) \<and>
      x11_held (snd (x11_take_events s)) = x11_held s \<and> x_events (snd (x11_take_events s)) = []" for s
    by (simp add: x11_take_events_def x11_wf_def x11_held_def pending_fds_def)
qed (simp_all add: wf_receive wf_other held_receive held_other queue_receive queue_other)

lemma wf_ask: "x11_wf at s \<Longrightarrow> (sel, p) \<in> conv_keys at \<Longrightarrow> x11_wf at (ask_owner at w owner sent (sel, k, p) s)"
  by (simp add: ask_owner_def wf_insert)

lemma new_wf: "x11_wf at (x11_new at w owner sent)"
  unfolding x11_new_def fold_simps comp_def id_def
  by (intro wf_ask) (simp_all add: x11_wf_def conv_keys_def)

lemma new_held: "x11_held (x11_new at w owner sent) = {#}"
  by (simp add: x11_new_def ask_owner_def held_insert) (simp add: x11_held_def pending_fds_def)

definition x11_run ::
  "x_atoms \<Rightarrow> u32 \<Rightarrow> (atom \<Rightarrow> u32) \<Rightarrow> (atom \<Rightarrow> bool) \<Rightarrow> (x_server, x_other) backend_op list \<Rightarrow> x11 \<times> clipboard_event list" where
  "x11_run at w owner sent ops =
     backend_run x11_receive_from_host x11_take_events x11_other ops (x11_new at w owner sent, [])"

text \<open>Descriptors and events of the X11 back end: over any run from a fresh connection, every
  descriptor handed over for a paste is held by exactly one pending conversion or closed exactly
  once, and the events taken so far followed by those waiting only ever grow at the end.\<close>

theorem x11_descriptors:
  "pending_fds (fst (x11_run at w owner sent ops)) + mset (concat (map closed_fds (x_calls (fst (x11_run at w owner sent ops))))) =
     mset (handed_over ops) \<and>
   (\<exists>evs. snd (x11_run at w owner sent (ops @ more_ops)) @ x_events (fst (x11_run at w owner sent (ops @ more_ops))) =
     (snd (x11_run at w owner sent ops) @ x_events (fst (x11_run at w owner sent ops))) @ evs)"
proof -
  let ?r = "x11_run at w owner sent ops"
  have cons: "x11_wf at (fst ?r)" "x11_held (fst ?r) = mset (handed_over ops)"
    using x11b.conservation [OF new_wf, where ops = ops and out = "[]", unfolded new_held, folded x11_run_def] by simp_all
  have "x11_run at w owner sent (ops @ more_ops) =
      backend_run x11_receive_from_host x11_take_events x11_other more_ops (fst ?r, snd ?r)"
    by (simp add: x11_run_def backend_run_def)
  then show ?thesis
    using cons(2) x11b.no_event_lost [OF cons(1), of more_ops "snd ?r"] by (simp add: x11_held_def)
qed

section \<open>Every request is answered once\<close>

fun notified :: "x_call \<Rightarrow> x_request list" where
  "notified (SendNotify req ok) = [req]"
| "notified _ = []"

fun requests_in :: "(x_server, x_other) backend_op list \<Rightarrow> x_request list" where
  "requests_in [] = []"
| "requests_in (BOther (OEvent srv (XSelectionRequest req)) # ops) = req # requests_in ops"
| "requests_in (op # ops) = requests_in ops"

definition accounted :: "x11 \<Rightarrow> x_request multiset" where
  "accounted s = mset (concat (map notified (x_calls s))) + mset (map snd (outgoing_requests s))"

definition ids_ok :: "nat \<Rightarrow> x11 \<Rightarrow> bool" where
  "ids_ok n s \<longleftrightarrow> unat (next_outgoing_id s) \<le> n \<and> n < 2 ^ 64 \<and> distinct (map fst (outgoing_requests s)) \<and>
     (\<forall>i \<in> set (map fst (outgoing_requests s)). i < next_outgoing_id s)"

definition no_requests :: "x11 \<Rightarrow> x11 \<Rightarrow> bool" where
  "no_requests s s' \<longleftrightarrow> next_outgoing_id s' = next_outgoing_id s \<and> outgoing_requests s' = outgoing_requests s \<and>
     concat (map notified (x_calls s')) = concat (map notified (x_calls s))"

lemma no_requests_simps [simp]:
  "no_requests s s" "no_requests s (x_call cs s) = (concat (map notified cs) = [])" "no_requests s (x_event ev s)"
  "no_requests s (set_our_ts k t s)" "no_requests s (set_suppressed k m s)"
  by (auto simp: no_requests_def)

lemma no_requests_drop: "concat (map notified (drop_convert v)) = []"
  by (cases v rule: drop_convert.cases) simp_all

lemma no_requests_insert [simp]:
  "no_requests s (insert_convert key v s') = no_requests s s'" "no_requests s (forget_convert key s') = no_requests s s'"
  "no_requests s (finish_fd srv fd d s') = no_requests s s'" "no_requests s (x_event ev s') = no_requests s s'"
  by (simp_all add: no_requests_def insert_convert_def forget_convert_def finish_fd_def no_requests_drop)

lemma no_requests_calls [simp]:
  "concat (map notified cs) = [] \<Longrightarrow> no_requests s (x_call cs s') = no_requests s s'"
  by (simp add: no_requests_def del: concat_eq_Nil_conv)

lemma silent_steps:
  "no_requests s (on_xfixes_notify srv n s)" "no_requests s (on_selection_notify srv sel p s)"
  "no_requests s (on_property_notify srv w p deleted s)" "no_requests s (x11_receive_from_host srv k m fd s)"
  "no_requests s (snd (x11_take_events s))" "no_requests s (x11_set_host_selection srv k ms s)"
  "no_requests s (x11_clear_host_selection srv k s)"
proof -
  show "no_requests s (on_selection_notify srv sel p s)"
    by (simp add: on_selection_notify_def handle_targets_reply_def handle_data_reply_def Let_def
        split: option.split pending_convert.split)
  have "no_requests s (handle_incr_chunk srv p s)"
    by (simp add: handle_incr_chunk_def no_requests_drop split: option.split pending_convert.split)
      (simp add: no_requests_def)
  moreover have "no_requests s (handle_outgoing_property_delete w p s')" if "no_requests s s'" for s'
    using that by (simp add: handle_outgoing_property_delete_def Let_def no_requests_def split: option.split)
  ultimately show "no_requests s (on_property_notify srv w p deleted s)"
    by (simp add: on_property_notify_def Let_def)
qed (simp_all add: on_xfixes_notify_def x11_receive_from_host_def x11_take_events_def x11_set_host_selection_def
    x11_clear_host_selection_def Let_def split: option.split, simp_all add: no_requests_def)

lemma accounted_same: "no_requests s s' \<Longrightarrow> accounted s' = accounted s \<and> ids_ok n s' = ids_ok n s"
  by (simp add: no_requests_def accounted_def ids_ok_def)

lemma accounted_request:
  assumes "ids_ok n s" and "n + 1 < 2 ^ 64"
  shows "accounted (on_selection_request srv req s) = add_mset req (accounted s) \<and> ids_ok (n + 1) (on_selection_request srv req s)"
proof -
  let ?i = "next_outgoing_id s"
  have "unat ?i + 1 < 2 ^ 64" using assms by (simp add: ids_ok_def)
  note small = u64_succ [OF this]
  have fresh: "?i \<notin> fst ` set (outgoing_requests s)" using assms(1) by (auto simp: ids_ok_def)
  then have "mset (map snd (AList.update ?i req (outgoing_requests s))) = add_mset req (mset (map snd (outgoing_requests s)))"
    using alist_mset_update [of "\<lambda>v. [v]" ?i req "outgoing_requests s"]
    by (simp add: map_of_eq_None_iff [THEN iffD2] comp_def concat_map_singleton)
  moreover have "j < ?i + 1" if "j \<in> set (map fst (AList.update ?i req (outgoing_requests s)))" for j
    using that small assms(1) by (auto simp: dom_update ids_ok_def word_less_nat_alt)
  moreover have "ids_ok (n + 1) s" using assms by (simp add: ids_ok_def)
  ultimately show ?thesis
    using assms small
    by (auto simp: on_selection_request_def accounted_def ids_ok_def Let_def distinct_update simp del: set_map split: option.split)
qed

lemma accounted_complete:
  assumes "ids_ok n s"
  shows "accounted (x11_complete_outgoing i d s) = accounted s \<and> ids_ok n (x11_complete_outgoing i d s)"
proof (cases "map_of (outgoing_requests s) i")
  case (Some req)
  have "mset (map snd (AList.delete i (outgoing_requests s))) + {#req#} = mset (map snd (outgoing_requests s))"
    using alist_mset_delete [of "outgoing_requests s" "\<lambda>v. [v]" i] assms Some by (simp add: ids_ok_def comp_def concat_map_singleton)
  then show ?thesis
    using assms Some
    by (auto simp: x11_complete_outgoing_def Let_def accounted_def ids_ok_def delete_keys distinct_removeAll simp del: set_map)
qed (simp add: x11_complete_outgoing_def assms)

lemma accounted_step:
  assumes "ids_ok n s" and "n + 1 < 2 ^ 64"
  shows "accounted (fst (backend_step x11_receive_from_host x11_take_events x11_other op (s, out))) =
      accounted s + mset (requests_in [op])"
    and "ids_ok (n + length (requests_in [op])) (fst (backend_step x11_receive_from_host x11_take_events x11_other op (s, out)))"
proof -
  note same = accounted_same [OF silent_steps(1)] accounted_same [OF silent_steps(2)] accounted_same [OF silent_steps(3)]
    accounted_same [OF silent_steps(4)] accounted_same [OF silent_steps(5)] accounted_same [OF silent_steps(6)]
    accounted_same [OF silent_steps(7)]
  have "accounted (handle_event srv ev s) = accounted s + mset (requests_in [BOther (OEvent srv ev)]) \<and>
      ids_ok (n + length (requests_in [BOther (OEvent srv ev)])) (handle_event srv ev s)" for srv ev
    using assms accounted_request [OF assms] by (cases ev) (simp_all add: same)
  then have "accounted (x11_other e s) = accounted s + mset (requests_in [BOther e]) \<and>
      ids_ok (n + length (requests_in [BOther e])) (x11_other e s)" for e
    using assms accounted_complete [OF assms(1)] by (cases e) (simp_all add: same)
  then show "accounted (fst (backend_step x11_receive_from_host x11_take_events x11_other op (s, out))) =
      accounted s + mset (requests_in [op])"
    "ids_ok (n + length (requests_in [op])) (fst (backend_step x11_receive_from_host x11_take_events x11_other op (s, out)))"
    using assms(1) by (cases op; simp add: same)+
qed

lemma requests_in_Cons: "requests_in (op # ops) = requests_in [op] @ requests_in ops"
  by (cases "op # ops" rule: requests_in.cases) simp_all

lemma accounted_run:
  assumes "ids_ok n s" and "n + length (requests_in ops) + 1 < 2 ^ 64"
  shows "accounted (fst (backend_run x11_receive_from_host x11_take_events x11_other ops (s, out))) =
    accounted s + mset (requests_in ops)"
  using assms
proof (induction ops arbitrary: s out n)
  case (Cons op ops)
  let ?r = "backend_step x11_receive_from_host x11_take_events x11_other op (s, out)"
  have "length (requests_in (op # ops)) = length (requests_in [op]) + length (requests_in ops)"
    using requests_in_Cons [of op ops] by simp
  then show ?case
    using Cons.IH [of "n + length (requests_in [op])" "fst ?r" "snd ?r"] accounted_step [OF Cons.prems(1), of op out] Cons.prems(2)
      requests_in_Cons [of op ops] by simp
qed simp

text \<open>C16. Over any run with fewer than \<open>2 ^ 64 - 1\<close> requests, every request of a host application has
  been answered exactly once or waits for its data, and no other answer is sent.\<close>

theorem requests_answered:
  assumes "length (requests_in ops) + 1 < 2 ^ 64"
  shows "mset (concat (map notified (x_calls (fst (x11_run at w owner sent ops))))) +
    mset (map snd (outgoing_requests (fst (x11_run at w owner sent ops)))) = mset (requests_in ops)"
proof -
  have "accounted (x11_new at w owner sent) = {#} \<and> ids_ok 0 (x11_new at w owner sent)"
    by (simp add: x11_new_def ask_owner_def accounted_def ids_ok_def insert_convert_def)
  then show ?thesis
    using accounted_run [of 0 "x11_new at w owner sent" ops "[]"] assms by (simp add: x11_run_def accounted_def)
qed

text \<open>A server that answers everything, and its atoms.\<close>

definition demo_atoms :: x_atoms where
  "demo_atoms = \<lparr>A_CLIPBOARD = 100, A_PRIMARY = 1, A_TARGETS = 101, A_TIMESTAMP = 102, A_INCR = 103,
     A_UTF8_STRING = 104, A_TEXT = 105, A_CLIP_SEL = 106, A_PRIM_SEL = 107, A_CLIP_INIT = 108, A_PRIM_INIT = 109\<rparr>"

definition demo_xserver :: x_server where
  "demo_xserver = \<lparr>xs_name = (\<lambda>a. None), xs_intern = (\<lambda>m. None), xs_sent = True, xs_property = None,
     xs_pipe = Some (8, 9), xs_writes = [], xs_visit = (\<lambda>ks. ks)\<rparr>"

definition demo_request :: x_request where
  "demo_request = \<lparr>rq_time = 5, rq_requestor = 70, rq_selection = 100, rq_target = 104, rq_property = 200\<rparr>"

theorem requests_answered_witness:
  "mset (concat (map notified (x_calls (fst (x11_run demo_atoms 3 (\<lambda>a. 0) (\<lambda>a. True)
       [BOther (OSet demo_xserver KClipboard [''text/plain'']), BOther (OEvent demo_xserver (XSelectionRequest demo_request)),
        BOther (OComplete 0 [7])]))))) +
   mset (map snd (outgoing_requests (fst (x11_run demo_atoms 3 (\<lambda>a. 0) (\<lambda>a. True)
       [BOther (OSet demo_xserver KClipboard [''text/plain'']), BOther (OEvent demo_xserver (XSelectionRequest demo_request)),
        BOther (OComplete 0 [7])])))) = {#demo_request#}"
  using requests_answered [of "[BOther (OSet demo_xserver KClipboard [''text/plain'']),
      BOther (OEvent demo_xserver (XSelectionRequest demo_request)), BOther (OComplete 0 [7])]"] by simp

end
