(* ===== verification/Clip_Incr.thy ===== *)
theory Clip_Incr
  imports Clip_X11_Props
begin

text \<open>
  Incremental transfers of the X11 back end. Out: whatever else the back end does, the data is written
  to the requestor's property in pieces, one for each deletion of the property the X server reports,
  then an empty piece, and the transfer is forgotten. In: the pieces the owner writes are joined
  and written to the client when the empty piece arrives. And the cases in which a paste fails.
\<close>

section \<open>Pieces\<close>

function pieces :: "bytes \<Rightarrow> bytes list" where
  "pieces d = (if d = [] then [] else take INCR_CHUNK_SIZE d # pieces (drop INCR_CHUNK_SIZE d))"
  by pat_completeness auto
termination by (relation "measure length") (auto simp: INCR_CHUNK_SIZE_def)

declare pieces.simps [simp del]

lemma pieces_facts: "concat (pieces d) = d \<and> (\<forall>c \<in> set (pieces d). c \<noteq> [] \<and> length c \<le> INCR_CHUNK_SIZE)"
proof (induction d rule: pieces.induct)
  case (1 d)
  have "INCR_CHUNK_SIZE \<noteq> 0" by (simp add: INCR_CHUNK_SIZE_def)
  then show ?case using 1 by (subst (1 2) pieces.simps) auto
qed

section \<open>The table of transfers\<close>

definition req_key :: "x_request \<Rightarrow> u32 \<times> atom" where
  "req_key req = (rq_requestor req, rq_property req)"

definition io_key :: "incr_outgoing \<Rightarrow> u32 \<times> atom" where
  "io_key t = req_key (io_request t)"

text \<open>The one transfer under a key, when no request is waiting that would add a second one.\<close>

definition transfer_is :: "u32 \<times> atom \<Rightarrow> incr_outgoing option \<Rightarrow> x11 \<Rightarrow> bool" where
  "transfer_is k v s \<longleftrightarrow> filter_mset (\<lambda>t. io_key t = k) (mset (incr_transfers s)) = mset_set (set_option v) \<and>
     k \<notin> req_key ` snd ` set (outgoing_requests s)"

lemma filter_mset_none: "filter_mset P M = {#} \<longleftrightarrow> (\<forall>x \<in># M. \<not> P x)"
  by (induction M) auto

lemma position_Some: "position P xs = Some i \<Longrightarrow> i < length xs \<and> P (xs ! i)"
  by (induction xs arbitrary: i) (auto split: if_splits)

lemma position_None: "position P xs = None \<longleftrightarrow> (\<forall>x \<in> set xs. \<not> P x)"
  by (induction xs) auto

lemma mset_swap_remove:
  assumes "i < length xs"
  shows "add_mset (xs ! i) (mset (swap_remove i xs)) = mset xs"
proof (cases xs rule: rev_cases)
  case (snoc ys z)
  show ?thesis
  proof (cases "i < length ys")
    case True
    then have "ys ! i \<in># mset ys" by simp
    then show ?thesis
      using True snoc by (simp add: swap_remove_def nth_append mset_update)
  next
    case False
    then have "i = length ys" using assms snoc by simp
    then show ?thesis using snoc by (simp add: swap_remove_def)
  qed
qed (use assms in simp)

text \<open>One deletion: what is written, and the transfer afterwards.\<close>

fun next_piece :: "incr_outgoing \<Rightarrow> bytes list \<times> incr_outgoing option" where
  "next_piece t =
     (if flush_on_delete t then ([], None)
      else if io_data t = [] then ([[]], Some (t\<lparr>flush_on_delete := True\<rparr>))
      else ([take INCR_CHUNK_SIZE (io_data t)], Some (t\<lparr>io_data := drop INCR_CHUNK_SIZE (io_data t)\<rparr>)))"

fun written_to :: "u32 \<times> atom \<Rightarrow> x_call \<Rightarrow> bytes list" where
  "written_to k (ChangeProperty8 w p target d) = (if k = (w, p) then [d] else [])"
| "written_to k _ = []"

definition pieces_to :: "u32 \<times> atom \<Rightarrow> x11 \<Rightarrow> bytes list" where
  "pieces_to k s = concat (map (written_to k) (x_calls s))"

lemma delete_other:
  "(w, p) \<notin> io_key ` set (incr_transfers s) \<Longrightarrow> handle_outgoing_property_delete w p s = s"
  by (force simp: handle_outgoing_property_delete_def io_key_def req_key_def split: option.split dest: position_Some)

lemma delete_known:
  assumes "(w, p) \<in> io_key ` set (incr_transfers s)"
  defines "s' \<equiv> handle_outgoing_property_delete w p s"
  shows "\<exists>t. t \<in># mset (incr_transfers s) \<and> io_key t = (w, p) \<and>
    mset (incr_transfers s') = mset (incr_transfers s) - {#t#} + mset_set (set_option (snd (next_piece t))) \<and>
    (\<forall>k. pieces_to k s' = pieces_to k s @ (if k = (w, p) then fst (next_piece t) else []))"
proof -
  let ?P = "\<lambda>t. rq_requestor (io_request t) = w \<and> rq_property (io_request t) = p"
  have "position ?P (incr_transfers s) \<noteq> None"
    using assms(1) unfolding position_None by (auto simp: io_key_def req_key_def)
  then obtain i where i: "position ?P (incr_transfers s) = Some i" by blast
  define t where "t = incr_transfers s ! i"
  have at_i: "i < length (incr_transfers s)" "io_key t = (w, p)"
    using position_Some [OF i] by (simp_all add: io_key_def req_key_def t_def)
  have "mset (incr_transfers s') = mset (incr_transfers s) - {#t#} + mset_set (set_option (snd (next_piece t)))"
  proof (cases "flush_on_delete t")
    case True
    then have "incr_transfers s' = swap_remove i (incr_transfers s)"
      by (simp add: s'_def handle_outgoing_property_delete_def i t_def Let_def)
    then show ?thesis using True mset_swap_remove [OF at_i(1)]
      by (metis add_mset_remove_trivial add_0_right mset_set.empty next_piece.simps option.set(1) snd_conv t_def)
  next
    case False
    then obtain t' where t': "snd (next_piece t) = Some t'" by (cases "io_data t = []") simp_all
    have "incr_transfers s' = (incr_transfers s)[i := t']"
      using False t' by (auto simp: s'_def handle_outgoing_property_delete_def i t_def Let_def min_def split: if_splits)
    then show ?thesis using t' mset_update [OF at_i(1), of t'] by (simp add: t_def)
  qed
  moreover have "pieces_to k s' = pieces_to k s @ (if k = (w, p) then fst (next_piece t) else [])" for k
    by (auto simp: s'_def handle_outgoing_property_delete_def i t_def Let_def pieces_to_def min_def)
  ultimately show ?thesis using at_i by (intro exI [of _ t]) (simp add: t_def)
qed

lemma next_piece_key: "snd (next_piece t) = Some t' \<Longrightarrow> io_key t' = io_key t"
  by (auto simp: io_key_def split: if_splits)

lemma delete_requests [simp]: "outgoing_requests (handle_outgoing_property_delete w p s) = outgoing_requests s"
  by (simp add: handle_outgoing_property_delete_def Let_def split: option.split)

section \<open>Out: delivery under interleaving\<close>

text \<open>What one operation of the back end does to the transfer under \<open>k\<close>: the deletions that reach
  it, and the requests that would start another one under the same key.\<close>

fun deletes :: "u32 \<times> atom \<Rightarrow> (x_server, x_other) backend_op \<Rightarrow> bool" where
  "deletes k (BOther (OEvent srv (XPropertyNotify w p deleted))) = (deleted \<and> (w, p) = k)"
| "deletes k _ = False"

fun asks_under :: "u32 \<times> atom \<Rightarrow> (x_server, x_other) backend_op \<Rightarrow> bool" where
  "asks_under k (BOther (OEvent srv (XSelectionRequest req))) = (req_key req = k)"
| "asks_under k _ = False"

abbreviation x11_backend_run ::
  "(x_server, x_other) backend_op list \<Rightarrow> x11 \<times> clipboard_event list \<Rightarrow> x11 \<times> clipboard_event list" where
  "x11_backend_run \<equiv> backend_run x11_receive_from_host x11_take_events x11_other"

abbreviation x11_backend_step ::
  "(x_server, x_other) backend_op \<Rightarrow> x11 \<times> clipboard_event list \<Rightarrow> x11 \<times> clipboard_event list" where
  "x11_backend_step \<equiv> backend_step x11_receive_from_host x11_take_events x11_other"

definition silent_to :: "u32 \<times> atom \<Rightarrow> x11 \<Rightarrow> x11 \<Rightarrow> bool" where
  "silent_to k s s' \<longleftrightarrow> incr_transfers s' = incr_transfers s \<and> pieces_to k s' = pieces_to k s"

lemma silent_calls [simp]:
  "silent_to k s s" "silent_to k s (x_event ev s') = silent_to k s s'"
  "silent_to k s (set_our_ts kind t s') = silent_to k s s'" "silent_to k s (set_suppressed kind m s') = silent_to k s s'"
  "silent_to k s (set_our_mimes kind ms s') = silent_to k s s'"
  by (cases kind; simp add: silent_to_def pieces_to_def)+

lemma silent_call [simp]: "concat (map (written_to k) cs) = [] \<Longrightarrow> silent_to k s (x_call cs s') = silent_to k s s'"
  by (simp add: silent_to_def pieces_to_def del: concat_eq_Nil_conv)

lemma silent_drop [simp]: "concat (map (written_to k) (drop_convert v)) = []"
  by (cases v rule: drop_convert.cases) simp_all

lemma silent_converts [simp]:
  "silent_to k s (insert_convert key v s') = silent_to k s s'" "silent_to k s (forget_convert key s') = silent_to k s s'"
  "silent_to k s (finish_fd srv fd d s') = silent_to k s s'"
  by (simp_all add: insert_convert_def forget_convert_def finish_fd_def silent_drop del: concat_eq_Nil_conv)
    (simp_all add: silent_to_def pieces_to_def)

lemma silent_handlers:
  "silent_to k s (on_xfixes_notify srv n s)" "silent_to k s (on_selection_notify srv sel p s)"
  "silent_to k s (handle_incr_chunk srv p s)" "silent_to k s (x11_receive_from_host srv kind m fd s)"
  "silent_to k s (snd (x11_take_events s))" "silent_to k s (x11_set_host_selection srv kind ms s)"
  "silent_to k s (x11_clear_host_selection srv kind s)" "silent_to k s (on_selection_request srv req s)"
proof -
  show "silent_to k s (on_selection_notify srv sel p s)"
    by (simp add: on_selection_notify_def handle_targets_reply_def handle_data_reply_def Let_def
        split: option.split pending_convert.split)
  show "silent_to k s (handle_incr_chunk srv p s)"
    by (simp add: handle_incr_chunk_def silent_drop del: concat_eq_Nil_conv split: option.split pending_convert.split)
      (simp add: silent_to_def pieces_to_def)
  show "silent_to k s (on_selection_request srv req s)"
    by (simp add: on_selection_request_def Let_def case_prod_beta split: option.split) (simp add: silent_to_def pieces_to_def)
qed (simp_all add: on_xfixes_notify_def x11_receive_from_host_def x11_take_events_def x11_set_host_selection_def
    x11_clear_host_selection_def Let_def split: option.split, simp_all add: silent_to_def pieces_to_def)

text \<open>What the requestor is still to receive.\<close>

definition to_come :: "incr_outgoing \<Rightarrow> bytes list" where
  "to_come t = (if flush_on_delete t then [] else pieces (io_data t) @ [[]])"

lemma to_come_step:
  "to_come t = fst (next_piece t) @ (case snd (next_piece t) of None \<Rightarrow> [] | Some t' \<Rightarrow> to_come t')"
  "length (fst (next_piece t)) = (case snd (next_piece t) of None \<Rightarrow> 0 | Some t' \<Rightarrow> 1)"
  by (auto simp: to_come_def pieces.simps [of "io_data t"])

lemma request_delete:
  fixes w :: u32 and p :: atom
  assumes "transfer_is k v s"
  defines "s' \<equiv> handle_outgoing_property_delete w p s"
  shows "transfer_is k (if k = (w, p) then Option.bind v (\<lambda>t. snd (next_piece t)) else v) s' \<and>
    pieces_to k s' = pieces_to k s @ (if k = (w, p) then case v of None \<Rightarrow> [] | Some t \<Rightarrow> fst (next_piece t) else [])"
proof (cases "(w, p) \<in> io_key ` set (incr_transfers s)")
  case False
  have "v = None" if "k = (w, p)"
  proof -
    have "filter_mset (\<lambda>t. io_key t = k) (mset (incr_transfers s)) = {#}"
      using False that unfolding filter_mset_none set_mset_mset by (metis imageI)
    moreover have "filter_mset (\<lambda>t. io_key t = k) (mset (incr_transfers s)) = mset_set (set_option v)"
      using assms(1) by (simp add: transfer_is_def)
    ultimately show ?thesis by (simp only:) (cases v; simp)
  qed
  then show ?thesis using assms(1) delete_other [OF False] by (auto simp: s'_def)
next
  case True
  obtain t where t: "t \<in># mset (incr_transfers s)" "io_key t = (w, p)"
      "mset (incr_transfers s') = mset (incr_transfers s) - {#t#} + mset_set (set_option (snd (next_piece t)))"
      "pieces_to k s' = pieces_to k s @ (if k = (w, p) then fst (next_piece t) else [])"
    using delete_known [OF True] unfolding s'_def by blast
  have out: "outgoing_requests s' = outgoing_requests s" by (simp add: s'_def)
  have after: "filter_mset (\<lambda>t. io_key t = k) (mset_set (set_option (snd (next_piece t)))) =
      (if k = (w, p) then mset_set (set_option (snd (next_piece t))) else {#})"
    using next_piece_key [of t] t(2) by (cases "snd (next_piece t)") auto
  show ?thesis
  proof (cases "k = (w, p)")
    case k: True
    have "t \<in># filter_mset (\<lambda>t. io_key t = k) (mset (incr_transfers s))" using t(1,2) k by simp
    then have v: "v = Some t" using assms(1) unfolding transfer_is_def by (cases v) (simp_all only:, simp_all)
    have "filter_mset (\<lambda>t. io_key t = k) (mset (incr_transfers s)) = {#t#}" using assms(1) by (simp add: v transfer_is_def)
    then have "filter_mset (\<lambda>t. io_key t = k) (mset (incr_transfers s')) = mset_set (set_option (snd (next_piece t)))"
      using t(2) k after by (simp add: t(3) del: next_piece.simps)
    then show ?thesis using assms(1) t(4) k by (simp add: v transfer_is_def out del: next_piece.simps)
  next
    case False
    then have "filter_mset (\<lambda>t. io_key t = k) (mset (incr_transfers s')) =
        filter_mset (\<lambda>t. io_key t = k) (mset (incr_transfers s))"
      using t(2) after by (simp add: t(3) del: next_piece.simps)
    then show ?thesis using assms(1) t(4) False by (simp add: transfer_is_def out)
  qed
qed

lemma silent_transfer:
  assumes "silent_to k s s'" and "transfer_is k v s"
    and "req_key ` snd ` set (outgoing_requests s') \<subseteq> req_key ` snd ` set (outgoing_requests s) \<union> - {k}"
  shows "transfer_is k v s' \<and> pieces_to k s' = pieces_to k s"
proof -
  have "k \<notin> req_key ` snd ` set (outgoing_requests s')" using assms(2,3) by (auto simp: transfer_is_def)
  then show ?thesis using assms(1,2) by (simp add: silent_to_def transfer_is_def)
qed

lemma other_completed:
  assumes "transfer_is k v s"
  shows "transfer_is k v (x11_complete_outgoing i d s) \<and> pieces_to k (x11_complete_outgoing i d s) = pieces_to k s"
proof (cases "map_of (outgoing_requests s) i")
  case (Some req)
  let ?s = "x11_complete_outgoing i d s"
  have "req_key req \<in> req_key ` snd ` set (outgoing_requests s)" using map_of_SomeD [OF Some] by force
  then have key: "req_key req \<noteq> k" using assms by (auto simp: transfer_is_def)
  have "req_key ` snd ` set (outgoing_requests ?s) \<subseteq> req_key ` snd ` set (outgoing_requests s)"
    using Some by (intro image_mono) (auto simp: x11_complete_outgoing_def Let_def AList.delete_eq)
  moreover have "filter_mset (\<lambda>t. io_key t = k) (mset (incr_transfers ?s)) = filter_mset (\<lambda>t. io_key t = k) (mset (incr_transfers s))"
    "pieces_to k ?s = pieces_to k s"
    using Some key by (simp_all add: x11_complete_outgoing_def Let_def pieces_to_def io_key_def) (auto simp: req_key_def)
  ultimately show ?thesis using assms unfolding transfer_is_def by auto
qed (simp add: x11_complete_outgoing_def assms)

lemma transfer_step:
  fixes out :: "clipboard_event list"
  assumes "transfer_is k v s" and "\<not> asks_under k op"
  defines "s' \<equiv> fst (x11_backend_step op (s, out))"
  shows "transfer_is k (if deletes k op then Option.bind v (\<lambda>t. snd (next_piece t)) else v) s' \<and>
    pieces_to k s' = pieces_to k s @ (if deletes k op then case v of None \<Rightarrow> [] | Some t \<Rightarrow> fst (next_piece t) else [])"
proof -
  have same: "transfer_is k v s' \<and> pieces_to k s' = pieces_to k s"
    if "silent_to k s s'" "no_requests s s'" for s'
    using silent_transfer [OF that(1) assms(1)] that(2) by (auto simp: no_requests_def)
  note quiet = same [OF silent_handlers(1) silent_steps(1)] same [OF silent_handlers(2) silent_steps(2)]
    same [OF silent_handlers(4) silent_steps(4)] same [OF silent_handlers(5) silent_steps(5)]
    same [OF silent_handlers(6) silent_steps(6)] same [OF silent_handlers(7) silent_steps(7)]
  have chunk: "no_requests s (handle_incr_chunk srv p s)" for srv p
    by (simp add: handle_incr_chunk_def no_requests_drop split: option.split pending_convert.split)
      (simp add: no_requests_def)
  have event: "transfer_is k (if deletes k (BOther (OEvent srv ev)) then Option.bind v (\<lambda>t. snd (next_piece t)) else v)
      (handle_event srv ev s) \<and> pieces_to k (handle_event srv ev s) = pieces_to k s @
      (if deletes k (BOther (OEvent srv ev)) then case v of None \<Rightarrow> [] | Some t \<Rightarrow> fst (next_piece t) else [])"
    if "\<not> asks_under k (BOther (OEvent srv ev))" for srv ev
  proof (cases ev)
    case (XPropertyNotify w p deleted)
    then show ?thesis
      using request_delete [OF assms(1), of w p] same [OF silent_handlers(3) chunk] assms(1)
      by (cases deleted) (auto simp: on_property_notify_def Let_def simp del: next_piece.simps)
  next
    case (XSelectionRequest req)
    have upd: "snd ` set (AList.update i req al) \<subseteq> insert req (snd ` set al)" for i al
      by (induction al) auto
    have "snd ` set (outgoing_requests (on_selection_request srv req s)) \<subseteq> insert req (snd ` set (outgoing_requests s))"
      using upd [of "next_outgoing_id s" "outgoing_requests s"]
      by (simp add: on_selection_request_def Let_def case_prod_beta subset_insertI split: option.split)
    moreover have "req_key ` insert req (snd ` set (outgoing_requests s)) \<subseteq> req_key ` snd ` set (outgoing_requests s) \<union> - {k}"
      using that XSelectionRequest by (simp only: image_insert insert_subset Un_upper1) simp
    ultimately have "req_key ` snd ` set (outgoing_requests (on_selection_request srv req s)) \<subseteq>
        req_key ` snd ` set (outgoing_requests s) \<union> - {k}"
      by (rule order_trans [OF image_mono])
    then show ?thesis
      using XSelectionRequest silent_transfer [OF silent_handlers(8) assms(1)] by simp
  qed (simp_all add: quiet assms(1))
  show ?thesis
  proof (cases op)
    case (BOther e)
    then show ?thesis
      using event assms(2) other_completed [OF assms(1)]
      by (cases e) (simp_all add: s'_def quiet del: handle_event.simps)
  qed (simp_all add: s'_def quiet)
qed

lemma transfer_run:
  fixes out :: "clipboard_event list"
  assumes "transfer_is k v s" and "\<not> (\<exists>op \<in> set ops. asks_under k op)"
  defines "n \<equiv> length (filter (deletes k) ops)" and "s' \<equiv> fst (x11_backend_run ops (s, out))"
  shows "pieces_to k s' = pieces_to k s @ (case v of None \<Rightarrow> [] | Some t \<Rightarrow> take n (to_come t)) \<and>
    (\<exists>v'. transfer_is k v' s' \<and> (v' \<noteq> None \<longleftrightarrow> (\<exists>t. v = Some t \<and> n \<le> length (to_come t))))"
  using assms(1,2) unfolding n_def s'_def
proof (induction ops arbitrary: s out v)
  case (Cons op ops)
  let ?r = "x11_backend_step op (s, out)" and ?s = "fst (x11_backend_run (op # ops) (s, out))"
  note step = transfer_step [OF Cons.prems(1), of op out]
  have rest: "pieces_to k ?s = pieces_to k (fst ?r) @
      (case u of None \<Rightarrow> [] | Some t \<Rightarrow> take (length (filter (deletes k) ops)) (to_come t)) \<and>
      (\<exists>v'. transfer_is k v' ?s \<and> (v' \<noteq> None \<longleftrightarrow> (\<exists>t. u = Some t \<and> length (filter (deletes k) ops) \<le> length (to_come t))))"
    if "transfer_is k u (fst ?r)" for u
    using Cons.IH [OF that, of "snd ?r"] Cons.prems(2) by simp
  show ?case
  proof (cases "deletes k op \<and> v \<noteq> None")
    case False
    then have "transfer_is k v (fst ?r)" "pieces_to k (fst ?r) = pieces_to k s"
      using step Cons.prems(2) by (auto split: if_splits)
    then show ?thesis using rest [of v] False by (cases v) auto
  next
    case True
    then obtain t where t: "v = Some t" by blast
    note come = to_come_step [of t]
    have "transfer_is k (snd (next_piece t)) (fst ?r)" "pieces_to k (fst ?r) = pieces_to k s @ fst (next_piece t)"
      using step Cons.prems(2) True by (simp_all add: t del: next_piece.simps)
    then show ?thesis
      using rest [of "snd (next_piece t)"] True come
      by (cases "snd (next_piece t)") (auto simp: t simp del: next_piece.simps)
  qed
qed (auto split: option.split)

text \<open>C20. A large selection is offered to a host application in pieces: once the data of a request
  is complete the transfer is announced, and then, whatever else the back end does in between (other
  transfers, pastes, changes of the selection), each deletion of the requestor's property that the X
  server reports writes the next piece of the data to it, in order, none empty or larger than
  64 KiB and together exactly the data; the deletion after the last piece writes one empty piece and the next one
  forgets the transfer. Provided no other request under the same requestor and property is going on
  or comes in between.\<close>

theorem incr_delivery:
  fixes s :: x11 and ops :: "(x_server, x_other) backend_op list" and out :: "clipboard_event list"
  assumes "map_of (outgoing_requests s) i = Some req" and "INCR_CHUNK_SIZE < length d"
    and "req_key req \<notin> io_key ` set (incr_transfers s)"
    and "\<forall>(j, r) \<in> set (outgoing_requests s). j \<noteq> i \<longrightarrow> req_key r \<noteq> req_key req"
    and "\<not> (\<exists>op \<in> set ops. asks_under (req_key req) op)"
  defines "k \<equiv> req_key req"
  defines "s1 \<equiv> x11_complete_outgoing i d s"
  defines "s' \<equiv> fst (x11_backend_run ops (s1, out))"
  shows "x_calls s1 = x_calls s @ [ChangeProperty32 (rq_requestor req) (rq_property req) (A_INCR (x_atom s))
      [word_of_nat (length d)], SendNotify req True] \<and>
    pieces_to k s' = pieces_to k s @ take (length (filter (deletes k) ops)) (pieces d @ [[]]) \<and>
    concat (pieces d) = d \<and> (\<forall>c \<in> set (pieces d). c \<noteq> [] \<and> length c \<le> INCR_CHUNK_SIZE) \<and>
    (k \<in> io_key ` set (incr_transfers s') \<longleftrightarrow> length (filter (deletes k) ops) \<le> length (pieces d) + 1)"
proof -
  let ?t = "\<lparr>io_request = req, io_data = d, flush_on_delete = False\<rparr>"
  have c: "incr_transfers s1 = incr_transfers s @ [?t]" "pieces_to k s1 = pieces_to k s"
      "outgoing_requests s1 = AList.delete i (outgoing_requests s)"
    using assms(1,2) by (simp_all add: s1_def x11_complete_outgoing_def Let_def pieces_to_def)
  have "filter_mset (\<lambda>t. io_key t = k) (mset (incr_transfers s)) = {#}"
    using assms(3) unfolding filter_mset_none set_mset_mset k_def by (metis imageI)
  then have start: "transfer_is k (Some ?t) s1"
    using assms(4) by (auto simp: transfer_is_def c(1,3) AList.delete_eq k_def io_key_def)
  have mem: "k \<in> io_key ` set (incr_transfers s') \<longleftrightarrow> v' \<noteq> None" if "transfer_is k v' s'" for v'
  proof -
    have "k \<in> io_key ` set (incr_transfers s') \<longleftrightarrow> filter_mset (\<lambda>t. io_key t = k) (mset (incr_transfers s')) \<noteq> {#}"
      by (auto simp: filter_mset_none)
    moreover have "filter_mset (\<lambda>t. io_key t = k) (mset (incr_transfers s')) = mset_set (set_option v')"
      using that by (simp add: transfer_is_def)
    ultimately show ?thesis by (simp only:) (cases v'; simp)
  qed
  have "\<not> (\<exists>op \<in> set ops. asks_under k op)" using assms(5) by (simp add: k_def)
  note run = transfer_run [OF start this, of out, folded s'_def]
  have "x_calls s1 = x_calls s @ [ChangeProperty32 (rq_requestor req) (rq_property req) (A_INCR (x_atom s))
      [word_of_nat (length d)], SendNotify req True]"
    using assms(1,2) by (simp add: s1_def x11_complete_outgoing_def Let_def)
  then show ?thesis
    using run mem pieces_facts [of d] by (auto simp: c(2) to_come_def)
qed

definition demo_owner :: x11 where
  "demo_owner = (x11_new demo_atoms 3 (\<lambda>a. 0) (\<lambda>a. True))\<lparr>outgoing_requests := [(0, demo_request)]\<rparr>"

text \<open>Deletions, with a paste, another request and a deletion by somebody else in between.\<close>

definition demo_deletions :: "(x_server, x_other) backend_op list" where
  "demo_deletions = (let deleted = (\<lambda>w. BOther (OEvent demo_xserver (XPropertyNotify w 200 True))) in
     [deleted 70, BReceive demo_xserver KClipboard ''text/plain'' 6, deleted 71,
      BOther (OEvent demo_xserver (XSelectionRequest (demo_request\<lparr>rq_requestor := 72\<rparr>))), deleted 70, BTake,
      deleted 70, BOther (OClear demo_xserver KPrimary), deleted 70])"

theorem incr_delivery_witness:
  "pieces_to (70, 200) (fst (x11_backend_run demo_deletions (x11_complete_outgoing 0 (replicate 70000 7) demo_owner, []))) =
     [replicate 65536 7, replicate 4464 7, []] \<and>
   (70, 200) \<notin> io_key ` set (incr_transfers (fst (x11_backend_run demo_deletions
     (x11_complete_outgoing 0 (replicate 70000 7) demo_owner, []))))"
proof -
  have s: "map_of (outgoing_requests demo_owner) 0 = Some demo_request" "outgoing_requests demo_owner = [(0, demo_request)]"
    "incr_transfers demo_owner = []" "pieces_to (70, 200) demo_owner = []"
    by (simp_all add: demo_owner_def x11_new_def ask_owner_def pieces_to_def)
  have key: "req_key demo_request = (70, 200)" by (simp add: demo_request_def req_key_def)
  have p: "pieces (replicate 70000 7) = [replicate 65536 7, replicate 4464 7]"
    by (simp add: pieces.simps INCR_CHUNK_SIZE_def)
  have d: "length (filter (deletes (70, 200)) demo_deletions) = 4" "\<not> (\<exists>op \<in> set demo_deletions. asks_under (70, 200) op)"
    by (simp_all add: demo_deletions_def Let_def demo_request_def req_key_def)
  show ?thesis
    using incr_delivery [OF s(1), of "replicate 70000 7" demo_deletions "[]", unfolded key s(2,3,4) p d(1)] d(2)
    by (simp add: INCR_CHUNK_SIZE_def)
qed

section \<open>In: a paste\<close>

text \<open>The piece that an event brings for the conversion waiting under \<open>key\<close>, and the events that
  leave that conversion alone or bring a piece.\<close>

fun event_piece :: "u32 \<Rightarrow> atom \<times> atom \<Rightarrow> x_server \<times> x_input \<Rightarrow> bytes" where
  "event_piece w key (srv, XPropertyNotify w' p False) =
     (if w' = w \<and> p = snd key then case xs_property srv of Some q \<Rightarrow> xp_value q | None \<Rightarrow> [] else [])"
| "event_piece w key _ = []"

fun undisturbed :: "u32 \<Rightarrow> atom \<times> atom \<Rightarrow> x_server \<times> x_input \<Rightarrow> bool" where
  "undisturbed w key (srv, XFixesNotify n) = (xf_selection n \<noteq> fst key)"
| "undisturbed w key (srv, XSelectionNotify sel p) = ((sel, p) \<noteq> key)"
| "undisturbed w key (srv, XPropertyNotify w' p False) =
     (iteration_order (xs_visit srv) \<and> (w' = w \<and> p = snd key \<longrightarrow> event_piece w key (srv, XPropertyNotify w' p False) \<noteq> []))"
| "undisturbed w key _ = True"

definition atoms_distinct :: "x_atoms \<Rightarrow> bool" where
  "atoms_distinct at \<longleftrightarrow> A_CLIPBOARD at \<noteq> A_PRIMARY at \<and>
     distinct [0, A_CLIP_SEL at, A_PRIM_SEL at, A_CLIP_INIT at, A_PRIM_INIT at]"

lemma same_key: "atoms_distinct at \<Longrightarrow> key \<in> conv_keys at \<Longrightarrow> key' \<in> conv_keys at \<Longrightarrow> snd key = snd key' \<Longrightarrow> key = key'"
  by (auto simp: atoms_distinct_def conv_keys_def)

abbreviation waits :: "x11 \<Rightarrow> atom \<times> atom \<Rightarrow> pending_convert option" where
  "waits s key \<equiv> map_of (pending_converts s) key"

lemma find_in: "find P xs = Some x \<Longrightarrow> x \<in> set xs \<and> P x"
  by (auto simp: find_Some_iff)

lemma find_incr_own:
  assumes "x11_wf at s" and "atoms_distinct at" and "iteration_order (xs_visit srv)" and "waits s key = Some (PData fd True d)"
  shows "find_incr srv (snd key) s = Some key"
proof -
  let ?P = "\<lambda>(k, v). snd k = snd key \<and> (case v of PData fd incr d \<Rightarrow> incr | _ \<Rightarrow> False)"
  have e: "set (entries (xs_visit srv) (pending_converts s)) = set (pending_converts s)"
    using assms(1,3) by (simp add: set_entries x11_wf_def)
  have own: "(key, PData fd True d) \<in> set (pending_converts s)" using assms(4) by (rule map_of_SomeD)
  obtain kv where kv: "find ?P (entries (xs_visit srv) (pending_converts s)) = Some kv"
    using own unfolding e [symmetric] by (cases "find ?P (entries (xs_visit srv) (pending_converts s))")
      (auto simp: find_None_iff)
  then have "kv \<in> set (pending_converts s)" "snd (fst kv) = snd key"
    unfolding e [symmetric] using find_in by (fastforce simp del: find.simps)+
  then have "fst kv = key"
    using assms(1) own same_key [OF assms(2), of "fst kv" key] by (force simp: x11_wf_def)
  then show ?thesis by (simp add: find_incr_def kv)
qed

lemma find_incr_prop:
  assumes "x11_wf at s" and "iteration_order (xs_visit srv)" and "find_incr srv p s = Some key"
  shows "snd key = p"
  using assms(3) by (auto simp: find_incr_def find_Some_iff)

lemma waits_insert [simp]: "waits (insert_convert key' v s) key = (if key = key' then Some v else waits s key)"
  by (simp add: insert_convert_def update_conv')

lemma waits_forget [simp]: "waits (forget_convert key' s) key = (if key = key' then None else waits s key)"
  by (simp add: forget_convert_def delete_conv')

lemma waits_finish [simp]: "pending_converts (finish_fd srv fd d s) = pending_converts s"
  by (simp add: finish_fd_def)

lemma window_event [simp]: "x_window (handle_event srv ev s) = x_window s"
proof (cases ev)
  case (XPropertyNotify w p deleted)
  have "x_window (handle_incr_chunk srv p s) = x_window s"
    by (simp add: handle_incr_chunk_def finish_fd_def forget_convert_def split: option.split pending_convert.split)
  moreover have "x_window (handle_outgoing_property_delete w p s') = x_window s'" for s'
    by (simp add: handle_outgoing_property_delete_def Let_def split: option.split)
  ultimately show ?thesis by (simp add: XPropertyNotify on_property_notify_def Let_def)
qed (auto simp: on_xfixes_notify_def on_selection_notify_def on_selection_request_def handle_targets_reply_def
    handle_data_reply_def finish_fd_def forget_convert_def insert_convert_def Let_def split: option.split pending_convert.split)

text \<open>The same for any operation of the back end.\<close>

fun op_piece :: "u32 \<Rightarrow> atom \<times> atom \<Rightarrow> (x_server, x_other) backend_op \<Rightarrow> bytes" where
  "op_piece w key (BOther (OEvent srv ev)) = event_piece w key (srv, ev)"
| "op_piece w key _ = []"

fun op_undisturbed :: "x_atoms \<Rightarrow> u32 \<Rightarrow> atom \<times> atom \<Rightarrow> (x_server, x_other) backend_op \<Rightarrow> bool" where
  "op_undisturbed at w key (BReceive srv kind m fd) = ((selection_atom kind at, property_atom kind at) \<noteq> key)"
| "op_undisturbed at w key (BOther (OEvent srv ev)) = undisturbed w key (srv, ev)"
| "op_undisturbed at w key _ = True"

lemma piece_step:
  assumes "x11_wf at s" and "atoms_distinct at" and "waits s key = Some (PData fd True d)"
    and "undisturbed (x_window s) key (srv, ev)"
  shows "waits (handle_event srv ev s) key = Some (PData fd True (d @ event_piece (x_window s) key (srv, ev)))"
proof (cases ev)
  case (XFixesNotify n)
  then show ?thesis using assms(3,4)
    by (auto simp: on_xfixes_notify_def Let_def split: option.split)
next
  case (XSelectionNotify sel p)
  then show ?thesis using assms(3,4)
    by (auto simp: on_selection_notify_def handle_targets_reply_def handle_data_reply_def Let_def
        split: option.split pending_convert.split)
next
  case (XSelectionRequest req)
  then show ?thesis using assms(3) by (auto simp: on_selection_request_def Let_def split: option.split)
next
  case (XPropertyNotify w p deleted)
  have del: "waits (handle_outgoing_property_delete w p s') key = waits s' key" for s'
    by (simp add: handle_outgoing_property_delete_def Let_def split: option.split)
  show ?thesis
  proof (cases "deleted \<or> w \<noteq> x_window s")
    case True
    then show ?thesis using XPropertyNotify assms(3) del by (cases deleted) (simp_all add: on_property_notify_def Let_def)
  next
    case False
    then have order: "iteration_order (xs_visit srv)" using assms(4) XPropertyNotify by simp
    show ?thesis
    proof (cases "p = snd key")
      case True
      then obtain q where "xs_property srv = Some q" "xp_value q \<noteq> []"
        using False assms(4) XPropertyNotify by (cases "xs_property srv") auto
      then show ?thesis
        using find_incr_own [OF assms(1,2) order assms(3)] True False XPropertyNotify assms(3)
        by (simp add: on_property_notify_def Let_def handle_incr_chunk_def update_conv')
    next
      case other: False
      have "find_incr srv p s \<noteq> Some key" using find_incr_prop [OF assms(1) order] other by metis
      then have "waits (handle_incr_chunk srv p s) key = waits s key"
        by (auto simp: handle_incr_chunk_def update_conv' split: option.split pending_convert.split)
      then show ?thesis using False XPropertyNotify assms(3) other by (simp add: on_property_notify_def Let_def)
    qed
  qed
next
  case XOther
  then show ?thesis using assms(3) by simp
qed

lemma piece_op:
  fixes out :: "clipboard_event list"
  assumes "x11_wf at s" and "atoms_distinct at" and "waits s key = Some (PData fd True d)"
    and "op_undisturbed at (x_window s) key op"
  defines "s' \<equiv> fst (x11_backend_step op (s, out))"
  shows "waits s' key = Some (PData fd True (d @ op_piece (x_window s) key op)) \<and> x11_wf at s' \<and> x_window s' = x_window s"
proof (cases op)
  case (BReceive srv kind m fd')
  have "x_atom s = at" using assms(1) by (simp add: x11_wf_def)
  then show ?thesis
    using BReceive assms(3,4) wf_receive [OF assms(1)]
    by (auto simp: s'_def x11_receive_from_host_def Let_def insert_convert_def update_conv' split: option.split)
next
  case BTake
  then show ?thesis using assms(1,3) x11_wf_cong [of s' s] by (simp add: s'_def x11_take_events_def)
next
  case (BOther e)
  have "x11_wf at s'" using wf_other [OF assms(1)] by (simp add: s'_def BOther)
  moreover have "waits s' key = Some (PData fd True (d @ op_piece (x_window s) key op)) \<and> x_window s' = x_window s"
  proof (cases e)
    case (OEvent srv ev)
    then show ?thesis
      using piece_step [OF assms(1-3), of srv ev] assms(4) by (simp add: s'_def BOther del: handle_event.simps)
  qed (use assms(3) in \<open>auto simp: s'_def BOther x11_set_host_selection_def x11_clear_host_selection_def
      x11_complete_outgoing_def Let_def split: option.split\<close>)
  ultimately show ?thesis by blast
qed

lemma pieces_run:
  fixes out :: "clipboard_event list"
  assumes "x11_wf at s" and "atoms_distinct at" and "waits s key = Some (PData fd True d)"
    and "\<forall>op \<in> set ops. op_undisturbed at (x_window s) key op"
  defines "s' \<equiv> fst (x11_backend_run ops (s, out))"
  shows "waits s' key = Some (PData fd True (d @ concat (map (op_piece (x_window s) key) ops))) \<and>
    x11_wf at s' \<and> x_window s' = x_window s"
  using assms(1,3,4) unfolding s'_def
proof (induction ops arbitrary: s d out)
  case (Cons op ops)
  let ?r = "x11_backend_step op (s, out)"
  note step = piece_op [OF Cons.prems(1) assms(2) Cons.prems(2), of op out]
  show ?case
    using Cons.IH [of "fst ?r" "d @ op_piece (x_window s) key op" "snd ?r"] step Cons.prems(3) by simp
qed simp

text \<open>What reaches the descriptor: a prefix of the data, all of it when no write fails before the end.\<close>

lemma write_all_prefix: "\<exists>rest. d = write_all_to_fd ns d @ rest"
proof (induction ns d rule: write_all_to_fd.induct)
  case (3 n ns b bs)
  show ?case
  proof (cases "n \<le> 0")
    case False
    then obtain rest where "drop (nat n) (b # bs) = write_all_to_fd ns (drop (nat n) (b # bs)) @ rest" using 3 by blast
    then show ?thesis using False append_take_drop_id [of "nat n" "b # bs"]
      by (intro exI [of _ rest]) (metis append.assoc write_all_to_fd.simps(3))
  qed simp
qed simp_all

lemma write_all_full:
  "\<forall>n \<in> set ns. 0 < n \<Longrightarrow> int (length d) \<le> sum_list ns \<Longrightarrow> write_all_to_fd ns d = d"
proof (induction ns d rule: write_all_to_fd.induct)
  case (3 n ns b bs)
  have "0 \<le> sum_list ns" using 3(2) by (intro sum_list_nonneg) auto
  then have "int (length (drop (nat n) (b # bs))) \<le> sum_list ns" using 3(2,3) by auto
  moreover have "\<not> n \<le> 0" using 3(2) by auto
  ultimately show ?case using 3 append_take_drop_id [of "nat n" "b # bs"] by simp
qed simp_all

text \<open>C25. A large paste is joined: when the owner answers with an incremental transfer, the pieces it
  writes to our property, whatever else the back end is given in between that does not answer or replace
  this conversion, are joined in order; when the empty piece arrives, what the client's descriptor accepts
  of their concatenation is written to it, always a prefix and all of it when no write fails or
  would block before the end, the descriptor is closed and the conversion is no longer pending.\<close>

theorem incr_paste:
  fixes ops :: "(x_server, x_other) backend_op list" and out :: "clipboard_event list"
  assumes "x11_wf at s" and "atoms_distinct at" and "waits s key = Some (PData fd incr [])" and "snd key \<noteq> NO_ATOM"
    and "xs_property first = Some p" and "xp_type p = A_INCR at"
    and "\<forall>op \<in> set ops. op_undisturbed at (x_window s) key op"
    and "iteration_order (xs_visit final)" and "xs_property final = Some q" and "xp_value q = []"
  defines "s1 \<equiv> fst (x11_backend_run ops (handle_event first (XSelectionNotify (fst key) (snd key)) s, out))"
  defines "s2 \<equiv> handle_event final (XPropertyNotify (x_window s) (snd key) False) s1"
  defines "d \<equiv> concat (map (op_piece (x_window s) key) ops)"
  shows "\<exists>written rest. x_calls s2 = x_calls s1 @ [WriteFd fd written, CloseFd fd] \<and> d = written @ rest \<and>
      ((\<forall>n \<in> set (xs_writes final). 0 < n) \<and> int (length d) \<le> sum_list (xs_writes final) \<longrightarrow> rest = []) \<and>
      waits s2 key = None"
proof -
  let ?s = "handle_event first (XSelectionNotify (fst key) (snd key)) s"
  let ?out = "write_all_to_fd (xs_writes final) d"
  have at: "x_atom s = at" using assms(1) by (simp add: x11_wf_def)
  have start: "waits ?s key = Some (PData fd True [])"
    using assms(3-6) at by (simp add: on_selection_notify_def handle_data_reply_def Let_def forget_convert_def)
  have w: "waits s1 key = Some (PData fd True d)" "x11_wf at s1" "x_window s1 = x_window s"
    using pieces_run [OF wf_event [OF assms(1)] assms(2) start, of ops out] assms(7)
    unfolding s1_def d_def by (simp_all del: handle_event.simps)
  have "x_calls s2 = x_calls s1 @ [WriteFd fd ?out, CloseFd fd] \<and> waits s2 key = None"
    using find_incr_own [OF w(2) assms(2,8) w(1)] w assms(9,10)
    by (simp add: s2_def on_property_notify_def Let_def handle_incr_chunk_def finish_fd_def) (simp add: forget_convert_def)
  moreover obtain rest where "d = ?out @ rest" using write_all_prefix by blast
  moreover have "rest = []" if "\<forall>n \<in> set (xs_writes final). 0 < n" "int (length d) \<le> sum_list (xs_writes final)"
    using write_all_full [OF that] \<open>d = ?out @ rest\<close> by (metis append_self_conv)
  ultimately show ?thesis by blast
qed

text \<open>A server that has a property to read.\<close>

definition incoming :: "x_server \<Rightarrow> bytes \<Rightarrow> x_server" where
  "incoming srv d = srv\<lparr>xs_property := Some \<lparr>xp_type = 0, xp_value = d, xp_value32 = None\<rparr>\<rparr>"

section \<open>Failures\<close>

text \<open>A paste the owner refuses is never finished: a refusal comes without a property, but the
  conversion is looked up under the property it asked for, so the state does not change and the client waits
  with its descriptor open.\<close>

theorem refused_paste_stuck:
  fixes ops :: "(x_server, x_other) backend_op list" and sent :: "atom \<Rightarrow> bool" and owner :: "atom \<Rightarrow> u32" and w :: u32
    and fd :: nat and kind :: selection_kind
  assumes "atoms_distinct at" and "xs_sent srv" and "atom_from_mime srv at m = Some target"
  defines "s \<equiv> x11_receive_from_host srv kind m fd (fst (x11_run at w owner sent ops))"
  shows "handle_event srv' (XSelectionNotify (selection_atom kind at) NO_ATOM) s = s \<and> fd \<in># pending_fds s"
proof -
  have wf: "x11_wf at (fst (x11_run at w owner sent ops))"
    using x11b.conservation [OF new_wf, where ops = ops and out = "[]"] by (simp add: x11_run_def)
  then have "x11_wf at s" unfolding s_def by (rule wf_receive)
  moreover have "(a, NO_ATOM) \<notin> conv_keys at" for a
    using assms(1) by (auto simp: atoms_distinct_def conv_keys_def NO_ATOM_def)
  ultimately have none: "waits s (a, NO_ATOM) = None" for a
    by (auto simp: x11_wf_def map_of_eq_None_iff)
  have "waits s (selection_atom kind at, property_atom kind at) = Some (PData fd False [])"
    using assms(2,3) wf by (simp add: s_def x11_receive_from_host_def Let_def x11_wf_def)
  then have "fd \<in># pending_fds s"
    unfolding pending_fds_def by (force dest: map_of_SomeD)
  then show ?thesis using none by (simp add: on_selection_notify_def Let_def)
qed

text \<open>Copying inside emskin makes it deaf to the next copy on the host: setting the selection counts
  one event to ignore, but our own event is recognised by its owner and not counted down, so the
  next change by another owner is ignored: nothing is asked and nothing is reported.\<close>

theorem own_copy_hides_host_copy:
  fixes srv1 srv2 :: x_server and ms :: "string list" and t1 t2 :: u32
  assumes "A_CLIPBOARD (x_atom s) \<noteq> A_PRIMARY (x_atom s)" and "suppressed kind s = 0" and "xs_sent srv"
    and "other_owner \<noteq> x_window s"
  defines "sel \<equiv> selection_atom kind (x_atom s)"
  defines "s1 \<equiv> handle_event srv1 (XFixesNotify \<lparr>xf_owner = x_window s, xf_selection = sel, xf_timestamp = t1\<rparr>)
    (x11_set_host_selection srv kind ms s)"
  defines "s2 \<equiv> handle_event srv2 (XFixesNotify \<lparr>xf_owner = other_owner, xf_selection = sel, xf_timestamp = t2\<rparr>) s1"
  shows "x_events s2 = x_events s \<and> pending_converts s2 = pending_converts s \<and>
    x_calls s2 = x_calls s @ [SetSelectionOwner (x_window s) sel] \<and> suppressed kind s2 = 0"
proof -
  have kind: "selection_kind_from_atom sel (x_atom s) = Some kind"
    using assms(1) by (cases kind) (simp_all add: sel_def selection_kind_from_atom_def)
  then show ?thesis
    using assms(2-4)
    by (simp add: s2_def s1_def on_xfixes_notify_def x11_set_host_selection_def sel_def)
qed

theorem refused_paste_stuck_witness:
  "handle_event demo_xserver (XSelectionNotify 100 NO_ATOM)
     (x11_receive_from_host demo_xserver KClipboard ''text/plain'' 6 (fst (x11_run demo_atoms 3 (\<lambda>a. 0) (\<lambda>a. True) []))) =
   x11_receive_from_host demo_xserver KClipboard ''text/plain'' 6 (fst (x11_run demo_atoms 3 (\<lambda>a. 0) (\<lambda>a. True) []))"
  using refused_paste_stuck [of demo_atoms demo_xserver "''text/plain''" 105 demo_xserver KClipboard 6 3 "\<lambda>a. 0" "\<lambda>a. True" "[]"]
  by (simp add: atoms_distinct_def demo_atoms_def demo_xserver_def atom_from_mime_def)

theorem own_copy_hides_host_copy_witness:
  "x_calls (handle_event demo_xserver (XFixesNotify \<lparr>xf_owner = 50, xf_selection = 100, xf_timestamp = 9\<rparr>)
     (handle_event demo_xserver (XFixesNotify \<lparr>xf_owner = 3, xf_selection = 100, xf_timestamp = 8\<rparr>)
       (x11_set_host_selection demo_xserver KClipboard [''text/plain''] (x11_new demo_atoms 3 (\<lambda>a. 0) (\<lambda>a. True))))) =
   [SetSelectionOwner 3 100]"
  using own_copy_hides_host_copy [where s = "x11_new demo_atoms 3 (\<lambda>a. 0) (\<lambda>a. True)" and kind = KClipboard
      and srv = demo_xserver and ?srv1.0 = demo_xserver and ?srv2.0 = demo_xserver and other_owner = 50
      and ms = "[''text/plain'']" and ?t1.0 = 8 and ?t2.0 = 9]
  by (simp add: x11_new_def ask_owner_def demo_atoms_def demo_xserver_def)

text \<open>A paste in two pieces; in between a request of a host application, a paste of the other
  selection, a copy, and the events fetched.\<close>

definition demo_paste :: x11 where
  "demo_paste = x11_receive_from_host demo_xserver KClipboard ''text/plain'' 6 (x11_new demo_atoms 3 (\<lambda>a. 0) (\<lambda>a. True))"

definition demo_pieces :: "(x_server, x_other) backend_op list" where
  "demo_pieces = [BOther (OEvent (incoming demo_xserver [1, 2]) (XPropertyNotify 3 106 False)),
     BOther (OEvent demo_xserver (XSelectionRequest demo_request)), BReceive demo_xserver KPrimary ''text/plain'' 7,
     BOther (OSet demo_xserver KPrimary [''text/plain'']), BTake,
     BOther (OEvent (incoming demo_xserver [3]) (XPropertyNotify 3 106 False))]"

theorem incr_paste_witness:
  "\<exists>s1. x_calls (handle_event ((incoming demo_xserver [])\<lparr>xs_writes := [2, 1]\<rparr>) (XPropertyNotify 3 106 False) s1) =
     x_calls s1 @ [WriteFd 6 [1, 2, 3], CloseFd 6]"
proof -
  let ?first = "demo_xserver\<lparr>xs_property := Some \<lparr>xp_type = 103, xp_value = [], xp_value32 = None\<rparr>\<rparr>"
  let ?final = "(incoming demo_xserver [])\<lparr>xs_writes := [2, 1]\<rparr>"
  have "x11_wf demo_atoms demo_paste" unfolding demo_paste_def by (rule wf_receive [OF new_wf])
  moreover have "waits demo_paste (100, 106) = Some (PData 6 False [])" "x_window demo_paste = 3"
    by (simp_all add: demo_paste_def x11_receive_from_host_def atom_from_mime_def demo_xserver_def x11_new_def ask_owner_def
        demo_atoms_def x_call_def insert_convert_def)
  ultimately have s: "x11_wf demo_atoms demo_paste" "waits demo_paste (100, 106) = Some (PData 6 False [])" "x_window demo_paste = 3" .
  have at: "atoms_distinct demo_atoms" by (simp add: atoms_distinct_def demo_atoms_def)
  have order: "iteration_order (xs_visit demo_xserver)" by (simp add: demo_xserver_def iteration_order_def)
  show ?thesis
    using incr_paste [OF s(1) at s(2), where first = ?first and ops = demo_pieces and out = "[]" and final = ?final
        and p = "\<lparr>xp_type = 103, xp_value = [], xp_value32 = None\<rparr>"
        and q = "\<lparr>xp_type = 0, xp_value = [], xp_value32 = None\<rparr>", unfolded s(3)] order
    by (auto simp: NO_ATOM_def demo_atoms_def demo_pieces_def incoming_def demo_request_def)
qed

end
