(* ===== verification/Clip_Wayland.thy ===== *)
theory Clip_Wayland
  imports Clip_Backend
begin

text \<open>
  The Wayland clipboard back ends of \<open>crates/emskin-clipboard/src\<close>: \<open>data_control.rs\<close> (a connection of
  its own, ext-data-control-v1 or wlr-data-control) and \<open>wl_data_device.rs\<close> (on the connection of the
  host window, the clipboard only).

  Protocol objects are numbers; an object that a request creates gets the number given with that
  request. Requests sent, and descriptors closed, are listed in order. Flushing and logging are left out.
\<close>

section \<open>Requests\<close>

datatype dc_protocol = ExtDataControl | WlrDataControl

datatype wl_call =
    BindGlobal u32 string u32
  | CreateSource nat selection_kind
  | SourceOffer nat string
  | SourceDestroy nat
  | SetSelection selection_kind "nat option" "u32 option"
  | OfferReceive nat string nat
  | OfferDestroy nat
  | WlCloseFd nat
  | ReleaseDevice
  | ReleaseKeyboard

text \<open>Offers being assembled: \<open>HashMap<ObjectId, Vec<String>>\<close>.\<close>

type_synonym offers = "(nat \<times> string list) list"

definition add_mime :: "nat \<Rightarrow> string \<Rightarrow> offers \<Rightarrow> offers" where
  "add_mime i m os = (case map_of os i of None \<Rightarrow> os | Some ms \<Rightarrow> AList.update i (ms @ [m]) os)"

definition offered :: "nat option \<Rightarrow> offers \<Rightarrow> string list" where
  "offered new_offer os = (case new_offer of None \<Rightarrow> [] | Some i \<Rightarrow> (case map_of os i of None \<Rightarrow> [] | Some ms \<Rightarrow> ms))"

section \<open>Data control\<close>

record data_control =
  dc_manager :: "dc_protocol option"
  dc_device :: "dc_protocol option"
  dc_seat :: bool
  clipboard_offer :: "nat option"
  primary_offer :: "nat option"
  dc_pending :: offers
  clipboard_source :: "(dc_protocol \<times> nat) option"
  primary_source :: "(dc_protocol \<times> nat) option"
  dc_events :: "clipboard_event list"
  dc_suppress_clipboard :: u32
  dc_suppress_primary :: u32
  dc_calls :: "wl_call list"

definition dc_call :: "wl_call list \<Rightarrow> data_control \<Rightarrow> data_control" where
  "dc_call cs s = s\<lparr>dc_calls := dc_calls s @ cs\<rparr>"

definition dc_event :: "clipboard_event \<Rightarrow> data_control \<Rightarrow> data_control" where
  "dc_event ev s = s\<lparr>dc_events := dc_events s @ [ev]\<rparr>"

fun offer_slot :: "selection_kind \<Rightarrow> data_control \<Rightarrow> nat option" where
  "offer_slot KClipboard s = clipboard_offer s"
| "offer_slot KPrimary s = primary_offer s"

fun set_offer_slot :: "selection_kind \<Rightarrow> nat option \<Rightarrow> data_control \<Rightarrow> data_control" where
  "set_offer_slot KClipboard x s = s\<lparr>clipboard_offer := x\<rparr>"
| "set_offer_slot KPrimary x s = s\<lparr>primary_offer := x\<rparr>"

fun source_slot :: "selection_kind \<Rightarrow> data_control \<Rightarrow> (dc_protocol \<times> nat) option" where
  "source_slot KClipboard s = clipboard_source s"
| "source_slot KPrimary s = primary_source s"

fun set_source_slot :: "selection_kind \<Rightarrow> (dc_protocol \<times> nat) option \<Rightarrow> data_control \<Rightarrow> data_control" where
  "set_source_slot KClipboard x s = s\<lparr>clipboard_source := x\<rparr>"
| "set_source_slot KPrimary x s = s\<lparr>primary_source := x\<rparr>"

fun dc_suppress :: "selection_kind \<Rightarrow> data_control \<Rightarrow> u32" where
  "dc_suppress KClipboard s = dc_suppress_clipboard s"
| "dc_suppress KPrimary s = dc_suppress_primary s"

fun set_dc_suppress :: "selection_kind \<Rightarrow> u32 \<Rightarrow> data_control \<Rightarrow> data_control" where
  "set_dc_suppress KClipboard n s = s\<lparr>dc_suppress_clipboard := n\<rparr>"
| "set_dc_suppress KPrimary n s = s\<lparr>dc_suppress_primary := n\<rparr>"

definition destroy_offer :: "nat option \<Rightarrow> wl_call list" where
  "destroy_offer x = (case x of None \<Rightarrow> [] | Some i \<Rightarrow> [OfferDestroy i])"

definition destroy_source :: "(dc_protocol \<times> nat) option \<Rightarrow> wl_call list" where
  "destroy_source x = (case x of None \<Rightarrow> [] | Some (pr, i) \<Rightarrow> [SourceDestroy i])"

text \<open>\<open>DataControlDevice::set_selection\<close> and \<open>set_primary_selection\<close>; \<open>None\<close> is the panic on a source of
  the other protocol.\<close>

definition device_set_selection ::
  "dc_protocol \<Rightarrow> selection_kind \<Rightarrow> (dc_protocol \<times> nat) option \<Rightarrow> data_control \<Rightarrow> data_control option" where
  "device_set_selection dev kind src s =
     (case src of
        None \<Rightarrow> Some (dc_call [SetSelection kind None None] s)
      | Some (pr, i) \<Rightarrow> if pr = dev then Some (dc_call [SetSelection kind (Some i) None] s) else None)"

definition dc_on_selection :: "selection_kind \<Rightarrow> nat option \<Rightarrow> data_control \<Rightarrow> data_control" where
  "dc_on_selection kind new_offer s =
     (let mime_types = offered new_offer (dc_pending s);
          s1 = set_offer_slot kind new_offer (dc_call (destroy_offer (offer_slot kind s)) (s\<lparr>dc_pending := []\<rparr>)) in
      if 0 < dc_suppress kind s1 then set_dc_suppress kind (dc_suppress kind s1 - 1) s1
      else dc_event (HostSelectionChanged kind mime_types) s1)"

definition dc_source_cancelled :: "selection_kind \<Rightarrow> data_control \<Rightarrow> data_control" where
  "dc_source_cancelled role s =
     dc_event (SourceCancelled role) (set_source_slot role None (dc_call (destroy_source (source_slot role s)) s))"

text \<open>Protocol events. The role of a source is the selection it was created for.\<close>

datatype dc_input =
    DcGlobal u32 string u32
  | DcDataOffer nat
  | DcOfferMime nat string
  | DcSelection selection_kind "nat option"
  | DcFinished
  | DcSourceSend selection_kind string nat
  | DcSourceCancelled selection_kind
  | DcOther

definition dc_global :: "u32 \<Rightarrow> string \<Rightarrow> u32 \<Rightarrow> data_control \<Rightarrow> data_control" where
  "dc_global name iface version s =
     (if iface = ''ext_data_control_manager_v1'' \<and> dc_manager s = None then
        dc_call [BindGlobal name iface 1] (s\<lparr>dc_manager := Some ExtDataControl\<rparr>)
      else if iface = ''zwlr_data_control_manager_v1'' \<and> dc_manager s = None then
        dc_call [BindGlobal name iface (min version 3)] (s\<lparr>dc_manager := Some WlrDataControl\<rparr>)
      else if iface = ''wl_seat'' \<and> \<not> dc_seat s then
        dc_call [BindGlobal name iface (min version 1)] (s\<lparr>dc_seat := True\<rparr>)
      else s)"

fun dc_handle :: "dc_input \<Rightarrow> data_control \<Rightarrow> data_control" where
  "dc_handle (DcGlobal name iface version) s = dc_global name iface version s"
| "dc_handle (DcDataOffer i) s = s\<lparr>dc_pending := AList.update i [] (dc_pending s)\<rparr>"
| "dc_handle (DcOfferMime i m) s = s\<lparr>dc_pending := add_mime i m (dc_pending s)\<rparr>"
| "dc_handle (DcSelection kind x) s = dc_on_selection kind x s"
| "dc_handle DcFinished s = s\<lparr>dc_device := None\<rparr>"
| "dc_handle (DcSourceSend role m fd) s = dc_event (HostSendRequest role m fd None) s"
| "dc_handle (DcSourceCancelled role) s = dc_source_cancelled role s"
| "dc_handle DcOther s = s"

section \<open>Data control: start-up and interface\<close>

definition dc_initial :: data_control where
  "dc_initial = \<lparr>dc_manager = None, dc_device = None, dc_seat = False, clipboard_offer = None, primary_offer = None,
     dc_pending = [], clipboard_source = None, primary_source = None, dc_events = [], dc_suppress_clipboard = 0,
     dc_suppress_primary = 0, dc_calls = []\<rparr>"

text \<open>\<open>new\<close>, given the events of the two round trips; \<open>None\<close> in their place is a failed round trip.\<close>

definition dc_new :: "dc_input list option \<Rightarrow> dc_input list option \<Rightarrow> data_control option" where
  "dc_new globals initial =
     (case globals of
        None \<Rightarrow> None
      | Some evs \<Rightarrow>
          (let s = fold dc_handle evs dc_initial;
               s1 = (if dc_manager s \<noteq> None \<and> dc_seat s then s\<lparr>dc_device := dc_manager s\<rparr> else s) in
           if dc_device s1 = None then None
           else map_option (\<lambda>evs. fold dc_handle evs s1) initial))"

definition dc_take_events :: "data_control \<Rightarrow> clipboard_event list \<times> data_control" where
  "dc_take_events s = (dc_events s, s\<lparr>dc_events := []\<rparr>)"

definition dc_receive_from_host :: "selection_kind \<Rightarrow> string \<Rightarrow> nat \<Rightarrow> data_control \<Rightarrow> data_control" where
  "dc_receive_from_host kind m fd s =
     dc_call ((case offer_slot kind s of Some i \<Rightarrow> [OfferReceive i m fd] | None \<Rightarrow> []) @ [WlCloseFd fd]) s"

definition dc_set_host_selection :: "nat \<Rightarrow> selection_kind \<Rightarrow> string list \<Rightarrow> data_control \<Rightarrow> data_control option" where
  "dc_set_host_selection new kind mime_types s =
     (case (dc_manager s, dc_device s) of
        (Some manager, Some device) \<Rightarrow>
          (let source = (manager, new);
               s1 = dc_call (CreateSource new kind # map (SourceOffer new) mime_types) s in
           map_option (\<lambda>s2. set_dc_suppress kind (dc_suppress kind s2 + 1)
               (dc_call (destroy_source (source_slot kind s2)) (set_source_slot kind (Some source) s2)))
             (device_set_selection device kind (Some source) s1))
      | _ \<Rightarrow> Some s)"

definition dc_clear_host_selection :: "selection_kind \<Rightarrow> data_control \<Rightarrow> data_control option" where
  "dc_clear_host_selection kind s =
     (case dc_device s of
        None \<Rightarrow> Some s
      | Some device \<Rightarrow>
          map_option (\<lambda>s1. set_dc_suppress kind (dc_suppress kind s1 + 1)
              (dc_call (destroy_source (source_slot kind s1)) (set_source_slot kind None s1)))
            (device_set_selection device kind None s))"

definition dc_drop :: "data_control \<Rightarrow> data_control" where
  "dc_drop s = dc_call (destroy_offer (clipboard_offer s) @ destroy_offer (primary_offer s) @
       destroy_source (clipboard_source s) @ destroy_source (primary_source s))
     (s\<lparr>clipboard_offer := None, primary_offer := None, clipboard_source := None, primary_source := None\<rparr>)"

section \<open>Data device\<close>

record data_device =
  dd_manager :: bool
  dd_seat :: bool
  dd_keyboard :: bool
  dd_device :: bool
  latest_serial :: "u32 option"
  dd_offer :: "nat option"
  dd_pending :: offers
  dd_source :: "nat option"
  dd_events :: "clipboard_event list"
  dd_suppress :: u32
  dd_calls :: "wl_call list"

definition dd_call :: "wl_call list \<Rightarrow> data_device \<Rightarrow> data_device" where
  "dd_call cs s = s\<lparr>dd_calls := dd_calls s @ cs\<rparr>"

definition dd_event :: "clipboard_event \<Rightarrow> data_device \<Rightarrow> data_device" where
  "dd_event ev s = s\<lparr>dd_events := dd_events s @ [ev]\<rparr>"

definition dd_on_selection :: "nat option \<Rightarrow> data_device \<Rightarrow> data_device" where
  "dd_on_selection new_offer s =
     (let mime_types = offered new_offer (dd_pending s);
          s1 = (dd_call (destroy_offer (dd_offer s)) (s\<lparr>dd_pending := []\<rparr>))\<lparr>dd_offer := new_offer\<rparr> in
      if 0 < dd_suppress s1 then s1\<lparr>dd_suppress := dd_suppress s1 - 1\<rparr>
      else dd_event (HostSelectionChanged KClipboard mime_types) s1)"

definition dd_destroy_source :: "nat option \<Rightarrow> wl_call list" where
  "dd_destroy_source x = (case x of None \<Rightarrow> [] | Some i \<Rightarrow> [SourceDestroy i])"

definition dd_source_cancelled :: "data_device \<Rightarrow> data_device" where
  "dd_source_cancelled s =
     dd_event (SourceCancelled KClipboard) (dd_call (dd_destroy_source (dd_source s)) (s\<lparr>dd_source := None\<rparr>))"

text \<open>\<open>DdKeyboard\<close> is an enter, leave, key or modifiers event with its serial.\<close>

datatype dd_input =
    DdGlobal u32 string u32
  | DdKeyboard u32
  | DdDataOffer nat
  | DdOfferMime nat string
  | DdSelection "nat option"
  | DdSourceSend string nat
  | DdSourceCancelled
  | DdOther

definition dd_global :: "u32 \<Rightarrow> string \<Rightarrow> u32 \<Rightarrow> data_device \<Rightarrow> data_device" where
  "dd_global name iface version s =
     (if iface = ''wl_data_device_manager'' \<and> \<not> dd_manager s then
        dd_call [BindGlobal name iface (min version 3)] (s\<lparr>dd_manager := True\<rparr>)
      else if iface = ''wl_seat'' \<and> \<not> dd_seat s then
        dd_call [BindGlobal name iface (min version 5)] (s\<lparr>dd_seat := True\<rparr>)
      else s)"

fun dd_handle :: "dd_input \<Rightarrow> data_device \<Rightarrow> data_device" where
  "dd_handle (DdGlobal name iface version) s = dd_global name iface version s"
| "dd_handle (DdKeyboard serial) s = s\<lparr>latest_serial := Some serial\<rparr>"
| "dd_handle (DdDataOffer i) s = s\<lparr>dd_pending := AList.update i [] (dd_pending s)\<rparr>"
| "dd_handle (DdOfferMime i m) s = s\<lparr>dd_pending := add_mime i m (dd_pending s)\<rparr>"
| "dd_handle (DdSelection x) s = dd_on_selection x s"
| "dd_handle (DdSourceSend m fd) s = dd_event (HostSendRequest KClipboard m fd None) s"
| "dd_handle DdSourceCancelled s = dd_source_cancelled s"
| "dd_handle DdOther s = s"

definition dd_initial :: data_device where
  "dd_initial = \<lparr>dd_manager = False, dd_seat = False, dd_keyboard = False, dd_device = False, latest_serial = None,
     dd_offer = None, dd_pending = [], dd_source = None, dd_events = [], dd_suppress = 0, dd_calls = []\<rparr>"

definition dd_new :: "dd_input list option \<Rightarrow> dd_input list option \<Rightarrow> data_device option" where
  "dd_new globals initial =
     (case globals of
        None \<Rightarrow> None
      | Some evs \<Rightarrow>
          (let s = fold dd_handle evs dd_initial;
               s1 = (if dd_manager s \<and> dd_seat s then s\<lparr>dd_device := True, dd_keyboard := True\<rparr> else s) in
           if \<not> dd_device s1 then None
           else map_option (\<lambda>evs. fold dd_handle evs s1) initial))"

definition dd_take_events :: "data_device \<Rightarrow> clipboard_event list \<times> data_device" where
  "dd_take_events s = (dd_events s, s\<lparr>dd_events := []\<rparr>)"

definition dd_receive_from_host :: "selection_kind \<Rightarrow> string \<Rightarrow> nat \<Rightarrow> data_device \<Rightarrow> data_device" where
  "dd_receive_from_host kind m fd s =
     (if kind \<noteq> KClipboard then dd_call [WlCloseFd fd] s
      else dd_call ((case dd_offer s of Some i \<Rightarrow> [OfferReceive i m fd] | None \<Rightarrow> []) @ [WlCloseFd fd]) s)"

definition dd_set_host_selection :: "nat \<Rightarrow> selection_kind \<Rightarrow> string list \<Rightarrow> data_device \<Rightarrow> data_device" where
  "dd_set_host_selection new kind mime_types s =
     (if kind \<noteq> KClipboard \<or> \<not> dd_manager s \<or> \<not> dd_device s then s
      else case latest_serial s of
        None \<Rightarrow> s
      | Some serial \<Rightarrow>
          (let s1 = dd_call (CreateSource new KClipboard # map (SourceOffer new) mime_types @
                 [SetSelection KClipboard (Some new) (Some serial)] @ dd_destroy_source (dd_source s)) s in
           s1\<lparr>dd_source := Some new, dd_suppress := dd_suppress s1 + 1\<rparr>))"

definition dd_clear_host_selection :: "selection_kind \<Rightarrow> data_device \<Rightarrow> data_device" where
  "dd_clear_host_selection kind s =
     (if kind \<noteq> KClipboard \<or> \<not> dd_device s then s
      else case latest_serial s of
        None \<Rightarrow> s
      | Some serial \<Rightarrow>
          (let s1 = dd_call (SetSelection KClipboard None (Some serial) # dd_destroy_source (dd_source s)) s in
           s1\<lparr>dd_source := None, dd_suppress := dd_suppress s1 + 1\<rparr>))"

definition dd_drop :: "data_device \<Rightarrow> data_device" where
  "dd_drop s = dd_call (destroy_offer (dd_offer s) @ dd_destroy_source (dd_source s) @
       (if dd_device s then [ReleaseDevice] else []) @ (if dd_keyboard s then [ReleaseKeyboard] else []))
     (s\<lparr>dd_offer := None, dd_source := None, dd_device := False, dd_keyboard := False\<rparr>)"

end
