(* ===== verification/Clip_Wayland_Props.thy ===== *)
theory Clip_Wayland_Props
  imports Clip_Wayland
begin

text \<open>
  The Wayland back ends keep the contract of a back end, never meet the panic on mixed protocols, free
  every protocol object once, and report exactly the changes made by others on the host as long as
  the echoes of our own changes arrive before the next foreign change.
\<close>

section \<open>Ignoring one's own changes\<close>

text \<open>An offer with its types; what happens to one selection: our own request, its echo, a foreign
  change, and whatever concerns something else.\<close>

type_synonym offer = "(nat \<times> string list) option"

datatype ('o, 'x) sel_item = Own 'o | Echo offer | Foreign offer | Elsewhere 'x

definition offer_mimes :: "offer \<Rightarrow> string list" where
  "offer_mimes x = (case x of None \<Rightarrow> [] | Some (i, ms) \<Rightarrow> ms)"

text \<open>With \<open>n\<close> echoes outstanding, no foreign change arrives before they have.\<close>

fun in_step :: "nat \<Rightarrow> ('o, 'x) sel_item list \<Rightarrow> bool" where
  "in_step n [] = True"
| "in_step n (Own r # xs) = in_step (n + 1) xs"
| "in_step n (Echo x # xs) = (0 < n \<and> in_step (n - 1) xs)"
| "in_step n (Foreign x # xs) = (n = 0 \<and> in_step n xs)"
| "in_step n (Elsewhere x # xs) = in_step n xs"

fun foreign_mimes :: "('o, 'x) sel_item list \<Rightarrow> string list list" where
  "foreign_mimes [] = []"
| "foreign_mimes (Foreign x # xs) = offer_mimes x # foreign_mimes xs"
| "foreign_mimes (y # xs) = foreign_mimes xs"

fun on_item ::
  "('o \<Rightarrow> 's \<Rightarrow> 's) \<Rightarrow> (offer \<Rightarrow> 's \<Rightarrow> 's) \<Rightarrow> ('x \<Rightarrow> 's \<Rightarrow> 's) \<Rightarrow> ('o, 'x) sel_item \<Rightarrow> 's \<Rightarrow> 's" where
  "on_item ow ar el (Own r) s = ow r s"
| "on_item ow ar el (Echo x) s = ar x s"
| "on_item ow ar el (Foreign x) s = ar x s"
| "on_item ow ar el (Elsewhere x) s = el x s"

locale echo_filter =
  fixes own :: "'o \<Rightarrow> 's \<Rightarrow> 's" and arrive :: "offer \<Rightarrow> 's \<Rightarrow> 's" and elsewhere :: "'x \<Rightarrow> 's \<Rightarrow> 's"
    and outstanding :: "'s \<Rightarrow> nat" and told :: "'s \<Rightarrow> string list list" and ready :: "'s \<Rightarrow> bool"
  assumes own_law: "ready s \<Longrightarrow> outstanding s + 1 < 2 ^ 32 \<Longrightarrow>
      ready (own r s) \<and> outstanding (own r s) = outstanding s + 1 \<and> told (own r s) = told s"
    and arrive_law: "ready s \<Longrightarrow> ready (arrive x s) \<and> outstanding (arrive x s) = outstanding s - 1 \<and>
      told (arrive x s) = told s @ (if outstanding s = 0 then [offer_mimes x] else [])"
    and elsewhere_law: "ready s \<Longrightarrow> ready (elsewhere y s) \<and> outstanding (elsewhere y s) = outstanding s \<and>
      told (elsewhere y s) = told s"
begin

lemma reports_foreign:
  assumes "ready s" and "in_step (outstanding s) xs" and "outstanding s + length xs < 2 ^ 32"
  shows "told (fold (on_item own arrive elsewhere) xs s) = told s @ foreign_mimes xs"
  using assms
proof (induction xs arbitrary: s)
  case (Cons x xs)
  then show ?case
    by (cases x) (auto simp: own_law arrive_law elsewhere_law)
qed simp

text \<open>Otherwise the foreign change is dropped and the echo is reported in its place.\<close>

lemma race:
  assumes "ready s" and "outstanding s = 0"
  shows "told (fold (on_item own arrive elsewhere) [Own r, Foreign x, Echo y] s) = told s @ [offer_mimes y]"
  using assms own_law [of s r] by (simp add: arrive_law)

end

section \<open>Data control\<close>

lemma dc_fields [simp]:
  "dc_events (dc_call cs s) = dc_events s" "dc_calls (dc_call cs s) = dc_calls s @ cs"
  "dc_manager (dc_call cs s) = dc_manager s" "dc_device (dc_call cs s) = dc_device s"
  "dc_suppress k (dc_call cs s) = dc_suppress k s" "source_slot k (dc_call cs s) = source_slot k s"
  "offer_slot k (dc_call cs s) = offer_slot k s"
  "dc_events (dc_event ev s) = dc_events s @ [ev]" "dc_calls (dc_event ev s) = dc_calls s"
  "dc_manager (dc_event ev s) = dc_manager s" "dc_device (dc_event ev s) = dc_device s"
  "dc_suppress k (dc_event ev s) = dc_suppress k s" "source_slot k (dc_event ev s) = source_slot k s"
  "offer_slot k (dc_event ev s) = offer_slot k s"
  "dc_pending (dc_call cs s) = dc_pending s"
  by (cases k; simp add: dc_call_def dc_event_def)+

lemma dc_slots [simp]:
  "dc_events (set_offer_slot k x s) = dc_events s" "dc_calls (set_offer_slot k x s) = dc_calls s"
  "dc_manager (set_offer_slot k x s) = dc_manager s" "dc_device (set_offer_slot k x s) = dc_device s"
  "dc_suppress j (set_offer_slot k x s) = dc_suppress j s" "source_slot j (set_offer_slot k x s) = source_slot j s"
  "offer_slot j (set_offer_slot k x s) = (if j = k then x else offer_slot j s)"
  "dc_events (set_source_slot k y s) = dc_events s" "dc_calls (set_source_slot k y s) = dc_calls s"
  "dc_manager (set_source_slot k y s) = dc_manager s" "dc_device (set_source_slot k y s) = dc_device s"
  "dc_suppress j (set_source_slot k y s) = dc_suppress j s" "offer_slot j (set_source_slot k y s) = offer_slot j s"
  "source_slot j (set_source_slot k y s) = (if j = k then y else source_slot j s)"
  "dc_events (set_dc_suppress k n s) = dc_events s" "dc_calls (set_dc_suppress k n s) = dc_calls s"
  "dc_manager (set_dc_suppress k n s) = dc_manager s" "dc_device (set_dc_suppress k n s) = dc_device s"
  "dc_suppress j (set_dc_suppress k n s) = (if j = k then n else dc_suppress j s)"
  "source_slot j (set_dc_suppress k n s) = source_slot j s" "offer_slot j (set_dc_suppress k n s) = offer_slot j s"
  by (cases j; cases k; simp)+

lemma dc_pending_frames [simp]:
  "dc_suppress k (s\<lparr>dc_pending := p\<rparr>) = dc_suppress k s" "source_slot k (s\<lparr>dc_pending := p\<rparr>) = source_slot k s"
  "offer_slot k (s\<lparr>dc_pending := p\<rparr>) = offer_slot k s"
  by (cases k; simp)+

definition dc_matched :: "data_control \<Rightarrow> bool" where
  "dc_matched s \<longleftrightarrow> dc_device s = None \<or> dc_device s = dc_manager s"

lemma dc_set_cases:
  assumes "dc_matched s"
  shows "dc_set_host_selection new k ms s =
    Some (case dc_device s of None \<Rightarrow> s | Some dev \<Rightarrow> set_dc_suppress k (dc_suppress k s + 1)
      (dc_call (CreateSource new k # map (SourceOffer new) ms @ [SetSelection k (Some new) None] @ destroy_source (source_slot k s))
        (set_source_slot k (Some (dev, new)) s)))"
  using assms
  by (cases k; auto simp: dc_set_host_selection_def dc_matched_def device_set_selection_def Let_def dc_call_def split: option.split)

lemma dc_clear_cases:
  "dc_clear_host_selection k s =
    Some (case dc_device s of None \<Rightarrow> s | Some dev \<Rightarrow> set_dc_suppress k (dc_suppress k s + 1)
      (dc_call (SetSelection k None None # destroy_source (source_slot k s)) (set_source_slot k None s)))"
  by (cases k; simp add: dc_clear_host_selection_def device_set_selection_def dc_call_def split: option.split)

text \<open>Our own requests, \<open>None\<close> being \<open>clear_host_selection\<close>.\<close>

definition dc_own :: "selection_kind \<Rightarrow> offer \<Rightarrow> data_control \<Rightarrow> data_control option" where
  "dc_own k r s = (case r of Some (new, ms) \<Rightarrow> dc_set_host_selection new k ms s | None \<Rightarrow> dc_clear_host_selection k s)"

text \<open>A selection event with the offer that precedes it.\<close>

definition dc_arrival :: "selection_kind \<Rightarrow> offer \<Rightarrow> dc_input list" where
  "dc_arrival k x =
     (case x of None \<Rightarrow> [DcSelection k None]
      | Some (i, ms) \<Rightarrow> DcDataOffer i # map (DcOfferMime i) ms @ [DcSelection k (Some i)])"

datatype dc_elsewhere =
    ESourceSend selection_kind string nat
  | ESourceCancelled selection_kind
  | EReceive selection_kind string nat
  | EOtherSelection offer

fun other_kind :: "selection_kind \<Rightarrow> selection_kind" where
  "other_kind KClipboard = KPrimary"
| "other_kind KPrimary = KClipboard"

fun dc_else :: "selection_kind \<Rightarrow> dc_elsewhere \<Rightarrow> data_control \<Rightarrow> data_control" where
  "dc_else k (ESourceSend role m fd) s = dc_handle (DcSourceSend role m fd) s"
| "dc_else k (ESourceCancelled role) s = dc_handle (DcSourceCancelled role) s"
| "dc_else k (EReceive j m fd) s = dc_receive_from_host j m fd s"
| "dc_else k (EOtherSelection x) s = fold dc_handle (dc_arrival (other_kind k) x) s"

definition changes_of :: "selection_kind \<Rightarrow> clipboard_event list \<Rightarrow> string list list" where
  "changes_of k evs = concat (map (\<lambda>ev. case ev of HostSelectionChanged j ms \<Rightarrow> if j = k then [ms] else [] | _ \<Rightarrow> []) evs)"

lemma changes_of_append [simp]: "changes_of k (xs @ ys) = changes_of k xs @ changes_of k ys"
  by (simp add: changes_of_def)

lemma changes_of_event [simp]:
  "changes_of k [] = []" "changes_of k [HostSelectionChanged j ms] = (if j = k then [ms] else [])"
  "changes_of k [HostSendRequest j m fd c] = []" "changes_of k [SourceCancelled j] = []"
  by (simp_all add: changes_of_def)

lemma add_mimes: "map_of p i = Some ms0 \<Longrightarrow> map_of (fold (add_mime i) ms p) i = Some (ms0 @ ms)"
  by (induction ms arbitrary: p ms0) (simp_all add: add_mime_def update_conv')

lemma handle_mimes: "fold dc_handle (map (DcOfferMime i) ms) s = s\<lparr>dc_pending := fold (add_mime i) ms (dc_pending s)\<rparr>"
  by (induction ms arbitrary: s) simp_all

lemma arrival_cases:
  "\<exists>p. fold dc_handle (dc_arrival k x) s = dc_on_selection k (map_option fst x) (s\<lparr>dc_pending := p\<rparr>) \<and>
    offered (map_option fst x) p = offer_mimes x"
proof (cases x)
  case (Some im)
  obtain i ms where im: "im = (i, ms)" by force
  show ?thesis
    by (rule exI [of _ "fold (add_mime i) ms (AList.update i [] (dc_pending s))"])
      (simp add: Some im dc_arrival_def handle_mimes offered_def offer_mimes_def add_mimes update_conv')
qed (auto simp: dc_arrival_def offered_def offer_mimes_def intro: exI [of _ "dc_pending s"])

lemma arrival_effect:
  fixes s :: data_control and k :: selection_kind and x :: offer
  defines "s' \<equiv> fold dc_handle (dc_arrival k x) s"
  shows "dc_manager s' = dc_manager s" "dc_device s' = dc_device s"
    and "dc_suppress j s' = (if j = k then (if 0 < dc_suppress k s then dc_suppress k s - 1 else 0) else dc_suppress j s)"
    and "changes_of j (dc_events s') =
      changes_of j (dc_events s) @ (if j = k \<and> dc_suppress k s = 0 then [offer_mimes x] else [])"
proof -
  obtain p where p: "s' = dc_on_selection k (map_option fst x) (s\<lparr>dc_pending := p\<rparr>)"
    "offered (map_option fst x) p = offer_mimes x"
    using arrival_cases [of k x s] unfolding s'_def by blast
  show "dc_manager s' = dc_manager s" "dc_device s' = dc_device s"
    by (simp_all add: p(1) dc_on_selection_def Let_def)
  show "dc_suppress j s' = (if j = k then (if 0 < dc_suppress k s then dc_suppress k s - 1 else 0) else dc_suppress j s)"
    by (auto simp: p(1) dc_on_selection_def Let_def word_gt_0)
  show "changes_of j (dc_events s') =
      changes_of j (dc_events s) @ (if j = k \<and> dc_suppress k s = 0 then [offer_mimes x] else [])"
    by (auto simp: p dc_on_selection_def Let_def word_gt_0)
qed

definition dc_ready :: "data_control \<Rightarrow> bool" where
  "dc_ready s \<longleftrightarrow> (\<exists>pr. dc_device s = Some pr \<and> dc_manager s = Some pr)"

interpretation dce: echo_filter "\<lambda>r s. the (dc_own k r s)" "\<lambda>x. fold dc_handle (dc_arrival k x)" "dc_else k"
  "\<lambda>s. unat (dc_suppress k s)" "\<lambda>s. changes_of k (dc_events s)" dc_ready for k
proof
  fix s :: data_control and r :: offer assume r: "dc_ready s" "unat (dc_suppress k s) + 1 < 2 ^ 32"
  then have m: "dc_matched s" by (auto simp: dc_ready_def dc_matched_def)
  have "unat (dc_suppress k s + 1) = unat (dc_suppress k s) + 1"
    using r(2) by (simp add: unat_word_ariths(1))
  then show "dc_ready (the (dc_own k r s)) \<and> unat (dc_suppress k (the (dc_own k r s))) = unat (dc_suppress k s) + 1 \<and>
      changes_of k (dc_events (the (dc_own k r s))) = changes_of k (dc_events s)"
    using r(1) by (auto simp: dc_own_def dc_set_cases [OF m] dc_clear_cases dc_ready_def split: option.splits)
next
  fix s :: data_control and x :: offer assume "dc_ready s"
  then show "dc_ready (fold dc_handle (dc_arrival k x) s) \<and>
      unat (dc_suppress k (fold dc_handle (dc_arrival k x) s)) = unat (dc_suppress k s) - 1 \<and>
      changes_of k (dc_events (fold dc_handle (dc_arrival k x) s)) =
        changes_of k (dc_events s) @ (if unat (dc_suppress k s) = 0 then [offer_mimes x] else [])"
    by (auto simp: dc_ready_def arrival_effect unat_minus_one word_gt_0 unat_eq_0)
next
  fix s :: data_control and y assume "dc_ready s"
  then show "dc_ready (dc_else k y s) \<and> unat (dc_suppress k (dc_else k y s)) = unat (dc_suppress k s) \<and>
      changes_of k (dc_events (dc_else k y s)) = changes_of k (dc_events s)"
    by (cases y; cases k) (auto simp: dc_ready_def arrival_effect dc_source_cancelled_def dc_receive_from_host_def)
qed

section \<open>Data device\<close>

definition dd_arrival :: "offer \<Rightarrow> dd_input list" where
  "dd_arrival x =
     (case x of None \<Rightarrow> [DdSelection None]
      | Some (i, ms) \<Rightarrow> DdDataOffer i # map (DdOfferMime i) ms @ [DdSelection (Some i)])"

definition dd_own :: "offer \<Rightarrow> data_device \<Rightarrow> data_device" where
  "dd_own r s = (case r of Some (new, ms) \<Rightarrow> dd_set_host_selection new KClipboard ms s
     | None \<Rightarrow> dd_clear_host_selection KClipboard s)"

datatype dd_elsewhere = DSourceSend string nat | DSourceCancelled | DReceive selection_kind string nat | DKeyboard u32

fun dd_else :: "dd_elsewhere \<Rightarrow> data_device \<Rightarrow> data_device" where
  "dd_else (DSourceSend m fd) s = dd_handle (DdSourceSend m fd) s"
| "dd_else DSourceCancelled s = dd_handle DdSourceCancelled s"
| "dd_else (DReceive k m fd) s = dd_receive_from_host k m fd s"
| "dd_else (DKeyboard serial) s = dd_handle (DdKeyboard serial) s"

lemma dd_fields [simp]:
  "dd_events (dd_call cs s) = dd_events s" "dd_calls (dd_call cs s) = dd_calls s @ cs"
  "dd_manager (dd_call cs s) = dd_manager s" "dd_device (dd_call cs s) = dd_device s"
  "latest_serial (dd_call cs s) = latest_serial s" "dd_suppress (dd_call cs s) = dd_suppress s"
  "dd_events (dd_event ev s) = dd_events s @ [ev]" "dd_calls (dd_event ev s) = dd_calls s"
  "dd_manager (dd_event ev s) = dd_manager s" "dd_device (dd_event ev s) = dd_device s"
  "latest_serial (dd_event ev s) = latest_serial s" "dd_suppress (dd_event ev s) = dd_suppress s"
  by (simp_all add: dd_call_def dd_event_def)

lemma dd_handle_mimes: "fold dd_handle (map (DdOfferMime i) ms) s = s\<lparr>dd_pending := fold (add_mime i) ms (dd_pending s)\<rparr>"
  by (induction ms arbitrary: s) simp_all

lemma dd_arrival_cases:
  "\<exists>p. fold dd_handle (dd_arrival x) s = dd_on_selection (map_option fst x) (s\<lparr>dd_pending := p\<rparr>) \<and>
    offered (map_option fst x) p = offer_mimes x"
proof (cases x)
  case (Some im)
  obtain i ms where im: "im = (i, ms)" by force
  show ?thesis
    by (rule exI [of _ "fold (add_mime i) ms (AList.update i [] (dd_pending s))"])
      (simp add: Some im dd_arrival_def dd_handle_mimes offered_def offer_mimes_def add_mimes update_conv')
qed (auto simp: dd_arrival_def offered_def offer_mimes_def intro: exI [of _ "dd_pending s"])

text \<open>An input serial has been seen, so that requests are not put off.\<close>

definition dd_ready :: "data_device \<Rightarrow> bool" where
  "dd_ready s \<longleftrightarrow> dd_manager s \<and> dd_device s \<and> latest_serial s \<noteq> None"

interpretation dde: echo_filter dd_own "\<lambda>x. fold dd_handle (dd_arrival x)" dd_else
  "\<lambda>s. unat (dd_suppress s)" "\<lambda>s. changes_of KClipboard (dd_events s)" dd_ready
proof
  fix s :: data_device and r :: offer assume r: "dd_ready s" "unat (dd_suppress s) + 1 < 2 ^ 32"
  have "unat (dd_suppress s + 1) = unat (dd_suppress s) + 1" using r(2) by (simp add: unat_word_ariths(1))
  then show "dd_ready (dd_own r s) \<and> unat (dd_suppress (dd_own r s)) = unat (dd_suppress s) + 1 \<and>
      changes_of KClipboard (dd_events (dd_own r s)) = changes_of KClipboard (dd_events s)"
    using r(1) by (auto simp: dd_own_def dd_set_host_selection_def dd_clear_host_selection_def dd_ready_def Let_def split: option.splits)
next
  fix s :: data_device and x :: offer assume ready: "dd_ready s"
  obtain p where "fold dd_handle (dd_arrival x) s = dd_on_selection (map_option fst x) (s\<lparr>dd_pending := p\<rparr>)"
    "offered (map_option fst x) p = offer_mimes x" using dd_arrival_cases by blast
  then show "dd_ready (fold dd_handle (dd_arrival x) s) \<and>
      unat (dd_suppress (fold dd_handle (dd_arrival x) s)) = unat (dd_suppress s) - 1 \<and>
      changes_of KClipboard (dd_events (fold dd_handle (dd_arrival x) s)) =
        changes_of KClipboard (dd_events s) @ (if unat (dd_suppress s) = 0 then [offer_mimes x] else [])"
    using ready by (auto simp: dd_on_selection_def Let_def dd_ready_def unat_minus_one word_gt_0 unat_eq_0)
next
  fix s :: data_device and y assume "dd_ready s"
  then show "dd_ready (dd_else y s) \<and> unat (dd_suppress (dd_else y s)) = unat (dd_suppress s) \<and>
      changes_of KClipboard (dd_events (dd_else y s)) = changes_of KClipboard (dd_events s)"
    by (cases y) (auto simp: dd_ready_def dd_source_cancelled_def dd_receive_from_host_def)
qed

section \<open>What is reported\<close>

text \<open>While the echoes of our own changes come before the next change by somebody else, the data-control
  back end reports exactly the changes by others, in order, each with the types offered, whatever
  pastes, transfers and changes of the other selection come in between.\<close>

theorem dc_reports_host_changes:
  assumes "dc_ready s" and "in_step (unat (dc_suppress k s)) xs" and "unat (dc_suppress k s) + length xs < 2 ^ 32"
  shows "changes_of k (dc_events (fold (on_item (\<lambda>r s. the (dc_own k r s)) (\<lambda>x. fold dc_handle (dc_arrival k x)) (dc_else k)) xs s)) =
    changes_of k (dc_events s) @ foreign_mimes xs"
  using assms by (rule dce.reports_foreign)

text \<open>The data-device back end does the same for the clipboard once it has an input serial.\<close>

theorem dd_reports_host_changes:
  assumes "dd_ready s" and "in_step (unat (dd_suppress s)) xs" and "unat (dd_suppress s) + length xs < 2 ^ 32"
  shows "changes_of KClipboard (dd_events (fold (on_item dd_own (\<lambda>x. fold dd_handle (dd_arrival x)) dd_else) xs s)) =
    changes_of KClipboard (dd_events s) @ foreign_mimes xs"
  using assms by (rule dde.reports_foreign)

text \<open>The counter does not know which event is the echo: when a change by somebody else crosses our own
  request, it is dropped, and the echo of our request is reported as a change on the host.\<close>

theorem dc_crossing_changes:
  assumes "dc_ready s" and "dc_suppress k s = 0"
  shows "changes_of k (dc_events (fold (on_item (\<lambda>r s. the (dc_own k r s)) (\<lambda>x. fold dc_handle (dc_arrival k x)) (dc_else k))
      [Own r, Foreign x, Echo y] s)) = changes_of k (dc_events s) @ [offer_mimes y]"
  using assms by (intro dce.race) simp_all

definition demo_control :: data_control where
  "demo_control = dc_initial\<lparr>dc_manager := Some ExtDataControl, dc_device := Some ExtDataControl, dc_seat := True\<rparr>"

theorem dc_reports_host_changes_witness:
  "changes_of KPrimary (dc_events (fold (on_item (\<lambda>r s. the (dc_own KPrimary r s)) (\<lambda>x. fold dc_handle (dc_arrival KPrimary x)) (dc_else KPrimary))
     [Foreign (Some (4, [''a'', ''b''])), Own (Some (5, [''c''])), Elsewhere (EReceive KClipboard ''a'' 8),
      Echo (Some (6, [''c''])), Foreign None] demo_control)) = [[''a'', ''b''], []]"
  using dc_reports_host_changes [of demo_control KPrimary "[Foreign (Some (4, [''a'', ''b''])), Own (Some (5, [''c''])),
      Elsewhere (EReceive KClipboard ''a'' 8), Echo (Some (6, [''c''])), Foreign None]"]
  by (simp add: demo_control_def dc_initial_def dc_ready_def offer_mimes_def)

theorem dc_crossing_changes_witness:
  "changes_of KClipboard (dc_events (fold (on_item (\<lambda>r s. the (dc_own KClipboard r s)) (\<lambda>x. fold dc_handle (dc_arrival KClipboard x)) (dc_else KClipboard))
     [Own (Some (5, [''ours''])), Foreign (Some (4, [''theirs''])), Echo (Some (6, [''ours'']))] demo_control)) = [[''ours'']]"
  using dc_crossing_changes [of demo_control KClipboard "Some (5, [''ours''])" "Some (4, [''theirs''])" "Some (6, [''ours''])"]
  by (simp add: demo_control_def dc_initial_def dc_ready_def offer_mimes_def)

section \<open>Objects and descriptors\<close>

text \<open>Everything that can happen to the data-control back end; \<open>None\<close> is a panic.\<close>

datatype dc_op = DcInput dc_input | DcSet nat selection_kind "string list" | DcClear selection_kind

fun dc_step :: "dc_op \<Rightarrow> data_control \<Rightarrow> data_control option" where
  "dc_step (DcInput ev) s = Some (dc_handle ev s)"
| "dc_step (DcSet new k ms) s = dc_set_host_selection new k ms s"
| "dc_step (DcClear k) s = dc_clear_host_selection k s"

lemma matched_step: "dc_matched s \<Longrightarrow> \<exists>s'. dc_step op s = Some s' \<and> dc_matched s'"
proof (cases op)
  case (DcInput ev)
  moreover have "dc_matched s \<Longrightarrow> dc_matched (dc_global name iface version s)" for name iface version
    by (cases "dc_manager s") (simp_all add: dc_matched_def dc_global_def)
  then have "dc_matched s \<Longrightarrow> dc_matched (dc_handle ev s)"
    by (cases ev) (simp_all add: dc_matched_def dc_on_selection_def dc_source_cancelled_def Let_def)
  ultimately show "dc_matched s \<Longrightarrow> ?thesis" by simp
next
  case (DcSet new k ms)
  then show "dc_matched s \<Longrightarrow> ?thesis"
    by (auto simp: dc_set_cases) (auto simp: dc_matched_def split: option.split)
next
  case (DcClear k)
  then show "dc_matched s \<Longrightarrow> ?thesis" by (auto simp: dc_clear_cases dc_matched_def split: option.split)
qed

fun made :: "wl_call \<Rightarrow> nat list" where
  "made (CreateSource i k) = [i]"
| "made _ = []"

fun sources_destroyed :: "wl_call \<Rightarrow> nat list" where
  "sources_destroyed (SourceDestroy i) = [i]"
| "sources_destroyed _ = []"

fun offers_destroyed :: "wl_call \<Rightarrow> nat list" where
  "offers_destroyed (OfferDestroy i) = [i]"
| "offers_destroyed _ = []"

fun adopted :: "dc_op \<Rightarrow> nat list" where
  "adopted (DcInput (DcSelection k (Some i))) = [i]"
| "adopted _ = []"

definition in_calls :: "(wl_call \<Rightarrow> nat list) \<Rightarrow> data_control \<Rightarrow> nat multiset" where
  "in_calls f s = mset (concat (map f (dc_calls s)))"

definition slots :: "(selection_kind \<Rightarrow> nat option) \<Rightarrow> nat multiset" where
  "slots f = mset (case f KClipboard of None \<Rightarrow> [] | Some i \<Rightarrow> [i]) + mset (case f KPrimary of None \<Rightarrow> [] | Some i \<Rightarrow> [i])"

definition sources_ok :: "data_control \<Rightarrow> bool" where
  "sources_ok s \<longleftrightarrow> in_calls made s = in_calls sources_destroyed s + slots (\<lambda>k. map_option snd (source_slot k s))"

definition offers_seen :: "data_control \<Rightarrow> nat multiset" where
  "offers_seen s = in_calls offers_destroyed s + slots (\<lambda>k. offer_slot k s)"

lemma in_calls_call [simp]:
  "in_calls f (dc_call cs s) = in_calls f s + mset (concat (map f cs))"
  "in_calls f (dc_event ev s) = in_calls f s" "in_calls f (set_offer_slot k x s) = in_calls f s"
  "in_calls f (set_source_slot k y s) = in_calls f s" "in_calls f (set_dc_suppress k n s) = in_calls f s"
  "in_calls f (s\<lparr>dc_pending := p\<rparr>) = in_calls f s" "in_calls f (s\<lparr>dc_device := d\<rparr>) = in_calls f s"
  by (simp_all add: in_calls_def)

lemma destroyed_lists [simp]:
  "concat (map made (destroy_source y)) = []" "concat (map offers_destroyed (destroy_source y)) = []"
  "concat (map made (destroy_offer x)) = []" "concat (map sources_destroyed (destroy_offer x)) = []"
  "concat (map sources_destroyed (destroy_source y)) = (case y of None \<Rightarrow> [] | Some q \<Rightarrow> [snd q])"
  "concat (map offers_destroyed (destroy_offer x)) = (case x of None \<Rightarrow> [] | Some i \<Rightarrow> [i])"
  "concat (map (made \<circ> SourceOffer new) ms) = []" "concat (map (sources_destroyed \<circ> SourceOffer new) ms) = []"
  "concat (map (offers_destroyed \<circ> SourceOffer new) ms) = []"
  by (auto simp: destroy_source_def destroy_offer_def split: option.split)

lemma slots_set: "slots (\<lambda>j. if j = k then x else f j) + mset (case f k of None \<Rightarrow> [] | Some i \<Rightarrow> [i]) =
    slots f + mset (case x of None \<Rightarrow> [] | Some i \<Rightarrow> [i])"
  by (cases k) (simp_all add: slots_def ac_simps)

lemma objects_set:
  assumes "dc_matched s" and "dc_step (DcSet new k ms) s = Some s'" and "sources_ok s"
  shows "sources_ok s' \<and> offers_seen s' = offers_seen s"
proof (cases "dc_device s")
  case None
  then show ?thesis using assms by (simp add: dc_set_cases)
next
  case (Some dev)
  have s': "s' = set_dc_suppress k (dc_suppress k s + 1)
      (dc_call (CreateSource new k # map (SourceOffer new) ms @ [SetSelection k (Some new) None] @ destroy_source (source_slot k s))
        (set_source_slot k (Some (dev, new)) s))"
    using assms(2) by (simp add: dc_set_cases [OF assms(1)] Some)
  have "(\<lambda>j. map_option snd (source_slot j s')) = (\<lambda>j. if j = k then Some new else map_option snd (source_slot j s))"
    by (auto simp: s')
  then show ?thesis
    using assms(3) slots_set [of k "Some new" "\<lambda>j. map_option snd (source_slot j s)"]
    by (cases "source_slot k s") (auto simp: sources_ok_def offers_seen_def s')
qed

lemma objects_clear:
  assumes "dc_step (DcClear k) s = Some s'" and "sources_ok s"
  shows "sources_ok s' \<and> offers_seen s' = offers_seen s"
proof (cases "dc_device s")
  case None
  then show ?thesis using assms by (simp add: dc_clear_cases)
next
  case (Some dev)
  have s': "s' = set_dc_suppress k (dc_suppress k s + 1)
      (dc_call (SetSelection k None None # destroy_source (source_slot k s)) (set_source_slot k None s))"
    using assms(1) by (simp add: dc_clear_cases Some)
  have "(\<lambda>j. map_option snd (source_slot j s')) = (\<lambda>j. if j = k then None else map_option snd (source_slot j s))"
    by (auto simp: s')
  then show ?thesis
    using assms(2) slots_set [of k None "\<lambda>j. map_option snd (source_slot j s)"]
    by (cases "source_slot k s") (auto simp: sources_ok_def offers_seen_def s')
qed

lemma objects_selection:
  assumes "sources_ok s"
  shows "sources_ok (dc_on_selection k x s) \<and>
    offers_seen (dc_on_selection k x s) = offers_seen s + mset (case x of None \<Rightarrow> [] | Some i \<Rightarrow> [i])"
proof -
  let ?s = "dc_on_selection k x s"
  have "(\<lambda>j. offer_slot j ?s) = (\<lambda>j. if j = k then x else offer_slot j s)" "(\<lambda>j. source_slot j ?s) = (\<lambda>j. source_slot j s)"
    by (auto simp: dc_on_selection_def Let_def)
  moreover have "in_calls f ?s = in_calls f s + mset (concat (map f (destroy_offer (offer_slot k s))))" for f
    by (simp add: dc_on_selection_def Let_def)
  ultimately show ?thesis
    using assms slots_set [of k x "\<lambda>j. offer_slot j s"]
    by (cases "offer_slot k s") (auto simp: sources_ok_def offers_seen_def fun_eq_iff ac_simps)
qed

lemma objects_cancelled:
  assumes "sources_ok s"
  shows "sources_ok (dc_source_cancelled k s) \<and> offers_seen (dc_source_cancelled k s) = offers_seen s"
proof -
  let ?s = "dc_source_cancelled k s"
  have "(\<lambda>j. map_option snd (source_slot j ?s)) = (\<lambda>j. if j = k then None else map_option snd (source_slot j s))"
    by (auto simp: dc_source_cancelled_def)
  then show ?thesis
    using assms slots_set [of k None "\<lambda>j. map_option snd (source_slot j s)"]
    by (cases "source_slot k s") (auto simp: sources_ok_def offers_seen_def dc_source_cancelled_def)
qed

lemma slot_cong [simp]:
  "source_slot k (s\<lparr>dc_device := d\<rparr>) = source_slot k s" "offer_slot k (s\<lparr>dc_device := d\<rparr>) = offer_slot k s"
  "source_slot k (s\<lparr>dc_manager := m\<rparr>) = source_slot k s" "offer_slot k (s\<lparr>dc_manager := m\<rparr>) = offer_slot k s"
  "source_slot k (s\<lparr>dc_seat := b\<rparr>) = source_slot k s" "offer_slot k (s\<lparr>dc_seat := b\<rparr>) = offer_slot k s"
  "in_calls f (s\<lparr>dc_manager := m\<rparr>) = in_calls f s" "in_calls f (s\<lparr>dc_seat := b\<rparr>) = in_calls f s"
  by (cases k; simp add: in_calls_def)+

lemma objects_handle:
  assumes "sources_ok s"
  shows "sources_ok (dc_handle ev s) \<and> offers_seen (dc_handle ev s) = offers_seen s + mset (adopted (DcInput ev))"
proof (cases ev)
  case (DcGlobal name iface version)
  have "sources_ok (dc_global name iface version s) \<and> offers_seen (dc_global name iface version s) = offers_seen s"
    using assms by (simp add: dc_global_def sources_ok_def offers_seen_def)
  then show ?thesis by (simp add: DcGlobal)
next
  case (DcSelection k x)
  then show ?thesis using objects_selection [OF assms, of k x] by (cases x) simp_all
next
  case (DcSourceCancelled role)
  then show ?thesis using objects_cancelled [OF assms, of role] by simp
qed (use assms in \<open>simp_all add: sources_ok_def offers_seen_def\<close>)

fun dc_run :: "dc_op list \<Rightarrow> data_control \<Rightarrow> data_control option" where
  "dc_run [] s = Some s"
| "dc_run (op # ops) s = (case dc_step op s of None \<Rightarrow> None | Some s' \<Rightarrow> dc_run ops s')"

lemma objects_run:
  assumes "dc_matched s" and "sources_ok s"
  shows "\<exists>s'. dc_run ops s = Some s' \<and> sources_ok s' \<and> offers_seen s' = offers_seen s + mset (concat (map adopted ops))"
  using assms
proof (induction ops arbitrary: s)
  case (Cons op ops)
  obtain s1 where s1: "dc_step op s = Some s1" "dc_matched s1" using matched_step [OF Cons.prems(1)] by blast
  have "sources_ok s1 \<and> offers_seen s1 = offers_seen s + mset (adopted op)"
    using s1(1) Cons.prems objects_handle [OF Cons.prems(2)] objects_set [OF Cons.prems(1)] objects_clear
    by (cases op) auto
  then show ?case using Cons.IH [OF s1(2)] s1(1) by auto
qed simp

lemma objects_inputs:
  assumes "dc_matched s" and "sources_ok s"
  shows "dc_matched (fold dc_handle evs s) \<and> sources_ok (fold dc_handle evs s) \<and>
    offers_seen (fold dc_handle evs s) = offers_seen s + mset (concat (map (adopted \<circ> DcInput) evs))"
  using assms
proof (induction evs arbitrary: s)
  case (Cons ev evs)
  have "dc_matched (dc_handle ev s)" using matched_step [OF Cons.prems(1), of "DcInput ev"] by simp
  then show ?case using Cons.IH [of "dc_handle ev s"] objects_handle [OF Cons.prems(2), of ev] by simp
qed simp

lemma dc_new_facts:
  assumes "dc_new (Some globals) (Some initial) = Some s"
  shows "dc_matched s \<and> sources_ok s \<and> offers_seen s = mset (concat (map (adopted \<circ> DcInput) (globals @ initial)))"
proof -
  have "dc_matched dc_initial \<and> sources_ok dc_initial \<and> offers_seen dc_initial = {#}"
    by (simp add: dc_initial_def dc_matched_def sources_ok_def offers_seen_def in_calls_def slots_def)
  then have g: "sources_ok (fold dc_handle globals dc_initial)"
      "offers_seen (fold dc_handle globals dc_initial) = mset (concat (map (adopted \<circ> DcInput) globals))"
    using objects_inputs [of dc_initial globals] by simp_all
  let ?s = "(fold dc_handle globals dc_initial)\<lparr>dc_device := dc_manager (fold dc_handle globals dc_initial)\<rparr>"
  have "dc_device (fold dc_handle globals dc_initial) = None"
  proof -
    have "dc_device (dc_handle ev s') = None" if "dc_device s' = None" for ev s'
      using that by (cases ev) (simp_all add: dc_global_def dc_on_selection_def dc_source_cancelled_def Let_def)
    then have "dc_device (fold dc_handle evs s') = None" if "dc_device s' = None" for evs s'
      using that by (induction evs arbitrary: s') simp_all
    then show ?thesis by (simp add: dc_initial_def)
  qed
  then have "s = fold dc_handle initial ?s" using assms by (simp add: dc_new_def Let_def split: if_splits)
  moreover have "dc_matched ?s" "sources_ok ?s" "offers_seen ?s = offers_seen (fold dc_handle globals dc_initial)"
    using g(1) by (simp_all add: dc_matched_def sources_ok_def offers_seen_def)
  ultimately show ?thesis using objects_inputs [of ?s initial] g by simp
qed

text \<open>C26. The data-control back end never reaches its panic on mixed protocols and frees what it makes: after any
  run from a successful start, dropping it leaves every source it created and every offer a
  selection event brought destroyed exactly once.\<close>

theorem dc_objects_freed:
  assumes "dc_new (Some globals) (Some initial) = Some s"
  shows "\<exists>s'. dc_run ops s = Some s' \<and>
    in_calls made (dc_drop s') = in_calls sources_destroyed (dc_drop s') \<and>
    in_calls offers_destroyed (dc_drop s') = mset (concat (map adopted (map DcInput (globals @ initial) @ ops)))"
proof -
  note new = dc_new_facts [OF assms]
  obtain s' where s': "dc_run ops s = Some s'" "sources_ok s'" "offers_seen s' = offers_seen s + mset (concat (map adopted ops))"
    using objects_run [of s ops] new by blast
  have "in_calls f (dc_drop s') = in_calls f s' + mset (concat (map f (destroy_offer (clipboard_offer s') @ destroy_offer (primary_offer s') @
      destroy_source (clipboard_source s') @ destroy_source (primary_source s'))))" for f
    by (simp add: dc_drop_def in_calls_def dc_call_def)
  then show ?thesis
    using s' new by (intro exI [of _ s']) (auto simp: sources_ok_def offers_seen_def slots_def split: option.splits)
qed

definition demo_globals :: "dc_input list" where
  "demo_globals = [DcGlobal 1 ''ext_data_control_manager_v1'' 1, DcGlobal 2 ''zwlr_data_control_manager_v1'' 2, DcGlobal 3 ''wl_seat'' 7]"

theorem dc_objects_freed_witness:
  "\<exists>s s'. dc_new (Some demo_globals) (Some [DcDataOffer 4, DcOfferMime 4 ''a'', DcSelection KClipboard (Some 4)]) = Some s \<and>
     dc_run [DcSet 5 KClipboard [''b''], DcSet 6 KClipboard [''c''], DcClear KPrimary] s = Some s' \<and>
     in_calls offers_destroyed (dc_drop s') = {#4#}"
proof -
  obtain s where s: "dc_new (Some demo_globals) (Some [DcDataOffer 4, DcOfferMime 4 ''a'', DcSelection KClipboard (Some 4)]) = Some s"
    by (simp add: demo_globals_def dc_new_def dc_global_def dc_initial_def dc_call_def)
  show ?thesis
    using dc_objects_freed [OF s, of "[DcSet 5 KClipboard [''b''], DcSet 6 KClipboard [''c''], DcClear KPrimary]"] s
    by (auto simp: demo_globals_def)
qed

section \<open>The contract of a back end\<close>

fun wl_closed :: "wl_call \<Rightarrow> nat list" where
  "wl_closed (WlCloseFd fd) = [fd]"
| "wl_closed _ = []"

lemma wl_closed_lists [simp]:
  "concat (map wl_closed (destroy_source y)) = []" "concat (map wl_closed (destroy_offer x)) = []"
  "concat (map wl_closed (dd_destroy_source x)) = []" "concat (map (wl_closed \<circ> SourceOffer new) ms) = []"
  by (auto simp: destroy_source_def destroy_offer_def dd_destroy_source_def split: option.split)

lemma events_only [simp]:
  "dc_events (s\<lparr>dc_pending := p\<rparr>) = dc_events s"
  by simp

lemma dc_other_law:
  assumes "dc_matched s"
  shows "dc_matched (the (dc_step op s)) \<and> in_calls wl_closed (the (dc_step op s)) = in_calls wl_closed s \<and>
    (\<exists>evs. dc_events (the (dc_step op s)) = dc_events s @ evs)"
proof -
  have "dc_matched (the (dc_step op s))" using matched_step [OF assms, of op] by auto
  moreover have "in_calls wl_closed (the (dc_step op s)) = in_calls wl_closed s \<and>
    (\<exists>evs. dc_events (the (dc_step op s)) = dc_events s @ evs)"
  proof (cases op)
    case (DcInput ev)
    have "in_calls wl_closed (dc_global n i v s) = in_calls wl_closed s \<and> dc_events (dc_global n i v s) = dc_events s" for n i v
      by (simp add: dc_global_def)
    then show ?thesis
      by (cases ev) (simp_all add: DcInput dc_on_selection_def dc_source_cancelled_def Let_def)
  next
    case (DcSet new k ms)
    then show ?thesis by (auto simp: dc_set_cases [OF assms] split: option.split)
  next
    case (DcClear k)
    then show ?thesis by (auto simp: dc_clear_cases split: option.split)
  qed
  ultimately show ?thesis by blast
qed

interpretation dcb: clipboard_backend "\<lambda>_ :: unit. dc_receive_from_host" dc_take_events "\<lambda>op s. the (dc_step op s)"
  "in_calls wl_closed" dc_events dc_matched
proof
  show "dc_matched s \<Longrightarrow> dc_matched (dc_receive_from_host k m fd s) \<and>
      in_calls wl_closed (dc_receive_from_host k m fd s) = add_mset fd (in_calls wl_closed s) \<and>
      dc_events (dc_receive_from_host k m fd s) = dc_events s" for s k m fd
    by (auto simp: dc_receive_from_host_def dc_matched_def split: option.split)
  show "dc_matched s \<Longrightarrow> fst (dc_take_events s) = dc_events s \<and> dc_matched (snd (dc_take_events s)) \<and>
      in_calls wl_closed (snd (dc_take_events s)) = in_calls wl_closed s \<and> dc_events (snd (dc_take_events s)) = []" for s
    by (simp add: dc_take_events_def dc_matched_def in_calls_def)
qed (rule dc_other_law)

datatype dd_op = DdInput dd_input | DdSet nat selection_kind "string list" | DdClear selection_kind

fun dd_step :: "dd_op \<Rightarrow> data_device \<Rightarrow> data_device" where
  "dd_step (DdInput ev) s = dd_handle ev s"
| "dd_step (DdSet new k ms) s = dd_set_host_selection new k ms s"
| "dd_step (DdClear k) s = dd_clear_host_selection k s"

definition dd_closed :: "data_device \<Rightarrow> nat multiset" where
  "dd_closed s = mset (concat (map wl_closed (dd_calls s)))"

lemma dd_closed_simps [simp]:
  "dd_closed (dd_call cs s) = dd_closed s + mset (concat (map wl_closed cs))" "dd_closed (dd_event ev s) = dd_closed s"
  "dd_closed (s\<lparr>dd_pending := p\<rparr>) = dd_closed s" "dd_closed (s\<lparr>dd_offer := x\<rparr>) = dd_closed s"
  "dd_closed (s\<lparr>dd_suppress := n\<rparr>) = dd_closed s" "dd_closed (s\<lparr>dd_source := x\<rparr>) = dd_closed s"
  "dd_closed (s\<lparr>latest_serial := i\<rparr>) = dd_closed s" "dd_closed (s\<lparr>dd_manager := b\<rparr>) = dd_closed s"
  "dd_closed (s\<lparr>dd_seat := b\<rparr>) = dd_closed s"
  by (simp_all add: dd_closed_def)

lemma dd_other_law: "dd_closed (dd_step op s) = dd_closed s \<and> (\<exists>evs. dd_events (dd_step op s) = dd_events s @ evs)"
proof (cases op)
  case (DdInput ev)
  have "dd_closed (dd_global n i v s) = dd_closed s \<and> dd_events (dd_global n i v s) = dd_events s" for n i v
    by (simp add: dd_global_def)
  then show ?thesis
    by (cases ev) (simp_all add: DdInput dd_on_selection_def dd_source_cancelled_def Let_def)
next
  case (DdSet new k ms)
  then show ?thesis by (auto simp: dd_set_host_selection_def Let_def dd_closed_def dd_call_def split: option.split)
next
  case (DdClear k)
  then show ?thesis by (auto simp: dd_clear_host_selection_def Let_def dd_closed_def dd_call_def split: option.split)
qed

interpretation ddb: clipboard_backend "\<lambda>_ :: unit. dd_receive_from_host" dd_take_events dd_step dd_closed dd_events "\<lambda>_. True"
proof
  show "True \<and> dd_closed (dd_receive_from_host k m fd s) = add_mset fd (dd_closed s) \<and>
      dd_events (dd_receive_from_host k m fd s) = dd_events s" for s k m fd
    by (auto simp: dd_receive_from_host_def split: option.split)
qed (simp_all add: dd_take_events_def dd_closed_def [of "_\<lparr>dd_events := _\<rparr>"] dd_other_law, simp add: dd_closed_def)

end
