(* ===== verification/Spec2Isabelle.thy ===== *)
theory Spec2Isabelle
  imports Key_Cast_Props Skeleton_Props Frame_Views_Props Splash_Props Jelly_Props Emez_Props Pointer_Clicks Dbus_Bridge_Props Satellite_Props Start_Up Proxy_Props Ipc Ime_Facts Host_State Selection Recorder Focus_Props Window_Props Ws_Props Effect_Chain Overlay_Props Bar_Props Clip_Incr Clip_Wayland_Props
begin

text \<open>
  Verification of emskin, a nested Wayland compositor that runs as a window of the host and shows
  Emacs full screen, with the windows of other programs embedded in Emacs buffers. Emacs tells it
  over a socket where each window belongs; each Emacs frame is a workspace.

  \<^bold>\<open>Parts of the program and the theories that model them\<close> (paths under \<open>src/crates\<close>).

  \<^item> \<^bold>\<open>The D-Bus broker\<close> (\<open>emskin-dbus\<close>) sits between the embedded programs and the session bus and
    answers the calls to fcitx5 itself. \<open>Sasl\<close> is \<open>wire/sasl.rs\<close> (the scanner that finds the end of
    the handshake); \<open>Wire_Frame\<close>, \<open>Frame_Facts\<close> are \<open>wire/frame.rs\<close> (sizes, parsing, building);
    \<open>Broker_State\<close> is \<open>broker/state.rs\<close> (the machine that cuts a byte stream into frames);
    \<open>Fcitx\<close> is \<open>fcitx.rs\<close> (which calls are meant, input contexts, replies); \<open>Signals\<close>,
    \<open>Proxy_Queue\<close>, \<open>Proxy\<close> are \<open>proxy/\<close> (signals to input contexts, packets with descriptors and
    partial writes, the two pumps of a connection). \<open>Proxy_Facts\<close> and \<open>Proxy_Props\<close> show that the
    broker is transparent: over any run the bus gets the client's stream without the intercepted
    calls, the client gets the bus's stream and the replies, whatever the chunking and whatever
    the kernel does; and the two stalls that exist.
  \<^item> \<^bold>\<open>The link to Emacs\<close> (\<open>emskin/src/ipc\<close>): \<open>Framing\<close> (length-prefixed frames, shared with other
    streams), \<open>Ipc\<close> (messages, buffers, the server); \<open>Dispatch\<close> is \<open>dispatch.rs\<close>, what each message
    does to the compositor.
  \<^item> \<^bold>\<open>The compositor\<close> (\<open>emskin/src/state\<close>, \<open>handlers\<close>, \<open>tick.rs\<close>, \<open>winit.rs\<close>, \<open>input.rs\<close>). \<open>World\<close>
    names smithay's operations; \<open>Apps\<close> is the table of embedded windows; \<open>Host_State\<close> the cursor,
    Emacs and the saved focus; \<open>Ime\<close> and \<open>Ime_Facts\<close> the input-method bridge; \<open>Selection\<close> the
    clipboard's routing; \<open>Recorder\<close> screen recording; \<open>Overlays\<close>, \<open>Overlay_Props\<close> and
    \<open>Effect_Chain\<close> the overlays (\<open>effect-plugins\<close>, \<open>effect-core\<close>); \<open>Ws_Protocol\<close>, \<open>Ws_Facts\<close>,
    \<open>Ws_Batch\<close> the server side of ext-workspace-v1. \<open>Compositor\<close> is the whole state \<open>EmskinState\<close> as
    one record, with the workspace switch, destruction and relayout; \<open>Shell\<close> the requests of
    clients and the keyboard; \<open>Tick\<close> one pass of the event loop; \<open>Host_Loop\<close> the events of the host
    window; \<open>Hit_Test\<close> and \<open>Pointer\<close> the pointer, its constraints, the drag of a dialog, popups.
    \<open>Runs\<close> and \<open>Host_Facts\<close> prove the invariant that every handler keeps (\<open>emskin_wf\<close>); \<open>Desk\<close> gives
    the abstract view, a table of workspaces in which the active one is not special, and the
    refinement lemmas; \<open>Frames\<close>, \<open>Compositor_Props\<close>, \<open>Window_Props\<close>, \<open>Focus_Props\<close>, \<open>Ws_Props\<close>,
    \<open>Pointer_Props\<close>, \<open>Pointer_Clicks\<close> state the properties.
  \<^item> \<^bold>\<open>Around the compositor\<close>: \<open>Dbus_Bridge\<close> (\<open>state/dbus.rs\<close> and the event sources that \<open>main.rs\<close>
    registers for the broker), \<open>X11_Display\<close>, \<open>Satellite\<close> (\<open>xwayland_satellite/\<close>: display allocation
    over a model of the file system and of several processes, the supervision of the child),
    \<open>Start_Up\<close> (\<open>main.rs\<close>: the children, their environment, the exit), each with its \<open>_Props\<close>.
  \<^item> \<^bold>\<open>The host clipboard\<close> (\<open>emskin-clipboard\<close>): \<open>Clip_Backend\<close> (the interface as a contract),
    \<open>Clip_X11\<close>, \<open>Clip_X11_Props\<close>, \<open>Clip_Incr\<close> (\<open>x11.rs\<close>), \<open>Clip_Wayland\<close>, \<open>Clip_Wayland_Props\<close>
    (\<open>data_control.rs\<close>, \<open>wl_data_device.rs\<close>).
  \<^item> \<^bold>\<open>The workspace bar\<close> (\<open>emskin-bar\<close>): \<open>Bar\<close>, and \<open>Bar_Props\<close> where it is run against the
    compositor's side of the protocol.
  \<^item> \<^bold>\<open>Pixels\<close>: \<open>Pixels\<close> is a buffer of bytes, the bitmap font (\<open>effect-plugins/src/bitmap_font.rs\<close>) and
    a calculus of drawing (\<open>draws w h f G\<close>: \<open>f\<close> does not panic and changes the pixel at \<open>p\<close> by \<open>G p\<close>).
    On it rest \<open>Rulers\<close> (\<open>measure.rs\<close>, \<open>recorder.rs\<close>), \<open>Blending\<close> (the blended text of
    \<open>effect-core/src/render.rs\<close>, \<open>skeleton.rs\<close> and the bar), \<open>Jelly_Paint\<close> (\<open>jelly_cursor.rs\<close>,
    \<open>cursor_trail.rs\<close>), \<open>Key_Cast_Paint\<close> (\<open>key_cast.rs\<close>), \<open>Skeleton_Paint\<close> (the frames of \<open>skeleton.rs\<close>)
    and \<open>Splash\<close> (\<open>splash.rs\<close>); the \<open>_Props\<close> give the exact pictures, show that
    nothing is written outside a buffer, that cached pictures are current and animations end.
    \<open>render_workspace\<close> in \<open>Effect_Chain\<close> is the frame that shows them; \<open>Frame_Views\<close> has the elements emskin
    adds below them (\<open>mirror_render.rs\<close>, \<open>child_frame_render.rs\<close>, \<open>surface_snapshot.rs\<close>, cursor and layer
    surfaces of \<open>winit.rs\<close>) and the read-back of a frame (\<open>capture.rs\<close>); \<open>Frame_Views_Props\<close> shows that their
    identities differ and that mirrors agree with the hit test of the pointer.
  \<^item> \<^bold>\<open>The test host\<close> (\<open>emez\<close>): \<open>Emez\<close>, \<open>Emez_Props\<close>, its focus and its clipboard manager.

  \<open>Prelude\<close>, \<open>Keyed_Store\<close> and \<open>Counters\<close> hold what they share: machine words, lists, tables
  (a \<open>HashMap\<close> is an association list with distinct keys whose iteration order is a parameter), the
  contract of identifier counters. \<open>Demo_World\<close>, \<open>Demo_Codec\<close> are concrete environments for the
  witnesses.

  \<^bold>\<open>How the parts interact.\<close> A host event (\<open>host_step\<close>, \<open>process_input_event\<close>), a client request
  (\<open>Shell\<close>) and a tick (\<open>event_loop_tick\<close>: IPC messages, new toplevels, clean-up, workspaces, the
  refresh of ext-workspace-v1, D-Bus events) each change the one record \<open>emskin\<close>; \<open>emskin_run\<close> is
  reachability by all of them. The bridge of \<open>Dbus_Bridge\<close> drives the broker and hands its events
  to the tick, which feeds the input-method bridge; that asks for host calls that
  \<open>apply_pending_state\<close> makes. The clipboard back ends report \<open>clipboard_event\<close>s to \<open>Selection\<close>.
  The bar receives what \<open>ws_refresh\<close> sends and answers with requests that the next tick carries out.

  \<^bold>\<open>Conventions.\<close> Structs are records and enums datatypes; \<open>u32\<close>, \<open>i32\<close>, \<open>u64\<close> are words; a \<open>Result\<close> is a
  sum with the error on the left; an early return is a branch. Requests to clients, winit, the bus
  or the X server are appended to a list of the state, so their order is part of a theorem.
  Libraries are parameters: \<open>env\<close>, \<open>shell\<close>, \<open>hits\<close>, \<open>views\<close> and \<open>seat\<close> are smithay, \<open>floats\<close>, \<open>paint_floats\<close>, \<open>splash_floats\<close> are
  IEEE arithmetic, \<open>shaper\<close> and \<open>ink\<close> what cosmic-text gives, \<open>json_codec\<close> and \<open>zvariant\<close> the codecs, and sockets, pipes and child processes are
  scripts of results. Their documented behaviour appears as named hypotheses (\<open>space_laws\<close>,
  \<open>focus_laws\<close>, \<open>order_laws\<close>, \<open>motion_laws\<close>, the laws of the codecs), each of which a witness
  satisfies with concrete functions. Locales state the interfaces with several users: \<open>length_framing\<close>,
  \<open>keyed_store\<close>, \<open>id_counter\<close>, \<open>clipboard_backend\<close>, \<open>echo_filter\<close>, each interpreted on the model's own
  operations.

  \<^bold>\<open>Bounds and termination.\<close> Loops are recursions on lists or have a measure; reads of a socket
  recurse over its script of results. \<open>root_of\<close> follows the parents of a surface and is a partial
  function, whose termination under acyclic parents is a property. \<open>emskin_wf n\<close> bounds the number
  of toplevels created so far by \<open>n\<close> with \<open>n + 2 < 2 ^ 64\<close>, so that no counter has wrapped.

  The offsets of the pixel routines are \<open>i32\<close>: a buffer is a \<open>canvas_of\<close> when its size in bytes is
  below \<open>2 ^ 31\<close>, and the theorems on pictures are for those.

  \<^bold>\<open>Not modelled.\<close> What smithay and the GPU make of render elements (textures, their drawing and damage);
  shaping of text; smithay's delegation macros and globals; logging;
  command-line parsing; the binding of sockets for Emacs and Wayland; signal handling; the tests.
\<close>

end
